(* ===== verification/Py_Values.thy ===== *)
theory Py_Values
  imports Main "HOL-Library.AList"
begin

text \<open>
  The prelude: Python values, strings and dictionaries as the sources use them, the result
  type of an operation that can raise, and the generic lemmas the components share.

  Strings are lists of characters with code points 0 to 255, on which the string methods below
  (\<open>strip\<close>, \<open>lower\<close>, \<open>split\<close>, \<open>splitlines\<close>, \<open>isspace\<close>) are Python's own. A dictionary is an
  association list in insertion order; \<open>AList.update\<close> is item assignment (an existing key keeps
  its place, a new one goes last) and \<open>map_of\<close> is \<open>get\<close>. Dictionary keys are scalars. A float is
  its exact value (a fraction), an infinity or a not-a-number, with the text \<open>str\<close> gives for it.
\<close>

section \<open>Values\<close>

datatype pyfloat = Finite_Float int int string | Infinite_Float bool string | Nan_Float string

datatype atom =
    ANone
  | ABool bool
  | AInt int
  | AFloat pyfloat
  | AStr string
  | ABytes string
  | AObj string string \<comment> \<open>any other object: its type name and what \<open>str\<close> returns\<close>

datatype pyval =
    Atom atom
  | PList "pyval list"
  | PTuple "pyval list"
  | PDict "(atom \<times> pyval) list"

abbreviation "PNone \<equiv> Atom ANone"
abbreviation "PBool b \<equiv> Atom (ABool b)"
abbreviation "PInt i \<equiv> Atom (AInt i)"
abbreviation "PFloat x \<equiv> Atom (AFloat x)"
abbreviation "PStr s \<equiv> Atom (AStr s)"
abbreviation "PBytes b \<equiv> Atom (ABytes b)"
abbreviation "PObj t s \<equiv> Atom (AObj t s)"

type_synonym pydict = "(string \<times> pyval) list"

text \<open>A dictionary with string keys, as a value.\<close>

definition pdict :: "pydict \<Rightarrow> pyval" where
  "pdict d = PDict (map (\<lambda>(k, v). (AStr k, v)) d)"

fun float_text :: "pyfloat \<Rightarrow> string" where
  "float_text (Finite_Float _ _ t) = t"
| "float_text (Infinite_Float _ t) = t"
| "float_text (Nan_Float t) = t"

fun isfinite :: "pyfloat \<Rightarrow> bool" where
  "isfinite (Finite_Float _ _ _) = True"
| "isfinite _ = False"

text \<open>Truth of a value.\<close>

fun truthy :: "pyval \<Rightarrow> bool" where
  "truthy (Atom ANone) = False"
| "truthy (Atom (ABool b)) = b"
| "truthy (Atom (AInt i)) = (i \<noteq> 0)"
| "truthy (Atom (AFloat (Finite_Float n _ _))) = (n \<noteq> 0)"
| "truthy (Atom (AFloat _)) = True"
| "truthy (Atom (AStr s)) = (s \<noteq> [])"
| "truthy (Atom (ABytes b)) = (b \<noteq> [])"
| "truthy (Atom (AObj _ _)) = True"
| "truthy (PList xs) = (xs \<noteq> [])"
| "truthy (PTuple xs) = (xs \<noteq> [])"
| "truthy (PDict d) = (d \<noteq> [])"

type_synonym pyitems = "(atom \<times> pyval) list"

text \<open>\<open>type(v).__name__\<close>.\<close>

fun py_type_name :: "pyval \<Rightarrow> string" where
  "py_type_name (Atom ANone) = ''NoneType''"
| "py_type_name (Atom (ABool _)) = ''bool''"
| "py_type_name (Atom (AInt _)) = ''int''"
| "py_type_name (Atom (AFloat _)) = ''float''"
| "py_type_name (Atom (AStr _)) = ''str''"
| "py_type_name (Atom (ABytes _)) = ''bytes''"
| "py_type_name (Atom (AObj t _)) = t"
| "py_type_name (PList _) = ''list''"
| "py_type_name (PTuple _) = ''tuple''"
| "py_type_name (PDict _) = ''dict''"

section \<open>Results and exceptions\<close>

text \<open>Monadic sequencing of operations that can raise: the first exception ends the sequence.\<close>

definition r_bind :: "'e + 'a \<Rightarrow> ('a \<Rightarrow> 'e + 'b) \<Rightarrow> 'e + 'b" where
  "r_bind r f = (case r of Inl e \<Rightarrow> Inl e | Inr x \<Rightarrow> f x)"

text \<open>\<open>if bad: raise e\<close> followed by the rest.\<close>

definition r_guard :: "bool \<Rightarrow> 'e \<Rightarrow> 'e + unit" where
  "r_guard bad e = (if bad then Inl e else Inr ())"

fun r_map_list :: "('a \<Rightarrow> 'e + 'b) \<Rightarrow> 'a list \<Rightarrow> 'e + 'b list" where
  "r_map_list f [] = Inr []"
| "r_map_list f (x # xs) =
     (case f x of Inl e \<Rightarrow> Inl e
      | Inr y \<Rightarrow> (case r_map_list f xs of Inl e \<Rightarrow> Inl e | Inr ys \<Rightarrow> Inr (y # ys)))"

named_theorems r_simps "rewriting of sequenced results"

lemma r_bind_simps [simp, r_simps]:
  "r_bind (Inl e) f = Inl e"
  "r_bind (Inr x) f = f x"
  by (simp_all add: r_bind_def)

lemma r_bind_eq_Inr [r_simps]: "r_bind r f = Inr y \<longleftrightarrow> (\<exists>x. r = Inr x \<and> f x = Inr y)"
  by (cases r) simp_all

lemma r_bind_eq_Inl [r_simps]:
  "r_bind r f = Inl e \<longleftrightarrow> r = Inl e \<or> (\<exists>x. r = Inr x \<and> f x = Inl e)"
  by (cases r) auto

lemma r_guard_simps [simp, r_simps]:
  "r_guard False e = Inr ()"
  "r_guard True e = Inl e"
  by (simp_all add: r_guard_def)

lemma r_guard_eq_Inr [r_simps]: "r_guard bad e = Inr u \<longleftrightarrow> \<not> bad"
  by (simp add: r_guard_def)

lemma r_guard_eq_Inl [r_simps]: "r_guard bad e = Inl e' \<longleftrightarrow> bad \<and> e' = e"
  by (auto simp: r_guard_def)

lemma r_bind_cong [fundef_cong]:
  "r = r' \<Longrightarrow> (\<And>x. r' = Inr x \<Longrightarrow> f x = g x) \<Longrightarrow> r_bind r f = r_bind r' g"
  by (cases r') simp_all

lemma r_map_list_cong [fundef_cong]:
  "xs = ys \<Longrightarrow> (\<And>x. x \<in> set ys \<Longrightarrow> f x = g x) \<Longrightarrow> r_map_list f xs = r_map_list g ys"
  by (induction ys arbitrary: xs) (auto split: sum.splits)

lemma r_map_list_Inr_length: "r_map_list f xs = Inr ys \<Longrightarrow> length ys = length xs"
  by (induction xs arbitrary: ys) (auto split: sum.splits)

lemma r_map_list_Inr_set:
  "r_map_list f xs = Inr ys \<Longrightarrow> y \<in> set ys \<Longrightarrow> \<exists>x \<in> set xs. f x = Inr y"
  by (induction xs arbitrary: ys) (auto split: sum.splits)

lemma r_map_list_Inr_id:
  "(\<And>x. x \<in> set xs \<Longrightarrow> f x = Inr x) \<Longrightarrow> r_map_list f xs = Inr xs"
  by (induction xs) auto

lemma r_map_list_fixed:
  assumes "r_map_list f xs = Inr ys" and "\<And>x y. x \<in> set xs \<Longrightarrow> f x = Inr y \<Longrightarrow> f y = Inr y"
  shows "r_map_list f ys = Inr ys"
  using assms
proof (induction xs arbitrary: ys)
  case (Cons x xs)
  from Cons.prems(1) obtain y zs where "f x = Inr y" "r_map_list f xs = Inr zs" "ys = y # zs"
    by (auto split: sum.splits)
  moreover have "f y = Inr y" using Cons.prems(2) [of x y] \<open>f x = Inr y\<close> by simp
  moreover have "r_map_list f zs = Inr zs"
    using Cons.IH [OF \<open>r_map_list f xs = Inr zs\<close>] Cons.prems(2) by (meson list.set_intros(2))
  ultimately show ?case by simp
qed simp

section \<open>Characters and strings\<close>

abbreviation ord_of :: "char \<Rightarrow> nat" where
  "ord_of c \<equiv> of_char c"

definition is_space :: "char \<Rightarrow> bool" where
  "is_space c = (let n = ord_of c in
     (9 \<le> n \<and> n \<le> 13) \<or> (28 \<le> n \<and> n \<le> 32) \<or> n = 133 \<or> n = 160)"

definition is_digit :: "char \<Rightarrow> bool" where
  "is_digit c = (let n = ord_of c in 48 \<le> n \<and> n \<le> 57)"

definition is_lower :: "char \<Rightarrow> bool" where
  "is_lower c = (let n = ord_of c in 97 \<le> n \<and> n \<le> 122)"

definition is_upper :: "char \<Rightarrow> bool" where
  "is_upper c = (let n = ord_of c in 65 \<le> n \<and> n \<le> 90)"

definition is_alnum :: "char \<Rightarrow> bool" where
  "is_alnum c = (is_digit c \<or> is_lower c \<or> is_upper c)"

text \<open>\<open>\w\<close> of a \<open>str\<close> pattern: alphanumeric characters and the underscore, here those below 256.\<close>

definition is_word :: "char \<Rightarrow> bool" where
  "is_word c = (is_alnum c \<or> c = CHR ''_'' \<or>
     (let n = ord_of c in n \<in> set [170, 178, 179, 181, 185, 186, 188, 189, 190] \<or>
        (192 \<le> n \<and> n \<noteq> 215 \<and> n \<noteq> 247)))"

text \<open>\<open>lower\<close>: the ASCII capitals and the Latin-1 capitals move up by 32.\<close>

definition lower_char :: "char \<Rightarrow> char" where
  "lower_char c = (let n = ord_of c in
     if (65 \<le> n \<and> n \<le> 90) \<or> (192 \<le> n \<and> n \<le> 222 \<and> n \<noteq> 215) then char_of (n + 32) else c)"

definition lower :: "string \<Rightarrow> string" where
  "lower s = map lower_char s"

definition upper :: "string \<Rightarrow> string" where
  "upper s = map (\<lambda>c. if is_lower c then char_of (ord_of c - 32 :: nat) else c) s"

definition strip :: "string \<Rightarrow> string" where
  "strip s = rev (dropWhile is_space (rev (dropWhile is_space s)))"

definition startswith :: "string \<Rightarrow> string \<Rightarrow> bool" where
  "startswith p s = (take (length p) s = p)"

fun contains :: "string \<Rightarrow> string \<Rightarrow> bool" where
  "contains p [] = (p = [])"
| "contains p (c # cs) = (startswith p (c # cs) \<or> contains p cs)"

text \<open>\<open>s.split(c)\<close> for a one-character separator, and \<open>c.join(parts)\<close>.\<close>

fun split_on :: "char \<Rightarrow> string \<Rightarrow> string list" where
  "split_on d [] = [[]]"
| "split_on d (c # cs) =
     (if c = d then [] # split_on d cs
      else (case split_on d cs of [] \<Rightarrow> [[c]] | p # ps \<Rightarrow> (c # p) # ps))"

fun join_with :: "string \<Rightarrow> string list \<Rightarrow> string" where
  "join_with d [] = []"
| "join_with d [p] = p"
| "join_with d (p # q # ps) = p @ d @ join_with d (q # ps)"

text \<open>\<open>str.splitlines\<close>: the line boundaries below 256, a carriage return with the line feed after
  it counting once, and no empty line after a last boundary.\<close>

definition is_line_end :: "char \<Rightarrow> bool" where
  "is_line_end c = (let n = ord_of c in (10 \<le> n \<and> n \<le> 13) \<or> (28 \<le> n \<and> n \<le> 30) \<or> n = 133)"

fun splitlines_acc :: "string \<Rightarrow> string \<Rightarrow> string list" where
  "splitlines_acc acc [] = (if acc = [] then [] else [rev acc])"
| "splitlines_acc acc [c] = (if is_line_end c then [rev acc] else [rev (c # acc)])"
| "splitlines_acc acc (c # d # cs) =
     (if is_line_end c
      then rev acc # splitlines_acc [] (if ord_of c = 13 \<and> ord_of d = 10 then cs else d # cs)
      else splitlines_acc (c # acc) (d # cs))"

definition splitlines :: "string \<Rightarrow> string list" where
  "splitlines s = splitlines_acc [] s"

definition quoted :: "string \<Rightarrow> string" where
  "quoted s = [CHR 0x27] @ s @ [CHR 0x27]"

lemma quoted_not_Nil [simp]: "quoted s \<noteq> []"
  by (simp add: quoted_def)

text \<open>Decimal text of an integer.\<close>

fun nat_text :: "nat \<Rightarrow> string" where
  "nat_text n = (if n < 10 then [char_of (48 + n)] else nat_text (n div 10) @ [char_of (48 + n mod 10)])"

declare nat_text.simps [simp del]

definition int_text :: "int \<Rightarrow> string" where
  "int_text i = (if i < 0 then ''-'' @ nat_text (nat (- i)) else nat_text (nat i))"

text \<open>\<open>str\<close> of a scalar. The text of a bytes object is its \<open>repr\<close>.\<close>

definition hex_digit :: "nat \<Rightarrow> char" where
  "hex_digit n = (if n < 10 then char_of (48 + n) else char_of (87 + n))"

definition bytes_repr_char :: "char \<Rightarrow> char \<Rightarrow> string" where
  "bytes_repr_char q c = (let n = ord_of c in
     if c = q \<or> n = 92 then [char_of (92::nat), c]
     else if n = 9 then [char_of (92::nat), CHR ''t'']
     else if n = 10 then [char_of (92::nat), CHR ''n'']
     else if n = 13 then [char_of (92::nat), CHR ''r'']
     else if n < 32 \<or> 127 \<le> n
       then [char_of (92::nat), CHR ''x'', hex_digit (n div 16), hex_digit (n mod 16)]
     else [c])"

definition bytes_repr :: "string \<Rightarrow> string" where
  "bytes_repr b = (let q = (if char_of (39::nat) \<in> set b \<and> char_of (34::nat) \<notin> set b
       then char_of (34::nat) else char_of (39::nat))
     in CHR ''b'' # q # concat (map (bytes_repr_char q) b) @ [q])"

fun atom_text :: "atom \<Rightarrow> string" where
  "atom_text ANone = ''None''"
| "atom_text (ABool b) = (if b then ''True'' else ''False'')"
| "atom_text (AInt i) = int_text i"
| "atom_text (AFloat x) = float_text x"
| "atom_text (AStr s) = s"
| "atom_text (ABytes b) = bytes_repr b"
| "atom_text (AObj _ t) = t"

text \<open>\<open>repr\<close>, and \<open>str\<close> of any value. An object's \<open>repr\<close> is taken to be its \<open>str\<close>.\<close>

definition str_repr_char :: "char \<Rightarrow> char \<Rightarrow> string" where
  "str_repr_char q c = (let n = ord_of c in
     if c = q \<or> n = 92 then [char_of (92::nat), c]
     else if n = 9 then [char_of (92::nat), CHR ''t'']
     else if n = 10 then [char_of (92::nat), CHR ''n'']
     else if n = 13 then [char_of (92::nat), CHR ''r'']
     else if n < 32 \<or> (127 \<le> n \<and> n \<le> 160) \<or> n = 173
       then [char_of (92::nat), CHR ''x'', hex_digit (n div 16), hex_digit (n mod 16)]
     else [c])"

definition str_repr :: "string \<Rightarrow> string" where
  "str_repr s = (let q = (if char_of (39::nat) \<in> set s \<and> char_of (34::nat) \<notin> set s
       then char_of (34::nat) else char_of (39::nat))
     in q # concat (map (str_repr_char q) s) @ [q])"

fun atom_repr :: "atom \<Rightarrow> string" where
  "atom_repr (AStr s) = str_repr s"
| "atom_repr a = atom_text a"

fun val_repr :: "pyval \<Rightarrow> string"
and list_repr :: "pyval list \<Rightarrow> string list"
and items_repr :: "(atom \<times> pyval) list \<Rightarrow> string list"
where
  "val_repr (Atom a) = atom_repr a"
| "val_repr (PList xs) = ''['' @ join_with '', '' (list_repr xs) @ '']''"
| "val_repr (PTuple xs) =
     ''('' @ join_with '', '' (list_repr xs) @ (if length xs = 1 then '',)'' else '')'')"
| "val_repr (PDict kvs) = ''{'' @ join_with '', '' (items_repr kvs) @ ''}''"
| "list_repr [] = []"
| "list_repr (x # xs) = val_repr x # list_repr xs"
| "items_repr [] = []"
| "items_repr ((k, v) # kvs) = (atom_repr k @ '': '' @ val_repr v) # items_repr kvs"

fun val_text :: "pyval \<Rightarrow> string" where
  "val_text (Atom a) = atom_text a"
| "val_text v = val_repr v"

section \<open>Dictionaries\<close>

abbreviation dict_set :: "'k \<Rightarrow> 'v \<Rightarrow> ('k \<times> 'v) list \<Rightarrow> ('k \<times> 'v) list" where
  "dict_set k v d \<equiv> AList.update k v d"

definition dict_pop :: "'k \<Rightarrow> ('k \<times> 'v) list \<Rightarrow> ('k \<times> 'v) list" where
  "dict_pop k d = filter (\<lambda>(k', _). k' \<noteq> k) d"

definition wf_dict :: "('k \<times> 'v) list \<Rightarrow> bool" where
  "wf_dict d = distinct (map fst d)"

text \<open>Building a dictionary from pairs, a later pair replacing the value of an earlier one.\<close>

definition dict_of :: "('k \<times> 'v) list \<Rightarrow> ('k \<times> 'v) list" where
  "dict_of kvs = foldl (\<lambda>d (k, v). dict_set k v d) [] kvs"

lemma map_of_dict_set: "map_of (dict_set k v d) = (map_of d)(k \<mapsto> v)"
  by (rule update_conv')

lemma map_of_dict_set_iff: "map_of (dict_set k v d) k' = (if k' = k then Some v else map_of d k')"
  by (simp add: update_conv)

lemma wf_dict_Nil [simp]: "wf_dict []"
  by (simp add: wf_dict_def)

lemma wf_dict_set [simp]: "wf_dict d \<Longrightarrow> wf_dict (dict_set k v d)"
  by (simp add: wf_dict_def distinct_update)

lemma dict_set_fresh: "map_of d k = None \<Longrightarrow> dict_set k v d = d @ [(k, v)]"
  by (induction d) (auto split: if_splits)

lemma set_dict_set_fresh: "map_of d k = None \<Longrightarrow> set (dict_set k v d) = insert (k, v) (set d)"
  by (simp add: dict_set_fresh)

lemma map_of_dict_pop: "map_of (dict_pop k d) = (map_of d)(k := None)"
  by (induction d) (auto simp: dict_pop_def)

lemma wf_dict_pop [simp]: "wf_dict d \<Longrightarrow> wf_dict (dict_pop k d)"
  by (induction d) (auto simp: wf_dict_def dict_pop_def)

lemma map_of_eq_Some_iff_wf: "wf_dict d \<Longrightarrow> map_of d k = Some v \<longleftrightarrow> (k, v) \<in> set d"
  by (simp add: wf_dict_def)

lemma dict_of_snoc: "dict_of (kvs @ [(k, v)]) = dict_set k v (dict_of kvs)"
  by (simp add: dict_of_def)

lemma dict_of_Nil [simp]: "dict_of [] = []"
  by (simp add: dict_of_def)

lemma wf_dict_of [simp]: "wf_dict (dict_of kvs)"
proof (induction kvs rule: rev_induct)
  case (snoc x xs)
  then show ?case by (cases x) (simp add: dict_of_snoc)
qed simp

lemma map_of_dict_of: "map_of (dict_of kvs) = map_of (rev kvs)"
proof (induction kvs rule: rev_induct)
  case (snoc x xs)
  then show ?case by (cases x) (simp add: dict_of_snoc map_of_dict_set)
qed simp

lemma set_dict_of: "set (dict_of kvs) \<subseteq> set kvs"
proof
  fix p assume "p \<in> set (dict_of kvs)"
  then have "map_of (dict_of kvs) (fst p) = Some (snd p)"
    using wf_dict_of [of kvs] by (simp add: map_of_eq_Some_iff_wf)
  then show "p \<in> set kvs" by (metis map_of_SomeD map_of_dict_of set_rev surjective_pairing)
qed

lemma keys_dict_of: "fst ` set (dict_of kvs) = fst ` set kvs"
proof -
  have "dom (map_of (dict_of kvs)) = dom (map_of (rev kvs))" by (simp add: map_of_dict_of)
  then show ?thesis by (simp add: dom_map_of_conv_image_fst)
qed

lemma dict_of_append_fresh:
  "wf_dict (d @ kvs) \<Longrightarrow> foldl (\<lambda>d (k, v). dict_set k v d) d kvs = d @ kvs"
proof (induction kvs arbitrary: d)
  case (Cons p kvs)
  obtain k v where p: "p = (k, v)" by force
  have "map_of d k = None" using Cons.prems p by (auto simp: wf_dict_def map_of_eq_None_iff)
  then show ?case using Cons.IH [of "d @ [(k, v)]"] Cons.prems p by (simp add: dict_set_fresh)
qed simp

lemma dict_of_id: "wf_dict kvs \<Longrightarrow> dict_of kvs = kvs"
  using dict_of_append_fresh [of "[]" kvs] by (simp add: dict_of_def)

lemma length_dict_set: "length (dict_set k v d) \<le> Suc (length d)"
  by (induction d) auto

lemma length_dict_of: "length (dict_of kvs) \<le> length kvs"
proof (induction kvs rule: rev_induct)
  case (snoc x xs)
  then show ?case
    using length_dict_set [of "fst x" "snd x" "dict_of xs"] by (cases x) (simp add: dict_of_snoc)
qed simp

section \<open>Lemmas on strings\<close>

lemma dropWhile_hd: "dropWhile P xs = [] \<or> \<not> P (hd (dropWhile P xs))"
  using hd_dropWhile by blast

lemma dropWhile_id: "xs = [] \<or> \<not> P (hd xs) \<Longrightarrow> dropWhile P xs = xs"
  by (cases xs) auto

lemma rev_dropWhile_rev_hd:
  "rev (dropWhile P (rev xs)) = [] \<or> hd (rev (dropWhile P (rev xs))) = hd xs"
proof -
  have "\<exists>ys. xs = rev (dropWhile P (rev xs)) @ ys"
    by (metis rev_append rev_rev_ident takeWhile_dropWhile_id)
  then obtain ys where "xs = rev (dropWhile P (rev xs)) @ ys" by blast
  then show ?thesis by (metis hd_append2)
qed

lemma strip_ends: "strip s = [] \<or> (\<not> is_space (hd (strip s)) \<and> \<not> is_space (last (strip s)))"
proof (cases "strip s = []")
  case False
  let ?t = "dropWhile is_space s"
  have ne: "dropWhile is_space (rev ?t) \<noteq> []"
    using False by (simp add: strip_def)
  have "hd (strip s) = hd ?t"
    using False rev_dropWhile_rev_hd [of is_space ?t] unfolding strip_def by blast
  moreover have "?t \<noteq> []" using ne by (metis dropWhile.simps(1) rev.simps(1))
  then have "\<not> is_space (hd ?t)" using dropWhile_hd [of is_space s] by blast
  moreover have "last (strip s) = hd (dropWhile is_space (rev ?t))"
    using ne by (simp only: strip_def last_rev)
  moreover have "\<not> is_space (hd (dropWhile is_space (rev ?t)))"
    using ne dropWhile_hd [of is_space "rev ?t"] by blast
  ultimately show ?thesis by simp
qed simp

lemma strip_id: "s = [] \<or> (\<not> is_space (hd s) \<and> \<not> is_space (last s)) \<Longrightarrow> strip s = s"
  by (auto simp: strip_def dropWhile_id hd_rev)

lemma strip_strip [simp]: "strip (strip s) = strip s"
  using strip_ends [of s] by (intro strip_id) auto

lemma strip_Nil [simp]: "strip [] = []"
  by (simp add: strip_def)

lemma length_strip: "length (strip s) \<le> length s"
proof -
  have "length (strip s) \<le> length (dropWhile is_space s)"
    unfolding strip_def by (metis length_dropWhile_le length_rev)
  also have "\<dots> \<le> length s" by (rule length_dropWhile_le)
  finally show ?thesis .
qed

lemma set_strip: "set (strip s) \<subseteq> set s"
  unfolding strip_def by (auto dest!: set_dropWhileD)

lemma length_lower [simp]: "length (lower s) = length s"
  by (simp add: lower_def)

lemma lower_eq_Nil [simp]: "lower s = [] \<longleftrightarrow> s = []"
  by (simp add: lower_def)

lemma lower_char_idem [simp]: "lower_char (lower_char c) = lower_char c"
  by (auto simp: lower_char_def Let_def)

lemma lower_idem [simp]: "lower (lower s) = lower s"
  by (simp add: lower_def)

lemma lower_append: "lower (s @ t) = lower s @ lower t"
  by (simp add: lower_def)

lemma is_space_lower_char [simp]: "is_space (lower_char c) = is_space c"
  by (auto simp: lower_char_def is_space_def Let_def)

lemma dropWhile_lower: "dropWhile is_space (lower s) = lower (dropWhile is_space s)"
  by (induction s) (auto simp: lower_def)

lemma rev_lower: "rev (lower s) = lower (rev s)"
  by (simp add: lower_def rev_map)

lemma strip_lower: "strip (lower s) = lower (strip s)"
  by (simp add: strip_def dropWhile_lower rev_lower)

lemma split_on_not_Nil [simp]: "split_on d s \<noteq> []"
  by (induction s) (auto split: list.splits)

lemma join_with_Cons: "join_with d (p # ps) = (if ps = [] then p else p @ d @ join_with d ps)"
  by (cases ps) auto

lemma join_split_on: "join_with [d] (split_on d s) = s"
proof (induction s)
  case (Cons c cs)
  then show ?case
    by (cases "split_on d cs") (auto simp: join_with_Cons split: if_splits)
qed simp

lemma split_on_parts: "p \<in> set (split_on d s) \<Longrightarrow> d \<notin> set p"
  by (induction s arbitrary: p) (auto split: list.splits if_splits)

lemma split_on_no_sep: "d \<notin> set p \<Longrightarrow> split_on d p = [p]"
  by (induction p) auto

lemma split_on_append: "d \<notin> set p \<Longrightarrow> split_on d (p @ d # s) = p # split_on d s"
  by (induction p) auto

lemma split_on_join:
  assumes "ps \<noteq> []" and "\<And>p. p \<in> set ps \<Longrightarrow> d \<notin> set p"
  shows "split_on d (join_with [d] ps) = ps"
  using assms
proof (induction ps rule: induct_list012)
  case (3 p q ps)
  then show ?case by (simp add: split_on_append)
qed (auto simp: split_on_no_sep)

lemma splitlines_acc_no_end:
  "l \<in> set (splitlines_acc acc s) \<Longrightarrow> (\<forall>c \<in> set acc. \<not> is_line_end c) \<Longrightarrow> c \<in> set l \<Longrightarrow> \<not> is_line_end c"
  by (induction acc s arbitrary: l rule: splitlines_acc.induct) (auto split: if_splits)

lemma splitlines_no_end: "l \<in> set (splitlines s) \<Longrightarrow> c \<in> set l \<Longrightarrow> \<not> is_line_end c"
  unfolding splitlines_def by (rule splitlines_acc_no_end) auto

lemma startswith_append [simp]: "startswith p (p @ s)"
  by (simp add: startswith_def)

lemma contains_append: "contains p (xs @ p @ ys)"
proof (induction xs)
  case Nil
  have "startswith p (p @ ys)" by simp
  then show ?case by (cases "p @ ys") (simp_all add: startswith_def)
qed simp

lemma nat_text_not_Nil [simp]: "nat_text n \<noteq> []"
  by (subst nat_text.simps) simp

lemma nat_text_digits: "c \<in> set (nat_text n) \<Longrightarrow> is_digit c"
proof (induction n rule: nat_text.induct)
  case (1 n)
  have d: "is_digit (char_of (48 + m))" if "m < 10" for m :: nat
    using that by (simp add: is_digit_def)
  show ?case
  proof (cases "n < 10")
    case True
    then show ?thesis using "1.prems" d [of n] by (simp add: nat_text.simps [of n])
  next
    case False
    then have "c \<in> set (nat_text (n div 10)) \<or> c = char_of (48 + n mod 10)"
      using "1.prems" by (subst (asm) nat_text.simps) auto
    then show ?thesis using "1.IH" [OF False] d [of "n mod 10"] by auto
  qed
qed

lemma nat_text_inj: "nat_text m = nat_text n \<Longrightarrow> m = n"
proof (induction m arbitrary: n rule: nat_text.induct)
  case (1 m)
  have eq: "nat_text m = nat_text n" by (rule "1.prems")
  have inj: "a = b" if "a < 10" "b < 10" "char_of (48 + a) = (char_of (48 + b) :: char)" for a b :: nat
    using that arg_cong [OF that(3), of "of_char :: char \<Rightarrow> nat"] by simp
  show ?case
  proof (cases "m < 10 \<or> n < 10")
    case True
    then show ?thesis
      using eq inj [of m n]
      by (auto simp: nat_text.simps [of m] nat_text.simps [of n] split: if_splits
          dest: arg_cong [of _ _ length] sym)
  next
    case False
    then have a: "nat_text (m div 10) = nat_text (n div 10)"
      and b: "char_of (48 + m mod 10) = (char_of (48 + n mod 10) :: char)"
      using eq by (auto simp: nat_text.simps [of m] nat_text.simps [of n])
    have "m div 10 = n div 10" using "1.IH" [OF _ a] False by simp
    moreover have "m mod 10 = n mod 10" using inj [of "m mod 10" "n mod 10"] b by simp
    ultimately show ?thesis by (metis div_mult_mod_eq)
  qed
qed

section \<open>Equality of values\<close>

text \<open>
  Python's \<open>==\<close>: numbers, booleans included, compare by value, sequences element by element,
  dictionaries by their keys whatever the order. A not-a-number inside a container equals itself,
  the containers comparing identity first. Dictionary keys are compared as strings are.
\<close>

fun atom_num :: "atom \<Rightarrow> (int \<times> int) option" where
  "atom_num (ABool b) = Some (if b then 1 else 0, 1)"
| "atom_num (AInt i) = Some (i, 1)"
| "atom_num (AFloat (Finite_Float n d _)) = Some (n, d)"
| "atom_num _ = None"

definition atom_eq :: "atom \<Rightarrow> atom \<Rightarrow> bool" where
  "atom_eq a b = (case (atom_num a, atom_num b) of (Some x, Some y) \<Rightarrow> x = y | _ \<Rightarrow> a = b)"

fun val_eq :: "pyval \<Rightarrow> pyval \<Rightarrow> bool"
and list_eq :: "pyval list \<Rightarrow> pyval list \<Rightarrow> bool"
and items_eq :: "(atom \<times> pyval) list \<Rightarrow> (atom \<times> pyval) list \<Rightarrow> bool"
where
  "val_eq (Atom a) v = (case v of Atom b \<Rightarrow> atom_eq a b | _ \<Rightarrow> False)"
| "val_eq (PList xs) v = (case v of PList ys \<Rightarrow> list_eq xs ys | _ \<Rightarrow> False)"
| "val_eq (PTuple xs) v = (case v of PTuple ys \<Rightarrow> list_eq xs ys | _ \<Rightarrow> False)"
| "val_eq (PDict d) v = (case v of PDict e \<Rightarrow> length d = length e \<and> items_eq d e | _ \<Rightarrow> False)"
| "list_eq [] ys = (ys = [])"
| "list_eq (x # xs) ys = (case ys of [] \<Rightarrow> False | y # ys \<Rightarrow> val_eq x y \<and> list_eq xs ys)"
| "items_eq [] e = True"
| "items_eq ((k, v) # d) e =
     (case map_of e k of None \<Rightarrow> False | Some w \<Rightarrow> val_eq v w \<and> items_eq d e)"

text \<open>Values whose dictionaries have each key once.\<close>

fun wf_val :: "pyval \<Rightarrow> bool"
and wf_list :: "pyval list \<Rightarrow> bool"
and wf_items :: "(atom \<times> pyval) list \<Rightarrow> bool"
where
  "wf_val (Atom a) = True"
| "wf_val (PList xs) = wf_list xs"
| "wf_val (PTuple xs) = wf_list xs"
| "wf_val (PDict d) = (wf_dict d \<and> wf_items d)"
| "wf_list [] = True"
| "wf_list (x # xs) = (wf_val x \<and> wf_list xs)"
| "wf_items [] = True"
| "wf_items ((k, v) # d) = (wf_val v \<and> wf_items d)"

lemma atom_eq_refl [simp]: "atom_eq a a"
  by (cases "atom_num a") (simp_all add: atom_eq_def)

lemma items_eq_iff:
  "items_eq d e \<longleftrightarrow> (\<forall>(k, v) \<in> set d. \<exists>w. map_of e k = Some w \<and> val_eq v w)"
  by (induction d) (auto split: option.splits)

lemma wf_items_iff: "wf_items d \<longleftrightarrow> (\<forall>(k, v) \<in> set d. wf_val v)"
  by (induction d) auto

lemma val_eq_refl:
  "wf_val v \<Longrightarrow> val_eq v v"
  "wf_list xs \<Longrightarrow> list_eq xs xs"
  "wf_items d \<Longrightarrow> \<forall>(k, v) \<in> set d. val_eq v v"
proof (induction v and xs and d rule: wf_val_wf_list_wf_items.induct)
  case (4 d)
  then have "items_eq d d"
    unfolding items_eq_iff by (auto simp: map_of_eq_Some_iff_wf)
  then show ?case by simp
qed auto

lemma wf_items_dict_of: "wf_items d \<Longrightarrow> wf_items (dict_of d)"
  using set_dict_of [of d] unfolding wf_items_iff by blast

end
