(* ===== verification/Errors.thy ===== *)
theory Errors
  imports Py_Values
begin

text \<open>
  The public error facade (src/src/cobalt_wren/api/errors.py, core/errors.py,
  apps/automation/services/errors.py): the exception classes and their bases, the constructor of
  every class with the checks of \<open>FrameworkError.__init__\<close>, and \<open>to_safe_dict\<close>.
  A constructor is translated as in the source, on the instance whose class is the first argument,
  so that a subclass runs its base's constructor. A raised exception is a value of \<open>exn\<close>.
\<close>

section \<open>Exception classes\<close>

datatype exn_class =
    Exception_cls
  | ValueError_cls | TypeError_cls | KeyError_cls | PermissionError_cls | RuntimeError_cls
  | AttributeError_cls
  | FrameworkError_cls | ConfigError_cls | ArtifactStoreError_cls | ArtifactValidationError_cls
  | ArtifactConflictError_cls | ArtifactIntegrityError_cls | ArtifactPersistenceError_cls
  | CheckpointStoreError_cls | CheckpointValidationError_cls | CheckpointConflictError_cls
  | CheckpointIntegrityError_cls | CheckpointPersistenceError_cls
  | PluginRegistrationError_cls | PluginResolutionError_cls | PluginValidationError_cls
  | RuntimeAssemblyError_cls | WorkflowPreparationError_cls | ExecutionError_cls
  | SafetyBoundaryError_cls | WorkflowCancelledError_cls | WorkflowTimeoutError_cls
  | WorkflowCheckpointCompatibilityError_cls | ArtifactEmissionError_cls
  | ArtifactEmissionValidationError_cls | ArtifactSlotError_cls
  | ArtifactOccurrenceError_cls | ArtifactSerializationContractError_cls
  | ArtifactEmissionConflict_cls | CobaltWrenError_cls | ValidationError_cls
  | DependencyError_cls | MissingRuntimeDependencyError_cls | GraphExecutionError_cls
  | WorkflowConfigurationError_cls | NativeSchemaValidationError_cls
  | NativeConfigurationError_cls | Other_cls string

fun base_class :: "exn_class \<Rightarrow> exn_class option" where
  "base_class Exception_cls = None"
| "base_class ConfigError_cls = Some FrameworkError_cls"
| "base_class ArtifactStoreError_cls = Some FrameworkError_cls"
| "base_class ArtifactValidationError_cls = Some ArtifactStoreError_cls"
| "base_class ArtifactConflictError_cls = Some ArtifactStoreError_cls"
| "base_class ArtifactIntegrityError_cls = Some ArtifactStoreError_cls"
| "base_class ArtifactPersistenceError_cls = Some ArtifactStoreError_cls"
| "base_class CheckpointStoreError_cls = Some FrameworkError_cls"
| "base_class CheckpointValidationError_cls = Some CheckpointStoreError_cls"
| "base_class CheckpointConflictError_cls = Some CheckpointStoreError_cls"
| "base_class CheckpointIntegrityError_cls = Some CheckpointStoreError_cls"
| "base_class CheckpointPersistenceError_cls = Some CheckpointStoreError_cls"
| "base_class PluginRegistrationError_cls = Some FrameworkError_cls"
| "base_class PluginResolutionError_cls = Some FrameworkError_cls"
| "base_class PluginValidationError_cls = Some FrameworkError_cls"
| "base_class RuntimeAssemblyError_cls = Some FrameworkError_cls"
| "base_class WorkflowPreparationError_cls = Some RuntimeAssemblyError_cls"
| "base_class ExecutionError_cls = Some FrameworkError_cls"
| "base_class SafetyBoundaryError_cls = Some FrameworkError_cls"
| "base_class WorkflowCancelledError_cls = Some ExecutionError_cls"
| "base_class WorkflowTimeoutError_cls = Some ExecutionError_cls"
| "base_class WorkflowCheckpointCompatibilityError_cls = Some ExecutionError_cls"
| "base_class ArtifactEmissionError_cls = Some ArtifactValidationError_cls"
| "base_class ArtifactEmissionValidationError_cls = Some ArtifactEmissionError_cls"
| "base_class ArtifactSlotError_cls = Some ArtifactEmissionValidationError_cls"
| "base_class ArtifactOccurrenceError_cls = Some ArtifactEmissionValidationError_cls"
| "base_class ArtifactSerializationContractError_cls = Some ArtifactEmissionValidationError_cls"
| "base_class ArtifactEmissionConflict_cls = Some ArtifactConflictError_cls"
| "base_class CobaltWrenError_cls = Some Exception_cls"
| "base_class ValidationError_cls = Some CobaltWrenError_cls"
| "base_class DependencyError_cls = Some CobaltWrenError_cls"
| "base_class MissingRuntimeDependencyError_cls = Some DependencyError_cls"
| "base_class GraphExecutionError_cls = Some CobaltWrenError_cls"
| "base_class WorkflowConfigurationError_cls = Some CobaltWrenError_cls"
| "base_class NativeSchemaValidationError_cls = Some ValueError_cls"
| "base_class NativeConfigurationError_cls = Some ValueError_cls"
| "base_class _ = Some Exception_cls"

text \<open>The distance to \<open>Exception\<close>: the longest chain is that of the artifact slot errors.\<close>

fun class_depth :: "exn_class \<Rightarrow> nat" where
  "class_depth Exception_cls = 0"
| "class_depth FrameworkError_cls = 1"
| "class_depth CobaltWrenError_cls = 1"
| "class_depth ValueError_cls = 1"
| "class_depth ConfigError_cls = 2"
| "class_depth ArtifactStoreError_cls = 2"
| "class_depth ArtifactValidationError_cls = 3"
| "class_depth ArtifactConflictError_cls = 3"
| "class_depth ArtifactIntegrityError_cls = 3"
| "class_depth ArtifactPersistenceError_cls = 3"
| "class_depth CheckpointStoreError_cls = 2"
| "class_depth CheckpointValidationError_cls = 3"
| "class_depth CheckpointConflictError_cls = 3"
| "class_depth CheckpointIntegrityError_cls = 3"
| "class_depth CheckpointPersistenceError_cls = 3"
| "class_depth PluginRegistrationError_cls = 2"
| "class_depth PluginResolutionError_cls = 2"
| "class_depth PluginValidationError_cls = 2"
| "class_depth RuntimeAssemblyError_cls = 2"
| "class_depth WorkflowPreparationError_cls = 3"
| "class_depth ExecutionError_cls = 2"
| "class_depth SafetyBoundaryError_cls = 2"
| "class_depth WorkflowCancelledError_cls = 3"
| "class_depth WorkflowTimeoutError_cls = 3"
| "class_depth WorkflowCheckpointCompatibilityError_cls = 3"
| "class_depth ArtifactEmissionError_cls = 4"
| "class_depth ArtifactEmissionValidationError_cls = 5"
| "class_depth ArtifactSlotError_cls = 6"
| "class_depth ArtifactOccurrenceError_cls = 6"
| "class_depth ArtifactSerializationContractError_cls = 6"
| "class_depth ArtifactEmissionConflict_cls = 4"
| "class_depth ValidationError_cls = 2"
| "class_depth DependencyError_cls = 2"
| "class_depth MissingRuntimeDependencyError_cls = 3"
| "class_depth GraphExecutionError_cls = 2"
| "class_depth WorkflowConfigurationError_cls = 2"
| "class_depth NativeSchemaValidationError_cls = 2"
| "class_depth NativeConfigurationError_cls = 2"
| "class_depth _ = 1"

lemma base_class_depth: "base_class c = Some b \<Longrightarrow> class_depth c = Suc (class_depth b)"
  by (cases c) auto

text \<open>\<open>isinstance\<close> of an exception of class \<open>c\<close> against \<open>d\<close>: up the bases.\<close>

function is_subclass :: "exn_class \<Rightarrow> exn_class \<Rightarrow> bool" where
  "is_subclass c d = (c = d \<or> (case base_class c of None \<Rightarrow> False | Some b \<Rightarrow> is_subclass b d))"
  by pat_completeness auto
termination
  by (relation "measure (\<lambda>(c, d). class_depth c)") (auto dest: base_class_depth)

declare is_subclass.simps [simp del]

lemma is_subclass_refl [simp]: "is_subclass c c"
  by (simp add: is_subclass.simps)

lemma is_subclass_trans: "is_subclass b c \<Longrightarrow> is_subclass c d \<Longrightarrow> is_subclass b d"
proof (induction b c rule: is_subclass.induct)
  case (1 b c)
  show ?case
  proof (cases "b = c")
    case False
    then obtain a where a: "base_class b = Some a" "is_subclass a c"
      using "1.prems"(1) by (subst (asm) is_subclass.simps) (auto split: option.splits)
    then have "is_subclass a d" using "1.IH" [OF a] "1.prems"(2) by blast
    with a show ?thesis by (subst is_subclass.simps) simp
  qed (use "1.prems" in simp)
qed

text \<open>\<open>type(exc).__name__\<close>.\<close>

fun class_name :: "exn_class \<Rightarrow> string" where
  "class_name Exception_cls = ''Exception''"
| "class_name ValueError_cls = ''ValueError''"
| "class_name TypeError_cls = ''TypeError''"
| "class_name KeyError_cls = ''KeyError''"
| "class_name PermissionError_cls = ''PermissionError''"
| "class_name RuntimeError_cls = ''RuntimeError''"
| "class_name AttributeError_cls = ''AttributeError''"
| "class_name FrameworkError_cls = ''FrameworkError''"
| "class_name ConfigError_cls = ''ConfigError''"
| "class_name ArtifactStoreError_cls = ''ArtifactStoreError''"
| "class_name ArtifactValidationError_cls = ''ArtifactValidationError''"
| "class_name ArtifactConflictError_cls = ''ArtifactConflictError''"
| "class_name ArtifactIntegrityError_cls = ''ArtifactIntegrityError''"
| "class_name ArtifactPersistenceError_cls = ''ArtifactPersistenceError''"
| "class_name CheckpointStoreError_cls = ''CheckpointStoreError''"
| "class_name CheckpointValidationError_cls = ''CheckpointValidationError''"
| "class_name CheckpointConflictError_cls = ''CheckpointConflictError''"
| "class_name CheckpointIntegrityError_cls = ''CheckpointIntegrityError''"
| "class_name CheckpointPersistenceError_cls = ''CheckpointPersistenceError''"
| "class_name PluginRegistrationError_cls = ''PluginRegistrationError''"
| "class_name PluginResolutionError_cls = ''PluginResolutionError''"
| "class_name PluginValidationError_cls = ''PluginValidationError''"
| "class_name RuntimeAssemblyError_cls = ''RuntimeAssemblyError''"
| "class_name WorkflowPreparationError_cls = ''WorkflowPreparationError''"
| "class_name ExecutionError_cls = ''ExecutionError''"
| "class_name SafetyBoundaryError_cls = ''SafetyBoundaryError''"
| "class_name WorkflowCancelledError_cls = ''WorkflowCancelledError''"
| "class_name WorkflowTimeoutError_cls = ''WorkflowTimeoutError''"
| "class_name WorkflowCheckpointCompatibilityError_cls = ''WorkflowCheckpointCompatibilityError''"
| "class_name ArtifactEmissionError_cls = ''ArtifactEmissionError''"
| "class_name ArtifactEmissionValidationError_cls = ''ArtifactEmissionValidationError''"
| "class_name ArtifactSlotError_cls = ''ArtifactSlotError''"
| "class_name ArtifactOccurrenceError_cls = ''ArtifactOccurrenceError''"
| "class_name ArtifactSerializationContractError_cls = ''ArtifactSerializationContractError''"
| "class_name ArtifactEmissionConflict_cls = ''ArtifactEmissionConflict''"
| "class_name CobaltWrenError_cls = ''CobaltWrenError''"
| "class_name ValidationError_cls = ''ValidationError''"
| "class_name DependencyError_cls = ''DependencyError''"
| "class_name MissingRuntimeDependencyError_cls = ''MissingRuntimeDependencyError''"
| "class_name GraphExecutionError_cls = ''GraphExecutionError''"
| "class_name WorkflowConfigurationError_cls = ''WorkflowConfigurationError''"
| "class_name NativeSchemaValidationError_cls = ''NativeSchemaValidationError''"
| "class_name NativeConfigurationError_cls = ''NativeConfigurationError''"
| "class_name (Other_cls n) = n"

section \<open>Raised exceptions\<close>

record framework_error =
  fe_class :: exn_class
  fe_safe_message :: string
  fe_code :: string
  fe_category :: string
  fe_component :: "string option"
  fe_retryable :: "bool option"
  fe_metadata :: pydict

datatype exn = FrameworkExn framework_error | PlainExn exn_class string

type_synonym 'a res = "exn + 'a"

fun exn_class_of :: "exn \<Rightarrow> exn_class" where
  "exn_class_of (FrameworkExn e) = fe_class e"
| "exn_class_of (PlainExn c _) = c"

definition isinstance :: "exn \<Rightarrow> exn_class \<Rightarrow> bool" where
  "isinstance x d = is_subclass (exn_class_of x) d"

text \<open>\<open>str(exc)\<close>.\<close>

fun exn_text :: "exn \<Rightarrow> string" where
  "exn_text (FrameworkExn e) = fe_safe_message e"
| "exn_text (PlainExn _ t) = t"

text \<open>The constructor of the base class; the string arguments are strings, so its type checks
  leave the emptiness checks.\<close>

definition FrameworkError_init ::
  "exn_class \<Rightarrow> string \<Rightarrow> string \<Rightarrow> string \<Rightarrow> string option \<Rightarrow> bool option \<Rightarrow> pydict \<Rightarrow> exn" where
  "FrameworkError_init cls msg cd cat cpt retry meta =
     (if msg = [] then PlainExn ValueError_cls ''safe_message must not be empty''
      else if cd = [] then PlainExn ValueError_cls ''code must not be empty''
      else if cat = [] then PlainExn ValueError_cls ''category must not be empty''
      else FrameworkExn \<lparr>fe_class = cls, fe_safe_message = msg, fe_code = cd, fe_category = cat,
             fe_component = cpt, fe_retryable = retry, fe_metadata = meta\<rparr>)"

definition to_safe_dict :: "framework_error \<Rightarrow> pydict" where
  "to_safe_dict e =
     [(''category'', PStr (fe_category e)), (''code'', PStr (fe_code e)),
      (''safe_message'', PStr (fe_safe_message e))]
     @ (case fe_component e of None \<Rightarrow> [] | Some c \<Rightarrow> [(''component'', PStr c)])
     @ (case fe_retryable e of None \<Rightarrow> [] | Some r \<Rightarrow> [(''retryable'', PBool r)])
     @ (if fe_metadata e = [] then [] else [(''metadata'', pdict (fe_metadata e))])"

definition ConfigError_init :: "exn_class \<Rightarrow> string \<Rightarrow> string \<Rightarrow> string option \<Rightarrow> bool option \<Rightarrow> pydict \<Rightarrow> exn" where
  "ConfigError_init cls safe_message code component retryable metadata =
     FrameworkError_init cls safe_message code ''config'' component retryable metadata"

definition ArtifactStoreError_init :: "exn_class \<Rightarrow> string \<Rightarrow> string \<Rightarrow> string option \<Rightarrow> bool option \<Rightarrow> pydict \<Rightarrow> exn" where
  "ArtifactStoreError_init cls safe_message code component retryable metadata =
     FrameworkError_init cls safe_message code ''artifact_store'' component retryable metadata"

definition ArtifactValidationError_init :: "exn_class \<Rightarrow> string \<Rightarrow> string \<Rightarrow> string option \<Rightarrow> pydict \<Rightarrow> exn" where
  "ArtifactValidationError_init cls safe_message code component metadata =
     ArtifactStoreError_init cls safe_message code component None metadata"

definition ArtifactConflictError_init :: "exn_class \<Rightarrow> string \<Rightarrow> string \<Rightarrow> string option \<Rightarrow> pydict \<Rightarrow> exn" where
  "ArtifactConflictError_init cls safe_message code component metadata =
     ArtifactStoreError_init cls safe_message code component None metadata"

definition ArtifactIntegrityError_init :: "exn_class \<Rightarrow> string \<Rightarrow> string \<Rightarrow> string option \<Rightarrow> bool option \<Rightarrow> pydict \<Rightarrow> exn" where
  "ArtifactIntegrityError_init cls safe_message code component retryable metadata =
     ArtifactStoreError_init cls safe_message code component retryable metadata"

definition ArtifactPersistenceError_init :: "exn_class \<Rightarrow> string \<Rightarrow> string \<Rightarrow> string option \<Rightarrow> bool option \<Rightarrow> pydict \<Rightarrow> exn" where
  "ArtifactPersistenceError_init cls safe_message code component retryable metadata =
     ArtifactStoreError_init cls safe_message code component retryable metadata"

definition CheckpointStoreError_init :: "exn_class \<Rightarrow> string \<Rightarrow> string \<Rightarrow> string option \<Rightarrow> bool option \<Rightarrow> pydict \<Rightarrow> exn" where
  "CheckpointStoreError_init cls safe_message code component retryable metadata =
     FrameworkError_init cls safe_message code ''checkpoint_store'' component retryable metadata"

definition CheckpointValidationError_init :: "exn_class \<Rightarrow> string \<Rightarrow> string \<Rightarrow> string option \<Rightarrow> pydict \<Rightarrow> exn" where
  "CheckpointValidationError_init cls safe_message code component metadata =
     CheckpointStoreError_init cls safe_message code component None metadata"

definition CheckpointConflictError_init :: "exn_class \<Rightarrow> string \<Rightarrow> string \<Rightarrow> string option \<Rightarrow> pydict \<Rightarrow> exn" where
  "CheckpointConflictError_init cls safe_message code component metadata =
     CheckpointStoreError_init cls safe_message code component None metadata"

definition CheckpointIntegrityError_init :: "exn_class \<Rightarrow> string \<Rightarrow> string \<Rightarrow> string option \<Rightarrow> bool option \<Rightarrow> pydict \<Rightarrow> exn" where
  "CheckpointIntegrityError_init cls safe_message code component retryable metadata =
     CheckpointStoreError_init cls safe_message code component retryable metadata"

definition CheckpointPersistenceError_init :: "exn_class \<Rightarrow> string \<Rightarrow> string \<Rightarrow> string option \<Rightarrow> bool option \<Rightarrow> pydict \<Rightarrow> exn" where
  "CheckpointPersistenceError_init cls safe_message code component retryable metadata =
     CheckpointStoreError_init cls safe_message code component retryable metadata"

definition PluginRegistrationError_init :: "exn_class \<Rightarrow> string \<Rightarrow> string \<Rightarrow> string option \<Rightarrow> bool option \<Rightarrow> pydict \<Rightarrow> exn" where
  "PluginRegistrationError_init cls safe_message code component retryable metadata =
     FrameworkError_init cls safe_message code ''plugin_registration'' component retryable metadata"

definition PluginResolutionError_init :: "exn_class \<Rightarrow> string \<Rightarrow> string \<Rightarrow> string option \<Rightarrow> bool option \<Rightarrow> pydict \<Rightarrow> exn" where
  "PluginResolutionError_init cls safe_message code component retryable metadata =
     FrameworkError_init cls safe_message code ''plugin_resolution'' component retryable metadata"

definition PluginValidationError_init :: "exn_class \<Rightarrow> string \<Rightarrow> string \<Rightarrow> string option \<Rightarrow> bool option \<Rightarrow> pydict \<Rightarrow> exn" where
  "PluginValidationError_init cls safe_message code component retryable metadata =
     FrameworkError_init cls safe_message code ''plugin_validation'' component retryable metadata"

definition RuntimeAssemblyError_init :: "exn_class \<Rightarrow> string \<Rightarrow> string \<Rightarrow> string option \<Rightarrow> bool option \<Rightarrow> pydict \<Rightarrow> exn" where
  "RuntimeAssemblyError_init cls safe_message code component retryable metadata =
     FrameworkError_init cls safe_message code ''runtime_assembly'' component retryable metadata"

definition WorkflowPreparationError_init :: "exn_class \<Rightarrow> string \<Rightarrow> string \<Rightarrow> string option \<Rightarrow> bool option \<Rightarrow> pydict \<Rightarrow> exn" where
  "WorkflowPreparationError_init cls safe_message code component retryable metadata =
     FrameworkError_init cls safe_message code ''workflow_preparation'' component retryable metadata"

definition ExecutionError_init :: "exn_class \<Rightarrow> string \<Rightarrow> string \<Rightarrow> string option \<Rightarrow> bool option \<Rightarrow> pydict \<Rightarrow> exn" where
  "ExecutionError_init cls safe_message code component retryable metadata =
     FrameworkError_init cls safe_message code ''execution'' component retryable metadata"

definition SafetyBoundaryError_init :: "exn_class \<Rightarrow> string \<Rightarrow> string \<Rightarrow> string option \<Rightarrow> bool option \<Rightarrow> pydict \<Rightarrow> exn" where
  "SafetyBoundaryError_init cls safe_message code component retryable metadata =
     FrameworkError_init cls safe_message code ''safety'' component retryable metadata"

abbreviation "ConfigError \<equiv> ConfigError_init ConfigError_cls"
abbreviation "ArtifactStoreError \<equiv> ArtifactStoreError_init ArtifactStoreError_cls"
abbreviation "ArtifactValidationError \<equiv> ArtifactValidationError_init ArtifactValidationError_cls"
abbreviation "ArtifactConflictError \<equiv> ArtifactConflictError_init ArtifactConflictError_cls"
abbreviation "ArtifactIntegrityError \<equiv> ArtifactIntegrityError_init ArtifactIntegrityError_cls"
abbreviation "ArtifactPersistenceError \<equiv> ArtifactPersistenceError_init ArtifactPersistenceError_cls"
abbreviation "CheckpointStoreError \<equiv> CheckpointStoreError_init CheckpointStoreError_cls"
abbreviation "CheckpointValidationError \<equiv> CheckpointValidationError_init CheckpointValidationError_cls"
abbreviation "CheckpointConflictError \<equiv> CheckpointConflictError_init CheckpointConflictError_cls"
abbreviation "CheckpointIntegrityError \<equiv> CheckpointIntegrityError_init CheckpointIntegrityError_cls"
abbreviation "CheckpointPersistenceError \<equiv> CheckpointPersistenceError_init CheckpointPersistenceError_cls"
abbreviation "PluginRegistrationError \<equiv> PluginRegistrationError_init PluginRegistrationError_cls"
abbreviation "PluginResolutionError \<equiv> PluginResolutionError_init PluginResolutionError_cls"
abbreviation "PluginValidationError \<equiv> PluginValidationError_init PluginValidationError_cls"
abbreviation "RuntimeAssemblyError \<equiv> RuntimeAssemblyError_init RuntimeAssemblyError_cls"
abbreviation "WorkflowPreparationError \<equiv> WorkflowPreparationError_init WorkflowPreparationError_cls"
abbreviation "ExecutionError \<equiv> ExecutionError_init ExecutionError_cls"
abbreviation "SafetyBoundaryError \<equiv> SafetyBoundaryError_init SafetyBoundaryError_cls"

definition WorkflowCancelledError :: "string \<Rightarrow> exn" where
  "WorkflowCancelledError msg =
     ExecutionError_init WorkflowCancelledError_cls msg ''WORKFLOW_CANCELLED''
       (Some ''execution_control'') (Some False) []"

definition WorkflowTimeoutError :: "string \<Rightarrow> exn" where
  "WorkflowTimeoutError msg =
     ExecutionError_init WorkflowTimeoutError_cls msg ''WORKFLOW_TIMED_OUT''
       (Some ''execution_control'') (Some True) []"

definition WorkflowCheckpointCompatibilityError :: "string \<Rightarrow> exn" where
  "WorkflowCheckpointCompatibilityError msg =
     ExecutionError_init WorkflowCheckpointCompatibilityError_cls msg
       ''WORKFLOW_CHECKPOINT_INCOMPATIBLE'' (Some ''workflow_checkpoint'') (Some False) []"

lemmas error_init_defs = ConfigError_init_def ArtifactStoreError_init_def ArtifactValidationError_init_def
  ArtifactConflictError_init_def ArtifactIntegrityError_init_def
  ArtifactPersistenceError_init_def CheckpointStoreError_init_def
  CheckpointValidationError_init_def CheckpointConflictError_init_def
  CheckpointIntegrityError_init_def CheckpointPersistenceError_init_def
  PluginRegistrationError_init_def PluginResolutionError_init_def
  PluginValidationError_init_def RuntimeAssemblyError_init_def
  WorkflowPreparationError_init_def ExecutionError_init_def SafetyBoundaryError_init_def

section \<open>What the constructors guarantee\<close>

lemma FrameworkError_init_class:
  "exn_class_of (FrameworkError_init cls msg cd cat cpt retry meta) \<in> {cls, ValueError_cls}"
  by (simp add: FrameworkError_init_def)

lemma FrameworkError_init_well_formed:
  "FrameworkError_init cls msg cd cat cpt retry meta = FrameworkExn e \<Longrightarrow>
     fe_safe_message e \<noteq> [] \<and> fe_code e \<noteq> [] \<and> fe_category e \<noteq> []"
  by (auto simp: FrameworkError_init_def split: if_splits)

end
