(* ===== verification/Regex.thy ===== *)
theory Regex
  imports Py_Values
begin

text \<open>
  The part of Python's \<open>re\<close> that the sources use: character classes, sequences, ordered
  alternatives, optional parts, greedy repetition of a class, word boundaries and a negative
  look-behind of one character. Matching is the engine's backtracking search: an alternative is
  abandoned only when the rest of the pattern fails after it. The matcher is given the character
  before the current position, which word boundaries and look-behinds inspect.
\<close>

section \<open>Patterns and the backtracking matcher\<close>

datatype rx =
    REps
  | RChr "char \<Rightarrow> bool"
  | RSeq rx rx
  | RAlt rx rx
  | RStar "char \<Rightarrow> bool"
  | RWordB
  | RNotBehind "char \<Rightarrow> bool"

text \<open>Greedy repetition of a class: the longest run first, then shorter ones.\<close>

fun rx_star :: "(char \<Rightarrow> bool) \<Rightarrow> char option \<Rightarrow> string \<Rightarrow>
    (char option \<Rightarrow> string \<Rightarrow> 'r option) \<Rightarrow> 'r option" where
  "rx_star P p [] k = k p []"
| "rx_star P p (c # cs) k =
     (if P c then (case rx_star P (Some c) cs k of Some r \<Rightarrow> Some r | None \<Rightarrow> k p (c # cs))
      else k p (c # cs))"

definition word_at :: "char option \<Rightarrow> bool" where
  "word_at p = (case p of None \<Rightarrow> False | Some c \<Rightarrow> is_word c)"

definition next_char :: "string \<Rightarrow> char option" where
  "next_char s = (case s of [] \<Rightarrow> None | c # _ \<Rightarrow> Some c)"

primrec rx_match :: "rx \<Rightarrow> char option \<Rightarrow> string \<Rightarrow>
    (char option \<Rightarrow> string \<Rightarrow> 'r option) \<Rightarrow> 'r option" where
  "rx_match REps p s k = k p s"
| "rx_match (RChr P) p s k = (case s of [] \<Rightarrow> None | c # cs \<Rightarrow> if P c then k (Some c) cs else None)"
| "rx_match (RSeq a b) p s k = rx_match a p s (\<lambda>p' s'. rx_match b p' s' k)"
| "rx_match (RAlt a b) p s k =
     (case rx_match a p s k of Some r \<Rightarrow> Some r | None \<Rightarrow> rx_match b p s k)"
| "rx_match (RStar P) p s k = rx_star P p s k"
| "rx_match RWordB p s k = (if word_at p \<noteq> word_at (next_char s) then k p s else None)"
| "rx_match (RNotBehind P) p s k =
     (case p of None \<Rightarrow> k p s | Some c \<Rightarrow> if P c then None else k p s)"

definition ROpt :: "rx \<Rightarrow> rx" where
  "ROpt a = RAlt a REps"

definition RPlus :: "(char \<Rightarrow> bool) \<Rightarrow> rx" where
  "RPlus P = RSeq (RChr P) (RStar P)"

fun RSeqs :: "rx list \<Rightarrow> rx" where
  "RSeqs [] = REps"
| "RSeqs [a] = a"
| "RSeqs (a # b # as) = RSeq a (RSeqs (b # as))"

fun RAlts :: "rx list \<Rightarrow> rx" where
  "RAlts [] = RChr (\<lambda>_. False)"
| "RAlts [a] = a"
| "RAlts (a # b # as) = RAlt a (RAlts (b # as))"

text \<open>A literal, and a literal under \<open>(?i)\<close>, given in lower case.\<close>

definition RLit :: "string \<Rightarrow> rx" where
  "RLit s = RSeqs (map (\<lambda>c. RChr (\<lambda>x. x = c)) s)"

definition RLitI :: "string \<Rightarrow> rx" where
  "RLitI s = RSeqs (map (\<lambda>c. RChr (\<lambda>x. lower_char x = c)) s)"

section \<open>\<open>match\<close>, \<open>fullmatch\<close> and \<open>sub\<close>\<close>

definition rx_at :: "rx \<Rightarrow> char option \<Rightarrow> string \<Rightarrow> (char option \<times> string) option" where
  "rx_at r p s = rx_match r p s (\<lambda>p' s'. Some (p', s'))"

definition rx_prefix :: "rx \<Rightarrow> string \<Rightarrow> bool" where
  "rx_prefix r s = (rx_at r None s \<noteq> None)"

definition rx_fullmatch :: "rx \<Rightarrow> string \<Rightarrow> bool" where
  "rx_fullmatch r s = (rx_match r None s (\<lambda>_ s'. if s' = [] then Some () else None) \<noteq> None)"

text \<open>
  Substitution from the left, without overlaps: \<open>f\<close> maps the matched text to its replacement.
  Every pattern used here consumes at least one character (\<open>consumes\<close> below), so an empty match
  does not occur; the equation treats one as no match, which makes it terminate on every pattern.
\<close>

function rx_sub :: "rx \<Rightarrow> (string \<Rightarrow> string) \<Rightarrow> char option \<Rightarrow> string \<Rightarrow> string" where
  "rx_sub r f p [] = []"
| "rx_sub r f p (c # cs) =
     (case rx_at r p (c # cs) of
        Some (p', s') \<Rightarrow>
          if length s' \<le> length cs
          then f (take (Suc (length cs) - length s') (c # cs)) @ rx_sub r f p' s'
          else c # rx_sub r f (Some c) cs
      | None \<Rightarrow> c # rx_sub r f (Some c) cs)"
  by pat_completeness auto
termination
  by (relation "measure (\<lambda>(r, f, p, s). length s)") auto

fun consumes :: "rx \<Rightarrow> bool" where
  "consumes (RChr _) = True"
| "consumes (RSeq a b) = (consumes a \<or> consumes b)"
| "consumes (RAlt a b) = (consumes a \<and> consumes b)"
| "consumes _ = False"

section \<open>What a match leaves\<close>

text \<open>
  A successful match calls its continuation at a suffix of the text, a proper one when the pattern
  consumes. The lemma is the one induction over patterns; the others are instances.
\<close>

lemma rx_star_continues:
  "rx_star P p s k = Some r \<Longrightarrow>
     \<exists>p' u s'. s = u @ s' \<and> (\<forall>c \<in> set u. P c) \<and> k p' s' = Some r"
proof (induction s arbitrary: p)
  case (Cons c cs)
  show ?case
  proof (cases "P c \<and> rx_star P (Some c) cs k = Some r")
    case True
    then obtain p' u s' where "cs = u @ s'" "\<forall>c \<in> set u. P c" "k p' s' = Some r"
      using Cons.IH by blast
    then show ?thesis using True by (intro exI [of _ p'] exI [of _ "c # u"] exI [of _ s']) simp
  next
    case False
    then have "k p (c # cs) = Some r"
      using Cons.prems by (auto split: if_splits option.splits)
    then show ?thesis by (intro exI [of _ p] exI [of _ "[]"] exI [of _ "c # cs"]) simp
  qed
qed auto

lemma rx_match_continues:
  "rx_match x p s k = Some r \<Longrightarrow>
     \<exists>p' u s'. s = u @ s' \<and> (consumes x \<longrightarrow> u \<noteq> []) \<and> k p' s' = Some r"
proof (induction x arbitrary: p s k)
  case (RChr P)
  then obtain c cs where "s = c # cs" "k (Some c) cs = Some r"
    by (auto split: list.splits if_splits)
  then show ?case by (intro exI [of _ "Some c"] exI [of _ "[c]"] exI [of _ cs]) simp
next
  case (RSeq a b)
  from RSeq.prems have "rx_match a p s (\<lambda>p' s'. rx_match b p' s' k) = Some r" by simp
  from RSeq.IH(1) [OF this] obtain p1 u1 s1 where
    1: "s = u1 @ s1" "consumes a \<longrightarrow> u1 \<noteq> []" "rx_match b p1 s1 k = Some r" by blast
  from RSeq.IH(2) [OF 1(3)] obtain p2 u2 s2 where
    2: "s1 = u2 @ s2" "consumes b \<longrightarrow> u2 \<noteq> []" "k p2 s2 = Some r" by blast
  show ?case
    using 1 2 by (intro exI [of _ p2] exI [of _ "u1 @ u2"] exI [of _ s2]) auto
next
  case (RAlt a b)
  show ?case
  proof (cases "rx_match a p s k = Some r")
    case True
    then show ?thesis using RAlt.IH(1) [OF True] by simp blast
  next
    case False
    then have "rx_match b p s k = Some r" using RAlt.prems by (auto split: option.splits)
    from RAlt.IH(2) [OF this] show ?thesis by simp blast
  qed
next
  case (RStar P)
  then have "rx_star P p s k = Some r" by simp
  from rx_star_continues [OF this] show ?case by auto
qed (auto split: if_splits option.splits; metis append_Nil)+

lemma rx_at_Some:
  assumes "rx_at r p s = Some (p', s')"
  shows "\<exists>u. s = u @ s' \<and> (consumes r \<longrightarrow> u \<noteq> [])"
  using rx_match_continues [of r p s] assms unfolding rx_at_def by fastforce

lemma rx_sub_no_match:
  assumes "\<And>p u. rx_at r p u = None"
  shows "rx_sub r f p s = s"
  by (induction s arbitrary: p) (simp_all add: assms)

text \<open>Every character of the result comes from the text or from a replacement.\<close>

lemma rx_sub_set:
  "c \<in> set (rx_sub r f p s) \<Longrightarrow> c \<in> set s \<or> (\<exists>m. set m \<subseteq> set s \<and> c \<in> set (f m))"
proof (induction r f p s rule: rx_sub.induct)
  case (2 r f p d ds)
  show ?case
  proof (cases "rx_at r p (d # ds)")
    case None
    then have "c = d \<or> c \<in> set (rx_sub r f (Some d) ds)" using 2(4) by simp
    then have "c = d \<or> c \<in> set ds \<or> (\<exists>m. set m \<subseteq> set ds \<and> c \<in> set (f m))"
      using 2(1) [OF None] by blast
    moreover have "set ds \<subseteq> set (d # ds)" by auto
    ultimately show ?thesis by (metis list.set_intros order_trans subsetD)
  next
    case (Some q)
    obtain p' s' where q: "q = (p', s')" by force
    obtain u where u: "d # ds = u @ s'" using rx_at_Some Some q by blast
    have sub: "set s' \<subseteq> set (d # ds)" using u by auto
    show ?thesis
    proof (cases "length s' \<le> length ds")
      case True
      let ?m = "take (Suc (length ds) - length s') (d # ds)"
      have "c \<in> set (f ?m) \<or> c \<in> set (rx_sub r f p' s')" using 2(4) Some q True by simp
      moreover have "set ?m \<subseteq> set (d # ds)" by (rule set_take_subset)
      moreover have "c \<in> set s' \<or> (\<exists>m. set m \<subseteq> set s' \<and> c \<in> set (f m))"
        if "c \<in> set (rx_sub r f p' s')"
        using 2(2) [OF Some q [symmetric] True that] by simp
      ultimately show ?thesis using sub by blast
    next
      case False
      then have "c = d \<or> c \<in> set (rx_sub r f (Some d) ds)" using 2(4) Some q by simp
      then have "c = d \<or> c \<in> set ds \<or> (\<exists>m. set m \<subseteq> set ds \<and> c \<in> set (f m))"
        using 2(3) [OF Some q [symmetric] False] by blast
      moreover have "set ds \<subseteq> set (d # ds)" by auto
      ultimately show ?thesis by (metis list.set_intros order_trans subsetD)
    qed
  qed
qed simp

text \<open>A class repeated at least once, then the end of the text: every character is of the class.\<close>

lemma rx_star_end:
  "rx_star P p s (\<lambda>_ s'. if s' = [] then Some () else None) = Some () \<longleftrightarrow> (\<forall>c \<in> set s. P c)"
proof (induction s arbitrary: p)
  case (Cons c cs)
  show ?case
    using Cons.IH [of "Some c"]
    by (cases "rx_star P (Some c) cs (\<lambda>_ s'. if s' = [] then Some () else None)") auto
qed simp

lemma rx_fullmatch_head_star:
  "rx_fullmatch (RSeq (RChr P) (RStar Q)) s \<longleftrightarrow> s \<noteq> [] \<and> P (hd s) \<and> (\<forall>c \<in> set (tl s). Q c)"
  unfolding rx_fullmatch_def by (cases s) (simp_all add: rx_star_end)

text \<open>Every matched character is one the pattern names.\<close>

fun rx_allows :: "rx \<Rightarrow> char \<Rightarrow> bool" where
  "rx_allows (RChr P) c = P c"
| "rx_allows (RSeq a b) c = (rx_allows a c \<or> rx_allows b c)"
| "rx_allows (RAlt a b) c = (rx_allows a c \<or> rx_allows b c)"
| "rx_allows (RStar P) c = P c"
| "rx_allows _ c = False"

lemma rx_match_allows:
  "rx_match x p s k = Some r \<Longrightarrow>
     \<exists>p' u s'. s = u @ s' \<and> (\<forall>c \<in> set u. rx_allows x c) \<and> k p' s' = Some r"
proof (induction x arbitrary: p s k)
  case (RChr P)
  then obtain c cs where "s = c # cs" "P c" "k (Some c) cs = Some r"
    by (auto split: list.splits if_splits)
  then show ?case by (intro exI [of _ "Some c"] exI [of _ "[c]"] exI [of _ cs]) simp
next
  case (RSeq a b)
  from RSeq.prems have "rx_match a p s (\<lambda>p' s'. rx_match b p' s' k) = Some r" by simp
  from RSeq.IH(1) [OF this] obtain p1 u1 s1 where
    1: "s = u1 @ s1" "\<forall>c \<in> set u1. rx_allows a c" "rx_match b p1 s1 k = Some r" by blast
  from RSeq.IH(2) [OF 1(3)] obtain p2 u2 s2 where
    2: "s1 = u2 @ s2" "\<forall>c \<in> set u2. rx_allows b c" "k p2 s2 = Some r" by blast
  show ?case
    using 1 2 by (intro exI [of _ p2] exI [of _ "u1 @ u2"] exI [of _ s2]) auto
next
  case (RAlt a b)
  show ?case
  proof (cases "rx_match a p s k = Some r")
    case True
    then show ?thesis using RAlt.IH(1) [OF True] by (simp add: ball_conj_distrib) blast
  next
    case False
    then have "rx_match b p s k = Some r" using RAlt.prems by (auto split: option.splits)
    from RAlt.IH(2) [OF this] show ?thesis by simp blast
  qed
next
  case (RStar P)
  then have "rx_star P p s k = Some r" by simp
  from rx_star_continues [OF this] show ?case by auto
next
  case REps
  then show ?case by (intro exI [of _ p] exI [of _ "[]"] exI [of _ s]) simp
next
  case RWordB
  then show ?case by (intro exI [of _ p] exI [of _ "[]"] exI [of _ s]) (simp split: if_splits)
next
  case (RNotBehind P)
  then show ?case
    by (intro exI [of _ p] exI [of _ "[]"] exI [of _ s]) (simp split: if_splits option.splits)
qed

lemma rx_fullmatch_allows: "rx_fullmatch x s \<Longrightarrow> c \<in> set s \<Longrightarrow> rx_allows x c"
  unfolding rx_fullmatch_def using rx_match_allows [of x None s] by (fastforce split: if_splits)

end
