(* ===== verification/Redaction.thy ===== *)
theory Redaction
  imports Regex
begin

text \<open>
  core/redaction.py: the text patterns and their substitutions in the source's order, and the
  recursive redaction of nested values with its depth limit. The lemmas show that what a
  redacted value says does not depend on anything under a sensitive key, that every sensitive
  key of the result is covered, and how deep the result can be.
\<close>

section \<open>Text\<close>

definition REDACTED_VALUE :: string where
  "REDACTED_VALUE = ''***REDACTED***''"

definition TRUNCATED_VALUE :: string where
  "TRUNCATED_VALUE = ''***TRUNCATED***''"

definition SENSITIVE_KEY_PARTS :: "string list" where
  "SENSITIVE_KEY_PARTS =
     [''secret'', ''token'', ''api_key'', ''apikey'', ''password'', ''authorization'',
      ''access_token'', ''refresh_token'', ''credential'', ''credentials'', ''private_key'',
      ''path'', ''file_path'', ''absolute_path'']"

abbreviation backslash :: char where
  "backslash \<equiv> CHR 0x5C"

definition is_slash :: "char \<Rightarrow> bool" where
  "is_slash c = (c = backslash \<or> c = CHR ''/'')"

definition is_letter :: "char \<Rightarrow> bool" where
  "is_letter c = (is_lower c \<or> is_upper c)"

definition non_space :: "char \<Rightarrow> bool" where
  "non_space c = (\<not> is_space c)"

definition is_bearer_char :: "char \<Rightarrow> bool" where
  "is_bearer_char c = (is_alnum c \<or> c \<in> set ''._~+/=-'')"

definition BEARER_PATTERN :: rx where
  "BEARER_PATTERN =
     RSeqs ([RWordB, RLitI ''bearer'', RPlus is_space]
       @ replicate 8 (RChr is_bearer_char) @ [RStar is_bearer_char])"

definition UNIX_PATH_PATTERN :: rx where
  "UNIX_PATH_PATTERN =
     RSeqs [RNotBehind (\<lambda>c. c = CHR '':''), RNotBehind is_word, RChr (\<lambda>c. c = CHR ''/''),
       RPlus non_space]"

definition WINDOWS_PATH_PATTERN :: rx where
  "WINDOWS_PATH_PATTERN =
     RSeqs [RWordB, RChr is_letter, RChr (\<lambda>c. c = CHR '':''), RChr is_slash, RPlus non_space]"

definition HOME_PATH_PATTERN :: rx where
  "HOME_PATH_PATTERN = RSeqs [RChr (\<lambda>c. c = CHR ''~''), RChr is_slash, RPlus non_space]"

definition UNC_PATH_PATTERN :: rx where
  "UNC_PATH_PATTERN =
     RSeqs [RChr (\<lambda>c. c = backslash), RChr (\<lambda>c. c = backslash), RPlus non_space]"

definition opt_dash :: rx where
  "opt_dash = ROpt (RChr (\<lambda>c. c = CHR ''_'' \<or> c = CHR ''-''))"

definition two_words :: "string \<Rightarrow> string \<Rightarrow> rx" where
  "two_words a b = RSeqs [RLitI a, opt_dash, RLitI b]"

definition KEY_VALUE_PATTERN :: rx where
  "KEY_VALUE_PATTERN =
     RSeqs [RWordB,
       RAlts [RLitI ''secret'', RLitI ''token'', two_words ''api'' ''key'', RLitI ''apikey'',
         RLitI ''password'', RLitI ''authorization'', two_words ''access'' ''token'',
         two_words ''refresh'' ''token'', RLitI ''credential'', RLitI ''credentials'',
         two_words ''private'' ''key'', RLitI ''path'', two_words ''file'' ''path'',
         two_words ''absolute'' ''path''],
       RWordB, RStar is_space, RChr (\<lambda>c. c = CHR '':'' \<or> c = CHR ''=''), RStar is_space,
       RPlus (\<lambda>c. \<not> is_space c \<and> c \<noteq> CHR '','' \<and> c \<noteq> CHR '';'')]"

definition is_sensitive_key :: "string \<Rightarrow> bool" where
  "is_sensitive_key name = (let lowered = lower name
     in list_ex (\<lambda>part. contains part lowered) SENSITIVE_KEY_PARTS)"

text \<open>\<open>_replace\<close>: the matched text up to the first colon, else up to the first equals sign.\<close>

definition key_value_replacement :: "string \<Rightarrow> string" where
  "key_value_replacement matched =
     (let prefix = (if CHR '':'' \<in> set matched then hd (split_on CHR '':'' matched)
        else if CHR ''='' \<in> set matched then hd (split_on CHR ''='' matched)
        else matched)
      in prefix @ ''='' @ REDACTED_VALUE)"

definition redact_text :: "string \<Rightarrow> string" where
  "redact_text text =
     (let redacted = rx_sub BEARER_PATTERN (\<lambda>_. ''Bearer '' @ REDACTED_VALUE) None text;
          redacted = rx_sub UNIX_PATH_PATTERN (\<lambda>_. REDACTED_VALUE) None redacted;
          redacted = rx_sub WINDOWS_PATH_PATTERN (\<lambda>_. REDACTED_VALUE) None redacted;
          redacted = rx_sub HOME_PATH_PATTERN (\<lambda>_. REDACTED_VALUE) None redacted;
          redacted = rx_sub UNC_PATH_PATTERN (\<lambda>_. REDACTED_VALUE) None redacted
      in rx_sub KEY_VALUE_PATTERN key_value_replacement None redacted)"

section \<open>Nested values\<close>

text \<open>\<open>_depth >= max_depth\<close>: a mapping keeps its keys, a sequence its length.\<close>

definition truncated_items :: "(atom \<times> pyval) list \<Rightarrow> (atom \<times> pyval) list" where
  "truncated_items kvs = dict_of (map (\<lambda>(k, _). (AStr (atom_text k), PStr TRUNCATED_VALUE)) kvs)"

fun truncated_level :: "pyval \<Rightarrow> pyval" where
  "truncated_level (PDict kvs) = PDict (truncated_items kvs)"
| "truncated_level (PList xs) = PList (map (\<lambda>_. PStr TRUNCATED_VALUE) xs)"
| "truncated_level (PTuple xs) = PList (map (\<lambda>_. PStr TRUNCATED_VALUE) xs)"
| "truncated_level (Atom _) = PStr TRUNCATED_VALUE"

fun redact_value_at :: "int \<Rightarrow> int \<Rightarrow> string option \<Rightarrow> pyval \<Rightarrow> pyval"
and redact_seq_items :: "int \<Rightarrow> int \<Rightarrow> pyval list \<Rightarrow> pyval list"
and redact_map_items :: "int \<Rightarrow> int \<Rightarrow> (atom \<times> pyval) list \<Rightarrow> (atom \<times> pyval) list"
where
  "redact_value_at max_depth depth key_name v =
     (if (case key_name of None \<Rightarrow> False | Some n \<Rightarrow> is_sensitive_key n) then PStr REDACTED_VALUE
      else if max_depth \<le> depth then truncated_level v
      else (case v of
          PDict kvs \<Rightarrow> PDict (dict_of (redact_map_items max_depth depth kvs))
        | PList xs \<Rightarrow> PList (redact_seq_items max_depth depth xs)
        | PTuple xs \<Rightarrow> PTuple (redact_seq_items max_depth depth xs)
        | Atom a \<Rightarrow> (case a of AStr s \<Rightarrow> PStr (redact_text s) | _ \<Rightarrow> Atom a)))"
| "redact_seq_items max_depth depth [] = []"
| "redact_seq_items max_depth depth (x # xs) =
     redact_value_at max_depth (depth + 1) None x # redact_seq_items max_depth depth xs"
| "redact_map_items max_depth depth [] = []"
| "redact_map_items max_depth depth ((k, v) # kvs) =
     (let key_name = atom_text k
      in (AStr key_name,
          if is_sensitive_key key_name then PStr REDACTED_VALUE
          else redact_value_at max_depth (depth + 1) (Some key_name) v)
         # redact_map_items max_depth depth kvs)"

declare redact_value_at.simps [simp del]

definition redact_value :: "int \<Rightarrow> string option \<Rightarrow> pyval \<Rightarrow> pyval" where
  "redact_value max_depth key_name v = redact_value_at max_depth 0 key_name v"

text \<open>\<open>redact_mapping\<close> is \<open>_redact_mapping\<close> at depth 0, on the items of the mapping.\<close>

definition redact_mapping :: "int \<Rightarrow> (atom \<times> pyval) list \<Rightarrow> (atom \<times> pyval) list" where
  "redact_mapping max_depth kvs =
     (if max_depth \<le> 0 then truncated_items kvs else dict_of (redact_map_items max_depth 0 kvs))"

section \<open>What redaction guarantees\<close>

text \<open>The value with everything under a sensitive key blanked out, at every depth.\<close>

fun erase_secrets :: "pyval \<Rightarrow> pyval"
and erase_list :: "pyval list \<Rightarrow> pyval list"
and erase_items :: "(atom \<times> pyval) list \<Rightarrow> (atom \<times> pyval) list"
where
  "erase_secrets (Atom a) = Atom a"
| "erase_secrets (PList xs) = PList (erase_list xs)"
| "erase_secrets (PTuple xs) = PTuple (erase_list xs)"
| "erase_secrets (PDict kvs) = PDict (erase_items kvs)"
| "erase_list [] = []"
| "erase_list (x # xs) = erase_secrets x # erase_list xs"
| "erase_items [] = []"
| "erase_items ((k, v) # kvs) =
     (k, if is_sensitive_key (atom_text k) then PNone else erase_secrets v) # erase_items kvs"

lemma map_fst_erase_items: "map fst (erase_items kvs) = map fst kvs"
  by (induction kvs) auto

lemma length_erase_list: "length (erase_list xs) = length xs"
  by (induction xs) auto

lemma truncated_items_fst:
  "truncated_items kvs = dict_of (map (\<lambda>k. (AStr (atom_text k), PStr TRUNCATED_VALUE)) (map fst kvs))"
  by (simp add: truncated_items_def case_prod_unfold comp_def)

lemma truncated_items_erase: "truncated_items (erase_items kvs) = truncated_items kvs"
  by (simp only: truncated_items_fst map_fst_erase_items)

lemma truncated_level_erase: "truncated_level (erase_secrets v) = truncated_level v"
  by (cases v) (simp_all add: truncated_items_erase length_erase_list map_replicate_const)

lemma redact_erase:
  "redact_value_at m d key (erase_secrets v) = redact_value_at m d key v"
  "redact_seq_items m d (erase_list xs) = redact_seq_items m d xs"
  "redact_map_items m d (erase_items kvs) = redact_map_items m d kvs"
proof (induction m d key v and m d xs and m d kvs
    rule: redact_value_at_redact_seq_items_redact_map_items.induct)
  case (1 m d key v)
  then show ?case
    by (cases v) (auto simp: redact_value_at.simps truncated_level_erase truncated_items_erase
        length_erase_list map_replicate_const)
qed (auto simp: Let_def)

text \<open>Every entry under a sensitive key holds one of the two markers.\<close>

fun covered :: "pyval \<Rightarrow> bool"
and covered_list :: "pyval list \<Rightarrow> bool"
and covered_items :: "(atom \<times> pyval) list \<Rightarrow> bool"
where
  "covered (Atom a) = True"
| "covered (PList xs) = covered_list xs"
| "covered (PTuple xs) = covered_list xs"
| "covered (PDict kvs) = covered_items kvs"
| "covered_list [] = True"
| "covered_list (x # xs) = (covered x \<and> covered_list xs)"
| "covered_items [] = True"
| "covered_items ((k, v) # kvs) =
     ((is_sensitive_key (atom_text k) \<longrightarrow> v = PStr REDACTED_VALUE \<or> v = PStr TRUNCATED_VALUE)
      \<and> covered v \<and> covered_items kvs)"

lemma covered_items_iff:
  "covered_items kvs \<longleftrightarrow> (\<forall>(k, v) \<in> set kvs.
     (is_sensitive_key (atom_text k) \<longrightarrow> v = PStr REDACTED_VALUE \<or> v = PStr TRUNCATED_VALUE) \<and> covered v)"
  by (induction kvs) auto

lemma covered_list_iff: "covered_list xs \<longleftrightarrow> (\<forall>x \<in> set xs. covered x)"
  by (induction xs) auto

lemma covered_dict_of: "covered_items kvs \<Longrightarrow> covered_items (dict_of kvs)"
  using set_dict_of [of kvs] unfolding covered_items_iff by blast

lemma covered_truncated_items: "covered_items (truncated_items kvs)"
  unfolding truncated_items_def by (rule covered_dict_of) (auto simp: covered_items_iff)

lemma covered_truncated_level: "covered (truncated_level v)"
  by (cases v) (auto simp: covered_truncated_items covered_list_iff)

lemma covered_redact:
  "covered (redact_value_at m d key v)"
  "covered_list (redact_seq_items m d xs)"
  "covered_items (redact_map_items m d kvs)"
proof (induction m d key v and m d xs and m d kvs
    rule: redact_value_at_redact_seq_items_redact_map_items.induct)
  case (1 m d key v)
  then show ?case
    by (auto simp: redact_value_at.simps [of m d key v] covered_truncated_level covered_dict_of
        split: pyval.split atom.split option.splits)
qed (auto simp: Let_def)

text \<open>Nesting depth of containers.\<close>

fun val_depth :: "pyval \<Rightarrow> nat"
and list_depth :: "pyval list \<Rightarrow> nat"
and items_depth :: "(atom \<times> pyval) list \<Rightarrow> nat"
where
  "val_depth (Atom a) = 0"
| "val_depth (PList xs) = Suc (list_depth xs)"
| "val_depth (PTuple xs) = Suc (list_depth xs)"
| "val_depth (PDict kvs) = Suc (items_depth kvs)"
| "list_depth [] = 0"
| "list_depth (x # xs) = max (val_depth x) (list_depth xs)"
| "items_depth [] = 0"
| "items_depth ((k, v) # kvs) = max (val_depth v) (items_depth kvs)"

lemma items_depth_le: "items_depth kvs \<le> n \<longleftrightarrow> (\<forall>p \<in> set kvs. val_depth (snd p) \<le> n)"
  by (induction kvs) auto

lemma list_depth_le: "list_depth xs \<le> n \<longleftrightarrow> (\<forall>x \<in> set xs. val_depth x \<le> n)"
  by (induction xs) auto

lemma items_depth_dict_of: "items_depth kvs \<le> n \<Longrightarrow> items_depth (dict_of kvs) \<le> n"
  using set_dict_of [of kvs] by (auto simp: items_depth_le)

lemma items_depth_truncated: "items_depth (truncated_items kvs) \<le> 0"
  unfolding truncated_items_def by (rule items_depth_dict_of) (induction kvs; force)

lemma list_depth_const: "list_depth (map (\<lambda>_. Atom a) xs) = 0"
  by (induction xs) auto

lemma val_depth_truncated_level: "val_depth (truncated_level v) \<le> 1"
  using items_depth_truncated by (cases v) (auto simp: list_depth_const)

lemma redact_depth:
  "val_depth (redact_value_at m d key v) \<le> Suc (nat (m - d))"
  "list_depth (redact_seq_items m d xs) \<le> Suc (nat (m - (d + 1)))"
  "items_depth (redact_map_items m d kvs) \<le> Suc (nat (m - (d + 1)))"
proof (induction m d key v and m d xs and m d kvs
    rule: redact_value_at_redact_seq_items_redact_map_items.induct)
  case (1 m d key v)
  show ?case
  proof (cases "m \<le> d")
    case True
    then show ?thesis
      using val_depth_truncated_level [of v] by (auto simp: redact_value_at.simps [of m d key v])
  next
    case False
    then have "Suc (nat (m - (d + 1))) = nat (m - d)" by simp
    then show ?thesis
      using 1 False items_depth_dict_of
      by (auto simp: redact_value_at.simps [of m d key v]
          split: pyval.split atom.split option.splits)
  qed
qed (auto simp: Let_def)

text \<open>
  \<open>_replace\<close> cuts at the first colon of the whole match, also when the match is
  \<open>key=value\<close> and the colon is part of the value: the value up to the colon stays.
\<close>

lemma key_value_replacement_colon_in_value:
  assumes "CHR '':'' \<notin> set k" and "CHR '':'' \<notin> set a"
  shows "key_value_replacement (k @ ''='' @ a @ '':'' @ b) = k @ ''='' @ a @ ''='' @ REDACTED_VALUE"
  using assms split_on_append [of "CHR '':''" "k @ ''='' @ a" b]
  by (simp add: key_value_replacement_def)

lemma key_value_replacement_colon:
  assumes "CHR '':'' \<notin> set k"
  shows "key_value_replacement (k @ '':'' @ b) = k @ ''='' @ REDACTED_VALUE"
  using assms split_on_append [of "CHR '':''" k b] by (simp add: key_value_replacement_def)

lemma key_value_replacement_equals:
  assumes "CHR ''='' \<notin> set k" and "CHR '':'' \<notin> set (k @ b)"
  shows "key_value_replacement (k @ ''='' @ b) = k @ ''='' @ REDACTED_VALUE"
  using assms split_on_append [of "CHR ''=''" k b] by (simp add: key_value_replacement_def)

text \<open>Redaction adds no character but those of its markers.\<close>

definition marker_char :: "char \<Rightarrow> bool" where
  "marker_char c = (c \<in> set (''Bearer '' @ ''='' @ REDACTED_VALUE))"

lemma set_key_value_replacement: "set (key_value_replacement m) \<subseteq> set m \<union> Collect marker_char"
proof -
  have "set (hd (split_on d m)) \<subseteq> set m" for d
  proof -
    obtain p ps where ps: "split_on d m = p # ps" by (cases "split_on d m") auto
    then have "m = join_with [d] (p # ps)" using join_split_on [of d m] by simp
    then have "set p \<subseteq> set m" by (auto simp: join_with_Cons)
    then show ?thesis using ps by simp
  qed
  then show ?thesis unfolding key_value_replacement_def Let_def by (auto simp: marker_char_def)
qed

lemma rx_sub_marker:
  assumes "\<And>m. set (f m) \<subseteq> set m \<union> Collect marker_char"
  shows "set (rx_sub r f p s) \<subseteq> set s \<union> Collect marker_char"
  using rx_sub_set [of _ r f p s] assms by blast

lemma set_redact_text: "set (redact_text s) \<subseteq> set s \<union> Collect marker_char"
proof -
  have c: "set (rx_sub r (\<lambda>_. t) None u) \<subseteq> set s \<union> Collect marker_char"
    if "set u \<subseteq> set s \<union> Collect marker_char" "set t \<subseteq> Collect marker_char" for r t u
    using rx_sub_marker [of "\<lambda>_. t" r None u] that by blast
  have m: "set REDACTED_VALUE \<subseteq> Collect marker_char"
    "set (''Bearer '' @ REDACTED_VALUE) \<subseteq> Collect marker_char"
    by (auto simp: marker_char_def)
  have k: "set (rx_sub r key_value_replacement None u) \<subseteq> set s \<union> Collect marker_char"
    if "set u \<subseteq> set s \<union> Collect marker_char" for r u
    using rx_sub_marker [of key_value_replacement r None u, OF set_key_value_replacement] that by blast
  show ?thesis
    unfolding redact_text_def Let_def by (rule k c m Un_upper1)+
qed

end
