(* ===== verification/Json.thy ===== *)
theory Json
  imports Py_Values "HOL-Library.Char_ord" "HOL-Library.List_Lexorder"
begin

text \<open>
  \<open>json.dumps\<close> with \<open>ensure_ascii=False\<close>, \<open>sort_keys=True\<close> and \<open>default=str\<close>, as the sources call
  it: on values whose dictionaries have string keys. The separators are arguments, \<open>", "\<close> and
  \<open>": "\<close> being the default ones. Keys are in the order of their code points.
\<close>

definition json_escape_char :: "char \<Rightarrow> string" where
  "json_escape_char c = (let n = ord_of c; b = char_of (92::nat) in
     if n = 34 \<or> n = 92 then [b, c]
     else if n = 8 then [b, CHR ''b'']
     else if n = 9 then [b, CHR ''t'']
     else if n = 10 then [b, CHR ''n'']
     else if n = 12 then [b, CHR ''f'']
     else if n = 13 then [b, CHR ''r'']
     else if n < 32 then [b, CHR ''u'', CHR ''0'', CHR ''0'', hex_digit (n div 16), hex_digit (n mod 16)]
     else [c])"

definition json_string :: "string \<Rightarrow> string" where
  "json_string s = [char_of (34::nat)] @ concat (map json_escape_char s) @ [char_of (34::nat)]"

fun json_float :: "pyfloat \<Rightarrow> string" where
  "json_float (Finite_Float _ _ t) = t"
| "json_float (Infinite_Float neg _) = (if neg then ''-Infinity'' else ''Infinity'')"
| "json_float (Nan_Float _) = ''NaN''"

fun json_atom :: "atom \<Rightarrow> string" where
  "json_atom ANone = ''null''"
| "json_atom (ABool b) = (if b then ''true'' else ''false'')"
| "json_atom (AInt i) = int_text i"
| "json_atom (AFloat x) = json_float x"
| "json_atom (AStr s) = json_string s"
| "json_atom a = json_string (atom_text a)"

fun json_dumps :: "string \<Rightarrow> string \<Rightarrow> pyval \<Rightarrow> string"
and json_list :: "string \<Rightarrow> string \<Rightarrow> pyval list \<Rightarrow> string list"
and json_items :: "string \<Rightarrow> string \<Rightarrow> (atom \<times> pyval) list \<Rightarrow> (string \<times> string) list"
where
  "json_dumps isep ksep (Atom a) = json_atom a"
| "json_dumps isep ksep (PList xs) = ''['' @ join_with isep (json_list isep ksep xs) @ '']''"
| "json_dumps isep ksep (PTuple xs) = ''['' @ join_with isep (json_list isep ksep xs) @ '']''"
| "json_dumps isep ksep (PDict kvs) =
     ''{'' @ join_with isep (map (\<lambda>(k, t). json_string k @ ksep @ t)
       (sort_key fst (json_items isep ksep kvs))) @ ''}''"
| "json_list isep ksep [] = []"
| "json_list isep ksep (x # xs) = json_dumps isep ksep x # json_list isep ksep xs"
| "json_items isep ksep [] = []"
| "json_items isep ksep ((k, v) # kvs) =
     (atom_text k, json_dumps isep ksep v) # json_items isep ksep kvs"

abbreviation json_default :: "pyval \<Rightarrow> string" where
  "json_default \<equiv> json_dumps '', '' '': ''"

abbreviation json_compact :: "pyval \<Rightarrow> string" where
  "json_compact \<equiv> json_dumps '','' '':''"

end
