(* ===== verification/Sha256.thy ===== *)
theory Sha256
  imports Py_Values "HOL-Library.Word"
begin

text \<open>
  The part of the standard library behind the stores' digests: \<open>str.encode('utf-8')\<close> for the
  characters below 256 and \<open>hashlib.sha256(data).hexdigest()\<close> (FIPS 180-4), with bytes as
  characters. The stores use only that a digest is 64 lower-case hexadecimal digits and a function
  of the bytes; nothing assumes that it has no collisions.
\<close>

unbundle bit_operations_syntax

type_synonym w32 = "32 word"

section \<open>UTF-8\<close>

definition utf8_char :: "char \<Rightarrow> string" where
  "utf8_char c = (let n = ord_of c in
     if n < 128 then [c] else [char_of (192 + n div 64), char_of (128 + n mod 64)])"

definition utf8 :: "string \<Rightarrow> string" where
  "utf8 s = concat (map utf8_char s)"

section \<open>The compression function\<close>

definition sha_K :: "w32 list" where
  "sha_K =
     [1116352408, 1899447441, 3049323471, 3921009573, 961987163, 1508970993, 2453635748, 2870763221,
      3624381080, 310598401, 607225278, 1426881987, 1925078388, 2162078206, 2614888103, 3248222580,
      3835390401, 4022224774, 264347078, 604807628, 770255983, 1249150122, 1555081692, 1996064986,
      2554220882, 2821834349, 2952996808, 3210313671, 3336571891, 3584528711, 113926993, 338241895,
      666307205, 773529912, 1294757372, 1396182291, 1695183700, 1986661051, 2177026350, 2456956037,
      2730485921, 2820302411, 3259730800, 3345764771, 3516065817, 3600352804, 4094571909, 275423344,
      430227734, 506948616, 659060556, 883997877, 958139571, 1322822218, 1537002063, 1747873779,
      1955562222, 2024104815, 2227730452, 2361852424, 2428436474, 2756734187, 3204031479, 3329325298]"

definition sha_H0 :: "w32 list" where
  "sha_H0 =
     [1779033703, 3144134277, 1013904242, 2773480762, 1359893119, 2600822924, 528734635, 1541459225]"

definition small_sigma0 :: "w32 \<Rightarrow> w32" where
  "small_sigma0 x = (word_rotr 7 x XOR word_rotr 18 x) XOR drop_bit 3 x"

definition small_sigma1 :: "w32 \<Rightarrow> w32" where
  "small_sigma1 x = (word_rotr 17 x XOR word_rotr 19 x) XOR drop_bit 10 x"

definition big_sigma0 :: "w32 \<Rightarrow> w32" where
  "big_sigma0 x = (word_rotr 2 x XOR word_rotr 13 x) XOR word_rotr 22 x"

definition big_sigma1 :: "w32 \<Rightarrow> w32" where
  "big_sigma1 x = (word_rotr 6 x XOR word_rotr 11 x) XOR word_rotr 25 x"

text \<open>The message schedule, latest word first.\<close>

fun sha_extend :: "nat \<Rightarrow> w32 list \<Rightarrow> w32 list" where
  "sha_extend 0 ws = ws"
| "sha_extend (Suc n) ws =
     sha_extend n ((small_sigma1 (ws ! 1) + ws ! 6 + small_sigma0 (ws ! 14) + ws ! 15) # ws)"

fun sha_round :: "w32 list \<Rightarrow> w32 \<times> w32 \<Rightarrow> w32 list" where
  "sha_round [a, b, c, d, e, f, g, h] (k, w) =
     (let t1 = h + big_sigma1 e + ((e AND f) XOR (NOT e AND g)) + k + w;
          t2 = big_sigma0 a + ((a AND b) XOR (a AND c) XOR (b AND c))
      in [t1 + t2, a, b, c, d + t1, e, f, g])"
| "sha_round st _ = st"

definition sha_compress :: "w32 list \<Rightarrow> w32 list \<Rightarrow> w32 list" where
  "sha_compress st block =
     (let ws = rev (sha_extend 48 (rev block));
          st' = foldl sha_round st (zip sha_K ws)
      in map2 (+) st st')"

section \<open>Padding, blocks and the digest\<close>

fun be_word :: "string \<Rightarrow> w32" where
  "be_word bs = foldl (\<lambda>w c. push_bit 8 w OR of_nat (ord_of c)) 0 bs"

fun chunks :: "nat \<Rightarrow> 'a list \<Rightarrow> 'a list list" where
  "chunks n xs = (if n = 0 \<or> xs = [] then [] else take n xs # chunks n (drop n xs))"

declare chunks.simps [simp del]

definition nat_bytes :: "nat \<Rightarrow> nat \<Rightarrow> string" where
  "nat_bytes k n = map (\<lambda>i. char_of (n div 256 ^ (k - Suc i) mod 256)) [0..<k]"

definition sha_pad :: "string \<Rightarrow> string" where
  "sha_pad bs = (let zeros = (119 - length bs mod 64) mod 64
     in bs @ [char_of (128::nat)] @ replicate zeros (char_of (0::nat)) @ nat_bytes 8 (8 * length bs))"

definition word_hex :: "w32 \<Rightarrow> string" where
  "word_hex w = map (\<lambda>i. hex_digit (unat (drop_bit (28 - 4 * i) w AND mask 4))) [0..<8]"

definition sha256_words :: "string \<Rightarrow> w32 list" where
  "sha256_words bs =
     foldl sha_compress sha_H0 (map (\<lambda>b. map be_word (chunks 4 b)) (chunks 64 (sha_pad bs)))"

definition sha256_hex :: "string \<Rightarrow> string" where
  "sha256_hex bs = concat (map word_hex (sha256_words bs))"

section \<open>The shape of a digest\<close>

lemma length_sha_round: "length st = 8 \<Longrightarrow> length (sha_round st kw) = 8"
  by (cases kw; cases "(st, kw)" rule: sha_round.cases) (auto simp: Let_def)

lemma length_foldl_sha_round: "length st = 8 \<Longrightarrow> length (foldl sha_round st kws) = 8"
  by (induction kws arbitrary: st) (auto simp: length_sha_round)

lemma length_sha_compress: "length st = 8 \<Longrightarrow> length (sha_compress st b) = 8"
  by (simp add: sha_compress_def Let_def length_foldl_sha_round)

lemma length_sha256_words: "length (sha256_words bs) = 8"
proof -
  have "length st = 8 \<Longrightarrow> length (foldl sha_compress st blocks) = 8" for st blocks
    by (induction blocks arbitrary: st) (auto simp: length_sha_compress)
  then show ?thesis by (simp add: sha256_words_def sha_H0_def)
qed

lemma length_word_hex [simp]: "length (word_hex w) = 8"
  by (simp add: word_hex_def)

lemma length_sha256_hex [simp]: "length (sha256_hex bs) = 64"
proof -
  have "length (concat (map word_hex ws)) = 8 * length ws" for ws
    by (induction ws) auto
  then show ?thesis by (simp add: sha256_hex_def length_sha256_words)
qed

definition is_hex :: "char \<Rightarrow> bool" where
  "is_hex c = (is_digit c \<or> (let n = ord_of c in 97 \<le> n \<and> n \<le> 102))"

lemma is_hex_hex_digit: "n < 16 \<Longrightarrow> is_hex (hex_digit n)"
  by (simp add: is_hex_def hex_digit_def is_digit_def Let_def)

lemma unat_nibble: "unat ((w :: w32) AND mask 4) < 16"
proof -
  have "unat (w AND mask 4) = take_bit 4 (unat w)"
    by (simp add: take_bit_eq_mask [symmetric] unsigned_take_bit_eq)
  then show ?thesis using take_bit_nat_less_exp [of 4 "unat w"] by simp
qed

lemma sha256_hex_digits: "c \<in> set (sha256_hex bs) \<Longrightarrow> is_hex c"
  by (auto simp: sha256_hex_def word_hex_def intro!: is_hex_hex_digit unat_nibble)

text \<open>\<open>"sha256:" + hexdigest\<close>, the digest the stores record, and \<open>hash_text\<close> of core/summary.py.\<close>

definition body_digest :: "string \<Rightarrow> string" where
  "body_digest body = ''sha256:'' @ sha256_hex body"

definition hash_text :: "string \<Rightarrow> string" where
  "hash_text text = ''sha256:'' @ sha256_hex (utf8 text)"

lemma length_body_digest [simp]: "length (body_digest body) = 71"
  by (simp add: body_digest_def)

lemma startswith_body_digest [simp]: "startswith ''sha256:'' (body_digest body)"
  by (simp add: body_digest_def startswith_def)

lemma sha256_hex_hd: "\<exists>c cs. sha256_hex x = c # cs \<and> is_hex c"
  using length_sha256_hex [of x] sha256_hex_digits [of _ x] by (cases "sha256_hex x") auto

lemma dot_not_hex [simp]: "\<not> is_hex CHR ''.''"
  by code_simp

text \<open>What the stores assume of the digest: the strings in use have different ones.\<close>

definition collision_free :: "string set \<Rightarrow> bool" where
  "collision_free U \<longleftrightarrow> inj_on sha256_hex U"

end
