(* ===== verification/Summary.thy ===== *)
theory Summary
  imports Redaction Json Sha256
begin

text \<open>
  core/summary.py and core/result_safety.py: bounded previews, the nested summaries of mappings and
  sequences, and the payloads and error messages a run persists. The lemmas bound what is
  returned and show that nothing under a sensitive key reaches it.
\<close>

section \<open>Text previews\<close>

text \<open>The slice \<open>s[:n]\<close>, where a negative bound counts from the end.\<close>

definition py_take :: "int \<Rightarrow> 'a list \<Rightarrow> 'a list" where
  "py_take n s = take (nat (if n < 0 then int (length s) + n else n)) s"

definition DEFAULT_TRUNCATE_CHARS :: int where "DEFAULT_TRUNCATE_CHARS = 500"

definition DEFAULT_PREVIEW_CHARS :: int where "DEFAULT_PREVIEW_CHARS = 300"

definition DEFAULT_MAX_DEPTH :: int where "DEFAULT_MAX_DEPTH = 3"

definition DEFAULT_MAX_ITEMS :: int where "DEFAULT_MAX_ITEMS = 20"

definition truncate_text :: "string \<Rightarrow> int \<Rightarrow> string" where
  "truncate_text text max_chars =
     (if int (length text) \<le> max_chars then text
      else let suffix = '' '' @ TRUNCATED_VALUE
        in if max_chars \<le> int (length suffix) then py_take max_chars suffix
           else py_take (max_chars - int (length suffix)) text @ suffix)"

definition preview_text :: "string \<Rightarrow> int \<Rightarrow> string" where
  "preview_text text max_chars = truncate_text (redact_text text) max_chars"

fun type_name :: "pyval \<Rightarrow> string" where
  "type_name (Atom ANone) = ''none''"
| "type_name (Atom (ABool _)) = ''bool''"
| "type_name (Atom (AInt _)) = ''int''"
| "type_name (Atom (AFloat _)) = ''float''"
| "type_name (Atom (AStr _)) = ''str''"
| "type_name (Atom (ABytes _)) = ''bytes''"
| "type_name (Atom (AObj t _)) = t"
| "type_name (PDict _) = ''dict''"
| "type_name (PList _) = ''list''"
| "type_name (PTuple _) = ''list''"

fun size_of :: "pyval \<Rightarrow> int option" where
  "size_of (PDict kvs) = Some (int (length kvs))"
| "size_of (PList xs) = Some (int (length xs))"
| "size_of (PTuple xs) = Some (int (length xs))"
| "size_of (Atom (AStr s)) = Some (int (length s))"
| "size_of (Atom _) = None"

fun preview_scalar :: "atom \<Rightarrow> int \<Rightarrow> pyval" where
  "preview_scalar (AStr s) n = PStr (preview_text s n)"
| "preview_scalar (ABytes b) n = PStr (preview_text (atom_text (ABytes b)) n)"
| "preview_scalar (AObj t s) n = PStr (preview_text s n)"
| "preview_scalar a n = Atom a"

section \<open>Nested summaries\<close>

text \<open>The loop over the items of a mapping: labels, types, sizes and previews.\<close>

type_synonym summary_columns = "pyval list \<times> pydict \<times> pydict \<times> pydict"

definition summary_step ::
  "(string \<Rightarrow> string) \<Rightarrow> (pyval \<Rightarrow> pyval) \<Rightarrow> summary_columns \<Rightarrow> atom \<times> pyval \<Rightarrow> summary_columns" where
  "summary_step label preview cols item = (case cols of (ks, types, sizes, previews) \<Rightarrow>
     (let key_label = label (atom_text (fst item)); nested = snd item
      in (ks @ [PStr key_label],
          dict_set key_label (PStr (type_name nested)) types,
          (case size_of nested of None \<Rightarrow> sizes | Some n \<Rightarrow> dict_set key_label (PInt n) sizes),
          dict_set key_label (preview nested) previews)))"

definition summary_columns ::
  "(string \<Rightarrow> string) \<Rightarrow> (pyval \<Rightarrow> pyval) \<Rightarrow> (atom \<times> pyval) list \<Rightarrow> pydict" where
  "summary_columns label preview items =
     (case foldl (summary_step label preview) ([], [], [], []) items of (ks, types, sizes, previews) \<Rightarrow>
        [(''keys'', PList ks), (''types'', pdict types), (''sizes'', pdict sizes),
         (''preview'', pdict previews)])"

definition key_label :: "string \<Rightarrow> string" where
  "key_label key_name = (if is_sensitive_key key_name then REDACTED_VALUE else key_name)"

definition truncation_note :: "int \<Rightarrow> int \<Rightarrow> pydict" where
  "truncation_note n max_items =
     (if max_items < n
      then [(''truncated'', PBool True), (''omitted_count'', PInt (n - max_items)),
            (''truncation_reason'', PStr ''item_limit'')]
      else [])"

function summarize_value :: "int \<Rightarrow> int \<Rightarrow> pyval \<Rightarrow> pyval" where
  "summarize_value max_depth max_items v =
     (if max_depth < 0 then PStr TRUNCATED_VALUE
      else (case v of
          PDict kvs \<Rightarrow>
            (let items = redact_mapping max_depth kvs
             in pdict (summary_columns key_label (summarize_value (max_depth - 1) max_items)
                         (py_take max_items items)
                       @ [(''count'', PInt (int (length items)))]
                       @ truncation_note (int (length items)) max_items))
        | PList xs \<Rightarrow> PList (map (summarize_value (max_depth - 1) max_items) (py_take max_items xs))
        | PTuple xs \<Rightarrow> PList (map (summarize_value (max_depth - 1) max_items) (py_take max_items xs))
        | Atom a \<Rightarrow> preview_scalar a DEFAULT_PREVIEW_CHARS))"
  by pat_completeness auto
termination
  by (relation "measure (\<lambda>(d, m, v). nat (d + 1))") auto

declare summarize_value.simps [simp del]

definition summarize_mapping :: "int \<Rightarrow> int \<Rightarrow> (atom \<times> pyval) list \<Rightarrow> pydict" where
  "summarize_mapping max_depth max_items kvs =
     (let items = redact_mapping max_depth kvs
      in summary_columns key_label (summarize_value (max_depth - 1) max_items)
           (py_take max_items items)
         @ [(''count'', PInt (int (length items)))]
         @ truncation_note (int (length items)) max_items)"

definition summarize_sequence :: "int \<Rightarrow> int \<Rightarrow> pyval list \<Rightarrow> pyval list" where
  "summarize_sequence max_items max_depth xs =
     map (summarize_value (max_depth - 1) max_items) (py_take max_items xs)"

definition display_str :: "string \<Rightarrow> pyval" where
  "display_str s =
     (let n = int (length s); long = DEFAULT_PREVIEW_CHARS < n
      in pdict [(''value_type'', PStr ''str''), (''length'', PInt n),
           (''preview'', PStr (preview_text s DEFAULT_PREVIEW_CHARS)), (''truncated'', PBool long),
           (''omitted_count'', PInt (max 0 (n - DEFAULT_PREVIEW_CHARS))),
           (''truncation_reason'', PStr (if long then ''character_limit'' else ''''))])"

definition display_dict :: "int \<Rightarrow> (atom \<times> pyval) list \<Rightarrow> pyval" where
  "display_dict max_items kvs =
     (let items = redact_mapping DEFAULT_MAX_DEPTH kvs; n = int (length items)
      in pdict ([(''value_type'', PStr ''dict''), (''size'', PInt n), (''count'', PInt n)]
           @ summary_columns key_label (summarize_value 1 max_items) (py_take max_items items)
           @ truncation_note n max_items))"

definition display_list :: "int \<Rightarrow> pyval list \<Rightarrow> pyval" where
  "display_list max_items items =
     (let n = int (length items)
      in pdict ([(''value_type'', PStr ''list''), (''size'', PInt n), (''count'', PInt n),
           (''item_types'', PList (map (\<lambda>x. PStr (type_name x)) (py_take max_items items))),
           (''preview'', PList (map (summarize_value 1 max_items) (py_take max_items items)))]
           @ truncation_note n max_items))"

fun summarize_display_value :: "int \<Rightarrow> pyval \<Rightarrow> pyval" where
  "summarize_display_value max_items (PDict kvs) = display_dict max_items kvs"
| "summarize_display_value max_items (PList xs) = display_list max_items xs"
| "summarize_display_value max_items (PTuple xs) = display_list max_items xs"
| "summarize_display_value max_items (Atom (AStr s)) = display_str s"
| "summarize_display_value max_items (Atom (ABytes b)) =
     pdict [(''value_type'', PStr (type_name (PBytes b)))]"
| "summarize_display_value max_items (Atom (AObj t s)) =
     pdict [(''value_type'', PStr (type_name (PObj t s)))]"
| "summarize_display_value max_items (Atom a) = Atom a"

section \<open>Chat messages\<close>

text \<open>A message is a dictionary with string keys.\<close>

definition message_role :: "pydict \<Rightarrow> string" where
  "message_role message = (case map_of message ''role'' of
     None \<Rightarrow> '''' | Some v \<Rightarrow> val_text v)"

definition content_preview :: "pydict \<Rightarrow> string" where
  "content_preview message =
     (case (case map_of message ''content'' of None \<Rightarrow> PStr '''' | Some c \<Rightarrow> c) of
        Atom (AStr s) \<Rightarrow> preview_text s 120
      | content \<Rightarrow> preview_text
          (json_default (PDict (redact_mapping 4 [(AStr ''content'', content)]))) 120)"

definition summarize_messages :: "pydict list \<Rightarrow> pydict" where
  "summarize_messages messages =
     (let roles = filter (\<lambda>r. r \<noteq> []) (map message_role messages);
          parts = map (\<lambda>m. strip (message_role m @ '': '' @ content_preview m)) messages;
          previews = map (\<lambda>m. pdict
            [(''role'', PStr (if message_role m = [] then ''unknown'' else message_role m)),
             (''preview'', PStr (content_preview m))]) messages;
          hash_source = json_default
            (PDict (redact_mapping 4 [(AStr ''messages'', PList (map pdict messages))]))
      in [(''message_count'', PInt (int (length messages))),
          (''roles'', PList (map PStr roles)), (''messages'', PList previews),
          (''preview'', PStr (preview_text (join_with [char_of (10::nat)] parts) DEFAULT_PREVIEW_CHARS)),
          (''prompt_hash'', PStr (hash_text hash_source))])"

section \<open>What a run persists (core/result_safety.py)\<close>

definition bounded_preview :: "string \<Rightarrow> string" where
  "bounded_preview text = truncate_text (redact_text text) 300"

definition normalize_error_text :: "string \<Rightarrow> string" where
  "normalize_error_text text =
     (let lines = filter (\<lambda>l. l \<noteq> []) (map strip (splitlines text))
      in if lines = [] then REDACTED_VALUE else last lines)"

function summarize_any :: "int \<Rightarrow> pyval \<Rightarrow> pyval" where
  "summarize_any depth v =
     (if depth < 0 then PStr REDACTED_VALUE
      else (case v of
          PDict kvs \<Rightarrow>
            (let redacted = redact_mapping 4 kvs; items = py_take 20 redacted
             in pdict (summary_columns id (summarize_any (depth - 1)) items
                  @ (if 20 < length redacted then [(''truncated'', PBool True)] else [])))
        | PList xs \<Rightarrow> PList (map (summarize_any (depth - 1)) (py_take 20 xs))
        | PTuple xs \<Rightarrow> PList (map (summarize_any (depth - 1)) (py_take 20 xs))
        | Atom a \<Rightarrow> (case a of
              AStr s \<Rightarrow> PStr (preview_text s 300)
            | ABytes b \<Rightarrow> PStr (bounded_preview (atom_text a))
            | AObj t s \<Rightarrow> PStr (bounded_preview s)
            | _ \<Rightarrow> Atom a)))"
  by pat_completeness auto
termination
  by (relation "measure (\<lambda>(d, v). nat (d + 1))") auto

declare summarize_any.simps [simp del]

fun safe_run_output_payload :: "pyval \<Rightarrow> pydict" where
  "safe_run_output_payload (Atom (AStr s)) =
     [(''value_type'', PStr ''str''),
      (''summary'', pdict [(''preview'', PStr (preview_text s 300)), (''length'', PInt (int (length s)))])]"
| "safe_run_output_payload (Atom a) =
     (let text = atom_text a
      in [(''value_type'', PStr (type_name (Atom a))),
          (''summary'', pdict [(''preview'', PStr (bounded_preview text)),
             (''length'', PInt (int (length text)))])])"
| "safe_run_output_payload v =
     [(''value_type'', PStr (type_name v)),
      (''size'', PInt (case size_of v of None \<Rightarrow> 0 | Some n \<Rightarrow> n)),
      (''summary'', summarize_any 3 v)]"

text \<open>The argument is the class name and text of the exception; a plain string has class \<open>Error\<close>.\<close>

definition safe_run_error_message :: "string \<Rightarrow> string \<Rightarrow> string" where
  "safe_run_error_message error_type text =
     (let raw_message = (if text = [] then ''operation failed'' else text);
          bounded = strip (truncate_text (redact_text (normalize_error_text raw_message)) 300);
          bounded = (if bounded = [] then REDACTED_VALUE else bounded)
      in error_type @ '': '' @ bounded)"

section \<open>Bounds\<close>

lemma length_py_take: "0 \<le> n \<Longrightarrow> int (length (py_take n s)) = min n (int (length s))"
  by (simp add: py_take_def)

lemma py_take_map: "py_take n (map f xs) = map f (py_take n xs)"
  by (simp add: py_take_def take_map)

lemma set_py_take: "set (py_take n xs) \<subseteq> set xs"
  by (simp add: py_take_def set_take_subset)

lemma length_truncate_text: "0 \<le> n \<Longrightarrow> int (length (truncate_text t n)) \<le> n"
  by (auto simp: truncate_text_def Let_def length_py_take)

lemma truncate_text_short: "int (length t) \<le> n \<Longrightarrow> truncate_text t n = t"
  by (simp add: truncate_text_def)

lemma truncate_text_prefix:
  "n < int (length t) \<Longrightarrow> 16 < n \<Longrightarrow> truncate_text t n = take (nat (n - 16)) t @ '' '' @ TRUNCATED_VALUE"
  by (simp add: truncate_text_def py_take_def TRUNCATED_VALUE_def)

lemma length_preview_text: "0 \<le> n \<Longrightarrow> int (length (preview_text t n)) \<le> n"
  by (simp add: preview_text_def length_truncate_text)

lemma set_truncate_text: "set (truncate_text t n) \<subseteq> set t \<union> set ('' '' @ TRUNCATED_VALUE)"
  using set_py_take [of n "'' '' @ TRUNCATED_VALUE"]
    set_py_take [of "n - int (length ('' '' @ TRUNCATED_VALUE))" t]
  by (auto simp: truncate_text_def Let_def)

section \<open>Nothing under a sensitive key reaches a summary\<close>

lemma redact_mapping_erase: "redact_mapping m (erase_items kvs) = redact_mapping m kvs"
  by (simp add: redact_mapping_def truncated_items_erase redact_erase)

lemma erase_list_map: "erase_list xs = map erase_secrets xs"
  by (induction xs) auto

lemma length_erase_items: "length (erase_items kvs) = length kvs"
  by (induction kvs) auto

lemma type_name_erase [simp]: "type_name (erase_secrets v) = type_name v"
  by (cases v) auto

lemma size_of_erase [simp]: "size_of (erase_secrets v) = size_of v"
  by (cases v) (auto simp: length_erase_items length_erase_list)

lemma summarize_value_erase: "summarize_value md mi (erase_secrets v) = summarize_value md mi v"
proof (induction md mi v rule: summarize_value.induct)
  case (1 md mi v)
  then show ?case
    by (cases v) (simp_all add: summarize_value.simps [of md mi] redact_mapping_erase erase_list_map
        py_take_map del: summarize_value.simps)
qed

lemma summarize_any_erase: "summarize_any d (erase_secrets v) = summarize_any d v"
proof (induction d v rule: summarize_any.induct)
  case (1 d v)
  then show ?case
    by (cases v) (simp_all add: summarize_any.simps [of d] redact_mapping_erase erase_list_map
        py_take_map del: summarize_any.simps)
qed

lemma safe_run_output_payload_erase:
  "safe_run_output_payload (erase_secrets v) = safe_run_output_payload v"
proof (cases v)
  case (PDict kvs)
  then show ?thesis
    using summarize_any_erase [of 3 v] by (simp add: length_erase_items)
next
  case (PList xs)
  then show ?thesis using summarize_any_erase [of 3 v] by (simp add: length_erase_list)
next
  case (PTuple xs)
  then show ?thesis using summarize_any_erase [of 3 v] by (simp add: length_erase_list)
qed simp

lemma summarize_display_value_erase:
  "summarize_display_value mi (erase_secrets v) = summarize_display_value mi v"
  by (cases v) (simp_all add: display_dict_def display_list_def redact_mapping_erase
      erase_list_map py_take_map summarize_value_erase comp_def)

section \<open>Error messages\<close>

lemma normalize_error_text_line: "c \<in> set (normalize_error_text t) \<Longrightarrow> \<not> is_line_end c"
proof -
  assume c: "c \<in> set (normalize_error_text t)"
  have m: "\<not> is_line_end x" if "x \<in> set REDACTED_VALUE" for x
    using that by (auto simp: REDACTED_VALUE_def is_line_end_def)
  show ?thesis
  proof (cases "filter (\<lambda>l. l \<noteq> []) (map strip (splitlines t)) = []")
    case True
    then show ?thesis using c m by (simp add: normalize_error_text_def)
  next
    case False
    then have "last (filter (\<lambda>l. l \<noteq> []) (map strip (splitlines t))) \<in> strip ` set (splitlines t)"
      using last_in_set by force
    then obtain l where "l \<in> set (splitlines t)" "c \<in> set (strip l)"
      using c False by (auto simp: normalize_error_text_def Let_def)
    then show ?thesis using splitlines_no_end set_strip [of l] by blast
  qed
qed

lemma marker_char_line: "marker_char c \<Longrightarrow> \<not> is_line_end c"
  by (auto simp: marker_char_def REDACTED_VALUE_def is_line_end_def)

lemma redacted_line:
  assumes "\<And>c. c \<in> set t \<Longrightarrow> \<not> is_line_end c" and "c \<in> set (truncate_text (redact_text t) n)"
  shows "\<not> is_line_end c"
proof -
  have "c \<in> set t \<or> marker_char c \<or> c \<in> set ('' '' @ TRUNCATED_VALUE)"
    using assms(2) set_truncate_text [of "redact_text t" n] set_redact_text [of t] by blast
  moreover have "\<not> is_line_end c" if "c \<in> set ('' '' @ TRUNCATED_VALUE)"
    using that by (auto simp: TRUNCATED_VALUE_def is_line_end_def)
  ultimately show ?thesis using assms(1) marker_char_line by blast
qed

lemma safe_run_error_message_body:
  "\<exists>body. safe_run_error_message error_type text = error_type @ '': '' @ body
     \<and> body \<noteq> [] \<and> length body \<le> 300 \<and> (\<forall>c \<in> set body. \<not> is_line_end c)"
proof -
  let ?t = "truncate_text (redact_text (normalize_error_text
    (if text = [] then ''operation failed'' else text))) 300"
  let ?b = "if strip ?t = [] then REDACTED_VALUE else strip ?t"
  have "int (length ?t) \<le> 300" by (rule length_truncate_text) simp
  then have "length ?t \<le> 300" by linarith
  then have "length (strip ?t) \<le> 300" by (rule order_trans [OF length_strip])
  moreover have "\<not> is_line_end c" if "c \<in> set (strip ?t)" for c
  proof (rule redacted_line)
    show "c \<in> set ?t" using that set_strip [of ?t] by blast
  qed (rule normalize_error_text_line)
  moreover have "length REDACTED_VALUE \<le> 300" "REDACTED_VALUE \<noteq> []"
    "\<forall>c \<in> set REDACTED_VALUE. \<not> is_line_end c"
    by (auto simp: REDACTED_VALUE_def is_line_end_def)
  ultimately have "?b \<noteq> [] \<and> length ?b \<le> 300 \<and> (\<forall>c \<in> set ?b. \<not> is_line_end c)" by simp
  then show ?thesis
    unfolding safe_run_error_message_def Let_def by (intro exI [of _ ?b]) simp
qed

end
