(* ===== verification/Tools.thy ===== *)
theory Tools
  imports Errors Summary
begin

text \<open>
  Tool registries (src/src/cobalt_wren/integrations/tools/): the in-memory registry (registry.py),
  the allowlist policy and the result of a denied call (policy.py), the registry that asks a policy
  first (policy_registry.py), the registry that records calls as spans (observed_registry.py) with
  the suppression of observability failures (integrations/observability/failure_policy.py), and the
  echo tool (safe_tools.py). A tool and an event sink are code outside the repository: functions of
  the state \<open>'s\<close> they act on.
\<close>

section \<open>Results and registries\<close>

record tool_result =
  tr_output :: pyval
  tr_output_summary :: string
  tr_exit_code :: int
  tr_metadata :: pydict
  tr_error_message :: string

text \<open>What a tool returns: a result, or any other value.\<close>

datatype tool_return = Tool_Result tool_result | Tool_Value pyval

type_synonym 's tool = "pydict \<Rightarrow> 's \<Rightarrow> 's \<times> tool_return res"
type_synonym 's run_tool = "string \<Rightarrow> pydict \<Rightarrow> 's \<Rightarrow> 's \<times> tool_result res"

type_synonym 's tool_table = "(string \<times> 's tool) list"

definition register_tool :: "string \<Rightarrow> 's tool \<Rightarrow> 's tool_table \<Rightarrow> 's tool_table" where
  "register_tool name tool tools = dict_set name tool tools"

definition registered_tool :: "'s tool_table \<Rightarrow> string \<Rightarrow> 's tool res" where
  "registered_tool tools name =
     (case map_of tools name of None \<Rightarrow> Inl (PlainExn KeyError_cls (str_repr name)) | Some t \<Rightarrow> Inr t)"

fun as_tool_result :: "string \<Rightarrow> tool_return \<Rightarrow> tool_result" where
  "as_tool_result name (Tool_Result r) = r"
| "as_tool_result name (Tool_Value v) =
     \<lparr>tr_output = v, tr_output_summary = val_text v, tr_exit_code = 0,
      tr_metadata = [(''tool_name'', PStr name)], tr_error_message = []\<rparr>"

definition memory_run :: "'s tool_table \<Rightarrow> 's run_tool" where
  "memory_run tools name kwargs s =
     (case registered_tool tools name of
        Inl e \<Rightarrow> (s, Inl e)
      | Inr tool \<Rightarrow> (case tool kwargs s of (s, r) \<Rightarrow> (s, r_bind r (\<lambda>x. Inr (as_tool_result name x)))))"

section \<open>Policies\<close>

record policy_context =
  px_run_id :: "int option"
  px_workflow_id :: "int option"
  px_thread_id :: string

record policy_decision =
  pd_allowed :: bool
  pd_code :: string
  pd_reason :: string
  pd_metadata :: pyitems

definition POLICY_DENIED_EXIT_CODE :: int where "POLICY_DENIED_EXIT_CODE = 126"

definition POLICY_DENIED_ERROR_CODE :: string where "POLICY_DENIED_ERROR_CODE = ''tool_policy_denied''"

definition allowlist_authorize ::
  "string set \<Rightarrow> string \<Rightarrow> pydict \<Rightarrow> policy_context \<Rightarrow> policy_decision" where
  "allowlist_authorize allowed_tools name kwargs context =
     (if name \<in> allowed_tools
      then \<lparr>pd_allowed = True, pd_code = ''tool_allowed'', pd_reason = ''Tool is allowed by policy.'',
            pd_metadata = [(AStr ''tool_name'', PStr name)]\<rparr>
      else \<lparr>pd_allowed = False, pd_code = ''tool_not_allowed'',
            pd_reason = truncate_text (redact_text (''Tool '' @ quoted name @ '' is not allowed by policy.'')) 300,
            pd_metadata = [(AStr ''tool_name'', PStr name)]\<rparr>)"

definition safe_policy_metadata :: "policy_decision \<Rightarrow> pydict" where
  "safe_policy_metadata decision =
     summarize_mapping DEFAULT_MAX_DEPTH DEFAULT_MAX_ITEMS (redact_mapping 4 (pd_metadata decision))"

definition NOT_ALLOWED :: string where "NOT_ALLOWED = ''Tool is not allowed by policy.''"

definition safe_reason :: "string \<Rightarrow> string" where
  "safe_reason reason =
     (let bounded = strip (truncate_text (redact_text (if reason = [] then NOT_ALLOWED else reason)) 300)
      in if bounded = [] then NOT_ALLOWED else bounded)"

definition build_policy_denied_result :: "string \<Rightarrow> policy_decision \<Rightarrow> tool_result" where
  "build_policy_denied_result tool_name decision =
     (let reason = safe_reason (pd_reason decision);
          metadata = safe_policy_metadata decision
      in \<lparr>tr_output = PNone,
          tr_output_summary = truncate_text (json_default (pdict
            [(''policy_error_code'', PStr POLICY_DENIED_ERROR_CODE), (''tool_name'', PStr tool_name),
             (''reason'', PStr reason), (''policy_metadata'', pdict metadata)])) 500,
          tr_exit_code = POLICY_DENIED_EXIT_CODE,
          tr_metadata = [(''tool_name'', PStr tool_name), (''policy_denied'', PBool True),
            (''policy_error_code'', PStr POLICY_DENIED_ERROR_CODE),
            (''policy_code'', PStr (if pd_code decision = [] then POLICY_DENIED_ERROR_CODE else pd_code decision)),
            (''policy_metadata'', pdict metadata)],
          tr_error_message = reason\<rparr>)"

definition policy_run ::
  "(string \<Rightarrow> pydict \<Rightarrow> policy_context \<Rightarrow> policy_decision) \<Rightarrow> policy_context \<Rightarrow> 's run_tool \<Rightarrow> 's run_tool"
where
  "policy_run authorize context inner name kwargs s =
     (let decision = authorize name kwargs context
      in if \<not> pd_allowed decision then (s, Inr (build_policy_denied_result name decision))
         else inner name kwargs s)"

text \<open>\<open>get\<close> of the policy-aware registry hands out the inner tool, without asking the policy.\<close>

definition policy_get :: "'s tool_table \<Rightarrow> string \<Rightarrow> 's tool res" where
  "policy_get inner name = registered_tool inner name"

section \<open>Observation\<close>

text \<open>The operations of an event sink used here; each may raise.\<close>

record 's span_sink =
  ss_started :: "int \<Rightarrow> string \<Rightarrow> pydict \<Rightarrow> 's \<Rightarrow> 's \<times> pyval res"
  ss_failed :: "pyval \<Rightarrow> string \<Rightarrow> pydict option \<Rightarrow> pydict \<Rightarrow> 's \<Rightarrow> 's \<times> unit res"
  ss_completed :: "pyval \<Rightarrow> string \<Rightarrow> pydict \<Rightarrow> pydict \<Rightarrow> 's \<Rightarrow> 's \<times> unit res"

definition suppress_observability_failure :: "('s \<Rightarrow> 's \<times> unit res) \<Rightarrow> 's \<Rightarrow> 's" where
  "suppress_observability_failure operation s = fst (operation s)"

definition string_items :: "pydict \<Rightarrow> pyitems" where
  "string_items d = map (\<lambda>(k, v). (AStr k, v)) d"

definition tool_input_summary :: "string \<Rightarrow> pydict \<Rightarrow> pydict" where
  "tool_input_summary name kwargs =
     [(''tool_name'', PStr name), (''arg_keys'', PList (map PStr (sort (map fst kwargs)))),
      (''kwargs_preview'', pdict (summarize_mapping DEFAULT_MAX_DEPTH DEFAULT_MAX_ITEMS (string_items kwargs)))]"

definition tool_output_summary :: "tool_result \<Rightarrow> string" where
  "tool_output_summary r =
     (let source = (if tr_output_summary r \<noteq> [] then tr_output_summary r
            else case tr_output r of
                PStr t \<Rightarrow> t
              | v \<Rightarrow> json_default (summarize_value DEFAULT_MAX_DEPTH DEFAULT_MAX_ITEMS v))
      in json_default (pdict [(''exit_code'', PInt (tr_exit_code r)), (''length'', PInt (int (length source))),
           (''preview'', PStr (preview_text source DEFAULT_PREVIEW_CHARS))]))"

definition tool_result_metadata :: "string \<Rightarrow> tool_result \<Rightarrow> pydict" where
  "tool_result_metadata name r =
     summarize_mapping DEFAULT_MAX_DEPTH DEFAULT_MAX_ITEMS
       [(AStr ''tool_name'', PStr name), (AStr ''tool_result_metadata'', pdict (tr_metadata r))]"

definition tool_failure_message :: "tool_result \<Rightarrow> string" where
  "tool_failure_message r =
     (if tr_error_message r \<noteq> [] then redact_text (tr_error_message r)
      else ''tool '' @ int_text (tr_exit_code r) @ '' failed'')"

definition observed_run :: "int option \<Rightarrow> 's span_sink option \<Rightarrow> 's run_tool \<Rightarrow> 's run_tool" where
  "observed_run run_id sink inner name kwargs s =
     (let input = tool_input_summary name kwargs;
          meta = [(''tool_name'', PStr name), (''input_summary'', pdict input)]
      in case sink of
           None \<Rightarrow> inner name kwargs s
         | Some k \<Rightarrow>
             (case ss_started k (case run_id of None \<Rightarrow> 0 | Some i \<Rightarrow> i) (''tool:'' @ name) meta s of
                (s, Inl e) \<Rightarrow> (s, Inl e)
              | (s, Inr span) \<Rightarrow>
                  (case inner name kwargs s of
                     (s, Inl e) \<Rightarrow>
                       (suppress_observability_failure (ss_failed k span (redact_text (exn_text e)) None meta) s, Inl e)
                   | (s, Inr r) \<Rightarrow>
                       (let meta = meta @ [(''result_metadata'', pdict (tool_result_metadata name r))];
                            metrics = [(''exit_code'', PInt (tr_exit_code r))]
                        in if tr_exit_code r \<noteq> 0 \<or> tr_error_message r \<noteq> []
                           then (suppress_observability_failure
                                   (ss_failed k span (tool_failure_message r) (Some metrics) meta) s, Inr r)
                           else (case ss_completed k span (tool_output_summary r) metrics meta s of
                               (s, Inl e) \<Rightarrow> (s, Inl e)
                             | (s, Inr _) \<Rightarrow> (s, Inr r))))))"

section \<open>The echo tool\<close>

definition ECHO_TOOL_NAME :: string where "ECHO_TOOL_NAME = ''echo''"

definition echo_preview :: "pyval \<Rightarrow> string" where
  "echo_preview v =
     truncate_text (preview_text (case v of
         PStr t \<Rightarrow> t
       | _ \<Rightarrow> json_default (summarize_value DEFAULT_MAX_DEPTH DEFAULT_MAX_ITEMS v)) DEFAULT_PREVIEW_CHARS) 300"

definition echo_tool :: "'s tool" where
  "echo_tool kwargs s =
     (let text = (case map_of kwargs ''text'' of None \<Rightarrow> PStr [] | Some v \<Rightarrow> v);
          safe_output = redact_text (echo_preview text)
      in (s, Inr (Tool_Result \<lparr>tr_output = PStr safe_output, tr_output_summary = safe_output,
            tr_exit_code = 0,
            tr_metadata = [(''tool_name'', PStr ECHO_TOOL_NAME), (''input_type'', PStr (py_type_name text)),
              (''arg_keys'', PList (map PStr (sort (map fst kwargs))))],
            tr_error_message = []\<rparr>)))"

section \<open>What a policy guards\<close>

lemma length_safe_reason: "length (safe_reason r) \<le> 300 \<and> safe_reason r \<noteq> []"
proof -
  let ?t = "truncate_text (redact_text (if r = [] then NOT_ALLOWED else r)) 300"
  have "int (length ?t) \<le> 300" by (rule length_truncate_text) simp
  then have "length (strip ?t) \<le> 300" using length_strip [of ?t] by linarith
  then show ?thesis by (auto simp: safe_reason_def Let_def NOT_ALLOWED_def)
qed

lemma denied_result:
  "tr_exit_code (build_policy_denied_result n d) = 126"
  "tr_output (build_policy_denied_result n d) = PNone"
  "tr_error_message (build_policy_denied_result n d) \<noteq> []"
  "length (tr_error_message (build_policy_denied_result n d)) \<le> 300"
  "length (tr_output_summary (build_policy_denied_result n d)) \<le> 500"
proof -
  have "int (length (tr_output_summary (build_policy_denied_result n d))) \<le> 500"
    unfolding build_policy_denied_result_def Let_def tool_result.simps by (rule length_truncate_text) simp
  then show "length (tr_output_summary (build_policy_denied_result n d)) \<le> 500" by linarith
qed (use length_safe_reason in \<open>simp_all add: build_policy_denied_result_def Let_def POLICY_DENIED_EXIT_CODE_def\<close>)

text \<open>Calls in sequence, through the registry \<open>run\<close>.\<close>

fun run_calls :: "'s run_tool \<Rightarrow> (string \<times> pydict) list \<Rightarrow> 's \<Rightarrow> 's \<times> tool_result res list" where
  "run_calls run [] s = (s, [])"
| "run_calls run ((n, kwargs) # calls) s =
     (case run n kwargs s of (s, r) \<Rightarrow> (case run_calls run calls s of (s, rs) \<Rightarrow> (s, r # rs)))"

text \<open>
  The contract of a guard: what it denies leaves the state alone and answers with a failed result,
  what it allows is the inner registry's. Whatever is called through it, the state is as if only the
  allowed calls had been made.
\<close>

locale tool_guard =
  fixes permitted :: "string \<Rightarrow> pydict \<Rightarrow> bool"
    and inner :: "'s run_tool"
    and guarded :: "'s run_tool"
  assumes allowed: "permitted n kwargs \<Longrightarrow> guarded n kwargs s = inner n kwargs s"
    and denied: "\<not> permitted n kwargs \<Longrightarrow>
          \<exists>r. guarded n kwargs s = (s, Inr r) \<and> tr_exit_code r \<noteq> 0 \<and> tr_error_message r \<noteq> []"
begin

lemma only_permitted_calls_act:
  "fst (run_calls guarded calls s) = fst (run_calls inner (filter (\<lambda>(n, kwargs). permitted n kwargs) calls) s)"
proof (induction calls arbitrary: s)
  case (Cons c calls)
  obtain n kwargs where c: "c = (n, kwargs)" by force
  show ?case
  proof (cases "permitted n kwargs")
    case True
    then show ?thesis using Cons allowed c by (simp add: split_beta)
  next
    case False
    then obtain r where "guarded n kwargs s = (s, Inr r)" using denied by blast
    then show ?thesis using Cons False c by (simp add: split_beta)
  qed
qed simp

end

interpretation policy: tool_guard
  "\<lambda>n kwargs. pd_allowed (authorize n kwargs ctx)" inner "policy_run authorize ctx inner"
  for authorize ctx and inner :: "'s run_tool"
  by unfold_locales (auto simp: policy_run_def Let_def denied_result)

lemma allowlist_allowed: "pd_allowed (allowlist_authorize A n kwargs context) \<longleftrightarrow> n \<in> A"
  by (simp add: allowlist_authorize_def)

text \<open>Observation keeps a failure of the tool, and a result that reports one, whatever the sink does.\<close>

lemma observed_failure:
  assumes "ss_started k (case run_id of None \<Rightarrow> 0 | Some i \<Rightarrow> i) (''tool:'' @ n)
      [(''tool_name'', PStr n), (''input_summary'', pdict (tool_input_summary n kwargs))] s = (s1, Inr span)"
    and "inner n kwargs s1 = (s2, r)"
    and "case r of Inl _ \<Rightarrow> True | Inr x \<Rightarrow> tr_exit_code x \<noteq> 0 \<or> tr_error_message x \<noteq> []"
  shows "snd (observed_run run_id (Some k) inner n kwargs s) = r"
  using assms by (cases r) (simp_all add: observed_run_def Let_def)

text \<open>The completion of a span is not suppressed: its failure is the call's.\<close>

lemma observed_completion_fails:
  assumes "ss_started k (case run_id of None \<Rightarrow> 0 | Some i \<Rightarrow> i) (''tool:'' @ n)
      [(''tool_name'', PStr n), (''input_summary'', pdict (tool_input_summary n kwargs))] s = (s1, Inr span)"
    and "inner n kwargs s1 = (s2, Inr r)" and "tr_exit_code r = 0" and "tr_error_message r = []"
    and "\<And>sp t m d s. snd (ss_completed k sp t m d s) = Inl e"
  shows "snd (observed_run run_id (Some k) inner n kwargs s) = Inl e"
proof -
  let ?meta = "[(''tool_name'', PStr n), (''input_summary'', pdict (tool_input_summary n kwargs)),
      (''result_metadata'', pdict (tool_result_metadata n r))]"
  obtain s3 where "ss_completed k span (tool_output_summary r) [(''exit_code'', PInt 0)] ?meta s2 = (s3, Inl e)"
    using assms(5) by (metis prod.collapse)
  then show ?thesis using assms(1-4) by (simp add: observed_run_def Let_def)
qed

end
