(* ===== verification/Config_Security.thy ===== *)
theory Config_Security
  imports Errors Regex
begin

text \<open>
  config/security.py: the checks on a raw configuration before it is normalized. The scan is
  translated entry by entry, with its errors; a declarative notion of what may occur anywhere in a
  configuration is stated beside it, and the scan is shown to accept exactly those configurations.
\<close>

section \<open>The checks\<close>

definition config_error :: "string \<Rightarrow> string \<Rightarrow> pydict \<Rightarrow> exn" where
  "config_error msg cd meta = ConfigError msg cd (Some ''config_loader'') None meta"

definition FORBIDDEN_IMPORT_FIELDS :: "string list" where
  "FORBIDDEN_IMPORT_FIELDS =
     [''callable'', ''callable_path'', ''class_path'', ''factory'', ''factory_path'', ''import'',
      ''import_path'', ''module'']"

definition RAW_PERSISTENCE_BYPASS_FLAGS :: "string list" where
  "RAW_PERSISTENCE_BYPASS_FLAGS =
     [''disable_redaction'', ''expose_traceback'', ''persist_raw_input'', ''persist_raw_prompt'',
      ''persist_raw_response'', ''persist_raw_tool_output'']"

definition SECRET_LIKE_PREFIXES :: "string list" where
  "SECRET_LIKE_PREFIXES =
     [''sk-'', ''pk-'', ''rk-'', ''ghp_'', ''gho_'', ''ghs_'', ''xoxb-'', ''xoxa-'']"

definition ENV_VAR_NAME_RE :: rx where
  "ENV_VAR_NAME_RE = RSeq (RChr (\<lambda>c. is_upper c \<or> c = CHR ''_''))
     (RStar (\<lambda>c. is_upper c \<or> is_digit c \<or> c = CHR ''_''))"

definition CREDENTIAL_URL_RE :: rx where
  "CREDENTIAL_URL_RE =
     RSeqs [RChr (\<lambda>c. is_lower c \<or> is_upper c), RStar (\<lambda>c. is_alnum c \<or> c \<in> set ''+.-''),
       RLit ''://'', RPlus (\<lambda>c. c \<notin> set ''/@:'' \<and> \<not> is_space c), RLit '':'',
       RPlus (\<lambda>c. c \<notin> set ''/@'' \<and> \<not> is_space c), RLit ''@'']"

fun is_secret_like_literal :: "pyval \<Rightarrow> bool" where
  "is_secret_like_literal (Atom (AStr s)) =
     (let text = strip s
      in if text = [] then False
         else if list_ex (\<lambda>p. startswith p text) SECRET_LIKE_PREFIXES then True
         else rx_prefix CREDENTIAL_URL_RE text)"
| "is_secret_like_literal _ = False"

definition normalize_secret_reference :: "pyval \<Rightarrow> string \<Rightarrow> string res" where
  "normalize_secret_reference v field_name =
     (let err = config_error
        (''Configuration is invalid: '' @ field_name @ '' must reference an environment variable.'')
        ''CONFIG_SECRET_LITERAL'' [(''field_name'', PStr field_name)]
      in case v of
           Atom (AStr s) \<Rightarrow>
             (let env_name = strip s
              in if \<not> rx_fullmatch ENV_VAR_NAME_RE env_name then Inl err else Inr env_name)
         | _ \<Rightarrow> Inl err)"

text \<open>The four checks on one entry of a mapping, in order.\<close>

definition check_entry :: "atom \<Rightarrow> pyval \<Rightarrow> unit res" where
  "check_entry key v =
     (if key \<in> AStr ` set FORBIDDEN_IMPORT_FIELDS
      then Inl (config_error (''Configuration is invalid: '' @ atom_text key @ '' is not allowed.'')
        ''CONFIG_ARBITRARY_IMPORT'' [(''field_name'', Atom key)])
      else if key = AStr ''allow_all_tools'' \<and> v = PBool True
      then Inl (config_error ''Configuration is invalid: allow_all_tools is forbidden.''
        ''CONFIG_ALLOW_ALL_TOOLS_FORBIDDEN'' [(''field_name'', Atom key)])
      else if key \<in> AStr ` set RAW_PERSISTENCE_BYPASS_FLAGS \<and> v = PBool True
      then Inl (config_error (''Configuration is invalid: '' @ atom_text key @ '' is not allowed.'')
        ''CONFIG_UNSAFE_PERSISTENCE'' [(''field_name'', Atom key)])
      else if is_secret_like_literal v
      then Inl (config_error ''Configuration is invalid: secret-like literal is not allowed.''
        ''CONFIG_SECRET_LITERAL'' [(''field_name'', Atom key)])
      else Inr ())"

definition check_item :: "pyval \<Rightarrow> unit res" where
  "check_item v = r_guard (is_secret_like_literal v)
     (config_error ''Configuration is invalid: secret-like literal is not allowed.''
        ''CONFIG_SECRET_LITERAL'' [])"

text \<open>\<open>scan_nested\<close> is the tail of both loops: descend into mappings, lists and tuples.\<close>

fun scan_mapping :: "(atom \<times> pyval) list \<Rightarrow> unit res"
and scan_sequence :: "pyval list \<Rightarrow> unit res"
and scan_nested :: "pyval \<Rightarrow> unit res"
where
  "scan_mapping [] = Inr ()"
| "scan_mapping ((key, v) # kvs) =
     r_bind (check_entry key v) (\<lambda>_. r_bind (scan_nested v) (\<lambda>_. scan_mapping kvs))"
| "scan_sequence [] = Inr ()"
| "scan_sequence (v # vs) =
     r_bind (check_item v) (\<lambda>_. r_bind (scan_nested v) (\<lambda>_. scan_sequence vs))"
| "scan_nested (PDict kvs) = scan_mapping kvs"
| "scan_nested (PList xs) = scan_sequence xs"
| "scan_nested (PTuple xs) = scan_sequence xs"
| "scan_nested (Atom _) = Inr ()"

definition reject_safety_toggle :: "(atom \<times> pyval) list \<Rightarrow> unit res" where
  "reject_safety_toggle safety =
     (if map_of safety (AStr ''enabled'') = Some (PBool False)
      then Inl (config_error ''Configuration is invalid: safety cannot be disabled.''
        ''CONFIG_SAFETY_DISABLED'' [])
      else if map_of safety (AStr ''redaction_enabled'') = Some (PBool False)
      then Inl (config_error ''Configuration is invalid: redaction cannot be disabled.''
        ''CONFIG_SAFETY_DISABLED'' [])
      else if map_of safety (AStr ''safe_errors'') = Some (PBool False)
      then Inl (config_error ''Configuration is invalid: safe errors cannot be disabled.''
        ''CONFIG_SAFETY_DISABLED'' [])
      else Inr ())"

definition precheck_package_config_mapping :: "(atom \<times> pyval) list \<Rightarrow> unit res" where
  "precheck_package_config_mapping data =
     r_bind (scan_mapping data) (\<lambda>_.
     r_bind (case map_of data (AStr ''safety'') of
         Some (PDict safety) \<Rightarrow> reject_safety_toggle safety | _ \<Rightarrow> Inr ()) (\<lambda>_.
     (case map_of data (AStr ''tools'') of
         Some (PDict tools) \<Rightarrow>
           r_guard (map_of tools (AStr ''allow_all_tools'') = Some (PBool True))
             (config_error ''Configuration is invalid: allow_all_tools is forbidden.''
               ''CONFIG_ALLOW_ALL_TOOLS_FORBIDDEN'' [])
       | _ \<Rightarrow> Inr ())))"

section \<open>What is accepted\<close>

text \<open>\<open>inside x v\<close>: \<open>x\<close> occurs in \<open>v\<close>, through mappings, lists and tuples.\<close>

inductive inside :: "pyval \<Rightarrow> pyval \<Rightarrow> bool" where
  inside_refl: "inside v v"
| inside_dict: "(k, w) \<in> set kvs \<Longrightarrow> inside x w \<Longrightarrow> inside x (PDict kvs)"
| inside_list: "w \<in> set xs \<Longrightarrow> inside x w \<Longrightarrow> inside x (PList xs)"
| inside_tuple: "w \<in> set xs \<Longrightarrow> inside x w \<Longrightarrow> inside x (PTuple xs)"

inductive_simps inside_atom_iff: "inside x (Atom a)"
inductive_simps inside_dict_iff: "inside x (PDict kvs)"
inductive_simps inside_list_iff: "inside x (PList xs)"
inductive_simps inside_tuple_iff: "inside x (PTuple xs)"

lemmas inside_iffs = inside_atom_iff inside_dict_iff inside_list_iff inside_tuple_iff

definition safe_entry :: "atom \<Rightarrow> pyval \<Rightarrow> bool" where
  "safe_entry key v \<longleftrightarrow>
     key \<notin> AStr ` set FORBIDDEN_IMPORT_FIELDS
     \<and> (v = PBool True \<longrightarrow> key \<notin> AStr ` set (''allow_all_tools'' # RAW_PERSISTENCE_BYPASS_FLAGS))
     \<and> \<not> is_secret_like_literal v"

text \<open>Every container that occurs is safe: the entries of a mapping, the items of a sequence.\<close>

fun safe_container :: "pyval \<Rightarrow> bool" where
  "safe_container (PDict kvs) = (\<forall>(k, v) \<in> set kvs. safe_entry k v)"
| "safe_container (PList xs) = (\<forall>v \<in> set xs. \<not> is_secret_like_literal v)"
| "safe_container (PTuple xs) = (\<forall>v \<in> set xs. \<not> is_secret_like_literal v)"
| "safe_container (Atom _) = True"

definition safe_config :: "pyval \<Rightarrow> bool" where
  "safe_config v \<longleftrightarrow> (\<forall>c. inside c v \<longrightarrow> safe_container c)"

lemma unit_res_cases: "(r :: unit res) = Inr () \<or> (\<exists>e. r = Inl e)"
  by (cases r) auto

lemma check_entry_ok: "check_entry k v = Inr () \<longleftrightarrow> safe_entry k v"
  by (auto simp: check_entry_def safe_entry_def)

lemma check_item_ok: "check_item v = Inr () \<longleftrightarrow> \<not> is_secret_like_literal v"
  by (simp add: check_item_def r_simps)

lemma r_bind_unit_ok: "r_bind (r :: unit res) f = Inr () \<longleftrightarrow> r = Inr () \<and> f () = Inr ()"
  by (auto simp: r_simps)

lemma safe_config_atom [simp]: "safe_config (Atom a)"
  by (simp add: safe_config_def inside_atom_iff)

lemma safe_config_dict:
  "safe_config (PDict kvs) \<longleftrightarrow> (\<forall>(k, v) \<in> set kvs. safe_entry k v \<and> safe_config v)"
proof -
  have "safe_config (PDict kvs) \<longleftrightarrow>
      safe_container (PDict kvs) \<and> (\<forall>k v. (k, v) \<in> set kvs \<longrightarrow> safe_config v)"
    unfolding safe_config_def inside_dict_iff by blast
  then show ?thesis by auto
qed

lemma safe_config_list:
  "safe_config (PList xs) \<longleftrightarrow> (\<forall>v \<in> set xs. \<not> is_secret_like_literal v \<and> safe_config v)"
proof -
  have "safe_config (PList xs) \<longleftrightarrow> safe_container (PList xs) \<and> (\<forall>v \<in> set xs. safe_config v)"
    unfolding safe_config_def inside_list_iff by blast
  then show ?thesis by auto
qed

lemma safe_config_tuple:
  "safe_config (PTuple xs) \<longleftrightarrow> (\<forall>v \<in> set xs. \<not> is_secret_like_literal v \<and> safe_config v)"
proof -
  have "safe_config (PTuple xs) \<longleftrightarrow> safe_container (PTuple xs) \<and> (\<forall>v \<in> set xs. safe_config v)"
    unfolding safe_config_def inside_tuple_iff by blast
  then show ?thesis by auto
qed

lemma scan_ok:
  "scan_mapping kvs = Inr () \<longleftrightarrow> safe_config (PDict kvs)"
  "scan_sequence xs = Inr () \<longleftrightarrow> safe_config (PList xs)"
  "scan_nested v = Inr () \<longleftrightarrow> safe_config v"
  by (induction kvs and xs and v rule: scan_mapping_scan_sequence_scan_nested.induct)
    (auto simp: r_bind_unit_ok check_entry_ok check_item_ok safe_config_dict safe_config_list
      safe_config_tuple)

definition no_safety_toggle :: "(atom \<times> pyval) list \<Rightarrow> bool" where
  "no_safety_toggle data \<longleftrightarrow> (\<forall>safety. map_of data (AStr ''safety'') = Some (PDict safety) \<longrightarrow>
     (\<forall>k \<in> set [''enabled'', ''redaction_enabled'', ''safe_errors''].
        map_of safety (AStr k) \<noteq> Some (PBool False)))"

lemma reject_safety_toggle_ok:
  "reject_safety_toggle safety = Inr () \<longleftrightarrow>
     (\<forall>k \<in> set [''enabled'', ''redaction_enabled'', ''safe_errors''].
        map_of safety (AStr k) \<noteq> Some (PBool False))"
  by (auto simp: reject_safety_toggle_def)

text \<open>A configuration that passed the scan has no \<open>allow_all_tools\<close> flag: the last check is a second line.\<close>

lemma safe_config_no_allow_all_tools:
  assumes "safe_config (PDict data)" and "map_of data k = Some (PDict tools)"
  shows "map_of tools (AStr ''allow_all_tools'') \<noteq> Some (PBool True)"
proof
  assume t: "map_of tools (AStr ''allow_all_tools'') = Some (PBool True)"
  have "safe_config (PDict tools)"
    using assms map_of_SomeD by (fastforce simp: safe_config_dict)
  then have "safe_entry (AStr ''allow_all_tools'') (PBool True)"
    using map_of_SomeD [OF t] by (fastforce simp: safe_config_dict)
  then show False by (simp add: safe_entry_def)
qed

section \<open>Secret references\<close>

text \<open>What a reference normalizes to is an environment variable's name, which no longer changes.\<close>

definition is_env_name :: "string \<Rightarrow> bool" where
  "is_env_name n \<longleftrightarrow> n \<noteq> [] \<and> \<not> is_digit (hd n)
     \<and> (\<forall>c \<in> set n. is_upper c \<or> is_digit c \<or> c = CHR ''_'')"

lemma env_var_name_fullmatch: "rx_fullmatch ENV_VAR_NAME_RE n \<longleftrightarrow> is_env_name n"
proof -
  have u: "is_upper c \<Longrightarrow> \<not> is_digit c" for c by (auto simp: is_upper_def is_digit_def Let_def)
  have d: "\<not> is_digit (CHR ''_'')" by (simp add: is_digit_def)
  show ?thesis
    unfolding ENV_VAR_NAME_RE_def rx_fullmatch_head_star is_env_name_def
    by (cases n) (auto simp: u d)
qed

lemma env_name_no_space: "is_env_name n \<Longrightarrow> c \<in> set n \<Longrightarrow> \<not> is_space c"
  by (auto simp: is_env_name_def is_space_def is_upper_def is_digit_def Let_def)

lemma strip_env_name: "is_env_name n \<Longrightarrow> strip n = n"
  using env_name_no_space [of n "hd n"] env_name_no_space [of n "last n"]
  by (cases "n = []") (auto intro!: strip_id)

lemma env_name_no_secret_prefix:
  assumes "is_env_name n" and "p \<in> set SECRET_LIKE_PREFIXES"
  shows "\<not> startswith p n"
proof
  assume s: "startswith p n"
  have p: "p \<noteq> [] \<and> is_lower (hd p)"
    using assms(2) by (auto simp: SECRET_LIKE_PREFIXES_def is_lower_def)
  have "hd p = hd n" using s p unfolding startswith_def by (metis hd_take length_greater_0_conv)
  then have "is_lower (hd n)" using p by simp
  moreover have "is_upper (hd n) \<or> is_digit (hd n) \<or> hd n = CHR ''_''"
    using assms(1) by (auto simp: is_env_name_def)
  ultimately show False by (auto simp: is_lower_def is_upper_def is_digit_def Let_def)
qed

end
