(* ===== verification/Safety_Properties.thy ===== *)
theory Safety_Properties
  imports Tools Config_Security
begin

text \<open>
  The properties of the safety layer: what redaction and the summaries built on it let through, the
  text of a persisted error, and what a tool policy guards.
\<close>

text \<open>
  C17. Redaction is a barrier: what is under a sensitive key, at any depth of a mapping or a
  sequence, has no influence on the redacted value. Redacting a value with every such entry blanked
  out gives the same result.
\<close>

theorem redaction_noninterference:
  "redact_value_at m d key (erase_secrets v) = redact_value_at m d key v
   \<and> redact_mapping m (erase_items kvs) = redact_mapping m kvs"
  by (simp only: redact_erase redact_mapping_erase simp_thms)

text \<open>
  C18. What leaves redaction holds one of the two markers under every sensitive key, at every depth,
  and has at most \<open>max_depth + 1\<close> levels: of a mapping at the depth \<open>max_depth\<close> the keys are kept.
\<close>

theorem redacted_value_covered_and_bounded:
  "covered (redact_value_at m 0 key v) \<and> val_depth (redact_value_at m 0 key v) \<le> Suc (nat m)"
  using covered_redact(1) redact_depth(1) [of m 0 key v] by simp

text \<open>
  C19. The output payload persisted for a run does not depend on anything under a sensitive key of
  the workflow's output.
\<close>

theorem persisted_output_noninterference:
  "safe_run_output_payload (erase_secrets v) = safe_run_output_payload v"
  by (rule safe_run_output_payload_erase)

text \<open>
  C20. The error message persisted for a run is the error's type, a colon and one non-empty line of
  at most 300 characters, whatever the exception's text.
\<close>

theorem persisted_error_is_one_bounded_line:
  "\<exists>body. safe_run_error_message error_type message = error_type @ '': '' @ body
     \<and> body \<noteq> [] \<and> length body \<le> 300 \<and> list_all (\<lambda>c. \<not> is_line_end c) body"
  using safe_run_error_message_body [of error_type message] by (simp add: list_all_iff)

text \<open>
  The redaction of \<open>key=value\<close> text cuts at the first colon of the whole match: where the value
  has a colon, the part of the secret before it stays in the text.
\<close>

theorem redaction_leaks_value_before_colon:
  assumes "CHR '':'' \<notin> set k" and "CHR '':'' \<notin> set a"
  shows "key_value_replacement (k @ ''='' @ a @ '':'' @ b) = k @ ''='' @ a @ ''='' @ REDACTED_VALUE"
  by (rule key_value_replacement_colon_in_value [OF assms])

theorem redaction_leaks_value_before_colon_witness:
  "key_value_replacement ''password=hunter:2'' = ''password=hunter='' @ REDACTED_VALUE"
  using redaction_leaks_value_before_colon [of "''password''" "''hunter''" "''2''"] by simp

text \<open>
  C23. Behind an allowlist policy, whatever sequence of calls is made, the state is as if only the
  calls to tools of the list had been made; every other call leaves it alone.
\<close>

theorem allowlist_only_listed_tools_act:
  "fst (run_calls (policy_run (allowlist_authorize A) px inner) calls s)
     = fst (run_calls inner (filter (\<lambda>(n, kwargs). n \<in> A) calls) s)"
  using policy.only_permitted_calls_act [of "allowlist_authorize A" px inner calls s]
  by (simp only: allowlist_allowed)

text \<open>
  A denied call answers with a failed result: exit code 126, no output, a non-empty error message
  of at most 300 characters and a summary of at most 500.
\<close>

theorem denied_call_is_a_failed_result:
  assumes "n \<notin> A"
  shows "\<exists>r. policy_run (allowlist_authorize A) px inner n kwargs s = (s, Inr r)
    \<and> tr_exit_code r = 126 \<and> tr_output r = PNone \<and> tr_error_message r \<noteq> []
    \<and> length (tr_error_message r) \<le> 300 \<and> length (tr_output_summary r) \<le> 500"
  using assms denied_result by (auto simp: policy_run_def Let_def allowlist_allowed)

theorem denied_call_is_a_failed_result_witness:
  "\<exists>r. policy_run (allowlist_authorize {''echo''})
        \<lparr>px_run_id = None, px_workflow_id = None, px_thread_id = []\<rparr> (memory_run [(''rm'', echo_tool)])
        ''rm'' [] (0 :: nat) = (0, Inr r)
    \<and> tr_exit_code r = 126 \<and> tr_output r = PNone \<and> tr_error_message r \<noteq> []
    \<and> length (tr_error_message r) \<le> 300 \<and> length (tr_output_summary r) \<le> 500"
  by (rule denied_call_is_a_failed_result) simp

text \<open>
  Observing a registry keeps the failure of a call: an exception of the tool, or a result that
  reports a failure, reaches the caller unchanged even if recording the failure raises.
\<close>

theorem observation_keeps_the_failure:
  assumes "ss_started k (case run_id of None \<Rightarrow> 0 | Some i \<Rightarrow> i) (''tool:'' @ n)
      [(''tool_name'', PStr n), (''input_summary'', pdict (tool_input_summary n kwargs))] s = (s1, Inr span)"
    and "inner n kwargs s1 = (s2, r)"
    and "case r of Inl _ \<Rightarrow> True | Inr x \<Rightarrow> tr_exit_code x \<noteq> 0 \<or> tr_error_message x \<noteq> []"
  shows "snd (observed_run run_id (Some k) inner n kwargs s) = r"
  using assms by (rule observed_failure)

definition broken_sink :: "unit span_sink" where
  "broken_sink =
     \<lparr>ss_started = (\<lambda>_ _ _ s. (s, Inr PNone)),
      ss_failed = (\<lambda>_ _ _ _ s. (s, Inl (PlainExn RuntimeError_cls ''sink''))),
      ss_completed = (\<lambda>_ _ _ _ s. (s, Inl (PlainExn RuntimeError_cls ''sink'')))\<rparr>"

definition failing_tool :: "unit tool" where
  "failing_tool kwargs s = (s, Inl (PlainExn ValueError_cls ''bad input''))"

theorem observation_keeps_the_failure_witness:
  "snd (observed_run None (Some broken_sink) (memory_run [(''t'', failing_tool)]) ''t'' [] ())
     = Inl (PlainExn ValueError_cls ''bad input'')"
  by (rule observation_keeps_the_failure [where ?s1.0 = "()" and ?s2.0 = "()" and span = PNone])
    (simp_all add: broken_sink_def memory_run_def registered_tool_def failing_tool_def)

text \<open>
  The completion of a span is not protected in that way: when recording it raises, the call of a
  tool that succeeded raises, although \<open>suppress_observability_failure\<close> is there to prevent it.
\<close>

theorem failed_completion_fails_the_call:
  assumes "ss_started k (case run_id of None \<Rightarrow> 0 | Some i \<Rightarrow> i) (''tool:'' @ n)
      [(''tool_name'', PStr n), (''input_summary'', pdict (tool_input_summary n kwargs))] s = (s1, Inr span)"
    and "inner n kwargs s1 = (s2, Inr r)" and "tr_exit_code r = 0" and "tr_error_message r = []"
    and "\<And>sp t m d s. snd (ss_completed k sp t m d s) = Inl e"
  shows "snd (observed_run run_id (Some k) inner n kwargs s) = Inl e"
  using assms by (rule observed_completion_fails)

definition plain_tool :: "unit tool" where
  "plain_tool kwargs s = (s, Inr (Tool_Value (PStr ''done'')))"

theorem failed_completion_fails_the_call_witness:
  "snd (observed_run None (Some broken_sink) (memory_run [(''t'', plain_tool)]) ''t'' [] ())
     = Inl (PlainExn RuntimeError_cls ''sink'')"
  by (rule failed_completion_fails_the_call [where ?s1.0 = "()" and ?s2.0 = "()" and span = PNone
        and r = "as_tool_result ''t'' (Tool_Value (PStr ''done''))"])
    (simp_all add: broken_sink_def memory_run_def registered_tool_def plain_tool_def)

end
