(* ===== verification/Workflow_Api.thy ===== *)
theory Workflow_Api
  imports Errors Complex_Main
begin

text \<open>
  The values of api/workflow.py that an execution passes around, and workflows/adapter.py: calling
  an opaque workflow object through the capability it has. The object is a parameter: each of its
  methods, where it has one, takes the state of the world and returns it with a value or an
  exception. A method that declares no \<open>context\<close> parameter ignores the one it is given.
\<close>

section \<open>Execution control\<close>

text \<open>
  A deadline on the monotonic clock, none, or the infinite one; \<open>ctl_event\<close> identifies the
  \<open>threading.Event\<close> whose \<open>is_set\<close> the control asks.
\<close>

datatype deadline = No_Deadline | Deadline_At rat | Deadline_Never

record execution_control =
  ctl_event :: nat
  ctl_deadline :: deadline

definition is_cancelled :: "nat set \<Rightarrow> execution_control \<Rightarrow> bool" where
  "is_cancelled flags control = (ctl_event control \<in> flags)"

fun remaining_seconds :: "rat \<Rightarrow> deadline \<Rightarrow> rat option" where
  "remaining_seconds now (Deadline_At t) = Some (max 0 (t - now))"
| "remaining_seconds now _ = None"

definition control_check :: "nat set \<Rightarrow> rat \<Rightarrow> execution_control \<Rightarrow> unit res" where
  "control_check flags now control =
     (if is_cancelled flags control
      then Inl (WorkflowCancelledError ''Workflow execution was cancelled.'')
      else (case ctl_deadline control of
          Deadline_At t \<Rightarrow> if t \<le> now then Inl (WorkflowTimeoutError ''Workflow execution timed out.'')
            else Inr ()
        | _ \<Rightarrow> Inr ()))"

record execution_context =
  cx_run_id :: "int option"
  cx_thread_id :: string
  cx_parent_span :: bool
  cx_control :: "execution_control option"

definition default_context :: execution_context where
  "default_context =
     \<lparr>cx_run_id = None, cx_thread_id = [], cx_parent_span = False, cx_control = None\<rparr>"

section \<open>Requests and results\<close>

record resume_request =
  rq_value :: pyitems
  rq_checkpoint_id :: "string option"

definition WorkflowResumeRequest :: "pyitems \<Rightarrow> string option \<Rightarrow> resume_request res" where
  "WorkflowResumeRequest value checkpoint_id =
     (case checkpoint_id of
        None \<Rightarrow> Inr \<lparr>rq_value = value, rq_checkpoint_id = None\<rparr>
      | Some c \<Rightarrow>
          (let normalized = strip c
           in if normalized = []
              then Inl (PlainExn ValueError_cls ''checkpoint_id must not be blank'')
              else Inr \<lparr>rq_value = value, rq_checkpoint_id = Some normalized\<rparr>))"

record workflow_result =
  wf_output :: pyitems
  wf_metadata :: pyitems
  wf_status :: string

definition WorkflowExecutionResult :: "pyitems \<Rightarrow> pyitems \<Rightarrow> string \<Rightarrow> workflow_result res" where
  "WorkflowExecutionResult out metadata status =
     (if status \<notin> {''completed'', ''paused''}
      then Inl (PlainExn ValueError_cls (''workflow execution status must be '' @ quoted ''completed'' @ '' or '' @ quoted ''paused''))
      else Inr \<lparr>wf_output = out, wf_metadata = metadata, wf_status = status\<rparr>)"

section \<open>Opaque workflow objects\<close>

datatype raw_result = Raw_Result workflow_result | Raw_Value pyval

record 's workflow_object =
  wo_execute :: "(pyitems \<Rightarrow> execution_context \<Rightarrow> 's \<Rightarrow> 's \<times> raw_result res) option"
  wo_invoke :: "(pyitems \<Rightarrow> 's \<Rightarrow> 's \<times> raw_result res) option"
  wo_call :: "(pyitems \<Rightarrow> 's \<Rightarrow> 's \<times> raw_result res) option"
  wo_resume :: "(resume_request \<Rightarrow> execution_context \<Rightarrow> 's \<Rightarrow> 's \<times> raw_result res) option"

definition adapter_error :: "string \<Rightarrow> string \<Rightarrow> pydict \<Rightarrow> exn" where
  "adapter_error message code metadata =
     RuntimeAssemblyError message code (Some ''workflow_adapter'') None metadata"

fun normalize_result :: "raw_result \<Rightarrow> workflow_result res" where
  "normalize_result (Raw_Result r) = Inr r"
| "normalize_result (Raw_Value v) =
     (case v of
        PDict kvs \<Rightarrow> WorkflowExecutionResult kvs [] ''completed''
      | _ \<Rightarrow> Inl (adapter_error ''Workflow execution failed: workflow returned an unsupported result.''
               ''WORKFLOW_EXECUTION_INVALID_RESULT'' []))"

text \<open>\<open>except FrameworkError: raise; except Exception: raise RuntimeAssemblyError\<close>.\<close>

definition wrap_failure :: "exn \<Rightarrow> exn \<Rightarrow> exn" where
  "wrap_failure replacement e = (if isinstance e FrameworkError_cls then e else replacement)"

definition adapt_result :: "exn \<Rightarrow> 's \<times> raw_result res \<Rightarrow> 's \<times> workflow_result res" where
  "adapt_result replacement x =
     (fst x, case snd x of Inl e \<Rightarrow> Inl (wrap_failure replacement e) | Inr raw \<Rightarrow> normalize_result raw)"

definition execute_workflow ::
  "'s workflow_object \<Rightarrow> pyitems \<Rightarrow> execution_context option \<Rightarrow> 's \<Rightarrow> 's \<times> workflow_result res" where
  "execute_workflow obj payload context s =
     adapt_result (adapter_error ''Workflow execution failed.'' ''WORKFLOW_EXECUTION_FAILED'' [])
       (case wo_execute obj of
          Some execute \<Rightarrow> execute payload (case context of None \<Rightarrow> default_context | Some c \<Rightarrow> c) s
        | None \<Rightarrow>
            (case wo_invoke obj of
               Some invoke \<Rightarrow> invoke payload s
             | None \<Rightarrow>
                 (case wo_call obj of
                    Some call \<Rightarrow> call payload s
                  | None \<Rightarrow> (s, Inl (PlainExn TypeError_cls
                      ''workflow object exposes no execute, invoke, or callable capability'')))))"

definition resume_workflow ::
  "'s workflow_object \<Rightarrow> resume_request \<Rightarrow> execution_context option \<Rightarrow> 's \<Rightarrow> 's \<times> workflow_result res"
where
  "resume_workflow obj request context s =
     (case wo_resume obj of
        None \<Rightarrow> (s, Inl (adapter_error ''Workflow resume is not supported.''
                 ''WORKFLOW_RESUME_UNSUPPORTED'' []))
      | Some resume \<Rightarrow>
          adapt_result (adapter_error ''Workflow resume failed.'' ''WORKFLOW_RESUME_FAILED'' [])
            (resume request (case context of None \<Rightarrow> default_context | Some c \<Rightarrow> c) s))"

text \<open>
  \<open>build_workflow_graph\<close>: the builder is a parameter that gets the build context or nothing, and
  \<open>None\<close> is the value it must not return.
\<close>

datatype ('c, 'g) builder = Builder_Plain "'g option res" | Builder_With_Context "'c \<Rightarrow> 'g option res"

definition build_workflow_graph :: "string \<Rightarrow> ('c, 'g) builder \<Rightarrow> 'c \<Rightarrow> 'g res" where
  "build_workflow_graph kind build context =
     (case (case build of Builder_Plain r \<Rightarrow> r | Builder_With_Context f \<Rightarrow> f context) of
        Inl e \<Rightarrow>
          Inl (if isinstance e RuntimeAssemblyError_cls then e
               else adapter_error (''Workflow build failed: workflow kind '' @ quoted kind @ '' could not be built.'')
                 ''WORKFLOW_BUILD_FAILED'' [(''workflow_kind'', PStr kind)])
      | Inr None \<Rightarrow>
          Inl (adapter_error (''Workflow build failed: workflow kind '' @ quoted kind @ '' returned no graph.'')
            ''WORKFLOW_BUILD_INVALID_RESULT'' [(''workflow_kind'', PStr kind)])
      | Inr (Some g) \<Rightarrow> Inr g)"

section \<open>What reaches the caller\<close>

lemma adapter_error_framework: "isinstance (adapter_error m c md) FrameworkError_cls \<longleftrightarrow> m \<noteq> [] \<and> c \<noteq> []"
  by (auto simp: adapter_error_def error_init_defs FrameworkError_init_def isinstance_def
      is_subclass.simps)

lemma wrap_failure_framework:
  "isinstance r FrameworkError_cls \<Longrightarrow> isinstance (wrap_failure r e) FrameworkError_cls"
  by (simp add: wrap_failure_def)

lemma normalize_result_framework:
  "normalize_result raw = Inl e \<Longrightarrow> isinstance e FrameworkError_cls"
  by (cases raw rule: normalize_result.cases)
    (auto simp: WorkflowExecutionResult_def adapter_error_framework split: pyval.splits if_splits)

lemma adapt_result_framework:
  "isinstance r FrameworkError_cls \<Longrightarrow> snd (adapt_result r x) = Inl e \<Longrightarrow> isinstance e FrameworkError_cls"
  using wrap_failure_framework normalize_result_framework
  by (auto simp: adapt_result_def split: sum.splits)

lemma execute_workflow_framework:
  "snd (execute_workflow obj payload ctx s) = Inl e \<Longrightarrow> isinstance e FrameworkError_cls"
  unfolding execute_workflow_def
  by (rule adapt_result_framework [rotated], assumption) (simp add: adapter_error_framework)

lemma resume_workflow_framework:
  "snd (resume_workflow obj rq ctx s) = Inl e \<Longrightarrow> isinstance e FrameworkError_cls"
  unfolding resume_workflow_def
  by (cases "wo_resume obj")
    (auto simp: adapter_error_framework intro: adapt_result_framework [rotated])

end
