(* ===== verification/Config_Normalize.thy ===== *)
theory Config_Normalize
  imports Config_Security Complex_Main "HOL-Library.Char_ord" "HOL-Library.List_Lexorder"
begin

text \<open>
  The package configuration: its models (config/models.py), the loader (config/loader.py), the
  store settings (config/artifact_store.py, config/checkpoint_store.py) and the normalizer
  (config/normalizer.py). \<open>dict(...)\<close> and \<open>_copy_value\<close> copy immutable values here and are
  identities. The message of a \<open>TypeError\<close> from sorting keys of unlike types is left empty.
\<close>

section \<open>Models\<close>

record secret_ref =
  sec_source :: string
  sec_name :: string

definition SecretRef :: "string \<Rightarrow> string \<Rightarrow> secret_ref res" where
  "SecretRef source name =
     (if source \<noteq> ''env'' then Inl (PlainExn ValueError_cls
        (''secret references must use source='' @ quoted ''env''))
      else if name = [] then Inl (PlainExn ValueError_cls ''secret reference name must not be empty'')
      else Inr \<lparr>sec_source = source, sec_name = name\<rparr>)"

record raw_config =
  raw_version :: int
  raw_environment :: "string option"
  raw_plugins :: pyitems
  raw_providers :: pyitems
  raw_tools :: pyitems
  raw_stores :: pyitems
  raw_event_sinks :: pyitems
  raw_limits :: pyitems
  raw_observability :: pyitems
  raw_safety :: pyitems
  raw_metadata :: pyitems

record tools_config =
  tools_allowlist :: "string list"
  tools_configs :: pyitems

record safety_config =
  redaction_enabled :: bool
  safe_errors :: bool

record provider_profile =
  pp_provider :: string
  pp_model :: "string option"
  pp_parameters :: pyitems
  pp_secrets :: "(string \<times> secret_ref) list"
  pp_metadata :: pyitems

record backend_config =
  bc_backend :: string
  bc_config :: pyitems
  bc_metadata :: pyitems

datatype artifact_store_settings =
    Memory_Artifacts
  | Filesystem_Artifacts string
  | S3_Artifacts string string pyval pyval

datatype checkpoint_store_settings =
    Memory_Checkpoints
  | Filesystem_Checkpoints string
  | Postgres_Checkpoints string string

record normalized_config =
  nc_version :: int
  nc_environment :: string
  nc_plugins :: "string list"
  nc_providers :: "(string \<times> provider_profile) list"
  nc_tools :: tools_config
  nc_stores :: "(string \<times> backend_config) list"
  nc_event_sinks :: "(string \<times> backend_config) list"
  nc_limits :: pyitems
  nc_observability :: pyitems
  nc_safety :: safety_config
  nc_metadata :: pyitems
  nc_checkpoint_store :: checkpoint_store_settings

section \<open>Loading\<close>

definition SUPPORTED_VERSION :: int where "SUPPORTED_VERSION = 1"

definition invalid_config :: "string \<Rightarrow> string \<Rightarrow> (string \<times> pyval) list \<Rightarrow> exn" where
  "invalid_config what code metadata =
     config_error (''Configuration is invalid: '' @ what) code metadata"

definition invalid_type :: "string \<Rightarrow> (string \<times> pyval) list \<Rightarrow> exn" where
  "invalid_type what metadata = invalid_config what ''CONFIG_INVALID_FIELD_TYPE'' metadata"

text \<open>The first of the sorted keys: numbers, strings and byte strings compare among themselves.\<close>

fun key_number :: "atom \<Rightarrow> rat option" where
  "key_number (ABool b) = Some (if b then 1 else 0)"
| "key_number (AInt i) = Some (of_int i)"
| "key_number (AFloat (Finite_Float n d _)) = Some (Fract n d)"
| "key_number _ = None"

definition first_sorted :: "atom list \<Rightarrow> atom res" where
  "first_sorted ks =
     (case ks of
        [k] \<Rightarrow> Inr k
      | _ \<Rightarrow>
        if list_all (\<lambda>k. case k of AStr _ \<Rightarrow> True | _ \<Rightarrow> False) ks
        then Inr (hd (sort_key (\<lambda>k. case k of AStr s \<Rightarrow> s | _ \<Rightarrow> []) ks))
        else if list_all (\<lambda>k. case k of ABytes _ \<Rightarrow> True | _ \<Rightarrow> False) ks
        then Inr (hd (sort_key (\<lambda>k. case k of ABytes s \<Rightarrow> s | _ \<Rightarrow> []) ks))
        else if list_all (\<lambda>k. key_number k \<noteq> None) ks
        then Inr (hd (sort_key (\<lambda>k. case key_number k of Some q \<Rightarrow> q | None \<Rightarrow> 0) ks))
        else Inl (PlainExn TypeError_cls []))"

definition unknown_fields :: "string list \<Rightarrow> pyitems \<Rightarrow> atom list" where
  "unknown_fields known d = filter (\<lambda>k. k \<notin> AStr ` set known) (map fst d)"

definition KNOWN_TOP_LEVEL_FIELDS :: "string list" where
  "KNOWN_TOP_LEVEL_FIELDS =
     [''event_sinks'', ''environment'', ''limits'', ''metadata'', ''observability'', ''plugins'',
      ''providers'', ''safety'', ''stores'', ''tools'', ''version'']"

definition mapping_or_empty :: "pyval option \<Rightarrow> string \<Rightarrow> pyitems res" where
  "mapping_or_empty v field_name =
     (case v of
        None \<Rightarrow> Inr []
      | Some (Atom ANone) \<Rightarrow> Inr []
      | Some (PDict d) \<Rightarrow> Inr d
      | Some _ \<Rightarrow> Inl (invalid_type (field_name @ '' must be a mapping.'')
          [(''field_name'', PStr field_name)]))"

definition string_or_none :: "pyval option \<Rightarrow> string option res" where
  "string_or_none v =
     (case v of
        None \<Rightarrow> Inr None
      | Some (Atom ANone) \<Rightarrow> Inr None
      | Some (Atom (AStr s)) \<Rightarrow>
          if strip s = []
          then Inl (invalid_type ''environment must not be empty.'' [(''field_name'', PStr ''environment'')])
          else Inr (Some (strip s))
      | Some _ \<Rightarrow> Inl (invalid_type ''environment must be a string.'' [(''field_name'', PStr ''environment'')]))"

definition load_package_config_from_mapping :: "pyval \<Rightarrow> raw_config res" where
  "load_package_config_from_mapping v =
     (case v of
        PDict data \<Rightarrow>
          r_bind (case map_of data (AStr ''version'') of
              None \<Rightarrow> Inl (invalid_config ''version is required.'' ''CONFIG_MISSING_VERSION'' [])
            | Some (Atom ANone) \<Rightarrow> Inl (invalid_config ''version is required.'' ''CONFIG_MISSING_VERSION'' [])
            | Some (Atom (AInt n)) \<Rightarrow>
                if n \<noteq> SUPPORTED_VERSION
                then Inl (invalid_config (''version '' @ int_text n @ '' is not supported.'')
                  ''CONFIG_UNSUPPORTED_VERSION'' [(''supported_version'', PInt SUPPORTED_VERSION)])
                else Inr n
            | Some _ \<Rightarrow> Inl (invalid_config ''version must be an integer.'' ''CONFIG_INVALID_VERSION_TYPE'' []))
            (\<lambda>version.
          r_bind (case unknown_fields KNOWN_TOP_LEVEL_FIELDS data of
              [] \<Rightarrow> Inr ()
            | ks \<Rightarrow> r_bind (first_sorted ks) (\<lambda>k.
                Inl (invalid_config (''unknown top-level field '' @ quoted (atom_text k) @ ''.'')
                  ''CONFIG_UNKNOWN_TOP_LEVEL_FIELD'' [(''field_name'', Atom k)]))) (\<lambda>_.
          r_bind (precheck_package_config_mapping data) (\<lambda>_.
          r_bind (string_or_none (map_of data (AStr ''environment''))) (\<lambda>environment.
          r_bind (mapping_or_empty (map_of data (AStr ''plugins'')) ''plugins'') (\<lambda>plugins.
          r_bind (mapping_or_empty (map_of data (AStr ''providers'')) ''providers'') (\<lambda>providers.
          r_bind (mapping_or_empty (map_of data (AStr ''tools'')) ''tools'') (\<lambda>tools.
          r_bind (mapping_or_empty (map_of data (AStr ''stores'')) ''stores'') (\<lambda>stores.
          r_bind (mapping_or_empty (map_of data (AStr ''event_sinks'')) ''event_sinks'') (\<lambda>event_sinks.
          r_bind (mapping_or_empty (map_of data (AStr ''limits'')) ''limits'') (\<lambda>limits.
          r_bind (mapping_or_empty (map_of data (AStr ''observability'')) ''observability'') (\<lambda>observability.
          r_bind (mapping_or_empty (map_of data (AStr ''safety'')) ''safety'') (\<lambda>safety.
          r_bind (mapping_or_empty (map_of data (AStr ''metadata'')) ''metadata'') (\<lambda>metadata.
            Inr \<lparr>raw_version = version, raw_environment = environment, raw_plugins = plugins,
              raw_providers = providers, raw_tools = tools, raw_stores = stores,
              raw_event_sinks = event_sinks, raw_limits = limits, raw_observability = observability,
              raw_safety = safety, raw_metadata = metadata\<rparr>)))))))))))))
      | _ \<Rightarrow> Inl (invalid_config ''package config must be a mapping.'' ''CONFIG_INVALID_MAPPING'' []))"

section \<open>Store settings\<close>

text \<open>
  \<open>_normalize_root_value\<close> of either store; the text of a path object is what \<open>os.fspath\<close> gives. A
  path is kept as the text it was made from; on POSIX it is absolute when that begins with a slash.
\<close>

definition normalize_root_value :: "string \<Rightarrow> string \<Rightarrow> pyval option \<Rightarrow> string res" where
  "normalize_root_value store code v =
     (let err = invalid_config (''filesystem '' @ store @ '' store root must be an absolute path.'') code []
      in case (case v of
             Some (Atom (AStr s)) \<Rightarrow> Some s
           | Some (Atom (AObj t s)) \<Rightarrow> if t = ''PosixPath'' then Some s else None
           | _ \<Rightarrow> None) of
           None \<Rightarrow> Inl err
         | Some raw \<Rightarrow>
             if strip raw = [] then Inl err
             else (let candidate = strip raw
                   in if startswith ''~'' candidate \<or> contains ''://'' candidate
                         \<or> char_of (0 :: nat) \<in> set candidate
                      then Inl err
                      else if \<not> startswith ''/'' candidate then Inl err
                      else Inr candidate))"

definition exactly_root :: "pyitems \<Rightarrow> bool" where
  "exactly_root d = (fst ` set d = {AStr ''root''})"

definition known_options :: "string list \<Rightarrow> pyitems \<Rightarrow> bool" where
  "known_options allowed d = (unknown_fields allowed d = [])"

fun stripped_option :: "pyval option \<Rightarrow> string option" where
  "stripped_option (Some (Atom (AStr s))) = (if strip s = [] then None else Some (strip s))"
| "stripped_option _ = None"

definition option_or :: "pyitems \<Rightarrow> string \<Rightarrow> pyval \<Rightarrow> pyval" where
  "option_or d k dflt = (case map_of d (AStr k) of None \<Rightarrow> dflt | Some v \<Rightarrow> v)"

definition normalize_artifact_store_settings :: "backend_config option \<Rightarrow> artifact_store_settings res" where
  "normalize_artifact_store_settings store_config =
     (case store_config of
        None \<Rightarrow> Inr Memory_Artifacts
      | Some c \<Rightarrow>
          (let err = (\<lambda>what code. Inl (invalid_config what code [(''backend'', PStr (bc_backend c))]))
           in if bc_backend c = ''memory'' then
                (if bc_config c \<noteq> [] \<or> bc_metadata c \<noteq> []
                 then err (''artifact store backend '' @ quoted ''memory'' @ '' does not accept extra options.'')
                   ''CONFIG_ARTIFACT_STORE_MEMORY_OPTIONS''
                 else Inr Memory_Artifacts)
              else if bc_backend c = ''filesystem'' then
                (if bc_metadata c \<noteq> []
                 then err (''artifact store backend '' @ quoted ''filesystem'' @ '' does not accept metadata.'')
                   ''CONFIG_ARTIFACT_STORE_INVALID_METADATA''
                 else if \<not> exactly_root (bc_config c)
                 then err ''filesystem artifact store requires exactly one root option.''
                   ''CONFIG_ARTIFACT_STORE_INVALID_OPTIONS''
                 else r_bind (normalize_root_value ''artifact'' ''CONFIG_ARTIFACT_STORE_INVALID_ROOT''
                     (map_of (bc_config c) (AStr ''root''))) (\<lambda>root. Inr (Filesystem_Artifacts root)))
              else if bc_backend c = ''s3'' then
                (case stripped_option (map_of (bc_config c) (AStr ''bucket'')) of
                   Some bucket \<Rightarrow>
                     if known_options [''bucket'', ''prefix'', ''endpoint_url'', ''region_name''] (bc_config c)
                     then Inr (S3_Artifacts bucket (val_text (option_or (bc_config c) ''prefix'' (PStr [])))
                       (option_or (bc_config c) ''endpoint_url'' PNone)
                       (option_or (bc_config c) ''region_name'' PNone))
                     else err ''S3 artifact store requires a bucket and known options.''
                       ''CONFIG_ARTIFACT_STORE_INVALID_OPTIONS''
                 | None \<Rightarrow> err ''S3 artifact store requires a bucket and known options.''
                     ''CONFIG_ARTIFACT_STORE_INVALID_OPTIONS'')
              else err ''artifact store backend is not supported.''
                ''CONFIG_UNSUPPORTED_ARTIFACT_STORE_BACKEND''))"

definition normalize_checkpoint_store_settings :: "backend_config option \<Rightarrow> checkpoint_store_settings res" where
  "normalize_checkpoint_store_settings store_config =
     (case store_config of
        None \<Rightarrow> Inr Memory_Checkpoints
      | Some c \<Rightarrow>
          (let err = (\<lambda>what code. Inl (invalid_config what code [(''backend'', PStr (bc_backend c))]))
           in if bc_backend c = ''memory'' then
                (if bc_config c \<noteq> [] \<or> bc_metadata c \<noteq> []
                 then err (''checkpoint store backend '' @ quoted ''memory'' @ '' does not accept extra options.'')
                   ''CONFIG_CHECKPOINT_STORE_MEMORY_OPTIONS''
                 else Inr Memory_Checkpoints)
              else if bc_backend c = ''filesystem'' then
                (if bc_metadata c \<noteq> []
                 then err (''checkpoint store backend '' @ quoted ''filesystem'' @ '' does not accept metadata.'')
                   ''CONFIG_CHECKPOINT_STORE_INVALID_METADATA''
                 else if \<not> exactly_root (bc_config c)
                 then err ''filesystem checkpoint store requires exactly one root option.''
                   ''CONFIG_CHECKPOINT_STORE_INVALID_OPTIONS''
                 else r_bind (normalize_root_value ''checkpoint'' ''CONFIG_CHECKPOINT_STORE_INVALID_ROOT''
                     (map_of (bc_config c) (AStr ''root''))) (\<lambda>root. Inr (Filesystem_Checkpoints root)))
              else if bc_backend c = ''postgres'' then
                (case stripped_option (map_of (bc_config c) (AStr ''dsn'')) of
                   Some dsn \<Rightarrow>
                     if known_options [''dsn'', ''table_name''] (bc_config c)
                     then Inr (Postgres_Checkpoints dsn (val_text (option_or (bc_config c) ''table_name''
                       (PStr ''langgraph_automation_checkpoints''))))
                     else err ''PostgreSQL checkpoint store requires a DSN and known options.''
                       ''CONFIG_CHECKPOINT_STORE_INVALID_OPTIONS''
                 | None \<Rightarrow> err ''PostgreSQL checkpoint store requires a DSN and known options.''
                     ''CONFIG_CHECKPOINT_STORE_INVALID_OPTIONS'')
              else err ''checkpoint store backend is not supported.''
                ''CONFIG_UNSUPPORTED_CHECKPOINT_STORE_BACKEND''))"

section \<open>Normalization\<close>

definition normalize_environment :: "string option \<Rightarrow> string res" where
  "normalize_environment environment =
     (case environment of
        None \<Rightarrow> Inr ''default''
      | Some s \<Rightarrow>
          if strip s = []
          then Inl (invalid_type ''environment must not be empty.'' [(''field_name'', PStr ''environment'')])
          else Inr (strip s))"

fun unique_strings :: "string \<Rightarrow> string \<Rightarrow> string list \<Rightarrow> pyval list \<Rightarrow> string list res" where
  "unique_strings field_name duplicate_code seen [] = Inr []"
| "unique_strings field_name duplicate_code seen (item # items) =
     (case item of
        Atom (AStr s) \<Rightarrow>
          (let name = strip s
           in if name = []
              then Inl (invalid_type (field_name @ '' entries must not be empty.'')
                [(''field_name'', PStr field_name)])
              else if name \<in> set seen
              then Inl (invalid_config (''duplicate entry '' @ quoted name @ '' in '' @ field_name @ ''.'')
                duplicate_code [(''field_name'', PStr field_name), (''entry'', PStr name)])
              else r_bind (unique_strings field_name duplicate_code (name # seen) items) (\<lambda>rest.
                Inr (name # rest)))
      | _ \<Rightarrow> Inl (invalid_type (field_name @ '' entries must be strings.'')
          [(''field_name'', PStr field_name)]))"

definition normalize_unique_string_sequence :: "pyval option \<Rightarrow> string \<Rightarrow> string \<Rightarrow> string list res" where
  "normalize_unique_string_sequence v field_name duplicate_code =
     (case v of
        None \<Rightarrow> Inr []
      | Some (Atom ANone) \<Rightarrow> Inr []
      | Some (PList xs) \<Rightarrow> unique_strings field_name duplicate_code [] xs
      | Some (PTuple xs) \<Rightarrow> unique_strings field_name duplicate_code [] xs
      | Some _ \<Rightarrow> Inl (invalid_type (field_name @ '' must be a sequence of strings.'')
          [(''field_name'', PStr field_name)]))"

definition reject_unknown :: "string \<Rightarrow> string list \<Rightarrow> pyitems \<Rightarrow> unit res" where
  "reject_unknown section_name allowed d =
     (case unknown_fields allowed d of
        [] \<Rightarrow> Inr ()
      | ks \<Rightarrow> r_bind (first_sorted ks) (\<lambda>k.
          Inl (invalid_config (''unknown '' @ section_name @ '' field '' @ quoted (atom_text k) @ ''.'')
            ''CONFIG_UNKNOWN_TOP_LEVEL_FIELD''
            [(''field_name'', PStr (section_name @ ''.'' @ atom_text k))])))"

definition normalize_plugins :: "pyitems \<Rightarrow> string list res" where
  "normalize_plugins plugins =
     r_bind (reject_unknown ''plugins'' [''enabled''] plugins) (\<lambda>_.
       normalize_unique_string_sequence (map_of plugins (AStr ''enabled'')) ''plugins.enabled''
         ''CONFIG_DUPLICATE_ENABLED_PLUGIN'')"

text \<open>A mapping that may be absent or null; \<open>err\<close> is raised for anything else.\<close>

definition optional_mapping :: "pyitems \<Rightarrow> string \<Rightarrow> exn \<Rightarrow> pyitems res" where
  "optional_mapping d k err =
     (case map_of d (AStr k) of
        None \<Rightarrow> Inr []
      | Some (Atom ANone) \<Rightarrow> Inr []
      | Some (PDict m) \<Rightarrow> Inr m
      | Some _ \<Rightarrow> Inl err)"

definition normalize_tools :: "pyitems \<Rightarrow> tools_config res" where
  "normalize_tools tools =
     r_bind (reject_unknown ''tools'' [''allowlist'', ''configs''] tools) (\<lambda>_.
     r_bind (normalize_unique_string_sequence (map_of tools (AStr ''allowlist'')) ''tools.allowlist''
       ''CONFIG_DUPLICATE_TOOL_ALLOWLIST'') (\<lambda>allowlist.
     r_bind (optional_mapping tools ''configs''
       (invalid_type ''tools.configs must be a mapping.'' [(''field_name'', PStr ''tools.configs'')])) (\<lambda>configs.
       Inr \<lparr>tools_allowlist = allowlist, tools_configs = configs\<rparr>)))"

definition profile_error :: "string \<Rightarrow> string \<Rightarrow> exn" where
  "profile_error profile_name what =
     invalid_type (''provider profile '' @ quoted profile_name @ what)
       [(''profile_name'', PStr profile_name)]"

definition endswith :: "string \<Rightarrow> string \<Rightarrow> bool" where
  "endswith p s = (length p \<le> length s \<and> drop (length s - length p) s = p)"

definition atom_type :: "atom \<Rightarrow> string" where
  "atom_type a = (case a of ANone \<Rightarrow> ''NoneType'' | ABool _ \<Rightarrow> ''bool'' | AInt _ \<Rightarrow> ''int''
     | AFloat _ \<Rightarrow> ''float'' | AStr _ \<Rightarrow> ''str'' | ABytes _ \<Rightarrow> ''bytes'' | AObj t _ \<Rightarrow> t)"

text \<open>\<open>key.endswith("_env")\<close>, which a key that is no string does not have.\<close>

definition env_key :: "atom \<Rightarrow> bool res" where
  "env_key k =
     (case k of
        AStr s \<Rightarrow> Inr (endswith ''_env'' s)
      | ABytes _ \<Rightarrow> Inl (PlainExn TypeError_cls ''endswith first arg must be bytes or a tuple of bytes, not str'')
      | _ \<Rightarrow> Inl (PlainExn AttributeError_cls
          (quoted (atom_type k) @ '' object has no attribute '' @ quoted ''endswith'')))"

definition env_secret :: "string \<Rightarrow> secret_ref res" where
  "env_secret name = SecretRef ''env'' name"

definition normalize_secret_ref :: "string \<Rightarrow> pyval \<Rightarrow> secret_ref res" where
  "normalize_secret_ref secret_name v =
     (case v of
        Atom (AStr s) \<Rightarrow>
          r_bind (normalize_secret_reference v (''secrets.'' @ secret_name)) env_secret
      | PDict d \<Rightarrow>
          (case (map_of d (AStr ''source''), map_of d (AStr ''name'')) of
             (Some (Atom (AStr source)), Some (Atom (AStr name))) \<Rightarrow>
               if source \<noteq> ''env''
               then Inl (invalid_config (''secret references must use source='' @ quoted ''env'' @ ''.'')
                 ''CONFIG_SECRET_LITERAL'' [(''secret_name'', PStr secret_name)])
               else r_bind (normalize_secret_reference (PStr name) (''secrets.'' @ secret_name @ ''.name''))
                 env_secret
           | _ \<Rightarrow> Inl (invalid_config (''secret references must use source='' @ quoted ''env'' @ ''.'')
               ''CONFIG_SECRET_LITERAL'' [(''secret_name'', PStr secret_name)]))
      | _ \<Rightarrow> Inl (invalid_config ''secret references must be strings or env mappings.''
          ''CONFIG_SECRET_LITERAL'' [(''secret_name'', PStr secret_name)]))"

definition duplicate_secret :: "string \<Rightarrow> string \<Rightarrow> exn" where
  "duplicate_secret profile_name secret_name =
     invalid_config (''duplicate secret reference '' @ quoted secret_name @ ''.'')
       ''CONFIG_DUPLICATE_SECRET_REFERENCE''
       [(''profile_name'', PStr profile_name), (''secret_name'', PStr secret_name)]"

fun explicit_secrets ::
  "string \<Rightarrow> (string \<times> secret_ref) list \<Rightarrow> pyitems \<Rightarrow> (string \<times> secret_ref) list res" where
  "explicit_secrets profile_name secrets [] = Inr secrets"
| "explicit_secrets profile_name secrets ((k, v) # kvs) =
     (case k of
        AStr secret_name \<Rightarrow>
          if secret_name = [] then Inl (profile_error profile_name '' secret names must be strings.'')
          else if map_of secrets secret_name \<noteq> None then Inl (duplicate_secret profile_name secret_name)
          else r_bind (normalize_secret_ref secret_name v) (\<lambda>ref.
            explicit_secrets profile_name (dict_set secret_name ref secrets) kvs)
      | _ \<Rightarrow> Inl (profile_error profile_name '' secret names must be strings.''))"

fun env_secrets ::
  "string \<Rightarrow> (string \<times> secret_ref) list \<Rightarrow> pyitems \<Rightarrow> (string \<times> secret_ref) list res" where
  "env_secrets profile_name secrets [] = Inr secrets"
| "env_secrets profile_name secrets ((k, v) # kvs) =
     r_bind (env_key k) (\<lambda>is_env.
       if \<not> is_env then env_secrets profile_name secrets kvs
       else (let key = atom_text k; secret_name = take (length key - 4) key
             in if map_of secrets secret_name \<noteq> None then Inl (duplicate_secret profile_name secret_name)
                else r_bind (normalize_secret_reference v (''providers.'' @ profile_name @ ''.'' @ key)) (\<lambda>env_name.
                  r_bind (env_secret env_name) (\<lambda>ref.
                    env_secrets profile_name (dict_set secret_name ref secrets) kvs))))"

definition normalize_provider_secrets ::
  "string \<Rightarrow> pyitems \<Rightarrow> (string \<times> secret_ref) list res" where
  "normalize_provider_secrets profile_name profile =
     r_bind (optional_mapping profile ''secrets''
       (profile_error profile_name '' secrets must be a mapping.'')) (\<lambda>explicit.
     r_bind (explicit_secrets profile_name [] explicit) (\<lambda>secrets.
       env_secrets profile_name secrets profile))"

text \<open>\<open>setdefault\<close> of the profile's other fields over its explicit parameters.\<close>

fun merge_parameters :: "pyitems \<Rightarrow> pyitems \<Rightarrow> pyitems res" where
  "merge_parameters acc [] = Inr acc"
| "merge_parameters acc ((k, v) # kvs) =
     (if k \<in> AStr ` set [''provider'', ''model'', ''parameters'', ''secrets'', ''metadata'']
      then merge_parameters acc kvs
      else r_bind (env_key k) (\<lambda>is_env.
        merge_parameters (if is_env \<or> map_of acc k \<noteq> None then acc else dict_set k v acc) kvs))"

definition normalize_provider_parameters :: "pyitems \<Rightarrow> pyitems res" where
  "normalize_provider_parameters profile =
     r_bind (optional_mapping profile ''parameters''
       (invalid_type ''provider parameters must be a mapping.''
         [(''field_name'', PStr ''providers.parameters'')])) (\<lambda>parameters.
       merge_parameters parameters profile)"

definition normalize_provider_profile :: "string \<Rightarrow> pyitems \<Rightarrow> provider_profile res" where
  "normalize_provider_profile profile_name profile =
     r_bind (case stripped_option (map_of profile (AStr ''provider'')) of
         None \<Rightarrow> Inl (profile_error profile_name '' must name a provider.'')
       | Some p \<Rightarrow> Inr p) (\<lambda>provider.
     r_bind (case map_of profile (AStr ''model'') of
         None \<Rightarrow> Inr None
       | Some (Atom ANone) \<Rightarrow> Inr None
       | Some (Atom (AStr s)) \<Rightarrow> Inr (if strip s = [] then None else Some (strip s))
       | Some _ \<Rightarrow> Inl (profile_error profile_name '' model must be a string.'')) (\<lambda>model.
     r_bind (optional_mapping profile ''metadata''
       (profile_error profile_name '' metadata must be a mapping.'')) (\<lambda>metadata.
     r_bind (normalize_provider_secrets profile_name profile) (\<lambda>secrets.
     r_bind (normalize_provider_parameters profile) (\<lambda>parameters.
       Inr \<lparr>pp_provider = provider, pp_model = model, pp_parameters = parameters,
         pp_secrets = secrets, pp_metadata = metadata\<rparr>)))))"

fun normalize_providers :: "pyitems \<Rightarrow> (string \<times> provider_profile) list res" where
  "normalize_providers [] = Inr []"
| "normalize_providers ((k, v) # kvs) =
     (case k of
        AStr profile_name \<Rightarrow>
          if profile_name = []
          then Inl (invalid_type ''provider profile names must be non-empty strings.''
            [(''field_name'', PStr ''providers'')])
          else (case v of
              PDict profile \<Rightarrow>
                r_bind (normalize_provider_profile profile_name profile) (\<lambda>p.
                r_bind (normalize_providers kvs) (\<lambda>rest. Inr ((profile_name, p) # rest)))
            | _ \<Rightarrow> Inl (profile_error profile_name '' must be a mapping.''))
      | _ \<Rightarrow> Inl (invalid_type ''provider profile names must be non-empty strings.''
          [(''field_name'', PStr ''providers'')]))"

text \<open>
  Stores and event sinks are normalized alike; the words of the messages and the metadata key of
  an entry's name are arguments.
\<close>

fun merge_backend_config :: "pyitems \<Rightarrow> pyitems \<Rightarrow> pyitems" where
  "merge_backend_config acc [] = acc"
| "merge_backend_config acc ((k, v) # kvs) =
     merge_backend_config
       (if k \<in> AStr ` set [''backend'', ''config'', ''metadata''] \<or> map_of acc k \<noteq> None then acc
        else dict_set k v acc) kvs"

definition normalize_backend :: "string \<Rightarrow> string \<Rightarrow> string \<Rightarrow> pyitems \<Rightarrow> backend_config res" where
  "normalize_backend word name_key name entry =
     (let err = (\<lambda>what. invalid_type (word @ '' '' @ quoted name @ what) [(name_key, PStr name)])
      in r_bind (case stripped_option (map_of entry (AStr ''backend'')) of
             None \<Rightarrow> Inl (err '' must name a backend.'') | Some b \<Rightarrow> Inr b) (\<lambda>backend.
         r_bind (optional_mapping entry ''config'' (err '' config must be a mapping.'')) (\<lambda>config.
         r_bind (optional_mapping entry ''metadata'' (err '' metadata must be a mapping.'')) (\<lambda>metadata.
           Inr \<lparr>bc_backend = backend, bc_config = merge_backend_config config entry,
             bc_metadata = metadata\<rparr>))))"

fun normalize_backends ::
  "string \<Rightarrow> string \<Rightarrow> exn \<Rightarrow> pyitems \<Rightarrow> (string \<times> backend_config) list res" where
  "normalize_backends word name_key name_error [] = Inr []"
| "normalize_backends word name_key name_error ((k, v) # kvs) =
     (case k of
        AStr name \<Rightarrow>
          if name = [] then Inl name_error
          else (case v of
              PDict entry \<Rightarrow>
                r_bind (normalize_backend word name_key name entry) (\<lambda>b.
                r_bind (normalize_backends word name_key name_error kvs) (\<lambda>rest. Inr ((name, b) # rest)))
            | _ \<Rightarrow> Inl (invalid_type (word @ '' '' @ quoted name @ '' must be a mapping.'')
                [(name_key, PStr name)]))
      | _ \<Rightarrow> Inl name_error)"

definition normalize_store_backends :: "pyitems \<Rightarrow> (string \<times> backend_config) list res" where
  "normalize_store_backends stores =
     normalize_backends ''store'' ''store_type''
       (invalid_type ''store types must be non-empty strings.'' [(''field_name'', PStr ''stores'')]) stores"

definition normalize_event_sinks :: "pyitems \<Rightarrow> (string \<times> backend_config) list res" where
  "normalize_event_sinks event_sinks =
     normalize_backends ''event sink'' ''sink_name''
       (invalid_type ''event sink names must be non-empty strings.''
         [(''field_name'', PStr ''event_sinks'')]) event_sinks"

definition normalize_safety :: "pyitems \<Rightarrow> safety_config res" where
  "normalize_safety safety =
     (let off = (\<lambda>k. map_of safety (AStr k) = Some (PBool False));
          err = (\<lambda>kind. Inl (invalid_config (kind @ '' cannot be disabled.'') ''CONFIG_SAFETY_DISABLED'' []))
      in if off ''enabled'' then err ''safety''
         else if off ''redaction_enabled'' then err ''redaction''
         else if off ''safe_errors'' then err ''safe errors''
         else Inr \<lparr>redaction_enabled = True, safe_errors = True\<rparr>)"

definition raw_config_as_mapping :: "raw_config \<Rightarrow> pyitems" where
  "raw_config_as_mapping raw =
     [(AStr ''version'', PInt (raw_version raw)),
      (AStr ''environment'', case raw_environment raw of None \<Rightarrow> PNone | Some s \<Rightarrow> PStr s),
      (AStr ''plugins'', PDict (raw_plugins raw)), (AStr ''providers'', PDict (raw_providers raw)),
      (AStr ''tools'', PDict (raw_tools raw)), (AStr ''stores'', PDict (raw_stores raw)),
      (AStr ''event_sinks'', PDict (raw_event_sinks raw)), (AStr ''limits'', PDict (raw_limits raw)),
      (AStr ''observability'', PDict (raw_observability raw)), (AStr ''safety'', PDict (raw_safety raw)),
      (AStr ''metadata'', PDict (raw_metadata raw))]"

definition normalize_package_config :: "raw_config \<Rightarrow> normalized_config res" where
  "normalize_package_config raw =
     r_bind (r_guard (raw_version raw \<noteq> SUPPORTED_VERSION)
       (invalid_config (''version '' @ int_text (raw_version raw) @ '' is not supported.'')
         ''CONFIG_UNSUPPORTED_VERSION'' [(''supported_version'', PInt SUPPORTED_VERSION)])) (\<lambda>_.
     r_bind (precheck_package_config_mapping (raw_config_as_mapping raw)) (\<lambda>_.
     r_bind (normalize_plugins (raw_plugins raw)) (\<lambda>plugins.
     r_bind (normalize_tools (raw_tools raw)) (\<lambda>tools.
     r_bind (normalize_providers (raw_providers raw)) (\<lambda>providers.
     r_bind (normalize_store_backends (raw_stores raw)) (\<lambda>stores.
     r_bind (normalize_artifact_store_settings (map_of stores ''artifact'')) (\<lambda>_.
     r_bind (normalize_event_sinks (raw_event_sinks raw)) (\<lambda>event_sinks.
     r_bind (normalize_safety (raw_safety raw)) (\<lambda>safety.
     r_bind (normalize_checkpoint_store_settings (map_of stores ''checkpoint'')) (\<lambda>checkpoint_store.
     r_bind (normalize_environment (raw_environment raw)) (\<lambda>environment.
       Inr \<lparr>nc_version = raw_version raw, nc_environment = environment, nc_plugins = plugins,
         nc_providers = providers, nc_tools = tools, nc_stores = stores, nc_event_sinks = event_sinks,
         nc_limits = raw_limits raw, nc_observability = raw_observability raw, nc_safety = safety,
         nc_metadata = raw_metadata raw, nc_checkpoint_store = checkpoint_store\<rparr>)))))))))))"

definition load_normalized_package_config_from_mapping :: "pyval \<Rightarrow> normalized_config res" where
  "load_normalized_package_config_from_mapping v =
     r_bind (load_package_config_from_mapping v) normalize_package_config"

section \<open>What a normalized configuration guarantees\<close>

lemma unique_strings_ok:
  "unique_strings f d seen xs = Inr ys \<Longrightarrow>
     distinct ys \<and> set ys \<inter> set seen = {} \<and> (\<forall>y \<in> set ys. y \<noteq> [] \<and> strip y = y)"
proof (induction xs arbitrary: seen ys)
  case (Cons x xs)
  then obtain s rest where x: "x = PStr s" "strip s \<noteq> []" "strip s \<notin> set seen"
    "unique_strings f d (strip s # seen) xs = Inr rest" "ys = strip s # rest"
    by (auto simp: Let_def r_simps split: pyval.splits atom.splits if_splits)
  then show ?case using Cons.IH [OF x(4)] by auto
qed simp

definition name_list :: "string list \<Rightarrow> bool" where
  "name_list ys \<longleftrightarrow> distinct ys \<and> (\<forall>y \<in> set ys. y \<noteq> [] \<and> strip y = y)"

lemma normalize_sequence_ok: "normalize_unique_string_sequence v f d = Inr ys \<Longrightarrow> name_list ys"
  unfolding normalize_unique_string_sequence_def name_list_def
  by (auto split: option.splits pyval.splits atom.splits dest: unique_strings_ok)

definition secrets_ok :: "(string \<times> secret_ref) list \<Rightarrow> bool" where
  "secrets_ok secrets \<longleftrightarrow> (\<forall>(k, ref) \<in> set secrets. sec_source ref = ''env'' \<and> is_env_name (sec_name ref))"

lemma secrets_ok_set:
  "secrets_ok secrets \<Longrightarrow> map_of secrets k = None \<Longrightarrow> sec_source ref = ''env'' \<Longrightarrow>
     is_env_name (sec_name ref) \<Longrightarrow> secrets_ok (dict_set k ref secrets)"
  unfolding secrets_ok_def by (simp add: set_dict_set_fresh)

lemma env_secret_ok:
  "normalize_secret_reference v f = Inr n \<Longrightarrow> env_secret n = Inr ref \<Longrightarrow>
     sec_source ref = ''env'' \<and> is_env_name (sec_name ref)"
  by (auto simp: normalize_secret_reference_def env_secret_def SecretRef_def Let_def env_var_name_fullmatch
      split: pyval.splits atom.splits if_splits)

lemma normalize_secret_ref_ok:
  "normalize_secret_ref k v = Inr ref \<Longrightarrow> sec_source ref = ''env'' \<and> is_env_name (sec_name ref)"
proof -
  assume r: "normalize_secret_ref k v = Inr ref"
  then obtain w f n where "normalize_secret_reference w f = Inr n" "env_secret n = Inr ref"
    unfolding normalize_secret_ref_def
    by (auto simp: r_simps split: pyval.splits atom.splits option.splits if_splits)
  then show ?thesis by (rule env_secret_ok)
qed

lemma explicit_secrets_ok:
  "explicit_secrets pn secrets kvs = Inr out \<Longrightarrow> secrets_ok secrets \<Longrightarrow> secrets_ok out"
proof (induction pn secrets kvs rule: explicit_secrets.induct)
  case (2 pn secrets k v kvs)
  then obtain s ref where k: "k = AStr s" "s \<noteq> []" "map_of secrets s = None"
    "normalize_secret_ref s v = Inr ref" "explicit_secrets pn (dict_set s ref secrets) kvs = Inr out"
    by (auto simp: r_simps split: atom.splits if_splits)
  have "\<not> map_of secrets s \<noteq> None" using k(3) by simp
  from "2.IH" [OF k(1) k(2) this k(4) k(5)] show ?case
    using secrets_ok_set [OF "2.prems"(2) k(3)] normalize_secret_ref_ok [OF k(4)] by blast
qed simp

lemma env_secrets_ok:
  "env_secrets pn secrets kvs = Inr out \<Longrightarrow> secrets_ok secrets \<Longrightarrow> secrets_ok out"
proof (induction kvs arbitrary: secrets)
  case (Cons p kvs)
  obtain k v where p: "p = (k, v)" by force
  then obtain e where e: "env_key k = Inr e" using Cons.prems(1) by (auto simp: r_simps)
  show ?case
  proof (cases e)
    case False
    then show ?thesis using Cons.IH Cons.prems p e by simp
  next
    case True
    let ?n = "take (length (atom_text k) - 4) (atom_text k)"
    obtain f n ref where x: "map_of secrets ?n = None" "normalize_secret_reference v f = Inr n"
      "env_secret n = Inr ref" "env_secrets pn (dict_set ?n ref secrets) kvs = Inr out"
      using Cons.prems(1) p e True by (auto simp: r_simps Let_def split: if_splits)
    show ?thesis
      using Cons.IH [OF x(4)] secrets_ok_set [OF Cons.prems(2) x(1)] env_secret_ok [OF x(2,3)] by blast
  qed
qed simp

lemma normalize_provider_profile_secrets:
  "normalize_provider_profile pn d = Inr p \<Longrightarrow> secrets_ok (pp_secrets p)"
proof -
  assume "normalize_provider_profile pn d = Inr p"
  then obtain secrets where "normalize_provider_secrets pn d = Inr secrets" "pp_secrets p = secrets"
    unfolding normalize_provider_profile_def r_bind_eq_Inr by auto
  moreover have "secrets_ok []" by (simp add: secrets_ok_def)
  ultimately show ?thesis
    unfolding normalize_provider_secrets_def r_bind_eq_Inr
    using explicit_secrets_ok env_secrets_ok by blast
qed

lemma normalize_providers_secrets:
  "normalize_providers kvs = Inr ps \<Longrightarrow> \<forall>(n, p) \<in> set ps. n \<noteq> [] \<and> secrets_ok (pp_secrets p)"
proof (induction kvs arbitrary: ps)
  case (Cons q kvs)
  obtain k v where q: "q = (k, v)" by force
  then obtain n d p rest where x: "k = AStr n" "n \<noteq> []" "v = PDict d"
    "normalize_provider_profile n d = Inr p" "normalize_providers kvs = Inr rest" "ps = (n, p) # rest"
    using Cons.prems by (auto simp: r_simps split: atom.splits pyval.splits if_splits)
  then show ?case using Cons.IH [OF x(5)] normalize_provider_profile_secrets by auto
qed simp

definition config_ok :: "normalized_config \<Rightarrow> bool" where
  "config_ok c \<longleftrightarrow> nc_version c = 1 \<and> name_list (nc_plugins c) \<and> name_list (tools_allowlist (nc_tools c))
     \<and> redaction_enabled (nc_safety c) \<and> safe_errors (nc_safety c)
     \<and> (\<forall>(n, p) \<in> set (nc_providers c). n \<noteq> [] \<and> secrets_ok (pp_secrets p))
     \<and> nc_environment c \<noteq> []"

lemma normalize_tools_ok: "normalize_tools t = Inr tc \<Longrightarrow> name_list (tools_allowlist tc)"
  unfolding normalize_tools_def r_bind_eq_Inr using normalize_sequence_ok by auto

lemma normalize_plugins_ok: "normalize_plugins t = Inr ps \<Longrightarrow> name_list ps"
  unfolding normalize_plugins_def r_bind_eq_Inr using normalize_sequence_ok by blast

lemma normalize_safety_ok: "normalize_safety s = Inr c \<Longrightarrow> redaction_enabled c \<and> safe_errors c"
  by (auto simp: normalize_safety_def Let_def split: if_splits)

lemma normalize_environment_ok: "normalize_environment e = Inr s \<Longrightarrow> s \<noteq> []"
  by (auto simp: normalize_environment_def split: option.splits if_splits)

lemma normalize_package_config_ok: "normalize_package_config raw = Inr c \<Longrightarrow> config_ok c"
proof -
  assume "normalize_package_config raw = Inr c"
  then obtain ps tc pr sf env where x: "raw_version raw = SUPPORTED_VERSION"
    "normalize_plugins (raw_plugins raw) = Inr ps" "normalize_tools (raw_tools raw) = Inr tc"
    "normalize_providers (raw_providers raw) = Inr pr" "normalize_safety (raw_safety raw) = Inr sf"
    "normalize_environment (raw_environment raw) = Inr env"
    and c: "nc_version c = raw_version raw" "nc_plugins c = ps" "nc_tools c = tc" "nc_providers c = pr"
      "nc_safety c = sf" "nc_environment c = env"
    unfolding normalize_package_config_def r_bind_eq_Inr r_guard_eq_Inr by auto
  show ?thesis
    unfolding config_ok_def c
    using x normalize_plugins_ok normalize_tools_ok normalize_providers_secrets normalize_safety_ok
      normalize_environment_ok by (simp add: SUPPORTED_VERSION_def)
qed

lemma load_package_config_prechecked:
  "load_package_config_from_mapping v = Inr raw \<Longrightarrow> \<exists>data. v = PDict data \<and> safe_config (PDict data)"
  unfolding load_package_config_from_mapping_def
  by (cases v) (auto simp: r_bind_eq_Inr precheck_package_config_mapping_def scan_ok)

lemma load_normalized_ok:
  assumes "load_normalized_package_config_from_mapping v = Inr c"
  shows "config_ok c \<and> safe_config v"
proof -
  obtain raw where "load_package_config_from_mapping v = Inr raw" "normalize_package_config raw = Inr c"
    using assms unfolding load_normalized_package_config_from_mapping_def r_bind_eq_Inr by blast
  then show ?thesis using load_package_config_prechecked normalize_package_config_ok by blast
qed

end
