(* ===== verification/Plugin_Registry.thy ===== *)
theory Plugin_Registry
  imports Workflow_Api Config_Normalize
begin

text \<open>
  The plugin vocabulary and the plugin registry (src/src/cobalt_wren/api/plugins.py,
  api/workflow.py, plugins/registry.py): contributions with their hooks, discovery of the installed
  plugins, registration, and resolution by name. The hooks of a contribution are code outside the
  repository: functions of their arguments that return or raise. \<open>'o\<close> is what the factories make
  and \<open>'g\<close> what a workflow builder makes.
\<close>

section \<open>Vocabulary\<close>

record validation_context =
  vx_environment :: string
  vx_enabled_plugins :: "string list"

record factory_context =
  fx_environment :: string
  fx_secrets :: "secret_ref \<Rightarrow> string res"
  fx_limits :: pyitems
  fx_observability :: pyitems
  fx_safety :: safety_config

record 'o build_context =
  wb_workflow_kind :: string
  wb_config :: pyitems
  wb_providers :: "(string \<times> 'o) list"
  wb_tools :: "(string \<times> 'o) list"
  wb_artifact_store :: "'o option"
  wb_checkpoint_store :: "'o option"
  wb_event_sinks :: "(string \<times> 'o) list"

record workflow_requirements =
  req_provider_profiles :: "string list"
  req_tools :: "string list"
  req_artifact_store :: bool
  req_checkpoint_store :: bool
  req_event_sinks :: "string list"

record workflow_metadata =
  wm_name :: string
  wm_description :: string
  wm_version :: string
  wm_tags :: "string list"
  wm_metadata :: pyitems

record ('o, 'g) workflow_definition =
  wd_kind :: string
  wd_metadata :: workflow_metadata
  wd_requirements :: workflow_requirements
  wd_build :: "('o build_context, 'g) builder"
  wd_input_schema :: "pyitems option"
  wd_output_schema :: "pyitems option"
  wd_extra :: pyitems

record ('o, 'g) workflow_contribution =
  wc_kind :: string
  wc_definition :: "('o, 'g) workflow_definition"
  wc_validate_config :: "(pyitems \<Rightarrow> unit res) option"

type_synonym 'c validate_hook = "('c \<Rightarrow> validation_context \<Rightarrow> unit res) option"
type_synonym ('c, 'o) factory_hook = "('c \<Rightarrow> factory_context \<Rightarrow> 'o option res) option"

record 'o tool_contribution =
  tc_name :: string
  tc_validate_config :: "pyitems validate_hook"
  tc_create_tool :: "(pyitems, 'o) factory_hook"

record 'o provider_contribution =
  pc_name :: string
  pc_validate_profile :: "provider_profile validate_hook"
  pc_create_client :: "(provider_profile, 'o) factory_hook"

record 'o store_contribution =
  stc_backend_name :: string
  stc_store_type :: string
  stc_validate_config :: "backend_config validate_hook"
  stc_create_store :: "(backend_config, 'o) factory_hook"

record 'o event_sink_contribution =
  ec_backend_name :: string
  ec_validate_config :: "backend_config validate_hook"
  ec_create_sink :: "(backend_config, 'o) factory_hook"

record ('o, 'g) plugin =
  pl_name :: string
  pl_version :: string
  pl_plugin_types :: "string list"
  pl_provides :: "(string \<times> string list) list"
  pl_metadata :: pydict
  pl_workflows :: "('o, 'g) workflow_contribution list"
  pl_tools :: "'o tool_contribution list"
  pl_providers :: "'o provider_contribution list"
  pl_stores :: "'o store_contribution list"
  pl_event_sinks :: "'o event_sink_contribution list"

definition store_key :: "'o store_contribution \<Rightarrow> string \<times> string" where
  "store_key s = (stc_store_type s, stc_backend_name s)"

section \<open>Discovery\<close>

text \<open>
  An entry point: its name, its value, and what loading it gives: an exception, an object that is
  no plugin, or a plugin (made by calling the loaded object where it is callable).
\<close>

record ('o, 'g) entry_point =
  ep_name :: string
  ep_value :: string
  ep_load :: "('o, 'g) plugin option res"

definition PLUGIN_API_VERSION :: int where "PLUGIN_API_VERSION = 1"

definition discovery_error :: "string \<Rightarrow> string \<Rightarrow> pydict \<Rightarrow> exn" where
  "discovery_error msg code metadata = PluginResolutionError msg code (Some ''plugin_discovery'') None metadata"

definition declared_api_version :: "('o, 'g) plugin \<Rightarrow> pyval" where
  "declared_api_version p =
     (case map_of (pl_metadata p) ''plugin_api_version'' of None \<Rightarrow> PInt PLUGIN_API_VERSION | Some v \<Rightarrow> v)"

definition discover_one :: "string \<Rightarrow> ('o, 'g) entry_point \<Rightarrow> ('o, 'g) plugin res" where
  "discover_one grp ep =
     (case ep_load ep of
        Inl _ \<Rightarrow> Inl (discovery_error (''Plugin discovery failed for entry point '' @ quoted (ep_name ep) @ ''.'')
          ''PLUGIN_DISCOVERY_FAILED'' [(''entry_point'', PStr (ep_name ep)), (''group'', PStr grp)])
      | Inr None \<Rightarrow> Inl (discovery_error (''Plugin discovery failed: entry point '' @ quoted (ep_name ep)
            @ '' returned an invalid object.'')
          ''PLUGIN_DISCOVERY_INVALID_RESULT'' [(''entry_point'', PStr (ep_name ep)), (''group'', PStr grp)])
      | Inr (Some p) \<Rightarrow>
          if declared_api_version p = PInt PLUGIN_API_VERSION then Inr p
          else Inl (discovery_error (''Plugin discovery failed: entry point '' @ quoted (ep_name ep)
              @ '' uses an incompatible plugin API version.'')
            ''PLUGIN_API_VERSION_INCOMPATIBLE''
            [(''entry_point'', PStr (ep_name ep)), (''declared_version'', declared_api_version p),
             (''supported_version'', PInt PLUGIN_API_VERSION)]))"

definition discover_plugins ::
  "string \<Rightarrow> ('o, 'g) entry_point list \<Rightarrow> ('o, 'g) plugin list res" where
  "discover_plugins grp eps =
     r_map_list (discover_one grp) (sort_key (\<lambda>ep. [ep_name ep, ep_value ep]) eps)"

section \<open>The registry\<close>

record ('o, 'g) registry =
  reg_plugins :: "(string \<times> ('o, 'g) plugin) list"
  reg_workflows :: "(string \<times> ('o, 'g) workflow_contribution) list"
  reg_tools :: "(string \<times> 'o tool_contribution) list"
  reg_providers :: "(string \<times> 'o provider_contribution) list"
  reg_stores :: "((string \<times> string) \<times> 'o store_contribution) list"
  reg_event_sinks :: "(string \<times> 'o event_sink_contribution) list"

definition empty_registry :: "('o, 'g) registry" where
  "empty_registry = \<lparr>reg_plugins = [], reg_workflows = [], reg_tools = [], reg_providers = [],
     reg_stores = [], reg_event_sinks = []\<rparr>"

text \<open>The first contribution whose key was seen before or is taken.\<close>

fun first_conflict :: "('c \<Rightarrow> 'k) \<Rightarrow> 'k list \<Rightarrow> ('k \<times> 'v) list \<Rightarrow> 'c list \<Rightarrow> 'c option" where
  "first_conflict key seen taken [] = None"
| "first_conflict key seen taken (c # cs) =
     (if key c \<in> set seen \<or> map_of taken (key c) \<noteq> None then Some c
      else first_conflict key (key c # seen) taken cs)"

definition set_all :: "('c \<Rightarrow> 'k) \<Rightarrow> 'c list \<Rightarrow> ('k \<times> 'c) list \<Rightarrow> ('k \<times> 'c) list" where
  "set_all key cs d = foldl (\<lambda>d c. dict_set (key c) c d) d cs"

definition registration_error :: "string \<Rightarrow> string \<Rightarrow> pydict \<Rightarrow> exn" where
  "registration_error msg code metadata =
     PluginRegistrationError (''Plugin registration failed: duplicate '' @ msg) code
       (Some ''plugin_registry'') None metadata"

definition duplicate_plugin_error :: "string \<Rightarrow> exn" where
  "duplicate_plugin_error name = registration_error (''plugin name '' @ quoted name @ ''.'')
     ''PLUGIN_DUPLICATE_NAME'' [(''plugin_name'', PStr name)]"

text \<open>The scope is a plural, and the message has it without its last letter; the scope of a
  workflow is written \<open>workflow\<close>.\<close>

definition duplicate_contribution_error :: "string \<Rightarrow> string \<Rightarrow> string \<Rightarrow> string \<Rightarrow> exn" where
  "duplicate_contribution_error plugin_name word scope name =
     registration_error (word @ '' contribution '' @ quoted name @ ''.'')
       ''PLUGIN_CONTRIBUTION_CONFLICT''
       [(''plugin_name'', PStr plugin_name), (''contribution_scope'', PStr scope),
        (''contribution_name'', PStr name)]"

definition duplicate_store_error :: "string \<Rightarrow> 'o store_contribution \<Rightarrow> exn" where
  "duplicate_store_error plugin_name s =
     registration_error (''store backend '' @ quoted (stc_store_type s @ '':'' @ stc_backend_name s) @ ''.'')
       ''PLUGIN_CONTRIBUTION_CONFLICT''
       [(''plugin_name'', PStr plugin_name), (''contribution_scope'', PStr ''stores''),
        (''store_type'', PStr (stc_store_type s)), (''backend_name'', PStr (stc_backend_name s))]"

definition registration_conflict :: "('o, 'g) registry \<Rightarrow> ('o, 'g) plugin \<Rightarrow> exn option" where
  "registration_conflict reg p =
     (if map_of (reg_plugins reg) (pl_name p) \<noteq> None then Some (duplicate_plugin_error (pl_name p))
      else case first_conflict wc_kind [] (reg_workflows reg) (pl_workflows p) of
        Some c \<Rightarrow> Some (duplicate_contribution_error (pl_name p) ''workflow'' ''workflow'' (wc_kind c))
      | None \<Rightarrow> (case first_conflict tc_name [] (reg_tools reg) (pl_tools p) of
        Some c \<Rightarrow> Some (duplicate_contribution_error (pl_name p) ''tool'' ''tools'' (tc_name c))
      | None \<Rightarrow> (case first_conflict pc_name [] (reg_providers reg) (pl_providers p) of
        Some c \<Rightarrow> Some (duplicate_contribution_error (pl_name p) ''provider'' ''providers'' (pc_name c))
      | None \<Rightarrow> (case first_conflict store_key [] (reg_stores reg) (pl_stores p) of
        Some c \<Rightarrow> Some (duplicate_store_error (pl_name p) c)
      | None \<Rightarrow> (case first_conflict ec_backend_name [] (reg_event_sinks reg) (pl_event_sinks p) of
        Some c \<Rightarrow> Some (duplicate_contribution_error (pl_name p) ''event_sink'' ''event_sinks'' (ec_backend_name c))
      | None \<Rightarrow> None)))))"

definition register :: "('o, 'g) registry \<Rightarrow> ('o, 'g) plugin \<Rightarrow> ('o, 'g) registry \<times> unit res" where
  "register reg p =
     (case registration_conflict reg p of
        Some e \<Rightarrow> (reg, Inl e)
      | None \<Rightarrow>
          (\<lparr>reg_plugins = dict_set (pl_name p) p (reg_plugins reg),
            reg_workflows = set_all wc_kind (pl_workflows p) (reg_workflows reg),
            reg_tools = set_all tc_name (pl_tools p) (reg_tools reg),
            reg_providers = set_all pc_name (pl_providers p) (reg_providers reg),
            reg_stores = set_all store_key (pl_stores p) (reg_stores reg),
            reg_event_sinks = set_all ec_backend_name (pl_event_sinks p) (reg_event_sinks reg)\<rparr>,
           Inr ()))"

text \<open>\<open>PluginRegistry(plugins)\<close>: the first failing registration ends the construction.\<close>

fun new_registry :: "('o, 'g) registry \<Rightarrow> ('o, 'g) plugin list \<Rightarrow> ('o, 'g) registry res" where
  "new_registry reg [] = Inr reg"
| "new_registry reg (p # ps) =
     (case register reg p of (reg', Inl e) \<Rightarrow> Inl e | (reg', Inr _) \<Rightarrow> new_registry reg' ps)"

definition unknown_error :: "string \<Rightarrow> string \<Rightarrow> pydict \<Rightarrow> exn" where
  "unknown_error what code metadata =
     PluginResolutionError (''Plugin resolution failed: '' @ what @ '' is not registered.'') code
       (Some ''plugin_registry'') None metadata"

definition lookup :: "('k \<times> 'v) list \<Rightarrow> 'k \<Rightarrow> exn \<Rightarrow> 'v res" where
  "lookup d k err = (case map_of d k of Some v \<Rightarrow> Inr v | None \<Rightarrow> Inl err)"

definition get_plugin :: "('o, 'g) registry \<Rightarrow> string \<Rightarrow> ('o, 'g) plugin res" where
  "get_plugin reg name = lookup (reg_plugins reg) name
     (unknown_error (''plugin '' @ quoted name) ''PLUGIN_UNKNOWN'' [(''plugin_name'', PStr name)])"

definition get_tool :: "('o, 'g) registry \<Rightarrow> string \<Rightarrow> 'o tool_contribution res" where
  "get_tool reg name = lookup (reg_tools reg) name
     (unknown_error (''tool '' @ quoted name) ''PLUGIN_UNKNOWN_TOOL'' [(''tool_name'', PStr name)])"

definition get_workflow :: "('o, 'g) registry \<Rightarrow> string \<Rightarrow> ('o, 'g) workflow_contribution res" where
  "get_workflow reg kind = lookup (reg_workflows reg) kind
     (unknown_error (''workflow kind '' @ quoted kind) ''PLUGIN_UNKNOWN_WORKFLOW''
       [(''workflow_kind'', PStr kind)])"

definition get_provider :: "('o, 'g) registry \<Rightarrow> string \<Rightarrow> 'o provider_contribution res" where
  "get_provider reg name = lookup (reg_providers reg) name
     (unknown_error (''provider '' @ quoted name) ''PLUGIN_UNKNOWN_PROVIDER'' [(''provider_name'', PStr name)])"

definition get_store :: "('o, 'g) registry \<Rightarrow> string \<Rightarrow> string \<Rightarrow> 'o store_contribution res" where
  "get_store reg store_type backend_name = lookup (reg_stores reg) (store_type, backend_name)
     (unknown_error (''store '' @ quoted (store_type @ '':'' @ backend_name)) ''PLUGIN_UNKNOWN_STORE''
       [(''store_type'', PStr store_type), (''backend_name'', PStr backend_name)])"

definition get_event_sink :: "('o, 'g) registry \<Rightarrow> string \<Rightarrow> 'o event_sink_contribution res" where
  "get_event_sink reg backend_name = lookup (reg_event_sinks reg) backend_name
     (unknown_error (''event sink '' @ quoted backend_name) ''PLUGIN_UNKNOWN_EVENT_SINK''
       [(''backend_name'', PStr backend_name)])"

definition list_plugins :: "('o, 'g) registry \<Rightarrow> ('o, 'g) plugin list" where
  "list_plugins reg = map snd (reg_plugins reg)"

section \<open>What registration keeps\<close>

definition indexed :: "('c \<Rightarrow> 'k) \<Rightarrow> 'c list \<Rightarrow> ('k \<times> 'c) list" where
  "indexed key cs = map (\<lambda>c. (key c, c)) cs"

lemma keys_indexed [simp]: "map fst (indexed key cs) = map key cs"
  by (simp add: indexed_def)

lemma indexed_append: "indexed key (cs @ cs') = indexed key cs @ indexed key cs'"
  by (simp add: indexed_def)

lemma map_of_indexed:
  "wf_dict (indexed key cs) \<Longrightarrow> map_of (indexed key cs) k = Some c \<longleftrightarrow> c \<in> set cs \<and> key c = k"
  by (simp add: map_of_eq_Some_iff_wf) (auto simp: indexed_def)

lemma first_conflict_None:
  "first_conflict key seen taken cs = None \<longleftrightarrow>
     distinct (map key cs) \<and> (\<forall>c \<in> set cs. key c \<notin> set seen \<and> map_of taken (key c) = None)"
  by (induction cs arbitrary: seen) (auto, metis imageI)

lemma set_all_fresh:
  "distinct (map key cs) \<Longrightarrow> \<forall>c \<in> set cs. map_of d (key c) = None \<Longrightarrow> set_all key cs d = d @ indexed key cs"
proof (induction cs arbitrary: d)
  case (Cons c cs)
  have "set_all key cs (d @ [(key c, c)]) = (d @ [(key c, c)]) @ indexed key cs"
    using Cons.prems by (intro Cons.IH) (simp_all add: map_add_def, metis imageI)
  then show ?case using Cons.prems by (simp add: set_all_def dict_set_fresh indexed_def)
qed (simp add: set_all_def indexed_def)

lemma set_all_no_conflict:
  assumes "first_conflict key [] d cs = None"
  shows "set_all key cs d = d @ indexed key cs" and "wf_dict d \<Longrightarrow> wf_dict (d @ indexed key cs)"
proof -
  have f: "distinct (map key cs)" "\<forall>c \<in> set cs. map_of d (key c) = None"
    using assms by (auto simp: first_conflict_None)
  then show "set_all key cs d = d @ indexed key cs" by (rule set_all_fresh)
  have "k \<notin> set (map fst d)" if "k \<in> set (map key cs)" for k
    using that f(2) by (auto simp: map_of_eq_None_iff)
  then have "set (map fst d) \<inter> set (map key cs) = {}" by blast
  then show "wf_dict (d @ indexed key cs)" if "wf_dict d"
    using that f(1) by (simp add: wf_dict_def del: set_map)
qed

text \<open>
  The invariant: each index lists exactly the contributions of the registered plugins, in the order
  of registration, no two under one name.
\<close>

definition index_ok :: "('c \<Rightarrow> 'k) \<Rightarrow> ('p \<Rightarrow> 'c list) \<Rightarrow> 'p list \<Rightarrow> ('k \<times> 'c) list \<Rightarrow> bool" where
  "index_ok key sel ps d \<longleftrightarrow> wf_dict d \<and> d = indexed key (concat (map sel ps))"

definition registry_inv :: "('o, 'g) registry \<Rightarrow> bool" where
  "registry_inv reg \<longleftrightarrow> (let ps = list_plugins reg in
     wf_dict (reg_plugins reg) \<and> reg_plugins reg = indexed pl_name ps \<and>
     index_ok wc_kind pl_workflows ps (reg_workflows reg) \<and> index_ok tc_name pl_tools ps (reg_tools reg) \<and>
     index_ok pc_name pl_providers ps (reg_providers reg) \<and> index_ok store_key pl_stores ps (reg_stores reg) \<and>
     index_ok ec_backend_name pl_event_sinks ps (reg_event_sinks reg))"

lemma index_ok_snoc:
  "index_ok key sel ps d \<Longrightarrow> first_conflict key [] d (sel p) = None \<Longrightarrow>
     index_ok key sel (ps @ [p]) (set_all key (sel p) d)"
  by (auto simp: index_ok_def set_all_no_conflict indexed_append)

lemma index_ok_lookup:
  "index_ok key sel ps d \<Longrightarrow> map_of d k = Some c \<longleftrightarrow> (\<exists>p \<in> set ps. c \<in> set (sel p) \<and> key c = k)"
  using map_of_indexed [of key "concat (map sel ps)" k c] by (auto simp: index_ok_def)

lemma empty_registry_inv: "registry_inv empty_registry"
  by (simp add: registry_inv_def empty_registry_def list_plugins_def index_ok_def indexed_def)

lemma registration_conflict_None:
  "registration_conflict reg p = None \<longleftrightarrow>
     map_of (reg_plugins reg) (pl_name p) = None \<and>
     first_conflict wc_kind [] (reg_workflows reg) (pl_workflows p) = None \<and>
     first_conflict tc_name [] (reg_tools reg) (pl_tools p) = None \<and>
     first_conflict pc_name [] (reg_providers reg) (pl_providers p) = None \<and>
     first_conflict store_key [] (reg_stores reg) (pl_stores p) = None \<and>
     first_conflict ec_backend_name [] (reg_event_sinks reg) (pl_event_sinks p) = None"
  by (auto simp: registration_conflict_def split: option.splits)

lemma register_failed: "register reg p = (reg', Inl e) \<Longrightarrow> reg' = reg"
  by (auto simp: register_def split: option.splits)

lemma register_done:
  assumes "register reg p = (reg', Inr u)"
  shows "registration_conflict reg p = None"
    and "list_plugins reg' = list_plugins reg @ [p]"
    and "reg_plugins reg' = reg_plugins reg @ [(pl_name p, p)]"
proof -
  show c: "registration_conflict reg p = None"
    using assms by (auto simp: register_def split: option.splits)
  then have "map_of (reg_plugins reg) (pl_name p) = None" by (simp add: registration_conflict_None)
  then show r: "reg_plugins reg' = reg_plugins reg @ [(pl_name p, p)]"
    using assms c by (auto simp: register_def dict_set_fresh)
  then show "list_plugins reg' = list_plugins reg @ [p]" by (simp add: list_plugins_def)
qed

lemma register_inv:
  assumes "registry_inv reg" and "register reg p = (reg', r)"
  shows "registry_inv reg'"
proof (cases r)
  case (Inl e)
  then show ?thesis using assms register_failed by metis
next
  case (Inr u)
  note reg_done = register_done [OF assms(2) [unfolded Inr]]
  note none = reg_done(1) [unfolded registration_conflict_None]
  have i: "reg_workflows reg' = set_all wc_kind (pl_workflows p) (reg_workflows reg)"
    "reg_tools reg' = set_all tc_name (pl_tools p) (reg_tools reg)"
    "reg_providers reg' = set_all pc_name (pl_providers p) (reg_providers reg)"
    "reg_stores reg' = set_all store_key (pl_stores p) (reg_stores reg)"
    "reg_event_sinks reg' = set_all ec_backend_name (pl_event_sinks p) (reg_event_sinks reg)"
    using assms(2) reg_done(1) by (auto simp: register_def)
  have "wf_dict (reg_plugins reg')"
  proof -
    have "wf_dict (reg_plugins reg)" "map_of (reg_plugins reg) (pl_name p) = None"
      using assms(1) none unfolding registry_inv_def Let_def by blast+
    then have "distinct (map fst (reg_plugins reg))" "pl_name p \<notin> set (map fst (reg_plugins reg))"
      by (simp_all add: wf_dict_def map_of_eq_None_iff)
    then show ?thesis by (simp only: reg_done wf_dict_def map_append distinct_append) simp
  qed
  moreover have "reg_plugins reg' = indexed pl_name (list_plugins reg')"
    using assms(1) unfolding reg_done registry_inv_def Let_def by (simp add: indexed_def)
  ultimately show ?thesis
    using assms(1) none unfolding registry_inv_def Let_def reg_done(2) i by (simp add: index_ok_snoc)
qed

section \<open>A catalog that never rebinds a name\<close>

text \<open>
  What the validator and the workflow preparer rely on: a name that resolves keeps resolving to the
  same plugin, whatever is registered later, and registering under a taken name fails.
\<close>

fun run_registers :: "('r \<Rightarrow> 'p \<Rightarrow> 'r \<times> unit res) \<Rightarrow> 'r \<Rightarrow> 'p list \<Rightarrow> 'r" where
  "run_registers reg r [] = r"
| "run_registers reg r (p # ps) = run_registers reg (fst (reg r p)) ps"

locale plugin_catalog =
  fixes empty :: 'r
    and inv :: "'r \<Rightarrow> bool"
    and reg :: "'r \<Rightarrow> 'p \<Rightarrow> 'r \<times> unit res"
    and get :: "'r \<Rightarrow> string \<Rightarrow> 'p res"
    and name :: "'p \<Rightarrow> string"
  assumes inv_empty: "inv empty"
    and inv_reg: "inv r \<Longrightarrow> inv (fst (reg r p))"
    and reg_failed: "snd (reg r p) = Inl e \<Longrightarrow> fst (reg r p) = r"
    and reg_done: "inv r \<Longrightarrow> snd (reg r p) = Inr () \<Longrightarrow>
          get (fst (reg r p)) n = (if n = name p then Inr p else get r n)"
    and reg_taken: "inv r \<Longrightarrow> get r (name p) = Inr q \<Longrightarrow> snd (reg r p) \<noteq> Inr ()"
begin

lemma inv_run: "inv r \<Longrightarrow> inv (run_registers reg r ps)"
  by (induction ps arbitrary: r) (simp_all add: inv_reg)

lemma reg_keeps:
  assumes "inv r" and "get r n = Inr q"
  shows "get (fst (reg r p)) n = Inr q"
proof (cases "snd (reg r p)")
  case (Inl e)
  then show ?thesis using reg_failed assms(2) by simp
next
  case (Inr u)
  then show ?thesis using reg_done [of r p n] reg_taken [of r p q] assms by auto
qed

lemma never_rebound: "inv r \<Longrightarrow> get r n = Inr q \<Longrightarrow> get (run_registers reg r ps) n = Inr q"
  by (induction ps arbitrary: r) (simp_all add: inv_reg reg_keeps)

lemma first_registration_wins:
  assumes "inv r" and "snd (reg r p) = Inr ()"
  shows "get (run_registers reg (fst (reg r p)) ps) (name p) = Inr p"
  using assms by (intro never_rebound inv_reg) (simp_all add: reg_done)

end

lemma get_plugin_Inr: "get_plugin reg n = Inr p \<longleftrightarrow> map_of (reg_plugins reg) n = Some p"
  by (simp add: get_plugin_def lookup_def split: option.splits)

interpretation catalog: plugin_catalog "empty_registry :: ('a, 'b) registry" registry_inv register get_plugin pl_name
proof
  show "registry_inv empty_registry" by (rule empty_registry_inv)
next
  fix r :: "('a, 'b) registry" and p :: "('a, 'b) plugin"
  assume "registry_inv r"
  then show "registry_inv (fst (register r p))" using register_inv [of r p] by (metis prod.collapse)
next
  fix r :: "('a, 'b) registry" and e and p :: "('a, 'b) plugin"
  assume "snd (register r p) = Inl e"
  then show "fst (register r p) = r" using register_failed by (metis prod.collapse)
next
  fix r :: "('a, 'b) registry" and n and p :: "('a, 'b) plugin"
  assume "registry_inv r" and "snd (register r p) = Inr ()"
  then have d: "register r p = (fst (register r p), Inr ())" by (metis prod.collapse)
  have "map_of (reg_plugins r) (pl_name p) = None"
    using register_done(1) [OF d] by (simp add: registration_conflict_None)
  then have "reg_plugins (fst (register r p)) = dict_set (pl_name p) p (reg_plugins r)"
    using register_done(3) [OF d] by (simp add: dict_set_fresh)
  then show "get_plugin (fst (register r p)) n = (if n = pl_name p then Inr p else get_plugin r n)"
    by (simp add: get_plugin_def lookup_def map_of_dict_set)
next
  fix r :: "('a, 'b) registry" and q and p :: "('a, 'b) plugin"
  assume "get_plugin r (pl_name p) = Inr q"
  then show "snd (register r p) \<noteq> Inr ()"
    by (simp add: get_plugin_Inr register_def registration_conflict_def)
qed

lemma new_registry_inv: "new_registry reg ps = Inr reg' \<Longrightarrow> registry_inv reg \<Longrightarrow> registry_inv reg'"
proof (induction ps arbitrary: reg)
  case (Cons p ps)
  obtain r x where "register reg p = (r, x)" by force
  then show ?case using Cons register_inv [of reg p r x] by (auto split: sum.splits)
qed simp

lemma new_registry_plugins: "new_registry reg ps = Inr reg' \<Longrightarrow> list_plugins reg' = list_plugins reg @ ps"
proof (induction ps arbitrary: reg)
  case (Cons p ps)
  obtain r x where "register reg p = (r, x)" by force
  then show ?case using Cons register_done(2) [of reg p r] by (auto split: sum.splits)
qed simp

lemma get_tool_iff:
  "registry_inv reg \<Longrightarrow> get_tool reg n = Inr t \<longleftrightarrow>
     (\<exists>p \<in> set (list_plugins reg). t \<in> set (pl_tools p) \<and> tc_name t = n)"
proof -
  assume "registry_inv reg"
  then have i: "index_ok tc_name pl_tools (list_plugins reg) (reg_tools reg)"
    by (simp add: registry_inv_def Let_def)
  have "get_tool reg n = Inr t \<longleftrightarrow> map_of (reg_tools reg) n = Some t"
    by (simp add: get_tool_def lookup_def split: option.splits)
  then show ?thesis using index_ok_lookup [OF i, of n t] by simp
qed

lemma registry_inv_plugins: "registry_inv reg \<Longrightarrow> index_ok pl_name (\<lambda>p. [p]) (list_plugins reg) (reg_plugins reg)"
proof -
  assume "registry_inv reg"
  then have "wf_dict (reg_plugins reg) \<and> reg_plugins reg = indexed pl_name (list_plugins reg)"
    unfolding registry_inv_def Let_def by blast
  then show ?thesis unfolding index_ok_def concat_map_singleton list.map_ident .
qed

lemma get_plugin_iff:
  "registry_inv reg \<Longrightarrow> get_plugin reg n = Inr p \<longleftrightarrow> p \<in> set (list_plugins reg) \<and> pl_name p = n"
  using index_ok_lookup [OF registry_inv_plugins, of reg n p] by (auto simp: get_plugin_Inr)

end
