(* ===== verification/Runtime_Assembly.thy ===== *)
theory Runtime_Assembly
  imports Plugin_Registry
begin

text \<open>
  From a normalized configuration to a prepared workflow: the validation of the configuration
  against the plugin registry (src/src/cobalt_wren/config/validator.py), the assembly of the runtime
  dependencies (runtime/assembly.py, runtime/secrets.py, runtime/artifact_store.py,
  runtime/checkpoint_store.py), the requirements of a workflow (workflows/requirements.py) and its
  preparation (workflows/prepare.py). The constructors of the stores, which open files, a database
  or a client, are parameters.
\<close>

section \<open>Validation\<close>

record ('o, 'g) effective_plugins =
  eff_plugins :: "('o, 'g) plugin list"
  eff_plugin_names :: "string list"
  eff_tools :: "(string \<times> 'o tool_contribution) list"
  eff_providers :: "(string \<times> 'o provider_contribution) list"
  eff_stores :: "((string \<times> string) \<times> 'o store_contribution) list"
  eff_event_sinks :: "(string \<times> 'o event_sink_contribution) list"

record ('o, 'g) validated_config =
  vc_normalized :: normalized_config
  vc_effective :: "('o, 'g) effective_plugins"

definition validator_config_error :: "string \<Rightarrow> string \<Rightarrow> pydict \<Rightarrow> exn" where
  "validator_config_error msg code metadata = ConfigError msg code (Some ''config_validator'') None metadata"

definition validator_resolution_error :: "string \<Rightarrow> string \<Rightarrow> pydict \<Rightarrow> exn" where
  "validator_resolution_error msg code metadata =
     PluginResolutionError (''Plugin resolution failed: '' @ msg) code (Some ''config_validator'') None metadata"

text \<open>\<open>_get_registered_plugin\<close>: the registry's error is replaced, its code kept.\<close>

definition get_registered_plugin :: "('o, 'g) registry \<Rightarrow> string \<Rightarrow> ('o, 'g) plugin res" where
  "get_registered_plugin reg plugin_name =
     (case get_plugin reg plugin_name of
        Inr p \<Rightarrow> Inr p
      | Inl e \<Rightarrow> Inl (case e of
            FrameworkExn fe \<Rightarrow> validator_resolution_error (''plugin '' @ quoted plugin_name @ '' is not registered.'')
              (fe_code fe) [(''plugin_name'', PStr plugin_name)]
          | _ \<Rightarrow> e))"

definition build_effective_plugin_set ::
  "('o, 'g) registry \<Rightarrow> string list \<Rightarrow> ('o, 'g) effective_plugins res" where
  "build_effective_plugin_set reg enabled =
     r_bind (r_map_list (get_registered_plugin reg) enabled) (\<lambda>ps.
       Inr \<lparr>eff_plugins = ps, eff_plugin_names = map pl_name ps,
         eff_tools = set_all tc_name (concat (map pl_tools ps)) [],
         eff_providers = set_all pc_name (concat (map pl_providers ps)) [],
         eff_stores = set_all store_key (concat (map pl_stores ps)) [],
         eff_event_sinks = set_all ec_backend_name (concat (map pl_event_sinks ps)) []\<rparr>)"

definition invoke_validation_hook ::
  "('c \<Rightarrow> validation_context \<Rightarrow> unit res) \<Rightarrow> 'c \<Rightarrow> validation_context \<Rightarrow> string \<Rightarrow> string \<Rightarrow> pydict \<Rightarrow> unit res" where
  "invoke_validation_hook hook config context contribution_name scope metadata =
     (case hook config context of
        Inr u \<Rightarrow> Inr ()
      | Inl e \<Rightarrow> Inl (if isinstance e PluginValidationError_cls then e
          else PluginValidationError ''Plugin validation failed.'' ''PLUGIN_VALIDATION_FAILED''
            (Some ''config_validator'') None
            (dict_of (metadata @ [(''contribution_scope'', PStr scope),
               (''contribution_name'', PStr contribution_name),
               (''environment'', PStr (vx_environment context))]))))"

definition call_validate_profile ::
  "'o provider_contribution \<Rightarrow> provider_profile \<Rightarrow> validation_context \<Rightarrow> string \<Rightarrow> string \<Rightarrow> unit res" where
  "call_validate_profile c profile context profile_name provider_name =
     (case pc_validate_profile c of
        None \<Rightarrow> Inr ()
      | Some hook \<Rightarrow> invoke_validation_hook hook profile context provider_name ''provider''
          [(''provider'', PStr provider_name), (''profile'', PStr profile_name)])"

text \<open>The metadata \<open>_call_validate_config\<close> starts from.\<close>

definition validation_metadata :: "string \<Rightarrow> string \<Rightarrow> string \<Rightarrow> pydict" where
  "validation_metadata contribution_name backend_name scope =
     [(''contribution_name'', PStr contribution_name)]
     @ (if scope = ''tool'' then [(''tool_name'', PStr contribution_name)]
        else if scope = ''store''
          then [(''store_type'', PStr contribution_name), (''backend'', PStr backend_name)]
        else if scope = ''event_sink'' then [(''backend'', PStr backend_name)] else [])"

definition call_validate_config ::
  "'c validate_hook \<Rightarrow> 'c \<Rightarrow> validation_context \<Rightarrow> string \<Rightarrow> string \<Rightarrow> string \<Rightarrow> unit res" where
  "call_validate_config hook config context contribution_name backend_name scope =
     (case hook of
        None \<Rightarrow> Inr ()
      | Some h \<Rightarrow> invoke_validation_hook h config context contribution_name scope
          (validation_metadata contribution_name backend_name scope))"

text \<open>\<open>configs.get(tool_name, {})\<close>, with \<open>None\<close> for the empty mapping.\<close>

definition tool_config_value :: "pyitems \<Rightarrow> string \<Rightarrow> pyval" where
  "tool_config_value configs n =
     (case map_of configs (AStr n) of None \<Rightarrow> PDict [] | Some (Atom ANone) \<Rightarrow> PDict [] | Some v \<Rightarrow> v)"

definition each :: "('a \<Rightarrow> unit res) \<Rightarrow> 'a list \<Rightarrow> unit res" where
  "each f xs = r_bind (r_map_list f xs) (\<lambda>_. Inr ())"

definition validate_tool ::
  "pyitems \<Rightarrow> ('o, 'g) effective_plugins \<Rightarrow> validation_context \<Rightarrow> string \<Rightarrow> unit res" where
  "validate_tool configs eff context tool_name =
     (case map_of (eff_tools eff) tool_name of
        None \<Rightarrow> Inl (validator_resolution_error (''tool '' @ quoted tool_name @ '' is not enabled.'')
          ''PLUGIN_UNKNOWN_TOOL'' [(''tool_name'', PStr tool_name)])
      | Some c \<Rightarrow>
          (case tool_config_value configs tool_name of
             PDict d \<Rightarrow> call_validate_config (tc_validate_config c) d context ''tools'' tool_name ''tool''
           | _ \<Rightarrow> Inl (validator_config_error ''Configuration is invalid: tool config must be a mapping.''
               ''CONFIG_INVALID_FIELD_TYPE'' [(''tool_name'', PStr tool_name)])))"

definition validate_tools ::
  "tools_config \<Rightarrow> ('o, 'g) effective_plugins \<Rightarrow> validation_context \<Rightarrow> unit res" where
  "validate_tools tools eff context =
     r_bind (each (\<lambda>k. r_guard (k \<notin> AStr ` set (tools_allowlist tools))
       (validator_config_error ''Configuration is invalid: tool config is defined for a tool not in allowlist.''
         ''CONFIG_TOOL_CONFIG_NOT_ALLOWED'' [(''tool_name'', Atom k)])) (map fst (tools_configs tools))) (\<lambda>_.
       each (validate_tool (tools_configs tools) eff context) (tools_allowlist tools))"

definition validate_provider ::
  "('o, 'g) effective_plugins \<Rightarrow> validation_context \<Rightarrow> string \<times> provider_profile \<Rightarrow> unit res" where
  "validate_provider eff context entry =
     (let (profile_name, profile) = entry; provider_name = pp_provider profile
      in case map_of (eff_providers eff) provider_name of
           None \<Rightarrow> Inl (validator_resolution_error (''provider '' @ quoted provider_name @ '' is not enabled.'')
             ''PLUGIN_UNKNOWN_PROVIDER''
             [(''provider'', PStr provider_name), (''profile'', PStr profile_name)])
         | Some c \<Rightarrow> call_validate_profile c profile context profile_name provider_name)"

definition validate_store ::
  "('o, 'g) effective_plugins \<Rightarrow> validation_context \<Rightarrow> string \<times> backend_config \<Rightarrow> unit res" where
  "validate_store eff context entry =
     (let (store_type, c) = entry
      in if store_type \<in> {''artifact'', ''checkpoint''} then Inr ()
         else case map_of (eff_stores eff) (store_type, bc_backend c) of
           None \<Rightarrow> Inl (validator_resolution_error
             (''store backend '' @ quoted (bc_backend c) @ '' for store type '' @ quoted store_type @ '' is not enabled.'')
             ''PLUGIN_UNKNOWN_STORE'' [(''store_type'', PStr store_type), (''backend'', PStr (bc_backend c))])
         | Some s \<Rightarrow> call_validate_config (stc_validate_config s) c context store_type (bc_backend c) ''store'')"

definition validate_event_sink ::
  "('o, 'g) effective_plugins \<Rightarrow> validation_context \<Rightarrow> string \<times> backend_config \<Rightarrow> unit res" where
  "validate_event_sink eff context entry =
     (let (sink_name, c) = entry
      in case map_of (eff_event_sinks eff) (bc_backend c) of
           None \<Rightarrow> Inl (validator_resolution_error
             (''event sink backend '' @ quoted (bc_backend c) @ '' is not enabled.'')
             ''PLUGIN_UNKNOWN_EVENT_SINK'' [(''backend'', PStr (bc_backend c))])
         | Some s \<Rightarrow> call_validate_config (ec_validate_config s) c context sink_name (bc_backend c) ''event_sink'')"

definition validate_package_config ::
  "('o, 'g) registry \<Rightarrow> normalized_config \<Rightarrow> ('o, 'g) validated_config res" where
  "validate_package_config reg config =
     (let context = \<lparr>vx_environment = nc_environment config, vx_enabled_plugins = nc_plugins config\<rparr> in
     r_bind (normalize_artifact_store_settings (map_of (nc_stores config) ''artifact'')) (\<lambda>_.
     r_bind (normalize_checkpoint_store_settings (map_of (nc_stores config) ''checkpoint'')) (\<lambda>_.
     r_bind (build_effective_plugin_set reg (nc_plugins config)) (\<lambda>eff.
     r_bind (validate_tools (nc_tools config) eff context) (\<lambda>_.
     r_bind (each (validate_provider eff context) (nc_providers config)) (\<lambda>_.
     r_bind (each (validate_store eff context) (nc_stores config)) (\<lambda>_.
     r_bind (each (validate_event_sink eff context) (nc_event_sinks config)) (\<lambda>_.
       Inr \<lparr>vc_normalized = config, vc_effective = eff\<rparr>))))))))"

section \<open>Assembly\<close>

record 'o dependencies =
  rd_providers :: "(string \<times> 'o) list"
  rd_tools :: "(string \<times> 'o) list"
  rd_artifact_store :: "'o option"
  rd_checkpoint_store :: "'o option"
  rd_event_sinks :: "(string \<times> 'o) list"

record 'o store_constructors =
  new_memory_artifacts :: "'o res"
  new_filesystem_artifacts :: "string \<Rightarrow> 'o res"
  new_s3_artifacts :: "string \<Rightarrow> string \<Rightarrow> pyval \<Rightarrow> pyval \<Rightarrow> 'o res"
  new_memory_checkpoints :: "'o res"
  new_filesystem_checkpoints :: "string \<Rightarrow> 'o res"
  new_postgres_checkpoints :: "string \<Rightarrow> string \<Rightarrow> 'o res"

fun build_artifact_store :: "'o store_constructors \<Rightarrow> artifact_store_settings \<Rightarrow> 'o res" where
  "build_artifact_store mk Memory_Artifacts = new_memory_artifacts mk"
| "build_artifact_store mk (Filesystem_Artifacts path) = new_filesystem_artifacts mk path"
| "build_artifact_store mk (S3_Artifacts bucket prefix endpoint_url region_name) =
     new_s3_artifacts mk bucket prefix endpoint_url region_name"

fun build_checkpoint_store :: "'o store_constructors \<Rightarrow> checkpoint_store_settings \<Rightarrow> 'o res" where
  "build_checkpoint_store mk Memory_Checkpoints = new_memory_checkpoints mk"
| "build_checkpoint_store mk (Filesystem_Checkpoints path) = new_filesystem_checkpoints mk path"
| "build_checkpoint_store mk (Postgres_Checkpoints dsn table_name) = new_postgres_checkpoints mk dsn table_name"

definition assembly_error :: "string \<Rightarrow> string \<Rightarrow> pydict \<Rightarrow> exn" where
  "assembly_error what code metadata =
     RuntimeAssemblyError (''Runtime assembly failed: '' @ what) code (Some ''runtime_assembly'') None metadata"

text \<open>\<open>EnvSecretResolver.resolve\<close> over an environment.\<close>

definition env_resolve :: "(string \<times> string) list \<Rightarrow> secret_ref \<Rightarrow> string res" where
  "env_resolve environ ref =
     (if sec_source ref \<noteq> ''env''
      then Inl (assembly_error ''unsupported secret source.'' ''RUNTIME_ASSEMBLY_UNSUPPORTED_SECRET_SOURCE''
        [(''secret_source'', PStr (sec_source ref))])
      else case map_of environ (sec_name ref) of
          None \<Rightarrow> Inl (assembly_error (''secret environment variable '' @ quoted (sec_name ref) @ '' is missing.'')
            ''RUNTIME_ASSEMBLY_SECRET_MISSING'' [(''secret_name'', PStr (sec_name ref))])
        | Some s \<Rightarrow> Inr s)"

definition invoke_factory_hook ::
  "('c, 'o) factory_hook \<Rightarrow> 'c \<Rightarrow> factory_context \<Rightarrow> string \<Rightarrow> string \<Rightarrow> pydict \<Rightarrow> string \<Rightarrow> string \<Rightarrow> 'o res" where
  "invoke_factory_hook hook config context what code metadata scope contribution_name =
     (let meta = [(''contribution_scope'', PStr scope), (''contribution_name'', PStr contribution_name)] @ metadata
      in case hook of
           None \<Rightarrow> Inl (assembly_error (scope @ '' factory is not provided.'') ''RUNTIME_ASSEMBLY_FACTORY_MISSING'' meta)
         | Some h \<Rightarrow>
             (case h config context of
                Inl e \<Rightarrow> Inl (if isinstance e RuntimeAssemblyError_cls then e else assembly_error what code meta)
              | Inr None \<Rightarrow> Inl (assembly_error (scope @ '' factory returned no object.'')
                  ''RUNTIME_ASSEMBLY_INVALID_FACTORY_RESULT'' meta)
              | Inr (Some x) \<Rightarrow> Inr x))"

definition missing_contribution_error :: "string \<Rightarrow> string \<Rightarrow> pydict \<Rightarrow> exn" where
  "missing_contribution_error scope contribution_name metadata =
     assembly_error (scope @ '' contribution '' @ quoted contribution_name @ '' is not available.'')
       ''RUNTIME_ASSEMBLY_MISSING_CONTRIBUTION''
       ([(''contribution_scope'', PStr scope), (''contribution_name'', PStr contribution_name)] @ metadata)"

definition assemble_provider ::
  "('o, 'g) effective_plugins \<Rightarrow> factory_context \<Rightarrow> string \<times> provider_profile \<Rightarrow> (string \<times> 'o) res" where
  "assemble_provider eff context entry =
     (let (profile_name, profile) = entry; provider = pp_provider profile;
          meta = [(''provider'', PStr provider), (''profile'', PStr profile_name)]
      in case map_of (eff_providers eff) provider of
           None \<Rightarrow> Inl (missing_contribution_error ''provider'' provider meta)
         | Some c \<Rightarrow> r_bind (invoke_factory_hook (pc_create_client c) profile context
               ''provider could not be initialized.'' ''RUNTIME_ASSEMBLY_PROVIDER_FAILED'' meta ''provider'' provider)
             (\<lambda>x. Inr (profile_name, x)))"

definition assemble_tool ::
  "pyitems \<Rightarrow> ('o, 'g) effective_plugins \<Rightarrow> factory_context \<Rightarrow> string \<Rightarrow> (string \<times> 'o) res" where
  "assemble_tool configs eff context tool_name =
     (let meta = [(''tool_name'', PStr tool_name)]
      in case map_of (eff_tools eff) tool_name of
           None \<Rightarrow> Inl (missing_contribution_error ''tool'' tool_name meta)
         | Some c \<Rightarrow>
             (case tool_config_value configs tool_name of
                PDict d \<Rightarrow> r_bind (invoke_factory_hook (tc_create_tool c) d context
                    ''tool could not be initialized.'' ''RUNTIME_ASSEMBLY_TOOL_FAILED'' meta ''tool'' tool_name)
                  (\<lambda>x. Inr (tool_name, x))
              | _ \<Rightarrow> Inl (assembly_error ''tool config must be a mapping.'' ''RUNTIME_ASSEMBLY_INVALID_CONFIG'' meta)))"

definition initialize_store ::
  "('o, 'g) effective_plugins \<Rightarrow> factory_context \<Rightarrow> string \<times> backend_config \<Rightarrow> unit res" where
  "initialize_store eff context entry =
     (let (store_type, c) = entry; name = store_type @ '':'' @ bc_backend c;
          meta = [(''store_type'', PStr store_type), (''backend'', PStr (bc_backend c))]
      in if store_type \<in> {''artifact'', ''checkpoint''} then Inr ()
         else case map_of (eff_stores eff) (store_type, bc_backend c) of
           None \<Rightarrow> Inl (missing_contribution_error ''store'' name meta)
         | Some s \<Rightarrow> r_bind (invoke_factory_hook (stc_create_store s) c context
               ''store could not be initialized.'' ''RUNTIME_ASSEMBLY_STORE_FAILED'' meta ''store'' name)
             (\<lambda>_. Inr ()))"

definition assemble_event_sink ::
  "('o, 'g) effective_plugins \<Rightarrow> factory_context \<Rightarrow> string \<times> backend_config \<Rightarrow> (string \<times> 'o) res" where
  "assemble_event_sink eff context entry =
     (let (sink_name, c) = entry;
          meta = [(''backend'', PStr (bc_backend c)), (''event_sink'', PStr sink_name)]
      in case map_of (eff_event_sinks eff) (bc_backend c) of
           None \<Rightarrow> Inl (missing_contribution_error ''event_sink'' (bc_backend c) meta)
         | Some s \<Rightarrow> r_bind (invoke_factory_hook (ec_create_sink s) c context
               ''event sink could not be initialized.'' ''RUNTIME_ASSEMBLY_EVENT_SINK_FAILED'' meta
               ''event_sink'' (bc_backend c))
             (\<lambda>x. Inr (sink_name, x)))"

definition assemble_all :: "('a \<Rightarrow> (string \<times> 'o) res) \<Rightarrow> 'a list \<Rightarrow> (string \<times> 'o) list res" where
  "assemble_all f xs = r_bind (r_map_list f xs) (\<lambda>kvs. Inr (dict_of kvs))"

definition config_factory_context :: "(secret_ref \<Rightarrow> string res) \<Rightarrow> normalized_config \<Rightarrow> factory_context" where
  "config_factory_context resolver c =
     \<lparr>fx_environment = nc_environment c, fx_secrets = resolver, fx_limits = nc_limits c,
      fx_observability = nc_observability c, fx_safety = nc_safety c\<rparr>"

definition assemble_runtime_dependencies ::
  "'o store_constructors \<Rightarrow> (secret_ref \<Rightarrow> string res) \<Rightarrow> ('o, 'g) validated_config \<Rightarrow> 'o dependencies res" where
  "assemble_runtime_dependencies mk resolver config =
     (let c = vc_normalized config; eff = vc_effective config; context = config_factory_context resolver c in
     r_bind (r_bind (normalize_artifact_store_settings (map_of (nc_stores c) ''artifact''))
       (build_artifact_store mk)) (\<lambda>artifact_store.
     r_bind (build_checkpoint_store mk (nc_checkpoint_store c)) (\<lambda>checkpoint_store.
     r_bind (assemble_all (assemble_provider eff context) (nc_providers c)) (\<lambda>providers.
     r_bind (assemble_all (assemble_tool (tools_configs (nc_tools c)) eff context)
       (tools_allowlist (nc_tools c))) (\<lambda>tools.
     r_bind (each (initialize_store eff context) (nc_stores c)) (\<lambda>_.
     r_bind (assemble_all (assemble_event_sink eff context) (nc_event_sinks c)) (\<lambda>event_sinks.
       Inr \<lparr>rd_providers = providers, rd_tools = tools, rd_artifact_store = Some artifact_store,
         rd_checkpoint_store = Some checkpoint_store, rd_event_sinks = event_sinks\<rparr>)))))))"

section \<open>Preparation of a workflow\<close>

definition missing_requirement_error :: "string \<Rightarrow> string \<Rightarrow> exn" where
  "missing_requirement_error requirement_type requirement_name =
     RuntimeAssemblyError (''Workflow requirement failed: missing '' @ requirement_type @ '' ''
         @ quoted requirement_name @ ''.'') ''WORKFLOW_REQUIREMENT_MISSING''
       (Some ''workflow_requirements'') None
       [(''requirement_type'', PStr requirement_type), (''requirement_name'', PStr requirement_name),
        (''workflow_stage'', PStr ''requirements'')]"

definition require_names :: "string \<Rightarrow> (string \<times> 'o) list \<Rightarrow> string list \<Rightarrow> unit res" where
  "require_names word available names =
     each (\<lambda>n. r_guard (map_of available n = None) (missing_requirement_error word n)) names"

definition check_workflow_requirements :: "workflow_requirements \<Rightarrow> 'o dependencies \<Rightarrow> unit res" where
  "check_workflow_requirements req deps =
     r_bind (require_names ''provider_profile'' (rd_providers deps) (req_provider_profiles req)) (\<lambda>_.
     r_bind (require_names ''tool'' (rd_tools deps) (req_tools req)) (\<lambda>_.
     r_bind (r_guard (req_artifact_store req \<and> rd_artifact_store deps = None)
       (missing_requirement_error ''artifact_store'' ''artifact'')) (\<lambda>_.
     r_bind (r_guard (req_checkpoint_store req \<and> rd_checkpoint_store deps = None)
       (missing_requirement_error ''checkpoint_store'' ''checkpoint'')) (\<lambda>_.
       require_names ''event_sink'' (rd_event_sinks deps) (req_event_sinks req)))))"

record ('o, 'g) prepared_contribution =
  ppw_kind :: string
  ppw_contribution :: "('o, 'g) workflow_contribution"
  ppw_executable :: 'g

definition preparation_error :: "string \<Rightarrow> string \<Rightarrow> pydict \<Rightarrow> exn" where
  "preparation_error msg code metadata =
     WorkflowPreparationError msg code (Some ''workflow_preparer'') None metadata"

definition validate_workflow_config :: "('o, 'g) workflow_contribution \<Rightarrow> pyitems \<Rightarrow> unit res" where
  "validate_workflow_config c config =
     (case wc_validate_config c of
        None \<Rightarrow> Inr ()
      | Some hook \<Rightarrow>
          (case hook config of
             Inr u \<Rightarrow> Inr ()
           | Inl e \<Rightarrow> Inl (if isinstance e RuntimeAssemblyError_cls then e
               else preparation_error ''Workflow configuration validation failed.'' ''WORKFLOW_CONFIG_INVALID''
                 [(''workflow_kind'', PStr (wc_kind c)), (''workflow_stage'', PStr ''config_validation'')])))"

definition workflow_build_context :: "string \<Rightarrow> pyitems \<Rightarrow> 'o dependencies \<Rightarrow> 'o build_context" where
  "workflow_build_context kind config deps =
     \<lparr>wb_workflow_kind = kind, wb_config = config, wb_providers = rd_providers deps, wb_tools = rd_tools deps,
      wb_artifact_store = rd_artifact_store deps, wb_checkpoint_store = rd_checkpoint_store deps,
      wb_event_sinks = rd_event_sinks deps\<rparr>"

definition prepare_workflow ::
  "('o, 'g) registry \<Rightarrow> string \<Rightarrow> 'o dependencies \<Rightarrow> pyitems \<Rightarrow> ('o, 'g) prepared_contribution res" where
  "prepare_workflow reg kind deps config =
     (case get_workflow reg kind of
        Inl e \<Rightarrow> Inl (PluginResolutionError
          ''Workflow preparation failed because the workflow kind is not registered.''
          ''WORKFLOW_PREPARATION_WORKFLOW_NOT_FOUND'' (Some ''workflow_preparer'') None
          [(''workflow_kind'', PStr kind)])
      | Inr c \<Rightarrow>
          r_bind (validate_workflow_config c config) (\<lambda>_.
          r_bind (check_workflow_requirements (wd_requirements (wc_definition c)) deps) (\<lambda>_.
          (case build_workflow_graph (wd_kind (wc_definition c)) (wd_build (wc_definition c))
               (workflow_build_context kind config deps) of
             Inr g \<Rightarrow> Inr \<lparr>ppw_kind = wc_kind c, ppw_contribution = c, ppw_executable = g\<rparr>
           | Inl e \<Rightarrow> Inl (if isinstance e RuntimeAssemblyError_cls then e
               else preparation_error ''Workflow preparation failed while building the executable.''
                 ''WORKFLOW_PREPARATION_BUILD_FAILED''
                 [(''workflow_kind'', PStr kind), (''workflow_stage'', PStr ''build'')])))))"

section \<open>What validation and assembly guarantee\<close>

lemma r_map_list_keys:
  "r_map_list f xs = Inr kvs \<Longrightarrow> (\<And>x y. f x = Inr y \<Longrightarrow> fst y = g x) \<Longrightarrow> map fst kvs = map g xs"
  by (induction xs arbitrary: kvs) (auto split: sum.splits)

lemma r_map_list_inverse:
  "r_map_list f xs = Inr ys \<Longrightarrow> (\<And>x y. f x = Inr y \<Longrightarrow> g y = x) \<Longrightarrow> map g ys = xs"
  by (induction xs arbitrary: ys) (auto split: sum.splits)

lemma r_map_list_total: "(\<And>x. x \<in> set xs \<Longrightarrow> \<exists>y. f x = Inr y) \<Longrightarrow> \<exists>ys. r_map_list f xs = Inr ys"
  by (induction xs) (fastforce split: sum.splits)+

lemma r_map_list_members: "r_map_list f xs = Inr ys \<Longrightarrow> x \<in> set xs \<Longrightarrow> \<exists>y \<in> set ys. f x = Inr y"
  by (induction xs arbitrary: ys) (auto split: sum.splits)

lemma r_map_list_Inl: "r_map_list f xs = Inl e \<Longrightarrow> \<exists>x \<in> set xs. f x = Inl e"
  by (induction xs) (auto split: sum.splits)

lemma each_Inr: "each f xs = Inr u \<longleftrightarrow> (\<forall>x \<in> set xs. f x = Inr ())"
  by (induction xs) (auto simp: each_def split: sum.splits)

lemma each_Inl: "each f xs = Inl e \<Longrightarrow> \<exists>x \<in> set xs. f x = Inl e"
  by (auto simp: each_def r_bind_eq_Inl dest: r_map_list_Inl)

lemma assemble_all_Inr:
  assumes "assemble_all f xs = Inr d"
  shows "(k, v) \<in> set d \<Longrightarrow> \<exists>x \<in> set xs. f x = Inr (k, v)"
    and "(\<And>x y. f x = Inr y \<Longrightarrow> fst y = g x) \<Longrightarrow> distinct (map g xs) \<Longrightarrow> map fst d = map g xs"
proof -
  obtain kvs where kvs: "r_map_list f xs = Inr kvs" "d = dict_of kvs"
    using assms by (auto simp: assemble_all_def r_bind_eq_Inr)
  show "\<exists>x \<in> set xs. f x = Inr (k, v)" if "(k, v) \<in> set d"
    using r_map_list_Inr_set [OF kvs(1)] that set_dict_of [of kvs] kvs(2) by blast
  show "map fst d = map g xs" if "\<And>x y. f x = Inr y \<Longrightarrow> fst y = g x" "distinct (map g xs)"
    using r_map_list_keys [OF kvs(1) that(1)] that(2) kvs(2) by (simp add: dict_of_id wf_dict_def)
qed

lemma assemble_all_total: "(\<And>x. x \<in> set xs \<Longrightarrow> \<exists>y. f x = Inr y) \<Longrightarrow> \<exists>d. assemble_all f xs = Inr d"
  using r_map_list_total [of xs f] by (auto simp: assemble_all_def)

text \<open>Every name the configuration uses resolves in the effective plugins.\<close>

definition resolves :: "('o, 'g) validated_config \<Rightarrow> bool" where
  "resolves vc \<longleftrightarrow> (let c = vc_normalized vc; eff = vc_effective vc in
     (\<forall>n \<in> set (tools_allowlist (nc_tools c)).
        map_of (eff_tools eff) n \<noteq> None \<and> (\<exists>d. tool_config_value (tools_configs (nc_tools c)) n = PDict d)) \<and>
     (\<forall>(n, p) \<in> set (nc_providers c). map_of (eff_providers eff) (pp_provider p) \<noteq> None) \<and>
     (\<forall>(t, b) \<in> set (nc_stores c). t \<in> {''artifact'', ''checkpoint''} \<or>
        map_of (eff_stores eff) (t, bc_backend b) \<noteq> None) \<and>
     (\<forall>(n, b) \<in> set (nc_event_sinks c). map_of (eff_event_sinks eff) (bc_backend b) \<noteq> None) \<and>
     (\<exists>s. normalize_artifact_store_settings (map_of (nc_stores c) ''artifact'') = Inr s))"

lemma validate_package_config_Inr:
  assumes "validate_package_config reg c = Inr vc"
  shows "vc_normalized vc = c" and "build_effective_plugin_set reg (nc_plugins c) = Inr (vc_effective vc)"
    and "resolves vc"
proof -
  let ?x = "\<lparr>vx_environment = nc_environment c, vx_enabled_plugins = nc_plugins c\<rparr>"
  obtain s eff where v: "normalize_artifact_store_settings (map_of (nc_stores c) ''artifact'') = Inr s"
    "build_effective_plugin_set reg (nc_plugins c) = Inr eff" "validate_tools (nc_tools c) eff ?x = Inr ()"
    "each (validate_provider eff ?x) (nc_providers c) = Inr ()"
    "each (validate_store eff ?x) (nc_stores c) = Inr ()"
    "each (validate_event_sink eff ?x) (nc_event_sinks c) = Inr ()"
    "vc = \<lparr>vc_normalized = c, vc_effective = eff\<rparr>"
    using assms by (auto simp: validate_package_config_def Let_def r_bind_eq_Inr)
  then show "vc_normalized vc = c" "build_effective_plugin_set reg (nc_plugins c) = Inr (vc_effective vc)"
    by simp_all
  have t: "map_of (eff_tools eff) n \<noteq> None \<and> (\<exists>d. tool_config_value (tools_configs (nc_tools c)) n = PDict d)"
    if "n \<in> set (tools_allowlist (nc_tools c))" for n
  proof -
    have "validate_tool (tools_configs (nc_tools c)) eff ?x n = Inr ()"
      using v(3) that by (auto simp: validate_tools_def r_bind_eq_Inr each_Inr)
    then show ?thesis by (auto simp: validate_tool_def split: option.splits pyval.splits)
  qed
  have p: "map_of (eff_providers eff) (pp_provider q) \<noteq> None" if "(n, q) \<in> set (nc_providers c)" for n q
    using bspec [OF v(4) [unfolded each_Inr] that] by (auto simp: validate_provider_def Let_def split: option.splits)
  have s: "t \<in> {''artifact'', ''checkpoint''} \<or> map_of (eff_stores eff) (t, bc_backend b) \<noteq> None"
    if "(t, b) \<in> set (nc_stores c)" for t b
    using bspec [OF v(5) [unfolded each_Inr] that]
    by (auto simp: validate_store_def Let_def split: option.splits if_splits)
  have e: "map_of (eff_event_sinks eff) (bc_backend b) \<noteq> None" if "(n, b) \<in> set (nc_event_sinks c)" for n b
    using bspec [OF v(6) [unfolded each_Inr] that] by (auto simp: validate_event_sink_def Let_def split: option.splits)
  show "resolves vc"
    unfolding resolves_def v(7) Let_def validated_config.simps using t p s e v(1) by blast
qed

lemma get_registered_plugin_Inr: "get_registered_plugin reg n = Inr p \<longleftrightarrow> get_plugin reg n = Inr p"
  by (auto simp: get_registered_plugin_def split: sum.splits exn.splits)

lemma build_effective_Inr:
  assumes "build_effective_plugin_set reg enabled = Inr eff"
  shows "r_map_list (get_registered_plugin reg) enabled = Inr (eff_plugins eff)"
    and "eff_tools eff = set_all tc_name (concat (map pl_tools (eff_plugins eff))) []"
    and "p \<in> set (eff_plugins eff) \<Longrightarrow> \<exists>n \<in> set enabled. get_plugin reg n = Inr p"
    and "registry_inv reg \<Longrightarrow> map pl_name (eff_plugins eff) = enabled"
proof -
  show r: "r_map_list (get_registered_plugin reg) enabled = Inr (eff_plugins eff)"
    and "eff_tools eff = set_all tc_name (concat (map pl_tools (eff_plugins eff))) []"
    using assms by (auto simp: build_effective_plugin_set_def r_bind_eq_Inr)
  show "\<exists>n \<in> set enabled. get_plugin reg n = Inr p" if "p \<in> set (eff_plugins eff)"
    using r_map_list_Inr_set [OF r that] by (simp add: get_registered_plugin_Inr)
  show "map pl_name (eff_plugins eff) = enabled" if "registry_inv reg"
    using r_map_list_inverse [OF r] get_plugin_iff [OF that] by (simp add: get_registered_plugin_Inr)
qed

lemma set_all_keyed:
  assumes "\<And>c c'. c \<in> set cs \<Longrightarrow> c' \<in> set cs \<Longrightarrow> key c = key c' \<Longrightarrow> c = c'"
  shows "map_of (set_all key cs []) k = Some c \<longleftrightarrow> c \<in> set cs \<and> key c = k"
  using assms
proof (induction cs rule: rev_induct)
  case (snoc a cs)
  have "set_all key (cs @ [a]) [] = dict_set (key a) a (set_all key cs [])" by (simp add: set_all_def)
  moreover have "map_of (set_all key cs []) k = Some c \<longleftrightarrow> c \<in> set cs \<and> key c = k"
    by (rule snoc.IH) (use snoc.prems in auto)
  moreover have u: "c = a" if "c \<in> set cs" "key c = k" "key a = k"
    using snoc.prems [of c a] that by simp
  ultimately have "map_of (set_all key (cs @ [a]) []) k = Some c \<longleftrightarrow>
      (if k = key a then a = c else c \<in> set cs \<and> key c = k)"
    by (simp only: map_of_dict_set_iff option.inject split: if_split) blast
  also have "\<dots> \<longleftrightarrow> c \<in> set (cs @ [a]) \<and> key c = k" using u by auto
  finally show ?case .
qed (simp add: set_all_def)

lemma effective_tool:
  assumes "registry_inv reg" and "build_effective_plugin_set reg enabled = Inr eff"
  shows "map_of (eff_tools eff) n = Some t \<longleftrightarrow>
    (\<exists>p. pl_name p \<in> set enabled \<and> get_plugin reg (pl_name p) = Inr p \<and> t \<in> set (pl_tools p) \<and> tc_name t = n)"
proof -
  note b = build_effective_Inr [OF assms(2)]
  have mem: "p \<in> set (eff_plugins eff) \<longleftrightarrow> pl_name p \<in> set enabled \<and> get_plugin reg (pl_name p) = Inr p" for p
  proof
    assume "p \<in> set (eff_plugins eff)"
    then show "pl_name p \<in> set enabled \<and> get_plugin reg (pl_name p) = Inr p"
      using b(3) get_plugin_iff [OF assms(1)] by metis
  next
    assume p: "pl_name p \<in> set enabled \<and> get_plugin reg (pl_name p) = Inr p"
    then obtain q where "q \<in> set (eff_plugins eff)" "pl_name q = pl_name p"
      using b(4) [OF assms(1)] by (metis image_iff set_map)
    then show "p \<in> set (eff_plugins eff)" using p b(3) get_plugin_iff [OF assms(1)] by (metis Inr_inject)
  qed
  have u: "c = c'" if "c \<in> set (concat (map pl_tools (eff_plugins eff)))"
    "c' \<in> set (concat (map pl_tools (eff_plugins eff)))" "tc_name c = tc_name c'" for c c'
  proof -
    have "get_tool reg (tc_name c) = Inr c" "get_tool reg (tc_name c) = Inr c'"
      using that mem get_plugin_iff [OF assms(1)] unfolding get_tool_iff [OF assms(1)] by auto
    then show ?thesis by simp
  qed
  have "map_of (eff_tools eff) n = Some t \<longleftrightarrow>
      t \<in> set (concat (map pl_tools (eff_plugins eff))) \<and> tc_name t = n"
    unfolding b(2) by (rule set_all_keyed) (erule (2) u)
  then show ?thesis using mem by auto
qed

lemma assemble_runtime_Inr:
  assumes "assemble_runtime_dependencies mk resolver vc = Inr deps"
  shows "assemble_all (assemble_tool (tools_configs (nc_tools (vc_normalized vc))) (vc_effective vc)
        (config_factory_context resolver (vc_normalized vc))) (tools_allowlist (nc_tools (vc_normalized vc)))
      = Inr (rd_tools deps)"
    and "assemble_all (assemble_provider (vc_effective vc) (config_factory_context resolver (vc_normalized vc)))
        (nc_providers (vc_normalized vc)) = Inr (rd_providers deps)"
    and "rd_artifact_store deps \<noteq> None" and "rd_checkpoint_store deps \<noteq> None"
  using assms by (auto simp: assemble_runtime_dependencies_def Let_def r_bind_eq_Inr)

lemma assemble_tool_Inr:
  "assemble_tool configs eff context n = Inr (k, x) \<longleftrightarrow> k = n \<and>
     (\<exists>c d h. map_of (eff_tools eff) n = Some c \<and> tool_config_value configs n = PDict d \<and>
        tc_create_tool c = Some h \<and> h d context = Inr (Some x))"
  by (auto simp: assemble_tool_def invoke_factory_hook_def Let_def r_bind_eq_Inr
      split: option.splits pyval.splits sum.splits)

lemma assemble_tool_key: "assemble_tool configs eff context n = Inr y \<Longrightarrow> fst y = n"
  by (cases y) (simp add: assemble_tool_Inr)

lemma assembled_tool_names:
  assumes "assemble_runtime_dependencies mk resolver vc = Inr deps"
    and "distinct (tools_allowlist (nc_tools (vc_normalized vc)))"
  shows "map fst (rd_tools deps) = tools_allowlist (nc_tools (vc_normalized vc))"
proof -
  have "map fst (rd_tools deps) = map (\<lambda>n. n) (tools_allowlist (nc_tools (vc_normalized vc)))"
    by (rule assemble_all_Inr(2) [OF assemble_runtime_Inr(1) [OF assms(1)]])
      (use assms(2) assemble_tool_key in auto)
  then show ?thesis by simp
qed

text \<open>Where every factory is there and succeeds, a configuration that resolves is assembled.\<close>

definition factory_works :: "('c, 'o) factory_hook \<Rightarrow> bool" where
  "factory_works hook \<longleftrightarrow> (case hook of None \<Rightarrow> False | Some h \<Rightarrow> \<forall>c x. \<exists>y. h c x = Inr (Some y))"

definition factories_work :: "('o, 'g) effective_plugins \<Rightarrow> bool" where
  "factories_work eff \<longleftrightarrow>
     (\<forall>(n, c) \<in> set (eff_tools eff). factory_works (tc_create_tool c)) \<and>
     (\<forall>(n, c) \<in> set (eff_providers eff). factory_works (pc_create_client c)) \<and>
     (\<forall>(n, c) \<in> set (eff_stores eff). factory_works (stc_create_store c)) \<and>
     (\<forall>(n, c) \<in> set (eff_event_sinks eff). factory_works (ec_create_sink c))"

definition constructors_work :: "'o store_constructors \<Rightarrow> bool" where
  "constructors_work mk \<longleftrightarrow>
     (\<forall>s. \<exists>x. build_artifact_store mk s = Inr x) \<and> (\<forall>s. \<exists>x. build_checkpoint_store mk s = Inr x)"

lemma invoke_factory_works:
  "factory_works hook \<Longrightarrow> \<exists>h y. hook = Some h \<and> h c x = Inr (Some y)"
  by (auto simp: factory_works_def split: option.splits)

lemma assembly_total:
  assumes "resolves vc" and "factories_work (vc_effective vc)" and "constructors_work mk"
  shows "\<exists>deps. assemble_runtime_dependencies mk resolver vc = Inr deps"
proof -
  let ?c = "vc_normalized vc" and ?eff = "vc_effective vc"
  let ?x = "config_factory_context resolver ?c"
  obtain s where s: "normalize_artifact_store_settings (map_of (nc_stores ?c) ''artifact'') = Inr s"
    using assms(1) by (auto simp: resolves_def Let_def)
  have t: "\<exists>y. assemble_tool (tools_configs (nc_tools ?c)) ?eff ?x n = Inr y"
    if n: "n \<in> set (tools_allowlist (nc_tools ?c))" for n
  proof -
    obtain c d where c: "map_of (eff_tools ?eff) n = Some c" "tool_config_value (tools_configs (nc_tools ?c)) n = PDict d"
      using assms(1) n by (auto simp: resolves_def Let_def)
    have "factory_works (tc_create_tool c)"
      using assms(2) map_of_SomeD [OF c(1)] by (auto simp: factories_work_def)
    then show ?thesis
      using invoke_factory_works [of "tc_create_tool c" d ?x] c
        by (auto simp: assemble_tool_def invoke_factory_hook_def Let_def)
  qed
  have p: "\<exists>y. assemble_provider ?eff ?x e = Inr y" if e: "e \<in> set (nc_providers ?c)" for e
  proof -
    obtain n q where q: "e = (n, q)" by force
    obtain c where c: "map_of (eff_providers ?eff) (pp_provider q) = Some c"
      using assms(1) e q by (fastforce simp: resolves_def Let_def)
    have "factory_works (pc_create_client c)"
      using assms(2) map_of_SomeD [OF c] by (auto simp: factories_work_def)
    then show ?thesis
      using invoke_factory_works [of "pc_create_client c" q ?x] c q
        by (auto simp: assemble_provider_def invoke_factory_hook_def Let_def)
  qed
  have i: "initialize_store ?eff ?x e = Inr ()" if e: "e \<in> set (nc_stores ?c)" for e
  proof -
    obtain n b where b: "e = (n, b)" by force
    show ?thesis
    proof (cases "n \<in> {''artifact'', ''checkpoint''}")
      case False
      then obtain c where c: "map_of (eff_stores ?eff) (n, bc_backend b) = Some c"
        using assms(1) e b by (fastforce simp: resolves_def Let_def)
      have "factory_works (stc_create_store c)"
        using assms(2) map_of_SomeD [OF c] by (auto simp: factories_work_def)
      then show ?thesis
        using invoke_factory_works [of "stc_create_store c" b ?x] c b False
        by (auto simp: initialize_store_def invoke_factory_hook_def Let_def)
    qed (simp add: initialize_store_def b)
  qed
  have k: "\<exists>y. assemble_event_sink ?eff ?x e = Inr y" if e: "e \<in> set (nc_event_sinks ?c)" for e
  proof -
    obtain n b where b: "e = (n, b)" by force
    obtain c where c: "map_of (eff_event_sinks ?eff) (bc_backend b) = Some c"
      using assms(1) e b by (fastforce simp: resolves_def Let_def)
    have "factory_works (ec_create_sink c)"
      using assms(2) map_of_SomeD [OF c] by (auto simp: factories_work_def)
    then show ?thesis
      using invoke_factory_works [of "ec_create_sink c" b ?x] c b
        by (auto simp: assemble_event_sink_def invoke_factory_hook_def Let_def)
  qed
  obtain a b where stores: "build_artifact_store mk s = Inr a"
    "build_checkpoint_store mk (nc_checkpoint_store ?c) = Inr b"
    using assms(3) unfolding constructors_work_def by blast
  obtain ps ts es where "assemble_all (assemble_provider ?eff ?x) (nc_providers ?c) = Inr ps"
    "assemble_all (assemble_tool (tools_configs (nc_tools ?c)) ?eff ?x) (tools_allowlist (nc_tools ?c)) = Inr ts"
    "assemble_all (assemble_event_sink ?eff ?x) (nc_event_sinks ?c) = Inr es"
    using assemble_all_total p t k by metis
  moreover have "each (initialize_store ?eff ?x) (nc_stores ?c) = Inr ()" using i by (simp add: each_Inr)
  ultimately show ?thesis using s stores by (simp add: assemble_runtime_dependencies_def Let_def)
qed

lemma prepare_workflow_Inr:
  assumes "prepare_workflow reg kind deps config = Inr w"
  shows "get_workflow reg kind = Inr (ppw_contribution w)"
    and "check_workflow_requirements (wd_requirements (wc_definition (ppw_contribution w))) deps = Inr ()"
  using assms by (auto simp: prepare_workflow_def r_bind_eq_Inr split: sum.splits)

lemma check_requirements_iff:
  "check_workflow_requirements req deps = Inr () \<longleftrightarrow>
     set (req_provider_profiles req) \<subseteq> fst ` set (rd_providers deps) \<and>
     set (req_tools req) \<subseteq> fst ` set (rd_tools deps) \<and>
     set (req_event_sinks req) \<subseteq> fst ` set (rd_event_sinks deps) \<and>
     (req_artifact_store req \<longrightarrow> rd_artifact_store deps \<noteq> None) \<and>
     (req_checkpoint_store req \<longrightarrow> rd_checkpoint_store deps \<noteq> None)"
proof -
  have "require_names word d names = Inr () \<longleftrightarrow> set names \<subseteq> fst ` set d" for word d names
    by (auto simp: require_names_def each_Inr r_guard_eq_Inr map_of_eq_None_iff)
  then show ?thesis
    by (auto simp: check_workflow_requirements_def r_bind_eq_Inr r_guard_eq_Inr)
qed

end
