(* ===== verification/Native_Schema.thy ===== *)
theory Native_Schema
  imports Errors "HOL-Library.List_Lexorder" "HOL-Library.Char_ord"
begin

text \<open>
  Schema inference and validation of Native workflows (src/src/cobalt_wren/native/schema.py): the
  schema inferred from an annotation, the issues a value has against a schema, and
  \<open>validate_schema_value\<close>. A schema is a dictionary value. An annotation is what the inspection
  functions of \<open>typing\<close>, \<open>dataclasses\<close> and \<open>enum\<close> say of it; recursive types are left out, the
  code not returning on them.
\<close>

section \<open>Validation\<close>

abbreviation schema_get :: "string \<Rightarrow> pyitems \<Rightarrow> pyval option" where
  "schema_get s schema \<equiv> map_of schema (AStr s)"

definition matches_type :: "pyval \<Rightarrow> string \<Rightarrow> bool" where
  "matches_type v expected =
     (if expected = ''object'' then (case v of PDict _ \<Rightarrow> True | _ \<Rightarrow> False)
      else if expected = ''array'' then (case v of PList _ \<Rightarrow> True | PTuple _ \<Rightarrow> True | _ \<Rightarrow> False)
      else if expected = ''string'' then (case v of PStr _ \<Rightarrow> True | _ \<Rightarrow> False)
      else if expected = ''integer'' then (case v of PInt _ \<Rightarrow> True | _ \<Rightarrow> False)
      else if expected = ''number'' then (case v of PInt _ \<Rightarrow> True | PFloat _ \<Rightarrow> True | _ \<Rightarrow> False)
      else if expected = ''boolean'' then (case v of PBool _ \<Rightarrow> True | _ \<Rightarrow> False)
      else if expected = ''null'' then v = PNone
      else True)"

text \<open>A key of the schema, where it holds a value of the type the code tests for.\<close>

definition schema_list :: "string \<Rightarrow> pyitems \<Rightarrow> pyval list option" where
  "schema_list s schema = (case schema_get s schema of Some (PList xs) \<Rightarrow> Some xs | _ \<Rightarrow> None)"

definition schema_dict :: "string \<Rightarrow> pyitems \<Rightarrow> pyitems option" where
  "schema_dict s schema = (case schema_get s schema of Some (PDict d) \<Rightarrow> Some d | _ \<Rightarrow> None)"

definition is_known :: "pyitems \<Rightarrow> atom \<Rightarrow> bool" where
  "is_known schema k =
     (case schema_dict ''properties'' schema of Some ps \<Rightarrow> map_of ps k \<noteq> None | None \<Rightarrow> False)"

definition required_issues :: "pyitems \<Rightarrow> pyitems \<Rightarrow> string \<Rightarrow> string list" where
  "required_issues d schema path =
     (case schema_list ''required'' schema of
        Some ks \<Rightarrow>
          concat (map (\<lambda>k. case k of
              PStr s \<Rightarrow> if map_of d (AStr s) = None then [path @ ''.'' @ s @ '': field is required''] else []
            | _ \<Rightarrow> []) ks)
      | None \<Rightarrow> [])"

text \<open>The object and the array a value is, where it is one.\<close>

fun as_object :: "pyval \<Rightarrow> pyitems option" where
  "as_object (PDict d) = Some d"
| "as_object _ = None"

fun as_array :: "pyval \<Rightarrow> pyval list option" where
  "as_array (PList xs) = Some xs"
| "as_array (PTuple xs) = Some xs"
| "as_array _ = None"

lemma size_map_of: "map_of d k = Some v \<Longrightarrow> size v < size (PDict d)"
proof -
  assume "map_of d k = Some v"
  then have "(k, v) \<in> set d" by (rule map_of_SomeD)
  then show ?thesis by (induction d) auto
qed

lemma size_in_items: "(k, v) \<in> set d \<Longrightarrow> size v < size (PDict d)"
  by (induction d) auto

lemma size_in_list: "x \<in> set xs \<Longrightarrow> size x < size (PList xs)"
  by (induction xs) auto

lemma schema_list_size: "schema_list s schema = Some xs \<Longrightarrow> x \<in> set xs \<Longrightarrow> size x < size (PDict schema)"
  using size_map_of [of schema "AStr s"] size_in_list [of x xs]
  by (fastforce simp: schema_list_def split: option.splits pyval.splits)

lemma schema_dict_size: "schema_dict s schema = Some d \<Longrightarrow> size (PDict d) < size (PDict schema)"
  using size_map_of [of schema "AStr s"]
  by (force simp: schema_dict_def split: option.splits pyval.splits)

lemma schema_property_size:
  "schema_dict s schema = Some d \<Longrightarrow> (k, v) \<in> set d \<Longrightarrow> size v < size (PDict schema)"
  using schema_dict_size [of s schema d] size_in_items [of k v d] by linarith

definition enum_mismatch :: "pyval \<Rightarrow> pyitems \<Rightarrow> pyval list option" where
  "enum_mismatch v schema =
     (case schema_list ''enum'' schema of
        Some xs \<Rightarrow> if list_ex (val_eq v) xs then None else Some xs
      | None \<Rightarrow> None)"

definition type_mismatch :: "pyval \<Rightarrow> pyitems \<Rightarrow> string option" where
  "type_mismatch v schema =
     (case schema_get ''type'' schema of
        Some (PStr t) \<Rightarrow> if matches_type v t then None else Some t
      | _ \<Rightarrow> None)"

definition expects :: "string \<Rightarrow> pyitems \<Rightarrow> bool" where
  "expects t schema = (schema_get ''type'' schema = Some (PStr t))"

function collect_schema_issues :: "pyval \<Rightarrow> pyitems \<Rightarrow> string \<Rightarrow> string list" where
  "collect_schema_issues v schema path =
     (case schema_list ''anyOf'' schema of
        Some options \<Rightarrow>
          if list_ex (\<lambda>x. case x of PDict s \<Rightarrow> collect_schema_issues v s path = [] | _ \<Rightarrow> False) options
          then [] else [path @ '': value does not match any allowed schema'']
      | None \<Rightarrow>
     (case enum_mismatch v schema of
        Some xs \<Rightarrow> [path @ '': expected one of '' @ val_repr (PList xs)]
      | None \<Rightarrow>
     (case type_mismatch v schema of
        Some t \<Rightarrow> [path @ '': expected '' @ t @ '', got '' @ py_type_name v]
      | None \<Rightarrow>
     (case as_object v of
        Some d \<Rightarrow>
          if expects ''object'' schema
          then required_issues d schema path
            @ (case schema_dict ''properties'' schema of
                 Some ps \<Rightarrow>
                   concat (map (\<lambda>(k, s). case (map_of d k, k, s) of
                       (Some w, AStr n, PDict t) \<Rightarrow> collect_schema_issues w t (path @ ''.'' @ n)
                     | _ \<Rightarrow> []) ps)
               | None \<Rightarrow> [])
            @ (case schema_dict ''additionalProperties'' schema of
                 Some t \<Rightarrow>
                   concat (map (\<lambda>(k, w). if is_known schema k then []
                     else collect_schema_issues w t (path @ ''.'' @ atom_text k)) d)
               | None \<Rightarrow> [])
          else []
      | None \<Rightarrow> [])
     @
     (case as_array v of
        Some xs \<Rightarrow>
          if expects ''array'' schema
          then (case schema_dict ''items'' schema of
                 Some t \<Rightarrow>
                   concat (map (\<lambda>(i, w). collect_schema_issues w t (path @ ''['' @ nat_text i @ '']''))
                     (enumerate 0 xs))
               | None \<Rightarrow> [])
          else []
      | None \<Rightarrow> []))))"
  by pat_completeness auto
termination
  by (relation "measure (\<lambda>(v, schema, path). size (PDict schema))")
    (auto simp del: pyval.size dest: schema_list_size schema_dict_size schema_property_size)

definition issues_for :: "pyval \<Rightarrow> pyval \<Rightarrow> string \<Rightarrow> string list" where
  "issues_for v schema path = (case schema of PDict s \<Rightarrow> collect_schema_issues v s path | _ \<Rightarrow> [])"

definition NativeSchemaValidationError :: "string list \<Rightarrow> string \<Rightarrow> exn" where
  "NativeSchemaValidationError issues phase = PlainExn NativeSchemaValidationError_cls
     (''Native '' @ phase @ '' validation failed: '' @ join_with ''; '' issues)"

definition validate_schema_value :: "pyval \<Rightarrow> pyval \<Rightarrow> string \<Rightarrow> string \<Rightarrow> unit res" where
  "validate_schema_value v schema phase path =
     (case schema of
        PDict s \<Rightarrow>
          (let issues = collect_schema_issues v s path in
           if issues \<noteq> [] then Inl (NativeSchemaValidationError issues phase) else Inr ())
      | _ \<Rightarrow> Inr ())"

declare collect_schema_issues.simps [simp del]

section \<open>Inference\<close>

text \<open>
  An annotation as \<open>schema_for_type\<close> looks at it: one of \<open>empty\<close>, \<open>Any\<close>, \<open>object\<close>, \<open>None\<close>; a
  class with \<open>model_json_schema\<close> and the dictionary it returns, if it returns one; a \<open>TypedDict\<close>
  with its hints and required keys; a dataclass with, for each field, its hint and whether it has a
  default; a \<open>Literal\<close>; a union; a generic list, tuple or set with its arguments; a generic
  dictionary with its arguments; an \<open>Enum\<close> with its values; the four primitives; anything else,
  the class of \<open>None\<close>, bare \<open>list\<close> and \<open>Ellipsis\<close> among them.
\<close>

datatype sequence_origin = List_Origin | Tuple_Origin | Set_Origin | Frozenset_Origin

datatype annotation =
    Ann_Any
  | Ann_Model "pyitems option"
  | Ann_TypedDict "(string \<times> annotation) list" "string list"
  | Ann_Dataclass "(string \<times> annotation \<times> bool) list"
  | Ann_Literal "atom list"
  | Ann_Union "annotation list"
  | Ann_Sequence sequence_origin "annotation list"
  | Ann_Dict "annotation list"
  | Ann_Enum "pyval list"
  | Ann_Str | Ann_Int | Ann_Float | Ann_Bool
  | Ann_Other string



definition or_empty :: "pyitems option \<Rightarrow> pyval" where
  "or_empty r = PDict (case r of None \<Rightarrow> [] | Some d \<Rightarrow> d)"

definition is_str :: "atom \<Rightarrow> bool" where
  "is_str a = (case a of AStr _ \<Rightarrow> True | _ \<Rightarrow> False)"

definition dict_item :: "string \<Rightarrow> pyitems option \<Rightarrow> pyitems" where
  "dict_item s r = (case r of None \<Rightarrow> [] | Some d \<Rightarrow> [(AStr s, PDict d)])"

definition object_schema :: "pyitems \<Rightarrow> string list \<Rightarrow> pyitems" where
  "object_schema properties required =
     [(AStr ''type'', PStr ''object''), (AStr ''properties'', PDict (dict_of properties))]
     @ (if required = [] then [] else [(AStr ''required'', PList (map PStr required))])"

function schema_for_type :: "annotation \<Rightarrow> pyitems option" where
  "schema_for_type Ann_Any = None"
| "schema_for_type (Ann_Model m) = m"
| "schema_for_type (Ann_TypedDict hints required_keys) =
     Some (object_schema (map (\<lambda>(n, a). (AStr n, or_empty (schema_for_type a))) hints)
       (sort required_keys))"
| "schema_for_type (Ann_Dataclass members) =
     Some (object_schema (map (\<lambda>(n, a, d). (AStr n, or_empty (schema_for_type a))) members)
       (map fst (filter (\<lambda>(n, a, has_default). \<not> has_default) members)))"
| "schema_for_type (Ann_Literal xs) =
     Some ([(AStr ''enum'', PList (map Atom xs))]
       @ (if xs \<noteq> [] \<and> list_all is_str xs then [(AStr ''type'', PStr ''string'')] else []))"
| "schema_for_type (Ann_Union options) =
     Some [(AStr ''anyOf'', PList (map (\<lambda>a. or_empty (schema_for_type a)) options))]"
| "schema_for_type (Ann_Sequence origin args) =
     Some ((AStr ''type'', PStr ''array'')
       # (case args of [] \<Rightarrow> [] | a # _ \<Rightarrow> dict_item ''items'' (schema_for_type a)))"
| "schema_for_type (Ann_Dict args) =
     Some ((AStr ''type'', PStr ''object'')
       # (case args of _ # a # _ \<Rightarrow> dict_item ''additionalProperties'' (schema_for_type a) | _ \<Rightarrow> []))"
| "schema_for_type (Ann_Enum xs) = Some [(AStr ''enum'', PList xs)]"
| "schema_for_type Ann_Str = Some [(AStr ''type'', PStr ''string'')]"
| "schema_for_type Ann_Int = Some [(AStr ''type'', PStr ''integer'')]"
| "schema_for_type Ann_Float = Some [(AStr ''type'', PStr ''number'')]"
| "schema_for_type Ann_Bool = Some [(AStr ''type'', PStr ''boolean'')]"
| "schema_for_type (Ann_Other _) = None"
  by pat_completeness auto
termination
proof (relation "measure size", goal_cases)
  case (2 hints required_keys p n a) then show ?case by (induction hints) auto
next
  case (3 members p n q a d) then show ?case by (induction members) auto
next
  case (4 options a) then show ?case by (induction options) auto
qed auto

text \<open>
  \<open>infer_workflow_schemas\<close>: what the inspection of the function gives, or that it cannot be
  inspected, and the schemas of the second parameter and of the result. A hint replaces the
  annotation it resolves.
\<close>

record signature =
  sig_parameters :: "(string \<times> annotation) list"
  sig_return :: annotation
  sig_hints :: "(string \<times> annotation) list"

definition infer_workflow_schemas :: "signature option \<Rightarrow> pyitems option \<times> pyitems option" where
  "infer_workflow_schemas f =
     (case f of
        None \<Rightarrow> (None, None)
      | Some g \<Rightarrow>
          (let request = (case sig_parameters g of
                 _ # (n, a) # _ \<Rightarrow> (case map_of (sig_hints g) n of Some h \<Rightarrow> h | None \<Rightarrow> a)
               | _ \<Rightarrow> Ann_Any);
             result = (case map_of (sig_hints g) ''return'' of Some h \<Rightarrow> h | None \<Rightarrow> sig_return g)
           in (schema_for_type request, schema_for_type result)))"

section \<open>The inferred schema accepts the values of the annotated shape\<close>

lemma schema_selectors [simp]:
  "schema_list s [] = None"
  "schema_dict s [] = None"
  "schema_list s ((k, v) # d) = (if k = AStr s then (case v of PList xs \<Rightarrow> Some xs | _ \<Rightarrow> None) else schema_list s d)"
  "schema_dict s ((k, v) # d) = (if k = AStr s then (case v of PDict e \<Rightarrow> Some e | _ \<Rightarrow> None) else schema_dict s d)"
  by (simp_all add: schema_list_def schema_dict_def)

lemma expects_simps [simp]:
  "expects t [] = False"
  "expects t ((k, v) # d) = (if k = AStr ''type'' then v = PStr t else expects t d)"
  by (simp_all add: expects_def)

lemma collect_anything: "collect_schema_issues v [] path = []"
  by (simp add: collect_schema_issues.simps [of v "[]"] enum_mismatch_def type_mismatch_def split: option.splits)

lemma collect_primitive:
  "collect_schema_issues v [(AStr ''type'', PStr t)] path = [] \<longleftrightarrow> matches_type v t"
  by (subst collect_schema_issues.simps)
    (simp add: enum_mismatch_def type_mismatch_def required_issues_def split: option.splits)

lemma collect_enum:
  "collect_schema_issues v [(AStr ''enum'', PList xs)] path = [] \<longleftrightarrow> list_ex (val_eq v) xs"
  by (subst collect_schema_issues.simps)
    (simp add: enum_mismatch_def type_mismatch_def required_issues_def split: option.splits)

lemma collect_enum_string:
  "collect_schema_issues v [(AStr ''enum'', PList xs), (AStr ''type'', PStr ''string'')] path = []
     \<longleftrightarrow> list_ex (val_eq v) xs \<and> matches_type v ''string''"
  by (subst collect_schema_issues.simps)
    (auto simp: enum_mismatch_def type_mismatch_def required_issues_def split: option.splits)

lemma collect_union:
  "collect_schema_issues v [(AStr ''anyOf'', PList options)] path = []
     \<longleftrightarrow> list_ex (\<lambda>x. case x of PDict s \<Rightarrow> collect_schema_issues v s path = [] | _ \<Rightarrow> False) options"
  by (subst collect_schema_issues.simps) simp

lemma matches_array: "matches_type v ''array'' \<longleftrightarrow> as_array v \<noteq> None"
  by (cases v) (auto simp: matches_type_def)

lemma matches_object: "matches_type v ''object'' \<longleftrightarrow> as_object v \<noteq> None"
  by (cases v) (auto simp: matches_type_def)

lemma object_not_array: "as_object v = Some d \<Longrightarrow> as_array v = None"
  by (cases v) auto

lemma concat_map_Nil: "concat (map f xs) = [] \<longleftrightarrow> (\<forall>x \<in> set xs. f x = [])"
  by auto

lemma collect_array:
  "collect_schema_issues v ((AStr ''type'', PStr ''array'') # dict_item ''items'' r) path = []
     \<longleftrightarrow> (\<exists>xs. as_array v = Some xs \<and>
          (\<forall>(i, w) \<in> set (enumerate 0 xs).
             issues_for w (or_empty r) (path @ ''['' @ nat_text i @ '']'') = []))"
  by (subst collect_schema_issues.simps)
    (cases r; cases "as_array v"; cases "as_object v";
      auto simp: enum_mismatch_def type_mismatch_def matches_array dict_item_def or_empty_def
        issues_for_def concat_map_Nil collect_anything)

lemma collect_dict:
  "collect_schema_issues v ((AStr ''type'', PStr ''object'') # dict_item ''additionalProperties'' r) path = []
     \<longleftrightarrow> (\<exists>d. as_object v = Some d \<and>
          (\<forall>(k, w) \<in> set d. issues_for w (or_empty r) (path @ ''.'' @ atom_text k) = []))"
  by (subst collect_schema_issues.simps)
    (cases r; cases "as_array v"; cases "as_object v";
      auto simp: enum_mismatch_def type_mismatch_def matches_object dict_item_def or_empty_def is_known_def
        issues_for_def concat_map_Nil collect_anything required_issues_def dest: object_not_array)

lemma required_issues_Nil:
  assumes "schema_list ''required'' schema = Some (map PStr ks)"
  shows "required_issues d schema path = [] \<longleftrightarrow> (\<forall>s \<in> set ks. map_of d (AStr s) \<noteq> None)"
  unfolding required_issues_def assms option.case by (induction ks) auto

lemma collect_object:
  assumes "wf_dict properties"
  shows "collect_schema_issues v (object_schema properties ks) path = []
     \<longleftrightarrow> (\<exists>d. as_object v = Some d \<and> (\<forall>s \<in> set ks. map_of d (AStr s) \<noteq> None) \<and>
          (\<forall>(k, s) \<in> set properties. case (map_of d k, k, s) of
             (Some w, AStr n, PDict t) \<Rightarrow> collect_schema_issues w t (path @ ''.'' @ n) = []
           | _ \<Rightarrow> True))"
proof -
  have r: "required_issues d (object_schema properties ks) path = []
      \<longleftrightarrow> (\<forall>s \<in> set ks. map_of d (AStr s) \<noteq> None)" for d
  proof (cases "ks = []")
    case True
    then show ?thesis by (simp add: object_schema_def required_issues_def)
  next
    case False
    then have "schema_list ''required'' (object_schema properties ks) = Some (map PStr ks)"
      by (simp add: object_schema_def)
    then show ?thesis by (rule required_issues_Nil)
  qed
  have p: "schema_dict ''properties'' (object_schema properties ks) = Some properties"
    "schema_dict ''additionalProperties'' (object_schema properties ks) = None"
    "schema_list ''anyOf'' (object_schema properties ks) = None"
    "expects ''object'' (object_schema properties ks)"
    "\<not> expects ''array'' (object_schema properties ks)"
    "enum_mismatch v (object_schema properties ks) = None"
    "type_mismatch v (object_schema properties ks) = (if as_object v = None then Some ''object'' else None)"
    using assms
    by (simp_all add: object_schema_def enum_mismatch_def type_mismatch_def dict_of_id matches_object)
  have q: "concat (map (\<lambda>(k, s). case (map_of d k, k, s) of
             (Some w, AStr n, PDict t) \<Rightarrow> collect_schema_issues w t (path @ ''.'' @ n) | _ \<Rightarrow> []) ps) = []
      \<longleftrightarrow> (\<forall>(k, s) \<in> set ps. case (map_of d k, k, s) of
             (Some w, AStr n, PDict t) \<Rightarrow> collect_schema_issues w t (path @ ''.'' @ n) = []
           | _ \<Rightarrow> True)" for d ps
  proof (induction ps)
    case (Cons p ps)
    then show ?case by (cases p) (simp split: option.splits atom.splits pyval.splits)
  qed simp
  show ?thesis
    by (subst collect_schema_issues.simps)
      (cases "as_object v"; simp only: p r q object_not_array option.case append_is_Nil_conv if_True
        if_False option.simps simp_thms ex_simps; simp)
qed

text \<open>
  The annotations whose shape the schema language can express: names and fields once, lists and
  dictionaries with their arguments; and what a value of each is, as JSON data: numbers are not
  booleans, a list may be a tuple, and an object may have fields the annotation does not name.
\<close>

fun regular :: "annotation \<Rightarrow> bool" where
  "regular Ann_Any = True"
| "regular (Ann_TypedDict hints ks) =
     (distinct (map fst hints) \<and> list_all (\<lambda>(n, a). regular a) hints)"
| "regular (Ann_Dataclass members) =
     (distinct (map fst members) \<and> list_all (\<lambda>(n, a, d). regular a) members)"
| "regular (Ann_Literal xs) = True"
| "regular (Ann_Union options) = list_all regular options"
| "regular (Ann_Sequence List_Origin [a]) = regular a"
| "regular (Ann_Dict [_, a]) = regular a"
| "regular (Ann_Enum xs) = True"
| "regular Ann_Str = True" | "regular Ann_Int = True" | "regular Ann_Float = True"
| "regular Ann_Bool = True"
| "regular _ = False"

fun has_shape :: "annotation \<Rightarrow> pyval \<Rightarrow> bool" where
  "has_shape (Ann_TypedDict hints ks) v =
     (case v of
        PDict d \<Rightarrow> list_all (\<lambda>n. map_of d (AStr n) \<noteq> None) ks \<and>
          list_all (\<lambda>(n, a). case map_of d (AStr n) of None \<Rightarrow> True | Some w \<Rightarrow> has_shape a w) hints
      | _ \<Rightarrow> False)"
| "has_shape (Ann_Dataclass members) v =
     (case v of
        PDict d \<Rightarrow> list_all (\<lambda>(n, a, has_default). has_default \<or> map_of d (AStr n) \<noteq> None) members \<and>
          list_all (\<lambda>(n, a, d'). case map_of d (AStr n) of None \<Rightarrow> True | Some w \<Rightarrow> has_shape a w) members
      | _ \<Rightarrow> False)"
| "has_shape (Ann_Literal xs) v = list_ex (\<lambda>x. val_eq v (Atom x)) xs"
| "has_shape (Ann_Union options) v = list_ex (\<lambda>a. has_shape a v) options"
| "has_shape (Ann_Sequence _ args) v =
     (case v of
        PList xs \<Rightarrow> (case args of [] \<Rightarrow> True | a # _ \<Rightarrow> list_all (has_shape a) xs)
      | PTuple xs \<Rightarrow> (case args of [] \<Rightarrow> True | a # _ \<Rightarrow> list_all (has_shape a) xs)
      | _ \<Rightarrow> False)"
| "has_shape (Ann_Dict args) v =
     (case v of
        PDict d \<Rightarrow> (case args of _ # a # _ \<Rightarrow> list_all (\<lambda>(k, w). has_shape a w) d | _ \<Rightarrow> True)
      | _ \<Rightarrow> False)"
| "has_shape (Ann_Enum xs) v = list_ex (val_eq v) xs"
| "has_shape Ann_Str v = (case v of PStr _ \<Rightarrow> True | _ \<Rightarrow> False)"
| "has_shape Ann_Int v = (case v of PInt _ \<Rightarrow> True | _ \<Rightarrow> False)"
| "has_shape Ann_Float v = (case v of PInt _ \<Rightarrow> True | PFloat _ \<Rightarrow> True | _ \<Rightarrow> False)"
| "has_shape Ann_Bool v = (case v of PBool _ \<Rightarrow> True | _ \<Rightarrow> False)"
| "has_shape _ v = True"

lemma issues_or_empty: "issues_for v (or_empty r) path =
    (case r of None \<Rightarrow> [] | Some s \<Rightarrow> collect_schema_issues v s path)"
  by (simp add: issues_for_def or_empty_def collect_anything split: option.splits)

lemma str_eq_is_str: "val_eq v (PStr s) \<Longrightarrow> matches_type v ''string''"
  by (cases v) (auto simp: atom_eq_def matches_type_def split: option.splits)

lemma list_ex_str: "list_all is_str xs \<Longrightarrow> list_ex (val_eq v) (map Atom xs) \<Longrightarrow> matches_type v ''string''"
proof -
  assume "list_all is_str xs" and "list_ex (val_eq v) (map Atom xs)"
  then obtain x where "is_str x" "val_eq v (Atom x)" by (auto simp: list_all_iff list_ex_iff)
  then show ?thesis using str_eq_is_str by (cases x) (auto simp: is_str_def)
qed

lemma issues_object:
  assumes "distinct (map fst hints)"
  shows "issues_for v (or_empty (Some (object_schema (map (\<lambda>(n, a). (AStr n, or_empty (f a))) hints) ks))) path = []
    \<longleftrightarrow> (\<exists>d. as_object v = Some d \<and> (\<forall>n \<in> set ks. map_of d (AStr n) \<noteq> None) \<and>
          (\<forall>(n, a) \<in> set hints. \<forall>w. map_of d (AStr n) = Some w \<longrightarrow>
             issues_for w (or_empty (f a)) (path @ ''.'' @ n) = []))"
proof -
  have "distinct (map (AStr \<circ> fst) hints)"
    using assms by (simp add: distinct_map inj_on_def)
  moreover have "map fst (map (\<lambda>(n, a). (AStr n, or_empty (f a))) hints) = map (AStr \<circ> fst) hints"
    by auto
  ultimately have w: "wf_dict (map (\<lambda>(n, a). (AStr n, or_empty (f a))) hints)"
    unfolding wf_dict_def by metis
  have i: "issues_for w (or_empty r) p = [] \<longleftrightarrow>
      (case or_empty r of PDict t \<Rightarrow> collect_schema_issues w t p = [] | _ \<Rightarrow> True)" for w r p
    by (simp add: issues_for_def split: pyval.splits)
  have "(\<forall>(k, s) \<in> set (map (\<lambda>(n, a). (AStr n, or_empty (f a))) hs). case (map_of d k, k, s) of
             (Some w, AStr n, PDict t) \<Rightarrow> collect_schema_issues w t (path @ ''.'' @ n) = []
           | _ \<Rightarrow> True)
      \<longleftrightarrow> (\<forall>(n, a) \<in> set hs. \<forall>w. map_of d (AStr n) = Some w \<longrightarrow>
             issues_for w (or_empty (f a)) (path @ ''.'' @ n) = [])" for d hs
  proof (induction hs)
    case (Cons p hs)
    then show ?case by (cases p; cases "map_of d (AStr (fst p))") (simp_all add: issues_for_def or_empty_def)
  qed simp
  then show ?thesis
    unfolding issues_or_empty option.case collect_object [OF w] by simp
qed

lemma issues_members:
  assumes "distinct (map fst members)"
  shows "issues_for v (or_empty (schema_for_type (Ann_Dataclass members))) path = []
    \<longleftrightarrow> (\<exists>d. as_object v = Some d \<and>
          (\<forall>(n, a, has_default) \<in> set members. has_default \<or> map_of d (AStr n) \<noteq> None) \<and>
          (\<forall>(n, a, has_default) \<in> set members. \<forall>w. map_of d (AStr n) = Some w \<longrightarrow>
             issues_for w (or_empty (schema_for_type a)) (path @ ''.'' @ n) = []))"
proof -
  let ?hints = "map (\<lambda>(n, a, d). (n, a)) members"
  have "map fst ?hints = map fst members" by auto
  then have "distinct (map fst ?hints)" using assms by (simp only:)
  moreover have "map (\<lambda>(n, a, d). (AStr n, or_empty (schema_for_type a))) members
      = map (\<lambda>(n, a). (AStr n, or_empty (schema_for_type a))) ?hints" by auto
  ultimately show ?thesis
    unfolding schema_for_type.simps by (simp only: issues_object) force
qed

lemma as_object_eq: "as_object v = Some d \<longleftrightarrow> v = PDict d"
  by (cases v) auto

lemma in_enumerate: "(\<forall>(i, w) \<in> set (enumerate k xs). P i w) \<longleftrightarrow> (\<forall>i < length xs. P (k + i) (xs ! i))"
  by (induction xs arbitrary: k) (auto simp: less_Suc_eq_0_disj)

lemma schema_exact:
  "regular a \<Longrightarrow> issues_for v (or_empty (schema_for_type a)) path = [] \<longleftrightarrow> has_shape a v"
proof (induction a arbitrary: v path rule: regular.induct)
  case (2 hints ks)
  have ih: "issues_for w (or_empty (schema_for_type a)) p = [] \<longleftrightarrow> has_shape a w"
    if "(n, a) \<in> set hints" for n a w p
    using "2.IH" [OF that refl] "2.prems" that by (auto simp: list_all_iff)
  have d: "distinct (map fst hints)" using "2.prems" by simp
  have "(\<forall>(n, a) \<in> set hints. \<forall>w. map_of e (AStr n) = Some w \<longrightarrow>
        issues_for w (or_empty (schema_for_type a)) (path @ ''.'' @ n) = [])
      \<longleftrightarrow> list_all (\<lambda>(n, a). case map_of e (AStr n) of None \<Rightarrow> True | Some w \<Rightarrow> has_shape a w) hints" for e
    unfolding list_all_iff by (rule ball_cong) (auto simp: ih split: option.splits)
  then show ?case
    unfolding schema_for_type.simps issues_object [OF d]
    by (cases v) (simp_all add: list_all_iff)
next
  case (3 members)
  have ih: "issues_for w (or_empty (schema_for_type a)) p = [] \<longleftrightarrow> has_shape a w"
    if "(n, a, d) \<in> set members" for n a d w p
    using "3.IH" [OF that refl refl] "3.prems" that by (auto simp: list_all_iff)
  have d: "distinct (map fst members)" using "3.prems" by simp
  have "(\<forall>(n, a, x) \<in> set members. \<forall>w. map_of e (AStr n) = Some w \<longrightarrow>
        issues_for w (or_empty (schema_for_type a)) (path @ ''.'' @ n) = [])
      \<longleftrightarrow> list_all (\<lambda>(n, a, x). case map_of e (AStr n) of None \<Rightarrow> True | Some w \<Rightarrow> has_shape a w) members" for e
    unfolding list_all_iff by (rule ball_cong) (auto simp: ih split: option.splits)
  then show ?case
    unfolding issues_members [OF d]
    by (cases v) (simp_all add: list_all_iff)
next
  case (4 xs)
  have "list_ex (val_eq v) (map Atom xs) \<longleftrightarrow> list_ex (\<lambda>x. val_eq v (Atom x)) xs" for xs
    by (induction xs) auto
  then show ?case
    using list_ex_str [of xs v] by (auto simp: issues_or_empty collect_enum collect_enum_string)
next
  case (5 options)
  have "(case or_empty r of PDict s \<Rightarrow> collect_schema_issues v s path = [] | _ \<Rightarrow> False)
      \<longleftrightarrow> issues_for v (or_empty r) path = []" for r
    by (simp add: issues_for_def or_empty_def)
  then show ?case
    using 5 by (simp add: issues_or_empty [of v "Some _"] collect_union list_ex_iff list_all_iff)
next
  case (6 a)
  then show ?case
    by (simp add: issues_or_empty [of v "Some _"] collect_array in_enumerate)
      (cases v; auto simp: list_all_length)
next
  case (7 k a)
  then show ?case
    by (simp add: issues_or_empty [of v "Some _"] collect_dict as_object_eq)
      (cases v; auto simp: list_all_iff)
qed (auto simp: issues_or_empty collect_enum collect_primitive matches_type_def)

end
