(* ===== verification/Config_Properties.thy ===== *)
theory Config_Properties
  imports Runtime_Assembly Native_Schema
begin

text \<open>
  The properties of the way from a configuration to a prepared workflow: the pre-check, what a
  normalized configuration guarantees, plugins and their registry, the assembly of the runtime, and
  the schemas of Native workflows.
\<close>

text \<open>
  C26. The recursive pre-check accepts exactly the configurations in which no mapping or sequence, at
  any depth, has a forbidden import field, an enabled bypass flag or a literal that looks like a
  secret, and whose safety section switches nothing off.
\<close>

theorem precheck_accepts_exactly_safe_configs:
  "precheck_package_config_mapping data = Inr () \<longleftrightarrow>
     safe_config (PDict data) \<and> no_safety_toggle data"
proof -
  have tools: "(case map_of data (AStr ''tools'') of
         Some (PDict tools) \<Rightarrow>
           r_guard (map_of tools (AStr ''allow_all_tools'') = Some (PBool True))
             (config_error ''Configuration is invalid: allow_all_tools is forbidden.''
               ''CONFIG_ALLOW_ALL_TOOLS_FORBIDDEN'' [])
       | _ \<Rightarrow> Inr ()) = Inr ()" if "safe_config (PDict data)"
    using safe_config_no_allow_all_tools [OF that]
    by (auto simp: r_guard_eq_Inr split: option.splits pyval.splits)
  have toggle: "(case map_of data (AStr ''safety'') of
         Some (PDict safety) \<Rightarrow> reject_safety_toggle safety | _ \<Rightarrow> Inr ()) = Inr () \<longleftrightarrow> no_safety_toggle data"
    by (simp add: no_safety_toggle_def reject_safety_toggle_ok split: option.splits pyval.splits)
  show ?thesis
    unfolding precheck_package_config_mapping_def r_bind_unit_ok scan_ok(1) toggle using tools by blast
qed

text \<open>
  C27. A configuration that loads and normalizes is safe as given, has the supported version, lists of
  distinct stripped names for plugins and tools, redaction and safe errors switched on, a non-empty
  environment name, and only secrets that are references to environment variables.
\<close>

theorem normalized_config_guarantees:
  assumes "load_normalized_package_config_from_mapping v = Inr c"
  shows "config_ok c \<and> safe_config v"
  by (rule load_normalized_ok [OF assms])

definition small_config :: pyval where
  "small_config = PDict [(AStr ''version'', PInt 1),
     (AStr ''tools'', PDict [(AStr ''allowlist'', PList [PStr ''echo''])])]"

theorem normalized_config_guarantees_witness:
  "config_ok (projr (load_normalized_package_config_from_mapping small_config)) \<and> safe_config small_config"
proof -
  have "isl (load_normalized_package_config_from_mapping small_config) = False" by code_simp
  then obtain c where "load_normalized_package_config_from_mapping small_config = Inr c"
    by (cases "load_normalized_package_config_from_mapping small_config") auto
  from normalized_config_guarantees [OF this] this show ?thesis by simp
qed

text \<open>
  C28. Registration is atomic and keeps the indexes exact: a plugin that conflicts with a registered
  one, or with itself, leaves the registry as it was; any other is listed last, and every index keeps
  exactly the contributions of the listed plugins, no two under one name.
\<close>

theorem registration_is_atomic:
  assumes "registry_inv reg" and "register reg p = (reg', r)"
  shows "registry_inv reg' \<and> (case r of Inl _ \<Rightarrow> reg' = reg | Inr _ \<Rightarrow> list_plugins reg' = list_plugins reg @ [p])"
  using register_inv [OF assms] assms(2) register_failed register_done(2)
  by (cases r) auto

definition echo_contribution :: "string tool_contribution" where
  "echo_contribution = \<lparr>tc_name = ''echo'', tc_validate_config = Some (\<lambda>_ _. Inr ()),
     tc_create_tool = Some (\<lambda>_ x. Inr (Some (fx_environment x)))\<rparr>"

definition echo_workflow :: "(string, string) workflow_contribution" where
  "echo_workflow = \<lparr>wc_kind = ''demo'',
     wc_definition = \<lparr>wd_kind = ''demo'',
       wd_metadata = \<lparr>wm_name = ''demo'', wm_description = [], wm_version = ''0.1.0'', wm_tags = [],
         wm_metadata = []\<rparr>,
       wd_requirements = \<lparr>req_provider_profiles = [], req_tools = [''echo''], req_artifact_store = True,
         req_checkpoint_store = False, req_event_sinks = []\<rparr>,
       wd_build = Builder_With_Context (\<lambda>x. Inr (Some (wb_workflow_kind x))),
       wd_input_schema = None, wd_output_schema = None, wd_extra = []\<rparr>,
     wc_validate_config = None\<rparr>"

definition echo_plugin :: "(string, string) plugin" where
  "echo_plugin = \<lparr>pl_name = ''demo.echo'', pl_version = ''1'', pl_plugin_types = [],
     pl_provides = [], pl_metadata = [],
     pl_workflows = [echo_workflow], pl_tools = [echo_contribution], pl_providers = [], pl_stores = [],
     pl_event_sinks = []\<rparr>"

theorem registration_is_atomic_witness:
  "registry_inv (fst (register empty_registry echo_plugin))"
  using registration_is_atomic [OF empty_registry_inv, of echo_plugin
      "fst (register empty_registry echo_plugin)" "snd (register empty_registry echo_plugin)"] by simp

text \<open>
  A plugin that resolves keeps resolving to the same plugin, whatever is registered later: no
  registration rebinds a name.
\<close>

theorem resolution_is_stable:
  assumes "new_registry empty_registry ps = Inr reg" and "get_plugin reg n = Inr p"
  shows "get_plugin (run_registers register reg qs) n = Inr p"
  using catalog.never_rebound [OF new_registry_inv [OF assms(1) empty_registry_inv] assms(2)] .

definition echo_registry :: "(string, string) registry" where
  "echo_registry = fst (register empty_registry echo_plugin)"

lemma echo_registry: "new_registry empty_registry [echo_plugin] = Inr echo_registry"
proof -
  have "isl (snd (register empty_registry echo_plugin)) = False" by code_simp
  then show ?thesis
    by (cases "register empty_registry echo_plugin") (auto simp: echo_registry_def split: sum.splits)
qed

lemma echo_registered: "get_plugin echo_registry ''demo.echo'' = Inr echo_plugin"
  using register_done(3) [of empty_registry echo_plugin echo_registry] echo_registry
  by (cases "register empty_registry echo_plugin")
    (auto simp: echo_registry_def get_plugin_Inr empty_registry_def echo_plugin_def split: sum.splits)

theorem resolution_is_stable_witness:
  "get_plugin (run_registers register echo_registry [echo_plugin, echo_plugin\<lparr>pl_name := ''other''\<rparr>])
     ''demo.echo'' = Inr echo_plugin"
  by (rule resolution_is_stable [OF echo_registry echo_registered])

text \<open>
  The tools a validated configuration can use are exactly those of the enabled plugins, each as
  its plugin contributed it: the index the validator builds neither loses nor shadows one.
\<close>

theorem effective_tools_are_the_enabled_plugins_tools:
  assumes "new_registry empty_registry ps = Inr reg" and "validate_package_config reg c = Inr vc"
  shows "map_of (eff_tools (vc_effective vc)) n = Some t \<longleftrightarrow>
    (\<exists>p. pl_name p \<in> set (nc_plugins c) \<and> get_plugin reg (pl_name p) = Inr p
       \<and> t \<in> set (pl_tools p) \<and> tc_name t = n)"
  using effective_tool [OF new_registry_inv [OF assms(1) empty_registry_inv]
      validate_package_config_Inr(2) [OF assms(2)]] .

definition echo_config :: pyval where
  "echo_config = PDict [(AStr ''version'', PInt 1),
     (AStr ''plugins'', PDict [(AStr ''enabled'', PList [PStr ''demo.echo''])]),
     (AStr ''tools'', PDict [(AStr ''allowlist'', PList [PStr ''echo''])])]"

definition echo_normalized :: normalized_config where
  "echo_normalized = projr (load_normalized_package_config_from_mapping echo_config)"

definition echo_validated :: "(string, string) validated_config" where
  "echo_validated = projr (validate_package_config echo_registry echo_normalized)"

definition echo_stores :: "string store_constructors" where
  "echo_stores = \<lparr>new_memory_artifacts = Inr ''memory'', new_filesystem_artifacts = (\<lambda>r. Inr r),
     new_s3_artifacts = (\<lambda>b _ _ _. Inr b), new_memory_checkpoints = Inr ''memory'',
     new_filesystem_checkpoints = (\<lambda>r. Inr r), new_postgres_checkpoints = (\<lambda>d _. Inr d)\<rparr>"

definition echo_dependencies :: "string dependencies" where
  "echo_dependencies = projr (assemble_runtime_dependencies echo_stores (env_resolve []) echo_validated)"

lemma not_isl: "isl r = False \<Longrightarrow> r = Inr (projr r)"
  by (cases r) auto

lemma echo_normalized: "load_normalized_package_config_from_mapping echo_config = Inr echo_normalized"
  unfolding echo_normalized_def by (rule not_isl) code_simp

lemma echo_validated: "validate_package_config echo_registry echo_normalized = Inr echo_validated"
  unfolding echo_validated_def by (rule not_isl) code_simp

lemma echo_dependencies:
  "assemble_runtime_dependencies echo_stores (env_resolve []) echo_validated = Inr echo_dependencies"
  unfolding echo_dependencies_def by (rule not_isl) code_simp

theorem effective_tools_are_the_enabled_plugins_tools_witness:
  "map_of (eff_tools (vc_effective echo_validated)) ''echo'' = Some echo_contribution"
proof -
  have n: "pl_name echo_plugin = ''demo.echo''" "echo_contribution \<in> set (pl_tools echo_plugin)"
    "tc_name echo_contribution = ''echo''" by (simp_all add: echo_plugin_def echo_contribution_def)
  have "nc_plugins echo_normalized = [''demo.echo'']" by code_simp
  then show ?thesis
    unfolding effective_tools_are_the_enabled_plugins_tools [OF echo_registry echo_validated]
    using echo_registered n by (intro exI [of _ echo_plugin]) simp
qed

text \<open>
  From the text of a configuration to the runtime: where it loads, validates and is assembled,
  the tools of the runtime are exactly the tools of its allowlist, in its order, and each is what the
  factory of a tool contribution of an enabled, registered plugin made.
\<close>

theorem assembled_tools_are_the_allowlist:
  assumes "load_normalized_package_config_from_mapping v = Inr c"
    and "new_registry empty_registry ps = Inr reg" and "validate_package_config reg c = Inr vc"
    and "assemble_runtime_dependencies mk resolver vc = Inr deps"
  shows "map fst (rd_tools deps) = tools_allowlist (nc_tools c)
    \<and> ((n, x) \<in> set (rd_tools deps) \<longrightarrow>
        (\<exists>p t d h. pl_name p \<in> set (nc_plugins c) \<and> get_plugin reg (pl_name p) = Inr p
           \<and> t \<in> set (pl_tools p) \<and> tc_name t = n \<and> tc_create_tool t = Some h
           \<and> h d (config_factory_context resolver c) = Inr (Some x)))"
proof -
  have c: "vc_normalized vc = c" by (rule validate_package_config_Inr(1) [OF assms(3)])
  have "distinct (tools_allowlist (nc_tools c))"
    using load_normalized_ok [OF assms(1)] by (simp add: config_ok_def name_list_def)
  then have names: "map fst (rd_tools deps) = tools_allowlist (nc_tools c)"
    using assembled_tool_names [OF assms(4)] by (simp add: c)
  note eff = effective_tool [OF new_registry_inv [OF assms(2) empty_registry_inv]
      validate_package_config_Inr(2) [OF assms(3)]]
  have "\<exists>p t d h. pl_name p \<in> set (nc_plugins c) \<and> get_plugin reg (pl_name p) = Inr p
      \<and> t \<in> set (pl_tools p) \<and> tc_name t = n \<and> tc_create_tool t = Some h
      \<and> h d (config_factory_context resolver c) = Inr (Some x)" if "(n, x) \<in> set (rd_tools deps)"
    using assemble_all_Inr(1) [OF assemble_runtime_Inr(1) [OF assms(4)] that]
    unfolding assemble_tool_Inr c eff by blast
  then show ?thesis using names by blast
qed

theorem assembled_tools_are_the_allowlist_witness:
  "map fst (rd_tools echo_dependencies) = tools_allowlist (nc_tools echo_normalized)"
  using assembled_tools_are_the_allowlist
    [OF echo_normalized echo_registry echo_validated echo_dependencies] by blast

text \<open>
  C29. Assembly does not fail on a validated configuration: where every factory of the enabled
  plugins and every store constructor works, no contribution is missing and the runtime is built.
\<close>

theorem validated_config_is_assembled:
  assumes "validate_package_config reg c = Inr vc" and "factories_work (vc_effective vc)"
    and "constructors_work mk"
  shows "\<exists>deps. assemble_runtime_dependencies mk resolver vc = Inr deps"
  using assembly_total [OF validate_package_config_Inr(3) [OF assms(1)] assms(2,3)] .

lemma echo_factories: "factories_work (vc_effective echo_validated)"
proof -
  have "nc_plugins echo_normalized = [''demo.echo'']" by code_simp
  then have "build_effective_plugin_set echo_registry [''demo.echo''] = Inr (vc_effective echo_validated)"
    using validate_package_config_Inr(2) [OF echo_validated] by simp
  then have "vc_effective echo_validated = \<lparr>eff_plugins = [echo_plugin], eff_plugin_names = [''demo.echo''],
      eff_tools = [(''echo'', echo_contribution)], eff_providers = [], eff_stores = [], eff_event_sinks = []\<rparr>"
    by (simp add: build_effective_plugin_set_def get_registered_plugin_Inr [THEN iffD2, OF echo_registered]
        set_all_def echo_plugin_def echo_contribution_def)
  then show ?thesis
    by (simp add: factories_work_def factory_works_def echo_contribution_def)
qed

lemma echo_constructors: "constructors_work echo_stores"
proof -
  have "\<exists>x. build_artifact_store echo_stores s = Inr x" for s by (cases s) (simp_all add: echo_stores_def)
  moreover have "\<exists>x. build_checkpoint_store echo_stores s = Inr x" for s
    by (cases s) (simp_all add: echo_stores_def)
  ultimately show ?thesis by (simp add: constructors_work_def)
qed

theorem validated_config_is_assembled_witness:
  "\<exists>deps. assemble_runtime_dependencies echo_stores (env_resolve []) echo_validated = Inr deps"
  by (rule validated_config_is_assembled [OF echo_validated echo_factories echo_constructors])

text \<open>
  A workflow is prepared only against a runtime that has everything it requires; over a runtime
  assembled from a configuration it can require, and is given, only tools of the allowlist.
\<close>

theorem prepared_workflow_has_its_requirements:
  assumes "load_normalized_package_config_from_mapping v = Inr c"
    and "validate_package_config reg c = Inr vc"
    and "assemble_runtime_dependencies mk resolver vc = Inr deps"
    and "prepare_workflow reg kind deps config = Inr w"
  shows "set (req_tools (wd_requirements (wc_definition (ppw_contribution w)))) \<subseteq> set (tools_allowlist (nc_tools c))
    \<and> set (req_provider_profiles (wd_requirements (wc_definition (ppw_contribution w)))) \<subseteq> fst ` set (rd_providers deps)
    \<and> fst ` set (wb_tools (workflow_build_context kind config deps)) = set (tools_allowlist (nc_tools c))
    \<and> get_workflow reg kind = Inr (ppw_contribution w)"
proof -
  have c: "vc_normalized vc = c" by (rule validate_package_config_Inr(1) [OF assms(2)])
  have "distinct (tools_allowlist (nc_tools c))"
    using load_normalized_ok [OF assms(1)] by (simp add: config_ok_def name_list_def)
  then have "map fst (rd_tools deps) = tools_allowlist (nc_tools c)"
    using assembled_tool_names [OF assms(3)] by (simp add: c)
  then have "fst ` set (rd_tools deps) = set (tools_allowlist (nc_tools c))" by (metis set_map)
  then show ?thesis
    using prepare_workflow_Inr [OF assms(4)] by (simp add: check_requirements_iff workflow_build_context_def)
qed

theorem prepared_workflow_has_its_requirements_witness:
  "get_workflow echo_registry ''demo''
     = Inr (ppw_contribution (projr (prepare_workflow echo_registry ''demo'' echo_dependencies [])))"
proof -
  have "prepare_workflow echo_registry ''demo'' echo_dependencies []
      = Inr (projr (prepare_workflow echo_registry ''demo'' echo_dependencies []))"
    by (rule not_isl) code_simp
  from prepared_workflow_has_its_requirements [OF echo_normalized echo_validated echo_dependencies this]
  show ?thesis by blast
qed

definition inferred_schema :: "annotation \<Rightarrow> pyval" where
  "inferred_schema a = (case schema_for_type a of None \<Rightarrow> PNone | Some s \<Rightarrow> PDict s)"

lemma validate_inferred:
  "validate_schema_value v (inferred_schema a) phase path = Inr () \<longleftrightarrow>
     issues_for v (or_empty (schema_for_type a)) path = []"
  by (simp add: validate_schema_value_def inferred_schema_def issues_or_empty Let_def split: option.splits)

text \<open>
  C30. The schema inferred from an annotation is exact: validation against it accepts precisely the
  values of the annotated shape, for every annotation built of primitives, literals, enumerations,
  lists, dictionaries, unions, typed dictionaries and dataclasses.
\<close>

theorem inferred_schema_is_exact:
  assumes "regular a"
  shows "validate_schema_value v (inferred_schema a) phase path = Inr () \<longleftrightarrow> has_shape a v"
  unfolding validate_inferred by (rule schema_exact [OF assms])

definition order_type :: annotation where
  "order_type = Ann_TypedDict [(''name'', Ann_Str), (''counts'', Ann_Sequence List_Origin [Ann_Int])] [''name'']"

theorem inferred_schema_is_exact_witness:
  "\<not> validate_schema_value (PDict [(AStr ''name'', PStr ''x''), (AStr ''counts'', PList [PInt 1, PBool True])])
      (inferred_schema order_type) ''input'' ''$'' = Inr ()"
  by (subst inferred_schema_is_exact) (simp_all add: order_type_def)

text \<open>
  An optional annotation is not checked at all: \<open>None\<close>'s class has no schema, so the union has
  an alternative that accepts every value, and any value passes for \<open>Optional[X]\<close>.
\<close>

theorem optional_accepts_every_value:
  "validate_schema_value v (inferred_schema (Ann_Union [a, Ann_Other ''NoneType''])) phase path = Inr ()"
proof -
  have "issues_for v (or_empty (schema_for_type (Ann_Union [a, Ann_Other ''NoneType'']))) path = []"
    by (simp add: issues_or_empty [of v "Some _"] collect_union) (simp add: or_empty_def collect_anything)
  then show ?thesis unfolding validate_inferred .
qed

text \<open>
  A tuple annotation is checked as a list of its first argument: a pair whose second component
  is not of the first one's type is refused, although it is a value of the annotated tuple.
\<close>

theorem tuple_checked_by_first_argument:
  assumes "regular a" and "\<not> has_shape a y"
  shows "validate_schema_value (PTuple [x, y]) (inferred_schema (Ann_Sequence Tuple_Origin [a, b])) phase path \<noteq> Inr ()"
proof -
  have "schema_for_type (Ann_Sequence Tuple_Origin [a, b]) = schema_for_type (Ann_Sequence List_Origin [a])"
    by simp
  then show ?thesis
    using schema_exact [of "Ann_Sequence List_Origin [a]" "PTuple [x, y]" path] assms
    unfolding validate_inferred by simp
qed

theorem tuple_checked_by_first_argument_witness:
  "validate_schema_value (PTuple [PInt 1, PStr ''x'']) (inferred_schema (Ann_Sequence Tuple_Origin [Ann_Int, Ann_Str]))
     ''output'' ''$'' \<noteq> Inr ()"
  by (rule tuple_checked_by_first_argument) simp_all

end
