(* ===== verification/Artifact_Base.thy ===== *)
theory Artifact_Base
  imports Errors Redaction Sha256
begin

text \<open>
  integrations/artifact/keys.py and base.py: opaque storage keys, the normalization of every field
  of an artifact request and descriptor, and their constructors. A constructor takes the fields as
  values, as \<open>__post_init__\<close> does, and returns the normalized record or the exception. A
  bytes-like body is given as bytes.
\<close>

section \<open>Storage keys\<close>

definition WINDOWS_ABSOLUTE_PATH :: rx where
  "WINDOWS_ABSOLUTE_PATH = RSeqs [RChr is_letter, RChr (\<lambda>c. c = CHR '':''), RChr is_slash]"

definition is_safe_storage_key :: "string \<Rightarrow> bool" where
  "is_safe_storage_key storage_key =
     (if storage_key = [] \<or> strip storage_key \<noteq> storage_key then False
      else if list_ex (\<lambda>p. startswith p storage_key) [''/'', [backslash], ''~'', ''//''] then False
      else if rx_prefix WINDOWS_ABSOLUTE_PATH storage_key then False
      else if CHR '':'' \<in> set storage_key \<or> backslash \<in> set storage_key then False
      else \<not> list_ex (\<lambda>part. part \<in> set ['''', ''.'', ''..'']) (split_on CHR ''/'' storage_key))"

definition validate_storage_key :: "string \<Rightarrow> string res" where
  "validate_storage_key storage_key =
     (if \<not> is_safe_storage_key storage_key
      then Inl (PlainExn ValueError_cls ''unsafe artifact storage key'')
      else Inr storage_key)"

section \<open>Normalization\<close>

datatype run_id = Run_Int int | Run_Str string

fun run_id_value :: "run_id \<Rightarrow> pyval" where
  "run_id_value (Run_Int i) = PInt i"
| "run_id_value (Run_Str s) = PStr s"

definition artifact_invalid :: "string \<Rightarrow> string \<Rightarrow> exn" where
  "artifact_invalid what cd =
     ArtifactValidationError (''Artifact store rejected '' @ what) cd (Some ''artifact_store'') []"

definition invalid_run_id :: exn where
  "invalid_run_id = artifact_invalid ''an invalid run identifier.'' ''ARTIFACT_STORE_INVALID_RUN_ID''"

definition invalid_storage_key :: exn where
  "invalid_storage_key =
     artifact_invalid ''an invalid storage key.'' ''ARTIFACT_STORE_INVALID_STORAGE_KEY''"

definition invalid_name :: exn where
  "invalid_name = artifact_invalid ''an invalid artifact name.'' ''ARTIFACT_STORE_INVALID_NAME''"

definition invalid_kind :: exn where
  "invalid_kind = artifact_invalid ''an invalid artifact kind.'' ''ARTIFACT_STORE_INVALID_KIND''"

definition invalid_content_type :: exn where
  "invalid_content_type =
     artifact_invalid ''an invalid content type.'' ''ARTIFACT_STORE_INVALID_CONTENT_TYPE''"

definition invalid_metadata :: exn where
  "invalid_metadata = artifact_invalid ''invalid metadata.'' ''ARTIFACT_STORE_INVALID_METADATA''"

definition invalid_body :: exn where
  "invalid_body = artifact_invalid ''an invalid body payload.'' ''ARTIFACT_STORE_INVALID_BODY''"

fun normalize_artifact_run_id :: "pyval \<Rightarrow> run_id res" where
  "normalize_artifact_run_id (Atom (AInt i)) = Inr (Run_Int i)"
| "normalize_artifact_run_id (Atom (AStr s)) =
     (let normalized = strip s
      in if normalized = [] then Inl invalid_run_id else Inr (Run_Str normalized))"
| "normalize_artifact_run_id _ = Inl invalid_run_id"

fun normalize_artifact_storage_key :: "pyval \<Rightarrow> string res" where
  "normalize_artifact_storage_key (Atom (AStr s)) = validate_storage_key s"
| "normalize_artifact_storage_key _ = Inl invalid_storage_key"

text \<open>\<open>except ValueError: raise ArtifactValidationError\<close>, as every caller of the former does.\<close>

definition checked_storage_key :: "pyval \<Rightarrow> string res" where
  "checked_storage_key v = (case normalize_artifact_storage_key v of
     Inl e \<Rightarrow> if isinstance e ValueError_cls then Inl invalid_storage_key else Inl e
   | Inr k \<Rightarrow> Inr k)"

fun normalize_artifact_name :: "pyval \<Rightarrow> string res" where
  "normalize_artifact_name (Atom (AStr s)) =
     (let normalized = strip s in if normalized = [] then Inl invalid_name else Inr normalized)"
| "normalize_artifact_name _ = Inl invalid_name"

fun normalize_artifact_kind :: "pyval \<Rightarrow> string res" where
  "normalize_artifact_kind (Atom (AStr s)) =
     (let normalized = strip s in if normalized = [] then Inl invalid_kind else Inr normalized)"
| "normalize_artifact_kind _ = Inl invalid_kind"

fun normalize_artifact_content_type :: "pyval \<Rightarrow> string option res" where
  "normalize_artifact_content_type (Atom ANone) = Inr None"
| "normalize_artifact_content_type (Atom (AStr s)) =
     (let normalized = lower (strip s)
      in if normalized = [] then Inl invalid_content_type
         else if \<exists>c \<in> set normalized. ord_of c = 13 \<or> ord_of c = 10 then Inl invalid_content_type
         else Inr (Some normalized))"
| "normalize_artifact_content_type _ = Inl invalid_content_type"

fun normalize_json_value :: "pyval \<Rightarrow> pyval res"
and normalize_json_list :: "pyval list \<Rightarrow> pyval list res"
and normalize_json_items :: "pyitems \<Rightarrow> pyitems res"
where
  "normalize_json_value (Atom a) =
     (case a of ABytes _ \<Rightarrow> Inl invalid_metadata | AObj _ _ \<Rightarrow> Inl invalid_metadata | _ \<Rightarrow> Inr (Atom a))"
| "normalize_json_value (PDict kvs) =
     r_bind (normalize_json_items kvs) (\<lambda>out. Inr (PDict (dict_of out)))"
| "normalize_json_value (PTuple xs) = r_bind (normalize_json_list xs) (\<lambda>out. Inr (PList out))"
| "normalize_json_value (PList xs) = r_bind (normalize_json_list xs) (\<lambda>out. Inr (PList out))"
| "normalize_json_list [] = Inr []"
| "normalize_json_list (x # xs) =
     r_bind (normalize_json_value x) (\<lambda>y. r_bind (normalize_json_list xs) (\<lambda>ys. Inr (y # ys)))"
| "normalize_json_items [] = Inr []"
| "normalize_json_items ((k, v) # kvs) =
     r_bind (normalize_json_value v) (\<lambda>w.
     r_bind (normalize_json_items kvs) (\<lambda>out. Inr ((AStr (atom_text k), w) # out)))"

fun normalize_artifact_metadata :: "pyval \<Rightarrow> pyitems res" where
  "normalize_artifact_metadata (Atom ANone) = Inr []"
| "normalize_artifact_metadata (PDict kvs) =
     r_bind (normalize_json_value (PDict (redact_mapping 4 kvs))) (\<lambda>normalized.
       case normalized of PDict d \<Rightarrow> Inr d | _ \<Rightarrow> Inl invalid_metadata)"
| "normalize_artifact_metadata _ = Inl invalid_metadata"

fun normalize_artifact_body :: "pyval \<Rightarrow> string res" where
  "normalize_artifact_body (Atom (ABytes b)) = Inr b"
| "normalize_artifact_body _ = Inl invalid_body"

section \<open>Requests and descriptors\<close>

record write_request =
  wr_run_id :: run_id
  wr_storage_key :: string
  wr_body :: string
  wr_name :: string
  wr_kind :: string
  wr_content_type :: "string option"
  wr_metadata :: pyitems

record stored_artifact =
  sa_run_id :: run_id
  sa_storage_key :: string
  sa_name :: string
  sa_kind :: string
  sa_content_type :: "string option"
  sa_size :: int
  sa_digest :: string
  sa_metadata :: pyitems

record artifact_read_result =
  ar_artifact :: stored_artifact
  ar_body :: string

text \<open>\<open>f(x) if x else ''\<close>.\<close>

definition if_truthy :: "(pyval \<Rightarrow> string res) \<Rightarrow> pyval \<Rightarrow> string res" where
  "if_truthy f v = (if truthy v then f v else Inr [])"

definition ArtifactWriteRequest ::
  "pyval \<Rightarrow> pyval \<Rightarrow> pyval \<Rightarrow> pyval \<Rightarrow> pyval \<Rightarrow> pyval \<Rightarrow> pyval \<Rightarrow> write_request res" where
  "ArtifactWriteRequest run_id storage_key body name kind content_type metadata =
     r_bind (normalize_artifact_run_id run_id) (\<lambda>r.
     r_bind (normalize_artifact_body body) (\<lambda>b.
     r_bind (if_truthy normalize_artifact_name name) (\<lambda>n.
     r_bind (if_truthy normalize_artifact_kind kind) (\<lambda>k.
     r_bind (normalize_artifact_content_type content_type) (\<lambda>c.
     r_bind (normalize_artifact_metadata metadata) (\<lambda>m.
       Inr \<lparr>wr_run_id = r, wr_storage_key = val_text storage_key, wr_body = b, wr_name = n,
         wr_kind = k, wr_content_type = c, wr_metadata = m\<rparr>))))))"

definition invalid_size :: exn where
  "invalid_size = ArtifactIntegrityError ''Artifact store recorded an invalid artifact size.''
     ''ARTIFACT_STORE_INVALID_SIZE'' (Some ''artifact_store'') None []"

definition invalid_digest :: exn where
  "invalid_digest = ArtifactIntegrityError ''Artifact store recorded an invalid artifact digest.''
     ''ARTIFACT_STORE_INVALID_DIGEST'' (Some ''artifact_store'') None []"

fun checked_size :: "pyval \<Rightarrow> int res" where
  "checked_size (Atom (AInt n)) = (if n < 0 then Inl invalid_size else Inr n)"
| "checked_size _ = Inl invalid_size"

fun checked_digest :: "pyval \<Rightarrow> string res" where
  "checked_digest (Atom (AStr s)) = (if \<not> startswith ''sha256:'' s then Inl invalid_digest else Inr s)"
| "checked_digest _ = Inl invalid_digest"

definition StoredArtifact ::
  "pyval \<Rightarrow> pyval \<Rightarrow> pyval \<Rightarrow> pyval \<Rightarrow> pyval \<Rightarrow> pyval \<Rightarrow> pyval \<Rightarrow> pyval \<Rightarrow> stored_artifact res" where
  "StoredArtifact run_id storage_key name kind content_type siz digest metadata =
     r_bind (normalize_artifact_run_id run_id) (\<lambda>r.
     r_bind (checked_storage_key storage_key) (\<lambda>sk.
     r_bind (if_truthy normalize_artifact_name name) (\<lambda>n.
     r_bind (if_truthy normalize_artifact_kind kind) (\<lambda>k.
     r_bind (normalize_artifact_content_type content_type) (\<lambda>c.
     r_bind (checked_size siz) (\<lambda>sz.
     r_bind (checked_digest digest) (\<lambda>dg.
     r_bind (normalize_artifact_metadata metadata) (\<lambda>m.
       Inr \<lparr>sa_run_id = r, sa_storage_key = sk, sa_name = n, sa_kind = k, sa_content_type = c,
         sa_size = sz, sa_digest = dg, sa_metadata = m\<rparr>))))))))"

fun opt_str :: "string option \<Rightarrow> pyval" where
  "opt_str None = PNone"
| "opt_str (Some s) = PStr s"

text \<open>The \<open>_clone_artifact\<close> of every store runs the constructor on the fields again.\<close>

definition clone_artifact :: "stored_artifact \<Rightarrow> stored_artifact res" where
  "clone_artifact a = StoredArtifact (run_id_value (sa_run_id a)) (PStr (sa_storage_key a))
     (PStr (sa_name a)) (PStr (sa_kind a)) (opt_str (sa_content_type a)) (PInt (sa_size a))
     (PStr (sa_digest a)) (PDict (sa_metadata a))"

definition build_descriptor :: "write_request \<Rightarrow> stored_artifact res" where
  "build_descriptor r = StoredArtifact (run_id_value (wr_run_id r)) (PStr (wr_storage_key r))
     (PStr (wr_name r)) (PStr (wr_kind r)) (opt_str (wr_content_type r))
     (PInt (int (length (wr_body r)))) (PStr (body_digest (wr_body r))) (PDict (wr_metadata r))"

section \<open>Safe keys stay below their root\<close>

lemma windows_path_colon: "rx_prefix WINDOWS_ABSOLUTE_PATH k \<Longrightarrow> CHR '':'' \<in> set k"
  unfolding rx_prefix_def rx_at_def WINDOWS_ABSOLUTE_PATH_def
  by (cases k; cases "tl k") (auto split: if_splits)

lemma safe_storage_key_iff:
  "is_safe_storage_key k \<longleftrightarrow>
     k \<noteq> [] \<and> strip k = k \<and> hd k \<noteq> CHR ''~'' \<and> CHR '':'' \<notin> set k \<and> backslash \<notin> set k
     \<and> (\<forall>p \<in> set (split_on CHR ''/'' k). p \<notin> {'''', ''.'', ''..''})"
proof (cases k)
  case Nil
  then show ?thesis by (simp add: is_safe_storage_key_def)
next
  case (Cons c cs)
  have slash: "startswith (CHR ''/'' # p) k \<Longrightarrow> [] \<in> set (split_on CHR ''/'' k)" for p
    using Cons by (auto simp: startswith_def)
  have w: "rx_prefix WINDOWS_ABSOLUTE_PATH k \<Longrightarrow> CHR '':'' \<in> set k" by (rule windows_path_colon)
  have tilde: "startswith ''~'' k \<longleftrightarrow> hd k = CHR ''~''"
    and bs: "startswith [backslash] k \<Longrightarrow> backslash \<in> set k"
    using Cons by (auto simp: startswith_def)
  have parts: "list_ex (\<lambda>part. part \<in> set ['''', ''.'', ''..'']) ps \<longleftrightarrow>
      \<not> (\<forall>p \<in> set ps. p \<notin> {'''', ''.'', ''..''})" for ps
    by (auto simp: list_ex_iff)
  have "is_safe_storage_key k \<longleftrightarrow> k \<noteq> [] \<and> strip k = k
      \<and> \<not> startswith ''/'' k \<and> \<not> startswith [backslash] k \<and> \<not> startswith ''~'' k \<and> \<not> startswith ''//'' k
      \<and> \<not> rx_prefix WINDOWS_ABSOLUTE_PATH k \<and> CHR '':'' \<notin> set k \<and> backslash \<notin> set k
      \<and> (\<forall>p \<in> set (split_on CHR ''/'' k). p \<notin> {'''', ''.'', ''..''})"
    unfolding is_safe_storage_key_def parts by simp
  then show ?thesis
    using slash [of "[]"] slash [of "''/''"] w tilde bs by blast
qed

text \<open>POSIX resolution of the parts of a relative path below a directory.\<close>

fun resolve_parts :: "string list \<Rightarrow> string list \<Rightarrow> string list" where
  "resolve_parts dir [] = dir"
| "resolve_parts dir (p # ps) =
     (if p = '''' \<or> p = ''.'' then resolve_parts dir ps
      else if p = ''..'' then resolve_parts (butlast dir) ps
      else resolve_parts (dir @ [p]) ps)"

lemma resolve_parts_plain:
  "(\<forall>p \<in> set ps. p \<notin> {'''', ''.'', ''..''}) \<Longrightarrow> resolve_parts dir ps = dir @ ps"
  by (induction ps arbitrary: dir) auto

section \<open>Normalized requests and their descriptors\<close>

fun run_id_ok :: "run_id \<Rightarrow> bool" where
  "run_id_ok (Run_Int _) = True"
| "run_id_ok (Run_Str s) = (s \<noteq> [] \<and> strip s = s)"

fun content_type_ok :: "string option \<Rightarrow> bool" where
  "content_type_ok None = True"
| "content_type_ok (Some c) =
     (c \<noteq> [] \<and> strip c = c \<and> lower c = c \<and> (\<forall>x \<in> set c. ord_of x \<noteq> 13 \<and> ord_of x \<noteq> 10))"

definition wf_request :: "write_request \<Rightarrow> bool" where
  "wf_request r \<longleftrightarrow> run_id_ok (wr_run_id r) \<and> strip (wr_name r) = wr_name r
     \<and> strip (wr_kind r) = wr_kind r \<and> content_type_ok (wr_content_type r)"

text \<open>Metadata that another normalization leaves as it is.\<close>

definition stable_request :: "write_request \<Rightarrow> bool" where
  "stable_request r \<longleftrightarrow> wf_request r
     \<and> normalize_artifact_metadata (PDict (wr_metadata r)) = Inr (wr_metadata r)"

definition describe :: "write_request \<Rightarrow> stored_artifact" where
  "describe r = \<lparr>sa_run_id = wr_run_id r, sa_storage_key = wr_storage_key r, sa_name = wr_name r,
     sa_kind = wr_kind r, sa_content_type = wr_content_type r, sa_size = int (length (wr_body r)),
     sa_digest = body_digest (wr_body r), sa_metadata = wr_metadata r\<rparr>"

lemma normalize_artifact_run_id_ok: "normalize_artifact_run_id v = Inr r \<Longrightarrow> run_id_ok r"
  by (cases v rule: normalize_artifact_run_id.cases) (auto simp: Let_def split: if_splits)

lemma normalize_artifact_run_id_value: "run_id_ok r \<Longrightarrow> normalize_artifact_run_id (run_id_value r) = Inr r"
  by (cases r) (auto simp: Let_def)

lemma if_truthy_name_ok: "if_truthy normalize_artifact_name v = Inr n \<Longrightarrow> strip n = n"
  by (cases v rule: normalize_artifact_name.cases) (auto simp: if_truthy_def Let_def split: if_splits)

lemma if_truthy_kind_ok: "if_truthy normalize_artifact_kind v = Inr n \<Longrightarrow> strip n = n"
  by (cases v rule: normalize_artifact_kind.cases) (auto simp: if_truthy_def Let_def split: if_splits)

lemma if_truthy_name_value: "strip n = n \<Longrightarrow> if_truthy normalize_artifact_name (PStr n) = Inr n"
  by (simp add: if_truthy_def Let_def)

lemma if_truthy_kind_value: "strip n = n \<Longrightarrow> if_truthy normalize_artifact_kind (PStr n) = Inr n"
  by (simp add: if_truthy_def Let_def)

lemma normalize_content_type_ok: "normalize_artifact_content_type v = Inr c \<Longrightarrow> content_type_ok c"
  by (cases v rule: normalize_artifact_content_type.cases)
    (auto simp: Let_def strip_lower split: if_splits)

lemma normalize_content_type_value:
  "content_type_ok c \<Longrightarrow> normalize_artifact_content_type (opt_str c) = Inr c"
  by (cases c) (auto simp: Let_def)

lemma ArtifactWriteRequest_wf: "ArtifactWriteRequest rid sk b n k c m = Inr r \<Longrightarrow> wf_request r"
  by (auto simp: ArtifactWriteRequest_def wf_request_def r_simps dest: normalize_artifact_run_id_ok
      if_truthy_name_ok if_truthy_kind_ok normalize_content_type_ok)

lemma isinstance_value_error: "isinstance (PlainExn ValueError_cls t) ValueError_cls"
  by (simp add: isinstance_def)

lemma checked_storage_key_PStr:
  "checked_storage_key (PStr k) = (if is_safe_storage_key k then Inr k else Inl invalid_storage_key)"
  by (simp add: checked_storage_key_def validate_storage_key_def isinstance_value_error)

lemma build_descriptor_stable:
  assumes "stable_request r"
  shows "build_descriptor r =
    (if is_safe_storage_key (wr_storage_key r) then Inr (describe r) else Inl invalid_storage_key)"
  using assms unfolding stable_request_def wf_request_def
  by (simp add: build_descriptor_def StoredArtifact_def describe_def checked_storage_key_PStr
      normalize_artifact_run_id_value if_truthy_name_value if_truthy_kind_value
      normalize_content_type_value del: normalize_artifact_metadata.simps)

lemma clone_describe:
  assumes "stable_request r" and "is_safe_storage_key (wr_storage_key r)"
  shows "clone_artifact (describe r) = Inr (describe r)"
  using assms unfolding stable_request_def wf_request_def
  by (simp add: clone_artifact_def StoredArtifact_def describe_def checked_storage_key_PStr
      normalize_artifact_run_id_value if_truthy_name_value if_truthy_kind_value
      normalize_content_type_value del: normalize_artifact_metadata.simps)

text \<open>What is stored of the metadata does not depend on a value under a sensitive key.\<close>

lemma normalize_artifact_metadata_erase:
  "normalize_artifact_metadata (erase_secrets (PDict kvs)) = normalize_artifact_metadata (PDict kvs)"
  by (simp add: redact_mapping_def truncated_items_erase redact_erase)

section \<open>Equality of descriptors\<close>

text \<open>The dataclass equality: field by field, the metadata as dictionaries.\<close>

definition artifact_eq :: "stored_artifact \<Rightarrow> stored_artifact \<Rightarrow> bool" where
  "artifact_eq a b \<longleftrightarrow> a\<lparr>sa_metadata := []\<rparr> = b\<lparr>sa_metadata := []\<rparr>
     \<and> val_eq (PDict (sa_metadata a)) (PDict (sa_metadata b))"

lemma normalize_json_wf:
  "normalize_json_value v = Inr w \<Longrightarrow> wf_val w"
  "normalize_json_list xs = Inr ys \<Longrightarrow> wf_list ys"
  "normalize_json_items kvs = Inr out \<Longrightarrow> wf_items out"
proof (induction v and xs and kvs arbitrary: w and ys and out
    rule: normalize_json_value_normalize_json_list_normalize_json_items.induct)
  case (1 a)
  then show ?case by (cases a) auto
qed (auto simp: r_simps wf_items_dict_of)

lemma normalize_artifact_metadata_wf:
  "normalize_artifact_metadata v = Inr d \<Longrightarrow> wf_val (PDict d)"
proof (cases v rule: normalize_artifact_metadata.cases)
  case (2 kvs)
  assume "normalize_artifact_metadata v = Inr d"
  then obtain w where "normalize_json_value (PDict (redact_mapping 4 kvs)) = Inr w"
    "(case w of PDict d \<Rightarrow> Inr d | _ \<Rightarrow> Inl invalid_metadata) = Inr d"
    using 2 by (auto simp only: normalize_artifact_metadata.simps r_bind_eq_Inr)
  then have "w = PDict d" by (cases w) auto
  with \<open>normalize_json_value (PDict (redact_mapping 4 kvs)) = Inr w\<close>
  show "wf_val (PDict d)" using normalize_json_wf(1) by blast
qed auto

lemma artifact_eq_refl: "wf_val (PDict (sa_metadata a)) \<Longrightarrow> artifact_eq a a"
  unfolding artifact_eq_def using val_eq_refl(1) by blast

lemma artifact_eq_describe: "stable_request r \<Longrightarrow> artifact_eq (describe r) (describe r)"
  using normalize_artifact_metadata_wf artifact_eq_refl [of "describe r"]
  unfolding stable_request_def describe_def stored_artifact.simps by blast

lemma artifact_eq_fields:
  "artifact_eq a b \<Longrightarrow> sa_storage_key a = sa_storage_key b \<and> sa_size a = sa_size b
     \<and> sa_digest a = sa_digest b \<and> sa_run_id a = sa_run_id b \<and> sa_name a = sa_name b
     \<and> sa_kind a = sa_kind b \<and> sa_content_type a = sa_content_type b"
  by (cases a; cases b) (simp add: artifact_eq_def)

end
