(* ===== verification/Artifact_Store.thy ===== *)
theory Artifact_Store
  imports Artifact_Base "HOL-Library.Char_ord" "HOL-Library.List_Lexorder"
begin

text \<open>
  The \<open>ArtifactStore\<close> protocol (integrations/artifact/base.py) as a locale, with what its clients
  rely on, and the in-memory store (integrations/artifact/memory_store.py) that provides it. A
  store operation takes the store and returns it with the result or the exception; an operation
  that raises returns the store it was given.
\<close>

section \<open>The protocol\<close>

definition reading :: "write_request \<Rightarrow> artifact_read_result" where
  "reading r = \<lparr>ar_artifact = describe r, ar_body = wr_body r\<rparr>"

definition acceptable :: "write_request \<Rightarrow> bool" where
  "acceptable r \<longleftrightarrow> stable_request r \<and> is_safe_storage_key (wr_storage_key r)"

definition run_puts :: "('s \<Rightarrow> 'r \<Rightarrow> 's \<times> 'a) \<Rightarrow> 's \<Rightarrow> 'r list \<Rightarrow> 's" where
  "run_puts put s rs = foldl (\<lambda>s r. fst (put s r)) s rs"

lemma run_puts_simps [simp]:
  "run_puts put s [] = s"
  "run_puts put s (r # rs) = run_puts put (fst (put s r)) rs"
  by (simp_all add: run_puts_def)

definition same_reading :: "artifact_read_result \<Rightarrow> artifact_read_result \<Rightarrow> bool" where
  "same_reading x y \<longleftrightarrow> artifact_eq (ar_artifact x) (ar_artifact y) \<and> ar_body x = ar_body y"

lemma same_reading_refl: "acceptable r \<Longrightarrow> same_reading (reading r) (reading r)"
  by (simp add: same_reading_def reading_def acceptable_def artifact_eq_describe)

text \<open>
  \<open>ok\<close> are the requests and \<open>key_ok\<close> the keys for which a provider answers, \<open>shown\<close> what it gives
  back of a request it stored: equal to its reading, though the metadata may be in another order.
\<close>

locale artifact_store =
  fixes empty :: "'s"
    and inv :: "'s \<Rightarrow> bool"
    and ok :: "write_request \<Rightarrow> bool"
    and key_ok :: "string \<Rightarrow> bool"
    and shown :: "write_request \<Rightarrow> artifact_read_result"
    and put :: "'s \<Rightarrow> write_request \<Rightarrow> 's \<times> stored_artifact res"
    and get :: "'s \<Rightarrow> string \<Rightarrow> artifact_read_result option res"
  assumes ok_key: "ok r \<Longrightarrow> key_ok (wr_storage_key r)"
    and shown_same: "ok r \<Longrightarrow> same_reading (shown r) (reading r)"
    and inv_empty: "inv empty"
    and get_empty: "key_ok k \<Longrightarrow> get empty k = Inr None"
    and inv_put: "inv s \<Longrightarrow> ok r \<Longrightarrow> inv (fst (put s r))"
    and get_total: "inv s \<Longrightarrow> key_ok k \<Longrightarrow> \<exists>x. get s k = Inr x"
    and put_fresh: "inv s \<Longrightarrow> ok r \<Longrightarrow> get s (wr_storage_key r) = Inr None \<Longrightarrow>
        snd (put s r) = Inr (describe r)"
    and get_put_fresh: "inv s \<Longrightarrow> ok r \<Longrightarrow> get s (wr_storage_key r) = Inr None \<Longrightarrow> key_ok k \<Longrightarrow>
        get (fst (put s r)) k = (if k = wr_storage_key r then Inr (Some (shown r)) else get s k)"
    and put_taken: "inv s \<Longrightarrow> ok r \<Longrightarrow> get s (wr_storage_key r) = Inr (Some x) \<Longrightarrow>
        fst (put s r) = s \<and>
        (if same_reading x (reading r) then snd (put s r) = Inr (ar_artifact x)
         else \<exists>e. snd (put s r) = Inl e \<and> isinstance e ArtifactConflictError_cls)"
begin

lemma inv_run: "inv s \<Longrightarrow> (\<forall>r \<in> set rs. ok r) \<Longrightarrow> inv (run_puts put s rs)"
  by (induction rs arbitrary: s) (auto intro: inv_put)

lemma get_put:
  assumes "inv s" and "ok r" and "key_ok k"
  shows "get (fst (put s r)) k =
    (if k = wr_storage_key r \<and> get s k = Inr None then Inr (Some (shown r)) else get s k)"
proof -
  obtain x where x: "get s (wr_storage_key r) = Inr x"
    using get_total assms ok_key by blast
  show ?thesis
  proof (cases x)
    case None
    then show ?thesis using get_put_fresh [of s r k] assms x by auto
  next
    case (Some y)
    then show ?thesis using put_taken [of s r y] assms x by auto
  qed
qed

lemma get_immutable:
  assumes "inv s" and "key_ok k" and "get s k = Inr (Some x)" and "\<forall>r \<in> set rs. ok r"
  shows "get (run_puts put s rs) k = Inr (Some x)"
  using assms
proof (induction rs arbitrary: s)
  case (Cons r rs)
  have "get (fst (put s r)) k = Inr (Some x)"
    using get_put [of s r k] Cons.prems by auto
  then show ?case using Cons inv_put by simp
qed simp

lemma get_run:
  assumes "inv s" and "key_ok k" and "get s k = Inr None" and "\<forall>r \<in> set rs. ok r"
  shows "get (run_puts put s rs) k = Inr (map_option shown (find (\<lambda>r. wr_storage_key r = k) rs))"
  using assms
proof (induction rs arbitrary: s)
  case (Cons r rs)
  have inv': "inv (fst (put s r))" using Cons.prems inv_put by simp
  show ?case
  proof (cases "wr_storage_key r = k")
    case True
    then have "get (fst (put s r)) k = Inr (Some (shown r))"
      using get_put [of s r k] Cons.prems by auto
    then show ?thesis
      using True get_immutable [OF inv' Cons.prems(2)] Cons.prems(4) by simp
  next
    case False
    then have "get (fst (put s r)) k = Inr None"
      using get_put [of s r k] Cons.prems by auto
    then show ?thesis using False Cons.IH [OF inv'] Cons.prems by simp
  qed
qed simp

lemma first_write_wins:
  "key_ok k \<Longrightarrow> \<forall>r \<in> set rs. ok r \<Longrightarrow>
   get (run_puts put empty rs) k = Inr (map_option shown (find (\<lambda>r. wr_storage_key r = k) rs))"
  using get_run [of empty k rs] inv_empty get_empty by blast

lemma put_again:
  assumes "inv s" and "ok r" and "snd (put s r) = Inr a"
  shows "fst (put (fst (put s r)) r) = fst (put s r)
    \<and> (snd (put (fst (put s r)) r) = Inr a
      \<or> a = describe r \<and> snd (put (fst (put s r)) r) = Inr (ar_artifact (shown r)))"
proof -
  obtain x where x: "get s (wr_storage_key r) = Inr x"
    using get_total assms ok_key by blast
  show ?thesis
  proof (cases x)
    case None
    then have "a = describe r"
      and g: "get (fst (put s r)) (wr_storage_key r) = Inr (Some (shown r))"
      using put_fresh [of s r] get_put_fresh [of s r "wr_storage_key r"] x assms ok_key by simp_all
    then show ?thesis
      using put_taken [OF inv_put [OF assms(1,2)] assms(2) g] shown_same [OF assms(2)] by simp
  next
    case (Some y)
    then have "fst (put s r) = s" using put_taken [of s r y] x assms by simp
    then show ?thesis using assms(3) by simp
  qed
qed

end

section \<open>The in-memory store\<close>

record stored_record =
  sr_artifact :: stored_artifact
  sr_body :: string

type_synonym memory_store = "(string \<times> stored_record) list"

definition equivalent :: "stored_record \<Rightarrow> write_request \<Rightarrow> stored_artifact \<Rightarrow> bool" where
  "equivalent existing request candidate \<longleftrightarrow>
     artifact_eq (sr_artifact existing) candidate \<and> sr_body existing = wr_body request"

definition conflicting_write :: "stored_artifact \<Rightarrow> exn" where
  "conflicting_write candidate =
     ArtifactConflictError ''Artifact store rejected a conflicting write request.''
       ''ARTIFACT_STORE_CONFLICT'' (Some ''artifact_store'')
       [(''storage_key'', PStr (sa_storage_key candidate)), (''run_id'', run_id_value (sa_run_id candidate))]"

definition artifact_integrity_failure :: "string \<Rightarrow> exn" where
  "artifact_integrity_failure key =
     ArtifactIntegrityError ''Artifact store detected an integrity failure.''
       ''ARTIFACT_STORE_INTEGRITY_FAILURE'' (Some ''artifact_store'') None [(''storage_key'', PStr key)]"

text \<open>The branch that rebuilds the request is the source's; the key is validated, not changed.\<close>

definition mem_put :: "memory_store \<Rightarrow> write_request \<Rightarrow> memory_store \<times> stored_artifact res" where
  "mem_put items request =
     (case checked_storage_key (PStr (wr_storage_key request)) of
        Inl e \<Rightarrow> (items, Inl e)
      | Inr validated \<Rightarrow>
        (case (if validated \<noteq> wr_storage_key request
               then ArtifactWriteRequest (run_id_value (wr_run_id request)) (PStr validated)
                 (PBytes (wr_body request)) (PStr (wr_name request)) (PStr (wr_kind request))
                 (opt_str (wr_content_type request)) (PDict (wr_metadata request))
               else Inr request) of
           Inl e \<Rightarrow> (items, Inl e)
         | Inr request \<Rightarrow>
           (case build_descriptor request of
              Inl e \<Rightarrow> (items, Inl e)
            | Inr candidate \<Rightarrow>
              (case map_of items (sa_storage_key candidate) of
                 Some existing \<Rightarrow>
                   (items, if equivalent existing request candidate
                           then clone_artifact (sr_artifact existing)
                           else Inl (conflicting_write candidate))
               | None \<Rightarrow>
                   (case clone_artifact candidate of
                      Inl e \<Rightarrow> (items, Inl e)
                    | Inr stored \<Rightarrow>
                        (dict_set (sa_storage_key candidate)
                           \<lparr>sr_artifact = stored, sr_body = wr_body request\<rparr> items,
                         clone_artifact candidate))))))"

definition mem_get :: "memory_store \<Rightarrow> pyval \<Rightarrow> artifact_read_result option res" where
  "mem_get items storage_key =
     r_bind (checked_storage_key storage_key) (\<lambda>key.
       case map_of items key of
         None \<Rightarrow> Inr None
       | Some record \<Rightarrow>
           (let artifact = sr_artifact record; body = sr_body record
            in if sa_size artifact \<noteq> int (length body) \<or> sa_digest artifact \<noteq> body_digest body
               then Inl (artifact_integrity_failure (sa_storage_key artifact))
               else r_bind (clone_artifact artifact) (\<lambda>a.
                 r_bind (normalize_artifact_body (PBytes body)) (\<lambda>b.
                   Inr (Some \<lparr>ar_artifact = a, ar_body = b\<rparr>)))))"

definition mem_list_for_run :: "memory_store \<Rightarrow> pyval \<Rightarrow> stored_artifact list res" where
  "mem_list_for_run items run_id =
     r_bind (normalize_artifact_run_id run_id) (\<lambda>normalized.
     r_bind (r_map_list clone_artifact
         (filter (\<lambda>a. sa_run_id a = normalized) (map (sr_artifact \<circ> snd) items))) (\<lambda>result.
       Inr (sort_key sa_storage_key result)))"

section \<open>The in-memory store keeps the protocol\<close>

definition recorded :: "write_request \<Rightarrow> stored_record" where
  "recorded r = \<lparr>sr_artifact = describe r, sr_body = wr_body r\<rparr>"

definition mem_inv :: "memory_store \<Rightarrow> bool" where
  "mem_inv items \<longleftrightarrow> wf_dict items \<and>
     (\<forall>(k, record) \<in> set items. \<exists>r. acceptable r \<and> k = wr_storage_key r \<and> record = recorded r)"

lemma mem_inv_lookup:
  assumes "mem_inv items" and "map_of items k = Some record"
  shows "\<exists>r. acceptable r \<and> k = wr_storage_key r \<and> record = recorded r"
  using assms map_of_SomeD [of items k "record"] unfolding mem_inv_def by fastforce

lemma mem_put_acceptable:
  assumes "acceptable r"
  shows "mem_put items r =
    (case map_of items (wr_storage_key r) of
       Some existing \<Rightarrow> (items, if equivalent existing r (describe r) then clone_artifact (sr_artifact existing)
                              else Inl (conflicting_write (describe r)))
     | None \<Rightarrow> (dict_set (wr_storage_key r) (recorded r) items, Inr (describe r)))"
proof -
  have s: "stable_request r" "is_safe_storage_key (wr_storage_key r)"
    using assms by (simp_all add: acceptable_def)
  have key: "sa_storage_key (describe r) = wr_storage_key r" by (simp add: describe_def)
  show ?thesis
    unfolding mem_put_def
    by (auto simp: checked_storage_key_PStr s build_descriptor_stable clone_describe key
        recorded_def split: option.split)
qed

lemma mem_get_recorded:
  assumes "acceptable r" and "map_of items (wr_storage_key r) = Some (recorded r)"
  shows "mem_get items (PStr (wr_storage_key r)) = Inr (Some (reading r))"
proof -
  have s: "stable_request r" "is_safe_storage_key (wr_storage_key r)"
    using assms(1) by (simp_all add: acceptable_def)
  have "clone_artifact (sr_artifact (recorded r)) = Inr (describe r)"
    using clone_describe [OF s] by (simp add: recorded_def)
  then show ?thesis
    using s assms(2)
    by (simp add: mem_get_def checked_storage_key_PStr reading_def Let_def)
       (simp add: recorded_def describe_def)
qed

lemma mem_get_inv:
  assumes "mem_inv items" and "is_safe_storage_key k"
  shows "(map_of items k = None \<and> mem_get items (PStr k) = Inr None) \<or>
    (\<exists>r. acceptable r \<and> k = wr_storage_key r \<and> map_of items k = Some (recorded r)
       \<and> mem_get items (PStr k) = Inr (Some (reading r)))"
proof (cases "map_of items k")
  case None
  then show ?thesis using assms by (simp add: mem_get_def checked_storage_key_PStr)
next
  case (Some sr)
  then obtain r where "acceptable r" "k = wr_storage_key r" "sr = recorded r"
    using mem_inv_lookup assms by blast
  then show ?thesis using mem_get_recorded Some by blast
qed

lemma equivalent_recorded:
  "equivalent (recorded q) r (describe r) \<longleftrightarrow> same_reading (reading q) (reading r)"
  by (simp add: equivalent_def recorded_def same_reading_def reading_def)

lemma mem_inv_put:
  assumes "mem_inv items" and "acceptable r"
  shows "mem_inv (fst (mem_put items r))"
proof (cases "map_of items (wr_storage_key r)")
  case None
  then show ?thesis
    using assms by (auto simp: mem_put_acceptable mem_inv_def set_dict_set_fresh)
next
  case (Some ex)
  then show ?thesis using assms by (simp add: mem_put_acceptable)
qed

interpretation mem: artifact_store "[]" mem_inv acceptable is_safe_storage_key reading mem_put
  "\<lambda>items k. mem_get items (PStr k)"
proof
  fix r assume "acceptable r"
  then show "is_safe_storage_key (wr_storage_key r)" "same_reading (reading r) (reading r)"
    by (simp_all add: acceptable_def same_reading_refl)
next
  show "mem_inv []" by (simp add: mem_inv_def)
next
  fix k assume "is_safe_storage_key k"
  then show "mem_get [] (PStr k) = Inr None" by (simp add: mem_get_def checked_storage_key_PStr)
next
  fix s r assume "mem_inv s" "acceptable r"
  then show "mem_inv (fst (mem_put s r))" by (rule mem_inv_put)
next
  fix s k assume "mem_inv s" "is_safe_storage_key k"
  then show "\<exists>x. mem_get s (PStr k) = Inr x" using mem_get_inv by blast
next
  fix s r assume pre: "mem_inv s" "acceptable r" "mem_get s (PStr (wr_storage_key r)) = Inr None"
  then have "is_safe_storage_key (wr_storage_key r)" by (simp add: acceptable_def)
  from mem_get_inv [OF pre(1) this] have "map_of s (wr_storage_key r) = None" using pre by auto
  then show "snd (mem_put s r) = Inr (describe r)" using pre by (simp add: mem_put_acceptable)
next
  fix s r k
  assume pre: "mem_inv s" "acceptable r" "mem_get s (PStr (wr_storage_key r)) = Inr None"
    "is_safe_storage_key k"
  then have safe: "is_safe_storage_key (wr_storage_key r)" by (simp add: acceptable_def)
  from mem_get_inv [OF pre(1) this] have n: "map_of s (wr_storage_key r) = None" using pre by auto
  have store: "fst (mem_put s r) = dict_set (wr_storage_key r) (recorded r) s"
    using pre n by (simp add: mem_put_acceptable)
  show "mem_get (fst (mem_put s r)) (PStr k) =
      (if k = wr_storage_key r then Inr (Some (reading r)) else mem_get s (PStr k))"
  proof (cases "k = wr_storage_key r")
    case True
    then show ?thesis using mem_get_recorded [OF pre(2)] store by (simp add: map_of_dict_set)
  next
    case False
    then show ?thesis using store by (simp add: mem_get_def checked_storage_key_PStr map_of_dict_set)
  qed
next
  fix s r x
  assume pre: "mem_inv s" "acceptable r" "mem_get s (PStr (wr_storage_key r)) = Inr (Some x)"
  then have "is_safe_storage_key (wr_storage_key r)" by (simp add: acceptable_def)
  from mem_get_inv [OF pre(1) this] obtain q where
    q: "acceptable q" "map_of s (wr_storage_key r) = Some (recorded q)" "x = reading q"
    using pre by auto
  have "clone_artifact (sr_artifact (recorded q)) = Inr (ar_artifact (reading q))"
    using q(1) clone_describe by (simp add: acceptable_def recorded_def reading_def)
  moreover have "isinstance (conflicting_write (describe r)) ArtifactConflictError_cls"
    by (simp add: conflicting_write_def error_init_defs FrameworkError_init_def isinstance_def)
  ultimately show "fst (mem_put s r) = s \<and>
      (if same_reading x (reading r) then snd (mem_put s r) = Inr (ar_artifact x)
       else \<exists>e. snd (mem_put s r) = Inl e \<and> isinstance e ArtifactConflictError_cls)"
    using q pre(2) by (simp add: mem_put_acceptable equivalent_recorded)
qed

text \<open>Whatever the store holds, a body that is returned has the size and digest of its descriptor.\<close>

lemma clone_artifact_fields:
  "clone_artifact a = Inr b \<Longrightarrow>
     sa_size b = sa_size a \<and> sa_digest b = sa_digest a \<and> sa_storage_key b = sa_storage_key a"
  by (auto simp: clone_artifact_def StoredArtifact_def r_simps checked_storage_key_PStr split: if_splits)

lemma mem_get_integrity:
  assumes "mem_get items k = Inr (Some x)"
  shows "sa_size (ar_artifact x) = int (length (ar_body x))
    \<and> sa_digest (ar_artifact x) = body_digest (ar_body x)"
  using assms by (auto simp: mem_get_def r_simps Let_def split: option.splits if_splits
      dest!: clone_artifact_fields)

end
