(* ===== verification/Artifact_Emission.thy ===== *)
theory Artifact_Emission
  imports Artifact_Base Json
begin

text \<open>
  The emission contract (integrations/artifact/emission.py) and its mapping to store requests
  (integrations/artifact/mapping.py): the normalization of an emission request, the logical
  identity of an artifact, its storage key, and the comparison of two requests for one identity.
\<close>

section \<open>Errors\<close>

definition ARTIFACT_EMISSION_COMPONENT :: string where
  "ARTIFACT_EMISSION_COMPONENT = ''artifact_emission''"

definition ArtifactEmissionError_init ::
  "exn_class \<Rightarrow> string \<Rightarrow> string \<Rightarrow> string option \<Rightarrow> pydict \<Rightarrow> exn" where
  "ArtifactEmissionError_init cls safe_message code component metadata =
     ArtifactValidationError_init cls safe_message code
       (Some (case component of Some c \<Rightarrow> if c = [] then ARTIFACT_EMISSION_COMPONENT else c
              | None \<Rightarrow> ARTIFACT_EMISSION_COMPONENT)) metadata"

definition ArtifactEmissionConflict ::
  "string \<Rightarrow> string \<Rightarrow> string option \<Rightarrow> pydict \<Rightarrow> exn" where
  "ArtifactEmissionConflict safe_message code component metadata =
     ArtifactConflictError_init ArtifactEmissionConflict_cls safe_message code
       (Some (case component of Some c \<Rightarrow> if c = [] then ARTIFACT_EMISSION_COMPONENT else c
              | None \<Rightarrow> ARTIFACT_EMISSION_COMPONENT)) metadata"

definition serialization_error :: "string \<Rightarrow> string \<Rightarrow> exn" where
  "serialization_error message code =
     ArtifactEmissionError_init ArtifactSerializationContractError_cls message code
       (Some ARTIFACT_EMISSION_COMPONENT) []"

definition emission_invalid_metadata :: exn where
  "emission_invalid_metadata =
     serialization_error ''Artifact emission rejected invalid metadata.''
       ''ARTIFACT_EMISSION_INVALID_METADATA''"

definition emission_invalid_content_type :: exn where
  "emission_invalid_content_type =
     serialization_error ''Artifact emission rejected an invalid content type.''
       ''ARTIFACT_EMISSION_INVALID_CONTENT_TYPE''"

definition emission_invalid_run_id :: exn where
  "emission_invalid_run_id =
     ArtifactEmissionError_init ArtifactEmissionValidationError_cls
       ''Artifact emission rejected an invalid run identifier.''
       ''ARTIFACT_EMISSION_INVALID_RUN_ID'' (Some ARTIFACT_EMISSION_COMPONENT) []"

section \<open>Identifiers\<close>

definition MAX_RUN_ID :: int where "MAX_RUN_ID = 2 ^ 63 - 1"
definition MAX_SLOT_LENGTH :: nat where "MAX_SLOT_LENGTH = 64"
definition MAX_OCCURRENCE_LENGTH :: nat where "MAX_OCCURRENCE_LENGTH = 64"
definition MAX_CONTENT_TYPE_LENGTH :: nat where "MAX_CONTENT_TYPE_LENGTH = 255"

definition is_label_end :: "char \<Rightarrow> bool" where
  "is_label_end c = (is_lower c \<or> is_digit c)"

definition is_label_char :: "char \<Rightarrow> bool" where
  "is_label_char c = (is_lower c \<or> is_digit c \<or> c = CHR ''-'')"

definition LOGICAL_IDENTIFIER_RE :: rx where
  "LOGICAL_IDENTIFIER_RE =
     RSeq (RChr is_label_end) (ROpt (RSeq (RStar is_label_char) (RChr is_label_end)))"

fun emission_run_id :: "pyval \<Rightarrow> int res" where
  "emission_run_id (Atom (AInt i)) =
     (if i \<le> 0 \<or> MAX_RUN_ID < i then Inl emission_invalid_run_id else Inr i)"
| "emission_run_id _ = Inl emission_invalid_run_id"

definition label_error :: "exn_class \<Rightarrow> string \<Rightarrow> exn" where
  "label_error error_type code =
     ArtifactEmissionError_init error_type ''Artifact emission rejected an invalid identifier.'' code
       (Some ARTIFACT_EMISSION_COMPONENT) []"

fun normalize_artifact_label :: "exn_class \<Rightarrow> string \<Rightarrow> nat \<Rightarrow> pyval \<Rightarrow> string res" where
  "normalize_artifact_label error_type code max_length (Atom (AStr s)) =
     (if s \<noteq> strip s then Inl (label_error error_type code)
      else if s = [] \<or> max_length < length s \<or> char_of (0 :: nat) \<in> set s
      then Inl (label_error error_type code)
      else (let normalized = lower s
            in if normalized \<noteq> s \<or> \<not> rx_fullmatch LOGICAL_IDENTIFIER_RE normalized
               then Inl (label_error error_type code)
               else Inr normalized))"
| "normalize_artifact_label error_type code max_length _ = Inl (label_error error_type code)"

record artifact_slot = slot_value :: string
record artifact_occurrence = occurrence_value :: string

definition ArtifactSlot :: "pyval \<Rightarrow> artifact_slot res" where
  "ArtifactSlot v =
     r_bind (normalize_artifact_label ArtifactSlotError_cls ''ARTIFACT_EMISSION_INVALID_SLOT''
       MAX_SLOT_LENGTH v) (\<lambda>s. Inr \<lparr>slot_value = s\<rparr>)"

definition ArtifactOccurrence :: "pyval \<Rightarrow> artifact_occurrence res" where
  "ArtifactOccurrence v =
     r_bind (normalize_artifact_label ArtifactOccurrenceError_cls
       ''ARTIFACT_EMISSION_INVALID_OCCURRENCE'' MAX_OCCURRENCE_LENGTH v)
       (\<lambda>s. Inr \<lparr>occurrence_value = s\<rparr>)"

text \<open>An argument that is an instance of the class already, or any other value.\<close>

datatype 'a instance_or_value = Instance 'a | Value pyval

fun normalize_artifact_slot :: "artifact_slot instance_or_value \<Rightarrow> artifact_slot res" where
  "normalize_artifact_slot (Instance s) = Inr s"
| "normalize_artifact_slot (Value v) = ArtifactSlot v"

fun normalize_artifact_occurrence ::
  "artifact_occurrence instance_or_value \<Rightarrow> artifact_occurrence option res" where
  "normalize_artifact_occurrence (Instance oc) = Inr (Some oc)"
| "normalize_artifact_occurrence (Value v) =
     (if v = PNone then Inr None else r_bind (ArtifactOccurrence v) (\<lambda>oc. Inr (Some oc)))"

section \<open>Bodies and content types\<close>

fun emission_body :: "pyval \<Rightarrow> string res" where
  "emission_body (Atom (ABytes b)) = Inr b"
| "emission_body _ = Inl (serialization_error ''Artifact emission rejected an invalid body payload.''
     ''ARTIFACT_EMISSION_INVALID_BODY'')"

definition is_media_char :: "char \<Rightarrow> bool" where
  "is_media_char c = (is_lower c \<or> is_digit c \<or> c \<in> set ''!#$&^_.+-'')"

definition MEDIA_TYPE_RE :: rx where
  "MEDIA_TYPE_RE = RSeqs [RPlus is_media_char, RChr (\<lambda>c. c = CHR ''/''), RPlus is_media_char]"

definition MEDIA_TYPE_PARAMETER_RE :: rx where
  "MEDIA_TYPE_PARAMETER_RE =
     RSeqs [RPlus is_media_char, RChr (\<lambda>c. c = CHR ''=''), RPlus is_media_char]"

fun content_type_parameters :: "string list \<Rightarrow> string list res" where
  "content_type_parameters [] = Inr []"
| "content_type_parameters (p # ps) =
     (if p = [] \<or> list_ex is_space p then Inl emission_invalid_content_type
      else if char_of (0 :: nat) \<in> set p \<or> \<not> rx_fullmatch MEDIA_TYPE_PARAMETER_RE p
      then Inl emission_invalid_content_type
      else r_bind (content_type_parameters ps) (\<lambda>out. Inr (p # out)))"

fun emission_content_type :: "pyval \<Rightarrow> string res" where
  "emission_content_type (Atom (AStr s)) =
     (let normalized = lower (strip s)
      in if normalized = [] \<or> MAX_CONTENT_TYPE_LENGTH < length normalized
            \<or> char_of (0 :: nat) \<in> set normalized
         then Inl emission_invalid_content_type
         else (let parts = map strip (split_on CHR '';'' normalized); base = hd parts
               in if base = [] \<or> \<not> rx_fullmatch MEDIA_TYPE_RE base
                  then Inl emission_invalid_content_type
                  else r_bind (content_type_parameters (tl parts)) (\<lambda>parameters.
                    Inr (if parameters \<noteq> [] then join_with ''; '' (base # parameters) else base))))"
| "emission_content_type _ = Inl emission_invalid_content_type"

section \<open>Metadata\<close>

definition MAX_METADATA_DEPTH :: int where "MAX_METADATA_DEPTH = 8"
definition MAX_METADATA_TOP_LEVEL_KEYS :: nat where "MAX_METADATA_TOP_LEVEL_KEYS = 64"
definition MAX_METADATA_MAPPING_ITEMS :: nat where "MAX_METADATA_MAPPING_ITEMS = 64"
definition MAX_METADATA_LIST_ITEMS :: nat where "MAX_METADATA_LIST_ITEMS = 256"
definition MAX_METADATA_STRING_LENGTH :: nat where "MAX_METADATA_STRING_LENGTH = 4096"
definition MAX_METADATA_TOTAL_NODES :: nat where "MAX_METADATA_TOTAL_NODES = 2048"
definition MAX_METADATA_KEY_LENGTH :: nat where "MAX_METADATA_KEY_LENGTH = 128"

lemmas emission_limits = MAX_METADATA_DEPTH_def MAX_METADATA_TOP_LEVEL_KEYS_def
  MAX_METADATA_MAPPING_ITEMS_def MAX_METADATA_LIST_ITEMS_def MAX_METADATA_STRING_LENGTH_def
  MAX_METADATA_TOTAL_NODES_def MAX_METADATA_KEY_LENGTH_def MAX_RUN_ID_def MAX_SLOT_LENGTH_def
  MAX_OCCURRENCE_LENGTH_def MAX_CONTENT_TYPE_LENGTH_def

fun freeze_atom :: "atom \<Rightarrow> bool" where
  "freeze_atom (AFloat x) = isfinite x"
| "freeze_atom (AStr s) = (length s \<le> MAX_METADATA_STRING_LENGTH)"
| "freeze_atom (ABytes _) = False"
| "freeze_atom (AObj _ _) = False"
| "freeze_atom _ = True"

fun freeze_key :: "atom \<Rightarrow> bool" where
  "freeze_key (AStr k) = (k \<noteq> [] \<and> length k \<le> MAX_METADATA_KEY_LENGTH)"
| "freeze_key _ = False"

text \<open>
  \<open>_freeze_metadata_value\<close>, with the shared node counter threaded through the calls. A frozen
  mapping (\<open>MappingProxyType\<close>) is a \<open>PDict\<close> and a frozen list a \<open>PTuple\<close>. The set of the
  containers being visited only matters on a cyclic object graph, and a value is a tree.
\<close>

fun freeze_metadata_value :: "int \<Rightarrow> nat \<Rightarrow> pyval \<Rightarrow> (pyval \<times> nat) res"
and freeze_list :: "int \<Rightarrow> nat \<Rightarrow> pyval list \<Rightarrow> (pyval list \<times> nat) res"
and freeze_items :: "int \<Rightarrow> nat \<Rightarrow> pyitems \<Rightarrow> (pyitems \<times> nat) res"
where
  "freeze_metadata_value depth nodes v =
     (let nodes = Suc nodes
      in if MAX_METADATA_TOTAL_NODES < nodes then Inl emission_invalid_metadata
         else if MAX_METADATA_DEPTH < depth then Inl emission_invalid_metadata
         else (case v of
             Atom a \<Rightarrow> if freeze_atom a then Inr (Atom a, nodes) else Inl emission_invalid_metadata
           | PDict kvs \<Rightarrow>
               if depth = 0 \<and> MAX_METADATA_TOP_LEVEL_KEYS < length kvs
               then Inl emission_invalid_metadata
               else if MAX_METADATA_MAPPING_ITEMS < length kvs then Inl emission_invalid_metadata
               else r_bind (freeze_items (depth + 1) nodes kvs) (\<lambda>(out, n).
                 Inr (PDict (dict_of out), n))
           | PList xs \<Rightarrow>
               if MAX_METADATA_LIST_ITEMS < length xs then Inl emission_invalid_metadata
               else r_bind (freeze_list (depth + 1) nodes xs) (\<lambda>(out, n). Inr (PTuple out, n))
           | PTuple _ \<Rightarrow> Inl emission_invalid_metadata))"
| "freeze_list depth nodes [] = Inr ([], nodes)"
| "freeze_list depth nodes (x # xs) =
     r_bind (freeze_metadata_value depth nodes x) (\<lambda>(y, n).
     r_bind (freeze_list depth n xs) (\<lambda>(ys, n). Inr (y # ys, n)))"
| "freeze_items depth nodes [] = Inr ([], nodes)"
| "freeze_items depth nodes ((k, v) # kvs) =
     (if \<not> freeze_key k then Inl emission_invalid_metadata
      else r_bind (freeze_metadata_value depth nodes v) (\<lambda>(w, n).
        r_bind (freeze_items depth n kvs) (\<lambda>(out, n). Inr ((k, w) # out, n))))"

declare freeze_metadata_value.simps [simp del]

fun emission_metadata :: "pyval \<Rightarrow> pyitems res" where
  "emission_metadata (Atom ANone) = Inr []"
| "emission_metadata (PDict kvs) =
     r_bind (freeze_metadata_value 0 0 (PDict (redact_mapping (MAX_METADATA_DEPTH + 2) kvs)))
       (\<lambda>(normalized, _). case normalized of PDict d \<Rightarrow> Inr d | _ \<Rightarrow> Inl emission_invalid_metadata)"
| "emission_metadata _ = Inl emission_invalid_metadata"

text \<open>\<open>json.dumps\<close> writes a tuple as it writes a list, so \<open>_thaw\<close> only changes the containers.\<close>

fun thaw :: "pyval \<Rightarrow> pyval"
and thaw_list :: "pyval list \<Rightarrow> pyval list"
and thaw_items :: "pyitems \<Rightarrow> pyitems"
where
  "thaw (Atom a) = Atom a"
| "thaw (PList xs) = PList xs"
| "thaw (PTuple xs) = PList (thaw_list xs)"
| "thaw (PDict kvs) = PDict (dict_of (thaw_items kvs))"
| "thaw_list [] = []"
| "thaw_list (x # xs) = thaw x # thaw_list xs"
| "thaw_items [] = []"
| "thaw_items ((k, v) # kvs) = (AStr (atom_text k), thaw v) # thaw_items kvs"

definition canonicalize_artifact_metadata :: "pyval \<Rightarrow> string res" where
  "canonicalize_artifact_metadata metadata =
     r_bind (emission_metadata metadata) (\<lambda>normalized.
       Inr (hash_text (json_compact (thaw (PDict normalized)))))"

section \<open>Requests, identities and storage keys\<close>

record emission_context = ec_run_id :: int

record artifact_identity =
  id_run_id :: int
  id_slot :: artifact_slot
  id_occurrence :: "artifact_occurrence option"

record emission_request =
  er_slot :: artifact_slot
  er_occurrence :: "artifact_occurrence option"
  er_body :: string
  er_content_type :: string
  er_metadata :: pyitems

definition ArtifactEmissionContext :: "pyval \<Rightarrow> emission_context res" where
  "ArtifactEmissionContext run_id = r_bind (emission_run_id run_id) (\<lambda>r. Inr \<lparr>ec_run_id = r\<rparr>)"

definition ArtifactIdentity :: "pyval \<Rightarrow> artifact_slot instance_or_value \<Rightarrow>
    artifact_occurrence instance_or_value \<Rightarrow> artifact_identity res" where
  "ArtifactIdentity run_id slot occurrence =
     r_bind (emission_run_id run_id) (\<lambda>r.
     r_bind (normalize_artifact_slot slot) (\<lambda>s.
     r_bind (normalize_artifact_occurrence occurrence) (\<lambda>oc.
       Inr \<lparr>id_run_id = r, id_slot = s, id_occurrence = oc\<rparr>)))"

definition ArtifactEmissionRequest :: "artifact_slot instance_or_value \<Rightarrow>
    artifact_occurrence instance_or_value \<Rightarrow> pyval \<Rightarrow> pyval \<Rightarrow> pyval \<Rightarrow> emission_request res" where
  "ArtifactEmissionRequest slot occurrence body content_type metadata =
     r_bind (normalize_artifact_slot slot) (\<lambda>s.
     r_bind (normalize_artifact_occurrence occurrence) (\<lambda>oc.
     r_bind (emission_body body) (\<lambda>b.
     r_bind (emission_content_type content_type) (\<lambda>c.
     r_bind (emission_metadata metadata) (\<lambda>m.
       Inr \<lparr>er_slot = s, er_occurrence = oc, er_body = b, er_content_type = c, er_metadata = m\<rparr>)))))"

fun opt_instance :: "'a option \<Rightarrow> 'a instance_or_value" where
  "opt_instance None = Value PNone"
| "opt_instance (Some x) = Instance x"

definition build_artifact_identity :: "emission_context \<Rightarrow> emission_request \<Rightarrow> artifact_identity res" where
  "build_artifact_identity ctx request =
     r_bind (normalize_artifact_slot (Instance (er_slot request))) (\<lambda>s.
     r_bind (normalize_artifact_occurrence (opt_instance (er_occurrence request))) (\<lambda>oc.
       ArtifactIdentity (PInt (ec_run_id ctx)) (Instance s) (opt_instance oc)))"

text \<open>\<open>urllib.parse.quote(s, safe='')\<close>: every byte of the UTF-8 text outside the unreserved set
  becomes a percent sign and two upper-case hexadecimal digits.\<close>

definition is_unreserved :: "char \<Rightarrow> bool" where
  "is_unreserved c = (is_alnum c \<or> c \<in> set ''_.-~'')"

definition upper_hex :: "nat \<Rightarrow> char" where
  "upper_hex n = (if n < 10 then char_of (48 + n) else char_of (55 + n))"

definition quote :: "string \<Rightarrow> string" where
  "quote s = concat (map (\<lambda>b. if is_unreserved b then [b]
     else [CHR ''%'', upper_hex (ord_of b div 16), upper_hex (ord_of b mod 16)]) (utf8 s))"

definition encode_identity_component :: "pyval \<Rightarrow> string" where
  "encode_identity_component v = quote (val_text v)"

definition build_artifact_storage_key :: "artifact_identity \<Rightarrow> string res" where
  "build_artifact_storage_key identity =
     r_bind (ArtifactIdentity (PInt (id_run_id identity)) (Instance (id_slot identity))
       (opt_instance (id_occurrence identity))) (\<lambda>normalized.
     let parts = [''artifact'', ''v1'', encode_identity_component (PInt (id_run_id normalized)),
           encode_identity_component (PStr (slot_value (id_slot normalized)))]
         @ (case id_occurrence normalized of None \<Rightarrow> []
            | Some oc \<Rightarrow> [encode_identity_component (PStr (occurrence_value oc))])
     in validate_storage_key (join_with ''/'' parts))"

definition artifact_emission_request_signature ::
  "emission_context \<Rightarrow> emission_request \<Rightarrow> (artifact_identity \<times> string \<times> string \<times> string) res" where
  "artifact_emission_request_signature ctx request =
     r_bind (build_artifact_identity ctx request) (\<lambda>identity.
     r_bind (canonicalize_artifact_metadata (PDict (er_metadata request))) (\<lambda>token.
       Inr (identity, er_body request, er_content_type request, token)))"

definition artifact_emission_requests_equivalent ::
  "emission_request \<Rightarrow> emission_request \<Rightarrow> bool res" where
  "artifact_emission_requests_equivalent left right =
     (if er_slot left = er_slot right \<and> er_occurrence left = er_occurrence right
         \<and> er_body left = er_body right \<and> er_content_type left = er_content_type right
      then r_bind (canonicalize_artifact_metadata (PDict (er_metadata left))) (\<lambda>l.
        r_bind (canonicalize_artifact_metadata (PDict (er_metadata right))) (\<lambda>r. Inr (l = r)))
      else Inr False)"

definition emission_conflict :: "artifact_identity \<Rightarrow> exn" where
  "emission_conflict identity =
     ArtifactEmissionConflict ''Artifact emission rejected a conflicting logical request.''
       ''ARTIFACT_EMISSION_CONFLICT'' None
       [(''slot'', PStr (slot_value (id_slot identity))), (''run_id'', PInt (id_run_id identity))]"

definition validate_duplicate_emission ::
  "artifact_identity \<Rightarrow> emission_request \<Rightarrow> emission_request \<Rightarrow> unit res" where
  "validate_duplicate_emission identity existing incoming =
     r_bind (artifact_emission_requests_equivalent existing incoming) (\<lambda>same.
       if same then Inr () else Inl (emission_conflict identity))"

definition build_artifact_write_request :: "emission_context \<Rightarrow> emission_request \<Rightarrow> write_request res" where
  "build_artifact_write_request ctx request =
     r_bind (build_artifact_identity ctx request) (\<lambda>identity.
     r_bind (build_artifact_storage_key identity) (\<lambda>key.
       ArtifactWriteRequest (PInt (id_run_id identity)) (PStr key) (PBytes (er_body request))
         (PStr (slot_value (id_slot identity))) (PStr ''artifact'')
         (PStr (er_content_type request)) (PDict (er_metadata request))))"

section \<open>Storage keys of identities\<close>

definition label_ok :: "nat \<Rightarrow> string \<Rightarrow> bool" where
  "label_ok n s \<longleftrightarrow> s \<noteq> [] \<and> length s \<le> n \<and> is_label_end (hd s) \<and> is_label_end (last s)
     \<and> (\<forall>c \<in> set s. is_label_char c)"

lemma rx_star_then_last:
  "rx_star P p s (\<lambda>p s. case s of [] \<Rightarrow> None | c # cs \<Rightarrow>
       if Q c then if cs = [] then Some () else None else None) = Some ()
   \<longleftrightarrow> s \<noteq> [] \<and> (\<forall>c \<in> set (butlast s). P c) \<and> Q (last s)"
proof (induction s arbitrary: p)
  case (Cons c cs)
  note IH = Cons.IH [of "Some c"]
  show ?case
  proof (cases "cs = []")
    case True
    then show ?thesis by (auto split: option.splits)
  next
    case False
    then show ?thesis using IH
      by (cases "rx_star P (Some c) cs (\<lambda>p s. case s of [] \<Rightarrow> None | c # cs \<Rightarrow>
        if Q c then if cs = [] then Some () else None else None)") auto
  qed
qed simp

lemma unit_option: "(x :: unit option) \<noteq> None \<longleftrightarrow> x = Some ()"
  by (cases x) auto

lemma label_end_char: "is_label_end c \<Longrightarrow> is_label_char c"
  by (auto simp: is_label_end_def is_label_char_def)

lemma logical_identifier_iff:
  "rx_fullmatch LOGICAL_IDENTIFIER_RE s \<longleftrightarrow>
     s \<noteq> [] \<and> is_label_end (hd s) \<and> is_label_end (last s) \<and> (\<forall>c \<in> set s. is_label_char c)"
proof (cases s)
  case Nil
  then show ?thesis
    by (simp add: rx_fullmatch_def LOGICAL_IDENTIFIER_RE_def)
next
  case (Cons c cs)
  let ?star = "rx_star is_label_char (Some c) cs (\<lambda>p s. case s of [] \<Rightarrow> None | c # cs \<Rightarrow>
       if is_label_end c then if cs = [] then Some () else None else None)"
  have m: "rx_fullmatch LOGICAL_IDENTIFIER_RE s \<longleftrightarrow> is_label_end c \<and> (?star = Some () \<or> cs = [])"
    using Cons unfolding rx_fullmatch_def LOGICAL_IDENTIFIER_RE_def ROpt_def
    by (cases ?star) (simp_all cong: list.case_cong)
  have b: "(\<forall>x \<in> set cs. is_label_char x) \<longleftrightarrow> (\<forall>x \<in> set (butlast cs). is_label_char x) \<and> is_label_char (last cs)"
    if "cs \<noteq> []"
    using append_butlast_last_id [OF that] by (metis (no_types) Un_iff butlast_snoc in_set_butlastD last_in_set set_append set_ConsD that empty_iff empty_set)
  show ?thesis
    using Cons m b label_end_char by (auto simp: rx_star_then_last)
qed

lemma lower_label: "(\<forall>c \<in> set s. is_label_char c) \<Longrightarrow> lower s = s"
  by (induction s) (auto simp: lower_def lower_char_def is_label_char_def is_lower_def is_digit_def Let_def)

lemma label_char_not_space: "is_label_char c \<Longrightarrow> \<not> is_space c"
  by (auto simp: is_label_char_def is_space_def is_lower_def is_digit_def Let_def)

lemma label_char_not_nul: "is_label_char c \<Longrightarrow> c \<noteq> char_of (0 :: nat)"
proof
  assume "is_label_char c" and "c = char_of (0 :: nat)"
  then have "ord_of c = 0" and "is_label_char c" by simp_all
  then show False by (auto simp: is_label_char_def is_lower_def is_digit_def Let_def)
qed

lemma normalize_artifact_label_iff:
  "normalize_artifact_label t cd n v = Inr s \<longleftrightarrow> v = PStr s \<and> label_ok n s"
proof (cases "\<exists>x. v = PStr x")
  case True
  then obtain x where v: "v = PStr x" by blast
  have sp: "strip x = x" if "label_ok n x"
    using that by (intro strip_id) (auto simp: label_ok_def label_char_not_space)
  have nul: "char_of (0 :: nat) \<notin> set x" if "label_ok n x"
    using that label_char_not_nul unfolding label_ok_def by blast
  show ?thesis
    using v sp nul lower_label [of x]
    by (auto simp: Let_def logical_identifier_iff label_ok_def)
next
  case False
  then show ?thesis
    by (cases "(t, cd, n, v)" rule: normalize_artifact_label.cases) auto
qed

definition wf_identity :: "artifact_identity \<Rightarrow> bool" where
  "wf_identity a \<longleftrightarrow> 0 < id_run_id a \<and> id_run_id a \<le> MAX_RUN_ID
     \<and> label_ok MAX_SLOT_LENGTH (slot_value (id_slot a))
     \<and> (\<forall>oc. id_occurrence a = Some oc \<longrightarrow> label_ok MAX_OCCURRENCE_LENGTH (occurrence_value oc))"

lemma emission_run_id_iff: "emission_run_id v = Inr i \<longleftrightarrow> v = PInt i \<and> 0 < i \<and> i \<le> MAX_RUN_ID"
  by (cases v rule: emission_run_id.cases) auto

text \<open>The parts of a key: its text, split at the slashes.\<close>

definition key_parts :: "artifact_identity \<Rightarrow> string list" where
  "key_parts a = [''artifact'', ''v1'', int_text (id_run_id a), slot_value (id_slot a)]
     @ (case id_occurrence a of None \<Rightarrow> [] | Some oc \<Rightarrow> [occurrence_value oc])"

lemma quote_unreserved: "(\<forall>c \<in> set s. is_unreserved c) \<Longrightarrow> quote s = s"
proof (induction s)
  case (Cons c cs)
  have "ord_of c < 128"
    using Cons.prems by (auto simp: is_unreserved_def is_alnum_def is_digit_def is_lower_def is_upper_def Let_def)
  then show ?case using Cons by (simp add: quote_def utf8_def utf8_char_def)
qed (simp add: quote_def utf8_def)

lemma label_unreserved: "label_ok n s \<Longrightarrow> \<forall>c \<in> set s. is_unreserved c"
  by (auto simp: label_ok_def is_label_char_def is_unreserved_def is_alnum_def)

lemma digits_unreserved: "\<forall>c \<in> set (nat_text n). is_unreserved c"
  using nat_text_digits by (auto simp: is_unreserved_def is_alnum_def)

definition plain_char :: "char \<Rightarrow> bool" where
  "plain_char c \<longleftrightarrow> c \<notin> {CHR ''/'', CHR '':'', backslash, CHR ''~'', CHR ''.''} \<and> \<not> is_space c"

lemma label_char_plain: "is_label_char c \<Longrightarrow> plain_char c"
  unfolding plain_char_def
  by (intro conjI notI)
    (auto simp: is_label_char_def is_lower_def is_digit_def is_space_def Let_def)

lemma label_plain: "label_ok n s \<Longrightarrow> s \<noteq> [] \<and> (\<forall>c \<in> set s. plain_char c)"
  using label_char_plain unfolding label_ok_def by blast

lemma digit_plain: "is_digit c \<Longrightarrow> plain_char c"
  by (auto simp: is_digit_def plain_char_def is_space_def Let_def)

lemma key_parts_plain:
  assumes "wf_identity a" and "p \<in> set (key_parts a)"
  shows "p \<noteq> [] \<and> (\<forall>c \<in> set p. plain_char c)"
proof -
  have "\<forall>c \<in> set ''artifact''. plain_char c" "\<forall>c \<in> set ''v1''. plain_char c"
    by (simp_all add: plain_char_def is_space_def)
  moreover have "''artifact'' \<noteq> ([] :: string)" "''v1'' \<noteq> ([] :: string)" by simp_all
  moreover have "\<forall>c \<in> set (int_text (id_run_id a)). plain_char c" "int_text (id_run_id a) \<noteq> []"
    using assms(1) nat_text_digits digit_plain by (auto simp: int_text_def wf_identity_def)
  moreover have "slot_value (id_slot a) \<noteq> [] \<and> (\<forall>c \<in> set (slot_value (id_slot a)). plain_char c)"
    using assms(1) label_plain unfolding wf_identity_def by blast
  moreover have "occurrence_value oc \<noteq> [] \<and> (\<forall>c \<in> set (occurrence_value oc). plain_char c)"
    if "id_occurrence a = Some oc" for oc
    using assms(1) that label_plain unfolding wf_identity_def by blast
  moreover have "p = ''artifact'' \<or> p = ''v1'' \<or> p = int_text (id_run_id a) \<or> p = slot_value (id_slot a)
      \<or> (\<exists>oc. id_occurrence a = Some oc \<and> p = occurrence_value oc)"
    using assms(2) by (cases "id_occurrence a") (simp_all add: key_parts_def)
  ultimately show ?thesis by (elim disjE exE conjE) simp_all
qed

lemma quote_int: "0 < i \<Longrightarrow> quote (int_text i) = int_text i"
  by (simp add: int_text_def quote_unreserved digits_unreserved)

lemma ArtifactIdentity_instances:
  "wf_identity a \<Longrightarrow>
     ArtifactIdentity (PInt (id_run_id a)) (Instance (id_slot a)) (opt_instance (id_occurrence a)) = Inr a"
  unfolding wf_identity_def ArtifactIdentity_def
  by (cases "id_occurrence a") (simp_all add: emission_run_id_iff)

lemma strip_join_plain:
  assumes "ps \<noteq> []" and "\<forall>p \<in> set ps. p \<noteq> [] \<and> (\<forall>c \<in> set p. \<not> is_space c)"
  shows "strip (join_with ''/'' ps) = join_with ''/'' ps"
proof -
  have "\<not> is_space c" if "c \<in> set (join_with ''/'' ps)" for c
    using assms(2) that
    by (induction ps rule: induct_list012) (auto simp: is_space_def)
  then show ?thesis by (intro strip_id) auto
qed

lemma build_artifact_storage_key_eq:
  assumes "wf_identity a"
  shows "build_artifact_storage_key a = Inr (join_with ''/'' (key_parts a))"
    and "is_safe_storage_key (join_with ''/'' (key_parts a))"
    and "split_on CHR ''/'' (join_with ''/'' (key_parts a)) = key_parts a"
proof -
  let ?k = "join_with ''/'' (key_parts a)"
  have plain: "\<forall>p \<in> set (key_parts a). p \<noteq> [] \<and> (\<forall>c \<in> set p. plain_char c)"
    using key_parts_plain [OF assms] by blast
  have ne: "key_parts a \<noteq> []" by (simp add: key_parts_def)
  show split: "split_on CHR ''/'' ?k = key_parts a"
    by (rule split_on_join [OF ne]) (use plain in \<open>auto simp: plain_char_def\<close>)
  have chars: "c = CHR ''/'' \<or> plain_char c" if "c \<in> set ?k" for c
  proof -
    have "c \<in> set (join_with ''/'' ps) \<Longrightarrow> c = CHR ''/'' \<or> (\<exists>p \<in> set ps. c \<in> set p)" for ps
      by (induction ps rule: induct_list012) auto
    then show ?thesis using that plain by blast
  qed
  have hd: "hd ?k = CHR ''a''" and nek: "?k \<noteq> []" by (simp_all add: key_parts_def)
  have strip: "strip ?k = ?k"
    by (rule strip_join_plain [OF ne]) (use plain in \<open>auto simp: plain_char_def\<close>)
  have absent: "c \<notin> set ?k" if "\<not> plain_char c" "c \<noteq> CHR ''/''" for c
    using chars that by blast
  have no: "CHR '':'' \<notin> set ?k" "backslash \<notin> set ?k"
    by (rule absent; simp add: plain_char_def)+
  have dot: "\<not> plain_char CHR ''.''" by (simp add: plain_char_def)
  have parts: "\<forall>p \<in> set (key_parts a). p \<notin> {'''', ''.'', ''..''}"
  proof
    fix p assume "p \<in> set (key_parts a)"
    then have "p \<noteq> []" "\<forall>c \<in> set p. plain_char c" using plain by blast+
    then show "p \<notin> {'''', ''.'', ''..''}" using dot by auto
  qed
  show safe: "is_safe_storage_key ?k"
    unfolding safe_storage_key_iff split using hd nek strip no parts by simp
  have q: "quote (slot_value (id_slot a)) = slot_value (id_slot a)"
    using assms label_unreserved quote_unreserved unfolding wf_identity_def by blast
  have qo: "quote (occurrence_value oc) = occurrence_value oc" if "id_occurrence a = Some oc" for oc
    using assms that label_unreserved quote_unreserved unfolding wf_identity_def by blast
  have i: "quote (int_text (id_run_id a)) = int_text (id_run_id a)"
    using assms quote_int unfolding wf_identity_def by blast
  have parts_eq: "[''artifact'', ''v1'', encode_identity_component (PInt (id_run_id a)),
           encode_identity_component (PStr (slot_value (id_slot a)))]
         @ (case id_occurrence a of None \<Rightarrow> []
            | Some oc \<Rightarrow> [encode_identity_component (PStr (occurrence_value oc))]) = key_parts a"
    by (cases "id_occurrence a") (simp_all add: key_parts_def encode_identity_component_def q qo i)
  show "build_artifact_storage_key a = Inr ?k"
    unfolding build_artifact_storage_key_def ArtifactIdentity_instances [OF assms] r_bind_simps
      Let_def parts_eq validate_storage_key_def
    using safe by simp
qed

lemma int_text_inj: "0 < i \<Longrightarrow> 0 < j \<Longrightarrow> int_text i = int_text j \<Longrightarrow> i = j"
  using nat_text_inj [of "nat i" "nat j"] by (simp add: int_text_def)

lemma key_parts_inj:
  assumes "wf_identity a" and "wf_identity b" and "key_parts a = key_parts b"
  shows "a = b"
proof -
  have "id_run_id a = id_run_id b"
    using assms int_text_inj unfolding wf_identity_def by (auto simp: key_parts_def)
  moreover have "id_slot a = id_slot b" "id_occurrence a = id_occurrence b"
    using assms(3) by (auto simp: key_parts_def split: option.splits)
  ultimately show ?thesis by simp
qed

lemma storage_key_inj:
  assumes "wf_identity a" and "wf_identity b"
    and "build_artifact_storage_key a = build_artifact_storage_key b"
  shows "a = b"
  using assms build_artifact_storage_key_eq(1,3) key_parts_inj by (metis sum.inject(2))

lemma ArtifactIdentity_wf: "ArtifactIdentity r (Value s) (Value oc) = Inr a \<Longrightarrow> wf_identity a"
  by (auto simp: ArtifactIdentity_def wf_identity_def r_simps emission_run_id_iff ArtifactSlot_def
      ArtifactOccurrence_def normalize_artifact_label_iff split: if_splits)

section \<open>Frozen metadata is bounded\<close>

fun val_nodes :: "pyval \<Rightarrow> nat"
and list_nodes :: "pyval list \<Rightarrow> nat"
and items_nodes :: "pyitems \<Rightarrow> nat"
where
  "val_nodes (Atom a) = 1"
| "val_nodes (PList xs) = Suc (list_nodes xs)"
| "val_nodes (PTuple xs) = Suc (list_nodes xs)"
| "val_nodes (PDict kvs) = Suc (items_nodes kvs)"
| "list_nodes [] = 0"
| "list_nodes (x # xs) = val_nodes x + list_nodes xs"
| "items_nodes [] = 0"
| "items_nodes ((k, v) # kvs) = val_nodes v + items_nodes kvs"

text \<open>Scalars within their limits, keys within theirs, and no mutable container.\<close>

fun frozen :: "pyval \<Rightarrow> bool"
and frozen_list :: "pyval list \<Rightarrow> bool"
and frozen_items :: "pyitems \<Rightarrow> bool"
where
  "frozen (Atom a) = freeze_atom a"
| "frozen (PList xs) = False"
| "frozen (PTuple xs) = (length xs \<le> MAX_METADATA_LIST_ITEMS \<and> frozen_list xs)"
| "frozen (PDict kvs) = (wf_dict kvs \<and> length kvs \<le> MAX_METADATA_MAPPING_ITEMS \<and> frozen_items kvs)"
| "frozen_list [] = True"
| "frozen_list (x # xs) = (frozen x \<and> frozen_list xs)"
| "frozen_items [] = True"
| "frozen_items ((k, v) # kvs) = (freeze_key k \<and> frozen v \<and> frozen_items kvs)"

lemma frozen_items_iff: "frozen_items kvs \<longleftrightarrow> (\<forall>(k, v) \<in> set kvs. freeze_key k \<and> frozen v)"
  by (induction kvs) auto

lemma frozen_list_iff: "frozen_list xs \<longleftrightarrow> (\<forall>x \<in> set xs. frozen x)"
  by (induction xs) auto

lemma frozen_items_dict_of: "frozen_items kvs \<Longrightarrow> frozen_items (dict_of kvs)"
  using set_dict_of [of kvs] unfolding frozen_items_iff by blast

lemma items_nodes_dict_set: "items_nodes (dict_set k v d) \<le> val_nodes v + items_nodes d"
  by (induction d) auto

lemma items_nodes_snoc: "items_nodes (kvs @ [(k, v)]) = items_nodes kvs + val_nodes v"
  by (induction kvs) auto

lemma items_nodes_dict_of: "items_nodes (dict_of kvs) \<le> items_nodes kvs"
proof (induction kvs rule: rev_induct)
  case (snoc x xs)
  obtain k v where x: "x = (k, v)" by force
  then show ?case
    using snoc items_nodes_dict_set [of k v "dict_of xs"] by (simp add: dict_of_snoc items_nodes_snoc)
qed simp

lemma length_freeze_items: "freeze_items d n kvs = Inr (out, n') \<Longrightarrow> length out = length kvs"
  by (induction d n kvs arbitrary: out n' rule: freeze_metadata_value_freeze_list_freeze_items.induct(3)
      [where P = "\<lambda>_ _ _. True" and Q = "\<lambda>_ _ _. True"])
    (auto simp: r_simps split: if_splits)

lemma length_freeze_list: "freeze_list d n xs = Inr (out, n') \<Longrightarrow> length out = length xs"
  by (induction d n xs arbitrary: out n' rule: freeze_metadata_value_freeze_list_freeze_items.induct(2)
      [where P = "\<lambda>_ _ _. True" and R = "\<lambda>_ _ _. True"])
    (auto simp: r_simps split: if_splits)

lemma freeze_bounded:
  "freeze_metadata_value d n v = Inr (w, n') \<Longrightarrow> 
     frozen w \<and> val_depth w \<le> nat (MAX_METADATA_DEPTH + 1 - d) \<and> n + val_nodes w \<le> n'
       \<and> n' \<le> MAX_METADATA_TOTAL_NODES"
  "freeze_list d n xs = Inr (ys, n') \<Longrightarrow> n \<le> MAX_METADATA_TOTAL_NODES \<Longrightarrow>
     frozen_list ys \<and> list_depth ys \<le> nat (MAX_METADATA_DEPTH + 1 - d) \<and> n + list_nodes ys \<le> n'
       \<and> n' \<le> MAX_METADATA_TOTAL_NODES"
  "freeze_items d n kvs = Inr (out, n') \<Longrightarrow> n \<le> MAX_METADATA_TOTAL_NODES \<Longrightarrow>
     frozen_items out \<and> items_depth out \<le> nat (MAX_METADATA_DEPTH + 1 - d) \<and> n + items_nodes out \<le> n'
       \<and> n' \<le> MAX_METADATA_TOTAL_NODES"
proof (induction d n v and d n xs and d n kvs arbitrary: w n' and ys n' and out n'
    rule: freeze_metadata_value_freeze_list_freeze_items.induct)
  case (1 depth nodes v)
  have ok: "Suc nodes \<le> MAX_METADATA_TOTAL_NODES" "depth \<le> MAX_METADATA_DEPTH"
    using "1.prems" by (auto simp: freeze_metadata_value.simps [of depth] Let_def split: if_splits)
  then have d: "Suc (nat (MAX_METADATA_DEPTH + 1 - (depth + 1))) = nat (MAX_METADATA_DEPTH + 1 - depth)"
    by simp
  show ?case
  proof (cases v)
    case (Atom a)
    then show ?thesis
      using "1.prems" ok by (auto simp: freeze_metadata_value.simps [of depth] Let_def split: if_splits)
  next
    case (PTuple xs)
    then show ?thesis
      using "1.prems" by (auto simp: freeze_metadata_value.simps [of depth] Let_def split: if_splits)
  next
    case (PList xs)
    then obtain ys where f: "freeze_list (depth + 1) (Suc nodes) xs = Inr (ys, n')" "w = PTuple ys"
      "length xs \<le> MAX_METADATA_LIST_ITEMS"
      using "1.prems" ok
      by (auto simp: freeze_metadata_value.simps [of depth] Let_def r_simps split: if_splits)
    have "frozen_list ys \<and> list_depth ys \<le> nat (MAX_METADATA_DEPTH + 1 - (depth + 1))
        \<and> Suc nodes + list_nodes ys \<le> n' \<and> n' \<le> MAX_METADATA_TOTAL_NODES"
      using "1.IH"(1) [OF refl _ _ PList _ f(1)] ok f(3) by simp
    then show ?thesis using f length_freeze_list [OF f(1)] d by auto
  next
    case (PDict kvs)
    then obtain out where f: "freeze_items (depth + 1) (Suc nodes) kvs = Inr (out, n')"
      "w = PDict (dict_of out)" "length kvs \<le> MAX_METADATA_MAPPING_ITEMS"
      "\<not> (depth = 0 \<and> MAX_METADATA_TOP_LEVEL_KEYS < length kvs)"
      using "1.prems" ok
      by (auto simp: freeze_metadata_value.simps [of depth] Let_def r_simps split: if_splits)
    have i: "frozen_items out \<and> items_depth out \<le> nat (MAX_METADATA_DEPTH + 1 - (depth + 1))
        \<and> Suc nodes + items_nodes out \<le> n' \<and> n' \<le> MAX_METADATA_TOTAL_NODES"
      using "1.IH"(2) [OF refl _ _ PDict _ _ f(1)] ok f(3,4) by simp
    then have "items_depth (dict_of out) \<le> nat (MAX_METADATA_DEPTH + 1 - (depth + 1))"
      using items_depth_dict_of by blast
    then show ?thesis
      using i f length_freeze_items [OF f(1)] d length_dict_of [of out] items_nodes_dict_of [of out]
        frozen_items_dict_of [of out] by auto
  qed
next
  case (3 depth nodes x xs)
  then show ?case by (fastforce simp: r_simps)
next
  case (5 depth nodes k v kvs)
  then show ?case by (fastforce simp: r_simps split: if_splits)
qed auto

section \<open>Every emission request maps to a store request\<close>

text \<open>Values without bytes and objects, which the stores' metadata normalization accepts.\<close>

fun json_like :: "pyval \<Rightarrow> bool"
and json_like_list :: "pyval list \<Rightarrow> bool"
and json_like_items :: "pyitems \<Rightarrow> bool"
where
  "json_like (Atom a) = (case a of ABytes _ \<Rightarrow> False | AObj _ _ \<Rightarrow> False | _ \<Rightarrow> True)"
| "json_like (PList xs) = json_like_list xs"
| "json_like (PTuple xs) = json_like_list xs"
| "json_like (PDict kvs) = json_like_items kvs"
| "json_like_list [] = True"
| "json_like_list (x # xs) = (json_like x \<and> json_like_list xs)"
| "json_like_items [] = True"
| "json_like_items ((k, v) # kvs) = (json_like v \<and> json_like_items kvs)"

lemma json_like_items_iff: "json_like_items kvs \<longleftrightarrow> (\<forall>p \<in> set kvs. json_like (snd p))"
  by (induction kvs) auto

lemma json_like_list_iff: "json_like_list xs \<longleftrightarrow> (\<forall>x \<in> set xs. json_like x)"
  by (induction xs) auto

lemma json_like_dict_of: "json_like_items kvs \<Longrightarrow> json_like_items (dict_of kvs)"
  using set_dict_of [of kvs] by (auto simp: json_like_items_iff)

lemma json_like_truncated: "json_like (truncated_level v)"
  by (cases v) (auto simp: truncated_items_def json_like_list_iff intro!: json_like_dict_of,
    auto simp: json_like_items_iff)

lemma json_like_redact:
  "json_like v \<Longrightarrow> json_like (redact_value_at m d key v)"
  "json_like_list xs \<Longrightarrow> json_like_list (redact_seq_items m d xs)"
  "json_like_items kvs \<Longrightarrow> json_like_items (redact_map_items m d kvs)"
proof (induction m d key v and m d xs and m d kvs
    rule: redact_value_at_redact_seq_items_redact_map_items.induct)
  case (1 m d key v)
  then show ?case
    by (auto simp: redact_value_at.simps [of m d key v] json_like_truncated json_like_dict_of
        split: pyval.split atom.splits option.splits)
qed (auto simp: Let_def)

lemma json_like_normalizes:
  "json_like v \<Longrightarrow> \<exists>w. normalize_json_value v = Inr w"
  "json_like_list xs \<Longrightarrow> \<exists>ys. normalize_json_list xs = Inr ys"
  "json_like_items kvs \<Longrightarrow> \<exists>out. normalize_json_items kvs = Inr out"
proof (induction v and xs and kvs
    rule: normalize_json_value_normalize_json_list_normalize_json_items.induct)
  case (1 a)
  then show ?case by (cases a) auto
qed auto

lemma frozen_json_like:
  "frozen v \<Longrightarrow> json_like v" "frozen_list xs \<Longrightarrow> json_like_list xs"
  "frozen_items kvs \<Longrightarrow> json_like_items kvs"
proof (induction v and xs and kvs rule: frozen_frozen_list_frozen_items.induct)
  case (1 a)
  then show ?case by (cases a) auto
qed auto

lemma frozen_metadata_accepted:
  assumes "frozen_items kvs"
  shows "\<exists>d. normalize_artifact_metadata (PDict kvs) = Inr d"
proof -
  have "json_like_items (redact_mapping 4 kvs)"
    using assms json_like_redact(3) json_like_dict_of frozen_json_like(3)
    by (simp add: redact_mapping_def)
  then obtain out where "normalize_json_items (redact_mapping 4 kvs) = Inr out"
    using json_like_normalizes(3) by blast
  then show ?thesis by simp
qed

lemma emission_metadata_bounded:
  assumes "emission_metadata m = Inr d"
  shows "frozen (PDict d) \<and> val_depth (PDict d) \<le> 9 \<and> val_nodes (PDict d) \<le> 2048"
proof (cases m rule: emission_metadata.cases)
  case (2 kvs)
  then obtain n where "freeze_metadata_value 0 0 (PDict (redact_mapping 10 kvs)) = Inr (PDict d, n)"
    using assms by (auto simp: r_simps emission_limits split: pyval.splits) (metis pyval.exhaust)
  from freeze_bounded(1) [OF this] show ?thesis by (simp add: emission_limits)
qed (use assms in \<open>auto\<close>)

lemma media_char_facts: "is_media_char c \<Longrightarrow> \<not> is_space c \<and> lower_char c = c"
  unfolding is_media_char_def
  by (auto simp: is_lower_def is_digit_def is_space_def lower_char_def Let_def)

definition ct_char :: "char \<Rightarrow> bool" where
  "ct_char c \<longleftrightarrow> is_media_char c \<or> c = CHR ''/'' \<or> c = CHR ''=''"

lemma ct_char_facts: "ct_char c \<Longrightarrow> \<not> is_space c \<and> lower_char c = c"
  unfolding ct_char_def using media_char_facts [of c]
  by (auto simp: is_space_def lower_char_def)

lemma media_type_chars: "rx_fullmatch MEDIA_TYPE_RE s \<Longrightarrow> \<forall>c \<in> set s. ct_char c"
  using rx_fullmatch_allows [of MEDIA_TYPE_RE s]
  by (auto simp: MEDIA_TYPE_RE_def RPlus_def ct_char_def)

lemma parameter_chars: "rx_fullmatch MEDIA_TYPE_PARAMETER_RE s \<Longrightarrow> \<forall>c \<in> set s. ct_char c"
  using rx_fullmatch_allows [of MEDIA_TYPE_PARAMETER_RE s]
  by (auto simp: MEDIA_TYPE_PARAMETER_RE_def RPlus_def ct_char_def)

lemma content_type_parameters_chars:
  "content_type_parameters ps = Inr out \<Longrightarrow> \<forall>p \<in> set out. p \<noteq> [] \<and> (\<forall>c \<in> set p. ct_char c)"
proof (induction ps arbitrary: out)
  case (Cons p ps)
  then obtain rest where "content_type_parameters ps = Inr rest" "out = p # rest" "p \<noteq> []"
    "rx_fullmatch MEDIA_TYPE_PARAMETER_RE p"
    by (auto simp: r_simps split: if_splits)
  then show ?case using Cons.IH parameter_chars by auto
qed simp

lemma join_words_ok:
  assumes "ps \<noteq> []" and "\<forall>p \<in> set ps. p \<noteq> [] \<and> (\<forall>c \<in> set p. ct_char c)"
  shows "content_type_ok (Some (join_with ''; '' ps))"
proof -
  let ?j = "join_with ''; '' ps"
  have chars: "\<forall>c \<in> set ?j. ct_char c \<or> c = CHR '';'' \<or> c = CHR '' ''"
    and ends: "?j \<noteq> [] \<and> ct_char (hd ?j) \<and> ct_char (last ?j)"
    using assms by (induction ps rule: induct_list012) auto
  have low: "lower ?j = ?j"
    using chars ct_char_facts
    by (auto simp: lower_def lower_char_def intro!: map_idI)
  have nl: "ord_of c \<noteq> 13 \<and> ord_of c \<noteq> 10" if "c \<in> set ?j" for c
    using chars that ct_char_facts [of c] by (auto simp: is_space_def Let_def)
  have "strip ?j = ?j" by (rule strip_id) (use ends ct_char_facts in blast)
  then show ?thesis using ends low nl by simp
qed

lemma emission_content_type_ok:
  assumes "emission_content_type v = Inr t"
  shows "content_type_ok (Some t)"
proof -
  obtain s where v: "v = PStr s"
    using assms by (cases v rule: emission_content_type.cases) auto
  let ?parts = "map strip (split_on CHR '';'' (lower (strip s)))"
  obtain params where p: "content_type_parameters (tl ?parts) = Inr params"
    "hd ?parts \<noteq> []" "rx_fullmatch MEDIA_TYPE_RE (hd ?parts)"
    "t = (if params \<noteq> [] then join_with ''; '' (hd ?parts # params) else hd ?parts)"
    using assms v by (auto simp: Let_def r_simps split: if_splits)
  then have "t = join_with ''; '' (hd ?parts # params)" by (cases params) auto
  then show ?thesis
    using join_words_ok [of "hd ?parts # params"] p media_type_chars content_type_parameters_chars
    by (simp del: join_with.simps)
qed

definition wf_emission :: "emission_request \<Rightarrow> bool" where
  "wf_emission r \<longleftrightarrow> label_ok MAX_SLOT_LENGTH (slot_value (er_slot r))
     \<and> (\<forall>oc. er_occurrence r = Some oc \<longrightarrow> label_ok MAX_OCCURRENCE_LENGTH (occurrence_value oc))
     \<and> content_type_ok (Some (er_content_type r)) \<and> frozen (PDict (er_metadata r))"

lemma ArtifactEmissionRequest_wf:
  assumes "ArtifactEmissionRequest (Value s) (Value oc) b c m = Inr r"
  shows "wf_emission r"
proof -
  obtain t d where t: "emission_content_type c = Inr t" "er_content_type r = t"
    and d: "emission_metadata m = Inr d" "er_metadata r = d"
    using assms by (auto simp: ArtifactEmissionRequest_def r_simps)
  have "label_ok MAX_SLOT_LENGTH (slot_value (er_slot r))"
    "\<forall>x. er_occurrence r = Some x \<longrightarrow> label_ok MAX_OCCURRENCE_LENGTH (occurrence_value x)"
    using assms by (auto simp: ArtifactEmissionRequest_def r_simps ArtifactSlot_def
        ArtifactOccurrence_def normalize_artifact_label_iff split: if_splits)
  then show ?thesis
    using emission_content_type_ok [OF t(1)] emission_metadata_bounded [OF d(1)] t d
    unfolding wf_emission_def by blast
qed

definition identity_of :: "emission_context \<Rightarrow> emission_request \<Rightarrow> artifact_identity" where
  "identity_of ctx r =
     \<lparr>id_run_id = ec_run_id ctx, id_slot = er_slot r, id_occurrence = er_occurrence r\<rparr>"

lemma identity_of_wf:
  "ArtifactEmissionContext v = Inr ctx \<Longrightarrow> wf_emission r \<Longrightarrow> wf_identity (identity_of ctx r)"
  by (auto simp: ArtifactEmissionContext_def r_simps emission_run_id_iff wf_emission_def
      wf_identity_def identity_of_def)

lemma build_artifact_identity_eq:
  assumes "wf_identity (identity_of ctx r)"
  shows "build_artifact_identity ctx r = Inr (identity_of ctx r)"
  using ArtifactIdentity_instances [OF assms]
  by (cases "er_occurrence r") (simp_all add: build_artifact_identity_def identity_of_def)

lemma build_artifact_write_request_ok:
  assumes "ArtifactEmissionContext v = Inr ctx" and "wf_emission r"
  shows "\<exists>w. build_artifact_write_request ctx r = Inr w \<and> wf_request w
    \<and> is_safe_storage_key (wr_storage_key w)
    \<and> split_on CHR ''/'' (wr_storage_key w) = key_parts (identity_of ctx r)
    \<and> wr_run_id w = Run_Int (ec_run_id ctx) \<and> wr_name w = slot_value (er_slot r)
    \<and> wr_body w = er_body r \<and> wr_content_type w = Some (er_content_type r)"
proof -
  let ?a = "identity_of ctx r" and ?k = "join_with ''/'' (key_parts (identity_of ctx r))"
  have a: "wf_identity ?a" by (rule identity_of_wf [OF assms])
  have name: "strip (slot_value (er_slot r)) = slot_value (er_slot r)"
    "if_truthy normalize_artifact_name (PStr (slot_value (er_slot r))) = Inr (slot_value (er_slot r))"
  proof -
    have "label_ok MAX_SLOT_LENGTH (slot_value (er_slot r))"
      using assms(2) by (simp add: wf_emission_def)
    then show "strip (slot_value (er_slot r)) = slot_value (er_slot r)"
      by (intro strip_id) (auto simp: label_ok_def label_char_not_space)
    then show "if_truthy normalize_artifact_name (PStr (slot_value (er_slot r)))
        = Inr (slot_value (er_slot r))"
      by (rule if_truthy_name_value)
  qed
  have kind: "if_truthy normalize_artifact_kind (PStr ''artifact'') = Inr ''artifact''"
    by (rule if_truthy_kind_value) (simp add: strip_def is_space_def)
  have ct: "normalize_artifact_content_type (PStr (er_content_type r)) = Inr (Some (er_content_type r))"
    using assms(2) normalize_content_type_value [of "Some (er_content_type r)"]
    unfolding wf_emission_def opt_str.simps by blast
  have "frozen_items (er_metadata r)" using assms(2) by (simp add: wf_emission_def)
  then obtain d where d: "normalize_artifact_metadata (PDict (er_metadata r)) = Inr d"
    using frozen_metadata_accepted by blast
  let ?w = "\<lparr>wr_run_id = Run_Int (ec_run_id ctx), wr_storage_key = ?k, wr_body = er_body r,
    wr_name = slot_value (er_slot r), wr_kind = ''artifact'',
    wr_content_type = Some (er_content_type r), wr_metadata = d\<rparr>"
  have args: "id_run_id ?a = ec_run_id ctx" "id_slot ?a = er_slot r" by (simp_all add: identity_of_def)
  have "ArtifactWriteRequest (PInt (ec_run_id ctx)) (PStr ?k) (PBytes (er_body r))
      (PStr (slot_value (er_slot r))) (PStr ''artifact'') (PStr (er_content_type r))
      (PDict (er_metadata r)) = Inr ?w"
    unfolding ArtifactWriteRequest_def name kind ct d by simp
  then have w: "build_artifact_write_request ctx r = Inr ?w"
    unfolding build_artifact_write_request_def build_artifact_identity_eq [OF a] r_bind_simps
      build_artifact_storage_key_eq(1) [OF a] args .
  then have "wf_request ?w"
    using ArtifactWriteRequest_wf unfolding build_artifact_write_request_def r_bind_eq_Inr by blast
  then show ?thesis
    using w build_artifact_storage_key_eq(2,3) [OF a]
    by (intro exI [of _ ?w]) (simp del: key_parts_def)
qed

section \<open>Comparing a request whose metadata holds a list\<close>

text \<open>
  A list of the metadata is frozen to a tuple. The comparison token normalizes the frozen mapping
  once more, and the normalization rejects tuples.
\<close>

lemma freeze_tuple: "freeze_metadata_value d n (PTuple xs) = Inl emission_invalid_metadata"
  by (simp add: freeze_metadata_value.simps Let_def)

lemma freeze_error:
  "freeze_metadata_value d n v = Inl e \<Longrightarrow> e = emission_invalid_metadata"
  "freeze_list d n xs = Inl e \<Longrightarrow> e = emission_invalid_metadata"
  "freeze_items d n kvs = Inl e \<Longrightarrow> e = emission_invalid_metadata"
proof (induction d n v and d n xs and d n kvs
    rule: freeze_metadata_value_freeze_list_freeze_items.induct)
  case (1 depth nodes v)
  then show ?case
    by (auto simp: freeze_metadata_value.simps [of depth] Let_def r_simps
        split: if_splits pyval.splits)
qed (auto simp: r_simps split: if_splits)

lemma freeze_items_tuple:
  "(k, PTuple xs) \<in> set kvs \<Longrightarrow> freeze_items d n kvs = Inl emission_invalid_metadata"
proof (induction kvs arbitrary: n)
  case (Cons p kvs)
  obtain k' v where p: "p = (k', v)" by force
  show ?case
  proof (cases "freeze_metadata_value d n v")
    case (Inl e)
    then show ?thesis using p freeze_error(1) [OF Inl] by simp
  next
    case (Inr q)
    then have "v \<noteq> PTuple xs" by (auto simp: freeze_tuple)
    then have "(k, PTuple xs) \<in> set kvs" using Cons.prems p by simp
    then show ?thesis using Cons.IH p Inr by (cases q) simp
  qed
qed simp

lemma redact_map_items_tuple:
  "(AStr k, PTuple xs) \<in> set kvs \<Longrightarrow> \<not> is_sensitive_key k \<Longrightarrow>
     \<exists>ys. (AStr k, PTuple ys) \<in> set (redact_map_items 10 0 kvs)"
proof (induction kvs)
  case (Cons p kvs)
  then show ?case
    by (cases p) (auto simp: Let_def redact_value_at.simps)
qed simp

lemma redact_map_items_keys: "map fst (redact_map_items m d kvs) = map (AStr \<circ> atom_text \<circ> fst) kvs"
  by (induction kvs) (auto simp: Let_def)

lemma canonicalize_tuple:
  assumes "frozen (PDict kvs)" and "(AStr k, PTuple xs) \<in> set kvs" and "\<not> is_sensitive_key k"
  shows "canonicalize_artifact_metadata (PDict kvs) = Inl emission_invalid_metadata"
proof -
  have str: "\<forall>p \<in> set kvs. \<exists>s. fst p = AStr s"
  proof
    fix p assume "p \<in> set kvs"
    then have "freeze_key (fst p)" using assms(1) frozen_items_iff by fastforce
    then show "\<exists>s. fst p = AStr s" by (cases "fst p") auto
  qed
  then have eq: "map (AStr \<circ> atom_text \<circ> fst) kvs = map fst kvs" by (auto intro!: map_cong)
  have "wf_dict (redact_map_items 10 0 kvs)"
    using assms(1) unfolding wf_dict_def redact_map_items_keys eq by (simp add: wf_dict_def)
  then have r: "redact_mapping 10 kvs = redact_map_items 10 0 kvs"
    by (simp add: redact_mapping_def dict_of_id)
  obtain ys where "(AStr k, PTuple ys) \<in> set (redact_map_items 10 0 kvs)"
    using redact_map_items_tuple assms by blast
  then have "freeze_items 1 1 (redact_map_items 10 0 kvs) = Inl emission_invalid_metadata"
    by (rule freeze_items_tuple)
  then have "freeze_metadata_value 0 0 (PDict (redact_map_items 10 0 kvs)) = Inl emission_invalid_metadata"
    by (simp add: freeze_metadata_value.simps Let_def emission_limits)
  then show ?thesis
    by (simp add: canonicalize_artifact_metadata_def r emission_limits)
qed

end
