(* ===== verification/Checkpoint_Base.thy ===== *)
theory Checkpoint_Base
  imports Artifact_Base "HOL-Library.Char_ord" "HOL-Library.List_Lexorder"
begin

text \<open>
  integrations/checkpoint/base.py: the normalization of checkpoint requests and descriptors, the
  lossless metadata normalization with its limits, and the canonical form in which two metadata
  mappings are compared. Run identifiers are those of the artifact requests.
\<close>

section \<open>Identifiers\<close>

definition MAX_IDENTIFIER_LENGTH :: nat where "MAX_IDENTIFIER_LENGTH = 255"
definition CK_MAX_METADATA_DEPTH :: int where "CK_MAX_METADATA_DEPTH = 16"
definition CK_MAX_METADATA_ITEMS :: nat where "CK_MAX_METADATA_ITEMS = 1000"
definition CK_MAX_METADATA_STRING_LENGTH :: nat where "CK_MAX_METADATA_STRING_LENGTH = 65536"

lemmas checkpoint_limits = MAX_IDENTIFIER_LENGTH_def CK_MAX_METADATA_DEPTH_def
  CK_MAX_METADATA_ITEMS_def CK_MAX_METADATA_STRING_LENGTH_def

definition SERIALIZER_NAME_RE :: rx where
  "SERIALIZER_NAME_RE =
     RSeq (RChr is_alnum) (RStar (\<lambda>c. is_alnum c \<or> c \<in> set ''_-''))"

definition CHECKPOINT_ID_RE :: rx where
  "CHECKPOINT_ID_RE =
     RSeq (RChr is_alnum) (RStar (\<lambda>c. is_alnum c \<or> c \<in> set ''._:-''))"

definition checkpoint_invalid :: "string \<Rightarrow> string \<Rightarrow> exn" where
  "checkpoint_invalid message code =
     CheckpointValidationError message code (Some ''checkpoint_store'') []"

definition ck_bad_run_id :: exn where
  "ck_bad_run_id = checkpoint_invalid ''Checkpoint store rejected an invalid run identifier.''
     ''CHECKPOINT_STORE_INVALID_RUN_ID''"

definition ck_bad_namespace :: exn where
  "ck_bad_namespace = checkpoint_invalid
     ''Checkpoint store rejected an invalid checkpoint namespace.'' ''CHECKPOINT_STORE_INVALID_NAMESPACE''"

definition ck_bad_id :: exn where
  "ck_bad_id = checkpoint_invalid
     ''Checkpoint store rejected an invalid checkpoint identifier.''
     ''CHECKPOINT_STORE_INVALID_CHECKPOINT_ID''"

definition ck_bad_serializer_name :: exn where
  "ck_bad_serializer_name = checkpoint_invalid
     ''Checkpoint store rejected an invalid serializer name.'' ''CHECKPOINT_STORE_INVALID_SERIALIZER_NAME''"

definition ck_bad_serializer_version :: exn where
  "ck_bad_serializer_version = checkpoint_invalid
     ''Checkpoint store rejected an invalid serializer version.''
     ''CHECKPOINT_STORE_INVALID_SERIALIZER_VERSION''"

definition ck_bad_content_type :: exn where
  "ck_bad_content_type = checkpoint_invalid ''Checkpoint store rejected an invalid content type.''
     ''CHECKPOINT_STORE_INVALID_CONTENT_TYPE''"

definition ck_bad_body :: exn where
  "ck_bad_body = checkpoint_invalid ''Checkpoint store rejected an invalid checkpoint body.''
     ''CHECKPOINT_STORE_INVALID_BODY''"

definition ck_bad_metadata :: exn where
  "ck_bad_metadata = checkpoint_invalid ''Checkpoint store rejected invalid metadata.''
     ''CHECKPOINT_STORE_INVALID_METADATA''"

definition ck_self_parent :: exn where
  "ck_self_parent = checkpoint_invalid
     ''Checkpoint store rejected a self-parent checkpoint request.'' ''CHECKPOINT_STORE_SELF_PARENT''"

fun normalize_checkpoint_run_id :: "pyval \<Rightarrow> run_id res" where
  "normalize_checkpoint_run_id (Atom (AInt i)) = Inr (Run_Int i)"
| "normalize_checkpoint_run_id (Atom (AStr s)) =
     (let normalized = strip s
      in if normalized = [] \<or> MAX_IDENTIFIER_LENGTH < length normalized then Inl ck_bad_run_id
         else Inr (Run_Str normalized))"
| "normalize_checkpoint_run_id _ = Inl ck_bad_run_id"

text \<open>The checks the three identifiers share, in their order in the source.\<close>

definition identifier_ok :: "rx \<Rightarrow> string \<Rightarrow> bool" where
  "identifier_ok pattern s = (s = strip s \<and> s \<noteq> [] \<and> length s \<le> MAX_IDENTIFIER_LENGTH
     \<and> char_of (0 :: nat) \<notin> set s \<and> rx_fullmatch pattern s)"

fun normalize_checkpoint_namespace :: "pyval \<Rightarrow> string res" where
  "normalize_checkpoint_namespace (Atom (AStr s)) =
     (if s \<noteq> strip s then Inl ck_bad_namespace
      else if s = [] then Inr []
      else if identifier_ok CHECKPOINT_ID_RE s then Inr s else Inl ck_bad_namespace)"
| "normalize_checkpoint_namespace _ = Inl ck_bad_namespace"

fun normalize_checkpoint_id :: "pyval \<Rightarrow> string res" where
  "normalize_checkpoint_id (Atom (AStr s)) =
     (if identifier_ok CHECKPOINT_ID_RE s then Inr s else Inl ck_bad_id)"
| "normalize_checkpoint_id _ = Inl ck_bad_id"

fun normalize_checkpoint_serializer_name :: "pyval \<Rightarrow> string res" where
  "normalize_checkpoint_serializer_name (Atom (AStr s)) =
     (if identifier_ok SERIALIZER_NAME_RE s then Inr s else Inl ck_bad_serializer_name)"
| "normalize_checkpoint_serializer_name _ = Inl ck_bad_serializer_name"

fun normalize_checkpoint_serializer_version :: "pyval \<Rightarrow> int res" where
  "normalize_checkpoint_serializer_version (Atom (AInt n)) =
     (if n \<le> 0 then Inl ck_bad_serializer_version else Inr n)"
| "normalize_checkpoint_serializer_version _ = Inl ck_bad_serializer_version"

definition ck_content_type_ok :: "string \<Rightarrow> bool" where
  "ck_content_type_ok t = (t \<noteq> [] \<and> length t \<le> MAX_IDENTIFIER_LENGTH \<and> char_of (0 :: nat) \<notin> set t
     \<and> count_list t (CHR ''/'') = 1 \<and> \<not> list_ex is_space t)"

fun normalize_checkpoint_content_type :: "pyval \<Rightarrow> string res" where
  "normalize_checkpoint_content_type (Atom (AStr s)) =
     (if s \<noteq> strip s then Inl ck_bad_content_type
      else (let normalized = lower s
            in if ck_content_type_ok normalized then Inr normalized else Inl ck_bad_content_type))"
| "normalize_checkpoint_content_type _ = Inl ck_bad_content_type"

fun normalize_checkpoint_body :: "pyval \<Rightarrow> string res" where
  "normalize_checkpoint_body (Atom (ABytes b)) = Inr b"
| "normalize_checkpoint_body _ = Inl ck_bad_body"

section \<open>Metadata\<close>

fun ck_atom_ok :: "atom \<Rightarrow> bool" where
  "ck_atom_ok (AFloat x) = isfinite x"
| "ck_atom_ok (AStr s) = (length s \<le> CK_MAX_METADATA_STRING_LENGTH)"
| "ck_atom_ok (ABytes _) = False"
| "ck_atom_ok (AObj _ _) = False"
| "ck_atom_ok _ = True"

fun ck_key_ok :: "atom \<Rightarrow> bool" where
  "ck_key_ok (AStr k) = (length k \<le> MAX_IDENTIFIER_LENGTH)"
| "ck_key_ok _ = False"

fun normalize_metadata_value :: "int \<Rightarrow> pyval \<Rightarrow> pyval res"
and normalize_metadata_list :: "int \<Rightarrow> pyval list \<Rightarrow> pyval list res"
and normalize_metadata_items :: "int \<Rightarrow> pyitems \<Rightarrow> pyitems res"
where
  "normalize_metadata_value depth v =
     (if CK_MAX_METADATA_DEPTH < depth then Inl ck_bad_metadata
      else (case v of
          Atom a \<Rightarrow> if ck_atom_ok a then Inr (Atom a) else Inl ck_bad_metadata
        | PDict kvs \<Rightarrow>
            if CK_MAX_METADATA_ITEMS < length kvs then Inl ck_bad_metadata
            else r_bind (normalize_metadata_items (depth + 1) kvs) (\<lambda>out. Inr (PDict (dict_of out)))
        | PList xs \<Rightarrow>
            if CK_MAX_METADATA_ITEMS < length xs then Inl ck_bad_metadata
            else r_bind (normalize_metadata_list (depth + 1) xs) (\<lambda>out. Inr (PList out))
        | PTuple _ \<Rightarrow> Inl ck_bad_metadata))"
| "normalize_metadata_list depth [] = Inr []"
| "normalize_metadata_list depth (x # xs) =
     r_bind (normalize_metadata_value depth x) (\<lambda>y.
     r_bind (normalize_metadata_list depth xs) (\<lambda>ys. Inr (y # ys)))"
| "normalize_metadata_items depth [] = Inr []"
| "normalize_metadata_items depth ((k, v) # kvs) =
     (if \<not> ck_key_ok k then Inl ck_bad_metadata
      else r_bind (normalize_metadata_value depth v) (\<lambda>w.
        r_bind (normalize_metadata_items depth kvs) (\<lambda>out. Inr ((k, w) # out))))"

declare normalize_metadata_value.simps [simp del]

fun normalize_checkpoint_metadata :: "pyval \<Rightarrow> pyitems res" where
  "normalize_checkpoint_metadata (Atom ANone) = Inr []"
| "normalize_checkpoint_metadata (PDict kvs) =
     r_bind (normalize_metadata_value 0 (PDict kvs)) (\<lambda>v.
       case v of PDict d \<Rightarrow> Inr d | _ \<Rightarrow> Inl ck_bad_metadata)"
| "normalize_checkpoint_metadata _ = Inl ck_bad_metadata"

text \<open>The canonical form: tagged tuples, an object's entries in the order of its keys.\<close>

datatype canon =
    CNull
  | CBool bool
  | CInt int
  | CFloat pyfloat
  | CStr string
  | CList "canon list"
  | CObject "(string \<times> canon) list"

fun float_value :: "pyfloat \<Rightarrow> pyfloat" where
  "float_value (Finite_Float n d _) = Finite_Float n d []"
| "float_value (Infinite_Float neg _) = Infinite_Float neg []"
| "float_value (Nan_Float t) = Nan_Float t"

fun canonicalize_value :: "pyval \<Rightarrow> canon res"
and canonicalize_list :: "pyval list \<Rightarrow> canon list res"
and canonicalize_items :: "pyitems \<Rightarrow> (string \<times> canon) list res"
where
  "canonicalize_value (Atom a) =
     (case a of
        ANone \<Rightarrow> Inr CNull
      | ABool b \<Rightarrow> Inr (CBool b)
      | AInt i \<Rightarrow> Inr (CInt i)
      | AFloat x \<Rightarrow> Inr (CFloat (float_value x))
      | AStr s \<Rightarrow> Inr (CStr s)
      | _ \<Rightarrow> Inl ck_bad_metadata)"
| "canonicalize_value (PList xs) = r_bind (canonicalize_list xs) (\<lambda>out. Inr (CList out))"
| "canonicalize_value (PDict kvs) =
     r_bind (canonicalize_items kvs) (\<lambda>out. Inr (CObject (sort_key fst out)))"
| "canonicalize_value (PTuple _) = Inl ck_bad_metadata"
| "canonicalize_list [] = Inr []"
| "canonicalize_list (x # xs) =
     r_bind (canonicalize_value x) (\<lambda>y. r_bind (canonicalize_list xs) (\<lambda>ys. Inr (y # ys)))"
| "canonicalize_items [] = Inr []"
| "canonicalize_items ((k, v) # kvs) =
     r_bind (canonicalize_value v) (\<lambda>w.
     r_bind (canonicalize_items kvs) (\<lambda>out. Inr ((atom_text k, w) # out)))"

definition canonicalize_checkpoint_metadata :: "pyval \<Rightarrow> canon res" where
  "canonicalize_checkpoint_metadata metadata =
     r_bind (normalize_checkpoint_metadata metadata) (\<lambda>d. canonicalize_value (PDict d))"

section \<open>Requests and descriptors\<close>

record checkpoint_request =
  cw_run_id :: run_id
  cw_checkpoint_id :: string
  cw_body :: string
  cw_serializer_name :: string
  cw_serializer_version :: int
  cw_content_type :: string
  cw_namespace :: string
  cw_parent :: "string option"
  cw_metadata :: pyitems

record stored_checkpoint =
  sc_run_id :: run_id
  sc_namespace :: string
  sc_checkpoint_id :: string
  sc_parent :: "string option"
  sc_revision :: int
  sc_serializer_name :: string
  sc_serializer_version :: int
  sc_content_type :: string
  sc_size :: int
  sc_digest :: string
  sc_metadata :: pyitems

record checkpoint_read_result =
  cr_checkpoint :: stored_checkpoint
  cr_body :: string

fun optional_checkpoint_id :: "pyval \<Rightarrow> string option res" where
  "optional_checkpoint_id (Atom ANone) = Inr None"
| "optional_checkpoint_id v = r_bind (normalize_checkpoint_id v) (\<lambda>s. Inr (Some s))"

definition CheckpointWriteRequest ::
  "pyval \<Rightarrow> pyval \<Rightarrow> pyval \<Rightarrow> pyval \<Rightarrow> pyval \<Rightarrow> pyval \<Rightarrow> pyval \<Rightarrow> pyval \<Rightarrow> pyval \<Rightarrow> checkpoint_request res"
where
  "CheckpointWriteRequest run_id checkpoint_id body serializer_name serializer_version content_type
     checkpoint_namespace parent_checkpoint_id metadata =
     r_bind (normalize_checkpoint_run_id run_id) (\<lambda>r.
     r_bind (normalize_checkpoint_namespace checkpoint_namespace) (\<lambda>ns.
     r_bind (normalize_checkpoint_id checkpoint_id) (\<lambda>cid.
     r_bind (optional_checkpoint_id parent_checkpoint_id) (\<lambda>p.
     r_bind (normalize_checkpoint_body body) (\<lambda>b.
     r_bind (normalize_checkpoint_serializer_name serializer_name) (\<lambda>sn.
     r_bind (normalize_checkpoint_serializer_version serializer_version) (\<lambda>sv.
     r_bind (normalize_checkpoint_content_type content_type) (\<lambda>ct.
     r_bind (r_guard (p = Some cid) ck_self_parent) (\<lambda>_.
     r_bind (normalize_checkpoint_metadata metadata) (\<lambda>m.
       Inr \<lparr>cw_run_id = r, cw_checkpoint_id = cid, cw_body = b, cw_serializer_name = sn,
         cw_serializer_version = sv, cw_content_type = ct, cw_namespace = ns, cw_parent = p,
         cw_metadata = m\<rparr>))))))))))"

definition checkpoint_recorded_invalid :: "string \<Rightarrow> string \<Rightarrow> exn" where
  "checkpoint_recorded_invalid message code =
     CheckpointIntegrityError message code (Some ''checkpoint_store'') None []"

definition ck_invalid_revision :: exn where
  "ck_invalid_revision = checkpoint_recorded_invalid
     ''Checkpoint store recorded an invalid checkpoint revision.'' ''CHECKPOINT_STORE_INVALID_REVISION''"

definition ck_invalid_size :: exn where
  "ck_invalid_size = checkpoint_recorded_invalid
     ''Checkpoint store recorded an invalid checkpoint size.'' ''CHECKPOINT_STORE_INVALID_SIZE''"

definition ck_invalid_digest :: exn where
  "ck_invalid_digest = checkpoint_recorded_invalid
     ''Checkpoint store recorded an invalid checkpoint digest.'' ''CHECKPOINT_STORE_INVALID_DIGEST''"

fun checked_revision :: "pyval \<Rightarrow> int res" where
  "checked_revision (Atom (AInt n)) = (if n \<le> 0 then Inl ck_invalid_revision else Inr n)"
| "checked_revision _ = Inl ck_invalid_revision"

fun checked_checkpoint_size :: "pyval \<Rightarrow> int res" where
  "checked_checkpoint_size (Atom (AInt n)) = (if n < 0 then Inl ck_invalid_size else Inr n)"
| "checked_checkpoint_size _ = Inl ck_invalid_size"

fun checked_checkpoint_digest :: "pyval \<Rightarrow> string res" where
  "checked_checkpoint_digest (Atom (AStr s)) =
     (if \<not> startswith ''sha256:'' s \<or> length s \<noteq> length ''sha256:'' + 64 then Inl ck_invalid_digest
      else Inr s)"
| "checked_checkpoint_digest _ = Inl ck_invalid_digest"

definition StoredCheckpoint ::
  "pyval \<Rightarrow> pyval \<Rightarrow> pyval \<Rightarrow> pyval \<Rightarrow> pyval \<Rightarrow> pyval \<Rightarrow> pyval \<Rightarrow> pyval \<Rightarrow> pyval \<Rightarrow> pyval \<Rightarrow> pyval \<Rightarrow>
   stored_checkpoint res"
where
  "StoredCheckpoint run_id checkpoint_namespace checkpoint_id parent_checkpoint_id revision
     serializer_name serializer_version content_type siz digest metadata =
     r_bind (normalize_checkpoint_run_id run_id) (\<lambda>r.
     r_bind (normalize_checkpoint_namespace checkpoint_namespace) (\<lambda>ns.
     r_bind (normalize_checkpoint_id checkpoint_id) (\<lambda>cid.
     r_bind (optional_checkpoint_id parent_checkpoint_id) (\<lambda>p.
     r_bind (checked_revision revision) (\<lambda>rv.
     r_bind (normalize_checkpoint_serializer_name serializer_name) (\<lambda>sn.
     r_bind (normalize_checkpoint_serializer_version serializer_version) (\<lambda>sv.
     r_bind (normalize_checkpoint_content_type content_type) (\<lambda>ct.
     r_bind (checked_checkpoint_size siz) (\<lambda>sz.
     r_bind (checked_checkpoint_digest digest) (\<lambda>dg.
     r_bind (normalize_checkpoint_metadata metadata) (\<lambda>m.
       Inr \<lparr>sc_run_id = r, sc_namespace = ns, sc_checkpoint_id = cid, sc_parent = p,
         sc_revision = rv, sc_serializer_name = sn, sc_serializer_version = sv,
         sc_content_type = ct, sc_size = sz, sc_digest = dg, sc_metadata = m\<rparr>)))))))))))"

text \<open>The stores' \<open>_clone_checkpoint\<close> and \<open>_build_descriptor\<close>.\<close>

definition clone_checkpoint :: "stored_checkpoint \<Rightarrow> stored_checkpoint res" where
  "clone_checkpoint c = StoredCheckpoint (run_id_value (sc_run_id c)) (PStr (sc_namespace c))
     (PStr (sc_checkpoint_id c)) (opt_str (sc_parent c)) (PInt (sc_revision c))
     (PStr (sc_serializer_name c)) (PInt (sc_serializer_version c)) (PStr (sc_content_type c))
     (PInt (sc_size c)) (PStr (sc_digest c)) (PDict (sc_metadata c))"

definition build_checkpoint_descriptor :: "checkpoint_request \<Rightarrow> int \<Rightarrow> stored_checkpoint res" where
  "build_checkpoint_descriptor r revision =
     StoredCheckpoint (run_id_value (cw_run_id r)) (PStr (cw_namespace r))
     (PStr (cw_checkpoint_id r)) (opt_str (cw_parent r)) (PInt revision)
     (PStr (cw_serializer_name r)) (PInt (cw_serializer_version r)) (PStr (cw_content_type r))
     (PInt (int (length (cw_body r)))) (PStr (body_digest (cw_body r))) (PDict (cw_metadata r))"

section \<open>Metadata is kept as it is\<close>

lemma normalize_metadata_value_simps [simp]:
  "normalize_metadata_value d (Atom a) =
     (if CK_MAX_METADATA_DEPTH < d \<or> \<not> ck_atom_ok a then Inl ck_bad_metadata else Inr (Atom a))"
  "normalize_metadata_value d (PDict kvs) =
     (if CK_MAX_METADATA_DEPTH < d \<or> CK_MAX_METADATA_ITEMS < length kvs then Inl ck_bad_metadata
      else r_bind (normalize_metadata_items (d + 1) kvs) (\<lambda>out. Inr (PDict (dict_of out))))"
  "normalize_metadata_value d (PList xs) =
     (if CK_MAX_METADATA_DEPTH < d \<or> CK_MAX_METADATA_ITEMS < length xs then Inl ck_bad_metadata
      else r_bind (normalize_metadata_list (d + 1) xs) (\<lambda>out. Inr (PList out)))"
  "normalize_metadata_value d (PTuple xs) = Inl ck_bad_metadata"
  by (simp_all add: normalize_metadata_value.simps)

lemma normalize_metadata_items_id:
  "normalize_metadata_items d kvs = Inr kvs \<longleftrightarrow>
     (\<forall>(k, v) \<in> set kvs. ck_key_ok k \<and> normalize_metadata_value d v = Inr v)"
proof (induction kvs)
  case (Cons p kvs)
  then show ?case by (cases p) (auto simp: r_simps split: if_splits)
qed simp

lemma normalize_metadata_list_id:
  "normalize_metadata_list d xs = Inr xs \<longleftrightarrow> (\<forall>x \<in> set xs. normalize_metadata_value d x = Inr x)"
  by (induction xs) (auto simp: r_simps)

lemma length_normalize_metadata_list: "normalize_metadata_list d xs = Inr ys \<Longrightarrow> length ys = length xs"
  by (induction xs arbitrary: ys) (auto simp: r_simps)

lemma length_normalize_metadata_items:
  "normalize_metadata_items d kvs = Inr out \<Longrightarrow> length out = length kvs"
proof (induction kvs arbitrary: out)
  case (Cons p kvs)
  then show ?case by (cases p) (auto simp: r_simps split: if_splits)
qed simp

lemma normalize_metadata_fixed:
  "normalize_metadata_value d v = Inr w \<Longrightarrow> normalize_metadata_value d w = Inr w \<and> wf_val w"
  "normalize_metadata_list d xs = Inr ys \<Longrightarrow> normalize_metadata_list d ys = Inr ys \<and> wf_list ys"
  "normalize_metadata_items d kvs = Inr out \<Longrightarrow>
     normalize_metadata_items d out = Inr out \<and> wf_items out"
proof (induction d v and d xs and d kvs arbitrary: w and ys and out
    rule: normalize_metadata_value_normalize_metadata_list_normalize_metadata_items.induct)
  case (1 depth v)
  have depth: "\<not> CK_MAX_METADATA_DEPTH < depth"
    using "1.prems" by (cases v) (auto split: if_splits)
  show ?case
  proof (cases v)
    case (PDict kvs)
    then obtain out where out: "normalize_metadata_items (depth + 1) kvs = Inr out"
      "w = PDict (dict_of out)" "\<not> CK_MAX_METADATA_ITEMS < length kvs"
      using "1.prems" depth by (auto simp: r_simps split: if_splits)
    have ih: "normalize_metadata_items (depth + 1) out = Inr out \<and> wf_items out"
      using "1.IH"(2) [OF depth PDict out(3) out(1)] .
    then have "normalize_metadata_items (depth + 1) (dict_of out) = Inr (dict_of out)"
      using set_dict_of [of out] unfolding normalize_metadata_items_id by blast
    moreover have "\<not> CK_MAX_METADATA_ITEMS < length (dict_of out)"
      using length_dict_of [of out] length_normalize_metadata_items [OF out(1)] out(3) by simp
    ultimately show ?thesis
      using out(2) depth ih wf_items_dict_of
      by (simp add: dict_of_id)
  next
    case (PList xs)
    then obtain ys where ys: "normalize_metadata_list (depth + 1) xs = Inr ys" "w = PList ys"
      "\<not> CK_MAX_METADATA_ITEMS < length xs"
      using "1.prems" depth by (auto simp: r_simps split: if_splits)
    then show ?thesis
      using "1.IH"(1) [OF depth PList ys(3) ys(1)] depth length_normalize_metadata_list [OF ys(1)]
      by simp
  next
    case (Atom a)
    then show ?thesis
      using "1.prems" depth by (auto split: if_splits)
  next
    case (PTuple xs)
    then show ?thesis
      using "1.prems" depth by simp
  qed
next
  case (3 depth x xs)
  then show ?case by (auto simp: r_simps)
next
  case (5 depth k v kvs)
  then show ?case by (auto simp: r_simps split: if_splits)
qed auto

lemma normalize_metadata_lossless:
  "normalize_metadata_value d v = Inr w \<Longrightarrow> wf_val v \<Longrightarrow> w = v"
  "normalize_metadata_list d xs = Inr ys \<Longrightarrow> wf_list xs \<Longrightarrow> ys = xs"
  "normalize_metadata_items d kvs = Inr out \<Longrightarrow> wf_items kvs \<Longrightarrow> out = kvs"
proof (induction d v and d xs and d kvs arbitrary: w and ys and out
    rule: normalize_metadata_value_normalize_metadata_list_normalize_metadata_items.induct)
  case (1 depth v)
  have depth: "\<not> CK_MAX_METADATA_DEPTH < depth"
    using "1.prems" by (cases v) (auto split: if_splits)
  show ?case
  proof (cases v)
    case (PDict kvs)
    then obtain out where out: "normalize_metadata_items (depth + 1) kvs = Inr out"
      "w = PDict (dict_of out)" "\<not> CK_MAX_METADATA_ITEMS < length kvs"
      using "1.prems" depth by (auto simp: r_simps split: if_splits)
    have "out = kvs" using "1.IH"(2) [OF depth PDict out(3) out(1)] "1.prems" PDict by simp
    then show ?thesis using out "1.prems" PDict by (simp add: dict_of_id)
  qed (use 1 depth in \<open>auto simp: r_simps split: if_splits\<close>)
qed (auto simp: r_simps split: if_splits)

lemma canonicalize_items_total:
  "(\<forall>(k, v) \<in> set kvs. \<exists>c. canonicalize_value v = Inr c) \<longleftrightarrow> (\<exists>out. canonicalize_items kvs = Inr out)"
proof (induction kvs)
  case (Cons p kvs)
  then show ?case by (cases p) (auto simp: r_simps)
qed simp

lemma canonicalize_total:
  "normalize_metadata_value d v = Inr w \<Longrightarrow> \<exists>c. canonicalize_value w = Inr c"
  "normalize_metadata_list d xs = Inr ys \<Longrightarrow> \<exists>out. canonicalize_list ys = Inr out"
  "normalize_metadata_items d kvs = Inr out \<Longrightarrow> \<exists>c. canonicalize_items out = Inr c"
proof (induction d v and d xs and d kvs arbitrary: w and ys and out
    rule: normalize_metadata_value_normalize_metadata_list_normalize_metadata_items.induct)
  case (1 depth v)
  have depth: "\<not> CK_MAX_METADATA_DEPTH < depth"
    using "1.prems" by (cases v) (auto split: if_splits)
  show ?case
  proof (cases v)
    case (PDict kvs)
    then obtain out where out: "normalize_metadata_items (depth + 1) kvs = Inr out"
      "w = PDict (dict_of out)" "\<not> CK_MAX_METADATA_ITEMS < length kvs"
      using "1.prems" depth by (auto simp: r_simps split: if_splits)
    have "\<exists>c. canonicalize_items out = Inr c" using "1.IH"(2) [OF depth PDict out(3) out(1)] .
    then have "\<exists>c. canonicalize_items (dict_of out) = Inr c"
      using set_dict_of [of out] unfolding canonicalize_items_total [symmetric] by blast
    then show ?thesis using out(2) by auto
  next
    case (Atom a)
    then show ?thesis
      using "1.prems" depth
      by (cases a) (auto split: if_splits)
  qed (use 1 depth in \<open>auto simp: r_simps split: if_splits\<close>)
qed (auto simp: r_simps split: if_splits)

lemma normalize_checkpoint_metadata_value:
  "normalize_checkpoint_metadata (PDict kvs) = Inr d \<longleftrightarrow>
     normalize_metadata_value 0 (PDict kvs) = Inr (PDict d)"
  by (auto simp: r_simps split: if_splits)

lemma normalize_checkpoint_metadata_fixed:
  "normalize_checkpoint_metadata v = Inr d \<Longrightarrow>
     normalize_checkpoint_metadata (PDict d) = Inr d \<and> wf_val (PDict d)"
proof (cases v rule: normalize_checkpoint_metadata.cases)
  case 1
  assume "normalize_checkpoint_metadata v = Inr d"
  then show ?thesis using 1 by (simp add: checkpoint_limits)
next
  case (2 kvs)
  assume "normalize_checkpoint_metadata v = Inr d"
  then have "normalize_metadata_value 0 (PDict kvs) = Inr (PDict d)"
    using 2 normalize_checkpoint_metadata_value by blast
  then show ?thesis
    using normalize_metadata_fixed(1) unfolding normalize_checkpoint_metadata_value by blast
qed auto

section \<open>Normalized requests and their descriptors\<close>

fun ck_run_ok :: "run_id \<Rightarrow> bool" where
  "ck_run_ok (Run_Int _) = True"
| "ck_run_ok (Run_Str s) = (s \<noteq> [] \<and> strip s = s \<and> length s \<le> MAX_IDENTIFIER_LENGTH)"

definition wf_checkpoint :: "checkpoint_request \<Rightarrow> bool" where
  "wf_checkpoint r \<longleftrightarrow> ck_run_ok (cw_run_id r)
     \<and> (cw_namespace r = [] \<or> identifier_ok CHECKPOINT_ID_RE (cw_namespace r))
     \<and> identifier_ok CHECKPOINT_ID_RE (cw_checkpoint_id r)
     \<and> (\<forall>p. cw_parent r = Some p \<longrightarrow> identifier_ok CHECKPOINT_ID_RE p \<and> p \<noteq> cw_checkpoint_id r)
     \<and> identifier_ok SERIALIZER_NAME_RE (cw_serializer_name r) \<and> 0 < cw_serializer_version r
     \<and> lower (cw_content_type r) = cw_content_type r \<and> ck_content_type_ok (cw_content_type r)
     \<and> normalize_checkpoint_metadata (PDict (cw_metadata r)) = Inr (cw_metadata r)"

definition describe_checkpoint :: "checkpoint_request \<Rightarrow> int \<Rightarrow> stored_checkpoint" where
  "describe_checkpoint r revision =
     \<lparr>sc_run_id = cw_run_id r, sc_namespace = cw_namespace r, sc_checkpoint_id = cw_checkpoint_id r,
      sc_parent = cw_parent r, sc_revision = revision, sc_serializer_name = cw_serializer_name r,
      sc_serializer_version = cw_serializer_version r, sc_content_type = cw_content_type r,
      sc_size = int (length (cw_body r)), sc_digest = body_digest (cw_body r),
      sc_metadata = cw_metadata r\<rparr>"

lemma ck_run_id_ok: "normalize_checkpoint_run_id v = Inr r \<Longrightarrow> ck_run_ok r"
  by (cases v rule: normalize_checkpoint_run_id.cases) (auto simp: Let_def split: if_splits)

lemma ck_run_id_value: "ck_run_ok r \<Longrightarrow> normalize_checkpoint_run_id (run_id_value r) = Inr r"
  by (cases r) (auto simp: Let_def)

lemma ck_namespace_iff:
  "normalize_checkpoint_namespace v = Inr s \<longleftrightarrow>
     v = PStr s \<and> (s = [] \<or> identifier_ok CHECKPOINT_ID_RE s)"
  by (cases v rule: normalize_checkpoint_namespace.cases) (auto simp: identifier_ok_def)

lemma ck_id_iff:
  "normalize_checkpoint_id v = Inr s \<longleftrightarrow> v = PStr s \<and> identifier_ok CHECKPOINT_ID_RE s"
  by (cases v rule: normalize_checkpoint_id.cases) auto

lemma ck_serializer_name_iff:
  "normalize_checkpoint_serializer_name v = Inr s \<longleftrightarrow> v = PStr s \<and> identifier_ok SERIALIZER_NAME_RE s"
  by (cases v rule: normalize_checkpoint_serializer_name.cases) auto

lemma ck_serializer_version_iff:
  "normalize_checkpoint_serializer_version v = Inr n \<longleftrightarrow> v = PInt n \<and> 0 < n"
  by (cases v rule: normalize_checkpoint_serializer_version.cases) auto

lemma ck_content_type_result:
  "normalize_checkpoint_content_type v = Inr t \<Longrightarrow> lower t = t \<and> ck_content_type_ok t"
  by (cases v rule: normalize_checkpoint_content_type.cases) (auto simp: Let_def split: if_splits)

lemma ck_content_type_strip: "ck_content_type_ok t \<Longrightarrow> strip t = t"
  by (rule strip_id) (auto simp: ck_content_type_ok_def list_ex_iff)

lemma ck_content_type_value:
  "lower t = t \<Longrightarrow> ck_content_type_ok t \<Longrightarrow> normalize_checkpoint_content_type (PStr t) = Inr t"
  by (simp add: ck_content_type_strip)

lemma optional_checkpoint_id_iff:
  "optional_checkpoint_id v = Inr p \<longleftrightarrow>
     v = opt_str p \<and> (\<forall>s. p = Some s \<longrightarrow> identifier_ok CHECKPOINT_ID_RE s)"
  by (cases p; cases v rule: optional_checkpoint_id.cases) (auto simp: r_simps ck_id_iff)

lemma CheckpointWriteRequest_wf:
  assumes "CheckpointWriteRequest rid cid b sn sv ct ns p m = Inr r"
  shows "wf_checkpoint r"
proof -
  have "ck_run_ok (cw_run_id r)" "lower (cw_content_type r) = cw_content_type r"
    "ck_content_type_ok (cw_content_type r)"
    "normalize_checkpoint_metadata (PDict (cw_metadata r)) = Inr (cw_metadata r)"
    using assms unfolding CheckpointWriteRequest_def r_bind_eq_Inr
    by (auto dest: ck_run_id_ok ck_content_type_result normalize_checkpoint_metadata_fixed
        simp del: normalize_checkpoint_metadata.simps)
  then show ?thesis
    using assms unfolding CheckpointWriteRequest_def r_bind_eq_Inr wf_checkpoint_def
    by (auto simp: ck_namespace_iff ck_id_iff ck_serializer_name_iff ck_serializer_version_iff
        optional_checkpoint_id_iff r_guard_eq_Inr)
qed

lemma startswith_digest: "checked_checkpoint_digest (PStr (body_digest b)) = Inr (body_digest b)"
  by simp

lemma build_checkpoint_descriptor_wf:
  assumes "wf_checkpoint r" and "0 < rv"
  shows "build_checkpoint_descriptor r rv = Inr (describe_checkpoint r rv)"
    and "clone_checkpoint (describe_checkpoint r rv) = Inr (describe_checkpoint r rv)"
proof -
  have n: "normalize_checkpoint_run_id (run_id_value (cw_run_id r)) = Inr (cw_run_id r)"
    "normalize_checkpoint_namespace (PStr (cw_namespace r)) = Inr (cw_namespace r)"
    "normalize_checkpoint_id (PStr (cw_checkpoint_id r)) = Inr (cw_checkpoint_id r)"
    "optional_checkpoint_id (opt_str (cw_parent r)) = Inr (cw_parent r)"
    "normalize_checkpoint_serializer_name (PStr (cw_serializer_name r)) = Inr (cw_serializer_name r)"
    "normalize_checkpoint_serializer_version (PInt (cw_serializer_version r)) = Inr (cw_serializer_version r)"
    "normalize_checkpoint_content_type (PStr (cw_content_type r)) = Inr (cw_content_type r)"
    "normalize_checkpoint_metadata (PDict (cw_metadata r)) = Inr (cw_metadata r)"
    "checked_revision (PInt rv) = Inr rv"
    "checked_checkpoint_size (PInt (int (length (cw_body r)))) = Inr (int (length (cw_body r)))"
    using assms unfolding wf_checkpoint_def
    by (simp_all only: ck_run_id_value ck_namespace_iff ck_id_iff optional_checkpoint_id_iff
        ck_serializer_name_iff ck_serializer_version_iff ck_content_type_value) auto
  show "build_checkpoint_descriptor r rv = Inr (describe_checkpoint r rv)"
    unfolding build_checkpoint_descriptor_def StoredCheckpoint_def n startswith_digest r_bind_simps
      describe_checkpoint_def ..
  show "clone_checkpoint (describe_checkpoint r rv) = Inr (describe_checkpoint r rv)"
    unfolding clone_checkpoint_def StoredCheckpoint_def describe_checkpoint_def
      stored_checkpoint.simps n startswith_digest r_bind_simps ..
qed

lemma canonicalize_checkpoint_metadata_total:
  assumes "wf_checkpoint r"
  shows "\<exists>c. canonicalize_checkpoint_metadata (PDict (cw_metadata r)) = Inr c"
proof -
  have "normalize_checkpoint_metadata (PDict (cw_metadata r)) = Inr (cw_metadata r)"
    using assms by (simp add: wf_checkpoint_def)
  then show ?thesis
    using canonicalize_total(1)
    unfolding canonicalize_checkpoint_metadata_def normalize_checkpoint_metadata_value
    by (metis normalize_checkpoint_metadata_value r_bind_simps(2))
qed

end
