(* ===== verification/Checkpoint_Store.thy ===== *)
theory Checkpoint_Store
  imports Checkpoint_Base
begin

text \<open>
  The \<open>CheckpointStore\<close> protocol as a locale over an append-only log for each run and namespace,
  and the in-memory store (integrations/checkpoint/memory_store.py) that refines it. A store
  operation takes the store and returns it with its result; \<open>save\<close> creates the stream it was
  asked for also when it then raises.
\<close>

section \<open>The log of a stream\<close>

definition stream_key :: "checkpoint_request \<Rightarrow> run_id \<times> string" where
  "stream_key r = (cw_run_id r, cw_namespace r)"

definition same_request :: "checkpoint_request \<Rightarrow> checkpoint_request \<Rightarrow> bool" where
  "same_request q r \<longleftrightarrow> cw_run_id q = cw_run_id r \<and> cw_namespace q = cw_namespace r
     \<and> cw_checkpoint_id q = cw_checkpoint_id r \<and> cw_parent q = cw_parent r \<and> cw_body q = cw_body r
     \<and> cw_serializer_name q = cw_serializer_name r
     \<and> cw_serializer_version q = cw_serializer_version r \<and> cw_content_type q = cw_content_type r
     \<and> canonicalize_checkpoint_metadata (PDict (cw_metadata q))
       = canonicalize_checkpoint_metadata (PDict (cw_metadata r))"

definition log_head :: "checkpoint_request list \<Rightarrow> string option" where
  "log_head L = (if L = [] then None else Some (cw_checkpoint_id (last L)))"

definition log_find :: "checkpoint_request list \<Rightarrow> string \<Rightarrow> (nat \<times> checkpoint_request) option" where
  "log_find L cid = find (\<lambda>(i, q). cw_checkpoint_id q = cid) (enumerate 1 L)"

definition versioned :: "nat \<times> checkpoint_request \<Rightarrow> stored_checkpoint" where
  "versioned p = describe_checkpoint (snd p) (int (fst p))"

definition version_reading :: "nat \<times> checkpoint_request \<Rightarrow> checkpoint_read_result" where
  "version_reading p = \<lparr>cr_checkpoint = versioned p, cr_body = cw_body (snd p)\<rparr>"

definition log_save ::
  "checkpoint_request list \<Rightarrow> checkpoint_request \<Rightarrow> checkpoint_request list \<times> stored_checkpoint option"
where
  "log_save L r =
     (case log_find L (cw_checkpoint_id r) of
        Some p \<Rightarrow> (L, if same_request (snd p) r then Some (versioned p) else None)
      | None \<Rightarrow>
          if cw_parent r = log_head L then (L @ [r], Some (versioned (Suc (length L), r)))
          else (L, None))"

definition log_read :: "checkpoint_request list \<Rightarrow> string \<Rightarrow> checkpoint_read_result option" where
  "log_read L cid = map_option version_reading (log_find L cid)"

definition log_latest :: "checkpoint_request list \<Rightarrow> checkpoint_read_result option" where
  "log_latest L = (if L = [] then None else Some (version_reading (length L, last L)))"

definition log_list :: "checkpoint_request list \<Rightarrow> stored_checkpoint list" where
  "log_list L = map versioned (enumerate 1 L)"

text \<open>One version for each identifier, each the child of the one before it.\<close>

definition linear :: "checkpoint_request list \<Rightarrow> bool" where
  "linear L \<longleftrightarrow> distinct (map cw_checkpoint_id L)
     \<and> (\<forall>i < length L. cw_parent (L ! i) = log_head (take i L))"

lemma linear_Nil [simp]: "linear []"
  by (simp add: linear_def)

lemma find_enumerate_None:
  "find (\<lambda>(i, q). P q) (enumerate n L) = None \<longleftrightarrow> (\<forall>q \<in> set L. \<not> P q)"
  by (induction L arbitrary: n) auto

lemma log_find_None: "log_find L cid = None \<longleftrightarrow> cid \<notin> cw_checkpoint_id ` set L"
  unfolding log_find_def find_enumerate_None by auto

lemma find_append:
  "find P (xs @ ys) = (case find P xs of Some x \<Rightarrow> Some x | None \<Rightarrow> find P ys)"
  by (induction xs) auto

lemma log_find_append:
  "log_find (L @ [r]) cid =
     (case log_find L cid of Some p \<Rightarrow> Some p
      | None \<Rightarrow> if cw_checkpoint_id r = cid then Some (Suc (length L), r) else None)"
  by (simp add: log_find_def enumerate_append_eq find_append cong: option.case_cong split: option.split)

lemma log_find_SomeD:
  "log_find L cid = Some p \<Longrightarrow> cw_checkpoint_id (snd p) = cid \<and> p \<in> set (enumerate 1 L)"
  unfolding log_find_def by (auto simp: find_Some_iff in_set_conv_nth)

lemma log_find_entry:
  "distinct (map cw_checkpoint_id L) \<Longrightarrow> p \<in> set (enumerate 1 L) \<Longrightarrow> log_find L (cw_checkpoint_id (snd p)) = Some p"
proof (induction L rule: rev_induct)
  case (snoc r L)
  show ?case
  proof (cases "p \<in> set (enumerate 1 L)")
    case True
    then show ?thesis using snoc by (simp add: log_find_append)
  next
    case False
    then have p: "p = (Suc (length L), r)" using snoc.prems(2) by (simp add: enumerate_append_eq)
    have "log_find L (cw_checkpoint_id r) = None" using snoc.prems(1) by (auto simp: log_find_None)
    then show ?thesis using p by (simp add: log_find_append)
  qed
qed simp

lemma log_save_cases:
  obtains "fst (log_save L r) = L"
  | "fst (log_save L r) = L @ [r]" "log_find L (cw_checkpoint_id r) = None" "cw_parent r = log_head L"
    "snd (log_save L r) = Some (versioned (Suc (length L), r))"
proof (cases "log_find L (cw_checkpoint_id r) = None \<and> cw_parent r = log_head L")
  case True
  then show ?thesis using that(2) by (simp add: log_save_def)
next
  case False
  then show ?thesis using that(1) by (auto simp: log_save_def split: option.splits)
qed

lemma linear_snoc:
  assumes "linear L" and "log_find L (cw_checkpoint_id r) = None" and "cw_parent r = log_head L"
  shows "linear (L @ [r])"
  using assms unfolding linear_def log_find_None by (auto simp: nth_append less_Suc_eq)

lemma linear_log_save: "linear L \<Longrightarrow> linear (fst (log_save L r))"
  using linear_snoc by (cases rule: log_save_cases [of L r]) auto

lemma log_read_keeps: "log_read L cid = Some x \<Longrightarrow> log_read (fst (log_save L r)) cid = Some x"
  by (cases rule: log_save_cases [of L r]) (auto simp: log_read_def log_find_append)

lemma log_read_saved:
  assumes "snd (log_save L r) = Some v"
  shows "log_read (fst (log_save L r)) (cw_checkpoint_id r) = Some \<lparr>cr_checkpoint = v, cr_body = cw_body r\<rparr>"
proof (cases "log_find L (cw_checkpoint_id r)")
  case None
  then have "cw_parent r = log_head L" "v = versioned (Suc (length L), r)"
    using assms by (auto simp: log_save_def split: if_splits)
  then show ?thesis
    using None by (simp add: log_save_def log_read_def log_find_append version_reading_def)
next
  case (Some p)
  then have "v = versioned p" "same_request (snd p) r"
    using assms by (auto simp: log_save_def split: if_splits)
  then show ?thesis
    using Some by (simp add: log_save_def log_read_def version_reading_def same_request_def)
qed

lemma log_find_prefix: "log_find L cid = Some p \<Longrightarrow> log_find (L @ M) cid = Some p"
  by (induction M rule: rev_induct) (simp_all add: log_find_append flip: append_assoc)

lemma log_read_prefix: "log_read L cid = Some x \<Longrightarrow> log_read (L @ M) cid = Some x"
  using log_find_prefix by (auto simp: log_read_def)

lemma log_list_revisions: "map sc_revision (log_list L) = map int [1..<Suc (length L)]"
proof -
  have "map sc_revision (log_list L) = map (int \<circ> fst) (enumerate 1 L)"
    by (simp add: log_list_def versioned_def describe_checkpoint_def comp_def)
  also have "\<dots> = map int (map fst (enumerate 1 L))" by (simp only: map_map)
  also have "\<dots> = map int [1..<Suc (length L)]" by (simp only: map_fst_enumerate) simp
  finally show ?thesis .
qed

lemma log_list_parents:
  assumes "linear L" and "i < length (log_list L)"
  shows "sc_parent (log_list L ! i) =
    (if i = 0 then None else Some (sc_checkpoint_id (log_list L ! (i - 1))))"
proof -
  have i: "i < length L" using assms(2) by (simp add: log_list_def)
  have nth: "log_list L ! j = versioned (Suc j, L ! j)" if "j < length L" for j
    using that by (simp add: log_list_def nth_enumerate_eq)
  have "log_head (take i L) = (if i = 0 then None else Some (cw_checkpoint_id (L ! (i - 1))))"
    using i by (cases i) (auto simp: log_head_def take_Suc_conv_app_nth)
  moreover have "cw_parent (L ! i) = log_head (take i L)" using assms(1) i by (simp add: linear_def)
  ultimately show ?thesis
    using i nth [of i] nth [of "i - 1"] by (simp add: versioned_def describe_checkpoint_def)
qed

lemma log_latest_last:
  "L \<noteq> [] \<Longrightarrow> log_latest L = Some x \<Longrightarrow> cr_checkpoint x = last (log_list L)"
proof (cases L rule: rev_exhaust)
  case (snoc M r)
  assume "log_latest L = Some x"
  then show ?thesis
    using snoc by (auto simp: log_latest_def log_list_def enumerate_append_eq version_reading_def)
qed simp

section \<open>The protocol\<close>

definition namespace_ok :: "string \<Rightarrow> bool" where
  "namespace_ok ns \<longleftrightarrow> ns = [] \<or> identifier_ok CHECKPOINT_ID_RE ns"

text \<open>
  What a store gives back of a descriptor is \<open>view\<close> of it; a write returns the descriptor or its view.
\<close>

fun save_outcome ::
  "(stored_checkpoint \<Rightarrow> stored_checkpoint) \<Rightarrow> stored_checkpoint res \<Rightarrow> stored_checkpoint option \<Rightarrow> bool"
where
  "save_outcome view (Inr c) p = (case p of None \<Rightarrow> False | Some v \<Rightarrow> c = v \<or> c = view v)"
| "save_outcome view (Inl e) p = (p = None \<and> isinstance e CheckpointConflictError_cls)"

definition viewed ::
  "(stored_checkpoint \<Rightarrow> stored_checkpoint) \<Rightarrow> checkpoint_read_result \<Rightarrow> checkpoint_read_result" where
  "viewed view x = x\<lparr>cr_checkpoint := view (cr_checkpoint x)\<rparr>"

lemma viewed_id [simp]: "viewed (\<lambda>c. c) x = x" "map_option (viewed (\<lambda>c. c)) y = y"
proof -
  show "viewed (\<lambda>c. c) x = x" for x by (simp add: viewed_def)
  then show "map_option (viewed (\<lambda>c. c)) y = y" by (cases y) simp_all
qed

definition run_saves :: "('s \<Rightarrow> 'r \<Rightarrow> 's \<times> 'a) \<Rightarrow> 's \<Rightarrow> 'r list \<Rightarrow> 's" where
  "run_saves save s rs = foldl (\<lambda>s r. fst (save s r)) s rs"

lemma run_saves_simps [simp]:
  "run_saves save s [] = s"
  "run_saves save s (r # rs) = run_saves save (fst (save s r)) rs"
  by (simp_all add: run_saves_def)

definition log_saves ::
  "(run_id \<times> string \<Rightarrow> checkpoint_request list) \<Rightarrow> checkpoint_request list \<Rightarrow> run_id \<times> string \<Rightarrow> checkpoint_request list"
where
  "log_saves L rs = foldl (\<lambda>L r. L(stream_key r := fst (log_save (L (stream_key r)) r))) L rs"

lemma log_saves_simps [simp]:
  "log_saves L [] = L"
  "log_saves L (r # rs) = log_saves (L(stream_key r := fst (log_save (L (stream_key r)) r))) rs"
  by (simp_all add: log_saves_def)

lemma linear_log_saves: "\<forall>k. linear (L k) \<Longrightarrow> linear (log_saves L rs k)"
proof (induction rs arbitrary: L)
  case (Cons r rs)
  have "\<forall>k. linear ((L(stream_key r := fst (log_save (L (stream_key r)) r))) k)"
    using Cons.prems linear_log_save by (metis fun_upd_apply)
  then show ?case unfolding log_saves_simps by (rule Cons.IH)
qed (unfold log_saves_simps, blast)

lemma wf_checkpoint_key:
  "wf_checkpoint r \<Longrightarrow> ck_run_ok (cw_run_id r) \<and> namespace_ok (cw_namespace r)
     \<and> identifier_ok CHECKPOINT_ID_RE (cw_checkpoint_id r)"
  by (simp add: wf_checkpoint_def namespace_ok_def)

text \<open>
  \<open>ok\<close> are the requests, \<open>key_ok\<close> the streams and \<open>id_ok\<close> the identifiers for which a provider answers.
\<close>

locale checkpoint_store =
  fixes empty :: "'s"
    and rep :: "'s \<Rightarrow> (run_id \<times> string \<Rightarrow> checkpoint_request list) \<Rightarrow> bool"
    and ok :: "checkpoint_request \<Rightarrow> bool"
    and key_ok :: "run_id \<times> string \<Rightarrow> bool"
    and id_ok :: "string \<Rightarrow> bool"
    and view :: "stored_checkpoint \<Rightarrow> stored_checkpoint"
    and save :: "'s \<Rightarrow> checkpoint_request \<Rightarrow> 's \<times> stored_checkpoint res"
    and load_latest :: "'s \<Rightarrow> run_id \<Rightarrow> string \<Rightarrow> checkpoint_read_result option res"
    and load_checkpoint :: "'s \<Rightarrow> run_id \<Rightarrow> string \<Rightarrow> string \<Rightarrow> checkpoint_read_result option res"
    and list_for_run :: "'s \<Rightarrow> run_id \<Rightarrow> string \<Rightarrow> stored_checkpoint list res"
  assumes ok_wf: "ok r \<Longrightarrow> wf_checkpoint r \<and> key_ok (stream_key r) \<and> id_ok (cw_checkpoint_id r)"
    and view_same: "(view c)\<lparr>sc_metadata := []\<rparr> = c\<lparr>sc_metadata := []\<rparr>"
    and view_view: "view (view c) = view c"
    and rep_empty: "rep empty (\<lambda>_. [])"
    and save_rep: "rep s L \<Longrightarrow> ok r \<Longrightarrow>
        rep (fst (save s r)) (L(stream_key r := fst (log_save (L (stream_key r)) r)))"
    and save_result: "rep s L \<Longrightarrow> ok r \<Longrightarrow>
        save_outcome view (snd (save s r)) (snd (log_save (L (stream_key r)) r))"
    and latest_rep: "rep s L \<Longrightarrow> key_ok (run, ns) \<Longrightarrow>
        load_latest s run ns = Inr (map_option (viewed view) (log_latest (L (run, ns))))"
    and load_rep: "rep s L \<Longrightarrow> key_ok (run, ns) \<Longrightarrow> id_ok cid \<Longrightarrow>
        load_checkpoint s run cid ns = Inr (map_option (viewed view) (log_read (L (run, ns)) cid))"
    and list_rep: "rep s L \<Longrightarrow> key_ok (run, ns) \<Longrightarrow>
        list_for_run s run ns = Inr (map view (log_list (L (run, ns))))"
begin

lemma view_fields:
  "sc_revision (view c) = sc_revision c" "sc_parent (view c) = sc_parent c"
  "sc_checkpoint_id (view c) = sc_checkpoint_id c"
  using view_same [of c] by (cases c; cases "view c"; simp)+

lemma run_saves_rep: "rep s L \<Longrightarrow> \<forall>r \<in> set rs. ok r \<Longrightarrow> rep (run_saves save s rs) (log_saves L rs)"
  by (induction rs arbitrary: s L) (simp_all add: save_rep)

lemma history_linear:
  assumes "\<forall>r \<in> set rs. ok r" and "key_ok (run, ns)"
  shows "\<exists>cs. list_for_run (run_saves save empty rs) run ns = Inr cs
    \<and> map sc_revision cs = map int [1..<Suc (length cs)]
    \<and> (\<forall>i < length cs. sc_parent (cs ! i) =
        (if i = 0 then None else Some (sc_checkpoint_id (cs ! (i - 1)))))"
proof -
  define L where "L = log_saves (\<lambda>_. []) rs"
  have L: "rep (run_saves save empty rs) L" "\<forall>k. linear (L k)"
    using run_saves_rep [OF rep_empty assms(1)] linear_log_saves [of "\<lambda>_. []" rs] by (simp_all add: L_def)
  have len: "length (log_list (L (run, ns))) = length (L (run, ns))" by (simp add: log_list_def)
  have rev: "map sc_revision (map view cs) = map sc_revision cs" for cs by (simp add: view_fields)
  show ?thesis
  proof (intro exI conjI)
    show "list_for_run (run_saves save empty rs) run ns = Inr (map view (log_list (L (run, ns))))"
      by (rule list_rep [OF L(1) assms(2)])
    show "map sc_revision (map view (log_list (L (run, ns))))
        = map int [1..<Suc (length (map view (log_list (L (run, ns)))))]"
      unfolding rev length_map len by (rule log_list_revisions)
    show "\<forall>i < length (map view (log_list (L (run, ns)))). sc_parent (map view (log_list (L (run, ns))) ! i) =
        (if i = 0 then None else Some (sc_checkpoint_id (map view (log_list (L (run, ns))) ! (i - 1))))"
      using log_list_parents [of "L (run, ns)"] L(2) by (auto simp: view_fields)
  qed
qed

lemma loaded_is_immutable:
  assumes "rep s L" and "\<forall>r \<in> set rs. ok r" and k: "key_ok (run, ns)" "id_ok cid"
    and "load_checkpoint s run cid ns = Inr (Some x)"
  shows "load_checkpoint (run_saves save s rs) run cid ns = Inr (Some x)"
  using assms(1,2,5)
proof (induction rs arbitrary: s L)
  case (Cons r rs)
  let ?L = "L(stream_key r := fst (log_save (L (stream_key r)) r))"
  have rep: "rep (fst (save s r)) ?L" using save_rep Cons.prems by simp
  obtain y where y: "log_read (L (run, ns)) cid = Some y" "x = viewed view y"
    using load_rep [OF Cons.prems(1) k] Cons.prems(3) by (cases "log_read (L (run, ns)) cid") auto
  have "log_read (?L (run, ns)) cid = Some y" using log_read_keeps y(1) by (metis fun_upd_apply)
  then have "load_checkpoint (fst (save s r)) run cid ns = Inr (Some x)" using load_rep [OF rep k] y(2) by simp
  then show ?case using Cons.IH [OF rep] Cons.prems(2) by simp
qed simp

lemma saved_is_loaded:
  assumes "rep s L" and "ok r" and "snd (save s r) = Inr c"
  shows "load_checkpoint (fst (save s r)) (cw_run_id r) (cw_checkpoint_id r) (cw_namespace r)
      = Inr (Some \<lparr>cr_checkpoint = view c, cr_body = cw_body r\<rparr>)"
proof -
  let ?M = "L (stream_key r)"
  let ?L = "L(stream_key r := fst (log_save ?M r))"
  have rep: "rep (fst (save s r)) ?L" using save_rep assms by simp
  obtain v where v: "snd (log_save ?M r) = Some v" "c = v \<or> c = view v"
    using save_result [OF assms(1,2)] assms(3) by (auto split: option.splits)
  have "log_read (fst (log_save ?M r)) (cw_checkpoint_id r) = Some \<lparr>cr_checkpoint = v, cr_body = cw_body r\<rparr>"
    by (rule log_read_saved [OF v(1)])
  then show ?thesis
    using load_rep [OF rep] ok_wf [OF assms(2)] v(2) view_view by (auto simp: stream_key_def viewed_def)
qed

lemma second_writer_conflicts:
  assumes "rep s L" and "ok a" and "ok b"
    and "stream_key a = stream_key b" and "cw_parent a = cw_parent b"
    and "cw_checkpoint_id a \<noteq> cw_checkpoint_id b"
    and "load_checkpoint s (cw_run_id a) (cw_checkpoint_id a) (cw_namespace a) = Inr None"
    and "load_checkpoint s (cw_run_id b) (cw_checkpoint_id b) (cw_namespace b) = Inr None"
    and "snd (save s a) = Inr c"
  shows "\<exists>e. snd (save (fst (save s a)) b) = Inl e \<and> isinstance e CheckpointConflictError_cls"
proof -
  let ?M = "L (stream_key a)"
  have fresh: "log_find ?M (cw_checkpoint_id a) = None" "log_find ?M (cw_checkpoint_id b) = None"
    using load_rep [OF assms(1)] ok_wf [OF assms(2)] ok_wf [OF assms(3)]
      assms(4,7,8) by (auto simp: stream_key_def log_read_def)
  have "snd (log_save ?M a) \<noteq> None"
    using save_result [OF assms(1,2)] assms(9) by (cases "snd (log_save ?M a)") auto
  then have pa: "cw_parent a = log_head ?M" "fst (log_save ?M a) = ?M @ [a]"
    using fresh(1) by (auto simp: log_save_def split: if_splits)
  let ?L = "L(stream_key a := fst (log_save ?M a))"
  have rep: "rep (fst (save s a)) ?L" by (rule save_rep [OF assms(1,2)])
  have "cw_parent b \<noteq> Some (cw_checkpoint_id a)"
    using ok_wf [OF assms(2)] assms(5) by (auto simp: wf_checkpoint_def)
  then have "snd (log_save (?M @ [a]) b) = None"
    using fresh(2) assms(6) by (simp add: log_save_def log_find_append log_head_def)
  then have "save_outcome view (snd (save (fst (save s a)) b)) None"
    using save_result [OF rep assms(3)] pa(2) assms(4) by simp
  then show ?thesis by (cases "snd (save (fst (save s a)) b)") auto
qed

end

end
