(* ===== verification/Checkpoint_Memory.thy ===== *)
theory Checkpoint_Memory
  imports Checkpoint_Store
begin

text \<open>
  integrations/checkpoint/memory_store.py: \<open>MemoryCheckpointStore\<close> as a dictionary of streams, each
  with its records by identifier, its identifiers by revision and its head, and the proof that it
  refines the log of the protocol.
\<close>

section \<open>The store\<close>

record ck_record =
  rc_descriptor :: stored_checkpoint
  rc_body :: string

record ck_stream =
  records_by_id :: "(string \<times> ck_record) list"
  records_by_revision :: "(int \<times> string) list"
  head_checkpoint_id :: "string option"

type_synonym ck_memory = "((run_id \<times> string) \<times> ck_stream) list"

definition empty_stream :: ck_stream where
  "empty_stream = \<lparr>records_by_id = [], records_by_revision = [], head_checkpoint_id = None\<rparr>"

definition ck_integrity_failure :: "(string \<times> pyval) list \<Rightarrow> exn" where
  "ck_integrity_failure metadata =
     CheckpointIntegrityError ''Checkpoint store detected an integrity failure.''
       ''CHECKPOINT_STORE_INTEGRITY_FAILURE'' (Some ''checkpoint_store'') None metadata"

definition ck_conflict :: "string \<Rightarrow> exn" where
  "ck_conflict cid =
     CheckpointConflictError ''Checkpoint identity conflicts with an existing immutable version.''
       ''CHECKPOINT_STORE_CONFLICT'' (Some ''checkpoint_store'') [(''checkpoint_id'', PStr cid)]"

definition ck_stale_parent :: "string \<Rightarrow> exn" where
  "ck_stale_parent cid =
     CheckpointConflictError ''Checkpoint write conflicts with the current stream head.''
       ''CHECKPOINT_STORE_STALE_PARENT'' (Some ''checkpoint_store'') [(''checkpoint_id'', PStr cid)]"

definition same_canonical_request :: "ck_record \<Rightarrow> checkpoint_request \<Rightarrow> bool res" where
  "same_canonical_request existing r =
     (let d = rc_descriptor existing
      in if sc_run_id d = cw_run_id r \<and> sc_namespace d = cw_namespace r
            \<and> sc_checkpoint_id d = cw_checkpoint_id r \<and> sc_parent d = cw_parent r
            \<and> rc_body existing = cw_body r \<and> sc_serializer_name d = cw_serializer_name r
            \<and> sc_serializer_version d = cw_serializer_version r \<and> sc_content_type d = cw_content_type r
         then r_bind (canonicalize_checkpoint_metadata (PDict (sc_metadata d))) (\<lambda>a.
           r_bind (canonicalize_checkpoint_metadata (PDict (cw_metadata r))) (\<lambda>b. Inr (a = b)))
         else Inr False)"

definition verify_record :: "ck_record \<Rightarrow> unit res" where
  "verify_record rc =
     (let d = rc_descriptor rc; body = rc_body rc
      in r_guard (sc_size d \<noteq> int (length body) \<or> sc_digest d \<noteq> body_digest body)
           (ck_integrity_failure [(''checkpoint_id'', PStr (sc_checkpoint_id d))]))"

definition verify_listing_record :: "ck_record \<Rightarrow> unit res" where
  "verify_listing_record rc =
     (let d = rc_descriptor rc
      in r_guard (sc_size d \<noteq> int (length (rc_body rc)))
           (ck_integrity_failure [(''checkpoint_id'', PStr (sc_checkpoint_id d))]))"

definition clone_read_result :: "ck_record \<Rightarrow> checkpoint_read_result res" where
  "clone_read_result rc =
     r_bind (clone_checkpoint (rc_descriptor rc)) (\<lambda>c.
     r_bind (normalize_checkpoint_body (PBytes (rc_body rc))) (\<lambda>b.
       Inr \<lparr>cr_checkpoint = c, cr_body = b\<rparr>))"

definition ck_stream_key :: "pyval \<Rightarrow> pyval \<Rightarrow> (run_id \<times> string) res" where
  "ck_stream_key run_id checkpoint_namespace =
     r_bind (normalize_checkpoint_run_id run_id) (\<lambda>r.
     r_bind (normalize_checkpoint_namespace checkpoint_namespace) (\<lambda>ns. Inr (r, ns)))"

definition ensure_stream :: "run_id \<times> string \<Rightarrow> ck_memory \<Rightarrow> ck_memory \<times> ck_stream" where
  "ensure_stream key streams =
     (case map_of streams key of
        Some stream \<Rightarrow> (streams, stream)
      | None \<Rightarrow> (dict_set key empty_stream streams, empty_stream))"

text \<open>The revision of a write that is not a repetition, from the head of the stream.\<close>

definition next_revision :: "ck_stream \<Rightarrow> checkpoint_request \<Rightarrow> int res" where
  "next_revision stream r =
     (case head_checkpoint_id stream of
        None \<Rightarrow>
          if cw_parent r \<noteq> None then Inl (ck_stale_parent (cw_checkpoint_id r)) else Inr 1
      | Some head \<Rightarrow>
          (case map_of (records_by_id stream) head of
             None \<Rightarrow> Inl (ck_integrity_failure [(''checkpoint_id'', PStr head)])
           | Some rc \<Rightarrow>
               r_bind (verify_record rc) (\<lambda>_.
                 if cw_parent r \<noteq> Some head then Inl (ck_stale_parent (cw_checkpoint_id r))
                 else Inr (sc_revision (rc_descriptor rc) + 1))))"

definition ck_save :: "ck_memory \<Rightarrow> checkpoint_request \<Rightarrow> ck_memory \<times> stored_checkpoint res" where
  "ck_save streams r =
     (case ck_stream_key (run_id_value (cw_run_id r)) (PStr (cw_namespace r)) of
        Inl e \<Rightarrow> (streams, Inl e)
      | Inr key \<Rightarrow>
        (case ensure_stream key streams of (streams, stream) \<Rightarrow>
           (case map_of (records_by_id stream) (cw_checkpoint_id r) of
              Some existing \<Rightarrow>
                (streams,
                 r_bind (verify_record existing) (\<lambda>_.
                 r_bind (same_canonical_request existing r) (\<lambda>same.
                   if same then clone_checkpoint (rc_descriptor existing)
                   else Inl (ck_conflict (cw_checkpoint_id r)))))
            | None \<Rightarrow>
                (case r_bind (next_revision stream r) (\<lambda>revision.
                        r_bind (build_checkpoint_descriptor r revision) (\<lambda>d. Inr (revision, d))) of
                   Inl e \<Rightarrow> (streams, Inl e)
                 | Inr (revision, d) \<Rightarrow>
                     (dict_set key
                        \<lparr>records_by_id = dict_set (cw_checkpoint_id r)
                           \<lparr>rc_descriptor = d, rc_body = cw_body r\<rparr> (records_by_id stream),
                         records_by_revision =
                           dict_set revision (cw_checkpoint_id r) (records_by_revision stream),
                         head_checkpoint_id = Some (cw_checkpoint_id r)\<rparr> streams,
                      clone_checkpoint d)))))"

definition ck_load_latest :: "ck_memory \<Rightarrow> pyval \<Rightarrow> pyval \<Rightarrow> checkpoint_read_result option res" where
  "ck_load_latest streams run_id ns =
     r_bind (ck_stream_key run_id ns) (\<lambda>key.
       case map_of streams key of
         None \<Rightarrow> Inr None
       | Some stream \<Rightarrow>
           (case head_checkpoint_id stream of
              None \<Rightarrow> Inr None
            | Some head \<Rightarrow>
                (case map_of (records_by_id stream) head of
                   None \<Rightarrow> Inl (ck_integrity_failure [(''checkpoint_id'', PStr head)])
                 | Some rc \<Rightarrow>
                     r_bind (verify_record rc) (\<lambda>_.
                     r_bind (clone_read_result rc) (\<lambda>x. Inr (Some x))))))"

fun lookup_checkpoint_id :: "pyval \<Rightarrow> string res" where
  "lookup_checkpoint_id (Atom (AStr s)) =
     (if strip s \<noteq> s \<or> strip s = [] then Inl ck_bad_id else Inr s)"
| "lookup_checkpoint_id _ = Inl ck_bad_id"

definition ck_load_checkpoint ::
  "ck_memory \<Rightarrow> pyval \<Rightarrow> pyval \<Rightarrow> pyval \<Rightarrow> checkpoint_read_result option res" where
  "ck_load_checkpoint streams run_id checkpoint_id ns =
     r_bind (ck_stream_key run_id ns) (\<lambda>key.
     r_bind (lookup_checkpoint_id checkpoint_id) (\<lambda>cid.
       case map_of streams key of
         None \<Rightarrow> Inr None
       | Some stream \<Rightarrow>
           (case map_of (records_by_id stream) cid of
              None \<Rightarrow> Inr None
            | Some rc \<Rightarrow>
                r_bind (verify_record rc) (\<lambda>_.
                r_bind (clone_read_result rc) (\<lambda>x. Inr (Some x))))))"

definition list_revision :: "ck_stream \<Rightarrow> int \<Rightarrow> stored_checkpoint res" where
  "list_revision stream revision =
     (case map_of (records_by_revision stream) revision of
        None \<Rightarrow> Inl (ck_integrity_failure [(''revision'', PInt revision)])
      | Some cid \<Rightarrow>
          (case map_of (records_by_id stream) cid of
             None \<Rightarrow> Inl (ck_integrity_failure [(''checkpoint_id'', PStr cid)])
           | Some rc \<Rightarrow>
               r_bind (verify_listing_record rc) (\<lambda>_. clone_checkpoint (rc_descriptor rc))))"

definition ck_list_for_run :: "ck_memory \<Rightarrow> pyval \<Rightarrow> pyval \<Rightarrow> stored_checkpoint list res" where
  "ck_list_for_run streams run_id ns =
     r_bind (ck_stream_key run_id ns) (\<lambda>key.
       case map_of streams key of
         None \<Rightarrow> Inr []
       | Some stream \<Rightarrow> r_map_list (list_revision stream) (sort (map fst (records_by_revision stream))))"

section \<open>A stream represents a log\<close>

definition log_record :: "nat \<times> checkpoint_request \<Rightarrow> ck_record" where
  "log_record p = \<lparr>rc_descriptor = versioned p, rc_body = cw_body (snd p)\<rparr>"

definition stream_of :: "checkpoint_request list \<Rightarrow> ck_stream" where
  "stream_of L =
     \<lparr>records_by_id = map (\<lambda>p. (cw_checkpoint_id (snd p), log_record p)) (enumerate 1 L),
      records_by_revision = map (\<lambda>p. (int (fst p), cw_checkpoint_id (snd p))) (enumerate 1 L),
      head_checkpoint_id = log_head L\<rparr>"

definition log_ok :: "run_id \<times> string \<Rightarrow> checkpoint_request list \<Rightarrow> bool" where
  "log_ok key L \<longleftrightarrow> (\<forall>r \<in> set L. wf_checkpoint r \<and> stream_key r = key) \<and> distinct (map cw_checkpoint_id L)"

definition ck_rep :: "ck_memory \<Rightarrow> (run_id \<times> string \<Rightarrow> checkpoint_request list) \<Rightarrow> bool" where
  "ck_rep streams L \<longleftrightarrow> (\<forall>key. log_ok key (L key) \<and>
     (case map_of streams key of None \<Rightarrow> L key = [] | Some stream \<Rightarrow> stream = stream_of (L key)))"

lemma map_of_find:
  "map_of (map (\<lambda>p. (f p, g p)) ps) k = map_option g (find (\<lambda>p. f p = k) ps)"
  by (induction ps) auto

lemma stream_of_lookup: "map_of (records_by_id (stream_of L)) cid = map_option log_record (log_find L cid)"
  by (simp add: stream_of_def map_of_find log_find_def case_prod_unfold)

lemma stream_of_Nil: "stream_of [] = empty_stream"
  by (simp add: stream_of_def empty_stream_def log_head_def)

lemma ck_repD:
  assumes "ck_rep streams L"
  shows "log_ok key (L key)"
    and "map_of streams key = None \<Longrightarrow> L key = []"
    and "map_of streams key = Some stream \<Longrightarrow> stream = stream_of (L key)"
proof -
  have a: "log_ok key (L key)" "case map_of streams key of None \<Rightarrow> L key = []
      | Some stream \<Rightarrow> stream = stream_of (L key)"
    using assms unfolding ck_rep_def by blast+
  show "log_ok key (L key)" by (rule a(1))
  show "map_of streams key = None \<Longrightarrow> L key = []"
    "map_of streams key = Some stream \<Longrightarrow> stream = stream_of (L key)"
    using a(2) by simp_all
qed

lemma ck_stream_key_ok:
  "ck_run_ok run \<Longrightarrow> namespace_ok ns \<Longrightarrow> ck_stream_key (run_id_value run) (PStr ns) = Inr (run, ns)"
proof -
  assume "ck_run_ok run" "namespace_ok ns"
  then have "normalize_checkpoint_run_id (run_id_value run) = Inr run"
    "normalize_checkpoint_namespace (PStr ns) = Inr ns"
    by (simp_all only: ck_run_id_value ck_namespace_iff namespace_ok_def)
  then show ?thesis unfolding ck_stream_key_def by simp
qed

lemma ensure_stream_rep:
  assumes "ck_rep streams L"
  shows "snd (ensure_stream key streams) = stream_of (L key)"
    and "ck_rep (fst (ensure_stream key streams)) L"
    and "map_of (fst (ensure_stream key streams)) key = Some (stream_of (L key))"
proof -
  show "snd (ensure_stream key streams) = stream_of (L key)"
    using ck_repD [OF assms] by (auto simp: ensure_stream_def stream_of_Nil split: option.split)
  show "ck_rep (fst (ensure_stream key streams)) L"
    using assms ck_repD(2) [OF assms, of key] unfolding ck_rep_def ensure_stream_def
    by (auto simp: map_of_dict_set stream_of_Nil split: option.splits)
  show "map_of (fst (ensure_stream key streams)) key = Some (stream_of (L key))"
    using ck_repD(2,3) [OF assms, of key]
    by (auto simp: ensure_stream_def map_of_dict_set stream_of_Nil split: option.split)
qed

lemma log_find_ok:
  assumes "log_ok key L" and "log_find L cid = Some p"
  shows "wf_checkpoint (snd p)" and "0 < fst p" and "cw_checkpoint_id (snd p) = cid"
    and "stream_key (snd p) = key"
proof -
  have p: "p \<in> set (enumerate 1 L)" "cw_checkpoint_id (snd p) = cid"
    using log_find_SomeD assms(2) by blast+
  then have n: "fst p - 1 < length L" "L ! (fst p - 1) = snd p" "0 < fst p"
    by (auto simp: in_set_enumerate_eq)
  then have "snd p \<in> set L" "0 < fst p" by (auto simp: in_set_conv_nth)
  then show "wf_checkpoint (snd p)" "0 < fst p" "cw_checkpoint_id (snd p) = cid"
    "stream_key (snd p) = key"
    using assms(1) p unfolding log_ok_def by blast+
qed

lemma record_verified: "verify_record (log_record p) = Inr ()"
  "verify_listing_record (log_record p) = Inr ()"
  by (simp_all add: verify_record_def verify_listing_record_def log_record_def versioned_def
      describe_checkpoint_def Let_def)

lemma record_cloned:
  assumes "wf_checkpoint (snd p)" and "0 < fst p"
  shows "clone_checkpoint (rc_descriptor (log_record p)) = Inr (versioned p)"
    and "clone_read_result (log_record p) = Inr (version_reading p)"
proof -
  show c: "clone_checkpoint (rc_descriptor (log_record p)) = Inr (versioned p)"
    using build_checkpoint_descriptor_wf(2) [OF assms(1), of "int (fst p)"] assms(2)
    by (simp add: log_record_def versioned_def)
  show "clone_read_result (log_record p) = Inr (version_reading p)"
    unfolding clone_read_result_def c by (simp add: log_record_def version_reading_def)
qed

lemma same_canonical_log_record:
  assumes "wf_checkpoint (snd p)" and "wf_checkpoint r"
  shows "same_canonical_request (log_record p) r = Inr (same_request (snd p) r)"
proof -
  obtain a b where "canonicalize_checkpoint_metadata (PDict (cw_metadata (snd p))) = Inr a"
    "canonicalize_checkpoint_metadata (PDict (cw_metadata r)) = Inr b"
    using canonicalize_checkpoint_metadata_total assms by blast
  then show ?thesis
    by (auto simp: same_canonical_request_def log_record_def versioned_def describe_checkpoint_def
        same_request_def Let_def)
qed

section \<open>The store refines the log\<close>

lemma log_head_find:
  assumes "log_ok key L" and "L \<noteq> []"
  shows "log_find L (cw_checkpoint_id (last L)) = Some (length L, last L)"
proof (cases L rule: rev_exhaust)
  case (snoc M r)
  then have "log_find M (cw_checkpoint_id r) = None"
    using assms(1) by (auto simp: log_ok_def log_find_None)
  then show ?thesis using snoc by (simp add: log_find_append)
qed (use assms in simp)

lemma next_revision_stream_of:
  assumes "log_ok key L"
  shows "next_revision (stream_of L) r =
    (if cw_parent r = log_head L then Inr (int (Suc (length L))) else Inl (ck_stale_parent (cw_checkpoint_id r)))"
proof (cases "L = []")
  case True
  then show ?thesis by (simp add: next_revision_def stream_of_def log_head_def)
next
  case False
  have h: "head_checkpoint_id (stream_of L) = Some (cw_checkpoint_id (last L))"
    using False by (simp add: stream_of_def log_head_def)
  have l: "map_of (records_by_id (stream_of L)) (cw_checkpoint_id (last L))
      = Some (log_record (length L, last L))"
    unfolding stream_of_lookup log_head_find [OF assms False] by simp
  have rv: "sc_revision (rc_descriptor (log_record (length L, last L))) = int (length L)"
    by (simp add: log_record_def versioned_def describe_checkpoint_def)
  show ?thesis
    unfolding next_revision_def h option.case l record_verified rv using False
    by (auto simp: log_head_def)
qed

lemma map_of_revision_fresh:
  "map_of (records_by_revision (stream_of L)) (int (Suc (length L))) = None"
  by (auto simp: stream_of_def map_of_eq_None_iff in_set_enumerate_eq)

lemma stream_of_snoc:
  assumes "log_find L (cw_checkpoint_id r) = None"
  shows "stream_of (L @ [r]) =
    \<lparr>records_by_id = dict_set (cw_checkpoint_id r) (log_record (Suc (length L), r)) (records_by_id (stream_of L)),
     records_by_revision = dict_set (int (Suc (length L))) (cw_checkpoint_id r) (records_by_revision (stream_of L)),
     head_checkpoint_id = Some (cw_checkpoint_id r)\<rparr>"
proof -
  have "map_of (records_by_id (stream_of L)) (cw_checkpoint_id r) = None"
    unfolding stream_of_lookup assms by simp
  then show ?thesis
    unfolding dict_set_fresh [OF map_of_revision_fresh] dict_set_fresh [OF \<open>map_of _ _ = None\<close>]
    by (simp add: stream_of_def enumerate_append_eq log_head_def)
qed

lemma log_ok_snoc:
  "log_ok key L \<Longrightarrow> wf_checkpoint r \<Longrightarrow> stream_key r = key \<Longrightarrow>
     log_find L (cw_checkpoint_id r) = None \<Longrightarrow> log_ok key (L @ [r])"
  by (auto simp: log_ok_def log_find_None)

lemma ck_save_refines:
  assumes rep: "ck_rep streams L" and r: "wf_checkpoint r"
  defines "M \<equiv> L (stream_key r)"
  shows "ck_rep (fst (ck_save streams r)) (L(stream_key r := fst (log_save M r)))"
    and "save_outcome (\<lambda>c. c) (snd (ck_save streams r)) (snd (log_save M r))"
proof -
  let ?key = "stream_key r" and ?cid = "cw_checkpoint_id r"
  have ok: "log_ok ?key M" unfolding M_def by (rule ck_repD(1) [OF rep])
  have key: "ck_stream_key (run_id_value (cw_run_id r)) (PStr (cw_namespace r)) = Inr ?key"
    using ck_stream_key_ok wf_checkpoint_key [OF r] unfolding stream_key_def by blast
  obtain s1 where s1: "ensure_stream ?key streams = (s1, stream_of M)" "ck_rep s1 L"
    using ensure_stream_rep(1,2) [OF rep, of ?key] unfolding M_def by (metis prod.collapse)
  have conflict: "isinstance (ck_conflict c) CheckpointConflictError_cls"
    "isinstance (ck_stale_parent c) CheckpointConflictError_cls" for c
    by (simp_all add: ck_conflict_def ck_stale_parent_def error_init_defs FrameworkError_init_def
        isinstance_def)
  have same: "L(?key := M) = L" by (simp add: M_def)
  have "ck_rep (fst (ck_save streams r)) (L(?key := fst (log_save M r)))
      \<and> save_outcome (\<lambda>c. c) (snd (ck_save streams r)) (snd (log_save M r))"
  proof (cases "log_find M ?cid")
    case (Some p)
    note p = log_find_ok [OF ok Some]
    have "map_of (records_by_id (stream_of M)) ?cid = Some (log_record p)"
      unfolding stream_of_lookup Some by simp
    then have "ck_save streams r =
        (s1, if same_request (snd p) r then Inr (versioned p) else Inl (ck_conflict ?cid))"
      by (simp add: ck_save_def key s1(1) record_verified same_canonical_log_record [OF p(1) r]
          record_cloned(1) [OF p(1,2)])
    then show ?thesis using s1(2) same conflict Some by (simp add: log_save_def)
  next
    case None
    have lookup: "map_of (records_by_id (stream_of M)) ?cid = None"
      unfolding stream_of_lookup None by simp
    show ?thesis
    proof (cases "cw_parent r = log_head M")
      case False
      then have "ck_save streams r = (s1, Inl (ck_stale_parent ?cid))"
        by (simp add: ck_save_def key s1(1) lookup next_revision_stream_of [OF ok])
      then show ?thesis using s1(2) same conflict None False by (simp add: log_save_def)
    next
      case True
      let ?v = "versioned (Suc (length M), r)"
      have d: "build_checkpoint_descriptor r (int (Suc (length M))) = Inr ?v"
        "clone_checkpoint ?v = Inr ?v"
        using build_checkpoint_descriptor_wf [OF r, of "int (Suc (length M))"]
        by (simp_all add: versioned_def)
      have "ck_save streams r = (dict_set ?key (stream_of (M @ [r])) s1, Inr ?v)"
        using True
        by (simp add: ck_save_def key s1(1) lookup next_revision_stream_of [OF ok] d
            stream_of_snoc [OF None] log_record_def del: of_nat_Suc)
      moreover have "ck_rep (dict_set ?key (stream_of (M @ [r])) s1) (L(?key := M @ [r]))"
        unfolding ck_rep_def
      proof
        fix k
        show "log_ok k ((L(?key := M @ [r])) k) \<and>
            (case map_of (dict_set ?key (stream_of (M @ [r])) s1) k of
               None \<Rightarrow> (L(?key := M @ [r])) k = []
             | Some stream \<Rightarrow> stream = stream_of ((L(?key := M @ [r])) k))"
          using s1(2) [unfolded ck_rep_def, rule_format, of k] log_ok_snoc [OF ok r refl None]
          by (cases "k = ?key") (simp_all add: map_of_dict_set split: option.splits)
      qed
      ultimately show ?thesis using None True by (simp add: log_save_def)
    qed
  qed
  then show "ck_rep (fst (ck_save streams r)) (L(stream_key r := fst (log_save M r)))"
    and "save_outcome (\<lambda>c. c) (snd (ck_save streams r)) (snd (log_save M r))" by blast+
qed

lemma ck_load_latest_rep:
  assumes rep: "ck_rep streams L" and "ck_run_ok run" "namespace_ok ns"
  shows "ck_load_latest streams (run_id_value run) (PStr ns) = Inr (log_latest (L (run, ns)))"
proof (cases "map_of streams (run, ns)")
  case None
  then show ?thesis
    using ck_repD(2) [OF rep None] ck_stream_key_ok assms(2,3)
    by (simp add: ck_load_latest_def log_latest_def)
next
  case (Some stream)
  let ?M = "L (run, ns)"
  have s: "stream = stream_of ?M" by (rule ck_repD(3) [OF rep Some])
  have ok: "log_ok (run, ns) ?M" by (rule ck_repD(1) [OF rep])
  show ?thesis
  proof (cases "?M = []")
    case True
    then show ?thesis
      using Some s ck_stream_key_ok assms(2,3)
      by (simp add: ck_load_latest_def log_latest_def stream_of_Nil empty_stream_def)
  next
    case False
    note f = log_head_find [OF ok False]
    note p = log_find_ok [OF ok f]
    have "map_of (records_by_id (stream_of ?M)) (cw_checkpoint_id (last ?M))
        = Some (log_record (length ?M, last ?M))"
      unfolding stream_of_lookup f by simp
    moreover have "head_checkpoint_id (stream_of ?M) = Some (cw_checkpoint_id (last ?M))"
      using False by (simp add: stream_of_def log_head_def)
    ultimately show ?thesis
      using Some s ck_stream_key_ok assms(2,3) False record_cloned(2) [OF p(1,2)]
      by (simp add: ck_load_latest_def log_latest_def record_verified)
  qed
qed

lemma lookup_checkpoint_id_ok: "identifier_ok CHECKPOINT_ID_RE cid \<Longrightarrow> lookup_checkpoint_id (PStr cid) = Inr cid"
  by (auto simp: identifier_ok_def)

lemma ck_load_checkpoint_rep:
  assumes rep: "ck_rep streams L" and "ck_run_ok run" "namespace_ok ns"
    and "identifier_ok CHECKPOINT_ID_RE cid"
  shows "ck_load_checkpoint streams (run_id_value run) (PStr cid) (PStr ns)
    = Inr (log_read (L (run, ns)) cid)"
proof -
  let ?M = "L (run, ns)"
  have ok: "log_ok (run, ns) ?M" by (rule ck_repD(1) [OF rep])
  have start: "ck_stream_key (run_id_value run) (PStr ns) = Inr (run, ns)"
    "lookup_checkpoint_id (PStr cid) = Inr cid"
    using ck_stream_key_ok lookup_checkpoint_id_ok assms by blast+
  show ?thesis
  proof (cases "map_of streams (run, ns)")
    case None
    then show ?thesis
      using ck_repD(2) [OF rep None] unfolding ck_load_checkpoint_def start
      by (simp add: log_read_def log_find_def)
  next
    case (Some stream)
    have s: "stream = stream_of ?M" by (rule ck_repD(3) [OF rep Some])
    show ?thesis
    proof (cases "log_find ?M cid")
      case None
      then show ?thesis
        unfolding ck_load_checkpoint_def start using Some s
        by (simp add: log_read_def stream_of_lookup)
    next
      case f: (Some p)
      note p = log_find_ok [OF ok f]
      show ?thesis
        unfolding ck_load_checkpoint_def start using Some s f record_cloned(2) [OF p(1,2)]
        by (simp add: log_read_def stream_of_lookup record_verified)
    qed
  qed
qed

lemma log_find_nth:
  "log_ok key L \<Longrightarrow> p \<in> set (enumerate 1 L) \<Longrightarrow> log_find L (cw_checkpoint_id (snd p)) = Some p"
  by (rule log_find_entry) (simp_all add: log_ok_def)

lemma list_revision_rep:
  assumes "log_ok key L" and "p \<in> set (enumerate 1 L)"
  shows "list_revision (stream_of L) (int (fst p)) = Inr (versioned p)"
proof -
  note f = log_find_nth [OF assms]
  note ok = log_find_ok [OF assms(1) f]
  have "distinct (map fst (records_by_revision (stream_of L)))"
    by (simp add: stream_of_def comp_def distinct_map inj_on_def)
      (auto simp: distinct_enumerate in_set_enumerate_eq prod_eq_iff)
  moreover have "(int (fst p), cw_checkpoint_id (snd p)) \<in> set (records_by_revision (stream_of L))"
    using assms(2) by (auto simp: stream_of_def)
  ultimately have m: "map_of (records_by_revision (stream_of L)) (int (fst p)) = Some (cw_checkpoint_id (snd p))"
    by (rule map_of_is_SomeI)
  show ?thesis
    unfolding list_revision_def m option.case stream_of_lookup f
    using record_cloned(1) [OF ok(1,2)] by (simp add: record_verified)
qed

lemma ck_list_for_run_rep:
  assumes rep: "ck_rep streams L" and "ck_run_ok run" "namespace_ok ns"
  shows "ck_list_for_run streams (run_id_value run) (PStr ns) = Inr (log_list (L (run, ns)))"
proof -
  let ?M = "L (run, ns)"
  have ok: "log_ok (run, ns) ?M" by (rule ck_repD(1) [OF rep])
  have start: "ck_stream_key (run_id_value run) (PStr ns) = Inr (run, ns)"
    using ck_stream_key_ok assms by blast
  show ?thesis
  proof (cases "map_of streams (run, ns)")
    case None
    then show ?thesis
      using ck_repD(2) [OF rep None] unfolding ck_list_for_run_def start by (simp add: log_list_def)
  next
    case (Some stream)
    have s: "stream = stream_of ?M" by (rule ck_repD(3) [OF rep Some])
    have "map fst (records_by_revision (stream_of ?M)) = map int (map fst (enumerate 1 ?M))"
      by (simp add: stream_of_def comp_def del: map_fst_enumerate)
    also have "\<dots> = map int [1..<1 + length ?M]" by (simp only: map_fst_enumerate)
    finally have keys: "map fst (records_by_revision (stream_of ?M)) = map int [1..<1 + length ?M]" .
    have "sorted (map int [1..<1 + length ?M])" by (simp add: sorted_map sorted_wrt_upt del: upt_Suc)
    then have sorted: "sort (map fst (records_by_revision (stream_of ?M)))
        = map (int \<circ> fst) (enumerate 1 ?M)"
      unfolding keys by (simp only: sorted_sort_id map_map [symmetric] map_fst_enumerate)
    have "r_map_list (list_revision (stream_of ?M)) (map (int \<circ> fst) ps) = Inr (map versioned ps)"
      if "set ps \<subseteq> set (enumerate 1 ?M)" for ps
      using that list_revision_rep [OF ok] by (induction ps) auto
    then show ?thesis
      unfolding ck_list_for_run_def start using Some s sorted by (simp add: log_list_def)
  qed
qed

interpretation ck_mem: checkpoint_store "[]" ck_rep wf_checkpoint
  "\<lambda>(run, ns). ck_run_ok run \<and> namespace_ok ns" "identifier_ok CHECKPOINT_ID_RE" "\<lambda>c. c" ck_save
  "\<lambda>s run ns. ck_load_latest s (run_id_value run) (PStr ns)"
  "\<lambda>s run cid ns. ck_load_checkpoint s (run_id_value run) (PStr cid) (PStr ns)"
  "\<lambda>s run ns. ck_list_for_run s (run_id_value run) (PStr ns)"
proof
  show "ck_rep [] (\<lambda>_. [])" by (simp add: ck_rep_def log_ok_def)
next
  fix s L r assume r: "ck_rep s L" "wf_checkpoint r"
  show "ck_rep (fst (ck_save s r)) (L(stream_key r := fst (log_save (L (stream_key r)) r)))"
    by (rule ck_save_refines [OF r])
  show "save_outcome (\<lambda>c. c) (snd (ck_save s r)) (snd (log_save (L (stream_key r)) r))"
    using ck_save_refines(2) [OF r] by simp
qed (use wf_checkpoint_key ck_load_latest_rep ck_load_checkpoint_rep ck_list_for_run_rep in
    \<open>auto simp: stream_key_def\<close>)

end
