(* ===== verification/Storage_Properties.thy ===== *)
theory Storage_Properties
  imports Artifact_Store Artifact_Emission Checkpoint_Memory
begin

text \<open>
  The properties of the artifact and checkpoint stores and of artifact emission.
\<close>

definition sample_request :: write_request where
  "sample_request = \<lparr>wr_run_id = Run_Int 1, wr_storage_key = ''runs/1/report.txt'', wr_body = ''hello'',
     wr_name = ''report'', wr_kind = ''text'', wr_content_type = Some ''text/plain'', wr_metadata = []\<rparr>"

lemma sample_request: "acceptable sample_request" "acceptable (sample_request\<lparr>wr_body := ''other''\<rparr>)"
  "is_safe_storage_key ''runs/1/report.txt''"
  by code_simp+

text \<open>
  The first accepted write to a key wins: after any sequence of writes to an empty memory store,
  reading a key gives the first request of the sequence with that key, or nothing.
\<close>

theorem artifact_first_write_wins:
  assumes "is_safe_storage_key k" and "\<forall>r \<in> set rs. acceptable r"
  shows "mem_get (run_puts mem_put [] rs) (PStr k)
    = Inr (map_option reading (find (\<lambda>r. wr_storage_key r = k) rs))"
  by (rule mem.first_write_wins [OF assms])

theorem artifact_first_write_wins_witness:
  "mem_get (run_puts mem_put [] [sample_request, sample_request\<lparr>wr_body := ''other''\<rparr>])
     (PStr ''runs/1/report.txt'') = Inr (Some (reading sample_request))"
proof -
  have "wr_storage_key sample_request = ''runs/1/report.txt''" by (simp add: sample_request_def)
  then show ?thesis
    using artifact_first_write_wins [of "''runs/1/report.txt''"
        "[sample_request, sample_request\<lparr>wr_body := ''other''\<rparr>]"] sample_request by simp
qed

text \<open>
  Writing is idempotent: repeating a write that succeeded gives the same descriptor and leaves
  the store as it is.
\<close>

theorem artifact_put_is_idempotent:
  assumes "mem_inv s" and "acceptable r" and "snd (mem_put s r) = Inr a"
  shows "mem_put (fst (mem_put s r)) r = (fst (mem_put s r), Inr a)"
  using mem.put_again [OF assms] by (auto simp: prod_eq_iff reading_def)

theorem artifact_put_is_idempotent_witness:
  "mem_put (fst (mem_put [] sample_request)) sample_request
     = (fst (mem_put [] sample_request), Inr (describe sample_request))"
  by (rule artifact_put_is_idempotent)
    (simp_all add: sample_request mem_put_acceptable mem_inv_def)

text \<open>
  A read never returns corrupted content: whatever the store holds, a body that is returned has
  the size and the SHA-256 digest of the descriptor returned with it.
\<close>

theorem artifact_read_is_intact:
  assumes "mem_get items k = Inr (Some x)"
  shows "sa_size (ar_artifact x) = int (length (ar_body x))
    \<and> sa_digest (ar_artifact x) = body_digest (ar_body x)"
  by (rule mem_get_integrity [OF assms])

theorem artifact_read_is_intact_witness:
  "sa_digest (ar_artifact (reading sample_request)) = body_digest ''hello''"
proof -
  have "map_of (fst (mem_put [] sample_request)) (wr_storage_key sample_request) = Some (recorded sample_request)"
    by (simp add: mem_put_acceptable sample_request)
  from artifact_read_is_intact [OF mem_get_recorded [OF sample_request(1) this]]
  show ?thesis by (simp add: reading_def sample_request_def)
qed

text \<open>
  C32. Storage keys of emitted artifacts are unambiguous: two identities with the same key are the
  same run, slot and occurrence, and every key is safe and of the form built from its parts.
\<close>

theorem emission_key_identifies_the_artifact:
  assumes "wf_identity a" and "wf_identity b"
  shows "(build_artifact_storage_key a = build_artifact_storage_key b \<longleftrightarrow> a = b)
    \<and> (\<exists>k. build_artifact_storage_key a = Inr k \<and> is_safe_storage_key k
         \<and> split_on CHR ''/'' k = key_parts a)"
  using storage_key_inj [OF assms] build_artifact_storage_key_eq [OF assms(1)] by blast

definition sample_identity :: artifact_identity where
  "sample_identity = \<lparr>id_run_id = 7, id_slot = \<lparr>slot_value = ''ab''\<rparr>, id_occurrence = None\<rparr>"

definition other_identity :: artifact_identity where
  "other_identity = \<lparr>id_run_id = 7, id_slot = \<lparr>slot_value = ''a''\<rparr>,
     id_occurrence = Some \<lparr>occurrence_value = ''b''\<rparr>\<rparr>"

theorem emission_key_identifies_the_artifact_witness:
  "build_artifact_storage_key sample_identity \<noteq> build_artifact_storage_key other_identity"
proof -
  have labels: "7 \<le> MAX_RUN_ID" "label_ok MAX_SLOT_LENGTH ''ab''" "label_ok MAX_SLOT_LENGTH ''a''"
    "label_ok MAX_OCCURRENCE_LENGTH ''b''"
    by code_simp+
  have "wf_identity sample_identity" "wf_identity other_identity"
    by (simp_all add: wf_identity_def sample_identity_def other_identity_def) (simp_all add: labels)
  from emission_key_identifies_the_artifact [OF this]
  show ?thesis by (simp add: sample_identity_def other_identity_def)
qed

text \<open>
  Every emission of a run becomes a valid request to the store, under the key of its identity,
  with the body and content type that were emitted.
\<close>

theorem emission_becomes_store_request:
  assumes "ArtifactEmissionContext v = Inr ctx"
    and "ArtifactEmissionRequest (Value s) (Value oc) b ct m = Inr r"
  shows "\<exists>w. build_artifact_write_request ctx r = Inr w \<and> wf_request w
    \<and> is_safe_storage_key (wr_storage_key w)
    \<and> split_on CHR ''/'' (wr_storage_key w) = key_parts (identity_of ctx r)
    \<and> wr_run_id w = Run_Int (ec_run_id ctx) \<and> wr_name w = slot_value (er_slot r)
    \<and> wr_body w = er_body r \<and> wr_content_type w = Some (er_content_type r)"
  by (rule build_artifact_write_request_ok [OF assms(1) ArtifactEmissionRequest_wf [OF assms(2)]])

definition sample_emission :: emission_request where
  "sample_emission = \<lparr>er_slot = \<lparr>slot_value = ''report''\<rparr>, er_occurrence = None, er_body = ''hello'',
     er_content_type = ''text/plain'', er_metadata = [(AStr ''pages'', PTuple [PInt 1, PInt 2])]\<rparr>"

lemma sample_emission:
  "ArtifactEmissionRequest (Value (PStr ''report'')) (Value PNone) (PBytes ''hello'') (PStr ''text/plain'')
     (PDict [(AStr ''pages'', PList [PInt 1, PInt 2])]) = Inr sample_emission"
  by code_simp

theorem emission_becomes_store_request_witness:
  "\<exists>w. build_artifact_write_request \<lparr>ec_run_id = 7\<rparr> sample_emission = Inr w
    \<and> is_safe_storage_key (wr_storage_key w) \<and> wr_body w = ''hello''"
proof -
  have "ArtifactEmissionContext (PInt 7) = Inr \<lparr>ec_run_id = 7\<rparr>" by code_simp
  from emission_becomes_store_request [OF this sample_emission]
  show ?thesis by (auto simp: sample_emission_def)
qed

text \<open>
  Metadata an emission accepts is frozen and bounded: immutable containers of scalars, at most
  nine levels deep and of at most 2048 nodes.
\<close>

theorem emission_metadata_is_bounded:
  assumes "emission_metadata m = Inr d"
  shows "frozen (PDict d) \<and> val_depth (PDict d) \<le> 9 \<and> val_nodes (PDict d) \<le> 2048"
  by (rule emission_metadata_bounded [OF assms])

theorem emission_metadata_is_bounded_witness:
  "frozen (PDict [(AStr ''pages'', PTuple [PInt 1, PInt 2])])"
proof -
  have "emission_metadata (PDict [(AStr ''pages'', PList [PInt 1, PInt 2])])
      = Inr [(AStr ''pages'', PTuple [PInt 1, PInt 2])]" by code_simp
  from emission_metadata_is_bounded [OF this] show ?thesis by blast
qed

text \<open>
  An accepted emission whose metadata has a list cannot be compared with another: the list was
  frozen to a tuple, and canonicalizing the metadata again refuses tuples, so that the signature of
  the request is an exception.
\<close>

theorem emission_with_list_has_no_signature:
  assumes "frozen (PDict kvs)" and "(AStr k, PTuple xs) \<in> set kvs" and "\<not> is_sensitive_key k"
  shows "canonicalize_artifact_metadata (PDict kvs) = Inl emission_invalid_metadata"
  by (rule canonicalize_tuple [OF assms])

theorem emission_with_list_has_no_signature_witness:
  "canonicalize_artifact_metadata (PDict (er_metadata sample_emission)) = Inl emission_invalid_metadata"
  by (rule emission_with_list_has_no_signature [where k = "''pages''" and xs = "[PInt 1, PInt 2]"])
    (simp_all add: sample_emission_def, code_simp+)

section \<open>Checkpoints\<close>

definition first_checkpoint :: checkpoint_request where
  "first_checkpoint = \<lparr>cw_run_id = Run_Int 1, cw_checkpoint_id = ''c1'', cw_body = ''one'',
     cw_serializer_name = ''json'', cw_serializer_version = 1, cw_content_type = ''application/json'',
     cw_namespace = [], cw_parent = None, cw_metadata = []\<rparr>"

definition second_checkpoint :: checkpoint_request where
  "second_checkpoint = first_checkpoint\<lparr>cw_checkpoint_id := ''c2'', cw_parent := Some ''c1'', cw_body := ''two''\<rparr>"

definition rival_checkpoint :: checkpoint_request where
  "rival_checkpoint = first_checkpoint\<lparr>cw_checkpoint_id := ''r1''\<rparr>"

lemma sample_identifiers:
  "identifier_ok CHECKPOINT_ID_RE ''c1''" "identifier_ok CHECKPOINT_ID_RE ''c2''"
  "identifier_ok CHECKPOINT_ID_RE ''r1''" "identifier_ok SERIALIZER_NAME_RE ''json''"
  "ck_run_ok (Run_Int 1)" "lower ''application/json'' = ''application/json''"
  "ck_content_type_ok ''application/json''" "normalize_checkpoint_metadata (PDict []) = Inr []"
  by code_simp+

lemma sample_checkpoints:
  "wf_checkpoint first_checkpoint" "wf_checkpoint second_checkpoint" "wf_checkpoint rival_checkpoint"
  by (simp_all add: wf_checkpoint_def first_checkpoint_def second_checkpoint_def rival_checkpoint_def
      sample_identifiers del: normalize_checkpoint_metadata.simps)

lemma namespace_ok_Nil: "namespace_ok []"
  by (simp add: namespace_ok_def)

text \<open>
  The history of a stream is linear: whatever well-formed writes are made, accepted or refused,
  the listed revisions are 1, 2, 3 and so on, and each checkpoint's parent is the one before it.
\<close>

theorem checkpoint_history_is_linear:
  assumes "\<forall>r \<in> set rs. wf_checkpoint r" and "ck_run_ok run" and "namespace_ok ns"
  shows "\<exists>cs. ck_list_for_run (run_saves ck_save [] rs) (run_id_value run) (PStr ns) = Inr cs
    \<and> map sc_revision cs = map int [1..<Suc (length cs)]
    \<and> (\<forall>i < length cs. sc_parent (cs ! i) =
        (if i = 0 then None else Some (sc_checkpoint_id (cs ! (i - 1)))))"
  by (rule ck_mem.history_linear) (use assms in auto)

theorem checkpoint_history_is_linear_witness:
  "\<exists>cs. ck_list_for_run (run_saves ck_save [] [first_checkpoint, rival_checkpoint, second_checkpoint])
      (PInt 1) (PStr []) = Inr cs \<and> map sc_revision cs = map int [1..<Suc (length cs)]"
  using checkpoint_history_is_linear [of "[first_checkpoint, rival_checkpoint, second_checkpoint]" "Run_Int 1" "[]"]
    sample_checkpoints sample_identifiers(5) namespace_ok_Nil by auto

text \<open>
  A checkpoint that was saved is what is loaded under its id from then on: no later write, whoever
  makes it, changes its descriptor or its body.
\<close>

theorem saved_checkpoint_is_permanent:
  assumes "ck_rep s L" and "wf_checkpoint r" and "snd (ck_save s r) = Inr c" and "\<forall>q \<in> set rs. wf_checkpoint q"
  shows "ck_load_checkpoint (run_saves ck_save (fst (ck_save s r)) rs) (run_id_value (cw_run_id r))
      (PStr (cw_checkpoint_id r)) (PStr (cw_namespace r))
    = Inr (Some \<lparr>cr_checkpoint = c, cr_body = cw_body r\<rparr>)"
proof -
  have rep: "ck_rep (fst (ck_save s r)) (L(stream_key r := fst (log_save (L (stream_key r)) r)))"
    by (rule ck_mem.save_rep [OF assms(1,2)])
  show ?thesis
    using wf_checkpoint_key [OF assms(2)] assms(2)
    by (intro ck_mem.loaded_is_immutable [OF rep assms(4)] ck_mem.saved_is_loaded [OF assms(1-3)]) auto
qed

lemma first_checkpoint_saved: "snd (ck_save [] first_checkpoint) = Inr (versioned (1, first_checkpoint))"
proof -
  have "snd (log_save [] first_checkpoint) = Some (versioned (1, first_checkpoint))"
    by (simp add: log_save_def log_find_def log_head_def first_checkpoint_def)
  then show ?thesis
    using ck_mem.save_result [OF ck_mem.rep_empty sample_checkpoints(1)]
    by (cases "snd (ck_save [] first_checkpoint)") auto
qed

theorem saved_checkpoint_is_permanent_witness:
  "ck_load_checkpoint (run_saves ck_save (fst (ck_save [] first_checkpoint)) [rival_checkpoint, second_checkpoint])
     (PInt 1) (PStr ''c1'') (PStr [])
   = Inr (Some \<lparr>cr_checkpoint = versioned (1, first_checkpoint), cr_body = ''one''\<rparr>)"
  using saved_checkpoint_is_permanent [OF ck_mem.rep_empty sample_checkpoints(1) first_checkpoint_saved,
      of "[rival_checkpoint, second_checkpoint]"] sample_checkpoints
  by (simp add: first_checkpoint_def)

text \<open>
  Optimistic concurrency: of two writers that extend the same head of a stream with different
  checkpoints, the one that saves second gets a conflict.
\<close>

theorem second_writer_of_a_head_conflicts:
  assumes "ck_rep s L" and "wf_checkpoint a" and "wf_checkpoint b"
    and "stream_key a = stream_key b" and "cw_parent a = cw_parent b"
    and "cw_checkpoint_id a \<noteq> cw_checkpoint_id b"
    and "ck_load_checkpoint s (run_id_value (cw_run_id a)) (PStr (cw_checkpoint_id a)) (PStr (cw_namespace a)) = Inr None"
    and "ck_load_checkpoint s (run_id_value (cw_run_id b)) (PStr (cw_checkpoint_id b)) (PStr (cw_namespace b)) = Inr None"
    and "snd (ck_save s a) = Inr c"
  shows "\<exists>e. snd (ck_save (fst (ck_save s a)) b) = Inl e \<and> isinstance e CheckpointConflictError_cls"
  by (rule ck_mem.second_writer_conflicts [OF assms])

theorem second_writer_of_a_head_conflicts_witness:
  "\<exists>e. snd (ck_save (fst (ck_save [] first_checkpoint)) rival_checkpoint) = Inl e
     \<and> isinstance e CheckpointConflictError_cls"
proof (rule second_writer_of_a_head_conflicts [OF ck_mem.rep_empty sample_checkpoints(1,3) _ _ _ _ _
      first_checkpoint_saved])
  show "ck_load_checkpoint [] (run_id_value (cw_run_id first_checkpoint)) (PStr (cw_checkpoint_id first_checkpoint))
      (PStr (cw_namespace first_checkpoint)) = Inr None"
    and "ck_load_checkpoint [] (run_id_value (cw_run_id rival_checkpoint)) (PStr (cw_checkpoint_id rival_checkpoint))
      (PStr (cw_namespace rival_checkpoint)) = Inr None" by code_simp+
qed (simp_all add: rival_checkpoint_def first_checkpoint_def stream_key_def)

text \<open>
  C33. Checkpoint metadata is stored as given or refused, never changed: what is accepted of a mapping
  with distinct keys is that mapping, accepting it again changes nothing, and it has a canonical text.
\<close>

theorem checkpoint_metadata_is_lossless:
  assumes "normalize_checkpoint_metadata (PDict kvs) = Inr out" and "wf_val (PDict kvs)"
  shows "out = kvs \<and> normalize_checkpoint_metadata (PDict out) = Inr out
    \<and> (\<exists>c. canonicalize_checkpoint_metadata (PDict out) = Inr c)"
proof -
  have v: "normalize_metadata_value 0 (PDict kvs) = Inr (PDict out)"
    using assms(1) by (simp only: normalize_checkpoint_metadata_value)
  then have "out = kvs" using normalize_metadata_lossless(1) assms(2) by blast
  moreover have "normalize_checkpoint_metadata (PDict out) = Inr out"
    using normalize_metadata_fixed(1) [OF v] by (simp only: normalize_checkpoint_metadata_value)
  ultimately show ?thesis
    using canonicalize_total(1) [OF v] by (auto simp: canonicalize_checkpoint_metadata_def)
qed

theorem checkpoint_metadata_is_lossless_witness:
  "\<exists>c. canonicalize_checkpoint_metadata (PDict [(AStr ''step'', PList [PInt 3])]) = Inr c"
proof -
  have "normalize_checkpoint_metadata (PDict [(AStr ''step'', PList [PInt 3])])
      = Inr [(AStr ''step'', PList [PInt 3])]" by code_simp
  moreover have "wf_val (PDict [(AStr ''step'', PList [PInt 3])])" by (simp add: wf_dict_def)
  ultimately show ?thesis using checkpoint_metadata_is_lossless by blast
qed

end
