(* ===== verification/Json_Decode.thy ===== *)
theory Json_Decode
  imports Json Sha256
begin

text \<open>
  \<open>json.loads\<close> as the filesystem stores call it (\<open>_decode_json_object\<close>, \<open>_decode_manifest\<close>): the
  bytes are UTF-8, a repeated key and the constants \<open>NaN\<close>, \<open>Infinity\<close> are refused, and the value is an
  object. A parser returns the value with the text after it, or None for any \<open>ValueError\<close>. Text with
  code points above 255 is outside the model's strings and is refused. How a decimal numeral is
  rounded to a float is the parameter \<open>float_of\<close>.

  A numeral is read as the longest run of its characters; Python stops at the longest match, but
  what is left of the run then ends in an error too. The test that a member or an element
  has consumed some text always holds (\<open>json_value_shorter\<close>); it is there for termination.
\<close>

section \<open>Strings\<close>

definition is_json_space :: "char \<Rightarrow> bool" where
  "is_json_space c = (let n = ord_of c in n = 32 \<or> n = 9 \<or> n = 10 \<or> n = 13)"

definition skip_ws :: "string \<Rightarrow> string" where
  "skip_ws s = dropWhile is_json_space s"

definition hex_value :: "char \<Rightarrow> nat option" where
  "hex_value c = (let n = ord_of c in
     if 48 \<le> n \<and> n \<le> 57 then Some (n - 48)
     else if 97 \<le> n \<and> n \<le> 102 then Some (n - 87)
     else if 65 \<le> n \<and> n \<le> 70 then Some (n - 55) else None)"

fun hex_code :: "string \<Rightarrow> nat option" where
  "hex_code [] = Some 0"
| "hex_code (c # cs) =
     (case (hex_value c, hex_code cs) of
        (Some d, Some n) \<Rightarrow> Some (d * 16 ^ length cs + n) | _ \<Rightarrow> None)"

definition json_unescape :: "char \<Rightarrow> char option" where
  "json_unescape c = (let n = ord_of c in
     if n = 34 \<or> n = 92 \<or> n = 47 then Some c
     else if c = CHR ''b'' then Some (char_of (8::nat))
     else if c = CHR ''f'' then Some (char_of (12::nat))
     else if c = CHR ''n'' then Some (char_of (10::nat))
     else if c = CHR ''r'' then Some (char_of (13::nat))
     else if c = CHR ''t'' then Some (char_of (9::nat)) else None)"

text \<open>The characters of a string up to its closing quote.\<close>

fun json_chars :: "string \<Rightarrow> (string \<times> string) option" where
  "json_chars [] = None"
| "json_chars (c # cs) =
     (if ord_of c = 34 then Some ([], cs)
      else if ord_of c = 92 then
        (case cs of
           [] \<Rightarrow> None
         | e # ds \<Rightarrow>
             if e = CHR ''u'' then
               (case ds of
                  a # b # x # y # rest \<Rightarrow>
                    (case hex_code [a, b, x, y] of
                       None \<Rightarrow> None
                     | Some n \<Rightarrow>
                         if n < 256
                         then map_option (\<lambda>(t, r). (char_of n # t, r)) (json_chars rest) else None)
                | _ \<Rightarrow> None)
             else (case json_unescape e of
                     None \<Rightarrow> None
                   | Some d \<Rightarrow> map_option (\<lambda>(t, r). (d # t, r)) (json_chars ds)))
      else if ord_of c < 32 then None
      else map_option (\<lambda>(t, r). (c # t, r)) (json_chars cs))"

lemma json_chars_length: "json_chars s = Some (t, r) \<Longrightarrow> length r < length s"
proof (induction s arbitrary: t r rule: json_chars.induct)
  case (2 c cs)
  then show ?case by (fastforce split: if_splits list.splits option.splits)
qed simp

lemma length_skip_ws: "length (skip_ws s) \<le> length s"
  unfolding skip_ws_def by (rule length_dropWhile_le)

section \<open>Numerals\<close>

definition is_number_char :: "char \<Rightarrow> bool" where
  "is_number_char c = (is_digit c \<or> c \<in> set ''+-.eE'')"

definition digits_value :: "string \<Rightarrow> nat" where
  "digits_value ds = foldl (\<lambda>n c. 10 * n + (ord_of c - 48)) 0 ds"

definition is_json_nat :: "string \<Rightarrow> bool" where
  "is_json_nat ds = (ds \<noteq> [] \<and> list_all is_digit ds \<and> (length ds = 1 \<or> hd ds \<noteq> CHR ''0''))"

fun unsigned :: "string \<Rightarrow> string" where
  "unsigned (c # cs) = (if c = CHR ''-'' then cs else c # cs)"
| "unsigned [] = []"

definition int_value :: "string \<Rightarrow> int" where
  "int_value t = (if startswith ''-'' t then - int (digits_value (tl t)) else int (digits_value t))"

definition is_json_int :: "string \<Rightarrow> bool" where
  "is_json_int t = is_json_nat (unsigned t)"

definition is_exponent :: "string \<Rightarrow> bool" where
  "is_exponent t =
     (let ds = (case t of c # cs \<Rightarrow> if c \<in> set ''+-'' then cs else t | [] \<Rightarrow> [])
      in ds \<noteq> [] \<and> list_all is_digit ds)"

definition is_fraction :: "string \<Rightarrow> bool" where
  "is_fraction t = (t = [] \<or> (hd t = CHR ''.'' \<and> tl t \<noteq> [] \<and> list_all is_digit (tl t)))"

definition is_json_float :: "string \<Rightarrow> bool" where
  "is_json_float t =
     (let mantissa = takeWhile (\<lambda>c. c \<notin> set ''eE'') t;
          exponent = dropWhile (\<lambda>c. c \<notin> set ''eE'') t;
          whole = takeWhile (\<lambda>c. c \<noteq> CHR ''.'') mantissa;
          fraction = dropWhile (\<lambda>c. c \<noteq> CHR ''.'') mantissa
      in is_json_int whole \<and> is_fraction fraction
         \<and> (exponent = [] \<or> is_exponent (tl exponent)) \<and> (fraction \<noteq> [] \<or> exponent \<noteq> []))"

definition json_number :: "(string \<Rightarrow> pyfloat) \<Rightarrow> string \<Rightarrow> pyval option" where
  "json_number float_of t =
     (if is_json_int t then Some (PInt (int_value t))
      else if is_json_float t then Some (PFloat (float_of t)) else None)"

lemma json_number_Nil: "json_number f [] = None"
  by (simp add: json_number_def is_json_int_def is_json_nat_def is_json_float_def)

section \<open>Values\<close>

definition json_literal :: "(string \<Rightarrow> pyfloat) \<Rightarrow> string \<Rightarrow> (pyval \<times> string) option" where
  "json_literal float_of s =
     (if startswith ''null'' s then Some (PNone, drop 4 s)
      else if startswith ''true'' s then Some (PBool True, drop 4 s)
      else if startswith ''false'' s then Some (PBool False, drop 5 s)
      else map_option (\<lambda>v. (v, dropWhile is_number_char s))
        (json_number float_of (takeWhile is_number_char s)))"

lemma json_literal_length: "json_literal f s = Some (v, r) \<Longrightarrow> length r < length s"
proof -
  assume a: "json_literal f s = Some (v, r)"
  show ?thesis
  proof (cases "startswith ''null'' s \<or> startswith ''true'' s \<or> startswith ''false'' s")
    case True
    then have "s \<noteq> []" by (auto simp: startswith_def)
    then show ?thesis using a True by (auto simp: json_literal_def split: if_splits)
  next
    case False
    then have r: "r = dropWhile is_number_char s" "json_number f (takeWhile is_number_char s) = Some v"
      using a by (auto simp: json_literal_def)
    have "takeWhile is_number_char s \<noteq> []"
    proof
      assume "takeWhile is_number_char s = []"
      then show False using r(2) by (simp only: json_number_Nil option.distinct)
    qed
    moreover have "length s = length (takeWhile is_number_char s) + length r"
      using r(1) by (metis length_append takeWhile_dropWhile_id)
    ultimately show ?thesis by simp
  qed
qed

lemma skip_ws_shorter: "skip_ws s = d # ds \<Longrightarrow> length ds < length s"
  using length_skip_ws [of s] by simp

function (sequential) json_value :: "(string \<Rightarrow> pyfloat) \<Rightarrow> string \<Rightarrow> (pyval \<times> string) option"
and json_elements :: "(string \<Rightarrow> pyfloat) \<Rightarrow> string \<Rightarrow> (pyval list \<times> string) option"
and json_members :: "(string \<Rightarrow> pyfloat) \<Rightarrow> string \<Rightarrow> (pyitems \<times> string) option"
where
  "json_value f [] = None"
| "json_value f (c # cs) =
     (if ord_of c = 34 then map_option (\<lambda>(t, r). (PStr t, r)) (json_chars cs)
      else if c = CHR ''{'' then
        (case skip_ws cs of
           [] \<Rightarrow> None
         | d # ds \<Rightarrow>
             if d = CHR ''}'' then Some (PDict [], ds)
             else (case json_members f (d # ds) of
                     None \<Rightarrow> None
                   | Some (kvs, r) \<Rightarrow> if distinct (map fst kvs) then Some (PDict kvs, r) else None))
      else if c = CHR ''['' then
        (case skip_ws cs of
           [] \<Rightarrow> None
         | d # ds \<Rightarrow>
             if d = CHR '']'' then Some (PList [], ds)
             else map_option (\<lambda>(xs, r). (PList xs, r)) (json_elements f (d # ds)))
      else json_literal f (c # cs))"
| "json_elements f s =
     (case json_value f s of
        None \<Rightarrow> None
      | Some (v, r) \<Rightarrow>
          if length r < length s then
            (case skip_ws r of
               [] \<Rightarrow> None
             | d # ds \<Rightarrow>
                 if d = CHR '']'' then Some ([v], ds)
                 else if d = CHR '','' then
                   map_option (\<lambda>(xs, r). (v # xs, r)) (json_elements f (skip_ws ds))
                 else None)
          else None)"
| "json_members f s =
     (case s of
        [] \<Rightarrow> None
      | c # cs \<Rightarrow>
          if ord_of c \<noteq> 34 then None
          else (case json_chars cs of
             None \<Rightarrow> None
           | Some (k, r) \<Rightarrow>
               (case skip_ws r of
                  [] \<Rightarrow> None
                | d # ds \<Rightarrow>
                    if d \<noteq> CHR '':'' then None
                    else (case json_value f (skip_ws ds) of
                       None \<Rightarrow> None
                     | Some (v, r) \<Rightarrow>
                         if length r < length s then
                           (case skip_ws r of
                              [] \<Rightarrow> None
                            | e # es \<Rightarrow>
                                if e = CHR ''}'' then Some ([(AStr k, v)], es)
                                else if e = CHR '','' then
                                  map_option (\<lambda>(kvs, r). ((AStr k, v) # kvs, r))
                                    (json_members f (skip_ws es))
                                else None)
                         else None))))"
  by pat_completeness auto

termination
proof (relation "measure (case_sum (\<lambda>(f, s). 2 * length s)
    (case_sum (\<lambda>(f, s). 2 * length s + 1) (\<lambda>(f, s). 2 * length s)))", goal_cases)
  case 1
  then show ?case by simp
next
  case (2 f c cs d ds)
  then show ?case using skip_ws_shorter [of cs d ds] by simp
next
  case (3 f c cs d ds)
  then show ?case using skip_ws_shorter [of cs d ds] by simp
next
  case (4 f s)
  then show ?case by simp
next
  case (5 f s p v r d ds)
  then show ?case using skip_ws_shorter [of r d ds] length_skip_ws [of ds] by simp
next
  case (6 f s c cs p k r d ds)
  then show ?case
    using skip_ws_shorter [of r d ds] length_skip_ws [of ds] json_chars_length [of cs k r] by simp
next
  case (7 f s c cs p k r d ds q v r' e es)
  then show ?case using skip_ws_shorter [of r' e es] length_skip_ws [of es] by simp
qed

declare json_value.simps [simp del] json_elements.simps [simp del] json_members.simps [simp del]


text \<open>What is left after a value is shorter than the text it was read from.\<close>

lemma json_elements_step:
  "json_elements f s = Some (xs, r) \<Longrightarrow> \<exists>r' d ds. length r' < length s \<and> skip_ws r' = d # ds
     \<and> (r = ds \<or> (\<exists>ys. json_elements f (skip_ws ds) = Some (ys, r)))"
  by (subst (asm) json_elements.simps) (auto split: option.splits list.splits if_splits; blast)

lemma json_members_step:
  "json_members f s = Some (kvs, r) \<Longrightarrow> \<exists>r' d ds. length r' < length s \<and> skip_ws r' = d # ds
     \<and> (r = ds \<or> (\<exists>out. json_members f (skip_ws ds) = Some (out, r)))"
  by (subst (asm) json_members.simps) (auto split: option.splits list.splits if_splits; fastforce)

lemma json_elements_shorter: "json_elements f s = Some (xs, r) \<Longrightarrow> length r < length s"
proof (induction "length s" arbitrary: s xs rule: less_induct)
  case less
  obtain r' d ds where "length r' < length s" "skip_ws r' = d # ds"
    and c: "r = ds \<or> (\<exists>ys. json_elements f (skip_ws ds) = Some (ys, r))"
    using json_elements_step [OF less.prems] by blast
  then have "length ds < length s" "length (skip_ws ds) < length s"
    using skip_ws_shorter [of r' d ds] length_skip_ws [of ds] by simp_all
  then show ?case using c less.hyps [of "skip_ws ds"] by fastforce
qed

lemma json_members_shorter: "json_members f s = Some (kvs, r) \<Longrightarrow> length r < length s"
proof (induction "length s" arbitrary: s kvs rule: less_induct)
  case less
  obtain r' d ds where "length r' < length s" "skip_ws r' = d # ds"
    and c: "r = ds \<or> (\<exists>out. json_members f (skip_ws ds) = Some (out, r))"
    using json_members_step [OF less.prems] by blast
  then have "length ds < length s" "length (skip_ws ds) < length s"
    using skip_ws_shorter [of r' d ds] length_skip_ws [of ds] by simp_all
  then show ?case using c less.hyps [of "skip_ws ds"] by fastforce
qed

lemma json_value_shorter: "json_value f s = Some (v, r) \<Longrightarrow> length r < length s"
proof (cases s)
  case (Cons c cs)
  assume v: "json_value f s = Some (v, r)"
  have k: "skip_ws cs = d # ds \<Longrightarrow> length (d # ds) \<le> length cs" for d ds
    using length_skip_ws [of cs] by simp
  from v Cons show ?thesis
    using json_chars_length [of cs _ r] json_literal_length [of f "c # cs" v r]
    by (auto simp: json_value.simps split: if_splits list.splits option.splits
        dest!: json_elements_shorter json_members_shorter dest: k)
qed (simp add: json_value.simps)

section \<open>Documents\<close>

definition json_loads :: "(string \<Rightarrow> pyfloat) \<Rightarrow> string \<Rightarrow> pyval option" where
  "json_loads float_of s =
     (case json_value float_of (skip_ws s) of
        None \<Rightarrow> None
      | Some (v, r) \<Rightarrow> if skip_ws r = [] then Some v else None)"

text \<open>UTF-8 of code points below 256: one byte, or a lead byte 0xC2 or 0xC3 with one that follows.\<close>

fun utf8_decode :: "string \<Rightarrow> string option" where
  "utf8_decode [] = Some []"
| "utf8_decode (b # bs) =
     (if ord_of b < 128 then map_option ((#) b) (utf8_decode bs)
      else if ord_of b = 194 \<or> ord_of b = 195 then
        (case bs of
           [] \<Rightarrow> None
         | c # cs \<Rightarrow>
             if 128 \<le> ord_of c \<and> ord_of c < 192
             then map_option ((#) (char_of ((ord_of b - 192) * 64 + (ord_of c - 128)))) (utf8_decode cs)
             else None)
      else None)"

definition decode_json_object :: "(string \<Rightarrow> pyfloat) \<Rightarrow> string \<Rightarrow> nat \<Rightarrow> pyitems option" where
  "decode_json_object float_of data max_bytes =
     (if max_bytes < length data then None
      else (case utf8_decode data of
              None \<Rightarrow> None
            | Some s \<Rightarrow>
                (case json_loads float_of s of Some (PDict kvs) \<Rightarrow> Some kvs | _ \<Rightarrow> None)))"

definition json_bytes :: "pyval \<Rightarrow> string" where
  "json_bytes v = utf8 (json_compact v)"

section \<open>Round trip\<close>

text \<open>
  The values JSON can carry: finite floats whose text reads back as the same float, dictionaries
  with distinct string keys.
\<close>

fun json_ok :: "(string \<Rightarrow> pyfloat) \<Rightarrow> pyval \<Rightarrow> bool"
and json_ok_list :: "(string \<Rightarrow> pyfloat) \<Rightarrow> pyval list \<Rightarrow> bool"
and json_ok_items :: "(string \<Rightarrow> pyfloat) \<Rightarrow> pyitems \<Rightarrow> bool"
where
  "json_ok f (Atom a) =
     (case a of
        AFloat x \<Rightarrow> isfinite x \<and> is_json_float (float_text x) \<and> list_all is_number_char (float_text x)
          \<and> \<not> is_json_int (float_text x) \<and> f (float_text x) = x
      | ABytes _ \<Rightarrow> False
      | AObj _ _ \<Rightarrow> False
      | _ \<Rightarrow> True)"
| "json_ok f (PList xs) = json_ok_list f xs"
| "json_ok f (PTuple xs) = False"
| "json_ok f (PDict kvs) = (distinct (map fst kvs) \<and> json_ok_items f kvs)"
| "json_ok_list f [] = True"
| "json_ok_list f (x # xs) = (json_ok f x \<and> json_ok_list f xs)"
| "json_ok_items f [] = True"
| "json_ok_items f ((k, v) # kvs) = (k \<in> range AStr \<and> json_ok f v \<and> json_ok_items f kvs)"

text \<open>What is read back: the same value, the entries of each dictionary in the order of the keys.\<close>

fun json_sorted :: "pyval \<Rightarrow> pyval"
and json_sorted_list :: "pyval list \<Rightarrow> pyval list"
and json_sorted_items :: "pyitems \<Rightarrow> pyitems"
where
  "json_sorted (Atom a) = Atom a"
| "json_sorted (PList xs) = PList (json_sorted_list xs)"
| "json_sorted (PTuple xs) = PTuple (json_sorted_list xs)"
| "json_sorted (PDict kvs) = PDict (sort_key (atom_text \<circ> fst) (json_sorted_items kvs))"
| "json_sorted_list [] = []"
| "json_sorted_list (x # xs) = json_sorted x # json_sorted_list xs"
| "json_sorted_items [] = []"
| "json_sorted_items ((k, v) # kvs) = (k, json_sorted v) # json_sorted_items kvs"

lemma json_sorted_list_map: "json_sorted_list xs = map json_sorted xs"
  by (induction xs) auto

lemma json_sorted_items_map: "json_sorted_items kvs = map (\<lambda>(k, v). (k, json_sorted v)) kvs"
  by (induction kvs) auto

lemma json_list_map: "json_list i k xs = map (json_dumps i k) xs"
  by (induction xs) auto

lemma json_items_map: "json_items i s kvs = map (\<lambda>(k, v). (atom_text k, json_dumps i s v)) kvs"
  by (induction kvs) auto

lemma json_ok_list_all: "json_ok_list f xs \<longleftrightarrow> (\<forall>x \<in> set xs. json_ok f x)"
  by (induction xs) auto

lemma json_ok_items_all: "json_ok_items f kvs \<longleftrightarrow> (\<forall>(k, v) \<in> set kvs. k \<in> range AStr \<and> json_ok f v)"
  by (induction kvs) auto

lemma insort_key_map: "insort_key f (g x) (map g xs) = map g (insort_key (f \<circ> g) x xs)"
  by (induction xs) auto

lemma sort_key_map: "sort_key f (map g xs) = map g (sort_key (f \<circ> g) xs)"
  by (induction xs) (simp_all add: insort_key_map comp_def)

text \<open>A dictionary's text is that of its entries in the order of the keys.\<close>

lemma json_dumps_dict:
  "json_dumps i s (PDict kvs) = ''{'' @ join_with i
     (map (\<lambda>(k, v). json_string (atom_text k) @ s @ json_dumps i s v) (sort_key (atom_text \<circ> fst) kvs)) @ ''}''"
proof -
  have c: "fst \<circ> (\<lambda>(k, v). (atom_text k, json_dumps i s v)) = atom_text \<circ> fst" by auto
  show ?thesis by (simp add: json_items_map sort_key_map c comp_def case_prod_unfold)
qed

lemma json_dumps_sorted:
  "json_dumps i s (json_sorted v) = json_dumps i s v"
  "map (json_dumps i s) (json_sorted_list xs) = map (json_dumps i s) xs"
  "map (\<lambda>(k, v). (k, json_dumps i s v)) (json_sorted_items kvs) = map (\<lambda>(k, v). (k, json_dumps i s v)) kvs"
proof (induction v and xs and kvs rule: json_sorted_json_sorted_list_json_sorted_items.induct)
  case (4 kvs)
  let ?g = "\<lambda>(k, v). (k, json_dumps i s v)"
  let ?h = "\<lambda>(k, t). json_string (atom_text k) @ s @ t"
  have k: "atom_text \<circ> fst \<circ> ?g = atom_text \<circ> fst" by auto
  have e: "map (\<lambda>(k, v). json_string (atom_text k) @ s @ json_dumps i s v) ys = map ?h (map ?g ys)" for ys
    by (simp add: case_prod_unfold)
  have m: "map ?g (sort_key (atom_text \<circ> fst) ys) = sort_key (atom_text \<circ> fst) (map ?g ys)" for ys
    by (simp only: sort_key_map k)
  have idem: "sort_key (atom_text \<circ> fst) (sort_key (atom_text \<circ> fst) ys) = sort_key (atom_text \<circ> fst) ys"
    for ys :: pyitems
    by (rule sort_key_id_if_sorted) (rule sorted_sort_key)
  show ?case unfolding json_sorted.simps json_dumps_dict e idem unfolding m 4 ..
qed (auto simp: json_list_map)


lemma ord_lt_256: "ord_of c < (256 :: nat)"
  using of_char_mod_256 [of c] mod_less_divisor [of 256 "ord_of c :: nat"] by simp

lemma hex_value_digit: "n < 16 \<Longrightarrow> hex_value (hex_digit n) = Some n"
  by (auto simp: hex_value_def hex_digit_def Let_def)

lemma ord_char: "ord_of c = n \<Longrightarrow> char_of n = c"
  by auto

lemma json_chars_escape:
  "json_chars (json_escape_char c @ s) = map_option (\<lambda>(t, r). (c # t, r)) (json_chars s)"
proof -
  consider "ord_of c = (8::nat)" | "ord_of c = (9::nat)" | "ord_of c = (10::nat)" | "ord_of c = (12::nat)"
    | "ord_of c = (13::nat)" | "ord_of c = (34::nat) \<or> ord_of c = (92::nat)"
    | "ord_of c < (32::nat)" "ord_of c \<notin> {8, 9, 10, 12, 13 :: nat}"
    | "32 \<le> (ord_of c :: nat)" "ord_of c \<notin> {34, 92 :: nat}"
    by fastforce
  then show ?thesis
  proof cases
    case 7
    let ?n = "ord_of c :: nat"
    have h: "hex_code [CHR ''0'', CHR ''0'', hex_digit (?n div 16), hex_digit (?n mod 16)] = Some ?n"
    proof -
      have "hex_value CHR ''0'' = Some 0" by (simp add: hex_value_def)
      moreover have "hex_value (hex_digit (?n div 16)) = Some (?n div 16)"
        "hex_value (hex_digit (?n mod 16)) = Some (?n mod 16)"
        using 7(1) by (simp_all add: hex_value_digit)
      ultimately show ?thesis by (simp add: div_mult_mod_eq)
    qed
    have e: "json_escape_char c = char_of (92::nat) # CHR ''u'' # CHR ''0'' # CHR ''0''
        # hex_digit (?n div 16) # hex_digit (?n mod 16) # []"
      using 7 by (simp add: json_escape_char_def Let_def)
    show ?thesis
      unfolding e using h 7(1) by (simp del: hex_code.simps)
  next
    case 8
    then show ?thesis by (simp add: json_escape_char_def Let_def)
  next
    case 6
    then have "json_escape_char c = [char_of (92::nat), c]" by (simp add: json_escape_char_def Let_def)
    moreover have "c \<noteq> CHR ''u''" using 6 by auto
    moreover have "json_unescape c = Some c" using 6 by (auto simp: json_unescape_def Let_def)
    ultimately show ?thesis by simp
  qed (simp_all add: json_escape_char_def json_unescape_def Let_def char_of_eq_iff ord_char)
qed

lemma json_chars_string: "json_chars (concat (map json_escape_char s) @ char_of (34::nat) # r) = Some (s, r)"
  by (induction s) (simp_all add: json_chars_escape)

lemma json_string_Cons: "json_string s @ r = char_of (34::nat) # concat (map json_escape_char s) @ char_of (34::nat) # r"
  by (simp add: json_string_def)

lemma utf8_decode_utf8: "utf8_decode (utf8 s) = Some s"
proof (induction s)
  case (Cons c s)
  let ?n = "ord_of c :: nat"
  have lt: "?n < 256" by (rule ord_lt_256)
  show ?case
  proof (cases "?n < 128")
    case True
    then show ?thesis using Cons by (simp add: utf8_def utf8_char_def)
  next
    case False
    then have d: "?n div 64 = 2 \<or> ?n div 64 = 3" using lt by linarith
    have l: "ord_of (char_of (192 + ?n div 64) :: char) = 192 + ?n div 64"
      "ord_of (char_of (128 + ?n mod 64) :: char) = 128 + ?n mod 64"
      using d by auto
    have "utf8 (c # s) = char_of (192 + ?n div 64) # char_of (128 + ?n mod 64) # utf8 s"
      using False by (simp add: utf8_def utf8_char_def Let_def)
    then show ?thesis using Cons d l div_mult_mod_eq [of ?n 64] by auto
  qed
qed (simp add: utf8_def)

lemma utf8_inj: "utf8 s = utf8 t \<Longrightarrow> s = t"
  by (metis option.inject utf8_decode_utf8)

section \<open>Numerals read back\<close>

lemma digits_value_append: "digits_value (ds @ [c]) = 10 * digits_value ds + (ord_of c - 48)"
  by (simp add: digits_value_def)

lemma digits_value_nat_text: "digits_value (nat_text n) = n"
proof (induction n rule: nat_text.induct)
  case (1 n)
  then show ?case
    by (subst nat_text.simps) (auto simp: digits_value_append, simp add: digits_value_def)
qed

lemma nat_text_leading: "n \<noteq> 0 \<Longrightarrow> hd (nat_text n) \<noteq> CHR ''0''"
proof (induction n rule: nat_text.induct)
  case (1 n)
  show ?case
  proof (cases "n < 10")
    case True
    then have "char_of (48 + n) \<noteq> CHR ''0''"
      using "1.prems" by (auto simp: char_of_eq_iff take_bit_nat_eq_self)
    then show ?thesis using True by (subst nat_text.simps) simp
  next
    case False
    then show ?thesis using "1.IH" by (subst nat_text.simps) simp
  qed
qed

lemma is_json_nat_text: "is_json_nat (nat_text n)"
proof -
  have "list_all is_digit (nat_text n)" using nat_text_digits by (auto simp: list_all_iff)
  moreover have "length (nat_text n) = 1 \<or> hd (nat_text n) \<noteq> CHR ''0''"
    using nat_text_leading [of n] by (cases "n = 0") (simp_all add: nat_text.simps [of 0])
  ultimately show ?thesis by (simp add: is_json_nat_def)
qed

lemma hd_nat_text: "is_digit (hd (nat_text n))"
  using nat_text_digits [of "hd (nat_text n)" n] by simp

lemma nat_text_unsigned: "unsigned (nat_text n) = nat_text n"
proof (cases "nat_text n")
  case (Cons c cs)
  then have "is_digit c" using hd_nat_text [of n] by simp
  then show ?thesis using Cons by (auto simp: is_digit_def)
qed simp

lemma json_number_int: "json_number f (int_text i) = Some (PInt i)"
proof (cases "i < 0")
  case True
  then show ?thesis
    by (simp add: json_number_def is_json_int_def int_text_def is_json_nat_text int_value_def
        startswith_def digits_value_nat_text)
next
  case False
  have "\<not> startswith ''-'' (nat_text (nat i))"
    using hd_nat_text [of "nat i"] by (cases "nat_text (nat i)") (auto simp: startswith_def is_digit_def)
  then show ?thesis
    using False by (simp add: json_number_def is_json_int_def int_text_def is_json_nat_text int_value_def
        nat_text_unsigned digits_value_nat_text)
qed

lemma int_text_number: "int_text i \<noteq> []" "list_all is_number_char (int_text i)"
  by (auto simp: int_text_def is_number_char_def list_all_iff dest: nat_text_digits)

text \<open>What may follow a value: the end of the text, or a character that no numeral has.\<close>

definition value_end :: "string \<Rightarrow> bool" where
  "value_end r = (r = [] \<or> \<not> is_number_char (hd r))"

lemma number_run:
  assumes "list_all is_number_char t" and "value_end r"
  shows "takeWhile is_number_char (t @ r) = t" and "dropWhile is_number_char (t @ r) = r"
  using assms by (auto simp: list_all_iff value_end_def takeWhile_append2 dropWhile_append2)
     (cases r; simp)+

lemma json_literal_number:
  assumes "t \<noteq> []" and "list_all is_number_char t" and "value_end r" and "json_number f t = Some v"
  shows "json_value f (t @ r) = Some (v, r)" and "\<not> is_json_space (hd t)"
proof -
  obtain c cs where t: "t = c # cs" using assms(1) by (cases t) auto
  have c: "is_number_char c" using assms(2) t by simp
  have "json_value f (t @ r) = json_literal f (t @ r)"
    using c unfolding t by (auto simp: json_value.simps is_number_char_def is_digit_def)
  moreover have "\<not> startswith ''null'' (t @ r)" "\<not> startswith ''true'' (t @ r)" "\<not> startswith ''false'' (t @ r)"
    using c unfolding t by (auto simp: startswith_def is_number_char_def is_digit_def)
  ultimately show "json_value f (t @ r) = Some (v, r)"
    using assms by (simp add: json_literal_def number_run)
  show "\<not> is_json_space (hd t)"
    using c unfolding t by (auto simp: is_json_space_def is_number_char_def is_digit_def Let_def)
qed


section \<open>Values read back\<close>

lemma value_end_simps [simp]:
  "value_end []" "value_end (CHR '','' # r)" "value_end (CHR '']'' # r)" "value_end (CHR ''}'' # r)"
  by (simp_all add: value_end_def is_number_char_def is_digit_def)

lemma skip_ws_Cons [simp]: "\<not> is_json_space c \<Longrightarrow> skip_ws (c # s) = c # s"
  by (simp add: skip_ws_def)

lemma json_punctuation [simp]:
  "\<not> is_json_space CHR '',''" "\<not> is_json_space CHR '']''" "\<not> is_json_space CHR ''}''"
  "\<not> is_json_space CHR '':''" "\<not> is_json_space CHR ''[''" "\<not> is_json_space CHR ''{''"
  "\<not> is_json_space (char_of (34 :: nat))"
  by (simp_all add: is_json_space_def)

lemma json_quote [simp]: "char_of (34 :: nat) \<noteq> CHR '']''" "char_of (34 :: nat) \<noteq> CHR ''}''"
  by (simp_all add: char_of_eq_iff)

text \<open>A value's text read with what follows it: nothing is skipped, and the value is found.\<close>

definition reads_back :: "(string \<Rightarrow> pyfloat) \<Rightarrow> string \<Rightarrow> pyval \<Rightarrow> bool" where
  "reads_back f t v \<longleftrightarrow> t \<noteq> [] \<and> \<not> is_json_space (hd t) \<and> hd t \<notin> set '']}''
     \<and> (\<forall>r. value_end r \<longrightarrow> json_value f (t @ r) = Some (v, r))"

lemma reads_back_skip: "reads_back f t v \<Longrightarrow> skip_ws (t @ r) = t @ r"
  by (cases t) (simp_all add: reads_back_def)

lemma reads_back_number:
  assumes "t \<noteq> []" and "list_all is_number_char t" and "json_number f t = Some v"
  shows "reads_back f t v"
proof -
  have "is_number_char (hd t)" using assms(1,2) by (cases t) auto
  then have "hd t \<notin> set '']}''" by (auto simp: is_number_char_def is_digit_def)
  then show ?thesis
    using json_literal_number [OF assms(1,2) _ assms(3)] assms(1) value_end_simps(1)
    unfolding reads_back_def by blast
qed

lemma json_number_float:
  "isfinite x \<Longrightarrow> is_json_float (float_text x) \<Longrightarrow> \<not> is_json_int (float_text x) \<Longrightarrow>
     f (float_text x) = x \<Longrightarrow> json_number f (json_float x) = Some (PFloat x)"
  by (cases x) (simp_all add: json_number_def)

lemma is_json_float_Nil: "\<not> is_json_float []"
  by (simp add: is_json_float_def is_json_int_def is_json_nat_def)

lemma reads_back_atom:
  assumes "json_ok f (Atom a)"
  shows "reads_back f (json_atom a) (Atom a)"
proof (cases a)
  case (AFloat x)
  then have x: "isfinite x" "is_json_float (float_text x)" "list_all is_number_char (float_text x)"
      "\<not> is_json_int (float_text x)" "f (float_text x) = x"
    using assms by auto
  then have e: "json_float x = float_text x" "float_text x \<noteq> []"
    using is_json_float_Nil by (cases x; auto)+
  from reads_back_number [OF e(2) x(3), of f "PFloat x"] json_number_float [of x f] x e(1)
  show ?thesis using AFloat by simp
next
  case (AInt i)
  then show ?thesis using reads_back_number [OF int_text_number json_number_int] by simp
next
  case (AStr s)
  have "json_value f (json_string s @ r) = Some (PStr s, r)" for r
    by (simp add: json_string_Cons json_value.simps json_chars_string)
  then show ?thesis using AStr by (simp add: reads_back_def json_string_def)
next
  case ANone
  then show ?thesis
    by (simp add: reads_back_def json_value.simps json_literal_def startswith_def is_json_space_def)
next
  case (ABool b)
  then show ?thesis
    by (simp add: reads_back_def json_value.simps json_literal_def startswith_def is_json_space_def)
qed (use assms in auto)

lemma json_elements_join:
  assumes "xs \<noteq> []" and "\<forall>x \<in> set xs. reads_back f (t x) (v x)"
  shows "json_elements f (join_with '','' (map t xs) @ CHR '']'' # r) = Some (map v xs, r)"
  using assms
proof (induction xs rule: induct_list012)
  case (2 x)
  then have "reads_back f (t x) (v x)" by simp
  then have "json_value f (t x @ CHR '']'' # r) = Some (v x, CHR '']'' # r)" "t x \<noteq> []"
    by (simp_all add: reads_back_def)
  then show ?case by (simp add: json_elements.simps)
next
  case (3 x y xs)
  let ?m = "join_with '','' (map t (y # xs)) @ CHR '']'' # r"
  have x: "reads_back f (t x) (v x)" "reads_back f (t y) (v y)" using 3 by simp_all
  have "json_value f (t x @ CHR '','' # ?m) = Some (v x, CHR '','' # ?m)" "t x \<noteq> []"
    using x(1) by (simp_all add: reads_back_def)
  moreover have "skip_ws ?m = ?m"
    using reads_back_skip [OF x(2)] by (simp add: join_with_Cons)
  ultimately show ?case
    using 3 by (simp add: json_elements.simps [of f "t x @ _"])
qed simp

lemma json_members_join:
  assumes "kvs \<noteq> []" and "\<forall>(k, x) \<in> set kvs. k \<in> range AStr \<and> reads_back f (t x) (v x)"
  shows "json_members f (join_with '',''
      (map (\<lambda>(k, x). json_string (atom_text k) @ '':'' @ t x) kvs) @ CHR ''}'' # r)
    = Some (map (\<lambda>(k, x). (k, v x)) kvs, r)"
  using assms
proof (induction kvs rule: induct_list012)
  case (2 p)
  obtain k x where p: "p = (AStr k, x)" using 2 by (cases p) auto
  then have x: "reads_back f (t x) (v x)" using 2 by simp
  then have "json_value f (t x @ CHR ''}'' # r) = Some (v x, CHR ''}'' # r)" "t x \<noteq> []"
    by (simp_all add: reads_back_def)
  then show ?case
    using reads_back_skip [OF x]
    by (simp add: p json_string_Cons json_members.simps json_chars_string)
next
  case (3 p q kvs)
  obtain k x where p: "p = (AStr k, x)" using 3 by (cases p) auto
  obtain k' y where q: "q = (AStr k', y)" using 3 by (cases q) auto
  let ?m = "join_with '','' (map (\<lambda>(k, x). json_string (atom_text k) @ '':'' @ t x) (q # kvs)) @ CHR ''}'' # r"
  have x: "reads_back f (t x) (v x)" using 3 p by simp
  have "json_value f (t x @ CHR '','' # ?m) = Some (v x, CHR '','' # ?m)" "t x \<noteq> []"
    using x by (simp_all add: reads_back_def)
  moreover have "skip_ws ?m = ?m" by (simp add: join_with_Cons json_string_def q)
  moreover have "json_members f ?m = Some (map (\<lambda>(k, x). (k, v x)) (q # kvs), r)" using 3 by simp
  ultimately show ?case
    using reads_back_skip [OF x]
    by (simp add: p json_string_Cons json_members.simps [of f "char_of 34 # _"] json_chars_string)
qed simp

theorem json_round_trip: "json_ok f v \<Longrightarrow> reads_back f (json_compact v) (json_sorted v)"
proof (induction v)
  case (Atom a)
  then show ?case using reads_back_atom by simp
next
  case (PList xs)
  have xs: "\<forall>x \<in> set xs. reads_back f (json_compact x) (json_sorted x)"
    using PList by (auto simp: json_ok_list_all)
  have "json_value f (json_compact (PList xs) @ r) = Some (json_sorted (PList xs), r)" for r
  proof (cases xs)
    case Nil
    then show ?thesis by (simp add: json_value.simps)
  next
    case (Cons x ys)
    let ?m = "join_with '','' (map json_compact xs) @ CHR '']'' # r"
    have m: "json_elements f ?m = Some (map json_sorted xs, r)"
      using json_elements_join [OF _ xs] Cons by blast
    have x: "reads_back f (json_compact x) (json_sorted x)" using xs Cons by simp
    obtain c cs where c: "json_compact x = c # cs" "c \<noteq> CHR '']''" "\<not> is_json_space c"
      using x by (cases "json_compact x") (auto simp: reads_back_def)
    have "\<exists>ds. ?m = c # ds" using c Cons by (cases ys) simp_all
    then obtain ds where ds: "?m = c # ds" by blast
    have "json_compact (PList xs) @ r = CHR ''['' # ?m" by (simp add: json_list_map)
    moreover have "skip_ws ?m = c # ds" using ds c by simp
    ultimately show ?thesis
      using m c(2) ds by (simp add: json_value.simps json_sorted_list_map)
  qed
  then show ?case by (simp add: reads_back_def)
next
  case (PDict kvs)
  let ?ks = "sort_key (atom_text \<circ> fst) kvs"
  have kvs: "\<forall>(k, x) \<in> set ?ks. k \<in> range AStr \<and> reads_back f (json_compact x) (json_sorted x)"
    using PDict by (fastforce simp: json_ok_items_all)
  have d: "distinct (map fst kvs)" using PDict by simp
  have c: "atom_text \<circ> fst \<circ> (\<lambda>(k, v). (k, json_sorted v)) = atom_text \<circ> fst" by auto
  have sorted: "json_sorted (PDict kvs) = PDict (map (\<lambda>(k, x). (k, json_sorted x)) ?ks)"
    by (simp add: json_sorted_items_map sort_key_map c)
  have "json_value f (json_compact (PDict kvs) @ r) = Some (json_sorted (PDict kvs), r)" for r
  proof (cases "?ks")
    case Nil
    then show ?thesis unfolding json_dumps_dict sorted by (simp add: json_value.simps)
  next
    case (Cons p ps)
    let ?m = "join_with '','' (map (\<lambda>(k, x). json_string (atom_text k) @ '':'' @ json_compact x) ?ks) @ CHR ''}'' # r"
    have m: "json_members f ?m = Some (map (\<lambda>(k, x). (k, json_sorted x)) ?ks, r)"
      using json_members_join [OF _ kvs] Cons by simp
    obtain k x where p: "p = (AStr k, x)" using kvs Cons by (cases p) auto
    have "\<exists>ds. ?m = char_of (34::nat) # ds" using Cons p by (cases ps) (simp_all add: json_string_def)
    then obtain ds where ds: "?m = char_of (34::nat) # ds" by blast
    have "map fst (map (\<lambda>(k, x). (k, json_sorted x)) ?ks) = map fst ?ks" by auto
    then have "distinct (map fst (map (\<lambda>(k, x). (k, json_sorted x)) ?ks))"
      using d by (metis distinct_map distinct_sort set_sort)
    moreover have "json_compact (PDict kvs) @ r = CHR ''{'' # ?m" unfolding json_dumps_dict by simp
    moreover have "skip_ws ?m = char_of (34::nat) # ds" using ds by simp
    ultimately show ?thesis using m ds unfolding sorted by (simp add: json_value.simps)
  qed
  then show ?case unfolding reads_back_def json_dumps_dict by simp
qed simp

lemma json_loads_compact:
  assumes "json_ok f v"
  shows "json_loads f (json_compact v) = Some (json_sorted v)"
proof -
  have r: "reads_back f (json_compact v) (json_sorted v)" by (rule json_round_trip [OF assms])
  then show ?thesis
    using reads_back_skip [OF r, of "[]"] unfolding reads_back_def json_loads_def
    by (auto simp: skip_ws_def dest!: spec [where x = "[]"])
qed

lemma decode_json_bytes:
  assumes "json_ok f (PDict kvs)" and "length (json_bytes (PDict kvs)) \<le> n"
  shows "\<exists>out. decode_json_object f (json_bytes (PDict kvs)) n = Some out
    \<and> PDict out = json_sorted (PDict kvs)"
  using assms by (simp add: decode_json_object_def json_bytes_def utf8_decode_utf8 json_loads_compact
      del: json_dumps.simps json_ok.simps)

lemma json_bytes_sorted: "json_bytes (json_sorted v) = json_bytes v"
  by (simp add: json_bytes_def json_dumps_sorted)

end
