(* ===== verification/Json_Sorted.thy ===== *)
theory Json_Sorted
  imports Json_Decode Checkpoint_Base
begin

text \<open>
  What a store's metadata goes through when it is written as JSON and read back: the entries of every
  mapping come back in the order of their keys. That order matters to no normalization and to no
  comparison.
\<close>

lemma json_sorted_dict:
  "json_sorted (PDict kvs) = PDict (map (\<lambda>(k, v). (k, json_sorted v)) (sort_key (atom_text \<circ> fst) kvs))"
proof -
  have c: "atom_text \<circ> fst \<circ> (\<lambda>(k, v). (k, json_sorted v)) = atom_text \<circ> fst" by auto
  show ?thesis by (simp add: json_sorted_items_map sort_key_map c)
qed

definition sorted_items :: "pyitems \<Rightarrow> pyitems" where
  "sorted_items kvs = map (\<lambda>(k, v). (k, json_sorted v)) (sort_key (atom_text \<circ> fst) kvs)"

lemma json_sorted_PDict: "json_sorted (PDict kvs) = PDict (sorted_items kvs)"
  unfolding sorted_items_def by (rule json_sorted_dict)

lemma set_sorted_items: "set (sorted_items kvs) = (\<lambda>(k, v). (k, json_sorted v)) ` set kvs"
  by (simp add: sorted_items_def)

lemma keys_sorted_items: "fst ` set (sorted_items kvs) = fst ` set kvs"
  by (force simp: set_sorted_items)

lemma length_sorted_items [simp]: "length (sorted_items kvs) = length kvs"
  by (simp add: sorted_items_def)

lemma wf_dict_sorted_items: "wf_dict kvs \<Longrightarrow> wf_dict (sorted_items kvs)"
proof -
  assume "wf_dict kvs"
  have "map fst (sorted_items kvs) = map fst (sort_key (atom_text \<circ> fst) kvs)"
    unfolding sorted_items_def by (induction "sort_key (atom_text \<circ> fst) kvs") auto
  then show ?thesis
    using \<open>wf_dict kvs\<close> unfolding wf_dict_def by (metis distinct_map distinct_sort set_sort)
qed

lemma map_of_sorted_items:
  assumes "wf_dict kvs"
  shows "map_of (sorted_items kvs) k = map_option json_sorted (map_of kvs k)"
proof (cases "map_of kvs k")
  case None
  then have "map_of (sorted_items kvs) k = None" by (simp add: map_of_eq_None_iff keys_sorted_items)
  then show ?thesis using None by simp
next
  case (Some v)
  then have "(k, json_sorted v) \<in> set (sorted_items kvs)"
    using map_of_SomeD [OF Some] by (force simp: set_sorted_items)
  then show ?thesis using Some wf_dict_sorted_items [OF assms] by (simp add: map_of_eq_Some_iff_wf)
qed

lemma json_ok_PDict:
  "json_ok f (PDict kvs) \<longleftrightarrow> wf_dict kvs \<and> (\<forall>(k, v) \<in> set kvs. k \<in> range AStr \<and> json_ok f v)"
  by (simp add: json_ok_items_all wf_dict_def)

lemma json_ok_sorted: "json_ok f v \<Longrightarrow> json_ok f (json_sorted v)"
proof (induction v)
  case (PList xs)
  then show ?case by (simp add: json_ok_list_all json_sorted_list_map)
next
  case (PDict kvs)
  then show ?case
    unfolding json_sorted_PDict json_ok_PDict by (force simp: wf_dict_sorted_items set_sorted_items)
qed simp_all

lemma json_ok_wf: "json_ok f v \<Longrightarrow> wf_val v"
proof (induction v)
  case (PList xs)
  then have "\<forall>x \<in> set xs. wf_val x" by (simp add: json_ok_list_all)
  then show ?case by (induction xs) auto
next
  case (PDict kvs)
  then show ?case unfolding json_ok_PDict by (force simp: wf_items_iff)
qed simp_all

lemma val_eq_sorted: "wf_val v \<Longrightarrow> val_eq (json_sorted v) v"
proof (induction v)
  case (PList xs)
  have "list_eq (map json_sorted xs) xs" if "\<forall>x \<in> set xs. val_eq (json_sorted x) x" for xs
    using that by (induction xs) auto
  moreover have "wf_list xs \<Longrightarrow> x \<in> set xs \<Longrightarrow> wf_val x" for x xs by (induction xs) auto
  ultimately show ?case using PList by (simp add: json_sorted_list_map)
next
  case (PTuple xs)
  have "list_eq (map json_sorted xs) xs" if "\<forall>x \<in> set xs. val_eq (json_sorted x) x" for xs
    using that by (induction xs) auto
  moreover have "wf_list xs \<Longrightarrow> x \<in> set xs \<Longrightarrow> wf_val x" for x xs by (induction xs) auto
  ultimately show ?case using PTuple by (simp add: json_sorted_list_map)
next
  case (PDict kvs)
  have "items_eq (sorted_items kvs) kvs"
    unfolding items_eq_iff
  proof clarify
    fix k w assume "(k, w) \<in> set (sorted_items kvs)"
    then obtain v where v: "(k, v) \<in> set kvs" "w = json_sorted v" by (auto simp: set_sorted_items)
    then have "map_of kvs k = Some v" using PDict.prems by (simp add: map_of_eq_Some_iff_wf)
    moreover have "val_eq (json_sorted v) v"
      using PDict.IH [OF v(1), of v] PDict.prems v(1) by (auto simp: wf_items_iff)
    ultimately show "\<exists>w'. map_of kvs k = Some w' \<and> val_eq w w'" using v(2) by auto
  qed
  then show ?case unfolding json_sorted_PDict by simp
qed simp

section \<open>Artifact metadata\<close>

lemma normalize_json_id: "json_ok f v \<Longrightarrow> normalize_json_value v = Inr v"
proof (induction v)
  case (Atom a)
  then show ?case by (cases a) auto
next
  case (PList xs)
  have "normalize_json_list xs = Inr xs" if "\<forall>x \<in> set xs. normalize_json_value x = Inr x" for xs
    using that by (induction xs) auto
  then show ?case using PList by (simp add: json_ok_list_all)
next
  case (PDict kvs)
  have "normalize_json_items kvs = Inr kvs"
    if "\<forall>(k, v) \<in> set kvs. k \<in> range AStr \<and> normalize_json_value v = Inr v" for kvs
    using that by (induction kvs) auto
  moreover have "\<forall>(k, v) \<in> set kvs. k \<in> range AStr \<and> normalize_json_value v = Inr v"
    using PDict unfolding json_ok_PDict by fastforce
  ultimately show ?case using PDict.prems unfolding json_ok_PDict by (simp add: dict_of_id)
qed simp

lemma redact_map_items_map:
  "redact_map_items m d kvs = map (\<lambda>(k, v). (AStr (atom_text k),
     if is_sensitive_key (atom_text k) then PStr REDACTED_VALUE
     else redact_value_at m (d + 1) (Some (atom_text k)) v)) kvs"
  by (induction kvs) (auto simp: Let_def)

lemma redact_seq_items_map: "redact_seq_items m d xs = map (redact_value_at m (d + 1) None) xs"
  by (induction xs) auto

lemma json_ok_dict_of:
  "\<forall>(k, v) \<in> set kvs. k \<in> range AStr \<and> json_ok f v \<Longrightarrow> json_ok f (PDict (dict_of kvs))"
  unfolding json_ok_PDict using set_dict_of [of kvs] by fastforce

lemma json_ok_truncated: "json_ok f v \<Longrightarrow> json_ok f (truncated_level v)"
  by (cases v) (auto simp: json_ok_list_all truncated_items_def simp del: json_ok.simps(4)
      intro!: json_ok_dict_of)

lemma json_ok_redact: "json_ok f v \<Longrightarrow> json_ok f (redact_value_at m d key v)"
proof (induction v arbitrary: d key)
  case (Atom a)
  then show ?case by (cases a) (auto simp: redact_value_at.simps split: option.split)
next
  case (PList xs)
  then have "json_ok f (PList (redact_seq_items m d xs))"
    by (auto simp: redact_seq_items_map json_ok_list_all)
  then show ?case
    using json_ok_truncated [OF PList.prems]
    by (auto simp: redact_value_at.simps [of _ _ _ "PList xs"] split: option.split)
next
  case (PDict kvs)
  have "json_ok f (redact_value_at m d' key v)" if "(k, v) \<in> set kvs" for k v d' key
    using PDict that unfolding json_ok_PDict by fastforce
  then have "json_ok f (PDict (dict_of (redact_map_items m d kvs)))"
    by (intro json_ok_dict_of) (auto simp: redact_map_items_map)
  then show ?case
    using json_ok_truncated [OF PDict.prems]
    by (auto simp: redact_value_at.simps [of _ _ _ "PDict kvs"] simp del: json_ok.simps(4) split: option.split)
qed simp

text \<open>A dictionary that an entrywise map leaves alone is left alone in any order.\<close>

lemma map_items_fixed:
  assumes "wf_dict kvs" and "\<And>k v. (k, v) \<in> set kvs \<Longrightarrow> fst (g (k, v)) = k"
  shows "dict_of (map g kvs) = kvs \<longleftrightarrow> (\<forall>p \<in> set kvs. g p = p)"
proof -
  have "map fst (map g kvs) = map fst kvs" using assms(2) by auto
  then have "wf_dict (map g kvs)" using assms(1) unfolding wf_dict_def by metis
  then show ?thesis by (simp add: dict_of_id) (metis map_eq_conv map_ident)
qed

lemma sorted_items_fixed:
  assumes "wf_dict kvs" and "\<And>k v. fst (g (k, v)) = AStr (atom_text k)"
    and "\<And>k v. (k, v) \<in> set kvs \<Longrightarrow> k \<in> range AStr"
    and "\<And>k v. (k, v) \<in> set kvs \<Longrightarrow> g (k, v) = (k, v) \<Longrightarrow> g (k, json_sorted v) = (k, json_sorted v)"
    and "dict_of (map g kvs) = kvs"
  shows "dict_of (map g (sorted_items kvs)) = sorted_items kvs"
proof -
  have k: "fst (g (k, v)) = k" if "(k, w) \<in> set kvs" for k v w using assms(2,3) that by force
  have "\<forall>p \<in> set kvs. g p = p" using assms(5) map_items_fixed [OF assms(1), of g] k by blast
  then have "\<forall>p \<in> set (sorted_items kvs). g p = p"
    using assms(4) by (auto simp: set_sorted_items)
  moreover have "fst (g (k, v)) = k" if "(k, v) \<in> set (sorted_items kvs)" for k v
    using that k by (auto simp: set_sorted_items)
  ultimately show ?thesis using map_items_fixed [OF wf_dict_sorted_items [OF assms(1)], of g] by blast
qed

lemma truncated_sorted_fixed:
  assumes "json_ok f v" and "truncated_level v = v"
  shows "truncated_level (json_sorted v) = json_sorted v"
proof (cases v)
  case (PList xs)
  then have "\<forall>x \<in> set xs. x = PStr TRUNCATED_VALUE"
    using assms(2) by simp (metis map_eq_conv map_ident)
  then have "map json_sorted xs = xs" by (intro map_idI) auto
  then show ?thesis using PList assms(2) by (simp add: json_sorted_list_map)
next
  case (PDict kvs)
  have kvs: "wf_dict kvs" "\<And>k v. (k, v) \<in> set kvs \<Longrightarrow> k \<in> range AStr"
    using assms(1) unfolding PDict json_ok_PDict by auto
  have "truncated_items (sorted_items kvs) = sorted_items kvs"
    unfolding truncated_items_def
  proof (rule sorted_items_fixed [OF kvs(1) _ kvs(2)])
    show "dict_of (map (\<lambda>(k, _). (AStr (atom_text k), PStr TRUNCATED_VALUE)) kvs) = kvs"
      using assms(2) PDict by (simp add: truncated_items_def)
  qed auto
  then show ?thesis using PDict json_sorted_PDict by simp
qed (use assms in auto)

lemma redact_sorted_fixed:
  "json_ok f v \<Longrightarrow> redact_value_at m d key v = v \<Longrightarrow>
     redact_value_at m d key (json_sorted v) = json_sorted v"
proof (induction v arbitrary: d key)
  case (PList xs)
  have n: "\<not> (case key of None \<Rightarrow> False | Some n \<Rightarrow> is_sensitive_key n)"
    using PList.prems(2) by (auto simp: redact_value_at.simps [of _ _ _ "PList xs"])
  show ?case
  proof (cases "m \<le> d")
    case True
    then have "truncated_level (PList xs) = PList xs"
      using PList.prems(2) n by (simp add: redact_value_at.simps [of _ _ _ "PList xs"])
    then show ?thesis
      using truncated_sorted_fixed [OF PList.prems(1)] True n
      by (simp add: redact_value_at.simps [of _ _ _ "PList _"])
  next
    case False
    then have "map (redact_value_at m (d + 1) None) xs = xs"
      using PList.prems(2) n by (simp add: redact_value_at.simps [of _ _ _ "PList xs"] redact_seq_items_map)
    then have "\<forall>x \<in> set xs. redact_value_at m (d + 1) None x = x" by (metis map_eq_conv map_ident)
    then have "\<forall>x \<in> set xs. redact_value_at m (d + 1) None (json_sorted x) = json_sorted x"
      using PList by (simp add: json_ok_list_all)
    then show ?thesis
      using False n by (simp add: redact_value_at.simps [of _ _ _ "PList _"] redact_seq_items_map
          json_sorted_list_map)
  qed
next
  case (PDict kvs)
  have n: "\<not> (case key of None \<Rightarrow> False | Some n \<Rightarrow> is_sensitive_key n)"
    using PDict.prems(2) by (auto simp: redact_value_at.simps [of _ _ _ "PDict kvs"])
  show ?case
  proof (cases "m \<le> d")
    case True
    then have "truncated_level (PDict kvs) = PDict kvs"
      using PDict.prems(2) n by (simp add: redact_value_at.simps [of _ _ _ "PDict kvs"])
    then show ?thesis
      using truncated_sorted_fixed [OF PDict.prems(1)] True n
      unfolding json_sorted_PDict by (simp add: redact_value_at.simps [of _ _ _ "PDict _"])
  next
    case False
    let ?g = "\<lambda>(k, v). (AStr (atom_text k), if is_sensitive_key (atom_text k) then PStr REDACTED_VALUE
     else redact_value_at m (d + 1) (Some (atom_text k)) v)"
    have kvs: "wf_dict kvs" "\<And>k v. (k, v) \<in> set kvs \<Longrightarrow> k \<in> range AStr"
      "\<And>k v. (k, v) \<in> set kvs \<Longrightarrow> json_ok f v"
      using PDict.prems(1) unfolding json_ok_PDict by auto
    have "dict_of (map ?g (sorted_items kvs)) = sorted_items kvs"
    proof (rule sorted_items_fixed [OF kvs(1) _ kvs(2)])
      show "dict_of (map ?g kvs) = kvs"
        using PDict.prems(2) n False
        by (simp add: redact_value_at.simps [of _ _ _ "PDict kvs"] redact_map_items_map)
    next
      fix k v assume kv: "(k, v) \<in> set kvs" "?g (k, v) = (k, v)"
      show "?g (k, json_sorted v) = (k, json_sorted v)"
      proof (cases "is_sensitive_key (atom_text k)")
        case True
        then show ?thesis using kv(2) by auto
      next
        case False
        then have "redact_value_at m (d + 1) (Some (atom_text k)) v = v" using kv(2) by simp
        then show ?thesis
          using PDict.IH [OF kv(1), of v] kvs(3) [OF kv(1)] False kv(2) by simp
      qed
    qed auto
    then show ?thesis
      using False n unfolding json_sorted_PDict
      by (simp add: redact_value_at.simps [of _ _ _ "PDict _"] redact_map_items_map)
  qed
qed simp_all

lemma artifact_metadata_sorted:
  assumes "json_ok f (PDict kvs)" and "normalize_artifact_metadata (PDict kvs) = Inr kvs"
  shows "normalize_artifact_metadata (PDict (sorted_items kvs)) = Inr (sorted_items kvs)"
proof -
  have r: "PDict (redact_mapping 4 ys) = redact_value_at 4 0 None (PDict ys)" for ys
    by (simp add: redact_mapping_def redact_value_at.simps)
  have n: "normalize_json_value (PDict (redact_mapping 4 ys)) = Inr (PDict (redact_mapping 4 ys))"
    if "json_ok f (PDict ys)" for ys
    unfolding r by (rule normalize_json_id [OF json_ok_redact [OF that]])
  have "redact_value_at 4 0 None (PDict kvs) = PDict kvs"
    using assms(2) n [OF assms(1)] r
    by (cases "redact_value_at 4 0 None (PDict kvs)") simp_all
  then have "redact_value_at 4 0 None (json_sorted (PDict kvs)) = json_sorted (PDict kvs)"
    by (rule redact_sorted_fixed [OF assms(1)])
  then have "redact_mapping 4 (sorted_items kvs) = sorted_items kvs"
    unfolding json_sorted_PDict r [symmetric] by simp
  then show ?thesis
    using n [of "sorted_items kvs"] json_ok_sorted [OF assms(1)] unfolding json_sorted_PDict by simp
qed

section \<open>Checkpoint metadata\<close>

lemma checkpoint_value_sorted:
  "wf_val v \<Longrightarrow> normalize_metadata_value d v = Inr v \<Longrightarrow>
     normalize_metadata_value d (json_sorted v) = Inr (json_sorted v)"
proof (induction v arbitrary: d)
  case (PList xs)
  have l: "\<not> CK_MAX_METADATA_DEPTH < d" "\<not> CK_MAX_METADATA_ITEMS < length xs"
    "normalize_metadata_list (d + 1) xs = Inr xs"
    using PList.prems(2) by (auto simp: r_simps split: if_splits)
  have wf: "wf_list xs \<Longrightarrow> x \<in> set xs \<Longrightarrow> wf_val x" for x xs by (induction xs) auto
  have "\<forall>x \<in> set xs. normalize_metadata_value (d + 1) (json_sorted x) = Inr (json_sorted x)"
    using l(3) PList wf unfolding normalize_metadata_list_id by auto
  then have "normalize_metadata_list (d + 1) (map json_sorted xs) = Inr (map json_sorted xs)"
    unfolding normalize_metadata_list_id by simp
  then show ?case using l by (simp add: json_sorted_list_map)
next
  case (PDict kvs)
  have wf: "wf_dict kvs" "\<And>k v. (k, v) \<in> set kvs \<Longrightarrow> wf_val v"
    using PDict.prems(1) by (auto simp: wf_items_iff)
  obtain out where l: "\<not> CK_MAX_METADATA_DEPTH < d" "\<not> CK_MAX_METADATA_ITEMS < length kvs"
    "normalize_metadata_items (d + 1) kvs = Inr out"
    using PDict.prems(2) by (auto simp: r_simps split: if_splits)
  then have "out = kvs" using normalize_metadata_lossless(3) PDict.prems(1) by simp
  then have i: "\<forall>(k, v) \<in> set kvs. ck_key_ok k \<and> normalize_metadata_value (d + 1) v = Inr v"
    using l(3) normalize_metadata_items_id by blast
  have "\<forall>(k, v) \<in> set (sorted_items kvs). ck_key_ok k \<and> normalize_metadata_value (d + 1) v = Inr v"
  proof clarify
    fix k w assume "(k, w) \<in> set (sorted_items kvs)"
    then obtain v where v: "(k, v) \<in> set kvs" "w = json_sorted v" by (auto simp: set_sorted_items)
    then show "ck_key_ok k \<and> normalize_metadata_value (d + 1) w = Inr w"
      using i PDict.IH [OF v(1), of v] wf(2) [OF v(1)] by auto
  qed
  then have "normalize_metadata_items (d + 1) (sorted_items kvs) = Inr (sorted_items kvs)"
    unfolding normalize_metadata_items_id .
  then show ?case
    using l(1,2) wf_dict_sorted_items [OF wf(1)] unfolding json_sorted_PDict by (simp add: dict_of_id)
qed simp_all

lemma checkpoint_metadata_sorted:
  assumes "normalize_checkpoint_metadata (PDict kvs) = Inr kvs"
  shows "normalize_checkpoint_metadata (PDict (sorted_items kvs)) = Inr (sorted_items kvs)"
  using checkpoint_value_sorted [of "PDict kvs" 0] assms
    normalize_checkpoint_metadata_fixed [OF assms]
  unfolding normalize_checkpoint_metadata_value json_sorted_PDict by blast

text \<open>The order of the keys does not show in the canonical form.\<close>

definition canon_of :: "pyval \<Rightarrow> canon" where
  "canon_of v = (case canonicalize_value v of Inr c \<Rightarrow> c | Inl _ \<Rightarrow> CNull)"

lemma canonicalize_list_iff:
  "canonicalize_list xs = Inr ys \<longleftrightarrow> (\<forall>x \<in> set xs. canonicalize_value x = Inr (canon_of x)) \<and> ys = map canon_of xs"
  by (induction xs arbitrary: ys) (auto simp: r_simps canon_of_def split: sum.splits)

lemma canonicalize_items_iff:
  "canonicalize_items kvs = Inr out \<longleftrightarrow> (\<forall>(k, v) \<in> set kvs. canonicalize_value v = Inr (canon_of v))
     \<and> out = map (\<lambda>(k, v). (atom_text k, canon_of v)) kvs"
proof (induction kvs arbitrary: out)
  case (Cons p kvs)
  obtain k v where p: "p = (k, v)" by (metis surj_pair)
  show ?case
  proof (cases "canonicalize_value v")
    case (Inr w)
    then have "canon_of v = w" by (simp add: canon_of_def)
    then show ?thesis using Inr Cons unfolding p by (auto simp: r_simps)
  qed (simp add: p)
qed auto

lemma canonicalize_sorted: "canonicalize_value v = Inr c \<Longrightarrow> canonicalize_value (json_sorted v) = Inr c"
proof (induction v arbitrary: c)
  case (PList xs)
  have x: "canonicalize_value (json_sorted x) = Inr (canon_of x)" "canon_of (json_sorted x) = canon_of x" if "x \<in> set xs" for x
  proof -
    have "canonicalize_value x = Inr (canon_of x)"
      using PList.prems that by (auto simp: r_simps canonicalize_list_iff)
    then show "canonicalize_value (json_sorted x) = Inr (canon_of x)" by (rule PList.IH [OF that])
    then show "canon_of (json_sorted x) = canon_of x" by (simp add: canon_of_def)
  qed
  then show ?case using PList.prems by (auto simp: r_simps json_sorted_list_map canonicalize_list_iff)
next
  case (PDict kvs)
  have x: "canonicalize_value (json_sorted v) = Inr (canon_of v)" "canon_of (json_sorted v) = canon_of v"
    if "(k, v) \<in> set kvs" for k v
  proof -
    have "canonicalize_value v = Inr (canon_of v)"
      using PDict.prems that by (auto simp: r_simps canonicalize_items_iff)
    then show "canonicalize_value (json_sorted v) = Inr (canon_of v)" using PDict.IH that by fastforce
    then show "canon_of (json_sorted v) = canon_of v" by (simp add: canon_of_def)
  qed
  let ?h = "\<lambda>(k, v). (atom_text k, canon_of v)"
  have "map ?h (sorted_items kvs) = map ?h (sort_key (atom_text \<circ> fst) kvs)"
    using x by (auto simp: sorted_items_def)
  also have "\<dots> = sort_key fst (map ?h kvs)"
    by (simp add: sort_key_map) (rule arg_cong [where f = "\<lambda>g. map ?h (sort_key g kvs)"], auto)
  finally have "canonicalize_items (sorted_items kvs) = Inr (sort_key fst (map ?h kvs))"
    unfolding canonicalize_items_iff using x by (auto simp: set_sorted_items)
  moreover have "sort_key fst (sort_key fst (map ?h kvs)) = sort_key fst (map ?h kvs)" by (simp add: sort_key_id_if_sorted)
  ultimately have "canonicalize_value (json_sorted (PDict kvs)) = Inr (CObject (sort_key fst (map ?h kvs)))"
    unfolding json_sorted_PDict by simp
  then show ?case using PDict.prems by (auto simp: r_simps canonicalize_items_iff)
qed (auto simp: r_simps)

lemma canonicalize_metadata_sorted:
  assumes "normalize_checkpoint_metadata (PDict kvs) = Inr kvs"
  shows "canonicalize_checkpoint_metadata (PDict (sorted_items kvs)) = canonicalize_checkpoint_metadata (PDict kvs)"
proof -
  obtain c where "canonicalize_value (PDict kvs) = Inr c"
    using assms canonicalize_total(1) unfolding normalize_checkpoint_metadata_value by blast
  then show ?thesis
    using canonicalize_sorted [of "PDict kvs" c] assms checkpoint_metadata_sorted [OF assms]
    unfolding canonicalize_checkpoint_metadata_def json_sorted_PDict by simp
qed
section \<open>Objects in a file\<close>

text \<open>\<open>allow_nan=False\<close>: a float that is not finite is a \<open>ValueError\<close>.\<close>

fun finite_floats :: "pyval \<Rightarrow> bool"
and finite_floats_list :: "pyval list \<Rightarrow> bool"
and finite_floats_items :: "pyitems \<Rightarrow> bool"
where
  "finite_floats (Atom a) = (case a of AFloat x \<Rightarrow> isfinite x | _ \<Rightarrow> True)"
| "finite_floats (PList xs) = finite_floats_list xs"
| "finite_floats (PTuple xs) = finite_floats_list xs"
| "finite_floats (PDict kvs) = finite_floats_items kvs"
| "finite_floats_list [] = True"
| "finite_floats_list (x # xs) = (finite_floats x \<and> finite_floats_list xs)"
| "finite_floats_items [] = True"
| "finite_floats_items ((k, v) # kvs) = (finite_floats v \<and> finite_floats_items kvs)"

definition encode_json :: "pyval \<Rightarrow> string res" where
  "encode_json v =
     (if finite_floats v then Inr (json_bytes v)
      else Inl (PlainExn ValueError_cls ''Out of range float values are not JSON compliant''))"

text \<open>\<open>payload[key]\<close>, once the keys have been compared with the required ones.\<close>

definition payload_item :: "pyitems \<Rightarrow> string \<Rightarrow> pyval" where
  "payload_item payload key = (case map_of payload (AStr key) of None \<Rightarrow> PNone | Some v \<Rightarrow> v)"

definition has_keys :: "string list \<Rightarrow> pyitems \<Rightarrow> bool" where
  "has_keys keys payload = (set (map fst payload) = set (map AStr keys))"

lemma finite_floats_all:
  "finite_floats_list xs \<longleftrightarrow> (\<forall>x \<in> set xs. finite_floats x)"
  "finite_floats_items kvs \<longleftrightarrow> (\<forall>(k, v) \<in> set kvs. finite_floats v)"
  by (induction xs) (simp, simp, induction kvs, auto)

lemma json_ok_finite: "json_ok f v \<Longrightarrow> finite_floats v"
proof (induction v)
  case (Atom a)
  then show ?case by (cases a) auto
next
  case (PDict kvs)
  then show ?case unfolding json_ok_PDict by (force simp: finite_floats_all)
qed (auto simp: finite_floats_all json_ok_list_all)

lemma encode_json_ok: "json_ok f v \<Longrightarrow> encode_json v = Inr (json_bytes v)"
  by (simp add: encode_json_def json_ok_finite)

lemma json_bytes_metadata:
  "json_bytes (pdict (d @ [(k, PDict (sorted_items m))])) = json_bytes (pdict (d @ [(k, PDict m)]))"
  using json_dumps_sorted(1) [of "'',''" "'':''" "PDict m"]
  unfolding json_sorted_PDict json_bytes_def pdict_def json_dumps.simps(4) [of _ _ "map _ _"] json_items_map
  by simp

lemma json_ok_pdict:
  "json_ok f (pdict d) \<longleftrightarrow> distinct (map fst d) \<and> (\<forall>(k, v) \<in> set d. json_ok f v)"
proof -
  have "map fst (map (\<lambda>(k, v). (AStr k, v)) d) = map AStr (map fst d)" by auto
  then have "wf_dict (map (\<lambda>(k, v). (AStr k, v)) d) = distinct (map fst d)"
    unfolding wf_dict_def by (metis distinct_map inj_on_def atom.inject(4))
  then show ?thesis unfolding pdict_def json_ok_PDict by fastforce
qed

lemma map_of_pdict: "map_of (map (\<lambda>(k, v). (AStr k, v)) d) (AStr k) = map_of d k"
  by (induction d) auto

text \<open>What \<open>_decode_json_object\<close> gives of an encoded object: its keys, and each value as it reads back.\<close>

lemma decode_pdict:
  assumes "json_ok f (pdict d)" and "length (json_bytes (pdict d)) \<le> n"
  shows "\<exists>out. decode_json_object f (json_bytes (pdict d)) n = Some out
    \<and> (\<forall>ks. has_keys ks out \<longleftrightarrow> set (map fst d) = set ks)
    \<and> (\<forall>k v. map_of d k = Some v \<longrightarrow> payload_item out k = json_sorted v)"
proof -
  let ?items = "map (\<lambda>(k, v). (AStr k, v)) d"
  obtain out where out: "decode_json_object f (json_bytes (pdict d)) n = Some out" "PDict out = json_sorted (pdict d)"
    using decode_json_bytes assms unfolding pdict_def by blast
  have o: "out = sorted_items ?items" using out(2) unfolding pdict_def json_sorted_PDict pyval.inject .
  have wf: "wf_dict ?items" using assms(1) unfolding pdict_def json_ok_PDict by blast
  have "set (map fst out) = AStr ` set (map fst d)"
    unfolding o set_map keys_sorted_items by force
  then have "\<forall>ks. has_keys ks out \<longleftrightarrow> set (map fst d) = set ks"
    unfolding has_keys_def by (metis atom.inject(4) inj_image_eq_iff inj_on_def set_map)
  moreover have "\<forall>k v. map_of d k = Some v \<longrightarrow> payload_item out k = json_sorted v"
    unfolding o payload_item_def map_of_sorted_items [OF wf] map_of_pdict by simp
  ultimately show ?thesis using out(1) by blast
qed

end
