(* ===== verification/Disk.thy ===== *)
theory Disk
  imports Errors "HOL-Library.Sublist"
begin

text \<open>
  The file system as the filesystem stores use it: directory entries with regular files, the
  system calls that change it, and computations over it that return, raise, or are cut off when the
  process dies.

  A path is the list of its components from the root. A regular file is the number of its inode
  with its bytes; a hard link is a second entry with both (only an unlinked temporary file is
  ever written to, so that the copies of the bytes stay equal). Every call that changes the disk
  has a fate, taken from a list that stands for the environment: it is carried out, it fails with
  \<open>OSError\<close> and changes nothing, or the process dies there; when the list is used up all calls are
  carried out. What a call did stays done: the stores sync files and directories at the points
  where they rely on it, and loss of unsynced data is not modelled. A read never fails.
\<close>

section \<open>Disks\<close>

type_synonym path = "string list"

datatype entry = Directory | Symlink | File nat string

record disk =
  dk_entries :: "(path \<times> entry) list"
  dk_next :: nat

definition look :: "disk \<Rightarrow> path \<Rightarrow> entry option" where
  "look d p = map_of (dk_entries d) p"

definition set_entry :: "path \<Rightarrow> entry \<Rightarrow> disk \<Rightarrow> disk" where
  "set_entry p x d = d\<lparr>dk_entries := dict_set p x (dk_entries d)\<rparr>"

definition drop_entry :: "path \<Rightarrow> disk \<Rightarrow> disk" where
  "drop_entry p d = d\<lparr>dk_entries := dict_pop p (dk_entries d)\<rparr>"

definition new_file :: "path \<Rightarrow> string \<Rightarrow> disk \<Rightarrow> disk" where
  "new_file p bytes d = (set_entry p (File (dk_next d) bytes) d)\<lparr>dk_next := Suc (dk_next d)\<rparr>"

definition empty_disk :: disk where
  "empty_disk = \<lparr>dk_entries = [], dk_next = 0\<rparr>"

text \<open>\<open>Path.rglob('*' + suffix)\<close>: the paths below a directory whose name ends so.\<close>

definition name_ends :: "string \<Rightarrow> path \<Rightarrow> bool" where
  "name_ends suff p = (p \<noteq> [] \<and> suffix suff (last p))"

definition rglob :: "disk \<Rightarrow> path \<Rightarrow> string \<Rightarrow> path list" where
  "rglob d dir suff = remdups (filter (\<lambda>p. strict_prefix dir p \<and> name_ends suff p) (map fst (dk_entries d)))"

lemma look_empty [simp]: "look empty_disk p = None"
  by (simp add: look_def empty_disk_def)

lemma look_set_entry: "look (set_entry p x d) q = (if q = p then Some x else look d q)"
  by (simp add: look_def set_entry_def map_of_dict_set)

lemma look_drop_entry: "look (drop_entry p d) q = (if q = p then None else look d q)"
  by (simp add: look_def drop_entry_def map_of_dict_pop)

lemma look_new_file: "look (new_file p b d) q = (if q = p then Some (File (dk_next d) b) else look d q)"
  by (simp add: new_file_def look_set_entry) (simp add: look_def set_entry_def map_of_dict_set)

lemma set_rglob:
  "p \<in> set (rglob d dir suff) \<longleftrightarrow> look d p \<noteq> None \<and> strict_prefix dir p \<and> name_ends suff p"
  by (auto simp: rglob_def look_def map_of_eq_None_iff)

section \<open>Computations\<close>

datatype fate = Carried_Out | Fails | Dies

datatype 'a outcome = Returned 'a | Raised exn | Dead

type_synonym 'a io = "disk \<times> fate list \<Rightarrow> (disk \<times> fate list) \<times> 'a outcome"

definition io_return :: "'a \<Rightarrow> 'a io" where
  "io_return x s = (s, Returned x)"

definition io_raise :: "exn \<Rightarrow> 'a io" where
  "io_raise e s = (s, Raised e)"

definition io_bind :: "'a io \<Rightarrow> ('a \<Rightarrow> 'b io) \<Rightarrow> 'b io" where
  "io_bind m f s = (case m s of
     (s, Returned x) \<Rightarrow> f x s | (s, Raised e) \<Rightarrow> (s, Raised e) | (s, Dead) \<Rightarrow> (s, Dead))"

text \<open>A reading of the disk, which may raise.\<close>

definition io_read :: "(disk \<Rightarrow> 'a res) \<Rightarrow> 'a io" where
  "io_read f s = (s, case f (fst s) of Inl e \<Rightarrow> Raised e | Inr x \<Rightarrow> Returned x)"

text \<open>A system call that changes the disk, with the error that its failure is turned into.\<close>

definition io_call :: "exn \<Rightarrow> (disk \<Rightarrow> disk) \<Rightarrow> unit io" where
  "io_call e g s = (case s of (d, fates) \<Rightarrow>
     (case fates of
        [] \<Rightarrow> ((g d, []), Returned ())
      | Carried_Out # fates \<Rightarrow> ((g d, fates), Returned ())
      | Fails # fates \<Rightarrow> ((d, fates), Raised e)
      | Dies # fates \<Rightarrow> ((d, fates), Dead)))"

text \<open>\<open>try: m finally: c\<close>, where nothing is left of a process that died.\<close>

definition io_finally :: "'a io \<Rightarrow> unit io \<Rightarrow> 'a io" where
  "io_finally m c s = (case m s of
     (s, Dead) \<Rightarrow> (s, Dead)
   | (s, out) \<Rightarrow> (case c s of (s, Returned _) \<Rightarrow> (s, out) | (s, Raised e) \<Rightarrow> (s, Raised e) | (s, Dead) \<Rightarrow> (s, Dead)))"

definition io_when :: "bool \<Rightarrow> unit io \<Rightarrow> unit io" where
  "io_when b m = (if b then m else io_return ())"

fun io_each :: "('a \<Rightarrow> unit io) \<Rightarrow> 'a list \<Rightarrow> unit io" where
  "io_each f [] = io_return ()"
| "io_each f (x # xs) = io_bind (f x) (\<lambda>_. io_each f xs)"

section \<open>The calls the stores share\<close>

text \<open>\<open>mkdir\<close> of a directory that may be there already, and of each directory on the way to one.\<close>

definition ensure_directory :: "exn \<Rightarrow> path \<Rightarrow> unit io" where
  "ensure_directory e p s = (case look (fst s) p of
     None \<Rightarrow> io_call e (set_entry p Directory) s
   | Some Directory \<Rightarrow> io_return () s
   | Some _ \<Rightarrow> io_raise e s)"

definition directory_chain :: "path \<Rightarrow> path list" where
  "directory_chain p = map (\<lambda>n. take n p) [1..<Suc (length p)]"

definition ensure_chain :: "exn \<Rightarrow> path \<Rightarrow> unit io" where
  "ensure_chain e p = io_each (ensure_directory e) (directory_chain p)"

text \<open>\<open>Path.mkdir(parents=True, exist_ok=True)\<close>, which goes through links on its way, and then a look
  at what is there.\<close>

definition make_parent :: "exn \<Rightarrow> path \<Rightarrow> unit io" where
  "make_parent e p s = (case look (fst s) p of
     None \<Rightarrow> io_call e (set_entry p Directory) s
   | Some (File _ _) \<Rightarrow> io_raise e s
   | Some _ \<Rightarrow> io_return () s)"

definition make_directory :: "exn \<Rightarrow> path \<Rightarrow> unit io" where
  "make_directory e p =
     io_bind (io_each (make_parent e) (directory_chain (butlast p))) (\<lambda>_. ensure_directory e p)"

text \<open>
  A temporary file: created under a name nothing else has (\<open>uuid4\<close>, here the number of its inode),
  written, synced and closed. A failure leaves the file behind.
\<close>

definition temp_prefix :: string where "temp_prefix = ''.tmp-''"

definition temp_path :: "path \<Rightarrow> string \<Rightarrow> disk \<Rightarrow> path" where
  "temp_path dir suff d = dir @ [temp_prefix @ nat_text (dk_next d) @ suff]"

definition write_temp :: "exn \<Rightarrow> path \<Rightarrow> string \<Rightarrow> string \<Rightarrow> path io" where
  "write_temp e dir suff payload =
     io_bind (io_read (\<lambda>d. Inr (temp_path dir suff d, dk_next d))) (\<lambda>(temp, n).
     io_bind (io_call e (new_file temp [])) (\<lambda>_.
     io_bind (io_call e (set_entry temp (File n payload))) (\<lambda>_.
     io_bind (io_call e id) (\<lambda>_. io_return temp))))"

text \<open>\<open>os.link\<close>: False when the name is taken.\<close>

definition link_file :: "exn \<Rightarrow> path \<Rightarrow> path \<Rightarrow> bool io" where
  "link_file e source final s =
     (if look (fst s) final \<noteq> None then io_return False s
      else case look (fst s) source of
        Some (File n b) \<Rightarrow>
          io_bind (io_call e (set_entry final (File n b))) (\<lambda>_. io_return True) s
      | _ \<Rightarrow> io_raise e s)"

text \<open>\<open>os.replace\<close> of a file, onto a name that is free or a file.\<close>

definition replace_file :: "exn \<Rightarrow> path \<Rightarrow> path \<Rightarrow> unit io" where
  "replace_file e source final s =
     (case look (fst s) source of
        Some (File n b) \<Rightarrow>
          if look (fst s) final = Some Directory then io_raise e s
          else io_call e (\<lambda>d. set_entry final (File n b) (drop_entry source d)) s
      | _ \<Rightarrow> io_raise e s)"

text \<open>Removal of a file that may be gone; a failure is ignored.\<close>

definition io_ignore :: "unit io \<Rightarrow> unit io" where
  "io_ignore m s = (case m s of (s, Raised _) \<Rightarrow> (s, Returned ()) | (s, out) \<Rightarrow> (s, out))"

definition cleanup_path :: "path \<Rightarrow> unit io" where
  "cleanup_path p s = (case look (fst s) p of
     Some (File _ _) \<Rightarrow> io_ignore (io_call (PlainExn (Other_cls ''OSError'') []) (drop_entry p)) s
   | _ \<Rightarrow> io_return () s)"


section \<open>What holds of every run\<close>

text \<open>
  \<open>wp faulty m P d\<close>: from the disk \<open>d\<close>, whatever becomes of the calls of \<open>m\<close> (or, unless \<open>faulty\<close>,
  if all are carried out), the outcome and the disk that is left satisfy \<open>P\<close>.
\<close>

definition wp :: "bool \<Rightarrow> 'a io \<Rightarrow> ('a outcome \<Rightarrow> disk \<Rightarrow> bool) \<Rightarrow> disk \<Rightarrow> bool" where
  "wp faulty m P d \<longleftrightarrow> (\<forall>fates d' fates' out. faulty \<or> fates = [] \<longrightarrow>
     m (d, fates) = ((d', fates'), out) \<longrightarrow> (faulty \<or> fates' = []) \<and> P out d')"

lemma wpI:
  "(\<And>fates d' fates' out. ft \<or> fates = [] \<Longrightarrow> m (d, fates) = ((d', fates'), out) \<Longrightarrow>
     (ft \<or> fates' = []) \<and> P out d') \<Longrightarrow> wp ft m P d"
  unfolding wp_def by blast

lemma wpD:
  assumes "wp ft m P d" and "ft \<or> fates = []" and "m (d, fates) = ((d', fates'), out)"
  shows "ft \<or> fates' = []" and "P out d'"
  using assms unfolding wp_def by blast+

named_theorems wp_intros "rules for what holds of every run"

lemma wp_return [wp_intros]: "P (Returned x) d \<Longrightarrow> wp ft (io_return x) P d"
  by (auto intro!: wpI simp: io_return_def)

lemma wp_raise [wp_intros]: "P (Raised e) d \<Longrightarrow> wp ft (io_raise e) P d"
  by (auto intro!: wpI simp: io_raise_def)

lemma wp_read [wp_intros]:
  "P (case f d of Inl e \<Rightarrow> Raised e | Inr x \<Rightarrow> Returned x) d \<Longrightarrow> wp ft (io_read f) P d"
  by (auto intro!: wpI simp: io_read_def)

lemma wp_call [wp_intros]:
  "P (Returned ()) (g d) \<Longrightarrow> (ft \<Longrightarrow> P (Raised e) d \<and> P Dead d) \<Longrightarrow> wp ft (io_call e g) P d"
  by (auto simp: wp_def io_call_def split: list.splits fate.splits)

lemma wp_bind:
  assumes "wp ft m (\<lambda>out d'. case out of
      Returned x \<Rightarrow> wp ft (f x) P d' | Raised e \<Rightarrow> P (Raised e) d' | Dead \<Rightarrow> P Dead d') d"
  shows "wp ft (io_bind m f) P d"
proof (rule wpI)
  fix fates d2 fates2 out2
  assume fates: "ft \<or> fates = []" and run: "io_bind m f (d, fates) = ((d2, fates2), out2)"
  obtain d' fates' out where m: "m (d, fates) = ((d', fates'), out)" by (metis surj_pair)
  note step = wpD [OF assms fates m]
  show "(ft \<or> fates2 = []) \<and> P out2 d2"
  proof (cases out)
    case (Returned x)
    then have "wp ft (f x) P d'" "f x (d', fates') = ((d2, fates2), out2)"
      using step(2) run m by (simp_all add: io_bind_def)
    then show ?thesis using wpD step(1) by blast
  qed (use step run m in \<open>auto simp: io_bind_def\<close>)
qed

lemma wp_finally:
  assumes "wp ft m (\<lambda>out d'. if out = Dead then P Dead d' else
      wp ft c (\<lambda>o' d'. case o' of Returned _ \<Rightarrow> P out d' | Raised e \<Rightarrow> P (Raised e) d' | Dead \<Rightarrow> P Dead d') d') d"
  shows "wp ft (io_finally m c) P d"
proof (rule wpI)
  fix fates d2 fates2 out2
  assume fates: "ft \<or> fates = []" and run: "io_finally m c (d, fates) = ((d2, fates2), out2)"
  obtain d' fates' out where m: "m (d, fates) = ((d', fates'), out)" by (metis surj_pair)
  obtain d'' fates'' out' where c: "c (d', fates') = ((d'', fates''), out')" by (metis surj_pair)
  note step = wpD [OF assms fates m]
  show "(ft \<or> fates2 = []) \<and> P out2 d2"
  proof (cases "out = Dead")
    case True
    then show ?thesis using step run m by (simp add: io_finally_def)
  next
    case False
    then have w: "wp ft c (\<lambda>o' d'. case o' of Returned _ \<Rightarrow> P out d' | Raised e \<Rightarrow> P (Raised e) d' | Dead \<Rightarrow> P Dead d') d'"
      using step(2) by simp
    note last = wpD [OF w step(1) c]
    show ?thesis
      using last False run m c by (cases out; cases out') (auto simp: io_finally_def)
  qed
qed

lemma wp_mono: "wp ft m P d \<Longrightarrow> (\<And>out d'. P out d' \<Longrightarrow> Q out d') \<Longrightarrow> wp ft m Q d"
  unfolding wp_def by blast

lemma wp_run: "wp False m P d \<Longrightarrow> m (d, []) = ((d', fates), out) \<Longrightarrow> P out d'"
  unfolding wp_def by blast

lemma wp_run_faulty: "wp True m P d \<Longrightarrow> m (d, fates) = ((d', fates'), out) \<Longrightarrow> P out d'"
  unfolding wp_def by blast

lemma wp_ignore:
  assumes "wp ft m (\<lambda>out d'. P (case out of Dead \<Rightarrow> Dead | _ \<Rightarrow> Returned ()) d') d"
  shows "wp ft (io_ignore m) P d"
proof (rule wpI)
  fix fates d2 fates2 out2
  assume fates: "ft \<or> fates = []" and run: "io_ignore m (d, fates) = ((d2, fates2), out2)"
  obtain d' fates' out where m: "m (d, fates) = ((d', fates'), out)" by (metis surj_pair)
  show "(ft \<or> fates2 = []) \<and> P out2 d2"
    using wpD [OF assms fates m] run m by (cases out) (auto simp: io_ignore_def)
qed

lemma wp_when: "(b \<Longrightarrow> wp ft m P d) \<Longrightarrow> (\<not> b \<Longrightarrow> P (Returned ()) d) \<Longrightarrow> wp ft (io_when b m) P d"
  by (simp add: io_when_def wp_return)

section \<open>The shared calls\<close>

text \<open>
  A step that makes directories only adds them, where nothing was. \<open>dirs_added\<close> relates the disk it
  started from and any disk on the way; \<open>dirs_clear\<close> says that there is no file in the way.
\<close>

definition dirs_added :: "path set \<Rightarrow> disk \<Rightarrow> disk \<Rightarrow> bool" where
  "dirs_added D d d' \<longleftrightarrow> (\<forall>q. look d' q = look d q \<or> (q \<in> D \<and> look d q = None \<and> look d' q = Some Directory))"

definition dirs_clear :: "path set \<Rightarrow> disk \<Rightarrow> bool" where
  "dirs_clear D d \<longleftrightarrow> (\<forall>q \<in> D. look d q = None \<or> look d q = Some Directory)"

definition makes_dirs :: "bool \<Rightarrow> path set \<Rightarrow> unit io \<Rightarrow> bool" where
  "makes_dirs ft D m \<longleftrightarrow> (\<forall>d. dirs_clear D d \<longrightarrow>
     wp ft m (\<lambda>out d'. dirs_added D d d' \<and> (ft \<or> out = Returned ())) d)"

lemma dirs_added_refl [simp]: "dirs_added D d d"
  by (simp add: dirs_added_def)

lemma dirs_added_trans: "dirs_added D d d' \<Longrightarrow> dirs_added D d' d'' \<Longrightarrow> dirs_added D d d''"
  unfolding dirs_added_def by (metis option.distinct(1))

lemma dirs_added_clear: "dirs_added D d d' \<Longrightarrow> dirs_clear E d \<Longrightarrow> dirs_clear E d'"
  unfolding dirs_added_def dirs_clear_def by metis

lemma makes_dirsD:
  "makes_dirs ft D m \<Longrightarrow> dirs_clear D d \<Longrightarrow>
     wp ft m (\<lambda>out d'. dirs_added D d d' \<and> (ft \<or> out = Returned ())) d"
  by (simp add: makes_dirs_def)

lemma makes_dirs_return: "makes_dirs ft D (io_return ())"
  by (simp add: makes_dirs_def wp_return)

lemma makes_dirs_bind:
  assumes "makes_dirs ft D m" and "makes_dirs ft D m'"
  shows "makes_dirs ft D (io_bind m (\<lambda>_. m'))"
  unfolding makes_dirs_def
proof (intro allI impI wp_bind)
  fix d assume d: "dirs_clear D d"
  have "wp ft m' (\<lambda>out d''. dirs_added D d d'' \<and> (ft \<or> out = Returned ())) d'" if "dirs_added D d d'" for d'
    by (rule wp_mono [OF makes_dirsD [OF assms(2) dirs_added_clear [OF that d]]])
      (use that dirs_added_trans in blast)
  then show "wp ft m (\<lambda>out d'. case out of
      Returned x \<Rightarrow> wp ft m' (\<lambda>out d'. dirs_added D d d' \<and> (ft \<or> out = Returned ())) d'
    | Raised e \<Rightarrow> dirs_added D d d' \<and> (ft \<or> Raised e = Returned ())
    | Dead \<Rightarrow> dirs_added D d d' \<and> (ft \<or> Dead = Returned ())) d"
    by (intro wp_mono [OF makes_dirsD [OF assms(1) d]]) (auto split: outcome.split)
qed

lemma makes_dirs_each: "(\<And>x. x \<in> set xs \<Longrightarrow> makes_dirs ft D (f x)) \<Longrightarrow> makes_dirs ft D (io_each f xs)"
  by (induction xs) (auto intro: makes_dirs_return makes_dirs_bind)

lemma wp_mkdir:
  assumes "p \<in> D" and "look d p = None"
  shows "wp ft (io_call e (set_entry p Directory)) (\<lambda>out d'. dirs_added D d d' \<and> (ft \<or> out = Returned ())) d"
  using assms by (intro wp_call) (auto simp: dirs_added_def look_set_entry)

lemma makes_dirs_ensure: "p \<in> D \<Longrightarrow> makes_dirs ft D (ensure_directory e p)"
  unfolding makes_dirs_def
proof (intro allI impI)
  fix d assume "p \<in> D" "dirs_clear D d"
  then consider "look d p = None" | "look d p = Some Directory" by (auto simp: dirs_clear_def)
  then show "wp ft (ensure_directory e p) (\<lambda>out d'. dirs_added D d d' \<and> (ft \<or> out = Returned ())) d"
  proof cases
    case 1
    then show ?thesis
      using wp_mkdir [OF \<open>p \<in> D\<close> 1, of ft e] by (simp add: wp_def ensure_directory_def)
  qed (auto intro!: wpI simp: ensure_directory_def io_return_def)
qed

lemma makes_dirs_parent: "p \<in> D \<Longrightarrow> makes_dirs ft D (make_parent e p)"
  unfolding makes_dirs_def
proof (intro allI impI)
  fix d assume "p \<in> D" "dirs_clear D d"
  then consider "look d p = None" | "look d p = Some Directory" by (auto simp: dirs_clear_def)
  then show "wp ft (make_parent e p) (\<lambda>out d'. dirs_added D d d' \<and> (ft \<or> out = Returned ())) d"
  proof cases
    case 1
    then show ?thesis
      using wp_mkdir [OF \<open>p \<in> D\<close> 1, of ft e] by (simp add: wp_def make_parent_def)
  qed (auto intro!: wpI simp: make_parent_def io_return_def)
qed

lemma set_directory_chain: "set (directory_chain p) = {q. prefix q p \<and> q \<noteq> []}"
proof -
  have "q \<in> (\<lambda>n. take n p) ` {1..<Suc (length p)}" if "prefix q p" "q \<noteq> []" for q
  proof -
    have "q = take (length q) p" "length q \<le> length p" using that(1) by (auto simp: prefix_def)
    moreover have "1 \<le> length q" using that(2) by (cases q) simp_all
    ultimately show ?thesis by (intro image_eqI [where x = "length q"]) auto
  qed
  moreover have "take n p \<noteq> []" if "n \<in> {1..<Suc (length p)}" for n using that by auto
  ultimately show ?thesis unfolding directory_chain_def set_map set_upt by (auto simp del: upt_Suc take_eq_Nil simp: take_is_prefix)
qed

lemma makes_dirs_chain:
  "(\<And>q. prefix q p \<Longrightarrow> q \<noteq> [] \<Longrightarrow> q \<in> D) \<Longrightarrow> makes_dirs ft D (ensure_chain e p)"
  unfolding ensure_chain_def by (rule makes_dirs_each, rule makes_dirs_ensure) (auto simp: set_directory_chain)

lemma makes_dirs_directory:
  assumes "\<And>q. prefix q p \<Longrightarrow> q \<noteq> [] \<Longrightarrow> q \<in> D" and "p \<noteq> []"
  shows "makes_dirs ft D (make_directory e p)"
proof -
  have "prefix q p" if "prefix q (butlast p)" for q using that prefixeq_butlast prefix_order.trans by blast
  then have "makes_dirs ft D (io_each (make_parent e) (directory_chain (butlast p)))"
    using assms(1) by (intro makes_dirs_each makes_dirs_parent) (auto simp: set_directory_chain)
  moreover have "p \<in> D" using assms by auto
  ultimately show ?thesis
    unfolding make_directory_def by (intro makes_dirs_bind makes_dirs_ensure)
qed

lemma wp_link_file:
  assumes "look d source = Some (File n b)"
    and "look d final \<noteq> None \<Longrightarrow> P (Returned False) d"
    and "look d final = None \<Longrightarrow> P (Returned True) (set_entry final (File n b) d)"
    and "look d final = None \<Longrightarrow> ft \<Longrightarrow> P (Raised e) d \<and> P Dead d"
  shows "wp ft (link_file e source final) P d"
proof (cases "look d final = None")
  case True
  have "wp ft (io_bind (io_call e (set_entry final (File n b))) (\<lambda>_. io_return True)) P d"
    using assms(3,4) True by (intro wp_bind wp_call) (auto intro: wp_return)
  then show ?thesis using True assms(1) by (simp add: wp_def link_file_def)
next
  case False
  then show ?thesis using assms(2) by (auto simp: wp_def link_file_def io_return_def)
qed

lemma wp_replace_file:
  assumes "look d source = Some (File n b)" and "look d final \<noteq> Some Directory"
    and "P (Returned ()) (set_entry final (File n b) (drop_entry source d))"
    and "ft \<Longrightarrow> P (Raised e) d \<and> P Dead d"
  shows "wp ft (replace_file e source final) P d"
proof -
  have "wp ft (io_call e (\<lambda>d. set_entry final (File n b) (drop_entry source d))) P d"
    using assms(3,4) by (intro wp_call) auto
  then show ?thesis using assms(1,2) by (simp add: wp_def replace_file_def)
qed

lemma wp_cleanup:
  assumes "ft \<or> (\<forall>n b. look d p \<noteq> Some (File n b)) \<Longrightarrow> P (Returned ()) d"
    and "\<And>n b. look d p = Some (File n b) \<Longrightarrow> P (Returned ()) (drop_entry p d)"
    and "ft \<Longrightarrow> P Dead d"
  shows "wp ft (cleanup_path p) P d"
proof (cases "look d p")
  case (Some x)
  show ?thesis
  proof (cases x)
    case (File n b)
    have "wp ft (io_ignore (io_call (PlainExn (Other_cls ''OSError'') []) (drop_entry p))) P d"
      using assms Some File by (intro wp_ignore wp_call) auto
    then show ?thesis using Some File by (simp add: wp_def cleanup_path_def)
  qed (use Some assms(1) in \<open>auto simp: wp_def cleanup_path_def io_return_def\<close>)
qed (use assms(1) in \<open>auto simp: wp_def cleanup_path_def io_return_def\<close>)

section \<open>Publishing a file\<close>

text \<open>
  \<open>quiet D T d d'\<close>: outside of the names in \<open>T\<close> (those of temporary files and the like), all that
  has happened to the disk is that directories of \<open>D\<close> were made, and a changed name of \<open>T\<close> is free or
  a file.
\<close>

definition free_or_file :: "disk \<Rightarrow> path \<Rightarrow> bool" where
  "free_or_file d q \<longleftrightarrow> (case look d q of None \<Rightarrow> True | Some (File n b) \<Rightarrow> True | _ \<Rightarrow> False)"

lemma free_or_file_look: "look d' q = look d q \<Longrightarrow> free_or_file d' q = free_or_file d q"
  by (simp add: free_or_file_def)

definition quiet :: "path set \<Rightarrow> path set \<Rightarrow> disk \<Rightarrow> disk \<Rightarrow> bool" where
  "quiet D T d d' \<longleftrightarrow> (\<forall>q. look d' q = look d q \<or> (q \<in> D \<and> look d q = None \<and> look d' q = Some Directory)
     \<or> (q \<in> T \<and> (q \<in> D \<or> free_or_file d' q)))"

text \<open>The same with a file under the name \<open>final\<close>.\<close>

definition published :: "path set \<Rightarrow> path set \<Rightarrow> path \<Rightarrow> string \<Rightarrow> disk \<Rightarrow> disk \<Rightarrow> bool" where
  "published D T final bytes d d' \<longleftrightarrow>
     quiet D (insert final T) d d' \<and> (\<exists>n. look d' final = Some (File n bytes))"

lemma quiet_refl [simp]: "quiet D T d d"
  by (simp add: quiet_def)

lemma quiet_trans:
  assumes "quiet D T d d'" and "quiet D T d' d''"
  shows "quiet D T d d''"
  unfolding quiet_def
proof
  fix q
  show "look d'' q = look d q \<or> (q \<in> D \<and> look d q = None \<and> look d'' q = Some Directory)
      \<or> (q \<in> T \<and> (q \<in> D \<or> free_or_file d'' q))"
    using assms(1) [unfolded quiet_def, rule_format, of q] assms(2) [unfolded quiet_def, rule_format, of q]
      free_or_file_look [of d'' q d'] by (cases "look d'' q = look d' q") auto
qed

lemma quiet_mono: "quiet D T d d' \<Longrightarrow> T \<subseteq> T' \<Longrightarrow> quiet D T' d d'"
  unfolding quiet_def by blast

lemma dirs_added_quiet: "dirs_added D d d' \<Longrightarrow> quiet D T d d'"
  unfolding dirs_added_def quiet_def by blast

lemma quiet_clear: "quiet D T d d' \<Longrightarrow> D \<inter> T = {} \<Longrightarrow> dirs_clear D d \<Longrightarrow> dirs_clear D d'"
  unfolding quiet_def dirs_clear_def by (metis disjoint_iff)

lemma quiet_look: "quiet D T d d' \<Longrightarrow> q \<notin> T \<Longrightarrow> q \<notin> D \<Longrightarrow> look d' q = look d q"
  unfolding quiet_def by blast

lemma quiet_free: "quiet D T d d' \<Longrightarrow> q \<notin> D \<Longrightarrow> free_or_file d q \<Longrightarrow> free_or_file d' q"
  unfolding quiet_def using free_or_file_look by metis

lemma quiet_set: "p \<in> T \<Longrightarrow> quiet D T d (set_entry p (File n b) d)" and
  quiet_drop: "p \<in> T \<Longrightarrow> quiet D T d (drop_entry p d)" and
  quiet_new: "p \<in> T \<Longrightarrow> quiet D T d (new_file p b d)"
  by (auto simp: quiet_def free_or_file_def look_set_entry look_drop_entry look_new_file)

lemma published_quiet:
  "published D T final bytes d d' \<Longrightarrow> quiet D T d' d'' \<Longrightarrow> final \<notin> T \<Longrightarrow> final \<notin> D \<Longrightarrow>
     published D T final bytes d d''"
  unfolding published_def using quiet_trans quiet_mono quiet_look by (metis subset_insertI)

lemma quiet_published:
  "quiet D T d d' \<Longrightarrow> published D T final bytes d' d'' \<Longrightarrow> published D T final bytes d d''"
  unfolding published_def using quiet_trans quiet_mono by (metis subset_insertI)

lemma wp_write_temp:
  assumes "temp_path dir suff d \<in> T"
    and "\<And>d' n. quiet D T d d' \<Longrightarrow> look d' (temp_path dir suff d) = Some (File n payload) \<Longrightarrow>
        P (Returned (temp_path dir suff d)) d'"
    and "\<And>d'. ft \<Longrightarrow> quiet D T d d' \<Longrightarrow> P (Raised e) d' \<and> P Dead d'"
  shows "wp ft (write_temp e dir suff payload) P d"
proof -
  let ?t = "temp_path dir suff d"
  let ?d1 = "new_file ?t [] d"
  let ?d2 = "set_entry ?t (File (dk_next d) payload) ?d1"
  have q1: "quiet D T d ?d1" using assms(1) by (rule quiet_new)
  have q2: "quiet D T d ?d2" using q1 quiet_set [OF assms(1)] quiet_trans by blast
  have l: "look ?d2 ?t = Some (File (dk_next d) payload)" by (simp add: look_set_entry)
  show ?thesis
    unfolding write_temp_def
    using assms(2) [OF q2 l] assms(3) [OF _ q1] assms(3) [OF _ q2] assms(3) [OF _ quiet_refl]
    by (intro wp_bind wp_read) (auto intro!: wp_bind wp_call wp_return)
qed

text \<open>A temporary file written, linked to its final name and removed.\<close>

lemma wp_publish:
  assumes temp: "\<And>d. temp_path dir suff d \<in> T" and final: "final \<notin> T" "final \<notin> D"
    and "\<And>d'. quiet D T d d' \<Longrightarrow> look d final \<noteq> None \<Longrightarrow> P (Returned False) d'"
    and "\<And>d'. published D T final payload d d' \<Longrightarrow> look d final = None \<Longrightarrow> P (Returned True) d'"
    and "\<And>d' x. ft \<Longrightarrow> quiet D T d d' \<Longrightarrow> x \<in> {e, e'} \<Longrightarrow> P (Raised x) d' \<and> P Dead d'"
    and "\<And>d'. ft \<Longrightarrow> published D T final payload d d' \<Longrightarrow> look d final = None \<Longrightarrow> P Dead d'"
  shows "wp ft (io_bind (io_read (\<lambda>d. Inr (temp_path dir suff d))) (\<lambda>t.
     io_finally (io_bind (write_temp e dir suff payload) (\<lambda>source. link_file e' source final)) (cleanup_path t))) P d"
proof -
  let ?t = "temp_path dir suff d"
  have clean: "wp ft (cleanup_path ?t) Q d1"
    if "\<And>d2. quiet D T d1 d2 \<Longrightarrow> Q (Returned ()) d2" and "\<And>d2. ft \<Longrightarrow> quiet D T d1 d2 \<Longrightarrow> Q Dead d2"
    for Q d1
    using that quiet_drop [OF temp [of d]] by (intro wp_cleanup) auto
  let ?Q = "\<lambda>out d'. if out = Dead then P Dead d' else wp ft (cleanup_path ?t)
    (\<lambda>o' d'. case o' of Returned _ \<Rightarrow> P out d' | Raised e \<Rightarrow> P (Raised e) d' | Dead \<Rightarrow> P Dead d') d'"
  have fail: "?Q (Raised x) d1 \<and> ?Q Dead d1" if "ft" "quiet D T d d1" "x \<in> {e, e'}" for x d1
  proof -
    have p: "P (Raised x) d2 \<and> P Dead d2" if "quiet D T d1 d2" for d2
      using assms(6) quiet_trans [OF \<open>quiet D T d d1\<close> that] \<open>ft\<close> \<open>x \<in> {e, e'}\<close> by blast
    have "wp ft (cleanup_path ?t) (\<lambda>o' d'. case o' of Returned _ \<Rightarrow> P (Raised x) d'
        | Raised e \<Rightarrow> P (Raised e) d' | Dead \<Rightarrow> P Dead d') d1"
      by (rule clean) (simp_all add: p)
    then show ?thesis using p [of d1] by simp
  qed
  have "wp ft (io_bind (write_temp e dir suff payload) (\<lambda>source. link_file e' source final)) ?Q d"
  proof (intro wp_bind wp_write_temp [where T = T and D = D], goal_cases)
    case 1
    show ?case by (rule temp)
  next
    case (2 d1 n)
    have l: "look d1 final = look d final" using quiet_look [OF 2(1) final] .
    have "wp ft (link_file e' ?t final) ?Q d1"
    proof (rule wp_link_file [OF 2(2)], goal_cases)
      case 1
      then show ?case
        using assms(4) [OF quiet_trans [OF 2(1)]] assms(6) [OF _ quiet_trans [OF 2(1)], of _ e] l
        by (auto intro!: clean)
    next
      case 2
      let ?d2 = "set_entry final (File n payload) d1"
      have p: "published D T final payload d ?d2"
        using \<open>quiet D T d d1\<close> by (auto simp: published_def quiet_def free_or_file_def look_set_entry)
      then have "published D T final payload d d3" if "quiet D T ?d2 d3" for d3
        using published_quiet that final by blast
      then show ?case using assms(5,7) 2 l by (auto intro!: clean)
    next
      case 3
      then show ?case using fail [OF _ \<open>quiet D T d d1\<close>, of e'] by blast
    qed
    then show ?case by simp
  next
    case (3 d1)
    then show ?case using fail [of d1 e] by simp
  qed
  then show ?thesis
    by (intro wp_bind wp_read) (simp add: wp_finally)
qed

section \<open>Undisturbed runs\<close>

text \<open>A computation whose calls are all carried out, as a function of the disk.\<close>

definition settle :: "'a io \<Rightarrow> disk \<Rightarrow> disk \<times> 'a res" where
  "settle m d = (case m (d, []) of ((d', _), out) \<Rightarrow>
     (d', case out of Returned x \<Rightarrow> Inr x | Raised e \<Rightarrow> Inl e | Dead \<Rightarrow> Inl (PlainExn (Other_cls ''Dead'') [])))"

lemma settle_wp:
  assumes "wp False m P d" and "\<And>x d'. P (Returned x) d' \<Longrightarrow> Q (d', Inr x)"
    and "\<And>e d'. P (Raised e) d' \<Longrightarrow> Q (d', Inl e)" and "\<And>d'. \<not> P Dead d'"
  shows "Q (settle m d)"
proof -
  obtain d' fates out where m: "m (d, []) = ((d', fates), out)" by (metis surj_pair)
  have "P out d'" by (rule wp_run [OF assms(1) m])
  then show ?thesis using assms(2-4) m by (cases out) (auto simp: settle_def)
qed

section \<open>Files\<close>

definition holds :: "disk \<Rightarrow> path \<Rightarrow> string \<Rightarrow> bool" where
  "holds d p b \<longleftrightarrow> (\<exists>n. look d p = Some (File n b))"

lemma holds_look: "holds d p b \<Longrightarrow> look d p \<noteq> None"
  by (auto simp: holds_def)

lemma in_prefix: "prefix (root @ q @ [x]) (root @ ys) \<Longrightarrow> x \<in> set ys"
  by (auto simp: prefix_def)

end
