(* ===== verification/Artifact_Filesystem.thy ===== *)
theory Artifact_Filesystem
  imports Artifact_Store Json_Sorted Disk
begin

text \<open>
  integrations/artifact/filesystem_store.py: \<open>FilesystemArtifactStore\<close>. A body is published under its
  digest and a manifest under the digest of its storage key, each as a temporary file that is then
  linked to its final name, so that a name holds a whole file or nothing. \<open>root\<close> is the store's
  directory and \<open>float_of\<close> how a decimal numeral reads as a float.
\<close>

section \<open>Errors\<close>

definition fa_reference :: "string \<Rightarrow> string" where
  "fa_reference storage_key = take 12 (sha256_hex (utf8 storage_key))"

definition fa_conflict_error :: "string \<Rightarrow> string \<Rightarrow> exn" where
  "fa_conflict_error safe_message storage_key =
     ArtifactConflictError (safe_message @ '' Reference '' @ fa_reference storage_key @ ''.'')
       ''ARTIFACT_STORE_WRITE_CONFLICT'' (Some ''artifact_store'')
       [(''reference'', PStr (fa_reference storage_key))]"

definition fa_integrity_error :: "string \<Rightarrow> string \<Rightarrow> string \<Rightarrow> exn" where
  "fa_integrity_error safe_message storage_key code =
     ArtifactIntegrityError (safe_message @ '' Reference '' @ fa_reference storage_key @ ''.'')
       code (Some ''artifact_store'') None [(''reference'', PStr (fa_reference storage_key))]"

definition fa_persistence_error :: "string \<Rightarrow> string \<Rightarrow> exn" where
  "fa_persistence_error safe_message code =
     ArtifactPersistenceError safe_message code (Some ''artifact_store'') None []"

definition fa_unavailable :: exn where
  "fa_unavailable = fa_persistence_error ''Filesystem artifact store root is unavailable.''
     ''ARTIFACT_STORE_DIRECTORY_UNAVAILABLE''"

definition fa_write_failed :: exn where
  "fa_write_failed = fa_persistence_error ''Filesystem artifact write failed.'' ''ARTIFACT_STORE_WRITE_FAILED''"

definition fa_unsupported :: exn where
  "fa_unsupported = fa_persistence_error
     ''Filesystem artifact publication is unsupported on this filesystem.''
     ''ARTIFACT_STORE_PUBLICATION_UNSUPPORTED''"

section \<open>Paths\<close>

definition fa_body_dir :: "path \<Rightarrow> string \<Rightarrow> path" where
  "fa_body_dir root h = root @ [''bodies'', ''sha256'', take 2 h, take 2 (drop 2 h)]"

definition fa_record_dir :: "path \<Rightarrow> string \<Rightarrow> path" where
  "fa_record_dir root h = root @ [''records'', ''sha256'', take 2 h, take 2 (drop 2 h)]"

definition digest_suffix :: "string \<Rightarrow> string res" where
  "digest_suffix digest =
     (if \<not> startswith ''sha256:'' digest
      then Inl (ArtifactIntegrityError ''Filesystem artifact store recorded an invalid digest.''
        ''ARTIFACT_STORE_INVALID_DIGEST'' (Some ''artifact_store'') None [])
      else Inr (drop 7 digest))"

definition body_path_for_digest :: "path \<Rightarrow> string \<Rightarrow> path res" where
  "body_path_for_digest root digest =
     r_bind (digest_suffix digest) (\<lambda>h. Inr (fa_body_dir root h @ [h @ ''.blob'']))"

definition manifest_path_for_storage_key :: "path \<Rightarrow> string \<Rightarrow> path" where
  "manifest_path_for_storage_key root storage_key =
     (let h = sha256_hex (utf8 storage_key) in fa_record_dir root h @ [h @ ''.json''])"

section \<open>Manifests\<close>

definition MAX_MANIFEST_BYTES :: nat where "MAX_MANIFEST_BYTES = 1048576"

definition manifest_payload :: "stored_artifact \<Rightarrow> pyval" where
  "manifest_payload a = pdict
     [(''schema_version'', PInt 1), (''run_id'', run_id_value (sa_run_id a)),
      (''storage_key'', PStr (sa_storage_key a)), (''name'', PStr (sa_name a)),
      (''kind'', PStr (sa_kind a)), (''content_type'', opt_str (sa_content_type a)),
      (''size'', PInt (sa_size a)), (''digest'', PStr (sa_digest a)),
      (''metadata'', PDict (sa_metadata a))]"

definition encode_manifest :: "stored_artifact \<Rightarrow> string res" where
  "encode_manifest a = encode_json (manifest_payload a)"

definition manifest_keys :: "string list" where
  "manifest_keys = [''schema_version'', ''run_id'', ''storage_key'', ''name'', ''kind'',
     ''content_type'', ''size'', ''digest'', ''metadata'']"

definition artifact_from_manifest_bytes ::
  "(string \<Rightarrow> pyfloat) \<Rightarrow> string \<Rightarrow> string \<Rightarrow> string \<Rightarrow> stored_artifact res" where
  "artifact_from_manifest_bytes float_of manifest_bytes record_digest storage_key =
     (let invalid = fa_integrity_error ''Filesystem artifact store detected an invalid manifest.''
            storage_key ''ARTIFACT_STORE_INVALID_MANIFEST''
      in case decode_json_object float_of manifest_bytes MAX_MANIFEST_BYTES of
        None \<Rightarrow> Inl invalid
      | Some payload \<Rightarrow>
          let item = payload_item payload in
          r_bind (r_guard (\<not> has_keys manifest_keys payload) invalid) (\<lambda>_.
          r_bind (r_guard (\<not> val_eq (item ''schema_version'') (PInt 1))
            (fa_integrity_error ''Filesystem artifact store detected an unsupported manifest schema.''
              storage_key ''ARTIFACT_STORE_UNSUPPORTED_SCHEMA'')) (\<lambda>_.
          r_bind (normalize_artifact_storage_key (item ''storage_key'')) (\<lambda>key.
          r_bind (r_guard (sha256_hex (utf8 key) \<noteq> record_digest)
            (fa_integrity_error ''Filesystem artifact store detected a manifest mapping mismatch.''
              storage_key ''ARTIFACT_STORE_MANIFEST_KEY_MISMATCH'')) (\<lambda>_.
          r_bind
            (case (r_bind (normalize_artifact_run_id (item ''run_id'')) (\<lambda>run.
                   r_bind (if_truthy normalize_artifact_name (item ''name'')) (\<lambda>name.
                   r_bind (if_truthy normalize_artifact_kind (item ''kind'')) (\<lambda>kind.
                   r_bind (normalize_artifact_content_type (item ''content_type'')) (\<lambda>ct.
                   r_bind (normalize_artifact_metadata (item ''metadata'')) (\<lambda>metadata.
                     StoredArtifact (run_id_value run) (PStr key) (PStr name) (PStr kind) (opt_str ct)
                       (item ''size'') (item ''digest'') (PDict metadata)))))))  of
               Inl e \<Rightarrow> if isinstance e ArtifactIntegrityError_cls \<or> isinstance e ArtifactValidationError_cls
                         then Inl invalid else Inl e
             | Inr a \<Rightarrow> Inr a) (\<lambda>a.
          r_bind (encode_manifest a) (\<lambda>canonical.
          r_bind (r_guard (canonical \<noteq> manifest_bytes)
            (fa_integrity_error ''Filesystem artifact store detected a noncanonical manifest.''
              storage_key ''ARTIFACT_STORE_NONCANONICAL_MANIFEST'')) (\<lambda>_. Inr a)))))))) "

section \<open>Reading\<close>

text \<open>\<open>_read_regular_file_bytes\<close>. Opening a directory succeeds; its \<open>fstat\<close> then shows what it is.\<close>

definition fa_read_file ::
  "path \<Rightarrow> string \<Rightarrow> string \<Rightarrow> nat option \<Rightarrow> bool \<Rightarrow> disk \<Rightarrow> string option res" where
  "fa_read_file p purpose storage_key max_bytes missing_ok d =
     (case look d p of
        Some Symlink \<Rightarrow> Inl (fa_integrity_error
          (''Filesystem artifact store detected a '' @ purpose @ '' symlink.'') storage_key ''ARTIFACT_STORE_SYMLINK'')
      | None \<Rightarrow>
          if missing_ok then Inr None
          else Inl (fa_integrity_error (''Filesystem artifact store detected a missing '' @ purpose @ ''.'')
            storage_key (''ARTIFACT_STORE_MISSING_'' @ upper purpose))
      | Some Directory \<Rightarrow> Inl (fa_integrity_error
          (''Filesystem artifact store detected a non-regular '' @ purpose @ ''.'') storage_key
          (''ARTIFACT_STORE_NONREGULAR_'' @ upper purpose))
      | Some (File _ bytes) \<Rightarrow>
          if (case max_bytes of None \<Rightarrow> False | Some m \<Rightarrow> m < length bytes)
          then Inl (fa_integrity_error (''Filesystem artifact store detected an oversized '' @ purpose @ ''.'')
            storage_key (''ARTIFACT_STORE_OVERSIZED_'' @ upper purpose))
          else Inr (Some bytes))"

definition fa_missing :: "string \<Rightarrow> string \<Rightarrow> exn" where
  "fa_missing purpose storage_key =
     fa_integrity_error (''Filesystem artifact store detected a missing '' @ purpose @ ''.'') storage_key
       (''ARTIFACT_STORE_MISSING_'' @ upper purpose)"

definition read_body_for_digest :: "path \<Rightarrow> string \<Rightarrow> int \<Rightarrow> string \<Rightarrow> disk \<Rightarrow> string res" where
  "read_body_for_digest body_path digest expected_size storage_key d =
     r_bind (fa_read_file body_path ''body'' storage_key None False d) (\<lambda>found.
       case found of
         None \<Rightarrow> Inl (fa_missing ''body'' storage_key)
       | Some body \<Rightarrow>
           r_bind (r_guard (int (length body) \<noteq> expected_size)
             (fa_integrity_error ''Filesystem artifact store detected a body size mismatch.'' storage_key
               ''ARTIFACT_STORE_SIZE_MISMATCH'')) (\<lambda>_.
           r_bind (r_guard (body_digest body \<noteq> digest)
             (fa_integrity_error ''Filesystem artifact store detected a body digest mismatch.'' storage_key
               ''ARTIFACT_STORE_DIGEST_MISMATCH'')) (\<lambda>_. Inr body)))"

definition load_existing_artifact ::
  "path \<Rightarrow> (string \<Rightarrow> pyfloat) \<Rightarrow> string \<Rightarrow> disk \<Rightarrow> artifact_read_result option res" where
  "load_existing_artifact root float_of storage_key d =
     r_bind (fa_read_file (manifest_path_for_storage_key root storage_key) ''manifest'' storage_key
       (Some MAX_MANIFEST_BYTES) True d) (\<lambda>found.
       case found of
         None \<Rightarrow> Inr None
       | Some bytes \<Rightarrow>
           r_bind (artifact_from_manifest_bytes float_of bytes (sha256_hex (utf8 storage_key)) storage_key) (\<lambda>a.
           r_bind (body_path_for_digest root (sa_digest a)) (\<lambda>p.
           r_bind (read_body_for_digest p (sa_digest a) (sa_size a) storage_key d) (\<lambda>body.
             Inr (Some \<lparr>ar_artifact = a, ar_body = body\<rparr>)))))"

definition clone_artifact_reading :: "artifact_read_result \<Rightarrow> artifact_read_result res" where
  "clone_artifact_reading x =
     r_bind (clone_artifact (ar_artifact x)) (\<lambda>a.
     r_bind (normalize_artifact_body (PBytes (ar_body x))) (\<lambda>b. Inr \<lparr>ar_artifact = a, ar_body = b\<rparr>))"

definition fa_get ::
  "path \<Rightarrow> (string \<Rightarrow> pyfloat) \<Rightarrow> pyval \<Rightarrow> disk \<Rightarrow> artifact_read_result option res" where
  "fa_get root float_of storage_key d =
     r_bind (checked_storage_key storage_key) (\<lambda>key.
     r_bind (load_existing_artifact root float_of key d) (\<lambda>found.
       case found of
         None \<Rightarrow> Inr None
       | Some x \<Rightarrow> r_bind (clone_artifact_reading x) (\<lambda>y. Inr (Some y))))"

text \<open>\<open>list_for_run\<close>, with \<open>Path.stem\<close> of a name that ends in \<open>.json\<close>.\<close>

definition is_manifest_name :: "string \<Rightarrow> bool" where
  "is_manifest_name s = (length s = 69 \<and> list_all is_hex (take 64 s) \<and> drop 64 s = ''.json'')"

definition validate_body_entry_metadata :: "path \<Rightarrow> int \<Rightarrow> string \<Rightarrow> disk \<Rightarrow> unit res" where
  "validate_body_entry_metadata p expected_size storage_key d =
     (case look d p of
        Some Symlink \<Rightarrow> Inl (fa_integrity_error ''Filesystem artifact store detected a body symlink.''
          storage_key ''ARTIFACT_STORE_SYMLINK'')
      | None \<Rightarrow> Inl (fa_missing ''body'' storage_key)
      | Some Directory \<Rightarrow> Inl (fa_integrity_error
          ''Filesystem artifact store detected a non-regular body.'' storage_key
          ''ARTIFACT_STORE_NONREGULAR_BODY'')
      | Some (File _ bytes) \<Rightarrow> r_guard (int (length bytes) \<noteq> expected_size)
          (fa_integrity_error ''Filesystem artifact store detected a body size mismatch.'' storage_key
            ''ARTIFACT_STORE_SIZE_MISMATCH''))"

definition artifact_from_manifest_path ::
  "(string \<Rightarrow> pyfloat) \<Rightarrow> path \<Rightarrow> disk \<Rightarrow> stored_artifact res" where
  "artifact_from_manifest_path float_of p d =
     (let stem = take (length (last p) - 5) (last p)
      in r_bind (fa_read_file p ''manifest'' stem (Some MAX_MANIFEST_BYTES) False d) (\<lambda>found.
        case found of
          None \<Rightarrow> Inl (fa_missing ''manifest'' stem)
        | Some bytes \<Rightarrow> artifact_from_manifest_bytes float_of bytes stem stem))"

fun fa_list_entries ::
  "path \<Rightarrow> (string \<Rightarrow> pyfloat) \<Rightarrow> run_id \<Rightarrow> disk \<Rightarrow> path list \<Rightarrow> stored_artifact list res" where
  "fa_list_entries root float_of run d [] = Inr []"
| "fa_list_entries root float_of run d (p # ps) =
     (if \<not> is_manifest_name (last p) then fa_list_entries root float_of run d ps
      else r_bind (artifact_from_manifest_path float_of p d) (\<lambda>a.
        if sa_run_id a \<noteq> run then fa_list_entries root float_of run d ps
        else r_bind (body_path_for_digest root (sa_digest a)) (\<lambda>bp.
          r_bind (validate_body_entry_metadata bp (sa_size a) (sa_storage_key a) d) (\<lambda>_.
          r_bind (clone_artifact a) (\<lambda>c.
          r_bind (fa_list_entries root float_of run d ps) (\<lambda>cs. Inr (c # cs)))))))"

definition fa_list_for_run ::
  "path \<Rightarrow> (string \<Rightarrow> pyfloat) \<Rightarrow> pyval \<Rightarrow> disk \<Rightarrow> stored_artifact list res" where
  "fa_list_for_run root float_of run_id d =
     r_bind (normalize_artifact_run_id run_id) (\<lambda>run.
       let records_root = root @ [''records'', ''sha256'']
       in if look d records_root = None then Inr []
          else r_bind (fa_list_entries root float_of run d (sort (rglob d records_root ''.json''))) (\<lambda>as.
            Inr (sort_key sa_storage_key as)))"

section \<open>Writing\<close>

definition fa_ensure_chain :: "path \<Rightarrow> path \<Rightarrow> unit io" where
  "fa_ensure_chain root parts =
     io_each (\<lambda>n. make_directory fa_unavailable (root @ take n parts)) [1..<Suc (length parts)]"

text \<open>\<open>_publish_immutable_bytes\<close>: true when this call created the name.\<close>

definition fa_publish :: "path \<Rightarrow> path \<Rightarrow> string \<Rightarrow> bool io" where
  "fa_publish root final payload =
     io_bind (fa_ensure_chain root (drop (length root) (butlast final))) (\<lambda>_.
     io_bind (io_read (\<lambda>d. Inr (temp_path (butlast final) [] d))) (\<lambda>temp.
       io_finally
         (io_bind (write_temp fa_write_failed (butlast final) [] payload) (\<lambda>source.
            link_file fa_unsupported source final))
         (cleanup_path temp)))"

definition fa_artifact :: "write_request \<Rightarrow> stored_artifact res" where
  "fa_artifact request =
     r_bind (checked_storage_key (PStr (wr_storage_key request))) (\<lambda>key.
     r_bind (normalize_artifact_run_id (run_id_value (wr_run_id request))) (\<lambda>run.
     r_bind (normalize_artifact_body (PBytes (wr_body request))) (\<lambda>body.
     r_bind (if_truthy normalize_artifact_name (PStr (wr_name request))) (\<lambda>name.
     r_bind (if_truthy normalize_artifact_kind (PStr (wr_kind request))) (\<lambda>kind.
     r_bind (normalize_artifact_content_type (opt_str (wr_content_type request))) (\<lambda>ct.
     r_bind (normalize_artifact_metadata (PDict (wr_metadata request))) (\<lambda>metadata.
       StoredArtifact (run_id_value run) (PStr key) (PStr name) (PStr kind) (opt_str ct)
         (PInt (int (length body))) (PStr (body_digest body)) (PDict metadata))))))))"

definition fa_conflict :: "string \<Rightarrow> exn" where
  "fa_conflict storage_key = fa_conflict_error ''Filesystem artifact store detected a write conflict.'' storage_key"

definition fa_body_failure :: "string \<Rightarrow> exn" where
  "fa_body_failure storage_key =
     fa_integrity_error ''Filesystem artifact store detected a body integrity failure.'' storage_key
       ''ARTIFACT_STORE_BODY_INTEGRITY_FAILURE''"

definition fa_publish_body :: "path \<Rightarrow> stored_artifact \<Rightarrow> string \<Rightarrow> unit io" where
  "fa_publish_body root a body =
     io_bind (io_read (\<lambda>d. body_path_for_digest root (sa_digest a))) (\<lambda>p.
     io_bind (fa_ensure_chain root (drop (length root) (butlast p))) (\<lambda>_.
     io_bind (fa_publish root p body) (\<lambda>created.
       io_when (\<not> created)
         (io_read (\<lambda>d. r_bind (fa_read_file p ''body'' (sa_storage_key a) (Some (length body + 1)) False d)
           (\<lambda>found. r_guard (found \<noteq> Some body) (fa_body_failure (sa_storage_key a))))))))"

definition fa_publish_manifest ::
  "path \<Rightarrow> (string \<Rightarrow> pyfloat) \<Rightarrow> stored_artifact \<Rightarrow> stored_artifact io" where
  "fa_publish_manifest root float_of a =
     io_bind (io_read (\<lambda>d. encode_manifest a)) (\<lambda>bytes.
     io_bind (io_read (\<lambda>d. Inr (manifest_path_for_storage_key root (sa_storage_key a)))) (\<lambda>p.
     io_bind (fa_ensure_chain root (drop (length root) (butlast p))) (\<lambda>_.
     io_bind (fa_publish root p bytes) (\<lambda>created.
       io_read (\<lambda>d.
         if created then clone_artifact a
         else r_bind (load_existing_artifact root float_of (sa_storage_key a) d) (\<lambda>found.
           case found of
             None \<Rightarrow> Inl (fa_integrity_error
               ''Filesystem artifact store detected a missing manifest after publication.''
               (sa_storage_key a) ''ARTIFACT_STORE_MISSING_MANIFEST'')
           | Some x \<Rightarrow>
               if artifact_eq (ar_artifact x) a then clone_artifact (ar_artifact x)
               else Inl (fa_conflict (sa_storage_key a))))))))"

definition fa_put :: "path \<Rightarrow> (string \<Rightarrow> pyfloat) \<Rightarrow> write_request \<Rightarrow> stored_artifact io" where
  "fa_put root float_of request =
     io_bind (io_read (\<lambda>d. fa_artifact request)) (\<lambda>a.
     io_bind (io_read (load_existing_artifact root float_of (sa_storage_key a))) (\<lambda>existing.
       case existing of
         Some x \<Rightarrow> io_read (\<lambda>d.
           if artifact_eq (ar_artifact x) a \<and> ar_body x = wr_body request then clone_artifact (ar_artifact x)
           else if artifact_eq (ar_artifact x) a \<and> ar_body x \<noteq> wr_body request
           then Inl (fa_body_failure (sa_storage_key a))
           else Inl (fa_conflict (sa_storage_key a)))
       | None \<Rightarrow>
           io_bind (fa_publish_body root a (wr_body request)) (\<lambda>_. fa_publish_manifest root float_of a)))"

text \<open>The constructor: the root with the two directories below it.\<close>

definition fa_open :: "path \<Rightarrow> bool \<Rightarrow> unit io" where
  "fa_open root absolute =
     (if \<not> absolute
      then io_raise (ArtifactValidationError ''Filesystem artifact store requires an absolute root path.''
        ''ARTIFACT_STORE_INVALID_ROOT'' (Some ''artifact_store'') [])
      else io_bind (make_directory fa_unavailable root) (\<lambda>_.
        io_bind (fa_ensure_chain root [''bodies'', ''sha256'']) (\<lambda>_.
          fa_ensure_chain root [''records'', ''sha256''])))"

end
