(* ===== verification/Artifact_Durability.thy ===== *)
theory Artifact_Durability
  imports Artifact_Filesystem
begin

text \<open>
  The filesystem artifact store: a manifest reads back as the artifact it was written for, the store
  keeps the protocol of \<open>artifact_store\<close>, and a write that is cut off at any call or whose calls fail
  leaves every key as it was or, the key written, holding the whole new artifact.
\<close>

section \<open>Manifests read back\<close>

definition shown_artifact :: "stored_artifact \<Rightarrow> stored_artifact" where
  "shown_artifact a = a\<lparr>sa_metadata := sorted_items (sa_metadata a)\<rparr>"

definition shown :: "write_request \<Rightarrow> artifact_read_result" where
  "shown r = \<lparr>ar_artifact = shown_artifact (describe r), ar_body = wr_body r\<rparr>"

definition manifest :: "write_request \<Rightarrow> string" where
  "manifest r = json_bytes (manifest_payload (describe r))"

definition fa_storable :: "(string \<Rightarrow> pyfloat) \<Rightarrow> write_request \<Rightarrow> bool" where
  "fa_storable float_of r \<longleftrightarrow> acceptable r \<and> json_ok float_of (PDict (wr_metadata r))
     \<and> length (manifest r) \<le> MAX_MANIFEST_BYTES"

lemma describe_simps [simp]:
  "sa_run_id (describe r) = wr_run_id r" "sa_storage_key (describe r) = wr_storage_key r"
  "sa_name (describe r) = wr_name r" "sa_kind (describe r) = wr_kind r"
  "sa_content_type (describe r) = wr_content_type r" "sa_size (describe r) = int (length (wr_body r))"
  "sa_digest (describe r) = body_digest (wr_body r)" "sa_metadata (describe r) = wr_metadata r"
  by (simp_all add: describe_def)

lemma json_ok_run_id_value [simp]: "json_ok f (run_id_value x)" "json_sorted (run_id_value x) = run_id_value x"
  by (cases x; simp)+

lemma json_ok_opt_str [simp]: "json_ok f (opt_str x)" "json_sorted (opt_str x) = opt_str x"
  by (cases x; simp)+

lemma manifest_json_ok:
  "json_ok f (PDict (sa_metadata a)) \<Longrightarrow> json_ok f (manifest_payload a)"
  unfolding manifest_payload_def json_ok_pdict by (simp del: json_ok.simps(4))

lemma manifest_keys_payload: "set (map fst
     [(''schema_version'', PInt 1), (''run_id'', run_id_value (sa_run_id a)),
      (''storage_key'', PStr (sa_storage_key a)), (''name'', PStr (sa_name a)),
      (''kind'', PStr (sa_kind a)), (''content_type'', opt_str (sa_content_type a)),
      (''size'', PInt (sa_size a)), (''digest'', PStr (sa_digest a)),
      (''metadata'', PDict (sa_metadata a))]) = set manifest_keys"
  by (simp add: manifest_keys_def)

text \<open>The constructor on what was read back, whose metadata is in another order.\<close>

lemma StoredArtifact_shown:
  assumes "acceptable r" and "json_ok f (PDict (wr_metadata r))"
  shows "clone_artifact (shown_artifact (describe r)) = Inr (shown_artifact (describe r))"
proof -
  have "normalize_artifact_metadata (PDict (sorted_items (wr_metadata r))) = Inr (sorted_items (wr_metadata r))"
    using assms artifact_metadata_sorted [OF assms(2)] unfolding acceptable_def stable_request_def by blast
  then show ?thesis
    using assms unfolding acceptable_def stable_request_def wf_request_def
    by (simp add: clone_artifact_def StoredArtifact_def checked_storage_key_PStr shown_artifact_def
        normalize_artifact_run_id_value if_truthy_name_value if_truthy_kind_value
        normalize_content_type_value del: normalize_artifact_metadata.simps)
qed

lemma StoredArtifact_shown_fields:
  assumes "acceptable r" and "json_ok f (PDict (wr_metadata r))"
  shows "r_bind (normalize_artifact_run_id (run_id_value (wr_run_id r))) (\<lambda>run.
      r_bind (if_truthy normalize_artifact_name (PStr (wr_name r))) (\<lambda>name.
      r_bind (if_truthy normalize_artifact_kind (PStr (wr_kind r))) (\<lambda>kind.
      r_bind (normalize_artifact_content_type (opt_str (wr_content_type r))) (\<lambda>ct.
      r_bind (normalize_artifact_metadata (PDict (sorted_items (wr_metadata r)))) (\<lambda>metadata.
        StoredArtifact (run_id_value run) (PStr (wr_storage_key r)) (PStr name) (PStr kind) (opt_str ct)
          (PInt (int (length (wr_body r)))) (PStr (body_digest (wr_body r))) (PDict metadata))))))
    = Inr (shown_artifact (describe r))"
proof -
  have "normalize_artifact_metadata (PDict (sorted_items (wr_metadata r))) = Inr (sorted_items (wr_metadata r))"
    using assms artifact_metadata_sorted [OF assms(2)] unfolding acceptable_def stable_request_def by blast
  then show ?thesis
    using StoredArtifact_shown [OF assms] assms(1) unfolding acceptable_def stable_request_def wf_request_def
    by (simp add: clone_artifact_def shown_artifact_def normalize_artifact_run_id_value if_truthy_name_value
        if_truthy_kind_value normalize_content_type_value del: normalize_artifact_metadata.simps)
qed

lemma manifest_shown: "json_bytes (manifest_payload (shown_artifact a)) = json_bytes (manifest_payload a)"
  unfolding manifest_payload_def shown_artifact_def
  using json_bytes_metadata [of "[(''schema_version'', PInt 1), (''run_id'', run_id_value (sa_run_id a)),
      (''storage_key'', PStr (sa_storage_key a)), (''name'', PStr (sa_name a)),
      (''kind'', PStr (sa_kind a)), (''content_type'', opt_str (sa_content_type a)),
      (''size'', PInt (sa_size a)), (''digest'', PStr (sa_digest a))]" "''metadata''" "sa_metadata a"]
  by simp

lemma manifest_reads_back:
  assumes "fa_storable float_of r"
  shows "artifact_from_manifest_bytes float_of (manifest r) (sha256_hex (utf8 (wr_storage_key r))) k
    = Inr (shown_artifact (describe r))"
proof -
  let ?a = "describe r"
  let ?d = "[(''schema_version'', PInt 1), (''run_id'', run_id_value (sa_run_id ?a)),
      (''storage_key'', PStr (sa_storage_key ?a)), (''name'', PStr (sa_name ?a)),
      (''kind'', PStr (sa_kind ?a)), (''content_type'', opt_str (sa_content_type ?a)),
      (''size'', PInt (sa_size ?a)), (''digest'', PStr (sa_digest ?a)),
      (''metadata'', PDict (sa_metadata ?a))]"
  have ok: "acceptable r" "json_ok float_of (PDict (wr_metadata r))"
    using assms by (simp_all add: fa_storable_def)
  have j: "json_ok float_of (pdict ?d)" "json_ok float_of (manifest_payload (shown_artifact ?a))"
    using manifest_json_ok [of float_of ?a] manifest_json_ok [of float_of "shown_artifact ?a"] ok(2)
      json_ok_sorted [OF ok(2)] unfolding json_sorted_PDict manifest_payload_def [of ?a]
    by (simp_all add: shown_artifact_def del: json_ok.simps)
  obtain out where out: "decode_json_object float_of (manifest r) MAX_MANIFEST_BYTES = Some out"
    "\<forall>ks. has_keys ks out \<longleftrightarrow> set (map fst ?d) = set ks"
    "\<forall>k v. map_of ?d k = Some v \<longrightarrow> payload_item out k = json_sorted v"
    using decode_pdict [OF j(1)] assms unfolding fa_storable_def manifest_def manifest_payload_def by blast
  have items: "payload_item out ''schema_version'' = PInt 1"
    "payload_item out ''run_id'' = run_id_value (wr_run_id r)"
    "payload_item out ''storage_key'' = PStr (wr_storage_key r)" "payload_item out ''name'' = PStr (wr_name r)"
    "payload_item out ''kind'' = PStr (wr_kind r)" "payload_item out ''content_type'' = opt_str (wr_content_type r)"
    "payload_item out ''size'' = PInt (int (length (wr_body r)))"
    "payload_item out ''digest'' = PStr (body_digest (wr_body r))"
    "payload_item out ''metadata'' = PDict (sorted_items (wr_metadata r))"
    using out(3) by (simp_all del: json_sorted.simps(4) add: json_sorted_PDict)
  have keys: "has_keys manifest_keys out" using out(2) manifest_keys_payload [of ?a] by blast
  have enc: "encode_manifest (shown_artifact ?a) = Inr (manifest r)"
    unfolding encode_manifest_def encode_json_ok [OF j(2)] manifest_shown manifest_def ..
  have safe: "validate_storage_key (wr_storage_key r) = Inr (wr_storage_key r)"
    using ok(1) by (simp add: acceptable_def validate_storage_key_def)
  show ?thesis
    unfolding artifact_from_manifest_bytes_def Let_def out(1) option.case items
    by (simp add: keys atom_eq_def safe StoredArtifact_shown_fields [OF ok] enc
        del: normalize_artifact_metadata.simps)
qed

section \<open>The names the store uses\<close>

definition fa_dirs :: "path \<Rightarrow> path set" where
  "fa_dirs root = {q. q \<noteq> [] \<and> (\<exists>x. prefix q (fa_body_dir root (sha256_hex x)) \<or> prefix q (fa_record_dir root (sha256_hex x)))}"

definition fa_temps :: "path \<Rightarrow> path set" where
  "fa_temps root = {root @ q @ [temp_prefix @ x] | q x. True}"

definition body_path :: "path \<Rightarrow> string \<Rightarrow> path" where
  "body_path root body = fa_body_dir root (sha256_hex body) @ [sha256_hex body @ ''.blob'']"

definition fa_final :: "path \<Rightarrow> path \<Rightarrow> bool" where
  "fa_final root p \<longleftrightarrow> (\<exists>b. p = body_path root b) \<or> (\<exists>k. p = manifest_path_for_storage_key root k)"

lemma digest_suffix_body [simp]: "digest_suffix (body_digest b) = Inr (sha256_hex b)"
  by (simp add: digest_suffix_def) (simp add: body_digest_def)

lemma body_path_for_digest_body [simp]: "body_path_for_digest root (body_digest b) = Inr (body_path root b)"
  by (simp add: body_path_for_digest_def body_path_def)

lemma final_parts:
  assumes "fa_final root p"
  shows "length p = length root + 5 \<and> (\<exists>c cs. last p = c # cs \<and> is_hex c)"
  using assms sha256_hex_hd
  unfolding fa_final_def body_path_def manifest_path_for_storage_key_def fa_body_dir_def fa_record_dir_def Let_def
  by (elim disjE exE) (simp, metis append_Cons)+

lemma fa_dirs_length: "q \<in> fa_dirs root \<Longrightarrow> length q \<le> length root + 4"
  by (auto simp: fa_dirs_def fa_body_dir_def fa_record_dir_def dest!: prefix_length_le)

lemma final_fresh:
  assumes "fa_final root p"
  shows "p \<notin> fa_temps root" "p \<notin> fa_dirs root"
  using final_parts [OF assms] fa_dirs_length [of p root]
  by (auto simp: fa_temps_def temp_prefix_def)

lemma dirs_not_temps: "fa_dirs root \<inter> fa_temps root = {}"
proof -
  have hex: "take 2 (sha256_hex b) \<noteq> temp_prefix @ x" "take 2 (drop 2 (sha256_hex b)) \<noteq> temp_prefix @ x" for b x
  proof -
    have n: "CHR ''.'' \<notin> set (sha256_hex b)" using sha256_hex_digits dot_not_hex by blast
    have "CHR ''.'' \<in> set (temp_prefix @ x)" by (simp add: temp_prefix_def)
    then show "take 2 (sha256_hex b) \<noteq> temp_prefix @ x" "take 2 (drop 2 (sha256_hex b)) \<noteq> temp_prefix @ x"
      using n in_set_takeD [of "CHR ''.''"] in_set_dropD [of "CHR ''.''"] by metis+
  qed
  have parts: "x \<in> set [''bodies'', ''records'', ''sha256'', take 2 (sha256_hex b), take 2 (drop 2 (sha256_hex b))]"
    if p: "prefix (root @ q @ [x]) (fa_body_dir root (sha256_hex b)) \<or> prefix (root @ q @ [x]) (fa_record_dir root (sha256_hex b))"
    for x q b
    using p
  proof
    assume "prefix (root @ q @ [x]) (fa_body_dir root (sha256_hex b))"
    from in_prefix [OF this [unfolded fa_body_dir_def]] show ?thesis by auto
  next
    assume "prefix (root @ q @ [x]) (fa_record_dir root (sha256_hex b))"
    from in_prefix [OF this [unfolded fa_record_dir_def]] show ?thesis by auto
  qed
  show ?thesis
  proof (rule ccontr)
    assume "fa_dirs root \<inter> fa_temps root \<noteq> {}"
    then obtain q x b where
      "prefix (root @ q @ [temp_prefix @ x]) (fa_body_dir root (sha256_hex b)) \<or>
        prefix (root @ q @ [temp_prefix @ x]) (fa_record_dir root (sha256_hex b))"
      unfolding fa_dirs_def fa_temps_def by auto
    from parts [OF this] show False using hex(1,2) [of b x] by (auto simp: temp_prefix_def)
  qed
qed

lemma temp_in_temps: "fa_final root p \<Longrightarrow> temp_path (butlast p) suff d \<in> fa_temps root"
  unfolding fa_final_def body_path_def manifest_path_for_storage_key_def Let_def temp_path_def fa_temps_def
  by (auto simp: fa_body_dir_def fa_record_dir_def butlast_append)

lemma final_dir: "fa_final root p \<Longrightarrow> \<exists>x parts. butlast p = root @ parts
    \<and> (butlast p = fa_body_dir root (sha256_hex x) \<or> butlast p = fa_record_dir root (sha256_hex x))"
  unfolding fa_final_def body_path_def manifest_path_for_storage_key_def Let_def
  by (auto simp: fa_body_dir_def fa_record_dir_def butlast_append)

lemma makes_dirs_final:
  assumes "fa_final root p"
  shows "makes_dirs ft (fa_dirs root) (fa_ensure_chain root (drop (length root) (butlast p)))"
proof -
  obtain x parts where x: "butlast p = root @ parts"
    "butlast p = fa_body_dir root (sha256_hex x) \<or> butlast p = fa_record_dir root (sha256_hex x)"
    using final_dir [OF assms] by blast
  have "makes_dirs ft (fa_dirs root) (make_directory fa_unavailable (root @ take n parts))"
    if "n \<in> set [1..<Suc (length parts)]" for n
  proof (rule makes_dirs_directory)
    show "root @ take n parts \<noteq> []" using that by auto
    fix q assume q: "prefix q (root @ take n parts)" "q \<noteq> []"
    have "prefix (root @ take n parts) (butlast p)" unfolding x(1) by (simp add: take_is_prefix)
    with q have "prefix q (butlast p)" using prefix_order.trans by blast
    then show "q \<in> fa_dirs root" using x(2) q(2) unfolding fa_dirs_def by auto
  qed
  then show ?thesis unfolding fa_ensure_chain_def x(1) by (intro makes_dirs_each) simp
qed

lemma wp_fa_publish:
  assumes "fa_final root p" and "dirs_clear (fa_dirs root) d"
    and "\<And>d'. quiet (fa_dirs root) (fa_temps root) d d' \<Longrightarrow> look d p \<noteq> None \<Longrightarrow> P (Returned False) d'"
    and "\<And>d'. published (fa_dirs root) (fa_temps root) p b d d' \<Longrightarrow> look d p = None \<Longrightarrow> P (Returned True) d'"
    and "\<And>d' x. ft \<Longrightarrow> quiet (fa_dirs root) (fa_temps root) d d' \<Longrightarrow> P (Raised x) d' \<and> P Dead d'"
    and "\<And>d'. ft \<Longrightarrow> published (fa_dirs root) (fa_temps root) p b d d' \<Longrightarrow> look d p = None \<Longrightarrow> P Dead d'"
  shows "wp ft (fa_publish root p b) P d"
  unfolding fa_publish_def
proof (intro wp_bind wp_mono [OF makes_dirsD [OF makes_dirs_final [OF assms(1)] assms(2)]], elim conjE)
  fix out d1 assume q: "dirs_added (fa_dirs root) d d1" and o: "ft \<or> out = Returned ()"
  note q1 = dirs_added_quiet [OF q, of "fa_temps root"]
  have l: "look d1 p = look d p" using quiet_look [OF q1] final_fresh [OF assms(1)] by simp
  show "case out of
      Returned x \<Rightarrow> wp ft (io_bind (io_read (\<lambda>d. Inr (temp_path (butlast p) [] d))) (\<lambda>temp.
        io_finally (io_bind (write_temp fa_write_failed (butlast p) [] b) (\<lambda>source. link_file fa_unsupported source p))
          (cleanup_path temp))) P d1
    | Raised e \<Rightarrow> P (Raised e) d1 | Dead \<Rightarrow> P Dead d1"
  proof (cases out)
    case (Returned u)
    have "wp ft (io_bind (io_read (\<lambda>d. Inr (temp_path (butlast p) [] d))) (\<lambda>temp.
        io_finally (io_bind (write_temp fa_write_failed (butlast p) [] b) (\<lambda>source. link_file fa_unsupported source p))
          (cleanup_path temp))) P d1"
      using quiet_trans [OF q1] quiet_published [OF q1] assms(3-6) final_fresh [OF assms(1)] l
      by (intro wp_publish [where D = "fa_dirs root" and T = "fa_temps root"] temp_in_temps [OF assms(1)]) auto
    then show ?thesis using Returned by simp
  qed (use o assms(5) q1 in auto)
qed

section \<open>The state of a store\<close>

text \<open>
  \<open>U\<close> holds the bodies and the encoded keys in use; SHA-256 is assumed to tell its members apart. The
  bodies may be there without a manifest; a manifest is there only with its body.
\<close>

definition fa_ok :: "string set \<Rightarrow> (string \<Rightarrow> pyfloat) \<Rightarrow> write_request \<Rightarrow> bool" where
  "fa_ok U float_of r \<longleftrightarrow> fa_storable float_of r \<and> wr_body r \<in> U \<and> utf8 (wr_storage_key r) \<in> U"

definition fa_key_ok :: "string set \<Rightarrow> string \<Rightarrow> bool" where
  "fa_key_ok U k \<longleftrightarrow> is_safe_storage_key k \<and> utf8 k \<in> U"

definition fa_inv :: "string set \<Rightarrow> path \<Rightarrow> (string \<Rightarrow> pyfloat) \<Rightarrow> disk \<Rightarrow> bool" where
  "fa_inv U root float_of d \<longleftrightarrow> dirs_clear (fa_dirs root) d
     \<and> (\<forall>b \<in> U. look d (body_path root b) = None \<or> holds d (body_path root b) b)
     \<and> (\<forall>k. utf8 k \<in> U \<longrightarrow> look d (manifest_path_for_storage_key root k) = None
         \<or> (\<exists>r. fa_ok U float_of r \<and> wr_storage_key r = k
              \<and> holds d (manifest_path_for_storage_key root k) (manifest r)
              \<and> holds d (body_path root (wr_body r)) (wr_body r)))"

lemma path_eqs:
  assumes "collision_free U"
  shows "a \<in> U \<Longrightarrow> b \<in> U \<Longrightarrow> body_path root a = body_path root b \<longleftrightarrow> a = b"
    and "utf8 k \<in> U \<Longrightarrow> utf8 l \<in> U \<Longrightarrow>
      manifest_path_for_storage_key root k = manifest_path_for_storage_key root l \<longleftrightarrow> k = l"
    and "manifest_path_for_storage_key root k \<noteq> body_path root a"
    and "body_path root a \<noteq> manifest_path_for_storage_key root k"
  using assms utf8_inj
  by (auto simp: collision_free_def inj_on_def body_path_def manifest_path_for_storage_key_def Let_def
      fa_body_dir_def fa_record_dir_def)

lemma fa_final_simps [simp]:
  "fa_final root (body_path root b)" "fa_final root (manifest_path_for_storage_key root k)"
  by (auto simp: fa_final_def)

lemma fa_ok_simps:
  assumes "fa_ok U f r"
  shows "acceptable r" "is_safe_storage_key (wr_storage_key r)" "json_ok f (PDict (wr_metadata r))"
    "length (manifest r) \<le> MAX_MANIFEST_BYTES" "wr_body r \<in> U" "utf8 (wr_storage_key r) \<in> U" "fa_storable f r"
  using assms by (simp_all add: fa_ok_def fa_storable_def acceptable_def)

lemma fa_read_file_holds:
  "holds d p b \<Longrightarrow> (case m of None \<Rightarrow> True | Some n \<Rightarrow> length b \<le> n) \<Longrightarrow> fa_read_file p w k m ok d = Inr (Some b)"
  by (cases m) (auto simp: holds_def fa_read_file_def)

lemma load_existing_none:
  "look d (manifest_path_for_storage_key root k) = None \<Longrightarrow> load_existing_artifact root f k d = Inr None"
  by (simp add: load_existing_artifact_def fa_read_file_def)

lemma load_existing_some:
  assumes "fa_ok U f r" and "holds d (manifest_path_for_storage_key root (wr_storage_key r)) (manifest r)"
    and "holds d (body_path root (wr_body r)) (wr_body r)"
  shows "load_existing_artifact root f (wr_storage_key r) d = Inr (Some (shown r))"
proof -
  have a: "sa_digest (shown_artifact (describe r)) = body_digest (wr_body r)"
    "sa_size (shown_artifact (describe r)) = int (length (wr_body r))"
    by (simp_all add: shown_artifact_def)
  show ?thesis
    using manifest_reads_back [OF fa_ok_simps(7) [OF assms(1)]] fa_ok_simps(4) [OF assms(1)]
      fa_read_file_holds [OF assms(2)] fa_read_file_holds [OF assms(3)]
    by (simp add: load_existing_artifact_def read_body_for_digest_def a shown_def)
qed

lemma clone_reading_shown: "fa_ok U f r \<Longrightarrow> clone_artifact_reading (shown r) = Inr (shown r)"
  using StoredArtifact_shown [of r f] fa_ok_simps [of U f r]
  by (simp add: clone_artifact_reading_def shown_def)

lemma fa_get_cases:
  assumes "fa_inv U root f d" and "utf8 k \<in> U" and "is_safe_storage_key k"
  shows "(look d (manifest_path_for_storage_key root k) = None \<and> load_existing_artifact root f k d = Inr None
      \<and> fa_get root f (PStr k) d = Inr None)
    \<or> (\<exists>r. fa_ok U f r \<and> wr_storage_key r = k \<and> holds d (manifest_path_for_storage_key root k) (manifest r)
        \<and> holds d (body_path root (wr_body r)) (wr_body r)
        \<and> load_existing_artifact root f k d = Inr (Some (shown r))
        \<and> fa_get root f (PStr k) d = Inr (Some (shown r)))"
proof -
  consider "look d (manifest_path_for_storage_key root k) = None"
    | r where "fa_ok U f r" "wr_storage_key r = k" "holds d (manifest_path_for_storage_key root k) (manifest r)"
      "holds d (body_path root (wr_body r)) (wr_body r)"
    using assms(1,2) unfolding fa_inv_def by metis
  then show ?thesis
  proof cases
    case 1
    then show ?thesis using load_existing_none [OF 1, of f] assms(3) by (simp add: fa_get_def checked_storage_key_PStr)
  next
    case 2
    then have "load_existing_artifact root f k d = Inr (Some (shown r))"
      using load_existing_some [OF 2(1)] by simp
    then show ?thesis
      using 2 assms(3) clone_reading_shown [OF 2(1)] by (auto simp: fa_get_def checked_storage_key_PStr)
  qed
qed

lemma fa_get_same:
  assumes "fa_inv U root f d" and "utf8 k \<in> U" and "is_safe_storage_key k"
    and "look d' (manifest_path_for_storage_key root k) = look d (manifest_path_for_storage_key root k)"
    and "\<And>b. b \<in> U \<Longrightarrow> holds d (body_path root b) b \<Longrightarrow> holds d' (body_path root b) b"
  shows "fa_get root f (PStr k) d' = fa_get root f (PStr k) d"
  using fa_get_cases [OF assms(1-3)]
proof
  assume "look d (manifest_path_for_storage_key root k) = None \<and> load_existing_artifact root f k d = Inr None
      \<and> fa_get root f (PStr k) d = Inr None"
  then show ?thesis
    using load_existing_none [of d' root k f] assms(3,4) by (simp add: fa_get_def checked_storage_key_PStr)
next
  assume "\<exists>r. fa_ok U f r \<and> wr_storage_key r = k \<and> holds d (manifest_path_for_storage_key root k) (manifest r)
        \<and> holds d (body_path root (wr_body r)) (wr_body r)
        \<and> load_existing_artifact root f k d = Inr (Some (shown r))
        \<and> fa_get root f (PStr k) d = Inr (Some (shown r))"
  then obtain r where r: "fa_ok U f r" "wr_storage_key r = k"
    "holds d (manifest_path_for_storage_key root k) (manifest r)" "holds d (body_path root (wr_body r)) (wr_body r)"
    "fa_get root f (PStr k) d = Inr (Some (shown r))" by blast
  have "holds d' (manifest_path_for_storage_key root k) (manifest r)" using r(3) assms(4) by (simp add: holds_def)
  then have "load_existing_artifact root f k d' = Inr (Some (shown r))"
    using load_existing_some [OF r(1), of d' root] r(2) assms(5) [OF fa_ok_simps(5) [OF r(1)] r(4)] by simp
  then show ?thesis
    using r(5) assms(3) clone_reading_shown [OF r(1)] by (simp add: fa_get_def checked_storage_key_PStr)
qed

text \<open>Nothing changes but a body and what is no file of the store.\<close>

lemma fa_inv_body:
  assumes "fa_inv U root f d" and "collision_free U" and "b \<in> U"
    and "quiet (fa_dirs root) (insert (body_path root b) (fa_temps root)) d d'"
    and "look d' (body_path root b) = look d (body_path root b) \<or> holds d' (body_path root b) b"
  shows "fa_inv U root f d'"
    and "utf8 k \<in> U \<Longrightarrow> is_safe_storage_key k \<Longrightarrow> fa_get root f (PStr k) d' = fa_get root f (PStr k) d"
    and "look d' (manifest_path_for_storage_key root k) = look d (manifest_path_for_storage_key root k)"
proof -
  have l: "look d' p = look d p" if "fa_final root p" "p \<noteq> body_path root b" for p
    using quiet_look [OF assms(4)] final_fresh [OF that(1)] that(2) by simp
  have m: "look d' (manifest_path_for_storage_key root k) = look d (manifest_path_for_storage_key root k)" for k
    by (rule l) (simp_all add: path_eqs [OF assms(2)])
  then show "look d' (manifest_path_for_storage_key root k) = look d (manifest_path_for_storage_key root k)" .
  have bs: "look d' (body_path root c) = look d (body_path root c) \<or> holds d' (body_path root c) c" if "c \<in> U" for c
    using l [of "body_path root c"] assms(3,5) that path_eqs(1) [OF assms(2)] by (cases "c = b") auto
  have grow: "holds d' (body_path root c) c" if "c \<in> U" "holds d (body_path root c) c" for c
    using bs [OF that(1)] that(2) by (auto simp: holds_def)
  have "dirs_clear (fa_dirs root) d'"
    by (rule quiet_clear [OF assms(4)])
      (use dirs_not_temps final_fresh(2) [of root "body_path root b"] assms(1) in \<open>auto simp: fa_inv_def\<close>)
  then show "fa_inv U root f d'"
    unfolding fa_inv_def
  proof (intro conjI ballI allI impI)
    fix c assume "c \<in> U"
    then show "look d' (body_path root c) = None \<or> holds d' (body_path root c) c"
      using bs grow assms(1) unfolding fa_inv_def by fastforce
  next
    fix k assume "utf8 k \<in> U"
    then consider "look d (manifest_path_for_storage_key root k) = None"
      | r where "fa_ok U f r" "wr_storage_key r = k" "holds d (manifest_path_for_storage_key root k) (manifest r)"
        "holds d (body_path root (wr_body r)) (wr_body r)"
      using assms(1) unfolding fa_inv_def by metis
    then show "look d' (manifest_path_for_storage_key root k) = None \<or>
        (\<exists>r. fa_ok U f r \<and> wr_storage_key r = k \<and> holds d' (manifest_path_for_storage_key root k) (manifest r)
          \<and> holds d' (body_path root (wr_body r)) (wr_body r))"
      by cases (use m grow fa_ok_simps(5) in \<open>auto simp: holds_def\<close>)
  qed simp
  show "utf8 k \<in> U \<Longrightarrow> is_safe_storage_key k \<Longrightarrow> fa_get root f (PStr k) d' = fa_get root f (PStr k) d"
    by (rule fa_get_same [OF assms(1) _ _ m grow])
qed

text \<open>The manifest of a request is published, its body being there.\<close>

lemma fa_inv_manifest:
  assumes "fa_inv U root f d" and "collision_free U" and "fa_ok U f r"
    and "published (fa_dirs root) (fa_temps root) (manifest_path_for_storage_key root (wr_storage_key r)) (manifest r) d d'"
    and "holds d (body_path root (wr_body r)) (wr_body r)"
  shows "fa_inv U root f d'"
    and "utf8 k \<in> U \<Longrightarrow> is_safe_storage_key k \<Longrightarrow> fa_get root f (PStr k) d' =
      (if k = wr_storage_key r then Inr (Some (shown r)) else fa_get root f (PStr k) d)"
proof -
  let ?p = "manifest_path_for_storage_key root (wr_storage_key r)"
  have q: "quiet (fa_dirs root) (insert ?p (fa_temps root)) d d'" and h: "holds d' ?p (manifest r)"
    using assms(4) by (auto simp: published_def holds_def)
  have l: "look d' p = look d p" if "fa_final root p" "p \<noteq> ?p" for p
    using quiet_look [OF q] final_fresh [OF that(1)] that(2) by simp
  have b: "look d' (body_path root c) = look d (body_path root c)" for c
    by (rule l) (simp_all add: path_eqs [OF assms(2)])
  then have hb: "holds d' (body_path root c) x = holds d (body_path root c) x" for c x by (simp add: holds_def)
  have m: "look d' (manifest_path_for_storage_key root k) = look d (manifest_path_for_storage_key root k)"
    if "utf8 k \<in> U" "k \<noteq> wr_storage_key r" for k
    by (rule l) (use that path_eqs(2) [OF assms(2)] fa_ok_simps(6) [OF assms(3)] in auto)
  have "dirs_clear (fa_dirs root) d'"
    by (rule quiet_clear [OF q])
      (use dirs_not_temps final_fresh(2) [of root ?p] assms(1) in \<open>auto simp: fa_inv_def\<close>)
  then show inv: "fa_inv U root f d'"
    unfolding fa_inv_def
  proof (intro conjI ballI allI impI)
    fix c assume "c \<in> U"
    then show "look d' (body_path root c) = None \<or> holds d' (body_path root c) c"
      using assms(1) unfolding fa_inv_def by (simp add: b hb)
  next
    fix k assume k: "utf8 k \<in> U"
    show "look d' (manifest_path_for_storage_key root k) = None \<or>
        (\<exists>r. fa_ok U f r \<and> wr_storage_key r = k \<and> holds d' (manifest_path_for_storage_key root k) (manifest r)
          \<and> holds d' (body_path root (wr_body r)) (wr_body r))"
    proof (cases "k = wr_storage_key r")
      case True
      then show ?thesis using assms(3,5) h hb by auto
    next
      case False
      have hm: "holds d' (manifest_path_for_storage_key root k) x = holds d (manifest_path_for_storage_key root k) x"
        for x unfolding holds_def m [OF k False] ..
      show ?thesis using assms(1) k m [OF k False] hm hb unfolding fa_inv_def by metis
    qed
  qed
  show "fa_get root f (PStr k) d' = (if k = wr_storage_key r then Inr (Some (shown r)) else fa_get root f (PStr k) d)"
    if k: "utf8 k \<in> U" "is_safe_storage_key k"
  proof (cases "k = wr_storage_key r")
    case True
    have "load_existing_artifact root f k d' = Inr (Some (shown r))"
      using load_existing_some [OF assms(3)] h assms(5) hb True by simp
    then show ?thesis
      using True k(2) clone_reading_shown [OF assms(3)] by (simp add: fa_get_def checked_storage_key_PStr)
  next
    case False
    then show ?thesis
      using fa_get_same [OF assms(1) k m [OF k(1) False]] hb by simp
  qed
qed

section \<open>Writing\<close>

definition body_step :: "path \<Rightarrow> string \<Rightarrow> disk \<Rightarrow> disk \<Rightarrow> bool" where
  "body_step root b d d' \<longleftrightarrow> quiet (fa_dirs root) (insert (body_path root b) (fa_temps root)) d d'
     \<and> (look d' (body_path root b) = look d (body_path root b) \<or> holds d' (body_path root b) b)"

lemma quiet_body_step: "quiet (fa_dirs root) (fa_temps root) d d' \<Longrightarrow> body_step root b d d'"
  unfolding body_step_def
  using quiet_mono [OF _ subset_insertI] quiet_look final_fresh [OF fa_final_simps(1)] by blast

lemma published_body_step:
  "published (fa_dirs root) (fa_temps root) (body_path root b) b d d' \<Longrightarrow>
     body_step root b d d' \<and> holds d' (body_path root b) b"
  by (auto simp: published_def body_step_def holds_def)

lemma body_step_trans: "body_step root b d d' \<Longrightarrow> body_step root b d' d'' \<Longrightarrow> body_step root b d d''"
  unfolding body_step_def holds_def by (auto intro: quiet_trans)

lemma body_step_quiet: "body_step root b d d' \<Longrightarrow> quiet (fa_dirs root) (fa_temps root) d' d'' \<Longrightarrow> body_step root b d d''"
  using body_step_trans quiet_body_step by blast

lemma fa_inv_clear: "fa_inv U root f d \<Longrightarrow> dirs_clear (fa_dirs root) d"
  by (simp add: fa_inv_def)

lemma wp_fa_publish_body:
  assumes "fa_inv U root f d" and "sa_digest a = body_digest b" and "b \<in> U"
    and "\<And>d'. body_step root b d d' \<Longrightarrow> holds d' (body_path root b) b \<Longrightarrow> P (Returned ()) d'"
    and "\<And>d' x. ft \<Longrightarrow> body_step root b d d' \<Longrightarrow> P (Raised x) d' \<and> P Dead d'"
  shows "wp ft (fa_publish_body root a b) P d"
proof -
  let ?p = "body_path root b"
  have p: "fa_final root ?p" by simp
  have here: "look d ?p = None \<or> holds d ?p b" using assms(1,3) by (simp add: fa_inv_def)
  let ?rest = "io_bind (fa_publish root ?p b) (\<lambda>created. io_when (\<not> created)
      (io_read (\<lambda>d. r_bind (fa_read_file ?p ''body'' (sa_storage_key a) (Some (length b + 1)) False d)
        (\<lambda>found. r_guard (found \<noteq> Some b) (fa_body_failure (sa_storage_key a))))))"
  have "wp ft ?rest P d1" if q: "dirs_added (fa_dirs root) d d1" for d1
  proof -
    note q1 = dirs_added_quiet [OF q, of "fa_temps root"]
    have l: "look d1 ?p = look d ?p" using quiet_look [OF q1] final_fresh [OF p] by simp
    show ?thesis
    proof (intro wp_bind wp_fa_publish [OF p dirs_added_clear [OF q fa_inv_clear [OF assms(1)]]], goal_cases)
      case (1 d2)
      then have "holds d1 ?p b" using here l by (auto simp: holds_def)
      then have h: "holds d2 ?p b"
        using quiet_look [OF 1(1)] final_fresh [OF p] by (simp add: holds_def)
      have s: "body_step root b d d2" by (rule quiet_body_step [OF quiet_trans [OF q1 1(1)]])
      show ?case
        using assms(4) [OF s h] fa_read_file_holds [OF h, of "Some (length b + 1)"]
        by (auto intro!: wp_when wp_read)
    next
      case (2 d2)
      then show ?case
        using assms(4) published_body_step [OF quiet_published [OF q1]] by (auto intro!: wp_when)
    next
      case (3 d2)
      then show ?case using assms(5) quiet_body_step [OF quiet_trans [OF q1]] by auto
    next
      case (4 d2)
      then show ?case using assms(5) published_body_step [OF quiet_published [OF q1]] by auto
    qed
  qed
  then show ?thesis
    unfolding fa_publish_body_def
    using assms(2,5) quiet_body_step [OF dirs_added_quiet]
    by (intro wp_bind wp_read) (auto intro!: wp_bind wp_mono [OF makes_dirsD [OF makes_dirs_final [OF p] fa_inv_clear [OF assms(1)]]]
        split: outcome.split)
qed

lemma wp_fa_publish_manifest:
  assumes "fa_inv U root f d" and "fa_ok U f r"
    and "look d (manifest_path_for_storage_key root (wr_storage_key r)) = None"
    and "\<And>d'. published (fa_dirs root) (fa_temps root) (manifest_path_for_storage_key root (wr_storage_key r))
        (manifest r) d d' \<Longrightarrow> P (Returned (describe r)) d'"
    and "\<And>d' x. ft \<Longrightarrow> quiet (fa_dirs root) (fa_temps root) d d' \<Longrightarrow> P (Raised x) d' \<and> P Dead d'"
    and "\<And>d'. ft \<Longrightarrow> published (fa_dirs root) (fa_temps root) (manifest_path_for_storage_key root (wr_storage_key r))
        (manifest r) d d' \<Longrightarrow> P Dead d'"
  shows "wp ft (fa_publish_manifest root f (describe r)) P d"
proof -
  let ?p = "manifest_path_for_storage_key root (wr_storage_key r)"
  have p: "fa_final root ?p" by simp
  have enc: "encode_manifest (describe r) = Inr (manifest r)"
    using encode_json_ok [OF manifest_json_ok, of f "describe r"] fa_ok_simps(3) [OF assms(2)]
    by (simp add: encode_manifest_def manifest_def)
  have clone: "clone_artifact (describe r) = Inr (describe r)"
    using clone_describe fa_ok_simps(1) [OF assms(2)] by (simp add: acceptable_def)
  let ?rest = "io_bind (fa_publish root ?p (manifest r)) (\<lambda>created. io_read (\<lambda>d.
      if created then clone_artifact (describe r)
      else r_bind (load_existing_artifact root f (wr_storage_key r) d) (\<lambda>found. case found of
          None \<Rightarrow> Inl (fa_integrity_error
            ''Filesystem artifact store detected a missing manifest after publication.''
            (wr_storage_key r) ''ARTIFACT_STORE_MISSING_MANIFEST'')
        | Some x \<Rightarrow> if artifact_eq (ar_artifact x) (describe r) then clone_artifact (ar_artifact x)
            else Inl (fa_conflict (wr_storage_key r)))))"
  have "wp ft ?rest P d1" if q: "dirs_added (fa_dirs root) d d1" for d1
  proof -
    note q1 = dirs_added_quiet [OF q, of "fa_temps root"]
    have l: "look d1 ?p = None" using quiet_look [OF q1] final_fresh [OF p] assms(3) by simp
    show ?thesis
      using l assms(4-6) quiet_trans [OF q1] quiet_published [OF q1] clone
      by (intro wp_bind wp_fa_publish [OF p dirs_added_clear [OF q fa_inv_clear [OF assms(1)]]])
        (auto intro!: wp_read)
  qed
  then show ?thesis
    unfolding fa_publish_manifest_def describe_simps
    using assms(5) dirs_added_quiet enc
    by (intro wp_bind wp_read) (auto intro!: wp_bind wp_read
        wp_mono [OF makes_dirsD [OF makes_dirs_final [OF p] fa_inv_clear [OF assms(1)]]] split: outcome.split)
qed

lemma fa_artifact_acceptable: "acceptable r \<Longrightarrow> fa_artifact r = Inr (describe r)"
  unfolding acceptable_def stable_request_def wf_request_def
  by (simp add: fa_artifact_def StoredArtifact_def describe_def checked_storage_key_PStr
      normalize_artifact_run_id_value if_truthy_name_value if_truthy_kind_value
      normalize_content_type_value del: normalize_artifact_metadata.simps)

lemma shown_same_reading:
  assumes "fa_ok U f r"
  shows "same_reading (shown r) (reading r)"
proof -
  have "wf_val (PDict (wr_metadata r))" by (rule json_ok_wf [OF fa_ok_simps(3) [OF assms]])
  from val_eq_sorted [OF this] show ?thesis
    unfolding json_sorted_PDict
    by (simp add: same_reading_def shown_def reading_def artifact_eq_def shown_artifact_def)
qed

lemma same_digest:
  "collision_free U \<Longrightarrow> a \<in> U \<Longrightarrow> b \<in> U \<Longrightarrow> body_digest a = body_digest b \<longleftrightarrow> a = b"
  by (auto simp: collision_free_def inj_on_def body_digest_def)

lemma wp_fa_put_taken:
  assumes "collision_free U" and "fa_ok U f r" and "fa_ok U f q"
    and "load_existing_artifact root f (wr_storage_key r) d = Inr (Some (shown q))"
    and "P (if same_reading (shown q) (reading r) then Returned (ar_artifact (shown q))
        else Raised (fa_conflict (wr_storage_key r))) d"
  shows "wp ft (fa_put root f r) P d"
proof -
  have clone: "clone_artifact (ar_artifact (shown q)) = Inr (ar_artifact (shown q))"
    using StoredArtifact_shown [of q f] fa_ok_simps [OF assms(3)] by (simp add: shown_def)
  have "artifact_eq (ar_artifact (shown q)) (describe r) \<Longrightarrow> ar_body (shown q) = wr_body r"
    using same_digest [OF assms(1) fa_ok_simps(5) [OF assms(3)] fa_ok_simps(5) [OF assms(2)]]
    by (auto dest!: artifact_eq_fields simp: shown_def shown_artifact_def)
  then show ?thesis
    using assms(5) fa_artifact_acceptable [OF fa_ok_simps(1) [OF assms(2)]] clone
    unfolding fa_put_def
    by (intro wp_bind wp_read) (auto simp: assms(4) same_reading_def reading_def intro!: wp_bind wp_read)
qed

text \<open>
  \<open>stored root r d d'\<close>: of \<open>d\<close>, the body and the manifest of \<open>r\<close> have been added, the body before.
\<close>

definition stored :: "path \<Rightarrow> write_request \<Rightarrow> disk \<Rightarrow> disk \<Rightarrow> bool" where
  "stored root r d d' \<longleftrightarrow> (\<exists>m. body_step root (wr_body r) d m \<and> holds m (body_path root (wr_body r)) (wr_body r)
     \<and> published (fa_dirs root) (fa_temps root) (manifest_path_for_storage_key root (wr_storage_key r)) (manifest r) m d')"

lemma wp_fa_put_fresh:
  assumes "fa_inv U root f d" and "collision_free U" and "fa_ok U f r"
    and "look d (manifest_path_for_storage_key root (wr_storage_key r)) = None"
    and "\<And>d'. stored root r d d' \<Longrightarrow> P (Returned (describe r)) d'"
    and "\<And>d' x. ft \<Longrightarrow> body_step root (wr_body r) d d' \<Longrightarrow> P (Raised x) d' \<and> P Dead d'"
    and "\<And>d'. ft \<Longrightarrow> stored root r d d' \<Longrightarrow> P Dead d'"
  shows "wp ft (fa_put root f r) P d"
proof -
  have b: "wr_body r \<in> U" by (rule fa_ok_simps(5) [OF assms(3)])
  have "wp ft (fa_publish_manifest root f (describe r)) P m"
    if m: "body_step root (wr_body r) d m" "holds m (body_path root (wr_body r)) (wr_body r)" for m
  proof -
    note step = m(1) [unfolded body_step_def]
    have "fa_inv U root f m"
      and "look m (manifest_path_for_storage_key root (wr_storage_key r)) = None"
      using fa_inv_body [OF assms(1,2) b] step assms(4) by metis+
    then show ?thesis
      using assms(3,5-7) m body_step_quiet [OF m(1)] unfolding stored_def
      by (intro wp_fa_publish_manifest [where U = U]) blast+
  qed
  then show ?thesis
    using fa_artifact_acceptable [OF fa_ok_simps(1) [OF assms(3)]] load_existing_none [OF assms(4), of f] assms(6)
    unfolding fa_put_def
    by (intro wp_bind wp_read) (auto intro!: wp_bind wp_read wp_fa_publish_body [OF assms(1) _ b])
qed

lemma fa_inv_stored:
  assumes "fa_inv U root f d" and "collision_free U" and "fa_ok U f r" and "stored root r d d'"
  shows "fa_inv U root f d'"
    and "utf8 k \<in> U \<Longrightarrow> is_safe_storage_key k \<Longrightarrow> fa_get root f (PStr k) d' =
      (if k = wr_storage_key r then Inr (Some (shown r)) else fa_get root f (PStr k) d)"
proof -
  obtain m where m: "body_step root (wr_body r) d m" "holds m (body_path root (wr_body r)) (wr_body r)"
    "published (fa_dirs root) (fa_temps root) (manifest_path_for_storage_key root (wr_storage_key r)) (manifest r) m d'"
    using assms(4) by (auto simp: stored_def)
  note b = fa_inv_body [OF assms(1,2) fa_ok_simps(5) [OF assms(3)], of m]
  have inv: "fa_inv U root f m" using b(1) m(1) by (simp add: body_step_def)
  show "fa_inv U root f d'" by (rule fa_inv_manifest [OF inv assms(2,3) m(3,2)])
  show "fa_get root f (PStr k) d' = (if k = wr_storage_key r then Inr (Some (shown r)) else fa_get root f (PStr k) d)"
    if "utf8 k \<in> U" "is_safe_storage_key k"
    using fa_inv_manifest(2) [OF inv assms(2,3) m(3,2) that] b(2) [OF _ _ that] m(1) by (simp add: body_step_def)
qed

text \<open>Whatever becomes of the calls of a write.\<close>

definition only_adds :: "string set \<Rightarrow> path \<Rightarrow> (string \<Rightarrow> pyfloat) \<Rightarrow> write_request \<Rightarrow> disk \<Rightarrow> disk \<Rightarrow> bool" where
  "only_adds U root f r d d' \<longleftrightarrow> fa_inv U root f d'
     \<and> ((\<forall>k. fa_key_ok U k \<longrightarrow> fa_get root f (PStr k) d' = fa_get root f (PStr k) d)
       \<or> fa_get root f (PStr (wr_storage_key r)) d = Inr None
         \<and> (\<forall>k. fa_key_ok U k \<longrightarrow> fa_get root f (PStr k) d' =
             (if k = wr_storage_key r then Inr (Some (shown r)) else fa_get root f (PStr k) d)))"

lemma fa_put_any:
  assumes "fa_inv U root f d" and "collision_free U" and "fa_ok U f r"
  shows "wp True (fa_put root f r) (\<lambda>out d'. only_adds U root f r d d' \<and>
    (case out of
       Returned a \<Rightarrow> \<exists>x. fa_get root f (PStr (wr_storage_key r)) d' = Inr (Some x)
         \<and> same_reading x (reading r) \<and> artifact_eq (ar_artifact x) a
     | _ \<Rightarrow> True)) d"
  using fa_get_cases [OF assms(1) fa_ok_simps(6,2) [OF assms(3)]]
proof (elim disjE exE conjE)
  assume n: "look d (manifest_path_for_storage_key root (wr_storage_key r)) = None"
    and g: "fa_get root f (PStr (wr_storage_key r)) d = Inr None"
  note b = fa_inv_body [OF assms(1,2) fa_ok_simps(5) [OF assms(3)]]
  have same: "only_adds U root f r d d'" if "body_step root (wr_body r) d d'" for d'
    using b(1,2) that unfolding only_adds_def fa_key_ok_def body_step_def by blast
  have new: "only_adds U root f r d d'" if "stored root r d d'" for d'
    using fa_inv_stored [OF assms that] g unfolding only_adds_def fa_key_ok_def by blast
  have there: "\<exists>x. fa_get root f (PStr (wr_storage_key r)) d' = Inr (Some x)
      \<and> same_reading x (reading r) \<and> artifact_eq (ar_artifact x) (describe r)" if "stored root r d d'" for d'
    using fa_inv_stored(2) [OF assms that, of "wr_storage_key r"] fa_ok_simps(2,6) [OF assms(3)]
      shown_same_reading [OF assms(3)] by (auto simp: same_reading_def reading_def)
  show ?thesis by (rule wp_fa_put_fresh [OF assms n]) (use same new there in auto)
next
  fix q
  assume q: "fa_ok U f q" "load_existing_artifact root f (wr_storage_key r) d = Inr (Some (shown q))"
    "fa_get root f (PStr (wr_storage_key r)) d = Inr (Some (shown q))"
  have "wf_val (PDict (sa_metadata (ar_artifact (shown q))))"
    using json_ok_wf [OF json_ok_sorted [OF fa_ok_simps(3) [OF q(1)]]]
    unfolding json_sorted_PDict by (simp add: shown_def shown_artifact_def)
  then show ?thesis
    using q(3) assms(1) artifact_eq_refl
    by (intro wp_fa_put_taken [OF assms(2,3) q(1,2)]) (simp add: only_adds_def)
qed

section \<open>The store keeps the protocol\<close>

lemma fa_inv_empty: "fa_inv U root f empty_disk"
  by (simp add: fa_inv_def dirs_clear_def)

lemma fa_conflict_class: "isinstance (fa_conflict k) ArtifactConflictError_cls"
  by (simp add: fa_conflict_def fa_conflict_error_def error_init_defs FrameworkError_init_def isinstance_def)

definition fa_write :: "path \<Rightarrow> (string \<Rightarrow> pyfloat) \<Rightarrow> disk \<Rightarrow> write_request \<Rightarrow> disk \<times> stored_artifact res" where
  "fa_write root f d r = settle (fa_put root f r) d"

lemma fa_write_cases:
  assumes "fa_inv U root f d" and "collision_free U" and "fa_ok U f r"
  shows "(fa_get root f (PStr (wr_storage_key r)) d = Inr None \<and> snd (fa_write root f d r) = Inr (describe r)
      \<and> stored root r d (fst (fa_write root f d r)))
    \<or> (\<exists>q. fa_ok U f q \<and> fa_get root f (PStr (wr_storage_key r)) d = Inr (Some (shown q))
        \<and> fa_write root f d r = (d, if same_reading (shown q) (reading r) then Inr (ar_artifact (shown q))
            else Inl (fa_conflict (wr_storage_key r))))"
  using fa_get_cases [OF assms(1) fa_ok_simps(6,2) [OF assms(3)]]
proof (elim disjE exE conjE)
  assume n: "look d (manifest_path_for_storage_key root (wr_storage_key r)) = None"
    and g: "fa_get root f (PStr (wr_storage_key r)) d = Inr None"
  have "wp False (fa_put root f r) (\<lambda>out d'. out = Returned (describe r) \<and> stored root r d d') d"
    by (rule wp_fa_put_fresh [OF assms n]) auto
  then have "snd (fa_write root f d r) = Inr (describe r) \<and> stored root r d (fst (fa_write root f d r))"
    unfolding fa_write_def by (rule settle_wp) auto
  then show ?thesis using g by blast
next
  fix q
  assume q: "fa_ok U f q" "load_existing_artifact root f (wr_storage_key r) d = Inr (Some (shown q))"
    "fa_get root f (PStr (wr_storage_key r)) d = Inr (Some (shown q))"
  have "wp False (fa_put root f r) (\<lambda>out d'. d' = d \<and> out = (if same_reading (shown q) (reading r)
      then Returned (ar_artifact (shown q)) else Raised (fa_conflict (wr_storage_key r)))) d"
    by (rule wp_fa_put_taken [OF assms(2,3) q(1,2)]) simp
  then have "fa_write root f d r = (d, if same_reading (shown q) (reading r) then Inr (ar_artifact (shown q))
            else Inl (fa_conflict (wr_storage_key r)))"
    unfolding fa_write_def by (rule settle_wp) (auto split: if_splits)
  then show ?thesis using q(1,3) by blast
qed

interpretation fa: artifact_store empty_disk "fa_inv U root f" "\<lambda>r. collision_free U \<and> fa_ok U f r"
  "fa_key_ok U" shown "fa_write root f" "\<lambda>d k. fa_get root f (PStr k) d"
  for U root f
proof
  fix r assume "collision_free U \<and> fa_ok U f r"
  then show "fa_key_ok U (wr_storage_key r)" "same_reading (shown r) (reading r)"
    using fa_ok_simps shown_same_reading by (auto simp: fa_key_ok_def)
next
  show "fa_inv U root f empty_disk" by (rule fa_inv_empty)
next
  fix k assume "fa_key_ok U k"
  then show "fa_get root f (PStr k) empty_disk = Inr None"
    using load_existing_none [of empty_disk root k f] by (simp add: fa_get_def checked_storage_key_PStr fa_key_ok_def)
next
  fix s r assume "fa_inv U root f s" "collision_free U \<and> fa_ok U f r"
  then show "fa_inv U root f (fst (fa_write root f s r))"
    using fa_write_cases [of U root f s r] fa_inv_stored(1) by (metis fst_conv)
next
  fix s k assume "fa_inv U root f s" "fa_key_ok U k"
  then show "\<exists>x. fa_get root f (PStr k) s = Inr x" using fa_get_cases [of U root f s k] by (auto simp: fa_key_ok_def)
next
  fix s r assume "fa_inv U root f s" "collision_free U \<and> fa_ok U f r" "fa_get root f (PStr (wr_storage_key r)) s = Inr None"
  then show "snd (fa_write root f s r) = Inr (describe r)"
    using fa_write_cases [of U root f s r] by auto
next
  fix s r k
  assume "fa_inv U root f s" "collision_free U \<and> fa_ok U f r" "fa_get root f (PStr (wr_storage_key r)) s = Inr None" "fa_key_ok U k"
  then show "fa_get root f (PStr k) (fst (fa_write root f s r)) =
      (if k = wr_storage_key r then Inr (Some (shown r)) else fa_get root f (PStr k) s)"
    using fa_write_cases [of U root f s r] fa_inv_stored(2) [of U root f s r _ k] by (auto simp: fa_key_ok_def)
next
  fix s r x
  assume "fa_inv U root f s" "collision_free U \<and> fa_ok U f r" "fa_get root f (PStr (wr_storage_key r)) s = Inr (Some x)"
  then show "fst (fa_write root f s r) = s \<and>
      (if same_reading x (reading r) then snd (fa_write root f s r) = Inr (ar_artifact x)
       else \<exists>e. snd (fa_write root f s r) = Inl e \<and> isinstance e ArtifactConflictError_cls)"
    using fa_write_cases [of U root f s r] fa_conflict_class by auto
qed

end
