(* ===== verification/Checkpoint_Files.thy ===== *)
theory Checkpoint_Files
  imports Checkpoint_Store Json_Sorted Disk
begin

text \<open>
  integrations/checkpoint/filesystem_store.py, the files: their names, what is written to them and
  how they are read back. Each stream has a directory with a head file, a file for the pending write,
  and its records, each of which is linked under its identifier and under its revision. \<open>root\<close> is the
  store's directory and \<open>float_of\<close> how a decimal numeral reads as a float.
\<close>

section \<open>Errors\<close>

definition cf_validation_error :: "string \<Rightarrow> string \<Rightarrow> exn" where
  "cf_validation_error message code = CheckpointValidationError message code (Some ''checkpoint_store'') []"

definition cf_conflict_error :: "string \<Rightarrow> string \<Rightarrow> exn" where
  "cf_conflict_error message code = CheckpointConflictError message code (Some ''checkpoint_store'') []"

definition cf_integrity_error :: "string \<Rightarrow> string \<Rightarrow> exn" where
  "cf_integrity_error message code = CheckpointIntegrityError message code (Some ''checkpoint_store'') None []"

definition cf_persistence_error :: "string \<Rightarrow> string \<Rightarrow> exn" where
  "cf_persistence_error message code = CheckpointPersistenceError message code (Some ''checkpoint_store'') None []"

text \<open>The messages that name what was being read.\<close>

definition cf_detected :: "string \<Rightarrow> string \<Rightarrow> string \<Rightarrow> exn" where
  "cf_detected what purpose code =
     cf_integrity_error (''Filesystem checkpoint store detected a '' @ what) (''CHECKPOINT_STORE_'' @ code @ upper purpose)"

definition cf_missing :: "string \<Rightarrow> exn" where
  "cf_missing purpose = cf_detected (''missing '' @ purpose @ ''.'') purpose ''MISSING_''"

definition cf_mismatch :: "string \<Rightarrow> string \<Rightarrow> exn" where
  "cf_mismatch message code =
     cf_integrity_error (''Filesystem checkpoint store detected '' @ message) (''CHECKPOINT_STORE_'' @ code)"

definition type_error :: exn where
  "type_error = PlainExn (Other_cls ''TypeError'') []"

section \<open>Names\<close>

definition stream_identity_bytes :: "run_id \<times> string \<Rightarrow> string" where
  "stream_identity_bytes key = json_bytes (pdict
     [(''schema_version'', PInt 1),
      (''run_id'', case fst key of
         Run_Int i \<Rightarrow> pdict [(''type'', PStr ''int''), (''value'', PInt i)]
       | Run_Str s \<Rightarrow> pdict [(''type'', PStr ''str''), (''value'', PStr s)]),
      (''checkpoint_namespace'', PStr (snd key))])"

definition stream_digest :: "run_id \<times> string \<Rightarrow> string" where
  "stream_digest key = sha256_hex (stream_identity_bytes key)"

definition checkpoint_id_digest :: "string \<Rightarrow> string" where
  "checkpoint_id_digest checkpoint_id = sha256_hex (utf8 checkpoint_id)"

definition stream_dir :: "path \<Rightarrow> run_id \<times> string \<Rightarrow> path" where
  "stream_dir root key = (let h = stream_digest key
     in root @ [''streams'', ''sha256'', take 2 h, take 2 (drop 2 h), h])"

definition cf_body_path :: "path \<Rightarrow> string \<Rightarrow> path" where
  "cf_body_path root digest =
     (let h = (if startswith ''sha256:'' digest then drop 7 digest else digest)
      in root @ [''bodies'', ''sha256'', take 2 h, take 2 (drop 2 h), h @ ''.blob''])"

definition by_id_path :: "path \<Rightarrow> run_id \<times> string \<Rightarrow> string \<Rightarrow> path" where
  "by_id_path root key checkpoint_id = (let h = checkpoint_id_digest checkpoint_id
     in stream_dir root key @ [''records'', ''by-id'', take 2 h, take 2 (drop 2 h), h @ ''.json''])"

definition revision_text :: "int \<Rightarrow> string" where
  "revision_text revision =
     (let t = int_text revision in replicate (20 - length t) (CHR ''0'') @ t @ ''.json'')"

text \<open>A revision taken from a file may be any JSON value; one that is no integer fails where it is used.\<close>

fun int_operand :: "pyval \<Rightarrow> int res" where
  "int_operand (Atom (AInt n)) = Inr n"
| "int_operand (Atom (ABool b)) = Inr (if b then 1 else 0)"
| "int_operand _ = Inl type_error"

definition bad_revision :: exn where
  "bad_revision = cf_integrity_error ''Checkpoint store detected an invalid checkpoint revision.''
     ''CHECKPOINT_STORE_INVALID_REVISION''"

definition revision_filename :: "pyval \<Rightarrow> string res" where
  "revision_filename revision =
     r_bind (int_operand revision) (\<lambda>n.
     r_bind (r_guard (n \<le> 0) bad_revision) (\<lambda>_. Inr (revision_text n)))"

definition by_revision_path :: "path \<Rightarrow> run_id \<times> string \<Rightarrow> pyval \<Rightarrow> path res" where
  "by_revision_path root key revision =
     r_bind (revision_filename revision) (\<lambda>name.
       Inr (stream_dir root key @ [''records'', ''by-revision'', name]))"

definition lock_path :: "path \<Rightarrow> run_id \<times> string \<Rightarrow> path" where
  "lock_path root key = stream_dir root key @ [''lock'']"

definition head_path :: "path \<Rightarrow> run_id \<times> string \<Rightarrow> path" where
  "head_path root key = stream_dir root key @ [''head.json'']"

definition pending_path :: "path \<Rightarrow> run_id \<times> string \<Rightarrow> path" where
  "pending_path root key = stream_dir root key @ [''pending.json'']"

section \<open>Contents\<close>

record stream_head =
  hd_run_id :: run_id
  hd_namespace :: string
  hd_checkpoint_id :: string
  hd_revision :: pyval
  hd_record_digest :: pyval

record pending_intent =
  pi_run_id :: run_id
  pi_namespace :: string
  pi_checkpoint_id :: string
  pi_parent :: "string option"
  pi_revision :: pyval
  pi_body_digest :: pyval
  pi_record_digest :: pyval

definition JSON_LIMIT :: nat where "JSON_LIMIT = 1048576"

definition record_fields :: "stored_checkpoint \<Rightarrow> pydict" where
  "record_fields c =
     [(''schema_version'', PInt 1), (''run_id'', run_id_value (sc_run_id c)),
      (''checkpoint_namespace'', PStr (sc_namespace c)), (''checkpoint_id'', PStr (sc_checkpoint_id c)),
      (''parent_checkpoint_id'', opt_str (sc_parent c)), (''revision'', PInt (sc_revision c)),
      (''serializer_name'', PStr (sc_serializer_name c)),
      (''serializer_version'', PInt (sc_serializer_version c)),
      (''content_type'', PStr (sc_content_type c)), (''size'', PInt (sc_size c)),
      (''digest'', PStr (sc_digest c)), (''metadata'', PDict (sc_metadata c))]"

definition encoded_digest :: "pyval \<Rightarrow> string res" where
  "encoded_digest v = r_bind (encode_json v) (\<lambda>b. Inr (body_digest b))"

definition safe_record_payload :: "stored_checkpoint \<Rightarrow> pyitems res" where
  "safe_record_payload c =
     r_bind (encoded_digest (pdict (record_fields c))) (\<lambda>h.
       Inr (map (\<lambda>(k, v). (AStr k, v)) (record_fields c @ [(''record_digest'', PStr h)])))"

definition record_digest :: "pyitems \<Rightarrow> string res" where
  "record_digest payload = encoded_digest (PDict (filter (\<lambda>(k, _). k \<noteq> AStr ''record_digest'') payload))"

text \<open>\<open>_record_digest(_safe_record_payload(c))\<close>.\<close>

definition checkpoint_digest :: "stored_checkpoint \<Rightarrow> string res" where
  "checkpoint_digest c = r_bind (safe_record_payload c) record_digest"

definition head_payload :: "stream_head \<Rightarrow> pyval" where
  "head_payload h = pdict
     [(''schema_version'', PInt 1), (''run_id'', run_id_value (hd_run_id h)),
      (''checkpoint_namespace'', PStr (hd_namespace h)), (''checkpoint_id'', PStr (hd_checkpoint_id h)),
      (''revision'', hd_revision h), (''record_digest'', hd_record_digest h)]"

definition pending_payload :: "pending_intent \<Rightarrow> pyval" where
  "pending_payload p = pdict
     [(''schema_version'', PInt 1), (''run_id'', run_id_value (pi_run_id p)),
      (''checkpoint_namespace'', PStr (pi_namespace p)), (''checkpoint_id'', PStr (pi_checkpoint_id p)),
      (''parent_checkpoint_id'', opt_str (pi_parent p)), (''revision'', pi_revision p),
      (''body_digest'', pi_body_digest p), (''record_digest'', pi_record_digest p)]"

section \<open>Reading\<close>

definition cf_read_file :: "path \<Rightarrow> string \<Rightarrow> int option \<Rightarrow> bool \<Rightarrow> disk \<Rightarrow> string option res" where
  "cf_read_file p purpose max_bytes missing_ok d =
     (case look d p of
        Some Symlink \<Rightarrow> Inl (cf_detected (purpose @ '' symlink.'') purpose ''SYMLINK_'')
      | None \<Rightarrow> if missing_ok then Inr None else Inl (cf_missing purpose)
      | Some Directory \<Rightarrow> Inl (cf_detected (''non-regular '' @ purpose @ ''.'') purpose ''NONREGULAR_'')
      | Some (File _ bytes) \<Rightarrow>
          if (case max_bytes of None \<Rightarrow> False | Some m \<Rightarrow> m < int (length bytes))
          then Inl (cf_integrity_error (''Filesystem checkpoint store detected an oversized '' @ purpose @ ''.'')
            (''CHECKPOINT_STORE_OVERSIZED_'' @ upper purpose))
          else Inr (Some bytes))"

definition read_canonical_json ::
  "(string \<Rightarrow> pyfloat) \<Rightarrow> path \<Rightarrow> string \<Rightarrow> bool \<Rightarrow> disk \<Rightarrow> pyitems option res" where
  "read_canonical_json float_of p purpose missing_ok d =
     r_bind (cf_read_file p purpose (Some (int JSON_LIMIT)) missing_ok d) (\<lambda>found.
       case found of
         None \<Rightarrow> Inr None
       | Some data \<Rightarrow>
           (case decode_json_object float_of data JSON_LIMIT of
              None \<Rightarrow> Inl (cf_integrity_error (''Filesystem checkpoint store detected an invalid '' @ purpose @ ''.'')
                (''CHECKPOINT_STORE_INVALID_'' @ upper purpose))
            | Some payload \<Rightarrow>
                r_bind (encode_json (PDict payload)) (\<lambda>canonical.
                r_bind (r_guard (canonical \<noteq> data)
                  (cf_detected (''noncanonical '' @ purpose @ ''.'') purpose ''NONCANONICAL_''))
                  (\<lambda>_. Inr (Some payload)))))"

definition record_keys :: "string list" where
  "record_keys = [''schema_version'', ''run_id'', ''checkpoint_namespace'', ''checkpoint_id'',
     ''parent_checkpoint_id'', ''revision'', ''serializer_name'', ''serializer_version'',
     ''content_type'', ''size'', ''digest'', ''metadata'', ''record_digest'']"

text \<open>\<open>except CheckpointStoreError as exc: raise\<close> another.\<close>

definition checkpoint_error_as :: "exn \<Rightarrow> 'a res \<Rightarrow> 'a res" where
  "checkpoint_error_as e x =
     (case x of Inl e' \<Rightarrow> if isinstance e' CheckpointStoreError_cls then Inl e else Inl e' | Inr y \<Rightarrow> Inr y)"

fun is_record_digest :: "pyval \<Rightarrow> bool" where
  "is_record_digest (Atom (AStr s)) = (startswith ''sha256:'' s \<and> length s = length ''sha256:'' + 64)"
| "is_record_digest _ = False"

definition invalid_record :: exn where
  "invalid_record = cf_mismatch ''an invalid record.'' ''INVALID_RECORD''"

definition normalize_record_payload :: "pyitems \<Rightarrow> stored_checkpoint res" where
  "normalize_record_payload payload =
     (let item = payload_item payload in
      r_bind (r_guard (\<not> has_keys record_keys payload) invalid_record) (\<lambda>_.
      r_bind (r_guard (\<not> val_eq (item ''schema_version'') (PInt 1))
        (cf_mismatch ''an unsupported record schema.'' ''UNSUPPORTED_SCHEMA'')) (\<lambda>_.
      r_bind (r_guard (\<not> is_record_digest (item ''record_digest''))
        (cf_mismatch ''an invalid record digest.'' ''INVALID_RECORD_DIGEST'')) (\<lambda>_.
      r_bind (record_digest payload) (\<lambda>canonical_digest.
      r_bind (r_guard (item ''record_digest'' \<noteq> PStr canonical_digest)
        (cf_mismatch ''a record digest mismatch.'' ''RECORD_DIGEST_MISMATCH'')) (\<lambda>_.
      checkpoint_error_as invalid_record
        (r_bind (normalize_checkpoint_run_id (item ''run_id'')) (\<lambda>run.
         r_bind (normalize_checkpoint_namespace (item ''checkpoint_namespace'')) (\<lambda>ns.
         r_bind (normalize_checkpoint_id (item ''checkpoint_id'')) (\<lambda>cid.
         r_bind (optional_checkpoint_id (item ''parent_checkpoint_id'')) (\<lambda>parent.
           StoredCheckpoint (run_id_value run) (PStr ns) (PStr cid) (opt_str parent) (item ''revision'')
             (item ''serializer_name'') (item ''serializer_version'') (item ''content_type'')
             (item ''size'') (item ''digest'') (item ''metadata''))))))))))))"

definition record_from_path :: "(string \<Rightarrow> pyfloat) \<Rightarrow> path \<Rightarrow> disk \<Rightarrow> stored_checkpoint res" where
  "record_from_path float_of p d =
     r_bind (read_canonical_json float_of p ''record'' False d) (\<lambda>found.
       case found of
         None \<Rightarrow> Inl (cf_missing ''record'')
       | Some payload \<Rightarrow> normalize_record_payload payload)"

definition head_keys :: "string list" where
  "head_keys = [''schema_version'', ''run_id'', ''checkpoint_namespace'', ''checkpoint_id'', ''revision'',
     ''record_digest'']"

definition head_from_path :: "(string \<Rightarrow> pyfloat) \<Rightarrow> path \<Rightarrow> disk \<Rightarrow> stream_head res" where
  "head_from_path float_of p d =
     r_bind (read_canonical_json float_of p ''head'' False d) (\<lambda>found.
       case found of
         None \<Rightarrow> Inl (cf_missing ''head'')
       | Some payload \<Rightarrow>
           let item = payload_item payload; invalid = cf_mismatch ''an invalid head.'' ''INVALID_HEAD'' in
           r_bind (r_guard (\<not> has_keys head_keys payload) invalid) (\<lambda>_.
           r_bind (r_guard (\<not> val_eq (item ''schema_version'') (PInt 1))
             (cf_mismatch ''an unsupported head schema.'' ''UNSUPPORTED_HEAD_SCHEMA'')) (\<lambda>_.
           checkpoint_error_as invalid
             (r_bind (normalize_checkpoint_run_id (item ''run_id'')) (\<lambda>run.
              r_bind (normalize_checkpoint_namespace (item ''checkpoint_namespace'')) (\<lambda>ns.
              r_bind (normalize_checkpoint_id (item ''checkpoint_id'')) (\<lambda>cid.
                Inr \<lparr>hd_run_id = run, hd_namespace = ns, hd_checkpoint_id = cid,
                  hd_revision = item ''revision'', hd_record_digest = item ''record_digest''\<rparr>)))))))"

definition pending_keys :: "string list" where
  "pending_keys = [''schema_version'', ''run_id'', ''checkpoint_namespace'', ''checkpoint_id'',
     ''parent_checkpoint_id'', ''revision'', ''body_digest'', ''record_digest'']"

definition pending_from_path :: "(string \<Rightarrow> pyfloat) \<Rightarrow> path \<Rightarrow> disk \<Rightarrow> pending_intent res" where
  "pending_from_path float_of p d =
     r_bind (read_canonical_json float_of p ''pending'' False d) (\<lambda>found.
       case found of
         None \<Rightarrow> Inl (cf_mismatch ''a missing pending record.'' ''MISSING_PENDING'')
       | Some payload \<Rightarrow>
           let item = payload_item payload;
             invalid = cf_mismatch ''an invalid pending record.'' ''INVALID_PENDING'' in
           r_bind (r_guard (\<not> has_keys pending_keys payload) invalid) (\<lambda>_.
           r_bind (r_guard (\<not> val_eq (item ''schema_version'') (PInt 1))
             (cf_mismatch ''an unsupported pending schema.'' ''UNSUPPORTED_PENDING_SCHEMA'')) (\<lambda>_.
           checkpoint_error_as invalid
             (r_bind (normalize_checkpoint_run_id (item ''run_id'')) (\<lambda>run.
              r_bind (normalize_checkpoint_namespace (item ''checkpoint_namespace'')) (\<lambda>ns.
              r_bind (normalize_checkpoint_id (item ''checkpoint_id'')) (\<lambda>cid.
              r_bind (optional_checkpoint_id (item ''parent_checkpoint_id'')) (\<lambda>parent.
                Inr \<lparr>pi_run_id = run, pi_namespace = ns, pi_checkpoint_id = cid, pi_parent = parent,
                  pi_revision = item ''revision'', pi_body_digest = item ''body_digest'',
                  pi_record_digest = item ''record_digest''\<rparr>))))))))"

definition load_head :: "path \<Rightarrow> (string \<Rightarrow> pyfloat) \<Rightarrow> run_id \<times> string \<Rightarrow> disk \<Rightarrow> stream_head option res" where
  "load_head root float_of key d =
     r_bind (read_canonical_json float_of (head_path root key) ''head'' True d) (\<lambda>found.
       case found of
         None \<Rightarrow> Inr None
       | Some _ \<Rightarrow> r_bind (head_from_path float_of (head_path root key) d) (\<lambda>h. Inr (Some h)))"

definition load_pending :: "path \<Rightarrow> (string \<Rightarrow> pyfloat) \<Rightarrow> run_id \<times> string \<Rightarrow> disk \<Rightarrow> pending_intent option res" where
  "load_pending root float_of key d =
     r_bind (read_canonical_json float_of (pending_path root key) ''pending'' True d) (\<lambda>found.
       case found of
         None \<Rightarrow> Inr None
       | Some _ \<Rightarrow> r_bind (pending_from_path float_of (pending_path root key) d) (\<lambda>p. Inr (Some p)))"

end
