(* ===== verification/Checkpoint_Filesystem.thy ===== *)
theory Checkpoint_Filesystem
  imports Checkpoint_Files
begin

text \<open>
  integrations/checkpoint/filesystem_store.py, the operations of \<open>FilesystemCheckpointStore\<close>. Each
  holds the lock of its stream throughout and begins by completing or dropping the write that a
  process left unfinished. A write goes through the body, the pending file, the record under its
  identifier, the record under its revision, the head, and the removal of the pending file.
\<close>

section \<open>Records\<close>

definition checkpoint_eq :: "stored_checkpoint \<Rightarrow> stored_checkpoint \<Rightarrow> bool" where
  "checkpoint_eq a b \<longleftrightarrow> a\<lparr>sc_metadata := []\<rparr> = b\<lparr>sc_metadata := []\<rparr>
     \<and> val_eq (PDict (sc_metadata a)) (PDict (sc_metadata b))"

definition verify_record_body :: "path \<Rightarrow> stored_checkpoint \<Rightarrow> disk \<Rightarrow> unit res" where
  "verify_record_body root c d =
     r_bind (cf_read_file (cf_body_path root (sc_digest c)) ''body'' (Some (sc_size c)) False d) (\<lambda>found.
       case found of
         None \<Rightarrow> Inl (cf_missing ''body'')
       | Some body \<Rightarrow>
           r_bind (r_guard (int (length body) \<noteq> sc_size c)
             (cf_mismatch ''a body size mismatch.'' ''BODY_SIZE_MISMATCH'')) (\<lambda>_.
           r_guard (body_digest body \<noteq> sc_digest c)
             (cf_mismatch ''a body digest mismatch.'' ''BODY_DIGEST_MISMATCH'')))"

definition validate_listing_body :: "path \<Rightarrow> stored_checkpoint \<Rightarrow> disk \<Rightarrow> unit res" where
  "validate_listing_body root c d =
     (case look d (cf_body_path root (sc_digest c)) of
        Some Symlink \<Rightarrow> Inl (cf_mismatch ''a body symlink.'' ''BODY_SYMLINK'')
      | None \<Rightarrow> Inl (cf_missing ''body'')
      | Some Directory \<Rightarrow> Inl (cf_mismatch ''a non-regular body.'' ''NONREGULAR_BODY'')
      | Some (File _ bytes) \<Rightarrow> r_guard (int (length bytes) \<noteq> sc_size c)
          (cf_mismatch ''a body size mismatch.'' ''BODY_SIZE_MISMATCH''))"

definition load_record ::
  "path \<Rightarrow> (string \<Rightarrow> pyfloat) \<Rightarrow> path \<Rightarrow> bool \<Rightarrow> disk \<Rightarrow> stored_checkpoint option res" where
  "load_record root float_of p verify_body d =
     r_bind (read_canonical_json float_of p ''record'' True d) (\<lambda>found.
       case found of
         None \<Rightarrow> Inr None
       | Some payload \<Rightarrow>
           r_bind (normalize_record_payload payload) (\<lambda>c.
           r_bind (if verify_body then verify_record_body root c d else Inr ()) (\<lambda>_. Inr (Some c))))"

definition load_record_by_id ::
  "path \<Rightarrow> (string \<Rightarrow> pyfloat) \<Rightarrow> run_id \<times> string \<Rightarrow> string \<Rightarrow> bool \<Rightarrow> disk \<Rightarrow> stored_checkpoint option res" where
  "load_record_by_id root float_of key checkpoint_id verify_body d =
     load_record root float_of (by_id_path root key checkpoint_id) verify_body d"

definition load_record_by_revision ::
  "path \<Rightarrow> (string \<Rightarrow> pyfloat) \<Rightarrow> run_id \<times> string \<Rightarrow> pyval \<Rightarrow> bool \<Rightarrow> disk \<Rightarrow> stored_checkpoint option res" where
  "load_record_by_revision root float_of key revision verify_body d =
     r_bind (by_revision_path root key revision) (\<lambda>p. load_record root float_of p verify_body d)"

definition verify_hard_link_pair :: "path \<Rightarrow> path \<Rightarrow> string \<Rightarrow> disk \<Rightarrow> unit res" where
  "verify_hard_link_pair first second purpose d =
     (case (look d first, look d second) of
        (None, _) \<Rightarrow> Inl (cf_missing purpose)
      | (_, None) \<Rightarrow> Inl (cf_missing purpose)
      | (Some Symlink, _) \<Rightarrow> Inl (cf_detected (purpose @ '' symlink.'') purpose ''SYMLINK_'')
      | (_, Some Symlink) \<Rightarrow> Inl (cf_detected (purpose @ '' symlink.'') purpose ''SYMLINK_'')
      | (Some (File m _), Some (File n _)) \<Rightarrow>
          r_guard (m \<noteq> n) (cf_detected (purpose @ '' link mismatch.'') purpose ''LINK_MISMATCH_'')
      | _ \<Rightarrow> Inl (cf_detected (''non-regular '' @ purpose @ ''.'') purpose ''NONREGULAR_''))"

definition record_links :: "path \<Rightarrow> run_id \<times> string \<Rightarrow> string \<Rightarrow> pyval \<Rightarrow> disk \<Rightarrow> unit res" where
  "record_links root key checkpoint_id revision d =
     r_bind (by_revision_path root key revision) (\<lambda>p.
       verify_hard_link_pair (by_id_path root key checkpoint_id) p ''record'' d)"

definition index_mismatch :: exn where
  "index_mismatch = cf_mismatch ''a record index mismatch.'' ''RECORD_INDEX_MISMATCH''"

section \<open>The committed chain\<close>

text \<open>The loop over the revisions, with the parent the next record must have.\<close>

fun chain_records ::
  "path \<Rightarrow> (string \<Rightarrow> pyfloat) \<Rightarrow> run_id \<times> string \<Rightarrow> bool \<Rightarrow> disk \<Rightarrow> string option \<Rightarrow> int list \<Rightarrow>
   stored_checkpoint list res"
where
  "chain_records root float_of key verify_body d expected_parent [] = Inr []"
| "chain_records root float_of key verify_body d expected_parent (revision # revisions) =
     r_bind (load_record_by_revision root float_of key (PInt revision) False d) (\<lambda>found.
       case found of
         None \<Rightarrow> Inl (cf_mismatch ''a revision gap.'' ''REVISION_GAP'')
       | Some c \<Rightarrow>
           r_bind (r_guard (sc_revision c \<noteq> revision)
             (cf_mismatch ''a revision mismatch.'' ''REVISION_MISMATCH'')) (\<lambda>_.
           r_bind (r_guard (sc_parent c \<noteq> expected_parent)
             (cf_mismatch ''a parent chain mismatch.'' ''PARENT_MISMATCH'')) (\<lambda>_.
           r_bind (load_record_by_id root float_of key (sc_checkpoint_id c) False d) (\<lambda>by_id.
           r_bind (r_guard (case by_id of None \<Rightarrow> True | Some b \<Rightarrow> \<not> checkpoint_eq b c) index_mismatch) (\<lambda>_.
           r_bind (record_links root key (sc_checkpoint_id c) (PInt revision) d) (\<lambda>_.
           r_bind (if verify_body then verify_record_body root c d else validate_listing_body root c d) (\<lambda>_.
           r_bind (chain_records root float_of key verify_body d (Some (sc_checkpoint_id c)) revisions) (\<lambda>cs.
             Inr (c # cs)))))))))"

definition validate_committed_chain ::
  "path \<Rightarrow> (string \<Rightarrow> pyfloat) \<Rightarrow> run_id \<times> string \<Rightarrow> stream_head \<Rightarrow> bool \<Rightarrow> disk \<Rightarrow> stored_checkpoint list res" where
  "validate_committed_chain root float_of key head verify_body d =
     r_bind (int_operand (hd_revision head)) (\<lambda>n.
     r_bind (chain_records root float_of key verify_body d None [1..n]) (\<lambda>committed.
     r_bind (r_guard (committed = [] \<or> sc_checkpoint_id (last committed) \<noteq> hd_checkpoint_id head
         \<or> \<not> val_eq (PInt (sc_revision (last committed))) (hd_revision head))
       (cf_mismatch ''a head mismatch.'' ''HEAD_MISMATCH'')) (\<lambda>_.
     r_bind (checkpoint_digest (last committed)) (\<lambda>h.
     r_bind (r_guard (hd_record_digest head \<noteq> PStr h)
       (cf_mismatch ''a head digest mismatch.'' ''HEAD_DIGEST_MISMATCH'')) (\<lambda>_. Inr committed)))))"

definition by_id_root :: "path \<Rightarrow> run_id \<times> string \<Rightarrow> path" where
  "by_id_root root key = stream_dir root key @ [''records'', ''by-id'']"

definition by_revision_root :: "path \<Rightarrow> run_id \<times> string \<Rightarrow> path" where
  "by_revision_root root key = stream_dir root key @ [''records'', ''by-revision'']"

definition head_and_records_exist :: "path \<Rightarrow> run_id \<times> string \<Rightarrow> disk \<Rightarrow> bool" where
  "head_and_records_exist root key d =
     (look d (stream_dir root key) \<noteq> None \<and>
      list_ex (\<lambda>r. look d r \<noteq> None \<and>
        list_ex (\<lambda>p. case look d p of Some (File _ _) \<Rightarrow> True | _ \<Rightarrow> False) (rglob d r ''.json''))
        [by_id_root root key, by_revision_root root key])"

definition path_mismatch :: exn where
  "path_mismatch = cf_mismatch ''a record path mismatch.'' ''RECORD_PATH_MISMATCH''"

definition finalized_mismatch :: exn where
  "finalized_mismatch = cf_mismatch ''an unexpected finalized record.'' ''FINALIZED_RECORD_MISMATCH''"

text \<open>The dictionaries of the committed records; of two with the same key the last counts.\<close>

definition audit_by_id ::
  "path \<Rightarrow> (string \<Rightarrow> pyfloat) \<Rightarrow> run_id \<times> string \<Rightarrow> stored_checkpoint list \<Rightarrow> disk \<Rightarrow> path \<Rightarrow> unit res" where
  "audit_by_id root float_of key committed d p =
     r_bind (record_from_path float_of p d) (\<lambda>c.
     r_bind (r_guard (p \<noteq> by_id_path root key (sc_checkpoint_id c)) path_mismatch) (\<lambda>_.
     r_bind (r_guard (case find (\<lambda>k. sc_checkpoint_id k = sc_checkpoint_id c) (rev committed) of
         None \<Rightarrow> True | Some k \<Rightarrow> \<not> checkpoint_eq k c) finalized_mismatch) (\<lambda>_.
       record_links root key (sc_checkpoint_id c) (PInt (sc_revision c)) d)))"

definition audit_by_revision ::
  "path \<Rightarrow> (string \<Rightarrow> pyfloat) \<Rightarrow> run_id \<times> string \<Rightarrow> stored_checkpoint list \<Rightarrow> disk \<Rightarrow> path \<Rightarrow> unit res" where
  "audit_by_revision root float_of key committed d p =
     r_bind (record_from_path float_of p d) (\<lambda>c.
     r_bind (by_revision_path root key (PInt (sc_revision c))) (\<lambda>expected.
     r_bind (r_guard (p \<noteq> expected) path_mismatch) (\<lambda>_.
       r_guard (case find (\<lambda>k. sc_revision k = sc_revision c) (rev committed) of
         None \<Rightarrow> True | Some k \<Rightarrow> \<not> checkpoint_eq k c) finalized_mismatch)))"

fun r_each :: "('a \<Rightarrow> unit res) \<Rightarrow> 'a list \<Rightarrow> unit res" where
  "r_each f [] = Inr ()"
| "r_each f (x # xs) = r_bind (f x) (\<lambda>_. r_each f xs)"

definition audit_no_extra_finalized_records ::
  "path \<Rightarrow> (string \<Rightarrow> pyfloat) \<Rightarrow> run_id \<times> string \<Rightarrow> stored_checkpoint list \<Rightarrow> disk \<Rightarrow> unit res" where
  "audit_no_extra_finalized_records root float_of key committed d =
     r_bind (r_each (audit_by_id root float_of key committed d) (rglob d (by_id_root root key) ''.json'')) (\<lambda>_.
       r_each (audit_by_revision root float_of key committed d) (rglob d (by_revision_root root key) ''.json''))"

section \<open>Writing files\<close>

definition cf_unavailable :: exn where
  "cf_unavailable = cf_persistence_error ''Filesystem checkpoint store root is unavailable.''
     ''CHECKPOINT_STORE_DIRECTORY_UNAVAILABLE''"

definition cf_write_failed :: exn where
  "cf_write_failed = cf_persistence_error ''Filesystem checkpoint store failed while writing a file.''
     ''CHECKPOINT_STORE_WRITE_FAILED''"

definition cf_publication_failed :: exn where
  "cf_publication_failed = cf_persistence_error ''Filesystem checkpoint store publication failed.''
     ''CHECKPOINT_STORE_PUBLICATION_UNSUPPORTED''"

definition cf_lock_failed :: exn where
  "cf_lock_failed = cf_persistence_error ''Filesystem checkpoint store failed to acquire a stream lock.''
     ''CHECKPOINT_STORE_LOCK_FAILED''"

definition cf_head_failed :: exn where
  "cf_head_failed = cf_persistence_error ''Filesystem checkpoint store failed to update the stream head.''
     ''CHECKPOINT_STORE_HEAD_UPDATE_FAILED''"

definition fsync_directory :: "unit io" where
  "fsync_directory = io_call (cf_persistence_error ''Filesystem checkpoint store failed to sync a directory.''
     ''CHECKPOINT_STORE_DIRECTORY_SYNC_FAILED'') id"

definition write_temp_bytes :: "path \<Rightarrow> string \<Rightarrow> string \<Rightarrow> path io" where
  "write_temp_bytes dir payload suff =
     io_bind (ensure_chain cf_unavailable dir) (\<lambda>_. write_temp cf_write_failed dir suff payload)"

definition link_no_overwrite :: "path \<Rightarrow> path \<Rightarrow> bool io" where
  "link_no_overwrite source final =
     io_bind (ensure_chain cf_unavailable (butlast final)) (\<lambda>_. link_file cf_publication_failed source final)"

definition publish_immutable_bytes :: "path \<Rightarrow> string \<Rightarrow> bool io" where
  "publish_immutable_bytes final payload =
     io_bind (write_temp_bytes (butlast final) payload ''.tmp'') (\<lambda>temp.
       io_finally
         (io_bind (link_no_overwrite temp final) (\<lambda>created.
          io_bind (io_when created fsync_directory) (\<lambda>_. io_return created)))
         (cleanup_path temp))"

definition write_head :: "path \<Rightarrow> run_id \<times> string \<Rightarrow> stream_head \<Rightarrow> unit io" where
  "write_head root key head =
     io_bind (io_read (\<lambda>d. encode_json (head_payload head))) (\<lambda>bytes.
     io_bind (write_temp_bytes (butlast (head_path root key)) bytes ''.json'') (\<lambda>temp.
       io_finally
         (io_bind (replace_file cf_head_failed temp (head_path root key)) (\<lambda>_. fsync_directory))
         (cleanup_path temp)))"

definition write_pending :: "path \<Rightarrow> run_id \<times> string \<Rightarrow> pending_intent \<Rightarrow> unit io" where
  "write_pending root key pending =
     io_bind (io_read (\<lambda>d. encode_json (pending_payload pending))) (\<lambda>bytes.
     io_bind (write_temp_bytes (butlast (pending_path root key)) bytes ''.json'') (\<lambda>temp.
       io_finally
         (io_bind (link_no_overwrite temp (pending_path root key)) (\<lambda>created.
            if created then fsync_directory
            else io_raise (cf_conflict_error
              ''Filesystem checkpoint store detected a conflicting pending transaction.''
              ''CHECKPOINT_STORE_PENDING_CONFLICT'')))
         (cleanup_path temp)))"

text \<open>\<open>_locked_stream\<close>: the lock file is opened, or created, and locked.\<close>

definition open_lock :: "path \<Rightarrow> unit io" where
  "open_lock p s = (case look (fst s) p of
     None \<Rightarrow> io_call cf_lock_failed (new_file p []) s
   | Some (File _ _) \<Rightarrow> io_return () s
   | Some _ \<Rightarrow> io_raise cf_lock_failed s)"

definition locked_stream :: "path \<Rightarrow> run_id \<times> string \<Rightarrow> 'a io \<Rightarrow> 'a io" where
  "locked_stream root key m =
     io_bind (ensure_chain cf_unavailable (butlast (lock_path root key))) (\<lambda>_.
     io_bind (open_lock (lock_path root key)) (\<lambda>_.
     io_bind (io_call cf_lock_failed id) (\<lambda>_. m)))"

section \<open>Recovery\<close>

definition head_of :: "stored_checkpoint \<Rightarrow> string \<Rightarrow> stream_head" where
  "head_of c digest = \<lparr>hd_run_id = sc_run_id c, hd_namespace = sc_namespace c,
     hd_checkpoint_id = sc_checkpoint_id c, hd_revision = PInt (sc_revision c), hd_record_digest = PStr digest\<rparr>"

definition write_head_of :: "path \<Rightarrow> run_id \<times> string \<Rightarrow> stored_checkpoint \<Rightarrow> unit io" where
  "write_head_of root key c =
     io_bind (io_read (\<lambda>d. checkpoint_digest c)) (\<lambda>h. write_head root key (head_of c h))"

definition pending_mismatch :: exn where
  "pending_mismatch = cf_mismatch ''a pending/record mismatch.'' ''PENDING_RECORD_MISMATCH''"

definition impossible_pending :: exn where
  "impossible_pending = cf_mismatch ''an impossible pending transaction.'' ''IMPOSSIBLE_PENDING''"

definition pending_matches :: "stored_checkpoint \<Rightarrow> pending_intent \<Rightarrow> bool" where
  "pending_matches c p \<longleftrightarrow> sc_checkpoint_id c = pi_checkpoint_id p
     \<and> val_eq (PInt (sc_revision c)) (pi_revision p) \<and> sc_parent c = pi_parent p"

text \<open>The two branches of recovery that add the missing one of a record's links.\<close>

definition complete_pending ::
  "path \<Rightarrow> run_id \<times> string \<Rightarrow> stored_checkpoint \<Rightarrow> path \<Rightarrow> path \<Rightarrow>
   (disk \<Rightarrow> stored_checkpoint option res) \<Rightarrow> unit io"
where
  "complete_pending root key c source final reload =
     io_bind (link_no_overwrite source final) (\<lambda>created.
     io_bind (io_when (\<not> created) (io_read (\<lambda>d. r_bind (reload d) (\<lambda>existing.
       r_guard (case existing of None \<Rightarrow> True | Some x \<Rightarrow> \<not> checkpoint_eq x c) pending_mismatch)))) (\<lambda>_.
     io_bind fsync_directory (\<lambda>_.
     io_bind (write_head_of root key c) (\<lambda>_.
       cleanup_path (pending_path root key)))))"

definition head_beyond :: "stream_head option \<Rightarrow> pyval \<Rightarrow> bool res" where
  "head_beyond head revision =
     (case head of
        None \<Rightarrow> Inr False
      | Some h \<Rightarrow> r_bind (int_operand (hd_revision h)) (\<lambda>m. r_bind (int_operand revision) (\<lambda>n. Inr (n < m))))"

text \<open>Both links are there: the head may have to be written yet.\<close>

definition finish_pending ::
  "path \<Rightarrow> (string \<Rightarrow> pyfloat) \<Rightarrow> run_id \<times> string \<Rightarrow> bool \<Rightarrow> stream_head option \<Rightarrow> stored_checkpoint \<Rightarrow> unit io" where
  "finish_pending root float_of key verify_body head c =
     io_bind (io_read (\<lambda>d. case head of
         None \<Rightarrow> Inr True
       | Some h \<Rightarrow> r_bind (int_operand (hd_revision h)) (\<lambda>m.
           Inr (m < sc_revision c \<or> hd_checkpoint_id h \<noteq> sc_checkpoint_id c)))) (\<lambda>behind.
     io_bind (if behind then io_bind (write_head_of root key c) (\<lambda>_. fsync_directory)
              else io_read (\<lambda>d. r_bind (head_beyond head (PInt (sc_revision c))) (\<lambda>b. r_guard b impossible_pending))) (\<lambda>_.
     io_bind (cleanup_path (pending_path root key)) (\<lambda>_.
       io_read (\<lambda>d.
         r_bind (load_head root float_of key d) (\<lambda>current.
         r_bind (if current = None \<and> behind then checkpoint_digest c else Inr []) (\<lambda>h.
         r_bind (validate_committed_chain root float_of key
             (case current of Some x \<Rightarrow> x | None \<Rightarrow> if behind then head_of c h else the head) verify_body d)
           (\<lambda>_. Inr ())))))))"

definition recover_pending ::
  "path \<Rightarrow> (string \<Rightarrow> pyfloat) \<Rightarrow> run_id \<times> string \<Rightarrow> bool \<Rightarrow> pending_intent \<Rightarrow> stream_head option \<Rightarrow>
   stored_checkpoint option \<Rightarrow> stored_checkpoint option \<Rightarrow> unit io"
where
  "recover_pending root float_of key verify_body pending head by_id by_revision =
     (case (by_id, by_revision) of
        (None, None) \<Rightarrow>
          io_bind (cleanup_path (pending_path root key)) (\<lambda>_.
            case head of
              None \<Rightarrow> io_return ()
            | Some h \<Rightarrow> io_read (\<lambda>d. r_bind (validate_committed_chain root float_of key h verify_body d) (\<lambda>_. Inr ())))
      | (None, Some c) \<Rightarrow>
          if \<not> pending_matches c pending then io_raise pending_mismatch
          else io_bind (io_read (\<lambda>d. by_revision_path root key (pi_revision pending))) (\<lambda>source.
            complete_pending root key c source (by_id_path root key (pi_checkpoint_id pending))
              (load_record_by_id root float_of key (pi_checkpoint_id pending) verify_body))
      | (Some c, None) \<Rightarrow>
          if \<not> pending_matches c pending then io_raise pending_mismatch
          else io_bind (io_read (\<lambda>d. by_revision_path root key (pi_revision pending))) (\<lambda>final.
            complete_pending root key c (by_id_path root key (pi_checkpoint_id pending)) final
              (load_record_by_revision root float_of key (pi_revision pending) verify_body))
      | (Some c, Some c') \<Rightarrow>
          if \<not> checkpoint_eq c c' then io_raise index_mismatch
          else io_bind (io_read (record_links root key (pi_checkpoint_id pending) (pi_revision pending))) (\<lambda>_.
            if \<not> pending_matches c pending then io_raise pending_mismatch
            else finish_pending root float_of key verify_body head c))"

definition recover_stream ::
  "path \<Rightarrow> (string \<Rightarrow> pyfloat) \<Rightarrow> run_id \<times> string \<Rightarrow> bool \<Rightarrow> unit io" where
  "recover_stream root float_of key verify_body =
     io_bind (io_read (load_pending root float_of key)) (\<lambda>pending.
     io_bind (io_read (load_head root float_of key)) (\<lambda>head.
       case pending of
         None \<Rightarrow>
           (case head of
              None \<Rightarrow> io_read (\<lambda>d. r_guard (head_and_records_exist root key d)
                (cf_mismatch ''committed records without a head.'' ''DANGLING_RECORDS''))
            | Some h \<Rightarrow> io_read (\<lambda>d. r_bind (validate_committed_chain root float_of key h verify_body d) (\<lambda>_. Inr ())))
       | Some p \<Rightarrow>
           io_bind (io_read (load_record_by_id root float_of key (pi_checkpoint_id p) verify_body)) (\<lambda>by_id.
           io_bind (io_read (load_record_by_revision root float_of key (pi_revision p) verify_body)) (\<lambda>by_revision.
           io_bind (io_read (\<lambda>d. r_bind (head_beyond head (pi_revision p)) (\<lambda>b. r_guard b impossible_pending))) (\<lambda>_.
             recover_pending root float_of key verify_body p head by_id by_revision)))))"

section \<open>The operations\<close>

definition cf_stream_key :: "pyval \<Rightarrow> pyval \<Rightarrow> (run_id \<times> string) res" where
  "cf_stream_key run_id checkpoint_namespace =
     r_bind (normalize_checkpoint_run_id run_id) (\<lambda>r.
     r_bind (normalize_checkpoint_namespace checkpoint_namespace) (\<lambda>ns. Inr (r, ns)))"

definition cf_same_request :: "stored_checkpoint \<Rightarrow> checkpoint_request \<Rightarrow> bool res" where
  "cf_same_request c r =
     (if sc_run_id c = cw_run_id r \<and> sc_namespace c = cw_namespace r \<and> sc_checkpoint_id c = cw_checkpoint_id r
         \<and> sc_parent c = cw_parent r \<and> sc_serializer_name c = cw_serializer_name r
         \<and> sc_serializer_version c = cw_serializer_version r \<and> sc_content_type c = cw_content_type r
         \<and> sc_size c = int (length (cw_body r)) \<and> sc_digest c = body_digest (cw_body r)
      then r_bind (canonicalize_checkpoint_metadata (PDict (sc_metadata c))) (\<lambda>x.
           r_bind (canonicalize_checkpoint_metadata (PDict (cw_metadata r))) (\<lambda>y. Inr (x = y)))
      else Inr False)"

definition identity_conflict :: exn where
  "identity_conflict = cf_conflict_error ''Checkpoint identity conflicts with an existing immutable version.''
     ''CHECKPOINT_STORE_CONFLICT''"

definition stale_parent :: exn where
  "stale_parent = cf_conflict_error ''Checkpoint write conflicts with the current stream head.''
     ''CHECKPOINT_STORE_STALE_PARENT''"

definition revision_after :: "stream_head option \<Rightarrow> checkpoint_request \<Rightarrow> int res" where
  "revision_after head r =
     (case head of
        None \<Rightarrow> if cw_parent r \<noteq> None then Inl stale_parent else Inr 1
      | Some h \<Rightarrow>
          if cw_parent r \<noteq> Some (hd_checkpoint_id h) then Inl stale_parent
          else r_bind (int_operand (hd_revision h)) (\<lambda>n. Inr (n + 1)))"

definition pending_of :: "stored_checkpoint \<Rightarrow> string \<Rightarrow> string \<Rightarrow> pending_intent" where
  "pending_of c body digest = \<lparr>pi_run_id = sc_run_id c, pi_namespace = sc_namespace c,
     pi_checkpoint_id = sc_checkpoint_id c, pi_parent = sc_parent c, pi_revision = PInt (sc_revision c),
     pi_body_digest = PStr (body_digest body), pi_record_digest = PStr digest\<rparr>"

definition publish_body :: "path \<Rightarrow> stored_checkpoint \<Rightarrow> string \<Rightarrow> unit io" where
  "publish_body root c body =
     io_bind (publish_immutable_bytes (cf_body_path root (sc_digest c)) body) (\<lambda>created.
       io_when (\<not> created)
         (io_read (\<lambda>d. r_bind (cf_read_file (cf_body_path root (sc_digest c)) ''body'' (Some (sc_size c)) False d)
           (\<lambda>found. r_guard (found \<noteq> Some body)
             (cf_mismatch ''a body integrity failure.'' ''BODY_INTEGRITY_FAILURE'')))))"

text \<open>The record is already there under its identifier.\<close>

definition commit_existing ::
  "path \<Rightarrow> (string \<Rightarrow> pyfloat) \<Rightarrow> run_id \<times> string \<Rightarrow> stored_checkpoint \<Rightarrow> path \<Rightarrow> path \<Rightarrow> stored_checkpoint io" where
  "commit_existing root float_of key c by_id by_revision =
     io_bind (io_read (load_record_by_id root float_of key (sc_checkpoint_id c) True)) (\<lambda>existing.
       case existing of
         None \<Rightarrow> io_raise identity_conflict
       | Some x \<Rightarrow>
           if \<not> checkpoint_eq x c then io_raise identity_conflict
           else
             io_bind (io_read (load_record_by_revision root float_of key (PInt (sc_revision c)) True)) (\<lambda>other.
             io_bind (io_when (other = None)
               (io_bind (link_no_overwrite by_id by_revision) (\<lambda>_. fsync_directory))) (\<lambda>_.
             io_bind (io_read (verify_hard_link_pair by_id by_revision ''record'')) (\<lambda>_.
             io_bind (io_read (\<lambda>d. r_bind (load_head root float_of key d) (\<lambda>h. case h of
                 None \<Rightarrow> Inr True
               | Some x \<Rightarrow> r_bind (int_operand (hd_revision x)) (\<lambda>m. Inr (m < sc_revision c))))) (\<lambda>behind.
             io_bind (io_when behind (write_head_of root key c)) (\<lambda>_.
             io_bind (cleanup_path (pending_path root key)) (\<lambda>_.
               io_read (\<lambda>d. clone_checkpoint x))))))))"

definition commit_record ::
  "path \<Rightarrow> (string \<Rightarrow> pyfloat) \<Rightarrow> run_id \<times> string \<Rightarrow> stored_checkpoint \<Rightarrow> path \<Rightarrow> stored_checkpoint io" where
  "commit_record root float_of key c record_temp =
     io_bind (io_read (\<lambda>d. by_revision_path root key (PInt (sc_revision c)))) (\<lambda>by_revision.
     let by_id = by_id_path root key (sc_checkpoint_id c) in
     io_bind (link_no_overwrite record_temp by_id) (\<lambda>created.
       if \<not> created then commit_existing root float_of key c by_id by_revision
       else
         io_bind (link_no_overwrite record_temp by_revision) (\<lambda>linked.
         io_bind (io_when (\<not> linked)
           (io_read (\<lambda>d. r_bind (load_record_by_revision root float_of key (PInt (sc_revision c)) True d) (\<lambda>existing.
             r_bind (r_guard (case existing of None \<Rightarrow> True | Some x \<Rightarrow> \<not> checkpoint_eq x c) identity_conflict) (\<lambda>_.
               verify_hard_link_pair by_id by_revision ''record'' d))))) (\<lambda>_.
         io_bind fsync_directory (\<lambda>_.
         io_bind fsync_directory (\<lambda>_.
         io_bind (write_head_of root key c) (\<lambda>_.
         io_bind (cleanup_path (pending_path root key)) (\<lambda>_.
           io_read (\<lambda>d. clone_checkpoint c)))))))))"

definition write_new ::
  "path \<Rightarrow> (string \<Rightarrow> pyfloat) \<Rightarrow> run_id \<times> string \<Rightarrow> checkpoint_request \<Rightarrow> stored_checkpoint io" where
  "write_new root float_of key r =
     io_bind (io_read (load_head root float_of key)) (\<lambda>head.
     io_bind (io_read (\<lambda>d. r_bind (revision_after head r) (build_checkpoint_descriptor r))) (\<lambda>c.
     io_bind (io_read (\<lambda>d. checkpoint_digest c)) (\<lambda>h.
     io_bind (publish_body root c (cw_body r)) (\<lambda>_.
     io_bind (write_pending root key (pending_of c (cw_body r) h)) (\<lambda>_.
     io_bind (io_read (\<lambda>d. r_bind (safe_record_payload c) (\<lambda>payload.
       encode_json (PDict (dict_set (AStr ''record_digest'') (PStr h) payload))))) (\<lambda>bytes.
     io_bind (write_temp_bytes (stream_dir root key @ [''records'']) bytes ''.json'') (\<lambda>record_temp.
       io_finally (commit_record root float_of key c record_temp) (cleanup_path record_temp))))))))"

definition cf_save :: "path \<Rightarrow> (string \<Rightarrow> pyfloat) \<Rightarrow> checkpoint_request \<Rightarrow> stored_checkpoint io" where
  "cf_save root float_of r =
     io_bind (io_read (\<lambda>d. cf_stream_key (run_id_value (cw_run_id r)) (PStr (cw_namespace r)))) (\<lambda>key.
     locked_stream root key
       (io_bind (recover_stream root float_of key True) (\<lambda>_.
        io_bind (io_read (load_record_by_id root float_of key (cw_checkpoint_id r) True)) (\<lambda>existing.
          case existing of
            Some c \<Rightarrow> io_read (\<lambda>d. r_bind (cf_same_request c r) (\<lambda>same.
              if same then clone_checkpoint c else Inl identity_conflict))
          | None \<Rightarrow> write_new root float_of key r))))"

text \<open>The reading that \<open>load_latest\<close> and \<open>load_checkpoint\<close> return.\<close>

definition read_result :: "path \<Rightarrow> stored_checkpoint \<Rightarrow> disk \<Rightarrow> checkpoint_read_result option res" where
  "read_result root c d =
     r_bind (clone_checkpoint c) (\<lambda>x.
     r_bind (cf_read_file (cf_body_path root (sc_digest c)) ''body'' (Some (sc_size c)) False d) (\<lambda>body.
       Inr (Some \<lparr>cr_checkpoint = x, cr_body = (case body of None \<Rightarrow> [] | Some b \<Rightarrow> b)\<rparr>)))"

definition head_mismatch :: exn where
  "head_mismatch = cf_mismatch ''a head mismatch.'' ''HEAD_MISMATCH''"

definition cf_load_latest ::
  "path \<Rightarrow> (string \<Rightarrow> pyfloat) \<Rightarrow> pyval \<Rightarrow> pyval \<Rightarrow> checkpoint_read_result option io" where
  "cf_load_latest root float_of run_id checkpoint_namespace =
     io_bind (io_read (\<lambda>d. cf_stream_key run_id checkpoint_namespace)) (\<lambda>key.
     locked_stream root key
       (io_bind (recover_stream root float_of key True) (\<lambda>_.
        io_read (\<lambda>d. r_bind (load_head root float_of key d) (\<lambda>head. case head of
            None \<Rightarrow> Inr None
          | Some h \<Rightarrow>
              r_bind (load_record_by_revision root float_of key (hd_revision h) True d) (\<lambda>found. case found of
                None \<Rightarrow> Inl (cf_mismatch ''a missing head record.'' ''MISSING_HEAD_RECORD'')
              | Some c \<Rightarrow>
                  r_bind (r_guard (sc_checkpoint_id c \<noteq> hd_checkpoint_id h) head_mismatch) (\<lambda>_.
                  r_bind (checkpoint_digest c) (\<lambda>digest.
                  r_bind (r_guard (PStr digest \<noteq> hd_record_digest h) head_mismatch) (\<lambda>_.
                  r_bind (record_links root key (sc_checkpoint_id c) (hd_revision h) d) (\<lambda>_.
                    read_result root c d))))))))))"

definition cf_load_checkpoint ::
  "path \<Rightarrow> (string \<Rightarrow> pyfloat) \<Rightarrow> pyval \<Rightarrow> pyval \<Rightarrow> pyval \<Rightarrow> checkpoint_read_result option io" where
  "cf_load_checkpoint root float_of run_id checkpoint_id checkpoint_namespace =
     io_bind (io_read (\<lambda>d. cf_stream_key run_id checkpoint_namespace)) (\<lambda>key.
     io_bind (io_read (\<lambda>d. normalize_checkpoint_id checkpoint_id)) (\<lambda>cid.
     locked_stream root key
       (io_bind (recover_stream root float_of key True) (\<lambda>_.
        io_read (\<lambda>d. r_bind (load_head root float_of key d) (\<lambda>head. case head of
            None \<Rightarrow> Inr None
          | Some h \<Rightarrow>
              r_bind (load_record_by_id root float_of key cid True d) (\<lambda>found. case found of
                None \<Rightarrow> Inr None
              | Some c \<Rightarrow>
                  r_bind (int_operand (hd_revision h)) (\<lambda>n.
                  r_bind (r_guard (n < sc_revision c) head_mismatch) (\<lambda>_.
                  r_bind (checkpoint_digest c) (\<lambda>digest.
                  r_bind (r_guard (PStr digest \<noteq> hd_record_digest h \<and> sc_revision c = n)
                    (cf_mismatch ''a head digest mismatch.'' ''HEAD_DIGEST_MISMATCH'')) (\<lambda>_.
                  r_bind (record_links root key (sc_checkpoint_id c) (PInt (sc_revision c)) d) (\<lambda>_.
                    read_result root c d))))))))))))"

fun list_records ::
  "path \<Rightarrow> (string \<Rightarrow> pyfloat) \<Rightarrow> run_id \<times> string \<Rightarrow> disk \<Rightarrow> int list \<Rightarrow> stored_checkpoint list res" where
  "list_records root float_of key d [] = Inr []"
| "list_records root float_of key d (revision # revisions) =
     r_bind (load_record_by_revision root float_of key (PInt revision) False d) (\<lambda>found. case found of
       None \<Rightarrow> Inl (cf_mismatch ''a revision gap.'' ''REVISION_GAP'')
     | Some c \<Rightarrow>
         r_bind (validate_listing_body root c d) (\<lambda>_.
         r_bind (clone_checkpoint c) (\<lambda>x.
         r_bind (list_records root float_of key d revisions) (\<lambda>cs. Inr (x # cs)))))"

definition cf_list_for_run ::
  "path \<Rightarrow> (string \<Rightarrow> pyfloat) \<Rightarrow> pyval \<Rightarrow> pyval \<Rightarrow> stored_checkpoint list io" where
  "cf_list_for_run root float_of run_id checkpoint_namespace =
     io_bind (io_read (\<lambda>d. cf_stream_key run_id checkpoint_namespace)) (\<lambda>key.
     locked_stream root key
       (io_bind (recover_stream root float_of key False) (\<lambda>_.
        io_read (\<lambda>d. r_bind (load_head root float_of key d) (\<lambda>head. case head of
            None \<Rightarrow> Inr []
          | Some h \<Rightarrow>
              r_bind (validate_committed_chain root float_of key h False d) (\<lambda>committed.
              r_bind (audit_no_extra_finalized_records root float_of key committed d) (\<lambda>_.
              r_bind (int_operand (hd_revision h)) (\<lambda>n.
                list_records root float_of key d [1..n]))))))))"

text \<open>The constructor.\<close>

definition cf_open :: "path \<Rightarrow> bool \<Rightarrow> unit io" where
  "cf_open root absolute =
     (if \<not> absolute
      then io_raise (cf_validation_error ''Filesystem checkpoint store requires an absolute root path.''
        ''CHECKPOINT_STORE_INVALID_ROOT'')
      else io_bind (ensure_chain cf_unavailable root) (\<lambda>_.
        io_bind (ensure_chain cf_unavailable (root @ [''bodies'', ''sha256''])) (\<lambda>_.
          ensure_chain cf_unavailable (root @ [''streams'', ''sha256'']))))"

end
