(* ===== verification/Checkpoint_Reading.thy ===== *)
theory Checkpoint_Reading
  imports Checkpoint_Filesystem
begin

text \<open>
  What the filesystem checkpoint store writes reads back: the record of a checkpoint as the checkpoint,
  its metadata in the order of the keys, the head and the pending file as they were.
\<close>

section \<open>A file with a JSON object\<close>

lemma sorted_items_filter:
  "filter (\<lambda>(k, v). P k) (sorted_items kvs) = sorted_items (filter (\<lambda>(k, v). P k) kvs)"
proof -
  have "filter (\<lambda>(k, v). P k) (map (\<lambda>(k, v). (k, json_sorted v)) xs)
      = map (\<lambda>(k, v). (k, json_sorted v)) (filter (\<lambda>(k, v). P k) xs)" for xs
    by (induction xs) auto
  then show ?thesis by (simp add: sorted_items_def filter_sort)
qed

lemma json_bytes_sorted_items: "json_bytes (PDict (sorted_items kvs)) = json_bytes (PDict kvs)"
  using json_bytes_sorted [of "PDict kvs"] unfolding json_sorted_PDict .

lemma read_canonical_pdict:
  assumes "look d p = Some (File n (json_bytes (pdict its)))" and "json_ok f (pdict its)"
    and "length (json_bytes (pdict its)) \<le> JSON_LIMIT"
  shows "\<exists>out. read_canonical_json f p purpose missing_ok d = Inr (Some out)
    \<and> out = sorted_items (map (\<lambda>(k, v). (AStr k, v)) its)
    \<and> (\<forall>ks. has_keys ks out \<longleftrightarrow> set (map fst its) = set ks)
    \<and> (\<forall>k v. map_of its k = Some v \<longrightarrow> payload_item out k = json_sorted v)"
proof -
  obtain out where out: "decode_json_object f (json_bytes (pdict its)) JSON_LIMIT = Some out"
    "PDict out = json_sorted (pdict its)"
    using decode_json_bytes assms(2,3) unfolding pdict_def by blast
  have o: "out = sorted_items (map (\<lambda>(k, v). (AStr k, v)) its)"
    using out(2) unfolding pdict_def json_sorted_PDict pyval.inject .
  have "encode_json (PDict out) = Inr (json_bytes (pdict its))"
    unfolding out(2) encode_json_ok [OF json_ok_sorted [OF assms(2)]] json_bytes_sorted ..
  then have "read_canonical_json f p purpose missing_ok d = Inr (Some out)"
    using assms(1,3) out(1) by (simp add: read_canonical_json_def cf_read_file_def)
  then show ?thesis using o decode_pdict [OF assms(2,3)] out(1) by auto
qed

section \<open>Records\<close>

definition ck_view :: "stored_checkpoint \<Rightarrow> stored_checkpoint" where
  "ck_view c = c\<lparr>sc_metadata := sorted_items (sc_metadata c)\<rparr>"

definition record_hash :: "stored_checkpoint \<Rightarrow> string" where
  "record_hash c = body_digest (json_bytes (pdict (record_fields c)))"

definition record_bytes :: "stored_checkpoint \<Rightarrow> string" where
  "record_bytes c = json_bytes (pdict (record_fields c @ [(''record_digest'', PStr (record_hash c))]))"

definition head_bytes :: "stored_checkpoint \<Rightarrow> string" where
  "head_bytes c = json_bytes (head_payload (head_of c (record_hash c)))"

definition pending_bytes :: "stored_checkpoint \<Rightarrow> string \<Rightarrow> string" where
  "pending_bytes c body = json_bytes (pending_payload (pending_of c body (record_hash c)))"

text \<open>A checkpoint that can be stored: the description of a request whose files stay within the limit.\<close>

definition storable :: "(string \<Rightarrow> pyfloat) \<Rightarrow> nat \<times> checkpoint_request \<Rightarrow> bool" where
  "storable f p \<longleftrightarrow> wf_checkpoint (snd p) \<and> 0 < fst p \<and> json_ok f (PDict (cw_metadata (snd p)))
     \<and> length (record_bytes (versioned p)) \<le> JSON_LIMIT \<and> length (head_bytes (versioned p)) \<le> JSON_LIMIT
     \<and> length (pending_bytes (versioned p) (cw_body (snd p))) \<le> JSON_LIMIT"

lemma versioned_simps [simp]:
  "sc_run_id (versioned p) = cw_run_id (snd p)" "sc_namespace (versioned p) = cw_namespace (snd p)"
  "sc_checkpoint_id (versioned p) = cw_checkpoint_id (snd p)" "sc_parent (versioned p) = cw_parent (snd p)"
  "sc_revision (versioned p) = int (fst p)" "sc_size (versioned p) = int (length (cw_body (snd p)))"
  "sc_digest (versioned p) = body_digest (cw_body (snd p))" "sc_metadata (versioned p) = cw_metadata (snd p)"
  by (simp_all add: versioned_def describe_checkpoint_def)

lemma ck_view_simps [simp]:
  "sc_run_id (ck_view c) = sc_run_id c" "sc_namespace (ck_view c) = sc_namespace c"
  "sc_checkpoint_id (ck_view c) = sc_checkpoint_id c" "sc_parent (ck_view c) = sc_parent c"
  "sc_revision (ck_view c) = sc_revision c" "sc_size (ck_view c) = sc_size c"
  "sc_digest (ck_view c) = sc_digest c" "sc_metadata (ck_view c) = sorted_items (sc_metadata c)"
  "sc_serializer_name (ck_view c) = sc_serializer_name c" "sc_content_type (ck_view c) = sc_content_type c"
  "sc_serializer_version (ck_view c) = sc_serializer_version c"
  by (simp_all add: ck_view_def)

lemma record_fields_view: "json_bytes (pdict (record_fields (ck_view c))) = json_bytes (pdict (record_fields c))"
  unfolding record_fields_def ck_view_simps
  using json_bytes_metadata [of "[(''schema_version'', PInt 1), (''run_id'', run_id_value (sc_run_id c)),
      (''checkpoint_namespace'', PStr (sc_namespace c)), (''checkpoint_id'', PStr (sc_checkpoint_id c)),
      (''parent_checkpoint_id'', opt_str (sc_parent c)), (''revision'', PInt (sc_revision c)),
      (''serializer_name'', PStr (sc_serializer_name c)),
      (''serializer_version'', PInt (sc_serializer_version c)),
      (''content_type'', PStr (sc_content_type c)), (''size'', PInt (sc_size c)),
      (''digest'', PStr (sc_digest c))]" "''metadata''" "sc_metadata c"]
  by simp

lemma record_hash_view [simp]: "record_hash (ck_view c) = record_hash c"
  by (simp add: record_hash_def record_fields_view)

lemma json_ok_run [simp]: "json_ok f (run_id_value x)" "json_sorted (run_id_value x) = run_id_value x"
  by (cases x; simp)+

lemma json_ok_opt [simp]: "json_ok f (opt_str x)" "json_sorted (opt_str x) = opt_str x"
  by (cases x; simp)+

lemma record_json_ok:
  assumes "json_ok f (PDict (sc_metadata c))"
  shows "json_ok f (pdict (record_fields c))"
    and "json_ok f (pdict (record_fields c @ [(''record_digest'', PStr h)]))"
  using assms unfolding record_fields_def json_ok_pdict by (simp_all del: json_ok.simps(4))

lemma record_digest_key: "filter (\<lambda>(k, v). k \<noteq> AStr ''record_digest'')
    (map (\<lambda>(k, v). (AStr k, v)) (record_fields c @ [(''record_digest'', h)])) = map (\<lambda>(k, v). (AStr k, v)) (record_fields c)"
  by (simp add: record_fields_def)

lemma encoded_digest_record:
  assumes "json_ok f (PDict (sc_metadata c))"
  shows "encoded_digest (pdict (record_fields c)) = Inr (record_hash c)"
  unfolding encoded_digest_def encode_json_ok [OF record_json_ok(1) [OF assms]] by (simp add: record_hash_def)

lemma safe_record_payload_ok:
  assumes "json_ok f (PDict (sc_metadata c))"
  shows "safe_record_payload c =
     Inr (map (\<lambda>(k, v). (AStr k, v)) (record_fields c @ [(''record_digest'', PStr (record_hash c))]))"
  unfolding safe_record_payload_def encoded_digest_record [OF assms] by simp

lemma checkpoint_digest_ok:
  assumes "json_ok f (PDict (sc_metadata c))"
  shows "checkpoint_digest c = Inr (record_hash c)"
  using encoded_digest_record [OF assms]
  unfolding checkpoint_digest_def record_digest_def safe_record_payload_ok [OF assms] r_bind_simps
    record_digest_key pdict_def .

lemma record_bytes_written:
  assumes "json_ok f (PDict (sc_metadata c))"
  shows "r_bind (safe_record_payload c) (\<lambda>payload.
      encode_json (PDict (dict_set (AStr ''record_digest'') (PStr (record_hash c)) payload))) = Inr (record_bytes c)"
proof -
  have "dict_set (AStr ''record_digest'') (PStr h) (map (\<lambda>(k, v). (AStr k, v)) (record_fields c @ [(''record_digest'', PStr h)]))
      = map (\<lambda>(k, v). (AStr k, v)) (record_fields c @ [(''record_digest'', PStr h)])" for h
    by (simp add: record_fields_def)
  then show ?thesis
    using safe_record_payload_ok [OF assms] encode_json_ok [OF record_json_ok(2) [OF assms]]
    by (simp add: record_bytes_def pdict_def)
qed

lemma storable_simps:
  assumes "storable f p"
  shows "wf_checkpoint (snd p)" "0 < fst p" "json_ok f (PDict (sc_metadata (versioned p)))"
    "json_ok f (PDict (sorted_items (cw_metadata (snd p))))"
    "checkpoint_digest (versioned p) = Inr (record_hash (versioned p))"
    "checkpoint_digest (ck_view (versioned p)) = Inr (record_hash (versioned p))"
proof -
  show "wf_checkpoint (snd p)" "0 < fst p" and j: "json_ok f (PDict (sc_metadata (versioned p)))"
    using assms by (simp_all add: storable_def)
  show k: "json_ok f (PDict (sorted_items (cw_metadata (snd p))))"
    using json_ok_sorted [OF j] unfolding json_sorted_PDict by simp
  show "checkpoint_digest (versioned p) = Inr (record_hash (versioned p))" by (rule checkpoint_digest_ok [OF j])
  show "checkpoint_digest (ck_view (versioned p)) = Inr (record_hash (versioned p))"
    using checkpoint_digest_ok [of f "ck_view (versioned p)"] k by simp
qed

lemma clone_view:
  assumes "storable f p"
  shows "clone_checkpoint (ck_view (versioned p)) = Inr (ck_view (versioned p))"
    and "clone_checkpoint (versioned p) = Inr (versioned p)"
proof -
  let ?q = "(snd p)\<lparr>cw_metadata := sorted_items (cw_metadata (snd p))\<rparr>"
  have m: "normalize_checkpoint_metadata (PDict (cw_metadata (snd p))) = Inr (cw_metadata (snd p))"
    using storable_simps(1) [OF assms] by (simp add: wf_checkpoint_def)
  have "wf_checkpoint ?q"
    using storable_simps(1) [OF assms] checkpoint_metadata_sorted [OF m]
    by (simp add: wf_checkpoint_def del: normalize_checkpoint_metadata.simps)
  moreover have "ck_view (versioned p) = describe_checkpoint ?q (int (fst p))"
    by (simp add: ck_view_def versioned_def describe_checkpoint_def)
  ultimately show "clone_checkpoint (ck_view (versioned p)) = Inr (ck_view (versioned p))"
    using build_checkpoint_descriptor_wf(2) storable_simps(2) [OF assms] by simp
  show "clone_checkpoint (versioned p) = Inr (versioned p)"
    using build_checkpoint_descriptor_wf(2) [OF storable_simps(1) [OF assms]] storable_simps(2) [OF assms]
    by (simp add: versioned_def)
qed

lemma has_record_keys: "set (map fst (record_fields c @ [(''record_digest'', h)])) = set record_keys"
  by (simp add: record_fields_def record_keys_def)

lemma normalize_record_ok:
  assumes s: "storable f p"
    and out: "out = sorted_items (map (\<lambda>(k, v). (AStr k, v))
      (record_fields (versioned p) @ [(''record_digest'', PStr (record_hash (versioned p)))]))"
    "has_keys record_keys out"
    "\<forall>k v. map_of (record_fields (versioned p) @ [(''record_digest'', PStr (record_hash (versioned p)))]) k = Some v
      \<longrightarrow> payload_item out k = json_sorted v"
  shows "normalize_record_payload out = Inr (ck_view (versioned p))"
proof -
  let ?c = "versioned p"
  have items: "payload_item out ''schema_version'' = PInt 1" "payload_item out ''record_digest'' = PStr (record_hash ?c)"
    "payload_item out ''run_id'' = run_id_value (sc_run_id ?c)"
    "payload_item out ''checkpoint_namespace'' = PStr (sc_namespace ?c)"
    "payload_item out ''checkpoint_id'' = PStr (sc_checkpoint_id ?c)"
    "payload_item out ''parent_checkpoint_id'' = opt_str (sc_parent ?c)"
    "payload_item out ''revision'' = PInt (sc_revision ?c)"
    "payload_item out ''serializer_name'' = PStr (sc_serializer_name ?c)"
    "payload_item out ''serializer_version'' = PInt (sc_serializer_version ?c)"
    "payload_item out ''content_type'' = PStr (sc_content_type ?c)" "payload_item out ''size'' = PInt (sc_size ?c)"
    "payload_item out ''digest'' = PStr (sc_digest ?c)"
    "payload_item out ''metadata'' = PDict (sorted_items (sc_metadata ?c))"
    using out(3) by (simp_all add: record_fields_def json_sorted_PDict del: json_sorted.simps(4) versioned_simps)
  have "record_digest out = Inr (record_hash ?c)"
  proof -
    have e: "encode_json (PDict (sorted_items (map (\<lambda>(k, v). (AStr k, v)) (record_fields ?c))))
        = Inr (json_bytes (pdict (record_fields ?c)))"
      using encode_json_ok [OF json_ok_sorted [OF record_json_ok(1) [OF storable_simps(3) [OF s]]]]
      unfolding json_bytes_sorted unfolding pdict_def json_sorted_PDict json_bytes_sorted_items .
    show ?thesis
      unfolding record_digest_def out(1) sorted_items_filter record_digest_key
      by (simp add: encoded_digest_def e record_hash_def)
  qed
  moreover have "is_record_digest (PStr (record_hash ?c))" by (simp add: record_hash_def)
  moreover have "r_bind (normalize_checkpoint_run_id (run_id_value (sc_run_id ?c))) (\<lambda>run.
      r_bind (normalize_checkpoint_namespace (PStr (sc_namespace ?c))) (\<lambda>ns.
      r_bind (normalize_checkpoint_id (PStr (sc_checkpoint_id ?c))) (\<lambda>cid.
      r_bind (optional_checkpoint_id (opt_str (sc_parent ?c))) (\<lambda>parent.
        StoredCheckpoint (run_id_value run) (PStr ns) (PStr cid) (opt_str parent) (PInt (sc_revision ?c))
          (PStr (sc_serializer_name ?c)) (PInt (sc_serializer_version ?c)) (PStr (sc_content_type ?c))
          (PInt (sc_size ?c)) (PStr (sc_digest ?c)) (PDict (sorted_items (sc_metadata ?c)))))))
      = Inr (ck_view ?c)"
  proof -
    have n: "normalize_checkpoint_run_id (run_id_value (sc_run_id ?c)) = Inr (sc_run_id ?c)"
      "normalize_checkpoint_namespace (PStr (sc_namespace ?c)) = Inr (sc_namespace ?c)"
      "normalize_checkpoint_id (PStr (sc_checkpoint_id ?c)) = Inr (sc_checkpoint_id ?c)"
      "optional_checkpoint_id (opt_str (sc_parent ?c)) = Inr (sc_parent ?c)"
      using storable_simps(1) [OF s] unfolding wf_checkpoint_def versioned_simps
      by (simp_all only: ck_run_id_value ck_namespace_iff ck_id_iff optional_checkpoint_id_iff) auto
    show ?thesis
      unfolding n r_bind_simps using clone_view(1) [OF s] unfolding clone_checkpoint_def ck_view_simps .
  qed
  ultimately show ?thesis
    unfolding normalize_record_payload_def Let_def items
    by (simp add: out(2) atom_eq_def checkpoint_error_as_def)
qed

lemma load_record_ok:
  assumes "storable f p" and "look d q = Some (File n (record_bytes (versioned p)))"
    and "look d (cf_body_path root (body_digest (cw_body (snd p)))) = Some (File m (cw_body (snd p)))"
  shows "load_record root f q verify d = Inr (Some (ck_view (versioned p)))"
    and "record_from_path f q d = Inr (ck_view (versioned p))"
    and "verify_record_body root (ck_view (versioned p)) d = Inr ()"
    and "validate_listing_body root (ck_view (versioned p)) d = Inr ()"
proof -
  have l: "length (json_bytes (pdict (record_fields (versioned p) @ [(''record_digest'', PStr (record_hash (versioned p)))]))) \<le> JSON_LIMIT"
    using assms(1) by (simp add: storable_def record_bytes_def)
  note r = read_canonical_pdict [OF assms(2) [unfolded record_bytes_def]
      record_json_ok(2) [OF storable_simps(3) [OF assms(1)]] l]
  have n: "\<exists>out. read_canonical_json f q ''record'' ok d = Inr (Some out)
      \<and> normalize_record_payload out = Inr (ck_view (versioned p))" for ok
    using r [of "''record''" ok] has_record_keys normalize_record_ok [OF assms(1)] by blast
  show v: "verify_record_body root (ck_view (versioned p)) d = Inr ()"
    using assms(3) by (simp add: verify_record_body_def cf_read_file_def)
  show "validate_listing_body root (ck_view (versioned p)) d = Inr ()"
    using assms(3) by (simp add: validate_listing_body_def)
  show "load_record root f q verify d = Inr (Some (ck_view (versioned p)))"
    using n [of True] v by (auto simp: load_record_def)
  show "record_from_path f q d = Inr (ck_view (versioned p))"
    using n [of False] by (auto simp: record_from_path_def)
qed

section \<open>Heads and pending writes\<close>

lemma load_head_ok:
  assumes "storable f p" and "look d (head_path root key) = Some (File n (head_bytes (versioned p)))"
  shows "load_head root f key d = Inr (Some (head_of (versioned p) (record_hash (versioned p))))"
proof -
  let ?c = "versioned p"
  let ?h = "head_of ?c (record_hash ?c)"
  let ?d = "[(''schema_version'', PInt 1), (''run_id'', run_id_value (hd_run_id ?h)),
      (''checkpoint_namespace'', PStr (hd_namespace ?h)), (''checkpoint_id'', PStr (hd_checkpoint_id ?h)),
      (''revision'', hd_revision ?h), (''record_digest'', hd_record_digest ?h)]"
  have ok: "json_ok f (pdict ?d)" unfolding json_ok_pdict by (simp add: head_of_def)
  have l: "length (json_bytes (pdict ?d)) \<le> JSON_LIMIT"
    using assms(1) unfolding storable_def head_bytes_def head_payload_def by blast
  note r = read_canonical_pdict [OF assms(2) [unfolded head_bytes_def head_payload_def] ok l]
  have n: "normalize_checkpoint_run_id (run_id_value (sc_run_id ?c)) = Inr (sc_run_id ?c)"
    "normalize_checkpoint_namespace (PStr (sc_namespace ?c)) = Inr (sc_namespace ?c)"
    "normalize_checkpoint_id (PStr (sc_checkpoint_id ?c)) = Inr (sc_checkpoint_id ?c)"
    using storable_simps(1) [OF assms(1)] unfolding wf_checkpoint_def versioned_simps
    by (simp_all only: ck_run_id_value ck_namespace_iff ck_id_iff)
  have k: "set (map fst ?d) = set head_keys" by (simp add: head_keys_def)
  have "head_from_path f (head_path root key) d = Inr ?h"
  proof -
    obtain out where out: "read_canonical_json f (head_path root key) ''head'' False d = Inr (Some out)"
      "has_keys head_keys out" "\<forall>k v. map_of ?d k = Some v \<longrightarrow> payload_item out k = json_sorted v"
      using r [of "''head''" False] k by blast
    have items: "payload_item out ''schema_version'' = PInt 1" "payload_item out ''run_id'' = run_id_value (sc_run_id ?c)"
      "payload_item out ''checkpoint_namespace'' = PStr (sc_namespace ?c)"
      "payload_item out ''checkpoint_id'' = PStr (sc_checkpoint_id ?c)"
      "payload_item out ''revision'' = PInt (sc_revision ?c)"
      "payload_item out ''record_digest'' = PStr (record_hash ?c)"
      using out(3) by (simp_all add: head_of_def del: versioned_simps)
    show ?thesis
      unfolding head_from_path_def out(1) r_bind_simps option.case Let_def items n
      by (simp add: out(2) atom_eq_def checkpoint_error_as_def head_of_def)
  qed
  then show ?thesis using r [of "''head''" True] by (auto simp: load_head_def)
qed

lemma load_pending_ok:
  assumes "storable f p"
    and "look d (pending_path root key) = Some (File n (pending_bytes (versioned p) (cw_body (snd p))))"
  shows "load_pending root f key d = Inr (Some (pending_of (versioned p) (cw_body (snd p)) (record_hash (versioned p))))"
proof -
  let ?c = "versioned p"
  let ?h = "pending_of ?c (cw_body (snd p)) (record_hash ?c)"
  let ?d = "[(''schema_version'', PInt 1), (''run_id'', run_id_value (pi_run_id ?h)),
      (''checkpoint_namespace'', PStr (pi_namespace ?h)), (''checkpoint_id'', PStr (pi_checkpoint_id ?h)),
      (''parent_checkpoint_id'', opt_str (pi_parent ?h)), (''revision'', pi_revision ?h),
      (''body_digest'', pi_body_digest ?h), (''record_digest'', pi_record_digest ?h)]"
  have ok: "json_ok f (pdict ?d)" unfolding json_ok_pdict by (simp add: pending_of_def)
  have l: "length (json_bytes (pdict ?d)) \<le> JSON_LIMIT"
    using assms(1) unfolding storable_def pending_bytes_def pending_payload_def by blast
  note r = read_canonical_pdict [OF assms(2) [unfolded pending_bytes_def pending_payload_def] ok l]
  have n: "normalize_checkpoint_run_id (run_id_value (sc_run_id ?c)) = Inr (sc_run_id ?c)"
    "normalize_checkpoint_namespace (PStr (sc_namespace ?c)) = Inr (sc_namespace ?c)"
    "normalize_checkpoint_id (PStr (sc_checkpoint_id ?c)) = Inr (sc_checkpoint_id ?c)"
    "optional_checkpoint_id (opt_str (sc_parent ?c)) = Inr (sc_parent ?c)"
    using storable_simps(1) [OF assms(1)] unfolding wf_checkpoint_def versioned_simps
    by (simp_all only: ck_run_id_value ck_namespace_iff ck_id_iff optional_checkpoint_id_iff) auto
  have k: "set (map fst ?d) = set pending_keys" by (simp add: pending_keys_def)
  have "pending_from_path f (pending_path root key) d = Inr ?h"
  proof -
    obtain out where out: "read_canonical_json f (pending_path root key) ''pending'' False d = Inr (Some out)"
      "has_keys pending_keys out" "\<forall>k v. map_of ?d k = Some v \<longrightarrow> payload_item out k = json_sorted v"
      using r [of "''pending''" False] k by blast
    have items: "payload_item out ''schema_version'' = PInt 1" "payload_item out ''run_id'' = run_id_value (sc_run_id ?c)"
      "payload_item out ''checkpoint_namespace'' = PStr (sc_namespace ?c)"
      "payload_item out ''checkpoint_id'' = PStr (sc_checkpoint_id ?c)"
      "payload_item out ''parent_checkpoint_id'' = opt_str (sc_parent ?c)"
      "payload_item out ''revision'' = PInt (sc_revision ?c)"
      "payload_item out ''body_digest'' = PStr (body_digest (cw_body (snd p)))"
      "payload_item out ''record_digest'' = PStr (record_hash ?c)"
      using out(3) by (simp_all add: pending_of_def del: versioned_simps)
    show ?thesis
      unfolding pending_from_path_def out(1) r_bind_simps option.case Let_def items n
      by (simp add: out(2) atom_eq_def checkpoint_error_as_def pending_of_def)
  qed
  then show ?thesis using r [of "''pending''" True] by (auto simp: load_pending_def)
qed

end
