(* ===== verification/Checkpoint_Layout.thy ===== *)
theory Checkpoint_Layout
  imports Checkpoint_Reading
begin

text \<open>
  The files of the filesystem checkpoint store as places, with their names apart from one another and
  from those of directories and temporary files, and the invariant of a stream's files: a head log, a
  log by identifier, a log by revision and a pending write, which agree but for the steps of the one
  write that is under way.
\<close>

section \<open>Places\<close>

type_synonym stream = "run_id \<times> string"

datatype place = Body_At string | Head_At stream | Pending_At stream | Id_At stream string | Rev_At stream nat

definition revision_path :: "path \<Rightarrow> stream \<Rightarrow> nat \<Rightarrow> path" where
  "revision_path root key n = stream_dir root key @ [''records'', ''by-revision'', revision_text (int n)]"

definition body_file :: "path \<Rightarrow> string \<Rightarrow> path" where
  "body_file root b = cf_body_path root (body_digest b)"

fun place_path :: "path \<Rightarrow> place \<Rightarrow> path" where
  "place_path root (Body_At b) = body_file root b"
| "place_path root (Head_At k) = head_path root k"
| "place_path root (Pending_At k) = pending_path root k"
| "place_path root (Id_At k c) = by_id_path root k c"
| "place_path root (Rev_At k n) = revision_path root k n"

text \<open>
  What the store takes digests of: bodies, identifiers of checkpoints and of streams. Nothing is assumed
  of digests but that those of two names of the same kind differ.
\<close>

record names =
  nm_bodies :: "string set"
  nm_ids :: "string set"
  nm_streams :: "string set"

definition apart :: "names \<Rightarrow> bool" where
  "apart U \<longleftrightarrow> collision_free (nm_bodies U) \<and> collision_free (nm_ids U) \<and> collision_free (nm_streams U)"

lemma apart_inj:
  assumes "apart U"
  shows "a \<in> nm_bodies U \<Longrightarrow> b \<in> nm_bodies U \<Longrightarrow> sha256_hex a = sha256_hex b \<longleftrightarrow> a = b"
    and "a \<in> nm_ids U \<Longrightarrow> b \<in> nm_ids U \<Longrightarrow> sha256_hex a = sha256_hex b \<longleftrightarrow> a = b"
    and "a \<in> nm_streams U \<Longrightarrow> b \<in> nm_streams U \<Longrightarrow> sha256_hex a = sha256_hex b \<longleftrightarrow> a = b"
  using assms unfolding apart_def collision_free_def by (auto dest: inj_onD)

definition stream_known :: "names \<Rightarrow> stream \<Rightarrow> bool" where
  "stream_known U k \<longleftrightarrow> stream_identity_bytes k \<in> nm_streams U"

fun place_known :: "names \<Rightarrow> place \<Rightarrow> bool" where
  "place_known U (Body_At b) = (b \<in> nm_bodies U)"
| "place_known U (Head_At k) = stream_known U k"
| "place_known U (Pending_At k) = stream_known U k"
| "place_known U (Id_At k c) = (stream_known U k \<and> utf8 c \<in> nm_ids U)"
| "place_known U (Rev_At k n) = stream_known U k"

lemma digits_value_zeros: "digits_value (replicate m (CHR ''0'') @ t) = digits_value t"
proof (induction t rule: rev_induct)
  case Nil
  show ?case by (induction m) (simp_all add: digits_value_def)
next
  case (snoc c t)
  then show ?case using digits_value_append [of "replicate m (CHR ''0'') @ t" c] digits_value_append [of t c] by simp
qed

lemma revision_text_inj: "revision_text (int m) = revision_text (int n) \<longleftrightarrow> m = n"
proof
  assume "revision_text (int m) = revision_text (int n)"
  then have "replicate (20 - length (nat_text m)) (CHR ''0'') @ nat_text m
      = replicate (20 - length (nat_text n)) (CHR ''0'') @ nat_text n"
    by (simp add: revision_text_def int_text_def Let_def)
  then have "digits_value (nat_text m) = digits_value (nat_text n)" by (metis digits_value_zeros)
  then show "m = n" by (simp add: digits_value_nat_text)
qed simp

lemma by_revision_path_int: "by_revision_path root key (PInt (int n)) =
    (if n = 0 then Inl bad_revision else Inr (revision_path root key n))"
  by (simp add: by_revision_path_def revision_filename_def revision_path_def)

lemma body_path_digest [simp]: "cf_body_path root (body_digest b) =
    root @ [''bodies'', ''sha256'', take 2 (sha256_hex b), take 2 (drop 2 (sha256_hex b)), sha256_hex b @ ''.blob'']"
proof -
  have "body_digest b = ''sha256:'' @ sha256_hex b" by (simp add: body_digest_def)
  then show ?thesis by (simp add: cf_body_path_def startswith_def Let_def)
qed

lemma stream_identity_inj:
  assumes "stream_identity_bytes j = stream_identity_bytes k"
  shows "j = k"
proof -
  let ?run = "\<lambda>k :: stream. case fst k of
      Run_Int i \<Rightarrow> pdict [(''type'', PStr ''int''), (''value'', PInt i)]
    | Run_Str s \<Rightarrow> pdict [(''type'', PStr ''str''), (''value'', PStr s)]"
  let ?d = "\<lambda>k. [(''schema_version'', PInt 1), (''run_id'', ?run k), (''checkpoint_namespace'', PStr (snd k))]"
  have ok: "json_ok (\<lambda>_. Nan_Float []) (pdict (?d k))" for k
    by (cases "fst k") (simp_all add: json_ok_pdict del: json_ok.simps(4))
  have "json_compact (pdict (?d j)) = json_compact (pdict (?d k))"
    using assms utf8_inj unfolding stream_identity_bytes_def json_bytes_def by blast
  then have "Some (json_sorted (pdict (?d j))) = Some (json_sorted (pdict (?d k)))"
    using json_loads_compact [OF ok] by metis
  then have s: "sorted_items (map (\<lambda>(k, v). (AStr k, v)) (?d j)) = sorted_items (map (\<lambda>(k, v). (AStr k, v)) (?d k))"
    unfolding pdict_def json_sorted_PDict by simp
  have wf: "wf_dict (map (\<lambda>(k, v). (AStr k, v)) (?d k))" for k by (simp add: wf_dict_def)
  have m: "map_option json_sorted (map_of (?d j) x) = map_option json_sorted (map_of (?d k) x)" for x
    using s map_of_sorted_items [OF wf] map_of_pdict by metis
  have "snd j = snd k" using m [of "''checkpoint_namespace''"] by simp
  moreover have r: "json_sorted (?run j) = json_sorted (?run k)" using m [of "''run_id''"] by simp
  then have "fst j = fst k" by (cases "fst j"; cases "fst k"; simp add: pdict_def)
  ultimately show ?thesis by (simp add: prod_eq_iff)
qed

section \<open>Names of directories, temporary files and files\<close>

definition dir_name :: "string \<Rightarrow> bool" where
  "dir_name c \<longleftrightarrow> c \<in> {''bodies'', ''sha256'', ''streams'', ''records'', ''by-id'', ''by-revision''} \<or> list_all is_hex c"

definition file_name :: "string \<Rightarrow> bool" where
  "file_name c \<longleftrightarrow> \<not> dir_name c \<and> c \<noteq> ''lock'' \<and> (\<forall>x. c \<noteq> temp_prefix @ x)"

lemma hex_dir_names [simp]:
  "dir_name (sha256_hex b)" "dir_name (take n (sha256_hex b))" "dir_name (take n (drop m (sha256_hex b)))"
proof -
  have "list_all is_hex (sha256_hex b)" using sha256_hex_digits by (simp add: list_all_iff)
  moreover have "set (take n (drop m (sha256_hex b))) \<subseteq> set (sha256_hex b)" for m n
    by (meson set_drop_subset set_take_subset subset_trans)
  ultimately show "dir_name (sha256_hex b)" "dir_name (take n (sha256_hex b))"
    "dir_name (take n (drop m (sha256_hex b)))"
    using set_take_subset [of n "sha256_hex b"] by (auto simp: dir_name_def list_all_iff subset_iff)
qed

lemma dir_names [simp]: "dir_name ''bodies''" "dir_name ''sha256''" "dir_name ''streams''" "dir_name ''records''"
  "dir_name ''by-id''" "dir_name ''by-revision''"
  by (simp_all add: dir_name_def)

lemma dotted_not_dir: "CHR ''.'' \<in> set c \<Longrightarrow> \<not> dir_name c"
  using dot_not_hex unfolding dir_name_def list_all_iff by (auto simp del: dot_not_hex)

lemma temp_not_dir [simp]: "\<not> dir_name (temp_prefix @ x)"
  by (rule dotted_not_dir) (simp add: temp_prefix_def)

lemma lock_not_dir [simp]: "\<not> dir_name ''lock''"
  by (simp add: dir_name_def, code_simp)

lemma file_nameI: "CHR ''.'' \<in> set c \<Longrightarrow> c \<noteq> [] \<Longrightarrow> hd c \<noteq> CHR ''.'' \<Longrightarrow> file_name c"
  by (auto simp: file_name_def dotted_not_dir temp_prefix_def)

lemma hd_hex: "hd (sha256_hex b @ x) \<noteq> CHR ''.''"
  using sha256_hex_hd [of b] by auto

lemma hd_revision_text: "revision_text (int n) \<noteq> [] \<and> hd (revision_text (int n)) \<noteq> CHR ''.''"
proof -
  have "is_digit (hd (nat_text n))" by (rule hd_nat_text)
  then have "hd (nat_text n) \<noteq> CHR ''.''" by (auto simp: is_digit_def)
  then show ?thesis by (cases "20 - length (nat_text n)") (auto simp: revision_text_def int_text_def Let_def)
qed

definition place_dirs :: "place \<Rightarrow> string list" where
  "place_dirs pl = (case pl of
     Body_At b \<Rightarrow> [''bodies'', ''sha256'', take 2 (sha256_hex b), take 2 (drop 2 (sha256_hex b))]
   | Head_At k \<Rightarrow> [''streams'', ''sha256'', take 2 (stream_digest k), take 2 (drop 2 (stream_digest k)), stream_digest k]
   | Pending_At k \<Rightarrow> [''streams'', ''sha256'', take 2 (stream_digest k), take 2 (drop 2 (stream_digest k)), stream_digest k]
   | Id_At k c \<Rightarrow> [''streams'', ''sha256'', take 2 (stream_digest k), take 2 (drop 2 (stream_digest k)), stream_digest k,
       ''records'', ''by-id'', take 2 (checkpoint_id_digest c), take 2 (drop 2 (checkpoint_id_digest c))]
   | Rev_At k n \<Rightarrow> [''streams'', ''sha256'', take 2 (stream_digest k), take 2 (drop 2 (stream_digest k)), stream_digest k,
       ''records'', ''by-revision''])"

definition place_name :: "place \<Rightarrow> string" where
  "place_name pl = (case pl of
     Body_At b \<Rightarrow> sha256_hex b @ ''.blob'' | Head_At k \<Rightarrow> ''head.json'' | Pending_At k \<Rightarrow> ''pending.json''
   | Id_At k c \<Rightarrow> checkpoint_id_digest c @ ''.json'' | Rev_At k n \<Rightarrow> revision_text (int n))"

lemma place_path_parts: "place_path root pl = root @ place_dirs pl @ [place_name pl]"
  by (cases pl) (simp_all add: place_dirs_def place_name_def body_file_def head_path_def pending_path_def
      by_id_path_def revision_path_def stream_dir_def Let_def)

lemma butlast_place: "butlast (place_path root pl) = root @ place_dirs pl"
  unfolding place_path_parts by (simp add: butlast_append)

lemma place_dirs_names: "c \<in> set (place_dirs pl) \<Longrightarrow> dir_name c"
  by (cases pl) (auto simp: place_dirs_def stream_digest_def checkpoint_id_digest_def)

lemma place_name_file: "file_name (place_name pl)"
proof (cases pl)
  case (Rev_At k n)
  then show ?thesis
    using hd_revision_text [of n]
    by (intro file_nameI) (auto simp: place_name_def revision_text_def Let_def)
qed (auto intro!: file_nameI simp: place_name_def hd_hex checkpoint_id_digest_def)

definition cf_dirs :: "path \<Rightarrow> path set" where
  "cf_dirs root = {q. q \<noteq> [] \<and> (\<exists>pl. prefix q (root @ place_dirs pl))}"

definition cf_temps :: "path \<Rightarrow> path set" where
  "cf_temps root = {dir @ [temp_prefix @ x] | dir x. (\<exists>b. dir = root @ place_dirs (Body_At b))
       \<or> (\<exists>k. dir = stream_dir root k \<or> dir = stream_dir root k @ [''records''])}
     \<union> range (lock_path root)"

lemma stream_dir_parts: "stream_dir root k = root @ place_dirs (Head_At k)"
  by (simp add: stream_dir_def place_dirs_def Let_def)

lemma dirs_names:
  assumes "root @ ds @ [c] \<in> cf_dirs root"
  shows "dir_name c"
proof -
  obtain pl where "prefix (root @ ds @ [c]) (root @ place_dirs pl)" using assms by (auto simp: cf_dirs_def)
  then show ?thesis using in_prefix place_dirs_names by metis
qed

lemma place_fresh: "place_path root pl \<notin> cf_dirs root" "place_path root pl \<notin> cf_temps root"
proof -
  note f = place_name_file [of pl, unfolded file_name_def]
  show "place_path root pl \<notin> cf_dirs root" using dirs_names f unfolding place_path_parts by blast
  show "place_path root pl \<notin> cf_temps root"
  proof
    assume "place_path root pl \<in> cf_temps root"
    then have "last (place_path root pl) = ''lock'' \<or> (\<exists>x. last (place_path root pl) = temp_prefix @ x)"
      by (auto simp: cf_temps_def lock_path_def)
    then show False using f unfolding place_path_parts by simp
  qed
qed

lemma dirs_temps: "cf_dirs root \<inter> cf_temps root = {}"
proof -
  have "q \<notin> cf_dirs root" if t: "q \<in> cf_temps root" for q
  proof -
    consider b x where "q = root @ place_dirs (Body_At b) @ [temp_prefix @ x]"
      | k x where "q = root @ place_dirs (Head_At k) @ [temp_prefix @ x]"
      | k x where "q = root @ (place_dirs (Head_At k) @ [''records'']) @ [temp_prefix @ x]"
      | k where "q = root @ place_dirs (Head_At k) @ [''lock'']"
      using t by (auto simp: cf_temps_def lock_path_def stream_dir_parts)
    then show ?thesis by cases (use dirs_names temp_not_dir lock_not_dir in metis)+
  qed
  then show ?thesis by blast
qed

lemma place_paths_differ:
  assumes "apart U" and "place_known U p" and "place_known U q"
  shows "place_path root p = place_path root q \<longleftrightarrow> p = q"
proof
  assume eq: "place_path root p = place_path root q"
  have key: "stream_digest j = stream_digest k \<longleftrightarrow> j = k" if "stream_known U j" "stream_known U k" for j k
    using that apart_inj(3) [OF assms(1)] stream_identity_inj unfolding stream_digest_def stream_known_def by blast
  have id: "checkpoint_id_digest a = checkpoint_id_digest b \<longleftrightarrow> a = b" if "utf8 a \<in> nm_ids U" "utf8 b \<in> nm_ids U" for a b
    using that apart_inj(2) [OF assms(1)] utf8_inj unfolding checkpoint_id_digest_def by blast
  show "p = q"
    using eq assms(2,3) unfolding place_path_parts
    by (cases p; cases q) (simp_all add: place_dirs_def place_name_def revision_text_inj key id apart_inj(1) [OF assms(1)])
qed simp

section \<open>Files that are records\<close>

lemma length_stream_dir [simp]: "length (stream_dir root k) = length root + 5"
  by (simp add: stream_dir_def Let_def)

definition record_root :: "path \<Rightarrow> path \<Rightarrow> bool" where
  "record_root root r \<longleftrightarrow> (\<exists>k. r = by_id_root root k \<or> r = by_revision_root root k)"

lemma below_record_root:
  assumes "record_root root r" and "strict_prefix r p"
  shows "p \<notin> cf_temps root" and "name_ends ''.json'' p \<Longrightarrow> p \<notin> cf_dirs root"
    and "place_path root pl = p \<Longrightarrow> \<exists>k. (\<exists>c. pl = Id_At k c) \<or> (\<exists>n. pl = Rev_At k n)"
proof -
  have r: "length r = length root + 7"
    using assms(1) by (auto simp: record_root_def by_id_root_def by_revision_root_def)
  have pr: "prefix root r"
    using assms(1) by (auto simp: record_root_def by_id_root_def by_revision_root_def stream_dir_parts)
  have p: "length root + 7 < length p" using prefix_length_less [OF assms(2)] r by simp
  have "length q \<le> length root + 7" if "q \<in> cf_temps root" for q
    using that by (auto simp: cf_temps_def lock_path_def place_dirs_def)
  then show "p \<notin> cf_temps root" using p by fastforce
  show "p \<notin> cf_dirs root" if n: "name_ends ''.json'' p"
  proof -
    have "prefix root p" using pr assms(2) prefix_order.trans strict_prefix_def by metis
    then obtain xs where xs: "p = root @ xs" by (auto simp: prefix_def)
    then obtain ds c where "xs = ds @ [c]" using p by (cases xs rule: rev_exhaust) auto
    then have q: "p = root @ ds @ [c]" using xs by simp
    have "CHR ''.'' \<in> set c" using n q by (auto simp: name_ends_def suffix_def)
    then show ?thesis using q dirs_names dotted_not_dir by blast
  qed
  show "\<exists>k. (\<exists>c. pl = Id_At k c) \<or> (\<exists>n. pl = Rev_At k n)" if "place_path root pl = p"
    using p that unfolding place_path_parts [symmetric] by (cases pl) (auto simp: place_path_parts place_dirs_def)
qed

section \<open>The files of a stream\<close>

definition has :: "disk \<Rightarrow> path \<Rightarrow> string option \<Rightarrow> bool" where
  "has d p x = (case x of None \<Rightarrow> look d p = None | Some b \<Rightarrow> holds d p b)"

lemma has_look: "look d' p = look d p \<Longrightarrow> has d' p x = has d p x"
  by (auto simp: has_def holds_def split: option.split)

type_synonym log = "checkpoint_request list"
type_synonym entry_of_log = "nat \<times> checkpoint_request"

text \<open>An entry of the log of stream \<open>k\<close> whose body is on the disk.\<close>

definition entry_ok ::
  "names \<Rightarrow> path \<Rightarrow> (string \<Rightarrow> pyfloat) \<Rightarrow> disk \<Rightarrow> stream \<Rightarrow> entry_of_log \<Rightarrow> bool" where
  "entry_ok U root f d k p \<longleftrightarrow> storable f p \<and> cw_body (snd p) \<in> nm_bodies U \<and> utf8 (cw_checkpoint_id (snd p)) \<in> nm_ids U
     \<and> stream_key (snd p) = k \<and> holds d (body_file root (cw_body (snd p))) (cw_body (snd p))"

record layout =
  ly_head :: log
  ly_ids :: log
  ly_revs :: log
  ly_pending :: "entry_of_log option"

definition head_file :: "log \<Rightarrow> string option" where
  "head_file H = (if H = [] then None else Some (head_bytes (versioned (length H, last H))))"

definition ids_part :: "names \<Rightarrow> path \<Rightarrow> stream \<Rightarrow> log \<Rightarrow> disk \<Rightarrow> bool" where
  "ids_part U root k X d \<longleftrightarrow> (\<forall>c. utf8 c \<in> nm_ids U \<longrightarrow>
     has d (by_id_path root k c) (map_option (record_bytes \<circ> versioned) (log_find X c)))"

text \<open>The entry under a revision is the same hard link as the one under the identifier.\<close>

definition revs_part :: "path \<Rightarrow> stream \<Rightarrow> log \<Rightarrow> disk \<Rightarrow> bool" where
  "revs_part root k Y d \<longleftrightarrow> (\<forall>n \<ge> 1. look d (revision_path root k n) =
     (if n \<le> length Y then look d (by_id_path root k (cw_checkpoint_id (Y ! (n - 1)))) else None))"

definition listed_part :: "path \<Rightarrow> path set \<Rightarrow> disk \<Rightarrow> bool" where
  "listed_part r ps d \<longleftrightarrow>
     (\<forall>p. strict_prefix r p \<longrightarrow> name_ends ''.json'' p \<longrightarrow> look d p \<noteq> None \<longrightarrow> p \<in> ps)"

definition id_paths :: "path \<Rightarrow> stream \<Rightarrow> log \<Rightarrow> path set" where
  "id_paths root k X = (\<lambda>q. by_id_path root k (cw_checkpoint_id q)) ` set X"

definition rev_paths :: "path \<Rightarrow> stream \<Rightarrow> log \<Rightarrow> path set" where
  "rev_paths root k Y = revision_path root k ` {1..length Y}"

definition entries_part ::
  "names \<Rightarrow> path \<Rightarrow> (string \<Rightarrow> pyfloat) \<Rightarrow> stream \<Rightarrow> log \<Rightarrow> disk \<Rightarrow> bool" where
  "entries_part U root f k X d \<longleftrightarrow> (\<forall>p \<in> set (enumerate 1 X). entry_ok U root f d k p)"

definition pending_file :: "entry_of_log option \<Rightarrow> string option" where
  "pending_file pd = map_option (\<lambda>p. pending_bytes (versioned p) (cw_body (snd p))) pd"

text \<open>The body of a pending write was published before it was announced.\<close>

definition pending_body :: "names \<Rightarrow> path \<Rightarrow> entry_of_log option \<Rightarrow> disk \<Rightarrow> bool" where
  "pending_body U root pd d \<longleftrightarrow> (case pd of None \<Rightarrow> True
     | Some p \<Rightarrow> cw_body (snd p) \<in> nm_bodies U \<and> holds d (body_file root (cw_body (snd p))) (cw_body (snd p)))"

lemma pending_body_None [simp]: "pending_body U root None d"
  by (simp add: pending_body_def)

definition stream_files ::
  "names \<Rightarrow> path \<Rightarrow> (string \<Rightarrow> pyfloat) \<Rightarrow> stream \<Rightarrow> layout \<Rightarrow> disk \<Rightarrow> bool" where
  "stream_files U root f k y d \<longleftrightarrow>
     has d (head_path root k) (head_file (ly_head y)) \<and> has d (pending_path root k) (pending_file (ly_pending y))
     \<and> pending_body U root (ly_pending y) d \<and> ids_part U root k (ly_ids y) d \<and> revs_part root k (ly_revs y) d
     \<and> listed_part (by_id_root root k) (id_paths root k (ly_ids y)) d
     \<and> listed_part (by_revision_root root k) (rev_paths root k (ly_revs y)) d
     \<and> entries_part U root f k (ly_ids y) d
     \<and> linear (ly_ids y) \<and> prefix (ly_revs y) (ly_ids y)"

text \<open>How far a write has come.\<close>

datatype stage = Idle | Announced | Identified | Recorded | Committed

fun stage_of :: "stage \<Rightarrow> log \<Rightarrow> entry_of_log \<Rightarrow> layout" where
  "stage_of Idle L p = \<lparr>ly_head = L, ly_ids = L, ly_revs = L, ly_pending = None\<rparr>"
| "stage_of Announced L p = \<lparr>ly_head = L, ly_ids = L, ly_revs = L, ly_pending = Some p\<rparr>"
| "stage_of Identified L p = \<lparr>ly_head = butlast L, ly_ids = L, ly_revs = butlast L, ly_pending = Some p\<rparr>"
| "stage_of Recorded L p = \<lparr>ly_head = butlast L, ly_ids = L, ly_revs = L, ly_pending = Some p\<rparr>"
| "stage_of Committed L p = \<lparr>ly_head = L, ly_ids = L, ly_revs = L, ly_pending = Some p\<rparr>"

text \<open>The pending write belongs to the stage: it is announced and not yet there, or it is the last entry.\<close>

fun stage_fits :: "names \<Rightarrow> (string \<Rightarrow> pyfloat) \<Rightarrow> stage \<Rightarrow> log \<Rightarrow> entry_of_log \<Rightarrow> bool" where
  "stage_fits U f Idle L p = True"
| "stage_fits U f Announced L p = (storable f p \<and> fst p = Suc (length L) \<and> utf8 (cw_checkpoint_id (snd p)) \<in> nm_ids U
     \<and> cw_checkpoint_id (snd p) \<notin> cw_checkpoint_id ` set L)"
| "stage_fits U f _ L p = (L \<noteq> [] \<and> p = (length L, last L))"

definition stream_ok ::
  "names \<Rightarrow> path \<Rightarrow> (string \<Rightarrow> pyfloat) \<Rightarrow> stream \<Rightarrow> log \<Rightarrow> disk \<Rightarrow> bool" where
  "stream_ok U root f k L d \<longleftrightarrow> (\<exists>g p. stage_fits U f g L p \<and> stream_files U root f k (stage_of g L p) d)"

definition common_files :: "names \<Rightarrow> path \<Rightarrow> disk \<Rightarrow> bool" where
  "common_files U root d \<longleftrightarrow> dirs_clear (cf_dirs root) d \<and> (\<forall>k. free_or_file d (lock_path root k))
     \<and> (\<forall>b \<in> nm_bodies U. look d (body_file root b) = None \<or> holds d (body_file root b) b)"

text \<open>A disk that holds the streams' logs.\<close>

definition cf_rep ::
  "names \<Rightarrow> path \<Rightarrow> (string \<Rightarrow> pyfloat) \<Rightarrow> disk \<Rightarrow> (stream \<Rightarrow> log) \<Rightarrow> bool" where
  "cf_rep U root f d L \<longleftrightarrow> common_files U root d \<and> (\<forall>k. stream_known U k \<longrightarrow> stream_ok U root f k (L k) d)"

section \<open>One file at a time\<close>

text \<open>Only directories, temporary files and the file at \<open>p\<close> have changed.\<close>

definition changed_at :: "path \<Rightarrow> place \<Rightarrow> disk \<Rightarrow> disk \<Rightarrow> bool" where
  "changed_at root pl d d' \<longleftrightarrow> quiet (cf_dirs root) (insert (place_path root pl) (cf_temps root)) d d'"

abbreviation settled_at :: "path \<Rightarrow> disk \<Rightarrow> disk \<Rightarrow> bool" where
  "settled_at root \<equiv> quiet (cf_dirs root) (cf_temps root)"

lemma settled_changed: "settled_at root d d' \<Longrightarrow> changed_at root pl d d'"
  unfolding changed_at_def by (rule quiet_mono) auto

lemma changed_place:
  assumes "apart U" and "changed_at root pl d d'" and "place_known U pl" and "place_known U q" and "q \<noteq> pl"
  shows "look d' (place_path root q) = look d (place_path root q)"
  using quiet_look [OF assms(2) [unfolded changed_at_def]] place_fresh [of root q]
    place_paths_differ [OF assms(1,4,3)] assms(5) by blast

lemma settled_place: "settled_at root d d' \<Longrightarrow> look d' (place_path root q) = look d (place_path root q)"
  using quiet_look place_fresh by blast

lemma changed_record:
  assumes "changed_at root pl d d'" and "record_root root r" and "strict_prefix r p" and "name_ends ''.json'' p"
    and "look d' p \<noteq> None" and "p \<noteq> place_path root pl"
  shows "look d p \<noteq> None"
  using quiet_look [OF assms(1) [unfolded changed_at_def]] below_record_root(1,2) [OF assms(2,3)] assms(4-6)
  by auto

lemma changed_clear:
  assumes "changed_at root pl d d'" and "dirs_clear (cf_dirs root) d"
  shows "dirs_clear (cf_dirs root) d'"
  by (rule quiet_clear [OF assms(1) [unfolded changed_at_def] _ assms(2)])
    (use dirs_temps place_fresh(1) in blast)

lemma changed_lock:
  assumes "changed_at root pl d d'" and "free_or_file d (lock_path root k)"
  shows "free_or_file d' (lock_path root k)"
proof (rule quiet_free [OF assms(1) [unfolded changed_at_def] _ assms(2)])
  have "lock_path root k \<in> cf_temps root" by (simp add: cf_temps_def)
  then show "lock_path root k \<notin> cf_dirs root" using dirs_temps by blast
qed

text \<open>Bodies only come; what is the stream's own does not change when another place does.\<close>

definition bodies_kept :: "names \<Rightarrow> path \<Rightarrow> disk \<Rightarrow> disk \<Rightarrow> bool" where
  "bodies_kept U root d d' \<longleftrightarrow> (\<forall>b \<in> nm_bodies U. holds d (body_file root b) b \<longrightarrow> holds d' (body_file root b) b)"

fun own_place :: "stream \<Rightarrow> place \<Rightarrow> bool" where
  "own_place k (Body_At b) = False"
| "own_place k (Head_At j) = (j = k)"
| "own_place k (Pending_At j) = (j = k)"
| "own_place k (Id_At j c) = (j = k)"
| "own_place k (Rev_At j n) = (j = k)"

lemma pending_body_kept: "pending_body U root pd d \<Longrightarrow> bodies_kept U root d d' \<Longrightarrow> pending_body U root pd d'"
  by (auto simp: pending_body_def bodies_kept_def split: option.splits)

lemma entry_ok_kept: "entry_ok U root f d k p \<Longrightarrow> bodies_kept U root d d' \<Longrightarrow> entry_ok U root f d' k p"
  by (auto simp: entry_ok_def bodies_kept_def)

lemma record_root_simps [simp]: "record_root root (by_id_root root k)" "record_root root (by_revision_root root k)"
  unfolding record_root_def by blast+

lemma own_record:
  assumes "apart U" and "stream_known U k" and "place_known U pl"
  shows "strict_prefix (by_id_root root k) (place_path root pl) \<Longrightarrow> \<exists>c. pl = Id_At k c"
    and "strict_prefix (by_revision_root root k) (place_path root pl) \<Longrightarrow> \<exists>n. pl = Rev_At k n"
proof -
  have same: "j = k" if "stream_dir root k = stream_dir root j" "stream_known U j" for j
  proof -
    have "place_path root (Head_At k) = place_path root (Head_At j)" using that(1) by (simp add: head_path_def)
    then show ?thesis
      using place_paths_differ [OF assms(1), of "Head_At k" "Head_At j" root] assms(2) that(2) by simp
  qed
  have cut: "stream_dir root k = stream_dir root j \<and> xs = take (length xs) ys"
    if p: "strict_prefix (stream_dir root k @ xs) (stream_dir root j @ ys)" for xs ys j
  proof -
    obtain zs where "stream_dir root j @ ys = (stream_dir root k @ xs) @ zs"
      using p unfolding strict_prefix_def prefix_def by blast
    then have "stream_dir root k = stream_dir root j" "ys = xs @ zs" by simp_all
    then show ?thesis by simp
  qed
  show "\<exists>c. pl = Id_At k c" if p: "strict_prefix (by_id_root root k) (place_path root pl)"
    using below_record_root(3) [OF record_root_simps(1) p refl] p assms(3) same
    by (auto simp: by_id_root_def by_id_path_def revision_path_def Let_def dest!: cut)
  show "\<exists>n. pl = Rev_At k n" if p: "strict_prefix (by_revision_root root k) (place_path root pl)"
    using below_record_root(3) [OF record_root_simps(2) p refl] p assms(3) same
    by (auto simp: by_revision_root_def by_id_path_def revision_path_def Let_def dest!: cut)
qed

definition step_at :: "names \<Rightarrow> path \<Rightarrow> place \<Rightarrow> disk \<Rightarrow> disk \<Rightarrow> bool" where
  "step_at U root pl d d' \<longleftrightarrow> apart U \<and> place_known U pl \<and> changed_at root pl d d'"

lemma step_look:
  "step_at U root pl d d' \<Longrightarrow> place_known U q \<Longrightarrow> q \<noteq> pl \<Longrightarrow> look d' (place_path root q) = look d (place_path root q)"
  unfolding step_at_def using changed_place by blast

lemma ids_part_kept:
  assumes "step_at U root pl d d'" and "stream_known U k" and "ids_part U root k X d" and "\<forall>c. pl \<noteq> Id_At k c"
  shows "ids_part U root k X d'"
  unfolding ids_part_def
proof (intro allI impI)
  fix c assume c: "utf8 c \<in> nm_ids U"
  have "look d' (by_id_path root k c) = look d (by_id_path root k c)"
    using step_look [OF assms(1), of "Id_At k c"] assms(2,4) c by auto
  from has_look [OF this] show "has d' (by_id_path root k c) (map_option (record_bytes \<circ> versioned) (log_find X c))"
    using assms(3) c unfolding ids_part_def by simp
qed

lemma revs_part_kept:
  assumes "step_at U root pl d d'" and "stream_known U k" and "revs_part root k Y d"
    and "\<forall>n. pl \<noteq> Rev_At k n" and "\<forall>q \<in> set Y. utf8 (cw_checkpoint_id q) \<in> nm_ids U \<and> pl \<noteq> Id_At k (cw_checkpoint_id q)"
  shows "revs_part root k Y d'"
  unfolding revs_part_def
proof (intro allI impI)
  fix n :: nat assume n: "1 \<le> n"
  have r: "look d' (revision_path root k n) = look d (revision_path root k n)"
    using step_look [OF assms(1), of "Rev_At k n"] assms(2,4) by auto
  have "look d' (by_id_path root k (cw_checkpoint_id (Y ! (n - 1)))) = look d (by_id_path root k (cw_checkpoint_id (Y ! (n - 1))))"
    if "n \<le> length Y"
  proof -
    have "Y ! (n - 1) \<in> set Y" using n that by simp
    then show ?thesis using step_look [OF assms(1), of "Id_At k (cw_checkpoint_id (Y ! (n - 1)))"] assms(2,5) by auto
  qed
  then show "look d' (revision_path root k n) =
      (if n \<le> length Y then look d' (by_id_path root k (cw_checkpoint_id (Y ! (n - 1)))) else None)"
    using r n assms(3) unfolding revs_part_def by simp
qed

lemma listed_ids_kept:
  assumes "step_at U root pl d d'" and "stream_known U k" and "listed_part (by_id_root root k) ps d"
    and "\<forall>c. pl = Id_At k c \<longrightarrow> place_path root pl \<in> ps"
  shows "listed_part (by_id_root root k) ps d'"
  unfolding listed_part_def
proof (intro allI impI)
  fix p assume p: "strict_prefix (by_id_root root k) p" "name_ends ''.json'' p" "look d' p \<noteq> None"
  show "p \<in> ps"
  proof (cases "p = place_path root pl")
    case True
    then show ?thesis using own_record(1) p(1) assms(1,2,4) unfolding step_at_def by metis
  next
    case False
    then show ?thesis
      using changed_record [OF _ record_root_simps(1) p False] p assms(1,3) unfolding step_at_def listed_part_def by blast
  qed
qed

lemma listed_revs_kept:
  assumes "step_at U root pl d d'" and "stream_known U k" and "listed_part (by_revision_root root k) ps d"
    and "\<forall>n. pl = Rev_At k n \<longrightarrow> place_path root pl \<in> ps"
  shows "listed_part (by_revision_root root k) ps d'"
  unfolding listed_part_def
proof (intro allI impI)
  fix p assume p: "strict_prefix (by_revision_root root k) p" "name_ends ''.json'' p" "look d' p \<noteq> None"
  show "p \<in> ps"
  proof (cases "p = place_path root pl")
    case True
    then show ?thesis using own_record(2) p(1) assms(1,2,4) unfolding step_at_def by metis
  next
    case False
    then show ?thesis
      using changed_record [OF _ record_root_simps(2) p False] p assms(1,3) unfolding step_at_def listed_part_def by blast
  qed
qed

lemma entries_part_kept: "entries_part U root f k X d \<Longrightarrow> bodies_kept U root d d' \<Longrightarrow> entries_part U root f k X d'"
  unfolding entries_part_def using entry_ok_kept by blast

lemma entries_ids:
  assumes "entries_part U root f k X d" and "q \<in> set X"
  shows "utf8 (cw_checkpoint_id q) \<in> nm_ids U"
proof -
  have "q \<in> set (map snd (enumerate 1 X))" using assms(2) by simp
  then obtain p where "p \<in> set (enumerate 1 X)" "q = snd p" unfolding set_map by blast
  then show ?thesis using assms(1) unfolding entries_part_def entry_ok_def by blast
qed

text \<open>A change elsewhere.\<close>

lemma stream_files_kept:
  assumes "step_at U root pl d d'" and "stream_known U k" and "\<not> own_place k pl" and "bodies_kept U root d d'"
    and "stream_files U root f k y d"
  shows "stream_files U root f k y d'"
proof -
  have o: "pl \<noteq> Head_At k" "pl \<noteq> Pending_At k" "\<forall>c. pl \<noteq> Id_At k c" "\<forall>n. pl \<noteq> Rev_At k n" using assms(3) by auto
  have h: "look d' (head_path root k) = look d (head_path root k)" "look d' (pending_path root k) = look d (pending_path root k)"
    using step_look [OF assms(1), of "Head_At k"] step_look [OF assms(1), of "Pending_At k"] assms(2) o by auto
  note y = assms(5) [unfolded stream_files_def]
  have q: "\<forall>q \<in> set (ly_revs y). utf8 (cw_checkpoint_id q) \<in> nm_ids U \<and> pl \<noteq> Id_At k (cw_checkpoint_id q)"
    using y entries_ids o(3) set_mono_prefix by blast
  show ?thesis
    unfolding stream_files_def
    using y has_look [OF h(1)] has_look [OF h(2)] ids_part_kept [OF assms(1,2) _ o(3)]
      revs_part_kept [OF assms(1,2) _ o(4) q] listed_ids_kept [OF assms(1,2)] listed_revs_kept [OF assms(1,2)]
      entries_part_kept [OF _ assms(4)] pending_body_kept [OF _ assms(4)] o by simp
qed

section \<open>The state of an operation on a stream\<close>

definition at_layout ::
  "names \<Rightarrow> path \<Rightarrow> (string \<Rightarrow> pyfloat) \<Rightarrow> (stream \<Rightarrow> log) \<Rightarrow> stream \<Rightarrow> layout \<Rightarrow> disk \<Rightarrow> bool" where
  "at_layout U root f L k y d \<longleftrightarrow> apart U \<and> stream_known U k \<and> common_files U root d
     \<and> (\<forall>j. stream_known U j \<longrightarrow> j \<noteq> k \<longrightarrow> stream_ok U root f j (L j) d) \<and> stream_files U root f k y d"

lemma at_step:
  assumes "at_layout U root f L k y d" and "step_at U root pl d d'" and "bodies_kept U root d d'"
    and "\<forall>b \<in> nm_bodies U. look d' (body_file root b) = None \<or> holds d' (body_file root b) b"
    and "\<forall>j. own_place j pl \<longrightarrow> j = k" and "stream_files U root f k y' d'"
  shows "at_layout U root f L k y' d'"
  unfolding at_layout_def
proof (intro conjI allI impI)
  note a = assms(1) [unfolded at_layout_def]
  show "apart U" "stream_known U k" using a by blast+
  show "common_files U root d'"
    using assms(2,4) a changed_clear changed_lock unfolding common_files_def step_at_def by blast
  fix j assume j: "stream_known U j" "j \<noteq> k"
  then have "stream_ok U root f j (L j) d" "\<not> own_place j pl" using a assms(5) by blast+
  then show "stream_ok U root f j (L j) d'"
    using stream_files_kept [OF assms(2) j(1) _ assms(3)] unfolding stream_ok_def by blast
qed (rule assms(6))

lemma at_body:
  assumes "at_layout U root f L k y d" and "b \<in> nm_bodies U" and "changed_at root (Body_At b) d d'"
    and "look d' (body_file root b) = look d (body_file root b) \<or> holds d' (body_file root b) b"
  shows "at_layout U root f L k y d'"
proof (rule at_step [OF assms(1)])
  note a = assms(1) [unfolded at_layout_def]
  show st: "step_at U root (Body_At b) d d'" using a assms(2,3) by (simp add: step_at_def)
  have l: "look d' (body_file root c) = look d (body_file root c) \<or> holds d' (body_file root c) c" if "c \<in> nm_bodies U" for c
    using step_look [OF st, of "Body_At c"] that assms(4) by (cases "c = b") auto
  then show k: "bodies_kept U root d d'" unfolding bodies_kept_def holds_def by metis
  show "\<forall>b \<in> nm_bodies U. look d' (body_file root b) = None \<or> holds d' (body_file root b) b"
    using l a unfolding common_files_def holds_def by metis
  show "stream_files U root f k y d'"
    using stream_files_kept [OF st _ _ k] a by simp
qed simp

text \<open>A file of the stream itself.\<close>

lemma at_own:
  assumes "at_layout U root f L k y d" and "changed_at root pl d d'" and "place_known U pl" and "own_place k pl"
    and "step_at U root pl d d' \<Longrightarrow> bodies_kept U root d d' \<Longrightarrow> stream_files U root f k y d \<Longrightarrow> stream_files U root f k y' d'"
  shows "at_layout U root f L k y' d'"
proof (rule at_step [OF assms(1)])
  note a = assms(1) [unfolded at_layout_def]
  show st: "step_at U root pl d d'" using a assms(2,3) by (simp add: step_at_def)
  have l: "look d' (body_file root c) = look d (body_file root c)" if "c \<in> nm_bodies U" for c
    using step_look [OF st, of "Body_At c"] that assms(4) by (cases "Body_At c = pl") auto
  then show k: "bodies_kept U root d d'" unfolding bodies_kept_def holds_def by metis
  show "\<forall>b \<in> nm_bodies U. look d' (body_file root b) = None \<or> holds d' (body_file root b) b"
    using l a unfolding common_files_def holds_def by metis
  show "stream_files U root f k y' d'" using assms(5) [OF st k] a by simp
  show "\<forall>j. own_place j pl \<longrightarrow> j = k" using assms(4) by (cases pl) auto
qed

lemma own_head_pending:
  assumes "step_at U root pl d d'" and "stream_known U k" and "bodies_kept U root d d'" and "stream_files U root f k y d"
    and "pl = Head_At k \<or> pl = Pending_At k"
  shows "ids_part U root k (ly_ids y) d' \<and> revs_part root k (ly_revs y) d'
     \<and> listed_part (by_id_root root k) (id_paths root k (ly_ids y)) d'
     \<and> listed_part (by_revision_root root k) (rev_paths root k (ly_revs y)) d'
     \<and> entries_part U root f k (ly_ids y) d' \<and> linear (ly_ids y) \<and> prefix (ly_revs y) (ly_ids y)"
proof -
  note y = assms(4) [unfolded stream_files_def]
  have o: "\<forall>c. pl \<noteq> Id_At k c" "\<forall>n. pl \<noteq> Rev_At k n" using assms(5) by auto
  have q: "\<forall>q \<in> set (ly_revs y). utf8 (cw_checkpoint_id q) \<in> nm_ids U \<and> pl \<noteq> Id_At k (cw_checkpoint_id q)"
    using y entries_ids o(1) set_mono_prefix by blast
  show ?thesis
    using y ids_part_kept [OF assms(1,2) _ o(1)] revs_part_kept [OF assms(1,2) _ o(2) q]
      listed_ids_kept [OF assms(1,2)] listed_revs_kept [OF assms(1,2)] entries_part_kept [OF _ assms(3)] o by simp
qed

lemma at_head:
  assumes "at_layout U root f L k y d" and "changed_at root (Head_At k) d d'"
    and "has d' (head_path root k) (head_file H)"
  shows "at_layout U root f L k (y\<lparr>ly_head := H\<rparr>) d'"
proof (rule at_own [OF assms(1,2)])
  have k: "stream_known U k" using assms(1) by (simp add: at_layout_def)
  then show "place_known U (Head_At k)" by simp
  assume st: "step_at U root (Head_At k) d d'" and b: "bodies_kept U root d d'" and y: "stream_files U root f k y d"
  have "look d' (pending_path root k) = look d (pending_path root k)"
    using step_look [OF st, of "Pending_At k"] k by simp
  from has_look [OF this] show "stream_files U root f k (y\<lparr>ly_head := H\<rparr>) d'"
    using own_head_pending [OF st k b y] pending_body_kept [OF _ b] assms(3) y unfolding stream_files_def by simp
qed simp

lemma at_settled:
  assumes "at_layout U root f L k y d" and "settled_at root d d'"
  shows "at_layout U root f L k y d'"
proof -
  have "look d' (head_path root k) = look d (head_path root k)" using settled_place [OF assms(2), of "Head_At k"] by simp
  moreover have "has d (head_path root k) (head_file (ly_head y))"
    using assms(1) by (simp add: at_layout_def stream_files_def)
  ultimately have "has d' (head_path root k) (head_file (ly_head y))" using has_look by blast
  from at_head [OF assms(1) settled_changed [OF assms(2)] this] show ?thesis by simp
qed

lemma at_pending:
  assumes "at_layout U root f L k y d" and "changed_at root (Pending_At k) d d'"
    and "has d' (pending_path root k) (pending_file pd)" and "pending_body U root pd d'"
  shows "at_layout U root f L k (y\<lparr>ly_pending := pd\<rparr>) d'"
proof (rule at_own [OF assms(1,2)])
  have k: "stream_known U k" using assms(1) by (simp add: at_layout_def)
  then show "place_known U (Pending_At k)" by simp
  assume st: "step_at U root (Pending_At k) d d'" and b: "bodies_kept U root d d'" and y: "stream_files U root f k y d"
  have "look d' (head_path root k) = look d (head_path root k)"
    using step_look [OF st, of "Head_At k"] k by simp
  from has_look [OF this] show "stream_files U root f k (y\<lparr>ly_pending := pd\<rparr>) d'"
    using own_head_pending [OF st k b y] assms(3,4) y unfolding stream_files_def by simp
qed simp

lemma enumerate_snoc: "set (enumerate 1 (X @ [r])) = insert (Suc (length X), r) (set (enumerate 1 X))"
  by (simp add: enumerate_append_eq)

lemma at_identified:
  assumes "at_layout U root f L k y d" and "changed_at root (Id_At k (cw_checkpoint_id r)) d d'"
    and "holds d' (by_id_path root k (cw_checkpoint_id r)) (record_bytes (versioned (Suc (length (ly_ids y)), r)))"
    and "entry_ok U root f d k (Suc (length (ly_ids y)), r)"
    and "log_find (ly_ids y) (cw_checkpoint_id r) = None" and "cw_parent r = log_head (ly_ids y)"
  shows "at_layout U root f L k (y\<lparr>ly_ids := ly_ids y @ [r]\<rparr>) d'"
proof (rule at_own [OF assms(1,2)])
  let ?c = "cw_checkpoint_id r"
  have k: "stream_known U k" using assms(1) by (simp add: at_layout_def)
  have c: "utf8 ?c \<in> nm_ids U" using assms(4) by (simp add: entry_ok_def)
  show "place_known U (Id_At k ?c)" using k c by simp
  assume st: "step_at U root (Id_At k ?c) d d'" and b: "bodies_kept U root d d'" and y: "stream_files U root f k y d"
  note y' = y [unfolded stream_files_def]
  have hp: "look d' (head_path root k) = look d (head_path root k)" "look d' (pending_path root k) = look d (pending_path root k)"
    using step_look [OF st, of "Head_At k"] step_look [OF st, of "Pending_At k"] k by auto
  have ids: "ids_part U root k (ly_ids y @ [r]) d'"
    unfolding ids_part_def
  proof (intro allI impI)
    fix e assume e: "utf8 e \<in> nm_ids U"
    show "has d' (by_id_path root k e) (map_option (record_bytes \<circ> versioned) (log_find (ly_ids y @ [r]) e))"
    proof (cases "e = ?c")
      case True
      then show ?thesis using assms(3,5) by (simp add: log_find_append has_def)
    next
      case False
      then have "look d' (by_id_path root k e) = look d (by_id_path root k e)"
        using step_look [OF st, of "Id_At k e"] k e by simp
      moreover have "log_find (ly_ids y @ [r]) e = log_find (ly_ids y) e"
        using False by (simp add: log_find_append split: option.split)
      ultimately show ?thesis using has_look [of d' _ d] y' e unfolding ids_part_def by metis
    qed
  qed
  have q: "\<forall>q \<in> set (ly_revs y). utf8 (cw_checkpoint_id q) \<in> nm_ids U \<and> Id_At k ?c \<noteq> Id_At k (cw_checkpoint_id q)"
    using y' entries_ids set_mono_prefix assms(5) unfolding log_find_None by blast
  have revs: "revs_part root k (ly_revs y) d'" using revs_part_kept [OF st k _ _ q] y' by simp
  have "id_paths root k (ly_ids y) \<subseteq> id_paths root k (ly_ids y @ [r])" by (auto simp: id_paths_def)
  then have "listed_part (by_id_root root k) (id_paths root k (ly_ids y @ [r])) d"
    using y' unfolding listed_part_def by blast
  then have lid: "listed_part (by_id_root root k) (id_paths root k (ly_ids y @ [r])) d'"
    by (rule listed_ids_kept [OF st k]) (auto simp: id_paths_def)
  have lrev: "listed_part (by_revision_root root k) (rev_paths root k (ly_revs y)) d'"
    using listed_revs_kept [OF st k] y' by simp
  have "entries_part U root f k (ly_ids y @ [r]) d'"
    using entries_part_kept [OF _ b] entry_ok_kept [OF assms(4) b] y' unfolding entries_part_def enumerate_snoc by blast
  then show "stream_files U root f k (y\<lparr>ly_ids := ly_ids y @ [r]\<rparr>) d'"
    using ids revs lid lrev has_look [OF hp(1)] has_look [OF hp(2)] y' pending_body_kept [OF _ b] linear_snoc [OF _ assms(5,6)] unfolding stream_files_def by simp
qed simp

lemma at_recorded:
  assumes "at_layout U root f L k y d" and "ly_ids y = ly_revs y @ [r]"
    and "changed_at root (Rev_At k (Suc (length (ly_revs y)))) d d'"
    and "look d' (revision_path root k (Suc (length (ly_revs y)))) = look d (by_id_path root k (cw_checkpoint_id r))"
  shows "at_layout U root f L k (y\<lparr>ly_revs := ly_revs y @ [r]\<rparr>) d'"
proof (rule at_own [OF assms(1,3)])
  let ?n = "Suc (length (ly_revs y))"
  have k: "stream_known U k" using assms(1) by (simp add: at_layout_def)
  then show "place_known U (Rev_At k ?n)" by simp
  assume st: "step_at U root (Rev_At k ?n) d d'" and b: "bodies_kept U root d d'" and y: "stream_files U root f k y d"
  note y' = y [unfolded stream_files_def]
  have hp: "look d' (head_path root k) = look d (head_path root k)" "look d' (pending_path root k) = look d (pending_path root k)"
    using step_look [OF st, of "Head_At k"] step_look [OF st, of "Pending_At k"] k by auto
  have ep: "entries_part U root f k (ly_ids y) d" using y' by blast
  have id: "look d' (by_id_path root k (cw_checkpoint_id q)) = look d (by_id_path root k (cw_checkpoint_id q))"
    if "q \<in> set (ly_ids y)" for q
    using step_look [OF st, of "Id_At k (cw_checkpoint_id q)"] k entries_ids [OF ep that] by simp
  have revs: "revs_part root k (ly_revs y @ [r]) d'"
    unfolding revs_part_def
  proof (intro allI impI)
    fix n :: nat assume n: "1 \<le> n"
    show "look d' (revision_path root k n) = (if n \<le> length (ly_revs y @ [r])
        then look d' (by_id_path root k (cw_checkpoint_id ((ly_revs y @ [r]) ! (n - 1)))) else None)"
    proof (cases "n = ?n")
      case True
      then show ?thesis using assms(2,4) id [of r] by (simp add: nth_append)
    next
      case False
      have "look d' (revision_path root k n) = look d (revision_path root k n)"
        using step_look [OF st, of "Rev_At k n"] k False by simp
      moreover have "ly_revs y ! (n - 1) \<in> set (ly_ids y)" if "n \<le> length (ly_revs y)" using that n assms(2) by simp
      ultimately show ?thesis using n False y' id by (auto simp: revs_part_def nth_append)
    qed
  qed
  have ids: "ids_part U root k (ly_ids y) d'" using ids_part_kept [OF st k] y' by simp
  have lid: "listed_part (by_id_root root k) (id_paths root k (ly_ids y)) d'" using listed_ids_kept [OF st k] y' by simp
  have "rev_paths root k (ly_revs y) \<subseteq> rev_paths root k (ly_revs y @ [r])" by (auto simp: rev_paths_def)
  then have "listed_part (by_revision_root root k) (rev_paths root k (ly_revs y @ [r])) d"
    using y' unfolding listed_part_def by blast
  then have lrev: "listed_part (by_revision_root root k) (rev_paths root k (ly_revs y @ [r])) d'"
    by (rule listed_revs_kept [OF st k]) (auto simp: rev_paths_def)
  show "stream_files U root f k (y\<lparr>ly_revs := ly_revs y @ [r]\<rparr>) d'"
    using ids revs lid lrev has_look [OF hp(1)] has_look [OF hp(2)] y' pending_body_kept [OF _ b] entries_part_kept [OF _ b] assms(2) unfolding stream_files_def by simp
qed simp

end
