(* ===== verification/Checkpoint_Recovery.thy ===== *)
theory Checkpoint_Recovery
  imports Checkpoint_Layout
begin

text \<open>
  The filesystem checkpoint store against its logs: what each file reads as in a layout, what recovery
  makes of a stream that a write has left at any of its stages, and what a write does to the log when
  calls fail or the process dies.
\<close>

section \<open>Reading a layout\<close>

text \<open>A layout between writes or within one: the head is a committed part of the records.\<close>

definition sound :: "(string \<Rightarrow> pyfloat) \<Rightarrow> layout \<Rightarrow> bool" where
  "sound f y \<longleftrightarrow> prefix (ly_head y) (ly_revs y) \<and> (\<forall>p. ly_pending y = Some p \<longrightarrow> storable f p)"

definition head_record :: "log \<Rightarrow> stream_head option" where
  "head_record H = (if H = [] then None
     else Some (head_of (versioned (length H, last H)) (record_hash (versioned (length H, last H)))))"

definition pending_record :: "entry_of_log \<Rightarrow> pending_intent" where
  "pending_record p = pending_of (versioned p) (cw_body (snd p)) (record_hash (versioned p))"

definition shown_entry :: "entry_of_log \<Rightarrow> stored_checkpoint" where
  "shown_entry p = ck_view (versioned p)"

lemma shown_entry_simps [simp]:
  "sc_run_id (shown_entry p) = cw_run_id (snd p)" "sc_namespace (shown_entry p) = cw_namespace (snd p)"
  "sc_checkpoint_id (shown_entry p) = cw_checkpoint_id (snd p)" "sc_parent (shown_entry p) = cw_parent (snd p)"
  "sc_revision (shown_entry p) = int (fst p)" "sc_digest (shown_entry p) = body_digest (cw_body (snd p))"
  "record_hash (shown_entry p) = record_hash (versioned p)" "sc_size (shown_entry p) = int (length (cw_body (snd p)))"
  by (simp_all add: shown_entry_def)

lemma head_of_shown: "head_of (shown_entry p) h = head_of (versioned p) h"
  by (simp add: head_of_def)

lemma nth_entry: "n < length X \<Longrightarrow> (Suc n, X ! n) \<in> set (enumerate 1 X)"
  by (simp add: in_set_enumerate_eq)

lemma prefix_nth: "prefix Y X \<Longrightarrow> n < length Y \<Longrightarrow> Y ! n = X ! n"
  by (auto simp: prefix_def nth_append)

lemma prefix_last_entry: "prefix H X \<Longrightarrow> H \<noteq> [] \<Longrightarrow> (length H, last H) \<in> set (enumerate 1 X)"
  using nth_entry [of "length H - 1" X] prefix_nth [of H X "length H - 1"] prefix_length_le [of H X]
  by (cases H rule: rev_exhaust) (auto simp: last_conv_nth)

lemma checkpoint_eq_refl: "wf_val (PDict (sc_metadata c)) \<Longrightarrow> checkpoint_eq c c"
  unfolding checkpoint_eq_def using val_eq_refl(1) by blast

lemma shown_eq: "storable f p \<Longrightarrow> checkpoint_eq (shown_entry p) (shown_entry p)"
  by (rule checkpoint_eq_refl, rule json_ok_wf [of f])
    (simp add: shown_entry_def storable_simps(4) del: json_ok.simps)

lemma at_layoutD:
  assumes "at_layout U root f L k y d"
  shows "stream_files U root f k y d" "apart U" "stream_known U k" "common_files U root d"
  using assms by (simp_all add: at_layout_def)

lemma entry_at:
  assumes "at_layout U root f L k y d" and "p \<in> set (enumerate 1 (ly_ids y))"
  shows "storable f p" "entry_ok U root f d k p" "utf8 (cw_checkpoint_id (snd p)) \<in> nm_ids U"
    "log_find (ly_ids y) (cw_checkpoint_id (snd p)) = Some p"
    "\<exists>m. look d (cf_body_path root (body_digest (cw_body (snd p)))) = Some (File m (cw_body (snd p)))"
proof -
  note y = at_layoutD(1) [OF assms(1), unfolded stream_files_def]
  show e: "entry_ok U root f d k p" using y assms(2) unfolding entries_part_def by blast
  show "storable f p" "utf8 (cw_checkpoint_id (snd p)) \<in> nm_ids U" using e by (simp_all add: entry_ok_def)
  show "log_find (ly_ids y) (cw_checkpoint_id (snd p)) = Some p"
    using log_find_entry [OF _ assms(2)] y unfolding linear_def by blast
  show "\<exists>m. look d (cf_body_path root (body_digest (cw_body (snd p)))) = Some (File m (cw_body (snd p)))"
    using e by (simp add: entry_ok_def holds_def body_file_def)
qed

lemma read_absent: "look d p = None \<Longrightarrow> load_record root f p v d = Inr None"
  "look d p = None \<Longrightarrow> read_canonical_json f p w True d = Inr None"
  by (simp_all add: load_record_def read_canonical_json_def cf_read_file_def)

lemma load_head_at:
  assumes "at_layout U root f L k y d" and "sound f y"
  shows "load_head root f k d = Inr (head_record (ly_head y))"
proof -
  have h: "has d (head_path root k) (head_file (ly_head y))" and pre: "prefix (ly_revs y) (ly_ids y)"
    using at_layoutD(1) [OF assms(1)] by (simp_all add: stream_files_def)
  show ?thesis
  proof (cases "ly_head y = []")
    case True
    then show ?thesis
      using h read_absent(2) by (simp add: head_file_def has_def head_record_def load_head_def)
  next
    case False
    then obtain n where "look d (head_path root k) = Some (File n (head_bytes (versioned (length (ly_head y), last (ly_head y)))))"
      using h by (auto simp: head_file_def has_def holds_def)
    moreover have "prefix (ly_head y) (ly_ids y)" using assms(2) pre unfolding sound_def by (metis prefix_order.trans)
    then have "storable f (length (ly_head y), last (ly_head y))"
      using entry_at(1) [OF assms(1) prefix_last_entry] False by blast
    ultimately show ?thesis using load_head_ok False by (simp add: head_record_def)
  qed
qed

lemma load_pending_at:
  assumes "at_layout U root f L k y d" and "sound f y"
  shows "load_pending root f k d = Inr (map_option pending_record (ly_pending y))"
proof (cases "ly_pending y")
  case None
  then have "look d (pending_path root k) = None"
    using at_layoutD(1) [OF assms(1)] by (simp add: stream_files_def pending_file_def has_def)
  then show ?thesis using None read_absent(2) by (simp add: load_pending_def)
next
  case (Some p)
  then obtain n where "look d (pending_path root k) = Some (File n (pending_bytes (versioned p) (cw_body (snd p))))"
    using at_layoutD(1) [OF assms(1)] by (auto simp: stream_files_def pending_file_def has_def holds_def)
  then show ?thesis
    using load_pending_ok [of f p] assms(2) Some by (simp add: sound_def pending_record_def)
qed

lemma load_by_id_at:
  assumes "at_layout U root f L k y d" and "utf8 c \<in> nm_ids U"
  shows "load_record_by_id root f k c v d = Inr (map_option shown_entry (log_find (ly_ids y) c))"
proof -
  have h: "has d (by_id_path root k c) (map_option (record_bytes \<circ> versioned) (log_find (ly_ids y) c))"
    using at_layoutD(1) [OF assms(1)] assms(2) by (simp add: stream_files_def ids_part_def)
  show ?thesis
  proof (cases "log_find (ly_ids y) c")
    case None
    then show ?thesis using h read_absent(1) by (simp add: has_def load_record_by_id_def)
  next
    case (Some p)
    then have e: "p \<in> set (enumerate 1 (ly_ids y))" using log_find_SomeD by blast
    obtain n where "look d (by_id_path root k c) = Some (File n (record_bytes (versioned p)))"
      using h Some by (auto simp: has_def holds_def)
    then show ?thesis
      using load_record_ok(1) [OF entry_at(1) [OF assms(1) e]] entry_at(5) [OF assms(1) e] Some
      by (auto simp: load_record_by_id_def shown_entry_def)
  qed
qed

lemma rev_file_at:
  assumes "at_layout U root f L k y d" and "n < length (ly_revs y)"
  defines "p \<equiv> (Suc n, ly_revs y ! n)"
  shows "p \<in> set (enumerate 1 (ly_ids y))"
    and "look d (revision_path root k (Suc n)) = look d (by_id_path root k (cw_checkpoint_id (snd p)))"
    and "\<exists>i. look d (revision_path root k (Suc n)) = Some (File i (record_bytes (versioned p)))"
proof -
  note y = at_layoutD(1) [OF assms(1), unfolded stream_files_def]
  have pre: "prefix (ly_revs y) (ly_ids y)" using y by blast
  show e: "p \<in> set (enumerate 1 (ly_ids y))"
    using nth_entry [of n "ly_ids y"] prefix_nth [OF pre assms(2)] prefix_length_le [OF pre] assms(2)
    by (simp add: p_def)
  show l: "look d (revision_path root k (Suc n)) = look d (by_id_path root k (cw_checkpoint_id (snd p)))"
    using y assms(2) by (simp add: revs_part_def p_def)
  have "has d (by_id_path root k (cw_checkpoint_id (snd p))) (Some (record_bytes (versioned p)))"
    using y entry_at(3,4) [OF assms(1) e] unfolding ids_part_def by fastforce
  then show "\<exists>i. look d (revision_path root k (Suc n)) = Some (File i (record_bytes (versioned p)))"
    unfolding l by (simp add: has_def holds_def)
qed

lemma load_by_revision_at:
  assumes "at_layout U root f L k y d"
  shows "load_record_by_revision root f k (PInt (int (Suc n))) v d =
    Inr (if n < length (ly_revs y) then Some (shown_entry (Suc n, ly_revs y ! n)) else None)"
proof -
  have p: "by_revision_path root k (PInt (int (Suc n))) = Inr (revision_path root k (Suc n))"
    using by_revision_path_int [of root k "Suc n"] by simp
  show ?thesis
  proof (cases "n < length (ly_revs y)")
    case True
    note r = rev_file_at [OF assms True]
    show ?thesis
      using r(3) load_record_ok(1) [OF entry_at(1) [OF assms r(1)]] entry_at(5) [OF assms r(1)] True p
      by (auto simp: load_record_by_revision_def shown_entry_def)
  next
    case False
    then have "look d (revision_path root k (Suc n)) = None"
      using at_layoutD(1) [OF assms] by (simp add: stream_files_def revs_part_def)
    then show ?thesis using False p read_absent(1) by (simp add: load_record_by_revision_def)
  qed
qed

lemma record_links_at:
  assumes "at_layout U root f L k y d" and "n < length (ly_revs y)"
  shows "record_links root k (cw_checkpoint_id (ly_revs y ! n)) (PInt (int (Suc n))) d = Inr ()"
  using rev_file_at(2,3) [OF assms] by_revision_path_int [of root k "Suc n"]
  by (auto simp: record_links_def verify_hard_link_pair_def)

text \<open>The chain of a head that the records cover.\<close>

lemma chain_at:
  assumes "at_layout U root f L k y d" and "prefix H (ly_revs y)" and "m \<le> length H"
  shows "chain_records root f k v d (log_head (take m H)) (map int [Suc m..<Suc (length H)])
    = Inr (map shown_entry (drop m (enumerate 1 H)))"
  using assms(3)
proof (induction "length H - m" arbitrary: m)
  case 0
  then show ?case by simp
next
  case (Suc x)
  then have m: "m < length H" by simp
  let ?p = "(Suc m, H ! m)"
  have my: "m < length (ly_revs y)" "ly_revs y ! m = H ! m"
    using m prefix_nth [OF assms(2)] prefix_length_le [OF assms(2)] by auto
  have pre: "prefix H (ly_ids y)"
    using assms(2) at_layoutD(1) [OF assms(1)] unfolding stream_files_def by (metis prefix_order.trans)
  note r = rev_file_at [OF assms(1) my(1), unfolded my(2)]
  have s: "storable f ?p" "utf8 (cw_checkpoint_id (H ! m)) \<in> nm_ids U" "log_find (ly_ids y) (cw_checkpoint_id (H ! m)) = Some ?p"
    using entry_at [OF assms(1) r(1)] by simp_all
  have lin: "cw_parent (H ! m) = log_head (take m H)"
  proof -
    have "linear (ly_ids y)" using at_layoutD(1) [OF assms(1)] by (simp add: stream_files_def)
    then have "cw_parent (ly_ids y ! m) = log_head (take m (ly_ids y))"
      using m prefix_length_le [OF pre] by (simp add: linear_def)
    moreover have "take m (ly_ids y) = take m H" using pre m by (auto simp: prefix_def)
    ultimately show ?thesis using prefix_nth [OF pre m] by simp
  qed
  have body: "verify_record_body root (shown_entry ?p) d = Inr ()" "validate_listing_body root (shown_entry ?p) d = Inr ()"
    using entry_at(5) [OF assms(1) r(1)] r(3) load_record_ok(3,4) [OF s(1)] unfolding shown_entry_def by fastforce+
  have next_parent: "log_head (take (Suc m) H) = Some (cw_checkpoint_id (H ! m))"
    using m by (simp add: take_Suc_conv_app_nth log_head_def)
  have ups: "map int [Suc m..<Suc (length H)] = int (Suc m) # map int [Suc (Suc m)..<Suc (length H)]"
    using m by (simp add: upt_conv_Cons del: upt_Suc)
  have ds: "drop m (enumerate 1 H) = ?p # drop (Suc m) (enumerate 1 H)"
    using m by (simp add: Cons_nth_drop_Suc [symmetric] nth_enumerate_eq)
  have rest: "chain_records root f k v d (Some (cw_checkpoint_id (H ! m))) (map int [Suc (Suc m)..<Suc (length H)])
      = Inr (map shown_entry (drop (Suc m) (enumerate 1 H)))"
    using Suc.hyps(1) [of "Suc m"] Suc.hyps(2) m next_parent by (simp del: upt_Suc)
  show ?case
    unfolding ups ds chain_records.simps load_by_revision_at [OF assms(1)]
    using my lin load_by_id_at [OF assms(1) s(2)] s(3) shown_eq [OF s(1)] record_links_at [OF assms(1) my(1)] body rest
    by (simp del: upt_Suc of_nat_Suc)
qed

lemma chain_validated_at:
  assumes "at_layout U root f L k y d" and "prefix H (ly_revs y)" and "H \<noteq> []"
  shows "validate_committed_chain root f k (head_of (versioned (length H, last H)) (record_hash (versioned (length H, last H)))) v d
    = Inr (map ck_view (log_list H))"
proof -
  let ?p = "(length H, last H)"
  have pre: "prefix H (ly_ids y)"
    using assms(2) at_layoutD(1) [OF assms(1)] unfolding stream_files_def by (metis prefix_order.trans)
  have s: "storable f ?p" by (rule entry_at(1) [OF assms(1) prefix_last_entry [OF pre assms(3)]])
  have ups: "[1..int (length H)] = map int [Suc 0..<Suc (length H)]"
    by (rule nth_equalityI) (auto simp del: upt_Suc)
  have c: "chain_records root f k v d None [1..int (length H)] = Inr (map shown_entry (enumerate 1 H))"
    using chain_at [OF assms(1,2), of 0 v] unfolding ups by (simp add: log_head_def del: upt_Suc)
  have l: "last (map shown_entry (enumerate 1 H)) = shown_entry ?p"
    using assms(3) by (cases H rule: rev_exhaust) (simp_all add: enumerate_append_eq)
  have h: "checkpoint_digest (shown_entry ?p) = Inr (record_hash (versioned ?p))"
    using storable_simps(6) [OF s] by (simp add: shown_entry_def)
  have "map shown_entry (enumerate 1 H) = map ck_view (log_list H)" "log_list H \<noteq> []"
    using assms(3) by (simp_all add: log_list_def shown_entry_def) (cases H; simp)
  then show ?thesis
    unfolding validate_committed_chain_def using c l h
    by (simp add: head_of_def atom_eq_def)
qed

section \<open>Steps between layouts\<close>

text \<open>
  \<open>lwp R ft m Q y\<close>: from any disk in layout \<open>y\<close>, every run of \<open>m\<close> ends in a layout that satisfies \<open>Q\<close>
  with its outcome.
\<close>

definition lwp ::
  "(layout \<Rightarrow> disk \<Rightarrow> bool) \<Rightarrow> bool \<Rightarrow> 'a io \<Rightarrow> ('a outcome \<Rightarrow> layout \<Rightarrow> bool) \<Rightarrow> layout \<Rightarrow> bool" where
  "lwp R ft m Q y \<longleftrightarrow> (\<forall>d. R y d \<longrightarrow> wp ft m (\<lambda>out d'. \<exists>y'. Q out y' \<and> R y' d') d)"

lemma lwpI: "(\<And>d. R y d \<Longrightarrow> wp ft m (\<lambda>out d'. \<exists>y'. Q out y' \<and> R y' d') d) \<Longrightarrow> lwp R ft m Q y"
  by (simp add: lwp_def)

lemma lwpD: "lwp R ft m Q y \<Longrightarrow> R y d \<Longrightarrow> wp ft m (\<lambda>out d'. \<exists>y'. Q out y' \<and> R y' d') d"
  by (simp add: lwp_def)

lemma lwp_mono: "lwp R ft m P y \<Longrightarrow> (\<And>out y'. P out y' \<Longrightarrow> Q out y') \<Longrightarrow> lwp R ft m Q y"
  unfolding lwp_def by (blast intro: wp_mono)

lemma lwp_return: "Q (Returned x) y \<Longrightarrow> lwp R ft (io_return x) Q y"
  by (auto intro!: lwpI wp_return)

lemma lwp_raise: "Q (Raised e) y \<Longrightarrow> lwp R ft (io_raise e) Q y"
  by (auto intro!: lwpI wp_raise)

lemma lwp_read: "(\<And>d. R y d \<Longrightarrow> g d = Inr x) \<Longrightarrow> Q (Returned x) y \<Longrightarrow> lwp R ft (io_read g) Q y"
  by (rule lwpI, rule wp_read) auto

lemma lwp_read_fails: "(\<And>d. R y d \<Longrightarrow> g d = Inl e) \<Longrightarrow> Q (Raised e) y \<Longrightarrow> lwp R ft (io_read g) Q y"
  by (rule lwpI, rule wp_read) auto

lemma lwp_bind:
  assumes "lwp R ft m (\<lambda>out y'. case out of
      Returned x \<Rightarrow> lwp R ft (f x) Q y' | Raised e \<Rightarrow> Q (Raised e) y' | Dead \<Rightarrow> Q Dead y') y"
  shows "lwp R ft (io_bind m f) Q y"
proof (intro lwpI wp_bind wp_mono [OF lwpD [OF assms]])
  fix out d'
  assume "\<exists>y'. (case out of Returned x \<Rightarrow> lwp R ft (f x) Q y' | Raised e \<Rightarrow> Q (Raised e) y' | Dead \<Rightarrow> Q Dead y') \<and> R y' d'"
  then show "case out of Returned x \<Rightarrow> wp ft (f x) (\<lambda>out d'. \<exists>y'. Q out y' \<and> R y' d') d'
    | Raised e \<Rightarrow> \<exists>y'. Q (Raised e) y' \<and> R y' d' | Dead \<Rightarrow> \<exists>y'. Q Dead y' \<and> R y' d'"
    by (cases out) (auto simp: lwp_def)
qed auto

lemma lwp_read_bind: "(\<And>d. R y d \<Longrightarrow> g d = Inr x) \<Longrightarrow> lwp R ft (f x) Q y \<Longrightarrow> lwp R ft (io_bind (io_read g) f) Q y"
  by (rule lwp_bind, rule lwp_read) simp_all

text \<open>A call that changes nothing, such as a sync.\<close>

lemma lwp_call_id: "Q (Returned ()) y \<Longrightarrow> (ft \<Longrightarrow> Q (Raised e) y \<and> Q Dead y) \<Longrightarrow> lwp R ft (io_call e id) Q y"
  by (rule lwpI, rule wp_call) auto

lemma lwp_fsync: "Q (Returned ()) y \<Longrightarrow> (ft \<Longrightarrow> (\<forall>e. Q (Raised e) y) \<and> Q Dead y) \<Longrightarrow> lwp R ft fsync_directory Q y"
  unfolding fsync_directory_def by (rule lwp_call_id) auto

section \<open>Directories, temporary files and links\<close>

lemma clear_at: "at_layout U root f L k y d \<Longrightarrow> dirs_clear (cf_dirs root) d"
  by (simp add: at_layout_def common_files_def)

lemma makes_dirs_place: "prefix p (root @ place_dirs pl) \<Longrightarrow> makes_dirs ft (cf_dirs root) (ensure_chain e p)"
  by (rule makes_dirs_chain) (auto simp: cf_dirs_def dest: prefix_order.trans)

lemma wp_ensure_place:
  assumes "prefix p (root @ place_dirs pl)" and "dirs_clear (cf_dirs root) d"
    and "\<And>d'. dirs_added (cf_dirs root) d d' \<Longrightarrow> P (Returned ()) d'"
    and "\<And>d' x. ft \<Longrightarrow> settled_at root d d' \<Longrightarrow> P (Raised x) d' \<and> P Dead d'"
  shows "wp ft (ensure_chain e p) P d"
proof (rule wp_mono [OF makes_dirsD [OF makes_dirs_place [OF assms(1)] assms(2)]], elim conjE)
  fix out d' assume q: "dirs_added (cf_dirs root) d d'" and o: "ft \<or> out = Returned ()"
  show "P out d'"
  proof (cases "out = Returned ()")
    case True
    then show ?thesis using assms(3) [OF q] by simp
  next
    case False
    then show ?thesis using assms(4) [OF _ dirs_added_quiet [OF q]] o by (cases out) auto
  qed
qed

definition temp_dir :: "path \<Rightarrow> path \<Rightarrow> bool" where
  "temp_dir root dir \<longleftrightarrow> (\<exists>b. dir = root @ place_dirs (Body_At b)) \<or> (\<exists>k. dir = stream_dir root k \<or> dir = stream_dir root k @ [''records''])"

lemma temp_dir_prefix: "temp_dir root dir \<Longrightarrow> \<exists>pl. prefix dir (root @ place_dirs pl)"
proof -
  have "prefix (stream_dir root k) (root @ place_dirs (Head_At k))"
    "prefix (stream_dir root k @ [''records'']) (root @ place_dirs (Rev_At k 0))" for k
    by (simp_all add: stream_dir_def place_dirs_def Let_def prefix_def)
  then show "temp_dir root dir \<Longrightarrow> \<exists>pl. prefix dir (root @ place_dirs pl)" unfolding temp_dir_def by blast
qed

lemma temp_in: "temp_dir root dir \<Longrightarrow> temp_path dir suff d \<in> cf_temps root"
  unfolding temp_dir_def cf_temps_def temp_path_def by auto

lemma wp_write_temp_bytes:
  assumes "temp_dir root dir" and "dirs_clear (cf_dirs root) d"
    and "\<And>d' t n. settled_at root d d' \<Longrightarrow> t \<in> cf_temps root \<Longrightarrow> look d' t = Some (File n payload) \<Longrightarrow> P (Returned t) d'"
    and "\<And>d' x. ft \<Longrightarrow> settled_at root d d' \<Longrightarrow> P (Raised x) d' \<and> P Dead d'"
  shows "wp ft (write_temp_bytes dir payload suff) P d"
proof -
  obtain pl where pl: "prefix dir (root @ place_dirs pl)" using temp_dir_prefix [OF assms(1)] by blast
  have "wp ft (write_temp cf_write_failed dir suff payload) P d1" if "dirs_added (cf_dirs root) d d1" for d1
    using assms(3,4) temp_in [OF assms(1)] quiet_trans [OF dirs_added_quiet [OF that]]
    by (intro wp_write_temp [where T = "cf_temps root" and D = "cf_dirs root"]) blast+
  then show ?thesis
    unfolding write_temp_bytes_def using assms(4)
    by (intro wp_bind wp_ensure_place [OF pl assms(2)]) simp_all
qed

lemma wp_link_place:
  assumes "look d source = Some (File n b)" and "dirs_clear (cf_dirs root) d"
    and "\<And>d'. look d (place_path root pl) \<noteq> None \<Longrightarrow> settled_at root d d' \<Longrightarrow> P (Returned False) d'"
    and "\<And>d'. look d (place_path root pl) = None \<Longrightarrow> changed_at root pl d d' \<Longrightarrow>
        look d' (place_path root pl) = Some (File n b) \<Longrightarrow> look d' source = Some (File n b) \<Longrightarrow> P (Returned True) d'"
    and "\<And>d' x. ft \<Longrightarrow> settled_at root d d' \<Longrightarrow> P (Raised x) d' \<and> P Dead d'"
  shows "wp ft (link_no_overwrite source (place_path root pl)) P d"
proof -
  let ?p = "place_path root pl"
  have "wp ft (link_file cf_publication_failed source ?p) P d1" if q: "dirs_added (cf_dirs root) d d1" for d1
  proof (rule wp_link_file)
    note s = dirs_added_quiet [OF q, of "cf_temps root"]
    have l: "look d1 ?p = look d ?p" by (rule settled_place [OF s])
    show src: "look d1 source = Some (File n b)"
      using q assms(1) unfolding dirs_added_def by (metis option.distinct(1))
    show "P (Returned False) d1" if "look d1 ?p \<noteq> None" using assms(3) that l s by simp
    show "P (Returned True) (set_entry ?p (File n b) d1)" if "look d1 ?p = None"
    proof (rule assms(4))
      show "look d ?p = None" using that l by simp
      show "changed_at root pl d (set_entry ?p (File n b) d1)"
        using quiet_mono [OF s, of "insert ?p (cf_temps root)"] quiet_set [of ?p "insert ?p (cf_temps root)"]
        unfolding changed_at_def by (meson insertI1 quiet_trans subset_insertI)
    qed (use src that in \<open>auto simp: look_set_entry\<close>)
    show "P (Raised cf_publication_failed) d1 \<and> P Dead d1" if "ft" using assms(5) that s by blast
  qed
  then show ?thesis
    unfolding link_no_overwrite_def butlast_place using assms(5)
    by (intro wp_bind wp_ensure_place [OF prefix_order.refl assms(2)]) simp_all
qed

lemma wp_cleanup_temp:
  assumes "t \<in> cf_temps root" and "\<And>d'. settled_at root d d' \<Longrightarrow> P (Returned ()) d'"
    and "\<And>d'. ft \<Longrightarrow> settled_at root d d' \<Longrightarrow> P Dead d'"
  shows "wp ft (cleanup_path t) P d"
  using assms(2,3) quiet_drop [OF assms(1)] by (intro wp_cleanup) auto

text \<open>What an operation does with a temporary file, which is removed whatever happens.\<close>

lemma wp_with_temp:
  assumes "t \<in> cf_temps root" and "wp ft m P d"
    and "\<And>out d1 d2. P out d1 \<Longrightarrow> settled_at root d1 d2 \<Longrightarrow> P out d2"
    and "\<And>out d1. ft \<Longrightarrow> P out d1 \<Longrightarrow> P Dead d1"
  shows "wp ft (io_finally m (cleanup_path t)) P d"
proof (rule wp_finally, rule wp_mono [OF assms(2)])
  fix out d1 assume P: "P out d1"
  show "if out = Dead then P Dead d1 else wp ft (cleanup_path t)
      (\<lambda>o' d'. case o' of Returned _ \<Rightarrow> P out d' | Raised e \<Rightarrow> P (Raised e) d' | Dead \<Rightarrow> P Dead d') d1"
  proof (cases "out = Dead")
    case False
    have "wp ft (cleanup_path t)
      (\<lambda>o' d'. case o' of Returned _ \<Rightarrow> P out d' | Raised e \<Rightarrow> P (Raised e) d' | Dead \<Rightarrow> P Dead d') d1"
      using assms(3) [OF P] assms(4) [OF _ assms(3) [OF P]] by (intro wp_cleanup_temp [OF assms(1)]) simp_all
    then show ?thesis using False by simp
  qed (use P in simp)
qed

section \<open>The head and the pending file\<close>

lemma head_bytes_encode: "encode_json (head_payload (head_of c (record_hash c))) = Inr (head_bytes c)"
proof -
  have "json_ok (\<lambda>_. Nan_Float []) (head_payload (head_of c (record_hash c)))"
    unfolding head_payload_def json_ok_pdict by (simp add: head_of_def)
  from encode_json_ok [OF this] show ?thesis by (simp add: head_bytes_def)
qed

lemma pending_bytes_encode:
  "encode_json (pending_payload (pending_of c b (record_hash c))) = Inr (pending_bytes c b)"
proof -
  have "json_ok (\<lambda>_. Nan_Float []) (pending_payload (pending_of c b (record_hash c)))"
    unfolding pending_payload_def json_ok_pdict by (simp add: pending_of_def)
  from encode_json_ok [OF this] show ?thesis by (simp add: pending_bytes_def)
qed

lemma head_dir: "butlast (head_path root k) = stream_dir root k" "butlast (pending_path root k) = stream_dir root k"
  by (simp_all add: head_path_def pending_path_def)

lemma temp_dir_stream: "temp_dir root (stream_dir root k)" "temp_dir root (stream_dir root k @ [''records''])"
  unfolding temp_dir_def by blast+

lemma changed_settled: "settled_at root d d1 \<Longrightarrow> changed_at root pl d1 d2 \<Longrightarrow> changed_at root pl d d2"
  using settled_changed unfolding changed_at_def by (metis quiet_trans)

lemma lwp_with_temp:
  assumes "t \<in> cf_temps root" and "at_layout U root f L k y d"
    and "wp ft m (\<lambda>out d'. \<exists>y'. Q out y' \<and> at_layout U root f L k y' d') d"
    and "\<And>out y'. ft \<Longrightarrow> Q out y' \<Longrightarrow> Q Dead y'"
  shows "wp ft (io_finally m (cleanup_path t)) (\<lambda>out d'. \<exists>y'. Q out y' \<and> at_layout U root f L k y' d') d"
  by (rule wp_with_temp [OF assms(1,3)]) (use at_settled assms(4) in blast)+

text \<open>Outcomes of a step from \<open>y\<close> to \<open>y'\<close> that may fail before or after it took place.\<close>

definition stepped :: "bool \<Rightarrow> layout \<Rightarrow> layout \<Rightarrow> unit outcome \<Rightarrow> layout \<Rightarrow> bool" where
  "stepped ft y y' out z \<longleftrightarrow> (out = Returned () \<and> z = y') \<or> (ft \<and> out \<noteq> Returned () \<and> z \<in> {y, y'})"

lemma lwp_write_head:
  assumes "H \<noteq> []"
  shows "lwp (at_layout U root f L k) ft
    (write_head root k (head_of (versioned (length H, last H)) (record_hash (versioned (length H, last H)))))
    (stepped ft y (y\<lparr>ly_head := H\<rparr>)) y"
proof (rule lwpI)
  fix d assume at: "at_layout U root f L k y d"
  let ?R = "at_layout U root f L k"
  let ?c = "versioned (length H, last H)"
  let ?P = "\<lambda>out d'. \<exists>z. stepped ft y (y\<lparr>ly_head := H\<rparr>) out z \<and> ?R z d'"
  let ?P' = "\<lambda>out d'. \<exists>z. (stepped ft y (y\<lparr>ly_head := H\<rparr>) out z \<or> ft \<and> z \<in> {y, y\<lparr>ly_head := H\<rparr>} \<and> out = Dead) \<and> ?R z d'"
  have fail: "?P (Raised x) d' \<and> ?P Dead d'" if "ft" "settled_at root d d'" for x d'
    using at_settled [OF at that(2)] that(1) by (auto simp: stepped_def)
  have body: "wp ft (io_finally (io_bind (replace_file cf_head_failed t (head_path root k)) (\<lambda>_. fsync_directory)) (cleanup_path t)) ?P d1"
    if s: "settled_at root d d1" and t: "t \<in> cf_temps root" and l: "look d1 t = Some (File n (head_bytes ?c))" for t d1 n
  proof (rule lwp_with_temp [OF t at_settled [OF at s]])
    let ?d2 = "set_entry (head_path root k) (File n (head_bytes ?c)) (drop_entry t d1)"
    have r1: "?R y d1" by (rule at_settled [OF at s])
    have "changed_at root (Head_At k) d1 ?d2"
      using t by (auto simp: changed_at_def quiet_def free_or_file_def look_set_entry look_drop_entry)
    then have r2: "?R (y\<lparr>ly_head := H\<rparr>) ?d2"
      by (rule at_head [OF r1]) (simp add: has_def head_file_def assms holds_def look_set_entry)
    have nd: "look d1 (head_path root k) \<noteq> Some Directory"
      using at_layoutD(1) [OF r1] by (auto simp: stream_files_def has_def head_file_def holds_def split: if_splits)
    show "wp ft (io_bind (replace_file cf_head_failed t (head_path root k)) (\<lambda>_. fsync_directory)) ?P d1"
      using r1 r2 unfolding fsync_directory_def
      by (intro wp_bind wp_replace_file [OF l nd]) (auto intro!: wp_call simp: stepped_def)
    show "stepped ft y (y\<lparr>ly_head := H\<rparr>) Dead z" if "ft" "stepped ft y (y\<lparr>ly_head := H\<rparr>) out z" for out z
      using that by (auto simp: stepped_def)
  qed
  show "wp ft (write_head root k (head_of ?c (record_hash ?c))) ?P d"
    unfolding write_head_def head_dir
  proof (intro wp_bind wp_read)
    show "case case encode_json (head_payload (head_of ?c (record_hash ?c))) of Inl e \<Rightarrow> Raised e | Inr x \<Rightarrow> Returned x of
      Returned x \<Rightarrow> wp ft (io_bind (write_temp_bytes (stream_dir root k) x ''.json'') (\<lambda>temp. io_finally
          (io_bind (replace_file cf_head_failed temp (head_path root k)) (\<lambda>_. fsync_directory)) (cleanup_path temp))) ?P d
      | Raised e \<Rightarrow> ?P (Raised e) d | Dead \<Rightarrow> ?P Dead d"
      unfolding head_bytes_encode sum.case outcome.case
      using fail by (intro wp_bind wp_write_temp_bytes [OF temp_dir_stream(1) clear_at [OF at]]) (simp_all add: body)
  qed
qed

lemma lwp_write_head_of:
  assumes "H \<noteq> []" and "storable f (length H, last H)" and "c = versioned (length H, last H) \<or> c = shown_entry (length H, last H)"
  shows "lwp (at_layout U root f L k) ft (write_head_of root k c) (stepped ft y (y\<lparr>ly_head := H\<rparr>)) y"
proof -
  have "checkpoint_digest c = Inr (record_hash (versioned (length H, last H)))"
    using storable_simps(5,6) [OF assms(2)] assms(3) by (auto simp: shown_entry_def)
  moreover have "head_of c h = head_of (versioned (length H, last H)) h" for h
    using assms(3) head_of_shown by blast
  ultimately show ?thesis
    unfolding write_head_of_def using lwp_write_head [OF assms(1), of U root f L k ft y]
    by (intro lwp_read_bind) simp_all
qed

lemma wp_write_pending:
  fixes ft :: bool
  assumes at: "at_layout U root f L k y d"
    and body_in: "cw_body (snd p) \<in> nm_bodies U" "holds d (body_file root (cw_body (snd p))) (cw_body (snd p))"
  defines "Q \<equiv> (if ly_pending y = None then stepped ft y (y\<lparr>ly_pending := Some p\<rparr>)
     else (\<lambda>out z. z = y \<and> out \<noteq> Returned () \<and> (ft \<or> (\<exists>e. out = Raised e \<and> isinstance e CheckpointConflictError_cls))))"
  shows "wp ft (write_pending root k (pending_record p)) (\<lambda>out d'. \<exists>z. Q out z \<and> at_layout U root f L k z d') d"
proof -
  let ?R = "at_layout U root f L k"
  let ?y = "y\<lparr>ly_pending := Some p\<rparr>"
  let ?P = "\<lambda>out d'. \<exists>z. Q out z \<and> ?R z d'"
  let ?b = "pending_bytes (versioned p) (cw_body (snd p))"
  let ?conflict = "cf_conflict_error ''Filesystem checkpoint store detected a conflicting pending transaction.''
      ''CHECKPOINT_STORE_PENDING_CONFLICT''"
  have conflict: "isinstance ?conflict CheckpointConflictError_cls"
    by (simp add: cf_conflict_error_def error_init_defs FrameworkError_init_def isinstance_def)
  have fail: "?P (Raised x) d' \<and> ?P Dead d'" if "ft" "?R y d'" for x d'
    using that by (auto simp: Q_def stepped_def)
  have body: "wp ft (io_finally (io_bind (link_no_overwrite t (pending_path root k)) (\<lambda>created.
        if created then fsync_directory else io_raise ?conflict)) (cleanup_path t)) ?P d1"
    if s: "settled_at root d d1" and t: "t \<in> cf_temps root" and l: "look d1 t = Some (File n ?b)" for t d1 n
  proof (rule lwp_with_temp [OF t at_settled [OF at s]])
    have r1: "?R y d1" by (rule at_settled [OF at s])
    have pend: "look d1 (pending_path root k) = None \<longleftrightarrow> ly_pending y = None"
      using at_layoutD(1) [OF r1] by (auto simp: stream_files_def has_def pending_file_def holds_def split: option.splits)
    have "wp ft (io_bind (link_no_overwrite t (place_path root (Pending_At k))) (\<lambda>created.
        if created then fsync_directory else io_raise ?conflict)) ?P d1"
    proof (intro wp_bind wp_link_place [OF l clear_at [OF r1]], goal_cases)
      case (1 d2)
      then show ?case using pend at_settled [OF r1 1(2)] conflict by (auto intro!: wp_raise simp: Q_def)
    next
      case (2 d2)
      then have "?R ?y d2"
        using settled_place [OF s, of "Body_At (cw_body (snd p))"] changed_place [OF at_layoutD(2) [OF at] 2(2), of "Body_At (cw_body (snd p))"]
          at_layoutD(3) [OF at] body_in
        by (intro at_pending [OF r1]) (simp_all add: has_def pending_file_def pending_body_def holds_def)
      then show ?case using pend 2(1) unfolding fsync_directory_def by (auto intro!: wp_call simp: Q_def stepped_def)
    next
      case (3 d2)
      then show ?case using fail at_settled [OF r1 3(2)] by auto
    qed
    then show "wp ft (io_bind (link_no_overwrite t (pending_path root k)) (\<lambda>created.
        if created then fsync_directory else io_raise ?conflict)) ?P d1" by simp
    show "Q Dead z" if "ft" "Q out z" for out z
      using that by (auto simp: Q_def stepped_def split: if_splits)
  qed
  show "wp ft (write_pending root k (pending_record p)) ?P d"
    unfolding write_pending_def head_dir pending_record_def
  proof (intro wp_bind wp_read)
    show "case case encode_json (pending_payload (pending_of (versioned p) (cw_body (snd p)) (record_hash (versioned p)))) of
        Inl e \<Rightarrow> Raised e | Inr x \<Rightarrow> Returned x of
      Returned x \<Rightarrow> wp ft (io_bind (write_temp_bytes (stream_dir root k) x ''.json'') (\<lambda>temp. io_finally
          (io_bind (link_no_overwrite temp (pending_path root k)) (\<lambda>created.
            if created then fsync_directory else io_raise ?conflict)) (cleanup_path temp))) ?P d
      | Raised e \<Rightarrow> ?P (Raised e) d | Dead \<Rightarrow> ?P Dead d"
      unfolding pending_bytes_encode sum.case outcome.case
      using fail at_settled [OF at]
      by (intro wp_bind wp_write_temp_bytes [OF temp_dir_stream(1) clear_at [OF at]]) (simp_all add: body)
  qed
qed

lemma lwp_cleanup_pending:
  "lwp (at_layout U root f L k) ft (cleanup_path (pending_path root k))
     (\<lambda>out z. (out = Returned () \<and> z = y\<lparr>ly_pending := None\<rparr>) \<or> (ft \<and> z = y \<and> (out = Returned () \<or> out = Dead))) y"
proof (rule lwpI)
  fix d assume at: "at_layout U root f L k y d"
  let ?p = "pending_path root k"
  let ?P = "\<lambda>out d'. \<exists>z. ((out = Returned () \<and> z = y\<lparr>ly_pending := None\<rparr>) \<or> (ft \<and> z = y \<and> (out = Returned () \<or> out = Dead)))
      \<and> at_layout U root f L k z d'"
  have h: "has d ?p (pending_file (ly_pending y))" using at_layoutD(1) [OF at] by (simp add: stream_files_def)
  have gone: "at_layout U root f L k (y\<lparr>ly_pending := None\<rparr>) (drop_entry ?p d)"
    using quiet_drop [of ?p "insert ?p (cf_temps root)"]
    by (intro at_pending [OF at]) (auto simp: changed_at_def has_def pending_file_def look_drop_entry)
  have none: "y\<lparr>ly_pending := None\<rparr> = y" if "\<forall>n b. look d ?p \<noteq> Some (File n b)"
    using h that by (cases y; cases "ly_pending y") (auto simp: has_def pending_file_def holds_def)
  show "wp ft (cleanup_path ?p) ?P d"
    by (rule wp_cleanup) (use at gone none in auto)
qed

lemma lwp_bind_stepped:
  assumes "lwp R ft m (stepped ft y y') y" and "lwp R ft (f ()) Q y'"
    and "\<And>z e. ft \<Longrightarrow> z \<in> {y, y'} \<Longrightarrow> Q (Raised e) z \<and> Q Dead z"
  shows "lwp R ft (io_bind m f) Q y"
proof (rule lwp_bind, rule lwp_mono [OF assms(1)])
  fix out z assume "stepped ft y y' out z"
  then show "case out of Returned x \<Rightarrow> lwp R ft (f x) Q z | Raised e \<Rightarrow> Q (Raised e) z | Dead \<Rightarrow> Q Dead z"
    using assms(2,3) by (cases out) (auto simp: stepped_def)
qed

lemma lwp_bind_cleanup:
  assumes "lwp (at_layout U root f L k) ft (m ()) Q (y\<lparr>ly_pending := None\<rparr>)"
    and "ft \<Longrightarrow> lwp (at_layout U root f L k) ft (m ()) Q y \<and> Q Dead y"
  shows "lwp (at_layout U root f L k) ft (io_bind (cleanup_path (pending_path root k)) m) Q y"
  by (rule lwp_bind, rule lwp_mono [OF lwp_cleanup_pending]) (use assms in auto)

lemma lwp_bind_fsync:
  assumes "lwp R ft (m ()) Q y" and "\<And>e. ft \<Longrightarrow> Q (Raised e) y \<and> Q Dead y"
  shows "lwp R ft (io_bind fsync_directory m) Q y"
  by (rule lwp_bind, rule lwp_fsync) (use assms in auto)

text \<open>The second link of a record.\<close>

lemma lwp_link_revision:
  assumes "ly_ids y = ly_revs y @ [r]"
  shows "lwp (at_layout U root f L k) ft
    (link_no_overwrite (by_id_path root k (cw_checkpoint_id r)) (revision_path root k (Suc (length (ly_revs y)))))
    (\<lambda>out z. (out = Returned True \<and> z = y\<lparr>ly_revs := ly_revs y @ [r]\<rparr>)
      \<or> (ft \<and> z = y \<and> (\<forall>b. out \<noteq> Returned b))) y"
proof (rule lwpI)
  fix d assume at: "at_layout U root f L k y d"
  let ?n = "Suc (length (ly_revs y))"
  let ?p = "(?n, r)"
  have e: "?p \<in> set (enumerate 1 (ly_ids y))" unfolding assms enumerate_snoc by blast
  have "has d (by_id_path root k (cw_checkpoint_id r)) (Some (record_bytes (versioned ?p)))"
    using at_layoutD(1) [OF at, unfolded stream_files_def ids_part_def] entry_at(3,4) [OF at e] by fastforce
  then obtain i where src: "look d (by_id_path root k (cw_checkpoint_id r)) = Some (File i (record_bytes (versioned ?p)))"
    by (auto simp: has_def holds_def)
  have free: "look d (place_path root (Rev_At k ?n)) = None"
    using at_layoutD(1) [OF at] by (simp add: stream_files_def revs_part_def)
  let ?P = "\<lambda>out d'. \<exists>z. ((out = Returned True \<and> z = y\<lparr>ly_revs := ly_revs y @ [r]\<rparr>)
      \<or> (ft \<and> z = y \<and> (\<forall>b. out \<noteq> Returned b))) \<and> at_layout U root f L k z d'"
  have "wp ft (link_no_overwrite (by_id_path root k (cw_checkpoint_id r)) (place_path root (Rev_At k ?n))) ?P d"
  proof (rule wp_link_place [OF src clear_at [OF at]])
    fix d' assume "changed_at root (Rev_At k ?n) d d'"
      and "look d' (place_path root (Rev_At k ?n)) = Some (File i (record_bytes (versioned ?p)))"
    then have "at_layout U root f L k (y\<lparr>ly_revs := ly_revs y @ [r]\<rparr>) d'"
      using src by (intro at_recorded [OF at assms]) simp_all
    then show "?P (Returned True) d'" by blast
  qed (use free at_settled [OF at] in auto)
  then show "wp ft (link_no_overwrite (by_id_path root k (cw_checkpoint_id r)) (revision_path root k ?n)) ?P d" by simp
qed

section \<open>Recovery\<close>

definition resting :: "stage \<Rightarrow> bool" where
  "resting g \<longleftrightarrow> g = Idle \<or> g = Announced \<or> g = Committed"

definition recovered ::
  "names \<Rightarrow> (string \<Rightarrow> pyfloat) \<Rightarrow> bool \<Rightarrow> log \<Rightarrow> entry_of_log \<Rightarrow> unit outcome \<Rightarrow> layout \<Rightarrow> bool" where
  "recovered U f ft X p out z \<longleftrightarrow> (\<exists>g. stage_fits U f g X p \<and> z = stage_of g X p \<and> (ft \<or> out = Returned ())
     \<and> (out = Returned () \<longrightarrow> resting g \<and> (ft \<or> g = Idle)))"

lemma recoveredI:
  "stage_fits U f g X p \<Longrightarrow> z = stage_of g X p \<Longrightarrow> ft \<or> out = Returned () \<Longrightarrow>
     (out = Returned () \<Longrightarrow> resting g \<and> (ft \<or> g = Idle)) \<Longrightarrow> recovered U f ft X p out z"
  unfolding recovered_def by blast

lemma recovered_fails:
  "ft \<Longrightarrow> stage_fits U f g X p \<Longrightarrow> z = stage_of g X p \<Longrightarrow> recovered U f ft X p (Raised e) z \<and> recovered U f ft X p Dead z"
  unfolding recovered_def by auto

lemma fits_idle: "stage_fits U f Idle X p"
  by simp

lemma chain_read:
  assumes "X \<noteq> []" and "at_layout U root f L k y d" and "ly_revs y = X"
  shows "validate_committed_chain root f k (the (head_record X)) v d = Inr (map ck_view (log_list X))"
  using chain_validated_at [OF assms(2) _ assms(1), of v] assms(1,3) by (simp add: head_record_def)

lemma no_records:
  assumes "at_layout U root f L k y d" and "ly_ids y = []" and "ly_revs y = []"
  shows "\<not> head_and_records_exist root k d"
proof -
  have "listed_part (by_id_root root k) {} d" "listed_part (by_revision_root root k) {} d"
    using at_layoutD(1) [OF assms(1)] assms(2,3) by (simp_all add: stream_files_def id_paths_def rev_paths_def)
  then have "rglob d r ''.json'' = []" if "r = by_id_root root k \<or> r = by_revision_root root k" for r
    using that set_rglob [of _ d r "''.json''"] unfolding listed_part_def
    by (metis empty_iff list.set_intros(1) neq_Nil_conv)
  then show ?thesis by (simp add: head_and_records_exist_def)
qed

lemma head_beyond_at: "head_beyond (head_record H) (PInt (int n)) = Inr (n < length H \<and> H \<noteq> [])"
  by (simp add: head_beyond_def head_record_def head_of_def)

lemma lwp_final_cleanup:
  assumes "stage_fits U f g X p" and "g = Announced \<or> g = Committed"
  shows "lwp (at_layout U root f L k) ft (cleanup_path (pending_path root k)) (recovered U f ft X p) (stage_of g X p)"
proof (rule lwp_mono [OF lwp_cleanup_pending])
  fix out z
  assume "out = Returned () \<and> z = (stage_of g X p)\<lparr>ly_pending := None\<rparr>
    \<or> ft \<and> z = stage_of g X p \<and> (out = Returned () \<or> out = Dead)"
  then show "recovered U f ft X p out z"
  proof (elim disjE conjE)
    assume "out = Returned ()" "z = (stage_of g X p)\<lparr>ly_pending := None\<rparr>"
    then show ?thesis using assms(2) by (intro recoveredI [OF fits_idle]) (auto simp: resting_def)
  qed (use assms in \<open>auto intro!: recoveredI [OF assms(1)] simp: resting_def\<close>)
qed

lemma lwp_complete_pending:
  assumes "X \<noteq> []" and "p = (length X, last X)" and "storable f p"
  shows "lwp (at_layout U root f L k) ft
    (complete_pending root k (shown_entry p) (by_id_path root k (cw_checkpoint_id (last X)))
       (revision_path root k (length X)) reload)
    (recovered U f ft X p) (stage_of Identified X p)"
proof -
  let ?R = "at_layout U root f L k"
  have X: "X = butlast X @ [last X]" "length X = Suc (length (butlast X))" using assms(1) by simp_all
  have fit: "stage_fits U f g X p" if "g \<in> {Idle, Identified, Recorded, Committed}" for g
    using assms(1,2) that by auto
  have fails: "recovered U f ft X p (Raised e) z \<and> recovered U f ft X p Dead z"
    if z: "ft" "z \<in> {stage_of Identified X p, stage_of Recorded X p, stage_of Committed X p}" for e z
  proof -
    obtain g where "g \<in> {Idle, Identified, Recorded, Committed}" "z = stage_of g X p" using z(2) by blast
    then show ?thesis using recovered_fails [OF z(1) fit] by blast
  qed
  have rec: "(stage_of Identified X p)\<lparr>ly_revs := X\<rparr> = stage_of Recorded X p"
    "(stage_of Recorded X p)\<lparr>ly_head := X\<rparr> = stage_of Committed X p"
    "(stage_of Committed X p)\<lparr>ly_pending := None\<rparr> = stage_of Idle X p" by simp_all
  have tail: "lwp ?R ft (io_bind (write_head_of root k (shown_entry p)) (\<lambda>_. cleanup_path (pending_path root k)))
      (recovered U f ft X p) (stage_of Recorded X p)"
  proof (rule lwp_bind_stepped)
    show "lwp ?R ft (write_head_of root k (shown_entry p)) (stepped ft (stage_of Recorded X p) (stage_of Committed X p)) (stage_of Recorded X p)"
      using lwp_write_head_of [OF assms(1), of f "shown_entry p" U root L k ft "stage_of Recorded X p"] assms(2,3) rec(2) by simp
    show "lwp ?R ft (cleanup_path (pending_path root k)) (recovered U f ft X p) (stage_of Committed X p)"
      by (rule lwp_final_cleanup [OF fit]) simp_all
  qed (use fails in blast)
  have skip: "lwp ?R ft (io_bind (io_when (\<not> True) g) (\<lambda>_. io_bind fsync_directory (\<lambda>_.
      io_bind (write_head_of root k (shown_entry p)) (\<lambda>_. cleanup_path (pending_path root k)))))
      (recovered U f ft X p) (stage_of Recorded X p)" for g
  proof -
    have "lwp ?R ft (io_bind fsync_directory (\<lambda>_. io_bind (write_head_of root k (shown_entry p))
        (\<lambda>_. cleanup_path (pending_path root k)))) (recovered U f ft X p) (stage_of Recorded X p)"
      by (rule lwp_bind_fsync [OF tail]) (use fails in blast)
    then show ?thesis unfolding io_when_def by (intro lwp_bind) (simp add: lwp_return)
  qed
  have e: "ly_ids (stage_of Identified X p) = ly_revs (stage_of Identified X p) @ [last X]"
    using assms(1) by simp
  have "lwp ?R ft (link_no_overwrite (by_id_path root k (cw_checkpoint_id (last X))) (revision_path root k (length X)))
      (\<lambda>out z. (out = Returned True \<and> z = stage_of Recorded X p)
        \<or> (ft \<and> z = stage_of Identified X p \<and> (\<forall>b. out \<noteq> Returned b))) (stage_of Identified X p)"
    using lwp_link_revision [OF e, of U root f L k ft] assms(1) by simp
  then show ?thesis
    unfolding complete_pending_def
  proof (intro lwp_bind, elim lwp_mono)
    fix out z
    assume "(out = Returned True \<and> z = stage_of Recorded X p)
        \<or> (ft \<and> z = stage_of Identified X p \<and> (\<forall>b. out \<noteq> Returned b))"
    then show "case out of
        Returned created \<Rightarrow> lwp ?R ft (io_bind (io_when (\<not> created) (io_read (\<lambda>d. r_bind (reload d) (\<lambda>existing.
          r_guard (case existing of None \<Rightarrow> True | Some x \<Rightarrow> \<not> checkpoint_eq x (shown_entry p)) pending_mismatch))))
          (\<lambda>_. io_bind fsync_directory (\<lambda>_. io_bind (write_head_of root k (shown_entry p))
            (\<lambda>_. cleanup_path (pending_path root k))))) (recovered U f ft X p) z
      | Raised e \<Rightarrow> recovered U f ft X p (Raised e) z
      | Dead \<Rightarrow> recovered U f ft X p Dead z"
    proof (elim disjE conjE)
      assume "out = Returned True" "z = stage_of Recorded X p"
      then show ?thesis by (simp only: outcome.case skip)
    next
      assume "ft" "z = stage_of Identified X p" "\<forall>b. out \<noteq> Returned b"
      then show ?thesis using fails [of z] by (cases out) auto
    qed
  qed
qed

lemma lwp_given: "(\<And>d. R y d \<Longrightarrow> lwp R ft m Q y) \<Longrightarrow> lwp R ft m Q y"
  by (rule lwpI) (blast dest: lwpD)

lemma lwp_chain:
  assumes "X \<noteq> []" and "ly_revs y = X" and "Q (Returned ()) y"
  shows "lwp (at_layout U root f L k) ft
    (io_read (\<lambda>d. r_bind (validate_committed_chain root f k (the (head_record X)) v d) (\<lambda>_. Inr ()))) Q y"
  using chain_read [OF assms(1) _ assms(2)] by (intro lwp_read [where x = "()"]) (simp_all add: assms(3))

lemma stage_sound:
  assumes "at_layout U root f L k (stage_of g X p) d" and "stage_fits U f g X p"
  shows "sound f (stage_of g X p)"
proof (cases "g = Idle \<or> g = Announced")
  case True
  then show ?thesis using assms(2) by (auto simp: sound_def)
next
  case False
  then have x: "X \<noteq> []" "p = (length X, last X)" "ly_ids (stage_of g X p) = X" using assms(2) by (cases g; simp)+
  have "storable f p" using entry_at(1) [OF assms(1)] prefix_last_entry [OF prefix_order.refl x(1)] x(2,3) by simp
  moreover have "prefix (butlast X) X" by (simp add: prefixeq_butlast)
  ultimately show ?thesis using False by (cases g) (simp_all add: sound_def)
qed

lemma lwp_finish_tail:
  assumes "X \<noteq> []" and "p = (length X, last X)" and "storable f p"
  shows "lwp (at_layout U root f L k) ft
    (io_bind (cleanup_path (pending_path root k)) (\<lambda>_. io_read (\<lambda>d.
       r_bind (load_head root f k d) (\<lambda>current.
       r_bind (if current = None \<and> b then e else Inr []) (\<lambda>h.
       r_bind (validate_committed_chain root f k (case current of Some x \<Rightarrow> x | None \<Rightarrow> other h) v d) (\<lambda>_. Inr ()))))))
    (recovered U f ft X p) (stage_of Committed X p)"
proof -
  let ?g = "\<lambda>d. r_bind (load_head root f k d) (\<lambda>current. r_bind (if current = None \<and> b then e else Inr []) (\<lambda>h.
       r_bind (validate_committed_chain root f k (case current of Some x \<Rightarrow> x | None \<Rightarrow> other h) v d) (\<lambda>_. Inr ())))"
  have read: "?g d = Inr ()" if "at_layout U root f L k y d" "sound f y" "ly_head y = X" "ly_revs y = X" for y d
  proof -
    have "load_head root f k d = Inr (Some (the (head_record X)))"
      using load_head_at [OF that(1,2)] that(3) assms(1) by (simp add: head_record_def)
    then show ?thesis using chain_read [OF assms(1) that(1,4)] by simp
  qed
  have fit: "stage_fits U f Committed X p" using assms by simp
  have s: "sound f (stage_of Committed X p)" "sound f (stage_of Idle X p)" using assms by (simp_all add: sound_def)
  have idle: "(stage_of Committed X p)\<lparr>ly_pending := None\<rparr> = stage_of Idle X p" by simp
  show ?thesis
  proof (rule lwp_bind_cleanup, unfold idle)
    show "lwp (at_layout U root f L k) ft (io_read ?g) (recovered U f ft X p) (stage_of Idle X p)"
      by (rule lwp_read, erule read) (use s in \<open>auto intro!: recoveredI [OF fits_idle] simp: resting_def\<close>)
    assume ft
    moreover have "lwp (at_layout U root f L k) ft (io_read ?g) (recovered U f ft X p) (stage_of Committed X p)"
      by (rule lwp_read, erule read) (use s \<open>ft\<close> in \<open>auto intro!: recoveredI [OF fit] simp: resting_def\<close>)
    ultimately show "lwp (at_layout U root f L k) ft (io_read ?g) (recovered U f ft X p) (stage_of Committed X p)
        \<and> recovered U f ft X p Dead (stage_of Committed X p)"
      using recovered_fails [OF _ fit refl] by blast
  qed
qed

lemma lwp_finish_pending:
  assumes "X \<noteq> []" and "p = (length X, last X)" and "storable f p" and "g = Recorded \<or> g = Committed"
  shows "lwp (at_layout U root f L k) ft
    (finish_pending root f k v (head_record (ly_head (stage_of g X p))) (shown_entry p))
    (recovered U f ft X p) (stage_of g X p)"
proof -
  let ?R = "at_layout U root f L k"
  have fit: "stage_fits U f h X p" if "h \<in> {Recorded, Committed}" for h using assms(1,2) that by auto
  have fails: "recovered U f ft X p (Raised e) z \<and> recovered U f ft X p Dead z"
    if z: "ft" "z \<in> {stage_of Recorded X p, stage_of Committed X p}" for e z
  proof -
    obtain h where "h \<in> {Recorded, Committed}" "z = stage_of h X p" using z(2) by blast
    then show ?thesis using recovered_fails [OF z(1) fit] by blast
  qed
  note tail = lwp_finish_tail [OF assms(1-3)]
  consider "g = Committed" | "g = Recorded" using assms(4) by blast
  then show ?thesis
  proof cases
    case 1
    have b: "head_beyond (head_record X) (PInt (int (length X))) = Inr False" by (simp add: head_beyond_at)
    show ?thesis
      unfolding finish_pending_def 1
      by (rule lwp_read_bind [where x = False], simp add: head_record_def head_of_def assms(1,2), simp only: if_False,
          rule lwp_read_bind [where x = "()"], simp add: b assms(2), rule tail)
  next
    case 2
    have w: "lwp ?R ft (write_head_of root k (shown_entry p)) (stepped ft (stage_of Recorded X p) (stage_of Committed X p)) (stage_of Recorded X p)"
      using lwp_write_head_of [OF assms(1), of f "shown_entry p" U root L k ft "stage_of Recorded X p"] assms(2,3) by simp
    have s: "lwp ?R ft fsync_directory (stepped ft (stage_of Committed X p) (stage_of Committed X p)) (stage_of Committed X p)"
      by (rule lwp_fsync) (simp_all add: stepped_def)
    have both: "lwp ?R ft (io_bind (write_head_of root k (shown_entry p)) (\<lambda>_. fsync_directory))
        (stepped ft (stage_of Recorded X p) (stage_of Committed X p)) (stage_of Recorded X p)"
      by (rule lwp_bind_stepped [OF w], rule lwp_mono [OF s]) (auto simp: stepped_def)
    show ?thesis
      unfolding finish_pending_def 2
      by (rule lwp_read_bind [where x = True], simp add: head_record_def head_of_def assms(1,2), simp only: if_True,
          rule lwp_bind_stepped [OF both], rule tail, rule fails)
  qed
qed

lemma pending_record_simps [simp]:
  "pi_checkpoint_id (pending_record p) = cw_checkpoint_id (snd p)" "pi_revision (pending_record p) = PInt (int (fst p))"
  "pi_parent (pending_record p) = cw_parent (snd p)"
  by (simp_all add: pending_record_def pending_of_def)

lemma pending_matches_shown: "pending_matches (shown_entry p) (pending_record p)"
  by (simp add: pending_matches_def)

lemma last_found:
  assumes "at_layout U root f L k (stage_of g X p) d" and "X \<noteq> []" and "p = (length X, last X)" and "ly_ids (stage_of g X p) = X"
  shows "log_find X (cw_checkpoint_id (last X)) = Some p" "storable f p" "utf8 (cw_checkpoint_id (last X)) \<in> nm_ids U"
  using entry_at [OF assms(1)] prefix_last_entry [OF prefix_order.refl assms(2)] assms(3,4) by fastforce+

text \<open>A pending write whose record is not there is withdrawn.\<close>

lemma lwp_withdraw:
  assumes "stage_fits U f Announced X p"
  shows "lwp (at_layout U root f L k) ft
    (recover_pending root f k v (pending_record p) (head_record X) None None) (recovered U f ft X p) (stage_of Announced X p)"
proof -
  let ?R = "at_layout U root f L k"
  let ?m = "case head_record X of None \<Rightarrow> io_return ()
    | Some h \<Rightarrow> io_read (\<lambda>d. r_bind (validate_committed_chain root f k h v d) (\<lambda>_. Inr ()))"
  have m: "lwp ?R ft ?m Q y" if "ly_revs y = X" "Q (Returned ()) y" for Q y
  proof (cases "X = []")
    case True
    then show ?thesis using that(2) by (simp add: head_record_def lwp_return)
  next
    case False
    then obtain h where "head_record X = Some h" by (simp add: head_record_def)
    then show ?thesis using lwp_chain [of X y Q U root f L k ft v, OF False that] by simp
  qed
  have idle: "(stage_of Announced X p)\<lparr>ly_pending := None\<rparr> = stage_of Idle X p" by simp
  show ?thesis
    unfolding recover_pending_def prod.case option.case
  proof (rule lwp_bind_cleanup, unfold idle)
    show "lwp ?R ft ?m (recovered U f ft X p) (stage_of Idle X p)"
      by (rule m) (auto intro!: recoveredI [OF fits_idle] simp: resting_def)
    assume ft
    then have "recovered U f ft X p (Returned ()) (stage_of Announced X p)"
      by (intro recoveredI [OF assms]) (simp_all add: resting_def)
    then have "lwp ?R ft ?m (recovered U f ft X p) (stage_of Announced X p)" by (intro m) simp_all
    then show "lwp ?R ft ?m (recovered U f ft X p) (stage_of Announced X p) \<and> recovered U f ft X p Dead (stage_of Announced X p)"
      using recovered_fails [OF \<open>ft\<close> assms refl] by blast
  qed
qed

text \<open>A record that is there is completed, or the head and the pending file are made to agree with it.\<close>

lemma lwp_recover_record:
  assumes "X \<noteq> []" and "p = (length X, last X)" and "storable f p"
  shows "lwp (at_layout U root f L k) ft
      (recover_pending root f k v (pending_record p) h (Some (shown_entry p)) None) (recovered U f ft X p) (stage_of Identified X p)"
    and "g = Recorded \<or> g = Committed \<Longrightarrow> lwp (at_layout U root f L k) ft
      (recover_pending root f k v (pending_record p) (head_record (ly_head (stage_of g X p)))
        (Some (shown_entry p)) (Some (shown_entry p))) (recovered U f ft X p) (stage_of g X p)"
proof -
  let ?R = "at_layout U root f L k"
  have path: "by_revision_path root k (PInt (int (length X))) = Inr (revision_path root k (length X))"
    using assms(1) by (simp add: by_revision_path_int)
  have p: "fst p = length X" "snd p = last X" using assms(2) by simp_all
  show "lwp ?R ft (recover_pending root f k v (pending_record p) h (Some (shown_entry p)) None)
      (recovered U f ft X p) (stage_of Identified X p)"
    using pending_matches_shown [of p] lwp_complete_pending [OF assms, of U root L k ft] path p
    unfolding recover_pending_def by (auto intro!: lwp_read_bind simp del: stage_of.simps)
  assume g: "g = Recorded \<or> g = Committed"
  have links: "record_links root k (cw_checkpoint_id (last X)) (PInt (int (length X))) d = Inr ()"
    if "?R (stage_of g X p) d" for d
    using record_links_at [OF that, of "length X - 1"] g assms(1) by (auto simp: last_conv_nth)
  show "lwp ?R ft (recover_pending root f k v (pending_record p) (head_record (ly_head (stage_of g X p)))
        (Some (shown_entry p)) (Some (shown_entry p))) (recovered U f ft X p) (stage_of g X p)"
    using pending_matches_shown [of p] shown_eq [OF assms(3)] lwp_finish_pending [OF assms g, of U root L k ft v] links p
    unfolding recover_pending_def by (auto intro!: lwp_read_bind simp del: stage_of.simps)
qed

lemma lwp_recover_reads:
  assumes "lwp (at_layout U root f L k) ft (h i r) Q y" and "utf8 (cw_checkpoint_id (snd p)) \<in> nm_ids U"
    and "fst p = Suc n" and "length (ly_head y) \<le> Suc n"
    and "i = map_option shown_entry (log_find (ly_ids y) (cw_checkpoint_id (snd p)))"
    and "r = (if n < length (ly_revs y) then Some (shown_entry (Suc n, ly_revs y ! n)) else None)"
  shows "lwp (at_layout U root f L k) ft
    (io_bind (io_read (load_record_by_id root f k (pi_checkpoint_id (pending_record p)) v)) (\<lambda>i.
     io_bind (io_read (load_record_by_revision root f k (pi_revision (pending_record p)) v)) (\<lambda>r.
     io_bind (io_read (\<lambda>d. r_bind (head_beyond (head_record (ly_head y)) (pi_revision (pending_record p)))
       (\<lambda>b. r_guard b impossible_pending))) (\<lambda>_. h i r)))) Q y"
  unfolding pending_record_simps assms(3)
proof (rule lwp_read_bind [where x = i], goal_cases)
  case 2
  show ?case
  proof (rule lwp_read_bind [where x = r], goal_cases)
    case 2
    show ?case
      by (rule lwp_read_bind [where x = "()"]) (use head_beyond_at assms(1,4) in \<open>simp_all del: of_nat_Suc\<close>)
  qed (use load_by_revision_at assms(6) in blast)
qed (use load_by_id_at assms(2,5) in blast)

lemma lwp_recover_stream:
  assumes "stage_fits U f g X p"
  shows "lwp (at_layout U root f L k) ft (recover_stream root f k v) (recovered U f ft X p) (stage_of g X p)"
proof (rule lwp_given)
  fix d assume at: "at_layout U root f L k (stage_of g X p) d"
  let ?R = "at_layout U root f L k"
  let ?y = "stage_of g X p"
  have s: "sound f ?y" by (rule stage_sound [OF at assms])
  have heads: "lwp ?R ft (io_bind (io_read (load_pending root f k)) (\<lambda>pd. io_bind (io_read (load_head root f k)) (h pd))) Q ?y"
    if "lwp ?R ft (h (map_option pending_record (ly_pending ?y)) (head_record (ly_head ?y))) Q ?y" for h Q
    using load_pending_at [OF _ s] load_head_at [OF _ s] that by (intro lwp_read_bind) blast+
  show ?thesis
  proof (cases "g = Idle")
    case True
    have rest: "recovered U f ft X p (Returned ()) (stage_of Idle X p)" by (rule recoveredI [OF fits_idle]) (simp_all add: resting_def)
    show ?thesis
      unfolding recover_stream_def True
    proof (rule heads [unfolded True], simp only: stage_of.simps layout.simps option.map option.case)
      let ?y = "\<lparr>ly_head = X, ly_ids = X, ly_revs = X, ly_pending = None\<rparr>"
      show "lwp ?R ft (case head_record X of
          None \<Rightarrow> io_read (\<lambda>d. r_guard (head_and_records_exist root k d)
            (cf_mismatch ''committed records without a head.'' ''DANGLING_RECORDS''))
        | Some h \<Rightarrow> io_read (\<lambda>d. r_bind (validate_committed_chain root f k h v d) (\<lambda>_. Inr ())))
        (recovered U f ft X p) ?y"
      proof (cases "X = []")
        case True
        show ?thesis using rest no_records True
          by (simp add: head_record_def) (rule lwp_read [where x = "()"], auto)
      next
        case False
        then obtain h where "head_record X = Some h" by (simp add: head_record_def)
        then show ?thesis using lwp_chain [OF False, of ?y "recovered U f ft X p" U root f L k ft v] rest by simp
      qed
    qed
  next
    case False
    then have p: "ly_pending ?y = Some p" by (cases g) simp_all
    have X: "X \<noteq> []" "p = (length X, last X)" "ly_ids ?y = X" if "g \<noteq> Announced" using assms False that by (cases g; simp)+
    have n: "length X = Suc (length X - 1)" "X ! (length X - 1) = last X" if "g \<noteq> Announced"
      using X(1) [OF that] by (simp_all add: last_conv_nth)
    note l = last_found [OF at X]
    let ?read = "io_bind (io_read (load_record_by_id root f k (pi_checkpoint_id (pending_record p)) v)) (\<lambda>i.
        io_bind (io_read (load_record_by_revision root f k (pi_revision (pending_record p)) v)) (\<lambda>r.
        io_bind (io_read (\<lambda>d. r_bind (head_beyond (head_record (ly_head ?y)) (pi_revision (pending_record p)))
          (\<lambda>b. r_guard b impossible_pending))) (\<lambda>_.
            recover_pending root f k v (pending_record p) (head_record (ly_head ?y)) i r)))"
    show ?thesis
      unfolding recover_stream_def
    proof (rule heads, unfold p option.map option.case, cases "g = Announced")
      case True
      show "lwp ?R ft ?read (recovered U f ft X p) ?y"
          by (rule lwp_recover_reads [where n = "length X" and i = None and r = None])
            (use assms True lwp_withdraw [of U f X p] in \<open>simp_all add: log_find_None\<close>)
      next
        case False
        note X = X [OF False] and n = n [OF False] and l = l [OF False False False]
        have g: "g = Identified \<or> g = Recorded \<or> g = Committed" using False \<open>g \<noteq> Idle\<close> by (cases g) simp_all
        then show "lwp ?R ft ?read (recovered U f ft X p) ?y"
          using lwp_recover_record [OF X(1,2) l(2), where U = U and root = root and L = L and k = k and ft = ft and v = v] l(1,3) X(2) n(2) X(1)
          by (intro lwp_recover_reads [where n = "length X - 1" and i = "Some (shown_entry p)"
                and r = "if g = Identified then None else Some (shown_entry p)"]) auto
    qed
  qed
qed

section \<open>The lock\<close>

lemma lwp_locked_stream:
  assumes "lwp (at_layout U root f L k) ft m Q y" and "\<And>e. ft \<Longrightarrow> Q (Raised e) y \<and> Q Dead y"
  shows "lwp (at_layout U root f L k) ft (locked_stream root k m) Q y"
proof (rule lwpI)
  fix d assume at: "at_layout U root f L k y d"
  let ?R = "at_layout U root f L k"
  let ?P = "\<lambda>out d'. \<exists>z. Q out z \<and> ?R z d'"
  let ?p = "lock_path root k"
  have dir: "prefix (butlast ?p) (root @ place_dirs (Head_At k))" by (simp add: lock_path_def) (simp add: stream_dir_parts)
  have fail: "?P (Raised x) d' \<and> ?P Dead d'" if "ft" "?R y d'" for x d'
    using assms(2) that by blast
  have "wp ft (io_bind (open_lock ?p) (\<lambda>_. io_bind (io_call cf_lock_failed id) (\<lambda>_. m))) ?P d1"
    if "dirs_added (cf_dirs root) d d1" for d1
  proof -
    have r1: "?R y d1" by (rule at_settled [OF at dirs_added_quiet [OF that]])
    have m: "wp ft (io_bind (io_call cf_lock_failed id) (\<lambda>_. m)) ?P d2" if "?R y d2" for d2
      using lwpD [OF assms(1) that] fail [OF _ that] by (auto intro!: wp_bind wp_call)
    have "?p \<in> cf_temps root" by (simp add: cf_temps_def)
    from at_settled [OF r1 quiet_new [OF this]] have new: "?R y (new_file ?p b d1)" for b .
    have "free_or_file d1 ?p" using at_layoutD(4) [OF r1] unfolding common_files_def by blast
    then consider "look d1 ?p = None" | n b where "look d1 ?p = Some (File n b)"
      by (auto simp: free_or_file_def split: option.splits entry.splits)
    then have "wp ft (open_lock ?p) (\<lambda>out d2. ?R y d2 \<and> (ft \<or> out = Returned ())) d1"
    proof cases
      case 1
      have "wp ft (io_call cf_lock_failed (new_file ?p [])) (\<lambda>out d2. ?R y d2 \<and> (ft \<or> out = Returned ())) d1"
        using r1 new by (intro wp_call) auto
      then show ?thesis using 1 by (simp add: wp_def open_lock_def)
    qed (use r1 in \<open>auto intro!: wpI simp: open_lock_def io_return_def\<close>)
    then show ?thesis
      by (intro wp_bind, elim wp_mono) (use m fail in \<open>auto split: outcome.split\<close>)
  qed
  then show "wp ft (locked_stream root k m) ?P d"
    unfolding locked_stream_def
    using fail at_settled [OF at] by (intro wp_bind wp_ensure_place [OF dir clear_at [OF at]]) auto
qed

end
