(* ===== verification/Checkpoint_Writing.thy ===== *)
theory Checkpoint_Writing
  imports Checkpoint_Recovery
begin

text \<open>
  A write to the filesystem checkpoint store: what each of its steps makes of the layout of the stream,
  and the outcome of \<open>cf_save\<close>, in which the log either grew by the whole request or did not change.
\<close>

section \<open>Publishing the body\<close>

lemma temp_dir_body: "temp_dir root (butlast (body_file root b))"
  using butlast_place [of root "Body_At b"] unfolding temp_dir_def by auto

lemma body_free_or_there:
  assumes "at_layout U root f L k y d" and "b \<in> nm_bodies U"
  shows "look d (body_file root b) = None \<or> holds d (body_file root b) b"
  using at_layoutD(4) [OF assms(1)] assms(2) by (simp add: common_files_def)

lemma at_body_written:
  assumes "at_layout U root f L k y d" and "b \<in> nm_bodies U" and "changed_at root (Body_At b) d d'" and "holds d' (body_file root b) b"
  shows "at_layout U root f L k y d'"
  by (rule at_body [OF assms(1-3)]) (use assms(4) in simp)

lemma holds_settled: "settled_at root d d' \<Longrightarrow> holds d (place_path root q) b \<Longrightarrow> holds d' (place_path root q) b"
  by (simp add: holds_def settled_place)

lemma wp_publish_immutable:
  assumes at: "at_layout U root f L k y d" and b: "b \<in> nm_bodies U"
    and ok: "\<And>c d'. at_layout U root f L k y d' \<Longrightarrow> holds d' (body_file root b) b \<Longrightarrow> P (Returned c) d'"
    and fail: "\<And>d' x. ft \<Longrightarrow> at_layout U root f L k y d' \<Longrightarrow> P (Raised x) d' \<and> P Dead d'"
  shows "wp ft (publish_immutable_bytes (body_file root b) b) P d"
proof -
  let ?R = "at_layout U root f L k y"
  let ?P = "\<lambda>out d'. ?R d' \<and> (case out of Returned _ \<Rightarrow> holds d' (body_file root b) b | _ \<Rightarrow> ft)"
  have body: "wp ft (io_finally (io_bind (link_no_overwrite t (body_file root b)) (\<lambda>created.
        io_bind (io_when created fsync_directory) (\<lambda>_. io_return created))) (cleanup_path t)) ?P d1"
    if s: "settled_at root d d1" and t: "t \<in> cf_temps root" and l: "look d1 t = Some (File n b)" for t d1 n
  proof (rule wp_with_temp [OF t])
    have r1: "?R d1" by (rule at_settled [OF at s])
    have sync: "wp ft (io_bind (io_when created fsync_directory) (\<lambda>_. io_return created)) ?P d2"
      if "?R d2" "holds d2 (body_file root b) b" for d2 created
      using that unfolding fsync_directory_def by (auto intro!: wp_bind wp_when wp_call wp_return)
    have "wp ft (io_bind (link_no_overwrite t (place_path root (Body_At b))) (\<lambda>created.
        io_bind (io_when created fsync_directory) (\<lambda>_. io_return created))) ?P d1"
    proof (intro wp_bind wp_link_place [OF l clear_at [OF r1]], goal_cases)
      case (1 d2)
      then have "holds d2 (body_file root b) b"
        using body_free_or_there [OF r1 b] holds_settled [OF 1(2), of "Body_At b" b] by auto
      then show ?case using sync [OF at_settled [OF r1 1(2)]] by simp
    next
      case (2 d2)
      then have h: "holds d2 (body_file root b) b" by (auto simp: holds_def)
      then show ?case using sync [OF at_body_written [OF r1 b 2(2) h] h] by simp
    qed (use at_settled [OF r1] in auto)
    then show "wp ft (io_bind (link_no_overwrite t (body_file root b)) (\<lambda>created.
        io_bind (io_when created fsync_directory) (\<lambda>_. io_return created))) ?P d1" by simp
    show "?P out d3" if "?P out d2" "settled_at root d2 d3" for out d2 d3
      using that at_settled [OF _ that(2)] holds_settled [OF that(2), of "Body_At b" b]
      by (auto split: outcome.splits)
  qed (auto split: outcome.splits)
  have "wp ft (publish_immutable_bytes (body_file root b) b) ?P d"
    unfolding publish_immutable_bytes_def
    using at_settled [OF at] by (intro wp_bind wp_write_temp_bytes [OF temp_dir_body clear_at [OF at]]) (simp_all add: body)
  then show ?thesis
    by (rule wp_mono) (use ok fail in \<open>auto split: outcome.splits\<close>)
qed

lemma wp_publish_body:
  assumes "at_layout U root f L k y d" and "cw_body (snd p) \<in> nm_bodies U"
    and "\<And>d'. at_layout U root f L k y d' \<Longrightarrow> holds d' (body_file root (cw_body (snd p))) (cw_body (snd p)) \<Longrightarrow> P (Returned ()) d'"
    and "\<And>d' x. ft \<Longrightarrow> at_layout U root f L k y d' \<Longrightarrow> P (Raised x) d' \<and> P Dead d'"
  shows "wp ft (publish_body root (versioned p) (cw_body (snd p))) P d"
proof -
  let ?b = "cw_body (snd p)"
  let ?g = "\<lambda>d. r_bind (cf_read_file (body_file root ?b) ''body'' (Some (int (length ?b))) False d)
    (\<lambda>found. r_guard (found \<noteq> Some ?b) (cf_mismatch ''a body integrity failure.'' ''BODY_INTEGRITY_FAILURE''))"
  have "?g d' = Inr ()" if "holds d' (body_file root ?b) ?b" for d'
    using that by (auto simp: holds_def cf_read_file_def)
  then have check: "wp ft (io_when (\<not> c) (io_read ?g)) P d'"
    if "at_layout U root f L k y d'" "holds d' (body_file root ?b) ?b" for c d'
    using assms(3) [OF that] that(2) by (intro wp_when wp_read) auto
  show ?thesis
    unfolding publish_body_def versioned_simps body_file_def [symmetric]
    by (intro wp_bind wp_publish_immutable [OF assms(1,2)]) (use check assms(4) in \<open>simp_all add: body_file_def\<close>)
qed

section \<open>Committing the record\<close>

text \<open>A write of \<open>r\<close> to the log \<open>X\<close> that it belongs to: it failed with the log as it was, or the log has it.\<close>

definition next_entry :: "log \<Rightarrow> checkpoint_request \<Rightarrow> entry_of_log" where
  "next_entry X r = (Suc (length X), r)"

definition wrote ::
  "names \<Rightarrow> (string \<Rightarrow> pyfloat) \<Rightarrow> bool \<Rightarrow> log \<Rightarrow> checkpoint_request \<Rightarrow> stored_checkpoint outcome \<Rightarrow> layout \<Rightarrow> bool" where
  "wrote U f ft X r out z \<longleftrightarrow>
     (ft \<and> (\<forall>c. out \<noteq> Returned c) \<and> (\<exists>g p. stage_fits U f g X p \<and> z = stage_of g X p))
     \<or> ((ft \<or> out = Returned (versioned (next_entry X r))) \<and> (\<forall>c. out = Returned c \<longrightarrow> c = versioned (next_entry X r))
        \<and> (\<exists>g. g \<noteq> Announced \<and> z = stage_of g (X @ [r]) (next_entry X r)))"

lemma wrote_fails:
  "ft \<Longrightarrow> stage_fits U f g X p \<Longrightarrow> z = stage_of g X p \<Longrightarrow> wrote U f ft X r (Raised e) z \<and> wrote U f ft X r Dead z"
  unfolding wrote_def by blast

lemma wrote_fails_late:
  "ft \<Longrightarrow> g \<noteq> Announced \<Longrightarrow> z = stage_of g (X @ [r]) (next_entry X r) \<Longrightarrow>
     wrote U f ft X r (Raised e) z \<and> wrote U f ft X r Dead z"
  unfolding wrote_def by blast

lemma wrote_returns:
  "g \<noteq> Announced \<Longrightarrow> z = stage_of g (X @ [r]) (next_entry X r) \<Longrightarrow> out = Returned (versioned (next_entry X r)) \<Longrightarrow>
     wrote U f ft X r out z"
  unfolding wrote_def by blast

text \<open>What a write needs of its request.\<close>

definition fresh_entry ::
  "names \<Rightarrow> (string \<Rightarrow> pyfloat) \<Rightarrow> stream \<Rightarrow> log \<Rightarrow> checkpoint_request \<Rightarrow> bool" where
  "fresh_entry U f k X r \<longleftrightarrow> storable f (next_entry X r) \<and> cw_body r \<in> nm_bodies U \<and> utf8 (cw_checkpoint_id r) \<in> nm_ids U
     \<and> stream_key r = k \<and> log_find X (cw_checkpoint_id r) = None \<and> cw_parent r = log_head X"

lemma fresh_announced: "fresh_entry U f k X r \<Longrightarrow> stage_fits U f Announced X (next_entry X r)"
  by (auto simp: fresh_entry_def next_entry_def log_find_None)

text \<open>Once both links are there.\<close>

lemma lwp_commit_tail:
  assumes "storable f (next_entry X r)"
  shows "lwp (at_layout U root f L k) ft
    (io_bind fsync_directory (\<lambda>_. io_bind fsync_directory (\<lambda>_.
     io_bind (write_head_of root k (versioned (next_entry X r))) (\<lambda>_.
     io_bind (cleanup_path (pending_path root k)) (\<lambda>_. io_read (\<lambda>d. clone_checkpoint (versioned (next_entry X r))))))))
    (wrote U f ft X r) (stage_of Recorded (X @ [r]) (next_entry X r))"
proof -
  let ?R = "at_layout U root f L k"
  let ?p = "next_entry X r"
  let ?y = "\<lambda>g. stage_of g (X @ [r]) ?p"
  have p: "?p = (length (X @ [r]), last (X @ [r]))" by (simp add: next_entry_def)
  have late: "wrote U f ft X r (Raised e) (?y g) \<and> wrote U f ft X r Dead (?y g)" if "ft" "g \<noteq> Announced" for e g
    using wrote_fails_late [OF that refl] by blast
  have last: "lwp ?R ft (io_read (\<lambda>d. clone_checkpoint (versioned ?p))) (wrote U f ft X r) (?y g)" if "g \<noteq> Announced" for g
    using clone_view(2) [OF assms] wrote_returns [OF that refl refl]
    by (intro lwp_read [where x = "versioned ?p"]) simp_all
  have idle: "(?y Committed)\<lparr>ly_pending := None\<rparr> = ?y Idle" by simp
  have clean: "lwp ?R ft (io_bind (cleanup_path (pending_path root k)) (\<lambda>_. io_read (\<lambda>d. clone_checkpoint (versioned ?p))))
      (wrote U f ft X r) (?y Committed)"
    by (rule lwp_bind_cleanup, unfold idle) (use last [of Idle] last [of Committed] late [of Committed] in blast)+
  have w: "lwp ?R ft (write_head_of root k (versioned ?p)) (stepped ft (?y Recorded) (?y Committed)) (?y Recorded)"
    using lwp_write_head_of [of "X @ [r]" f "versioned ?p" U root L k ft "?y Recorded"] assms p by simp
  have "lwp ?R ft (io_bind (write_head_of root k (versioned ?p)) (\<lambda>_.
      io_bind (cleanup_path (pending_path root k)) (\<lambda>_. io_read (\<lambda>d. clone_checkpoint (versioned ?p)))))
      (wrote U f ft X r) (?y Recorded)"
    by (rule lwp_bind_stepped [OF w clean]) (use late [of Recorded] late [of Committed] in blast)
  then show ?thesis
    by (intro lwp_bind_fsync) (use late [of Recorded] in blast)+
qed

lemma wp_commit_record:
  assumes fresh: "fresh_entry U f k X r"
    and at: "at_layout U root f L k (stage_of Announced X (next_entry X r)) d"
    and temp: "look d t = Some (File n (record_bytes (versioned (next_entry X r))))"
  shows "wp ft (commit_record root f k (versioned (next_entry X r)) t)
    (\<lambda>out d'. \<exists>z. wrote U f ft X r out z \<and> at_layout U root f L k z d') d"
proof -
  let ?R = "at_layout U root f L k"
  let ?p = "next_entry X r"
  let ?b = "record_bytes (versioned ?p)"
  let ?P = "\<lambda>out d'. \<exists>z. wrote U f ft X r out z \<and> ?R z d'"
  let ?id = "by_id_path root k (cw_checkpoint_id r)"
  note fr = fresh [unfolded fresh_entry_def]
  have p: "fst ?p = Suc (length X)" "snd ?p = r" by (simp_all add: next_entry_def)
  have rev: "by_revision_path root k (PInt (int (Suc (length X)))) = Inr (revision_path root k (Suc (length X)))"
    by (simp add: by_revision_path_int del: of_nat_Suc)
  have "has d ?id (map_option (record_bytes \<circ> versioned) (log_find X (cw_checkpoint_id r)))"
    using at_layoutD(1) [OF at] fr unfolding stream_files_def ids_part_def stage_of.simps layout.simps by blast
  then have free: "look d (place_path root (Id_At k (cw_checkpoint_id r))) = None" using fr by (simp add: has_def)
  have free_rev: "look d2 (place_path root (Rev_At k (Suc (length X)))) = None" if "?R (stage_of Identified (X @ [r]) ?p) d2" for d2
    using at_layoutD(1) [OF that] by (simp add: stream_files_def revs_part_def)
  have fail1: "?P (Raised e) d2 \<and> ?P Dead d2" if "ft" "?R (stage_of Announced X ?p) d2" for e d2
    using wrote_fails [OF that(1) fresh_announced [OF fresh] refl] that(2) by blast
  have fail2: "?P (Raised e) d2 \<and> ?P Dead d2" if "ft" "?R (stage_of Identified (X @ [r]) ?p) d2" for e d2
    using wrote_fails_late [OF that(1) _ refl, where g = Identified and X = X and r = r] that(2) by blast
  have link2: "wp ft (link_no_overwrite t (place_path root (Rev_At k (Suc (length X)))))
      (\<lambda>out d'. case out of Returned l \<Rightarrow> l \<and> ?R (stage_of Recorded (X @ [r]) ?p) d' | _ \<Rightarrow> ?P (Raised pending_mismatch) d' \<and> ?P Dead d' \<and> (\<forall>e. out = Raised e \<longrightarrow> ?P (Raised e) d')) d2"
    if r2: "?R (stage_of Identified (X @ [r]) ?p) d2" and l: "look d2 t = Some (File n ?b)" "look d2 ?id = Some (File n ?b)" for d2
  proof (rule wp_link_place [OF l(1) clear_at [OF r2]], goal_cases)
    case (2 d3)
    have "?R ((stage_of Identified (X @ [r]) ?p)\<lparr>ly_revs := ly_revs (stage_of Identified (X @ [r]) ?p) @ [r]\<rparr>) d3"
      by (rule at_recorded [OF r2]) (use 2 l in simp_all)
    then show ?case by simp
  next
    case (3 d3)
    then show ?case using fail2 [OF _ at_settled [OF r2 3(2)]] by simp
  qed (use free_rev [OF r2] in simp)
  have entry: "entry_ok U root f d2 k ?p" if "?R (stage_of Announced X ?p) d2" for d2
    using at_layoutD(1) [OF that] fr p by (auto simp: stream_files_def pending_body_def entry_ok_def)
  let ?rest = "\<lambda>linked. io_bind (io_when (\<not> linked)
      (io_read (\<lambda>d. r_bind (load_record_by_revision root f k (PInt (int (Suc (length X)))) True d) (\<lambda>existing.
        r_bind (r_guard (case existing of None \<Rightarrow> True | Some x \<Rightarrow> \<not> checkpoint_eq x (versioned ?p)) identity_conflict) (\<lambda>_.
          verify_hard_link_pair ?id (revision_path root k (Suc (length X))) ''record'' d))))) (\<lambda>_.
    io_bind fsync_directory (\<lambda>_. io_bind fsync_directory (\<lambda>_.
     io_bind (write_head_of root k (versioned ?p)) (\<lambda>_.
     io_bind (cleanup_path (pending_path root k)) (\<lambda>_. io_read (\<lambda>d. clone_checkpoint (versioned ?p)))))))"
  have rest: "wp ft (?rest True) ?P d2" if "?R (stage_of Recorded (X @ [r]) ?p) d2" for d2
    using lwpD [OF lwp_commit_tail that] fr unfolding io_when_def by (intro wp_bind) (simp add: wp_return)
  have second: "wp ft (io_bind (link_no_overwrite t (revision_path root k (Suc (length X)))) ?rest) ?P d2"
    if "?R (stage_of Identified (X @ [r]) ?p) d2" "look d2 t = Some (File n ?b)" "look d2 ?id = Some (File n ?b)" for d2
    by (rule wp_bind, rule wp_mono, rule link2 [OF that, simplified]) (use rest in \<open>auto split: outcome.split\<close>)
  have "wp ft (io_bind (link_no_overwrite t (place_path root (Id_At k (cw_checkpoint_id r)))) (\<lambda>created.
      if \<not> created then commit_existing root f k (versioned ?p) ?id (revision_path root k (Suc (length X)))
      else io_bind (link_no_overwrite t (revision_path root k (Suc (length X)))) ?rest)) ?P d"
  proof (intro wp_bind wp_link_place [OF temp clear_at [OF at]], goal_cases)
    case (2 d2)
    have "?R ((stage_of Announced X ?p)\<lparr>ly_ids := ly_ids (stage_of Announced X ?p) @ [r]\<rparr>) d2"
      by (rule at_identified [OF at 2(2)]) (use 2 fr entry [OF at] in \<open>simp_all add: holds_def next_entry_def\<close>)
    then have "?R (stage_of Identified (X @ [r]) ?p) d2" by simp
    then show ?case using second 2 by simp
  next
    case (3 d2)
    then show ?case using fail1 at_settled [OF at 3(2)] by simp
  qed (use free in simp)
  then show ?thesis
    unfolding commit_record_def versioned_simps p by (intro wp_bind wp_read) (simp only: rev Let_def sum.case outcome.case place_path.simps)
qed

section \<open>A new record\<close>

text \<open>The state of a stream after a save: the log is the old one or the one the request makes of it.\<close>

definition saved ::
  "names \<Rightarrow> (string \<Rightarrow> pyfloat) \<Rightarrow> bool \<Rightarrow> log \<Rightarrow> checkpoint_request \<Rightarrow> stored_checkpoint outcome \<Rightarrow> layout \<Rightarrow> bool" where
  "saved U f ft X r out z \<longleftrightarrow> (\<exists>Y g p. stage_fits U f g Y p \<and> z = stage_of g Y p \<and> (Y = X \<or> Y = fst (log_save X r))
     \<and> (case out of
          Returned c \<Rightarrow> Y = fst (log_save X r) \<and> save_outcome ck_view (Inr c) (snd (log_save X r))
        | Raised e \<Rightarrow> ft \<or> save_outcome ck_view (Inl e) (snd (log_save X r))
        | Dead \<Rightarrow> ft))"

lemma savedI:
  "stage_fits U f g Y p \<Longrightarrow> z = stage_of g Y p \<Longrightarrow> Y = X \<or> Y = fst (log_save X r) \<Longrightarrow>
     (case out of
        Returned c \<Rightarrow> Y = fst (log_save X r) \<and> save_outcome ck_view (Inr c) (snd (log_save X r))
      | Raised e \<Rightarrow> ft \<or> save_outcome ck_view (Inl e) (snd (log_save X r))
      | Dead \<Rightarrow> ft) \<Longrightarrow> saved U f ft X r out z"
  unfolding saved_def by blast

lemma saved_fails:
  "ft \<Longrightarrow> stage_fits U f g X p \<Longrightarrow> z = stage_of g X p \<Longrightarrow> saved U f ft X r (Raised e) z \<and> saved U f ft X r Dead z"
  unfolding saved_def by fastforce

lemma log_save_fresh:
  "fresh_entry U f k X r \<Longrightarrow> log_save X r = (X @ [r], Some (versioned (next_entry X r)))"
  by (simp add: fresh_entry_def log_save_def next_entry_def)

lemma wrote_saved:
  assumes "fresh_entry U f k X r" and "wrote U f ft X r out z"
  shows "saved U f ft X r out z"
proof -
  consider g p where "ft" "\<forall>c. out \<noteq> Returned c" "stage_fits U f g X p" "z = stage_of g X p"
    | g where "ft \<or> out = Returned (versioned (next_entry X r))" "\<forall>c. out = Returned c \<longrightarrow> c = versioned (next_entry X r)"
        "g \<noteq> Announced" "z = stage_of g (X @ [r]) (next_entry X r)"
    using assms(2) unfolding wrote_def by blast
  then show ?thesis
  proof cases
    case 1
    then show ?thesis by (intro savedI [of U f g X p]) (auto split: outcome.split)
  next
    case (2 g)
    have "stage_fits U f g (X @ [r]) (next_entry X r)" using 2(3) by (cases g) (simp_all add: next_entry_def)
    then show ?thesis
      using 2 log_save_fresh [OF assms(1)] by (intro savedI) (auto split: outcome.split)
  qed
qed

lemma revision_after_head:
  "revision_after (head_record X) r =
     (if cw_parent r = log_head X then Inr (int (Suc (length X))) else Inl stale_parent)"
  by (simp add: revision_after_def head_record_def head_of_def log_head_def)

lemma stale_parent_conflict: "isinstance stale_parent CheckpointConflictError_cls"
  "isinstance identity_conflict CheckpointConflictError_cls"
  by (simp_all add: stale_parent_def identity_conflict_def cf_conflict_error_def error_init_defs
      FrameworkError_init_def isinstance_def)

text \<open>What the write needs of its request, once its parent is the head.\<close>

definition request_fits ::
  "names \<Rightarrow> (string \<Rightarrow> pyfloat) \<Rightarrow> stream \<Rightarrow> log \<Rightarrow> checkpoint_request \<Rightarrow> bool" where
  "request_fits U f k X r \<longleftrightarrow> wf_checkpoint r \<and> cw_body r \<in> nm_bodies U \<and> utf8 (cw_checkpoint_id r) \<in> nm_ids U \<and> stream_key r = k
     \<and> (log_find X (cw_checkpoint_id r) = None \<longrightarrow> storable f (next_entry X r))"

lemma pending_of_next: "pending_of (versioned (next_entry X r)) (cw_body r) (record_hash (versioned (next_entry X r)))
    = pending_record (next_entry X r)"
  by (simp add: pending_record_def next_entry_def)

lemma wp_write_record:
  assumes fresh: "fresh_entry U f k X r"
    and at: "at_layout U root f L k (stage_of Announced X (next_entry X r)) d"
  shows "wp ft (io_bind (write_temp_bytes (stream_dir root k @ [''records'']) (record_bytes (versioned (next_entry X r))) ''.json'')
     (\<lambda>t. io_finally (commit_record root f k (versioned (next_entry X r)) t) (cleanup_path t)))
    (\<lambda>out d'. \<exists>z. wrote U f ft X r out z \<and> at_layout U root f L k z d') d"
proof -
  let ?R = "at_layout U root f L k"
  let ?y = "stage_of Announced X (next_entry X r)"
  have commit: "wp ft (io_finally (commit_record root f k (versioned (next_entry X r)) t) (cleanup_path t))
      (\<lambda>out d'. \<exists>z. wrote U f ft X r out z \<and> ?R z d') d1"
    if "settled_at root d d1" "t \<in> cf_temps root" "look d1 t = Some (File n (record_bytes (versioned (next_entry X r))))" for d1 t n
  proof (rule lwp_with_temp [OF that(2) at_settled [OF at that(1)]])
    show "wp ft (commit_record root f k (versioned (next_entry X r)) t) (\<lambda>out d'. \<exists>z. wrote U f ft X r out z \<and> ?R z d') d1"
      by (rule wp_commit_record [OF fresh at_settled [OF at that(1)] that(3)])
    show "ft \<Longrightarrow> wrote U f ft X r out z \<Longrightarrow> wrote U f ft X r Dead z" for out z
      unfolding wrote_def by blast
  qed
  have fail: "\<exists>z. wrote U f ft X r (Raised e) z \<and> ?R z d1" "\<exists>z. wrote U f ft X r Dead z \<and> ?R z d1"
    if "ft" "settled_at root d d1" for e d1
    using wrote_fails [OF that(1) fresh_announced [OF fresh] refl] at_settled [OF at that(2)] by blast+
  show ?thesis
    by (intro wp_bind wp_write_temp_bytes [OF temp_dir_stream(2) clear_at [OF at]])
      (use commit fail in \<open>simp_all del: stage_of.simps\<close>)
qed

lemma wp_read_bind: "g d = Inr x \<Longrightarrow> wp ft (m x) P d \<Longrightarrow> wp ft (io_bind (io_read g) m) P d"
  by (intro wp_bind wp_read) simp

lemma wp_write_after_body:
  assumes fresh: "fresh_entry U f k X r" and g: "resting g" "ft \<or> g = Idle" and fit: "stage_fits U f g X q"
    and at: "at_layout U root f L k (stage_of g X q) d" and body: "holds d (body_file root (cw_body r)) (cw_body r)"
  shows "wp ft (io_bind (write_pending root k (pending_record (next_entry X r))) (\<lambda>_.
     io_bind (io_read (\<lambda>d. r_bind (safe_record_payload (versioned (next_entry X r))) (\<lambda>payload.
       encode_json (PDict (dict_set (AStr ''record_digest'') (PStr (record_hash (versioned (next_entry X r)))) payload))))) (\<lambda>bytes.
     io_bind (write_temp_bytes (stream_dir root k @ [''records'']) bytes ''.json'') (\<lambda>t.
       io_finally (commit_record root f k (versioned (next_entry X r)) t) (cleanup_path t)))))
    (\<lambda>out d'. \<exists>z. saved U f ft X r out z \<and> at_layout U root f L k z d') d"
proof -
  let ?R = "at_layout U root f L k"
  let ?p = "next_entry X r"
  let ?y = "stage_of g X q"
  let ?P = "\<lambda>out d'. \<exists>z. saved U f ft X r out z \<and> ?R z d'"
  let ?rest = "io_bind (io_read (\<lambda>d. r_bind (safe_record_payload (versioned ?p)) (\<lambda>payload.
       encode_json (PDict (dict_set (AStr ''record_digest'') (PStr (record_hash (versioned ?p))) payload))))) (\<lambda>bytes.
     io_bind (write_temp_bytes (stream_dir root k @ [''records'']) bytes ''.json'') (\<lambda>t.
       io_finally (commit_record root f k (versioned ?p) t) (cleanup_path t)))"
  have p: "snd ?p = r" by (simp add: next_entry_def)
  have st: "storable f ?p" and U: "cw_body r \<in> nm_bodies U" using fresh by (simp_all add: fresh_entry_def)
  note bytes = record_bytes_written [OF storable_simps(3) [OF st]]
  have rest: "wp ft ?rest ?P d1" if "?R (stage_of Announced X ?p) d1" for d1
  proof -
    have "wp ft (io_bind (write_temp_bytes (stream_dir root k @ [''records'']) (record_bytes (versioned ?p)) ''.json'') (\<lambda>t.
       io_finally (commit_record root f k (versioned ?p) t) (cleanup_path t))) ?P d1"
      by (rule wp_mono [OF wp_write_record [OF fresh that]]) (use wrote_saved [OF fresh] in blast)
    then show ?thesis by (intro wp_bind wp_read) (simp only: bytes sum.case outcome.case)
  qed
  have fail: "?P (Raised e) d1 \<and> ?P Dead d1"
    if "ft" "?R z d1" "z = ?y \<or> z = stage_of Announced X ?p" for e z d1
    using that saved_fails [OF that(1) fit] saved_fails [OF that(1) fresh_announced [OF fresh]] by blast
  note w = wp_write_pending [OF at, of ?p ft, unfolded p, OF U body]
  show ?thesis
  proof (cases "g = Idle")
    case True
    then have y: "ly_pending ?y = None" "?y\<lparr>ly_pending := Some ?p\<rparr> = stage_of Announced X ?p" by simp_all
    show ?thesis
    proof (rule wp_bind, rule wp_mono [OF w], simp only: y simp_thms if_True, elim exE conjE)
      fix out d1 z assume o: "stepped ft ?y (stage_of Announced X ?p) out z" "?R z d1"
      show "case out of Returned x \<Rightarrow> wp ft ?rest ?P d1 | Raised e \<Rightarrow> ?P (Raised e) d1 | Dead \<Rightarrow> ?P Dead d1"
        using o(1) unfolding stepped_def
      proof (elim disjE conjE)
        assume "out = Returned ()" "z = stage_of Announced X ?p"
        then show ?thesis using rest o(2) by simp
      next
        assume "ft" "out \<noteq> Returned ()" "z \<in> {?y, stage_of Announced X ?p}"
        then show ?thesis using fail [of z d1] o(2) by (cases out) (auto simp del: stage_of.simps)
      qed
    qed
  next
    case False
    then have ft and y: "ly_pending ?y \<noteq> None" using g by (auto simp: resting_def)
    show ?thesis
      by (rule wp_bind, rule wp_mono [OF w], simp only: y simp_thms if_False)
        (use fail [OF \<open>ft\<close>] in \<open>auto split: outcome.split simp del: stage_of.simps\<close>)
  qed
qed

lemma lwp_write_new:
  assumes req: "request_fits U f k X r" and new: "log_find X (cw_checkpoint_id r) = None"
    and g: "resting g" "ft \<or> g = Idle" and fit: "stage_fits U f g X q"
  shows "lwp (at_layout U root f L k) ft (write_new root f k r) (saved U f ft X r) (stage_of g X q)"
proof (rule lwpI)
  fix d assume at: "at_layout U root f L k (stage_of g X q) d"
  let ?R = "at_layout U root f L k"
  let ?p = "next_entry X r"
  let ?P = "\<lambda>out d'. \<exists>z. saved U f ft X r out z \<and> ?R z d'"
  have X: "ly_head (stage_of g X q) = X" using g(1) by (auto simp: resting_def)
  note h = load_head_at [OF at stage_sound [OF at fit], unfolded X]
  note rf = req [unfolded request_fits_def]
  show "wp ft (write_new root f k r) ?P d"
  proof (cases "cw_parent r = log_head X")
    case False
    then have s: "log_save X r = (X, None)" using new by (simp add: log_save_def)
    have "saved U f ft X r (Raised stale_parent) (stage_of g X q)"
      by (rule savedI [OF fit refl]) (use stale_parent_conflict s in simp_all)
    then show ?thesis
      using at False unfolding write_new_def
      by (intro wp_bind wp_read) (auto intro!: wp_bind wp_read simp: h revision_after_head)
  next
    case True
    have fresh: "fresh_entry U f k X r" using rf new True by (simp add: fresh_entry_def)
    have st: "storable f ?p" using fresh by (simp add: fresh_entry_def)
    have b: "r_bind (revision_after (head_record X) r) (build_checkpoint_descriptor r) = Inr (versioned ?p)"
      using build_checkpoint_descriptor_wf(1) [of r "int (Suc (length X))"] rf True
      by (simp add: revision_after_head versioned_def next_entry_def)
    note hash = storable_simps(5) [OF st]
    have fail: "?P (Raised e) d1 \<and> ?P Dead d1" if "ft" "?R (stage_of g X q) d1" for e d1
      using that saved_fails [OF that(1) fit refl] by blast
    have p: "snd ?p = r" by (simp add: next_entry_def)
    let ?rest = "io_bind (write_pending root k (pending_record ?p)) (\<lambda>_.
     io_bind (io_read (\<lambda>d. r_bind (safe_record_payload (versioned (next_entry X r))) (\<lambda>payload.
       encode_json (PDict (dict_set (AStr ''record_digest'') (PStr (record_hash (versioned (next_entry X r)))) payload))))) (\<lambda>bytes.
     io_bind (write_temp_bytes (stream_dir root k @ [''records'']) bytes ''.json'') (\<lambda>t.
       io_finally (commit_record root f k (versioned (next_entry X r)) t) (cleanup_path t))))"
    have pub: "wp ft (publish_body root (versioned ?p) (cw_body r)) (\<lambda>out d'. case out of
        Returned x \<Rightarrow> wp ft ?rest ?P d' | Raised e \<Rightarrow> ?P (Raised e) d' | Dead \<Rightarrow> ?P Dead d') d"
      by (rule wp_publish_body [OF at, of ?p, unfolded p])
        (use rf fail wp_write_after_body [OF fresh g fit] p in \<open>simp_all del: stage_of.simps\<close>)
    show ?thesis
      unfolding write_new_def p
      by (rule wp_read_bind, rule h, rule wp_read_bind, rule b, rule wp_read_bind, rule hash, rule wp_bind,
          unfold pending_of_next, rule pub)
  qed
qed

section \<open>The save\<close>

lemma digest_inj: "apart U \<Longrightarrow> a \<in> nm_bodies U \<Longrightarrow> b \<in> nm_bodies U \<Longrightarrow> body_digest a = body_digest b \<longleftrightarrow> a = b"
  using apart_inj(1) by (simp add: body_digest_def)

lemma cf_same_request_shown:
  assumes "apart U" and "cw_body (snd p) \<in> nm_bodies U" and "cw_body r \<in> nm_bodies U"
    and "wf_checkpoint (snd p)" and "wf_checkpoint r"
  shows "cf_same_request (shown_entry p) r = Inr (same_request (snd p) r)"
proof -
  have "normalize_checkpoint_metadata (PDict (cw_metadata (snd p))) = Inr (cw_metadata (snd p))"
    using assms(4) by (simp add: wf_checkpoint_def)
  then have m: "canonicalize_checkpoint_metadata (PDict (sc_metadata (shown_entry p)))
      = canonicalize_checkpoint_metadata (PDict (cw_metadata (snd p)))"
    using canonicalize_metadata_sorted by (simp add: shown_entry_def)
  obtain a b where ab: "canonicalize_checkpoint_metadata (PDict (cw_metadata (snd p))) = Inr a"
    "canonicalize_checkpoint_metadata (PDict (cw_metadata r)) = Inr b"
    using canonicalize_checkpoint_metadata_total assms(4,5) by blast
  have fields: "sc_serializer_name (shown_entry p) = cw_serializer_name (snd p)"
    "sc_serializer_version (shown_entry p) = cw_serializer_version (snd p)"
    "sc_content_type (shown_entry p) = cw_content_type (snd p)"
    by (simp_all add: shown_entry_def versioned_def describe_checkpoint_def)
  show ?thesis
    unfolding cf_same_request_def same_request_def m ab fields shown_entry_simps
    using digest_inj [OF assms(1-3)] by auto
qed

text \<open>A request whose identifier is there already.\<close>

lemma saved_again:
  assumes at: "at_layout U root f L k y d" and ids: "ly_ids y = X" and req: "request_fits U f k X r"
    and found: "log_find X (cw_checkpoint_id r) = Some p"
  shows "r_bind (cf_same_request (shown_entry p) r) (\<lambda>same.
      if same then clone_checkpoint (shown_entry p) else Inl identity_conflict)
    = (if same_request (snd p) r then Inr (shown_entry p) else Inl identity_conflict)"
    and "log_save X r = (X, if same_request (snd p) r then Some (versioned p) else None)"
proof -
  have "p \<in> set (enumerate 1 (ly_ids y))" using log_find_SomeD [OF found] ids by simp
  note e = entry_at [OF at this]
  have "cw_body (snd p) \<in> nm_bodies U" "wf_checkpoint (snd p)" using e(1,2) storable_simps(1) by (simp_all add: entry_ok_def)
  then show "r_bind (cf_same_request (shown_entry p) r) (\<lambda>same.
      if same then clone_checkpoint (shown_entry p) else Inl identity_conflict)
    = (if same_request (snd p) r then Inr (shown_entry p) else Inl identity_conflict)"
    using cf_same_request_shown [OF at_layoutD(2) [OF at], of p r] req clone_view(1) [OF e(1)]
    by (simp add: request_fits_def shown_entry_def)
  show "log_save X r = (X, if same_request (snd p) r then Some (versioned p) else None)"
    using found by (simp add: log_save_def)
qed

lemma lwp_cf_save:
  assumes req: "request_fits U f k X r" and fit: "stage_fits U f g X q"
  shows "lwp (at_layout U root f L k) ft (cf_save root f r) (saved U f ft X r) (stage_of g X q)"
proof -
  let ?R = "at_layout U root f L k"
  note rf = req [unfolded request_fits_def]
  have "normalize_checkpoint_run_id (run_id_value (cw_run_id r)) = Inr (cw_run_id r)"
    "normalize_checkpoint_namespace (PStr (cw_namespace r)) = Inr (cw_namespace r)"
    using rf unfolding wf_checkpoint_def by (simp_all only: ck_run_id_value ck_namespace_iff)
  then have key: "cf_stream_key (run_id_value (cw_run_id r)) (PStr (cw_namespace r)) = Inr k"
    using rf by (auto simp: cf_stream_key_def stream_key_def)
  let ?m = "\<lambda>existing. case existing of
      Some c \<Rightarrow> io_read (\<lambda>d. r_bind (cf_same_request c r) (\<lambda>same. if same then clone_checkpoint c else Inl identity_conflict))
    | None \<Rightarrow> write_new root f k r"
  have body: "lwp ?R ft (io_bind (io_read (load_record_by_id root f k (cw_checkpoint_id r) True)) ?m) (saved U f ft X r) (stage_of h X q)"
    if h: "resting h" "ft \<or> h = Idle" "stage_fits U f h X q" for h
  proof -
    have ids: "ly_ids (stage_of h X q) = X" using h(1) by (auto simp: resting_def)
    have "lwp ?R ft (?m (map_option shown_entry (log_find X (cw_checkpoint_id r)))) (saved U f ft X r) (stage_of h X q)"
    proof (cases "log_find X (cw_checkpoint_id r)")
      case None
      then show ?thesis using lwp_write_new [OF req None h] by simp
    next
      case (Some p)
      show ?thesis
      proof (rule lwp_given)
        fix d assume at: "?R (stage_of h X q) d"
        note s = saved_again [OF at ids req Some]
        show "lwp ?R ft (?m (map_option shown_entry (log_find X (cw_checkpoint_id r)))) (saved U f ft X r) (stage_of h X q)"
        proof (cases "same_request (snd p) r")
          case True
          then have "saved U f ft X r (Returned (shown_entry p)) (stage_of h X q)"
            by (intro savedI [OF h(3) refl]) (simp_all add: s(2) shown_entry_def)
          then show ?thesis
            unfolding Some option.map option.case s(1) using True by (intro lwp_read) simp_all
        next
          case False
          then have "saved U f ft X r (Raised identity_conflict) (stage_of h X q)"
            by (intro savedI [OF h(3) refl]) (simp_all add: s(2) stale_parent_conflict)
          then show ?thesis
            unfolding Some option.map option.case s(1) using False by (intro lwp_read_fails) simp_all
        qed
      qed
    qed
    then show ?thesis
      using load_by_id_at [where c = "cw_checkpoint_id r"] rf ids by (intro lwp_read_bind) auto
  qed
  have fails: "ft \<Longrightarrow> saved U f ft X r (Raised e) (stage_of g X q) \<and> saved U f ft X r Dead (stage_of g X q)" for e
    using saved_fails [OF _ fit refl] .
  show ?thesis
    unfolding cf_save_def
  proof (rule lwp_read_bind, rule key, rule lwp_locked_stream, rule lwp_bind, rule lwp_mono [OF lwp_recover_stream [OF fit]])
    fix out z assume rec: "recovered U f ft X q out z"
    then obtain h where h: "stage_fits U f h X q" "z = stage_of h X q" "ft \<or> out = Returned ()"
      "out = Returned () \<Longrightarrow> resting h \<and> (ft \<or> h = Idle)" unfolding recovered_def by blast
    show "case out of
        Returned x \<Rightarrow> lwp ?R ft (io_bind (io_read (load_record_by_id root f k (cw_checkpoint_id r) True)) ?m) (saved U f ft X r) z
      | Raised e \<Rightarrow> saved U f ft X r (Raised e) z | Dead \<Rightarrow> saved U f ft X r Dead z"
      using h body [OF _ _ h(1)] saved_fails [OF _ h(1,2)] by (cases out) auto
  qed (rule fails)
qed

end
