(* ===== verification/Checkpoint_Queries.thy ===== *)
theory Checkpoint_Queries
  imports Checkpoint_Writing
begin

text \<open>
  The reading operations of the filesystem checkpoint store at a stream that recovery has settled:
  each answers with the log's entries, and changes nothing but what recovery does. The store is an
  instance of the protocol of checkpoint stores.
\<close>

section \<open>Reading after recovery\<close>

definition answered ::
  "names \<Rightarrow> (string \<Rightarrow> pyfloat) \<Rightarrow> bool \<Rightarrow> log \<Rightarrow> 'a \<Rightarrow> 'a outcome \<Rightarrow> layout \<Rightarrow> bool" where
  "answered U f ft X v out z \<longleftrightarrow> (\<exists>g p. stage_fits U f g X p \<and> z = stage_of g X p
     \<and> (ft \<or> out = Returned v) \<and> (\<forall>w. out = Returned w \<longrightarrow> w = v))"

lemma answered_fails:
  "ft \<Longrightarrow> stage_fits U f g X p \<Longrightarrow> z = stage_of g X p \<Longrightarrow> answered U f ft X v (Raised e) z \<and> answered U f ft X v Dead z"
  unfolding answered_def by blast

text \<open>A settled stream, as recovery leaves it.\<close>

definition settled_stream ::
  "names \<Rightarrow> path \<Rightarrow> (string \<Rightarrow> pyfloat) \<Rightarrow> (stream \<Rightarrow> log) \<Rightarrow> stream \<Rightarrow> log \<Rightarrow> disk \<Rightarrow> bool" where
  "settled_stream U root f L k X d \<longleftrightarrow> (\<exists>y. at_layout U root f L k y d \<and> sound f y \<and> ly_head y = X \<and> ly_ids y = X \<and> ly_revs y = X)"

lemma lwp_locked_read:
  assumes "\<And>d. settled_stream U root f L k X d \<Longrightarrow> h d = Inr v" and "stage_fits U f g X q"
  shows "lwp (at_layout U root f L k) ft
    (locked_stream root k (io_bind (recover_stream root f k b) (\<lambda>_. io_read h))) (answered U f ft X v) (stage_of g X q)"
proof (rule lwp_locked_stream)
  let ?R = "at_layout U root f L k"
  show "lwp ?R ft (io_bind (recover_stream root f k b) (\<lambda>_. io_read h)) (answered U f ft X v) (stage_of g X q)"
  proof (rule lwp_bind, rule lwp_mono [OF lwp_recover_stream [OF assms(2)]])
    fix out z assume "recovered U f ft X q out z"
    then obtain i where i: "stage_fits U f i X q" "z = stage_of i X q" "ft \<or> out = Returned ()"
      "out = Returned () \<Longrightarrow> resting i" unfolding recovered_def by blast
    have "lwp ?R ft (io_read h) (answered U f ft X v) z" if "resting i"
    proof (rule lwp_read)
      fix d assume at: "?R z d"
      have "ly_head z = X" "ly_ids z = X" "ly_revs z = X" using that i(2) by (auto simp: resting_def)
      moreover have "sound f z" using stage_sound [OF at [unfolded i(2)] i(1)] unfolding i(2) .
      ultimately have "settled_stream U root f L k X d" using at unfolding settled_stream_def by blast
      then show "h d = Inr v" by (rule assms(1))
    qed (use i(1,2) in \<open>unfold answered_def, blast\<close>)
    then show "case out of Returned x \<Rightarrow> lwp ?R ft (io_read h) (answered U f ft X v) z
      | Raised e \<Rightarrow> answered U f ft X v (Raised e) z | Dead \<Rightarrow> answered U f ft X v Dead z"
      using i answered_fails [of ft U f i X q z v, OF _ i(1,2)] by (cases out) simp_all
  qed
  show "ft \<Longrightarrow> answered U f ft X v (Raised e) (stage_of g X q) \<and> answered U f ft X v Dead (stage_of g X q)" for e
    using answered_fails [OF _ assms(2) refl] .
qed

section \<open>What is read\<close>

lemma enumerate_entry:
  assumes "p \<in> set (enumerate 1 X)"
  obtains n where "n < length X" "p = (Suc n, X ! n)"
proof -
  have "1 \<le> fst p" "fst p < length X + 1" "X ! (fst p - 1) = snd p" using assms unfolding in_set_enumerate_eq by auto
  then show thesis using that [of "fst p - 1"] by (simp add: prod_eq_iff)
qed

lemma settled_entry:
  assumes "settled_stream U root f L k X d" and "p \<in> set (enumerate 1 X)"
  shows "storable f p" "checkpoint_digest (shown_entry p) = Inr (record_hash (versioned p))"
    "record_links root k (cw_checkpoint_id (snd p)) (PInt (int (fst p))) d = Inr ()"
    "read_result root (shown_entry p) d = Inr (Some (viewed ck_view (version_reading p)))"
    "clone_checkpoint (shown_entry p) = Inr (shown_entry p)"
    "\<And>v. load_record_by_revision root f k (PInt (int (fst p))) v d = Inr (Some (shown_entry p))"
    "validate_listing_body root (shown_entry p) d = Inr ()"
proof -
  obtain y where y: "at_layout U root f L k y d" "sound f y" "ly_head y = X" "ly_ids y = X" "ly_revs y = X"
    using assms(1) unfolding settled_stream_def by blast
  have p: "p \<in> set (enumerate 1 (ly_ids y))" using assms(2) y(4) by simp
  obtain n where n: "n < length X" "p = (Suc n, X ! n)" by (rule enumerate_entry [OF assms(2)])
  note e = entry_at [OF y(1) p]
  show st: "storable f p" by (rule e(1))
  show "checkpoint_digest (shown_entry p) = Inr (record_hash (versioned p))"
    using storable_simps(6) [OF st] by (simp add: shown_entry_def)
  show "record_links root k (cw_checkpoint_id (snd p)) (PInt (int (fst p))) d = Inr ()"
    using record_links_at [OF y(1), of n] y(5) n by simp
  show c: "clone_checkpoint (shown_entry p) = Inr (shown_entry p)"
    using clone_view(1) [OF st] by (simp add: shown_entry_def)
  obtain m where m: "look d (cf_body_path root (body_digest (cw_body (snd p)))) = Some (File m (cw_body (snd p)))"
    using e(5) by blast
  then show "read_result root (shown_entry p) d = Inr (Some (viewed ck_view (version_reading p)))"
    using c by (simp add: read_result_def cf_read_file_def viewed_def version_reading_def shown_entry_def)
  show "load_record_by_revision root f k (PInt (int (fst p))) v d = Inr (Some (shown_entry p))" for v
    using load_by_revision_at [OF y(1), of n v] y(5) n by simp
  show "validate_listing_body root (shown_entry p) d = Inr ()"
    using m by (simp add: validate_listing_body_def)
qed

lemma settled_reads:
  assumes "settled_stream U root f L k X d"
  shows "load_head root f k d = Inr (head_record X)"
    and "utf8 c \<in> nm_ids U \<Longrightarrow> load_record_by_id root f k c v d = Inr (map_option shown_entry (log_find X c))"
    and "X \<noteq> [] \<Longrightarrow> validate_committed_chain root f k (the (head_record X)) v d = Inr (map shown_entry (enumerate 1 X))"
proof -
  obtain y where y: "at_layout U root f L k y d" "sound f y" "ly_head y = X" "ly_ids y = X" "ly_revs y = X"
    using assms unfolding settled_stream_def by blast
  show "load_head root f k d = Inr (head_record X)" using load_head_at [OF y(1,2)] y(3) by simp
  show "utf8 c \<in> nm_ids U \<Longrightarrow> load_record_by_id root f k c v d = Inr (map_option shown_entry (log_find X c))"
    using load_by_id_at [OF y(1)] y(4) by simp
  show "X \<noteq> [] \<Longrightarrow> validate_committed_chain root f k (the (head_record X)) v d = Inr (map shown_entry (enumerate 1 X))"
    using chain_read [OF _ y(1) y(5), of v] by (simp add: log_list_def shown_entry_def comp_def)
qed

lemma last_entry: "X \<noteq> [] \<Longrightarrow> (length X, last X) \<in> set (enumerate 1 X)"
  using prefix_last_entry [OF prefix_order.refl] .

lemma head_record_some:
  "X \<noteq> [] \<Longrightarrow> head_record X = Some (head_of (shown_entry (length X, last X)) (record_hash (versioned (length X, last X))))"
  by (simp add: head_record_def head_of_shown)

definition latest_read :: "path \<Rightarrow> (string \<Rightarrow> pyfloat) \<Rightarrow> stream \<Rightarrow> disk \<Rightarrow> checkpoint_read_result option res" where
  "latest_read root f k d = r_bind (load_head root f k d) (\<lambda>head. case head of
     None \<Rightarrow> Inr None
   | Some h \<Rightarrow>
       r_bind (load_record_by_revision root f k (hd_revision h) True d) (\<lambda>found. case found of
         None \<Rightarrow> Inl (cf_mismatch ''a missing head record.'' ''MISSING_HEAD_RECORD'')
       | Some c \<Rightarrow>
           r_bind (r_guard (sc_checkpoint_id c \<noteq> hd_checkpoint_id h) head_mismatch) (\<lambda>_.
           r_bind (checkpoint_digest c) (\<lambda>digest.
           r_bind (r_guard (PStr digest \<noteq> hd_record_digest h) head_mismatch) (\<lambda>_.
           r_bind (record_links root k (sc_checkpoint_id c) (hd_revision h) d) (\<lambda>_.
             read_result root c d))))))"

lemma latest_settled:
  assumes "settled_stream U root f L k X d"
  shows "latest_read root f k d = Inr (map_option (viewed ck_view) (log_latest X))"
proof (cases "X = []")
  case True
  then show ?thesis using settled_reads(1) [OF assms] by (simp add: latest_read_def head_record_def log_latest_def)
next
  case False
  note e = settled_entry [OF assms last_entry [OF False]]
  show ?thesis
    unfolding latest_read_def settled_reads(1) [OF assms] head_record_some [OF False] r_bind_simps option.case
    using e(2,3,4,6) False by (simp add: head_of_def log_latest_def)
qed

definition identified_read ::
  "path \<Rightarrow> (string \<Rightarrow> pyfloat) \<Rightarrow> stream \<Rightarrow> string \<Rightarrow> disk \<Rightarrow> checkpoint_read_result option res" where
  "identified_read root f k cid d = r_bind (load_head root f k d) (\<lambda>head. case head of
     None \<Rightarrow> Inr None
   | Some h \<Rightarrow>
       r_bind (load_record_by_id root f k cid True d) (\<lambda>found. case found of
         None \<Rightarrow> Inr None
       | Some c \<Rightarrow>
           r_bind (int_operand (hd_revision h)) (\<lambda>n.
           r_bind (r_guard (n < sc_revision c) head_mismatch) (\<lambda>_.
           r_bind (checkpoint_digest c) (\<lambda>digest.
           r_bind (r_guard (PStr digest \<noteq> hd_record_digest h \<and> sc_revision c = n)
             (cf_mismatch ''a head digest mismatch.'' ''HEAD_DIGEST_MISMATCH'')) (\<lambda>_.
           r_bind (record_links root k (sc_checkpoint_id c) (PInt (sc_revision c)) d) (\<lambda>_.
             read_result root c d)))))))"

lemma identified_settled:
  assumes "settled_stream U root f L k X d" and "utf8 cid \<in> nm_ids U"
  shows "identified_read root f k cid d = Inr (map_option (viewed ck_view) (log_read X cid))"
proof (cases "X = []")
  case True
  then show ?thesis
    using settled_reads(1) [OF assms(1)] by (simp add: identified_read_def head_record_def log_read_def log_find_def)
next
  case False
  show ?thesis
  proof (cases "log_find X cid")
    case None
    then show ?thesis
      unfolding identified_read_def settled_reads(1) [OF assms(1)] head_record_some [OF False] r_bind_simps option.case
      using settled_reads(2) [OF assms, of True] by (simp add: log_read_def)
  next
    case (Some p)
    then have p: "p \<in> set (enumerate 1 X)" using log_find_SomeD by blast
    note e = settled_entry [OF assms(1) p]
    obtain n where n: "n < length X" "p = (Suc n, X ! n)" by (rule enumerate_entry [OF p])
    then have "fst p \<le> length X" by simp
    moreover have "p = (length X, last X)" if "fst p = length X"
    proof -
      have "length X - 1 = n" using n that by simp
      then show ?thesis using n that last_conv_nth [OF False] by simp
    qed
    ultimately have h: "fst p = length X \<Longrightarrow> record_hash (versioned p) = record_hash (versioned (length X, last X))"
      by metis
    show ?thesis
      using \<open>fst p \<le> length X\<close>
      unfolding identified_read_def settled_reads(1) [OF assms(1)] head_record_some [OF False] r_bind_simps option.case
      using settled_reads(2) [OF assms, of True] e(2,3,4) Some h
      by (cases "fst p = length X") (simp_all add: head_of_def log_read_def)
  qed
qed

section \<open>The listing\<close>

lemma find_unique: "x \<in> set xs \<Longrightarrow> P x \<Longrightarrow> (\<And>y. y \<in> set xs \<Longrightarrow> P y \<Longrightarrow> y = x) \<Longrightarrow> find P xs = Some x"
proof (induction xs)
  case (Cons y ys)
  show ?case
  proof (cases "P y")
    case True
    then have "y = x" using Cons.prems(3) [of y] by simp
    then show ?thesis using True by simp
  next
    case False
    then have "x \<in> set ys" using Cons.prems(1,2) by auto
    then have "find P ys = Some x" by (rule Cons.IH [OF _ Cons.prems(2)]) (blast intro: Cons.prems(3) list.set_intros(2))
    then show ?thesis using False by simp
  qed
qed simp

lemma r_each_ok: "(\<And>x. x \<in> set xs \<Longrightarrow> g x = Inr ()) \<Longrightarrow> r_each g xs = Inr ()"
  by (induction xs) simp_all

lemma list_records_ok:
  "(\<And>p v. p \<in> set ps \<Longrightarrow> load_record_by_revision root f k (PInt (int (fst p))) v d = Inr (Some (shown_entry p))
      \<and> validate_listing_body root (shown_entry p) d = Inr () \<and> clone_checkpoint (shown_entry p) = Inr (shown_entry p)) \<Longrightarrow>
   list_records root f k d (map (int \<circ> fst) ps) = Inr (map shown_entry ps)"
  by (induction ps) simp_all

lemma entry_unique:
  assumes "linear X" and "p \<in> set (enumerate 1 X)" and "q \<in> set (enumerate 1 X)"
  shows "cw_checkpoint_id (snd q) = cw_checkpoint_id (snd p) \<Longrightarrow> q = p" and "fst q = fst p \<Longrightarrow> q = p"
proof -
  have d: "distinct (map cw_checkpoint_id X)" using assms(1) by (simp add: linear_def)
  show "q = p" if "cw_checkpoint_id (snd q) = cw_checkpoint_id (snd p)"
    using log_find_entry [OF d assms(2)] log_find_entry [OF d assms(3)] that by simp
  show "q = p" if "fst q = fst p"
    using enumerate_entry [OF assms(2)] enumerate_entry [OF assms(3)] that by (metis fst_conv nat.inject)
qed

lemma audit_settled:
  assumes "settled_stream U root f L k X d"
  shows "audit_no_extra_finalized_records root f k (map shown_entry (enumerate 1 X)) d = Inr ()"
proof -
  obtain y where y: "at_layout U root f L k y d" "sound f y" "ly_head y = X" "ly_ids y = X" "ly_revs y = X"
    using assms unfolding settled_stream_def by blast
  note files = at_layoutD(1) [OF y(1), unfolded stream_files_def y(3-5)]
  let ?C = "map shown_entry (enumerate 1 X)"
  have found: "find (\<lambda>c. key c = key (shown_entry p)) (rev ?C) = Some (shown_entry p)"
    if p: "p \<in> set (enumerate 1 X)" and key: "\<And>q. q \<in> set (enumerate 1 X) \<Longrightarrow> key (shown_entry q) = key (shown_entry p) \<Longrightarrow> q = p"
    for key :: "stored_checkpoint \<Rightarrow> 'k" and p
    by (rule find_unique) (use p key in auto)
  have lin: "linear X" using files by blast
  have id: "audit_by_id root f k ?C d q = Inr ()" if q: "q \<in> set (rglob d (by_id_root root k) ''.json'')" for q
  proof -
    have "q \<in> id_paths root k X" using q files unfolding set_rglob listed_part_def by blast
    then obtain n where n: "n < length X" "q = by_id_path root k (cw_checkpoint_id (X ! n))"
      unfolding id_paths_def by (auto simp: in_set_conv_nth)
    let ?p = "(Suc n, X ! n)"
    have p: "?p \<in> set (enumerate 1 X)" by (rule nth_entry [OF n(1)])
    obtain i where "look d q = Some (File i (record_bytes (versioned ?p)))"
      using rev_file_at(2,3) [OF y(1), unfolded y(5), OF n(1)] n(2) by auto
    moreover obtain m where "look d (cf_body_path root (body_digest (cw_body (snd ?p)))) = Some (File m (cw_body (snd ?p)))"
      using entry_at(5) [OF y(1), unfolded y(4), OF p] by blast
    ultimately have r: "record_from_path f q d = Inr (shown_entry ?p)"
      using load_record_ok(2) [OF settled_entry(1) [OF assms p]] unfolding shown_entry_def by blast
    have f: "find (\<lambda>c. sc_checkpoint_id c = sc_checkpoint_id (shown_entry ?p)) (rev ?C) = Some (shown_entry ?p)"
      by (rule found [OF p]) (use entry_unique(1) [OF lin p] in simp)
    show ?thesis
      unfolding audit_by_id_def r r_bind_simps f option.case
      using shown_eq [OF settled_entry(1) [OF assms p]] settled_entry(3) [OF assms p] n(2) by simp
  qed
  have rev: "audit_by_revision root f k ?C d q = Inr ()" if q: "q \<in> set (rglob d (by_revision_root root k) ''.json'')" for q
  proof -
    have "q \<in> rev_paths root k X" using q files unfolding set_rglob listed_part_def by blast
    then obtain m where m: "1 \<le> m" "m \<le> length X" "q = revision_path root k m" unfolding rev_paths_def by auto
    then have n: "m - 1 < length X" "q = revision_path root k (Suc (m - 1))" by simp_all
    let ?p = "(Suc (m - 1), X ! (m - 1))"
    have p: "?p \<in> set (enumerate 1 X)" by (rule nth_entry [OF n(1)])
    obtain i where "look d q = Some (File i (record_bytes (versioned ?p)))"
      using rev_file_at(3) [OF y(1), unfolded y(5), OF n(1)] n(2) by auto
    moreover obtain j where "look d (cf_body_path root (body_digest (cw_body (snd ?p)))) = Some (File j (cw_body (snd ?p)))"
      using entry_at(5) [OF y(1), unfolded y(4), OF p] by blast
    ultimately have r: "record_from_path f q d = Inr (shown_entry ?p)"
      using load_record_ok(2) [OF settled_entry(1) [OF assms p]] unfolding shown_entry_def by blast
    have f: "find (\<lambda>c. sc_revision c = sc_revision (shown_entry ?p)) (rev ?C) = Some (shown_entry ?p)"
      by (rule found [OF p]) (use entry_unique(2) [OF lin p] in simp)
    show ?thesis
      unfolding audit_by_revision_def r r_bind_simps f option.case
      using shown_eq [OF settled_entry(1) [OF assms p]] by_revision_path_int [of root k "Suc (m - 1)"] n(2)
      by (simp del: of_nat_Suc)
  qed
  show ?thesis
    unfolding audit_no_extra_finalized_records_def using r_each_ok id rev by (metis r_bind_simps(2))
qed

definition listing_read :: "path \<Rightarrow> (string \<Rightarrow> pyfloat) \<Rightarrow> stream \<Rightarrow> disk \<Rightarrow> stored_checkpoint list res" where
  "listing_read root f k d = r_bind (load_head root f k d) (\<lambda>head. case head of
     None \<Rightarrow> Inr []
   | Some h \<Rightarrow>
       r_bind (validate_committed_chain root f k h False d) (\<lambda>committed.
       r_bind (audit_no_extra_finalized_records root f k committed d) (\<lambda>_.
       r_bind (int_operand (hd_revision h)) (\<lambda>n. list_records root f k d [1..n]))))"

lemma listing_settled:
  assumes "settled_stream U root f L k X d"
  shows "listing_read root f k d = Inr (map ck_view (log_list X))"
proof (cases "X = []")
  case True
  then show ?thesis
    using settled_reads(1) [OF assms] by (simp add: listing_read_def head_record_def log_list_def)
next
  case False
  have ups: "[1..int (length X)] = map (int \<circ> fst) (enumerate 1 X)"
    unfolding map_map [symmetric] map_fst_enumerate by (rule nth_equalityI) (auto simp del: upt_Suc)
  have l: "list_records root f k d [1..int (length X)] = Inr (map shown_entry (enumerate 1 X))"
    unfolding ups using settled_entry(5-7) [OF assms] by (intro list_records_ok) blast
  have v: "validate_committed_chain root f k (head_of (shown_entry (length X, last X)) (record_hash (versioned (length X, last X)))) False d
      = Inr (map shown_entry (enumerate 1 X))"
    using settled_reads(3) [OF assms False, of False] head_record_some [OF False] by simp
  have "map shown_entry (enumerate 1 X) = map ck_view (log_list X)"
    by (simp add: log_list_def shown_entry_def)
  then show ?thesis
    unfolding listing_read_def settled_reads(1) [OF assms] head_record_some [OF False] r_bind_simps option.case v
      audit_settled [OF assms] using l by (simp add: head_of_def)
qed

section \<open>Disks that hold logs\<close>

lemma json_sorted_idem: "json_sorted (json_sorted v) = json_sorted v"
proof (induction v)
  case (PDict kvs)
  let ?h = "\<lambda>(k, v). (k, json_sorted v)"
  let ?s = "sort_key (atom_text \<circ> fst) kvs"
  have c: "atom_text \<circ> fst \<circ> ?h = atom_text \<circ> fst" by auto
  have "map ?h (map ?h ?s) = map ?h ?s" using PDict.IH by fastforce
  then have "sorted_items (sorted_items kvs) = sorted_items kvs"
    by (simp add: sorted_items_def sort_key_map c sort_key_id_if_sorted del: map_map)
  then show ?case unfolding json_sorted_PDict by simp
qed (auto simp: json_sorted_list_map)

lemma ck_view_idem: "ck_view (ck_view c) = ck_view c"
  using json_sorted_idem [of "PDict (sc_metadata c)", unfolded json_sorted_PDict] by (simp add: ck_view_def)

lemma cf_rep_empty: "cf_rep U root f empty_disk (\<lambda>_. [])"
proof -
  have "stream_files U root f k (stage_of Idle [] p) empty_disk" for k p
    by (simp add: stream_files_def head_file_def pending_file_def has_def ids_part_def log_find_def
        revs_part_def listed_part_def entries_part_def)
  then have "stream_ok U root f k [] empty_disk" for k unfolding stream_ok_def using fits_idle by blast
  then show ?thesis by (simp add: cf_rep_def common_files_def dirs_clear_def free_or_file_def)
qed

lemma cf_rep_layout:
  assumes "cf_rep U root f d L" and "apart U" and "stream_known U k"
  obtains g p where "stage_fits U f g (L k) p" "at_layout U root f L k (stage_of g (L k) p) d"
proof -
  obtain g p where "stage_fits U f g (L k) p" "stream_files U root f k (stage_of g (L k) p) d"
    using assms(1,3) unfolding cf_rep_def stream_ok_def by blast
  then show thesis using that assms unfolding at_layout_def cf_rep_def by blast
qed

lemma layout_cf_rep:
  assumes "at_layout U root f L k (stage_of g Y p) d" and "stage_fits U f g Y p"
  shows "cf_rep U root f d (L(k := Y))"
  unfolding cf_rep_def
proof (intro conjI allI impI)
  note a = assms(1) [unfolded at_layout_def]
  show "common_files U root d" using a by blast
  fix j assume j: "stream_known U j"
  show "stream_ok U root f j ((L(k := Y)) j) d"
  proof (cases "j = k")
    case True
    then show ?thesis using a assms(2) unfolding stream_ok_def by (simp only: fun_upd_same) blast
  next
    case False
    then have e: "(L(k := Y)) j = L j" by simp
    show ?thesis unfolding e using a j False by blast
  qed
qed

text \<open>A request that the store takes whatever the log is: each of its possible records fits into a file.\<close>

definition cf_ok :: "names \<Rightarrow> (string \<Rightarrow> pyfloat) \<Rightarrow> checkpoint_request \<Rightarrow> bool" where
  "cf_ok U f r \<longleftrightarrow> finite (nm_ids U) \<and> apart U \<and> wf_checkpoint r \<and> stream_known U (stream_key r)
     \<and> cw_body r \<in> nm_bodies U \<and> utf8 (cw_checkpoint_id r) \<in> nm_ids U \<and> (\<forall>n \<in> {1..card (nm_ids U)}. storable f (n, r))"

lemma log_bounded:
  assumes "at_layout U root f L k (stage_of g X p) d" and "finite (nm_ids U)" and "utf8 c \<in> nm_ids U" and "log_find X c = None"
    and "stage_fits U f g X p"
  shows "length X < card (nm_ids U)"
proof -
  let ?I = "cw_checkpoint_id ` set X"
  have ids: "ly_ids (stage_of g X p) = X" by (cases g) simp_all
  note y = at_layoutD(1) [OF assms(1), unfolded stream_files_def ids]
  have d: "distinct (map cw_checkpoint_id X)" using y by (simp add: linear_def)
  have "utf8 ` ?I \<subseteq> nm_ids U" using entries_ids y by blast
  moreover have "utf8 c \<notin> utf8 ` ?I" using assms(4) utf8_inj unfolding log_find_None by blast
  ultimately have "insert (utf8 c) (utf8 ` ?I) \<subseteq> nm_ids U" using assms(3) by blast
  then have "card (insert (utf8 c) (utf8 ` ?I)) \<le> card (nm_ids U)" using assms(2) by (rule card_mono [rotated])
  moreover have "card (utf8 ` ?I) = card ?I" using utf8_inj by (intro card_image inj_onI)
  moreover have "card ?I = length X" using distinct_card [OF d] by simp
  ultimately show ?thesis using \<open>utf8 c \<notin> utf8 ` ?I\<close> by simp
qed

lemma cf_ok_fits:
  assumes "cf_ok U f r" and "at_layout U root f L (stream_key r) (stage_of g X p) d" and "stage_fits U f g X p"
  shows "request_fits U f (stream_key r) X r"
proof -
  have "storable f (next_entry X r)" if "log_find X (cw_checkpoint_id r) = None"
  proof -
    have "length X < card (nm_ids U)" using log_bounded [OF assms(2) _ _ that assms(3)] assms(1) by (simp add: cf_ok_def)
    then show ?thesis using assms(1) by (simp add: cf_ok_def next_entry_def)
  qed
  then show ?thesis using assms(1) by (simp add: cf_ok_def request_fits_def)
qed

text \<open>
  A save under any failures: the disk holds the logs with this one as it was or with the request saved,
  and an answer says which.
\<close>

lemma cf_save_any:
  assumes "cf_rep U root f d L" and "cf_ok U f r"
  shows "wp ft (cf_save root f r) (\<lambda>out d'. \<exists>Y. (Y = L (stream_key r) \<or> Y = fst (log_save (L (stream_key r)) r))
     \<and> cf_rep U root f d' (L(stream_key r := Y))
     \<and> (case out of
          Returned c \<Rightarrow> Y = fst (log_save (L (stream_key r)) r) \<and> save_outcome ck_view (Inr c) (snd (log_save (L (stream_key r)) r))
        | Raised e \<Rightarrow> ft \<or> save_outcome ck_view (Inl e) (snd (log_save (L (stream_key r)) r))
        | Dead \<Rightarrow> ft)) d"
proof -
  let ?k = "stream_key r"
  obtain g p where g: "stage_fits U f g (L ?k) p" "at_layout U root f L ?k (stage_of g (L ?k) p) d"
    using cf_rep_layout [OF assms(1)] assms(2) unfolding cf_ok_def by blast
  have "wp ft (cf_save root f r) (\<lambda>out d'. \<exists>z. saved U f ft (L ?k) r out z \<and> at_layout U root f L ?k z d') d"
    by (rule lwpD [OF lwp_cf_save [OF cf_ok_fits [OF assms(2) g(2,1)] g(1)] g(2)])
  then show ?thesis
    by (rule wp_mono) (unfold saved_def, blast intro: layout_cf_rep)
qed

lemma log_save_None: "snd (log_save X r) = None \<Longrightarrow> fst (log_save X r) = X"
  by (auto simp: log_save_def split: option.splits if_splits)

lemma cf_save_settled:
  assumes "cf_rep U root f d L" and "cf_ok U f r"
  shows "cf_rep U root f (fst (settle (cf_save root f r) d)) (L(stream_key r := fst (log_save (L (stream_key r)) r)))"
    and "save_outcome ck_view (snd (settle (cf_save root f r) d)) (snd (log_save (L (stream_key r)) r))"
proof -
  let ?M = "log_save (L (stream_key r)) r"
  let ?Q = "\<lambda>(d', out). cf_rep U root f d' (L(stream_key r := fst ?M)) \<and> save_outcome ck_view out (snd ?M)"
  have "?Q (settle (cf_save root f r) d)"
  proof (rule settle_wp [OF cf_save_any [OF assms]], goal_cases)
    case (2 e d')
    then have n: "snd ?M = None" by auto
    then show ?case using 2 log_save_None [OF n] by (auto simp del: fun_upd_apply)
  qed (auto simp del: save_outcome.simps fun_upd_apply)
  then show "cf_rep U root f (fst (settle (cf_save root f r) d)) (L(stream_key r := fst ?M))"
    "save_outcome ck_view (snd (settle (cf_save root f r) d)) (snd ?M)" by (auto simp: case_prod_beta)
qed

text \<open>The readings, whatever fails: the logs stay, and an answer is the log's.\<close>

lemma cf_read_any:
  assumes "cf_rep U root f d L" and "apart U" and "stream_known U k"
    and "\<And>d. settled_stream U root f L k (L k) d \<Longrightarrow> h d = Inr v"
  shows "wp ft (locked_stream root k (io_bind (recover_stream root f k b) (\<lambda>_. io_read h)))
    (\<lambda>out d'. cf_rep U root f d' L \<and> (ft \<or> out = Returned v) \<and> (\<forall>w. out = Returned w \<longrightarrow> w = v)) d"
proof -
  obtain g p where g: "stage_fits U f g (L k) p" "at_layout U root f L k (stage_of g (L k) p) d"
    using cf_rep_layout [OF assms(1-3)] by blast
  have "cf_rep U root f d' L" if "at_layout U root f L k (stage_of i (L k) q) d'" "stage_fits U f i (L k) q" for i q d'
    using layout_cf_rep [OF that] by simp
  moreover have "wp ft (locked_stream root k (io_bind (recover_stream root f k b) (\<lambda>_. io_read h)))
      (\<lambda>out d'. \<exists>z. answered U f ft (L k) v out z \<and> at_layout U root f L k z d') d"
    by (rule lwpD [OF lwp_locked_read [OF assms(4) g(1)] g(2)])
  ultimately show ?thesis by (elim wp_mono) (metis answered_def)
qed

definition cf_key_ok :: "names \<Rightarrow> stream \<Rightarrow> bool" where
  "cf_key_ok U k \<longleftrightarrow> apart U \<and> stream_known U k \<and> ck_run_ok (fst k) \<and> namespace_ok (snd k)"

definition cf_id_ok :: "names \<Rightarrow> string \<Rightarrow> bool" where
  "cf_id_ok U c \<longleftrightarrow> utf8 c \<in> nm_ids U \<and> identifier_ok CHECKPOINT_ID_RE c"

lemma cf_key_normalized:
  assumes "cf_key_ok U (run, ns)"
  shows "cf_stream_key (run_id_value run) (PStr ns) = Inr (run, ns)"
proof -
  have "normalize_checkpoint_run_id (run_id_value run) = Inr run" "normalize_checkpoint_namespace (PStr ns) = Inr ns"
    using assms unfolding cf_key_ok_def namespace_ok_def fst_conv snd_conv
    by (simp_all only: ck_run_id_value ck_namespace_iff)
  then show ?thesis by (simp add: cf_stream_key_def)
qed

lemma cf_load_latest_any:
  assumes "cf_rep U root f d L" and "cf_key_ok U (run, ns)"
  shows "wp ft (cf_load_latest root f (run_id_value run) (PStr ns)) (\<lambda>out d'. cf_rep U root f d' L
    \<and> (ft \<or> out = Returned (map_option (viewed ck_view) (log_latest (L (run, ns)))))
    \<and> (\<forall>w. out = Returned w \<longrightarrow> w = map_option (viewed ck_view) (log_latest (L (run, ns))))) d"
  unfolding cf_load_latest_def latest_read_def [symmetric]
  by (rule wp_read_bind, rule cf_key_normalized [OF assms(2)], rule cf_read_any [OF assms(1)])
    (use assms(2) latest_settled in \<open>auto simp: cf_key_ok_def\<close>)

lemma cf_load_checkpoint_any:
  assumes "cf_rep U root f d L" and "cf_key_ok U (run, ns)" and "cf_id_ok U cid"
  shows "wp ft (cf_load_checkpoint root f (run_id_value run) (PStr cid) (PStr ns)) (\<lambda>out d'. cf_rep U root f d' L
    \<and> (ft \<or> out = Returned (map_option (viewed ck_view) (log_read (L (run, ns)) cid)))
    \<and> (\<forall>w. out = Returned w \<longrightarrow> w = map_option (viewed ck_view) (log_read (L (run, ns)) cid))) d"
proof -
  have n: "normalize_checkpoint_id (PStr cid) = Inr cid"
    using assms(3) unfolding cf_id_ok_def by (simp only: ck_id_iff)
  show ?thesis
    unfolding cf_load_checkpoint_def identified_read_def [symmetric]
    by (rule wp_read_bind, rule cf_key_normalized [OF assms(2)], rule wp_read_bind, rule n,
        rule cf_read_any [OF assms(1)])
      (use assms(2,3) identified_settled in \<open>auto simp: cf_key_ok_def cf_id_ok_def\<close>)
qed

lemma cf_list_for_run_any:
  assumes "cf_rep U root f d L" and "cf_key_ok U (run, ns)"
  shows "wp ft (cf_list_for_run root f (run_id_value run) (PStr ns)) (\<lambda>out d'. cf_rep U root f d' L
    \<and> (ft \<or> out = Returned (map ck_view (log_list (L (run, ns)))))
    \<and> (\<forall>w. out = Returned w \<longrightarrow> w = map ck_view (log_list (L (run, ns))))) d"
  unfolding cf_list_for_run_def listing_read_def [symmetric]
  by (rule wp_read_bind, rule cf_key_normalized [OF assms(2)], rule cf_read_any [OF assms(1)])
    (use assms(2) listing_settled in \<open>auto simp: cf_key_ok_def\<close>)

lemma answered_settled:
  "wp False m (\<lambda>out d'. P d' \<and> (False \<or> out = Returned v) \<and> (\<forall>w. out = Returned w \<longrightarrow> w = v)) d \<Longrightarrow> snd (settle m d) = Inr v"
  by (erule settle_wp [where Q = "\<lambda>x. snd x = Inr v"]) auto

lemmas cf_reads_settled = answered_settled [OF cf_load_latest_any] answered_settled [OF cf_load_checkpoint_any]
  answered_settled [OF cf_list_for_run_any]

text \<open>The store is an instance of the protocol: its disks hold logs, and a disk's operations are the log's.\<close>

interpretation cf: checkpoint_store empty_disk "cf_rep U root f" "cf_ok U f" "cf_key_ok U" "cf_id_ok U" ck_view
  "\<lambda>d r. settle (cf_save root f r) d" "\<lambda>d run ns. snd (settle (cf_load_latest root f (run_id_value run) (PStr ns)) d)"
  "\<lambda>d run cid ns. snd (settle (cf_load_checkpoint root f (run_id_value run) (PStr cid) (PStr ns)) d)"
  "\<lambda>d run ns. snd (settle (cf_list_for_run root f (run_id_value run) (PStr ns)) d)"
  for U root f
proof
  show "wf_checkpoint r \<and> cf_key_ok U (stream_key r) \<and> cf_id_ok U (cw_checkpoint_id r)" if "cf_ok U f r" for r
    using that wf_checkpoint_key [of r] unfolding cf_ok_def cf_key_ok_def cf_id_ok_def stream_key_def by simp
  show "(ck_view c)\<lparr>sc_metadata := []\<rparr> = c\<lparr>sc_metadata := []\<rparr>" for c by (simp add: ck_view_def)
qed (rule ck_view_idem cf_rep_empty cf_save_settled cf_reads_settled; assumption)+

end
