(* ===== verification/Durability_Properties.thy ===== *)
theory Durability_Properties
  imports Artifact_Durability Checkpoint_Queries Storage_Properties "HOL-Library.Multiset"
begin

text \<open>
  The properties of the artifact and checkpoint stores that keep their data in files: what they hold
  after calls that fail and processes that die, and their agreement with the stores in memory.
\<close>

section \<open>The filesystem artifact store\<close>

lemma length_utf8: "length (utf8 s) \<le> 2 * length s"
  by (induction s) (auto simp: utf8_def utf8_char_def Let_def)

lemma length_json_string: "length (json_string s) \<le> 6 * length s + 2"
proof -
  have "length (json_escape_char c) \<le> 6" for c by (simp add: json_escape_char_def Let_def)
  then have "length (concat (map json_escape_char s)) \<le> 6 * length s"
    by (induction s) (auto intro: add_mono)
  then show ?thesis by (simp add: json_string_def)
qed

lemma length_join_with: "length (join_with d ps) \<le> sum_list (map (\<lambda>p. length p + length d) ps)"
  by (induction ps rule: join_with.induct) auto

lemma length_json_dict:
  "length (json_dumps i s (PDict kvs)) \<le>
     2 + sum_list (map (\<lambda>(k, v). length (json_string (atom_text k)) + length s + length (json_dumps i s v) + length i) kvs)"
proof -
  let ?e = "\<lambda>(k, v). json_string (atom_text k) @ s @ json_dumps i s v"
  have "length (join_with i (map ?e (sort_key (atom_text \<circ> fst) kvs)))
      \<le> sum_list (map (\<lambda>p. length p + length i) (map ?e (sort_key (atom_text \<circ> fst) kvs)))"
    by (rule length_join_with)
  also have "\<dots> = sum_mset (mset (map (\<lambda>p. length p + length i) (map ?e (sort_key (atom_text \<circ> fst) kvs))))"
    by (simp only: sum_mset_sum_list)
  also have "\<dots> = sum_mset (mset (map (\<lambda>p. length p + length i) (map ?e kvs)))"
    by (simp only: mset_map mset_sort)
  also have "\<dots> = sum_list (map (\<lambda>p. length p + length i) (map ?e kvs))"
    by (simp only: sum_mset_sum_list)
  also have "\<dots> = sum_list (map (\<lambda>(k, v). length (json_string (atom_text k)) + length s + length (json_dumps i s v) + length i) kvs)"
    by (rule arg_cong [of _ _ sum_list]) (auto simp: case_prod_unfold)
  finally show ?thesis unfolding json_dumps_dict by simp
qed

definition file_request :: write_request where
  "file_request = \<lparr>wr_run_id = Run_Int 1, wr_storage_key = ''report'', wr_body = ''report'',
     wr_name = ''report'', wr_kind = ''text'', wr_content_type = Some ''text/plain'', wr_metadata = []\<rparr>"

lemma file_request_manifest: "length (manifest file_request) \<le> MAX_MANIFEST_BYTES" 
proof -
  have "length (json_string (body_digest b)) \<le> 428" for b using length_json_string [of "body_digest b"] by simp
  then have "length (json_compact (manifest_payload (describe file_request))) \<le> 2000"
    unfolding manifest_payload_def pdict_def describe_simps
    by (intro order_trans [OF length_json_dict])
      (simp add: file_request_def json_string_def json_escape_char_def Let_def nat_text.simps int_text_def
        trans_le_add1 order_trans [of _ 426 1852])
  then show ?thesis
    using length_utf8 [of "json_compact (manifest_payload (describe file_request))"]
    unfolding manifest_def json_bytes_def MAX_MANIFEST_BYTES_def by simp
qed
lemma file_request:
  "collision_free {''report''}" "utf8 ''report'' = ''report''" "fa_ok {''report''} f file_request"
  "fa_key_ok {''report''} ''report''" "wr_storage_key file_request = ''report''"
proof -
  show "collision_free {''report''}" by (simp add: collision_free_def)
  show u: "utf8 ''report'' = ''report''" by code_simp
  show k: "wr_storage_key file_request = ''report''" by (simp add: file_request_def)
  have a: "acceptable file_request" "is_safe_storage_key ''report''" by code_simp+
  then show "fa_key_ok {''report''} ''report''" using u by (simp add: fa_key_ok_def)
  show "fa_ok {''report''} f file_request"
    using a file_request_manifest u by (simp add: fa_ok_def fa_storable_def k) (simp add: file_request_def)
qed

text \<open>
  C31. A manifest survives the disk: the bytes written for a request are accepted when they are read
  back under the digest of its key, and give the artifact that was described, whatever the order in
  which its metadata comes back. The manifest stays within the size that reading accepts.
\<close>

theorem manifest_round_trip:
  assumes "fa_storable float_of r"
  shows "\<exists>a. artifact_from_manifest_bytes float_of (manifest r) (sha256_hex (utf8 (wr_storage_key r))) k = Inr a
    \<and> artifact_eq a (describe r)"
proof -
  have "wf_val (PDict (wr_metadata r))" using assms json_ok_wf unfolding fa_storable_def by blast
  then have "artifact_eq (shown_artifact (describe r)) (describe r)"
    using val_eq_sorted [of "PDict (wr_metadata r)"] unfolding json_sorted_PDict
    by (simp add: artifact_eq_def shown_artifact_def)
  then show ?thesis using manifest_reads_back [OF assms] by blast
qed

theorem manifest_round_trip_witness:
  "\<exists>a. artifact_from_manifest_bytes (\<lambda>_. Infinite_Float False ''inf'') (manifest file_request) (sha256_hex (utf8 ''report'')) ''report''
     = Inr a \<and> artifact_eq a (describe file_request)"
  using manifest_round_trip [of _ file_request] fa_ok_simps(7) [OF file_request(3)] file_request(5) by metis

text \<open>
  C21. A write to the filesystem store is atomic and durable: whichever of its calls fail or wherever
  the process dies, every key reads as before, or else the key written, which was free, reads as the
  whole new artifact; and when the write returned, it does. The manifest of the request stays within the
  size that reading accepts, and no two of the keys and bodies have the same digest.
\<close>

theorem filesystem_put_is_atomic:
  assumes "fa_inv U root f d" and "collision_free U" and "fa_ok U f r"
    and "fa_put root f r (d, fates) = ((d', fates'), out)"
  shows "fa_inv U root f d'
    \<and> ((\<forall>k. fa_key_ok U k \<longrightarrow> fa_get root f (PStr k) d' = fa_get root f (PStr k) d)
      \<or> fa_get root f (PStr (wr_storage_key r)) d = Inr None
        \<and> (\<forall>k. fa_key_ok U k \<longrightarrow> fa_get root f (PStr k) d' =
            (if k = wr_storage_key r then Inr (Some (shown r)) else fa_get root f (PStr k) d)))
    \<and> (\<forall>a. out = Returned a \<longrightarrow> (\<exists>x. fa_get root f (PStr (wr_storage_key r)) d' = Inr (Some x)
      \<and> same_reading x (reading r) \<and> artifact_eq (ar_artifact x) a))"
  using wp_run_faulty [OF fa_put_any [OF assms(1-3)] assms(4)] unfolding only_adds_def
  by (cases out) simp_all

theorem filesystem_put_is_atomic_witness:
  "fa_get [''store''] (\<lambda>_. Infinite_Float False ''inf'') (PStr ''report'')
      (fst (fst (fa_put [''store''] (\<lambda>_. Infinite_Float False ''inf'') file_request (empty_disk, [Carried_Out, Fails, Dies]))))
    \<in> {Inr None, Inr (Some (shown file_request))}"
proof -
  obtain d' fates' out where
    "fa_put [''store''] (\<lambda>_. Infinite_Float False ''inf'') file_request (empty_disk, [Carried_Out, Fails, Dies])
      = ((d', fates'), out)" by (metis surj_pair)
  moreover have "fa_get [''store''] (\<lambda>_. Infinite_Float False ''inf'') (PStr ''report'') empty_disk = Inr None"
    by (rule fa.get_empty [OF file_request(4)])
  ultimately show ?thesis
    using filesystem_put_is_atomic [OF fa_inv_empty file_request(1,3)] file_request(4,5) by fastforce
qed

text \<open>
  Without faults the filesystem store is the same store as the one in memory: after any sequence of
  writes the first request with a key is what the key reads as, whatever was written or refused since.
\<close>

theorem filesystem_first_write_wins:
  assumes "collision_free U" and "fa_key_ok U k" and "\<forall>r \<in> set rs. fa_ok U f r"
  shows "fa_get root f (PStr k) (run_puts (fa_write root f) empty_disk rs)
    = Inr (map_option shown (find (\<lambda>r. wr_storage_key r = k) rs))"
  using fa.first_write_wins [OF assms(2)] assms(1,3) by blast

theorem filesystem_first_write_wins_witness:
  "fa_get [''store''] (\<lambda>_. Infinite_Float False ''inf'') (PStr ''report'')
     (run_puts (fa_write [''store''] (\<lambda>_. Infinite_Float False ''inf'')) empty_disk [file_request, file_request])
   = Inr (Some (shown file_request))"
  using filesystem_first_write_wins [OF file_request(1,4), of "[file_request, file_request]"] file_request
  by simp

section \<open>The filesystem checkpoint store\<close>

text \<open>Saves one after another, each with the fates of its calls.\<close>

definition faulty_saves ::
  "path \<Rightarrow> (string \<Rightarrow> pyfloat) \<Rightarrow> disk \<Rightarrow> (checkpoint_request \<times> fate list) list \<Rightarrow> disk" where
  "faulty_saves root f d steps = foldl (\<lambda>d (r, fates). fst (fst (cf_save root f r (d, fates)))) d steps"

lemma faulty_saves_simps [simp]:
  "faulty_saves root f d [] = d"
  "faulty_saves root f d ((r, fates) # steps) = faulty_saves root f (fst (fst (cf_save root f r (d, fates)))) steps"
  by (simp_all add: faulty_saves_def)

text \<open>
  C1. A save to the filesystem checkpoint store is atomic: whichever of its calls fail or wherever the
  process dies, the files hold the stream's log as it was or with the whole request saved, every other
  stream's log as it was, and a save that returned or refused did what saving to the log does. The records of the requests
  stay within the size that reading accepts, and no two of the names and bodies have the same digest.
\<close>

theorem filesystem_save_is_atomic:
  assumes "cf_rep U root f d L" and "cf_ok U f r" and "cf_save root f r (d, fates) = ((d', fates'), out)"
  shows "\<exists>Y. (Y = L (stream_key r) \<or> Y = fst (log_save (L (stream_key r)) r))
     \<and> cf_rep U root f d' (L(stream_key r := Y))
     \<and> (\<forall>c. out = Returned c \<longrightarrow> Y = fst (log_save (L (stream_key r)) r)
          \<and> save_outcome ck_view (Inr c) (snd (log_save (L (stream_key r)) r)))
     \<and> (fates = [] \<longrightarrow> out \<noteq> Dead
          \<and> (\<forall>e. out = Raised e \<longrightarrow> save_outcome ck_view (Inl e) (snd (log_save (L (stream_key r)) r))))"
proof (cases "fates = []")
  case True
  obtain Y where "Y = L (stream_key r) \<or> Y = fst (log_save (L (stream_key r)) r)" "cf_rep U root f d' (L(stream_key r := Y))"
    "case out of
        Returned c \<Rightarrow> Y = fst (log_save (L (stream_key r)) r) \<and> save_outcome ck_view (Inr c) (snd (log_save (L (stream_key r)) r))
      | Raised e \<Rightarrow> False \<or> save_outcome ck_view (Inl e) (snd (log_save (L (stream_key r)) r))
      | Dead \<Rightarrow> False"
    using wp_run [OF cf_save_any [OF assms(1,2)] assms(3) [unfolded True]] by blast
  then show ?thesis by (intro exI [of _ Y]) (cases out; simp)
next
  case False
  obtain Y where "Y = L (stream_key r) \<or> Y = fst (log_save (L (stream_key r)) r)" "cf_rep U root f d' (L(stream_key r := Y))"
    "case out of
        Returned c \<Rightarrow> Y = fst (log_save (L (stream_key r)) r) \<and> save_outcome ck_view (Inr c) (snd (log_save (L (stream_key r)) r))
      | Raised e \<Rightarrow> True \<or> save_outcome ck_view (Inl e) (snd (log_save (L (stream_key r)) r))
      | Dead \<Rightarrow> True"
    using wp_run_faulty [OF cf_save_any [OF assms(1,2)] assms(3)] by blast
  then show ?thesis using False by (intro exI [of _ Y]) (cases out; simp)
qed

definition sample_names :: names where
  "sample_names = \<lparr>nm_bodies = {''one''}, nm_ids = {utf8 ''c1''}, nm_streams = {stream_identity_bytes (Run_Int 1, [])}\<rparr>"

lemma length_json_pdict:
  assumes "\<forall>(k, v) \<in> set kvs. length k \<le> 30 \<and> length (json_compact v) \<le> 500"
  shows "length (json_bytes (pdict kvs)) \<le> 4 + 1400 * length kvs"
proof -
  have "length (json_compact (pdict kvs)) \<le> 2 + 700 * length kvs"
    unfolding pdict_def
  proof (rule order_trans [OF length_json_dict])
    have "sum_list (map (\<lambda>(k, v). length (json_string (atom_text k)) + length '':'' + length (json_dumps '','' '':'' v) + length '','')
        (map (\<lambda>(k, v). (AStr k, v)) kvs)) \<le> 700 * length kvs"
      using assms
    proof (induction kvs)
      case (Cons p kvs)
      then show ?case using length_json_string [of "fst p"] by (cases p) auto
    qed simp
    then show "2 + sum_list (map (\<lambda>(k, v). length (json_string (atom_text k)) + length '':'' + length (json_dumps '','' '':'' v) + length '','')
        (map (\<lambda>(k, v). (AStr k, v)) kvs)) \<le> 2 + 700 * length kvs" by simp
  qed
  then show ?thesis using length_utf8 [of "json_compact (pdict kvs)"] by (simp add: json_bytes_def)
qed

lemma first_checkpoint_storable: "storable f (1, first_checkpoint)"
proof -
  have d: "length (json_compact (PStr (body_digest b))) \<le> 500" for b
    using length_json_string [of "body_digest b"] by simp
  have v: "\<forall>(k, v) \<in> set kvs. length k \<le> 30 \<and> length (json_compact v) \<le> 500 \<Longrightarrow> length kvs \<le> 100 \<Longrightarrow>
      length (json_bytes (pdict kvs)) \<le> JSON_LIMIT" for kvs
    using length_json_pdict [of kvs] by (simp add: JSON_LIMIT_def)
  let ?c = "versioned (1, first_checkpoint)"
  have small: "length (json_string x) \<le> 500" if "length x \<le> 80" for x
    using length_json_string [of x] that by simp
  have nums: "length (int_text 1) \<le> 500" "length (int_text 3) \<le> 500" by code_simp+
  have "length (record_bytes ?c) \<le> JSON_LIMIT"
    unfolding record_bytes_def record_fields_def
    by (rule v) (use d small nums in \<open>simp_all add: versioned_def describe_checkpoint_def first_checkpoint_def record_hash_def\<close>)
  moreover have "length (head_bytes ?c) \<le> JSON_LIMIT"
    unfolding head_bytes_def head_payload_def
    by (rule v) (use d small nums in \<open>simp_all add: head_of_def versioned_def describe_checkpoint_def first_checkpoint_def record_hash_def\<close>)
  moreover have "length (pending_bytes ?c ''one'') \<le> JSON_LIMIT"
    unfolding pending_bytes_def pending_payload_def
    by (rule v) (use d small nums in \<open>simp_all add: pending_of_def versioned_def describe_checkpoint_def first_checkpoint_def record_hash_def\<close>)
  ultimately show ?thesis
    using sample_checkpoints(1) by (simp add: storable_def first_checkpoint_def)
qed

lemma sample_cf_ok: "cf_ok sample_names f first_checkpoint" "cf_key_ok sample_names (Run_Int 1, [])"
  "cf_id_ok sample_names ''c1''"
proof -
  have a: "apart sample_names" by (simp add: apart_def collision_free_def sample_names_def)
  have k: "stream_key first_checkpoint = (Run_Int 1, [])" by (simp add: stream_key_def first_checkpoint_def)
  have "nm_ids sample_names = {utf8 ''c1''}" "cw_checkpoint_id first_checkpoint = ''c1''"
    by (simp_all add: sample_names_def first_checkpoint_def)
  then show "cf_ok sample_names f first_checkpoint"
    using a k sample_checkpoints(1) first_checkpoint_storable
    by (simp add: cf_ok_def stream_known_def) (simp add: sample_names_def first_checkpoint_def)
  show "cf_key_ok sample_names (Run_Int 1, [])"
    using a sample_identifiers(5) namespace_ok_Nil by (simp add: cf_key_ok_def stream_known_def sample_names_def)
  show "cf_id_ok sample_names ''c1''"
    using sample_identifiers(1) by (simp add: cf_id_ok_def sample_names_def)
qed

theorem filesystem_save_is_atomic_witness:
  "\<exists>Y. (Y = [] \<or> Y = [first_checkpoint]) \<and> cf_rep sample_names [''store'']
     (\<lambda>_. Infinite_Float False ''inf'')
     (fst (fst (cf_save [''store''] (\<lambda>_. Infinite_Float False ''inf'') first_checkpoint (empty_disk, [Carried_Out, Fails, Dies]))))
     ((\<lambda>_. [])(stream_key first_checkpoint := Y))"
proof -
  obtain d' fates' out where
    "cf_save [''store''] (\<lambda>_. Infinite_Float False ''inf'') first_checkpoint (empty_disk, [Carried_Out, Fails, Dies])
      = ((d', fates'), out)" by (metis surj_pair)
  moreover have "fst (log_save [] first_checkpoint) = [first_checkpoint]"
    by (simp add: log_save_def log_find_def log_head_def first_checkpoint_def)
  ultimately show ?thesis
    using filesystem_save_is_atomic [OF cf_rep_empty sample_cf_ok(1)] by fastforce
qed

lemma faulty_saves_rep:
  assumes "cf_rep U root f d L" and "\<forall>(r, fates) \<in> set steps. cf_ok U f r"
  shows "\<exists>M. cf_rep U root f (faulty_saves root f d steps) M
    \<and> (\<forall>k. prefix (L k) (M k) \<and> (linear (L k) \<longrightarrow> linear (M k))
         \<and> set (M k) \<subseteq> set (L k) \<union> {r \<in> fst ` set steps. stream_key r = k})"
  using assms
proof (induction steps arbitrary: d L)
  case Nil
  then show ?case by auto
next
  case (Cons p steps)
  obtain r fates where p: "p = (r, fates)" by (metis surj_pair)
  obtain d1 fates1 out where run: "cf_save root f r (d, fates) = ((d1, fates1), out)" by (metis surj_pair)
  obtain Y where Y: "Y = L (stream_key r) \<or> Y = fst (log_save (L (stream_key r)) r)" "cf_rep U root f d1 (L(stream_key r := Y))"
    using wp_run_faulty [OF cf_save_any [OF Cons.prems(1)] run] Cons.prems(2) p by fastforce
  obtain M where M: "cf_rep U root f (faulty_saves root f d1 steps) M"
    "\<forall>k. prefix ((L(stream_key r := Y)) k) (M k) \<and> (linear ((L(stream_key r := Y)) k) \<longrightarrow> linear (M k))
       \<and> set (M k) \<subseteq> set ((L(stream_key r := Y)) k) \<union> {q \<in> fst ` set steps. stream_key q = k}"
    using Cons.IH [OF Y(2)] Cons.prems(2) by auto
  have y: "prefix (L (stream_key r)) Y" "linear (L (stream_key r)) \<Longrightarrow> linear Y" "set Y \<subseteq> insert r (set (L (stream_key r)))"
    using Y(1) linear_log_save [of "L (stream_key r)" r] by (cases rule: log_save_cases [of "L (stream_key r)" r]; auto)+
  have "prefix (L k) (M k) \<and> (linear (L k) \<longrightarrow> linear (M k))
      \<and> set (M k) \<subseteq> set (L k) \<union> {q \<in> fst ` set (p # steps). stream_key q = k}" for k
  proof (cases "k = stream_key r")
    case True
    then show ?thesis
      using M(2) [rule_format, of k] y p prefix_order.trans [of "L k" Y "M k"] by auto
  next
    case False
    then show ?thesis using M(2) [rule_format, of k] by auto
  qed
  then show ?case using M(1) run p by auto
qed

text \<open>
  C3. The history of a stream survives failures: after any sequence of saves, each of whose calls may
  fail and each of which may die anywhere, the listing succeeds, its revisions are 1, 2, 3 and so on, each
  checkpoint's parent is the one before it, and each is one that a save was asked for. The records of the requests
  stay within the size that reading accepts, and no two of the names and bodies have the same digest.
\<close>

theorem filesystem_history_survives_crashes:
  assumes "\<forall>(r, fates) \<in> set steps. cf_ok U f r" and "cf_key_ok U (run, ns)"
  shows "\<exists>cs. snd (settle (cf_list_for_run root f (run_id_value run) (PStr ns)) (faulty_saves root f empty_disk steps)) = Inr cs
    \<and> map sc_revision cs = map int [1..<Suc (length cs)]
    \<and> (\<forall>i < length cs. sc_parent (cs ! i) = (if i = 0 then None else Some (sc_checkpoint_id (cs ! (i - 1)))))
    \<and> (\<forall>c \<in> set cs. \<exists>(r, fates) \<in> set steps. stream_key r = (run, ns)
         \<and> sc_checkpoint_id c = cw_checkpoint_id r \<and> sc_digest c = body_digest (cw_body r))"
proof -
  obtain M where M: "cf_rep U root f (faulty_saves root f empty_disk steps) M"
    "\<And>k. linear (M k)" "\<And>k. set (M k) \<subseteq> {r \<in> fst ` set steps. stream_key r = k}"
    using faulty_saves_rep [OF cf_rep_empty assms(1), of root] by auto
  let ?cs = "log_list (M (run, ns))"
  have len: "length ?cs = length (M (run, ns))" by (simp add: log_list_def)
  have read: "snd (settle (cf_list_for_run root f (run_id_value run) (PStr ns)) (faulty_saves root f empty_disk steps))
      = Inr (map ck_view ?cs)" by (rule cf.list_rep [OF M(1) assms(2)])
  have rev: "map sc_revision (map ck_view ?cs) = map int [1..<Suc (length (map ck_view ?cs))]"
    using log_list_revisions [of "M (run, ns)"] len by (simp add: comp_def del: upt_Suc)
  have parents: "\<forall>i < length (map ck_view ?cs). sc_parent (map ck_view ?cs ! i) =
      (if i = 0 then None else Some (sc_checkpoint_id (map ck_view ?cs ! (i - 1))))"
    using log_list_parents [OF M(2), of _ "(run, ns)"] by simp
  have asked: "\<exists>(r, fates) \<in> set steps. stream_key r = (run, ns) \<and> sc_checkpoint_id c = cw_checkpoint_id r
      \<and> sc_digest c = body_digest (cw_body r)" if c: "c \<in> set (map ck_view ?cs)" for c
  proof -
    obtain p where p: "p \<in> set (enumerate 1 (M (run, ns)))" "c = ck_view (versioned p)"
      using c by (auto simp: log_list_def)
    obtain n where "n < length (M (run, ns))" "p = (Suc n, M (run, ns) ! n)" by (rule enumerate_entry [OF p(1)])
    then have "snd p \<in> set (M (run, ns))" by simp
    then have "snd p \<in> fst ` set steps" "stream_key (snd p) = (run, ns)" using M(3) by blast+
    then show ?thesis using p(2) by force
  qed
  show ?thesis using read rev parents asked by blast
qed

theorem filesystem_history_survives_crashes_witness:
  "\<exists>cs. snd (settle (cf_list_for_run [''store''] (\<lambda>_. Infinite_Float False ''inf'') (PInt 1) (PStr []))
      (faulty_saves [''store''] (\<lambda>_. Infinite_Float False ''inf'') empty_disk
        [(first_checkpoint, [Carried_Out, Dies]), (first_checkpoint, [])])) = Inr cs
    \<and> map sc_revision cs = map int [1..<Suc (length cs)]"
  using filesystem_history_survives_crashes [of "[(first_checkpoint, [Carried_Out, Dies]), (first_checkpoint, [])]"
      sample_names _ "Run_Int 1" "[]"] sample_cf_ok by fastforce

text \<open>
  C2. A checkpoint that a save returned is durable: whatever saves are made afterwards, and wherever
  they fail or die, it is loaded under its identifier with its descriptor and its body. The records of the requests
  stay within the size that reading accepts, and no two of the names and bodies have the same digest.
\<close>

theorem filesystem_saved_checkpoint_is_durable:
  assumes "cf_rep U root f d L" and "cf_ok U f r" and "cf_save root f r (d, fates) = ((d1, fates1), Returned c)"
    and "\<forall>(q, fates) \<in> set steps. cf_ok U f q"
  shows "snd (settle (cf_load_checkpoint root f (run_id_value (cw_run_id r)) (PStr (cw_checkpoint_id r)) (PStr (cw_namespace r)))
      (faulty_saves root f d1 steps))
    = Inr (Some \<lparr>cr_checkpoint = ck_view c, cr_body = cw_body r\<rparr>)"
proof -
  let ?k = "stream_key r"
  let ?X = "fst (log_save (L ?k) r)"
  obtain v where v: "cf_rep U root f d1 (L(?k := ?X))" "snd (log_save (L ?k) r) = Some v" "c = v \<or> c = ck_view v"
    using wp_run_faulty [OF cf_save_any [OF assms(1,2)] assms(3)] by (auto split: option.splits)
  obtain M where M: "cf_rep U root f (faulty_saves root f d1 steps) M" "\<And>k. prefix ((L(?k := ?X)) k) (M k)"
    using faulty_saves_rep [OF v(1) assms(4)] by blast
  have "prefix ?X (M ?k)" using M(2) [of ?k] by simp
  then obtain Z where "M ?k = ?X @ Z" by (auto simp: prefix_def)
  then have "log_read (M ?k) (cw_checkpoint_id r) = Some \<lparr>cr_checkpoint = v, cr_body = cw_body r\<rparr>"
    using log_read_prefix [OF log_read_saved [OF v(2)]] by simp
  then show ?thesis
    using cf.load_rep [OF M(1), of "cw_run_id r" "cw_namespace r" "cw_checkpoint_id r"] cf.ok_wf [OF assms(2)] v(3) ck_view_idem
    by (auto simp: stream_key_def viewed_def)
qed

theorem filesystem_saved_checkpoint_is_durable_witness:
  "\<exists>c. snd (settle (cf_load_checkpoint [''store''] (\<lambda>_. Infinite_Float False ''inf'') (PInt 1) (PStr ''c1'') (PStr []))
      (faulty_saves [''store''] (\<lambda>_. Infinite_Float False ''inf'')
        (fst (fst (cf_save [''store''] (\<lambda>_. Infinite_Float False ''inf'') first_checkpoint (empty_disk, []))))
        [(first_checkpoint, [Carried_Out, Dies])]))
    = Inr (Some \<lparr>cr_checkpoint = ck_view c, cr_body = ''one''\<rparr>)"
proof -
  obtain d1 fates1 out where run: "cf_save [''store''] (\<lambda>_. Infinite_Float False ''inf'') first_checkpoint (empty_disk, [])
      = ((d1, fates1), out)" by (metis surj_pair)
  have "snd (log_save [] first_checkpoint) \<noteq> None"
    by (simp add: log_save_def log_find_def log_head_def first_checkpoint_def)
  then obtain c where "out = Returned c"
    using wp_run [OF cf_save_any [OF cf_rep_empty sample_cf_ok(1)] run] by (cases out) auto
  then show ?thesis
    using filesystem_saved_checkpoint_is_durable [OF cf_rep_empty sample_cf_ok(1) run [unfolded \<open>out = Returned c\<close>],
        of "[(first_checkpoint, [Carried_Out, Dies])]"] sample_cf_ok(1) run
    by (auto simp: first_checkpoint_def)
qed

text \<open>
  C22. Without failures the store in files and the store in memory are the same: after the same saves,
  accepted or refused, they list the same checkpoints, but for the order of the keys of their metadata. The records of the requests
  stay within the size that reading accepts, and no two of the names and bodies have the same digest.
\<close>

theorem filesystem_store_agrees_with_memory_store:
  assumes "\<forall>r \<in> set rs. cf_ok U f r" and "cf_key_ok U (run, ns)"
  shows "\<exists>cs. ck_list_for_run (run_saves ck_save [] rs) (run_id_value run) (PStr ns) = Inr cs
    \<and> snd (settle (cf_list_for_run root f (run_id_value run) (PStr ns))
        (run_saves (\<lambda>d r. settle (cf_save root f r) d) empty_disk rs)) = Inr (map ck_view cs)"
proof (intro exI conjI)
  have wf: "\<forall>r \<in> set rs. wf_checkpoint r" using assms(1) by (simp add: cf_ok_def)
  have "ck_run_ok run \<and> namespace_ok ns" using assms(2) by (simp add: cf_key_ok_def)
  then show "ck_list_for_run (run_saves ck_save [] rs) (run_id_value run) (PStr ns)
      = Inr (log_list (log_saves (\<lambda>_. []) rs (run, ns)))"
    using ck_mem.list_rep [OF ck_mem.run_saves_rep [OF ck_mem.rep_empty wf]] by simp
  show "snd (settle (cf_list_for_run root f (run_id_value run) (PStr ns))
        (run_saves (\<lambda>d r. settle (cf_save root f r) d) empty_disk rs))
      = Inr (map ck_view (log_list (log_saves (\<lambda>_. []) rs (run, ns))))"
    by (rule cf.list_rep [OF cf.run_saves_rep [OF cf_rep_empty assms(1)] assms(2)])
qed

theorem filesystem_store_agrees_with_memory_store_witness:
  "\<exists>cs. ck_list_for_run (run_saves ck_save [] [first_checkpoint]) (PInt 1) (PStr []) = Inr cs
    \<and> snd (settle (cf_list_for_run [''store''] (\<lambda>_. Infinite_Float False ''inf'') (PInt 1) (PStr []))
        (run_saves (\<lambda>d r. settle (cf_save [''store''] (\<lambda>_. Infinite_Float False ''inf'') r) d) empty_disk [first_checkpoint]))
      = Inr (map ck_view cs)"
  using filesystem_store_agrees_with_memory_store [of "[first_checkpoint]" sample_names _ "Run_Int 1" "[]" "[''store'']"]
    sample_cf_ok by simp

text \<open>
  Reading the latest checkpoint never gives a stale or partial one: whatever fails while it reads
  and recovers, the logs stay as they are, an answer is the head of the stream's log, and without
  failures there is one.
\<close>

theorem filesystem_latest_is_the_head:
  assumes "cf_rep U root f d L" and "cf_key_ok U (run, ns)"
    and "cf_load_latest root f (run_id_value run) (PStr ns) (d, fates) = ((d', fates'), out)"
  shows "cf_rep U root f d' L
    \<and> (\<forall>x. out = Returned x \<longrightarrow> x = map_option (viewed ck_view) (log_latest (L (run, ns))))
    \<and> (fates = [] \<longrightarrow> (\<exists>x. out = Returned x))"
proof (cases "fates = []")
  case True
  then show ?thesis using wp_run [OF cf_load_latest_any [OF assms(1,2)] assms(3) [unfolded True]] by blast
next
  case False
  then show ?thesis using wp_run_faulty [OF cf_load_latest_any [OF assms(1,2)] assms(3)] by blast
qed

theorem filesystem_latest_is_the_head_witness:
  "snd (cf_load_latest [''store''] (\<lambda>_. Infinite_Float False ''inf'') (PInt 1) (PStr []) (empty_disk, [])) = Returned None"
proof -
  obtain d' fates' out where "cf_load_latest [''store''] (\<lambda>_. Infinite_Float False ''inf'') (PInt 1) (PStr []) (empty_disk, [])
      = ((d', fates'), out)" by (metis surj_pair)
  then show ?thesis
    using filesystem_latest_is_the_head [OF cf_rep_empty sample_cf_ok(2), of "[''store'']" _ "[]" d' fates' out]
    by (auto simp: log_latest_def)
qed

end
