(* ===== verification/Run_Lifecycle.thy ===== *)
theory Run_Lifecycle
  imports Workflow_Api Summary
begin

text \<open>
  The control plane of a run: its row and status (models/run.py), the policies on who may do what
  from which status (policies/runs.py), the registry of active executions
  (services/execution_control.py), the dispatch of a prepared workflow (services/execution.py) and
  the actions of services/runs.py. The state holds the rows, the registry, the cancellation events
  that are set, the two clocks and the recorded lifecycle events. An action takes the state and
  returns it with its result; a database transaction is one update of the row.
\<close>

section \<open>Rows\<close>

datatype run_status = PENDING | RUNNING | WAITING | SUCCEEDED | FAILED | TIMED_OUT | CANCELLED

fun status_text :: "run_status \<Rightarrow> string" where
  "status_text PENDING = ''pending''"
| "status_text RUNNING = ''running''"
| "status_text WAITING = ''waiting''"
| "status_text SUCCEEDED = ''succeeded''"
| "status_text FAILED = ''failed''"
| "status_text TIMED_OUT = ''timed_out''"
| "status_text CANCELLED = ''cancelled''"

record run =
  run_pk :: int
  run_workflow_id :: int
  run_definition :: pyval
  run_state :: run_status
  run_thread_id :: string
  run_input :: pyitems
  run_output :: pydict
  run_error :: string
  run_started :: "rat option"
  run_finished :: "rat option"
  run_updated :: rat

definition is_terminal_status :: "run_status \<Rightarrow> bool" where
  "is_terminal_status st = (st \<in> {SUCCEEDED, FAILED, TIMED_OUT, CANCELLED})"

definition is_terminal_state :: "run \<Rightarrow> bool" where
  "is_terminal_state r = is_terminal_status (run_state r)"

section \<open>Policies\<close>

record policy_result =
  pr_allowed :: bool
  pr_reason :: string

text \<open>An actor is an object without a callable \<open>has_perm\<close>, or one with its permissions.\<close>

datatype actor = Actor_Plain | Actor_With_Perms "string list"

definition policy_check :: "bool \<Rightarrow> string \<Rightarrow> policy_result" where
  "policy_check condition reason =
     \<lparr>pr_allowed = condition, pr_reason = (if condition then [] else reason)\<rparr>"

definition policy_permission :: "bool \<Rightarrow> actor option \<Rightarrow> string \<Rightarrow> policy_result" where
  "policy_permission require_login actor codename =
     (case actor of
        None \<Rightarrow> \<lparr>pr_allowed = True, pr_reason = []\<rparr>
      | Some a \<Rightarrow>
          if \<not> require_login then \<lparr>pr_allowed = True, pr_reason = []\<rparr>
          else (let allowed = (case a of Actor_Plain \<Rightarrow> False
                  | Actor_With_Perms ps \<Rightarrow> (''automation.'' @ codename) \<in> set ps)
                in \<lparr>pr_allowed = allowed,
                    pr_reason = (if \<not> allowed then ''Actor does not have permission'' else [])\<rparr>))"

definition policy_combine :: "policy_result \<Rightarrow> policy_result \<Rightarrow> policy_result" where
  "policy_combine permission state = (if \<not> pr_allowed permission then permission else state)"

definition can_start_run :: "bool \<Rightarrow> actor option \<Rightarrow> run \<Rightarrow> policy_result" where
  "can_start_run require_login actor r =
     policy_combine (policy_permission require_login actor ''start_run'')
       (policy_check (run_state r = PENDING) (''Run is not pending: '' @ status_text (run_state r)))"

definition can_cancel_run :: "bool \<Rightarrow> actor option \<Rightarrow> run \<Rightarrow> policy_result" where
  "can_cancel_run require_login actor r =
     policy_combine (policy_permission require_login actor ''cancel_run'')
       (policy_check (run_state r \<in> {PENDING, RUNNING, WAITING})
         (''Run cannot be cancelled from '' @ status_text (run_state r)))"

definition can_resume_run :: "bool \<Rightarrow> actor option \<Rightarrow> run \<Rightarrow> policy_result" where
  "can_resume_run require_login actor r =
     policy_combine (policy_permission require_login actor ''resume_run'')
       (policy_check (run_state r = WAITING)
         (''Run cannot be resumed from '' @ status_text (run_state r)))"

definition can_retry_run :: "bool \<Rightarrow> actor option \<Rightarrow> run \<Rightarrow> policy_result" where
  "can_retry_run require_login actor r =
     policy_combine (policy_permission require_login actor ''retry_run'')
       (policy_check (run_state r \<in> {FAILED, TIMED_OUT, CANCELLED})
         (''Run cannot be retried from '' @ status_text (run_state r)))"

definition policy_or_raise :: "policy_result \<Rightarrow> unit res" where
  "policy_or_raise p = r_guard (\<not> pr_allowed p) (PlainExn PermissionError_cls (pr_reason p))"

section \<open>The state\<close>

datatype lifecycle_event =
    Run_Started int
  | Run_Completed int
  | Run_Cancelled int
  | Run_Failed int string
  | Span_Started int
  | Span_Completed int string
  | Span_Failed int string

record cp_state =
  cp_runs :: "(int \<times> run) list"
  cp_active :: "(int \<times> execution_control) list"
  cp_flags :: "nat set"
  cp_next_event :: nat
  cp_now :: rat
  cp_monotonic :: rat
  cp_events :: "lifecycle_event list"

text \<open>A sink says of each event what recording it raises, if anything; a failure is suppressed.\<close>

type_synonym event_sink = "lifecycle_event \<Rightarrow> exn option"

definition emit :: "event_sink option \<Rightarrow> lifecycle_event \<Rightarrow> cp_state \<Rightarrow> cp_state" where
  "emit sink ev s =
     (case sink of
        None \<Rightarrow> s
      | Some record_event \<Rightarrow>
          if record_event ev = None then s\<lparr>cp_events := cp_events s @ [ev]\<rparr> else s)"

section \<open>Execution control\<close>

definition begin_execution_control :: "int \<Rightarrow> deadline \<Rightarrow> cp_state \<Rightarrow> cp_state \<times> execution_control" where
  "begin_execution_control run_id dl s =
     (let control = \<lparr>ctl_event = cp_next_event s, ctl_deadline = dl\<rparr>
      in (s\<lparr>cp_active := dict_set run_id control (cp_active s), cp_next_event := Suc (cp_next_event s)\<rparr>,
          control))"

definition request_cancellation :: "int \<Rightarrow> cp_state \<Rightarrow> cp_state \<times> bool" where
  "request_cancellation run_id s =
     (case map_of (cp_active s) run_id of
        None \<Rightarrow> (s, False)
      | Some active \<Rightarrow> (s\<lparr>cp_flags := insert (ctl_event active) (cp_flags s)\<rparr>, True))"

definition finish_execution_control :: "int \<Rightarrow> cp_state \<Rightarrow> cp_state" where
  "finish_execution_control run_id s = s\<lparr>cp_active := dict_pop run_id (cp_active s)\<rparr>"

section \<open>Dispatch\<close>

record prepared_workflow =
  pw_kind :: string
  pw_object :: "cp_state workflow_object"
  pw_lifecycle_owner :: string
  pw_timeout :: "pyval option"
  pw_generation :: int
  pw_signature :: string

record cp_result =
  xr_status :: run_status
  xr_output :: pyitems
  xr_error :: string
  xr_last_step :: string
  xr_message :: string
  xr_details :: pydict

definition safe_error :: "exn \<Rightarrow> string" where
  "safe_error e = safe_run_error_message (class_name (exn_class_of e)) (exn_text e)"

text \<open>\<open>float(raw)\<close> of a positive number, as a deadline after the monotonic clock.\<close>

definition timeout_deadline :: "pyval option \<Rightarrow> rat \<Rightarrow> deadline" where
  "timeout_deadline raw clock =
     (case raw of
        Some (Atom (AInt i)) \<Rightarrow> if 0 < i then Deadline_At (clock + of_int i) else No_Deadline
      | Some (Atom (AFloat (Finite_Float n d _))) \<Rightarrow>
          if 0 < n then Deadline_At (clock + Fract n d) else No_Deadline
      | Some (Atom (AFloat (Infinite_Float neg _))) \<Rightarrow> if neg then No_Deadline else Deadline_Never
      | _ \<Rightarrow> No_Deadline)"

definition normalize_failure :: "string \<Rightarrow> exn \<Rightarrow> exn" where
  "normalize_failure kind e =
     (if isinstance e FrameworkError_cls then e
      else ExecutionError (safe_error e) ''WORKFLOW_EXECUTION_FAILED'' (Some ''execution'')
        (Some False) [(''workflow_kind'', PStr kind)])"

text \<open>The details of a failure; an instance of \<open>FrameworkError\<close> has these attributes.\<close>

fun error_details :: "exn \<Rightarrow> pydict" where
  "error_details (FrameworkExn fe) =
     [(''error_category'', PStr (fe_category fe)), (''error_code'', PStr (fe_code fe)),
      (''error_retryable'', case fe_retryable fe of None \<Rightarrow> PNone | Some b \<Rightarrow> PBool b)]"
| "error_details (PlainExn _ _) = []"

definition dispatch_details :: "prepared_workflow \<Rightarrow> string \<Rightarrow> pydict" where
  "dispatch_details p operation =
     [(''lifecycle_events_owner'', PStr (pw_lifecycle_owner p)),
      (''engine_generation'', PInt (pw_generation p)), (''engine_signature'', PStr (pw_signature p)),
      (''operation'', PStr operation)]"

definition failure_result :: "prepared_workflow \<Rightarrow> string \<Rightarrow> exn \<Rightarrow> cp_result" where
  "failure_result p operation e =
     \<lparr>xr_status = (if isinstance e WorkflowCancelledError_cls then CANCELLED
        else if isinstance e WorkflowTimeoutError_cls then TIMED_OUT else FAILED),
      xr_output = [], xr_error = exn_text e, xr_last_step = [], xr_message = ''run failed'',
      xr_details = [(''execution_path'', PStr ''public_executable''), (''workflow_kind'', PStr (pw_kind p)),
        (''framework_error'', PBool True)] @ error_details e @ dispatch_details p operation\<rparr>"

definition success_result :: "prepared_workflow \<Rightarrow> string \<Rightarrow> workflow_result \<Rightarrow> cp_result" where
  "success_result p operation w =
     (let paused = (wf_status w = ''paused'')
      in \<lparr>xr_status = (if paused then WAITING else SUCCEEDED), xr_output = wf_output w, xr_error = [],
          xr_last_step = (case map_of (wf_metadata w) (AStr ''last_step_name'') of
             None \<Rightarrow> [] | Some v \<Rightarrow> val_text v),
          xr_message = (if paused then ''run paused'' else ''run completed''),
          xr_details = [(''execution_path'', PStr ''public_executable''),
            (''workflow_kind'', PStr (pw_kind p)), (''workflow_metadata'', PDict (wf_metadata w))]
            @ dispatch_details p operation @ [(''paused'', PBool paused)]\<rparr>)"

text \<open>The three parts of \<open>_dispatch\<close>: up to the call, the branch of its outcome, and the whole.\<close>

definition dispatch_begin ::
  "event_sink option \<Rightarrow> prepared_workflow \<Rightarrow> run \<Rightarrow> cp_state \<Rightarrow> cp_state \<times> execution_context" where
  "dispatch_begin events p r s =
     (let (s, control) = begin_execution_control (run_pk r)
            (timeout_deadline (pw_timeout p) (cp_monotonic s)) s;
          s = emit events (Run_Started (run_pk r)) s;
          span = (case events of None \<Rightarrow> False
            | Some record_event \<Rightarrow> record_event (Span_Started (run_pk r)) = None);
          s = emit events (Span_Started (run_pk r)) s
      in (s, \<lparr>cx_run_id = Some (run_pk r), cx_thread_id = run_thread_id r, cx_parent_span = span,
             cx_control = Some control\<rparr>))"

definition dispatch_end ::
  "event_sink option \<Rightarrow> prepared_workflow \<Rightarrow> string \<Rightarrow> run \<Rightarrow> execution_context \<Rightarrow>
   cp_state \<times> workflow_result res \<Rightarrow> cp_state \<times> cp_result"
where
  "dispatch_end events p operation r ctx x =
     (let s = fst x; span = cx_parent_span ctx
      in case snd x of
           Inl exc \<Rightarrow>
             (let e = normalize_failure (pw_kind p) exc;
                  s = (if span then emit events (Span_Failed (run_pk r) (exn_text e)) s else s);
                  s = emit events (if isinstance e WorkflowCancelledError_cls then Run_Cancelled (run_pk r)
                        else Run_Failed (run_pk r) (exn_text e)) s
              in (finish_execution_control (run_pk r) s, failure_result p operation e))
         | Inr w \<Rightarrow>
             (let s = finish_execution_control (run_pk r) s;
                  s = (if span then emit events (Span_Completed (run_pk r) (val_text (PDict (wf_output w)))) s
                       else s);
                  s = (if wf_status w = ''paused'' then s else emit events (Run_Completed (run_pk r)) s)
              in (s, success_result p operation w)))"

definition dispatch ::
  "event_sink option \<Rightarrow> prepared_workflow \<Rightarrow> string \<Rightarrow>
   (execution_context \<Rightarrow> cp_state \<Rightarrow> cp_state \<times> workflow_result res) \<Rightarrow> run \<Rightarrow> cp_state \<Rightarrow>
   cp_state \<times> cp_result"
where
  "dispatch sink p operation invoke r s =
     (let events = (if pw_lifecycle_owner p = ''control_plane'' then sink else None);
          (s, ctx) = dispatch_begin events p r s
      in dispatch_end events p operation r ctx (invoke ctx s))"

section \<open>Actions\<close>

definition transition_run ::
  "rat \<Rightarrow> run_status \<Rightarrow> string option \<Rightarrow> pydict option \<Rightarrow> string \<Rightarrow> run \<Rightarrow> run" where
  "transition_run now status thread_id output_payload message r =
     (let r = r\<lparr>run_state := status, run_updated := now\<rparr>;
          r = (case thread_id of
                 Some t \<Rightarrow> if t \<noteq> run_thread_id r then r\<lparr>run_thread_id := t\<rparr> else r
               | None \<Rightarrow> r);
          r = (case output_payload of Some v \<Rightarrow> r\<lparr>run_output := v\<rparr> | None \<Rightarrow> r);
          r = (if status = RUNNING \<and> run_started r = None then r\<lparr>run_started := Some now\<rparr> else r);
          r = (if is_terminal_status status then r\<lparr>run_finished := Some now\<rparr> else r)
      in if message \<noteq> [] then r\<lparr>run_error := message\<rparr> else r)"

definition finalize_from_execution :: "rat \<Rightarrow> cp_result \<Rightarrow> run \<Rightarrow> run" where
  "finalize_from_execution now x r =
     (let status = xr_status x;
          message = (if status \<in> {FAILED, TIMED_OUT} then safe_run_error_message ''Error'' (xr_error x)
            else [])
      in transition_run now status None (Some (safe_run_output_payload (PDict (xr_output x)))) message r)"

record workflow_reference =
  ref_kind :: string
  ref_config :: pyitems

definition configuration_error :: "string \<Rightarrow> exn" where
  "configuration_error message = PlainExn WorkflowConfigurationError_cls message"

definition parse_workflow_reference :: "pyval \<Rightarrow> workflow_reference option res" where
  "parse_workflow_reference definition_payload =
     (case definition_payload of
        PDict d \<Rightarrow>
          (case map_of d (AStr ''workflow'') of
             None \<Rightarrow> Inr None
           | Some (Atom ANone) \<Rightarrow> Inr None
           | Some (PDict raw) \<Rightarrow>
               (case map_of raw (AStr ''kind'') of
                  Some (Atom (AStr kind)) \<Rightarrow>
                    if strip kind = [] then Inl (configuration_error ''workflow.kind must be a non-empty string.'')
                    else (case map_of raw (AStr ''config'') of
                        None \<Rightarrow> Inr (Some \<lparr>ref_kind = strip kind, ref_config = []\<rparr>)
                      | Some (PDict config) \<Rightarrow> Inr (Some \<lparr>ref_kind = strip kind, ref_config = config\<rparr>)
                      | Some _ \<Rightarrow> Inl (configuration_error ''workflow.config must be a mapping.''))
                | _ \<Rightarrow> Inl (configuration_error ''workflow.kind must be a non-empty string.''))
           | Some _ \<Rightarrow> Inl (configuration_error ''workflow must be a mapping.''))
      | _ \<Rightarrow> Inr None)"

record action_result =
  ac_run :: run
  ac_message :: string
  ac_output :: pydict
  ac_execution :: "cp_result option"

text \<open>What an action runs in: the login setting and the actor, the engine and the event sinks.\<close>

record action_env =
  ae_require_login :: bool
  ae_actor :: "actor option"
  ae_prepare :: "workflow_reference \<Rightarrow> prepared_workflow res"
  ae_sink :: "int \<Rightarrow> event_sink option"

definition locked_run :: "int \<Rightarrow> cp_state \<Rightarrow> run res" where
  "locked_run pk s =
     (case map_of (cp_runs s) pk of
        None \<Rightarrow> Inl (PlainExn (Other_cls ''DoesNotExist'') ''Run matching query does not exist.'')
      | Some r \<Rightarrow> Inr r)"

definition save_run :: "run \<Rightarrow> cp_state \<Rightarrow> cp_state" where
  "save_run r s = s\<lparr>cp_runs := dict_set (run_pk r) r (cp_runs s)\<rparr>"

text \<open>A locked row, a policy on it, and its transition, as one transaction.\<close>

definition claim_run ::
  "(run \<Rightarrow> policy_result) \<Rightarrow> (rat \<Rightarrow> run \<Rightarrow> run) \<Rightarrow> int \<Rightarrow> cp_state \<Rightarrow> (cp_state \<times> run) res" where
  "claim_run policy step pk s =
     r_bind (locked_run pk s) (\<lambda>r.
     r_bind (policy_or_raise (policy r)) (\<lambda>_.
       let r = step (cp_now s) r in Inr (save_run r s, r)))"

definition prepare_workflow_for_run :: "action_env \<Rightarrow> run \<Rightarrow> prepared_workflow res" where
  "prepare_workflow_for_run env r =
     r_bind (parse_workflow_reference (run_definition r)) (\<lambda>ref.
       case ref of
         None \<Rightarrow> Inl (configuration_error ''workflow reference is required.'')
       | Some reference \<Rightarrow> ae_prepare env reference)"

definition runtime_failure :: "exn \<Rightarrow> bool" where
  "runtime_failure e =
     (isinstance e WorkflowConfigurationError_cls \<or> isinstance e FrameworkError_cls)"

definition handle_runtime_build_failure ::
  "action_env \<Rightarrow> int \<Rightarrow> exn \<Rightarrow> cp_state \<Rightarrow> cp_state \<times> action_result res" where
  "handle_runtime_build_failure env pk e s =
     (let safe_message = safe_error e
      in case locked_run pk s of
           Inl err \<Rightarrow> (s, Inl err)
         | Inr r \<Rightarrow>
             (let r = transition_run (cp_now s) FAILED None None safe_message r;
                  s = emit (ae_sink env pk) (Run_Failed pk safe_message) (save_run r s)
              in (s, Inr \<lparr>ac_run = r, ac_message = ''runtime configuration failed'',
                   ac_output = [],
                   ac_execution = Some \<lparr>xr_status = FAILED, xr_output = [], xr_error = exn_text e,
                     xr_last_step = [], xr_message = ''runtime configuration failed'',
                     xr_details = [(''reason'', PStr ''workflow_configuration_error'')]\<rparr>\<rparr>)))"

definition complete_action :: "int \<Rightarrow> cp_result \<Rightarrow> cp_state \<Rightarrow> cp_state \<times> action_result res" where
  "complete_action pk x s =
     (case locked_run pk s of
        Inl err \<Rightarrow> (s, Inl err)
      | Inr r \<Rightarrow>
          (let r = finalize_from_execution (cp_now s) x r
           in (save_run r s, Inr \<lparr>ac_run = r, ac_message = xr_message x,
                ac_output = safe_run_output_payload (PDict (xr_output x)), ac_execution = Some x\<rparr>)))"

definition execute_for_run ::
  "action_env \<Rightarrow> prepared_workflow \<Rightarrow> run \<Rightarrow> cp_state \<Rightarrow> cp_state \<times> action_result res" where
  "execute_for_run env p r s =
     (case dispatch (ae_sink env (run_pk r)) p ''execute''
         (\<lambda>ctx. execute_workflow (pw_object p) (run_input r) (Some ctx)) r s of
        (s, x) \<Rightarrow> complete_action (run_pk r) x s)"

definition start_run :: "action_env \<Rightarrow> int \<Rightarrow> cp_state \<Rightarrow> cp_state \<times> action_result res" where
  "start_run env pk s =
     (case claim_run (can_start_run (ae_require_login env) (ae_actor env))
         (\<lambda>now r. transition_run now RUNNING
            (Some (if run_thread_id r \<noteq> [] then run_thread_id r else ''run-'' @ int_text (run_pk r)))
            None [] r) pk s of
        Inl e \<Rightarrow> (s, Inl e)
      | Inr (s, r) \<Rightarrow>
          (case prepare_workflow_for_run env r of
             Inl e \<Rightarrow> if runtime_failure e then handle_runtime_build_failure env pk e s else (s, Inl e)
           | Inr p \<Rightarrow> execute_for_run env p r s))"

definition cancel_run :: "action_env \<Rightarrow> int \<Rightarrow> cp_state \<Rightarrow> cp_state \<times> action_result res" where
  "cancel_run env pk s =
     (case r_bind (locked_run pk s) (\<lambda>r.
            r_bind (policy_or_raise (can_cancel_run (ae_require_login env) (ae_actor env) r)) (\<lambda>_. Inr r)) of
        Inl e \<Rightarrow> (s, Inl e)
      | Inr r \<Rightarrow>
          (let s = fst (request_cancellation pk s);
               r = transition_run (cp_now s) CANCELLED None None [] r;
               s = save_run r s;
               finished = Inr \<lparr>ac_run = r, ac_message = ''run cancelled'', ac_output = [],
                 ac_execution = None\<rparr>
           in case ae_sink env pk of
                None \<Rightarrow> (s, finished)
              | Some record_event \<Rightarrow>
                  (case record_event (Run_Cancelled pk) of
                     None \<Rightarrow> (emit (ae_sink env pk) (Run_Cancelled pk) s, finished)
                   | Some e \<Rightarrow> (s, Inl e))))"

definition resume_run ::
  "action_env \<Rightarrow> int \<Rightarrow> pyitems \<Rightarrow> string option \<Rightarrow> cp_state \<Rightarrow> cp_state \<times> action_result res" where
  "resume_run env pk resume_payload checkpoint_id s =
     (case claim_run (can_resume_run (ae_require_login env) (ae_actor env))
         (\<lambda>now r. transition_run now RUNNING None None [] r) pk s of
        Inl e \<Rightarrow> (s, Inl e)
      | Inr (s, r) \<Rightarrow>
          (case prepare_workflow_for_run env r of
             Inl e \<Rightarrow> if runtime_failure e then handle_runtime_build_failure env pk e s else (s, Inl e)
           | Inr p \<Rightarrow>
               (case WorkflowResumeRequest resume_payload checkpoint_id of
                  Inl e \<Rightarrow> (s, Inl e)
                | Inr request \<Rightarrow>
                    (case dispatch (ae_sink env (run_pk r)) p ''resume''
                        (\<lambda>ctx. resume_workflow (pw_object p) request (Some ctx)) r s of
                       (s, x) \<Rightarrow> complete_action (run_pk r) x s))))"

definition retry_run :: "action_env \<Rightarrow> int \<Rightarrow> cp_state \<Rightarrow> cp_state \<times> action_result res" where
  "retry_run env pk s =
     (case claim_run (can_retry_run (ae_require_login env) (ae_actor env))
         (\<lambda>now r. transition_run now RUNNING None None [] r) pk s of
        Inl e \<Rightarrow> (s, Inl e)
      | Inr (s, r) \<Rightarrow>
          (case prepare_workflow_for_run env r of
             Inl e \<Rightarrow> if runtime_failure e then handle_runtime_build_failure env pk e s else (s, Inl e)
           | Inr p \<Rightarrow> execute_for_run env p r s))"

section \<open>The life of a row\<close>

text \<open>
  The row of a run and the number of its executions in flight. An action that raises between its
  first transaction and its last one abandons the execution and leaves the row as it is.
\<close>

datatype run_label = Start | Resume | Retry | Cancel | Build_Failure | Complete | Abandon

inductive run_step :: "run_label \<Rightarrow> run \<times> nat \<Rightarrow> run \<times> nat \<Rightarrow> bool" where
  start: "run_state r = PENDING \<Longrightarrow>
     run_step Start (r, n) (transition_run now RUNNING (Some t) None [] r, Suc n)"
| resume: "run_state r = WAITING \<Longrightarrow>
     run_step Resume (r, n) (transition_run now RUNNING None None [] r, Suc n)"
| retry: "run_state r \<in> {FAILED, TIMED_OUT, CANCELLED} \<Longrightarrow>
     run_step Retry (r, n) (transition_run now RUNNING None None [] r, Suc n)"
| cancel: "run_state r \<in> {PENDING, RUNNING, WAITING} \<Longrightarrow>
     run_step Cancel (r, n) (transition_run now CANCELLED None None [] r, n)"
| build_failure: "run_step Build_Failure (r, Suc n) (transition_run now FAILED None None msg r, n)"
| complete: "xr_status x \<notin> {PENDING, RUNNING} \<Longrightarrow>
     run_step Complete (r, Suc n) (finalize_from_execution now x r, n)"
| abandon: "run_step Abandon (r, Suc n) (r, n)"

inductive_cases run_step_elims: "run_step a x y"

inductive run_path :: "run_label list \<Rightarrow> run \<times> nat \<Rightarrow> run \<times> nat \<Rightarrow> bool" where
  path_refl: "run_path [] x x"
| path_step: "run_path as x y \<Longrightarrow> run_step a y z \<Longrightarrow> run_path (as @ [a]) x z"

lemma path_one: "run_step a x y \<Longrightarrow> run_path [a] x y"
  using path_step [OF path_refl, of a x y] by simp

lemma path_trans: "run_path bs y z \<Longrightarrow> run_path as x y \<Longrightarrow> run_path (as @ bs) x z"
  by (induction bs y z rule: run_path.induct) (auto intro: path_step simp flip: append_assoc)

lemma transition_run_fields [simp]:
  "run_state (transition_run now st t out msg r) = st"
  "run_pk (transition_run now st t out msg r) = run_pk r"
  "run_definition (transition_run now st t out msg r) = run_definition r"
  "run_input (transition_run now st t out msg r) = run_input r"
  "run_workflow_id (transition_run now st t out msg r) = run_workflow_id r"
  "run_updated (transition_run now st t out msg r) = now"
  "run_started (transition_run now st t out msg r) =
     (if st = RUNNING \<and> run_started r = None then Some now else run_started r)"
  "run_finished (transition_run now st t out msg r) =
     (if is_terminal_status st then Some now else run_finished r)"
  "run_error (transition_run now st t out msg r) = (if msg \<noteq> [] then msg else run_error r)"
  "run_output (transition_run now st t out msg r) = (case out of None \<Rightarrow> run_output r | Some v \<Rightarrow> v)"
  "run_thread_id (transition_run now st t out msg r) =
     (case t of None \<Rightarrow> run_thread_id r | Some v \<Rightarrow> v)"
  by (auto simp: transition_run_def Let_def split: option.split)

lemma finalize_fields [simp]:
  "run_state (finalize_from_execution now x r) = xr_status x"
  "run_pk (finalize_from_execution now x r) = run_pk r"
  "run_definition (finalize_from_execution now x r) = run_definition r"
  "run_input (finalize_from_execution now x r) = run_input r"
  "run_output (finalize_from_execution now x r) = safe_run_output_payload (PDict (xr_output x))"
  "xr_status x \<noteq> RUNNING \<Longrightarrow> run_started (finalize_from_execution now x r) = run_started r"
  "run_finished (finalize_from_execution now x r) =
     (if is_terminal_status (xr_status x) then Some now else run_finished r)"
  by (simp_all add: finalize_from_execution_def Let_def)

lemma finalize_error:
  "run_error (finalize_from_execution now x r) =
     (if xr_status x \<in> {FAILED, TIMED_OUT} then safe_run_error_message ''Error'' (xr_error x)
      else run_error r)"
  using safe_run_error_message_body [of "''Error''" "xr_error x"]
  by (auto simp: finalize_from_execution_def Let_def)

definition run_inv :: "run \<times> nat \<Rightarrow> bool" where
  "run_inv x \<longleftrightarrow> (case x of (r, n) \<Rightarrow>
     (run_state r = PENDING \<longrightarrow> run_started r = None \<and> run_finished r = None \<and> n = 0)
     \<and> (0 < n \<longrightarrow> run_started r \<noteq> None)
     \<and> (run_state r \<in> {RUNNING, WAITING} \<longrightarrow> run_started r \<noteq> None)
     \<and> (is_terminal_state r \<longrightarrow> run_finished r \<noteq> None))"

lemma run_step_inv: "run_step a x y \<Longrightarrow> run_inv x \<Longrightarrow> run_inv y"
  by (induction rule: run_step.induct)
    (auto simp: run_inv_def is_terminal_state_def is_terminal_status_def)

lemma run_path_inv: "run_path as x y \<Longrightarrow> run_inv x \<Longrightarrow> run_inv y"
  by (induction rule: run_path.induct) (auto intro: run_step_inv)

lemma run_step_started: "run_step a x y \<Longrightarrow> run_started (fst x) = Some t \<Longrightarrow> run_started (fst y) = Some t"
  by (induction rule: run_step.induct) auto

lemma run_path_started: "run_path as x y \<Longrightarrow> run_started (fst x) = Some t \<Longrightarrow> run_started (fst y) = Some t"
  by (induction rule: run_path.induct) (auto intro: run_step_started)

lemma run_step_not_pending: "run_step a x y \<Longrightarrow> run_state (fst x) \<noteq> PENDING \<Longrightarrow> run_state (fst y) \<noteq> PENDING"
  by (induction rule: run_step.induct) auto

lemma run_path_not_pending:
  "run_path as x y \<Longrightarrow> run_state (fst x) \<noteq> PENDING \<Longrightarrow> run_state (fst y) \<noteq> PENDING"
  by (induction rule: run_path.induct) (auto dest: run_step_not_pending)

text \<open>Without a cancellation, a run is running exactly while its one execution is in flight.\<close>

definition run_exclusive :: "run \<times> nat \<Rightarrow> bool" where
  "run_exclusive x \<longleftrightarrow> snd x = (if run_state (fst x) = RUNNING then 1 else 0)"

lemma run_step_exclusive:
  "run_step a x y \<Longrightarrow> a \<notin> {Cancel, Abandon} \<Longrightarrow> run_exclusive x \<Longrightarrow> run_exclusive y"
  by (induction rule: run_step.induct) (auto simp: run_exclusive_def split: if_splits)

lemma run_path_exclusive:
  "run_path as x y \<Longrightarrow> set as \<inter> {Cancel, Abandon} = {} \<Longrightarrow> run_exclusive x \<Longrightarrow> run_exclusive y"
  by (induction rule: run_path.induct) (auto intro: run_step_exclusive)

section \<open>The actions take these steps\<close>

abbreviation row :: "cp_state \<Rightarrow> int \<Rightarrow> run option" where
  "row s pk \<equiv> map_of (cp_runs s) pk"

lemma emit_runs [simp]: "cp_runs (emit sink ev s) = cp_runs s"
  by (simp add: emit_def split: option.split)

lemma control_runs [simp]:
  "cp_runs (finish_execution_control pk s) = cp_runs s"
  "cp_runs (fst (request_cancellation pk s)) = cp_runs s"
  "cp_runs (fst (begin_execution_control pk d s)) = cp_runs s"
  by (simp_all add: finish_execution_control_def request_cancellation_def begin_execution_control_def
      Let_def split: option.split)

lemma save_run_row [simp]: "row (save_run r s) pk = (if pk = run_pk r then Some r else row s pk)"
  by (simp add: save_run_def map_of_dict_set_iff)

lemma dispatch_result_status:
  "xr_status (failure_result p operation e) \<in> {CANCELLED, TIMED_OUT, FAILED}"
  "xr_status (success_result p operation w) = (if wf_status w = ''paused'' then WAITING else SUCCEEDED)"
  by (simp_all add: failure_result_def success_result_def Let_def)

lemma dispatch_begin_runs [simp]: "cp_runs (fst (dispatch_begin events p r s)) = cp_runs s"
  by (simp add: dispatch_begin_def Let_def split_beta)

lemma dispatch_end_runs [simp]: "cp_runs (fst (dispatch_end events p operation r ctx x)) = cp_runs (fst x)"
  by (simp add: dispatch_end_def Let_def split: sum.split)

lemma dispatch_end_status:
  "xr_status (snd (dispatch_end events p operation r ctx x)) =
     (case snd x of
        Inl e \<Rightarrow> xr_status (failure_result p operation (normalize_failure (pw_kind p) e))
      | Inr w \<Rightarrow> if wf_status w = ''paused'' then WAITING else SUCCEEDED)"
  by (simp add: dispatch_end_def Let_def dispatch_result_status split: sum.split)

lemma dispatch_split:
  "\<exists>ctx s'. cp_runs s' = cp_runs s
     \<and> cp_runs (fst (dispatch sink p operation invoke r s)) = cp_runs (fst (invoke ctx s'))
     \<and> xr_status (snd (dispatch sink p operation invoke r s)) =
        (case snd (invoke ctx s') of
           Inl e \<Rightarrow> xr_status (failure_result p operation (normalize_failure (pw_kind p) e))
         | Inr w \<Rightarrow> if wf_status w = ''paused'' then WAITING else SUCCEEDED)"
proof -
  let ?ev = "if pw_lifecycle_owner p = ''control_plane'' then sink else None"
  let ?b = "dispatch_begin ?ev p r s"
  have d: "dispatch sink p operation invoke r s
      = dispatch_end ?ev p operation r (snd ?b) (invoke (snd ?b) (fst ?b))"
    by (simp add: dispatch_def Let_def split_beta)
  show ?thesis
    by (rule exI [of _ "snd ?b"], rule exI [of _ "fst ?b"],
        unfold d dispatch_end_status dispatch_end_runs dispatch_begin_runs) (intro conjI refl)
qed

lemma dispatch_status: "xr_status (snd (dispatch sink p operation invoke r s)) \<notin> {PENDING, RUNNING}"
proof -
  obtain ctx s' where "xr_status (snd (dispatch sink p operation invoke r s)) =
      (case snd (invoke ctx s') of
         Inl e \<Rightarrow> xr_status (failure_result p operation (normalize_failure (pw_kind p) e))
       | Inr w \<Rightarrow> if wf_status w = ''paused'' then WAITING else SUCCEEDED)"
    using dispatch_split [of s sink p operation invoke r] by blast
  moreover have "xr_status (failure_result p operation e) \<notin> {PENDING, RUNNING}" for e
    by (simp add: failure_result_def)
  ultimately show ?thesis by (cases "snd (invoke ctx s')") (simp_all split: if_splits)
qed

text \<open>An invocation that starts in a state leads to one in which the row is a later one.\<close>

definition keeps_path :: "int \<Rightarrow> ('c \<Rightarrow> cp_state \<Rightarrow> cp_state \<times> 'a) \<Rightarrow> bool" where
  "keeps_path pk f \<longleftrightarrow> (\<forall>ctx s r n. row s pk = Some r \<and> run_pk r = pk \<longrightarrow>
     (\<exists>r' n' as. row (fst (f ctx s)) pk = Some r' \<and> run_pk r' = pk \<and> run_path as (r, Suc n) (r', Suc n')))"

lemma dispatch_path:
  assumes "keeps_path pk invoke" and "row s pk = Some q" and "run_pk q = pk"
  shows "\<exists>r' n' as. row (fst (dispatch sink p operation invoke r s)) pk = Some r' \<and> run_pk r' = pk
    \<and> run_path as (q, Suc n) (r', Suc n')"
proof -
  obtain ctx s' where s': "cp_runs s' = cp_runs s"
    "cp_runs (fst (dispatch sink p operation invoke r s)) = cp_runs (fst (invoke ctx s'))"
    using dispatch_split [of s sink p operation invoke r] by blast
  have "row s' pk = Some q" using assms(2) s'(1) by simp
  then obtain r' n' as where "row (fst (invoke ctx s')) pk = Some r'" "run_pk r' = pk"
    "run_path as (q, Suc n) (r', Suc n')"
    using assms(1,3) unfolding keeps_path_def by blast
  then show ?thesis using s'(2) by metis
qed

text \<open>
  The row after an action is at the end of a path whose labels are in the language \<open>L\<close>: no step at
  all, the one of a cancellation, or the claim of an execution, whatever other actions do to the row
  while it runs, and its end.
\<close>

definition executes :: "run_label \<Rightarrow> run_label list set" where
  "executes a = {a # bs @ [z] | bs z. z \<in> {Build_Failure, Complete, Abandon}}"

definition follows :: "run_label list set \<Rightarrow> int \<Rightarrow> run \<times> nat \<Rightarrow> cp_state \<Rightarrow> bool" where
  "follows L pk x s \<longleftrightarrow> (\<exists>r' n' as. row s pk = Some r' \<and> run_pk r' = pk \<and> run_path as x (r', n') \<and> as \<in> L)"

lemma followsI: "row s pk = Some r' \<Longrightarrow> run_pk r' = pk \<Longrightarrow> run_path as x (r', n') \<Longrightarrow> as \<in> L \<Longrightarrow> follows L pk x s"
  unfolding follows_def by blast

lemma executesI: "z \<in> {Build_Failure, Complete, Abandon} \<Longrightarrow> (a # bs) @ [z] \<in> executes a"
  by (auto simp: executes_def)

lemma complete_action_follows:
  assumes "row s pk = Some q" and "run_pk q = pk" and "run_path (a # bs) x (q, Suc n)"
    and "xr_status e \<notin> {PENDING, RUNNING}"
  shows "follows (executes a) pk x (fst (complete_action pk e s))"
proof (rule followsI)
  show "row (fst (complete_action pk e s)) pk = Some (finalize_from_execution (cp_now s) e q)"
    using assms(1,2) by (simp add: complete_action_def locked_run_def Let_def)
  show "run_path ((a # bs) @ [Complete]) x (finalize_from_execution (cp_now s) e q, n)"
    by (rule path_step [OF assms(3) complete [OF assms(4)]])
qed (simp_all add: assms(2) executesI [simplified])

lemma build_failure_follows:
  assumes "row s pk = Some q" and "run_pk q = pk" and "run_path [a] x (q, Suc n)"
  shows "follows (executes a) pk x (fst (handle_runtime_build_failure env pk e s))"
proof (rule followsI)
  show "row (fst (handle_runtime_build_failure env pk e s)) pk
      = Some (transition_run (cp_now s) FAILED None None (safe_error e) q)"
    using assms(1,2) by (simp add: handle_runtime_build_failure_def locked_run_def Let_def)
  show "run_path ([a] @ [Build_Failure]) x (transition_run (cp_now s) FAILED None None (safe_error e) q, n)"
    by (rule path_step [OF assms(3) build_failure])
qed (simp_all add: assms(2) executes_def)

lemma dispatch_follows:
  assumes "keeps_path pk invoke" and "row s pk = Some q" and "run_pk q = pk" and "run_path [a] x (q, Suc n)"
  shows "follows (executes a) pk x
    (fst (case dispatch sink p operation invoke r s of (s, e) \<Rightarrow> complete_action pk e s))"
proof -
  obtain s' e where d: "dispatch sink p operation invoke r s = (s', e)" by force
  obtain r' n' bs where b: "row s' pk = Some r'" "run_pk r' = pk" "run_path bs (q, Suc n) (r', Suc n')"
    using dispatch_path [OF assms(1-3)] d by (metis fst_conv)
  have "xr_status e \<notin> {PENDING, RUNNING}"
    using dispatch_status [of sink p operation invoke r s] d by simp
  from complete_action_follows [OF b(1,2) path_trans [OF b(3) assms(4), simplified] this]
  show ?thesis by (simp add: d)
qed

text \<open>Workflow objects whose methods, while they run, only take steps on the row.\<close>

definition keeps_rows :: "int \<Rightarrow> action_env \<Rightarrow> bool" where
  "keeps_rows pk env \<longleftrightarrow> (\<forall>ref p. ae_prepare env ref = Inr p \<longrightarrow>
     (\<forall>payload. keeps_path pk (\<lambda>ctx. execute_workflow (pw_object p) payload (Some ctx)))
     \<and> (\<forall>rq. keeps_path pk (\<lambda>ctx. resume_workflow (pw_object p) rq (Some ctx))))"

lemma prepare_keeps_rows:
  "keeps_rows pk env \<Longrightarrow> prepare_workflow_for_run env r = Inr p \<Longrightarrow>
     keeps_path pk (\<lambda>ctx. execute_workflow (pw_object p) payload (Some ctx))
     \<and> keeps_path pk (\<lambda>ctx. resume_workflow (pw_object p) rq (Some ctx))"
  unfolding prepare_workflow_for_run_def keeps_rows_def r_bind_eq_Inr
  by (auto split: option.splits)

lemma claim_run_Inr:
  assumes "claim_run policy step pk s = Inr (s', r')" and "row s pk = Some r"
  shows "pr_allowed (policy r) \<and> r' = step (cp_now s) r \<and> s' = save_run r' s"
  using assms by (auto simp: claim_run_def locked_run_def policy_or_raise_def r_simps Let_def)

lemma claim_run_Inl:
  assumes "claim_run policy step pk s = Inl e" and "row s pk = Some r" and "run_pk r = pk"
  shows "\<not> pr_allowed (policy r)"
  using assms by (auto simp: claim_run_def locked_run_def policy_or_raise_def r_simps Let_def split: if_splits)

text \<open>The states from which an action is taken, and the permission it asks for.\<close>

definition permitted :: "action_env \<Rightarrow> string \<Rightarrow> bool" where
  "permitted env codename = pr_allowed (policy_permission (ae_require_login env) (ae_actor env) codename)"

lemma policies_allow:
  "pr_allowed (can_start_run (ae_require_login env) (ae_actor env) r)
     \<longleftrightarrow> run_state r = PENDING \<and> permitted env ''start_run''"
  "pr_allowed (can_resume_run (ae_require_login env) (ae_actor env) r)
     \<longleftrightarrow> run_state r = WAITING \<and> permitted env ''resume_run''"
  "pr_allowed (can_retry_run (ae_require_login env) (ae_actor env) r)
     \<longleftrightarrow> run_state r \<in> {FAILED, TIMED_OUT, CANCELLED} \<and> permitted env ''retry_run''"
  "pr_allowed (can_cancel_run (ae_require_login env) (ae_actor env) r)
     \<longleftrightarrow> run_state r \<in> {PENDING, RUNNING, WAITING} \<and> permitted env ''cancel_run''"
  by (auto simp: can_start_run_def can_resume_run_def can_retry_run_def can_cancel_run_def
      policy_combine_def policy_check_def permitted_def)

text \<open>The language of an action that claims the run: one execution where the policy allows it.\<close>

definition claimed_by :: "run_label \<Rightarrow> policy_result \<Rightarrow> run_label list set" where
  "claimed_by a policy = (if pr_allowed policy then executes a else {[]})"

lemma claimed_by_simps [simp]:
  "pr_allowed policy \<Longrightarrow> claimed_by a policy = executes a"
  "\<not> pr_allowed policy \<Longrightarrow> claimed_by a policy = {[]}"
  by (simp_all add: claimed_by_def)

lemma unchanged_follows: "row s pk = Some r \<Longrightarrow> run_pk r = pk \<Longrightarrow> follows {[]} pk (r, n) s"
  by (rule followsI [OF _ _ path_refl]) simp_all

lemma abandoned_follows:
  "run_step a (r, n) (r', Suc n) \<Longrightarrow> row s pk = Some r' \<Longrightarrow> run_pk r' = pk \<Longrightarrow> follows (executes a) pk (r, n) s"
  by (rule followsI [OF _ _ path_step [OF path_one abandon]]) (simp_all add: executes_def)

text \<open>After the claim: a failed preparation, or the execution, or an exception that escapes.\<close>

lemma start_run_follows:
  assumes "keeps_rows pk env" and "row s pk = Some r" and "run_pk r = pk"
  shows "follows (claimed_by Start (can_start_run (ae_require_login env) (ae_actor env) r)) pk (r, n) (fst (start_run env pk s))"
proof (cases "claim_run (can_start_run (ae_require_login env) (ae_actor env))
    (\<lambda>now r. transition_run now RUNNING
       (Some (if run_thread_id r \<noteq> [] then run_thread_id r else ''run-'' @ int_text (run_pk r)))
       None [] r) pk s")
  case (Inl e)
  then show ?thesis using assms unchanged_follows claim_run_Inl [OF Inl] by (simp add: start_run_def)
next
  case (Inr q)
  obtain s1 r1 where q: "q = (s1, r1)" by force
  note c = claim_run_Inr [OF Inr [unfolded q] assms(2)]
  have r1: "row s1 pk = Some r1" "run_pk r1 = pk" using c assms(3) by auto
  have step: "run_step Start (r, n) (r1, Suc n)"
    using c policies_allow(1) start by blast
  have allowed: "claimed_by Start (can_start_run (ae_require_login env) (ae_actor env) r) = executes Start"
    using c by simp
  note path = path_one [OF step]
  show ?thesis
  proof (cases "prepare_workflow_for_run env r1")
    case (Inl e)
    then have e: "start_run env pk s =
        (if runtime_failure e then handle_runtime_build_failure env pk e s1 else (s1, Inl e))"
      using Inr q unfolding start_run_def by simp
    show ?thesis
      unfolding e allowed using build_failure_follows [OF r1 path] abandoned_follows [OF step r1] by simp
  next
    case p: (Inr p)
    then have e: "start_run env pk s = execute_for_run env p r1 s1"
      using Inr q unfolding start_run_def by simp
    show ?thesis
      unfolding e allowed execute_for_run_def using r1(2)
        dispatch_follows [OF _ r1 path] prepare_keeps_rows [OF assms(1) p] by simp
  qed
qed

lemma retry_run_follows:
  assumes "keeps_rows pk env" and "row s pk = Some r" and "run_pk r = pk"
  shows "follows (claimed_by Retry (can_retry_run (ae_require_login env) (ae_actor env) r)) pk (r, n) (fst (retry_run env pk s))"
proof (cases "claim_run (can_retry_run (ae_require_login env) (ae_actor env))
    (\<lambda>now r. transition_run now RUNNING None None [] r) pk s")
  case (Inl e)
  then show ?thesis using assms unchanged_follows claim_run_Inl [OF Inl] by (simp add: retry_run_def)
next
  case (Inr q)
  obtain s1 r1 where q: "q = (s1, r1)" by force
  note c = claim_run_Inr [OF Inr [unfolded q] assms(2)]
  have r1: "row s1 pk = Some r1" "run_pk r1 = pk" using c assms(3) by auto
  have step: "run_step Retry (r, n) (r1, Suc n)"
    using c policies_allow(3) retry by blast
  have allowed: "claimed_by Retry (can_retry_run (ae_require_login env) (ae_actor env) r) = executes Retry"
    using c by simp
  note path = path_one [OF step]
  show ?thesis
  proof (cases "prepare_workflow_for_run env r1")
    case (Inl e)
    then have e: "retry_run env pk s =
        (if runtime_failure e then handle_runtime_build_failure env pk e s1 else (s1, Inl e))"
      using Inr q unfolding retry_run_def by simp
    show ?thesis
      unfolding e allowed using build_failure_follows [OF r1 path] abandoned_follows [OF step r1] by simp
  next
    case p: (Inr p)
    then have e: "retry_run env pk s = execute_for_run env p r1 s1"
      using Inr q unfolding retry_run_def by simp
    show ?thesis
      unfolding e allowed execute_for_run_def using r1(2)
        dispatch_follows [OF _ r1 path] prepare_keeps_rows [OF assms(1) p] by simp
  qed
qed

lemma resume_run_follows:
  assumes "keeps_rows pk env" and "row s pk = Some r" and "run_pk r = pk"
  shows "follows (claimed_by Resume (can_resume_run (ae_require_login env) (ae_actor env) r)) pk (r, n) (fst (resume_run env pk value cid s))"
proof (cases "claim_run (can_resume_run (ae_require_login env) (ae_actor env))
    (\<lambda>now r. transition_run now RUNNING None None [] r) pk s")
  case (Inl e)
  then show ?thesis using assms unchanged_follows claim_run_Inl [OF Inl] by (simp add: resume_run_def)
next
  case (Inr q)
  obtain s1 r1 where q: "q = (s1, r1)" by force
  note c = claim_run_Inr [OF Inr [unfolded q] assms(2)]
  have r1: "row s1 pk = Some r1" "run_pk r1 = pk" using c assms(3) by auto
  have step: "run_step Resume (r, n) (r1, Suc n)"
    using c policies_allow(2) resume by blast
  have allowed: "claimed_by Resume (can_resume_run (ae_require_login env) (ae_actor env) r) = executes Resume"
    using c by simp
  note path = path_one [OF step]
  show ?thesis
  proof (cases "prepare_workflow_for_run env r1")
    case (Inl e)
    then have e: "resume_run env pk value cid s =
        (if runtime_failure e then handle_runtime_build_failure env pk e s1 else (s1, Inl e))"
      using Inr q unfolding resume_run_def by simp
    show ?thesis
      unfolding e allowed using build_failure_follows [OF r1 path] abandoned_follows [OF step r1] by simp
  next
    case p: (Inr p)
    show ?thesis
    proof (cases "WorkflowResumeRequest value cid")
      case (Inl e)
      then have "resume_run env pk value cid s = (s1, Inl e)"
        using Inr q p unfolding resume_run_def by simp
      then show ?thesis using abandoned_follows [OF step r1] allowed by simp
    next
      case rq: (Inr rq)
      then have e: "resume_run env pk value cid s =
          (case dispatch (ae_sink env (run_pk r1)) p ''resume''
             (\<lambda>ctx. resume_workflow (pw_object p) rq (Some ctx)) r1 s1 of
            (s, x) \<Rightarrow> complete_action pk x s)"
        using Inr q p r1(2) unfolding resume_run_def by simp
      show ?thesis
        unfolding e allowed using dispatch_follows [OF _ r1 path] prepare_keeps_rows [OF assms(1) p] by simp
    qed
  qed
qed

lemma cancel_run_follows:
  assumes "row s pk = Some r" and "run_pk r = pk"
  shows "follows (if pr_allowed (can_cancel_run (ae_require_login env) (ae_actor env) r) then {[Cancel]} else {[]})
    pk (r, n) (fst (cancel_run env pk s))"
proof (cases "pr_allowed (can_cancel_run (ae_require_login env) (ae_actor env) r)")
  case True
  let ?r = "transition_run (cp_now (fst (request_cancellation pk s))) CANCELLED None None [] r"
  have "row (fst (cancel_run env pk s)) pk = Some ?r"
    using True assms
    by (simp add: cancel_run_def locked_run_def policy_or_raise_def Let_def split: option.split)
  moreover have "run_step Cancel (r, n) (?r, n)"
    using True policies_allow(4) cancel by blast
  moreover have "run_pk ?r = pk" using assms(2) by simp
  ultimately show ?thesis using True followsI [OF _ _ path_one, of _ _ _ Cancel] by simp
next
  case False
  then show ?thesis
    using assms unchanged_follows by (simp add: cancel_run_def locked_run_def policy_or_raise_def)
qed

section \<open>Where an action leaves the run\<close>

text \<open>The last transaction sets the status of the execution whatever the row says by then.\<close>

lemma complete_action_overwrites:
  "row s pk = Some q \<Longrightarrow> run_pk q = pk \<Longrightarrow>
     \<exists>r. row (fst (complete_action pk x s)) pk = Some r \<and> run_state r = xr_status x
       \<and> run_error r = (if xr_status x \<in> {FAILED, TIMED_OUT}
           then safe_run_error_message ''Error'' (xr_error x) else run_error q)"
  by (simp add: complete_action_def locked_run_def Let_def finalize_error)

lemma resume_blank_checkpoint:
  assumes "row s pk = Some r" and "run_pk r = pk"
    and "pr_allowed (can_resume_run (ae_require_login env) (ae_actor env) r)"
    and "\<And>now. prepare_workflow_for_run env (transition_run now RUNNING None None [] r) = Inr p"
    and "strip cid = []"
  shows "snd (resume_run env pk value (Some cid) s)
      = Inl (PlainExn ValueError_cls ''checkpoint_id must not be blank'')"
    and "\<exists>q. row (fst (resume_run env pk value (Some cid) s)) pk = Some q \<and> run_state q = RUNNING"
    and "cp_active (fst (resume_run env pk value (Some cid) s)) = cp_active s"
  using assms
  by (auto simp: resume_run_def claim_run_def locked_run_def policy_or_raise_def Let_def
      WorkflowResumeRequest_def save_run_def map_of_dict_set_iff)

text \<open>Finishing one execution of a run drops the control of another one of the same run.\<close>

lemma finish_drops_other_control:
  "snd (request_cancellation pk (finish_execution_control pk
     (fst (begin_execution_control pk d2 (fst (begin_execution_control pk d1 s)))))) = False"
  by (simp add: request_cancellation_def finish_execution_control_def map_of_dict_pop)

lemma request_cancellation_reaches:
  "is_cancelled (cp_flags (fst (request_cancellation pk (fst (begin_execution_control pk d s)))))
    (snd (begin_execution_control pk d s))"
  by (simp add: request_cancellation_def begin_execution_control_def is_cancelled_def Let_def
      map_of_dict_set_iff)

end
