(* ===== verification/Jobs.thy ===== *)
theory Jobs
  imports Run_Lifecycle
begin

text \<open>
  The execution job table (models/job.py) and the operations of services/jobs.py on it: enqueue,
  claim, heartbeat, recovery of stale claims and execution, with the dispatch of run operations
  (services/dispatch.py) that enqueues or runs inline. The table is kept in the order of its
  primary keys; \<open>order_by("created_at").first()\<close> takes the earliest row, of rows created at
  the same time the one with the smallest key.
\<close>

section \<open>The table\<close>

datatype job_status = Job_Queued | Job_Claimed | Job_Succeeded | Job_Failed | Job_Cancelled

datatype job_operation = Op_Start | Op_Resume | Op_Retry

record job =
  job_pk :: int
  job_run :: int
  job_operation :: job_operation
  job_status :: job_status
  job_payload :: pyitems
  job_checkpoint_id :: string
  job_worker_id :: string
  job_attempts :: nat
  job_available :: rat
  job_claimed :: "rat option"
  job_heartbeat :: "rat option"
  job_finished :: "rat option"
  job_error :: string
  job_created :: rat

record job_state =
  js_jobs :: "job list"
  js_next_pk :: int
  js_cp :: cp_state

abbreviation "js_now s \<equiv> cp_now (js_cp s)"

definition job_active :: "job \<Rightarrow> bool" where
  "job_active j = (job_status j \<in> {Job_Queued, Job_Claimed})"

text \<open>The constraint \<open>one_active_execution_job_per_run\<close>.\<close>

definition one_active_per_run :: "job list \<Rightarrow> bool" where
  "one_active_per_run jobs = distinct (map job_run (filter job_active jobs))"

definition update_job :: "int \<Rightarrow> (job \<Rightarrow> job) \<Rightarrow> job list \<Rightarrow> job list" where
  "update_job pk f jobs = map (\<lambda>j. if job_pk j = pk then f j else j) jobs"

section \<open>Operations\<close>

fun operation_of :: "string \<Rightarrow> job_operation option" where
  "operation_of s = (if s = ''start'' then Some Op_Start else if s = ''resume'' then Some Op_Resume
     else if s = ''retry'' then Some Op_Retry else None)"

definition enqueue_execution_job ::
  "int \<Rightarrow> string \<Rightarrow> pyitems option \<Rightarrow> string option \<Rightarrow> job_state \<Rightarrow> job_state \<times> job res" where
  "enqueue_execution_job run operation payload checkpoint_id s =
     (case operation_of operation of
        None \<Rightarrow> (s, Inl (PlainExn ValueError_cls ''unsupported execution job operation''))
      | Some op \<Rightarrow>
          (let j = \<lparr>job_pk = js_next_pk s, job_run = run, job_operation = op, job_status = Job_Queued,
                 job_payload = (case payload of None \<Rightarrow> [] | Some p \<Rightarrow> p),
                 job_checkpoint_id = (case checkpoint_id of None \<Rightarrow> [] | Some c \<Rightarrow> c),
                 job_worker_id = [], job_attempts = 0, job_available = js_now s, job_claimed = None,
                 job_heartbeat = None, job_finished = None, job_error = [], job_created = js_now s\<rparr>;
               jobs = js_jobs s @ [j]
           in if one_active_per_run jobs
              then (s\<lparr>js_jobs := jobs, js_next_pk := js_next_pk s + 1\<rparr>, Inr j)
              else (s, Inl (PlainExn (Other_cls ''IntegrityError'')
                ''duplicate key value violates unique constraint one_active_execution_job_per_run''))))"

definition claimable :: "rat \<Rightarrow> job \<Rightarrow> bool" where
  "claimable now j = (job_status j = Job_Queued \<and> job_available j \<le> now)"

definition claim_next_job :: "string \<Rightarrow> string option \<Rightarrow> job_state \<Rightarrow> job_state \<times> job option" where
  "claim_next_job hostname worker_id s =
     (let identity = take 255 (case worker_id of None \<Rightarrow> hostname
            | Some w \<Rightarrow> if w = [] then hostname else w)
      in case sort_key job_created (filter (claimable (js_now s)) (js_jobs s)) of
           [] \<Rightarrow> (s, None)
         | j # _ \<Rightarrow>
             (let claim = (\<lambda>j. j\<lparr>job_status := Job_Claimed, job_worker_id := identity,
                    job_claimed := Some (js_now s), job_heartbeat := Some (js_now s),
                    job_attempts := Suc (job_attempts j)\<rparr>)
              in (s\<lparr>js_jobs := update_job (job_pk j) claim (js_jobs s)\<rparr>, Some (claim j))))"

definition heartbeat_job :: "int \<Rightarrow> job_state \<Rightarrow> job_state" where
  "heartbeat_job pk s =
     s\<lparr>js_jobs := map (\<lambda>j. if job_pk j = pk \<and> job_status j = Job_Claimed
         then j\<lparr>job_heartbeat := Some (js_now s)\<rparr> else j) (js_jobs s)\<rparr>"

definition stale_job :: "rat \<Rightarrow> job \<Rightarrow> bool" where
  "stale_job cutoff j =
     (job_status j = Job_Claimed \<and> (case job_heartbeat j of None \<Rightarrow> False | Some h \<Rightarrow> h < cutoff))"

definition recover_stale_jobs :: "rat \<Rightarrow> job_state \<Rightarrow> job_state \<times> nat" where
  "recover_stale_jobs stale_after_seconds s =
     (let cutoff = js_now s - stale_after_seconds
      in (s\<lparr>js_jobs := map (\<lambda>j. if stale_job cutoff j
             then j\<lparr>job_status := Job_Queued, job_worker_id := [], job_claimed := None,
               job_heartbeat := None, job_available := js_now s\<rparr>
             else j) (js_jobs s)\<rparr>,
          length (filter (stale_job cutoff) (js_jobs s))))"

text \<open>
  \<open>execute_job\<close> works on the job object its caller claimed; saving updates the status, message
  and finishing time of the row with its key.
\<close>

definition run_job :: "action_env \<Rightarrow> job \<Rightarrow> cp_state \<Rightarrow> cp_state \<times> unit res" where
  "run_job env j cp =
     (case locked_run (job_run j) cp of
        Inl e \<Rightarrow> (cp, Inl e)
      | Inr r \<Rightarrow>
          (case (case job_operation j of
               Op_Start \<Rightarrow> start_run env (run_pk r) cp
             | Op_Resume \<Rightarrow> resume_run env (run_pk r) (job_payload j)
                 (if job_checkpoint_id j = [] then None else Some (job_checkpoint_id j)) cp
             | Op_Retry \<Rightarrow> retry_run env (run_pk r) cp) of
             (cp, res) \<Rightarrow> (cp, r_bind res (\<lambda>_. Inr ()))))"

definition finish_job :: "job_status \<Rightarrow> string \<Rightarrow> rat \<Rightarrow> job \<Rightarrow> job" where
  "finish_job status message now j =
     j\<lparr>job_status := status, job_error := message, job_finished := Some now\<rparr>"

definition execute_job :: "action_env \<Rightarrow> job \<Rightarrow> job_state \<Rightarrow> job_state \<times> job" where
  "execute_job env j s =
     (case run_job env j (js_cp s) of (cp, outcome) \<Rightarrow>
        let finish = (case outcome of
              Inr _ \<Rightarrow> finish_job Job_Succeeded [] (cp_now cp)
            | Inl e \<Rightarrow> finish_job Job_Failed (take 500 (safe_error e)) (cp_now cp))
        in (s\<lparr>js_jobs := update_job (job_pk j) finish (js_jobs s), js_cp := cp\<rparr>, finish j))"

text \<open>The actor of an inline dispatch is in the environment; a job runs without one.\<close>

definition worker_mode_enabled :: "string \<Rightarrow> bool" where
  "worker_mode_enabled execution_mode = (lower (strip execution_mode) = ''worker'')"

datatype dispatched = Dispatched_Result action_result | Dispatched_Job job

definition inline :: "(cp_state \<Rightarrow> cp_state \<times> action_result res) \<Rightarrow> job_state \<Rightarrow> job_state \<times> dispatched res" where
  "inline action s = (case action (js_cp s) of
     (cp, res) \<Rightarrow> (s\<lparr>js_cp := cp\<rparr>, r_bind res (\<lambda>x. Inr (Dispatched_Result x))))"

definition enqueued :: "job_state \<times> job res \<Rightarrow> job_state \<times> dispatched res" where
  "enqueued x = (fst x, r_bind (snd x) (\<lambda>j. Inr (Dispatched_Job j)))"

definition dispatch_start :: "string \<Rightarrow> action_env \<Rightarrow> int \<Rightarrow> job_state \<Rightarrow> job_state \<times> dispatched res" where
  "dispatch_start execution_mode env run s =
     (if worker_mode_enabled execution_mode then enqueued (enqueue_execution_job run ''start'' None None s)
      else inline (start_run env run) s)"

definition dispatch_resume ::
  "string \<Rightarrow> action_env \<Rightarrow> int \<Rightarrow> pyitems \<Rightarrow> string option \<Rightarrow> job_state \<Rightarrow> job_state \<times> dispatched res" where
  "dispatch_resume execution_mode env run payload checkpoint_id s =
     (if worker_mode_enabled execution_mode
      then enqueued (enqueue_execution_job run ''resume'' (Some payload) checkpoint_id s)
      else inline (resume_run env run payload checkpoint_id) s)"

definition dispatch_retry :: "string \<Rightarrow> action_env \<Rightarrow> int \<Rightarrow> job_state \<Rightarrow> job_state \<times> dispatched res" where
  "dispatch_retry execution_mode env run s =
     (if worker_mode_enabled execution_mode then enqueued (enqueue_execution_job run ''retry'' None None s)
      else inline (retry_run env run) s)"

definition dispatch_cancel :: "action_env \<Rightarrow> int \<Rightarrow> job_state \<Rightarrow> job_state \<times> dispatched res" where
  "dispatch_cancel env run s = inline (cancel_run env run) s"

section \<open>The constraint and the keys are kept\<close>

definition job_inv :: "job_state \<Rightarrow> bool" where
  "job_inv s \<longleftrightarrow> distinct (map job_pk (js_jobs s)) \<and> (\<forall>j \<in> set (js_jobs s). job_pk j < js_next_pk s)
     \<and> one_active_per_run (js_jobs s)"

lemma one_active_map:
  assumes "\<And>j. j \<in> set jobs \<Longrightarrow> job_run (f j) = job_run j \<and> (job_active (f j) \<longrightarrow> job_active j)"
    and "one_active_per_run jobs"
  shows "one_active_per_run (map f jobs)"
  using assms
proof (induction jobs)
  case (Cons j jobs)
  have sub: "job_run ` set (filter job_active (map f js)) \<subseteq> job_run ` set (filter job_active js)"
    if "\<And>j. j \<in> set js \<Longrightarrow> job_run (f j) = job_run j \<and> (job_active (f j) \<longrightarrow> job_active j)" for js
    using that by force
  have ih: "one_active_per_run (map f jobs)"
    using Cons by (auto simp: one_active_per_run_def split: if_splits)
  have "job_run (f j) \<notin> job_run ` set (filter job_active (map f jobs))" if "job_active (f j)"
    using that Cons.prems sub [of jobs] by (auto simp: one_active_per_run_def)
  then show ?case using ih by (auto simp: one_active_per_run_def)
qed (simp add: one_active_per_run_def)

lemma job_inv_map:
  assumes "job_inv s"
    and "\<And>j. j \<in> set (js_jobs s) \<Longrightarrow>
        job_pk (f j) = job_pk j \<and> job_run (f j) = job_run j \<and> (job_active (f j) \<longrightarrow> job_active j)"
  shows "job_inv (s\<lparr>js_jobs := map f (js_jobs s)\<rparr>)"
proof -
  have "map job_pk (map f (js_jobs s)) = map job_pk (js_jobs s)" using assms(2) by simp
  then have "distinct (map job_pk (map f (js_jobs s)))"
    using assms(1) unfolding job_inv_def by metis
  moreover have "one_active_per_run (map f (js_jobs s))"
    using assms by (intro one_active_map) (auto simp: job_inv_def)
  moreover have "\<forall>j \<in> set (map f (js_jobs s)). job_pk j < js_next_pk s"
    using assms unfolding job_inv_def by auto
  ultimately show ?thesis
    unfolding job_inv_def by simp
qed

lemma job_inv_cp [simp]: "job_inv (s\<lparr>js_cp := cp\<rparr>) = job_inv s"
  by (simp add: job_inv_def)

lemma enqueue_inv: "job_inv s \<Longrightarrow> job_inv (fst (enqueue_execution_job run op payload cid s))"
proof (cases "operation_of op")
  case (Some x)
  assume inv: "job_inv s"
  then have "js_next_pk s \<notin> job_pk ` set (js_jobs s)" unfolding job_inv_def by auto
  moreover have "\<forall>j \<in> set (js_jobs s). job_pk j < js_next_pk s + 1"
    using inv unfolding job_inv_def by (metis less_add_one order_less_trans)
  ultimately show ?thesis
    using Some inv unfolding enqueue_execution_job_def Let_def job_inv_def by simp
qed (simp add: enqueue_execution_job_def)

lemma claim_candidate:
  assumes "sort_key job_created (filter (claimable now) jobs) = j # js"
  shows "j \<in> set jobs \<and> claimable now j \<and> (\<forall>k \<in> set jobs. claimable now k \<longrightarrow> job_created j \<le> job_created k)"
proof -
  have "set (j # js) = set (filter (claimable now) jobs)" using assms by (metis set_sort)
  moreover have "sorted (map job_created (j # js))" using assms by (metis sorted_sort_key)
  ultimately show ?thesis by auto
qed

lemma claim_inv: "job_inv s \<Longrightarrow> job_inv (fst (claim_next_job h w s))"
proof (cases "sort_key job_created (filter (claimable (js_now s)) (js_jobs s))")
  case (Cons j js)
  assume inv: "job_inv s"
  have j: "j \<in> set (js_jobs s)" "job_status j = Job_Queued"
    using claim_candidate [OF Cons] by (auto simp: claimable_def)
  have same: "k = j" if "k \<in> set (js_jobs s)" "job_pk k = job_pk j" for k
    using inv j(1) that by (auto simp: job_inv_def distinct_map inj_on_def)
  show ?thesis
    unfolding claim_next_job_def Let_def Cons list.case fst_conv update_job_def
    by (rule job_inv_map [OF inv]) (use same j in \<open>auto simp: job_active_def\<close>)
qed (simp add: claim_next_job_def)

lemma heartbeat_inv: "job_inv s \<Longrightarrow> job_inv (heartbeat_job pk s)"
  unfolding heartbeat_job_def by (rule job_inv_map) (auto simp: job_active_def)

lemma recover_inv: "job_inv s \<Longrightarrow> job_inv (fst (recover_stale_jobs n s))"
  unfolding recover_stale_jobs_def Let_def fst_conv
  by (rule job_inv_map) (auto simp: job_active_def stale_job_def)

lemma execute_inv: "job_inv s \<Longrightarrow> job_inv (fst (execute_job env j s))"
proof -
  assume inv: "job_inv s"
  obtain cp outcome where r: "run_job env j (js_cp s) = (cp, outcome)" by force
  obtain st m where st: "fst (execute_job env j s)
      = (s\<lparr>js_jobs := update_job (job_pk j) (finish_job st m (cp_now cp)) (js_jobs s), js_cp := cp\<rparr>)"
    "st \<in> {Job_Succeeded, Job_Failed}"
    unfolding execute_job_def r Let_def by (cases outcome) auto
  have "job_inv (s\<lparr>js_jobs := update_job (job_pk j) (finish_job st m (cp_now cp)) (js_jobs s)\<rparr>)"
    unfolding update_job_def
    by (rule job_inv_map [OF inv]) (use st(2) in \<open>auto simp: finish_job_def job_active_def\<close>)
  then have "job_inv (s\<lparr>js_jobs := update_job (job_pk j) (finish_job st m (cp_now cp)) (js_jobs s)\<rparr>
      \<lparr>js_cp := cp\<rparr>)" by simp
  then show ?thesis unfolding st(1) .
qed

section \<open>Claims\<close>

lemma update_job_same_length [simp]: "length (update_job pk f jobs) = length jobs"
  by (simp add: update_job_def)

lemma claim_takes_oldest:
  assumes "claim_next_job h w s = (s', Some c)"
  shows "\<exists>j \<in> set (js_jobs s). claimable (js_now s) j \<and> job_pk c = job_pk j
    \<and> (\<forall>k \<in> set (js_jobs s). claimable (js_now s) k \<longrightarrow> job_created j \<le> job_created k)
    \<and> job_attempts c = Suc (job_attempts j) \<and> job_status c = Job_Claimed"
proof (cases "sort_key job_created (filter (claimable (js_now s)) (js_jobs s))")
  case (Cons j js)
  then have "c = j\<lparr>job_status := Job_Claimed,
      job_worker_id := take 255 (case w of None \<Rightarrow> h | Some w \<Rightarrow> if w = [] then h else w),
      job_claimed := Some (js_now s), job_heartbeat := Some (js_now s),
      job_attempts := Suc (job_attempts j)\<rparr>"
    using assms by (simp add: claim_next_job_def Let_def)
  then show ?thesis using claim_candidate [OF Cons] by auto
qed (use assms in \<open>simp add: claim_next_job_def\<close>)

text \<open>Two claims in a row never return the same job.\<close>

lemma claim_marks:
  assumes "claim_next_job h w s = (s', Some c)" and "j \<in> set (js_jobs s')" and "job_pk j = job_pk c"
  shows "job_status j = Job_Claimed"
proof (cases "sort_key job_created (filter (claimable (js_now s)) (js_jobs s))")
  case (Cons k js)
  then show ?thesis
    using assms by (auto simp: claim_next_job_def Let_def update_job_def split: if_splits)
qed (use assms in \<open>simp add: claim_next_job_def\<close>)

lemma claims_differ:
  assumes "claim_next_job h w s = (s', Some c)" and "claim_next_job h' w' s' = (s'', Some d)"
  shows "job_pk c \<noteq> job_pk d"
proof
  assume eq: "job_pk c = job_pk d"
  obtain j where "j \<in> set (js_jobs s')" "claimable (js_now s') j" "job_pk d = job_pk j"
    using claim_takes_oldest [OF assms(2)] by blast
  then show False using claim_marks [OF assms(1), of j] eq by (simp add: claimable_def)
qed

end
