(* ===== verification/Control_Properties.thy ===== *)
theory Control_Properties
  imports Jobs
begin

text \<open>
  The properties of the control plane: the life of a run under its actions, the execution control, the
  workflow adapter and the job queue.
\<close>

definition sample_run :: run where
  "sample_run = \<lparr>run_pk = 1, run_workflow_id = 1, run_definition = PNone, run_state = PENDING,
     run_thread_id = [], run_input = [], run_output = [], run_error = [], run_started = None,
     run_finished = None, run_updated = 0\<rparr>"

text \<open>
  C34. Start, cancel, resume and retry move the row of a run only along the run's state machine, each by
  its own step: start by the one from pending, resume by the one from waiting, retry by the one from a
  failed, timed out or cancelled run, each followed by what other actions do while the workflow runs
  and by the end of that execution (its completion, the failure of its preparation, or an exception
  that abandons it), and cancel by the one step from an active run. From any other
  state, and where the actor lacks the permission, the row stays as it is. The hypothesis is that,
  while the workflow's own code runs, the row takes only steps of the machine.
\<close>

theorem actions_follow_the_run_machine:
  assumes "keeps_rows pk env" and "row s pk = Some r" and "run_pk r = pk"
  shows "follows (if run_state r = PENDING \<and> permitted env ''start_run'' then executes Start else {[]})
      pk (r, n) (fst (start_run env pk s))
    \<and> follows (if run_state r \<in> {PENDING, RUNNING, WAITING} \<and> permitted env ''cancel_run'' then {[Cancel]} else {[]})
      pk (r, n) (fst (cancel_run env pk s))
    \<and> follows (if run_state r = WAITING \<and> permitted env ''resume_run'' then executes Resume else {[]})
      pk (r, n) (fst (resume_run env pk value cid s))
    \<and> follows (if run_state r \<in> {FAILED, TIMED_OUT, CANCELLED} \<and> permitted env ''retry_run'' then executes Retry else {[]})
      pk (r, n) (fst (retry_run env pk s))"
  using start_run_follows [OF assms, where n = n] cancel_run_follows [OF assms(2,3), where n = n and env = env]
    resume_run_follows [OF assms, of n "value" cid] retry_run_follows [OF assms, where n = n]
  unfolding claimed_by_def policies_allow by (intro conjI)

definition echo_object :: "cp_state workflow_object" where
  "echo_object = \<lparr>wo_execute = None, wo_invoke = None,
     wo_call = Some (\<lambda>payload s. (s, Inr (Raw_Value (PDict payload)))), wo_resume = None\<rparr>"

definition echo_prepared :: prepared_workflow where
  "echo_prepared = \<lparr>pw_kind = ''demo'', pw_object = echo_object, pw_lifecycle_owner = ''control_plane'',
     pw_timeout = None, pw_generation = 1, pw_signature = []\<rparr>"

definition echo_env :: action_env where
  "echo_env = \<lparr>ae_require_login = False, ae_actor = None, ae_prepare = (\<lambda>_. Inr echo_prepared),
     ae_sink = (\<lambda>_. None)\<rparr>"

definition sample_state :: "run \<Rightarrow> cp_state" where
  "sample_state r = \<lparr>cp_runs = [(1, r)], cp_active = [], cp_flags = {}, cp_next_event = 0, cp_now = 5,
     cp_monotonic = 0, cp_events = []\<rparr>"

lemma keeps_path_unchanged: "(\<And>ctx s. fst (f ctx s) = s) \<Longrightarrow> keeps_path pk f"
  unfolding keeps_path_def using path_refl by metis

lemma echo_keeps_rows: "keeps_rows 1 echo_env"
  unfolding keeps_rows_def
  by (auto simp: echo_env_def echo_prepared_def execute_workflow_def resume_workflow_def adapt_result_def
      echo_object_def intro!: keeps_path_unchanged)

theorem actions_follow_the_run_machine_witness:
  "follows (executes Start) 1 (sample_run, 0) (fst (start_run echo_env 1 (sample_state sample_run)))"
  using actions_follow_the_run_machine [OF echo_keeps_rows, of "sample_state sample_run" sample_run 0]
  by (simp add: sample_state_def sample_run_def permitted_def policy_permission_def echo_env_def)

text \<open>
  C35. On every path of that machine from a fresh run: a pending run has not started and has no
  execution in flight, a running or waiting one has a start time, a finished one a finishing time, and
  the start time never changes; and where no run is cancelled or abandoned under way, exactly one
  execution is in flight while the run is running and none otherwise.
\<close>

theorem reachable_runs_are_consistent:
  assumes "run_path as (r0, 0) (r, n)" and "run_state r0 = PENDING" and "run_started r0 = None"
    and "run_finished r0 = None"
  shows "run_inv (r, n)
    \<and> (run_path bs (r, n) (r', n') \<longrightarrow> run_started r \<noteq> None \<longrightarrow> run_started r' = run_started r)
    \<and> (set as \<inter> {Cancel, Abandon} = {} \<longrightarrow> n = (if run_state r = RUNNING then 1 else 0))"
proof -
  have "run_inv (r0, 0)" using assms(2-4) by (simp add: run_inv_def is_terminal_state_def is_terminal_status_def)
  moreover have "run_exclusive (r0, 0)" using assms(2) by (simp add: run_exclusive_def)
  ultimately show ?thesis
    using run_path_inv [OF assms(1)] run_path_exclusive [OF assms(1)] run_path_started [of bs "(r, n)" "(r', n')"]
    by (auto simp: run_exclusive_def)
qed

theorem reachable_runs_are_consistent_witness:
  "run_inv (transition_run 5 RUNNING (Some ''run-1'') None [] sample_run, 1)"
proof -
  have "run_path [Start] (sample_run, 0) (transition_run 5 RUNNING (Some ''run-1'') None [] sample_run, Suc 0)"
    by (rule path_one, rule start) (simp add: sample_run_def)
  from reachable_runs_are_consistent [OF this] show ?thesis by (simp add: sample_run_def)
qed

text \<open>
  C36. A cancellation does not stick: when a running run is cancelled while its execution is in
  flight, the end of the execution overwrites the status, so that a cancelled run becomes, say, a
  succeeded one.
\<close>

theorem completion_overwrites_cancellation:
  assumes "row s pk = Some q" and "run_pk q = pk" and "run_state q = RUNNING"
    and "ae_actor env = None" and "ae_sink env pk = None"
  shows "(\<exists>c. row (fst (cancel_run env pk s)) pk = Some c \<and> run_state c = CANCELLED)
    \<and> (\<exists>r. row (fst (complete_action pk x (fst (cancel_run env pk s)))) pk = Some r \<and> run_state r = xr_status x)"
proof -
  let ?c = "transition_run (cp_now (fst (request_cancellation pk s))) CANCELLED None None [] q"
  have "pr_allowed (can_cancel_run (ae_require_login env) (ae_actor env) q)"
    using assms(3,4) by (simp add: can_cancel_run_def policy_combine_def policy_check_def policy_permission_def)
  then have c: "row (fst (cancel_run env pk s)) pk = Some ?c"
    using assms by (simp add: cancel_run_def locked_run_def policy_or_raise_def Let_def)
  then show ?thesis using complete_action_overwrites [OF c, of x] assms(2) by auto
qed

definition done_result :: cp_result where
  "done_result = \<lparr>xr_status = SUCCEEDED, xr_output = [], xr_error = [], xr_last_step = [],
     xr_message = ''run completed'', xr_details = []\<rparr>"

theorem completion_overwrites_cancellation_witness:
  "\<exists>r. row (fst (complete_action 1 done_result
      (fst (cancel_run echo_env 1 (sample_state (sample_run\<lparr>run_state := RUNNING\<rparr>)))))) 1 = Some r
    \<and> run_state r = SUCCEEDED"
  using completion_overwrites_cancellation [of "sample_state (sample_run\<lparr>run_state := RUNNING\<rparr>)" 1
      "sample_run\<lparr>run_state := RUNNING\<rparr>" echo_env done_result]
  by (simp add: sample_state_def sample_run_def echo_env_def done_result_def)

text \<open>
  Resuming with a blank checkpoint id raises only after the run was moved to running: the run is
  left running, with no execution and no control to cancel it by.
\<close>

theorem blank_checkpoint_strands_the_run:
  assumes "row s pk = Some r" and "run_pk r = pk"
    and "pr_allowed (can_resume_run (ae_require_login env) (ae_actor env) r)"
    and "\<And>now. prepare_workflow_for_run env (transition_run now RUNNING None None [] r) = Inr p"
    and "strip cid = []"
  shows "snd (resume_run env pk value (Some cid) s)
      = Inl (PlainExn ValueError_cls ''checkpoint_id must not be blank'')
    \<and> (\<exists>q. row (fst (resume_run env pk value (Some cid) s)) pk = Some q \<and> run_state q = RUNNING)
    \<and> cp_active (fst (resume_run env pk value (Some cid) s)) = cp_active s"
  using resume_blank_checkpoint [OF assms] by blast

definition waiting_run :: run where
  "waiting_run = sample_run\<lparr>run_state := WAITING,
     run_definition := PDict [(AStr ''workflow'', PDict [(AStr ''kind'', PStr ''demo'')])]\<rparr>"

theorem blank_checkpoint_strands_the_run_witness:
  "\<exists>q. row (fst (resume_run echo_env 1 [] (Some '' '') (sample_state waiting_run))) 1 = Some q
     \<and> run_state q = RUNNING"
proof -
  have "parse_workflow_reference (run_definition waiting_run) = Inr (Some \<lparr>ref_kind = ''demo'', ref_config = []\<rparr>)"
    by code_simp
  then have p: "prepare_workflow_for_run echo_env (transition_run now RUNNING None None [] waiting_run)
      = Inr echo_prepared" for now
    by (simp add: prepare_workflow_for_run_def echo_env_def)
  have "strip '' '' = []" by code_simp
  then show ?thesis
    using blank_checkpoint_strands_the_run [of "sample_state waiting_run" 1 waiting_run echo_env echo_prepared, OF _ _ _ p]
    by (simp add: sample_state_def waiting_run_def sample_run_def echo_env_def can_resume_run_def
        policy_combine_def policy_check_def policy_permission_def)
qed

text \<open>
  C37. A cancellation reaches the execution begun last under the run's id; but when a second execution
  of the run was begun meanwhile, the end of the first drops the control of the second, which can then
  no longer be cancelled.
\<close>

theorem cancellation_reaches_unless_dropped:
  "is_cancelled (cp_flags (fst (request_cancellation pk (fst (begin_execution_control pk d s)))))
      (snd (begin_execution_control pk d s))
   \<and> \<not> snd (request_cancellation pk (finish_execution_control pk
        (fst (begin_execution_control pk d2 (fst (begin_execution_control pk d1 s))))))"
  using request_cancellation_reaches finish_drops_other_control by simp

text \<open>
  C38. Whatever a workflow object raises or returns, executing or resuming it through the adapter
  raises framework errors only.
\<close>

theorem adapter_raises_framework_errors_only:
  assumes "snd (execute_workflow obj payload ctx s) = Inl e \<or> snd (resume_workflow obj rq ctx s) = Inl e"
  shows "isinstance e FrameworkError_cls"
  using assms
proof
  assume "snd (execute_workflow obj payload ctx s) = Inl e"
  then show ?thesis by (rule execute_workflow_framework)
next
  assume "snd (resume_workflow obj rq ctx s) = Inl e"
  then show ?thesis by (rule resume_workflow_framework)
qed

theorem adapter_raises_framework_errors_only_witness:
  "isinstance (projl (snd (resume_workflow echo_object \<lparr>rq_value = [], rq_checkpoint_id = None\<rparr> None
      (sample_state sample_run)))) FrameworkError_cls"
  by (rule adapter_raises_framework_errors_only
      [of echo_object "[]" None "sample_state sample_run" _ "\<lparr>rq_value = [], rq_checkpoint_id = None\<rparr>"])
    (simp add: resume_workflow_def echo_object_def)

text \<open>
  C39. Every operation of the job queue keeps its table: distinct keys, each below the next one, and at
  most one queued or claimed job per run.
\<close>

theorem job_operations_keep_the_table:
  assumes "job_inv s"
  shows "job_inv (fst (enqueue_execution_job run op payload cid s)) \<and> job_inv (fst (claim_next_job h w s))
    \<and> job_inv (heartbeat_job pk s) \<and> job_inv (fst (recover_stale_jobs t s)) \<and> job_inv (fst (execute_job env j s))"
  using enqueue_inv claim_inv heartbeat_inv recover_inv execute_inv assms by blast

definition empty_jobs :: job_state where
  "empty_jobs = \<lparr>js_jobs = [], js_next_pk = 1, js_cp = sample_state sample_run\<rparr>"

theorem job_operations_keep_the_table_witness:
  "job_inv (fst (enqueue_execution_job 1 ''start'' None None empty_jobs))"
  using job_operations_keep_the_table [of empty_jobs]
  by (simp add: job_inv_def empty_jobs_def one_active_per_run_def)

text \<open>
  C40. A claim takes a claimable job that no claimable job is older than, marks it claimed and counts
  the attempt; and two claims in a row never take the same job.
\<close>

theorem claims_take_the_oldest_and_differ:
  assumes "claim_next_job h w s = (s', Some c)"
  shows "(\<exists>j. j \<in> set (js_jobs s) \<and> claimable (js_now s) j \<and> job_pk c = job_pk j
      \<and> list_all (\<lambda>k. claimable (js_now s) k \<longrightarrow> job_created j \<le> job_created k) (js_jobs s)
      \<and> job_attempts c = Suc (job_attempts j) \<and> job_status c = Job_Claimed)
    \<and> (claim_next_job h' w' s' = (s'', Some d) \<longrightarrow> job_pk c \<noteq> job_pk d)"
  using claim_takes_oldest [OF assms] claims_differ [OF assms] by (auto simp: list_all_iff)

definition one_job :: job_state where
  "one_job = fst (enqueue_execution_job 1 ''start'' None None empty_jobs)"

theorem claims_take_the_oldest_and_differ_witness:
  "\<exists>j. j \<in> set (js_jobs one_job)
     \<and> job_pk (the (snd (claim_next_job ''host'' None one_job))) = job_pk j"
proof -
  have "snd (claim_next_job ''host'' None one_job) \<noteq> None"
    by (simp add: one_job_def claim_next_job_def enqueue_execution_job_def empty_jobs_def sample_state_def
        one_active_per_run_def job_active_def claimable_def Let_def)
  then obtain c where c: "snd (claim_next_job ''host'' None one_job) = Some c" by blast
  then have "claim_next_job ''host'' None one_job = (fst (claim_next_job ''host'' None one_job), Some c)"
    by (simp add: prod_eq_iff)
  from claims_take_the_oldest_and_differ [OF this] show ?thesis unfolding c option.sel by blast
qed

end
