(* ===== verification/Diagnostics.thy ===== *)
theory Diagnostics
  imports Summary
begin

text \<open>
  apps/automation/services/diagnostics.py: the bounded snapshot of a value that is kept for
  inspection. A snapshot is a value of its own datatype, because a shortened text ends in a
  horizontal ellipsis (U+2026), which is not among the characters of this development: \<open>Dg_Text s
  True\<close> is the text \<open>s\<close> with that character after it. The lemmas show that a snapshot that is not
  marked as truncated is the whole redacted value, how large a snapshot can be, and that nothing
  under a sensitive key reaches it.
\<close>

section \<open>Snapshots\<close>

datatype diag =
    Dg_Atom atom
  | Dg_Text string bool
  | Dg_List "diag list"
  | Dg_Dict "(string \<times> diag) list"

definition DIAGNOSTIC_MAX_BYTES :: nat where "DIAGNOSTIC_MAX_BYTES = 64 * 1024"

definition DIAGNOSTIC_MAX_DEPTH :: nat where "DIAGNOSTIC_MAX_DEPTH = 8"

definition bound_text :: "nat \<Rightarrow> string \<Rightarrow> diag \<times> bool" where
  "bound_text max_chars text =
     (let safe = redact_text text
      in if max_chars < length safe then (Dg_Text (take max_chars safe) True, True)
         else (Dg_Text safe False, False))"

text \<open>
  \<open>_bound\<close>. The loops over the entries of a mapping and the items of a sequence carry their index.
\<close>

fun bound_value :: "nat \<Rightarrow> nat \<Rightarrow> nat \<Rightarrow> pyval \<Rightarrow> diag \<times> bool"
and bound_entries :: "nat \<Rightarrow> nat \<Rightarrow> nat \<Rightarrow> nat \<Rightarrow> (atom \<times> pyval) list \<Rightarrow> (string \<times> diag \<times> bool) list"
and bound_sequence :: "nat \<Rightarrow> nat \<Rightarrow> nat \<Rightarrow> nat \<Rightarrow> pyval list \<Rightarrow> (diag \<times> bool) list"
where
  "bound_value depth max_items max_chars (Atom a) =
     (case a of
        ANone \<Rightarrow> (Dg_Atom a, False)
      | ABool _ \<Rightarrow> (Dg_Atom a, False)
      | AInt _ \<Rightarrow> (Dg_Atom a, False)
      | AFloat _ \<Rightarrow> (Dg_Atom a, False)
      | _ \<Rightarrow> bound_text max_chars (atom_text a))"
| "bound_value depth max_items max_chars (PDict value) =
     (if DIAGNOSTIC_MAX_DEPTH \<le> depth
      then (Dg_Dict [(''_omitted'', Dg_Text ''maximum depth reached'' False)], True)
      else (let entries = bound_entries (Suc depth) max_items max_chars 0 value;
                mapping_result = dict_of (map (\<lambda>(k, p, t). (k, p)) entries);
                long = max_items < length value
            in (Dg_Dict (if long
                  then dict_set ''_omitted_count'' (Dg_Atom (AInt (int (length value) - int max_items))) mapping_result
                  else mapping_result),
                long \<or> list_ex (\<lambda>(k, p, t). t) entries)))"
| "bound_value depth max_items max_chars (PList source) =
     (let items = bound_sequence (Suc depth) max_items max_chars 0 source;
          long = max_items < length source
      in (Dg_List (map fst items @ (if long
            then [Dg_Dict [(''_omitted_count'', Dg_Atom (AInt (int (length source) - int max_items)))]]
            else [])),
          long \<or> list_ex snd items))"
| "bound_value depth max_items max_chars (PTuple source) =
     (let items = bound_sequence (Suc depth) max_items max_chars 0 source;
          long = max_items < length source
      in (Dg_List (map fst items @ (if long
            then [Dg_Dict [(''_omitted_count'', Dg_Atom (AInt (int (length source) - int max_items)))]]
            else [])),
          long \<or> list_ex snd items))"
| "bound_entries depth max_items max_chars index [] = []"
| "bound_entries depth max_items max_chars index ((key, nested) # value) =
     (if max_items \<le> index then []
      else (let key_name = atom_text key
            in (key_name, if is_sensitive_key key_name then (Dg_Text REDACTED_VALUE False, False)
                  else bound_value depth max_items max_chars nested))
           # bound_entries depth max_items max_chars (Suc index) value)"
| "bound_sequence depth max_items max_chars index [] = []"
| "bound_sequence depth max_items max_chars index (item # source) =
     (if max_items \<le> index then []
      else bound_value depth max_items max_chars item
           # bound_sequence depth max_items max_chars (Suc index) source)"

text \<open>
  The bytes of \<open>json.dumps(payload, ensure_ascii=False, sort_keys=True, separators=(",", ":"))\<close>,
  encoded as UTF-8, in which the ellipsis takes three bytes.
\<close>

definition ellipsis_bytes :: string where
  "ellipsis_bytes = [CHR 0xE2, CHR 0x80, CHR 0xA6]"

fun diag_json :: "diag \<Rightarrow> string"
and diag_json_list :: "diag list \<Rightarrow> string list"
and diag_json_items :: "(string \<times> diag) list \<Rightarrow> (string \<times> string) list"
where
  "diag_json (Dg_Atom a) = utf8 (json_atom a)"
| "diag_json (Dg_Text s shortened) =
     (let q = [CHR 0x22]
      in q @ utf8 (concat (map json_escape_char s)) @ (if shortened then ellipsis_bytes else []) @ q)"
| "diag_json (Dg_List xs) = ''['' @ join_with '','' (diag_json_list xs) @ '']''"
| "diag_json (Dg_Dict kvs) =
     ''{'' @ join_with '','' (map (\<lambda>(k, t). utf8 (json_string k) @ '':'' @ t)
       (sort_key fst (diag_json_items kvs))) @ ''}''"
| "diag_json_list [] = []"
| "diag_json_list (x # xs) = diag_json x # diag_json_list xs"
| "diag_json_items [] = []"
| "diag_json_items ((k, v) # kvs) = (k, diag_json v) # diag_json_items kvs"

record bounded_diagnostic =
  bd_payload :: diag
  bd_byte_size :: nat
  bd_truncated :: bool
  bd_truncation_reason :: string

definition diagnostic_fallback :: diag where
  "diagnostic_fallback =
     Dg_Dict [(''preview_unavailable'', Dg_Atom (ABool True)),
       (''reason'', Dg_Text ''payload exceeds diagnostic byte limit'' False)]"

fun bounded_attempts :: "(nat \<times> nat) list \<Rightarrow> pyval \<Rightarrow> bounded_diagnostic" where
  "bounded_attempts [] v =
     \<lparr>bd_payload = diagnostic_fallback, bd_byte_size = length (diag_json diagnostic_fallback),
      bd_truncated = True, bd_truncation_reason = ''byte_limit''\<rparr>"
| "bounded_attempts ((max_items, max_chars) # rest) v =
     (let (payload, truncated) = bound_value 0 max_items max_chars v; encoded = diag_json payload
      in if length encoded \<le> DIAGNOSTIC_MAX_BYTES
         then \<lparr>bd_payload = payload, bd_byte_size = length encoded, bd_truncated = truncated,
               bd_truncation_reason = (if truncated then ''bounded_limit'' else [])\<rparr>
         else bounded_attempts rest v)"

definition build_bounded_diagnostic :: "pyval \<Rightarrow> bounded_diagnostic" where
  "build_bounded_diagnostic v = bounded_attempts [(100, 2000), (25, 500), (10, 200)] v"

section \<open>A snapshot that is not truncated is the whole value\<close>

text \<open>The redacted view of a value, without any limit.\<close>

fun diag_view :: "pyval \<Rightarrow> diag"
and view_entries :: "(atom \<times> pyval) list \<Rightarrow> (string \<times> diag) list"
and view_list :: "pyval list \<Rightarrow> diag list"
where
  "diag_view (Atom a) =
     (case a of
        ANone \<Rightarrow> Dg_Atom a
      | ABool _ \<Rightarrow> Dg_Atom a
      | AInt _ \<Rightarrow> Dg_Atom a
      | AFloat _ \<Rightarrow> Dg_Atom a
      | _ \<Rightarrow> Dg_Text (redact_text (atom_text a)) False)"
| "diag_view (PDict kvs) = Dg_Dict (dict_of (view_entries kvs))"
| "diag_view (PList xs) = Dg_List (view_list xs)"
| "diag_view (PTuple xs) = Dg_List (view_list xs)"
| "view_entries [] = []"
| "view_entries ((k, v) # kvs) =
     (atom_text k, if is_sensitive_key (atom_text k) then Dg_Text REDACTED_VALUE False else diag_view v)
     # view_entries kvs"
| "view_list [] = []"
| "view_list (x # xs) = diag_view x # view_list xs"

lemma bound_text_whole: "\<not> snd (bound_text mc s) \<Longrightarrow> fst (bound_text mc s) = Dg_Text (redact_text s) False"
  by (simp add: bound_text_def Let_def split: if_splits)

lemma bound_value_whole:
  "\<not> snd (bound_value d mi mc v) \<Longrightarrow> fst (bound_value d mi mc v) = diag_view v"
  "i + length kvs \<le> mi \<Longrightarrow> \<not> list_ex (\<lambda>(k, p, t). t) (bound_entries d mi mc i kvs) \<Longrightarrow>
     map (\<lambda>(k, p, t). (k, p)) (bound_entries d mi mc i kvs) = view_entries kvs"
  "i + length xs \<le> mi \<Longrightarrow> \<not> list_ex snd (bound_sequence d mi mc i xs) \<Longrightarrow>
     map fst (bound_sequence d mi mc i xs) = view_list xs"
proof (induction d mi mc v and d mi mc i kvs and d mi mc i xs
    rule: bound_value_bound_entries_bound_sequence.induct)
  case (1 d mi mc a)
  then show ?case by (cases a) (simp_all add: bound_text_whole)
next
  case (6 d mi mc i k v kvs)
  then show ?case by (auto simp: Let_def split_beta)
next
  case (8 d mi mc i x xs)
  then show ?case by (auto simp: Let_def)
qed (auto simp: Let_def split: if_splits)

lemma bounded_attempts_whole:
  "\<not> bd_truncated (bounded_attempts ls v) \<Longrightarrow> bd_payload (bounded_attempts ls v) = diag_view v"
proof (induction ls)
  case (Cons l ls)
  then show ?case
    using bound_value_whole(1) [of 0 "fst l" "snd l" v]
    by (cases l) (auto simp: Let_def split_beta split: if_splits)
qed simp

section \<open>Nothing under a sensitive key reaches a snapshot\<close>

lemma bound_value_erase:
  "bound_value d mi mc (erase_secrets v) = bound_value d mi mc v"
  "bound_entries d mi mc i (erase_items kvs) = bound_entries d mi mc i kvs"
  "bound_sequence d mi mc i (erase_list xs) = bound_sequence d mi mc i xs"
  by (induction d mi mc v and d mi mc i kvs and d mi mc i xs
      rule: bound_value_bound_entries_bound_sequence.induct)
    (simp_all add: length_erase_items length_erase_list Let_def)

lemma bounded_attempts_erase: "bounded_attempts ls (erase_secrets v) = bounded_attempts ls v"
  by (induction ls) (simp_all add: bound_value_erase split_beta Let_def split_paired_all)

section \<open>The size of a snapshot\<close>

lemma bounded_attempts_size:
  "bd_byte_size (bounded_attempts ls v) = length (diag_json (bd_payload (bounded_attempts ls v)))"
  by (induction ls) (simp_all add: split_beta Let_def split_paired_all)

lemma diagnostic_fallback_size: "length (diag_json diagnostic_fallback) \<le> DIAGNOSTIC_MAX_BYTES"
proof -
  have "length (diag_json diagnostic_fallback) \<le> 100" by code_simp
  then show ?thesis by (simp add: DIAGNOSTIC_MAX_BYTES_def)
qed

lemma bounded_attempts_limit: "bd_byte_size (bounded_attempts ls v) \<le> DIAGNOSTIC_MAX_BYTES"
  by (induction ls)
    (use diagnostic_fallback_size in \<open>simp_all add: split_beta Let_def split_paired_all\<close>)

text \<open>Every text of a snapshot is short and every container has few entries.\<close>

fun diag_within :: "nat \<Rightarrow> nat \<Rightarrow> diag \<Rightarrow> bool"
and diag_within_list :: "nat \<Rightarrow> nat \<Rightarrow> diag list \<Rightarrow> bool"
and diag_within_items :: "nat \<Rightarrow> nat \<Rightarrow> (string \<times> diag) list \<Rightarrow> bool"
where
  "diag_within mi mc (Dg_Atom a) = True"
| "diag_within mi mc (Dg_Text s t) = (length s \<le> mc)"
| "diag_within mi mc (Dg_List xs) = (length xs \<le> Suc mi \<and> diag_within_list mi mc xs)"
| "diag_within mi mc (Dg_Dict kvs) = (length kvs \<le> Suc mi \<and> diag_within_items mi mc kvs)"
| "diag_within_list mi mc [] = True"
| "diag_within_list mi mc (x # xs) = (diag_within mi mc x \<and> diag_within_list mi mc xs)"
| "diag_within_items mi mc [] = True"
| "diag_within_items mi mc ((k, v) # kvs) = (diag_within mi mc v \<and> diag_within_items mi mc kvs)"

lemma diag_within_list_iff: "diag_within_list mi mc xs \<longleftrightarrow> (\<forall>x \<in> set xs. diag_within mi mc x)"
  by (induction xs) auto

lemma diag_within_items_iff: "diag_within_items mi mc kvs \<longleftrightarrow> (\<forall>(k, v) \<in> set kvs. diag_within mi mc v)"
  by (induction kvs) auto

lemma diag_within_dict_of: "diag_within_items mi mc kvs \<Longrightarrow> diag_within_items mi mc (dict_of kvs)"
  using set_dict_of [of kvs] unfolding diag_within_items_iff by blast

lemma diag_within_dict_set:
  "diag_within_items mi mc kvs \<Longrightarrow> diag_within mi mc v \<Longrightarrow> diag_within_items mi mc (dict_set k v kvs)"
  by (induction kvs) auto

lemma length_bound_entries: "length (bound_entries d mi mc i kvs) \<le> mi - i"
proof (induction kvs arbitrary: i)
  case (Cons p kvs)
  show ?case using Cons.IH [of "Suc i"] by (cases p) (auto simp: Let_def)
qed simp

lemma length_bound_sequence: "length (bound_sequence d mi mc i xs) \<le> mi - i"
proof (induction xs arbitrary: i)
  case (Cons x xs)
  show ?case using Cons.IH [of "Suc i"] by auto
qed simp

lemma bound_text_within: "diag_within mi mc (fst (bound_text mc s))"
  by (simp add: bound_text_def Let_def)

lemma length_dict_of_entries:
  "length (dict_of (map (\<lambda>(k, p, t). (k, p)) (bound_entries d mi mc i kvs))) \<le> mi"
  using length_dict_of [of "map (\<lambda>(k, p, t). (k, p)) (bound_entries d mi mc i kvs)"]
    length_bound_entries [of d mi mc i kvs] by simp

lemma bound_value_within:
  "22 \<le> mc \<Longrightarrow> diag_within mi mc (fst (bound_value d mi mc v))"
  "22 \<le> mc \<Longrightarrow> diag_within_items mi mc (map (\<lambda>(k, p, t). (k, p)) (bound_entries d mi mc i kvs))"
  "22 \<le> mc \<Longrightarrow> diag_within_list mi mc (map fst (bound_sequence d mi mc i xs))"
proof (induction d mi mc v and d mi mc i kvs and d mi mc i xs
    rule: bound_value_bound_entries_bound_sequence.induct)
  case (1 d mi mc a)
  then show ?case by (cases a) (simp_all add: bound_text_within)
next
  case (2 d mi mc kvs)
  then show ?case
    using length_dict_of_entries [of "Suc d" mi mc 0 kvs]
    by (auto simp: Let_def diag_within_dict_of diag_within_dict_set
        intro: order_trans [OF length_dict_set])
next
  case (3 d mi mc xs)
  then show ?case
    using length_bound_sequence [of "Suc d" mi mc 0 xs] by (auto simp: Let_def diag_within_list_iff)
next
  case (4 d mi mc xs)
  then show ?case
    using length_bound_sequence [of "Suc d" mi mc 0 xs] by (auto simp: Let_def diag_within_list_iff)
next
  case (6 d mi mc i k v kvs)
  then show ?case by (auto simp: Let_def split_beta REDACTED_VALUE_def)
qed (auto simp: Let_def)

lemma diag_within_mono:
  "diag_within mi mc g \<Longrightarrow> mi \<le> mi' \<Longrightarrow> mc \<le> mc' \<Longrightarrow> diag_within mi' mc' g"
  "diag_within_list mi mc xs \<Longrightarrow> mi \<le> mi' \<Longrightarrow> mc \<le> mc' \<Longrightarrow> diag_within_list mi' mc' xs"
  "diag_within_items mi mc kvs \<Longrightarrow> mi \<le> mi' \<Longrightarrow> mc \<le> mc' \<Longrightarrow> diag_within_items mi' mc' kvs"
  by (induction mi mc g and mi mc xs and mi mc kvs
      rule: diag_within_diag_within_list_diag_within_items.induct) auto

lemma diagnostic_within: "diag_within 100 2000 (bd_payload (build_bounded_diagnostic v))"
proof -
  have w: "diag_within 100 2000 (fst (bound_value 0 mi mc v))" if "22 \<le> mc" "mi \<le> 100" "mc \<le> 2000" for mi mc
    using bound_value_within(1) [OF that(1), of mi 0 v] diag_within_mono(1) that(2,3) by blast
  have f: "diag_within 100 2000 diagnostic_fallback" by (simp add: diagnostic_fallback_def)
  show ?thesis
    using w [of 2000 100] w [of 500 25] w [of 200 10] f
    by (simp add: build_bounded_diagnostic_def Let_def split_beta)
qed

text \<open>Every entry of a snapshot under a sensitive key holds the marker.\<close>

fun diag_covered :: "diag \<Rightarrow> bool"
and diag_covered_list :: "diag list \<Rightarrow> bool"
and diag_covered_items :: "(string \<times> diag) list \<Rightarrow> bool"
where
  "diag_covered (Dg_Atom a) = True"
| "diag_covered (Dg_Text s t) = True"
| "diag_covered (Dg_List xs) = diag_covered_list xs"
| "diag_covered (Dg_Dict kvs) = diag_covered_items kvs"
| "diag_covered_list [] = True"
| "diag_covered_list (x # xs) = (diag_covered x \<and> diag_covered_list xs)"
| "diag_covered_items [] = True"
| "diag_covered_items ((k, v) # kvs) =
     ((is_sensitive_key k \<longrightarrow> v = Dg_Text REDACTED_VALUE False) \<and> diag_covered v \<and> diag_covered_items kvs)"

lemma diag_covered_list_iff: "diag_covered_list xs \<longleftrightarrow> (\<forall>x \<in> set xs. diag_covered x)"
  by (induction xs) auto

lemma diag_covered_items_iff:
  "diag_covered_items kvs \<longleftrightarrow>
     (\<forall>(k, v) \<in> set kvs. (is_sensitive_key k \<longrightarrow> v = Dg_Text REDACTED_VALUE False) \<and> diag_covered v)"
  by (induction kvs) auto

lemma diag_covered_dict_of: "diag_covered_items kvs \<Longrightarrow> diag_covered_items (dict_of kvs)"
  using set_dict_of [of kvs] unfolding diag_covered_items_iff by blast

lemma diag_covered_dict_set:
  "diag_covered_items kvs \<Longrightarrow> \<not> is_sensitive_key k \<Longrightarrow> diag_covered v \<Longrightarrow> diag_covered_items (dict_set k v kvs)"
  by (induction kvs) auto

lemma diagnostic_keys_not_sensitive:
  "\<not> is_sensitive_key ''_omitted''" "\<not> is_sensitive_key ''_omitted_count''"
  "\<not> is_sensitive_key ''preview_unavailable''" "\<not> is_sensitive_key ''reason''"
  by code_simp+

lemma bound_value_covered:
  "diag_covered (fst (bound_value d mi mc v))"
  "diag_covered_items (map (\<lambda>(k, p, t). (k, p)) (bound_entries d mi mc i kvs))"
  "diag_covered_list (map fst (bound_sequence d mi mc i xs))"
proof (induction d mi mc v and d mi mc i kvs and d mi mc i xs
    rule: bound_value_bound_entries_bound_sequence.induct)
  case (1 d mi mc a)
  then show ?case by (cases a) (simp_all add: bound_text_def Let_def)
next
  case (6 d mi mc i k v kvs)
  then show ?case by (auto simp: Let_def split_beta)
qed (auto simp: Let_def diag_covered_dict_of diag_covered_dict_set diag_covered_list_iff
    diagnostic_keys_not_sensitive)

lemma diagnostic_covered: "diag_covered (bd_payload (build_bounded_diagnostic v))"
proof -
  have "diag_covered (bd_payload (bounded_attempts ls v))" for ls
    by (induction ls) (auto simp: bound_value_covered split_beta Let_def diagnostic_fallback_def
        diagnostic_keys_not_sensitive)
  then show ?thesis by (simp only: build_bounded_diagnostic_def)
qed

section \<open>Nesting\<close>

text \<open>
  Only the branch for mappings checks the depth: a value of nested sequences keeps all its levels.
\<close>

fun nested_lists :: "nat \<Rightarrow> pyval" where
  "nested_lists 0 = PNone"
| "nested_lists (Suc n) = PList [nested_lists n]"

fun nested_views :: "nat \<Rightarrow> diag" where
  "nested_views 0 = Dg_Atom ANone"
| "nested_views (Suc n) = Dg_List [nested_views n]"

lemma bound_nested_lists: "0 < mi \<Longrightarrow> bound_value d mi mc (nested_lists n) = (nested_views n, False)"
  by (induction n arbitrary: d) (simp_all add: Let_def)

lemma length_diag_json_nested: "length (diag_json (nested_views n)) = 2 * n + 4"
proof (induction n)
  case 0
  show ?case by code_simp
qed simp

lemma nested_lists_are_kept:
  "n \<le> 32766 \<Longrightarrow> build_bounded_diagnostic (nested_lists n) =
     \<lparr>bd_payload = nested_views n, bd_byte_size = 2 * n + 4, bd_truncated = False, bd_truncation_reason = []\<rparr>"
  by (simp add: build_bounded_diagnostic_def bound_nested_lists length_diag_json_nested DIAGNOSTIC_MAX_BYTES_def)

end
