(* ===== verification/Event_Store.thy ===== *)
theory Event_Store
  imports Diagnostics Tools Json_Decode
begin

text \<open>
  The tables that observability writes (models/event.py, execution.py, artifact.py, checkpoint.py,
  diagnostic.py, integration_projection.py and the columns of models/run.py it touches), the
  transactions on them, and the services that keep diagnostic snapshots and projections
  (services/diagnostics.py, integration_projections.py, purge_expired_diagnostics.py).

  A transaction takes the state and returns it with its result. What the database and the clock do
  is an argument: which rows it refuses to write, with which exception (a text longer than its
  column, a value its JSON column does not encode), and what each reading of the time returns. Times
  are in microseconds, the resolution of \<open>datetime\<close>.
\<close>

section \<open>Rows\<close>

datatype span_status = Span_Pending | Span_Running | Span_Succeeded | Span_Failure | Span_Cancelled | Span_Skipped

record run_touch =
  rt_last_event_at :: "int option"
  rt_last_span_name :: string
  rt_updated_at :: int

record event_row =
  ev_run :: int
  ev_span :: "int option"
  ev_event_type :: string
  ev_level :: string
  ev_node_name :: string
  ev_message :: string
  ev_payload :: pyval
  ev_created_at :: int

record span_row =
  sn_run :: int
  sn_parent :: "int option"
  sn_span_type :: string
  sn_name :: string
  sn_status :: span_status
  sn_node_name :: string
  sn_attempt :: int
  sn_started_at :: "int option"
  sn_finished_at :: "int option"
  sn_duration_ms :: "int option"
  sn_input_summary :: string
  sn_output_summary :: string
  sn_error_message :: string
  sn_metrics :: pyval
  sn_metadata :: pyval
  sn_created_at :: int
  sn_updated_at :: int

record artifact_row =
  ar_run :: int
  ar_span :: "int option"
  ar_name :: string
  ar_kind :: string
  ar_storage_key :: string
  ar_content_type :: string
  ar_size :: "int option"
  ar_metadata :: pyval
  ar_created_at :: int

record checkpoint_row =
  ck_run :: int
  ck_span :: "int option"
  ck_thread_id :: string
  ck_checkpoint_id :: string
  ck_namespace :: string
  ck_backend :: string
  ck_node_name :: string
  ck_state_summary :: string
  ck_created_at :: int

record diagnostic_row =
  dr_run :: "int option"
  dr_snapshot :: bounded_diagnostic
  dr_expires_at :: int
  dr_updated_at :: int

text \<open>The key of a snapshot: the type of its target, the target and the field.\<close>

type_synonym diagnostic_key = "string \<times> int \<times> string"

record projection_row =
  pj_run :: int
  pj_span :: "int option"
  pj_integration_id :: string
  pj_schema_id :: string
  pj_owner_kind :: string
  pj_owner_external_id :: string
  pj_title :: string
  pj_projection_kind :: string
  pj_subject_kind :: string
  pj_subject_external_id :: string
  pj_sequence :: int
  pj_occurred_at :: int
  pj_snapshot :: bounded_diagnostic
  pj_retention_class :: string
  pj_classification :: string
  pj_expires_at :: int
  pj_created_at :: int

definition is_terminal_span :: "span_status \<Rightarrow> bool" where
  "is_terminal_span st = (st \<in> {Span_Succeeded, Span_Failure, Span_Cancelled, Span_Skipped})"

definition diagnostic_expired :: "int \<Rightarrow> diagnostic_row \<Rightarrow> bool" where
  "diagnostic_expired now r = (dr_expires_at r \<le> now)"

definition projection_expired :: "int \<Rightarrow> projection_row \<Rightarrow> bool" where
  "projection_expired now r = (pj_expires_at r \<le> now)"

section \<open>The state and its transactions\<close>

record obs_state =
  os_runs :: "(int \<times> run_touch) list"
  os_events :: "(int \<times> event_row) list"
  os_spans :: "(int \<times> span_row) list"
  os_artifacts :: "(int \<times> artifact_row) list"
  os_checkpoints :: "(int \<times> checkpoint_row) list"
  os_diagnostics :: "(diagnostic_key \<times> diagnostic_row) list"
  os_projections :: "(int \<times> projection_row) list"
  os_ticks :: nat

datatype written_row =
    Write_Run run_touch | Write_Event event_row | Write_Span span_row | Write_Artifact artifact_row
  | Write_Checkpoint checkpoint_row | Write_Diagnostic diagnostic_row | Write_Projection projection_row

text \<open>
  The two settings are those of Django's settings module, where \<open>None\<close> stands for an absent one.
\<close>

record obs_env =
  oe_refuses :: "written_row \<Rightarrow> exn option"
  oe_clock :: "nat \<Rightarrow> int"
  oe_diagnostic_days :: "int option"
  oe_projection_days :: "(string \<times> int) list option"

type_synonym 'a tx = "obs_state \<Rightarrow> obs_state \<times> 'a res"

definition tx_return :: "'a \<Rightarrow> 'a tx" where
  "tx_return x s = (s, Inr x)"

definition tx_raise :: "exn \<Rightarrow> 'a tx" where
  "tx_raise e s = (s, Inl e)"

definition tx_bind :: "'a tx \<Rightarrow> ('a \<Rightarrow> 'b tx) \<Rightarrow> 'b tx" where
  "tx_bind m f s = (case m s of (s, Inl e) \<Rightarrow> (s, Inl e) | (s, Inr x) \<Rightarrow> f x s)"

definition tx_res :: "'a res \<Rightarrow> 'a tx" where
  "tx_res r s = (s, r)"

definition tx_when :: "bool \<Rightarrow> unit tx \<Rightarrow> unit tx" where
  "tx_when b m = (if b then m else tx_return ())"

definition tx_optional :: "('a \<Rightarrow> 'b tx) \<Rightarrow> 'a option \<Rightarrow> 'b option tx" where
  "tx_optional f x = (case x of None \<Rightarrow> tx_return None | Some y \<Rightarrow> tx_bind (f y) (\<lambda>z. tx_return (Some z)))"

text \<open>\<open>transaction.atomic\<close>: an exception takes every write back, and no reading of the clock.\<close>

definition atomic :: "'a tx \<Rightarrow> 'a tx" where
  "atomic m s = (case m s of
     (s', Inl e) \<Rightarrow> (s\<lparr>os_ticks := os_ticks s'\<rparr>, Inl e)
   | (s', Inr x) \<Rightarrow> (s', Inr x))"

text \<open>\<open>timezone.now()\<close>.\<close>

definition tz_now :: "obs_env \<Rightarrow> int tx" where
  "tz_now env s = (s\<lparr>os_ticks := Suc (os_ticks s)\<rparr>, Inr (oe_clock env (os_ticks s)))"

definition write_row :: "obs_env \<Rightarrow> written_row \<Rightarrow> (obs_state \<Rightarrow> obs_state) \<Rightarrow> unit tx" where
  "write_row env row g s = (case oe_refuses env row of None \<Rightarrow> (g s, Inr ()) | Some e \<Rightarrow> (s, Inl e))"

text \<open>The key of a new row is one above the largest.\<close>

definition fresh_pk :: "(int \<times> 'a) list \<Rightarrow> int" where
  "fresh_pk rows = 1 + foldr (\<lambda>r n. max (fst r) n) rows 0"

definition does_not_exist :: "string \<Rightarrow> exn" where
  "does_not_exist model = PlainExn (Other_cls ''DoesNotExist'') (model @ '' matching query does not exist.'')"

definition tx_get :: "string \<Rightarrow> (obs_state \<Rightarrow> (int \<times> 'a) list) \<Rightarrow> int \<Rightarrow> (int \<times> 'a) tx" where
  "tx_get model rows pk s = (s, case map_of (rows s) pk of
     None \<Rightarrow> Inl (does_not_exist model) | Some r \<Rightarrow> Inr (pk, r))"

definition create_event :: "obs_env \<Rightarrow> event_row \<Rightarrow> int tx" where
  "create_event env row s = (let pk = fresh_pk (os_events s)
     in tx_bind (write_row env (Write_Event row) (\<lambda>s. s\<lparr>os_events := os_events s @ [(pk, row)]\<rparr>))
          (\<lambda>_. tx_return pk) s)"

definition create_span :: "obs_env \<Rightarrow> span_row \<Rightarrow> int tx" where
  "create_span env row s = (let pk = fresh_pk (os_spans s)
     in tx_bind (write_row env (Write_Span row) (\<lambda>s. s\<lparr>os_spans := os_spans s @ [(pk, row)]\<rparr>))
          (\<lambda>_. tx_return pk) s)"

definition create_artifact :: "obs_env \<Rightarrow> artifact_row \<Rightarrow> int tx" where
  "create_artifact env row s = (let pk = fresh_pk (os_artifacts s)
     in tx_bind (write_row env (Write_Artifact row) (\<lambda>s. s\<lparr>os_artifacts := os_artifacts s @ [(pk, row)]\<rparr>))
          (\<lambda>_. tx_return pk) s)"

definition create_checkpoint :: "obs_env \<Rightarrow> checkpoint_row \<Rightarrow> int tx" where
  "create_checkpoint env row s = (let pk = fresh_pk (os_checkpoints s)
     in tx_bind (write_row env (Write_Checkpoint row)
            (\<lambda>s. s\<lparr>os_checkpoints := os_checkpoints s @ [(pk, row)]\<rparr>))
          (\<lambda>_. tx_return pk) s)"

definition create_projection :: "obs_env \<Rightarrow> projection_row \<Rightarrow> int tx" where
  "create_projection env row s = (let pk = fresh_pk (os_projections s)
     in tx_bind (write_row env (Write_Projection row)
            (\<lambda>s. s\<lparr>os_projections := os_projections s @ [(pk, row)]\<rparr>))
          (\<lambda>_. tx_return pk) s)"

text \<open>\<open>save\<close> of an existing row: nothing is written when the row is gone.\<close>

definition no_row_affected :: exn where
  "no_row_affected = PlainExn (Other_cls ''DatabaseError'') ''Save with update_fields did not affect any rows.''"

definition save_span :: "obs_env \<Rightarrow> int \<Rightarrow> span_row \<Rightarrow> unit tx" where
  "save_span env pk row s =
     (if map_of (os_spans s) pk = None then (s, Inl no_row_affected)
      else write_row env (Write_Span row) (\<lambda>s. s\<lparr>os_spans := dict_set pk row (os_spans s)\<rparr>) s)"

definition save_run_touch :: "obs_env \<Rightarrow> int \<Rightarrow> run_touch \<Rightarrow> unit tx" where
  "save_run_touch env pk row s =
     (if map_of (os_runs s) pk = None then (s, Inl no_row_affected)
      else write_row env (Write_Run row) (\<lambda>s. s\<lparr>os_runs := dict_set pk row (os_runs s)\<rparr>) s)"

section \<open>Diagnostic snapshots\<close>

definition days_time :: "int \<Rightarrow> int" where
  "days_time n = n * 86400 * 1000000"

definition diagnostic_retention_days :: "obs_env \<Rightarrow> int" where
  "diagnostic_retention_days env =
     max 1 (case oe_diagnostic_days env of None \<Rightarrow> 7 | Some n \<Rightarrow> n)"

text \<open>\<open>update_or_create\<close> is a transaction of its own.\<close>

definition record_diagnostic_payload ::
  "obs_env \<Rightarrow> string \<Rightarrow> int \<Rightarrow> string \<Rightarrow> pyval \<Rightarrow> int option \<Rightarrow> unit tx" where
  "record_diagnostic_payload env target_type target_id field_name v run =
     (let bounded = build_bounded_diagnostic v
      in tx_bind (tz_now env) (\<lambda>now.
         let expires_at = now + days_time (diagnostic_retention_days env);
             key = (take 32 target_type, target_id, take 100 field_name)
         in atomic (tx_bind (tz_now env) (\<lambda>updated.
              let row = \<lparr>dr_run = run, dr_snapshot = bounded, dr_expires_at = expires_at, dr_updated_at = updated\<rparr>
              in write_row env (Write_Diagnostic row)
                   (\<lambda>s. s\<lparr>os_diagnostics := dict_set key row (os_diagnostics s)\<rparr>)))))"

definition active_diagnostic :: "int \<Rightarrow> string \<Rightarrow> int \<Rightarrow> string \<Rightarrow> obs_state \<Rightarrow> diagnostic_row option" where
  "active_diagnostic now target_type target_id field_name s =
     (case map_of (os_diagnostics s) (target_type, target_id, field_name) of
        None \<Rightarrow> None
      | Some r \<Rightarrow> if now < dr_expires_at r then Some r else None)"

definition purge_expired_diagnostics :: "int \<Rightarrow> obs_state \<Rightarrow> obs_state \<times> nat" where
  "purge_expired_diagnostics now s =
     (let kept = filter (\<lambda>(k, r). \<not> diagnostic_expired now r) (os_diagnostics s)
      in (s\<lparr>os_diagnostics := kept\<rparr>, length (os_diagnostics s) - length kept))"

section \<open>Projections\<close>

definition OWNER_KINDS :: "string list" where
  "OWNER_KINDS = [''run'', ''execution_unit'', ''interaction'', ''artifact'', ''checkpoint'']"

definition PROJECTION_KINDS :: "string list" where
  "PROJECTION_KINDS = [''snapshot'', ''event'', ''reference'', ''action'']"

definition SUBJECT_KINDS :: "string list" where
  "SUBJECT_KINDS = [''run'', ''execution_unit'', ''interaction'', ''artifact'', ''checkpoint'', ''action'']"

definition ALLOWED_CLASSIFICATIONS :: "string list" where
  "ALLOWED_CLASSIFICATIONS = [''public'', ''internal'', ''confidential'', ''restricted'']"

definition ALLOWED_RETENTION_CLASSES :: "string list" where
  "ALLOWED_RETENTION_CLASSES = [''transient'', ''diagnostic'', ''execution_detail'', ''audit'']"

definition projection_default_days :: "string \<Rightarrow> int" where
  "projection_default_days c =
     (case map_of [(''transient'', 1), (''diagnostic'', 7), (''execution_detail'', 30), (''audit'', 365)] c of
        None \<Rightarrow> 30 | Some n \<Rightarrow> n)"

definition projection_retention_days :: "obs_env \<Rightarrow> string \<Rightarrow> int" where
  "projection_retention_days env retention_class =
     max 1 (case oe_projection_days env of
        None \<Rightarrow> projection_default_days retention_class
      | Some configured \<Rightarrow> (case map_of configured retention_class of
            None \<Rightarrow> projection_default_days retention_class | Some n \<Rightarrow> n))"

record projection_args =
  pa_integration_id :: string
  pa_schema_id :: string
  pa_owner_kind :: string
  pa_owner_external_id :: string
  pa_title :: string
  pa_payload :: pyval
  pa_retention_class :: string
  pa_classification :: string
  pa_projection_kind :: string
  pa_subject_kind :: string
  pa_subject_external_id :: string
  pa_sequence :: int
  pa_occurred_at :: "int option"

definition check_projection :: "int \<Rightarrow> (int \<times> span_row) option \<Rightarrow> projection_args \<Rightarrow> unit res" where
  "check_projection run span a =
     (let fail = (\<lambda>t. PlainExn ValueError_cls t)
      in r_bind (r_guard (pa_owner_kind a \<notin> set OWNER_KINDS)
                  (fail ''unsupported integration projection owner kind'')) (\<lambda>_.
         r_bind (r_guard (pa_projection_kind a \<notin> set PROJECTION_KINDS)
                  (fail ''unsupported integration projection kind'')) (\<lambda>_.
         r_bind (r_guard (pa_subject_kind a \<notin> set SUBJECT_KINDS)
                  (fail ''unsupported integration projection subject kind'')) (\<lambda>_.
         r_bind (r_guard (pa_retention_class a \<notin> set ALLOWED_RETENTION_CLASSES)
                  (fail ''unsupported integration projection retention class'')) (\<lambda>_.
         r_bind (r_guard (pa_classification a \<notin> set ALLOWED_CLASSIFICATIONS)
                  (fail ''unsupported integration projection classification'')) (\<lambda>_.
         r_guard (case span of None \<Rightarrow> False | Some (pk, sp) \<Rightarrow> sn_run sp \<noteq> run)
           (fail ''integration projection span must belong to the run'')))))))"

definition record_integration_projection ::
  "obs_env \<Rightarrow> int \<Rightarrow> (int \<times> span_row) option \<Rightarrow> projection_args \<Rightarrow> int tx" where
  "record_integration_projection env run span a =
     tx_bind (tx_res (check_projection run span a)) (\<lambda>_.
       let bounded = build_bounded_diagnostic (pa_payload a)
       in tx_bind (case pa_occurred_at a of None \<Rightarrow> tz_now env | Some t \<Rightarrow> tx_return t) (\<lambda>occurred_at.
          tx_bind (tz_now env) (\<lambda>now.
          tx_bind (tz_now env) (\<lambda>created.
          create_projection env
            \<lparr>pj_run = run, pj_span = map_option fst span,
             pj_integration_id = take 100 (strip (pa_integration_id a)),
             pj_schema_id = take 200 (strip (pa_schema_id a)), pj_owner_kind = pa_owner_kind a,
             pj_owner_external_id = take 255 (strip (pa_owner_external_id a)),
             pj_title = take 200 (strip (pa_title a)), pj_projection_kind = pa_projection_kind a,
             pj_subject_kind = pa_subject_kind a,
             pj_subject_external_id = take 255 (strip (pa_subject_external_id a)),
             pj_sequence = max 0 (pa_sequence a), pj_occurred_at = occurred_at, pj_snapshot = bounded,
             pj_retention_class = pa_retention_class a, pj_classification = pa_classification a,
             pj_expires_at = now + days_time (projection_retention_days env (pa_retention_class a)),
             pj_created_at = created\<rparr>))))"

definition active_projections_for_run :: "int \<Rightarrow> int \<Rightarrow> obs_state \<Rightarrow> (int \<times> projection_row) list" where
  "active_projections_for_run now run_id s =
     filter (\<lambda>(pk, r). pj_run r = run_id \<and> now < pj_expires_at r) (os_projections s)"

definition active_projections_for_span :: "int \<Rightarrow> int \<Rightarrow> obs_state \<Rightarrow> (int \<times> projection_row) list" where
  "active_projections_for_span now span_id s =
     filter (\<lambda>(pk, r). pj_span r = Some span_id \<and> now < pj_expires_at r) (os_projections s)"

end
