(* ===== verification/Durations.thy ===== *)
theory Durations
  imports Complex_Main
begin

text \<open>
  The duration of a span, \<open>int((now - started_at).total_seconds() * 1000)\<close>: a division and a product
  of floats, each rounded to 53 bits (to the nearest, a tie to the even one), and a truncation
  towards zero. The lemmas bound the error of a rounding and of the result.
\<close>

section \<open>Rounding to a double\<close>

definition round_half_even :: "rat \<Rightarrow> int" where
  "round_half_even x = (let n = \<lfloor>x\<rfloor>; r = x - of_int n
     in if r < 1 / 2 then n else if 1 / 2 < r then n + 1 else if even n then n else n + 1)"

text \<open>\<open>2 ^ k\<close> for an integer \<open>k\<close>.\<close>

definition scale :: "int \<Rightarrow> rat" where
  "scale k = (if 0 \<le> k then 2 ^ nat k else 1 / 2 ^ nat (- k))"

text \<open>\<open>int.bit_length\<close>.\<close>

fun bit_length :: "int \<Rightarrow> nat" where
  "bit_length n = (if n \<le> 0 then 0 else Suc (bit_length (n div 2)))"

declare bit_length.simps [simp del]

text \<open>The power of two that brings a positive fraction to at least \<open>2 ^ 52\<close>.\<close>

definition mantissa_shift :: "rat \<Rightarrow> int" where
  "mantissa_shift x = (case quotient_of x of (n, d) \<Rightarrow>
     let k = 53 - int (bit_length n) + int (bit_length d)
     in if 2 ^ 53 \<le> x * scale k then k - 1 else k)"

definition double_positive :: "rat \<Rightarrow> rat" where
  "double_positive x = (let k = mantissa_shift x in of_int (round_half_even (x * scale k)) / scale k)"

definition double_round :: "rat \<Rightarrow> rat" where
  "double_round x = (if x = 0 then 0 else if 0 < x then double_positive x else - double_positive (- x))"

text \<open>\<open>int\<close> of a float.\<close>

definition truncate :: "rat \<Rightarrow> int" where
  "truncate x = (if 0 \<le> x then \<lfloor>x\<rfloor> else \<lceil>x\<rceil>)"

definition duration_millis :: "int \<Rightarrow> int" where
  "duration_millis microseconds =
     truncate (double_round (double_round (of_int microseconds / 1000000) * 1000))"

section \<open>The error of a rounding\<close>

lemma round_half_even_error: "\<bar>of_int (round_half_even x) - x\<bar> \<le> 1 / 2"
proof -
  have "of_int \<lfloor>x\<rfloor> \<le> x" "x < of_int \<lfloor>x\<rfloor> + 1" by linarith+
  then show ?thesis by (auto simp: round_half_even_def Let_def)
qed

lemma scale_pos [simp]: "0 < scale k"
  by (simp add: scale_def)

lemma scale_powi: "scale k = 2 powi k"
  by (cases "0 \<le> k") (simp_all add: scale_def power_int_def power_inverse inverse_eq_divide power_one_over)

lemma scale_add: "scale (i + j) = scale i * scale j"
  by (simp add: scale_powi power_int_add)

lemma scale_nat: "scale (int n) = 2 ^ n"
  by (simp add: scale_def)

lemma scale_minus: "scale (- k) = 1 / scale k"
proof -
  have "scale k * scale (- k) = 1" using scale_add [of k "- k"] by (simp add: scale_def [of 0])
  then show ?thesis using scale_pos [of k] by (metis less_irrefl mult.commute nonzero_eq_divide_eq)
qed

lemma bit_length_range: "0 < n \<Longrightarrow> 2 ^ (bit_length n - 1) \<le> n \<and> n < 2 ^ bit_length n \<and> 0 < bit_length n"
proof (induction n rule: bit_length.induct)
  case (1 n)
  show ?case
  proof (cases "n = 1")
    case True
    then show ?thesis by (simp add: bit_length.simps [of 1] bit_length.simps [of 0])
  next
    case False
    then have h: "0 < n div 2" using "1.prems" by linarith
    then have ih: "2 ^ (bit_length (n div 2) - 1) \<le> n div 2" "n div 2 < 2 ^ bit_length (n div 2)"
      "0 < bit_length (n div 2)"
      using "1.IH" "1.prems" by auto
    have "(2::int) ^ bit_length (n div 2) = 2 * 2 ^ (bit_length (n div 2) - 1)"
      using ih(3) by (cases "bit_length (n div 2)") auto
    then have "2 * 2 ^ (bit_length (n div 2) - 1) \<le> n \<and> n < 2 * (2 * 2 ^ (bit_length (n div 2) - 1))"
      using ih(1,2) by linarith
    then show ?thesis
      using ih(3) "1.prems" by (cases "bit_length (n div 2)") (simp_all add: bit_length.simps [of n])
  qed
qed

lemma mantissa_shift_range:
  assumes "0 < x"
  shows "2 ^ 52 \<le> x * scale (mantissa_shift x)"
proof -
  obtain n d where q: "quotient_of x = (n, d)" by fastforce
  have x: "x = of_int n / of_int d" and d: "0 < d"
    using quotient_of_div [OF q] quotient_of_denom_pos [OF q] by auto
  then have n: "0 < n" using assms by (simp add: zero_less_divide_iff)
  define a b where "a = bit_length n" and "b = bit_length d"
  have a: "2 ^ (a - 1) \<le> n" "0 < a" and b: "d \<le> 2 ^ b"
    using bit_length_range [of n] bit_length_range [of d] n d by (auto simp: a_def b_def)
  have na: "(2::rat) ^ (a - 1) \<le> of_int n" and db: "of_int d \<le> (2::rat) ^ b"
    using a(1) b by (metis of_int_le_iff of_int_numeral of_int_power)+
  define k where "k = 53 - int a + int b"
  have sk: "scale k = 2 ^ 53 * scale (- int a) * 2 ^ b"
    using scale_add [of "53 + (- int a)" "int b"] scale_add [of 53 "- int a"] scale_nat [of 53]
    by (simp add: k_def scale_nat)
  have pa: "(2::rat) ^ a = 2 * 2 ^ (a - 1)" using a(2) by (cases a) auto
  have "scale (- int a) * 2 ^ (a - 1) = 1 / 2"
    by (simp add: scale_minus scale_nat pa)
  then have "2 ^ 52 = 2 ^ 53 * scale (- int a) * 2 ^ (a - 1)" by simp
  also have "\<dots> \<le> 2 ^ 53 * scale (- int a) * of_int n"
    using na by (intro mult_left_mono) (simp_all add: less_imp_le)
  also have "\<dots> = (of_int n / of_int d) * (2 ^ 53 * scale (- int a)) * of_int d" using d by simp
  also have "\<dots> \<le> x * (2 ^ 53 * scale (- int a)) * 2 ^ b"
    unfolding x [symmetric] using db assms by (intro mult_left_mono) (simp_all add: less_imp_le)
  finally have low: "2 ^ 52 \<le> x * scale k" by (simp add: sk mult.assoc)
  have half: "x * scale (k - 1) = x * scale k / 2"
    using scale_add [of "k - 1" 1] by (simp add: scale_def [of 1])
  show ?thesis
  proof (cases "2 ^ 53 \<le> x * scale k")
    case True
    then have "2 ^ 52 \<le> x * scale (k - 1)" unfolding half by simp
    then show ?thesis using True by (simp add: mantissa_shift_def q Let_def k_def a_def b_def)
  next
    case False
    then show ?thesis using low by (simp add: mantissa_shift_def q Let_def k_def a_def b_def)
  qed
qed

lemma double_positive_error:
  assumes "0 < x"
  shows "\<bar>double_positive x - x\<bar> \<le> x / 2 ^ 53"
proof -
  define s where "s = scale (mantissa_shift x)"
  have s: "0 < s" "2 ^ 52 \<le> x * s" using mantissa_shift_range [OF assms] by (simp_all add: s_def)
  have "double_positive x - x = (of_int (round_half_even (x * s)) - x * s) / s"
    unfolding double_positive_def Let_def s_def [symmetric] using s(1) by (simp add: diff_divide_distrib)
  then have "\<bar>double_positive x - x\<bar> \<le> (1 / 2) / s"
    using round_half_even_error [of "x * s"] s(1) by (simp add: divide_right_mono abs_divide del: divide_divide_eq_left)
  also have "\<dots> \<le> x / 2 ^ 53" using s by (simp add: field_simps)
  finally show ?thesis .
qed

lemma double_round_error:
  assumes "0 \<le> x"
  shows "double_round x - x \<le> x / 9007199254740992" and "x - double_round x \<le> x / 9007199254740992" and "0 \<le> double_round x"
proof -
  have e: "\<bar>double_round x - x\<bar> \<le> x / 9007199254740992"
    using double_positive_error [of x] assms by (cases "x = 0") (simp_all add: double_round_def)
  then show "double_round x - x \<le> x / 9007199254740992" and lower: "x - double_round x \<le> x / 9007199254740992"
    by (simp_all only: abs_le_iff) linarith
  show "0 \<le> double_round x" using lower assms by linarith
qed

section \<open>The error of a duration\<close>

text \<open>
  Up to 71 years, the duration is the number of whole milliseconds or one less. It can be one less:
  1.001 seconds are recorded as 1000 milliseconds.
\<close>

lemma duration_millis_error:
  assumes "0 \<le> t" and "t < 2 ^ 51"
  shows "t div 1000 - 1 \<le> duration_millis t \<and> duration_millis t \<le> t div 1000"
proof -
  define x :: rat where "x = of_int t / 1000000"
  define p where "p = double_round x * 1000"
  define z where "z = double_round p"
  have x: "0 \<le> x" "x * 1000000 < 2251799813685248"
    using assms of_int_less_iff [of t "2 ^ 51", where ?'a = rat] by (simp_all add: x_def)
  have p: "0 \<le> p" "p - x * 1000 \<le> x * 1000 / 9007199254740992" "x * 1000 - p \<le> x * 1000 / 9007199254740992"
    unfolding p_def using double_round_error [OF x(1)] by linarith+
  have z: "0 \<le> z" "z - p \<le> p / 9007199254740992" "p - z \<le> p / 9007199254740992"
    unfolding z_def using double_round_error [OF p(1)] by linarith+
  have e: "z - x * 1000 < 1 / 1000" "x * 1000 - z < 1 / 1000"
    using p z x by linarith+
  have t: "x * 1000 = of_int t / 1000" by (simp add: x_def)
  have q: "t = 1000 * (t div 1000) + t mod 1000" "0 \<le> t mod 1000" "t mod 1000 \<le> 999" by simp_all
  have "(of_int t :: rat) = 1000 * of_int (t div 1000) + of_int (t mod 1000)"
    by (metis of_int_add of_int_mult of_int_numeral q(1))
  moreover have "0 \<le> (of_int (t mod 1000) :: rat)" "(of_int (t mod 1000) :: rat) \<le> 999"
    using q(2,3) by (simp, metis of_int_le_iff of_int_numeral)
  ultimately have r: "of_int (t div 1000) \<le> x * 1000" "x * 1000 \<le> of_int (t div 1000) + (999 / 1000 :: rat)"
    unfolding t by simp_all
  have "of_int (t div 1000 - 1) \<le> z" "z < of_int (t div 1000 + 1)"
    using e r by linarith+
  then have "t div 1000 - 1 \<le> \<lfloor>z\<rfloor>" "\<lfloor>z\<rfloor> \<le> t div 1000" by linarith+
  moreover have "duration_millis t = \<lfloor>z\<rfloor>"
    using z(1) by (simp add: duration_millis_def truncate_def z_def p_def x_def)
  ultimately show ?thesis by simp
qed

lemma duration_of_1001_milliseconds: "duration_millis 1001000 = 1000"
  by code_simp

end
