(* ===== verification/Event_Sink.thy ===== *)
theory Event_Sink
  imports Event_Store Durations Artifact_Base
begin

text \<open>
  integrations/observability/django_event_sink.py and events.py: the sink that persists the timeline
  of a run. Every method is one transaction on the tables of \<open>Event_Store\<close>; what it is given is
  redacted and bounded before it is written, and kept beside as a diagnostic snapshot, whose failure
  is suppressed. A method that returns a row returns its key.
\<close>

section \<open>What is persisted of a value\<close>

definition OBSERVABILITY_MAX_DEPTH :: nat where "OBSERVABILITY_MAX_DEPTH = 4"

definition OBSERVABILITY_MAX_ITEMS :: nat where "OBSERVABILITY_MAX_ITEMS = 20"

definition OBSERVABILITY_MAX_CHARS :: int where "OBSERVABILITY_MAX_CHARS = 300"

definition observed_text :: "string \<Rightarrow> string" where
  "observed_text text = preview_text (redact_text text) OBSERVABILITY_MAX_CHARS"

fun sanitize_value :: "nat \<Rightarrow> pyval \<Rightarrow> pyval"
and sanitize_entries :: "nat \<Rightarrow> nat \<Rightarrow> pyitems \<Rightarrow> pyitems"
and sanitize_items :: "nat \<Rightarrow> nat \<Rightarrow> pyval list \<Rightarrow> pyval list"
where
  "sanitize_value depth (Atom a) = (case a of AStr s \<Rightarrow> PStr (observed_text s) | _ \<Rightarrow> Atom a)"
| "sanitize_value depth (PDict value) =
     (if OBSERVABILITY_MAX_DEPTH \<le> depth then PStr REDACTED_VALUE
      else PDict (dict_of (sanitize_entries (Suc depth) 0 value)))"
| "sanitize_value depth (PList value) =
     PList (if OBSERVABILITY_MAX_DEPTH \<le> depth
       then map (\<lambda>_. PStr REDACTED_VALUE) (take OBSERVABILITY_MAX_ITEMS value)
       else sanitize_items (Suc depth) 0 value)"
| "sanitize_value depth (PTuple value) =
     PList (if OBSERVABILITY_MAX_DEPTH \<le> depth
       then map (\<lambda>_. PStr REDACTED_VALUE) (take OBSERVABILITY_MAX_ITEMS value)
       else sanitize_items (Suc depth) 0 value)"
| "sanitize_entries depth index [] = []"
| "sanitize_entries depth index ((key, nested_value) # value) =
     (if OBSERVABILITY_MAX_ITEMS \<le> index then []
      else (let key_name = atom_text key
            in (AStr key_name, if is_sensitive_key key_name then PStr REDACTED_VALUE
                  else sanitize_value depth nested_value))
           # sanitize_entries depth (Suc index) value)"
| "sanitize_items depth index [] = []"
| "sanitize_items depth index (item # value) =
     (if OBSERVABILITY_MAX_ITEMS \<le> index then []
      else sanitize_value depth item # sanitize_items depth (Suc index) value)"

definition given :: "pyitems option \<Rightarrow> pyitems" where
  "given value = (case value of None \<Rightarrow> [] | Some d \<Rightarrow> d)"

definition sanitize_mapping :: "pyitems option \<Rightarrow> pyval" where
  "sanitize_mapping value = sanitize_value 0 (PDict (given value))"

definition observed_summary_text :: "string option \<Rightarrow> string" where
  "observed_summary_text text = observed_text (case text of None \<Rightarrow> [] | Some t \<Rightarrow> t)"

definition preview_field :: "pyitems \<Rightarrow> string \<Rightarrow> string \<Rightarrow> int \<Rightarrow> string" where
  "preview_field item name fallback max_chars =
     preview_text (redact_text (case map_of item (AStr name) of None \<Rightarrow> fallback | Some v \<Rightarrow> val_text v)) max_chars"

definition message_preview :: "pyval \<Rightarrow> pyval list" where
  "message_preview item =
     (case item of
        PDict d \<Rightarrow>
          (let role = preview_field d ''role'' ''unknown'' 32; preview = preview_field d ''preview'' [] 120
           in [PDict [(AStr ''role'', PStr (if role = [] then ''unknown'' else role)),
                      (AStr ''preview'', PStr preview)]])
      | _ \<Rightarrow> [])"

definition message_previews :: "pyitems option \<Rightarrow> pyval list" where
  "message_previews value =
     (let message_list = (\<lambda>xs. concat (map message_preview (take OBSERVABILITY_MAX_ITEMS xs)))
      in case map_of (given value) (AStr ''message_previews'') of
           Some (PList xs) \<Rightarrow> message_list xs
         | Some (PTuple xs) \<Rightarrow> message_list xs
         | _ \<Rightarrow> [])"

definition dict_items :: "pyval \<Rightarrow> pyitems" where
  "dict_items v = (case v of PDict d \<Rightarrow> d | _ \<Rightarrow> [])"

definition summary_json :: "pyitems option \<Rightarrow> string" where
  "summary_json value =
     (let summary = summarize_mapping DEFAULT_MAX_DEPTH DEFAULT_MAX_ITEMS (dict_items (sanitize_mapping value));
          previews = message_previews value;
          summary = (if previews = [] then summary
            else (case map_of summary ''preview'' of
                Some (PDict preview) \<Rightarrow>
                  dict_set ''preview'' (PDict (dict_set (AStr ''message_previews'') (PList previews) preview)) summary
              | _ \<Rightarrow> summary))
      in json_default (pdict summary))"

section \<open>Helpers of the sink\<close>

definition SEMANTIC_PREFIX :: string where
  "SEMANTIC_PREFIX = ''semantic''"

definition semantic_event_type :: "string \<Rightarrow> string" where
  "semantic_event_type name =
     (let normalized = dropWhile (\<lambda>c. c = CHR ''.'') (strip name)
      in if normalized = [] then SEMANTIC_PREFIX
         else if startswith (SEMANTIC_PREFIX @ ''.'') normalized then normalized
         else SEMANTIC_PREFIX @ ''.'' @ normalized)"

text \<open>\<open>int(span_id)\<close> of a text.\<close>

definition int_of_text :: "string \<Rightarrow> int res" where
  "int_of_text text =
     (let t = strip text;
          negative = startswith ''-'' t;
          digits = (if negative \<or> startswith ''+'' t then tl t else t);
          groups = split_on (CHR ''_'') digits
      in if list_all (\<lambda>g. g \<noteq> [] \<and> list_all is_digit g) groups
         then Inr (if negative then - int (digits_value (concat groups)) else int (digits_value (concat groups)))
         else Inl (PlainExn ValueError_cls (''invalid literal for int() with base 10: '' @ str_repr text)))"

type_synonym span_ref = string

type_synonym located_span = "int \<times> span_row"

definition record_diagnostic :: "obs_env \<Rightarrow> string \<Rightarrow> int \<Rightarrow> string \<Rightarrow> pyval \<Rightarrow> int \<Rightarrow> unit tx" where
  "record_diagnostic env target_type target_id field_name v run s =
     (suppress_observability_failure
        (record_diagnostic_payload env target_type target_id field_name v (Some run)) s, Inr ())"

definition get_run :: "int \<Rightarrow> int tx" where
  "get_run run_id = tx_bind (tx_get ''Run'' os_runs run_id) (\<lambda>r. tx_return (fst r))"

definition get_span :: "span_ref \<Rightarrow> located_span tx" where
  "get_span spn = tx_bind (tx_res (int_of_text spn)) (\<lambda>pk. tx_get ''ExecutionSpan'' os_spans pk)"

definition touch_run :: "obs_env \<Rightarrow> int \<Rightarrow> located_span option \<Rightarrow> unit tx" where
  "touch_run env run spn =
     tx_bind (tz_now env) (\<lambda>now.
     tx_bind (tz_now env) (\<lambda>updated.
     tx_bind (tx_get ''Run'' os_runs run) (\<lambda>r.
       let row = (snd r)\<lparr>rt_last_event_at := Some now, rt_updated_at := updated\<rparr>
       in save_run_touch env run
            (case spn of None \<Rightarrow> row | Some sp \<Rightarrow> row\<lparr>rt_last_span_name := sn_name (snd sp)\<rparr>))))"

definition span_node :: "located_span option \<Rightarrow> string" where
  "span_node spn = (case spn of None \<Rightarrow> [] | Some sp \<Rightarrow> sn_node_name (snd sp))"

definition or_else :: "string \<Rightarrow> string \<Rightarrow> string" where
  "or_else a b = (if a = [] then b else a)"

definition emit_event ::
  "obs_env \<Rightarrow> int \<Rightarrow> string \<Rightarrow> string \<Rightarrow> string \<Rightarrow> pyitems option \<Rightarrow> located_span option \<Rightarrow> string \<Rightarrow> int tx" where
  "emit_event env run event_type level message payload spn node_name =
     tx_bind (tz_now env) (\<lambda>created.
     tx_bind (create_event env
       \<lparr>ev_run = run, ev_span = map_option fst spn, ev_event_type = event_type, ev_level = level,
        ev_node_name = or_else node_name (span_node spn),
        ev_message = observed_summary_text (Some message), ev_payload = sanitize_mapping payload,
        ev_created_at = created\<rparr>) (\<lambda>pk.
     tx_bind (tx_when (given payload \<noteq> [])
       (record_diagnostic env ''events'' pk ''payload_summary'' (PDict (given payload)) run)) (\<lambda>_.
     tx_bind (touch_run env run spn) (\<lambda>_.
     tx_return pk))))"

definition start_span ::
  "obs_env \<Rightarrow> int \<Rightarrow> string \<Rightarrow> string \<Rightarrow> string \<Rightarrow> span_ref option \<Rightarrow> pyitems option \<Rightarrow> int \<Rightarrow> span_ref tx" where
  "start_span env run span_type name node_name parent metadata attempt =
     tx_bind (tx_optional get_span parent) (\<lambda>parent_span.
     tx_bind (tz_now env) (\<lambda>started.
     tx_bind (tz_now env) (\<lambda>created.
     tx_bind (tz_now env) (\<lambda>updated.
       let row =
         \<lparr>sn_run = run, sn_parent = map_option fst parent_span, sn_span_type = span_type, sn_name = name,
          sn_status = Span_Running, sn_node_name = node_name, sn_attempt = attempt,
          sn_started_at = Some started, sn_finished_at = None, sn_duration_ms = None,
          sn_input_summary = summary_json metadata, sn_output_summary = [], sn_error_message = [],
          sn_metrics = PDict [], sn_metadata = sanitize_mapping metadata, sn_created_at = created,
          sn_updated_at = updated\<rparr>
       in tx_bind (create_span env row) (\<lambda>pk.
          tx_bind (tx_when (given metadata \<noteq> []) (tx_bind
            (record_diagnostic env ''spans'' pk ''input_summary'' (PDict (given metadata)) run) (\<lambda>_.
            record_diagnostic env ''spans'' pk ''metadata_summary'' (PDict (given metadata)) run))) (\<lambda>_.
          tx_bind (emit_event env run ''span.started'' ''debug'' name
            (Some (dict_items (sanitize_mapping metadata))) (Some (pk, row)) node_name) (\<lambda>_.
          tx_return (int_text pk))))))))"

definition text_value :: "string option \<Rightarrow> pyval" where
  "text_value t = (case t of None \<Rightarrow> PNone | Some s \<Rightarrow> PStr s)"

definition complete_span ::
  "obs_env \<Rightarrow> span_ref \<Rightarrow> span_status \<Rightarrow> string option \<Rightarrow> pyitems option \<Rightarrow> pyitems option \<Rightarrow> string \<Rightarrow> int tx" where
  "complete_span env span_ref status output_summary metrics metadata error_message =
     tx_bind (get_span span_ref) (\<lambda>(pk, spn).
     tx_bind (tz_now env) (\<lambda>now.
       let row = spn
         \<lparr>sn_status := status, sn_finished_at := Some now,
          sn_duration_ms := (case sn_started_at spn of None \<Rightarrow> sn_duration_ms spn
            | Some started \<Rightarrow> Some (duration_millis (now - started))),
          sn_output_summary := (case output_summary of None \<Rightarrow> sn_output_summary spn
            | Some t \<Rightarrow> observed_summary_text (Some t)),
          sn_metrics := (case metrics of None \<Rightarrow> sn_metrics spn | Some m \<Rightarrow> sanitize_mapping (Some m)),
          sn_metadata := (case metadata of None \<Rightarrow> sn_metadata spn | Some m \<Rightarrow> sanitize_mapping (Some m)),
          sn_error_message := (if error_message = [] then sn_error_message spn
            else observed_summary_text (Some error_message))\<rparr>;
         run = sn_run spn
       in tx_bind (tx_when (output_summary \<noteq> None)
            (record_diagnostic env ''spans'' pk ''output_summary'' (text_value output_summary) run)) (\<lambda>_.
          tx_bind (tx_when (metrics \<noteq> None)
            (record_diagnostic env ''spans'' pk ''metrics_summary'' (PDict (given metrics)) run)) (\<lambda>_.
          tx_bind (tx_when (metadata \<noteq> None)
            (record_diagnostic env ''spans'' pk ''metadata_summary'' (PDict (given metadata)) run)) (\<lambda>_.
          tx_bind (tz_now env) (\<lambda>updated.
          tx_bind (save_span env pk (row\<lparr>sn_updated_at := updated\<rparr>)) (\<lambda>_.
          tx_bind (touch_run env run (Some (pk, row))) (\<lambda>_.
          tx_return pk))))))))"

section \<open>Methods of the sink\<close>

definition the_message :: "string option \<Rightarrow> string" where
  "the_message m = (case m of None \<Rightarrow> [] | Some t \<Rightarrow> t)"

text \<open>The four methods on a run differ in the type and the level of the event.\<close>

definition run_event :: "obs_env \<Rightarrow> string \<Rightarrow> string \<Rightarrow> int \<Rightarrow> string \<Rightarrow> pyitems option \<Rightarrow> int tx" where
  "run_event env event_type level run_id message payload =
     atomic (tx_bind (get_run run_id) (\<lambda>run. emit_event env run event_type level message payload None []))"

definition run_started :: "obs_env \<Rightarrow> int \<Rightarrow> string option \<Rightarrow> pyitems option \<Rightarrow> int tx" where
  "run_started env run_id message payload = run_event env ''run.started'' ''info'' run_id (the_message message) payload"

definition run_completed :: "obs_env \<Rightarrow> int \<Rightarrow> string option \<Rightarrow> pyitems option \<Rightarrow> int tx" where
  "run_completed env run_id message payload = run_event env ''run.completed'' ''info'' run_id (the_message message) payload"

definition run_failed :: "obs_env \<Rightarrow> int \<Rightarrow> string \<Rightarrow> pyitems option \<Rightarrow> int tx" where
  "run_failed env run_id error_message payload = run_event env ''run.failed'' ''error'' run_id error_message payload"

definition run_cancelled :: "obs_env \<Rightarrow> int \<Rightarrow> string option \<Rightarrow> pyitems option \<Rightarrow> int tx" where
  "run_cancelled env run_id message payload = run_event env ''run.cancelled'' ''warning'' run_id (the_message message) payload"

definition semantic_event ::
  "obs_env \<Rightarrow> int \<Rightarrow> string \<Rightarrow> string option \<Rightarrow> pyitems option \<Rightarrow> string \<Rightarrow> span_ref option \<Rightarrow> string option \<Rightarrow> int tx" where
  "semantic_event env run_id name message payload level parent_span node_name =
     atomic (tx_bind (get_run run_id) (\<lambda>run.
       tx_bind (tx_optional get_span parent_span) (\<lambda>sp.
       emit_event env run (semantic_event_type name) level (or_else (the_message message) name) payload sp
         (or_else (the_message node_name) (span_node sp)))))"

definition span_started ::
  "obs_env \<Rightarrow> int \<Rightarrow> string \<Rightarrow> string \<Rightarrow> string option \<Rightarrow> span_ref option \<Rightarrow> pyitems option \<Rightarrow> span_ref tx" where
  "span_started env run_id span_type name node_name parent metadata =
     atomic (tx_bind (get_run run_id) (\<lambda>run.
       start_span env run span_type name (the_message node_name) parent metadata 1))"

definition node_started :: "obs_env \<Rightarrow> int \<Rightarrow> string \<Rightarrow> int \<Rightarrow> span_ref option \<Rightarrow> span_ref tx" where
  "node_started env run_id node_name attempt parent =
     atomic (tx_bind (get_run run_id) (\<lambda>run.
       start_span env run ''node'' node_name node_name parent None attempt))"

definition llm_metadata :: "string option \<Rightarrow> string option \<Rightarrow> pyitems option" where
  "llm_metadata provider model =
     (if the_message provider \<noteq> [] \<or> the_message model \<noteq> []
      then Some [(AStr ''provider'', text_value provider), (AStr ''model'', text_value model)] else None)"

definition llm_started ::
  "obs_env \<Rightarrow> int \<Rightarrow> string \<Rightarrow> string option \<Rightarrow> span_ref option \<Rightarrow> string option \<Rightarrow> string option \<Rightarrow> span_ref tx" where
  "llm_started env run_id name node_name parent provider model =
     atomic (tx_bind (get_run run_id) (\<lambda>run.
       start_span env run ''llm'' name (the_message node_name) parent (llm_metadata provider model) 1))"

definition tool_started :: "obs_env \<Rightarrow> int \<Rightarrow> string \<Rightarrow> string option \<Rightarrow> span_ref option \<Rightarrow> span_ref tx" where
  "tool_started env run_id tool_name node_name parent =
     atomic (tx_bind (get_run run_id) (\<lambda>run.
       start_span env run ''tool'' tool_name (the_message node_name) parent None 1))"

text \<open>The methods that end a span differ in the type of the event and in taking metadata.\<close>

definition end_succeeded ::
  "obs_env \<Rightarrow> string \<Rightarrow> span_ref \<Rightarrow> string option \<Rightarrow> pyitems option \<Rightarrow> pyitems option \<Rightarrow> int tx" where
  "end_succeeded env event_type sref output_summary metrics metadata =
     atomic (tx_bind (get_span sref) (\<lambda>sp.
       tx_bind (emit_event env (sn_run (snd sp)) event_type ''debug'' (sn_name (snd sp))
         (Some [(AStr ''output_summary'', PStr (observed_summary_text output_summary))]) (Some sp)
         (sn_node_name (snd sp))) (\<lambda>_.
       complete_span env sref Span_Succeeded output_summary metrics metadata [])))"

definition end_failed ::
  "obs_env \<Rightarrow> string \<Rightarrow> span_ref \<Rightarrow> string \<Rightarrow> pyitems option \<Rightarrow> pyitems option \<Rightarrow> int tx" where
  "end_failed env event_type sref error_message metrics metadata =
     atomic (tx_bind (get_span sref) (\<lambda>sp.
       tx_bind (emit_event env (sn_run (snd sp)) event_type ''error'' error_message
         (Some [(AStr ''error_message'', PStr (observed_summary_text (Some error_message)))]) (Some sp)
         (sn_node_name (snd sp))) (\<lambda>_.
       complete_span env sref Span_Failure None metrics metadata error_message)))"

definition span_completed :: "obs_env \<Rightarrow> span_ref \<Rightarrow> string option \<Rightarrow> pyitems option \<Rightarrow> pyitems option \<Rightarrow> int tx" where
  "span_completed env sref output_summary metrics metadata =
     end_succeeded env ''span.completed'' sref output_summary metrics metadata"

definition node_completed :: "obs_env \<Rightarrow> span_ref \<Rightarrow> string option \<Rightarrow> pyitems option \<Rightarrow> int tx" where
  "node_completed env sref output_summary metrics = end_succeeded env ''node.completed'' sref output_summary metrics None"

definition llm_completed :: "obs_env \<Rightarrow> span_ref \<Rightarrow> string option \<Rightarrow> pyitems option \<Rightarrow> int tx" where
  "llm_completed env sref output_summary metrics = end_succeeded env ''llm.completed'' sref output_summary metrics None"

definition tool_completed :: "obs_env \<Rightarrow> span_ref \<Rightarrow> string option \<Rightarrow> pyitems option \<Rightarrow> int tx" where
  "tool_completed env sref output_summary metrics = end_succeeded env ''tool.completed'' sref output_summary metrics None"

definition span_failed :: "obs_env \<Rightarrow> span_ref \<Rightarrow> string \<Rightarrow> pyitems option \<Rightarrow> pyitems option \<Rightarrow> int tx" where
  "span_failed env sref error_message metrics metadata =
     end_failed env ''span.failed'' sref error_message metrics metadata"

definition node_failed :: "obs_env \<Rightarrow> span_ref \<Rightarrow> string \<Rightarrow> pyitems option \<Rightarrow> int tx" where
  "node_failed env sref error_message metrics = end_failed env ''node.failed'' sref error_message metrics None"

definition llm_failed :: "obs_env \<Rightarrow> span_ref \<Rightarrow> string \<Rightarrow> pyitems option \<Rightarrow> int tx" where
  "llm_failed env sref error_message metrics = end_failed env ''llm.failed'' sref error_message metrics None"

definition tool_failed :: "obs_env \<Rightarrow> span_ref \<Rightarrow> string \<Rightarrow> pyitems option \<Rightarrow> int tx" where
  "tool_failed env sref error_message metrics = end_failed env ''tool.failed'' sref error_message metrics None"

definition artifact_created ::
  "obs_env \<Rightarrow> int \<Rightarrow> string \<Rightarrow> string \<Rightarrow> string \<Rightarrow> span_ref option \<Rightarrow> pyitems option \<Rightarrow> string \<Rightarrow> int option \<Rightarrow> int tx" where
  "artifact_created env run_id storage_key name kind sref metadata content_type byte_count =
     atomic (tx_bind (get_run run_id) (\<lambda>run.
       tx_bind (tx_optional get_span sref) (\<lambda>sp.
       tx_bind (tx_res (validate_storage_key storage_key)) (\<lambda>validated_storage_key.
       tx_bind (tz_now env) (\<lambda>created.
       tx_bind (create_artifact env
         \<lparr>ar_run = run, ar_span = map_option fst sp, ar_name = name, ar_kind = kind,
          ar_storage_key = validated_storage_key, ar_content_type = observed_summary_text (Some content_type),
          ar_size = byte_count, ar_metadata = sanitize_mapping metadata, ar_created_at = created\<rparr>) (\<lambda>pk.
       tx_bind (tx_when (given metadata \<noteq> [])
         (record_diagnostic env ''artifacts'' pk ''metadata_summary'' (PDict (given metadata)) run)) (\<lambda>_.
       tx_bind (emit_event env run ''artifact.created'' ''info'' name
         (Some [(AStr ''storage_key'', PStr validated_storage_key), (AStr ''kind'', PStr kind)]) sp
         (span_node sp)) (\<lambda>_.
       tx_return pk))))))))"

definition checkpoint_saved ::
  "obs_env \<Rightarrow> int \<Rightarrow> string \<Rightarrow> string \<Rightarrow> string \<Rightarrow> span_ref option \<Rightarrow> string option \<Rightarrow> string \<Rightarrow> int tx" where
  "checkpoint_saved env run_id thread_id checkpoint_id backend sref state_summary checkpoint_namespace =
     atomic (tx_bind (get_run run_id) (\<lambda>run.
       tx_bind (tx_optional get_span sref) (\<lambda>sp.
       tx_bind (tz_now env) (\<lambda>created.
       tx_bind (create_checkpoint env
         \<lparr>ck_run = run, ck_span = map_option fst sp, ck_thread_id = thread_id, ck_checkpoint_id = checkpoint_id,
          ck_namespace = observed_summary_text (Some checkpoint_namespace), ck_backend = backend,
          ck_node_name = span_node sp, ck_state_summary = observed_summary_text state_summary,
          ck_created_at = created\<rparr>) (\<lambda>pk.
       tx_bind (tx_when (the_message state_summary \<noteq> [])
         (record_diagnostic env ''checkpoints'' pk ''state_summary'' (text_value state_summary) run)) (\<lambda>_.
       tx_bind (emit_event env run ''checkpoint.saved'' ''info'' checkpoint_id
         (Some [(AStr ''backend'', PStr backend)]) sp (span_node sp)) (\<lambda>_.
       tx_return pk)))))))"

definition integration_projection :: "obs_env \<Rightarrow> int \<Rightarrow> span_ref option \<Rightarrow> projection_args \<Rightarrow> int tx" where
  "integration_projection env run_id sref a =
     atomic (tx_bind (get_run run_id) (\<lambda>run.
       tx_bind (tx_optional get_span sref) (\<lambda>sp. record_integration_projection env run sp a)))"

section \<open>Calls\<close>

text \<open>A call of the sink with its arguments, and what it answers.\<close>

datatype sink_call =
    Run_Started_Call int "string option" "pyitems option"
  | Run_Completed_Call int "string option" "pyitems option"
  | Run_Failed_Call int string "pyitems option"
  | Run_Cancelled_Call int "string option" "pyitems option"
  | Semantic_Call int string "string option" "pyitems option" string "span_ref option" "string option"
  | Span_Started_Call int string string "string option" "span_ref option" "pyitems option"
  | Node_Started_Call int string int "span_ref option"
  | Llm_Started_Call int string "string option" "span_ref option" "string option" "string option"
  | Tool_Started_Call int string "string option" "span_ref option"
  | Span_Completed_Call span_ref "string option" "pyitems option" "pyitems option"
  | Node_Completed_Call span_ref "string option" "pyitems option"
  | Llm_Completed_Call span_ref "string option" "pyitems option"
  | Tool_Completed_Call span_ref "string option" "pyitems option"
  | Span_Failed_Call span_ref string "pyitems option" "pyitems option"
  | Node_Failed_Call span_ref string "pyitems option"
  | Llm_Failed_Call span_ref string "pyitems option"
  | Tool_Failed_Call span_ref string "pyitems option"
  | Artifact_Call int string string string "span_ref option" "pyitems option" string "int option"
  | Checkpoint_Call int string string string "span_ref option" "string option" string
  | Projection_Call int "span_ref option" projection_args

datatype answer = Row_Key int | Span_Ref span_ref

definition row_key :: "int tx \<Rightarrow> answer tx" where
  "row_key m = tx_bind m (\<lambda>pk. tx_return (Row_Key pk))"

definition new_span :: "span_ref tx \<Rightarrow> answer tx" where
  "new_span m = tx_bind m (\<lambda>r. tx_return (Span_Ref r))"

fun perform :: "obs_env \<Rightarrow> sink_call \<Rightarrow> answer tx" where
  "perform env (Run_Started_Call r m p) = row_key (run_started env r m p)"
| "perform env (Run_Completed_Call r m p) = row_key (run_completed env r m p)"
| "perform env (Run_Failed_Call r m p) = row_key (run_failed env r m p)"
| "perform env (Run_Cancelled_Call r m p) = row_key (run_cancelled env r m p)"
| "perform env (Semantic_Call r n m p l ps nn) = row_key (semantic_event env r n m p l ps nn)"
| "perform env (Span_Started_Call r t n nn ps md) = new_span (span_started env r t n nn ps md)"
| "perform env (Node_Started_Call r nn a ps) = new_span (node_started env r nn a ps)"
| "perform env (Llm_Started_Call r n nn ps pr mo) = new_span (llm_started env r n nn ps pr mo)"
| "perform env (Tool_Started_Call r n nn ps) = new_span (tool_started env r n nn ps)"
| "perform env (Span_Completed_Call sp t m md) = row_key (span_completed env sp t m md)"
| "perform env (Node_Completed_Call sp t m) = row_key (node_completed env sp t m)"
| "perform env (Llm_Completed_Call sp t m) = row_key (llm_completed env sp t m)"
| "perform env (Tool_Completed_Call sp t m) = row_key (tool_completed env sp t m)"
| "perform env (Span_Failed_Call sp e m md) = row_key (span_failed env sp e m md)"
| "perform env (Node_Failed_Call sp e m) = row_key (node_failed env sp e m)"
| "perform env (Llm_Failed_Call sp e m) = row_key (llm_failed env sp e m)"
| "perform env (Tool_Failed_Call sp e m) = row_key (tool_failed env sp e m)"
| "perform env (Artifact_Call r k n kd sp md ct sz) = row_key (artifact_created env r k n kd sp md ct sz)"
| "perform env (Checkpoint_Call r t c b sp ss ns) = row_key (checkpoint_saved env r t c b sp ss ns)"
| "perform env (Projection_Call r sp a) = row_key (integration_projection env r sp a)"

text \<open>A sequence of calls, each one's exception leaving the others to go on.\<close>

fun perform_all :: "obs_env \<Rightarrow> sink_call list \<Rightarrow> obs_state \<Rightarrow> obs_state" where
  "perform_all env [] s = s"
| "perform_all env (c # cs) s = perform_all env cs (fst (perform env c s))"


end
