(* ===== verification/Event_Invariants.thy ===== *)
theory Event_Invariants
  imports Event_Sink
begin

text \<open>
  What every call of the event sink keeps: the rows refer to rows that exist, what is persisted of a
  value is redacted and bounded, spans form a forest, and the timeline only grows. The lemmas
  are stated with \<open>tx_post\<close>, the condition on the state and the answer of a transaction that returns.
\<close>

section \<open>Sanitized values\<close>

fun small_value :: "pyval \<Rightarrow> bool"
and small_list :: "pyval list \<Rightarrow> bool"
and small_items :: "pyitems \<Rightarrow> bool"
where
  "small_value (Atom a) = (case a of AStr s \<Rightarrow> length s \<le> 300 | _ \<Rightarrow> True)"
| "small_value (PList xs) = (length xs \<le> 20 \<and> small_list xs)"
| "small_value (PTuple xs) = False"
| "small_value (PDict kvs) = (length kvs \<le> 20 \<and> small_items kvs)"
| "small_list [] = True"
| "small_list (x # xs) = (small_value x \<and> small_list xs)"
| "small_items [] = True"
| "small_items ((k, v) # kvs) = (small_value v \<and> small_items kvs)"

lemma small_items_iff: "small_items kvs \<longleftrightarrow> (\<forall>(k, v) \<in> set kvs. small_value v)"
  by (induction kvs) auto

lemma small_list_iff: "small_list xs \<longleftrightarrow> (\<forall>x \<in> set xs. small_value x)"
  by (induction xs) auto

lemma small_dict_of: "small_items kvs \<Longrightarrow> small_items (dict_of kvs)"
  using set_dict_of [of kvs] unfolding small_items_iff by blast

lemma length_observed_text [simp]: "length (observed_text s) \<le> 300"
  using length_preview_text [of 300 "redact_text s"] by (simp add: observed_text_def OBSERVABILITY_MAX_CHARS_def)

lemma length_observed_summary_text [simp]: "length (observed_summary_text s) \<le> 300"
  by (simp add: observed_summary_text_def)

lemma length_sanitize_entries: "length (sanitize_entries d i kvs) \<le> 20 - i"
proof (induction kvs arbitrary: i)
  case (Cons p kvs)
  show ?case using Cons.IH [of "Suc i"] by (cases p) (auto simp: Let_def OBSERVABILITY_MAX_ITEMS_def)
qed simp

lemma length_sanitize_items: "length (sanitize_items d i xs) \<le> 20 - i"
proof (induction xs arbitrary: i)
  case (Cons x xs)
  show ?case using Cons.IH [of "Suc i"] by (auto simp: OBSERVABILITY_MAX_ITEMS_def)
qed simp

lemma small_redacted [simp]: "length REDACTED_VALUE \<le> 300"
  by (simp add: REDACTED_VALUE_def)

lemma small_sanitize:
  "small_value (sanitize_value d v)"
  "small_items (sanitize_entries d i kvs)"
  "small_list (sanitize_items d i xs)"
proof (induction d v and d i kvs and d i xs
    rule: sanitize_value_sanitize_entries_sanitize_items.induct)
  case (1 d a)
  then show ?case by (cases a) simp_all
next
  case (2 d kvs)
  have "length (dict_of (sanitize_entries (Suc d) 0 kvs)) \<le> 20"
    using length_dict_of [of "sanitize_entries (Suc d) 0 kvs"] length_sanitize_entries [of "Suc d" 0 kvs] by simp
  then show ?case using 2 by (simp add: small_dict_of)
next
  case (3 d xs)
  then show ?case
    using length_sanitize_items [of "Suc d" 0 xs]
    by (auto simp: small_list_iff OBSERVABILITY_MAX_ITEMS_def)
next
  case (4 d xs)
  then show ?case
    using length_sanitize_items [of "Suc d" 0 xs]
    by (auto simp: small_list_iff OBSERVABILITY_MAX_ITEMS_def)
qed (simp_all add: Let_def)

lemma covered_sanitize:
  "covered (sanitize_value d v)"
  "covered_items (sanitize_entries d i kvs)"
  "covered_list (sanitize_items d i xs)"
proof (induction d v and d i kvs and d i xs
    rule: sanitize_value_sanitize_entries_sanitize_items.induct)
  case (1 d a)
  then show ?case by (cases a) simp_all
qed (auto simp: covered_dict_of covered_list_iff Let_def)

lemma depth_sanitize:
  "val_depth (sanitize_value d v) \<le> Suc (4 - d)"
  "items_depth (sanitize_entries d i kvs) \<le> Suc (4 - d)"
  "list_depth (sanitize_items d i xs) \<le> Suc (4 - d)"
proof (induction d v and d i kvs and d i xs
    rule: sanitize_value_sanitize_entries_sanitize_items.induct)
  case (1 d a)
  then show ?case by (cases a) simp_all
next
  case (2 d kvs)
  show ?case
  proof (cases "4 \<le> d")
    case False
    then have "items_depth (dict_of (sanitize_entries (Suc d) 0 kvs)) \<le> Suc (4 - Suc d)"
      using 2 by (intro items_depth_dict_of) (simp add: OBSERVABILITY_MAX_DEPTH_def)
    then show ?thesis using False by (simp add: OBSERVABILITY_MAX_DEPTH_def Suc_diff_Suc)
  qed (simp add: OBSERVABILITY_MAX_DEPTH_def)
next
  case (3 d xs)
  then show ?case by (cases "4 \<le> d") (simp_all add: OBSERVABILITY_MAX_DEPTH_def list_depth_const Suc_diff_Suc)
next
  case (4 d xs)
  then show ?case by (cases "4 \<le> d") (simp_all add: OBSERVABILITY_MAX_DEPTH_def list_depth_const Suc_diff_Suc)
qed (auto simp: Let_def)

text \<open>A persisted value: redacted, at most five levels deep, with short texts and few entries.\<close>

definition tidy :: "pyval \<Rightarrow> bool" where
  "tidy v = (covered v \<and> val_depth v \<le> 5 \<and> small_value v)"

lemma tidy_sanitize [simp]: "tidy (sanitize_mapping value)"
  using covered_sanitize(1) [of 0 "PDict (given value)"] depth_sanitize(1) [of 0 "PDict (given value)"]
    small_sanitize(1) [of 0 "PDict (given value)"]
  by (simp add: tidy_def sanitize_mapping_def)

lemma tidy_empty [simp]: "tidy (PDict [])"
  by (simp add: tidy_def)

text \<open>
  The summary in a span's row: labels of sensitive keys are replaced by the marker, so that no key of
  the summary is sensitive, and neither is one of the message previews.
\<close>

lemma summary_keys_not_sensitive:
  "\<not> is_sensitive_key ''keys''" "\<not> is_sensitive_key ''types''" "\<not> is_sensitive_key ''sizes''"
  "\<not> is_sensitive_key ''count''" "\<not> is_sensitive_key ''truncated''" "\<not> is_sensitive_key ''omitted_count''"
  "\<not> is_sensitive_key ''truncation_reason''" "\<not> is_sensitive_key ''role''" "\<not> is_sensitive_key ''preview''"
  "\<not> is_sensitive_key ''message_previews''" "\<not> is_sensitive_key REDACTED_VALUE"
  by code_simp+

definition covered_fields :: "pydict \<Rightarrow> bool" where
  "covered_fields d = (\<forall>(k, v) \<in> set d. \<not> is_sensitive_key k \<and> covered v)"

lemma covered_fields_simps:
  "covered_fields []" "covered_fields ((k, v) # d) \<longleftrightarrow> \<not> is_sensitive_key k \<and> covered v \<and> covered_fields d"
  by (auto simp: covered_fields_def)

lemma covered_pdict: "covered_fields d \<Longrightarrow> covered (pdict d)"
  by (auto simp: covered_fields_def pdict_def covered_items_iff)

lemma covered_fields_set: "covered_fields d \<Longrightarrow> \<not> is_sensitive_key k \<Longrightarrow> covered v \<Longrightarrow> covered_fields (dict_set k v d)"
  by (induction d) (auto simp: covered_fields_def)

lemma key_label_not_sensitive: "\<not> is_sensitive_key (key_label k)"
  by (simp add: key_label_def summary_keys_not_sensitive)

lemma covered_columns:
  assumes "\<And>v. covered (preview v)"
  shows "covered_fields (summary_columns key_label preview items)"
proof -
  have "\<exists>ks types sizes previews. foldl (summary_step key_label preview) (ks0, t0, s0, p0) items = (ks, types, sizes, previews)
      \<and> covered_list ks \<and> covered_fields types \<and> covered_fields sizes \<and> covered_fields previews"
    if "covered_list ks0" "covered_fields t0" "covered_fields s0" "covered_fields p0" for ks0 t0 s0 p0
    using that
  proof (induction items arbitrary: ks0 t0 s0 p0)
    case (Cons item items)
    show ?case
      unfolding foldl_Cons summary_step_def [of _ _ _ item] Let_def prod.case
      by (rule Cons.IH)
        (use Cons.prems assms in \<open>auto simp: covered_list_iff covered_fields_set key_label_not_sensitive split: option.split\<close>)
  qed simp
  from this [of "[]" "[]" "[]" "[]"] show ?thesis
    by (auto simp: summary_columns_def covered_fields_simps covered_pdict
        summary_keys_not_sensitive)
qed

lemma covered_note: "covered_fields (truncation_note n m)"
  by (simp add: truncation_note_def covered_fields_simps summary_keys_not_sensitive)

lemma covered_fields_append: "covered_fields (a @ b) \<longleftrightarrow> covered_fields a \<and> covered_fields b"
  by (auto simp: covered_fields_def)

lemma covered_summarize: "covered (summarize_value d m v)"
proof (induction d m v rule: summarize_value.induct)
  case (1 d m v)
  have a: "covered (preview_scalar a n)" for a n by (cases a) simp_all
  show ?case
  proof (cases "d < 0")
    case False
    note IH = 1 [OF False]
    show ?thesis
    proof (cases v)
      case (PDict kvs)
      have "covered_fields (summary_columns key_label (summarize_value (d - 1) m) items)" for items
        by (rule covered_columns) (use IH PDict in blast)
      then show ?thesis
        using False PDict covered_note by (subst summarize_value.simps)
          (auto simp: Let_def covered_fields_append covered_fields_simps summary_keys_not_sensitive
            intro!: covered_pdict)
    qed (use False IH a in \<open>subst summarize_value.simps; auto simp: covered_list_iff\<close>)+
  qed (simp add: summarize_value.simps)
qed

lemma covered_summary_mapping: "covered_fields (summarize_mapping d m kvs)"
  using covered_note covered_columns [OF covered_summarize]
  by (simp add: summarize_mapping_def Let_def covered_fields_append covered_fields_simps
      summary_keys_not_sensitive)

lemma covered_preview: "x \<in> set (message_preview item) \<Longrightarrow> covered x"
  by (cases item) (auto simp: message_preview_def Let_def summary_keys_not_sensitive)

lemma covered_previews: "covered_list (message_previews v)"
  unfolding message_previews_def Let_def covered_list_iff
  by (cases "map_of (given v) (AStr ''message_previews'')") (auto split: pyval.splits intro: covered_preview)

lemma summary_json_covered: "\<exists>v. covered v \<and> summary_json md = json_default v"
proof -
  define base where "base = summarize_mapping DEFAULT_MAX_DEPTH DEFAULT_MAX_ITEMS (dict_items (sanitize_mapping md))"
  have base: "covered_fields base" by (simp add: base_def covered_summary_mapping)
  have "covered (PDict (dict_set (AStr ''message_previews'') (PList (message_previews md)) preview))"
    if "map_of base ''preview'' = Some (PDict preview)" for preview
  proof -
    have "covered_items preview" using base map_of_SomeD [OF that] by (auto simp: covered_fields_def)
    then show ?thesis
      using covered_previews [of md] by (induction preview) (auto simp: summary_keys_not_sensitive)
  qed
  then have "covered_fields (if message_previews md = [] then base
      else (case map_of base ''preview'' of
          Some (PDict preview) \<Rightarrow>
            dict_set ''preview'' (PDict (dict_set (AStr ''message_previews'') (PList (message_previews md)) preview)) base
        | _ \<Rightarrow> base))"
    using base covered_fields_set summary_keys_not_sensitive(9) by (auto split: option.split pyval.split)
  then show ?thesis
    unfolding summary_json_def base_def Let_def by (metis covered_pdict)
qed

section \<open>Nothing under a sensitive key is persisted\<close>

lemma sanitize_erase:
  "sanitize_value d (erase_secrets v) = sanitize_value d v"
  "sanitize_entries d i (erase_items kvs) = sanitize_entries d i kvs"
  "sanitize_items d i (erase_list xs) = sanitize_items d i xs"
  by (induction d v and d i kvs and d i xs rule: sanitize_value_sanitize_entries_sanitize_items.induct)
    (simp_all add: Let_def erase_list_map map_replicate_const)

abbreviation erase_given :: "pyitems option \<Rightarrow> pyitems option" where
  "erase_given \<equiv> map_option erase_items"

lemma given_erase: "given (erase_given value) = erase_items (given value)"
  by (cases "value") (simp_all add: given_def)

lemma erase_items_Nil [simp]: "erase_items kvs = [] \<longleftrightarrow> kvs = []"
  by (cases kvs) auto

lemma sanitize_mapping_erase [simp]: "sanitize_mapping (erase_given value) = sanitize_mapping value"
  using sanitize_erase(1) [of 0 "PDict (given value)"] by (simp add: sanitize_mapping_def given_erase)

lemma map_of_erase_items:
  "map_of (erase_items kvs) k =
     map_option (\<lambda>v. if is_sensitive_key (atom_text k) then PNone else erase_secrets v) (map_of kvs k)"
  by (induction kvs) auto

text \<open>
  The previews of messages are taken from the value itself, each with \<open>str\<close> of what stands under
  \<open>role\<close> and \<open>preview\<close>. Where these are scalars, as an observed client writes them, no
  secret is in reach; the text of a container would include what it holds under sensitive keys.
\<close>

definition plain_preview :: "pyval \<Rightarrow> bool" where
  "plain_preview item = (case item of
     PDict d \<Rightarrow> list_all (\<lambda>n. case map_of d (AStr n) of
         None \<Rightarrow> True | Some (Atom _) \<Rightarrow> True | Some _ \<Rightarrow> False) [''role'', ''preview'']
   | _ \<Rightarrow> True)"

definition plain_previews :: "pyitems option \<Rightarrow> bool" where
  "plain_previews value =
     (case map_of (given value) (AStr ''message_previews'') of
        Some (PList xs) \<Rightarrow> list_all plain_preview xs
      | Some (PTuple xs) \<Rightarrow> list_all plain_preview xs
      | _ \<Rightarrow> True)"

lemma preview_keys_not_sensitive:
  "\<not> is_sensitive_key ''role''" "\<not> is_sensitive_key ''preview''" "\<not> is_sensitive_key ''message_previews''"
  by code_simp+

lemma preview_field_erase:
  assumes "\<not> is_sensitive_key n" and "case map_of d (AStr n) of None \<Rightarrow> True | Some (Atom _) \<Rightarrow> True | Some _ \<Rightarrow> False"
  shows "preview_field (erase_items d) n fallback m = preview_field d n fallback m"
  using assms by (auto simp: preview_field_def map_of_erase_items split: option.splits pyval.splits)

lemma message_preview_erase: "plain_preview item \<Longrightarrow> message_preview (erase_secrets item) = message_preview item"
  by (cases item)
    (simp_all add: message_preview_def plain_preview_def preview_field_erase preview_keys_not_sensitive)

lemma message_previews_erase:
  assumes "plain_previews value"
  shows "message_previews (erase_given value) = message_previews value"
proof -
  have "concat (map message_preview (take n (erase_list xs))) = concat (map message_preview (take n xs))"
    if "list_all plain_preview xs" for n xs
  proof -
    have "map message_preview (take n (erase_list xs)) = map message_preview (take n xs)"
      using that set_take_subset [of n xs] message_preview_erase
      by (auto simp: erase_list_map take_map list_all_iff)
    then show ?thesis by simp
  qed
  then show ?thesis
    using assms preview_keys_not_sensitive(3)
    by (auto simp: message_previews_def plain_previews_def given_erase map_of_erase_items Let_def
        split: option.splits pyval.splits)
qed

lemma summary_json_erase: "plain_previews value \<Longrightarrow> summary_json (erase_given value) = summary_json value"
  by (simp add: summary_json_def message_previews_erase)

lemma record_payload_erase:
  "record_diagnostic_payload env tt ti f (PDict (erase_items kvs)) run =
   record_diagnostic_payload env tt ti f (PDict kvs) run"
  using bounded_attempts_erase [of _ "PDict kvs"]
  by (simp add: record_diagnostic_payload_def build_bounded_diagnostic_def)

lemma record_diagnostic_erase [simp]:
  "record_diagnostic env tt ti f (PDict (erase_items kvs)) run = record_diagnostic env tt ti f (PDict kvs) run"
  by (rule ext) (simp add: record_diagnostic_def record_payload_erase)

lemma emit_event_erase [simp]:
  "emit_event env run ty l m (erase_given p) sp n = emit_event env run ty l m p sp n"
  by (simp add: emit_event_def given_erase)

lemma start_span_erase:
  "plain_previews md \<Longrightarrow> start_span env run t n nn ps (erase_given md) a = start_span env run t n nn ps md a"
  by (simp add: start_span_def given_erase summary_json_erase)

lemma erase_given_None: "erase_given value = None \<longleftrightarrow> value = None"
  by simp

lemma complete_span_erase [simp]:
  "complete_span env sp st out (erase_given m) (erase_given md) e = complete_span env sp st out m md e"
  "complete_span env sp st out (erase_given m) None e = complete_span env sp st out m None e"
  using sanitize_mapping_erase [of m] sanitize_mapping_erase [of md]
  by (cases m; cases md; simp add: complete_span_def given_def)+

fun erase_call :: "sink_call \<Rightarrow> sink_call" where
  "erase_call (Run_Started_Call r m p) = Run_Started_Call r m (erase_given p)"
| "erase_call (Run_Completed_Call r m p) = Run_Completed_Call r m (erase_given p)"
| "erase_call (Run_Failed_Call r m p) = Run_Failed_Call r m (erase_given p)"
| "erase_call (Run_Cancelled_Call r m p) = Run_Cancelled_Call r m (erase_given p)"
| "erase_call (Semantic_Call r n m p l ps nn) = Semantic_Call r n m (erase_given p) l ps nn"
| "erase_call (Span_Started_Call r t n nn ps md) = Span_Started_Call r t n nn ps (erase_given md)"
| "erase_call (Span_Completed_Call sp t m md) = Span_Completed_Call sp t (erase_given m) (erase_given md)"
| "erase_call (Node_Completed_Call sp t m) = Node_Completed_Call sp t (erase_given m)"
| "erase_call (Llm_Completed_Call sp t m) = Llm_Completed_Call sp t (erase_given m)"
| "erase_call (Tool_Completed_Call sp t m) = Tool_Completed_Call sp t (erase_given m)"
| "erase_call (Span_Failed_Call sp e m md) = Span_Failed_Call sp e (erase_given m) (erase_given md)"
| "erase_call (Node_Failed_Call sp e m) = Node_Failed_Call sp e (erase_given m)"
| "erase_call (Llm_Failed_Call sp e m) = Llm_Failed_Call sp e (erase_given m)"
| "erase_call (Tool_Failed_Call sp e m) = Tool_Failed_Call sp e (erase_given m)"
| "erase_call (Artifact_Call r k n kd sp md ct sz) = Artifact_Call r k n kd sp (erase_given md) ct sz"
| "erase_call (Projection_Call r sp a) = Projection_Call r sp (a\<lparr>pa_payload := erase_secrets (pa_payload a)\<rparr>)"
| "erase_call c = c"

fun plain_call :: "sink_call \<Rightarrow> bool" where
  "plain_call (Span_Started_Call r t n nn ps md) = plain_previews md"
| "plain_call _ = True"

lemmas sink_methods = run_started_def run_completed_def run_failed_def run_cancelled_def run_event_def
  semantic_event_def span_started_def node_started_def llm_started_def tool_started_def
  span_completed_def node_completed_def llm_completed_def tool_completed_def
  span_failed_def node_failed_def llm_failed_def tool_failed_def
  end_succeeded_def end_failed_def artifact_created_def checkpoint_saved_def integration_projection_def

lemma perform_erase: "plain_call c \<Longrightarrow> perform env (erase_call c) = perform env c"
proof (induction c rule: erase_call.induct)
  case (16 r sp a)
  show ?case
    using bounded_attempts_erase [of _ "pa_payload a"]
    by (simp add: integration_projection_def record_integration_projection_def check_projection_def
        build_bounded_diagnostic_def)
qed (simp_all add: sink_methods start_span_erase given_erase)

end
