(* ===== verification/Event_Timeline.thy ===== *)
theory Event_Timeline
  imports Event_Invariants
begin

text \<open>
  The tables as a whole: the invariant of their rows (references, bounds, the forest of spans), the
  order of the tables under which the timeline only grows, and the proof that each transaction of the
  sink keeps them. \<open>tx_post m Q s\<close> says that \<open>Q\<close> holds of the answer and the state when \<open>m\<close> returns.
\<close>

section \<open>Conditions on transactions\<close>

named_theorems tx_rules "conditions on the transactions of the sink"

definition tx_post :: "'a tx \<Rightarrow> ('a \<Rightarrow> obs_state \<Rightarrow> bool) \<Rightarrow> obs_state \<Rightarrow> bool" where
  "tx_post m Q s = (case m s of (s', Inl _) \<Rightarrow> True | (s', Inr x) \<Rightarrow> Q x s')"

lemma tx_post_basic [tx_rules]:
  "tx_post (tx_return x) Q = Q x"
  "tx_post (tx_res r) Q = (\<lambda>s. \<forall>x. r = Inr x \<longrightarrow> Q x s)"
  "tx_post (tz_now env) Qt = (\<lambda>s. Qt (oe_clock env (os_ticks s)) (s\<lparr>os_ticks := Suc (os_ticks s)\<rparr>))"
  "tx_post (write_row env row g) Qu = (\<lambda>s. oe_refuses env row = None \<longrightarrow> Qu () (g s))"
  "tx_post (tx_get model rows pk) Qr = (\<lambda>s. \<forall>r. map_of (rows s) pk = Some r \<longrightarrow> Qr (pk, r) s)"
  by (auto simp: tx_post_def tx_return_def tx_res_def tz_now_def write_row_def tx_get_def fun_eq_iff
      split: sum.splits option.splits)

lemma tx_post_bind [tx_rules]: "tx_post (tx_bind m f) Q = tx_post m (\<lambda>x. tx_post (f x) Q)"
  by (auto simp: tx_post_def tx_bind_def fun_eq_iff split: sum.splits prod.splits)

lemma tx_post_atomic [tx_rules]: "tx_post (atomic m) Q = tx_post m Q"
  by (auto simp: tx_post_def atomic_def fun_eq_iff split: sum.splits prod.splits)

lemma tx_post_optional [tx_rules]:
  "tx_post (tx_optional f x) Q = (case x of None \<Rightarrow> Q None | Some y \<Rightarrow> tx_post (f y) (\<lambda>z. Q (Some z)))"
  by (cases x) (simp_all add: tx_optional_def tx_rules)

lemma tx_post_when [tx_rules]:
  "tx_post (tx_when b m) Q = (\<lambda>s. if b then tx_post m Q s else Q () s)"
  by (simp add: tx_when_def tx_rules fun_eq_iff)

lemma tx_post_mono: "tx_post m P s \<Longrightarrow> (\<And>x s'. P x s' \<Longrightarrow> Q x s') \<Longrightarrow> tx_post m Q s"
  by (auto simp: tx_post_def split: sum.splits prod.splits)

lemma atomic_failed: "atomic m s = (s', Inl e) \<Longrightarrow> s' = s\<lparr>os_ticks := os_ticks s'\<rparr>"
  by (auto simp: atomic_def split: sum.splits prod.splits)

section \<open>The invariant\<close>

abbreviation known :: "(int \<times> 'a) list \<Rightarrow> int set" where
  "known rows \<equiv> fst ` set rows"

definition known_option :: "int set \<Rightarrow> int option \<Rightarrow> bool" where
  "known_option S p = (case p of None \<Rightarrow> True | Some k \<Rightarrow> k \<in> S)"

definition event_ok :: "int set \<Rightarrow> int set \<Rightarrow> event_row \<Rightarrow> bool" where
  "event_ok R S r = (ev_run r \<in> R \<and> known_option S (ev_span r) \<and> length (ev_message r) \<le> 300 \<and> tidy (ev_payload r))"

text \<open>
  A span refers to a parent with a smaller key, so that the parents form a forest, and it is finished
  exactly when its status is final.
\<close>

definition span_ok :: "int set \<Rightarrow> int set \<Rightarrow> int \<Rightarrow> span_row \<Rightarrow> bool" where
  "span_ok R S k r = (sn_run r \<in> R \<and> known_option {p \<in> S. p < k} (sn_parent r)
     \<and> sn_status r \<in> {Span_Running, Span_Succeeded, Span_Failure}
     \<and> (sn_finished_at r \<noteq> None \<longleftrightarrow> is_terminal_span (sn_status r))
     \<and> sn_started_at r \<noteq> None \<and> (sn_duration_ms r \<noteq> None \<longleftrightarrow> sn_finished_at r \<noteq> None)
     \<and> (\<exists>v. covered v \<and> sn_input_summary r = json_default v)
     \<and> length (sn_output_summary r) \<le> 300 \<and> length (sn_error_message r) \<le> 300
     \<and> tidy (sn_metrics r) \<and> tidy (sn_metadata r))"

definition artifact_ok :: "int set \<Rightarrow> int set \<Rightarrow> artifact_row \<Rightarrow> bool" where
  "artifact_ok R S r = (ar_run r \<in> R \<and> known_option S (ar_span r) \<and> is_safe_storage_key (ar_storage_key r)
     \<and> length (ar_content_type r) \<le> 300 \<and> tidy (ar_metadata r))"

definition checkpoint_ok :: "int set \<Rightarrow> int set \<Rightarrow> checkpoint_row \<Rightarrow> bool" where
  "checkpoint_ok R S r = (ck_run r \<in> R \<and> known_option S (ck_span r)
     \<and> length (ck_namespace r) \<le> 300 \<and> length (ck_state_summary r) \<le> 300)"

definition snapshot_ok :: "bounded_diagnostic \<Rightarrow> bool" where
  "snapshot_ok b = (bd_byte_size b = length (diag_json (bd_payload b))
     \<and> bd_byte_size b \<le> DIAGNOSTIC_MAX_BYTES \<and> diag_within 100 2000 (bd_payload b)
     \<and> diag_covered (bd_payload b))"

text \<open>The span of a projection is one of the projection's run.\<close>

definition projection_ok :: "int set \<Rightarrow> (int \<times> span_row) list \<Rightarrow> projection_row \<Rightarrow> bool" where
  "projection_ok R spans r = (pj_run r \<in> R
     \<and> (case pj_span r of None \<Rightarrow> True | Some p \<Rightarrow> map_option sn_run (map_of spans p) = Some (pj_run r)) \<and> 0 \<le> pj_sequence r
     \<and> pj_retention_class r \<in> set ALLOWED_RETENTION_CLASSES
     \<and> pj_classification r \<in> set ALLOWED_CLASSIFICATIONS \<and> snapshot_ok (pj_snapshot r))"

definition obs_ok :: "obs_state \<Rightarrow> bool" where
  "obs_ok s = (let R = known (os_runs s); S = known (os_spans s) in
     wf_dict (os_runs s) \<and> wf_dict (os_events s) \<and> wf_dict (os_spans s) \<and> wf_dict (os_artifacts s)
     \<and> wf_dict (os_checkpoints s) \<and> wf_dict (os_diagnostics s) \<and> wf_dict (os_projections s)
     \<and> (\<forall>(k, r) \<in> set (os_events s). event_ok R S r) \<and> (\<forall>(k, r) \<in> set (os_spans s). span_ok R S k r)
     \<and> (\<forall>(k, r) \<in> set (os_artifacts s). artifact_ok R S r)
     \<and> (\<forall>(k, r) \<in> set (os_checkpoints s). checkpoint_ok R S r)
     \<and> (\<forall>(k, r) \<in> set (os_diagnostics s). snapshot_ok (dr_snapshot r))
     \<and> (\<forall>(k, r) \<in> set (os_projections s). projection_ok R (os_spans s) r))"

text \<open>
  What a call does to the tables: no run or span goes or comes, but for new spans; the timeline, the
  artifacts, the checkpoints and the projections only get rows at their end; a span keeps its run,
  parent, kind, name, attempt and start.
\<close>

definition span_identity :: "span_row \<Rightarrow> int \<times> int option \<times> string \<times> string \<times> string \<times> int \<times> int option \<times> string" where
  "span_identity r = (sn_run r, sn_parent r, sn_span_type r, sn_name r, sn_node_name r, sn_attempt r,
     sn_started_at r, sn_input_summary r)"

definition grows :: "obs_state \<Rightarrow> obs_state \<Rightarrow> bool" where
  "grows s s' = (map fst (os_runs s') = map fst (os_runs s)
     \<and> (\<exists>es. os_events s' = os_events s @ es) \<and> (\<exists>as. os_artifacts s' = os_artifacts s @ as)
     \<and> (\<exists>cs. os_checkpoints s' = os_checkpoints s @ cs) \<and> (\<exists>ps. os_projections s' = os_projections s @ ps)
     \<and> (\<forall>k r. map_of (os_spans s) k = Some r \<longrightarrow>
          (\<exists>r'. map_of (os_spans s') k = Some r' \<and> span_identity r' = span_identity r)))"

lemma grows_refl [simp]: "grows s s"
  by (simp add: grows_def)

lemma grows_ticks [simp]:
  "grows (s\<lparr>os_ticks := n\<rparr>) s' = grows s s'" "grows s (s'\<lparr>os_ticks := n\<rparr>) = grows s s'"
  by (simp_all add: grows_def)

lemma obs_ok_ticks [simp]: "obs_ok (s\<lparr>os_ticks := n\<rparr>) = obs_ok s"
  by (simp add: obs_ok_def)

lemma grows_trans: "grows s t \<Longrightarrow> grows t u \<Longrightarrow> grows s u"
  by (fastforce simp: grows_def)

lemma grows_known: "grows s s' \<Longrightarrow> known (os_runs s') = known (os_runs s)"
  "grows s s' \<Longrightarrow> known (os_spans s) \<subseteq> known (os_spans s')"
proof -
  assume g: "grows s s'"
  show "known (os_runs s') = known (os_runs s)"
    using g unfolding grows_def by (metis set_map)
  show "known (os_spans s) \<subseteq> known (os_spans s')"
  proof
    fix k assume "k \<in> known (os_spans s)"
    then obtain r where "map_of (os_spans s) k = Some r" by (metis domIff dom_map_of_conv_image_fst not_None_eq)
    then obtain r' where "map_of (os_spans s') k = Some r'" using g by (auto simp: grows_def)
    then show "k \<in> known (os_spans s')" by (metis domI dom_map_of_conv_image_fst)
  qed
qed

lemma map_of_known: "map_of rows k = Some r \<Longrightarrow> k \<in> known rows"
  by (metis domI dom_map_of_conv_image_fst)

lemma known_option_mono: "known_option S p \<Longrightarrow> S \<subseteq> T \<Longrightarrow> known_option T p"
  by (auto simp: known_option_def split: option.splits)

lemma known_option_simps [simp]: "known_option S None" "known_option S (Some k) = (k \<in> S)"
  by (simp_all add: known_option_def)

lemma row_ok_mono:
  "event_ok R S er \<Longrightarrow> S \<subseteq> T \<Longrightarrow> event_ok R T er"
  "span_ok R S k sr \<Longrightarrow> S \<subseteq> T \<Longrightarrow> span_ok R T k sr"
  "artifact_ok R S ar \<Longrightarrow> S \<subseteq> T \<Longrightarrow> artifact_ok R T ar"
  "checkpoint_ok R S cr \<Longrightarrow> S \<subseteq> T \<Longrightarrow> checkpoint_ok R T cr"
  by (auto simp: event_ok_def span_ok_def artifact_ok_def checkpoint_ok_def
      intro: known_option_mono)

lemma projection_ok_grows:
  "projection_ok R (os_spans s) r \<Longrightarrow> grows s s' \<Longrightarrow> projection_ok R (os_spans s') r"
  by (fastforce simp: projection_ok_def grows_def span_identity_def split: option.splits)

lemma fresh_pk_above: "k \<in> known rows \<Longrightarrow> k < fresh_pk rows"
  unfolding fresh_pk_def by (induction rows) fastforce+

lemma fresh_pk_fresh: "fresh_pk rows \<notin> known rows"
  using fresh_pk_above by blast

lemma wf_snoc [simp]: "wf_dict (rows @ [(fresh_pk rows, r)]) = wf_dict rows"
  using fresh_pk_fresh [of rows] by (auto simp: wf_dict_def)

lemma map_of_snoc_fresh: "map_of rows k = Some r \<Longrightarrow> map_of (rows @ x) k = Some r"
  by (simp add: map_add_Some_iff)

lemma snapshot_ok_build: "snapshot_ok (build_bounded_diagnostic v)"
  unfolding snapshot_ok_def
  using diagnostic_within [of v] diagnostic_covered [of v] bounded_attempts_limit bounded_attempts_size
  by (simp add: build_bounded_diagnostic_def del: bounded_attempts.simps)

section \<open>Single writes\<close>

definition kept :: "obs_state \<Rightarrow> obs_state \<Rightarrow> bool" where
  "kept s s' = (obs_ok s' \<and> grows s s')"

lemma kept_refl: "obs_ok s \<Longrightarrow> kept s s"
  by (simp add: kept_def)

lemma kept_trans: "kept s t \<Longrightarrow> kept t u \<Longrightarrow> kept s u"
  using grows_trans by (auto simp: kept_def)

lemma kept_ticks [simp]:
  "kept (s\<lparr>os_ticks := n\<rparr>) = kept s" "kept s (s'\<lparr>os_ticks := n\<rparr>) = kept s s'"
  by (simp_all add: kept_def fun_eq_iff)

lemma tx_post_seq:
  "tx_post m P s \<Longrightarrow> (\<And>x s'. P x s' \<Longrightarrow> tx_post (f x) Q s') \<Longrightarrow> tx_post (tx_bind m f) Q s"
  unfolding tx_post_bind by (erule tx_post_mono)

lemma add_event_kept:
  assumes "obs_ok s" and "event_ok (known (os_runs s)) (known (os_spans s)) r"
  shows "kept s (s\<lparr>os_events := os_events s @ [(fresh_pk (os_events s), r)]\<rparr>)"
  using assms by (auto simp: kept_def obs_ok_def grows_def Let_def)

lemma add_artifact_kept:
  assumes "obs_ok s" and "artifact_ok (known (os_runs s)) (known (os_spans s)) r"
  shows "kept s (s\<lparr>os_artifacts := os_artifacts s @ [(fresh_pk (os_artifacts s), r)]\<rparr>)"
  using assms by (auto simp: kept_def obs_ok_def grows_def Let_def)

lemma add_checkpoint_kept:
  assumes "obs_ok s" and "checkpoint_ok (known (os_runs s)) (known (os_spans s)) r"
  shows "kept s (s\<lparr>os_checkpoints := os_checkpoints s @ [(fresh_pk (os_checkpoints s), r)]\<rparr>)"
  using assms by (auto simp: kept_def obs_ok_def grows_def Let_def)

lemma add_projection_kept:
  assumes "obs_ok s" and "projection_ok (known (os_runs s)) (os_spans s) r"
  shows "kept s (s\<lparr>os_projections := os_projections s @ [(fresh_pk (os_projections s), r)]\<rparr>)"
  using assms by (auto simp: kept_def obs_ok_def grows_def Let_def)

lemma known_dict_set: "k \<in> known rows \<Longrightarrow> map fst (dict_set k r rows) = map fst rows"
  by (induction rows) auto

lemma set_dict_set: "set (dict_set k r rows) \<subseteq> insert (k, r) (set rows)"
  by (induction rows) auto

lemma set_diagnostic_kept:
  assumes "obs_ok s" and "snapshot_ok (dr_snapshot r)"
  shows "kept s (s\<lparr>os_diagnostics := dict_set k r (os_diagnostics s)\<rparr>)"
  using assms set_dict_set [of k r "os_diagnostics s"]
  by (auto simp: kept_def obs_ok_def grows_def Let_def)

text \<open>A change of the spans: the rows of the new table are in order, the old ones keep their identity.\<close>

lemma change_spans_kept:
  assumes ok: "obs_ok s" and wf: "wf_dict spans"
    and rows: "\<forall>(k, r) \<in> set spans. (k, r) \<in> set (os_spans s) \<or> span_ok (known (os_runs s)) (known spans) k r"
    and old: "\<forall>k r. map_of (os_spans s) k = Some r \<longrightarrow>
      (\<exists>r'. map_of spans k = Some r' \<and> span_identity r' = span_identity r)"
  shows "kept s (s\<lparr>os_spans := spans\<rparr>)"
proof -
  let ?t = "s\<lparr>os_spans := spans\<rparr>"
  have g: "grows s ?t" using old by (simp add: grows_def)
  then have S: "known (os_spans s) \<subseteq> known spans" using grows_known(2) [OF g] by simp
  note mono = row_ok_mono [OF _ S]
  have "projection_ok R spans r" if "projection_ok R (os_spans s) r" for R r
    using projection_ok_grows [OF that g] by simp
  moreover have "\<forall>(k, r) \<in> set spans. span_ok (known (os_runs s)) (known spans) k r"
    using ok rows mono(2) unfolding obs_ok_def Let_def by blast
  ultimately have "obs_ok ?t"
    using ok wf unfolding obs_ok_def Let_def by (auto intro: mono)
  then show ?thesis using g by (simp add: kept_def)
qed

lemma add_span_kept:
  assumes "obs_ok s" and "span_ok (known (os_runs s)) (known (os_spans s)) (fresh_pk (os_spans s)) r"
  shows "kept s (s\<lparr>os_spans := os_spans s @ [(fresh_pk (os_spans s), r)]\<rparr>)"
proof (rule change_spans_kept [OF assms(1)])
  have "known (os_spans s) \<subseteq> known (os_spans s @ [(fresh_pk (os_spans s), r)])" by auto
  note m = row_ok_mono(2) [OF assms(2) this]
  then show "\<forall>(k, r') \<in> set (os_spans s @ [(fresh_pk (os_spans s), r)]). (k, r') \<in> set (os_spans s)
      \<or> span_ok (known (os_runs s)) (known (os_spans s @ [(fresh_pk (os_spans s), r)])) k r'"
    by auto
qed (use assms(1) in \<open>auto simp: obs_ok_def Let_def intro: map_of_snoc_fresh\<close>)

lemma set_span_kept:
  assumes ok: "obs_ok s" and old: "map_of (os_spans s) pk = Some r0" and "span_identity r = span_identity r0"
    and r: "span_ok (known (os_runs s)) (known (os_spans s)) pk r"
  shows "kept s (s\<lparr>os_spans := dict_set pk r (os_spans s)\<rparr>)"
proof (rule change_spans_kept [OF ok])
  have m: "map fst (dict_set pk r (os_spans s)) = map fst (os_spans s)"
    using known_dict_set map_of_known [OF old] by metis
  then show "wf_dict (dict_set pk r (os_spans s))" using ok by (simp add: obs_ok_def Let_def wf_dict_def)
  have "known (dict_set pk r (os_spans s)) = known (os_spans s)" using m by (metis set_map)
  then show "\<forall>(k, r') \<in> set (dict_set pk r (os_spans s)). (k, r') \<in> set (os_spans s)
      \<or> span_ok (known (os_runs s)) (known (dict_set pk r (os_spans s))) k r'"
    using set_dict_set [of pk r "os_spans s"] r by auto
qed (use assms in \<open>auto simp: map_of_dict_set\<close>)

lemma set_run_kept:
  assumes "obs_ok s" and "map_of (os_runs s) pk = Some r0"
  shows "kept s (s\<lparr>os_runs := dict_set pk r (os_runs s)\<rparr>)"
proof -
  have m: "map fst (dict_set pk r (os_runs s)) = map fst (os_runs s)"
    using known_dict_set map_of_known [OF assms(2)] by metis
  then have "known (dict_set pk r (os_runs s)) = known (os_runs s)" by (metis set_map)
  then show ?thesis using assms(1) m by (simp add: kept_def obs_ok_def Let_def grows_def wf_dict_def)
qed

section \<open>The helpers of the sink\<close>

lemma get_run_post: "tx_post (get_run r) (\<lambda>x s'. s' = s \<and> x \<in> known (os_runs s)) s"
  by (auto simp: get_run_def tx_rules dest: map_of_known)

lemma get_span_post: "tx_post (get_span sp) (\<lambda>x s'. s' = s \<and> map_of (os_spans s) (fst x) = Some (snd x)) s"
  by (auto simp: get_span_def tx_rules)

lemma optional_span_post:
  "tx_post (tx_optional get_span sp)
     (\<lambda>x s'. s' = s \<and> (\<forall>y. x = Some y \<longrightarrow> map_of (os_spans s) (fst y) = Some (snd y))) s"
  by (cases sp) (auto simp: tx_rules intro: tx_post_mono [OF get_span_post])

lemma create_kept:
  "obs_ok s \<Longrightarrow> event_ok (known (os_runs s)) (known (os_spans s)) er \<Longrightarrow>
     tx_post (create_event env er) (\<lambda>_. kept s) s"
  "obs_ok s \<Longrightarrow> artifact_ok (known (os_runs s)) (known (os_spans s)) ar \<Longrightarrow>
     tx_post (create_artifact env ar) (\<lambda>_. kept s) s"
  "obs_ok s \<Longrightarrow> checkpoint_ok (known (os_runs s)) (known (os_spans s)) cr \<Longrightarrow>
     tx_post (create_checkpoint env cr) (\<lambda>_. kept s) s"
  "obs_ok s \<Longrightarrow> projection_ok (known (os_runs s)) (os_spans s) pr \<Longrightarrow>
     tx_post (create_projection env pr) (\<lambda>_. kept s) s"
  using add_event_kept add_artifact_kept add_checkpoint_kept add_projection_kept
  unfolding create_event_def create_artifact_def create_checkpoint_def create_projection_def
  by (simp_all add: tx_post_def tx_bind_def write_row_def tx_return_def Let_def split: option.splits)

lemma create_span_post:
  assumes "obs_ok s" and "span_ok (known (os_runs s)) (known (os_spans s)) (fresh_pk (os_spans s)) r"
  shows "tx_post (create_span env r) (\<lambda>pk s'. kept s s' \<and> map_of (os_spans s') pk = Some r) s"
  using add_span_kept [OF assms] fresh_pk_fresh [of "os_spans s"]
  by (auto simp: create_span_def tx_post_def tx_bind_def write_row_def tx_return_def Let_def map_add_def
      split: option.splits dest: map_of_known)

lemma record_diagnostic_kept:
  assumes "obs_ok s"
  shows "tx_post (record_diagnostic env tt ti f v run) (\<lambda>_. kept s) s"
proof -
  have "kept s (fst (record_diagnostic_payload env tt ti f v (Some run) s))"
    using set_diagnostic_kept [of "s\<lparr>os_ticks := Suc (Suc (os_ticks s))\<rparr>" "\<lparr>dr_run = _,
        dr_snapshot = build_bounded_diagnostic v, dr_expires_at = _, dr_updated_at = _\<rparr>"]
      assms snapshot_ok_build [of v] kept_refl [OF assms]
    by (simp add: record_diagnostic_payload_def Let_def tx_bind_def tz_now_def atomic_def write_row_def
        split: option.splits)
  then show ?thesis by (simp add: record_diagnostic_def tx_post_def suppress_observability_failure_def)
qed

lemma touch_run_kept:
  assumes "obs_ok s"
  shows "tx_post (touch_run env run sp) (\<lambda>_. kept s) s"
  using assms set_run_kept [of "s\<lparr>os_ticks := Suc (Suc (os_ticks s))\<rparr>" run]
  by (auto simp: touch_run_def tx_rules save_run_touch_def tx_post_def write_row_def Let_def split: option.splits)

text \<open>Sequencing of transactions that keep the invariant, with what the first one returns.\<close>

lemma kept_bind:
  assumes "tx_post m (\<lambda>x t. kept s t \<and> P x t) s"
    and "\<And>x t. obs_ok t \<Longrightarrow> grows s t \<Longrightarrow> P x t \<Longrightarrow> tx_post (f x) (\<lambda>_. kept t) t"
  shows "tx_post (tx_bind m f) (\<lambda>_. kept s) s"
proof (rule tx_post_seq [OF assms(1)])
  fix x t assume "kept s t \<and> P x t"
  then show "tx_post (f x) (\<lambda>_. kept s) t"
    using kept_trans [of s t] by (intro tx_post_mono [OF assms(2)]) (auto simp: kept_def)
qed

lemma kept_then:
  assumes "tx_post m (\<lambda>_. kept s) s"
    and "\<And>x t. obs_ok t \<Longrightarrow> grows s t \<Longrightarrow> tx_post (f x) (\<lambda>_. kept t) t"
  shows "tx_post (tx_bind m f) (\<lambda>_. kept s) s"
  using kept_bind [of m s "\<lambda>_ _. True" f] assms by simp

lemma kept_read:
  assumes "tx_post m (\<lambda>x t. t = s \<and> P x) s" and "\<And>x. P x \<Longrightarrow> tx_post (f x) (\<lambda>_. kept s) s"
  shows "tx_post (tx_bind m f) (\<lambda>_. kept s) s"
  by (rule tx_post_seq [OF assms(1)]) (auto intro: assms(2))

lemma kept_now:
  assumes "\<And>c t. t = s\<lparr>os_ticks := Suc (os_ticks s)\<rparr> \<Longrightarrow> tx_post (f c) (\<lambda>_. kept t) t"
  shows "tx_post (tx_bind (tz_now env) f) (\<lambda>_. kept s) s"
  using assms [of "s\<lparr>os_ticks := Suc (os_ticks s)\<rparr>"] by (simp add: tx_rules)

lemma kept_return: "obs_ok s \<Longrightarrow> tx_post (tx_return x) (\<lambda>_. kept s) s"
  by (simp add: tx_rules kept_refl)

lemma kept_when: "obs_ok s \<Longrightarrow> tx_post m (\<lambda>_. kept s) s \<Longrightarrow> tx_post (tx_when b m) (\<lambda>_. kept s) s"
  by (simp add: tx_rules kept_refl)

text \<open>A span that was read before is still there, with its run and name.\<close>

definition spans_known :: "obs_state \<Rightarrow> located_span option \<Rightarrow> bool" where
  "spans_known s sp = (case sp of None \<Rightarrow> True | Some (k, r) \<Rightarrow>
     (\<exists>r'. map_of (os_spans s) k = Some r' \<and> span_identity r' = span_identity r))"

lemma spans_known_grows: "spans_known s sp \<Longrightarrow> grows s t \<Longrightarrow> spans_known t sp"
  by (fastforce simp: spans_known_def grows_def split: option.splits)

lemma spans_known_simps [simp]:
  "spans_known (s\<lparr>os_ticks := n\<rparr>) sp = spans_known s sp" "spans_known s None"
  by (simp_all add: spans_known_def split: option.splits)

lemma spans_known_option: "spans_known s sp \<Longrightarrow> known_option (known (os_spans s)) (map_option fst sp)"
  by (auto simp: spans_known_def known_option_def split: option.splits dest: map_of_known)

lemma emit_event_kept:
  assumes "obs_ok s" and "run \<in> known (os_runs s)" and "spans_known s sp"
  shows "tx_post (emit_event env run ty l m p sp n) (\<lambda>_. kept s) s"
  unfolding emit_event_def
proof (rule kept_now, rule kept_then, rule create_kept(1))
  fix t c assume t: "t = s\<lparr>os_ticks := Suc (os_ticks s)\<rparr>"
  then show ok: "obs_ok t" using assms(1) by simp
  show "event_ok (known (os_runs t)) (known (os_spans t))
     \<lparr>ev_run = run, ev_span = map_option fst sp, ev_event_type = ty, ev_level = l,
      ev_node_name = or_else n (span_node sp), ev_message = observed_summary_text (Some m),
      ev_payload = sanitize_mapping p, ev_created_at = c\<rparr>"
    using assms(2) spans_known_option [OF assms(3)] t by (simp add: event_ok_def)
  fix pk u assume "obs_ok u"
  then show "tx_post (tx_bind (tx_when (given p \<noteq> [])
        (record_diagnostic env ''events'' pk ''payload_summary'' (PDict (given p)) run))
      (\<lambda>_. tx_bind (touch_run env run sp) (\<lambda>_. tx_return pk))) (\<lambda>_. kept u) u"
    by (intro kept_then kept_when record_diagnostic_kept touch_run_kept kept_return)
qed

lemma optional_span_known: "tx_post (tx_optional get_span sp) (\<lambda>x t. t = s \<and> spans_known s x) s"
  by (rule tx_post_mono [OF optional_span_post]) (auto simp: spans_known_def split: option.splits)

lemma run_still_known: "grows s t \<Longrightarrow> r \<in> known (os_runs s) \<Longrightarrow> r \<in> known (os_runs t)"
  using grows_known(1) by auto

lemma start_span_kept:
  assumes "obs_ok s" and "run \<in> known (os_runs s)"
  shows "tx_post (start_span env run ty n nn ps md a) (\<lambda>_. kept s) s"
  unfolding start_span_def Let_def
proof (rule kept_read, rule optional_span_known, rule kept_now, rule kept_now, rule kept_now)
  fix parent c t c' t' c'' t''
  assume parent: "spans_known s parent"
    and t: "t = s\<lparr>os_ticks := Suc (os_ticks s)\<rparr>" "t' = t\<lparr>os_ticks := Suc (os_ticks t)\<rparr>"
      "t'' = t'\<lparr>os_ticks := Suc (os_ticks t')\<rparr>"
  define row where "row =
      \<lparr>sn_run = run, sn_parent = map_option fst parent, sn_span_type = ty, sn_name = n,
       sn_status = Span_Running, sn_node_name = nn, sn_attempt = a, sn_started_at = Some c,
       sn_finished_at = None, sn_duration_ms = None, sn_input_summary = summary_json md,
       sn_output_summary = [], sn_error_message = [], sn_metrics = PDict [],
       sn_metadata = sanitize_mapping md, sn_created_at = c', sn_updated_at = c''\<rparr>"
  have ok: "obs_ok t''" and run: "run \<in> known (os_runs t'')" using assms t by simp_all
  have "known_option {p \<in> known (os_spans t''). p < fresh_pk (os_spans t'')} (map_option fst parent)"
    using spans_known_option [OF parent] t by (cases parent) (simp_all add: known_option_def fresh_pk_above)
  then have row: "span_ok (known (os_runs t'')) (known (os_spans t'')) (fresh_pk (os_spans t'')) row"
    using run summary_json_covered by (simp add: span_ok_def row_def is_terminal_span_def)
  show "tx_post (tx_bind (create_span env row) (\<lambda>pk.
      tx_bind (tx_when (given md \<noteq> []) (tx_bind
         (record_diagnostic env ''spans'' pk ''input_summary'' (PDict (given md)) run) (\<lambda>_.
         record_diagnostic env ''spans'' pk ''metadata_summary'' (PDict (given md)) run))) (\<lambda>_.
      tx_bind (emit_event env run ''span.started'' ''debug'' n
         (Some (dict_items (sanitize_mapping md))) (Some (pk, row)) nn) (\<lambda>_.
      tx_return (int_text pk))))) (\<lambda>_. kept t'') t''"
  proof (rule kept_bind [OF create_span_post [OF ok row]])
    fix pk u assume u: "obs_ok u" "grows t'' u" "map_of (os_spans u) pk = Some row"
    then have k: "spans_known u (Some (pk, row))" by (simp add: spans_known_def)
    have later: "run \<in> known (os_runs v)" "spans_known v (Some (pk, row))" if "grows u v" for v
      using run_still_known [OF grows_trans [OF u(2) that] run] spans_known_grows [OF k that] by blast+
    show "tx_post (tx_bind (tx_when (given md \<noteq> []) (tx_bind
         (record_diagnostic env ''spans'' pk ''input_summary'' (PDict (given md)) run) (\<lambda>_.
         record_diagnostic env ''spans'' pk ''metadata_summary'' (PDict (given md)) run))) (\<lambda>_.
      tx_bind (emit_event env run ''span.started'' ''debug'' n
         (Some (dict_items (sanitize_mapping md))) (Some (pk, row)) nn) (\<lambda>_.
      tx_return (int_text pk)))) (\<lambda>_. kept u) u"
      using u(1) by (intro kept_then kept_when record_diagnostic_kept emit_event_kept kept_return later)
  qed
qed

lemma save_span_kept:
  assumes "obs_ok s" and "map_of (os_spans s) pk = Some r0" and "span_identity r = span_identity r0"
    and "span_ok (known (os_runs s)) (known (os_spans s)) pk r"
  shows "tx_post (save_span env pk r) (\<lambda>_. kept s) s"
  using set_span_kept [OF assms] assms(2)
  by (auto simp: save_span_def tx_post_def write_row_def split: option.splits)

text \<open>What completing a span makes of its row.\<close>

lemma span_row_known:
  assumes "obs_ok s" and "map_of (os_spans s) pk = Some r" and "grows s t"
  shows "span_ok (known (os_runs t)) (known (os_spans t)) pk r"
    and "\<exists>r0. map_of (os_spans t) pk = Some r0 \<and> span_identity r = span_identity r0"
    and "sn_run r \<in> known (os_runs s)"
proof -
  have "span_ok (known (os_runs s)) (known (os_spans s)) pk r"
    using assms(1) map_of_SomeD [OF assms(2)] by (auto simp: obs_ok_def Let_def)
  then show "sn_run r \<in> known (os_runs s)" "span_ok (known (os_runs t)) (known (os_spans t)) pk r"
    using row_ok_mono(2) [OF _ grows_known(2) [OF assms(3)]] grows_known(1) [OF assms(3)]
    by (simp_all only: span_ok_def simp_thms)
  show "\<exists>r0. map_of (os_spans t) pk = Some r0 \<and> span_identity r = span_identity r0"
    using assms(2,3) unfolding grows_def by metis
qed

lemma complete_span_kept:
  assumes "obs_ok s" and st: "st \<in> {Span_Succeeded, Span_Failure}"
  shows "tx_post (complete_span env sref st out m md e) (\<lambda>_. kept s) s"
  unfolding complete_span_def Let_def
proof (rule kept_read [OF get_span_post], clarify, rule kept_now)
  fix pk r c t assume r: "map_of (os_spans s) (fst (pk, r)) = Some (snd (pk, r))"
    and t: "t = s\<lparr>os_ticks := Suc (os_ticks s)\<rparr>"
  define row where "row = r
      \<lparr>sn_status := st, sn_finished_at := Some c,
       sn_duration_ms := (case sn_started_at r of None \<Rightarrow> sn_duration_ms r
         | Some started \<Rightarrow> Some (duration_millis (c - started))),
       sn_output_summary := (case out of None \<Rightarrow> sn_output_summary r | Some t \<Rightarrow> observed_summary_text (Some t)),
       sn_metrics := (case m of None \<Rightarrow> sn_metrics r | Some m \<Rightarrow> sanitize_mapping (Some m)),
       sn_metadata := (case md of None \<Rightarrow> sn_metadata r | Some m \<Rightarrow> sanitize_mapping (Some m)),
       sn_error_message := (if e = [] then sn_error_message r else observed_summary_text (Some e))\<rparr>"
  have ok: "obs_ok t" using assms t by simp
  have same: "span_identity (row\<lparr>sn_updated_at := w\<rparr>) = span_identity r" for w
    by (simp add: row_def span_identity_def)
  have good: "span_ok R S k (row\<lparr>sn_updated_at := w\<rparr>)" if "span_ok R S k r" for R S k w
    using that st by (auto simp: span_ok_def row_def is_terminal_span_def split: option.splits)
  have save: "tx_post (save_span env pk (row\<lparr>sn_updated_at := w\<rparr>)) (\<lambda>_. kept u) u"
    if u: "obs_ok u" "grows t u" for u w
  proof -
    have g: "grows s u" using u(2) t by simp
    note k = span_row_known [OF assms(1) _ g, of pk r]
    obtain r0 where r0: "map_of (os_spans u) pk = Some r0" "span_identity r = span_identity r0"
      using k(2) r by auto
    show ?thesis by (rule save_span_kept [OF u(1) r0(1)]) (use same r0(2) good k(1) r in auto)
  qed
  show "tx_post (tx_bind (tx_when (out \<noteq> None)
         (record_diagnostic env ''spans'' pk ''output_summary'' (text_value out) (sn_run r))) (\<lambda>_.
      tx_bind (tx_when (m \<noteq> None)
         (record_diagnostic env ''spans'' pk ''metrics_summary'' (PDict (given m)) (sn_run r))) (\<lambda>_.
      tx_bind (tx_when (md \<noteq> None)
         (record_diagnostic env ''spans'' pk ''metadata_summary'' (PDict (given md)) (sn_run r))) (\<lambda>_.
      tx_bind (tz_now env) (\<lambda>updated.
      tx_bind (save_span env pk (row\<lparr>sn_updated_at := updated\<rparr>)) (\<lambda>_.
      tx_bind (touch_run env (sn_run r) (Some (pk, row))) (\<lambda>_. tx_return pk))))))) (\<lambda>_. kept t) t"
    using ok
    by (intro kept_then kept_when kept_now save record_diagnostic_kept touch_run_kept kept_return)
      (auto intro: grows_trans)
qed

section \<open>The methods of the sink\<close>

lemma end_span_kept:
  assumes "obs_ok s" and "st \<in> {Span_Succeeded, Span_Failure}"
  shows "tx_post (tx_bind (get_span sref) (\<lambda>sp.
      tx_bind (emit_event env (sn_run (snd sp)) ty l (f sp) p (Some sp) (g sp)) (\<lambda>_.
      complete_span env sref st out m md e))) (\<lambda>_. kept s) s"
proof (rule kept_read [OF get_span_post])
  fix sp assume sp: "map_of (os_spans s) (fst sp) = Some (snd sp)"
  then have k: "spans_known s (Some sp)" by (simp add: spans_known_def split_beta)
  show "tx_post (tx_bind (emit_event env (sn_run (snd sp)) ty l (f sp) p (Some sp) (g sp)) (\<lambda>_.
      complete_span env sref st out m md e)) (\<lambda>_. kept s) s"
    by (rule kept_then [OF emit_event_kept [OF assms(1) span_row_known(3) [OF assms(1) sp grows_refl] k]])
      (rule complete_span_kept [OF _ assms(2)])
qed

lemma run_read_kept:
  assumes "obs_ok s" and "\<And>r. r \<in> known (os_runs s) \<Longrightarrow> tx_post (f r) (\<lambda>_. kept s) s"
  shows "tx_post (tx_bind (get_run run_id) f) (\<lambda>_. kept s) s"
  by (rule kept_read [OF get_run_post]) (rule assms(2))

text \<open>A new row, its snapshot and the event that announces it.\<close>

lemma row_and_event_kept:
  assumes "tx_post create (\<lambda>_. kept s) s" and "run \<in> known (os_runs s)" and "spans_known s sp"
  shows "tx_post (tx_bind create (\<lambda>pk.
      tx_bind (tx_when b (record_diagnostic env tt pk f v run)) (\<lambda>_.
      tx_bind (emit_event env run ty l m p sp n) (\<lambda>_. tx_return pk)))) (\<lambda>_. kept s) s"
proof -
  have later: "run \<in> known (os_runs t)" "spans_known t sp" if "grows s t" for t
    using run_still_known [OF that assms(2)] spans_known_grows [OF assms(3) that] by simp_all
  show ?thesis
    by (intro kept_then assms(1) kept_when record_diagnostic_kept emit_event_kept kept_return later)
      (auto intro: grows_trans)
qed

lemma artifact_created_kept:
  assumes "obs_ok s"
  shows "tx_post (artifact_created env run_id key n kd sref md ct sz) (\<lambda>_. kept s) s"
  unfolding artifact_created_def tx_post_atomic
proof (rule run_read_kept [OF assms], rule kept_read [OF optional_span_known], rule kept_read, rule tx_post_mono)
  fix run sp
  assume run: "run \<in> known (os_runs s)" and sp: "spans_known s sp"
  show "tx_post (tx_res (validate_storage_key key)) (\<lambda>x t. t = s \<and> is_safe_storage_key x) s"
    by (auto simp: tx_rules validate_storage_key_def split: if_splits)
  fix key' assume key: "is_safe_storage_key key'"
  have "artifact_ok (known (os_runs s)) (known (os_spans s))
         \<lparr>ar_run = run, ar_span = map_option fst sp, ar_name = n, ar_kind = kd,
          ar_storage_key = key', ar_content_type = observed_summary_text (Some ct),
          ar_size = sz, ar_metadata = sanitize_mapping md, ar_created_at = c\<rparr>" for c
    using run key spans_known_option [OF sp] by (simp add: artifact_ok_def)
  then show "tx_post (tx_bind (tz_now env) (\<lambda>created. tx_bind (create_artifact env
         \<lparr>ar_run = run, ar_span = map_option fst sp, ar_name = n, ar_kind = kd,
          ar_storage_key = key', ar_content_type = observed_summary_text (Some ct),
          ar_size = sz, ar_metadata = sanitize_mapping md, ar_created_at = created\<rparr>) (\<lambda>pk.
       tx_bind (tx_when (given md \<noteq> [])
         (record_diagnostic env ''artifacts'' pk ''metadata_summary'' (PDict (given md)) run)) (\<lambda>_.
       tx_bind (emit_event env run ''artifact.created'' ''info'' n
         (Some [(AStr ''storage_key'', PStr key'), (AStr ''kind'', PStr kd)]) sp
         (span_node sp)) (\<lambda>_.
       tx_return pk))))) (\<lambda>_. kept s) s"
    using assms run sp
    by (intro kept_now row_and_event_kept create_kept(2)) simp_all
qed auto

lemma checkpoint_saved_kept:
  assumes "obs_ok s"
  shows "tx_post (checkpoint_saved env run_id th ck b sref ss ns) (\<lambda>_. kept s) s"
  unfolding checkpoint_saved_def tx_post_atomic
proof (rule run_read_kept [OF assms], rule kept_read [OF optional_span_known], rule kept_now)
  fix run sp c t
  assume run: "run \<in> known (os_runs s)" and sp: "spans_known s sp" and t: "t = s\<lparr>os_ticks := Suc (os_ticks s)\<rparr>"
  have sp': "spans_known t sp" using spans_known_grows [OF sp, of t] t by simp
  show "tx_post (tx_bind (create_checkpoint env
         \<lparr>ck_run = run, ck_span = map_option fst sp, ck_thread_id = th, ck_checkpoint_id = ck,
          ck_namespace = observed_summary_text (Some ns), ck_backend = b, ck_node_name = span_node sp,
          ck_state_summary = observed_summary_text ss, ck_created_at = c\<rparr>) (\<lambda>pk.
       tx_bind (tx_when (the_message ss \<noteq> [])
         (record_diagnostic env ''checkpoints'' pk ''state_summary'' (text_value ss) run)) (\<lambda>_.
       tx_bind (emit_event env run ''checkpoint.saved'' ''info'' ck
         (Some [(AStr ''backend'', PStr b)]) sp (span_node sp)) (\<lambda>_.
       tx_return pk)))) (\<lambda>_. kept t) t"
    using assms run spans_known_option [OF sp'] sp' t
    by (intro row_and_event_kept create_kept(3)) (simp_all add: checkpoint_ok_def)
qed

lemma integration_projection_kept:
  assumes "obs_ok s"
  shows "tx_post (integration_projection env run_id sref a) (\<lambda>_. kept s) s"
  unfolding integration_projection_def tx_post_atomic record_integration_projection_def Let_def
proof (rule run_read_kept [OF assms], rule kept_read [OF optional_span_post], rule kept_read)
  fix run sp x
  assume run: "run \<in> known (os_runs s)"
    and sp: "\<forall>y. sp = Some y \<longrightarrow> map_of (os_spans s) (fst y) = Some (snd y)"
  show "tx_post (tx_res (check_projection run sp a)) (\<lambda>_ t. t = s \<and> check_projection run sp a = Inr ()) s"
    by (simp add: tx_rules)
  assume ok: "check_projection run sp a = Inr ()"
  have create: "tx_post (create_projection env r) (\<lambda>_. kept s) (s\<lparr>os_ticks := n\<rparr>)"
    if "projection_ok (known (os_runs s)) (os_spans s) r" for r n
    using create_kept(4) [of "s\<lparr>os_ticks := n\<rparr>" r env] that assms by simp
  have row: "projection_ok (known (os_runs s)) (os_spans s)
      \<lparr>pj_run = run, pj_span = map_option fst sp, pj_integration_id = i,
       pj_schema_id = sc, pj_owner_kind = pa_owner_kind a, pj_owner_external_id = o1,
       pj_title = ti, pj_projection_kind = pa_projection_kind a, pj_subject_kind = pa_subject_kind a,
       pj_subject_external_id = se, pj_sequence = max 0 (pa_sequence a), pj_occurred_at = oc,
       pj_snapshot = build_bounded_diagnostic (pa_payload a), pj_retention_class = pa_retention_class a,
       pj_classification = pa_classification a, pj_expires_at = ex, pj_created_at = cr\<rparr>"
    for i sc o1 ti se oc ex cr
    using run sp ok snapshot_ok_build
    by (cases sp) (auto simp: projection_ok_def check_projection_def Let_def r_simps)
  show "tx_post (tx_bind (case pa_occurred_at a of None \<Rightarrow> tz_now env | Some t \<Rightarrow> tx_return t) (\<lambda>occurred_at.
      tx_bind (tz_now env) (\<lambda>now. tx_bind (tz_now env) (\<lambda>created. create_projection env
        \<lparr>pj_run = run, pj_span = map_option fst sp,
         pj_integration_id = take 100 (strip (pa_integration_id a)),
         pj_schema_id = take 200 (strip (pa_schema_id a)), pj_owner_kind = pa_owner_kind a,
         pj_owner_external_id = take 255 (strip (pa_owner_external_id a)),
         pj_title = take 200 (strip (pa_title a)), pj_projection_kind = pa_projection_kind a,
         pj_subject_kind = pa_subject_kind a,
         pj_subject_external_id = take 255 (strip (pa_subject_external_id a)),
         pj_sequence = max 0 (pa_sequence a), pj_occurred_at = occurred_at,
         pj_snapshot = build_bounded_diagnostic (pa_payload a),
         pj_retention_class = pa_retention_class a, pj_classification = pa_classification a,
         pj_expires_at = now + days_time (projection_retention_days env (pa_retention_class a)),
         pj_created_at = created\<rparr>)))) (\<lambda>_. kept s) s"
    using row create by (cases "pa_occurred_at a") (simp_all add: tx_rules)
qed

lemma atomic_kept: "tx_post m (\<lambda>_. kept s) s \<Longrightarrow> tx_post (atomic m) (\<lambda>_. kept s) s"
  by (simp add: tx_rules)

lemma answer_kept:
  "tx_post m (\<lambda>_. kept s) s \<Longrightarrow> tx_post (row_key m) (\<lambda>_. kept s) s"
  "tx_post l (\<lambda>_. kept s) s \<Longrightarrow> tx_post (new_span l) (\<lambda>_. kept s) s"
  by (simp_all add: row_key_def new_span_def tx_rules)

lemma run_event_kept: "obs_ok s \<Longrightarrow> tx_post (run_event env ty l r m p) (\<lambda>_. kept s) s"
  unfolding run_event_def by (intro atomic_kept run_read_kept emit_event_kept) simp_all

lemma semantic_event_kept: "obs_ok s \<Longrightarrow> tx_post (semantic_event env r n m p l ps nn) (\<lambda>_. kept s) s"
  unfolding semantic_event_def
  by (intro atomic_kept run_read_kept kept_read [OF optional_span_known] emit_event_kept) simp_all

lemma started_kept: "obs_ok s \<Longrightarrow>
    tx_post (atomic (tx_bind (get_run r) (\<lambda>run. start_span env run ty n nn ps md a))) (\<lambda>_. kept s) s"
  by (intro atomic_kept run_read_kept start_span_kept) simp_all

lemma ended_kept:
  "obs_ok s \<Longrightarrow> tx_post (end_succeeded env ty sp t m md) (\<lambda>_. kept s) s"
  "obs_ok s \<Longrightarrow> tx_post (end_failed env ty sp e m md) (\<lambda>_. kept s) s"
  unfolding end_succeeded_def end_failed_def by (intro atomic_kept end_span_kept; simp)+

lemma perform_kept: "obs_ok s \<Longrightarrow> tx_post (perform env c) (\<lambda>_. kept s) s"
  by (cases c)
    (simp_all add: answer_kept run_event_kept semantic_event_kept started_kept ended_kept artifact_created_kept
      checkpoint_saved_kept integration_projection_kept run_started_def run_completed_def run_failed_def
      run_cancelled_def span_started_def node_started_def llm_started_def tool_started_def span_completed_def
      node_completed_def llm_completed_def tool_completed_def span_failed_def node_failed_def llm_failed_def
      tool_failed_def)

text \<open>A call that raises leaves every table as it was.\<close>

lemma tx_bind_atomic_failed:
  "tx_bind (atomic m) (\<lambda>x. tx_return (f x)) s = (s', Inl e) \<Longrightarrow> s' = s\<lparr>os_ticks := os_ticks s'\<rparr>"
  using atomic_failed [of m s] by (auto simp: tx_bind_def tx_return_def split: prod.splits sum.splits)

lemma perform_failed: "perform env c s = (s', Inl e) \<Longrightarrow> s' = s\<lparr>os_ticks := os_ticks s'\<rparr>"
  by (cases c) (auto simp: row_key_def new_span_def sink_methods dest: tx_bind_atomic_failed)

lemma perform_step:
  assumes "obs_ok s"
  shows "kept s (fst (perform env c s))"
proof (cases "perform env c s")
  case (Pair s' r)
  show ?thesis
  proof (cases r)
    case (Inl e)
    then have "s' = s\<lparr>os_ticks := os_ticks s'\<rparr>" using Pair perform_failed by simp
    then show ?thesis using kept_refl [OF assms] Pair by (metis fst_conv kept_ticks(2))
  next
    case (Inr x)
    then show ?thesis using perform_kept [OF assms, of env c] Pair by (simp add: tx_post_def)
  qed
qed

lemma perform_all_kept: "obs_ok s \<Longrightarrow> kept s (perform_all env cs s)"
proof (induction cs arbitrary: s)
  case (Cons c cs)
  have k: "kept s (fst (perform env c s))" by (rule perform_step [OF Cons.prems])
  then show ?case using Cons.IH [of "fst (perform env c s)"] kept_trans [OF k] by (simp add: kept_def)
qed (simp add: kept_refl)

section \<open>Transactions that return\<close>

text \<open>\<open>tx_sure m Q s\<close>: the transaction returns, and \<open>Q\<close> holds of its answer and the state.\<close>

definition tx_sure :: "'a tx \<Rightarrow> ('a \<Rightarrow> obs_state \<Rightarrow> bool) \<Rightarrow> obs_state \<Rightarrow> bool" where
  "tx_sure m Q s = (case m s of (s', Inl _) \<Rightarrow> False | (s', Inr x) \<Rightarrow> Q x s')"

definition accepts :: "obs_env \<Rightarrow> bool" where
  "accepts env \<longleftrightarrow> (\<forall>row. oe_refuses env row = None)"

named_theorems sure_rules "transactions that return"

lemma sure_basic [sure_rules]:
  "tx_sure (tx_return x) Q = Q x"
  "tx_sure (tx_res r) Q = (\<lambda>s. \<exists>x. r = Inr x \<and> Q x s)"
  "tx_sure (tz_now env) Qt = (\<lambda>s. Qt (oe_clock env (os_ticks s)) (s\<lparr>os_ticks := Suc (os_ticks s)\<rparr>))"
  "tx_sure (write_row env row g) Qu = (\<lambda>s. oe_refuses env row = None \<and> Qu () (g s))"
  "tx_sure (tx_get model rows pk) Qr = (\<lambda>s. \<exists>r. map_of (rows s) pk = Some r \<and> Qr (pk, r) s)"
  by (auto simp: tx_sure_def tx_return_def tx_res_def tz_now_def write_row_def tx_get_def fun_eq_iff
      split: sum.splits option.splits)

lemma sure_bind [sure_rules]: "tx_sure (tx_bind m f) Q = tx_sure m (\<lambda>x. tx_sure (f x) Q)"
  by (auto simp: tx_sure_def tx_bind_def fun_eq_iff split: sum.splits prod.splits)

lemma sure_atomic [sure_rules]: "tx_sure (atomic m) Q = tx_sure m Q"
  by (auto simp: tx_sure_def atomic_def fun_eq_iff split: sum.splits prod.splits)

lemma sure_when [sure_rules]: "tx_sure (tx_when b m) Q = (\<lambda>s. if b then tx_sure m Q s else Q () s)"
  by (simp add: tx_when_def sure_rules fun_eq_iff)

text \<open>The writes that leave the spans and the keys of the runs alone.\<close>

definition aside :: "obs_state \<Rightarrow> obs_state \<Rightarrow> bool" where
  "aside s t = (os_spans t = os_spans s \<and> known (os_runs t) = known (os_runs s))"

lemma sure_diagnostic:
  assumes "\<And>t. aside s t \<Longrightarrow> Q () t"
  shows "tx_sure (record_diagnostic env tt ti f v run) Q s"
  using assms
  by (auto simp: tx_sure_def record_diagnostic_def suppress_observability_failure_def
      record_diagnostic_payload_def Let_def tx_bind_def tz_now_def atomic_def write_row_def aside_def
      split: option.splits)

lemma sure_snapshot:
  assumes "\<And>t. aside s t \<Longrightarrow> Q () t"
  shows "tx_sure (tx_when b (record_diagnostic env tt ti f v run)) Q s"
  using assms sure_diagnostic [of s Q, OF assms] by (simp add: sure_rules aside_def)

lemma sure_touch:
  assumes "accepts env" and "run \<in> known (os_runs s)" and "\<And>t. aside s t \<Longrightarrow> Q () t"
  shows "tx_sure (touch_run env run sp) Q s"
proof -
  obtain r where r: "map_of (os_runs s) run = Some r"
    using assms(2) by (metis domIff dom_map_of_conv_image_fst option.exhaust)
  have "known (dict_set run x (os_runs s)) = known (os_runs s)" for x
    using known_dict_set [OF assms(2)] by (metis set_map)
  then show ?thesis
    using assms(1,3) r by (auto simp: touch_run_def sure_rules save_run_touch_def accepts_def tx_sure_def
        write_row_def Let_def aside_def split: option.splits)
qed

lemma aside_trans: "aside s t \<Longrightarrow> aside t u \<Longrightarrow> aside s u"
  by (simp add: aside_def)

lemma sure_emit:
  assumes "accepts env" and run: "run \<in> known (os_runs s)" and Q: "\<And>pk t. aside s t \<Longrightarrow> Q pk t"
  shows "tx_sure (emit_event env run ty l m p sp nn) Q s"
proof -
  have event: "tx_sure (create_event env row) P t" if "\<And>pk u. aside t u \<Longrightarrow> P pk u" for row P t
    using that assms(1)
    by (simp add: create_event_def tx_sure_def tx_bind_def write_row_def tx_return_def accepts_def Let_def aside_def)
  have touch: "tx_sure (touch_run env run sp) (\<lambda>_. Q pk) t" if "aside s t" for pk t
    using that run by (intro sure_touch [OF assms(1)] Q aside_trans [OF that]) (simp_all add: aside_def)
  show ?thesis
    unfolding emit_event_def sure_bind sure_basic
    by (intro event sure_snapshot touch) (simp add: aside_def)
qed

lemma complete_span_sure:
  assumes "accepts env" and "int_of_text sref = Inr pk" and r: "map_of (os_spans s) pk = Some r"
    and run: "sn_run r \<in> known (os_runs s)"
  shows "tx_sure (complete_span env sref st out m md e)
    (\<lambda>x t. x = pk \<and> (\<exists>r'. map_of (os_spans t) pk = Some r' \<and> sn_status r' = st
       \<and> sn_finished_at r' \<noteq> None \<and> span_identity r' = span_identity r)) s"
proof -
  have read: "tx_sure (get_span sref) P s = P (pk, r) s" for P
    using assms(2,3) by (simp add: get_span_def sure_rules)
  have save: "tx_sure (save_span env pk row) P t"
    if "os_spans t = os_spans s" "known (os_runs t) = known (os_runs s)"
      "\<And>u. os_spans u = dict_set pk row (os_spans s) \<Longrightarrow> known (os_runs u) = known (os_runs s) \<Longrightarrow> P () u" for row P t
    using that r assms(1) by (simp add: save_span_def tx_sure_def write_row_def accepts_def)
  show ?thesis
    unfolding complete_span_def Let_def sure_bind read prod.case sure_basic
    by (intro sure_snapshot save sure_touch [OF assms(1)])
      (use run in \<open>auto simp: aside_def map_of_dict_set span_identity_def\<close>)
qed

lemma create_span_sure:
  assumes "accepts env"
  shows "tx_sure (create_span env row) (\<lambda>pk t. map_of (os_spans t) pk = Some row
    \<and> pk \<notin> known (os_spans s) \<and> known (os_runs t) = known (os_runs s)) s"
  using assms fresh_pk_fresh [of "os_spans s"]
  by (auto simp: create_span_def tx_sure_def tx_bind_def write_row_def tx_return_def accepts_def Let_def
      map_add_def split: option.splits dest: map_of_known)

lemma sure_two_snapshots:
  assumes "\<And>t. aside s t \<Longrightarrow> Q () t"
  shows "tx_sure (tx_when b (tx_bind (record_diagnostic env tt ti f v run)
    (\<lambda>_. record_diagnostic env tt' ti' f' v' run'))) Q s"
proof -
  have "tx_sure (record_diagnostic env tt ti f v run)
      (\<lambda>_. tx_sure (record_diagnostic env tt' ti' f' v' run') Q) s"
  proof (rule sure_diagnostic, rule sure_diagnostic)
    fix t u assume "aside s t" "aside t u"
    then show "Q () u" using aside_trans by (blast intro: assms)
  qed
  then show ?thesis using assms [of s] by (simp add: sure_rules aside_def)
qed

lemma sure_returns: "tx_sure m Q s \<Longrightarrow> \<exists>t x. m s = (t, Inr x) \<and> Q x t"
  by (cases "m s"; cases "snd (m s)") (simp_all add: tx_sure_def)

lemma sure_mono: "tx_sure m P s \<Longrightarrow> (\<And>x t. P x t \<Longrightarrow> Q x t) \<Longrightarrow> tx_sure m Q s"
  by (auto simp: tx_sure_def split: sum.splits prod.splits)

text \<open>A reference to a span that exists.\<close>

definition parent_ok :: "span_ref option \<Rightarrow> obs_state \<Rightarrow> bool" where
  "parent_ok parent s = (case parent of None \<Rightarrow> True
     | Some p \<Rightarrow> (case int_of_text p of Inl _ \<Rightarrow> False | Inr k \<Rightarrow> k \<in> known (os_spans s)))"

lemma parent_sure:
  assumes "parent_ok parent s" and "\<And>x. Q x s"
  shows "tx_sure (tx_optional get_span parent) Q s"
proof (cases parent)
  case (Some p)
  then obtain k where k: "int_of_text p = Inr k" "k \<in> known (os_spans s)"
    using assms(1) by (auto simp: parent_ok_def split: sum.splits)
  then obtain r where "map_of (os_spans s) k = Some r"
    by (metis domIff dom_map_of_conv_image_fst option.exhaust)
  then show ?thesis using Some k(1) assms(2) by (simp add: tx_optional_def get_span_def sure_rules)
qed (simp add: tx_optional_def sure_rules assms(2))

lemma start_span_sure:
  assumes "accepts env" and "run \<in> known (os_runs s)" and "parent_ok parent s"
  shows "tx_sure (start_span env run ty n nn parent md a) (\<lambda>x t. \<exists>pk r. x = int_text pk
    \<and> pk \<notin> known (os_spans s) \<and> map_of (os_spans t) pk = Some r \<and> sn_run r = run \<and> sn_name r = n
    \<and> sn_status r = Span_Running) s"
  unfolding start_span_def Let_def sure_bind sure_basic
  by (rule parent_sure [OF assms(3)], rule sure_mono [OF create_span_sure [OF assms(1)]], clarify,
      rule sure_two_snapshots, rule sure_emit [OF assms(1)])
    (use assms(2) in \<open>auto simp: aside_def\<close>)

section \<open>References to spans\<close>

lemma split_on_digits: "list_all is_digit ds \<Longrightarrow> split_on (CHR ''_'') ds = [ds]"
  by (rule split_on_no_sep) (auto simp: list_all_iff is_digit_def)

lemma digits_ends:
  assumes "list_all is_digit ds" and "ds \<noteq> []"
  shows "strip ds = ds" and "strip (CHR ''-'' # ds) = CHR ''-'' # ds"
    and "\<not> startswith ''-'' ds" and "\<not> startswith ''+'' ds"
proof -
  have d: "\<not> is_space c" "c \<noteq> CHR ''-''" "c \<noteq> CHR ''+''" if "c \<in> set ds" for c
    using that assms(1) by (auto simp: list_all_iff is_digit_def is_space_def Let_def)
  show "strip ds = ds" "strip (CHR ''-'' # ds) = CHR ''-'' # ds"
    using d assms(2) by (auto intro!: strip_id simp: is_space_def)
  show "\<not> startswith ''-'' ds" "\<not> startswith ''+'' ds"
    using d(2,3) [of "hd ds"] assms(2) by (cases ds; simp add: startswith_def)+
qed

lemma int_of_text_int_text: "int_of_text (int_text i) = Inr i"
proof -
  have n: "list_all is_digit (nat_text k)" "nat_text k \<noteq> []" for k
    using nat_text_digits by (auto simp: list_all_iff)
  show ?thesis
    using digits_ends [OF n] split_on_digits [OF n(1)] n
    by (simp add: int_of_text_def int_text_def Let_def digits_value_nat_text startswith_def)
qed

lemma end_span_sure:
  assumes "accepts env" and "int_of_text sref = Inr pk" and r: "map_of (os_spans s) pk = Some r"
    and run: "sn_run r \<in> known (os_runs s)"
  shows "tx_sure (tx_bind (get_span sref) (\<lambda>sp.
      tx_bind (emit_event env (sn_run (snd sp)) ty l (f sp) p (Some sp) (g sp)) (\<lambda>_.
      complete_span env sref st out m md e)))
    (\<lambda>x t. x = pk \<and> (\<exists>r'. map_of (os_spans t) pk = Some r' \<and> sn_status r' = st
       \<and> sn_finished_at r' \<noteq> None \<and> span_identity r' = span_identity r)) s"
proof -
  have read: "tx_sure (get_span sref) P s = P (pk, r) s" for P
    using assms(2,3) by (simp add: get_span_def sure_rules)
  show ?thesis
    unfolding sure_bind read
    by (rule sure_emit [OF assms(1)]) (use complete_span_sure [OF assms(1,2)] r run in \<open>simp_all add: aside_def\<close>)
qed

section \<open>Snapshots recorded and looked up\<close>

lemma record_diagnostic_accepted:
  assumes "accepts env"
  shows "record_diagnostic env tt ti f v run s =
    (s\<lparr>os_ticks := Suc (Suc (os_ticks s)), os_diagnostics := dict_set (take 32 tt, ti, take 100 f)
        \<lparr>dr_run = Some run, dr_snapshot = build_bounded_diagnostic v,
         dr_expires_at = oe_clock env (os_ticks s) + days_time (diagnostic_retention_days env),
         dr_updated_at = oe_clock env (Suc (os_ticks s))\<rparr> (os_diagnostics s)\<rparr>, Inr ())"
  using assms by (simp add: record_diagnostic_def suppress_observability_failure_def record_diagnostic_payload_def
      Let_def tx_bind_def tz_now_def atomic_def write_row_def accepts_def)

lemma map_of_filter_snd:
  "wf_dict d \<Longrightarrow> map_of (filter (\<lambda>(k, r). P r) d) k = (case map_of d k of None \<Rightarrow> None | Some r \<Rightarrow> if P r then Some r else None)"
  by (induction d) (auto simp: wf_dict_def map_of_eq_None_iff split: option.split)

text \<open>A purge removes no snapshot that is still active then or later.\<close>

lemma active_after_purge:
  assumes "t \<le> now" and "wf_dict (os_diagnostics s)"
  shows "active_diagnostic now tt ti f (fst (purge_expired_diagnostics t s)) = active_diagnostic now tt ti f s"
  using assms by (auto simp: active_diagnostic_def purge_expired_diagnostics_def map_of_filter_snd
      diagnostic_expired_def Let_def split: option.split)

section \<open>The life of a span\<close>

lemma known_row: "k \<in> known rows \<Longrightarrow> \<exists>r. map_of rows k = Some r"
  by (metis domIff dom_map_of_conv_image_fst option.exhaust)

lemma get_run_sure:
  assumes "run \<in> known (os_runs s)"
  shows "tx_sure (get_run run) Q s = Q run s"
  using known_row [OF assms] by (auto simp: get_run_def sure_rules)

lemma span_started_sure:
  assumes "accepts env" and "run \<in> known (os_runs s)" and "parent_ok parent s"
  shows "tx_sure (span_started env run ty n nn parent md) (\<lambda>x t. \<exists>pk r. x = int_text pk
    \<and> pk \<notin> known (os_spans s) \<and> map_of (os_spans t) pk = Some r \<and> sn_run r = run \<and> sn_name r = n
    \<and> sn_status r = Span_Running) s"
  using start_span_sure [OF assms] by (simp add: span_started_def sure_atomic sure_bind get_run_sure [OF assms(2)])

text \<open>Ending a span through its reference, in a state that grew out of the one in which it was there.\<close>

lemma end_sure:
  assumes "accepts env" and "obs_ok s" and "grows s1 s" and "map_of (os_spans s1) pk = Some r"
  defines "Q st x t \<equiv> x = pk \<and> (\<exists>r'. map_of (os_spans t) pk = Some r' \<and> sn_status r' = st
       \<and> sn_finished_at r' \<noteq> None \<and> sn_run r' = sn_run r \<and> sn_name r' = sn_name r)"
  shows "tx_sure (end_succeeded env ty (int_text pk) out m md) (Q Span_Succeeded) s"
    and "tx_sure (end_failed env ty (int_text pk) e m md) (Q Span_Failure) s"
proof -
  obtain r' where r': "map_of (os_spans s) pk = Some r'" "span_identity r' = span_identity r"
    using assms(3,4) by (auto simp: grows_def)
  note sure = end_span_sure [OF assms(1) int_of_text_int_text r'(1) span_row_known(3) [OF assms(2) r'(1) grows_refl]]
  show "tx_sure (end_succeeded env ty (int_text pk) out m md) (Q Span_Succeeded) s"
    "tx_sure (end_failed env ty (int_text pk) e m md) (Q Span_Failure) s"
    unfolding end_succeeded_def end_failed_def sure_atomic Q_def
    by (rule sure_mono [OF sure]; use r'(2) in \<open>auto simp: span_identity_def\<close>)+
qed

end
