(* ===== verification/Llm.thy ===== *)
theory Llm
  imports Event_Timeline
begin

text \<open>
  integrations/llm: the result of a completion (base.py), the client over LiteLLM (litellm_client.py),
  whose \<open>litellm.completion\<close> is a parameter, and the client that records every call as a span
  (observed_client.py). At the end the event sink of \<open>Event_Sink\<close> is put behind the two
  observers, of tools and of language models, and an observed call is shown to end its span.
\<close>

section \<open>Results and clients\<close>

record llm_result =
  lr_content :: string
  lr_raw :: pyval
  lr_provider :: string
  lr_model :: string
  lr_input_tokens :: "int option"
  lr_output_tokens :: "int option"
  lr_metadata :: pydict

text \<open>A client that has no \<open>provider\<close> or \<open>model\<close> attribute has the empty string here.\<close>

record 's llm_client =
  lc_provider :: string
  lc_model :: string
  lc_complete :: "pydict list \<Rightarrow> pydict \<Rightarrow> 's \<Rightarrow> 's \<times> llm_result res"

section \<open>The LiteLLM client\<close>

record litellm_settings =
  ls_model :: string
  ls_api_key :: "string option"
  ls_base_url :: "string option"
  ls_temperature :: "pyval option"
  ls_max_tokens :: "int option"

definition completion_kwargs :: "litellm_settings \<Rightarrow> pydict" where
  "completion_kwargs c =
     [(''model'', PStr (ls_model c))]
     @ (case ls_api_key c of Some k \<Rightarrow> if k \<noteq> [] then [(''api_key'', PStr k)] else [] | None \<Rightarrow> [])
     @ (case ls_base_url c of Some u \<Rightarrow> if u \<noteq> [] then [(''base_url'', PStr u)] else [] | None \<Rightarrow> [])
     @ (case ls_temperature c of Some t \<Rightarrow> [(''temperature'', t)] | None \<Rightarrow> [])
     @ (case ls_max_tokens c of Some n \<Rightarrow> [(''max_tokens'', PInt n)] | None \<Rightarrow> [])"

text \<open>\<open>_get_value\<close>: the entry of a mapping; the attributes of an object are given as a mapping too.\<close>

definition get_value :: "pyval \<Rightarrow> string \<Rightarrow> pyval \<Rightarrow> pyval" where
  "get_value payload name fallback =
     (case payload of PDict d \<Rightarrow> (case map_of d (AStr name) of None \<Rightarrow> fallback | Some v \<Rightarrow> v) | _ \<Rightarrow> fallback)"

text \<open>\<open>xs[0]\<close> of a true value, and \<open>int(v)\<close>.\<close>

fun first_of :: "pyval \<Rightarrow> pyval res" where
  "first_of (PList (x # xs)) = Inr x"
| "first_of (PTuple (x # xs)) = Inr x"
| "first_of (Atom (AStr (c # cs))) = Inr (PStr [c])"
| "first_of (Atom (ABytes (c # cs))) = Inr (PInt (int (ord_of c)))"
| "first_of (PDict d) = (case map_of d (AInt 0) of
     None \<Rightarrow> Inl (PlainExn KeyError_cls ''0'') | Some v \<Rightarrow> Inr v)"
| "first_of v = Inl (PlainExn TypeError_cls (quoted (py_type_name v) @ '' object is not subscriptable''))"

fun int_of_value :: "pyval \<Rightarrow> int res" where
  "int_of_value (Atom (AInt i)) = Inr i"
| "int_of_value (Atom (ABool b)) = Inr (if b then 1 else 0)"
| "int_of_value (Atom (AStr s)) = int_of_text s"
| "int_of_value (Atom (AFloat (Finite_Float n d _))) = Inr (if 0 \<le> n then n div d else - ((- n) div d))"
| "int_of_value (Atom (AFloat (Infinite_Float _ _))) =
     Inl (PlainExn (Other_cls ''OverflowError'') ''cannot convert float infinity to integer'')"
| "int_of_value (Atom (AFloat (Nan_Float _))) =
     Inl (PlainExn ValueError_cls ''cannot convert float NaN to integer'')"
| "int_of_value (Atom (ABytes b)) = int_of_text b"
| "int_of_value v = Inl (PlainExn TypeError_cls
     (''int() argument must be a string, a bytes-like object or a real number, not '' @ quoted (py_type_name v)))"

definition token_count :: "pyval \<Rightarrow> int option res" where
  "token_count v = (if v = PNone then Inr None else r_bind (int_of_value v) (\<lambda>n. Inr (Some n)))"

definition parse_response :: "litellm_settings \<Rightarrow> pyval \<Rightarrow> llm_result res" where
  "parse_response c response =
     (let choices = get_value response ''choices'' (PList [])
      in r_bind (if truthy choices then first_of choices else Inr PNone) (\<lambda>choice.
         let message = (if choice \<noteq> PNone then get_value choice ''message'' PNone else PNone);
             content = (if message \<noteq> PNone then get_value message ''content'' (PStr []) else PStr []);
             finish_reason = (if choice \<noteq> PNone then get_value choice ''finish_reason'' (PStr []) else PStr []);
             usage = get_value response ''usage'' PNone;
             input_tokens = (if usage \<noteq> PNone then get_value usage ''prompt_tokens'' PNone else PNone);
             output_tokens = (if usage \<noteq> PNone then get_value usage ''completion_tokens'' PNone else PNone);
             named = get_value response ''model'' (PStr (ls_model c));
             response_model = (if truthy named then named else PStr (ls_model c));
             metadata = [(''provider'', PStr ''litellm''), (''model'', response_model)]
               @ (if truthy finish_reason then [(''finish_reason'', finish_reason)] else [])
         in r_bind (token_count input_tokens) (\<lambda>input_count.
            r_bind (token_count output_tokens) (\<lambda>output_count.
            Inr \<lparr>lr_content = (if content = PNone then [] else val_text content), lr_raw = response,
              lr_provider = ''litellm'', lr_model = val_text response_model,
              lr_input_tokens = input_count, lr_output_tokens = output_count, lr_metadata = metadata\<rparr>))))"

definition litellm_client :: "(pydict \<Rightarrow> 's \<Rightarrow> 's \<times> pyval res) \<Rightarrow> litellm_settings \<Rightarrow> 's llm_client" where
  "litellm_client completion c =
     \<lparr>lc_provider = ''litellm'', lc_model = ls_model c,
      lc_complete = (\<lambda>messages kwargs s.
        let given_kwargs = dict_set ''messages'' (PList (map pdict messages)) (completion_kwargs c);
            merged = foldl (\<lambda>d (k, v). dict_set k v d) given_kwargs kwargs
        in case completion merged s of
             (s, Inl e) \<Rightarrow> (s, Inl e)
           | (s, Inr response) \<Rightarrow> (s, parse_response c response))\<rparr>"

section \<open>The observed client\<close>

definition provider_name :: "llm_result \<Rightarrow> 's llm_client \<Rightarrow> string" where
  "provider_name r inner = or_else (or_else (lr_provider r) (lc_provider inner)) ''unknown''"

definition model_name :: "llm_result \<Rightarrow> 's llm_client \<Rightarrow> string" where
  "model_name r inner = or_else (or_else (lr_model r) (lc_model inner)) ''unknown''"

definition count_or_zero :: "int option \<Rightarrow> int" where
  "count_or_zero n = (case n of None \<Rightarrow> 0 | Some k \<Rightarrow> k)"

definition metrics_from_result :: "llm_result \<Rightarrow> pydict" where
  "metrics_from_result r =
     (case lr_input_tokens r of None \<Rightarrow> [] | Some n \<Rightarrow> [(''input_tokens'', PInt n)])
     @ (case lr_output_tokens r of None \<Rightarrow> [] | Some n \<Rightarrow> [(''output_tokens'', PInt n)])
     @ (if lr_input_tokens r \<noteq> None \<or> lr_output_tokens r \<noteq> None
        then [(''total_tokens'', PInt (count_or_zero (lr_input_tokens r) + count_or_zero (lr_output_tokens r)))]
        else [])"

definition llm_output_summary :: "llm_result \<Rightarrow> string" where
  "llm_output_summary r =
     json_default (pdict [(''length'', PInt (int (length (lr_content r)))),
       (''preview'', PStr (preview_text (redact_text (lr_content r)) DEFAULT_PREVIEW_CHARS))])"

definition start_metadata :: "'s llm_client \<Rightarrow> pydict list \<Rightarrow> pydict" where
  "start_metadata inner messages =
     (let input_summary = summarize_messages messages
      in [(''provider'', PStr (or_else (lc_provider inner) ''unknown'')),
          (''model'', PStr (or_else (lc_model inner) ''unknown'')),
          (''input_summary'', pdict input_summary),
          (''message_previews'', case map_of input_summary ''messages'' of None \<Rightarrow> PNone | Some v \<Rightarrow> v)])"

definition observed_complete ::
  "int option \<Rightarrow> 's span_sink option \<Rightarrow> 's llm_client \<Rightarrow> pydict list \<Rightarrow> pydict \<Rightarrow> 's \<Rightarrow> 's \<times> llm_result res" where
  "observed_complete run_id sink inner messages kwargs s =
     (let meta = start_metadata inner messages;
          named = take 2 meta
      in case sink of
           None \<Rightarrow> lc_complete inner messages kwargs s
         | Some k \<Rightarrow>
             (case ss_started k (case run_id of None \<Rightarrow> 0 | Some i \<Rightarrow> i)
                 (''llm:'' @ or_else (lc_model inner) ''unknown'') meta s of
                (s, Inl e) \<Rightarrow> (s, Inl e)
              | (s, Inr sref) \<Rightarrow>
                  (case lc_complete inner messages kwargs s of
                     (s, Inl e) \<Rightarrow>
                       (suppress_observability_failure (ss_failed k sref (redact_text (exn_text e)) None named) s, Inl e)
                   | (s, Inr r) \<Rightarrow>
                       (case ss_completed k sref (llm_output_summary r) (metrics_from_result r)
                           [(''provider'', PStr (provider_name r inner)), (''model'', PStr (model_name r inner))] s of
                          (s, Inl e) \<Rightarrow> (s, Inl e)
                        | (s, Inr _) \<Rightarrow> (s, Inr r)))))"

section \<open>The event sink behind the observers\<close>

text \<open>The tables beside the state of the observed tool or client.\<close>

definition beside :: "('a \<Rightarrow> 'b) \<Rightarrow> 'a tx \<Rightarrow> obs_state \<times> 't \<Rightarrow> (obs_state \<times> 't) \<times> 'b res" where
  "beside f m st = (case m (fst st) of
     (s, Inl e) \<Rightarrow> ((s, snd st), Inl e) | (s, Inr x) \<Rightarrow> ((s, snd st), Inr (f x)))"

definition ref_text :: "pyval \<Rightarrow> span_ref" where
  "ref_text v = (case v of Atom (AStr s) \<Rightarrow> s | _ \<Rightarrow> [])"

text \<open>
  The sink as an observer calls it, with the span type it passes and the node and the parent of its
  observability context.
\<close>

definition database_sink :: "obs_env \<Rightarrow> string \<Rightarrow> string \<Rightarrow> span_ref option \<Rightarrow> (obs_state \<times> 't) span_sink" where
  "database_sink env span_type node_name parent =
     \<lparr>ss_started = (\<lambda>run_id name metadata. beside PStr
        (span_started env run_id span_type name (Some node_name) parent (Some (string_items metadata)))),
      ss_failed = (\<lambda>sref error_message metrics metadata. beside (\<lambda>_. ())
        (span_failed env (ref_text sref) error_message (map_option string_items metrics) (Some (string_items metadata)))),
      ss_completed = (\<lambda>sref output metrics metadata. beside (\<lambda>_. ())
        (span_completed env (ref_text sref) (Some output) (Some (string_items metrics)) (Some (string_items metadata))))\<rparr>"

text \<open>
  The metadata an observed client starts its span with satisfies the condition under which the sink
  persists nothing that is under a sensitive key: the previews of its messages are texts.
\<close>

lemma plain_summarized_message:
  "plain_preview (pdict [(''role'', PStr a), (''preview'', PStr b)])"
  by (simp add: plain_preview_def pdict_def)

lemma start_metadata_plain: "plain_previews (Some (string_items (start_metadata inner messages)))"
proof -
  have "map_of (string_items (start_metadata inner messages)) (AStr ''message_previews'') =
      Some (PList (map (\<lambda>m. pdict
            [(''role'', PStr (if message_role m = [] then ''unknown'' else message_role m)),
             (''preview'', PStr (content_preview m))]) messages))"
    by (simp add: start_metadata_def string_items_def summarize_messages_def Let_def)
  then show ?thesis
    by (simp add: plain_previews_def given_def list_all_iff plain_summarized_message)
qed

section \<open>An observed call ends its span\<close>

text \<open>
  The contract of an observer: it starts a span, runs the call, and ends the span as succeeded or failed
  by the outcome, so that the caller gets the call's own result. \<open>failed\<close> says of a result that it
  reports a failure. Calls of the observed party may use the tables too, if they keep them in order.
\<close>

definition keeps_tables :: "(obs_state \<times> 't \<Rightarrow> (obs_state \<times> 't) \<times> 'r) \<Rightarrow> bool" where
  "keeps_tables call \<longleftrightarrow> (\<forall>st. obs_ok (fst st) \<longrightarrow> kept (fst st) (fst (fst (call st))))"

locale observed_call =
  fixes env :: obs_env
    and span_type :: string
    and node :: string
    and parent :: "span_ref option"
    and call :: "obs_state \<times> 't \<Rightarrow> (obs_state \<times> 't) \<times> 'r res"
    and failed :: "'r \<Rightarrow> bool"
    and observed :: "int \<Rightarrow> obs_state \<times> 't \<Rightarrow> (obs_state \<times> 't) \<times> 'r res"
    and title :: string
    and started :: pydict
    and failure :: "exn + 'r \<Rightarrow> string \<times> pydict option \<times> pydict"
    and success :: "'r \<Rightarrow> string \<times> pydict \<times> pydict"
  assumes observing: "observed run st =
      (let k = database_sink env span_type node parent
       in case ss_started k run title started st of
            (st, Inl e) \<Rightarrow> (st, Inl e)
          | (st, Inr sref) \<Rightarrow>
              (case call st of (st, r) \<Rightarrow>
                 if (case r of Inl _ \<Rightarrow> True | Inr x \<Rightarrow> failed x)
                 then (case failure r of (e, m, md) \<Rightarrow>
                         (suppress_observability_failure (ss_failed k sref e m md) st, r))
                 else (case r of Inl e \<Rightarrow> (st, r) | Inr x \<Rightarrow>
                         (case success x of (t, m, md) \<Rightarrow>
                            (case ss_completed k sref t m md st of
                               (st, Inl e) \<Rightarrow> (st, Inl e) | (st, Inr _) \<Rightarrow> (st, r))))))"
begin

lemma span_ends:
  assumes accepting: "accepts env" and keeps: "keeps_tables call" and ok: "obs_ok (fst st)" 
    and run: "run \<in> known (os_runs (fst st))" and parent: "parent_ok parent (fst st)"
  shows "\<exists>st1 st2 r pk row. call st1 = (st2, r) \<and> snd st1 = snd st \<and> snd (observed run st) = r
    \<and> pk \<notin> known (os_spans (fst st)) \<and> map_of (os_spans (fst (fst (observed run st)))) pk = Some row
    \<and> sn_run row = run \<and> sn_name row = title \<and> sn_finished_at row \<noteq> None
    \<and> sn_status row = (if (case r of Inl _ \<Rightarrow> True | Inr x \<Rightarrow> failed x) then Span_Failure else Span_Succeeded)"
proof -
  let ?bad = "\<lambda>r. case r of Inl _ \<Rightarrow> True | Inr x \<Rightarrow> failed x"
  obtain s1 pk row where s1: "span_started env run span_type title (Some node) parent (Some (string_items started)) (fst st)
      = (s1, Inr (int_text pk))"
    and row: "pk \<notin> known (os_spans (fst st))" "map_of (os_spans s1) pk = Some row" "sn_run row = run" "sn_name row = title"
    using sure_returns [OF span_started_sure [OF accepting run parent]] by metis
  have "tx_post (span_started env run span_type title (Some node) parent (Some (string_items started)))
      (\<lambda>_. kept (fst st)) (fst st)"
    using started_kept [OF ok] by (simp add: span_started_def)
  then have ok1: "obs_ok s1" by (simp add: tx_post_def s1 kept_def)
  obtain s2 t2 r where c: "call (s1, snd st) = ((s2, t2), r)" by (metis prod.collapse)
  have "kept s1 s2" using keeps ok1 c unfolding keeps_tables_def by (metis fst_conv)
  then have k: "obs_ok s2" "grows s1 s2" by (simp_all add: kept_def)
  have start: "ss_started (database_sink env span_type node parent) run title started st
      = ((s1, snd st), Inr (PStr (int_text pk)))"
    by (simp add: database_sink_def beside_def s1)
  obtain s3 row' where "observed run st = ((s3, t2), r)" and "map_of (os_spans s3) pk = Some row'"
    and "sn_run row' = run" "sn_name row' = title" "sn_finished_at row' \<noteq> None"
    and "sn_status row' = (if ?bad r then Span_Failure else Span_Succeeded)"
  proof (cases "?bad r")
    case True
    obtain e m md where f: "failure r = (e, m, md)" by (metis prod.collapse)
    obtain s3 row' where "span_failed env (int_text pk) e (map_option string_items m) (Some (string_items md)) s2
        = (s3, Inr pk)" and "map_of (os_spans s3) pk = Some row'" "sn_status row' = Span_Failure"
      "sn_finished_at row' \<noteq> None" "sn_run row' = run" "sn_name row' = title"
      using sure_returns [OF end_sure(2) [OF accepting k row(2)]] row(3,4) unfolding span_failed_def by metis
    then show ?thesis
      using that [of s3 row'] True start c f
      by (simp add: observing database_sink_def beside_def ref_text_def suppress_observability_failure_def)
  next
    case False
    then obtain x where x: "r = Inr x" by (cases r) auto
    obtain t m md where f: "success x = (t, m, md)" by (metis prod.collapse)
    obtain s3 row' where "span_completed env (int_text pk) (Some t) (Some (string_items m)) (Some (string_items md)) s2
        = (s3, Inr pk)" and "map_of (os_spans s3) pk = Some row'" "sn_status row' = Span_Succeeded"
      "sn_finished_at row' \<noteq> None" "sn_run row' = run" "sn_name row' = title"
      using sure_returns [OF end_sure(1) [OF accepting k row(2)]] row(3,4) unfolding span_completed_def by metis
    then show ?thesis
      using that [of s3 row'] False start c f x
      by (simp add: observing database_sink_def beside_def ref_text_def)
  qed
  with c row(1) show ?thesis
    by (intro exI [of _ "(s1, snd st)"] exI [of _ "(s2, t2)"] exI [of _ r] exI [of _ pk] exI [of _ row']) simp
qed

end

text \<open>The two observers have this contract.\<close>

definition tool_span_metadata :: "string \<Rightarrow> pydict \<Rightarrow> pydict" where
  "tool_span_metadata name kwargs =
     [(''tool_name'', PStr name), (''input_summary'', pdict (tool_input_summary name kwargs))]"

interpretation tool_call: observed_call env "''tool''" node parent "inner name kwargs"
  "\<lambda>r. tr_exit_code r \<noteq> 0 \<or> tr_error_message r \<noteq> []"
  "\<lambda>run. observed_run (Some run) (Some (database_sink env ''tool'' node parent)) inner name kwargs"
  "''tool:'' @ name" "tool_span_metadata name kwargs"
  "\<lambda>r. case r of Inl e \<Rightarrow> (redact_text (exn_text e), None, tool_span_metadata name kwargs)
     | Inr x \<Rightarrow> (tool_failure_message x, Some [(''exit_code'', PInt (tr_exit_code x))],
         tool_span_metadata name kwargs @ [(''result_metadata'', pdict (tool_result_metadata name x))])"
  "\<lambda>x. (tool_output_summary x, [(''exit_code'', PInt (tr_exit_code x))],
     tool_span_metadata name kwargs @ [(''result_metadata'', pdict (tool_result_metadata name x))])"
  for env node parent and inner :: "(obs_state \<times> 't) run_tool" and name kwargs
  by unfold_locales
    (auto simp: observed_run_def tool_span_metadata_def Let_def split: prod.split sum.split)

interpretation llm_call: observed_call env "''llm''" node parent "lc_complete inner messages kwargs" "\<lambda>_. False"
  "\<lambda>run. observed_complete (Some run) (Some (database_sink env ''llm'' node parent)) inner messages kwargs"
  "''llm:'' @ or_else (lc_model inner) ''unknown''" "start_metadata inner messages"
  "\<lambda>r. (case r of Inl e \<Rightarrow> redact_text (exn_text e) | Inr _ \<Rightarrow> [], None, take 2 (start_metadata inner messages))"
  "\<lambda>r. (llm_output_summary r, metrics_from_result r,
     [(''provider'', PStr (provider_name r inner)), (''model'', PStr (model_name r inner))])"
  for env node parent and inner :: "(obs_state \<times> 't) llm_client" and messages kwargs
  by unfold_locales
    (auto simp: observed_complete_def Let_def split: prod.split sum.split)

end
