(* ===== verification/Observability_Properties.thy ===== *)
theory Observability_Properties
  imports Llm
begin

text \<open>
  The properties of observability: what the event sink keeps of its tables, what it lets through of
  what it is given, the life of a span, and the snapshots kept for diagnosis.
\<close>

text \<open>A database that accepts every row, with a clock that advances by a second per reading.\<close>

definition plain_env :: obs_env where
  "plain_env = \<lparr>oe_refuses = (\<lambda>_. None), oe_clock = (\<lambda>n. int n * 1000000),
     oe_diagnostic_days = None, oe_projection_days = None\<rparr>"

definition one_run :: obs_state where
  "one_run = \<lparr>os_runs = [(1, \<lparr>rt_last_event_at = None, rt_last_span_name = [], rt_updated_at = 0\<rparr>)],
     os_events = [], os_spans = [], os_artifacts = [], os_checkpoints = [], os_diagnostics = [],
     os_projections = [], os_ticks = 0\<rparr>"

lemma one_run_ok: "obs_ok one_run"
  by (simp add: one_run_def obs_ok_def wf_dict_def)



text \<open>
  The timeline is append-only: a sequence of calls adds events, artifacts, checkpoints and
  projections after those that are there, removes no span and changes no span's run, parent, kind,
  name or start; and a call that raises leaves every table as it was.
\<close>

theorem timeline_only_grows:
  assumes "obs_ok s"
  shows "grows s (perform_all env calls s)
    \<and> (case perform env call s of (s', Inl e) \<Rightarrow> s' = s\<lparr>os_ticks := os_ticks s'\<rparr> | _ \<Rightarrow> True)"
  using perform_all_kept [OF assms, of env calls] perform_failed [of env call s]
  by (auto simp: kept_def split: prod.split sum.split)

theorem timeline_only_grows_witness:
  "grows one_run (perform_all plain_env [Run_Started_Call 1 None None] one_run)
    \<and> (case perform plain_env (Run_Started_Call 2 None None) one_run of
         (s', Inl e) \<Rightarrow> s' = one_run\<lparr>os_ticks := os_ticks s'\<rparr> | _ \<Rightarrow> True)"
  by (rule timeline_only_grows [OF one_run_ok])

text \<open>
  C5. Nothing under a sensitive key is persisted by the sink, in a table or in a snapshot: the state
  after any sequence of calls, and every answer, is the same when what is under sensitive keys of the
  payloads, metadata and metrics is blanked out first. The previews of messages in the metadata of a
  span have to be scalars (\<open>plain_call\<close>), as the observed client writes them.
\<close>

theorem sink_persists_no_secret:
  assumes "list_all plain_call calls" and "plain_call call"
  shows "perform_all env (map erase_call calls) s = perform_all env calls s
    \<and> perform env (erase_call call) s = perform env call s"
  using assms(1)
proof (induction calls arbitrary: s)
  case Nil
  show ?case by (simp add: perform_erase [OF assms(2)])
next
  case (Cons c cs)
  then show ?case using perform_erase [of c env] by (simp add: perform_erase [OF assms(2)])
qed

theorem sink_persists_no_secret_witness:
  "perform_all plain_env [Run_Started_Call 1 None (Some [(AStr ''password'', PNone)])] one_run
     = perform_all plain_env [Run_Started_Call 1 None (Some [(AStr ''password'', PStr ''hunter2'')])] one_run
   \<and> perform plain_env (Run_Failed_Call 1 ''stopped'' (Some [(AStr ''token'', PNone)])) one_run
     = perform plain_env (Run_Failed_Call 1 ''stopped'' (Some [(AStr ''token'', PInt 7)])) one_run"
proof -
  have k: "is_sensitive_key ''password''" "is_sensitive_key ''token''" by code_simp+
  show ?thesis
    using sink_persists_no_secret [of "[Run_Started_Call 1 None (Some [(AStr ''password'', PStr ''hunter2'')])]"
        "Run_Failed_Call 1 ''stopped'' (Some [(AStr ''token'', PInt 7)])" plain_env one_run] k
    by simp
qed

text \<open>
  A span that was started can be ended, whatever calls come between: on a database that accepts
  the rows, starting a span of a known run answers a reference, and completing it through that
  reference later finds the row, of that run and name, and leaves it succeeded and finished.
\<close>

theorem started_span_can_be_ended:
  assumes "obs_ok s" and "accepts env" and "run \<in> known (os_runs s)"
  shows "\<exists>s1 ref. perform env (Span_Started_Call run ty n nn None md) s = (s1, Inr (Span_Ref ref))
    \<and> (\<forall>calls. \<exists>s2 pk r. perform env (Span_Completed_Call ref out m md') (perform_all env calls s1)
           = (s2, Inr (Row_Key pk))
         \<and> map_of (os_spans s2) pk = Some r \<and> sn_run r = run \<and> sn_name r = n
         \<and> sn_status r = Span_Succeeded \<and> sn_finished_at r \<noteq> None)"
proof -
  obtain s1 pk r where start: "perform env (Span_Started_Call run ty n nn None md) s = (s1, Inr (Span_Ref (int_text pk)))"
    and r: "map_of (os_spans s1) pk = Some r" "sn_run r = run" "sn_name r = n"
    using sure_returns [OF span_started_sure [OF assms(2,3), of None ty n nn md]]
    by (auto simp: parent_ok_def new_span_def tx_bind_def tx_return_def)
  have s1: "obs_ok s1" using perform_step [OF assms(1), of env "Span_Started_Call run ty n nn None md"] start
    by (simp add: kept_def)
  have ended: "\<exists>s2 pk' r. perform env (Span_Completed_Call (int_text pk) out m md') (perform_all env calls s1)
           = (s2, Inr (Row_Key pk'))
         \<and> map_of (os_spans s2) pk' = Some r \<and> sn_run r = run \<and> sn_name r = n
         \<and> sn_status r = Span_Succeeded \<and> sn_finished_at r \<noteq> None" for calls
  proof -
    have t: "obs_ok (perform_all env calls s1)" "grows s1 (perform_all env calls s1)"
      using perform_all_kept [OF s1] by (simp_all add: kept_def)
    show ?thesis
      using sure_returns [OF end_sure(1) [OF assms(2) t r(1), of "''span.completed''" out m md']] r(2,3)
      by (auto simp: row_key_def span_completed_def tx_bind_def tx_return_def)
  qed
  show ?thesis
    by (rule exI [of _ s1], rule exI [of _ "int_text pk"], rule conjI, rule start, rule allI, rule ended)
qed

theorem started_span_can_be_ended_witness:
  "\<exists>s1 ref. perform plain_env (Span_Started_Call 1 ''graph'' ''main'' None None None) one_run = (s1, Inr (Span_Ref ref))
    \<and> (\<forall>calls. \<exists>s2 pk r. perform plain_env (Span_Completed_Call ref None None None) (perform_all plain_env calls s1)
           = (s2, Inr (Row_Key pk))
         \<and> map_of (os_spans s2) pk = Some r \<and> sn_run r = 1 \<and> sn_name r = ''main''
         \<and> sn_status r = Span_Succeeded \<and> sn_finished_at r \<noteq> None)"
  by (rule started_span_can_be_ended [OF one_run_ok]) (simp_all add: accepts_def plain_env_def one_run_def)

text \<open>
  C25. The snapshot of a value takes at most 64 KiB of JSON, of which \<open>byte_size\<close> is the exact number
  of bytes, and does not depend on anything under a sensitive key. When it is not marked as truncated, it
  is the whole value with its texts redacted: no limit has cut anything off.
\<close>

theorem snapshot_is_bounded_and_whole:
  "bd_byte_size (build_bounded_diagnostic v) = length (diag_json (bd_payload (build_bounded_diagnostic v)))
   \<and> bd_byte_size (build_bounded_diagnostic v) \<le> 64 * 1024
   \<and> diag_within 100 2000 (bd_payload (build_bounded_diagnostic v))
   \<and> build_bounded_diagnostic (erase_secrets v) = build_bounded_diagnostic v
   \<and> (bd_truncated (build_bounded_diagnostic v) \<or> bd_payload (build_bounded_diagnostic v) = diag_view v)"
  using snapshot_ok_build [of v] bounded_attempts_erase [of _ v] bounded_attempts_whole [of _ v]
  by (auto simp: snapshot_ok_def DIAGNOSTIC_MAX_BYTES_def build_bounded_diagnostic_def simp del: bounded_attempts.simps)

text \<open>
  A recorded snapshot is found until it expires, also after expired ones were purged at any time
  before: recording on a database that accepts the row makes the lookup return the snapshot as long as
  the retention lasts, and nothing afterwards.
\<close>

theorem snapshot_is_found_until_it_expires:
  assumes "obs_ok s" and "accepts env" and "length target_type \<le> 32" and "length field \<le> 100" and "t \<le> now"
  shows "(let s' = fst (record_diagnostic env target_type target field v run s);
      expires = oe_clock env (os_ticks s) + max 1 (case oe_diagnostic_days env of None \<Rightarrow> 7 | Some n \<Rightarrow> n) * 86400000000
    in map_option dr_snapshot (active_diagnostic now target_type target field (fst (purge_expired_diagnostics t s')))
       = (if now < expires then Some (build_bounded_diagnostic v) else None))"
  using assms active_after_purge [OF assms(5)]
  by (simp add: obs_ok_def Let_def record_diagnostic_accepted active_diagnostic_def map_of_dict_set
      diagnostic_retention_days_def days_time_def)

theorem snapshot_is_found_until_it_expires_witness:
  "map_option dr_snapshot (active_diagnostic 5 ''events'' 1 ''payload_summary''
     (fst (purge_expired_diagnostics 3
       (fst (record_diagnostic plain_env ''events'' 1 ''payload_summary'' (PInt 4) 1 one_run)))))
   = Some (build_bounded_diagnostic (PInt 4))"
  using snapshot_is_found_until_it_expires [OF one_run_ok, of plain_env "''events''" "''payload_summary''" 3 5 1 "PInt 4" 1]
  by (simp add: accepts_def plain_env_def one_run_def)

text \<open>
  The duration recorded for a span, computed with two roundings of floats, is the number of whole
  milliseconds between its start and its end or one less, for any span of up to 71 years. It can be one
  less: a span of 1001 milliseconds is recorded with 1000.
\<close>

theorem duration_loses_at_most_a_millisecond:
  assumes "0 \<le> microseconds" and "microseconds < 2 ^ 51"
  shows "duration_millis microseconds \<in> {microseconds div 1000 - 1, microseconds div 1000}
    \<and> duration_millis 1001000 = 1000"
  using duration_millis_error [OF assms] duration_of_1001_milliseconds by auto

theorem duration_loses_at_most_a_millisecond_witness:
  "duration_millis 1500000 \<in> {1499, 1500} \<and> duration_millis 1001000 = 1000"
  using duration_loses_at_most_a_millisecond [of 1500000] by simp

text \<open>
  C24. An observed tool call leaves no span open and does not change the call's outcome: with the
  event sink on a database that accepts the rows, the caller gets what the tool returned or raised, and
  the span of the call, a new one of the run named after the tool, is finished, as failed when the tool
  raised or its result reports a failure and as succeeded otherwise.
\<close>

theorem observed_tool_call_ends_its_span:
  assumes "accepts env" and "keeps_tables (inner name kwargs)" and "obs_ok (fst st)"
    and "run \<in> known (os_runs (fst st))" and "parent_ok parent (fst st)"
  shows "\<exists>st1 st2 r pk row. inner name kwargs st1 = (st2, r) \<and> snd st1 = snd st
    \<and> snd (observed_run (Some run) (Some (database_sink env ''tool'' node parent)) inner name kwargs st) = r
    \<and> pk \<notin> known (os_spans (fst st))
    \<and> map_of (os_spans (fst (fst (observed_run (Some run) (Some (database_sink env ''tool'' node parent))
          inner name kwargs st)))) pk = Some row
    \<and> sn_run row = run \<and> sn_name row = ''tool:'' @ name \<and> sn_finished_at row \<noteq> None
    \<and> sn_status row = (if (case r of Inl _ \<Rightarrow> True | Inr x \<Rightarrow> tr_exit_code x \<noteq> 0 \<or> tr_error_message x \<noteq> [])
        then Span_Failure else Span_Succeeded)"
  using assms by (rule tool_call.span_ends)

definition raising_tool :: "(obs_state \<times> unit) tool" where
  "raising_tool kwargs st = (st, Inl (PlainExn ValueError_cls ''bad input''))"

theorem observed_tool_call_ends_its_span_witness:
  "\<exists>pk row. map_of (os_spans (fst (fst (observed_run (Some 1) (Some (database_sink plain_env ''tool'' [] None))
      (memory_run [(''t'', raising_tool)]) ''t'' [] (one_run, ()))))) pk = Some row \<and> sn_status row = Span_Failure"
proof -
  have raises: "memory_run [(''t'', raising_tool)] ''t'' [] st = (st, Inl (PlainExn ValueError_cls ''bad input''))"
    for st :: "obs_state \<times> unit"
    by (simp add: memory_run_def registered_tool_def raising_tool_def)
  then have "keeps_tables (memory_run [(''t'', raising_tool)] ''t'' [])"
    by (simp add: keeps_tables_def kept_refl)
  then show ?thesis
    using observed_tool_call_ends_its_span [of plain_env "memory_run [(''t'', raising_tool)]" "''t''" "[]"
        "(one_run, ())" 1 None "[]"] raises one_run_ok
    by (auto simp: accepts_def plain_env_def one_run_def parent_ok_def)
qed

text \<open>
  The same for a completion of a language model, whose result never reports a failure. The metadata its
  span starts with meets the condition of the sink's secrecy.
\<close>

theorem observed_completion_ends_its_span:
  assumes "accepts env" and "keeps_tables (lc_complete inner messages kwargs)" and "obs_ok (fst st)"
    and "run \<in> known (os_runs (fst st))" and "parent_ok parent (fst st)"
  shows "\<exists>st1 st2 r pk row. lc_complete inner messages kwargs st1 = (st2, r) \<and> snd st1 = snd st
    \<and> snd (observed_complete (Some run) (Some (database_sink env ''llm'' node parent)) inner messages kwargs st) = r
    \<and> pk \<notin> known (os_spans (fst st))
    \<and> map_of (os_spans (fst (fst (observed_complete (Some run) (Some (database_sink env ''llm'' node parent))
          inner messages kwargs st)))) pk = Some row
    \<and> sn_run row = run \<and> sn_name row = ''llm:'' @ or_else (lc_model inner) ''unknown'' \<and> sn_finished_at row \<noteq> None
    \<and> sn_status row = (if (case r of Inl _ \<Rightarrow> True | Inr x \<Rightarrow> False) then Span_Failure else Span_Succeeded)"
  using assms by (rule llm_call.span_ends)

theorem observed_completion_persists_no_secret:
  "plain_call (Span_Started_Call run ''llm'' name node parent (Some (string_items (start_metadata inner messages))))"
  by (simp add: start_metadata_plain)

end
