(* ===== verification/Native_Steps.thy ===== *)
theory Native_Steps
  imports Event_Sink Workflow_Api Regex
begin

text \<open>
  native/policies.py and the steps of native/__init__.py: the retry policy, the buffer of
  observations, the context of an execution and \<open>NativeWorkflowContext.step\<close> with its retry loop,
  its timeout and the delay between attempts.

  The state is the context of the execution beside a world \<open>'w\<close>, of which the clock, the cancellation
  flags and the scheduler of the event loop are arguments. A step awaits: what its function does, and
  what other tasks do until it goes on, is one transformation of the state, so that nested and
  concurrent steps are covered. A task that does not return gives \<open>None\<close>. A function is given
  by the time it takes (none when it does not return), its effect, and its effect when it is cut off by a
  timeout; a coroutine that swallows its cancellation, and the notes added to an exception, are left
  out. Delays are finite floats.
\<close>

section \<open>Names\<close>

definition required_name :: "string \<Rightarrow> string \<Rightarrow> string res" where
  "required_name v field_name =
     (let normalized = strip v
      in if normalized = [] then Inl (PlainExn ValueError_cls (field_name @ '' must not be blank''))
         else if 128 < length normalized
           then Inl (PlainExn ValueError_cls (field_name @ '' must be at most 128 characters''))
         else Inr normalized)"

definition OCCURRENCE_KEY :: "string \<Rightarrow> bool" where
  "OCCURRENCE_KEY s = (case s of [] \<Rightarrow> False
     | c # cs \<Rightarrow> is_alnum c \<and> length cs \<le> 63 \<and> list_all (\<lambda>d. is_alnum d \<or> d \<in> set ''._:-'') cs)"

definition occurrence_identity :: "string \<Rightarrow> string option \<Rightarrow> string res" where
  "occurrence_identity name occurrence_key =
     (case occurrence_key of
        None \<Rightarrow> Inr name
      | Some k \<Rightarrow>
          (let normalized = strip k
           in if \<not> OCCURRENCE_KEY normalized
              then Inl (PlainExn ValueError_cls (''occurrence_key must be 1-64 safe identifier characters ''
                @ ''(letters, digits, '' @ quoted ''.'' @ '', '' @ quoted ''_'' @ '', '' @ quoted '':'' @ '', or ''
                @ quoted ''-'' @ '')''))
              else Inr (name @ '':'' @ normalized)))"

definition step_summary :: "pyval \<Rightarrow> pyval" where
  "step_summary v = (case v of
     PDict d \<Rightarrow> pdict (summarize_mapping DEFAULT_MAX_DEPTH DEFAULT_MAX_ITEMS d)
   | _ \<Rightarrow> summarize_display_value DEFAULT_MAX_ITEMS v)"

section \<open>Retry policies\<close>

record retry_policy =
  rp_max_attempts :: int
  rp_retry_on :: "exn_class list"
  rp_initial_delay_seconds :: rat
  rp_backoff_multiplier :: rat
  rp_max_delay_seconds :: rat

definition RetryPolicy :: "retry_policy \<Rightarrow> retry_policy res" where
  "RetryPolicy p =
     (let fail = (\<lambda>t. PlainExn ValueError_cls t)
      in r_bind (r_guard (rp_max_attempts p < 1) (fail ''max_attempts must be at least 1'')) (\<lambda>_.
         r_bind (r_guard (rp_retry_on p = []) (fail ''retry_on must not be empty'')) (\<lambda>_.
         r_bind (r_guard (rp_initial_delay_seconds p < 0) (fail ''initial_delay_seconds must not be negative'')) (\<lambda>_.
         r_bind (r_guard (rp_backoff_multiplier p < 1) (fail ''backoff_multiplier must be at least 1'')) (\<lambda>_.
         r_bind (r_guard (rp_max_delay_seconds p < 0) (fail ''max_delay_seconds must not be negative'')) (\<lambda>_.
         Inr p))))))"

definition NO_RETRY :: retry_policy where
  "NO_RETRY = \<lparr>rp_max_attempts = 1, rp_retry_on = [Exception_cls], rp_initial_delay_seconds = 0,
     rp_backoff_multiplier = 2, rp_max_delay_seconds = 60\<rparr>"

definition should_retry :: "retry_policy \<Rightarrow> exn \<Rightarrow> int \<Rightarrow> bool" where
  "should_retry p e attempt = (attempt < rp_max_attempts p \<and> list_ex (isinstance e) (rp_retry_on p))"

text \<open>
  A power of floats raises when it exceeds the largest float; a product gives the infinity, of which
  \<open>min\<close> makes the maximal delay.
\<close>

definition float_power :: "rat \<Rightarrow> nat \<Rightarrow> rat res" where
  "float_power x n =
     (let p = double_round (x ^ n)
      in if 2 ^ 1024 \<le> p
         then Inl (PlainExn (Other_cls ''OverflowError'') (''(34, '' @ quoted ''Numerical result out of range'' @ '')'')) else Inr p)"

definition delay_after :: "retry_policy \<Rightarrow> int \<Rightarrow> rat res" where
  "delay_after p attempt =
     (if rp_initial_delay_seconds p = 0 then Inr 0
      else r_bind (float_power (rp_backoff_multiplier p) (nat (attempt - 1))) (\<lambda>factor.
        let delay = double_round (rp_initial_delay_seconds p * factor)
        in Inr (if 2 ^ 1024 \<le> delay then rp_max_delay_seconds p else min delay (rp_max_delay_seconds p))))"

section \<open>The buffer of observations\<close>

text \<open>Where in a step an operation stands: the fields the three operations share.\<close>

record step_at =
  at_name :: string
  at_subject_id :: string
  at_logical_sequence :: int
  at_attempt :: int
  at_max_attempts :: int

datatype buffered_operation =
    Step_Started (op_span: span_ref) (op_at: step_at) (op_event_sequence: int) (op_input_summary: pyval)
  | Step_Completed (op_span: span_ref) (op_at: step_at) (op_event_sequence: int) (op_output_summary: pyval)
  | Step_Failed (op_span: span_ref) (op_at: step_at) (op_event_sequence: int) (op_status: string) (op_error_message: string)

record observation_buffer =
  ob_operations :: "buffered_operation list"
  ob_span_counter :: int
  ob_event_counter :: int

definition next_event_sequence :: "observation_buffer \<Rightarrow> observation_buffer \<times> int" where
  "next_event_sequence b =
     (let n = ob_event_counter b + 1 in (b\<lparr>ob_event_counter := n\<rparr>, n))"

definition record_operation :: "(int \<Rightarrow> buffered_operation) \<Rightarrow> observation_buffer \<Rightarrow> observation_buffer" where
  "record_operation operation b =
     (case next_event_sequence b of (b, n) \<Rightarrow> b\<lparr>ob_operations := ob_operations b @ [operation n]\<rparr>)"

definition native_span :: "int \<Rightarrow> span_ref" where
  "native_span n = ''native-buffer-'' @ int_text n"

definition buffer_start :: "step_at \<Rightarrow> pyval \<Rightarrow> observation_buffer \<Rightarrow> observation_buffer \<times> span_ref" where
  "buffer_start site input_value b =
     (let n = ob_span_counter b + 1; spn = native_span n
      in (record_operation (\<lambda>i. Step_Started spn site i (step_summary input_value)) (b\<lparr>ob_span_counter := n\<rparr>), spn))"

definition buffer_complete :: "span_ref \<Rightarrow> step_at \<Rightarrow> pyval \<Rightarrow> observation_buffer \<Rightarrow> observation_buffer" where
  "buffer_complete spn site output_value b =
     record_operation (\<lambda>i. Step_Completed spn site i (step_summary output_value)) b"

definition buffer_fail :: "span_ref \<Rightarrow> step_at \<Rightarrow> bool \<Rightarrow> observation_buffer \<Rightarrow> observation_buffer" where
  "buffer_fail spn site retrying b =
     record_operation (\<lambda>i. Step_Failed spn site i (if retrying then ''retrying'' else ''failed'')
       ''Native step execution failed.'') b"

section \<open>The context of an execution\<close>

record native_context =
  nc_observations :: observation_buffer
  nc_sequence :: int
  nc_subjects :: "string set"
  nc_progress_current :: "pyfloat option"
  nc_progress_total :: "pyfloat option"
  nc_metric_names :: "string set"

definition fresh_context :: native_context where
  "fresh_context = \<lparr>nc_observations = \<lparr>ob_operations = [], ob_span_counter = 0, ob_event_counter = 0\<rparr>,
     nc_sequence = 0, nc_subjects = {}, nc_progress_current = None, nc_progress_total = None,
     nc_metric_names = {}\<rparr>"

type_synonym 'w native_state = "native_context \<times> 'w"

text \<open>A task returns a state and a value or an exception, or it does not return.\<close>

type_synonym ('w, 'a) task = "'w native_state \<Rightarrow> ('w native_state \<times> 'a res) option"

record 'w event_loop =
  lp_flags :: "'w \<Rightarrow> nat set"
  lp_monotonic :: "'w \<Rightarrow> 'w \<times> rat"
  lp_sleep :: "rat \<Rightarrow> 'w native_state \<Rightarrow> 'w native_state"

record 'w invocation =
  iv_seconds :: "'w native_state \<Rightarrow> rat option"
  iv_returns :: "'w native_state \<Rightarrow> 'w native_state \<times> pyval res"
  iv_cut :: "rat \<Rightarrow> 'w native_state \<Rightarrow> 'w native_state"

text \<open>\<open>m\<close>, and then \<open>f\<close> of what it returns or the handler \<open>h\<close> of what it raises.\<close>

definition task_case :: "('w, 'a) task \<Rightarrow> (exn \<Rightarrow> ('w, 'b) task) \<Rightarrow> ('a \<Rightarrow> ('w, 'b) task) \<Rightarrow> ('w, 'b) task" where
  "task_case m h f s =
     (case m s of None \<Rightarrow> None | Some (s, Inl e) \<Rightarrow> h e s | Some (s, Inr x) \<Rightarrow> f x s)"

definition task_return :: "'a \<Rightarrow> ('w, 'a) task" where
  "task_return x s = Some (s, Inr x)"

definition task_raise :: "exn \<Rightarrow> ('w, 'a) task" where
  "task_raise e s = Some (s, Inl e)"

definition task_res :: "'a res \<Rightarrow> ('w, 'a) task" where
  "task_res r s = Some (s, r)"

definition task_bind :: "('w, 'a) task \<Rightarrow> ('a \<Rightarrow> ('w, 'b) task) \<Rightarrow> ('w, 'b) task" where
  "task_bind m f = task_case m task_raise f"

definition task_context :: "(native_context \<Rightarrow> native_context \<times> 'a) \<Rightarrow> ('w, 'a) task" where
  "task_context g s = (case g (fst s) of (c, x) \<Rightarrow> Some ((c, snd s), Inr x))"

definition on_buffer :: "(observation_buffer \<Rightarrow> observation_buffer) \<Rightarrow> native_context \<Rightarrow> native_context \<times> unit" where
  "on_buffer g c = (c\<lparr>nc_observations := g (nc_observations c)\<rparr>, ())"

definition check_cancelled :: "'w event_loop \<Rightarrow> execution_control option \<Rightarrow> ('w, unit) task" where
  "check_cancelled lp control s =
     (case control of
        None \<Rightarrow> Some (s, Inr ())
      | Some k \<Rightarrow> (case lp_monotonic lp (snd s) of (w, now) \<Rightarrow>
          Some ((fst s, w), control_check (lp_flags lp (snd s)) now k)))"

definition control_remaining :: "'w event_loop \<Rightarrow> execution_control option \<Rightarrow> ('w, rat option) task" where
  "control_remaining lp control s =
     (case control of
        None \<Rightarrow> Some (s, Inr None)
      | Some k \<Rightarrow> (case lp_monotonic lp (snd s) of (w, now) \<Rightarrow>
          Some ((fst s, w), Inr (remaining_seconds now (ctl_deadline k)))))"

definition effective_timeout ::
  "'w event_loop \<Rightarrow> rat option \<Rightarrow> execution_control option \<Rightarrow> ('w, rat option) task" where
  "effective_timeout lp requested control =
     task_bind (control_remaining lp control) (\<lambda>remaining.
     task_bind (case remaining of
         Some r \<Rightarrow> if r \<le> 0 then check_cancelled lp control else task_return ()
       | None \<Rightarrow> task_return ()) (\<lambda>_.
     task_return (case (requested, remaining) of
         (None, _) \<Rightarrow> remaining
       | (Some t, None) \<Rightarrow> Some t
       | (Some t, Some r) \<Rightarrow> Some (min t r))))"

section \<open>A step\<close>

definition step_timed_out :: exn where
  "step_timed_out = WorkflowTimeoutError ''Native step execution timed out.''"

definition invoke_step :: "'w invocation \<Rightarrow> rat option \<Rightarrow> ('w, pyval) task" where
  "invoke_step iv timeout s =
     (let finish = (\<lambda>(s, r). Some (s, case r of
            Inl e \<Rightarrow> Inl (if isinstance e (Other_cls ''TimeoutError'') then step_timed_out else e)
          | Inr x \<Rightarrow> Inr x))
      in case (iv_seconds iv s, timeout) of
           (None, None) \<Rightarrow> None
         | (Some d, None) \<Rightarrow> finish (iv_returns iv s)
         | (None, Some t) \<Rightarrow> Some (iv_cut iv t s, Inl step_timed_out)
         | (Some d, Some t) \<Rightarrow> if d \<le> t then finish (iv_returns iv s)
             else Some (iv_cut iv t s, Inl step_timed_out))"

text \<open>The float nearest to one tenth.\<close>

definition TENTH :: rat where "TENTH = 3602879701896397 / 36028797018963968"

partial_function (option) retry_delay ::
  "'w event_loop \<Rightarrow> execution_control option \<Rightarrow> rat \<Rightarrow> 'w native_state \<Rightarrow> ('w native_state \<times> unit res) option"
where
  "retry_delay lp control remaining s =
     (if 0 < remaining
      then (case check_cancelled lp control s of
          None \<Rightarrow> None
        | Some (s, Inl e) \<Rightarrow> Some (s, Inl e)
        | Some (s, Inr _) \<Rightarrow>
            retry_delay lp control (double_round (remaining - min remaining TENTH))
              (lp_sleep lp (min remaining TENTH) s))
      else check_cancelled lp control s)"

text \<open>The body of the \<open>try\<close> of an attempt.\<close>

definition attempt_call ::
  "'w event_loop \<Rightarrow> execution_control option \<Rightarrow> rat option \<Rightarrow> 'w invocation \<Rightarrow> ('w, pyval) task" where
  "attempt_call lp control timeout iv =
     task_bind (effective_timeout lp timeout control) (\<lambda>t.
     task_bind (invoke_step iv t) (\<lambda>result.
     task_bind (check_cancelled lp control) (\<lambda>_.
     task_return result)))"

function step_attempts ::
  "'w event_loop \<Rightarrow> execution_control option \<Rightarrow> rat option \<Rightarrow> 'w invocation \<Rightarrow> retry_policy \<Rightarrow> step_at
     \<Rightarrow> pyval \<Rightarrow> int \<Rightarrow> ('w, pyval) task"
where
  "step_attempts lp control timeout iv policy site input_value attempt s =
     (if rp_max_attempts policy < attempt
      then Some (s, Inl (PlainExn (Other_cls ''AssertionError'') ''retry loop exhausted without returning or raising''))
      else let here = site\<lparr>at_attempt := attempt, at_max_attempts := rp_max_attempts policy\<rparr> in
        task_bind (check_cancelled lp control) (\<lambda>_.
        task_bind (task_context (\<lambda>c. case buffer_start here input_value (nc_observations c) of
            (b, spn) \<Rightarrow> (c\<lparr>nc_observations := b\<rparr>, spn))) (\<lambda>symbolic_span.
        task_case (attempt_call lp control timeout iv)
          (\<lambda>e. let retrying = (\<not> isinstance e WorkflowCancelledError_cls \<and> should_retry policy e attempt) in
            task_bind (task_context (on_buffer (buffer_fail symbolic_span here retrying))) (\<lambda>_.
            if \<not> retrying then task_raise e
            else task_bind (task_res (delay_after policy attempt)) (\<lambda>delay.
              task_bind (retry_delay lp control delay) (\<lambda>_ s.
              step_attempts lp control timeout iv policy site input_value (attempt + 1) s))))
          (\<lambda>result. task_bind (task_context (on_buffer (buffer_complete symbolic_span here result))) (\<lambda>_.
            task_return result)))) s)"
  by pat_completeness auto
termination
  by (relation "measure (\<lambda>(_, _, _, _, policy, _, _, attempt, _). nat (rp_max_attempts policy + 1 - attempt))") auto

declare step_attempts.simps [simp del]

definition MAX_STEP_OCCURRENCES :: nat where "MAX_STEP_OCCURRENCES = 1000"

record step_options =
  so_retry :: "retry_policy option"
  so_timeout_seconds :: "rat option"
  so_occurrence_key :: "string option"

definition claim_step :: "string \<Rightarrow> native_context \<Rightarrow> native_context \<times> int" where
  "claim_step subject_id c =
     (let n = nc_sequence c + 1 in (c\<lparr>nc_subjects := insert subject_id (nc_subjects c), nc_sequence := n\<rparr>, n))"

definition admit_step :: "string \<Rightarrow> step_options \<Rightarrow> native_context \<Rightarrow> (string \<times> string) res" where
  "admit_step name options c =
     r_bind (required_name name ''step name'') (\<lambda>step_name.
     r_bind (occurrence_identity step_name (so_occurrence_key options)) (\<lambda>subject_id.
     r_bind (r_guard (subject_id \<in> nc_subjects c) (PlainExn ValueError_cls (''Native step occurrence ''
       @ str_repr subject_id @ '' was already used; provide a unique occurrence_key for repeated calls''))) (\<lambda>_.
     r_bind (r_guard (MAX_STEP_OCCURRENCES \<le> card (nc_subjects c))
       (PlainExn RuntimeError_cls ''Native workflow exceeded the step occurrence limit'')) (\<lambda>_.
     r_bind (r_guard (case so_timeout_seconds options of None \<Rightarrow> False | Some t \<Rightarrow> t \<le> 0)
       (PlainExn ValueError_cls ''timeout_seconds must be a positive number'')) (\<lambda>_.
     Inr (step_name, subject_id))))))"

definition native_step ::
  "'w event_loop \<Rightarrow> execution_control option \<Rightarrow> string \<Rightarrow> (pyval list \<Rightarrow> pyitems \<Rightarrow> 'w invocation)
     \<Rightarrow> pyval list \<Rightarrow> pyitems \<Rightarrow> step_options \<Rightarrow> ('w, pyval) task" where
  "native_step lp control name callable args kwargs options =
     task_bind (\<lambda>s. task_res (admit_step name options (fst s)) s) (\<lambda>(step_name, subject_id).
     task_bind (check_cancelled lp control) (\<lambda>_.
     task_bind (task_context (claim_step subject_id)) (\<lambda>logical_sequence.
       let policy = (case so_retry options of None \<Rightarrow> NO_RETRY | Some p \<Rightarrow> p) in
       step_attempts lp control (so_timeout_seconds options) (callable args kwargs) policy
         \<lparr>at_name = step_name, at_subject_id = subject_id, at_logical_sequence = logical_sequence,
          at_attempt = 0, at_max_attempts = rp_max_attempts policy\<rparr>
         (PDict [(AStr ''args'', PTuple args), (AStr ''kwargs'', PDict kwargs)]) 1)))"

end
