(* ===== verification/Native_Invariants.thy ===== *)
theory Native_Invariants
  imports Native_Steps
begin

text \<open>
  What a step does to the context of its execution: the invariant of the buffer and the claimed
  occurrences, the trail a step leaves whatever happens while it awaits, and the steps that return.
  What other tasks may do meanwhile is a preorder on contexts (\<open>extends\<close>); a step keeps to it
  as well, so that steps nest and interleave.
\<close>

section \<open>Conditions on tasks\<close>

named_theorems task_rules "conditions on tasks"

definition task_post :: "('w, 'a) task \<Rightarrow> ('a res \<Rightarrow> 'w native_state \<Rightarrow> bool) \<Rightarrow> 'w native_state \<Rightarrow> bool" where
  "task_post m Q s = (case m s of None \<Rightarrow> True | Some (s', r) \<Rightarrow> Q r s')"

lemma task_post_case [task_rules]:
  "task_post (task_case m h f) Q =
     task_post m (\<lambda>r. case r of Inl e \<Rightarrow> task_post (h e) Q | Inr x \<Rightarrow> task_post (f x) Q)"
  by (auto simp: task_post_def task_case_def fun_eq_iff split: option.splits sum.splits)

lemma task_post_basic [task_rules]:
  "task_post (task_return x) Q = Q (Inr x)"
  "task_post (task_raise e) Q = Q (Inl e)"
  "task_post (task_res r) Q = Q r"
  "task_post (task_context g) Q = (\<lambda>s. case g (fst s) of (c, x) \<Rightarrow> Q (Inr x) (c, snd s))"
  by (auto simp: task_post_def task_return_def task_raise_def task_res_def task_context_def fun_eq_iff
      split: prod.splits)

lemma task_post_bind [task_rules]:
  "task_post (task_bind m f) Q =
     task_post m (\<lambda>r. case r of Inl e \<Rightarrow> Q (Inl e) | Inr x \<Rightarrow> task_post (f x) Q)"
  by (simp add: task_bind_def task_rules cong: sum.case_cong)

lemma task_post_mono: "task_post m P s \<Longrightarrow> (\<And>r t. P r t \<Longrightarrow> Q r t) \<Longrightarrow> task_post m Q s"
  by (auto simp: task_post_def split: option.splits)

lemma task_postI: "(\<And>t r. m s = Some (t, r) \<Longrightarrow> Q r t) \<Longrightarrow> task_post m Q s"
  by (simp add: task_post_def split: option.split)

lemma task_postD: "task_post m Q s \<Longrightarrow> m s = Some (t, r) \<Longrightarrow> Q r t"
  by (simp add: task_post_def)

section \<open>The invariant\<close>

definition is_start :: "buffered_operation \<Rightarrow> bool" where
  "is_start a = (case a of Step_Started _ _ _ _ \<Rightarrow> True | _ \<Rightarrow> False)"

lemma is_start_simps [simp]:
  "is_start (Step_Started p a i v)" "\<not> is_start (Step_Completed p a i w)" "\<not> is_start (Step_Failed p a i st m)"
  by (simp_all add: is_start_def)

text \<open>The spans that are open after a list of operations, where every end has its start before it.\<close>

fun open_spans :: "(span_ref \<times> step_at) set \<Rightarrow> buffered_operation list \<Rightarrow> (span_ref \<times> step_at) set option" where
  "open_spans S [] = Some S"
| "open_spans S (a # ops) =
     (if is_start a then if op_span a \<in> fst ` S then None else open_spans (insert (op_span a, op_at a) S) ops
      else if (op_span a, op_at a) \<in> S then open_spans (S - {(op_span a, op_at a)}) ops else None)"

abbreviation subject :: "buffered_operation \<Rightarrow> string" where
  "subject a \<equiv> at_subject_id (op_at a)"

abbreviation operations :: "native_context \<Rightarrow> buffered_operation list" where
  "operations c \<equiv> ob_operations (nc_observations c)"

definition history :: "string \<Rightarrow> native_context \<Rightarrow> buffered_operation list" where
  "history u c = filter (\<lambda>a. subject a = u) (operations c)"

definition quiet :: "string \<Rightarrow> native_context \<Rightarrow> bool" where
  "quiet u c = (open_spans {} (history u c) = Some {})"

definition context_ok :: "native_context \<Rightarrow> bool" where
  "context_ok c = (let b = nc_observations c in
     map op_event_sequence (operations c) = [1..ob_event_counter b]
     \<and> ob_event_counter b = int (length (operations c))
     \<and> map op_span (filter is_start (operations c)) = map native_span [1..ob_span_counter b] \<and> 0 \<le> ob_span_counter b
     \<and> open_spans {} (operations c) \<noteq> None
     \<and> finite (nc_subjects c) \<and> nc_sequence c = int (card (nc_subjects c)) \<and> card (nc_subjects c) \<le> MAX_STEP_OCCURRENCES
     \<and> (\<forall>a \<in> set (operations c). subject a \<in> nc_subjects c \<and> 1 \<le> at_logical_sequence (op_at a)
          \<and> at_logical_sequence (op_at a) \<le> nc_sequence c))"

lemma fresh_context_ok: "context_ok fresh_context"
  by (simp add: context_ok_def fresh_context_def)

text \<open>
  \<open>moves X alone P c c'\<close>: the context grew in order, and the history of every subject of \<open>P\<close> but
  those of \<open>X\<close> is unchanged; when nothing else is left running (\<open>alone\<close>), subjects without an open span
  have none afterwards.
\<close>

definition moves :: "string set \<Rightarrow> bool \<Rightarrow> string set \<Rightarrow> native_context \<Rightarrow> native_context \<Rightarrow> bool" where
  "moves X alone P c c' = (context_ok c' \<and> (\<exists>ops. operations c' = operations c @ ops)
     \<and> nc_subjects c \<subseteq> nc_subjects c' \<and> nc_sequence c \<le> nc_sequence c'
     \<and> (\<forall>v \<in> P - X. history v c' = history v c) \<and> (alone \<longrightarrow> (\<forall>v. v \<notin> X \<longrightarrow> quiet v c \<longrightarrow> quiet v c')))"

definition extends :: "bool \<Rightarrow> string set \<Rightarrow> native_context \<Rightarrow> native_context \<Rightarrow> bool" where
  "extends alone P c c' = (context_ok c \<longrightarrow> moves {} alone P c c')"

lemma moves_refl: "context_ok c \<Longrightarrow> moves X alone P c c"
  by (simp add: moves_def)

lemma moves_trans: "moves X alone P c d \<Longrightarrow> moves X alone P d e \<Longrightarrow> moves X alone P c e"
  by (auto simp: moves_def)

lemma moves_ok: "moves X alone P c d \<Longrightarrow> context_ok d"
  by (simp add: moves_def)

lemma moves_exempt: "moves {} alone P c d \<Longrightarrow> moves X alone P c d"
  by (simp add: moves_def)

lemma moves_protect: "moves X alone P c d \<Longrightarrow> Q - X \<subseteq> P \<Longrightarrow> moves X alone Q c d"
  by (auto simp: moves_def)

lemma moves_quiet: "moves {u} alone P c d \<Longrightarrow> u \<notin> P \<Longrightarrow> quiet u d \<Longrightarrow> moves {} alone P c d"
  by (auto simp: moves_def)

lemma extends_refl: "extends alone P c c"
  by (simp add: extends_def moves_refl)

lemma extends_trans: "extends alone P c d \<Longrightarrow> extends alone P d e \<Longrightarrow> extends alone P c e"
  unfolding extends_def using moves_trans moves_ok by blast

lemma open_spans_append:
  "open_spans S (xs @ ys) = (case open_spans S xs of None \<Rightarrow> None | Some T \<Rightarrow> open_spans T ys)"
  by (induction xs arbitrary: S) auto

definition of_subject :: "string \<Rightarrow> (span_ref \<times> step_at) set \<Rightarrow> (span_ref \<times> step_at) set" where
  "of_subject u S = {x \<in> S. at_subject_id (snd x) = u}"

lemma of_subject_simps [simp]:
  "of_subject u {} = {}"
  "of_subject u (insert (p, a) S) = (if at_subject_id a = u then insert (p, a) (of_subject u S) else of_subject u S)"
  "of_subject u (S - {(p, a)}) = (if at_subject_id a = u then of_subject u S - {(p, a)} else of_subject u S)"
  "(p, a) \<in> of_subject u S \<longleftrightarrow> (p, a) \<in> S \<and> at_subject_id a = u"
  by (auto simp: of_subject_def)

lemma fst_of_subject: "p \<in> fst ` of_subject u S \<Longrightarrow> p \<in> fst ` S"
  by (auto simp: of_subject_def)

lemma open_spans_filter:
  "open_spans S ops = Some T \<Longrightarrow>
     open_spans (of_subject u S) (filter (\<lambda>a. subject a = u) ops) = Some (of_subject u T)"
proof (induction ops arbitrary: S)
  case (Cons a ops)
  show ?case
  proof (cases "is_start a")
    case True
    then have "op_span a \<notin> fst ` S" and "open_spans (insert (op_span a, op_at a) S) ops = Some T"
      using Cons.prems by (simp_all split: if_splits)
    moreover from this have "op_span a \<notin> fst ` of_subject u S" using fst_of_subject by blast
    ultimately show ?thesis using Cons.IH [of "insert (op_span a, op_at a) S"] True
      by (cases "subject a = u") simp_all
  next
    case False
    then have "(op_span a, op_at a) \<in> S" and "open_spans (S - {(op_span a, op_at a)}) ops = Some T"
      using Cons.prems by (simp_all split: if_splits)
    with Cons.IH [OF this(2)] False show ?thesis by (simp split: if_splits)
  qed
qed simp

lemma open_spans_started:
  "open_spans S ops = Some T \<Longrightarrow> p \<in> fst ` T \<Longrightarrow> p \<in> fst ` S \<or> p \<in> op_span ` set (filter is_start ops)"
proof (induction ops arbitrary: S)
  case (Cons a ops)
  show ?case
  proof (cases "is_start a")
    case True
    then have "open_spans (insert (op_span a, op_at a) S) ops = Some T"
      using Cons.prems(1) by (simp split: if_splits)
    from Cons.IH [OF this Cons.prems(2)] True show ?thesis by auto
  next
    case False
    then have "open_spans (S - {(op_span a, op_at a)}) ops = Some T"
      using Cons.prems(1) by (simp split: if_splits)
    from Cons.IH [OF this Cons.prems(2)] False show ?thesis by auto
  qed
qed simp

lemma native_span_inj: "0 \<le> i \<Longrightarrow> 0 \<le> j \<Longrightarrow> native_span i = native_span j \<longleftrightarrow> i = j"
  using nat_text_inj [of "nat i" "nat j"] by (auto simp: native_span_def int_text_def)

section \<open>Recording an operation\<close>

text \<open>One operation more, at the next event sequence, that opens or ends a span of the subject it is of.\<close>

definition recorded :: "(int \<Rightarrow> buffered_operation) \<Rightarrow> native_context \<Rightarrow> native_context" where
  "recorded f c = c\<lparr>nc_observations := record_operation f (nc_observations c)\<rparr>"

lemma recorded_fields [simp]:
  "operations (recorded f c) = operations c @ [f (ob_event_counter (nc_observations c) + 1)]"
  "ob_event_counter (nc_observations (recorded f c)) = ob_event_counter (nc_observations c) + 1"
  "ob_span_counter (nc_observations (recorded f c)) = ob_span_counter (nc_observations c)"
  "nc_subjects (recorded f c) = nc_subjects c" "nc_sequence (recorded f c) = nc_sequence c"
  by (simp_all add: recorded_def record_operation_def next_event_sequence_def Let_def)

lemma history_snoc:
  "operations c' = operations c @ [a] \<Longrightarrow> history v c' = history v c @ (if subject a = v then [a] else [])"
  by (simp add: history_def)

lemma quiet_other: "history v c' = history v c \<Longrightarrow> quiet v c' = quiet v c"
  by (simp add: quiet_def)

lemma upto_snoc: "0 \<le> n \<Longrightarrow> [1..n + 1] = [1..n] @ [n + 1 :: int]"
  using upto_rec2 [of 1 "n + 1"] by simp

lemma own_moves:
  assumes "context_ok d" and ops: "operations d = operations c @ [a]" and "nc_subjects d = nc_subjects c"
    and "nc_sequence d = nc_sequence c" and u: "subject a = u"
  shows "moves {u} alone P c d" and "history u d = history u c @ [a]"
proof -
  have h: "history v d = history v c @ (if v = u then [a] else [])" for v
    using history_snoc [OF ops] u by auto
  then show "history u d = history u c @ [a]" by simp
  have "v \<noteq> u \<Longrightarrow> quiet v d = quiet v c" for v using h by (simp add: quiet_def)
  then show "moves {u} alone P c d" using assms h by (simp add: moves_def)
qed

text \<open>An operation of a claimed subject.\<close>

definition claimed :: "step_at \<Rightarrow> native_context \<Rightarrow> bool" where
  "claimed site c = (at_subject_id site \<in> nc_subjects c \<and> 1 \<le> at_logical_sequence site
     \<and> at_logical_sequence site \<le> nc_sequence c)"

lemma claimed_moves: "claimed site c \<Longrightarrow> moves X alone P c d \<Longrightarrow> claimed site d"
  by (auto simp: claimed_def moves_def)

lemma end_moves:
  assumes ok: "context_ok c" and "claimed here c" and h: "at_subject_id here = u"
    and op: "\<And>i. op_at (f i) = here \<and> op_span (f i) = p \<and> op_event_sequence (f i) = i \<and> \<not> is_start (f i)"
    and opened: "open_spans {} (history u c) = Some {(p, here)}"
  shows "moves {u} alone P c (recorded f c) \<and> quiet u (recorded f c)
    \<and> history u (recorded f c) = history u c @ [f (ob_event_counter (nc_observations c) + 1)]"
proof -
  let ?a = "f (ob_event_counter (nc_observations c) + 1)"
  obtain S where S: "open_spans {} (operations c) = Some S" using ok by (auto simp: context_ok_def Let_def)
  have "of_subject u S = {(p, here)}"
    using open_spans_filter [OF S, of u] opened by (simp add: history_def)
  then have "(p, here) \<in> of_subject u S" by simp
  then have "(p, here) \<in> S" unfolding of_subject_simps by simp
  then have "open_spans {} (operations (recorded f c)) \<noteq> None" using S op by (simp add: open_spans_append)
  then have "context_ok (recorded f c)"
    using ok op assms(2) h by (auto simp: context_ok_def Let_def upto_snoc claimed_def)
  note own = own_moves [OF this, of c ?a u]
  have "quiet u (recorded f c)"
    using opened op own(2) h by (simp add: quiet_def open_spans_append)
  with own op h show ?thesis by simp
qed

definition counted_span :: "native_context \<Rightarrow> native_context" where
  "counted_span c = c\<lparr>nc_observations := (nc_observations c)\<lparr>ob_span_counter := ob_span_counter (nc_observations c) + 1\<rparr>\<rparr>"

lemma start_moves:
  assumes ok: "context_ok c" and "claimed here c" and h: "at_subject_id here = u" and q: "quiet u c"
    and op: "\<And>i. op_at (f i) = here \<and> op_span (f i) = p \<and> op_event_sequence (f i) = i \<and> is_start (f i)"
    and p: "p = native_span (ob_span_counter (nc_observations c) + 1)"
  defines "d \<equiv> recorded f (counted_span c)"
  shows "moves {u} alone P c d \<and> open_spans {} (history u d) = Some {(p, here)}
    \<and> history u d = history u c @ [f (ob_event_counter (nc_observations c) + 1)]"
proof -
  let ?n = "ob_span_counter (nc_observations c)" and ?a = "f (ob_event_counter (nc_observations c) + 1)"
  have ops: "operations d = operations c @ [?a]" by (simp add: d_def counted_span_def)
  obtain S where S: "open_spans {} (operations c) = Some S" using ok by (auto simp: context_ok_def Let_def)
  have n: "0 \<le> ?n" and starts: "map op_span (filter is_start (operations c)) = map native_span [1..?n]"
    using ok by (simp_all add: context_ok_def Let_def)
  have "op_span ` set (filter is_start (operations c)) = native_span ` {1..?n}"
    using starts by (metis set_map set_upto)
  moreover have "p \<notin> native_span ` {1..?n}" using n p by (auto simp: native_span_inj)
  ultimately have "p \<notin> fst ` S" using open_spans_started [OF S, of p] by auto
  then have "open_spans {} (operations d) \<noteq> None" using S op ops by (simp add: open_spans_append)
  then have "context_ok d"
    using ok op assms(2) h p n unfolding context_ok_def Let_def ops
    by (auto simp: upto_snoc claimed_def d_def counted_span_def)
  note own = own_moves [OF this ops, of u]
  have "nc_subjects d = nc_subjects c" "nc_sequence d = nc_sequence c"
    by (simp_all add: d_def counted_span_def)
  note own = own [OF this]
  have "open_spans {} (history u d) = Some {(p, here)}"
    using q op own(2) h by (simp add: quiet_def open_spans_append)
  with own op h show ?thesis by simp
qed

section \<open>What happens while a step awaits\<close>

definition awaits_ok :: "bool \<Rightarrow> string set \<Rightarrow> 'w event_loop \<Rightarrow> 'w invocation \<Rightarrow> bool" where
  "awaits_ok alone P lp iv = (\<forall>s. extends alone P (fst s) (fst (fst (iv_returns iv s)))
     \<and> (\<forall>t. extends alone P (fst s) (fst (iv_cut iv t s))) \<and> (\<forall>d. extends alone P (fst s) (fst (lp_sleep lp d s))))"

lemma awaits_okD:
  assumes "awaits_ok alone P lp iv"
  shows "extends alone P (fst s) (fst (fst (iv_returns iv s)))" "extends alone P (fst s) (fst (iv_cut iv t s))"
    "extends alone P (fst s) (fst (lp_sleep lp d s))"
  using assms unfolding awaits_ok_def by blast+

lemma check_cancelled_post: "(\<And>r w. Q r (fst s, w)) \<Longrightarrow> task_post (check_cancelled lp control) Q s"
  by (cases s) (auto simp: check_cancelled_def task_post_def split: option.splits prod.splits)

text \<open>The exceptions of the control: what its check raises at some moment of the event loop.\<close>

definition stopped_by :: "'w event_loop \<Rightarrow> execution_control option \<Rightarrow> exn \<Rightarrow> bool" where
  "stopped_by lp control e \<longleftrightarrow>
     (\<exists>w k. control = Some k \<and> control_check (lp_flags lp w) (snd (lp_monotonic lp w)) k = Inl e)"

lemma check_cancelled_stops:
  "check_cancelled lp control s = Some (t, r) \<Longrightarrow> fst t = fst s \<and> (\<forall>e. r = Inl e \<longrightarrow> stopped_by lp control e)"
  unfolding check_cancelled_def stopped_by_def
  by (cases s) (auto split: option.splits prod.splits intro: exI [of _ "snd s"] simp: prod_eq_iff)

lemma check_cancelled_case:
  assumes "\<And>e w. stopped_by lp control e \<Longrightarrow> Q (Inl e) (fst s, w)" and "\<And>w. Q (Inr ()) (fst s, w)"
  shows "task_post (check_cancelled lp control) Q s"
proof (rule task_postI)
  fix t r assume run: "check_cancelled lp control s = Some (t, r)"
  have t: "t = (fst s, snd t)" using check_cancelled_stops [OF run] by (simp add: prod_eq_iff)
  show "Q r t"
    using check_cancelled_stops [OF run] assms(1) [of _ "snd t"] assms(2) [of "snd t"] t by (cases r) auto
qed

lemma control_remaining_post: "(\<And>r w. Q r (fst s, w)) \<Longrightarrow> task_post (control_remaining lp control) Q s"
  by (cases s) (auto simp: control_remaining_def task_post_def split: option.splits prod.splits)

lemma effective_timeout_post:
  assumes Q: "\<And>r w. Q r (fst s, w)"
  shows "task_post (effective_timeout lp requested control) Q s"
proof -
  have rest: "task_post (check_cancelled lp control)
      (\<lambda>r. case r of Inl e \<Rightarrow> Q (Inl e) | Inr x \<Rightarrow> Q (Inr y)) (fst s, w)" for w y
    by (rule check_cancelled_post) (simp add: Q split: sum.split)
  show ?thesis
    unfolding effective_timeout_def task_post_bind task_post_basic
    by (rule control_remaining_post) (auto simp: task_rules Q rest split: sum.split option.split)
qed

lemma invoke_step_post:
  assumes "awaits_ok alone P lp iv" and "\<And>r t. extends alone P (fst s) (fst t) \<Longrightarrow> Q r t"
  shows "task_post (invoke_step iv timeout) Q s"
proof (rule task_postI, rule assms(2))
  fix t r assume "invoke_step iv timeout s = Some (t, r)"
  then have "t = fst (iv_returns iv s) \<or> (\<exists>d. t = iv_cut iv d s)"
    by (auto simp: invoke_step_def Let_def split: option.splits prod.splits if_splits)
  then show "extends alone P (fst s) (fst t)" using awaits_okD [OF assms(1), of s] by auto
qed

lemma attempt_call_post:
  assumes "awaits_ok alone P lp iv" and Q: "\<And>r t. extends alone P (fst s) (fst t) \<Longrightarrow> Q r t"
  shows "task_post (attempt_call lp control timeout iv) Q s"
proof -
  have last: "task_post (check_cancelled lp control)
      (\<lambda>r. case r of Inl e \<Rightarrow> Q (Inl e) | Inr x \<Rightarrow> Q (Inr y)) t" if "extends alone P (fst s) (fst t)" for t y
    by (rule check_cancelled_post) (use Q that in \<open>simp split: sum.split\<close>)
  have call: "task_post (invoke_step iv t) (\<lambda>r. case r of Inl e \<Rightarrow> Q (Inl e)
      | Inr result \<Rightarrow> task_post (check_cancelled lp control)
          (\<lambda>r. case r of Inl e \<Rightarrow> Q (Inl e) | Inr x \<Rightarrow> Q (Inr result))) (fst s, w)" for t w
    by (rule invoke_step_post [OF assms(1)]) (use Q last in \<open>simp split: sum.split\<close>)
  show ?thesis
    unfolding attempt_call_def task_post_bind task_post_basic
    by (rule effective_timeout_post) (use Q call extends_refl in \<open>simp split: sum.split\<close>)
qed

lemma retry_delay_ends:
  assumes await: "awaits_ok alone P lp iv" and "retry_delay lp control remaining s = Some y"
  shows "extends alone P (fst s) (fst (fst y)) \<and> (\<forall>e. snd y = Inl e \<longrightarrow> stopped_by lp control e)"
proof -
  let ?Q = "\<lambda>k c s y. extends alone P (fst s) (fst (fst y)) \<and> (\<forall>e. snd y = Inl e \<longrightarrow> stopped_by k c e)"
  have "lp = lp \<longrightarrow> ?Q lp control s y"
  proof (rule retry_delay.raw_induct [where P = "\<lambda>k c _ s y. k = lp \<longrightarrow> ?Q k c s y", OF _ assms(2)])
    fix rd k c rem s y
    assume IH: "\<And>k c rem s y. rd k c rem s = Some y \<Longrightarrow> k = lp \<longrightarrow> ?Q k c s y"
      and step: "(if 0 < rem
        then (case check_cancelled k c s of None \<Rightarrow> None | Some (s, Inl e) \<Rightarrow> Some (s, Inl e)
          | Some (s, Inr _) \<Rightarrow> rd k c (double_round (rem - min rem TENTH)) (lp_sleep k (min rem TENTH) s))
        else check_cancelled k c s) = Some y"
    note check = check_cancelled_stops [of k c s]
    show "k = lp \<longrightarrow> ?Q k c s y"
    proof (cases "\<exists>t. 0 < rem \<and> check_cancelled k c s = Some (t, Inr ())")
      case True
      then obtain t where t: "0 < rem" "check_cancelled k c s = Some (t, Inr ())" by auto
      then have "rd k c (double_round (rem - min rem TENTH)) (lp_sleep k (min rem TENTH) t) = Some y"
        using step by simp
      from IH [OF this] awaits_okD(3) [OF await, of t] check [OF t(2)] show ?thesis by (metis extends_trans)
    next
      case False
      then have "check_cancelled k c s = Some y"
        using step by (auto split: if_splits option.splits sum.splits)
      then show ?thesis using check [of "fst y" "snd y"] extends_refl by (metis prod.collapse)
    qed
  qed
  then show ?thesis by simp
qed

lemma retry_delay_post:
  assumes "awaits_ok alone P lp iv"
    and "\<And>r t. extends alone P (fst s) (fst t) \<Longrightarrow> (\<And>e. r = Inl e \<Longrightarrow> stopped_by lp control e) \<Longrightarrow> Q r t"
  shows "task_post (retry_delay lp control remaining) Q s"
  using assms(2) retry_delay_ends [OF assms(1)] by (fastforce simp: task_post_def split: option.split)

section \<open>The trail of a step\<close>

definition mark :: "buffered_operation \<Rightarrow> int \<times> string" where
  "mark a = (at_attempt (op_at a), case a of
     Step_Started _ _ _ _ \<Rightarrow> ''running'' | Step_Completed _ _ _ _ \<Rightarrow> ''succeeded'' | Step_Failed _ _ _ st _ \<Rightarrow> st)"

fun retried :: "nat \<Rightarrow> (int \<times> string) list" where
  "retried 0 = []"
| "retried (Suc k) = retried k @ [(int (Suc k), ''running''), (int (Suc k), ''retrying'')]"

definition same_step :: "step_at \<Rightarrow> buffered_operation \<Rightarrow> bool" where
  "same_step site a = (at_name (op_at a) = at_name site \<and> subject a = at_subject_id site
     \<and> at_logical_sequence (op_at a) = at_logical_sequence site \<and> at_max_attempts (op_at a) = at_max_attempts site)"

text \<open>
  What a step leaves. Every attempt but the last one is retried, so that there are fewer of those than
  \<open>max_attempts\<close>, and \<open>r\<close> is what the last one gave: a value, with which it is completed, or an exception
  that is not to be retried, with which it is failed. Without a last one, the step was stopped between two
  attempts, or before the first: by the control, by the delay that cannot be computed, or because
  no attempt is allowed at all.
\<close>

definition to_retry :: "retry_policy \<Rightarrow> exn \<Rightarrow> nat \<Rightarrow> bool" where
  "to_retry policy e attempt \<longleftrightarrow> \<not> isinstance e WorkflowCancelledError_cls \<and> should_retry policy e (int attempt)"

definition stopped_after :: "'w event_loop \<Rightarrow> execution_control option \<Rightarrow> retry_policy \<Rightarrow> nat \<Rightarrow> exn \<Rightarrow> bool" where
  "stopped_after lp control policy k e \<longleftrightarrow> stopped_by lp control e
     \<or> 0 < k \<and> delay_after policy (int k) = Inl e \<or> rp_max_attempts policy < 1"

definition step_trail ::
  "'w event_loop \<Rightarrow> execution_control option \<Rightarrow> retry_policy \<Rightarrow> step_at \<Rightarrow> pyval res \<Rightarrow> buffered_operation list \<Rightarrow> bool" where
  "step_trail lp control policy site r ops =
     ((\<forall>a \<in> set ops. same_step site a) \<and> (\<exists>k. (k = 0 \<or> int k < rp_max_attempts policy) \<and>
     (case r of
        Inr x \<Rightarrow> map mark ops = retried k @ [(int (Suc k), ''running''), (int (Suc k), ''succeeded'')]
          \<and> int k < rp_max_attempts policy \<and> op_output_summary (last ops) = step_summary x
      | Inl e \<Rightarrow> map mark ops = retried k \<and> stopped_after lp control policy k e
          \<or> map mark ops = retried k @ [(int (Suc k), ''running''), (int (Suc k), ''failed'')]
            \<and> int k < rp_max_attempts policy \<and> \<not> to_retry policy e (Suc k))))"

lemma start_task:
  "task_context (\<lambda>c. case buffer_start here v (nc_observations c) of (b, spn) \<Rightarrow> (c\<lparr>nc_observations := b\<rparr>, spn)) s
     = Some ((recorded (\<lambda>i. Step_Started (native_span (ob_span_counter (nc_observations (fst s)) + 1)) here i (step_summary v))
         (counted_span (fst s)), snd s), Inr (native_span (ob_span_counter (nc_observations (fst s)) + 1)))"
  by (simp add: task_context_def buffer_start_def recorded_def counted_span_def Let_def)

lemma end_bind:
  "task_bind (task_context (on_buffer (buffer_fail p here b))) f = (\<lambda>s. f () (recorded (\<lambda>i. Step_Failed p here i
     (if b then ''retrying'' else ''failed'') ''Native step execution failed.'') (fst s), snd s))"
  "task_bind (task_context (on_buffer (buffer_complete p here x))) f =
     (\<lambda>s. f () (recorded (\<lambda>i. Step_Completed p here i (step_summary x)) (fst s), snd s))"
  by (simp_all add: fun_eq_iff task_bind_def task_case_def task_context_def on_buffer_def buffer_fail_def
      buffer_complete_def recorded_def)

text \<open>The step is between two attempts, \<open>k\<close> of them retried.\<close>

definition between :: "step_at \<Rightarrow> nat \<Rightarrow> native_context \<Rightarrow> bool" where
  "between site k c = (context_ok c \<and> claimed site c \<and> quiet (at_subject_id site) c
     \<and> (\<forall>a \<in> set (history (at_subject_id site) c). same_step site a)
     \<and> map mark (history (at_subject_id site) c) = retried k \<and> (k = 0 \<or> int k < at_max_attempts site))"

lemma between_trail:
  "between site k c \<Longrightarrow> rp_max_attempts policy = at_max_attempts site \<Longrightarrow> stopped_after lp control policy k e
     \<Longrightarrow> step_trail lp control policy site (Inl e) (history (at_subject_id site) c)"
  by (auto simp: between_def step_trail_def)

lemma extended:
  assumes "extends alone (insert u P) c d" and "context_ok c" and "at_subject_id site = u"
  shows "moves {u} alone P c d" "history u d = history u c" "between site k c \<Longrightarrow> between site k d"
proof -
  have m: "moves {} alone (insert u P) c d" using assms by (simp add: extends_def)
  then show "moves {u} alone P c d" by (rule moves_protect [OF moves_exempt]) auto
  show h: "history u d = history u c" using m by (simp add: moves_def)
  show "between site k d" if "between site k c"
    using that m h claimed_moves [OF _ m] assms(3) moves_ok [OF m] by (simp add: between_def quiet_def)
qed

text \<open>The start of attempt \<open>k + 1\<close>, on the context \<open>c\<close>.\<close>

definition attempt_at :: "step_at \<Rightarrow> nat \<Rightarrow> step_at" where
  "attempt_at site k = site\<lparr>at_attempt := int (Suc k)\<rparr>"

definition next_span :: "native_context \<Rightarrow> span_ref" where
  "next_span c = native_span (ob_span_counter (nc_observations c) + 1)"

definition started :: "step_at \<Rightarrow> nat \<Rightarrow> pyval \<Rightarrow> native_context \<Rightarrow> native_context" where
  "started site k v c =
     recorded (\<lambda>i. Step_Started (next_span c) (attempt_at site k) i (step_summary v)) (counted_span c)"

text \<open>An attempt: the operation that starts it, what happens while it is awaited, the one that ends it.\<close>

lemma attempt_ends:
  assumes b: "between site k c" and u: "at_subject_id site = u" and k: "int k < at_max_attempts site"
    and e: "extends alone (insert u P) (started site k v c) c2"
    and f: "\<And>i. op_at (f i) = attempt_at site k \<and> op_span (f i) = next_span c
      \<and> op_event_sequence (f i) = i \<and> \<not> is_start (f i)"
  obtains i j where "moves {u} alone P c (recorded f c2)" "quiet u (recorded f c2)" "claimed site (recorded f c2)"
    "history u (recorded f c2) = history u c @ [Step_Started (next_span c) (attempt_at site k) j (step_summary v), f i]"
    "\<forall>a \<in> set (history u (recorded f c2)). same_step site a"
proof -
  let ?here = "attempt_at site k" and ?p = "next_span c" and ?c1 = "started site k v c"
  have h: "at_subject_id ?here = u" "claimed ?here c" "context_ok c" "quiet u c"
    using b u by (auto simp: between_def claimed_def attempt_at_def)
  have s: "moves {u} alone P c ?c1" "open_spans {} (history u ?c1) = Some {(?p, ?here)}"
    "\<exists>j. history u ?c1 = history u c @ [Step_Started ?p ?here j (step_summary v)]"
    using start_moves [OF h(3,2,1,4), of "\<lambda>i. Step_Started ?p ?here i (step_summary v)" ?p alone P]
    by (auto simp: next_span_def started_def)
  have m: "moves {u} alone P ?c1 c2" "history u c2 = history u ?c1"
    using extended [OF e moves_ok [OF s(1)] h(1)] by auto
  have m2: "moves {u} alone P c c2" by (rule moves_trans [OF s(1) m(1)])
  have d: "moves {u} alone P c2 (recorded f c2)" "quiet u (recorded f c2)"
    "\<exists>i. history u (recorded f c2) = history u c2 @ [f i]"
    using end_moves [where f = f, OF moves_ok [OF m2] claimed_moves [OF h(2) m2] h(1) f, of alone P] s(2) m(2)
    by auto
  have m3: "moves {u} alone P c (recorded f c2)" by (rule moves_trans [OF m2 d(1)])
  obtain i j where hist: "history u (recorded f c2) = history u c @ [Step_Started ?p ?here j (step_summary v), f i]"
    using d(3) s(3) m(2) by auto
  moreover have "claimed site (recorded f c2)" using claimed_moves [OF _ m3] b by (simp add: between_def)
  moreover have "\<forall>a \<in> set (history u (recorded f c2)). same_step site a"
    using b u hist f [of i] by (auto simp: between_def same_step_def attempt_at_def)
  ultimately show ?thesis using that m3 d(2) by blast
qed

definition step_result ::
  "'w event_loop \<Rightarrow> execution_control option \<Rightarrow> retry_policy \<Rightarrow> string \<Rightarrow> bool \<Rightarrow> string set \<Rightarrow> step_at
     \<Rightarrow> native_context \<Rightarrow> pyval res \<Rightarrow> native_context \<Rightarrow> bool" where
  "step_result lp control policy u alone P site c r d =
     (moves {u} alone P c d \<and> quiet u d \<and> step_trail lp control policy site r (history u d))"

lemma between_result:
  "between site k d \<Longrightarrow> at_subject_id site = u \<Longrightarrow> rp_max_attempts policy = at_max_attempts site
     \<Longrightarrow> moves {u} alone P c d \<Longrightarrow> stopped_after lp control policy k e
     \<Longrightarrow> step_result lp control policy u alone P site c (Inl e) d"
  using between_trail [of site k d policy lp control e] by (auto simp: step_result_def between_def)

lemma step_result_trans:
  "moves {u} alone P c d \<Longrightarrow> step_result lp control policy u alone P site d r e
     \<Longrightarrow> step_result lp control policy u alone P site c r e"
  using moves_trans by (auto simp: step_result_def)

definition failure_handler ::
  "step_at \<Rightarrow> nat \<Rightarrow> retry_policy \<Rightarrow> span_ref \<Rightarrow> (rat \<Rightarrow> ('w, pyval) task) \<Rightarrow> exn \<Rightarrow> ('w, pyval) task" where
  "failure_handler site k policy p again e =
     (let retrying = (\<not> isinstance e WorkflowCancelledError_cls \<and> should_retry policy e (int (Suc k))) in
      task_bind (task_context (on_buffer (buffer_fail p (attempt_at site k) retrying))) (\<lambda>_.
      if \<not> retrying then task_raise e
      else task_bind (task_res (delay_after policy (int (Suc k)))) again))"

lemma attempt_failed:
  assumes b: "between site k c" and u: "at_subject_id site = u" and mx: "rp_max_attempts policy = at_max_attempts site"
    and k: "int k < at_max_attempts site"
    and e: "extends alone (insert u P) (started site k v c) (fst t)"
    and again: "\<And>delay t. between site (Suc k) (fst t) \<Longrightarrow>
      task_post (again delay) (\<lambda>r t'. step_result lp control policy u alone P site (fst t) r (fst t')) t"
  shows "task_post (failure_handler site k policy (next_span c) again e) (\<lambda>r t. step_result lp control policy u alone P site c r (fst t)) t"
proof -
  define retrying where "retrying = (\<not> isinstance e WorkflowCancelledError_cls \<and> should_retry policy e (int (Suc k)))"
  define f where "f = (\<lambda>i. Step_Failed (next_span c) (attempt_at site k) i (if retrying then ''retrying'' else ''failed'')
    ''Native step execution failed.'')"
  define d where "d = recorded f (fst t)"
  obtain i j where m: "moves {u} alone P c d" "quiet u d" "claimed site d"
    "history u d = history u c @ [Step_Started (next_span c) (attempt_at site k) j (step_summary v), f i]"
    "\<forall>a \<in> set (history u d). same_step site a"
    unfolding d_def by (rule attempt_ends [OF b u k e, of f]) (simp_all add: f_def)
  have marks: "map mark (history u d) = retried k @ [(int (Suc k), ''running''),
      (int (Suc k), if retrying then ''retrying'' else ''failed'')]"
    using b u m(4) by (simp add: between_def mark_def f_def attempt_at_def)
  have handler: "task_post (failure_handler site k policy (next_span c) again e) Q t =
      task_post (if \<not> retrying then task_raise e
        else task_bind (task_res (delay_after policy (int (Suc k)))) again) Q (d, snd t)" for Q
    by (simp only: failure_handler_def Let_def retrying_def [symmetric] end_bind task_post_def d_def f_def)
  show ?thesis
  proof (cases retrying)
    case False
    then have "step_result lp control policy u alone P site c (Inl e) d"
      unfolding step_result_def step_trail_def using m marks k mx False by (auto simp: retrying_def to_retry_def)
    then show ?thesis using False by (simp add: handler task_rules)
  next
    case True
    then have "int (Suc k) < at_max_attempts site" by (simp add: retrying_def should_retry_def mx)
    then have next_one: "between site (Suc k) d"
      using b m marks u True moves_ok [OF m(1)] by (simp add: between_def)
    have "task_post (again delay) (\<lambda>r t. step_result lp control policy u alone P site c r (fst t)) (d, w)" for delay w
      by (rule task_post_mono [OF again]) (use next_one step_result_trans [OF m(1)] in simp_all)
    moreover have "step_result lp control policy u alone P site c (Inl x) d" if "delay_after policy (int (Suc k)) = Inl x" for x
      by (rule between_result [OF next_one u mx m(1)]) (simp add: stopped_after_def that del: of_nat_Suc)
    ultimately show ?thesis
      using True by (simp add: handler task_rules del: of_nat_Suc split: sum.split)
  qed
qed

lemma attempt_done:
  assumes b: "between site k c" and u: "at_subject_id site = u" and mx: "rp_max_attempts policy = at_max_attempts site"
    and k: "int k < at_max_attempts site" and e: "extends alone (insert u P) (started site k v c) (fst t)"
  shows "task_post (task_bind (task_context (on_buffer (buffer_complete (next_span c) (attempt_at site k) x)))
    (\<lambda>_. task_return x)) (\<lambda>r t. step_result lp control policy u alone P site c r (fst t)) t"
proof -
  define f where "f = (\<lambda>i. Step_Completed (next_span c) (attempt_at site k) i (step_summary x))"
  obtain i j where m: "moves {u} alone P c (recorded f (fst t))" "quiet u (recorded f (fst t))"
    "history u (recorded f (fst t))
      = history u c @ [Step_Started (next_span c) (attempt_at site k) j (step_summary v), f i]"
    "\<forall>a \<in> set (history u (recorded f (fst t))). same_step site a"
    by (rule attempt_ends [OF b u k e, of f]) (simp_all add: f_def)
  have "map mark (history u (recorded f (fst t))) = retried k @ [(int (Suc k), ''running''), (int (Suc k), ''succeeded'')]"
    using b u m(3) by (simp add: between_def mark_def f_def attempt_at_def)
  moreover have "op_output_summary (last (history u (recorded f (fst t)))) = step_summary x"
    using m(3) by (simp add: f_def)
  ultimately have "step_result lp control policy u alone P site c (Inr x) (recorded f (fst t))"
    unfolding step_result_def step_trail_def using m(1,2,4) k mx by auto
  then show ?thesis by (simp add: end_bind task_post_def task_return_def f_def)
qed

lemma start_bind:
  "task_bind (task_context (\<lambda>c. case buffer_start (attempt_at site k) v (nc_observations c) of
       (b, spn) \<Rightarrow> (c\<lparr>nc_observations := b\<rparr>, spn))) f
     = (\<lambda>s. f (next_span (fst s)) (started site k v (fst s), snd s))"
  by (simp add: task_bind_def task_case_def start_task started_def next_span_def fun_eq_iff)

lemma step_attempts_unfold:
  assumes "rp_max_attempts policy = at_max_attempts site" and "int k < at_max_attempts site"
  shows "step_attempts lp control timeout iv policy site v (int (Suc k)) =
    task_bind (check_cancelled lp control) (\<lambda>_ s. task_case (attempt_call lp control timeout iv)
      (failure_handler site k policy (next_span (fst s)) (\<lambda>delay. task_bind (retry_delay lp control delay) (\<lambda>_.
        step_attempts lp control timeout iv policy site v (int (Suc (Suc k))))))
      (\<lambda>x. task_bind (task_context (on_buffer (buffer_complete (next_span (fst s)) (attempt_at site k) x)))
        (\<lambda>_. task_return x))
      (started site k v (fst s), snd s))" (is "?l = ?r")
proof
  fix s
  have site: "site\<lparr>at_attempt := int (Suc k), at_max_attempts := at_max_attempts site\<rparr> = attempt_at site k"
    by (simp add: attempt_at_def)
  have "int (Suc k) + 1 = int (Suc (Suc k))" by simp
  note eq = this step_attempts.simps [of lp control timeout iv policy site v "int (Suc k)"]
  show "?l s = ?r s"
    unfolding eq assms(1) site Let_def start_bind failure_handler_def using assms(2) by simp
qed

lemma step_attempts_post:
  fixes lp :: "'w event_loop" and s :: "'w native_state"
  assumes await: "awaits_ok alone (insert u P) lp iv" and u: "at_subject_id site = u"
    and mx: "rp_max_attempts policy = at_max_attempts site"
  shows "between site k (fst s) \<Longrightarrow>
    task_post (step_attempts lp control timeout iv policy site v (int (Suc k)))
      (\<lambda>r t. step_result lp control policy u alone P site (fst s) r (fst t)) s"
proof (induction "nat (at_max_attempts site - int k)" arbitrary: k s rule: less_induct)
  case less
  note b = less.prems
  let ?rec = "\<lambda>k. step_attempts lp control timeout iv policy site v (int (Suc k))"
  let ?G = "\<lambda>s r t. step_result lp control policy u alone P site (fst s) r (fst t)"
  have start: "step_result lp control policy u alone P site (fst s) (Inl e) (fst s)" if "stopped_after lp control policy k e" for e
    by (rule between_result [OF b u mx _ that]) (use b in \<open>simp add: between_def moves_refl\<close>)
  show ?case
  proof (cases "int k < at_max_attempts site")
    case False
    then have "k = 0" "rp_max_attempts policy < 1" using b mx by (auto simp: between_def)
    then show ?thesis
      using False start step_attempts.simps [of lp control timeout iv policy site v "int (Suc k)"]
      by (simp add: mx task_post_def stopped_after_def)
  next
    case k: True
    have again: "task_post (task_bind (retry_delay lp control delay) (\<lambda>_. ?rec (Suc k))) (?G t) t"
      if t: "between site (Suc k) (fst t)" for delay and t :: "'w native_state"
      unfolding task_post_bind
    proof (rule retry_delay_post [OF await])
      fix r :: "unit res" and t' :: "'w native_state"
      assume e: "extends alone (insert u P) (fst t) (fst t')" and stop: "\<And>x. r = Inl x \<Longrightarrow> stopped_by lp control x"
      have ex: "moves {u} alone P (fst t) (fst t')" "between site (Suc k) (fst t')"
        using extended [OF e _ u] t by (simp_all add: between_def [of site "Suc k" "fst t"] del: retried.simps)
      have "task_post (?rec (Suc k)) (?G t) t'"
        by (rule task_post_mono [OF less.hyps [OF _ ex(2)]]) (use k step_result_trans [OF ex(1)] in simp_all)
      then show "(case r of Inl e \<Rightarrow> ?G t (Inl e) | Inr _ \<Rightarrow> task_post (?rec (Suc k)) (?G t)) t'"
        using between_result [OF ex(2) u mx ex(1)] stop by (auto simp: stopped_after_def split: sum.split)
    qed
    have body: "task_post (task_case (attempt_call lp control timeout iv)
        (failure_handler site k policy (next_span (fst s)) (\<lambda>delay. task_bind (retry_delay lp control delay) (\<lambda>_. ?rec (Suc k))))
        (\<lambda>x. task_bind (task_context (on_buffer (buffer_complete (next_span (fst s)) (attempt_at site k) x))) (\<lambda>_. task_return x)))
        (?G s) (started site k v (fst s), w)" for w
      unfolding task_post_case
    proof (rule attempt_call_post [OF await], goal_cases)
      case (1 r t)
      then have e: "extends alone (insert u P) (started site k v (fst s)) (fst t)" by simp
      show ?case
        using attempt_failed [OF b u mx k e again] attempt_done [OF b u mx k e] by (cases r) (simp_all only: sum.case)
    qed
    show ?thesis
      unfolding step_attempts_unfold [OF mx k] task_post_bind
      by (rule check_cancelled_case) (use body start in \<open>simp_all add: task_post_def stopped_after_def\<close>)
  qed
qed

section \<open>A whole step\<close>

lemma claim_between:
  assumes ok: "context_ok c" and u: "u \<notin> nc_subjects c" and room: "card (nc_subjects c) < MAX_STEP_OCCURRENCES"
  defines "d \<equiv> fst (claim_step u c)"
  shows "moves {} alone P c d" and "history u d = []" and "snd (claim_step u c) = nc_sequence c + 1"
    and "at_subject_id site = u \<Longrightarrow> at_logical_sequence site = nc_sequence c + 1 \<Longrightarrow> between site 0 d"
proof -
  have d: "operations d = operations c" "nc_subjects d = insert u (nc_subjects c)" "nc_sequence d = nc_sequence c + 1"
    "nc_observations d = nc_observations c"
    by (simp_all add: d_def claim_step_def Let_def)
  have ok': "context_ok d" using ok u room by (auto simp: context_ok_def Let_def d)
  have h: "history v d = history v c" for v by (simp add: history_def d)
  have n: "history u c = []" using ok u by (auto simp: history_def context_ok_def Let_def filter_empty_conv)
  show "moves {} alone P c d" using ok' h by (auto simp: moves_def d quiet_def)
  show "history u d = []" using h n by simp
  show "snd (claim_step u c) = nc_sequence c + 1" by (simp add: claim_step_def Let_def)
  have "0 \<le> nc_sequence c" using ok by (simp add: context_ok_def Let_def)
  then show "between site 0 d" if "at_subject_id site = u" "at_logical_sequence site = nc_sequence c + 1"
    using that ok' h n by (simp add: between_def claimed_def quiet_def d)
qed

lemma admit_step_ok:
  assumes "admit_step name options c = Inr (n, u)"
  shows "u \<notin> nc_subjects c" "card (nc_subjects c) < MAX_STEP_OCCURRENCES"
  using assms by (auto simp: admit_step_def r_simps)

text \<open>
  What a step leaves behind: nothing of its subject when it is not admitted or stopped before it is
  claimed, and a trail of at most \<open>max_attempts\<close> attempts otherwise.
\<close>

definition step_policy :: "step_options \<Rightarrow> retry_policy" where
  "step_policy options = (case so_retry options of None \<Rightarrow> NO_RETRY | Some p \<Rightarrow> p)"

lemma task_bind_res:
  "task_bind (\<lambda>s. task_res (g s) s) f s = (case g s of Inl e \<Rightarrow> Some (s, Inl e) | Inr x \<Rightarrow> f x s)"
  by (simp add: task_bind_def task_case_def task_res_def task_raise_def split: sum.split)

lemma native_step_post:
  fixes lp :: "'w event_loop" and s :: "'w native_state"
  assumes ok: "context_ok (fst s)" and admit: "admit_step name options (fst s) = Inr (n, u)"
    and await: "awaits_ok alone (insert u P) lp (callable args kwargs)" and P: "u \<notin> P"
  shows "task_post (native_step lp control name callable args kwargs options)
    (\<lambda>r t. moves {} alone P (fst s) (fst t) \<and> quiet u (fst t) \<and> (\<exists>site. at_name site = n \<and> at_subject_id site = u
       \<and> at_max_attempts site = rp_max_attempts (step_policy options) \<and> step_trail lp control (step_policy options) site r (history u (fst t)))) s"
    (is "task_post _ ?Q s")
proof -
  note new = admit_step_ok [OF admit]
  have none: "history u (fst s) = []"
    using ok new(1) by (auto simp: history_def context_ok_def Let_def filter_empty_conv)
  have start: "?Q (Inl e) (fst s, w)" if "stopped_by lp control e" for e w
    using none moves_refl [OF ok] that
    by (auto simp: quiet_def step_trail_def stopped_after_def intro!: exI [of _ "\<lparr>at_name = n, at_subject_id = u, at_logical_sequence = 0,
        at_attempt = 0, at_max_attempts = rp_max_attempts (step_policy options)\<rparr>"] exI [of _ "0::nat"])
  define site where "site = \<lparr>at_name = n, at_subject_id = u, at_logical_sequence = nc_sequence (fst s) + 1, at_attempt = 0,
      at_max_attempts = rp_max_attempts (step_policy options)\<rparr>"
  note claim = claim_between [OF ok new]
  let ?d = "fst (claim_step u (fst s))"
  have b: "between site 0 ?d" by (rule claim(4)) (simp_all add: site_def)
  have "task_post (step_attempts lp control (so_timeout_seconds options) (callable args kwargs) (step_policy options) site
      v (int (Suc 0))) (\<lambda>r t. step_result lp control (step_policy options) u alone P site (fst (?d, w)) r (fst t)) (?d, w)" for v w
    by (rule step_attempts_post [OF await]) (use b in \<open>simp_all add: site_def\<close>)
  note run = this
  have loop: "task_post (step_attempts lp control (so_timeout_seconds options) (callable args kwargs) (step_policy options)
      site v 1) ?Q (?d, w)" for v w
  proof (rule task_post_mono)
    show "task_post (step_attempts lp control (so_timeout_seconds options) (callable args kwargs) (step_policy options)
      site v 1) (\<lambda>r t. step_result lp control (step_policy options) u alone P site ?d r (fst t)) (?d, w)"
      using run [of v w] by simp
    fix r and t :: "'w native_state" assume r: "step_result lp control (step_policy options) u alone P site ?d r (fst t)"
    have "moves {u} alone P (fst s) (fst t)"
      using moves_trans [OF moves_exempt [OF claim(1)]] r unfolding step_result_def by blast
    then have "moves {} alone P (fst s) (fst t)" using moves_quiet P r by (auto simp: step_result_def)
    moreover have "at_name site = n" "at_subject_id site = u" "at_max_attempts site = rp_max_attempts (step_policy options)"
      by (simp_all add: site_def)
    ultimately show "?Q r t" using r unfolding step_result_def by blast
  qed
  define body where "body = (\<lambda>n u. task_bind (task_context (claim_step u)) (\<lambda>logical_sequence.
      step_attempts lp control (so_timeout_seconds options) (callable args kwargs) (step_policy options)
        \<lparr>at_name = n, at_subject_id = u, at_logical_sequence = logical_sequence, at_attempt = 0,
         at_max_attempts = rp_max_attempts (step_policy options)\<rparr>
        (PDict [(AStr ''args'', PTuple args), (AStr ''kwargs'', PDict kwargs)]) 1))"
  have claimed: "task_post (body n u) ?Q (fst s, w)" for w
    using loop [of _ w] claim(3) unfolding body_def task_post_bind task_post_basic
    by (simp add: site_def split_beta)
  have "task_post (task_bind (check_cancelled lp control) (\<lambda>_. body n u)) ?Q s"
    unfolding task_post_bind by (rule check_cancelled_case) (use start claimed in simp_all)
  moreover have "native_step lp control name callable args kwargs options s
      = task_bind (check_cancelled lp control) (\<lambda>_. body n u) s"
    by (simp only: native_step_def task_bind_res admit sum.case prod.case body_def step_policy_def [symmetric] Let_def)
  ultimately show ?thesis by (simp add: task_post_def)
qed

section \<open>Steps that return\<close>

definition task_total :: "('w, 'a) task \<Rightarrow> bool" where
  "task_total m \<longleftrightarrow> None \<notin> range m"

lemma task_totalI: "(\<And>s. m s \<noteq> None) \<Longrightarrow> task_total m"
  unfolding task_total_def by (metis rangeE)

lemma total_returns: "task_total m \<Longrightarrow> m s \<noteq> None"
  unfolding task_total_def by (metis rangeI)

lemma task_totalD:
  assumes "task_total m"
  obtains t r where "m s = Some (t, r)"
  using total_returns [OF assms, of s] by (cases "m s") auto

lemma total_case:
  assumes "task_total m" and "\<And>e. task_total (h e)" and "\<And>x. task_total (f x)"
  shows "task_total (task_case m h f)"
proof (rule task_totalI)
  fix s obtain t r where "m s = Some (t, r)" by (rule task_totalD [OF assms(1)])
  then show "task_case m h f s \<noteq> None"
    using total_returns [OF assms(2)] total_returns [OF assms(3)]
    by (cases r) (simp_all add: task_case_def del: not_None_eq)
qed

lemma total_basic [simp]:
  "task_total (task_return x)" "task_total (task_raise e)" "task_total (task_res r)" "task_total (task_context g)"
  by (simp_all add: task_totalI task_return_def task_raise_def task_res_def task_context_def split: prod.split)

lemma total_bind: "task_total m \<Longrightarrow> (\<And>x. task_total (f x)) \<Longrightarrow> task_total (task_bind m f)"
  unfolding task_bind_def by (rule total_case) simp_all

lemma total_check [simp]: "task_total (check_cancelled lp control)"
  by (rule task_totalI) (simp add: check_cancelled_def split: option.split prod.split)

text \<open>Counting down by tenths: each round takes at least a sixteenth off.\<close>

lemma delay_step:
  assumes "TENTH < x" and "x \<le> 281474976710656"
  defines "y \<equiv> double_round (x - TENTH)"
  shows "0 \<le> y" "y + 1 / 16 \<le> x"
proof -
  have t: "0 \<le> x - TENTH" using assms(1) by simp
  note e = double_round_error [OF t, folded y_def]
  show "0 \<le> y" by (rule e(3))
  show "y + 1 / 16 \<le> x" using e(1) assms(1,2) by (simp add: TENTH_def field_simps)
qed

lemma retry_delay_returns:
  "0 \<le> x \<Longrightarrow> x \<le> 281474976710656 \<Longrightarrow> x \<le> of_nat n / 16 \<Longrightarrow> retry_delay lp control x s \<noteq> None"
proof (induction n arbitrary: x s)
  case 0
  then have "x = 0" by simp
  then show ?case by (auto simp: retry_delay.simps intro: task_totalD [OF total_check, of lp control s])
next
  case (Suc n)
  obtain t r where c: "check_cancelled lp control s = Some (t, r)" by (rule task_totalD [OF total_check])
  have "retry_delay lp control (double_round (x - min x TENTH)) (lp_sleep lp (min x TENTH) t) \<noteq> None" if "0 < x"
  proof (cases "x \<le> TENTH")
    case True
    then show ?thesis using Suc.IH [of 0] by (simp add: double_round_def)
  next
    case False
    then have "min x TENTH = TENTH" by simp
    moreover have "0 \<le> double_round (x - TENTH)" "double_round (x - TENTH) + 1 / 16 \<le> x"
      using delay_step [of x] False Suc.prems(2) by auto
    ultimately show ?thesis using Suc.IH [of "double_round (x - TENTH)"] Suc.prems by (simp add: field_simps)
  qed
  then show ?case using c by (subst retry_delay.simps) (auto split: sum.split)
qed

lemma total_retry_delay:
  assumes "0 \<le> x" and "x \<le> 281474976710656"
  shows "task_total (retry_delay lp control x)"
proof (rule task_totalI)
  fix s
  have "16 * x \<le> of_int \<lceil>16 * x\<rceil>" by simp
  moreover have "0 \<le> \<lceil>16 * x\<rceil>" using assms(1) by simp
  ultimately have "x \<le> of_nat (nat \<lceil>16 * x\<rceil>) / 16" by (simp add: of_nat_nat mult.commute)
  then show "retry_delay lp control x s \<noteq> None" by (rule retry_delay_returns [OF assms])
qed

text \<open>The delays of a valid policy lie between zero and its maximum.\<close>

lemma delay_after_range:
  assumes "RetryPolicy p = Inr q" and "delay_after p attempt = Inr d"
  shows "0 \<le> d \<and> d \<le> rp_max_delay_seconds p"
proof -
  have p: "0 \<le> rp_initial_delay_seconds p" "1 \<le> rp_backoff_multiplier p" "0 \<le> rp_max_delay_seconds p"
    using assms(1) unfolding RetryPolicy_def Let_def by (simp_all only: r_simps not_less simp_thms)
  have "0 \<le> double_round (rp_initial_delay_seconds p * double_round (rp_backoff_multiplier p ^ m))" for m
    using p by (intro double_round_error(3) mult_nonneg_nonneg) simp_all
  then show ?thesis
    using assms(2) p by (auto simp: delay_after_def float_power_def r_simps Let_def split: if_splits)
qed

lemma total_invoke:
  assumes "(\<forall>s. iv_seconds iv s \<noteq> None) \<or> timeout \<noteq> None"
  shows "task_total (invoke_step iv timeout)"
proof (rule task_totalI)
  fix s :: "'a native_state"
  have "iv_seconds iv s \<noteq> None \<or> timeout \<noteq> None" using assms by blast
  then show "invoke_step iv timeout s \<noteq> None"
    by (auto simp: invoke_step_def Let_def split: option.split prod.split)
qed

lemma total_effective_timeout: "task_total (effective_timeout lp requested control)"
proof -
  have "task_total (control_remaining lp control)"
    by (rule task_totalI) (simp add: control_remaining_def split: option.split prod.split)
  then show ?thesis unfolding effective_timeout_def by (intro total_bind) (simp_all split: option.split)
qed

lemma effective_timeout_kept:
  "effective_timeout lp (Some d) control s = Some (t, Inr x) \<Longrightarrow> x \<noteq> None"
  by (auto simp: effective_timeout_def task_bind_def task_case_def task_return_def task_raise_def
      split: option.splits sum.splits prod.splits)

lemma total_attempt_call:
  assumes "(\<forall>s. iv_seconds iv s \<noteq> None) \<or> timeout \<noteq> None"
  shows "task_total (attempt_call lp control timeout iv)"
proof (rule task_totalI)
  fix s
  obtain t r where e: "effective_timeout lp timeout control s = Some (t, r)" by (rule task_totalD [OF total_effective_timeout])
  let ?f = "\<lambda>x. task_bind (invoke_step iv x) (\<lambda>result. task_bind (check_cancelled lp control) (\<lambda>_. task_return result))"
  have "?f x t \<noteq> None" if "r = Inr x" for x
  proof -
    have "(\<forall>s. iv_seconds iv s \<noteq> None) \<or> x \<noteq> None"
      using assms effective_timeout_kept [of lp _ control s t x] e that by (cases timeout) (simp_all del: not_None_eq)
    then have "task_total (?f x)" by (intro total_bind total_invoke) simp_all
    then show ?thesis by (rule total_returns)
  qed
  then show "attempt_call lp control timeout iv s \<noteq> None"
    using e by (simp add: attempt_call_def task_bind_def [of "effective_timeout _ _ _"] task_case_def task_raise_def
        del: not_None_eq split: sum.split)
qed

lemma total_step_attempts:
  assumes iv: "(\<forall>s. iv_seconds iv s \<noteq> None) \<or> timeout \<noteq> None" and p: "RetryPolicy p = Inr q"
    and d: "rp_max_delay_seconds p \<le> 281474976710656"
  shows "task_total (step_attempts lp control timeout iv p site v attempt)"
proof (induction "nat (rp_max_attempts p + 1 - attempt)" arbitrary: attempt rule: less_induct)
  case less
  have again: "task_total (step_attempts lp control timeout iv p site v (attempt + 1))" if "attempt \<le> rp_max_attempts p"
    by (rule less.hyps) (use that in simp)
  have delay: "task_total (task_bind (task_res (delay_after p attempt)) (\<lambda>delay. task_bind (retry_delay lp control delay)
      (\<lambda>_. step_attempts lp control timeout iv p site v (attempt + 1))))" if "attempt \<le> rp_max_attempts p"
  proof (cases "delay_after p attempt")
    case (Inr x)
    have "0 \<le> x" "x \<le> 281474976710656" using delay_after_range [OF p Inr] d by auto
    note r = total_bind [OF total_retry_delay [OF this] again [OF that], of lp control]
    show ?thesis
      by (rule task_totalI)
        (use total_returns [OF r] in \<open>simp add: Inr task_bind_def [of "task_res _"] task_case_def task_res_def del: not_None_eq\<close>)
  qed (auto intro!: task_totalI simp: task_bind_def task_case_def task_res_def task_raise_def)
  show ?case
  proof (rule task_totalI)
    fix s
    show "step_attempts lp control timeout iv p site v attempt s \<noteq> None"
    proof (cases "rp_max_attempts p < attempt")
      case False
      then show ?thesis
        unfolding step_attempts.simps [of lp control timeout iv p site v attempt s] Let_def
        by (simp del: not_None_eq, intro total_returns [OF total_bind] total_check total_bind total_case total_basic total_attempt_call iv)
          (use delay in \<open>auto intro: total_bind\<close>)
    qed (simp add: step_attempts.simps)
  qed
qed

lemma total_native_step:
  assumes "(\<forall>s. iv_seconds (callable args kwargs) s \<noteq> None) \<or> so_timeout_seconds options \<noteq> None"
    and "RetryPolicy (step_policy options) = Inr q" and "rp_max_delay_seconds (step_policy options) \<le> 281474976710656"
  shows "native_step lp control name callable args kwargs options s \<noteq> None"
proof -
  have "task_total (\<lambda>s. task_res (admit_step name options (fst s)) s)" by (rule task_totalI) (simp add: task_res_def)
  then have "task_total (native_step lp control name callable args kwargs options)"
    unfolding native_step_def step_policy_def [symmetric] Let_def
    by (intro total_bind) (auto intro!: total_bind total_step_attempts [OF assms])
  then show ?thesis by (rule total_returns)
qed

end
