(* ===== verification/Span_Frames.thy ===== *)
theory Span_Frames
  imports Event_Timeline
begin

text \<open>
  What the calls on the event sink that start and end spans, and that record projections, do to the spans
  of the tables. A span is pending until it is finished; who starts spans and has to end them
  (Native workflows, the providers of workflow engines) counts them with these lemmas.
\<close>

text \<open>A call whose answer is not used.\<close>

definition discard :: "'a tx \<Rightarrow> unit tx" where
  "discard m = tx_bind m (\<lambda>_. tx_return ())"

lemma discard_fst: "fst (discard m s) = fst (m s)"
  by (auto simp: discard_def tx_bind_def tx_return_def split: sum.split prod.split)

text \<open>The spans that are not finished.\<close>

definition pending :: "obs_state \<Rightarrow> int set" where
  "pending s = {pk. \<exists>r. map_of (os_spans s) pk = Some r \<and> sn_finished_at r = None}"

lemma pending_spans: "os_spans t = os_spans s \<Longrightarrow> pending t = pending s"
  by (simp add: pending_def)

lemma start_span_frame:
  assumes "accepts env" and "run \<in> known (os_runs s)" and "parent_ok parent s"
  shows "tx_sure (start_span env run ty n nn parent md a)
    (\<lambda>x t. \<exists>pk row. x = int_text pk \<and> pk \<notin> known (os_spans s) \<and> os_spans t = os_spans s @ [(pk, row)]) s"
proof -
  have create: "tx_sure (create_span env row) (\<lambda>pk t. pk \<notin> known (os_spans s)
      \<and> os_spans t = os_spans s @ [(pk, row)] \<and> known (os_runs t) = known (os_runs s)) u"
    if "os_spans u = os_spans s" "known (os_runs u) = known (os_runs s)" for row u
    using that assms(1) fresh_pk_fresh [of "os_spans s"]
    by (simp add: create_span_def tx_sure_def tx_bind_def write_row_def tx_return_def accepts_def Let_def)
  show ?thesis
    unfolding start_span_def Let_def sure_bind sure_basic
    by (rule parent_sure [OF assms(3)], rule sure_mono [OF create], simp, simp, clarify,
        rule sure_two_snapshots, rule sure_emit [OF assms(1)])
      (use assms(2) in \<open>auto simp: aside_def\<close>)
qed

lemma complete_span_frame:
  assumes "accepts env" and "int_of_text sref = Inr pk" and r: "map_of (os_spans s) pk = Some r"
    and run: "sn_run r \<in> known (os_runs s)"
  shows "tx_sure (complete_span env sref st out m md e)
    (\<lambda>x t. \<exists>row. os_spans t = dict_set pk row (os_spans s) \<and> sn_finished_at row \<noteq> None) s"
proof -
  have read: "tx_sure (get_span sref) P s = P (pk, r) s" for P
    using assms(2,3) by (simp add: get_span_def sure_rules)
  have save: "tx_sure (save_span env pk row) P t"
    if "os_spans t = os_spans s" "known (os_runs t) = known (os_runs s)"
      "\<And>u. os_spans u = dict_set pk row (os_spans s) \<Longrightarrow> known (os_runs u) = known (os_runs s) \<Longrightarrow> P () u" for row P t
    using that r assms(1) by (simp add: save_span_def tx_sure_def write_row_def accepts_def)
  show ?thesis
    unfolding complete_span_def Let_def sure_bind read prod.case sure_basic
    by (intro sure_snapshot save sure_touch [OF assms(1)]) (use run in \<open>auto simp: aside_def\<close>)
qed

lemma end_span_frame:
  assumes "accepts env" and ok: "obs_ok s" and r: "map_of (os_spans s) pk = Some r"
  shows "tx_sure (end_succeeded env ty (int_text pk) out m md)
      (\<lambda>x t. \<exists>row. os_spans t = dict_set pk row (os_spans s) \<and> sn_finished_at row \<noteq> None) s"
    and "tx_sure (end_failed env ty (int_text pk) e m md)
      (\<lambda>x t. \<exists>row. os_spans t = dict_set pk row (os_spans s) \<and> sn_finished_at row \<noteq> None) s"
proof -
  have read: "tx_sure (get_span (int_text pk)) P s = P (pk, r) s" for P
    using r int_of_text_int_text by (simp add: get_span_def sure_rules)
  note run = span_row_known(3) [OF ok r grows_refl]
  have step: "tx_sure (complete_span env (int_text pk) st out m md e)
      (\<lambda>x t. \<exists>row. os_spans t = dict_set pk row (os_spans s) \<and> sn_finished_at row \<noteq> None) t"
    if "aside s t" for t st out e
    using complete_span_frame [OF assms(1) int_of_text_int_text, of t pk r] that r run by (simp add: aside_def)
  show "tx_sure (end_succeeded env ty (int_text pk) out m md)
      (\<lambda>x t. \<exists>row. os_spans t = dict_set pk row (os_spans s) \<and> sn_finished_at row \<noteq> None) s"
    "tx_sure (end_failed env ty (int_text pk) e m md)
      (\<lambda>x t. \<exists>row. os_spans t = dict_set pk row (os_spans s) \<and> sn_finished_at row \<noteq> None) s"
    unfolding end_succeeded_def end_failed_def sure_atomic sure_bind read
    by (rule sure_emit [OF assms(1)]; use run step in simp)+
qed

lemma integration_projection_frame: "os_spans (fst (integration_projection env r sp a s)) = os_spans s"
proof -
  have "os_spans (fst (record_integration_projection env run sp a t)) = os_spans t" for run sp t
    by (auto simp: record_integration_projection_def tx_bind_def tx_res_def tz_now_def tx_return_def create_projection_def
        write_row_def Let_def split: sum.split option.split prod.split)
  moreover have "fst (get_run r s) = s" "fst (tx_optional get_span sp s) = s"
    by (simp_all add: get_run_def tx_bind_def tx_get_def tx_return_def tx_optional_def get_span_def tx_res_def
        split: option.split sum.split)
  ultimately show ?thesis
    unfolding integration_projection_def atomic_def tx_bind_def
    by (auto split: sum.split prod.split) (metis fst_conv)+
qed

lemma pending_dict_set:
  assumes "os_spans t = dict_set pk row (os_spans s)" and "sn_finished_at row \<noteq> None"
  shows "pending t = pending s - {pk}"
  using assms by (auto simp: pending_def map_of_dict_set split: if_splits)

lemma int_text_eq: "int_text i = int_text j \<longleftrightarrow> i = j"
proof
  assume "int_text i = int_text j"
  then have "int_of_text (int_text i) = int_of_text (int_text j)" by (rule arg_cong)
  then show "i = j" unfolding int_of_text_int_text by simp
qed simp

lemma parent_ok_grows: "parent_ok parent s \<Longrightarrow> grows s t \<Longrightarrow> parent_ok parent t"
proof -
  assume "parent_ok parent s" and g: "grows s t"
  moreover note grows_known(2) [OF g]
  ultimately show "parent_ok parent t" unfolding parent_ok_def by (auto split: option.splits sum.splits)
qed

text \<open>The calls of the sink that a workflow engine makes.\<close>

lemma sink_call_kept:
  assumes "obs_ok s"
  shows "kept s (fst (integration_projection env r sp a s))" and "kept s (fst (span_completed env x out m md s))"
    and "kept s (fst (span_failed env x e m md s))" and "kept s (fst (span_started env r ty n nn ps md s))"
proof -
  have fst_call: "fst (row_key f s) = fst (f s)" "fst (new_span l s) = fst (l s)" for f l
    by (auto simp: row_key_def new_span_def tx_bind_def tx_return_def split: sum.split prod.split)
  note step = perform_step [OF assms]
  show "kept s (fst (integration_projection env r sp a s))" "kept s (fst (span_completed env x out m md s))"
    "kept s (fst (span_failed env x e m md s))" "kept s (fst (span_started env r ty n nn ps md s))"
    using step [of env "Projection_Call r sp a"] step [of env "Span_Completed_Call x out m md"]
      step [of env "Span_Failed_Call x e m md"] step [of env "Span_Started_Call r ty n nn ps md"]
    by (simp_all add: fst_call)
qed

lemma projection_pending: "pending (fst (integration_projection env r sp a s)) = pending s"
  by (rule pending_spans) (rule integration_projection_frame)

lemma ended_pending:
  assumes "accepts env" and "obs_ok s" and "pk \<in> known (os_spans s)"
  shows "pending (fst (span_completed env (int_text pk) out m md s)) = pending s - {pk}"
    and "pending (fst (span_failed env (int_text pk) e m md s)) = pending s - {pk}"
proof -
  obtain r where r: "map_of (os_spans s) pk = Some r" using known_row [OF assms(3)] by blast
  have ends: "pending (fst (f s)) = pending s - {pk}"
    if sure: "tx_sure f (\<lambda>x t. \<exists>row. os_spans t = dict_set pk row (os_spans s) \<and> sn_finished_at row \<noteq> None) s"
    for f :: "int tx"
  proof -
    obtain t x row where "f s = (t, Inr x)" "os_spans t = dict_set pk row (os_spans s)" "sn_finished_at row \<noteq> None"
      using sure_returns [OF sure] by blast
    then show ?thesis by (simp add: pending_dict_set)
  qed
  show "pending (fst (span_completed env (int_text pk) out m md s)) = pending s - {pk}"
    unfolding span_completed_def by (rule ends [OF end_span_frame(1) [OF assms(1,2) r]])
  show "pending (fst (span_failed env (int_text pk) e m md s)) = pending s - {pk}"
    unfolding span_failed_def by (rule ends [OF end_span_frame(2) [OF assms(1,2) r]])
qed

lemma started_pending:
  assumes "accepts env" and "run \<in> known (os_runs s)" and "parent_ok parent s"
  obtains pk t where "span_started env run ty name nn parent md s = (t, Inr (int_text pk))"
    "pk \<notin> known (os_spans s)" "pk \<in> known (os_spans t)" "pending t \<subseteq> insert pk (pending s)"
proof -
  have "tx_sure (span_started env run ty name nn parent md)
      (\<lambda>x t. \<exists>pk row. x = int_text pk \<and> pk \<notin> known (os_spans s) \<and> os_spans t = os_spans s @ [(pk, row)]) s"
    using start_span_frame [OF assms] by (simp add: span_started_def sure_atomic sure_bind get_run_sure [OF assms(2)])
  then obtain t pk row where m: "span_started env run ty name nn parent md s = (t, Inr (int_text pk))" "pk \<notin> known (os_spans s)"
    and t: "os_spans t = os_spans s @ [(pk, row)]"
    using sure_returns by blast
  have "pending t \<subseteq> insert pk (pending s)"
    using t by (auto simp: pending_def map_add_def split: option.splits if_splits)
  with m t show ?thesis by (intro that [of t pk]) simp_all
qed

section \<open>Spans under watch\<close>

definition span_rows :: "(string \<times> span_ref) list \<Rightarrow> int set" where
  "span_rows spans = {pk. \<exists>i. (i, int_text pk) \<in> set spans}"

definition spans_live :: "(string \<times> span_ref) list \<Rightarrow> obs_state \<Rightarrow> bool" where
  "spans_live spans s = (\<forall>(i, x) \<in> set spans. \<exists>pk. x = int_text pk \<and> pk \<in> known (os_spans s))"

text \<open>
  The tables \<open>s\<close> grew in order from \<open>s0\<close>, and what is pending there (beside \<open>Y\<close>) was so before or is
  one of the open spans of a workflow engine, each under its name.
\<close>

definition watched :: "obs_state \<Rightarrow> int set \<Rightarrow> (string \<times> span_ref) list \<Rightarrow> obs_state \<Rightarrow> bool" where
  "watched s0 Y spans s \<longleftrightarrow> kept s0 s \<and> wf_dict spans \<and> spans_live spans s
     \<and> pending s - Y \<subseteq> pending s0 \<union> span_rows spans"

lemma spans_live_grows: "spans_live spans s \<Longrightarrow> grows s t \<Longrightarrow> spans_live spans t"
  using grows_known(2) unfolding spans_live_def by fast

lemma watched_step:
  assumes "watched s0 Y spans s" and "kept s t" and "pending t - Y' \<subseteq> (pending s - Y)"
  shows "watched s0 Y' spans t"
  using assms kept_trans [of s0 s t] spans_live_grows [of spans s t] by (auto simp: watched_def kept_def)

lemma watched_ok: "watched s0 Y spans s \<Longrightarrow> obs_ok s" "watched s0 Y spans s \<Longrightarrow> grows s0 s"
  by (simp_all add: watched_def kept_def)

lemma watched_started:
  assumes w: "watched s0 Y spans s" and fresh: "i \<notin> fst ` set spans" and env: "accepts env"
    and run: "run \<in> known (os_runs s0)" and parent: "parent_ok parent s0"
  obtains sp t where "span_started env run ty name nn parent md s = (t, Inr sp)" "watched s0 Y (dict_set i sp spans) t"
proof -
  note g = watched_ok(2) [OF w]
  obtain t pk where t: "span_started env run ty name nn parent md s = (t, Inr (int_text pk))"
    "pk \<in> known (os_spans t)" "pending t \<subseteq> insert pk (pending s)"
    by (rule started_pending [OF env run_still_known [OF g run] parent_ok_grows [OF parent g]])
  have k: "kept s t" using sink_call_kept(4) [OF watched_ok(1) [OF w]] t(1) by (metis fst_conv)
  have "map_of spans i = None" using fresh by (simp add: map_of_eq_None_iff)
  then have d: "set (dict_set i (int_text pk) spans) = insert (i, int_text pk) (set spans)" by (rule set_dict_set_fresh)
  have "spans_live spans t" using spans_live_grows w k by (auto simp: watched_def kept_def)
  then have "spans_live (dict_set i (int_text pk) spans) t" using t(2) unfolding spans_live_def d by auto
  moreover have "span_rows (dict_set i (int_text pk) spans) = insert pk (span_rows spans)"
    unfolding span_rows_def d by (auto simp: int_text_eq)
  ultimately have "watched s0 Y (dict_set i (int_text pk) spans) t"
    using w k t(3) kept_trans [of s0 s t] by (auto simp: watched_def)
  then show ?thesis using that t(1) by blast
qed

lemma watched_end:
  assumes w: "watched s0 Y spans s" and k: "kept s t"
    and p: "\<And>pk. map_of spans i = Some (int_text pk) \<Longrightarrow> pk \<in> known (os_spans s) \<Longrightarrow> pending t = pending s - {pk}"
    and q: "map_of spans i = None \<Longrightarrow> pending t = pending s"
  shows "watched s0 Y (dict_pop i spans) t"
proof -
  have "spans_live spans t" using spans_live_grows w k by (auto simp: watched_def kept_def)
  then have live: "spans_live (dict_pop i spans) t" unfolding spans_live_def dict_pop_def by simp
  have "pending t - Y \<subseteq> pending s0 \<union> span_rows (dict_pop i spans)"
  proof (cases "map_of spans i")
    case None
    then have "dict_pop i spans = spans" by (induction spans) (auto simp: dict_pop_def split: if_splits)
    then show ?thesis using w q None by (simp add: watched_def)
  next
    case (Some x)
    then obtain pk where x: "x = int_text pk" "pk \<in> known (os_spans s)"
      using w map_of_SomeD [OF Some] unfolding watched_def spans_live_def by fast
    have "span_rows spans \<subseteq> insert pk (span_rows (dict_pop i spans))"
    proof
      fix k assume "k \<in> span_rows spans"
      then obtain j where j: "(j, int_text k) \<in> set spans" by (auto simp: span_rows_def)
      show "k \<in> insert pk (span_rows (dict_pop i spans))"
      proof (cases "j = i")
        case True
        then have "int_text k = x" using j Some w by (simp add: watched_def map_of_eq_Some_iff_wf [symmetric])
        then show ?thesis using x int_text_eq by simp
      next
        case False
        then show ?thesis using j by (auto simp: span_rows_def dict_pop_def)
      qed
    qed
    then show ?thesis using w p [of pk] Some x by (auto simp: watched_def)
  qed
  then show ?thesis using w k live kept_trans by (auto simp: watched_def)
qed

end
