(* ===== verification/Native_Execution.thy ===== *)
theory Native_Execution
  imports Native_Invariants Native_Schema Span_Frames
begin

text \<open>
  The execution of a Native workflow (native/__init__.py): the replay of the buffered observations
  into the event sink of \<open>Event_Sink\<close>, \<open>NativeExecutable.execute\<close>, what becomes of the result,
  and the proof that a replay ends every span it starts. The world of the execution is the tables
  beside the rest.
\<close>

section \<open>Replay\<close>

definition NATIVE_INTEGRATION_ID :: string where "NATIVE_INTEGRATION_ID = ''native''"

definition NATIVE_STEP_SCHEMA :: string where "NATIVE_STEP_SCHEMA = ''native.step.v1''"

definition step_metadata :: "step_at \<Rightarrow> pyitems" where
  "step_metadata site =
     [(AStr ''integration_id'', PStr NATIVE_INTEGRATION_ID), (AStr ''subject_external_id'', PStr (at_subject_id site)),
      (AStr ''sequence'', PInt (at_logical_sequence site)), (AStr ''attempt'', PInt (at_attempt site)),
      (AStr ''max_attempts'', PInt (at_max_attempts site))]"

definition start_step_span ::
  "obs_env \<Rightarrow> int \<Rightarrow> span_ref option \<Rightarrow> step_at \<Rightarrow> pyval \<Rightarrow> obs_state \<Rightarrow> obs_state \<times> span_ref option" where
  "start_step_span env run_id parent site input_summary s =
     (case span_started env run_id ''step'' (at_name site) (Some (at_name site)) parent
         (Some (step_metadata site @ [(AStr ''input_summary'', input_summary)])) s of
        (s, Inl _) \<Rightarrow> (s, None)
      | (s, Inr spn) \<Rightarrow> (s, Some spn))"

definition complete_step_span :: "obs_env \<Rightarrow> span_ref option \<Rightarrow> step_at \<Rightarrow> pyval \<Rightarrow> obs_state \<Rightarrow> obs_state" where
  "complete_step_span env spn site output_summary s =
     (case spn of
        None \<Rightarrow> s
      | Some sp \<Rightarrow> suppress_observability_failure (discard (span_completed env sp (Some (json_default output_summary))
          (Some [(AStr ''ok'', PBool True), (AStr ''attempt'', PInt (at_attempt site))]) (Some (step_metadata site)))) s)"

definition fail_step_span :: "obs_env \<Rightarrow> span_ref option \<Rightarrow> step_at \<Rightarrow> string \<Rightarrow> string \<Rightarrow> obs_state \<Rightarrow> obs_state" where
  "fail_step_span env spn site status error_message s =
     (case spn of
        None \<Rightarrow> s
      | Some sp \<Rightarrow> suppress_observability_failure (discard (span_failed env sp error_message
          (Some [(AStr ''ok'', PBool False), (AStr ''attempt'', PInt (at_attempt site)),
             (AStr ''retrying'', PBool (status = ''retrying''))])
          (Some (step_metadata site @ [(AStr ''terminal_status'', PStr status)])))) s)"

text \<open>A summary that is \<open>None\<close> is left out, and so is an empty message.\<close>

definition step_projection :: "step_at \<Rightarrow> int \<Rightarrow> string \<Rightarrow> pyval \<Rightarrow> pyval \<Rightarrow> string \<Rightarrow> projection_args" where
  "step_projection site event_sequence status input_summary output_summary error_message =
     \<lparr>pa_integration_id = NATIVE_INTEGRATION_ID, pa_schema_id = NATIVE_STEP_SCHEMA,
      pa_owner_kind = ''execution_unit'', pa_owner_external_id = at_subject_id site,
      pa_title = ''Native step: '' @ at_name site,
      pa_payload = PDict ([(AStr ''step_name'', PStr (at_name site)), (AStr ''occurrence_id'', PStr (at_subject_id site)),
          (AStr ''status'', PStr status), (AStr ''attempt'', PInt (at_attempt site)),
          (AStr ''max_attempts'', PInt (at_max_attempts site)),
          (AStr ''logical_sequence'', PInt (at_logical_sequence site))]
        @ (if input_summary = PNone then [] else [(AStr ''input_summary'', input_summary)])
        @ (if output_summary = PNone then [] else [(AStr ''output_summary'', output_summary)])
        @ (if error_message = [] then [] else [(AStr ''error'', PStr error_message)])),
      pa_retention_class = ''execution_detail'', pa_classification = ''internal'', pa_projection_kind = ''snapshot'',
      pa_subject_kind = ''execution_unit'', pa_subject_external_id = at_subject_id site,
      pa_sequence = event_sequence, pa_occurred_at = None\<rparr>"

definition emit_step_projection :: "obs_env \<Rightarrow> int \<Rightarrow> span_ref option \<Rightarrow> projection_args \<Rightarrow> obs_state \<Rightarrow> obs_state" where
  "emit_step_projection env run_id spn a s =
     suppress_observability_failure (discard (integration_projection env run_id spn a)) s"

fun replay_operations ::
  "obs_env \<Rightarrow> int \<Rightarrow> span_ref option \<Rightarrow> (span_ref \<times> span_ref) list \<Rightarrow> buffered_operation list \<Rightarrow> obs_state \<Rightarrow> obs_state"
where
  "replay_operations env run_id parent actual_spans [] s = s"
| "replay_operations env run_id parent actual_spans (Step_Started symbolic site i input_summary # ops) s =
     (case start_step_span env run_id parent site input_summary s of (s, actual) \<Rightarrow>
        replay_operations env run_id parent
          (case actual of None \<Rightarrow> actual_spans | Some sp \<Rightarrow> dict_set symbolic sp actual_spans) ops
          (emit_step_projection env run_id actual (step_projection site i ''running'' input_summary PNone []) s))"
| "replay_operations env run_id parent actual_spans (Step_Completed symbolic site i output_summary # ops) s =
     (let actual = map_of actual_spans symbolic
      in replay_operations env run_id parent actual_spans ops
           (emit_step_projection env run_id actual (step_projection site i ''succeeded'' PNone output_summary [])
             (complete_step_span env actual site output_summary s)))"
| "replay_operations env run_id parent actual_spans (Step_Failed symbolic site i status error_message # ops) s =
     (let actual = map_of actual_spans symbolic
      in replay_operations env run_id parent actual_spans ops
           (emit_step_projection env run_id actual (step_projection site i status PNone PNone error_message)
             (fail_step_span env actual site status error_message s)))"

definition replay ::
  "obs_env option \<Rightarrow> int option \<Rightarrow> span_ref option \<Rightarrow> observation_buffer \<Rightarrow> obs_state \<Rightarrow> obs_state" where
  "replay sink run_id parent b s =
     (case (sink, run_id) of
        (Some env, Some r) \<Rightarrow> replay_operations env r parent [] (ob_operations b) s
      | _ \<Rightarrow> s)"

section \<open>Execution\<close>

record 'w native_workflow =
  nw_name :: string
  nw_function :: "pyitems \<Rightarrow> ('w, raw_result) task"
  nw_input_schema :: pyval
  nw_output_schema :: pyval

definition run_awaitable :: "bool \<Rightarrow> ('w, 'a) task \<Rightarrow> ('w, 'a) task" where
  "run_awaitable loop_running awaitable s =
     (if loop_running
      then Some (s, Inl (PlainExn RuntimeError_cls (''NativeExecutable.execute() cannot run inside an active event loop; ''
        @ ''invoke it through the synchronous workflow execution boundary.'')))
      else awaitable s)"

fun normalize_output :: "raw_result \<Rightarrow> pyitems" where
  "normalize_output (Raw_Result r) = wf_output r"
| "normalize_output (Raw_Value (PDict d)) = d"
| "normalize_output (Raw_Value v) = (if v = PNone then [] else [(AStr ''result'', v)])"

definition is_terminal :: "buffered_operation \<Rightarrow> bool" where
  "is_terminal a = (case a of Step_Started _ _ _ _ \<Rightarrow> False | Step_Completed _ _ _ _ \<Rightarrow> True
     | Step_Failed _ _ _ status _ \<Rightarrow> status \<noteq> ''retrying'')"

definition last_step_name :: "observation_buffer \<Rightarrow> string" where
  "last_step_name b =
     (let terminal = map (\<lambda>a. at_name (op_at a)) (filter is_terminal (ob_operations b))
      in if terminal = [] then [] else last terminal)"

definition native_result :: "'w native_workflow \<Rightarrow> native_context \<Rightarrow> raw_result \<Rightarrow> workflow_result res" where
  "native_result workflow c result =
     (let out = normalize_output result in
      r_bind (validate_schema_value (PDict out) (nw_output_schema workflow) ''output'' ''$'') (\<lambda>_.
      WorkflowExecutionResult out
        [(AStr ''integration_id'', PStr NATIVE_INTEGRATION_ID), (AStr ''workflow_name'', PStr (nw_name workflow)),
         (AStr ''step_count'', PInt (nc_sequence c)),
         (AStr ''attempt_count'', PInt (int (length (filter is_start (ob_operations (nc_observations c)))))),
         (AStr ''last_step_name'', PStr (last_step_name (nc_observations c)))] ''completed''))"

definition native_execute ::
  "bool \<Rightarrow> obs_env option \<Rightarrow> span_ref option \<Rightarrow> (obs_state \<times> 't) native_workflow \<Rightarrow> pyitems \<Rightarrow> execution_context
     \<Rightarrow> obs_state \<times> 't \<Rightarrow> ((obs_state \<times> 't) \<times> workflow_result res) option" where
  "native_execute loop_running sink parent workflow input_payload context w =
     (case validate_schema_value (PDict input_payload) (nw_input_schema workflow) ''input'' ''$'' of
        Inl e \<Rightarrow> Some (w, Inl e)
      | Inr _ \<Rightarrow>
          (case run_awaitable loop_running (nw_function workflow input_payload) (fresh_context, w) of
             None \<Rightarrow> None
           | Some ((c, w), r) \<Rightarrow>
               (let w = (replay sink (cx_run_id context) parent (nc_observations c) (fst w), snd w)
                in Some (w, r_bind r (native_result workflow c)))))"

section \<open>A replay ends every span it starts\<close>

text \<open>What each operation of a replay does to the tables.\<close>

lemma quiet_call_kept:
  assumes "obs_ok s"
  shows "kept s (emit_step_projection env r sp a s)" and "kept s (complete_step_span env sp site v s)"
    and "kept s (fail_step_span env sp site st e s)" and "kept s (fst (start_step_span env r parent site v s))"
proof -
  note calls = sink_call_kept [OF assms] kept_refl [OF assms]
  show "kept s (emit_step_projection env r sp a s)"
    using calls by (simp add: emit_step_projection_def suppress_observability_failure_def discard_fst)
  show "kept s (complete_step_span env sp site v s)" "kept s (fail_step_span env sp site st e s)"
    using calls
    by (cases sp; simp add: complete_step_span_def fail_step_span_def suppress_observability_failure_def discard_fst)+
  show "kept s (fst (start_step_span env r parent site v s))"
    unfolding start_step_span_def using calls(4) by (auto split: prod.split sum.split) (metis fst_conv)+
qed

lemma end_step_pending:
  assumes "accepts env" and "obs_ok s" and "pk \<in> known (os_spans s)"
  shows "pending (complete_step_span env (Some (int_text pk)) site v s) = pending s - {pk}"
    and "pending (fail_step_span env (Some (int_text pk)) site st e s) = pending s - {pk}"
  using ended_pending [OF assms]
  by (simp_all add: complete_step_span_def fail_step_span_def suppress_observability_failure_def discard_fst)

lemma start_step_pending:
  assumes "accepts env" and "run \<in> known (os_runs s)" and "parent_ok parent s"
  obtains pk t where "start_step_span env run parent site v s = (t, Some (int_text pk))"
    "pk \<notin> known (os_spans s)" "pk \<in> known (os_spans t)" "pending t \<subseteq> insert pk (pending s)"
proof -
  obtain pk t where "span_started env run ''step'' (at_name site) (Some (at_name site)) parent
      (Some (step_metadata site @ [(AStr ''input_summary'', v)])) s = (t, Inr (int_text pk))"
    "pk \<notin> known (os_spans s)" "pk \<in> known (os_spans t)" "pending t \<subseteq> insert pk (pending s)"
    by (rule started_pending [OF assms])
  then show ?thesis by (intro that [of t pk]) (simp_all add: start_step_span_def)
qed

text \<open>Every open span has its row, and \<open>targets\<close> are the rows of the open spans.\<close>

definition live :: "(span_ref \<times> step_at) set \<Rightarrow> (span_ref \<times> span_ref) list \<Rightarrow> obs_state \<Rightarrow> bool" where
  "live S spans s = (\<forall>p \<in> fst ` S. \<exists>pk. map_of spans p = Some (int_text pk) \<and> pk \<in> known (os_spans s))"

definition targets :: "(span_ref \<times> step_at) set \<Rightarrow> (span_ref \<times> span_ref) list \<Rightarrow> int set" where
  "targets S spans = {pk. \<exists>p \<in> fst ` S. map_of spans p = Some (int_text pk)}"

lemma live_grows:
  assumes "live S spans s" and "grows s t"
  shows "live S spans t"
  using assms(1) grows_known(2) [OF assms(2)] unfolding live_def by blast

lemma live_start:
  assumes "live S spans s" and "grows s t" and "pk \<in> known (os_spans t)" and "p \<notin> fst ` S"
  shows "live (insert (p, a) S) (dict_set p (int_text pk) spans) t"
    and "targets (insert (p, a) S) (dict_set p (int_text pk) spans) = insert pk (targets S spans)"
proof -
  have m: "map_of (dict_set p (int_text pk) spans) q = map_of spans q" if "q \<in> fst ` S" for q
    using that assms(4) by (auto simp: map_of_dict_set)
  then show "live (insert (p, a) S) (dict_set p (int_text pk) spans) t"
    using live_grows [OF assms(1,2)] assms(3) by (auto simp: live_def map_of_dict_set)
  show "targets (insert (p, a) S) (dict_set p (int_text pk) spans) = insert pk (targets S spans)"
    using m by (auto simp: targets_def map_of_dict_set int_text_eq)
qed

lemma emit_pending: "pending (emit_step_projection env r sp a s) = pending s"
  by (simp add: emit_step_projection_def suppress_observability_failure_def discard_fst projection_pending)

text \<open>The end of an open span, and the rest of the replay.\<close>

lemma ended_step:
  assumes "accepts env" and ok: "obs_ok s" and "pk \<in> known (os_spans s)"
  shows "kept s (emit_step_projection env run sp x (complete_step_span env (Some (int_text pk)) a v s))
      \<and> pending (emit_step_projection env run sp x (complete_step_span env (Some (int_text pk)) a v s)) = pending s - {pk}"
    and "kept s (emit_step_projection env run sp x (fail_step_span env (Some (int_text pk)) a st e s))
      \<and> pending (emit_step_projection env run sp x (fail_step_span env (Some (int_text pk)) a st e s)) = pending s - {pk}"
proof -
  have k: "kept s t \<Longrightarrow> kept s (emit_step_projection env run sp x t)" for t
    using kept_trans quiet_call_kept(1) by (auto simp: kept_def)
  note k [OF quiet_call_kept(2) [OF ok]] k [OF quiet_call_kept(3) [OF ok]] end_step_pending [OF assms]
  then show "kept s (emit_step_projection env run sp x (complete_step_span env (Some (int_text pk)) a v s))
      \<and> pending (emit_step_projection env run sp x (complete_step_span env (Some (int_text pk)) a v s)) = pending s - {pk}"
    "kept s (emit_step_projection env run sp x (fail_step_span env (Some (int_text pk)) a st e s))
      \<and> pending (emit_step_projection env run sp x (fail_step_span env (Some (int_text pk)) a st e s)) = pending s - {pk}"
    by (simp_all add: emit_pending)
qed

lemma replay_end:
  assumes live: "live S spans s" and pa: "(p, a) \<in> S"
    and f: "\<And>pk. pk \<in> known (os_spans s) \<Longrightarrow>
      kept s (f (Some (int_text pk))) \<and> pending (f (Some (int_text pk))) = pending s - {pk}"
  defines "t \<equiv> f (map_of spans p)"
  shows "kept s t" and "live (S - {(p, a)}) spans t"
    and "pending t - targets (S - {(p, a)}) spans \<subseteq> pending s - targets S spans"
proof -
  obtain pk where pk: "map_of spans p = Some (int_text pk)" "pk \<in> known (os_spans s)"
    using live pa by (force simp: live_def)
  have t: "kept s t" "pending t = pending s - {pk}" using f [OF pk(2)] by (simp_all add: t_def pk(1))
  then show "kept s t" by simp
  then have g: "grows s t" by (simp add: kept_def)
  show "live (S - {(p, a)}) spans t" using live_grows [OF live g] unfolding live_def by blast
  have "targets S spans \<subseteq> insert pk (targets (S - {(p, a)}) spans)"
  proof
    fix k assume "k \<in> targets S spans"
    then obtain q b where q: "(q, b) \<in> S" "map_of spans q = Some (int_text k)" by (auto simp: targets_def)
    show "k \<in> insert pk (targets (S - {(p, a)}) spans)"
    proof (cases "q = p")
      case True
      then show ?thesis using q pk(1) by (simp add: int_text_eq)
    next
      case False
      then show ?thesis using q by (force simp: targets_def)
    qed
  qed
  then show "pending t - targets (S - {(p, a)}) spans \<subseteq> pending s - targets S spans" using t(2) by blast
qed

lemma replay_pending:
  assumes "accepts env"
  shows "obs_ok s \<Longrightarrow> run \<in> known (os_runs s) \<Longrightarrow> parent_ok parent s \<Longrightarrow> open_spans S ops = Some {} \<Longrightarrow> live S spans s
    \<Longrightarrow> kept s (replay_operations env run parent spans ops s)
      \<and> pending (replay_operations env run parent spans ops s) \<subseteq> pending s - targets S spans"
proof (induction ops arbitrary: S spans s)
  case Nil
  then show ?case by (simp add: kept_refl targets_def)
next
  case (Cons a ops)
  note ok = Cons.prems(1)
  have rest: "kept s (replay_operations env run parent spans' ops t)
      \<and> pending (replay_operations env run parent spans' ops t) \<subseteq> pending s - targets S spans"
    if "kept s t" "open_spans S' ops = Some {}" "live S' spans' t"
      "pending t - targets S' spans' \<subseteq> pending s - targets S spans" for S' spans' t
  proof -
    have "obs_ok t" "grows s t" using that(1) by (simp_all add: kept_def)
    then have "kept t (replay_operations env run parent spans' ops t)
        \<and> pending (replay_operations env run parent spans' ops t) \<subseteq> pending t - targets S' spans'"
      using Cons.IH [OF _ _ _ that(2,3)] run_still_known Cons.prems(2) parent_ok_grows [OF Cons.prems(3)] by blast
    then show ?thesis using kept_trans [OF that(1)] that(4) by blast
  qed
  show ?case
  proof (cases a)
    case (Step_Started p site i v)
    then have p: "p \<notin> fst ` S" and next_open: "open_spans (insert (p, site) S) ops = Some {}"
      using Cons.prems(4) by (auto split: if_splits)
    obtain pk t where t: "start_step_span env run parent site v s = (t, Some (int_text pk))"
      "pk \<in> known (os_spans t)" "pending t \<subseteq> insert pk (pending s)" and new: "pk \<notin> known (os_spans s)"
      by (rule start_step_pending [OF assms Cons.prems(2,3), of site v])
    let ?x = "step_projection site i ''running'' v PNone []"
    have k: "kept s t" using quiet_call_kept(4) [OF ok, of env run parent site v] t(1) by simp
    then have k2: "kept s (emit_step_projection env run (Some (int_text pk)) ?x t)"
      using kept_trans [OF k quiet_call_kept(1)] by (simp add: kept_def)
    have g: "grows t (emit_step_projection env run (Some (int_text pk)) ?x t)"
      using quiet_call_kept(1) k by (simp add: kept_def)
    have pk: "pk \<in> known (os_spans (emit_step_projection env run (Some (int_text pk)) ?x t))"
      using grows_known(2) [OF g] t(2) by blast
    have g2: "grows s (emit_step_projection env run (Some (int_text pk)) ?x t)" using k2 by (simp add: kept_def)
    note l = live_start [OF Cons.prems(5) g2 pk p, of site]
    show ?thesis
      using rest [OF k2 next_open l(1)] l(2) t(1,3) Step_Started by (auto simp: emit_pending)
  next
    case (Step_Completed p site i v)
    then have pa: "(p, site) \<in> S" and next_open: "open_spans (S - {(p, site)}) ops = Some {}"
      using Cons.prems(4) by (auto split: if_splits)
    note e = replay_end [OF Cons.prems(5) pa, of "\<lambda>sp. emit_step_projection env run sp
        (step_projection site i ''succeeded'' PNone v []) (complete_step_span env sp site v s)",
        OF ended_step(1) [OF assms ok]]
    show ?thesis using rest [OF e(1) next_open e(2,3)] Step_Completed by (simp add: Let_def)
  next
    case (Step_Failed p site i st m)
    then have pa: "(p, site) \<in> S" and next_open: "open_spans (S - {(p, site)}) ops = Some {}"
      using Cons.prems(4) by (auto split: if_splits)
    note e = replay_end [OF Cons.prems(5) pa, of "\<lambda>sp. emit_step_projection env run sp
        (step_projection site i st PNone PNone m) (fail_step_span env sp site st m s)",
        OF ended_step(2) [OF assms ok]]
    show ?thesis using rest [OF e(1) next_open e(2,3)] Step_Failed by (simp add: Let_def)
  qed
qed

text \<open>An execution of a function whose tasks are all over when it returns.\<close>

lemma quiet_open_spans:
  assumes "context_ok c" and "\<forall>u. quiet u c"
  shows "open_spans {} (operations c) = Some {}"
proof -
  obtain S where S: "open_spans {} (operations c) = Some S" using assms(1) by (auto simp: context_ok_def Let_def)
  have "of_subject u S = {}" for u
    using open_spans_filter [OF S, of u] assms(2) by (simp add: quiet_def history_def)
  then have "S = {}" unfolding of_subject_def by blast
  with S show ?thesis by simp
qed

lemma settled_extends: "extends True P fresh_context c \<Longrightarrow> context_ok c \<and> open_spans {} (operations c) = Some {}"
  using quiet_open_spans fresh_context_ok
  by (auto simp: extends_def moves_def quiet_def history_def fresh_context_def)


end
