(* ===== verification/Native_Helpers.thy ===== *)
theory Native_Helpers
  imports Native_Execution Llm Artifact_Emission Plugin_Registry
begin

text \<open>
  native/helpers.py, definitions.py and recipes.py: the facades of the context of a Native workflow, which
  write artifacts, call tools and language models, report progress and record metrics; the recipe of
  a sequence of steps; and how a Native workflow becomes a plugin. The world is the tables beside the
  rest. The text of a float is an argument, and the dictionaries of an artifact's content have
  string keys.
\<close>

section \<open>Artifacts\<close>

definition is_safe_name_char :: "char \<Rightarrow> bool" where
  "is_safe_name_char c = (c \<noteq> CHR ''/'' \<and> c \<noteq> backslash \<and> c \<noteq> CHR 0x00)"

definition validate_artifact_name :: "pyval \<Rightarrow> string res" where
  "validate_artifact_name v =
     (case v of
        PStr s \<Rightarrow>
          (let normalized = strip s
           in if normalized \<noteq> s \<or> normalized = []
              then Inl (PlainExn ValueError_cls ''artifact name must not be blank or contain surrounding whitespace'')
              else if \<not> (list_all is_safe_name_char normalized \<and> length normalized \<le> 255)
              then Inl (PlainExn ValueError_cls ''artifact name must not contain path separators or NUL bytes'')
              else Inr normalized)
      | _ \<Rightarrow> Inl (PlainExn TypeError_cls ''artifact name must be a string''))"

text \<open>\<open>name.rsplit(".", 1)[0]\<close>, and the substitution of a hyphen for every run of other characters.\<close>

definition before_last_dot :: "string \<Rightarrow> string" where
  "before_last_dot name =
     (if CHR ''.'' \<in> set name then rev (tl (dropWhile (\<lambda>c. c \<noteq> CHR ''.'') (rev name))) else name)"

fun hyphenate :: "bool \<Rightarrow> string \<Rightarrow> string" where
  "hyphenate in_run [] = []"
| "hyphenate in_run (c # cs) =
     (if is_lower c \<or> is_digit c then c # hyphenate False cs
      else if in_run then hyphenate True cs else CHR ''-'' # hyphenate True cs)"

definition strip_hyphens :: "string \<Rightarrow> string" where
  "strip_hyphens s = rev (dropWhile (\<lambda>c. c = CHR ''-'') (rev (dropWhile (\<lambda>c. c = CHR ''-'') s)))"

definition native_artifact_slot :: "string \<Rightarrow> string" where
  "native_artifact_slot name =
     (let stem = lower (strip (before_last_dot name)); normalized = strip_hyphens (hyphenate False stem)
      in if normalized = [] then ''artifact'' else normalized)"

text \<open>The type of the first value \<open>json.dumps\<close> rejects.\<close>

fun unserializable :: "pyval \<Rightarrow> string option"
and unserializable_list :: "pyval list \<Rightarrow> string option"
and unserializable_items :: "pyitems \<Rightarrow> string option"
where
  "unserializable (Atom a) = (case a of ABytes _ \<Rightarrow> Some ''bytes'' | AObj t _ \<Rightarrow> Some t | _ \<Rightarrow> None)"
| "unserializable (PList xs) = unserializable_list xs"
| "unserializable (PTuple xs) = unserializable_list xs"
| "unserializable (PDict kvs) = unserializable_items kvs"
| "unserializable_list [] = None"
| "unserializable_list (x # xs) = (case unserializable x of Some t \<Rightarrow> Some t | None \<Rightarrow> unserializable_list xs)"
| "unserializable_items [] = None"
| "unserializable_items ((k, v) # kvs) = (case unserializable v of Some t \<Rightarrow> Some t | None \<Rightarrow> unserializable_items kvs)"

definition serialize_artifact_content :: "pyval \<Rightarrow> (string \<times> string) res" where
  "serialize_artifact_content content =
     (let rendered = (case unserializable (json_sorted content) of
            Some t \<Rightarrow> Inl (PlainExn TypeError_cls (''Object of type '' @ t @ '' is not JSON serializable''))
          | None \<Rightarrow> Inr (utf8 (json_compact content), ''application/json''))
      in case content of
           PBytes b \<Rightarrow> Inr (b, ''application/octet-stream'')
         | PStr s \<Rightarrow> Inr (utf8 s, ''text/plain; charset=utf-8'')
         | PDict _ \<Rightarrow> rendered
         | PList _ \<Rightarrow> rendered
         | PTuple _ \<Rightarrow> rendered
         | _ \<Rightarrow> Inl (PlainExn TypeError_cls ''artifact content must be bytes, text, a mapping, or a sequence''))"

text \<open>Freezing makes lists tuples and keys strings.\<close>

fun freeze_value :: "pyval \<Rightarrow> pyval"
and freeze_values :: "pyval list \<Rightarrow> pyval list"
and freeze_entries :: "pyitems \<Rightarrow> pyitems"
where
  "freeze_value (PDict d) = PDict (dict_of (freeze_entries d))"
| "freeze_value (PList xs) = PTuple (freeze_values xs)"
| "freeze_value (PTuple xs) = PTuple (freeze_values xs)"
| "freeze_value (Atom a) = Atom a"
| "freeze_values [] = []"
| "freeze_values (x # xs) = freeze_value x # freeze_values xs"
| "freeze_entries [] = []"
| "freeze_entries ((k, v) # d) = (AStr (atom_text k), freeze_value v) # freeze_entries d"

record native_artifact =
  na_storage_key :: string
  na_name :: string
  na_kind :: string
  na_content_type :: "string option"
  na_size :: int
  na_digest :: string
  na_metadata :: pyval

definition native_artifact_of :: "stored_artifact \<Rightarrow> native_artifact" where
  "native_artifact_of a = \<lparr>na_storage_key = sa_storage_key a, na_name = sa_name a, na_kind = sa_kind a,
     na_content_type = sa_content_type a, na_size = sa_size a, na_digest = sa_digest a,
     na_metadata = freeze_value (PDict (redact_mapping 4 (sa_metadata a)))\<rparr>"

record artifact_draft =
  ad_name :: pyval
  ad_content :: pyval
  ad_kind :: string
  ad_content_type :: "string option"
  ad_metadata :: "pyitems option"

text \<open>What the helper asks the store to write.\<close>

definition draft_request :: "int option \<Rightarrow> artifact_draft \<Rightarrow> write_request res" where
  "draft_request run_id d =
     (case run_id of
        None \<Rightarrow> Inl (PlainExn RuntimeError_cls ''Native artifact writing requires a positive integer Run identity'')
      | Some run \<Rightarrow>
          r_bind (r_guard (run \<le> 0)
            (PlainExn RuntimeError_cls ''Native artifact writing requires a positive integer Run identity'')) (\<lambda>_.
          r_bind (validate_artifact_name (ad_name d)) (\<lambda>artifact_name.
          r_bind (serialize_artifact_content (ad_content d)) (\<lambda>(body, default_content_type).
          r_bind (ArtifactEmissionRequest (Value (PStr (native_artifact_slot artifact_name))) (Value PNone) (PBytes body)
            (PStr (case ad_content_type d of None \<Rightarrow> default_content_type
               | Some t \<Rightarrow> if t = [] then default_content_type else t))
            (PDict (given (ad_metadata d)))) (\<lambda>emission.
          r_bind (ArtifactEmissionContext (PInt run)) (\<lambda>ctx.
          r_bind (build_artifact_identity ctx emission) (\<lambda>identity.
          r_bind (build_artifact_storage_key identity) (\<lambda>storage_key.
          ArtifactWriteRequest (PInt run) (PStr storage_key) (PBytes (er_body emission)) (PStr artifact_name)
            (PStr (ad_kind d)) (PStr (er_content_type emission)) (PDict (er_metadata emission))))))))))"

definition emit_created ::
  "obs_env option \<Rightarrow> int option \<Rightarrow> span_ref option \<Rightarrow> stored_artifact \<Rightarrow> obs_state \<Rightarrow> obs_state" where
  "emit_created sink run_id parent a s =
     (case (sink, run_id) of
        (Some env, Some run) \<Rightarrow> suppress_observability_failure (discard (artifact_created env run (sa_storage_key a)
          (sa_name a) (sa_kind a) parent (Some (sa_metadata a)) (the_message (sa_content_type a)) (Some (sa_size a)))) s
      | _ \<Rightarrow> s)"

text \<open>\<open>write\<close>: the request is checked before the store is asked for.\<close>

definition artifact_write ::
  "obs_env option \<Rightarrow> span_ref option \<Rightarrow> (obs_state \<times> 't \<Rightarrow> write_request \<Rightarrow> (obs_state \<times> 't) \<times> stored_artifact res) option
     \<Rightarrow> int option \<Rightarrow> artifact_draft \<Rightarrow> obs_state \<times> 't \<Rightarrow> (obs_state \<times> 't) \<times> native_artifact res" where
  "artifact_write sink parent store run_id d w =
     (case draft_request run_id d of
        Inl e \<Rightarrow> (w, Inl e)
      | Inr request \<Rightarrow>
          (case store of
             None \<Rightarrow> (w, Inl (PlainExn (Other_cls ''LookupError'') ''artifact store is unavailable''))
           | Some put \<Rightarrow>
               (case put w request of
                  (w, Inl e) \<Rightarrow> (w, Inl e)
                | (w, Inr stored) \<Rightarrow> ((emit_created sink run_id parent stored (fst w), snd w), Inr (native_artifact_of stored)))))"

section \<open>Tools and language models\<close>

definition unavailable :: "string \<Rightarrow> string \<Rightarrow> exn" where
  "unavailable what name = PlainExn (Other_cls ''LookupError'') (what @ '' '' @ str_repr name @ '' is unavailable'')"

definition observed_by :: "obs_env option \<Rightarrow> string \<Rightarrow> span_ref option \<Rightarrow> (obs_state \<times> 't) span_sink option" where
  "observed_by sink kind parent = map_option (\<lambda>env. database_sink env kind kind parent) sink"

definition native_tool_run ::
  "obs_env option \<Rightarrow> span_ref option \<Rightarrow> int option \<Rightarrow> (string \<times> (obs_state \<times> 't) tool) list \<Rightarrow> (obs_state \<times> 't) run_tool" where
  "native_tool_run sink parent run_id tools tool_name kwargs w =
     (case map_of tools tool_name of
        None \<Rightarrow> (w, Inl (unavailable ''tool'' tool_name))
      | Some t \<Rightarrow> observed_run run_id (observed_by sink ''tool'' parent) (memory_run (register_tool tool_name t []))
          tool_name kwargs w)"

definition native_llm_complete ::
  "obs_env option \<Rightarrow> span_ref option \<Rightarrow> int option \<Rightarrow> (string \<times> (obs_state \<times> 't) llm_client) list \<Rightarrow> string
     \<Rightarrow> pydict list \<Rightarrow> pydict \<Rightarrow> obs_state \<times> 't \<Rightarrow> (obs_state \<times> 't) \<times> llm_result res" where
  "native_llm_complete sink parent run_id providers profile messages kwargs w =
     (case map_of providers profile of
        None \<Rightarrow> (w, Inl (unavailable ''provider profile'' profile))
      | Some client \<Rightarrow> observed_complete run_id (observed_by sink ''llm'' parent) client messages kwargs w)"

section \<open>Progress and metrics\<close>

fun number :: "pyval \<Rightarrow> pyfloat option" where
  "number (Atom (AInt i)) = Some (Finite_Float i 1 (int_text i))"
| "number (Atom (AFloat x)) = Some x"
| "number _ = None"

fun float_less :: "pyfloat \<Rightarrow> pyfloat \<Rightarrow> bool" where
  "float_less (Finite_Float n d _) (Finite_Float m e _) = (n * e < m * d)"
| "float_less (Infinite_Float neg _) (Finite_Float _ _ _) = neg"
| "float_less (Finite_Float _ _ _) (Infinite_Float neg _) = (\<not> neg)"
| "float_less (Infinite_Float a _) (Infinite_Float b _) = (a \<and> \<not> b)"
| "float_less _ _ = False"

fun float_same :: "pyfloat \<Rightarrow> pyfloat \<Rightarrow> bool" where
  "float_same (Finite_Float n d _) (Finite_Float m e _) = (n * e = m * d)"
| "float_same (Infinite_Float a _) (Infinite_Float b _) = (a = b)"
| "float_same _ _ = False"

definition float_zero :: pyfloat where "float_zero = Finite_Float 0 1 ''0.0''"

definition float_at_most :: "pyfloat \<Rightarrow> pyfloat \<Rightarrow> bool" where
  "float_at_most x y = (float_less x y \<or> float_same x y)"

definition of_rat_float :: "(rat \<Rightarrow> string) \<Rightarrow> rat \<Rightarrow> pyfloat" where
  "of_rat_float rp x = (case quotient_of x of (n, d) \<Rightarrow> Finite_Float n d (rp x))"

text \<open>\<open>float(v)\<close> of an \<open>int\<close> or a \<open>float\<close>.\<close>

definition to_float :: "(rat \<Rightarrow> string) \<Rightarrow> pyval \<Rightarrow> pyfloat res" where
  "to_float rp v =
     (case v of
        PInt i \<Rightarrow> (let x = double_round (of_int i)
          in if 2 ^ 1024 \<le> \<bar>x\<bar> then Inl (PlainExn (Other_cls ''OverflowError'') ''int too large to convert to float'')
             else Inr (of_rat_float rp x))
      | PFloat x \<Rightarrow> Inr x
      | _ \<Rightarrow> Inl (PlainExn TypeError_cls ''float() argument must be a string or a real number''))"

text \<open>\<open>round(current / total * 100, 2)\<close> of floats with \<open>0 <= current <= total\<close>, or not comparable.\<close>

fun percent :: "(rat \<Rightarrow> string) \<Rightarrow> pyfloat \<Rightarrow> pyfloat \<Rightarrow> pyfloat" where
  "percent rp (Finite_Float n d _) (Finite_Float m e _) =
     (let p = double_round (double_round ((of_int n / of_int d) / (of_int m / of_int e)) * 100)
      in of_rat_float rp (double_round (of_int (round_half_even (p * 100)) / 100)))"
| "percent rp (Finite_Float n d _) (Infinite_Float _ _) = of_rat_float rp 0"
| "percent rp (Infinite_Float neg t) (Finite_Float _ _ _) = Infinite_Float neg t"
| "percent rp _ _ = Nan_Float ''nan''"

definition emit_semantic_event ::
  "obs_env option \<Rightarrow> int option \<Rightarrow> span_ref option \<Rightarrow> string \<Rightarrow> string \<Rightarrow> pyitems \<Rightarrow> obs_state \<Rightarrow> obs_state" where
  "emit_semantic_event sink run_id parent name message payload s =
     (case (sink, run_id) of
        (Some env, Some run) \<Rightarrow> suppress_observability_failure (discard
          (semantic_event env run name (Some message) (Some payload) ''info'' parent (Some ''native''))) s
      | _ \<Rightarrow> s)"

definition checked_progress :: "(rat \<Rightarrow> string) \<Rightarrow> native_context \<Rightarrow> pyval \<Rightarrow> pyval option \<Rightarrow> (pyfloat \<times> pyfloat option) res" where
  "checked_progress rp c current overall =
     (let fail = (\<lambda>t. PlainExn ValueError_cls t)
      in r_bind (r_guard (case number current of None \<Rightarrow> True | Some x \<Rightarrow> float_less x float_zero)
                  (fail ''progress current must be a non-negative number'')) (\<lambda>_.
         r_bind (r_guard (case overall of None \<Rightarrow> False | Some v \<Rightarrow>
                   (case number v of None \<Rightarrow> True | Some x \<Rightarrow> float_at_most x float_zero))
                  (fail ''progress total must be a positive number'')) (\<lambda>_.
         r_bind (r_guard (case (overall, number current) of (Some v, Some x) \<Rightarrow>
                   (case number v of None \<Rightarrow> False | Some y \<Rightarrow> float_less y x) | _ \<Rightarrow> False)
                  (fail ''progress current must not exceed total'')) (\<lambda>_.
         r_bind (to_float rp current) (\<lambda>x.
         r_bind (r_guard (case nc_progress_current c of None \<Rightarrow> False | Some previous \<Rightarrow> float_less x previous)
                  (fail ''progress current must be monotonic'')) (\<lambda>_.
         case overall of
           None \<Rightarrow> Inr (x, None)
         | Some v \<Rightarrow>
             r_bind (to_float rp v) (\<lambda>y.
             r_bind (r_guard (case nc_progress_total c of None \<Rightarrow> False | Some established \<Rightarrow> \<not> float_same y established)
                  (fail ''progress total must remain stable once reported'')) (\<lambda>_.
             Inr (x, Some y)))))))))"

definition progress_update ::
  "(rat \<Rightarrow> string) \<Rightarrow> obs_env option \<Rightarrow> int option \<Rightarrow> span_ref option \<Rightarrow> pyval \<Rightarrow> pyval option \<Rightarrow> string
     \<Rightarrow> (obs_state \<times> 't, unit) task" where
  "progress_update rp sink run_id parent current overall message st =
     (case checked_progress rp (fst st) current overall of
        Inl e \<Rightarrow> Some (st, Inl e)
      | Inr (x, y) \<Rightarrow>
          (let c = (fst st)\<lparr>nc_progress_current := Some x,
                 nc_progress_total := (case y of None \<Rightarrow> nc_progress_total (fst st) | Some t \<Rightarrow> Some t)\<rparr>;
               payload = [(AStr ''current'', current)] @ (case (overall, y) of
                   (Some v, Some t) \<Rightarrow> [(AStr ''total'', v), (AStr ''percent'', PFloat (percent rp x t))] | _ \<Rightarrow> [])
           in Some ((c, emit_semantic_event sink run_id parent ''native.progress''
                  (or_else message ''Progress updated'') payload (fst (snd st)), snd (snd st)), Inr ())))"

definition EVENT_NAME :: "string \<Rightarrow> bool" where
  "EVENT_NAME s = (case s of [] \<Rightarrow> False
     | c # cs \<Rightarrow> is_lower c \<and> length cs \<le> 127 \<and> list_all (\<lambda>d. is_lower d \<or> is_digit d \<or> d \<in> set ''_.-'') cs)"

definition MAX_NATIVE_METRICS :: nat where "MAX_NATIVE_METRICS = 100"

definition check_metric :: "(rat \<Rightarrow> string) \<Rightarrow> native_context \<Rightarrow> string \<Rightarrow> pyval \<Rightarrow> unit res" where
  "check_metric rp c name v =
     r_bind (r_guard (\<not> EVENT_NAME name) (PlainExn ValueError_cls ''metric name must be a lowercase dotted identifier'')) (\<lambda>_.
     r_bind (case number v of None \<Rightarrow> Inr False | Some _ \<Rightarrow> r_bind (to_float rp v) (\<lambda>x. Inr (isfinite x))) (\<lambda>finite.
     r_bind (r_guard (\<not> finite) (PlainExn ValueError_cls ''metric value must be a finite number'')) (\<lambda>_.
     r_guard (name \<notin> nc_metric_names c \<and> MAX_NATIVE_METRICS \<le> card (nc_metric_names c))
       (PlainExn RuntimeError_cls ''Native workflow exceeded the distinct metric limit''))))"

definition metric_record ::
  "(rat \<Rightarrow> string) \<Rightarrow> obs_env option \<Rightarrow> int option \<Rightarrow> span_ref option \<Rightarrow> string \<Rightarrow> pyval \<Rightarrow> string \<Rightarrow> pyitems option
     \<Rightarrow> (obs_state \<times> 't, unit) task" where
  "metric_record rp sink run_id parent name v units metadata st =
     (case check_metric rp (fst st) name v of
        Inl e \<Rightarrow> Some (st, Inl e)
      | Inr _ \<Rightarrow>
          (let c = (fst st)\<lparr>nc_metric_names := insert name (nc_metric_names (fst st))\<rparr>;
               payload = [(AStr ''name'', PStr name), (AStr ''value'', v), (AStr ''aggregation'', PStr ''latest'')]
                 @ (if units = [] then [] else [(AStr ''unit'', PStr units)])
                 @ (if given metadata = [] then [] else [(AStr ''metadata'', PDict (redact_mapping 4 (given metadata)))])
           in Some ((c, emit_semantic_event sink run_id parent ''native.metric'' (''Metric recorded: '' @ name) payload
                  (fst (snd st)), snd (snd st)), Inr ())))"

section \<open>Sequences of steps\<close>

record 'w step_definition =
  sd_name :: string
  sd_function :: "pyval list \<Rightarrow> pyitems \<Rightarrow> 'w invocation"
  sd_retry :: "retry_policy option"
  sd_timeout_seconds :: "rat option"

fun run_sequence :: "'w event_loop \<Rightarrow> execution_control option \<Rightarrow> 'w step_definition list \<Rightarrow> pyval \<Rightarrow> ('w, pyval) task" where
  "run_sequence lp control [] v = task_return v"
| "run_sequence lp control (d # steps) v =
     task_bind (native_step lp control (sd_name d) (sd_function d) [v] []
         \<lparr>so_retry = sd_retry d, so_timeout_seconds = sd_timeout_seconds d, so_occurrence_key = None\<rparr>)
       (run_sequence lp control steps)"

definition sequential_workflow ::
  "'w event_loop \<Rightarrow> execution_control option \<Rightarrow> string \<Rightarrow> 'w step_definition list \<Rightarrow> 'w native_workflow res" where
  "sequential_workflow lp control name steps =
     (if steps = [] then Inl (PlainExn ValueError_cls ''sequential_workflow requires at least one step'')
      else r_bind (required_name (or_else name ''Generated'') ''workflow name'') (\<lambda>n.
        Inr \<lparr>nw_name = n,
          nw_function = (\<lambda>request. task_bind (run_sequence lp control steps (PDict request)) (\<lambda>v. task_return (Raw_Value v))),
          nw_input_schema = PNone, nw_output_schema = PNone\<rparr>))"

section \<open>Slots and keys\<close>

lemma hyphenate_chars: "\<forall>c \<in> set (hyphenate b s). is_label_char c"
  by (induction s arbitrary: b) (auto simp: is_label_char_def)

lemma strip_hyphens_ends:
  assumes "\<forall>c \<in> set s. is_label_char c" and "strip_hyphens s \<noteq> []"
  shows "is_label_end (hd (strip_hyphens s))" and "is_label_end (last (strip_hyphens s))"
    and "\<forall>c \<in> set (strip_hyphens s). is_label_char c"
proof -
  let ?H = "\<lambda>c. c = CHR ''-''" let ?d = "dropWhile ?H s"
  have sub: "set (strip_hyphens s) \<subseteq> set s"
    unfolding strip_hyphens_def using set_dropWhileD by (metis set_rev subsetI)
  then show chars: "\<forall>c \<in> set (strip_hyphens s). is_label_char c" using assms(1) by blast
  have e: "is_label_end c" if "is_label_char c" "c \<noteq> CHR ''-''" for c
    using that by (simp add: is_label_char_def is_label_end_def)
  have ne: "dropWhile ?H (rev ?d) \<noteq> []" using assms(2) by (simp add: strip_hyphens_def)
  have last: "last (strip_hyphens s) = hd (dropWhile ?H (rev ?d))"
    by (simp add: strip_hyphens_def last_rev)
  show "is_label_end (last (strip_hyphens s))"
  proof (rule e)
    show "is_label_char (last (strip_hyphens s))" using chars assms(2) last_in_set by blast
    show "last (strip_hyphens s) \<noteq> CHR ''-''" unfolding last using hd_dropWhile [OF ne] .
  qed
  obtain xs where xs: "rev ?d = xs @ dropWhile ?H (rev ?d)" by (metis takeWhile_dropWhile_id)
  then have "?d = strip_hyphens s @ rev xs" unfolding strip_hyphens_def by (metis rev_append rev_rev_ident)
  then have hd: "hd (strip_hyphens s) = hd ?d" using assms(2) by (metis hd_append2)
  have "?d \<noteq> []" using ne by (metis dropWhile.simps(1) rev.simps(1))
  then have "hd (strip_hyphens s) \<noteq> CHR ''-''" unfolding hd using hd_dropWhile [of ?H s] by simp
  moreover have "is_label_char (hd (strip_hyphens s))" using chars assms(2) hd_in_set by blast
  ultimately show "is_label_end (hd (strip_hyphens s))" by (intro e)
qed

lemma native_slot_label: "label_ok n (native_artifact_slot name) \<longleftrightarrow> length (native_artifact_slot name) \<le> n"
proof -
  let ?h = "hyphenate False (lower (strip (before_last_dot name)))"
  have art: "label_ok n ''artifact'' \<longleftrightarrow> length ''artifact'' \<le> n"
    by (auto simp: label_ok_def is_label_end_def is_label_char_def is_lower_def Let_def)
  show ?thesis
  proof (cases "strip_hyphens ?h = []")
    case True
    then show ?thesis using art by (simp add: native_artifact_slot_def Let_def)
  next
    case False
    then show ?thesis using strip_hyphens_ends [OF hyphenate_chars, of False "lower (strip (before_last_dot name))"]
      by (simp add: native_artifact_slot_def Let_def label_ok_def)
  qed
qed

lemma draft_request_key:
  assumes "draft_request (Some run) d = Inr w"
  shows "ad_name d = PStr (wr_name w) \<and> wr_run_id w = Run_Int run \<and> 0 < run
    \<and> length (native_artifact_slot (wr_name w)) \<le> 64
    \<and> wr_storage_key w = join_with ''/'' [''artifact'', ''v1'', int_text run, native_artifact_slot (wr_name w)]"
proof -
  obtain n body ct emission ctx identity key where
    n: "validate_artifact_name (ad_name d) = Inr n" and
    e: "ArtifactEmissionRequest (Value (PStr (native_artifact_slot n))) (Value PNone) (PBytes body) (PStr ct)
          (PDict (given (ad_metadata d))) = Inr emission" and
    c: "ArtifactEmissionContext (PInt run) = Inr ctx" and
    i: "build_artifact_identity ctx emission = Inr identity" and
    k: "build_artifact_storage_key identity = Inr key" and
    w: "ArtifactWriteRequest (PInt run) (PStr key) (PBytes (er_body emission)) (PStr n)
            (PStr (ad_kind d)) (PStr (er_content_type emission)) (PDict (er_metadata emission)) = Inr w"
    using assms by (auto simp: draft_request_def r_simps)
  have name: "ad_name d = PStr n" "strip n = n" using n
    by (auto simp: validate_artifact_name_def Let_def split: pyval.splits atom.splits if_splits)
  have wn: "wr_name w = n" "wr_storage_key w = key" "wr_run_id w = Run_Int run"
    using w name(2) by (auto simp: ArtifactWriteRequest_def r_simps if_truthy_def Let_def split: if_splits)
  note wf = identity_of_wf [OF c ArtifactEmissionRequest_wf [OF e]]
  have "identity = identity_of ctx emission" using i build_artifact_identity_eq [OF wf] by simp
  then have "key = join_with ''/'' (key_parts (identity_of ctx emission))"
    using k build_artifact_storage_key_eq(1) [OF wf] by simp
  moreover have "ec_run_id ctx = run" "0 < run" using c by (auto simp: ArtifactEmissionContext_def r_simps emission_run_id_iff split: if_splits)
  moreover have "slot_value (er_slot emission) = native_artifact_slot n" "er_occurrence emission = None"
    "label_ok MAX_SLOT_LENGTH (native_artifact_slot n)"
    using e by (auto simp: ArtifactEmissionRequest_def r_simps ArtifactSlot_def normalize_artifact_label_iff
        simp del: normalize_artifact_label.simps emission_content_type.simps)
  ultimately show ?thesis using wn name native_slot_label [of MAX_SLOT_LENGTH n]
    by (simp add: key_parts_def identity_of_def MAX_SLOT_LENGTH_def)
qed

section \<open>Progress\<close>

text \<open>What an update changes: the progress goes up, or is not comparable, and a total once given stays.\<close>

lemma progress_update_step:
  assumes "progress_update rp sink run parent current overall message st = Some (st', Inr ())"
  shows "\<exists>x. nc_progress_current (fst st') = Some x
      \<and> (\<forall>previous. nc_progress_current (fst st) = Some previous \<longrightarrow> \<not> float_less x previous)
      \<and> (\<forall>t. nc_progress_total (fst st) = Some t \<longrightarrow> (\<exists>t'. nc_progress_total (fst st') = Some t' \<and> (t' = t \<or> float_same t' t)))
      \<and> nc_observations (fst st') = nc_observations (fst st)"
proof -
  obtain x y where c: "checked_progress rp (fst st) current overall = Inr (x, y)"
    using assms by (auto simp: progress_update_def split: sum.splits)
  then have "\<forall>previous. nc_progress_current (fst st) = Some previous \<longrightarrow> \<not> float_less x previous"
    "\<forall>t t'. y = Some t' \<longrightarrow> nc_progress_total (fst st) = Some t \<longrightarrow> float_same t' t"
    by (auto simp: checked_progress_def Let_def r_simps split: option.splits)
  moreover have "nc_progress_current (fst st') = Some x" "nc_observations (fst st') = nc_observations (fst st)"
    "nc_progress_total (fst st') = (case y of None \<Rightarrow> nc_progress_total (fst st) | Some t \<Rightarrow> Some t)"
    using assms c by (auto simp: progress_update_def Let_def)
  ultimately show ?thesis by (auto split: option.split)
qed

text \<open>At most 100 distinct metrics are kept.\<close>

definition metrics_ok :: "native_context \<Rightarrow> bool" where
  "metrics_ok c = (finite (nc_metric_names c) \<and> card (nc_metric_names c) \<le> MAX_NATIVE_METRICS)"

lemma metric_record_ok:
  assumes "metrics_ok (fst st)" and "metric_record rp sink run parent name v units metadata st = Some (st', r)"
  shows "metrics_ok (fst st')"
proof (cases "check_metric rp (fst st) name v")
  case (Inl e)
  then show ?thesis using assms by (simp add: metric_record_def)
next
  case (Inr u)
  then have "name \<in> nc_metric_names (fst st) \<or> card (nc_metric_names (fst st)) < MAX_NATIVE_METRICS"
    by (auto simp: check_metric_def r_simps)
  then show ?thesis using assms Inr
    by (auto simp: metric_record_def Let_def metrics_ok_def insert_absorb card_insert_if)
qed

end
