(* ===== verification/Native_Properties.thy ===== *)
theory Native_Properties
  imports Native_Helpers
begin

text \<open>
  The properties of Native workflows: the trail of a step, the steps that return, the replay of an
  execution, the keys of artifacts, and progress.
\<close>

text \<open>An event loop that runs nothing else, and a function that fails once and then answers.\<close>

definition still_loop :: "'w event_loop" where
  "still_loop = \<lparr>lp_flags = (\<lambda>_. {}), lp_monotonic = (\<lambda>w. (w, 0)), lp_sleep = (\<lambda>_ s. s)\<rparr>"

definition flaky :: "pyval list \<Rightarrow> pyitems \<Rightarrow> nat invocation" where
  "flaky args kwargs = \<lparr>iv_seconds = (\<lambda>_. Some 1),
     iv_returns = (\<lambda>s. ((fst s, Suc (snd s)),
       if snd s = 0 then Inl (PlainExn ValueError_cls ''first'') else Inr (PInt 7))),
     iv_cut = (\<lambda>_ s. s)\<rparr>"

definition twice :: step_options where
  "twice = \<lparr>so_retry = Some \<lparr>rp_max_attempts = 2, rp_retry_on = [Exception_cls], rp_initial_delay_seconds = 1,
     rp_backoff_multiplier = 2, rp_max_delay_seconds = 60\<rparr>, so_timeout_seconds = None, so_occurrence_key = None\<rparr>"

lemma flaky_awaits: "awaits_ok alone P still_loop (flaky args kwargs)"
  by (simp add: awaits_ok_def still_loop_def flaky_def extends_refl)

lemma admit_draft: "admit_step ''draft'' twice fresh_context = Inr (''draft'', ''draft'')"
  by (simp add: admit_step_def required_name_def strip_def is_space_def occurrence_identity_def twice_def
      fresh_context_def MAX_STEP_OCCURRENCES_def Let_def)

lemma twice_valid:
  "RetryPolicy (step_policy twice) = Inr (step_policy twice)" "rp_max_delay_seconds (step_policy twice) \<le> 2 ^ 48"
  by (simp_all add: RetryPolicy_def step_policy_def twice_def Let_def)

text \<open>
  C6. A step leaves the same trail whatever its function does and whatever other tasks do while it awaits,
  as long as those keep the context in order and do not touch its occurrence: attempts numbered from
  one, at most \<open>max_attempts\<close> of them and every span closed, of which all but the last one are recorded as
  retried. The last one is completed, with the summary of the value that the step returns, or is failed,
  and the step raises an exception that the policy does not retry at that attempt. A step that raises right after
  a retried attempt, or before the first one, was stopped there: its exception is one that the check of the
  execution control raises, or the overflow of the delay of that attempt, or the policy allows no attempt. The
  context stays in order and grows, and no other occurrence's operations change.
\<close>

theorem step_leaves_a_trail:
  assumes "context_ok (fst s)" and "admit_step name options (fst s) = Inr (n, u)"
    and "awaits_ok alone (insert u P) lp (callable args kwargs)" and "u \<notin> P"
    and "native_step lp control name callable args kwargs options s = Some (t, r)"
  shows "extends alone P (fst s) (fst t) \<and> context_ok (fst t) \<and> quiet u (fst t)
    \<and> (\<exists>site. at_name site = n \<and> at_subject_id site = u
         \<and> at_max_attempts site = rp_max_attempts (step_policy options) \<and> step_trail lp control (step_policy options) site r (history u (fst t)))"
  using task_postD [OF native_step_post [where lp = lp and callable = callable and args = args and kwargs = kwargs,
      OF assms(1-4)] assms(5)]
  by (auto simp: extends_def moves_def)

text \<open>
  C7. A step returns, with a value or an exception: when its function returns or a timeout is set, and the
  retry policy is valid with delays of at most \<open>2 ^ 48\<close> seconds, for which counting down by tenths
  of a second in floats reaches zero.
\<close>

theorem step_returns:
  assumes "(\<forall>s. iv_seconds (callable args kwargs) s \<noteq> None) \<or> so_timeout_seconds options \<noteq> None"
    and "RetryPolicy (step_policy options) = Inr q" and "rp_max_delay_seconds (step_policy options) \<le> 2 ^ 48"
  shows "\<exists>t r. native_step lp control name callable args kwargs options s = Some (t, r)"
proof -
  have "native_step lp control name callable args kwargs options s \<noteq> None"
    by (rule total_native_step [where callable = callable and args = args and kwargs = kwargs, OF assms(1,2)])
      (use assms(3) in simp)
  then show ?thesis by (cases "native_step lp control name callable args kwargs options s") auto
qed

theorem step_returns_witness:
  "\<exists>t r. native_step still_loop None ''draft'' flaky [] [] twice (fresh_context, 0) = Some (t, r)"
  by (rule step_returns [OF _ twice_valid]) (simp add: flaky_def)

lemma draft_step_runs:
  obtains t r where "native_step still_loop None ''draft'' flaky [] [] twice (fresh_context, 0) = Some (t, r)"
proof -
  have "native_step still_loop None ''draft'' flaky [] [] twice (fresh_context, 0) \<noteq> None"
    by (rule total_native_step [OF _ twice_valid(1)]) (simp_all add: flaky_def step_policy_def twice_def)
  then show ?thesis using that by (cases "native_step still_loop None ''draft'' flaky [] [] twice (fresh_context, 0)") auto
qed

theorem step_leaves_a_trail_witness:
  "\<exists>t r. native_step still_loop None ''draft'' flaky [] [] twice (fresh_context, 0) = Some (t, r)
    \<and> quiet ''draft'' (fst t) \<and> (\<exists>site. at_max_attempts site = 2 \<and> step_trail (still_loop :: nat event_loop) None (step_policy twice) site r (history ''draft'' (fst t)))"
proof -
  obtain t r where run: "native_step still_loop None ''draft'' flaky [] [] twice (fresh_context, 0) = Some (t, r)"
    by (rule draft_step_runs)
  have "rp_max_attempts (step_policy twice) = 2" by (simp add: step_policy_def twice_def)
  then show ?thesis
    using step_leaves_a_trail [where s = "(fresh_context, 0)" and P = "{}" and alone = True,
        OF _ _ flaky_awaits _ run] admit_draft fresh_context_ok run by auto
qed

text \<open>
  The delay before a late retry is not the maximal one, as for the earlier ones, but an exception,
  which ends the step in place of the failure: the power of the multiplier exceeds the largest float.
\<close>

theorem long_retries_overflow:
  assumes "rp_initial_delay_seconds p \<noteq> 0" and "2 \<le> rp_backoff_multiplier p" and "1031 \<le> attempt"
  shows "delay_after p attempt
     = Inl (PlainExn (Other_cls ''OverflowError'') (''(34, '' @ quoted ''Numerical result out of range'' @ '')''))"
proof -
  let ?x = "rp_backoff_multiplier p ^ nat (attempt - 1)"
  have "(2::rat) ^ 1030 \<le> 2 ^ nat (attempt - 1)" using assms(3) by (intro power_increasing) auto
  also have "\<dots> \<le> ?x" using assms(2) by (intro power_mono) simp_all
  finally have x: "(2::rat) ^ 1030 \<le> ?x" .
  then have "0 \<le> ?x" by (rule order_trans [rotated]) simp
  note e = double_round_error(2) [OF this]
  have "(2::rat) ^ 1024 \<le> ?x / 2" using x by simp
  also have "\<dots> \<le> double_round ?x" using e \<open>0 \<le> ?x\<close> by (simp add: field_simps)
  finally show ?thesis using assms(1) by (simp add: delay_after_def float_power_def Let_def)
qed

text \<open>
  C8. An execution whose function leaves no step running and keeps the tables in order keeps them so, and
  on a database that accepts the rows its replay ends every span it starts: no span is pending
  afterwards that was not before.
\<close>

theorem execution_ends_its_spans:
  assumes "accepts env" and "obs_ok (fst w)" and "run \<in> known (os_runs (fst w))" and "parent_ok parent (fst w)"
    and "nw_function workflow payload (fresh_context, w) = Some ((c, w1), r)" and "extends True {} fresh_context c"
    and "kept (fst w) (fst w1)" and "pending (fst w1) \<subseteq> pending (fst w)" and "cx_run_id context = Some run"
    and "native_execute False (Some env) parent workflow payload context w = Some (w', x)"
  shows "kept (fst w) (fst w') \<and> pending (fst w') \<subseteq> pending (fst w)"
proof (cases "validate_schema_value (PDict payload) (nw_input_schema workflow) ''input'' ''$''")
  case (Inl e)
  then show ?thesis using assms(2,10) kept_refl by (simp add: native_execute_def)
next
  case (Inr u)
  note c = settled_extends [OF assms(6)]
  have w1: "obs_ok (fst w1)" "grows (fst w) (fst w1)" using assms(7) by (simp_all add: kept_def)
  have "kept (fst w1) (replay_operations env run parent [] (operations c) (fst w1))
      \<and> pending (replay_operations env run parent [] (operations c) (fst w1)) \<subseteq> pending (fst w1) - targets {} []"
    by (rule replay_pending [OF assms(1) w1(1)])
      (use c run_still_known [OF w1(2) assms(3)] parent_ok_grows [OF assms(4) w1(2)] in \<open>simp_all add: live_def\<close>)
  moreover have "fst w' = replay_operations env run parent [] (operations c) (fst w1)"
    using assms(5,9,10) Inr by (auto simp: native_execute_def run_awaitable_def replay_def Let_def)
  ultimately show ?thesis using kept_trans [OF assms(7)] assms(8) by auto
qed

definition answer_call :: "pyval list \<Rightarrow> pyitems \<Rightarrow> 'w invocation" where
  "answer_call args kwargs = \<lparr>iv_seconds = (\<lambda>_. Some 1), iv_returns = (\<lambda>s. (s, Inr (PInt 7))), iv_cut = (\<lambda>_ s. s)\<rparr>"

definition once :: step_options where
  "once = \<lparr>so_retry = None, so_timeout_seconds = None, so_occurrence_key = None\<rparr>"

definition one_step :: "(obs_state \<times> unit) native_workflow" where
  "one_step = \<lparr>nw_name = ''one'', nw_function = (\<lambda>request. task_bind
       (native_step still_loop None ''draft'' answer_call [] [] once) (\<lambda>v. task_return (Raw_Value v))),
     nw_input_schema = PNone, nw_output_schema = PNone\<rparr>"

lemma one_step_runs:
  obtains c where "nw_function one_step payload (fresh_context, w) = Some ((c, w), Inr (Raw_Value (PInt 7)))"
    and "extends True {} fresh_context c"
proof -
  have admit: "admit_step ''draft'' once fresh_context = Inr (''draft'', ''draft'')"
    by (simp add: admit_step_def required_name_def strip_def is_space_def occurrence_identity_def once_def
        fresh_context_def MAX_STEP_OCCURRENCES_def Let_def)
  have "\<exists>c. native_step still_loop None ''draft'' answer_call [] [] once (fresh_context, w) = Some ((c, w), Inr (PInt 7))"
    unfolding native_step_def task_bind_res fst_conv admit sum.case prod.case
    by (simp add: once_def step_attempts.simps NO_RETRY_def task_bind_def task_case_def check_cancelled_def
        task_context_def claim_step_def Let_def buffer_start_def attempt_call_def effective_timeout_def
        control_remaining_def task_return_def invoke_step_def answer_call_def on_buffer_def split_beta)
  then obtain c where run: "native_step still_loop None ''draft'' answer_call [] [] once (fresh_context, w)
      = Some ((c, w), Inr (PInt 7))" ..
  have "awaits_ok True P still_loop (answer_call [] [] :: (obs_state \<times> unit) invocation)" for P
    by (simp add: awaits_ok_def still_loop_def answer_call_def extends_refl)
  then have "moves {} True {} fresh_context c"
    using task_postD [OF native_step_post [where s = "(fresh_context, w)" and P = "{}" and u = "''draft''"] run] admit fresh_context_ok
    by simp
  then have "extends True {} fresh_context c" by (simp add: extends_def)
  moreover have "nw_function one_step payload (fresh_context, w) = Some ((c, w), Inr (Raw_Value (PInt 7)))"
    using run by (simp add: one_step_def task_bind_def task_case_def task_return_def)
  ultimately show ?thesis using that by blast
qed

definition accepting_env :: obs_env where
  "accepting_env = \<lparr>oe_refuses = (\<lambda>_. None), oe_clock = int, oe_diagnostic_days = None, oe_projection_days = None\<rparr>"

definition tables_with_run :: obs_state where
  "tables_with_run = \<lparr>os_runs = [(1, \<lparr>rt_last_event_at = None, rt_last_span_name = [], rt_updated_at = 0\<rparr>)],
     os_events = [], os_spans = [], os_artifacts = [], os_checkpoints = [], os_diagnostics = [],
     os_projections = [], os_ticks = 0\<rparr>"

lemma tables_with_run_ok: "obs_ok tables_with_run" "known (os_runs tables_with_run) = {1}" "pending tables_with_run = {}"
  by (simp_all add: tables_with_run_def obs_ok_def wf_dict_def pending_def)

theorem execution_ends_its_spans_witness:
  "\<exists>w' x. native_execute False (Some accepting_env) None one_step [] (default_context\<lparr>cx_run_id := Some 1\<rparr>)
       (tables_with_run, ()) = Some (w', x) \<and> obs_ok (fst w') \<and> pending (fst w') = {}"
proof -
  obtain c where run: "nw_function one_step [] (fresh_context, (tables_with_run, ()))
      = Some ((c, (tables_with_run, ())), Inr (Raw_Value (PInt 7)))" "extends True {} fresh_context c"
    by (rule one_step_runs)
  have "validate_schema_value v (nw_input_schema one_step) ph path = Inr ()" for v ph path
    by (simp add: validate_schema_value_def one_step_def)
  then obtain w' x where e: "native_execute False (Some accepting_env) None one_step [] (default_context\<lparr>cx_run_id := Some 1\<rparr>)
       (tables_with_run, ()) = Some (w', x)"
    using run(1) by (simp add: native_execute_def run_awaitable_def Let_def)
  have "kept (fst (tables_with_run, ())) (fst w') \<and> pending (fst w') \<subseteq> pending (fst (tables_with_run, ()))"
    by (rule execution_ends_its_spans [OF _ _ _ _ run _ _ _ e])
      (use tables_with_run_ok in \<open>simp_all add: accepts_def accepting_env_def parent_ok_def kept_refl\<close>)
  then show ?thesis using e tables_with_run_ok by (auto simp: kept_def)
qed

text \<open>
  C9. The storage key of an artifact a Native workflow writes is that of its run and of the slot made of its
  name without the extension. So two artifacts of a run have the same key exactly when their names
  give the same slot, as \<open>report.txt\<close> and \<open>report.json\<close> do, although the requests carry different names.
\<close>

theorem artifact_key_is_the_slot:
  assumes "draft_request (Some run) d1 = Inr w1" and "draft_request (Some run) d2 = Inr w2"
  shows "wr_storage_key w1 = ''artifact/v1/'' @ int_text run @ ''/'' @ native_artifact_slot (wr_name w1)
    \<and> (wr_storage_key w1 = wr_storage_key w2 \<longleftrightarrow> native_artifact_slot (wr_name w1) = native_artifact_slot (wr_name w2))
    \<and> length (native_artifact_slot (wr_name w1)) \<le> 64"
  using draft_request_key [OF assms(1)] draft_request_key [OF assms(2)] by simp

definition text_draft :: "string \<Rightarrow> string \<Rightarrow> artifact_draft" where
  "text_draft name text = \<lparr>ad_name = PStr name, ad_content = PStr text, ad_kind = ''file'',
     ad_content_type = None, ad_metadata = None\<rparr>"

theorem artifact_key_is_the_slot_witness:
  "\<exists>w v. draft_request (Some 7) (text_draft ''report.txt'' ''a'') = Inr w
    \<and> draft_request (Some 7) (text_draft ''report.json'' ''b'') = Inr v
    \<and> wr_name w \<noteq> wr_name v \<and> wr_storage_key w = wr_storage_key v"
proof -
  have "(case (draft_request (Some 7) (text_draft ''report.txt'' ''a''), draft_request (Some 7) (text_draft ''report.json'' ''b'')) of
      (Inr w, Inr v) \<Rightarrow> wr_name w \<noteq> wr_name v \<and> native_artifact_slot (wr_name w) = native_artifact_slot (wr_name v)
    | _ \<Rightarrow> False)"
    by code_simp
  then obtain w v where "draft_request (Some 7) (text_draft ''report.txt'' ''a'') = Inr w"
    "draft_request (Some 7) (text_draft ''report.json'' ''b'') = Inr v"
    "wr_name w \<noteq> wr_name v \<and> native_artifact_slot (wr_name w) = native_artifact_slot (wr_name v)"
    by (auto split: sum.splits)
  with artifact_key_is_the_slot [OF this(1,2)] show ?thesis by blast
qed

end
