(* ===== verification/Engine.thy ===== *)
theory Engine
  imports Runtime_Assembly Llm
begin

text \<open>
  api/engine.py and workflows/catalog.py: the engine an application uses. It is created from a
  configuration mapping: the built-in workflows, the defaults of the runtime, the plugins given and
  those installed are registered and enabled, and the configuration is normalized, validated and
  assembled. It prepares workflows and reads artifacts.

  What is outside of the repository, or is an object to it, is the record \<open>engine_env\<close>: whether LiteLLM is
  installed and how its import ends, Python's \<open>float\<close> of a text, the environment, the installed entry
  points with their distributions, the objects made of settings, and what identifies an object.
\<close>

section \<open>The defaults of the runtime\<close>

datatype import_outcome = Imported | Module_Missing string exn | Import_Failed exn

record ('o, 'g) engine_env =
  ev_litellm_spec :: bool
  ev_litellm_import :: import_outcome
  ev_float :: "string \<Rightarrow> pyfloat option"
  ev_llm_client :: "litellm_settings \<Rightarrow> 'o"
  ev_echo_tool :: 'o
  ev_constructors :: "'o store_constructors"
  ev_environ :: "(string \<times> string) list"
  ev_entry_points :: "('o, 'g) entry_point list"
  ev_distribution :: "('o, 'g) entry_point \<Rightarrow> (string \<times> string) option"
  ev_identity :: "atom \<Rightarrow> string \<times> string \<times> string"

definition DEFAULT_PLUGIN_ENTRY_POINT_GROUP :: string where
  "DEFAULT_PLUGIN_ENTRY_POINT_GROUP = ''cobalt_wren.plugins''"

definition INTERNAL_RUNTIME_PLUGIN_NAME :: string where
  "INTERNAL_RUNTIME_PLUGIN_NAME = ''cobalt_wren.engine_runtime_defaults''"

definition engine_error :: "string \<Rightarrow> string \<Rightarrow> pydict \<Rightarrow> exn" where
  "engine_error msg code metadata = RuntimeAssemblyError msg code (Some ''api_engine'') None metadata"

definition optional_str :: "pyval option \<Rightarrow> string option" where
  "optional_str v =
     (let nonempty = (\<lambda>t. if t = [] then None else Some t)
      in case v of
           None \<Rightarrow> None
         | Some (Atom ANone) \<Rightarrow> None
         | Some (Atom (AStr s)) \<Rightarrow> nonempty (strip s)
         | Some w \<Rightarrow> nonempty (val_text w))"

definition optional_float :: "(string \<Rightarrow> pyfloat option) \<Rightarrow> pyval option \<Rightarrow> pyval option res" where
  "optional_float float_of v =
     (case v of
        None \<Rightarrow> Inr None
      | Some (Atom ANone) \<Rightarrow> Inr None
      | Some (Atom (ABool _)) \<Rightarrow> Inr None
      | Some (Atom (AFloat x)) \<Rightarrow> Inr (Some (PFloat x))
      | Some (Atom (AInt i)) \<Rightarrow>
          if 2 ^ 1024 \<le> \<bar>double_round (of_int i)\<bar>
          then Inl (PlainExn (Other_cls ''OverflowError'') ''int too large to convert to float'')
          else Inr (map_option PFloat (float_of (int_text i)))
      | Some w \<Rightarrow> Inr (map_option PFloat (float_of (val_text w))))"

definition optional_int :: "pyval option \<Rightarrow> int option" where
  "optional_int v =
     (case v of
        None \<Rightarrow> None
      | Some (Atom ANone) \<Rightarrow> None
      | Some (Atom (ABool _)) \<Rightarrow> None
      | Some (Atom (AInt i)) \<Rightarrow> Some i
      | Some w \<Rightarrow> (case int_of_text (val_text w) of Inl _ \<Rightarrow> None | Inr i \<Rightarrow> Some i))"

definition resolve_model_name :: "provider_profile \<Rightarrow> string res" where
  "resolve_model_name config =
     (case (if pp_model config \<in> {None, Some []} then optional_str (map_of (pp_parameters config) (AStr ''model''))
            else pp_model config) of
        None \<Rightarrow> Inl (engine_error ''Runtime assembly failed: provider model is required.''
          ''RUNTIME_ASSEMBLY_INVALID_CONFIG'' [(''provider'', PStr (pp_provider config))])
      | Some model \<Rightarrow> Inr model)"

definition resolve_optional_secret :: "provider_profile \<Rightarrow> factory_context \<Rightarrow> string \<Rightarrow> string option res" where
  "resolve_optional_secret config context secret_name =
     (case map_of (pp_secrets config) secret_name of
        None \<Rightarrow> Inr None
      | Some ref \<Rightarrow> r_bind (fx_secrets context ref) (\<lambda>s. Inr (Some s)))"

definition create_default_llm_client ::
  "('o, 'g) engine_env \<Rightarrow> provider_profile \<Rightarrow> factory_context \<Rightarrow> 'o option res" where
  "create_default_llm_client env config context =
     (case ev_litellm_import env of
        Module_Missing name e \<Rightarrow>
          if name = ''litellm''
          then Inl (engine_error (''Runtime assembly failed: provider '' @ quoted ''litellm'' @ '' is not installed. ''
              @ ''Install LiteLLM in the consuming application.'')
            ''RUNTIME_ASSEMBLY_PROVIDER_NOT_INSTALLED''
            [(''provider'', PStr ''litellm''), (''distribution'', PStr ''litellm'')])
          else Inl e
      | Import_Failed e \<Rightarrow> Inl e
      | Imported \<Rightarrow>
          r_bind (resolve_model_name config) (\<lambda>model.
          r_bind (resolve_optional_secret config context ''api_key'') (\<lambda>api_key.
          r_bind (optional_float (ev_float env) (map_of (pp_parameters config) (AStr ''temperature''))) (\<lambda>temperature.
          Inr (Some (ev_llm_client env
            \<lparr>ls_model = model, ls_api_key = api_key,
             ls_base_url = optional_str (map_of (pp_parameters config) (AStr ''base_url'')),
             ls_temperature = temperature,
             ls_max_tokens = optional_int (map_of (pp_parameters config) (AStr ''max_tokens''))\<rparr>))))))"

definition runtime_defaults_plugin :: "('o, 'g) engine_env \<Rightarrow> ('o, 'g) plugin" where
  "runtime_defaults_plugin env =
     (let providers = (if ev_litellm_spec env
            then [\<lparr>pc_name = ''litellm'', pc_validate_profile = None,
                   pc_create_client = Some (create_default_llm_client env)\<rparr>] else [])
      in \<lparr>pl_name = INTERNAL_RUNTIME_PLUGIN_NAME, pl_version = ''0.1.0'',
          pl_plugin_types = (if providers \<noteq> [] then [''provider'', ''tool''] else [''tool'']),
          pl_provides = [(''providers'', map pc_name providers), (''tools'', [''echo''])],
          pl_metadata = [(''visibility'', PStr ''internal''), (''scope'', PStr ''engine'')],
          pl_workflows = [],
          pl_tools = [\<lparr>tc_name = ''echo'', tc_validate_config = None,
            tc_create_tool = Some (\<lambda>_ _. Inr (Some (ev_echo_tool env)))\<rparr>],
          pl_providers = providers, pl_stores = [], pl_event_sinks = []\<rparr>)"

section \<open>Creating an engine\<close>

definition BUILTIN_WORKFLOW_PLUGINS :: "('o, 'g) plugin list" where "BUILTIN_WORKFLOW_PLUGINS = []"

definition create_builtin_workflow_registry :: "('o, 'g) registry res" where
  "create_builtin_workflow_registry = new_registry empty_registry BUILTIN_WORKFLOW_PLUGINS"

text \<open>The plugins discovered, without those whose name is registered.\<close>

fun register_discovered ::
  "('o, 'g) registry \<Rightarrow> string set \<Rightarrow> ('o, 'g) plugin list \<Rightarrow> (('o, 'g) registry \<times> ('o, 'g) plugin list) res" where
  "register_discovered reg registered_names [] = Inr (reg, [])"
| "register_discovered reg registered_names (p # ps) =
     (if pl_name p \<in> registered_names then register_discovered reg registered_names ps
      else (case register reg p of
          (_, Inl e) \<Rightarrow> Inl e
        | (reg, Inr _) \<Rightarrow>
            r_bind (register_discovered reg (insert (pl_name p) registered_names) ps) (\<lambda>(reg, effective).
              Inr (reg, p # effective))))"

fun merge_unique :: "string list \<Rightarrow> string list \<Rightarrow> string list" where
  "merge_unique merged [] = merged"
| "merge_unique merged (n # ns) = merge_unique (if n \<in> set merged then merged else merged @ [n]) ns"

definition merge_unique_plugins :: "string list list \<Rightarrow> string list" where
  "merge_unique_plugins plugin_groups = merge_unique [] (concat plugin_groups)"

definition augment_enabled_plugins ::
  "normalized_config \<Rightarrow> string \<Rightarrow> string list \<Rightarrow> string list \<Rightarrow> normalized_config" where
  "augment_enabled_plugins config runtime_plugin_name explicit_plugin_names discovered_plugin_names =
     (let enabled = merge_unique_plugins
        [nc_plugins config, runtime_plugin_name # explicit_plugin_names @ discovered_plugin_names]
      in if enabled = nc_plugins config then config else config\<lparr>nc_plugins := enabled\<rparr>)"

record ('o, 'g) engine =
  en_config :: "('o, 'g) validated_config"
  en_dependencies :: "'o dependencies"
  en_registry :: "('o, 'g) registry"

definition framework_only :: "exn \<Rightarrow> 'a res \<Rightarrow> 'a res" where
  "framework_only replacement r =
     (case r of Inl e \<Rightarrow> Inl (if isinstance e FrameworkError_cls then e else replacement) | Inr x \<Rightarrow> Inr x)"

text \<open>The registry of an engine, with the plugins discovered that were not skipped.\<close>

definition engine_registry ::
  "('o, 'g) engine_env \<Rightarrow> ('o, 'g) plugin list \<Rightarrow> bool \<Rightarrow> (('o, 'g) registry \<times> ('o, 'g) plugin list) res" where
  "engine_registry env plugins discover =
     r_bind create_builtin_workflow_registry (\<lambda>reg.
     r_bind (new_registry reg (runtime_defaults_plugin env # plugins)) (\<lambda>reg.
     r_bind (if discover then discover_plugins DEFAULT_PLUGIN_ENTRY_POINT_GROUP (ev_entry_points env) else Inr []) (\<lambda>discovered.
     register_discovered reg (pl_name ` set (list_plugins reg)) discovered)))"

definition create_engine ::
  "('o, 'g) engine_env \<Rightarrow> pyval \<Rightarrow> ('o, 'g) plugin list \<Rightarrow> bool \<Rightarrow> ('o, 'g) engine res" where
  "create_engine env config plugins discover =
     framework_only (engine_error ''Engine creation failed.'' ''ENGINE_CREATE_FAILED'' [])
       (r_bind (engine_registry env plugins discover) (\<lambda>(reg, effective_discovered).
        r_bind (load_normalized_package_config_from_mapping config) (\<lambda>normalized.
        r_bind (validate_package_config reg (augment_enabled_plugins normalized
          (pl_name (runtime_defaults_plugin env)) (map pl_name plugins) (map pl_name effective_discovered))) (\<lambda>validated.
        r_bind (assemble_runtime_dependencies (ev_constructors env) (env_resolve (ev_environ env)) validated) (\<lambda>dependencies.
        Inr \<lparr>en_config = validated, en_dependencies = dependencies, en_registry = reg\<rparr>)))))"

section \<open>Using an engine\<close>

record 'g engine_prepared_workflow =
  ew_kind :: string
  ew_executable :: 'g
  ew_lifecycle_events_owner :: string
  ew_metadata :: workflow_metadata
  ew_input_schema :: "pyitems option"
  ew_output_schema :: "pyitems option"
  ew_extra :: pyitems
  ew_engine_generation :: int
  ew_engine_signature :: string

definition lifecycle_events_owner :: "pyitems \<Rightarrow> string" where
  "lifecycle_events_owner extra =
     (let owner = (case map_of extra (AStr ''lifecycle_events_owner'') of None \<Rightarrow> ''control_plane'' | Some v \<Rightarrow> val_text v)
      in if owner \<in> {''control_plane'', ''workflow''} then owner else ''control_plane'')"

definition engine_prepare_workflow ::
  "('o, 'g) engine \<Rightarrow> string \<Rightarrow> pyitems \<Rightarrow> 'g engine_prepared_workflow res" where
  "engine_prepare_workflow engine workflow_kind config =
     r_bind (framework_only (engine_error ''Engine workflow preparation failed.'' ''ENGINE_WORKFLOW_PREPARATION_FAILED''
         [(''workflow_kind'', PStr workflow_kind)])
       (prepare_workflow (en_registry engine) workflow_kind (en_dependencies engine) config)) (\<lambda>prepared.
       let def = wc_definition (ppw_contribution prepared)
       in Inr \<lparr>ew_kind = ppw_kind prepared, ew_executable = ppw_executable prepared,
            ew_lifecycle_events_owner = lifecycle_events_owner (wd_extra def), ew_metadata = wd_metadata def,
            ew_input_schema = wd_input_schema def, ew_output_schema = wd_output_schema def,
            ew_extra = wd_extra def, ew_engine_generation = 0, ew_engine_signature = []\<rparr>)"

definition engine_execute ::
  "'s workflow_object engine_prepared_workflow \<Rightarrow> pyitems \<Rightarrow> execution_context option \<Rightarrow> 's \<Rightarrow> 's \<times> workflow_result res" where
  "engine_execute w input_payload context = execute_workflow (ew_executable w) input_payload context"

definition engine_resume ::
  "'s workflow_object engine_prepared_workflow \<Rightarrow> resume_request \<Rightarrow> execution_context option \<Rightarrow> 's \<Rightarrow> 's \<times> workflow_result res" where
  "engine_resume w request context = resume_workflow (ew_executable w) request context"

text \<open>What the \<open>get\<close> of a store returns: nothing, a result, or another object.\<close>

datatype 'r store_read = No_Artifact | Artifact_Result 'r | Other_Object

definition engine_read_artifact ::
  "('o \<Rightarrow> (string \<Rightarrow> 'w \<Rightarrow> 'w \<times> 'r store_read res) option) \<Rightarrow> ('o, 'g) engine \<Rightarrow> string \<Rightarrow> 'w \<Rightarrow> 'w \<times> 'r option res" where
  "engine_read_artifact store_get engine storage_key w =
     (case Option.bind (rd_artifact_store (en_dependencies engine)) store_get of
        None \<Rightarrow> (w, Inl (engine_error ''Artifact store is unavailable.'' ''ARTIFACT_STORE_UNAVAILABLE'' []))
      | Some getter \<Rightarrow>
          (case getter storage_key w of
             (w, Inl e) \<Rightarrow> (w, Inl e)
           | (w, Inr No_Artifact) \<Rightarrow> (w, Inr None)
           | (w, Inr (Artifact_Result r)) \<Rightarrow> (w, Inr (Some r))
           | (w, Inr Other_Object) \<Rightarrow>
               (w, Inl (engine_error ''Artifact store returned an invalid result.'' ''ARTIFACT_STORE_INVALID_RESULT'' []))))"

section \<open>What an engine has\<close>

lemma merge_unique_set: "set (merge_unique merged ns) = set merged \<union> set ns"
  by (induction merged ns rule: merge_unique.induct) auto

lemma merge_unique_distinct: "distinct merged \<Longrightarrow> distinct (merge_unique merged ns)"
  by (induction merged ns rule: merge_unique.induct) auto

lemma merge_unique_prefix: "\<exists>new. merge_unique merged ns = merged @ new"
proof (induction merged ns rule: merge_unique.induct)
  case (2 merged n ns)
  then show ?case by (cases "n \<in> set merged") auto
qed simp

lemma merge_unique_append: "merge_unique merged (xs @ ys) = merge_unique (merge_unique merged xs) ys"
  by (induction merged xs rule: merge_unique.induct) simp_all

lemma merge_unique_fresh: "distinct (merged @ ns) \<Longrightarrow> merge_unique merged ns = merged @ ns"
  by (induction merged ns rule: merge_unique.induct) simp_all

lemma augmented_plugins:
  assumes "distinct (nc_plugins c)"
  shows "\<exists>new. nc_plugins (augment_enabled_plugins c r es ds) = nc_plugins c @ new"
    and "distinct (nc_plugins (augment_enabled_plugins c r es ds))"
    and "set (nc_plugins (augment_enabled_plugins c r es ds)) = set (nc_plugins c) \<union> {r} \<union> set es \<union> set ds"
    and "augment_enabled_plugins c r es ds = c\<lparr>nc_plugins := nc_plugins (augment_enabled_plugins c r es ds)\<rparr>"
proof -
  let ?m = "merge_unique (nc_plugins c) (r # es @ ds)"
  have m: "merge_unique_plugins [nc_plugins c, r # es @ ds] = ?m"
    using merge_unique_fresh [of "[]" "nc_plugins c"] assms
    by (simp add: merge_unique_plugins_def merge_unique_append del: merge_unique.simps(2))
  have p: "nc_plugins (augment_enabled_plugins c r es ds) = ?m"
    unfolding augment_enabled_plugins_def Let_def m by simp
  show "\<exists>new. nc_plugins (augment_enabled_plugins c r es ds) = nc_plugins c @ new"
    unfolding p by (rule merge_unique_prefix)
  show "distinct (nc_plugins (augment_enabled_plugins c r es ds))"
    unfolding p by (rule merge_unique_distinct [OF assms])
  show "set (nc_plugins (augment_enabled_plugins c r es ds)) = set (nc_plugins c) \<union> {r} \<union> set es \<union> set ds"
    unfolding p merge_unique_set by auto
  show "augment_enabled_plugins c r es ds = c\<lparr>nc_plugins := nc_plugins (augment_enabled_plugins c r es ds)\<rparr>"
    unfolding augment_enabled_plugins_def Let_def by simp
qed

lemma framework_only_Inr [simp]: "framework_only e r = Inr x \<longleftrightarrow> r = Inr x"
  by (auto simp: framework_only_def split: sum.splits)

lemma framework_only_error:
  "framework_only e r = Inl x \<Longrightarrow> isinstance e FrameworkError_cls \<Longrightarrow> isinstance x FrameworkError_cls"
  by (auto simp: framework_only_def split: sum.splits if_splits)

lemma engine_error_framework:
  "msg \<noteq> [] \<Longrightarrow> code \<noteq> [] \<Longrightarrow> isinstance (engine_error msg code metadata) FrameworkError_cls"
  by (simp add: engine_error_def RuntimeAssemblyError_init_def FrameworkError_init_def isinstance_def is_subclass.simps)

lemma register_discovered_Inr:
  assumes "register_discovered reg names ps = Inr (reg', effective)" and "registry_inv reg"
  shows "registry_inv reg' \<and> list_plugins reg' = list_plugins reg @ effective
    \<and> distinct (map pl_name effective) \<and> pl_name ` set effective \<inter> names = {} \<and> set effective \<subseteq> set ps
    \<and> pl_name ` set ps \<subseteq> names \<union> pl_name ` set effective"
  using assms
proof (induction ps arbitrary: reg names effective)
  case (Cons p ps)
  show ?case
  proof (cases "pl_name p \<in> names")
    case True
    then have "register_discovered reg names ps = Inr (reg', effective)" using Cons.prems(1) by simp
    from Cons.IH [OF this Cons.prems(2)] show ?thesis using True by auto
  next
    case False
    obtain r x where r: "register reg p = (r, x)" by force
    then obtain u rest where x: "x = Inr u" and rest: "register_discovered r (insert (pl_name p) names) ps = Inr (reg', rest)"
      "effective = p # rest"
      using Cons.prems(1) False by (auto simp: r_bind_eq_Inr split: sum.splits)
    note reg_done = register_done(2) [OF r [unfolded x]]
    show ?thesis
      using Cons.IH [OF rest(1) register_inv [OF Cons.prems(2) r]] False rest(2) reg_done by auto
  qed
qed simp

lemma engine_registry_Inr:
  assumes "engine_registry env ps discover = Inr (reg, effective)"
  shows "registry_inv reg" and "list_plugins reg = runtime_defaults_plugin env # ps @ effective"
    and "\<not> discover \<Longrightarrow> effective = []"
    and "discover \<Longrightarrow> \<exists>ds. discover_plugins DEFAULT_PLUGIN_ENTRY_POINT_GROUP (ev_entry_points env) = Inr ds
        \<and> set effective \<subseteq> set ds \<and> pl_name ` set ds \<subseteq> pl_name ` set (list_plugins reg)"
proof -
  obtain r ds where r: "new_registry empty_registry (runtime_defaults_plugin env # ps) = Inr r"
    and ds: "(if discover then discover_plugins DEFAULT_PLUGIN_ENTRY_POINT_GROUP (ev_entry_points env) else Inr []) = Inr ds"
    and d: "register_discovered r (pl_name ` set (list_plugins r)) ds = Inr (reg, effective)"
    using assms by (auto simp: engine_registry_def create_builtin_workflow_registry_def BUILTIN_WORKFLOW_PLUGINS_def r_bind_eq_Inr
        simp del: new_registry.simps(2))
  note i = register_discovered_Inr [OF d new_registry_inv [OF r empty_registry_inv]]
  show "registry_inv reg" using i by blast
  have "list_plugins r = runtime_defaults_plugin env # ps"
    using new_registry_plugins [OF r] by (simp add: list_plugins_def empty_registry_def)
  then show l: "list_plugins reg = runtime_defaults_plugin env # ps @ effective" using i by simp
  show "effective = []" if "\<not> discover" using that ds i by simp
  show "\<exists>ds. discover_plugins DEFAULT_PLUGIN_ENTRY_POINT_GROUP (ev_entry_points env) = Inr ds
      \<and> set effective \<subseteq> set ds \<and> pl_name ` set ds \<subseteq> pl_name ` set (list_plugins reg)" if "discover"
    using that ds i by auto
qed

lemma create_engine_Inr:
  assumes "create_engine env v ps discover = Inr en"
  obtains effective c where "engine_registry env ps discover = Inr (en_registry en, effective)"
    and "load_normalized_package_config_from_mapping v = Inr c"
    and "validate_package_config (en_registry en) (augment_enabled_plugins c INTERNAL_RUNTIME_PLUGIN_NAME
        (map pl_name ps) (map pl_name effective)) = Inr (en_config en)"
    and "assemble_runtime_dependencies (ev_constructors env) (env_resolve (ev_environ env)) (en_config en)
        = Inr (en_dependencies en)"
proof -
  have n: "pl_name (runtime_defaults_plugin env) = INTERNAL_RUNTIME_PLUGIN_NAME"
    by (simp add: runtime_defaults_plugin_def Let_def)
  show ?thesis
    using assms that by (auto simp: create_engine_def n r_bind_eq_Inr)
qed

lemma eff_plugins_registered:
  assumes inv: "registry_inv reg" and eff: "build_effective_plugin_set reg enabled = Inr eff"
    and all: "pl_name ` set (list_plugins reg) \<subseteq> set enabled"
  shows "set (eff_plugins eff) = set (list_plugins reg)" and "map pl_name (eff_plugins eff) = enabled"
proof -
  note b = build_effective_Inr [OF eff]
  show names: "map pl_name (eff_plugins eff) = enabled" using b(4) [OF inv] .
  have "p \<in> set (eff_plugins eff)" if p: "p \<in> set (list_plugins reg)" for p
  proof -
    obtain q where q: "q \<in> set (eff_plugins eff)" "pl_name q = pl_name p"
      using names all p by (metis image_iff set_map subsetD imageI)
    then show ?thesis using b(3) [OF q(1)] get_plugin_iff [OF inv] p by (metis Inr_inject)
  qed
  moreover have "p \<in> set (list_plugins reg)" if "p \<in> set (eff_plugins eff)" for p
    using b(3) [OF that] get_plugin_iff [OF inv] by blast
  ultimately show "set (eff_plugins eff) = set (list_plugins reg)" by blast
qed

lemma created_engine:
  assumes "create_engine env v ps discover = Inr en"
  shows "registry_inv (en_registry en)"
    and "\<exists>c new. load_normalized_package_config_from_mapping v = Inr c
      \<and> vc_normalized (en_config en) = c\<lparr>nc_plugins := nc_plugins c @ new\<rparr>
      \<and> map pl_name (eff_plugins (vc_effective (en_config en))) = nc_plugins c @ new
      \<and> distinct (nc_plugins c @ new)
      \<and> set (eff_plugins (vc_effective (en_config en))) = set (list_plugins (en_registry en))
      \<and> map fst (rd_tools (en_dependencies en)) = tools_allowlist (nc_tools c)"
    and "p \<in> insert (runtime_defaults_plugin env) (set ps) \<Longrightarrow> get_plugin (en_registry en) (pl_name p) = Inr p"
proof -
  obtain effective c where r: "engine_registry env ps discover = Inr (en_registry en, effective)"
    and c: "load_normalized_package_config_from_mapping v = Inr c"
    and val: "validate_package_config (en_registry en) (augment_enabled_plugins c INTERNAL_RUNTIME_PLUGIN_NAME
        (map pl_name ps) (map pl_name effective)) = Inr (en_config en)"
    and deps: "assemble_runtime_dependencies (ev_constructors env) (env_resolve (ev_environ env)) (en_config en)
        = Inr (en_dependencies en)"
    using create_engine_Inr [OF assms] .
  note i = engine_registry_Inr [OF r]
  show "registry_inv (en_registry en)" by (rule i(1))
  show "get_plugin (en_registry en) (pl_name p) = Inr p" if "p \<in> insert (runtime_defaults_plugin env) (set ps)"
    using that i(2) get_plugin_iff [OF i(1)] by auto
  let ?a = "augment_enabled_plugins c INTERNAL_RUNTIME_PLUGIN_NAME (map pl_name ps) (map pl_name effective)"
  have ok: "config_ok c" using load_normalized_ok [OF c] by blast
  then have d: "distinct (nc_plugins c)" "distinct (tools_allowlist (nc_tools c))"
    by (simp_all add: config_ok_def name_list_def)
  note a = augmented_plugins [OF d(1), of INTERNAL_RUNTIME_PLUGIN_NAME "map pl_name ps" "map pl_name effective"]
  obtain new where new: "nc_plugins ?a = nc_plugins c @ new" using a(1) by blast
  have n: "vc_normalized (en_config en) = c\<lparr>nc_plugins := nc_plugins c @ new\<rparr>"
    using validate_package_config_Inr(1) [OF val] a(4) new by simp
  have "pl_name ` set (list_plugins (en_registry en)) \<subseteq> set (nc_plugins ?a)"
    unfolding i(2) a(3) by (auto simp: runtime_defaults_plugin_def Let_def)
  then have "set (eff_plugins (vc_effective (en_config en))) = set (list_plugins (en_registry en))"
    "map pl_name (eff_plugins (vc_effective (en_config en))) = nc_plugins ?a"
    using eff_plugins_registered [OF i(1) validate_package_config_Inr(2) [OF val]] by blast+
  moreover have "map fst (rd_tools (en_dependencies en)) = tools_allowlist (nc_tools c)"
    using assembled_tool_names [OF deps] n d(2) by simp
  ultimately show "\<exists>c new. load_normalized_package_config_from_mapping v = Inr c
      \<and> vc_normalized (en_config en) = c\<lparr>nc_plugins := nc_plugins c @ new\<rparr>
      \<and> map pl_name (eff_plugins (vc_effective (en_config en))) = nc_plugins c @ new
      \<and> distinct (nc_plugins c @ new)
      \<and> set (eff_plugins (vc_effective (en_config en))) = set (list_plugins (en_registry en))
      \<and> map fst (rd_tools (en_dependencies en)) = tools_allowlist (nc_tools c)"
    using c n new a(2) by auto
qed

end
