(* ===== verification/Engine_Owner.thy ===== *)
theory Engine_Owner
  imports Engine Run_Lifecycle
begin

text \<open>
  apps/automation/services/runtime.py: the configuration of a deployment read from its settings, and
  \<open>DeploymentEngineOwner\<close>, which creates the engine of the deployment when it is first needed and
  replaces it when the deployment is reconfigured, while other threads prepare workflows.

  First the operations as one thread runs them. Then threads: a critical section under \<open>_lock\<close> is one
  step, \<open>_reconfigure_lock\<close> is held from a step to a later one, and the environment may differ from
  step to step. The trace of the events of a system is where the properties look.
\<close>

section \<open>The settings of a deployment\<close>

text \<open>
  The two settings, \<open>Path.resolve\<close>, and the text of a file (none when it cannot be read; it is UTF-8).
\<close>

record deployment_settings =
  ds_config_file :: "pyval option"
  ds_config :: "pyval option"
  ds_resolve :: "string \<Rightarrow> string"
  ds_read_text :: "string \<Rightarrow> string option"

definition runtime_config_error :: "string \<Rightarrow> string \<Rightarrow> pydict \<Rightarrow> exn" where
  "runtime_config_error msg code metadata = ConfigError msg code (Some ''automation_runtime'') None metadata"

definition load_deployment_package_config_from_settings ::
  "(string \<Rightarrow> pyfloat) \<Rightarrow> deployment_settings \<Rightarrow> pyitems res" where
  "load_deployment_package_config_from_settings float_of settings =
     (let config_file = (case ds_config_file settings of
            Some v \<Rightarrow> if truthy v then strip (val_text v) else []
          | None \<Rightarrow> []);
          path = ds_resolve settings config_file
      in r_bind
        (if config_file \<noteq> []
         then (case Option.bind (ds_read_text settings path) (json_loads float_of) of
             None \<Rightarrow> Inl (runtime_config_error ''Configuration file could not be loaded.'' ''CONFIG_FILE_INVALID''
               [(''path'', PStr path)])
           | Some v \<Rightarrow> Inr v)
         else Inr (case ds_config settings of None \<Rightarrow> PNone | Some v \<Rightarrow> v)) (\<lambda>config.
        if config = PNone then Inr [(AStr ''version'', PInt 1)]
        else r_bind
          (case config of
             Atom (AStr s) \<Rightarrow> (case json_loads float_of s of
                 None \<Rightarrow> Inl (runtime_config_error ''Configuration is invalid: COBALT_WREN must be valid JSON.''
                   ''CONFIG_INVALID_MAPPING'' [])
               | Some v \<Rightarrow> Inr v)
           | _ \<Rightarrow> Inr config) (\<lambda>config.
          (case config of
             PDict d \<Rightarrow> Inr d
           | _ \<Rightarrow> Inl (runtime_config_error ''Configuration is invalid: COBALT_WREN must be a mapping.''
               ''CONFIG_INVALID_MAPPING'' [])))))"

section \<open>The signature of a configuration\<close>

fun freeze_signature_value :: "(atom \<Rightarrow> string \<times> string \<times> string) \<Rightarrow> pyval \<Rightarrow> pyval"
and signature_list :: "(atom \<Rightarrow> string \<times> string \<times> string) \<Rightarrow> pyval list \<Rightarrow> pyval list"
and signature_items :: "(atom \<Rightarrow> string \<times> string \<times> string) \<Rightarrow> pyitems \<Rightarrow> (string \<times> pyval) list"
where
  "freeze_signature_value identity (PDict d) =
     PTuple (map (\<lambda>(k, v). PTuple [PStr k, v]) (sort_key fst (signature_items identity d)))"
| "freeze_signature_value identity (PList xs) = PTuple (signature_list identity xs)"
| "freeze_signature_value identity (PTuple xs) = PTuple (signature_list identity xs)"
| "freeze_signature_value identity (Atom a) =
     (case a of
        ABytes b \<Rightarrow> PTuple [PStr ''builtins'', PStr ''bytes'', PStr (bytes_repr b)]
      | AObj _ _ \<Rightarrow> (case identity a of (m, q, r) \<Rightarrow> PTuple [PStr m, PStr q, PStr r])
      | _ \<Rightarrow> Atom a)"
| "signature_list identity [] = []"
| "signature_list identity (x # xs) = freeze_signature_value identity x # signature_list identity xs"
| "signature_items identity [] = []"
| "signature_items identity ((k, v) # kvs) = (atom_text k, freeze_signature_value identity v) # signature_items identity kvs"

definition installed_plugin_entry_point_signature :: "('o, 'g) engine_env \<Rightarrow> string list list" where
  "installed_plugin_entry_point_signature env =
     sort_key (\<lambda>x. x) (map (\<lambda>ep. case ev_distribution env ep of
         None \<Rightarrow> [ep_name ep, ep_value ep, [], []]
       | Some (name, version) \<Rightarrow> [ep_name ep, ep_value ep, name, version]) (ev_entry_points env))"

definition plugin_identity :: "('o, 'g) plugin \<Rightarrow> pyval" where
  "plugin_identity p =
     PTuple [PStr (pl_name p), PStr (pl_version p), PTuple (map PStr (pl_plugin_types p)),
       PTuple (map (\<lambda>(k, vs). PTuple [PStr k, PTuple (map PStr vs)]) (sort_key fst (pl_provides p)))]"

definition configuration_signature ::
  "('o, 'g) engine_env \<Rightarrow> pyitems \<Rightarrow> ('o, 'g) plugin list \<Rightarrow> bool \<Rightarrow> string" where
  "configuration_signature env raw_config plugins discover =
     sha256_hex (utf8 (val_repr (PTuple
       [freeze_signature_value (ev_identity env) (PDict raw_config), PTuple (map plugin_identity plugins), PBool discover,
        PTuple (if discover then map (\<lambda>xs. PTuple (map PStr xs)) (installed_plugin_entry_point_signature env) else [])])))"

section \<open>The owner of the engine\<close>

record ('o, 'g) engine_owner =
  ow_raw_config :: pyitems
  ow_plugins :: "('o, 'g) plugin list"
  ow_discover :: bool
  ow_engine :: "('o, 'g) engine option"
  ow_generation :: int
  ow_signature :: string

definition new_owner :: "pyitems \<Rightarrow> ('o, 'g) plugin list \<Rightarrow> bool \<Rightarrow> ('o, 'g) engine_owner" where
  "new_owner raw_config plugins discover =
     \<lparr>ow_raw_config = raw_config, ow_plugins = plugins, ow_discover = discover, ow_engine = None,
      ow_generation = 0, ow_signature = []\<rparr>"

text \<open>\<open>EngineGeneration\<close>.\<close>

type_synonym engine_generation = "int \<times> string"

definition owner_generation :: "('o, 'g) engine_env \<Rightarrow> ('o, 'g) engine_owner \<Rightarrow> engine_generation" where
  "owner_generation env ow =
     (ow_generation ow, if ow_signature ow \<noteq> [] then ow_signature ow
        else configuration_signature env (ow_raw_config ow) (ow_plugins ow) (ow_discover ow))"

definition get_engine ::
  "('o, 'g) engine_env \<Rightarrow> ('o, 'g) engine_owner \<Rightarrow> ('o, 'g) engine_owner \<times> ('o, 'g) engine res" where
  "get_engine env ow =
     (case ow_engine ow of
        Some engine \<Rightarrow> (ow, Inr engine)
      | None \<Rightarrow>
          (let signature = configuration_signature env (ow_raw_config ow) (ow_plugins ow) (ow_discover ow)
           in case create_engine env (PDict (ow_raw_config ow)) (ow_plugins ow) (ow_discover ow) of
                Inl e \<Rightarrow> (ow, Inl e)
              | Inr engine \<Rightarrow>
                  (ow\<lparr>ow_engine := Some engine, ow_generation := 1, ow_signature := signature\<rparr>, Inr engine)))"

definition prepare_with ::
  "('o, 'g) engine option \<Rightarrow> engine_generation \<Rightarrow> workflow_reference \<Rightarrow> 'g engine_prepared_workflow res" where
  "prepare_with engine generation reference =
     (case engine of
        None \<Rightarrow> Inl (PlainExn RuntimeError_cls ''deployment engine was not initialized'')
      | Some engine \<Rightarrow>
          r_bind (engine_prepare_workflow engine (ref_kind reference) (ref_config reference)) (\<lambda>prepared.
          Inr (prepared\<lparr>ew_engine_generation := fst generation, ew_engine_signature := snd generation\<rparr>)))"

definition owner_prepare ::
  "('o, 'g) engine_env \<Rightarrow> workflow_reference \<Rightarrow> ('o, 'g) engine_owner
     \<Rightarrow> ('o, 'g) engine_owner \<times> 'g engine_prepared_workflow res" where
  "owner_prepare env reference ow =
     (case get_engine env ow of
        (ow, Inl e) \<Rightarrow> (ow, Inl e)
      | (ow, Inr _) \<Rightarrow> (ow, prepare_with (ow_engine ow) (ow_generation ow, ow_signature ow) reference))"

record ('o, 'g) reconfiguration =
  rc_raw_config :: pyitems
  rc_plugins :: "('o, 'g) plugin list"
  rc_discover :: bool
  rc_force :: bool

definition reconfiguration_signature :: "('o, 'g) engine_env \<Rightarrow> ('o, 'g) reconfiguration \<Rightarrow> string" where
  "reconfiguration_signature env a = configuration_signature env (rc_raw_config a) (rc_plugins a) (rc_discover a)"

definition unchanged :: "('o, 'g) reconfiguration \<Rightarrow> string \<Rightarrow> ('o, 'g) engine_owner \<Rightarrow> bool" where
  "unchanged a candidate_signature ow =
     (\<not> rc_force a \<and> ow_engine ow \<noteq> None \<and> candidate_signature = ow_signature ow)"

definition create_candidate :: "('o, 'g) engine_env \<Rightarrow> ('o, 'g) reconfiguration \<Rightarrow> ('o, 'g) engine res" where
  "create_candidate env a = create_engine env (PDict (rc_raw_config a)) (rc_plugins a) (rc_discover a)"

definition commit_candidate ::
  "('o, 'g) reconfiguration \<Rightarrow> string \<Rightarrow> ('o, 'g) engine \<Rightarrow> ('o, 'g) engine_owner \<Rightarrow> ('o, 'g) engine_owner" where
  "commit_candidate a candidate_signature candidate ow =
     ow\<lparr>ow_raw_config := rc_raw_config a, ow_plugins := rc_plugins a, ow_discover := rc_discover a,
        ow_engine := Some candidate, ow_generation := ow_generation ow + 1, ow_signature := candidate_signature\<rparr>"

definition reconfigure ::
  "('o, 'g) engine_env \<Rightarrow> ('o, 'g) reconfiguration \<Rightarrow> ('o, 'g) engine_owner
     \<Rightarrow> ('o, 'g) engine_owner \<times> engine_generation res" where
  "reconfigure env a ow =
     (let candidate_signature = reconfiguration_signature env a
      in if unchanged a candidate_signature ow then (ow, Inr (ow_generation ow, ow_signature ow))
         else (case create_candidate env a of
             Inl e \<Rightarrow> (ow, Inl e)
           | Inr candidate \<Rightarrow>
               (let ow = commit_candidate a candidate_signature candidate ow
                in (ow, Inr (ow_generation ow, ow_signature ow)))))"

definition owner_read_artifact ::
  "('o, 'g) engine_env \<Rightarrow> ('o \<Rightarrow> (string \<Rightarrow> 'w \<Rightarrow> 'w \<times> 'r store_read res) option) \<Rightarrow> string
     \<Rightarrow> ('o, 'g) engine_owner \<Rightarrow> 'w \<Rightarrow> ('o, 'g) engine_owner \<times> 'w \<times> 'r option res" where
  "owner_read_artifact env store_get storage_key ow w =
     (case get_engine env ow of
        (ow, Inl e) \<Rightarrow> (ow, w, Inl e)
      | (ow, Inr engine) \<Rightarrow> (ow, engine_read_artifact store_get engine storage_key w))"

text \<open>The workflow an owner prepares, as the control plane dispatches it.\<close>

definition control_plane_workflow :: "cp_state workflow_object engine_prepared_workflow \<Rightarrow> prepared_workflow" where
  "control_plane_workflow w =
     \<lparr>pw_kind = ew_kind w, pw_object = ew_executable w, pw_lifecycle_owner = ew_lifecycle_events_owner w,
      pw_timeout = map_of (ew_extra w) (AStr ''timeout_seconds''),
      pw_generation = ew_engine_generation w, pw_signature = ew_engine_signature w\<rparr>"

definition owner_action_env ::
  "('o, cp_state workflow_object) engine_env \<Rightarrow> ('o, cp_state workflow_object) engine_owner \<Rightarrow> action_env \<Rightarrow> action_env" where
  "owner_action_env env ow ae = ae\<lparr>ae_prepare := (\<lambda>reference.
     case snd (owner_prepare env reference ow) of Inl e \<Rightarrow> Inl e | Inr w \<Rightarrow> Inr (control_plane_workflow w))\<rparr>"

end
