(* ===== verification/Engine_Threads.thy ===== *)
theory Engine_Threads
  imports Engine_Owner
begin

text \<open>
  Threads that share the engine owner of services/runtime.py. A thread calls \<open>prepare\<close> or
  \<open>reconfigure\<close>, and each of its steps is a critical section of the code or a computation outside of any.
  The reads in \<open>prepare\<close> are one section after the one of \<open>get_engine\<close>; \<open>reconfigure\<close> takes its lock,
  compares the signatures, creates the candidate without the owner's lock, and commits it.
\<close>

section \<open>Steps\<close>

datatype ('o, 'g) owner_call =
    Idle
  | Prepare_Call workflow_reference
  | Prepare_Read workflow_reference
  | Prepare_Build workflow_reference "('o, 'g) engine option" engine_generation
  | Reconfigure_Call "('o, 'g) reconfiguration"
  | Reconfigure_Check "('o, 'g) reconfiguration" string
  | Reconfigure_Build "('o, 'g) reconfiguration" string
  | Reconfigure_Commit "('o, 'g) reconfiguration" string "('o, 'g) engine"

record ('o, 'g) owner_system =
  sy_owner :: "('o, 'g) engine_owner"
  sy_holder :: "nat option"
  sy_threads :: "nat \<Rightarrow> ('o, 'g) owner_call"

text \<open>What a step shows: an engine is published, or a call ends.\<close>

datatype ('o, 'g) owner_event =
    Published int string pyitems "('o, 'g) plugin list" bool "('o, 'g) engine"
  | Prepared workflow_reference "'g engine_prepared_workflow res"
  | Reconfigured engine_generation
  | Call_Failed exn

definition publication :: "('o, 'g) engine_owner \<Rightarrow> ('o, 'g) owner_event list" where
  "publication ow = (case ow_engine ow of None \<Rightarrow> []
     | Some engine \<Rightarrow> [Published (ow_generation ow) (ow_signature ow) (ow_raw_config ow) (ow_plugins ow) (ow_discover ow) engine])"

definition goes :: "nat \<Rightarrow> ('o, 'g) owner_call \<Rightarrow> ('o, 'g) owner_system \<Rightarrow> ('o, 'g) owner_system" where
  "goes t c sys = sys\<lparr>sy_threads := (sy_threads sys)(t := c)\<rparr>"

definition holds :: "nat option \<Rightarrow> ('o, 'g) owner_system \<Rightarrow> ('o, 'g) owner_system" where
  "holds h sys = sys\<lparr>sy_holder := h\<rparr>"

definition owned :: "('o, 'g) engine_owner \<Rightarrow> ('o, 'g) owner_system \<Rightarrow> ('o, 'g) owner_system" where
  "owned ow sys = sys\<lparr>sy_owner := ow\<rparr>"

definition thread_step ::
  "('o, 'g) engine_env \<Rightarrow> nat \<Rightarrow> ('o, 'g) owner_system \<Rightarrow> (('o, 'g) owner_system \<times> ('o, 'g) owner_event list) option" where
  "thread_step env t sys =
     (let ow = sy_owner sys
      in case sy_threads sys t of
        Idle \<Rightarrow> None
      | Prepare_Call reference \<Rightarrow>
          (case get_engine env ow of
             (_, Inl e) \<Rightarrow> Some (goes t Idle sys, [Call_Failed e])
           | (ow', Inr _) \<Rightarrow> Some (goes t (Prepare_Read reference) (owned ow' sys),
               if ow_engine ow = None then publication ow' else []))
      | Prepare_Read reference \<Rightarrow>
          Some (goes t (Prepare_Build reference (ow_engine ow) (ow_generation ow, ow_signature ow)) sys, [])
      | Prepare_Build reference engine generation \<Rightarrow>
          Some (goes t Idle sys, [Prepared reference (prepare_with engine generation reference)])
      | Reconfigure_Call a \<Rightarrow>
          (if sy_holder sys \<noteq> None then None
           else Some (goes t (Reconfigure_Check a (reconfiguration_signature env a)) (holds (Some t) sys), []))
      | Reconfigure_Check a signature \<Rightarrow>
          Some (if unchanged a signature ow
            then (goes t Idle (holds None sys), [Reconfigured (ow_generation ow, ow_signature ow)])
            else (goes t (Reconfigure_Build a signature) sys, []))
      | Reconfigure_Build a signature \<Rightarrow>
          Some (case create_candidate env a of
              Inl e \<Rightarrow> (goes t Idle (holds None sys), [Call_Failed e])
            | Inr candidate \<Rightarrow> (goes t (Reconfigure_Commit a signature candidate) sys, []))
      | Reconfigure_Commit a signature candidate \<Rightarrow>
          (let ow' = commit_candidate a signature candidate ow
           in Some (goes t Idle (holds None (owned ow' sys)),
                publication ow' @ [Reconfigured (ow_generation ow', ow_signature ow')])))"

text \<open>
  A trace from the system of a new owner: threads call, and make steps in any order, each in an
  environment of its own.
\<close>

definition starts_call :: "('o, 'g) owner_call \<Rightarrow> bool" where
  "starts_call c = (case c of Prepare_Call _ \<Rightarrow> True | Reconfigure_Call _ \<Rightarrow> True | _ \<Rightarrow> False)"

definition new_system :: "('o, 'g) engine_owner \<Rightarrow> ('o, 'g) owner_system" where
  "new_system ow = \<lparr>sy_owner = ow, sy_holder = None, sy_threads = (\<lambda>_. Idle)\<rparr>"

inductive owner_trace :: "('o, 'g) engine_owner \<Rightarrow> ('o, 'g) owner_event list \<Rightarrow> ('o, 'g) owner_system \<Rightarrow> bool"
  for start where
  trace_new: "owner_trace start [] (new_system start)"
| trace_call: "owner_trace start es sys \<Longrightarrow> sy_threads sys t = Idle \<Longrightarrow> starts_call c
    \<Longrightarrow> owner_trace start es (goes t c sys)"
| trace_step: "owner_trace start es sys \<Longrightarrow> thread_step env t sys = Some (sys', new)
    \<Longrightarrow> owner_trace start (es @ new) sys'"

section \<open>A thread alone\<close>

fun thread_alone ::
  "('o, 'g) engine_env \<Rightarrow> nat \<Rightarrow> nat \<Rightarrow> ('o, 'g) owner_system \<Rightarrow> ('o, 'g) owner_system \<times> ('o, 'g) owner_event list" where
  "thread_alone env 0 t sys = (sys, [])"
| "thread_alone env (Suc n) t sys =
     (case thread_step env t sys of
        None \<Rightarrow> (sys, [])
      | Some (sys', es) \<Rightarrow> (case thread_alone env n t sys' of (sys'', es') \<Rightarrow> (sys'', es @ es')))"

lemmas call_simps = goes_def holds_def owned_def fun_upd_def

lemma prepare_alone:
  assumes "sy_threads sys t = Prepare_Call reference"
  shows "sy_owner (fst (thread_alone env 3 t sys)) = fst (owner_prepare env reference (sy_owner sys))"
    and "last (snd (thread_alone env 3 t sys))
      = (case get_engine env (sy_owner sys) of (_, Inl e) \<Rightarrow> Call_Failed e
         | _ \<Rightarrow> Prepared reference (snd (owner_prepare env reference (sy_owner sys))))"
proof -
  obtain ow r where g: "get_engine env (sy_owner sys) = (ow, r)" by force
  have e: "r = Inl e \<Longrightarrow> ow = sy_owner sys" for e
    using g by (auto simp: get_engine_def Let_def split: option.splits sum.splits)
  show "sy_owner (fst (thread_alone env 3 t sys)) = fst (owner_prepare env reference (sy_owner sys))"
    using assms g e
    by (cases r) (simp_all add: numeral_3_eq_3 thread_step_def Let_def owner_prepare_def call_simps)
  show "last (snd (thread_alone env 3 t sys))
      = (case get_engine env (sy_owner sys) of (_, Inl e) \<Rightarrow> Call_Failed e
         | _ \<Rightarrow> Prepared reference (snd (owner_prepare env reference (sy_owner sys))))"
    using assms g e
    by (cases r) (simp_all add: numeral_3_eq_3 thread_step_def Let_def owner_prepare_def call_simps)
qed

lemma reconfigure_alone:
  assumes "sy_threads sys t = Reconfigure_Call a" and "sy_holder sys = None"
  shows "sy_owner (fst (thread_alone env 4 t sys)) = fst (reconfigure env a (sy_owner sys))"
    and "last (snd (thread_alone env 4 t sys))
      = (case snd (reconfigure env a (sy_owner sys)) of Inl e \<Rightarrow> Call_Failed e | Inr g \<Rightarrow> Reconfigured g)"
    and "sy_holder (fst (thread_alone env 4 t sys)) = None"
  using assms
  by (auto simp: numeral_eq_Suc thread_step_def Let_def reconfigure_def call_simps split: sum.splits)

section \<open>What is published, and what a prepared workflow names\<close>

type_synonym ('o, 'g) published_engine =
  "int \<times> string \<times> (pyitems \<times> ('o, 'g) plugin list \<times> bool) \<times> ('o, 'g) engine"

fun published :: "('o, 'g) owner_event list \<Rightarrow> ('o, 'g) published_engine list" where
  "published [] = []"
| "published (Published g s c p d en # es) = (g, s, (c, p, d), en) # published es"
| "published (_ # es) = published es"

definition names_published ::
  "('o, 'g) published_engine list \<Rightarrow> workflow_reference \<Rightarrow> 'g engine_prepared_workflow res \<Rightarrow> bool" where
  "names_published ps reference r \<longleftrightarrow>
     (\<exists>g s c en. (g, s, c, en) \<in> set ps \<and> r = prepare_with (Some en) (g, s) reference)"

fun answered :: "('o, 'g) published_engine list \<Rightarrow> ('o, 'g) owner_event list \<Rightarrow> bool" where
  "answered ps [] = True"
| "answered ps (Published g s c p d en # es) = answered (ps @ [(g, s, (c, p, d), en)]) es"
| "answered ps (Prepared reference r # es) = (names_published ps reference r \<and> answered ps es)"
| "answered ps (_ # es) = answered ps es"

lemma published_append [simp]: "published (es @ es') = published es @ published es'"
  by (induction es rule: published.induct) simp_all

lemma answered_append: "answered ps (es @ es') \<longleftrightarrow> answered ps es \<and> answered (ps @ published es) es'"
  by (induction ps es rule: answered.induct) simp_all

definition made_from :: "('o, 'g) published_engine \<Rightarrow> bool" where
  "made_from x \<longleftrightarrow> (case x of (g, s, (c, p, d), en) \<Rightarrow>
     (\<exists>env. create_engine env (PDict c) p d = Inr en) \<and> (\<exists>env. s = configuration_signature env c p d))"

definition owner_matches ::
  "('o, 'g) engine_owner \<Rightarrow> ('o, 'g) published_engine list \<Rightarrow> ('o, 'g) engine_owner \<Rightarrow> bool" where
  "owner_matches start ps ow \<longleftrightarrow>
     (if ps = [] then ow = start \<and> ow_engine ow = None
      else (case last ps of (g, s, c, en) \<Rightarrow> ow_engine ow = Some en \<and> ow_generation ow = g \<and> ow_signature ow = s
        \<and> c = (ow_raw_config ow, ow_plugins ow, ow_discover ow)))"

definition call_ok :: "('o, 'g) published_engine list \<Rightarrow> ('o, 'g) owner_call \<Rightarrow> bool" where
  "call_ok ps c \<longleftrightarrow> (case c of
       Prepare_Read _ \<Rightarrow> ps \<noteq> []
     | Prepare_Build _ engine generation \<Rightarrow> (\<exists>en d. engine = Some en \<and> (fst generation, snd generation, d, en) \<in> set ps)
     | Reconfigure_Check a s \<Rightarrow> (\<exists>env. s = reconfiguration_signature env a)
     | Reconfigure_Build a s \<Rightarrow> (\<exists>env. s = reconfiguration_signature env a)
     | Reconfigure_Commit a s en \<Rightarrow> (\<exists>env. s = reconfiguration_signature env a) \<and> (\<exists>env. create_candidate env a = Inr en)
     | _ \<Rightarrow> True)"

definition reconfiguring :: "('o, 'g) owner_call \<Rightarrow> bool" where
  "reconfiguring c \<longleftrightarrow> (case c of Reconfigure_Check _ _ \<Rightarrow> True | Reconfigure_Build _ _ \<Rightarrow> True
     | Reconfigure_Commit _ _ _ \<Rightarrow> True | _ \<Rightarrow> False)"

definition numbered :: "('o, 'g) published_engine list \<Rightarrow> bool" where
  "numbered ps \<longleftrightarrow> map fst ps = map int [1..<Suc (length ps)]"

definition system_ok :: "('o, 'g) engine_owner \<Rightarrow> ('o, 'g) owner_event list \<Rightarrow> ('o, 'g) owner_system \<Rightarrow> bool" where
  "system_ok start es sys \<longleftrightarrow>
     numbered (published es) \<and> (\<forall>x \<in> set (published es). made_from x)
     \<and> owner_matches start (published es) (sy_owner sys) \<and> answered [] es
     \<and> (\<forall>t. call_ok (published es) (sy_threads sys t))
     \<and> (\<forall>t. reconfiguring (sy_threads sys t) \<longleftrightarrow> sy_holder sys = Some t)"

lemma numbered_last:
  assumes "numbered ps" and "ps \<noteq> []"
  shows "fst (last ps) = int (length ps)"
proof -
  have "fst (last ps) = last (map int [1..<Suc (length ps)])"
    using assms by (metis last_map numbered_def)
  also have "\<dots> = int (length ps)" using assms(2) by (cases "length ps") simp_all
  finally show ?thesis .
qed

lemma numbered_snoc: "numbered (ps @ [x]) \<longleftrightarrow> numbered ps \<and> fst x = int (length ps) + 1"
  by (auto simp: numbered_def)

lemma call_ok_grows: "call_ok ps c \<Longrightarrow> call_ok (ps @ qs) c"
  by (cases c) (simp_all add: call_ok_def, blast)

lemma get_engine_cases:
  obtains (there) en where "ow_engine ow = Some en" "get_engine env ow = (ow, Inr en)"
  | (failed) e where "ow_engine ow = None" "get_engine env ow = (ow, Inl e)"
  | (created) en where "ow_engine ow = None" "create_engine env (PDict (ow_raw_config ow)) (ow_plugins ow) (ow_discover ow) = Inr en"
      "get_engine env ow = (ow\<lparr>ow_engine := Some en, ow_generation := 1,
         ow_signature := configuration_signature env (ow_raw_config ow) (ow_plugins ow) (ow_discover ow)\<rparr>, Inr en)"
proof (cases "ow_engine ow")
  case None
  then show thesis
    using failed created
    by (cases "create_engine env (PDict (ow_raw_config ow)) (ow_plugins ow) (ow_discover ow)") (simp_all add: get_engine_def Let_def)
next
  case (Some en)
  then show thesis using there by (simp add: get_engine_def)
qed

text \<open>The invariant is kept when thread \<open>t\<close> goes on to \<open>c\<close>, whatever was shown.\<close>

lemma system_ok_goes:
  assumes "system_ok start es sys" and "published new = []" and "answered (published es) new"
    and "call_ok (published es) c" and "reconfiguring c \<longleftrightarrow> h = Some t"
    and "h = sy_holder sys \<or> (h = None \<and> sy_holder sys = Some t) \<or> (h = Some t \<and> sy_holder sys = None)"
  shows "system_ok start (es @ new) (goes t c (holds h sys))"
  using assms unfolding system_ok_def by (auto simp: call_simps answered_append)

lemma system_ok_publishes:
  assumes ok: "system_ok start es sys" and "published new = [x]" and "answered (published es) new"
    and "made_from x" and "fst x = int (length (published es)) + 1" and "owner_matches start [x] ow"
    and "call_ok (published es @ [x]) c" and "reconfiguring c \<longleftrightarrow> h = Some t"
    and "h = sy_holder sys \<or> (h = None \<and> sy_holder sys = Some t)"
  shows "system_ok start (es @ new) (goes t c (holds h (owned ow sys)))"
  using assms unfolding system_ok_def
  by (auto simp: call_simps answered_append numbered_snoc call_ok_grows owner_matches_def)

lemma new_system_ok: "ow_engine start = None \<Longrightarrow> system_ok start [] (new_system start)"
  by (simp add: system_ok_def new_system_def numbered_def owner_matches_def call_ok_def reconfiguring_def)

lemma holds_same: "holds (sy_holder sys) sys = sys" "holds h (goes t c sys) = goes t c (holds h sys)"
  "goes t c (owned ow sys) = goes t c (holds (sy_holder sys) (owned ow sys))"
  by (simp_all add: call_simps)

lemma thread_step_ok:
  assumes ok: "system_ok start es sys" and start: "ow_generation start = 0"
    and step: "thread_step env t sys = Some (sys', new)"
  shows "system_ok start (es @ new) sys'"
proof -
  let ?ow = "sy_owner sys" and ?ps = "published es"
  have m: "owner_matches start ?ps ?ow" and num: "numbered ?ps" and call: "call_ok ?ps (sy_threads sys t)"
    and lock: "reconfiguring (sy_threads sys t) \<longleftrightarrow> sy_holder sys = Some t"
    using ok by (simp_all add: system_ok_def)
  have len: "ow_generation ?ow = int (length ?ps)"
    using m numbered_last [OF num] start by (auto simp: owner_matches_def split: if_splits prod.splits)
  have here: "\<exists>en d. ow_engine ?ow = Some en \<and> (ow_generation ?ow, ow_signature ?ow, d, en) \<in> set ?ps" if "?ps \<noteq> []"
    using m that by (auto simp: owner_matches_def split: prod.splits) (metis last_in_set)
  have go: "system_ok start (es @ new) (goes t c (holds h sys))"
    if "published new = []" "answered ?ps new" "call_ok ?ps c" "reconfiguring c \<longleftrightarrow> h = Some t"
      "h = sy_holder sys \<or> (h = None \<and> sy_holder sys = Some t) \<or> (h = Some t \<and> sy_holder sys = None)" for new c h
    by (rule system_ok_goes [OF ok that])
  note stay = go [where h = "sy_holder sys", unfolded holds_same]
  show ?thesis
  proof (cases "sy_threads sys t")
    case Idle
    then show ?thesis using step by (simp add: thread_step_def Let_def)
  next
    case (Prepare_Call reference)
    then have free: "sy_holder sys \<noteq> Some t" using lock by (simp add: reconfiguring_def)
    show ?thesis
    proof (cases rule: get_engine_cases [of ?ow env])
      case (there en)
      then have "?ps \<noteq> []" using m by (auto simp: owner_matches_def)
      then show ?thesis using step Prepare_Call there stay [of "[]" "Prepare_Read reference"] free
        by (simp add: thread_step_def Let_def owned_def call_ok_def reconfiguring_def)
    next
      case (failed e)
      then show ?thesis using step Prepare_Call stay [of "[Call_Failed e]" Idle] free
        by (auto simp: thread_step_def Let_def call_ok_def reconfiguring_def)
    next
      case (created en)
      let ?new = "?ow\<lparr>ow_engine := Some en, ow_generation := 1,
         ow_signature := configuration_signature env (ow_raw_config ?ow) (ow_plugins ?ow) (ow_discover ?ow)\<rparr>"
      have "?ps = []" using m created(1) by (auto simp: owner_matches_def split: if_splits prod.splits)
      moreover have "sys' = goes t (Prepare_Read reference) (holds (sy_holder sys) (owned ?new sys))"
        "new = publication ?new"
        using step Prepare_Call created by (simp_all add: thread_step_def Let_def holds_same(3))
      ultimately show ?thesis
        using free created(2)
        by (auto intro!: system_ok_publishes [OF ok, where x = "(1, ow_signature ?new, (ow_raw_config ?ow, ow_plugins ?ow, ow_discover ?ow), en)"]
            simp: publication_def made_from_def owner_matches_def call_ok_def reconfiguring_def)
    qed
  next
    case (Prepare_Read reference)
    then have "?ps \<noteq> []" "sy_holder sys \<noteq> Some t" using call lock by (simp_all add: call_ok_def reconfiguring_def)
    then show ?thesis
      using step Prepare_Read here stay [of "[]" "Prepare_Build reference (ow_engine ?ow) (ow_generation ?ow, ow_signature ?ow)"]
      by (auto simp: thread_step_def Let_def call_ok_def reconfiguring_def)
  next
    case (Prepare_Build reference engine generation)
    then obtain en d where en: "engine = Some en" "(fst generation, snd generation, d, en) \<in> set ?ps"
      using call by (auto simp: call_ok_def)
    then have "names_published ?ps reference (prepare_with engine generation reference)"
      unfolding names_published_def by (metis prod.collapse)
    moreover have "sy_holder sys \<noteq> Some t" using lock Prepare_Build by (auto simp: reconfiguring_def)
    ultimately show ?thesis
      using step Prepare_Build stay [of "[Prepared reference (prepare_with engine generation reference)]" Idle]
      by (auto simp: thread_step_def Let_def call_ok_def reconfiguring_def)
  next
    case (Reconfigure_Call a)
    then show ?thesis
      using step go [of "[]" "Reconfigure_Check a (reconfiguration_signature env a)" "Some t"]
      by (auto simp: thread_step_def Let_def call_ok_def reconfiguring_def split: if_splits)
  next
    case (Reconfigure_Check a s)
    then have held: "sy_holder sys = Some t" using lock by (simp add: reconfiguring_def)
    show ?thesis
      using step Reconfigure_Check held call go [of "[Reconfigured (ow_generation ?ow, ow_signature ?ow)]" Idle None]
        stay [of "[]" "Reconfigure_Build a s"]
      by (auto simp: thread_step_def Let_def call_ok_def reconfiguring_def split: if_splits)
  next
    case (Reconfigure_Build a s)
    then have held: "sy_holder sys = Some t" using lock by (simp add: reconfiguring_def)
    show ?thesis
    proof (cases "create_candidate env a")
      case (Inl e)
      then show ?thesis using step Reconfigure_Build held go [of "[Call_Failed e]" Idle None]
        by (auto simp: thread_step_def Let_def call_ok_def reconfiguring_def)
    next
      case (Inr en)
      then have "call_ok ?ps (Reconfigure_Commit a s en)" using call Reconfigure_Build by (auto simp: call_ok_def)
      then show ?thesis using step Reconfigure_Build held Inr stay [of "[]" "Reconfigure_Commit a s en"]
        by (simp add: thread_step_def Let_def reconfiguring_def)
    qed
  next
    case (Reconfigure_Commit a s en)
    then have held: "sy_holder sys = Some t" using lock by (simp add: reconfiguring_def)
    let ?new = "commit_candidate a s en ?ow"
    have "made_from (ow_generation ?new, s, (rc_raw_config a, rc_plugins a, rc_discover a), en)"
      using call Reconfigure_Commit by (auto simp: call_ok_def made_from_def reconfiguration_signature_def create_candidate_def)
    moreover have "sys' = goes t Idle (holds None (owned ?new sys))"
      "new = publication ?new @ [Reconfigured (ow_generation ?new, ow_signature ?new)]"
      using step Reconfigure_Commit by (simp_all add: thread_step_def Let_def)
    ultimately show ?thesis
      using held len
      by (auto intro!: system_ok_publishes [OF ok, where x = "(ow_generation ?new, s, (rc_raw_config a, rc_plugins a, rc_discover a), en)"]
          simp: publication_def owner_matches_def call_ok_def reconfiguring_def commit_candidate_def)
  qed
qed

lemma trace_ok: "owner_trace start es sys \<Longrightarrow> ow_engine start = None \<Longrightarrow> ow_generation start = 0 \<Longrightarrow> system_ok start es sys"
proof (induction rule: owner_trace.induct)
  case trace_new
  then show ?case by (intro new_system_ok)
next
  case (trace_call es sys t c)
  then have "sy_holder sys \<noteq> Some t" by (auto simp: system_ok_def reconfiguring_def split: owner_call.splits)
  then show ?case
    using trace_call system_ok_goes [of start es sys "[]" c "sy_holder sys" t]
    by (simp add: holds_same starts_call_def call_ok_def reconfiguring_def split: owner_call.splits)
next
  case (trace_step es sys env t sys' new)
  then show ?case using thread_step_ok by blast
qed

text \<open>A call that cannot go on waits for the thread that holds the lock, and that one goes on.\<close>

lemma some_thread_steps:
  assumes "system_ok start es sys" and "sy_threads sys t \<noteq> Idle"
  shows "\<exists>u. sy_threads sys u \<noteq> Idle \<and> thread_step env u sys \<noteq> None"
proof (cases "thread_step env t sys")
  case None
  then obtain u where "sy_holder sys = Some u"
    using assms(2) by (auto simp: thread_step_def Let_def split: owner_call.splits prod.splits sum.splits if_splits)
  then have "reconfiguring (sy_threads sys u)" using assms(1) by (simp add: system_ok_def)
  then have "sy_threads sys u \<noteq> Idle \<and> thread_step env u sys \<noteq> None"
    by (auto simp: reconfiguring_def thread_step_def Let_def split: owner_call.splits)
  then show ?thesis by blast
qed (use assms(2) in auto)

text \<open>How many steps a call has left.\<close>

definition steps_left :: "('o, 'g) owner_call \<Rightarrow> nat" where
  "steps_left c = (case c of Idle \<Rightarrow> 0 | Prepare_Call _ \<Rightarrow> 3 | Prepare_Read _ \<Rightarrow> 2 | Prepare_Build _ _ _ \<Rightarrow> 1
     | Reconfigure_Call _ \<Rightarrow> 4 | Reconfigure_Check _ _ \<Rightarrow> 3 | Reconfigure_Build _ _ \<Rightarrow> 2 | Reconfigure_Commit _ _ _ \<Rightarrow> 1)"

lemma step_comes_closer:
  assumes "thread_step env t sys = Some (sys', new)"
  shows "steps_left (sy_threads sys' t) < steps_left (sy_threads sys t)"
    and "u \<noteq> t \<Longrightarrow> sy_threads sys' u = sy_threads sys u"
  using assms
  by (auto simp: thread_step_def Let_def steps_left_def call_simps split: owner_call.splits prod.splits sum.splits if_splits)

end
