(* ===== verification/Engine_Properties.thy ===== *)
theory Engine_Properties
  imports Engine_Threads
begin

text \<open>
  The properties of the engine facade: what a created engine enables and allows, the generations its
  owner publishes to the threads that prepare workflows, and that no call waits for ever.
\<close>

definition plain_constructors :: "string store_constructors" where
  "plain_constructors = \<lparr>new_memory_artifacts = Inr ''artifacts'', new_filesystem_artifacts = (\<lambda>p. Inr p),
     new_s3_artifacts = (\<lambda>b p e r. Inr b), new_memory_checkpoints = Inr ''checkpoints'',
     new_filesystem_checkpoints = (\<lambda>p. Inr p), new_postgres_checkpoints = (\<lambda>d t. Inr t)\<rparr>"

definition plain_engine_env :: "(string, string) engine_env" where
  "plain_engine_env = \<lparr>ev_litellm_spec = True, ev_litellm_import = Imported, ev_float = (\<lambda>_. None),
     ev_llm_client = ls_model, ev_echo_tool = ''echo tool'', ev_constructors = plain_constructors, ev_environ = [],
     ev_entry_points = [], ev_distribution = (\<lambda>_. None), ev_identity = (\<lambda>_. ([], [], []))\<rparr>"

definition echo_settings :: pyitems where
  "echo_settings = [(AStr ''version'', PInt 1), (AStr ''tools'', PDict [(AStr ''allowlist'', PList [PStr ''echo''])])]"

definition plain_engine :: "(string, string) engine" where
  "plain_engine = (case create_engine plain_engine_env (PDict echo_settings) [] False of Inr en \<Rightarrow> en
     | Inl _ \<Rightarrow> undefined)"

lemma plain_engine: "create_engine plain_engine_env (PDict echo_settings) [] False = Inr plain_engine"
proof -
  have "isl (create_engine plain_engine_env (PDict echo_settings) [] False) = False" by code_simp
  then show ?thesis
    by (cases "create_engine plain_engine_env (PDict echo_settings) [] False") (simp_all add: plain_engine_def)
qed

text \<open>
  C11. Creating an engine enables every plugin it registers, after those its configuration enables and each
  once, and changes nothing else of the configuration: the tools that workflows get are still exactly the
  allowlist. A plugin that was given explicitly is not replaced by one discovered.
\<close>

theorem engine_enables_its_plugins:
  assumes "create_engine env v ps discover = Inr en"
  shows "\<exists>c new. load_normalized_package_config_from_mapping v = Inr c
      \<and> vc_normalized (en_config en) = c\<lparr>nc_plugins := nc_plugins c @ new\<rparr>
      \<and> map pl_name (eff_plugins (vc_effective (en_config en))) = nc_plugins c @ new
      \<and> distinct (nc_plugins c @ new)
      \<and> set (eff_plugins (vc_effective (en_config en))) = set (list_plugins (en_registry en))
      \<and> map fst (rd_tools (en_dependencies en)) = tools_allowlist (nc_tools c)
      \<and> (\<forall>p \<in> set ps. get_plugin (en_registry en) (pl_name p) = Inr p)"
proof -
  have "\<forall>p \<in> set ps. get_plugin (en_registry en) (pl_name p) = Inr p"
    using created_engine(3) [OF assms] by blast
  then show ?thesis using created_engine(2) [OF assms] by blast
qed

theorem engine_enables_its_plugins_witness:
  "map fst (rd_tools (en_dependencies plain_engine)) = [''echo'']"
proof -
  obtain c where c: "load_normalized_package_config_from_mapping (PDict echo_settings) = Inr c"
    "map fst (rd_tools (en_dependencies plain_engine)) = tools_allowlist (nc_tools c)"
    using engine_enables_its_plugins [OF plain_engine] by blast
  have "(case load_normalized_package_config_from_mapping (PDict echo_settings) of
      Inr c \<Rightarrow> tools_allowlist (nc_tools c) = [''echo''] | Inl _ \<Rightarrow> False)"
    by code_simp
  then show ?thesis using c by simp
qed

text \<open>
  C10. Whatever threads do with the owner of a deployment's engine: the engines published are numbered one
  by one, each was created from the configuration its signature is of, the owner holds the last of them
  (so a reconfiguration that fails, or finds nothing changed, leaves it), and every prepared workflow
  was built by one engine published before, under that engine's number and signature.
\<close>

theorem owner_publishes_generations:
  assumes "owner_trace (new_owner config plugins discover) es sys"
  shows "map fst (published es) = map int [1..<Suc (length (published es))]
    \<and> (\<forall>x \<in> set (published es). made_from x)
    \<and> owner_matches (new_owner config plugins discover) (published es) (sy_owner sys)
    \<and> (\<forall>es1 reference r es2. es = es1 @ Prepared reference r # es2 \<longrightarrow> names_published (published es1) reference r)"
proof -
  have ok: "system_ok (new_owner config plugins discover) es sys"
    by (rule trace_ok [OF assms]) (simp_all add: new_owner_def)
  then have "names_published (published es1) reference r" if "es = es1 @ Prepared reference r # es2" for es1 reference r es2
    using that by (simp add: system_ok_def answered_append)
  then show ?thesis using ok by (simp add: system_ok_def numbered_def)
qed

text \<open>One thread prepares a workflow of a kind that is not there.\<close>

definition prepare_once :: "(string, string) owner_system \<times> (string, string) owner_event list" where
  "prepare_once = thread_alone plain_engine_env 3 7
     (goes 7 (Prepare_Call \<lparr>ref_kind = ''demo'', ref_config = []\<rparr>) (new_system (new_owner echo_settings [] False)))"

lemma trace_alone:
  "owner_trace start es sys \<Longrightarrow> thread_alone env n t sys = (sys', new) \<Longrightarrow> owner_trace start (es @ new) sys'"
proof (induction n arbitrary: es sys new)
  case (Suc n)
  then show ?case
    by (auto split: option.splits prod.splits) (metis append_assoc trace_step)
qed simp

lemma prepare_once_trace: "owner_trace (new_owner echo_settings [] False) (snd prepare_once) (fst prepare_once)"
proof -
  have "owner_trace (new_owner echo_settings [] False) []
      (goes 7 (Prepare_Call \<lparr>ref_kind = ''demo'', ref_config = []\<rparr>) (new_system (new_owner echo_settings [] False)))"
    by (rule trace_call [OF trace_new]) (simp_all add: new_system_def starts_call_def)
  from trace_alone [OF this, of plain_engine_env 3 7] show ?thesis by (simp add: prepare_once_def)
qed

theorem owner_publishes_generations_witness:
  "map fst (published (snd prepare_once)) = [1] \<and> list_all made_from (published (snd prepare_once))"
proof -
  have "length (published (snd prepare_once)) = 1"
    using plain_engine
    by (simp add: prepare_once_def numeral_3_eq_3 thread_step_def call_simps new_system_def new_owner_def get_engine_def
        Let_def publication_def)
  then show ?thesis using owner_publishes_generations [OF prepare_once_trace] by (simp add: list_all_iff)
qed

text \<open>
  No call on the owner waits for ever: while a call is not over, some thread can go on in any
  environment, and a step brings its own call closer to its end and moves no other.
\<close>

theorem owner_calls_end:
  assumes "owner_trace (new_owner config plugins discover) es sys" and "sy_threads sys t \<noteq> Idle"
  shows "(\<exists>u sys' new. thread_step env u sys = Some (sys', new)) \<and> (\<forall>u sys' new. thread_step env u sys = Some (sys', new)
     \<longrightarrow> steps_left (sy_threads sys' u) < steps_left (sy_threads sys u)
       \<and> (\<forall>v. v \<noteq> u \<longrightarrow> sy_threads sys' v = sy_threads sys v))"
proof -
  have ok: "system_ok (new_owner config plugins discover) es sys"
    by (rule trace_ok [OF assms(1)]) (simp_all add: new_owner_def)
  have "\<exists>u sys' new. thread_step env u sys = Some (sys', new)"
    using some_thread_steps [OF ok assms(2), of env] by (metis option.exhaust surj_pair)
  then show ?thesis using step_comes_closer by blast
qed

theorem owner_calls_end_witness:
  "\<exists>u sys' new. thread_step plain_engine_env u
     (goes 7 (Prepare_Call \<lparr>ref_kind = ''demo'', ref_config = []\<rparr>) (new_system (new_owner echo_settings [] False)))
     = Some (sys', new)"
proof -
  have "owner_trace (new_owner echo_settings [] False) []
      (goes 7 (Prepare_Call \<lparr>ref_kind = ''demo'', ref_config = []\<rparr>) (new_system (new_owner echo_settings [] False)))"
    by (rule trace_call [OF trace_new]) (simp_all add: new_system_def starts_call_def)
  from owner_calls_end [OF this, of 7 plain_engine_env] show ?thesis by (simp add: call_simps)
qed

text \<open>
  The signature does not tell a mapping from a sequence of its pairs, so a reconfiguration to a
  configuration with another shape, even one that no engine can be created from, is answered as unchanged.
\<close>

definition shaped :: "pyval \<Rightarrow> pyitems" where
  "shaped v = echo_settings @ [(AStr ''providers'', v)]"

lemma shaped_signature:
  "configuration_signature env (shaped (PList [])) plugins discover = configuration_signature env (shaped (PDict [])) plugins discover"
  by (simp add: configuration_signature_def shaped_def echo_settings_def)

theorem invalid_configuration_is_unchanged:
  fixes ow and a
  defines "ow \<equiv> fst (get_engine plain_engine_env (new_owner (shaped (PDict [])) [] False))"
    and "a \<equiv> \<lparr>rc_raw_config = shaped (PList []), rc_plugins = [], rc_discover = False, rc_force = False\<rparr>"
  shows "isl (create_candidate plain_engine_env a) \<and> reconfigure plain_engine_env a ow = (ow, Inr (1, ow_signature ow))"
proof -
  have "isl (create_engine plain_engine_env (PDict (shaped (PDict []))) [] False) = False" by code_simp
  then obtain en where "create_engine plain_engine_env (PDict (shaped (PDict []))) [] False = Inr en"
    by (cases "create_engine plain_engine_env (PDict (shaped (PDict []))) [] False") auto
  then have "reconfigure plain_engine_env a ow = (ow, Inr (1, ow_signature ow))"
    by (simp add: ow_def a_def get_engine_def new_owner_def reconfigure_def reconfiguration_signature_def unchanged_def
        shaped_signature Let_def)
  moreover have "isl (create_candidate plain_engine_env a)"
    unfolding a_def create_candidate_def by code_simp
  ultimately show ?thesis by blast
qed

end
