(* ===== verification/Integrations.thy ===== *)
theory Integrations
  imports Runtime_Assembly "HOL-Library.Product_Lexorder"
begin

text \<open>
  api/integrations.py, integrations/workflows/definitions.py and registry.py,
  apps/automation/ui/integration_health.py: the vocabulary of workflow integrations, the supported ones, the
  registry that resolves a provider when it is first needed, and what the health pages show.

  What is asked of the installation is the record \<open>installation\<close>: whether a module is found (or the
  search raises), the version of a distribution, whether a version is in a range (none when either is
  not well formed), and what loading \<open>module:attribute\<close> gives: an exception, an object that is no
  provider, or a provider. A provider is its definition and its \<open>wrap\<close>.
\<close>

section \<open>Vocabulary\<close>

text \<open>\<open>d.get(k, fallback)\<close>.\<close>

definition item_get :: "pyitems \<Rightarrow> string \<Rightarrow> pyval \<Rightarrow> pyval" where
  "item_get d k fallback = (case map_of d (AStr k) of None \<Rightarrow> fallback | Some v \<Rightarrow> v)"

definition required_text :: "string \<Rightarrow> string \<Rightarrow> string res" where
  "required_text field_name v =
     (if strip v = [] then Inl (PlainExn ValueError_cls (field_name @ '' must not be blank'')) else Inr (strip v))"

datatype integration_support = Support_None | Support_Partial | Support_Full

datatype integration_maturity = Experimental | Preview | Stable

datatype availability_status = Available | Not_Installed | Version_Incompatible | Provider_Invalid

datatype action_safety = Read_Only | Mutating | Destructive

datatype projection_owner = Owner_Run | Owner_Execution_Unit | Owner_Interaction | Owner_Artifact | Owner_Checkpoint

fun support_value :: "integration_support \<Rightarrow> string" where
  "support_value Support_None = ''none''"
| "support_value Support_Partial = ''partial''"
| "support_value Support_Full = ''full''"

fun maturity_value :: "integration_maturity \<Rightarrow> string" where
  "maturity_value Experimental = ''experimental''"
| "maturity_value Preview = ''preview''"
| "maturity_value Stable = ''stable''"

fun status_value :: "availability_status \<Rightarrow> string" where
  "status_value Available = ''available''"
| "status_value Not_Installed = ''not_installed''"
| "status_value Version_Incompatible = ''version_incompatible''"
| "status_value Provider_Invalid = ''provider_invalid''"

record integration_capability =
  ic_name :: string
  ic_support :: integration_support
  ic_limitations :: "string list"
  ic_metadata :: pyitems

definition IntegrationCapability :: "integration_capability \<Rightarrow> integration_capability res" where
  "IntegrationCapability c =
     r_bind (required_text ''capability name'' (ic_name c)) (\<lambda>name. Inr (c\<lparr>ic_name := name\<rparr>))"

record integration_definition =
  id_integration_id :: string
  id_distribution :: string
  id_import_name :: string
  id_provider_path :: string
  id_supported_versions :: string
  id_maturity :: integration_maturity
  id_detection_priority :: int
  id_capabilities :: "integration_capability list"
  id_limitations :: "string list"
  id_documentation_ref :: string
  id_auto_detection :: bool
  id_metadata :: pyitems

definition IntegrationDefinition :: "integration_definition \<Rightarrow> integration_definition res" where
  "IntegrationDefinition d =
     r_bind (required_text ''integration_id'' (id_integration_id d)) (\<lambda>integration_id.
     r_bind (required_text ''distribution'' (id_distribution d)) (\<lambda>distribution.
     r_bind (required_text ''import_name'' (id_import_name d)) (\<lambda>import_name.
     r_bind (required_text ''provider_path'' (id_provider_path d)) (\<lambda>provider_path.
     r_bind (r_guard (length (filter (\<lambda>c. c = CHR '':'') provider_path) \<noteq> 1)
       (PlainExn ValueError_cls (''provider_path must use '' @ quoted ''module:attribute'' @ '' form''))) (\<lambda>_.
     r_bind (r_guard (\<not> distinct (map ic_name (id_capabilities d)))
       (PlainExn ValueError_cls ''integration capability names must be unique'')) (\<lambda>_.
     Inr (d\<lparr>id_integration_id := integration_id, id_distribution := distribution, id_import_name := import_name,
            id_provider_path := provider_path\<rparr>)))))))"

definition definition_capability :: "integration_definition \<Rightarrow> string \<Rightarrow> integration_capability option" where
  "definition_capability d name = List.find (\<lambda>c. ic_name c = name) (id_capabilities d)"

text \<open>The equality of the dataclasses.\<close>

definition capability_eq :: "integration_capability \<Rightarrow> integration_capability \<Rightarrow> bool" where
  "capability_eq a b = (a\<lparr>ic_metadata := []\<rparr> = b\<lparr>ic_metadata := []\<rparr>
     \<and> val_eq (PDict (ic_metadata a)) (PDict (ic_metadata b)))"

definition definition_eq :: "integration_definition \<Rightarrow> integration_definition \<Rightarrow> bool" where
  "definition_eq a b =
     (a\<lparr>id_capabilities := [], id_metadata := []\<rparr> = b\<lparr>id_capabilities := [], id_metadata := []\<rparr>
      \<and> list_all2 capability_eq (id_capabilities a) (id_capabilities b)
      \<and> val_eq (PDict (id_metadata a)) (PDict (id_metadata b)))"

record integration_availability =
  av_integration_id :: string
  av_status :: availability_status
  av_installed_version :: "string option"
  av_supported_versions :: string
  av_reason :: string

definition available :: "integration_availability \<Rightarrow> bool" where
  "available a = (av_status a = Available)"

record integration_context =
  ig_workflow_kind :: string
  ig_config :: pyitems

definition IntegrationContext :: "string \<Rightarrow> pyitems \<Rightarrow> integration_context res" where
  "IntegrationContext workflow_kind config =
     r_bind (required_text ''workflow_kind'' workflow_kind) (\<lambda>kind. Inr \<lparr>ig_workflow_kind = kind, ig_config = config\<rparr>)"

record execution_unit_projection =
  eu_external_id :: string
  eu_semantic_kind :: string
  eu_integration_kind :: string
  eu_name :: string
  eu_status :: string
  eu_parent_external_id :: "string option"
  eu_attempt :: int
  eu_attributes :: pyitems

definition ExecutionUnitProjection :: "execution_unit_projection \<Rightarrow> execution_unit_projection res" where
  "ExecutionUnitProjection u =
     r_bind (required_text ''external_id'' (eu_external_id u)) (\<lambda>external_id.
     r_bind (required_text ''semantic_kind'' (eu_semantic_kind u)) (\<lambda>semantic_kind.
     r_bind (required_text ''integration_kind'' (eu_integration_kind u)) (\<lambda>integration_kind.
     r_bind (required_text ''name'' (eu_name u)) (\<lambda>name.
     r_bind (required_text ''status'' (eu_status u)) (\<lambda>status.
     r_bind (case eu_parent_external_id u of None \<Rightarrow> Inr None
       | Some p \<Rightarrow> r_bind (required_text ''parent_external_id'' p) (\<lambda>p. Inr (Some p))) (\<lambda>parent.
     r_bind (r_guard (eu_attempt u < 1) (PlainExn ValueError_cls ''attempt must be at least 1'')) (\<lambda>_.
     Inr (u\<lparr>eu_external_id := external_id, eu_semantic_kind := semantic_kind, eu_integration_kind := integration_kind,
            eu_name := name, eu_status := status, eu_parent_external_id := parent\<rparr>))))))))"

record lifecycle_projection =
  lp_external_id :: string
  lp_event_type :: string
  lp_status :: string
  lp_occurred_at :: string
  lp_attributes :: pyitems

definition LifecycleProjection :: "lifecycle_projection \<Rightarrow> lifecycle_projection res" where
  "LifecycleProjection l =
     r_bind (required_text ''external_id'' (lp_external_id l)) (\<lambda>external_id.
     r_bind (required_text ''event_type'' (lp_event_type l)) (\<lambda>event_type.
     r_bind (required_text ''status'' (lp_status l)) (\<lambda>status.
     r_bind (required_text ''occurred_at'' (lp_occurred_at l)) (\<lambda>occurred_at.
     Inr (l\<lparr>lp_external_id := external_id, lp_event_type := event_type, lp_status := status,
            lp_occurred_at := occurred_at\<rparr>)))))"

record integration_projection_value =
  ipv_schema_id :: string
  ipv_owner_kind :: projection_owner
  ipv_owner_external_id :: string
  ipv_payload :: pyitems
  ipv_retention_class :: string
  ipv_max_payload_bytes :: int
  ipv_searchable_fields :: "string list"

definition IntegrationProjection :: "integration_projection_value \<Rightarrow> integration_projection_value res" where
  "IntegrationProjection p =
     r_bind (required_text ''schema_id'' (ipv_schema_id p)) (\<lambda>schema_id.
     r_bind (required_text ''owner_external_id'' (ipv_owner_external_id p)) (\<lambda>owner_external_id.
     r_bind (required_text ''retention_class'' (ipv_retention_class p)) (\<lambda>retention_class.
     r_bind (r_guard (ipv_max_payload_bytes p < 1) (PlainExn ValueError_cls ''max_payload_bytes must be positive'')) (\<lambda>_.
     Inr (p\<lparr>ipv_schema_id := schema_id, ipv_owner_external_id := owner_external_id,
            ipv_retention_class := retention_class\<rparr>)))))"

record integration_action_descriptor =
  ad_action_id :: string
  ad_target_kind :: string
  ad_label :: string
  ad_input_schema :: pyitems
  ad_safety :: action_safety
  ad_available :: bool
  ad_unavailable_reason :: string
  ad_descriptor_metadata :: pyitems

definition IntegrationActionDescriptor :: "integration_action_descriptor \<Rightarrow> integration_action_descriptor res" where
  "IntegrationActionDescriptor a =
     r_bind (required_text ''action_id'' (ad_action_id a)) (\<lambda>action_id.
     r_bind (required_text ''target_kind'' (ad_target_kind a)) (\<lambda>target_kind.
     r_bind (required_text ''label'' (ad_label a)) (\<lambda>label.
     r_bind (r_guard (ad_available a \<and> ad_unavailable_reason a \<noteq> [])
       (PlainExn ValueError_cls ''available actions must not define unavailable_reason'')) (\<lambda>_.
     Inr (a\<lparr>ad_action_id := action_id, ad_target_kind := target_kind, ad_label := label\<rparr>)))))"

section \<open>The supported integrations\<close>

definition NATIVE_INTEGRATION :: integration_definition where
  "NATIVE_INTEGRATION =
     \<lparr>id_integration_id = ''native'', id_distribution = ''cobalt-wren'', id_import_name = ''cobalt_wren.native'',
      id_provider_path = ''cobalt_wren.integrations.workflows.native_provider:NATIVE_PROVIDER'',
      id_supported_versions = ''>=0.1,<1'', id_maturity = Preview, id_detection_priority = 110,
      id_capabilities = [
        \<lparr>ic_name = ''execute'', ic_support = Support_Full, ic_limitations = [],
        ic_metadata = []\<rparr>,
        \<lparr>ic_name = ''step_observability'', ic_support = Support_Full, ic_limitations = [],
        ic_metadata = []\<rparr>,
        \<lparr>ic_name = ''branching'', ic_support = Support_Full, ic_limitations = [],
        ic_metadata = []\<rparr>,
        \<lparr>ic_name = ''bounded_iteration'', ic_support = Support_Full, ic_limitations = [],
        ic_metadata = []\<rparr>,
        \<lparr>ic_name = ''artifacts'', ic_support = Support_Full, ic_limitations = [],
        ic_metadata = []\<rparr>,
        \<lparr>ic_name = ''progress'', ic_support = Support_Full, ic_limitations = [],
        ic_metadata = []\<rparr>,
        \<lparr>ic_name = ''metrics'', ic_support = Support_Full, ic_limitations = [],
        ic_metadata = []\<rparr>,
        \<lparr>ic_name = ''retry'', ic_support = Support_Full, ic_limitations = [],
        ic_metadata = []\<rparr>,
        \<lparr>ic_name = ''timeout'', ic_support = Support_Partial, ic_limitations = [''asynchronous callables are cancelled on timeout'',
          ''timed-out synchronous callables may continue in their worker thread''],
        ic_metadata = []\<rparr>,
        \<lparr>ic_name = ''resume'', ic_support = Support_None, ic_limitations = [''durable resume is not part of the Native MVP''],
        ic_metadata = []\<rparr>,
        \<lparr>ic_name = ''waiting'', ic_support = Support_None, ic_limitations = [],
        ic_metadata = []\<rparr>,
        \<lparr>ic_name = ''checkpoints'', ic_support = Support_None, ic_limitations = [],
        ic_metadata = []\<rparr>,
        \<lparr>ic_name = ''dynamic_views'', ic_support = Support_Partial, ic_limitations = [],
        ic_metadata = []\<rparr>],
      id_limitations = [
        ''execution is process-local and does not checkpoint arbitrary Python state'',
        ''cancellation is cooperative at explicit step boundaries and retry delays'',
        ''synchronous callables cannot be forcibly terminated by a step timeout'',
        ''durable waiting is not implemented''],
      id_documentation_ref = ''docs/workflows/authoring/NATIVE_AUTHORING_USE_CASE_DESIGN.md'',
      id_auto_detection = False, id_metadata = [(AStr ''bundled'', PBool True)]\<rparr>"

definition LANGGRAPH_INTEGRATION :: integration_definition where
  "LANGGRAPH_INTEGRATION =
     \<lparr>id_integration_id = ''langgraph'', id_distribution = ''langgraph'', id_import_name = ''langgraph'',
      id_provider_path = ''cobalt_wren.integrations.workflows.langgraph_provider:LANGGRAPH_PROVIDER'',
      id_supported_versions = ''>=1.0,<2'', id_maturity = Experimental, id_detection_priority = 100,
      id_capabilities = [
        \<lparr>ic_name = ''execute'', ic_support = Support_Full, ic_limitations = [],
        ic_metadata = []\<rparr>,
        \<lparr>ic_name = ''node_observability'', ic_support = Support_Full, ic_limitations = [],
        ic_metadata = []\<rparr>,
        \<lparr>ic_name = ''resume'', ic_support = Support_Partial, ic_limitations = [''requires a compiled graph with compatible checkpoint state'',
          ''checkpoint ownership remains with the workflow or LangGraph backend''],
        ic_metadata = []\<rparr>,
        \<lparr>ic_name = ''waiting'', ic_support = Support_Partial, ic_limitations = [''interrupt payloads are projected as bounded summaries''],
        ic_metadata = []\<rparr>,
        \<lparr>ic_name = ''checkpoints'', ic_support = Support_Partial, ic_limitations = [''the foundation does not copy or interpret LangGraph checkpoints''],
        ic_metadata = []\<rparr>,
        \<lparr>ic_name = ''dynamic_views'', ic_support = Support_Partial, ic_limitations = [],
        ic_metadata = []\<rparr>],
      id_limitations = [
        ''subgraph namespaces are retained only when emitted by the public stream API'',
        ''time travel and checkpoint lineage projection are not implemented'',
        ''cancellation is cooperative between streamed task events''],
      id_documentation_ref = ''docs/architecture/design/OSS_NEUTRAL_WORKFLOW_INTEGRATION.md'',
      id_auto_detection = True, id_metadata = [(AStr ''required_distribution'', PStr ''langgraph'')]\<rparr>"

definition LLAMAINDEX_WORKFLOWS_INTEGRATION :: integration_definition where
  "LLAMAINDEX_WORKFLOWS_INTEGRATION =
     \<lparr>id_integration_id = ''llamaindex-workflows'', id_distribution = ''llama-index-workflows'', id_import_name = ''workflows'',
      id_provider_path = ''cobalt_wren.integrations.workflows.llamaindex_provider:LLAMAINDEX_WORKFLOWS_PROVIDER'',
      id_supported_versions = ''>=2.22,<3'', id_maturity = Experimental, id_detection_priority = 90,
      id_capabilities = [
        \<lparr>ic_name = ''execute'', ic_support = Support_Full, ic_limitations = [],
        ic_metadata = []\<rparr>,
        \<lparr>ic_name = ''step_observability'', ic_support = Support_Full, ic_limitations = [],
        ic_metadata = []\<rparr>,
        \<lparr>ic_name = ''event_observability'', ic_support = Support_Partial, ic_limitations = [''only events exposed by WorkflowHandler.stream_events() are projected''],
        ic_metadata = []\<rparr>,
        \<lparr>ic_name = ''resume'', ic_support = Support_None, ic_limitations = [''human-input and durable resume routing are not implemented''],
        ic_metadata = []\<rparr>,
        \<lparr>ic_name = ''waiting'', ic_support = Support_None, ic_limitations = [],
        ic_metadata = []\<rparr>,
        \<lparr>ic_name = ''checkpoints'', ic_support = Support_None, ic_limitations = [],
        ic_metadata = []\<rparr>,
        \<lparr>ic_name = ''dynamic_views'', ic_support = Support_Partial, ic_limitations = [],
        ic_metadata = []\<rparr>],
      id_limitations = [
        ''the synchronous foundation adapter bridges the async workflow handler'',
        ''cancel and external event injection are not connected to common actions'',
        ''runtime durability and replay remain owned by the selected Workflows runtime''],
      id_documentation_ref = ''docs/architecture/design/OSS_NEUTRAL_WORKFLOW_INTEGRATION.md'',
      id_auto_detection = True, id_metadata = [(AStr ''required_distribution'', PStr ''llama-index-workflows'')]\<rparr>"

definition SUPPORTED_WORKFLOW_INTEGRATIONS :: "integration_definition list" where
  "SUPPORTED_WORKFLOW_INTEGRATIONS = [NATIVE_INTEGRATION, LANGGRAPH_INTEGRATION, LLAMAINDEX_WORKFLOWS_INTEGRATION]"

text \<open>The constructors accept them as they are.\<close>

lemma supported_integrations_are_valid:
  "list_all (\<lambda>d. IntegrationDefinition d = Inr d \<and> list_all (\<lambda>c. IntegrationCapability c = Inr c) (id_capabilities d))
     SUPPORTED_WORKFLOW_INTEGRATIONS"
  by code_simp

section \<open>The registry\<close>

record 'w integration_provider =
  wp_definition :: integration_definition
  wp_wrap :: 'w

record 'w installation =
  in_find_spec :: "string \<Rightarrow> bool res"
  in_version :: "string \<Rightarrow> string option"
  in_matches :: "string \<Rightarrow> string \<Rightarrow> bool option"
  in_load :: "string \<Rightarrow> string \<Rightarrow> 'w integration_provider option res"

record 'w integration_registry =
  ir_definitions :: "(string \<times> integration_definition) list"
  ir_providers :: "(string \<times> 'w integration_provider) list"

definition empty_integrations :: "'w integration_registry" where
  "empty_integrations = \<lparr>ir_definitions = [], ir_providers = []\<rparr>"

definition integration_registration_error :: "string \<Rightarrow> string \<Rightarrow> string \<Rightarrow> exn" where
  "integration_registration_error what code integration_id =
     PluginRegistrationError (''Workflow integration registration failed: '' @ what) code
       (Some ''workflow_integration_registry'') None [(''integration_id'', PStr integration_id)]"

definition integration_resolution_error :: "string \<Rightarrow> string \<Rightarrow> pydict \<Rightarrow> exn" where
  "integration_resolution_error msg code metadata =
     PluginResolutionError msg code (Some ''workflow_integration_registry'') None metadata"

definition register_definition ::
  "'w integration_registry \<Rightarrow> integration_definition \<Rightarrow> 'w integration_registry \<times> unit res" where
  "register_definition reg d =
     (let i = id_integration_id d
      in if map_of (ir_definitions reg) i \<noteq> None
         then (reg, Inl (integration_registration_error (''duplicate integration '' @ quoted i @ ''.'')
           ''WORKFLOW_INTEGRATION_DUPLICATE'' i))
         else (reg\<lparr>ir_definitions := dict_set i d (ir_definitions reg)\<rparr>, Inr ()))"

definition register_provider ::
  "'w integration_registry \<Rightarrow> 'w integration_provider \<Rightarrow> 'w integration_registry \<times> unit res" where
  "register_provider reg p =
     (let d = wp_definition p; i = id_integration_id d;
          (reg, r) = (case map_of (ir_definitions reg) i of
              None \<Rightarrow> register_definition reg d
            | Some existing \<Rightarrow>
                if \<not> definition_eq existing d
                then (reg, Inl (integration_registration_error
                  ''provider definition does not match the registered definition.''
                  ''WORKFLOW_INTEGRATION_DEFINITION_MISMATCH'' i))
                else (reg, Inr ()))
      in case r of
           Inl e \<Rightarrow> (reg, Inl e)
         | Inr _ \<Rightarrow>
             if map_of (ir_providers reg) i \<noteq> None
             then (reg, Inl (integration_registration_error (''duplicate provider '' @ quoted i @ ''.'')
               ''WORKFLOW_INTEGRATION_PROVIDER_DUPLICATE'' i))
             else (reg\<lparr>ir_providers := dict_set i p (ir_providers reg)\<rparr>, Inr ()))"

definition list_definitions :: "'w integration_registry \<Rightarrow> integration_definition list" where
  "list_definitions reg = map snd (ir_definitions reg)"

definition get_definition :: "'w integration_registry \<Rightarrow> string \<Rightarrow> integration_definition res" where
  "get_definition reg i =
     (case map_of (ir_definitions reg) i of
        Some d \<Rightarrow> Inr d
      | None \<Rightarrow> Inl (integration_resolution_error (''Workflow integration '' @ quoted i @ '' is not registered.'')
          ''WORKFLOW_INTEGRATION_UNKNOWN'' [(''integration_id'', PStr i)]))"

definition version_matches :: "'w installation \<Rightarrow> string \<Rightarrow> string \<Rightarrow> bool res" where
  "version_matches inst installed supported =
     (case in_matches inst installed supported of
        None \<Rightarrow> Inl (integration_resolution_error ''Workflow integration version metadata is invalid.''
          ''WORKFLOW_INTEGRATION_VERSION_METADATA_INVALID'' [])
      | Some b \<Rightarrow> Inr b)"

definition inspect_integration ::
  "'w installation \<Rightarrow> 'w integration_registry \<Rightarrow> string \<Rightarrow> integration_availability res" where
  "inspect_integration inst reg i =
     r_bind (get_definition reg i) (\<lambda>d.
     let result = (\<lambda>status version reason. Inr \<lparr>av_integration_id = i, av_status = status, av_installed_version = version,
           av_supported_versions = id_supported_versions d, av_reason = reason\<rparr>)
     in r_bind (in_find_spec inst (id_import_name d)) (\<lambda>found.
        if \<not> found then result Not_Installed None ''target import is unavailable''
        else (case in_version inst (id_distribution d) of
            None \<Rightarrow> result Not_Installed None ''target distribution is unavailable''
          | Some version \<Rightarrow>
              r_bind (if id_supported_versions d = [] then Inr True
                else version_matches inst version (id_supported_versions d)) (\<lambda>ok.
              if ok then result Available (Some version) []
              else result Version_Incompatible (Some version) ''installed version is outside the supported range''))))"

definition load_integration_provider :: "'w installation \<Rightarrow> integration_definition \<Rightarrow> 'w integration_provider res" where
  "load_integration_provider inst d =
     (let fail = (\<lambda>what code. Inl (integration_resolution_error
            (''Workflow integration '' @ quoted (id_integration_id d) @ '' provider '' @ what) code
            [(''integration_id'', PStr (id_integration_id d))]));
          path = id_provider_path d; module_name = takeWhile (\<lambda>c. c \<noteq> CHR '':'') path
      in if CHR '':'' \<notin> set path then Inl (PlainExn ValueError_cls ''not enough values to unpack (expected 2, got 1)'')
         else (case in_load inst module_name (drop (Suc (length module_name)) path) of
             Inl _ \<Rightarrow> fail ''could not be loaded.'' ''WORKFLOW_INTEGRATION_PROVIDER_LOAD_FAILED''
           | Inr None \<Rightarrow> fail ''is invalid.'' ''WORKFLOW_INTEGRATION_PROVIDER_INVALID''
           | Inr (Some p) \<Rightarrow>
               if \<not> definition_eq (wp_definition p) d
               then fail ''definition does not match the registry.'' ''WORKFLOW_INTEGRATION_DEFINITION_MISMATCH''
               else Inr p))"

definition resolve_integration ::
  "'w installation \<Rightarrow> 'w integration_registry \<Rightarrow> string \<Rightarrow> 'w integration_registry \<times> 'w integration_provider res" where
  "resolve_integration inst reg i =
     (case inspect_integration inst reg i of
        Inl e \<Rightarrow> (reg, Inl e)
      | Inr a \<Rightarrow>
          if \<not> available a
          then (reg, Inl (integration_resolution_error (''Workflow integration '' @ quoted i @ '' is unavailable.'')
            (if av_status a = Version_Incompatible then ''WORKFLOW_INTEGRATION_VERSION_INCOMPATIBLE''
             else ''WORKFLOW_INTEGRATION_NOT_INSTALLED'')
            [(''integration_id'', PStr i),
             (''installed_version'', case av_installed_version a of None \<Rightarrow> PNone | Some v \<Rightarrow> PStr v),
             (''supported_versions'', PStr (av_supported_versions a))]))
          else (case map_of (ir_providers reg) i of
              Some p \<Rightarrow> (reg, Inr p)
            | None \<Rightarrow>
                (case r_bind (get_definition reg i) (load_integration_provider inst) of
                   Inl e \<Rightarrow> (reg, Inl e)
                 | Inr p \<Rightarrow> (reg\<lparr>ir_providers := dict_set i p (ir_providers reg)\<rparr>, Inr p))))"

definition wrap_integration ::
  "('t \<Rightarrow> integration_context \<Rightarrow> 's \<Rightarrow> 's \<times> 'x res) installation \<Rightarrow> ('t \<Rightarrow> integration_context \<Rightarrow> 's \<Rightarrow> 's \<times> 'x res) integration_registry
     \<Rightarrow> string \<Rightarrow> 't \<Rightarrow> integration_context \<Rightarrow> 's
     \<Rightarrow> ('t \<Rightarrow> integration_context \<Rightarrow> 's \<Rightarrow> 's \<times> 'x res) integration_registry \<times> 's \<times> 'x res" where
  "wrap_integration inst reg i target context s =
     (case resolve_integration inst reg i of
        (reg, Inl e) \<Rightarrow> (reg, s, Inl e)
      | (reg, Inr p) \<Rightarrow> (reg, wp_wrap p target context s))"

text \<open>\<open>WorkflowIntegrationRegistry(definitions, providers=...)\<close>: the first failure ends the construction.\<close>

fun register_each :: "('r \<Rightarrow> 'a \<Rightarrow> 'r \<times> unit res) \<Rightarrow> 'r \<Rightarrow> 'a list \<Rightarrow> 'r res" where
  "register_each f reg [] = Inr reg"
| "register_each f reg (x # xs) = (case f reg x of (_, Inl e) \<Rightarrow> Inl e | (reg, Inr _) \<Rightarrow> register_each f reg xs)"

definition new_integration_registry ::
  "integration_definition list \<Rightarrow> 'w integration_provider list \<Rightarrow> 'w integration_registry res" where
  "new_integration_registry definitions providers =
     r_bind (register_each register_definition empty_integrations definitions) (\<lambda>reg.
     register_each register_provider reg providers)"

definition create_supported_workflow_integration_registry :: "'w integration_registry res" where
  "create_supported_workflow_integration_registry = new_integration_registry SUPPORTED_WORKFLOW_INTEGRATIONS []"


section \<open>Health\<close>

record capability_health =
  ch_name :: string
  ch_support :: string
  ch_limitations :: "string list"

record integration_health =
  ih_integration_id :: string
  ih_distribution :: string
  ih_import_name :: string
  ih_maturity :: string
  ih_status :: string
  ih_installed_version :: string
  ih_supported_versions :: string
  ih_provider_status :: string
  ih_diagnostic :: string
  ih_install_requirement :: string
  ih_install_command :: string
  ih_auto_detection :: bool
  ih_documentation_ref :: string
  ih_capabilities :: "capability_health list"
  ih_limitations :: "string list"

definition health_available :: "integration_health \<Rightarrow> bool" where
  "health_available h = (ih_status h = ''available'' \<and> ih_provider_status h = ''loaded'')"

definition health_status :: "integration_health \<Rightarrow> string" where
  "health_status h =
     (if health_available h then ''ready''
      else if ih_status h \<noteq> ''available'' then ih_status h else ih_provider_status h)"

definition available_count :: "integration_health list \<Rightarrow> nat" where
  "available_count hs = length (filter health_available hs)"

definition capability_spec :: "integration_capability \<Rightarrow> capability_health" where
  "capability_spec c = \<lparr>ch_name = ic_name c, ch_support = support_value (ic_support c), ch_limitations = ic_limitations c\<rparr>"

definition provider_status :: "string \<Rightarrow> string" where
  "provider_status code =
     (if code = ''WORKFLOW_INTEGRATION_PROVIDER_INVALID'' then ''invalid''
      else if code = ''WORKFLOW_INTEGRATION_DEFINITION_MISMATCH'' then ''definition_mismatch'' else ''load_failed'')"

definition provider_diagnostic :: "string \<Rightarrow> string" where
  "provider_diagnostic code =
     (if code = ''WORKFLOW_INTEGRATION_PROVIDER_INVALID''
      then ''The configured provider does not implement the workflow integration contract.''
      else if code = ''WORKFLOW_INTEGRATION_DEFINITION_MISMATCH''
      then ''The loaded provider definition does not match the central definition.''
      else if code = ''WORKFLOW_INTEGRATION_PROVIDER_LOAD_FAILED''
      then ''The provider module could not be loaded. Review installation and compatibility.''
      else ''The provider could not be resolved safely.'')"

definition install_requirement :: "pyitems \<Rightarrow> string" where
  "install_requirement metadata =
     (let get = (\<lambda>k. case map_of metadata (AStr k) of None \<Rightarrow> PNone | Some v \<Rightarrow> v)
      in strip (val_text (if truthy (get ''install_requirement'') then get ''install_requirement''
           else if truthy (get ''required_distribution'') then get ''required_distribution'' else PStr [])))"

definition error_code :: "exn \<Rightarrow> string" where
  "error_code e = (case e of FrameworkExn fe \<Rightarrow> fe_code fe | PlainExn _ _ \<Rightarrow> [])"

definition build_health ::
  "'w installation \<Rightarrow> 'w integration_registry \<Rightarrow> integration_definition \<Rightarrow> 'w integration_registry \<times> integration_health res" where
  "build_health inst reg d =
     (case inspect_integration inst reg (id_integration_id d) of
        Inl e \<Rightarrow> (reg, Inl e)
      | Inr a \<Rightarrow>
          (let (reg, checked) =
             (if available a
              then (case resolve_integration inst reg (id_integration_id d) of
                  (reg, Inr _) \<Rightarrow> (reg, Inr (''loaded'', av_reason a))
                | (reg, Inl e) \<Rightarrow> (reg, if isinstance e PluginResolutionError_cls
                    then Inr (provider_status (error_code e), provider_diagnostic (error_code e)) else Inl e))
              else (reg, Inr (''not_checked'', av_reason a)))
           in (reg, r_bind checked (\<lambda>(provider, diagnostic).
             let requirement = install_requirement (id_metadata d) in Inr
               \<lparr>ih_integration_id = id_integration_id d, ih_distribution = id_distribution d,
                ih_import_name = id_import_name d, ih_maturity = maturity_value (id_maturity d),
                ih_status = status_value (av_status a),
                ih_installed_version = (case av_installed_version a of None \<Rightarrow> [] | Some v \<Rightarrow> v),
                ih_supported_versions = av_supported_versions a, ih_provider_status = provider,
                ih_diagnostic = diagnostic, ih_install_requirement = requirement,
                ih_install_command = (if requirement = [] then [] else ''pip install '' @ [CHR 0x22] @ requirement @ [CHR 0x22]),
                ih_auto_detection = id_auto_detection d, ih_documentation_ref = id_documentation_ref d,
                ih_capabilities = map capability_spec (id_capabilities d), ih_limitations = id_limitations d\<rparr>))))"

fun build_each ::
  "'w installation \<Rightarrow> 'w integration_registry \<Rightarrow> integration_definition list \<Rightarrow> 'w integration_registry \<times> integration_health list res" where
  "build_each inst reg [] = (reg, Inr [])"
| "build_each inst reg (d # ds) =
     (case build_health inst reg d of
        (reg, Inl e) \<Rightarrow> (reg, Inl e)
      | (reg, Inr h) \<Rightarrow> (case build_each inst reg ds of (reg, r) \<Rightarrow> (reg, r_bind r (\<lambda>hs. Inr (h # hs)))))"

definition build_integration_health_list ::
  "'w installation \<Rightarrow> 'w integration_registry \<Rightarrow> 'w integration_registry \<times> integration_health list res" where
  "build_integration_health_list inst reg =
     build_each inst reg (sort_key (\<lambda>d. (- id_detection_priority d, id_integration_id d)) (list_definitions reg))"

definition build_integration_health_detail ::
  "'w installation \<Rightarrow> 'w integration_registry \<Rightarrow> string \<Rightarrow> 'w integration_registry \<times> integration_health res" where
  "build_integration_health_detail inst reg i =
     (case get_definition reg i of Inl e \<Rightarrow> (reg, Inl e) | Inr d \<Rightarrow> build_health inst reg d)"

section \<open>What the registry keeps\<close>

definition agrees :: "integration_definition \<Rightarrow> 'w integration_provider \<Rightarrow> bool" where
  "agrees d p \<longleftrightarrow> wp_definition p = d \<or> definition_eq d (wp_definition p) \<or> definition_eq (wp_definition p) d"

definition integrations_ok :: "'w integration_registry \<Rightarrow> bool" where
  "integrations_ok reg \<longleftrightarrow>
     (\<forall>i d. map_of (ir_definitions reg) i = Some d \<longrightarrow> id_integration_id d = i)
     \<and> (\<forall>i p. map_of (ir_providers reg) i = Some p \<longrightarrow> (\<exists>d. map_of (ir_definitions reg) i = Some d \<and> agrees d p))"

lemma empty_integrations_ok: "integrations_ok empty_integrations"
  by (simp add: integrations_ok_def empty_integrations_def)

lemma register_definition_cases:
  obtains (taken) e where "register_definition reg d = (reg, Inl e)" "map_of (ir_definitions reg) (id_integration_id d) \<noteq> None"
  | (added) "register_definition reg d = (reg\<lparr>ir_definitions := dict_set (id_integration_id d) d (ir_definitions reg)\<rparr>, Inr ())"
      "map_of (ir_definitions reg) (id_integration_id d) = None"
  by (cases "map_of (ir_definitions reg) (id_integration_id d)") (auto simp: register_definition_def Let_def)

lemma register_definition_ok:
  assumes "integrations_ok reg"
  shows "integrations_ok (fst (register_definition reg d))"
proof (cases rule: register_definition_cases [of reg d])
  case taken
  then show ?thesis using assms by simp
next
  case added
  then have "map_of (ir_providers reg) (id_integration_id d) = None"
    using assms by (cases "map_of (ir_providers reg) (id_integration_id d)") (fastforce simp: integrations_ok_def)+
  then show ?thesis using assms added by (auto simp: integrations_ok_def map_of_dict_set)
qed

lemma definition_eq_id: "definition_eq a b \<Longrightarrow> id_integration_id a = id_integration_id b"
  unfolding definition_eq_def by (cases a, cases b) simp

text \<open>An operation leaves the registry as it was, or adds to it.\<close>

definition extends_integrations :: "'w integration_registry \<Rightarrow> 'w integration_registry \<Rightarrow> bool" where
  "extends_integrations a b \<longleftrightarrow>
     (\<forall>i d. map_of (ir_definitions a) i = Some d \<longrightarrow> map_of (ir_definitions b) i = Some d)
     \<and> (\<forall>i p. map_of (ir_providers a) i = Some p \<longrightarrow> map_of (ir_providers b) i = Some p)"

lemma extends_integrations_refl: "extends_integrations a a"
  by (simp add: extends_integrations_def)

lemma extends_integrations_trans: "extends_integrations a b \<Longrightarrow> extends_integrations b c \<Longrightarrow> extends_integrations a c"
  by (simp add: extends_integrations_def)

lemma register_definition_extends: "extends_integrations reg (fst (register_definition reg d))"
  by (cases rule: register_definition_cases [of reg d]) (auto simp: extends_integrations_def map_of_dict_set)

lemma provider_added:
  assumes "integrations_ok reg" and "map_of (ir_definitions reg) i = Some d" and "agrees d p"
    and "map_of (ir_providers reg) i = None"
  shows "integrations_ok (reg\<lparr>ir_providers := dict_set i p (ir_providers reg)\<rparr>)"
    and "extends_integrations reg (reg\<lparr>ir_providers := dict_set i p (ir_providers reg)\<rparr>)"
  using assms by (auto simp: integrations_ok_def extends_integrations_def map_of_dict_set)

lemma register_provider_ok:
  assumes ok: "integrations_ok reg" and r: "register_provider reg p = (reg', r)"
  shows "integrations_ok reg'" and "extends_integrations reg reg'" and "r = Inl e \<Longrightarrow> reg' = reg"
proof -
  let ?d = "wp_definition p" and ?i = "id_integration_id (wp_definition p)"
  have "integrations_ok reg' \<and> extends_integrations reg reg' \<and> (isl r \<longrightarrow> reg' = reg)"
  proof (cases "map_of (ir_definitions reg) ?i")
    case None
    then have free: "map_of (ir_providers reg) ?i = None"
      using ok by (cases "map_of (ir_providers reg) ?i") (fastforce simp: integrations_ok_def)+
    let ?reg = "reg\<lparr>ir_definitions := dict_set ?i ?d (ir_definitions reg)\<rparr>"
    have add: "register_definition reg ?d = (?reg, Inr ())"
      using None by (simp add: register_definition_def)
    then have "integrations_ok ?reg" "extends_integrations reg ?reg"
      using register_definition_ok [OF ok, of ?d] register_definition_extends [of reg ?d] by simp_all
    moreover have "map_of (ir_definitions ?reg) ?i = Some ?d" "map_of (ir_providers ?reg) ?i = None"
      using free by (simp_all add: map_of_dict_set)
    moreover have "reg' = ?reg\<lparr>ir_providers := dict_set ?i p (ir_providers ?reg)\<rparr>" "r = Inr ()"
      using r None add free by (simp_all add: register_provider_def Let_def)
    ultimately show ?thesis
      using provider_added [of ?reg ?i ?d p] extends_integrations_trans by (fastforce simp: agrees_def)
  next
    case (Some d)
    show ?thesis
    proof (cases "definition_eq d ?d \<and> map_of (ir_providers reg) ?i = None")
      case True
      then show ?thesis
        using r Some provider_added [OF ok Some, of p] by (auto simp: register_provider_def Let_def agrees_def)
    next
      case False
      then show ?thesis
        using r Some ok extends_integrations_refl by (auto simp: register_provider_def Let_def split: if_splits)
    qed
  qed
  then show "integrations_ok reg'" "extends_integrations reg reg'" "r = Inl e \<Longrightarrow> reg' = reg" by auto
qed

lemma load_integration_provider_Inr: "load_integration_provider inst d = Inr p \<Longrightarrow> definition_eq (wp_definition p) d"
  by (auto simp: load_integration_provider_def Let_def split: sum.splits option.splits if_splits)

lemma resolve_integration_cases:
  assumes "integrations_ok reg"
  obtains (failed) e where "resolve_integration inst reg i = (reg, Inl e)"
  | (cached) p where "resolve_integration inst reg i = (reg, Inr p)" "map_of (ir_providers reg) i = Some p"
  | (loaded) d p where "resolve_integration inst reg i = (reg\<lparr>ir_providers := dict_set i p (ir_providers reg)\<rparr>, Inr p)"
      "map_of (ir_providers reg) i = None" "map_of (ir_definitions reg) i = Some d" "agrees d p"
proof (cases "resolve_integration inst reg i")
  case (Pair reg' r)
  show thesis
  proof (cases r)
    case (Inl e)
    then show thesis using Pair failed
      by (auto simp: resolve_integration_def split: sum.splits option.splits if_splits)
  next
    case (Inr p)
    show thesis
    proof (cases "map_of (ir_providers reg) i")
      case (Some q)
      then show thesis using Pair Inr cached
        by (auto simp: resolve_integration_def split: sum.splits if_splits)
    next
      case None
      then have "r_bind (get_definition reg i) (load_integration_provider inst) = Inr p"
        "reg' = reg\<lparr>ir_providers := dict_set i p (ir_providers reg)\<rparr>"
        using Pair Inr by (auto simp: resolve_integration_def split: sum.splits if_splits)
      then show thesis using Pair Inr None loaded load_integration_provider_Inr
        by (auto simp: r_bind_eq_Inr get_definition_def agrees_def split: option.splits)
    qed
  qed
qed

lemma resolve_integration_ok:
  assumes "integrations_ok reg" and "resolve_integration inst reg i = (reg', r)"
  shows "integrations_ok reg'" and "extends_integrations reg reg'" and "r = Inl e \<Longrightarrow> reg' = reg"
    and "r = Inr p \<Longrightarrow> map_of (ir_providers reg') i = Some p"
  by (cases rule: resolve_integration_cases [OF assms(1), of inst i];
      use assms provider_added [OF assms(1)] in \<open>auto simp: extends_integrations_refl map_of_dict_set\<close>)+

lemma resolved_is_available:
  assumes "resolve_integration inst reg i = (reg', Inr p)"
  shows "\<exists>a. inspect_integration inst reg i = Inr a \<and> available a"
  using assms by (auto simp: resolve_integration_def split: sum.splits if_splits)

interpretation integrations: plugin_catalog "empty_integrations :: 'w integration_registry" integrations_ok
    register_definition get_definition id_integration_id
proof
  show "integrations_ok (empty_integrations :: 'w integration_registry)" by (rule empty_integrations_ok)
next
  fix r :: "'w integration_registry" and d :: integration_definition
  assume "integrations_ok r"
  then show "integrations_ok (fst (register_definition r d))" by (rule register_definition_ok)
next
  fix r :: "'w integration_registry" and d :: integration_definition and e
  assume "snd (register_definition r d) = Inl e"
  then show "fst (register_definition r d) = r" by (cases rule: register_definition_cases [of r d]) simp_all
next
  fix r :: "'w integration_registry" and d :: integration_definition and n
  assume "snd (register_definition r d) = Inr ()"
  then show "get_definition (fst (register_definition r d)) n = (if n = id_integration_id d then Inr d else get_definition r n)"
    by (cases rule: register_definition_cases [of r d]) (simp_all add: get_definition_def map_of_dict_set)
next
  fix r :: "'w integration_registry" and d :: integration_definition and q
  assume "get_definition r (id_integration_id d) = Inr q"
  then show "snd (register_definition r d) \<noteq> Inr ()"
    by (cases rule: register_definition_cases [of r d]) (simp_all add: get_definition_def split: option.splits)
qed

text \<open>Any sequence of operations, in installations that may change.\<close>

datatype 'w integration_op =
    Add_Definition integration_definition
  | Add_Provider "'w integration_provider"
  | Resolve "'w installation" string

definition integration_step :: "'w integration_registry \<Rightarrow> 'w integration_op \<Rightarrow> 'w integration_registry" where
  "integration_step reg a = (case a of
      Add_Definition d \<Rightarrow> fst (register_definition reg d)
    | Add_Provider p \<Rightarrow> fst (register_provider reg p)
    | Resolve inst i \<Rightarrow> fst (resolve_integration inst reg i))"

lemma integration_step_ok:
  assumes "integrations_ok reg"
  shows "integrations_ok (integration_step reg a) \<and> extends_integrations reg (integration_step reg a)"
proof (cases a)
  case (Add_Definition d)
  then show ?thesis using register_definition_ok [OF assms] register_definition_extends by (simp add: integration_step_def)
next
  case (Add_Provider p)
  then show ?thesis using register_provider_ok [OF assms, of p] by (cases "register_provider reg p") (simp add: integration_step_def)
next
  case (Resolve inst i)
  then show ?thesis using resolve_integration_ok [OF assms, of inst i]
    by (cases "resolve_integration inst reg i") (simp add: integration_step_def)
qed

lemma integration_steps_ok:
  "integrations_ok reg \<Longrightarrow> integrations_ok (foldl integration_step reg ops) \<and> extends_integrations reg (foldl integration_step reg ops)"
proof (induction ops arbitrary: reg)
  case (Cons a ops)
  then show ?case using integration_step_ok [of reg a] extends_integrations_trans by fastforce
qed (simp add: extends_integrations_refl)

lemma resolution_stays:
  assumes ok: "integrations_ok reg" and first: "resolve_integration inst reg i = (reg', Inr p)"
    and again: "resolve_integration inst' (foldl integration_step reg' ops) i = (reg'', Inr q)"
  shows "q = p"
proof -
  note r = resolve_integration_ok [OF ok first]
  have s: "integrations_ok (foldl integration_step reg' ops)" "map_of (ir_providers (foldl integration_step reg' ops)) i = Some p"
    using integration_steps_ok [OF r(1), of ops] r(4) by (auto simp: extends_integrations_def)
  have "extends_integrations (foldl integration_step reg' ops) reg''" "map_of (ir_providers reg'') i = Some q"
    using resolve_integration_ok [OF s(1) again] by simp_all
  then show ?thesis using s(2) by (auto simp: extends_integrations_def)
qed

end
