(* ===== verification/Integration_Actions.thy ===== *)
theory Integration_Actions
  imports Jobs Event_Sink Integrations
begin

text \<open>
  apps/automation/ui/integration_actions.py: the actions a workflow integration offers on a waiting run. They
  are read from the projections of the run, shown with the fields of their input schema, and dispatched as
  a resumption of the run with what a form posted.

  A projection is given by the columns the code reads, and the query of the active ones is a filter of the
  table in the order of creation. \<open>float\<close> of a text is an argument.
\<close>

section \<open>Records and fields\<close>

record action_record =
  ax_pk :: int
  ax_run :: int
  ax_schema_id :: string
  ax_expires_at :: int
  ax_created_at :: int
  ax_payload :: pyval

definition ACTION_SCHEMA_ID :: string where "ACTION_SCHEMA_ID = ''integration.actions.v1''"

definition MAX_ACTIONS :: nat where "MAX_ACTIONS = 10"

definition MAX_FIELDS :: nat where "MAX_FIELDS = 20"

definition SUPPORTED_TYPES :: "string list" where
  "SUPPORTED_TYPES = [''string'', ''integer'', ''number'', ''boolean'']"

definition active_action_records :: "int \<Rightarrow> int \<Rightarrow> action_record list \<Rightarrow> action_record list" where
  "active_action_records now run records =
     sort_key ax_created_at (filter (\<lambda>r. ax_run r = run \<and> ax_schema_id r = ACTION_SCHEMA_ID \<and> now < ax_expires_at r) records)"

definition record_actions :: "action_record \<Rightarrow> pyitems list" where
  "record_actions r =
     (case ax_payload r of
        PDict d \<Rightarrow> (case item_get d ''actions'' PNone of
            PList items \<Rightarrow> concat (map (\<lambda>i. case i of PDict a \<Rightarrow> [a] | _ \<Rightarrow> []) (take MAX_ACTIONS items))
          | _ \<Rightarrow> [])
      | _ \<Rightarrow> [])"

record field_spec =
  fs_name :: string
  fs_label :: string
  fs_field_type :: string
  fs_component :: string
  fs_required :: bool
  fs_help_text :: "string option"
  fs_choices :: "string list"

text \<open>\<open>s.replace("_", " ").title()\<close>: a letter is a capital exactly when no letter is before it.\<close>

fun title_chars :: "bool \<Rightarrow> string \<Rightarrow> string" where
  "title_chars in_word [] = []"
| "title_chars in_word (c # cs) =
     (if is_lower c \<or> is_upper c
      then (if in_word then lower [c] else upper [c]) @ title_chars True cs
      else c # title_chars False cs)"

definition humanize :: "string \<Rightarrow> string" where
  "humanize name = title_chars False (map (\<lambda>c. if c = CHR ''_'' then CHR '' '' else c) name)"

definition text_or :: "pyval \<Rightarrow> string \<Rightarrow> string" where
  "text_or v fallback = (if truthy v then val_text v else fallback)"

definition schema_field :: "string set \<Rightarrow> atom \<times> pyval \<Rightarrow> field_spec list" where
  "schema_field required entry =
     (case entry of
        (AStr name, PDict raw) \<Rightarrow>
          (let field_type = val_text (item_get raw ''type'' (PStr ''string''));
               choices = (case item_get raw ''enum'' PNone of PList xs \<Rightarrow> map val_text xs | _ \<Rightarrow> []);
               description = item_get raw ''description'' PNone
           in if field_type \<notin> set SUPPORTED_TYPES then []
              else [\<lparr>fs_name = name, fs_label = text_or (item_get raw ''title'' PNone) (humanize name),
                fs_field_type = field_type,
                fs_component = (if item_get raw ''format'' PNone = PStr ''textarea'' then ''textarea''
                  else if choices \<noteq> [] then ''select'' else ''input''),
                fs_required = (name \<in> required),
                fs_help_text = (if truthy description then Some (val_text description) else None),
                fs_choices = choices\<rparr>])
      | _ \<Rightarrow> [])"

definition schema_fields :: "pyval \<Rightarrow> field_spec list" where
  "schema_fields schema =
     (case schema of
        PDict d \<Rightarrow>
          if item_get d ''type'' PNone \<noteq> PStr ''object'' then []
          else (case item_get d ''properties'' (PDict []) of
              PDict properties \<Rightarrow>
                (let required = (case item_get d ''required'' PNone of PList xs \<Rightarrow> val_text ` set xs | _ \<Rightarrow> {})
                 in concat (map (schema_field required) (take MAX_FIELDS properties)))
            | _ \<Rightarrow> [])
      | _ \<Rightarrow> [])"

section \<open>What is shown\<close>

record action_spec =
  as_name :: string
  as_label :: string
  as_url :: string
  as_enabled :: bool
  as_danger :: bool
  as_confirm :: "string option"
  as_disabled_reason :: "string option"
  as_input_fields :: "field_spec list"
  as_hidden_fields :: "(string \<times> string) list"

definition descriptor_id :: "int \<Rightarrow> string \<Rightarrow> string" where
  "descriptor_id record_id action_id = ''integration-'' @ int_text record_id @ ''-'' @ action_id"

definition action_spec_of :: "int \<Rightarrow> action_record \<Rightarrow> pyitems \<Rightarrow> action_spec list" where
  "action_spec_of run record action =
     (let action_id = strip (val_text (item_get action ''action_id'' (PStr [])));
          usable = truthy (item_get action ''available'' (PBool True));
          name = descriptor_id (ax_pk record) action_id;
          confirm = item_get action ''confirm'' PNone;
          reason = val_text (item_get action ''unavailable_reason'' (PStr []))
      in if action_id = [] \<or> val_text (item_get action ''target_kind'' (PStr ''run'')) \<noteq> ''run'' then []
         else [\<lparr>as_name = name, as_label = text_or (item_get action ''label'' PNone) (humanize action_id),
           as_url = ''/ui/runs/'' @ int_text run @ ''/actions/'' @ name @ ''/'', as_enabled = usable,
           as_danger = (val_text (item_get action ''safety'' (PStr ''mutating'')) = ''destructive''),
           as_confirm = (if truthy confirm then Some (val_text confirm) else None),
           as_disabled_reason = (if usable \<or> reason = [] then None else Some reason),
           as_input_fields = schema_fields (item_get action ''input_schema'' PNone),
           as_hidden_fields = [(''integration_action_record'', int_text (ax_pk record)),
             (''integration_action_id'', action_id)]\<rparr>])"

definition build_integration_action_specs ::
  "bool \<Rightarrow> actor option \<Rightarrow> int \<Rightarrow> action_record list \<Rightarrow> run \<Rightarrow> action_spec list" where
  "build_integration_action_specs require_login actor now records r =
     (if \<not> pr_allowed (can_resume_run require_login actor r) then []
      else concat (map (\<lambda>record. concat (map (action_spec_of (run_pk r) record) (record_actions record)))
        (active_action_records now (run_pk r) records)))"

section \<open>What is dispatched\<close>

definition coerce_field :: "(string \<Rightarrow> pyfloat option) \<Rightarrow> field_spec \<Rightarrow> string \<Rightarrow> pyval res" where
  "coerce_field float_of f v =
     (if fs_field_type f = ''integer'' then r_bind (int_of_text v) (\<lambda>i. Inr (PInt i))
      else if fs_field_type f = ''number''
      then (case float_of v of
          None \<Rightarrow> Inl (PlainExn ValueError_cls (''could not convert string to float: '' @ str_repr v))
        | Some x \<Rightarrow> Inr (PFloat x))
      else if fs_field_type f = ''boolean'' then Inr (PBool (lower v \<in> {''1'', ''true'', ''on'', ''yes''}))
      else if fs_choices f \<noteq> [] \<and> v \<notin> set (fs_choices f)
      then Inl (PlainExn ValueError_cls (''Invalid value for '' @ fs_label f))
      else Inr (PStr v))"

fun posted_payload :: "(string \<Rightarrow> pyfloat option) \<Rightarrow> (string \<Rightarrow> string) \<Rightarrow> pyitems \<Rightarrow> field_spec list \<Rightarrow> pyitems res" where
  "posted_payload float_of post payload [] = Inr payload"
| "posted_payload float_of post payload (f # fs) =
     (let raw = post (fs_name f)
      in if fs_required f \<and> strip raw = [] then Inl (PlainExn ValueError_cls (fs_label f @ '' is required''))
         else if raw \<noteq> [] \<or> fs_field_type f = ''boolean''
         then r_bind (coerce_field float_of f raw) (\<lambda>v.
           posted_payload float_of post (dict_set (AStr (fs_name f)) v payload) fs)
         else posted_payload float_of post payload fs)"

text \<open>\<open>str.isdigit\<close>: the superscripts are digits to it, and not to \<open>int\<close>.\<close>

definition isdigit :: "string \<Rightarrow> bool" where
  "isdigit s = (s \<noteq> [] \<and> list_all (\<lambda>c. is_digit c \<or> ord_of c \<in> {178, 179, 185}) s)"

definition lookup_error :: "string \<Rightarrow> exn" where
  "lookup_error msg = PlainExn (Other_cls ''LookupError'') msg"

definition parse_action_name :: "string \<Rightarrow> (int \<times> string) res" where
  "parse_action_name action_name =
     (if \<not> startswith ''integration-'' action_name then Inl (lookup_error ''Integration action is unavailable'')
      else (let remainder = drop 12 action_name; record_text = takeWhile (\<lambda>c. c \<noteq> CHR ''-'') remainder;
                action_id = drop (Suc (length record_text)) remainder
            in if CHR ''-'' \<notin> set remainder \<or> \<not> isdigit record_text \<or> action_id = []
               then Inl (lookup_error ''Integration action identity is invalid'')
               else r_bind (int_of_text record_text) (\<lambda>pk. Inr (pk, action_id))))"

definition selected_action ::
  "int \<Rightarrow> action_record list \<Rightarrow> run \<Rightarrow> string \<Rightarrow> (pyitems \<times> string) res" where
  "selected_action now records r action_name =
     r_bind (parse_action_name action_name) (\<lambda>(pk, action_id).
     (case List.find (\<lambda>x. ax_pk x = pk) (active_action_records now (run_pk r) records) of
        None \<Rightarrow> Inl (PlainExn PermissionError_cls ''Integration action is no longer available'')
      | Some record \<Rightarrow>
          (case List.find (\<lambda>a. val_text (item_get a ''action_id'' (PStr [])) = action_id) (record_actions record) of
             None \<Rightarrow> Inl (lookup_error ''Integration action descriptor is unavailable'')
           | Some descriptor \<Rightarrow>
               if \<not> truthy (item_get descriptor ''available'' (PBool True))
               then Inl (PlainExn PermissionError_cls
                 (val_text (item_get descriptor ''unavailable_reason'' (PStr ''Action unavailable''))))
               else if action_id \<noteq> ''resume''
               then Inl (lookup_error ''Integration action is not supported by the current router'')
               else Inr (descriptor, action_id))))"

definition descriptor_checkpoint :: "pyitems \<Rightarrow> string option" where
  "descriptor_checkpoint descriptor =
     (case item_get descriptor ''metadata'' PNone of
        PDict m \<Rightarrow> (let c = item_get m ''checkpoint_id'' PNone in if truthy c then Some (val_text c) else None)
      | _ \<Rightarrow> None)"

definition descriptor_payload :: "pyitems \<Rightarrow> pyitems" where
  "descriptor_payload descriptor = (case item_get descriptor ''payload'' (PDict []) of PDict d \<Rightarrow> d | _ \<Rightarrow> [])"

definition prepared_for_action :: "action_env \<Rightarrow> run \<Rightarrow> prepared_workflow res" where
  "prepared_for_action env r =
     r_bind (parse_workflow_reference (run_definition r)) (\<lambda>reference.
     case reference of
       None \<Rightarrow> Inl (lookup_error ''Workflow reference is unavailable'')
     | Some ref \<Rightarrow> ae_prepare env ref)"

definition dispatch_integration_action ::
  "string \<Rightarrow> action_env \<Rightarrow> (string \<Rightarrow> pyfloat option) \<Rightarrow> int \<Rightarrow> action_record list \<Rightarrow> run \<Rightarrow> string \<Rightarrow> (string \<Rightarrow> string)
     \<Rightarrow> job_state \<Rightarrow> job_state \<times> dispatched res" where
  "dispatch_integration_action execution_mode env float_of now records r action_name post s =
     (case r_bind (policy_or_raise (can_resume_run (ae_require_login env) (ae_actor env) r)) (\<lambda>_.
           r_bind (selected_action now records r action_name) (\<lambda>(descriptor, action_id).
           r_bind (prepared_for_action env r) (\<lambda>prepared.
           r_bind (r_guard (wo_resume (pw_object prepared) = None)
             (PlainExn PermissionError_cls ''Prepared workflow no longer supports resume'')) (\<lambda>_.
           r_bind (posted_payload float_of post (descriptor_payload descriptor)
             (schema_fields (item_get descriptor ''input_schema'' PNone))) (\<lambda>payload.
           Inr (payload, descriptor_checkpoint descriptor)))))) of
        Inl e \<Rightarrow> (s, Inl e)
      | Inr (payload, checkpoint_id) \<Rightarrow> dispatch_resume execution_mode env (run_pk r) payload checkpoint_id s)"

section \<open>What a form can make of the payload\<close>

definition field_conforms :: "field_spec \<Rightarrow> pyval \<Rightarrow> bool" where
  "field_conforms f v \<longleftrightarrow>
     (fs_field_type f = ''integer'' \<and> (\<exists>i. v = PInt i)
      \<or> fs_field_type f = ''number'' \<and> (\<exists>x. v = PFloat x)
      \<or> fs_field_type f = ''boolean'' \<and> (\<exists>b. v = PBool b)
      \<or> fs_field_type f = ''string'' \<and> (\<exists>t. v = PStr t \<and> (fs_choices f \<noteq> [] \<longrightarrow> t \<in> set (fs_choices f))))"

lemma coerce_field_conforms:
  assumes "coerce_field float_of f raw = Inr v" and "fs_field_type f \<in> set SUPPORTED_TYPES"
  shows "field_conforms f v"
  using assms by (auto simp: coerce_field_def field_conforms_def SUPPORTED_TYPES_def r_bind_eq_Inr split: if_splits option.splits)

lemma posted_payload_step:
  assumes "posted_payload float_of post base (g # fs) = Inr out"
  obtains (skipped) "posted_payload float_of post base fs = Inr out" "\<not> fs_required g"
  | (set_to) v where "coerce_field float_of g (post (fs_name g)) = Inr v"
      "posted_payload float_of post (dict_set (AStr (fs_name g)) v base) fs = Inr out"
      "fs_required g \<Longrightarrow> strip (post (fs_name g)) \<noteq> []"
proof (cases "fs_required g \<and> strip (post (fs_name g)) = []")
  case False
  show thesis
  proof (cases "post (fs_name g) \<noteq> [] \<or> fs_field_type g = ''boolean''")
    case True
    then show thesis using assms False set_to by (auto simp: Let_def r_bind_eq_Inr)
  next
    case empty: False
    then have "\<not> fs_required g" using False by (auto simp: strip_def)
    then show thesis using assms False empty skipped by (simp add: Let_def)
  qed
qed (use assms in simp)

lemma posted_payload_Inr:
  assumes "posted_payload float_of post base fs = Inr out"
  shows "map_of out k = Some v \<Longrightarrow> map_of base k = Some v
      \<or> (\<exists>f \<in> set fs. k = AStr (fs_name f) \<and> coerce_field float_of f (post (fs_name f)) = Inr v)"
    and "map_of base k \<noteq> None \<Longrightarrow> map_of out k \<noteq> None"
    and "f \<in> set fs \<Longrightarrow> fs_required f \<Longrightarrow> strip (post (fs_name f)) \<noteq> [] \<and> map_of out (AStr (fs_name f)) \<noteq> None"
proof -
  have "(map_of out k = Some v \<longrightarrow> map_of base k = Some v
        \<or> (\<exists>f \<in> set fs. k = AStr (fs_name f) \<and> coerce_field float_of f (post (fs_name f)) = Inr v))
      \<and> (\<forall>k. map_of base k \<noteq> None \<longrightarrow> map_of out k \<noteq> None)
      \<and> (\<forall>f \<in> set fs. fs_required f \<longrightarrow> strip (post (fs_name f)) \<noteq> [] \<and> map_of out (AStr (fs_name f)) \<noteq> None)"
    using assms
  proof (induction fs arbitrary: base)
    case (Cons g fs)
    from Cons.prems show ?case
    proof (cases rule: posted_payload_step)
      case skipped
      then show ?thesis using Cons.IH [OF skipped(1)] by auto
    next
      case (set_to w)
      note IH = Cons.IH [OF set_to(2)]
      have kept: "map_of out k \<noteq> None" if "map_of (dict_set (AStr (fs_name g)) w base) k \<noteq> None" for k
        using IH that by blast
      have "map_of out (AStr (fs_name g)) \<noteq> None" by (rule kept) (simp add: map_of_dict_set)
      moreover have "map_of out k \<noteq> None" if "map_of base k \<noteq> None" for k
        by (rule kept) (use that in \<open>simp add: map_of_dict_set\<close>)
      ultimately show ?thesis using IH set_to(1,3) by (auto simp: map_of_dict_set split: if_splits)
    qed
  qed simp
  then show "map_of out k = Some v \<Longrightarrow> map_of base k = Some v
      \<or> (\<exists>f \<in> set fs. k = AStr (fs_name f) \<and> coerce_field float_of f (post (fs_name f)) = Inr v)"
    "map_of base k \<noteq> None \<Longrightarrow> map_of out k \<noteq> None"
    "f \<in> set fs \<Longrightarrow> fs_required f \<Longrightarrow> strip (post (fs_name f)) \<noteq> [] \<and> map_of out (AStr (fs_name f)) \<noteq> None"
    by blast+
qed

text \<open>
  The payload in terms of the form: a field is posted when its text is not empty or it is a check box, and
  every posted field holds the posted text of its name in its type; any other key is the descriptor's.
\<close>

definition posted :: "(string \<Rightarrow> string) \<Rightarrow> field_spec \<Rightarrow> bool" where
  "posted post f \<longleftrightarrow> post (fs_name f) \<noteq> [] \<or> fs_field_type f = ''boolean''"

definition entered :: "(string \<Rightarrow> pyfloat option) \<Rightarrow> (string \<Rightarrow> string) \<Rightarrow> field_spec list \<Rightarrow> atom \<Rightarrow> pyval \<Rightarrow> bool" where
  "entered float_of post fs k v \<longleftrightarrow>
     (\<exists>f \<in> set fs. k = AStr (fs_name f) \<and> posted post f \<and> coerce_field float_of f (post (fs_name f)) = Inr v)"

definition form_payload ::
  "(string \<Rightarrow> pyfloat option) \<Rightarrow> (string \<Rightarrow> string) \<Rightarrow> pyitems \<Rightarrow> field_spec list \<Rightarrow> pyitems \<Rightarrow> bool" where
  "form_payload float_of post base fs out \<longleftrightarrow> (\<forall>k.
     if \<exists>f \<in> set fs. k = AStr (fs_name f) \<and> posted post f
     then \<exists>v. map_of out k = Some v \<and> entered float_of post fs k v
     else map_of out k = map_of base k)"

lemma posted_payload_form:
  "posted_payload float_of post base fs = Inr out \<Longrightarrow> form_payload float_of post base fs out"
proof (induction fs arbitrary: base)
  case Nil
  then show ?case by (simp add: form_payload_def)
next
  case (Cons g fs)
  show ?case
  proof (cases "posted post g")
    case True
    then obtain v where v: "coerce_field float_of g (post (fs_name g)) = Inr v"
      and rest: "posted_payload float_of post (dict_set (AStr (fs_name g)) v base) fs = Inr out"
      using Cons.prems by (auto simp: posted_def Let_def r_bind_eq_Inr split: if_splits)
    note IH = Cons.IH [OF rest, unfolded form_payload_def, rule_format]
    show ?thesis unfolding form_payload_def
    proof
      fix k
      show "if \<exists>f \<in> set (g # fs). k = AStr (fs_name f) \<and> posted post f
          then \<exists>v. map_of out k = Some v \<and> entered float_of post (g # fs) k v else map_of out k = map_of base k"
        using IH [of k] True v by (auto simp: entered_def map_of_dict_set split: if_splits)
    qed
  next
    case False
    then have "posted_payload float_of post base fs = Inr out"
      using Cons.prems by (auto simp: posted_def Let_def split: if_splits)
    then show ?thesis
      using Cons.IH [of base] False unfolding form_payload_def entered_def by (auto split: if_splits)
  qed
qed

lemma schema_field_supported: "f \<in> set (schema_field required e) \<Longrightarrow> fs_field_type f \<in> set SUPPORTED_TYPES"
proof -
  assume f: "f \<in> set (schema_field required e)"
  then obtain name raw where "e = (AStr name, PDict raw)"
    by (cases "fst e"; cases "snd e") (simp_all add: schema_field_def split_beta prod_eq_iff)
  then show ?thesis using f by (auto simp: schema_field_def Let_def split: if_splits)
qed

lemma schema_fields_supported: "f \<in> set (schema_fields schema) \<Longrightarrow> fs_field_type f \<in> set SUPPORTED_TYPES"
proof -
  assume "f \<in> set (schema_fields schema)"
  then obtain required es where "f \<in> set (concat (map (schema_field required) es))"
    by (cases schema) (auto simp: schema_fields_def Let_def split: pyval.splits if_splits)
  then show ?thesis using schema_field_supported by auto
qed

lemma selected_action_Inr:
  assumes "selected_action now records r action_name = Inr (descriptor, action_id)"
  shows "action_id = ''resume''"
    and "\<exists>record \<in> set records. ax_run record = run_pk r \<and> now < ax_expires_at record \<and> descriptor \<in> set (record_actions record)
      \<and> ax_schema_id record = ACTION_SCHEMA_ID \<and> parse_action_name action_name = Inr (ax_pk record, action_id)"
    and "truthy (item_get descriptor ''available'' (PBool True))"
    and "val_text (item_get descriptor ''action_id'' (PStr [])) = ''resume''"
proof -
  obtain pk where pk: "parse_action_name action_name = Inr (pk, action_id)"
    using assms by (cases "parse_action_name action_name")
      (auto simp: selected_action_def r_bind_def split: option.splits if_splits)
  obtain entry where e: "List.find (\<lambda>x. ax_pk x = pk) (active_action_records now (run_pk r) records) = Some entry"
    using assms pk by (auto simp: selected_action_def split: option.splits)
  have x: "List.find (\<lambda>a. val_text (item_get a ''action_id'' (PStr [])) = action_id) (record_actions entry) = Some descriptor"
    "truthy (item_get descriptor ''available'' (PBool True))" "action_id = ''resume''"
    using assms pk e by (auto simp: selected_action_def split: option.splits if_splits)
  then show "action_id = ''resume''" "truthy (item_get descriptor ''available'' (PBool True))" by simp_all
  show "\<exists>record \<in> set records. ax_run record = run_pk r \<and> now < ax_expires_at record \<and> descriptor \<in> set (record_actions record)
      \<and> ax_schema_id record = ACTION_SCHEMA_ID \<and> parse_action_name action_name = Inr (ax_pk record, action_id)"
  proof -
    have "entry \<in> set (active_action_records now (run_pk r) records)" "descriptor \<in> set (record_actions entry)"
      using e x(1) by (metis find_Some_iff nth_mem)+
    moreover have "ax_pk entry = pk" using e by (auto simp: find_Some_iff)
    ultimately show ?thesis using pk by (auto simp: active_action_records_def)
  qed
  show "val_text (item_get descriptor ''action_id'' (PStr [])) = ''resume''"
    using x(1,3) by (auto simp: find_Some_iff)
qed

end
