(* ===== verification/Integration_Properties.thy ===== *)
theory Integration_Properties
  imports Integrations Integration_Actions
begin

text \<open>
  The properties of workflow integrations: the providers a registry resolves, and the actions an
  integration offers on a waiting run.
\<close>

text \<open>
  C13. A provider that was resolved is installed in a supported version and has the definition
  registered under its name, and it stays the one resolved whatever is registered or resolved later,
  even when another installation would load another one. What fails leaves the registry as it was.
\<close>

theorem integration_resolution_is_stable:
  assumes "integrations_ok reg" and "resolve_integration inst reg i = (reg', r)"
  shows "integrations_ok reg' \<and> (case r of
      Inl e \<Rightarrow> reg' = reg
    | Inr p \<Rightarrow> (\<exists>a d. inspect_integration inst reg i = Inr a \<and> available a \<and> get_definition reg i = Inr d \<and> agrees d p
        \<and> (\<forall>inst' ops reg'' q. resolve_integration inst' (foldl integration_step reg' ops) i = (reg'', Inr q) \<longrightarrow> q = p)))"
proof (cases r)
  case (Inl e)
  then show ?thesis using resolve_integration_ok [OF assms] by simp
next
  case (Inr p)
  note res = assms(2) [unfolded Inr]
  obtain a where a: "inspect_integration inst reg i = Inr a" "available a" using resolved_is_available [OF res] by blast
  have ok: "integrations_ok reg'" "map_of (ir_providers reg') i = Some p" using resolve_integration_ok [OF assms(1) res] by simp_all
  then obtain d where d: "map_of (ir_definitions reg') i = Some d" "agrees d p" unfolding integrations_ok_def by blast
  have "ir_definitions reg' = ir_definitions reg"
    by (cases rule: resolve_integration_cases [OF assms(1), of inst i]) (use res in auto)
  then have "get_definition reg i = Inr d" using d(1) by (simp add: get_definition_def)
  then show ?thesis using ok(1) a d(2) resolution_stays [OF assms(1) res] Inr by auto
qed

definition native_installation :: "nat \<Rightarrow> nat installation" where
  "native_installation n = \<lparr>in_find_spec = (\<lambda>_. Inr True), in_version = (\<lambda>_. Some ''0.4.0''), in_matches = (\<lambda>_ _. Some True),
     in_load = (\<lambda>m a. Inr (if a = ''NATIVE_PROVIDER'' then Some \<lparr>wp_definition = NATIVE_INTEGRATION, wp_wrap = n\<rparr> else None))\<rparr>"

definition supported_registry :: "nat integration_registry" where
  "supported_registry = (case create_supported_workflow_integration_registry of Inr reg \<Rightarrow> reg | Inl _ \<Rightarrow> empty_integrations)"

lemma register_each_ok:
  "register_each register_definition reg ds = Inr reg' \<Longrightarrow> integrations_ok reg \<Longrightarrow> integrations_ok reg'"
proof (induction ds arbitrary: reg)
  case (Cons d ds)
  then show ?case using register_definition_ok [of reg d] by (auto split: prod.splits sum.splits)
qed simp

lemma supported_registry_ok: "integrations_ok supported_registry"
  using register_each_ok [OF _ empty_integrations_ok] empty_integrations_ok
  by (auto simp: supported_registry_def create_supported_workflow_integration_registry_def new_integration_registry_def
      r_bind_def split: sum.splits)

theorem integration_resolution_is_stable_witness:
  "map_sum (\<lambda>_. ()) wp_wrap (snd (resolve_integration (native_installation 2)
     (fst (resolve_integration (native_installation 1) supported_registry ''native'')) ''native'')) = Inr 1"
proof -
  have found: "map_sum (\<lambda>_. ()) wp_wrap (snd (resolve_integration (native_installation 1) supported_registry ''native'')) = Inr 1"
    "isl (snd (resolve_integration (native_installation 2)
      (fst (resolve_integration (native_installation 1) supported_registry ''native'')) ''native'')) = False"
    by code_simp+
  obtain reg' p where r: "resolve_integration (native_installation 1) supported_registry ''native'' = (reg', Inr p)" "wp_wrap p = 1"
    using found(1) by (cases "resolve_integration (native_installation 1) supported_registry ''native''";
        cases "snd (resolve_integration (native_installation 1) supported_registry ''native'')") auto
  obtain reg'' q where q: "resolve_integration (native_installation 2) (foldl integration_step reg' []) ''native'' = (reg'', Inr q)"
    using found(2) r by (cases "resolve_integration (native_installation 2) reg' ''native''";
        cases "snd (resolve_integration (native_installation 2) reg' ''native'')") auto
  have "\<forall>inst' ops reg'' q. resolve_integration inst' (foldl integration_step reg' ops) ''native'' = (reg'', Inr q) \<longrightarrow> q = p"
    using integration_resolution_is_stable [OF supported_registry_ok r(1)] by auto
  then have "q = p" using q by blast
  then show ?thesis using q r by simp
qed

text \<open>
  The health page lists no integration at all when the version of one installed distribution is not well
  formed: the exception of its inspection is not among those that the page turns into a status.
\<close>

definition odd_installation :: "nat installation" where
  "odd_installation = (native_installation 0)\<lparr>in_version := (\<lambda>d. Some (if d = ''langgraph'' then ''local'' else ''0.4.0'')),
     in_matches := (\<lambda>v _. if v = ''local'' then None else Some True)\<rparr>"

theorem one_odd_version_hides_all:
  "snd (build_integration_health_list odd_installation supported_registry)
   = Inl (integration_resolution_error ''Workflow integration version metadata is invalid.''
       ''WORKFLOW_INTEGRATION_VERSION_METADATA_INVALID'' [])"
  by code_simp

text \<open>
  C12. An integration action that is accepted resumes the waiting run it belongs to, by an actor who may, from an
  unexpired action record of that run and an available descriptor in it, those that the action's name
  gives, with the checkpoint of the descriptor. Its payload is the form's: every field of the descriptor's
  schema that is posted (with a text, or as a check box) holds what was posted under its own name, in the
  type of the field and for a text one of its choices; every other entry is the descriptor's own, and no
  required field is blank.
\<close>

theorem integration_action_is_checked:
  assumes "dispatch_integration_action mode env float_of now records r action_name post s = (s', Inr d)"
  shows "run_state r = WAITING \<and> pr_allowed (can_resume_run (ae_require_login env) (ae_actor env) r)
    \<and> (\<exists>entry \<in> set records. \<exists>descriptor \<in> set (record_actions entry). \<exists>fields payload.
        ax_run entry = run_pk r \<and> now < ax_expires_at entry \<and> ax_schema_id entry = ACTION_SCHEMA_ID
        \<and> parse_action_name action_name = Inr (ax_pk entry, ''resume'')
        \<and> val_text (item_get descriptor ''action_id'' (PStr [])) = ''resume''
        \<and> truthy (item_get descriptor ''available'' (PBool True))
        \<and> fields = schema_fields (item_get descriptor ''input_schema'' PNone)
        \<and> form_payload float_of post (descriptor_payload descriptor) fields payload
        \<and> (\<forall>f \<in> set fields. fs_required f \<longrightarrow> strip (post (fs_name f)) \<noteq> [])
        \<and> (\<forall>f \<in> set fields. \<forall>v. coerce_field float_of f (post (fs_name f)) = Inr v \<longrightarrow> field_conforms f v)
        \<and> dispatch_resume mode env (run_pk r) payload (descriptor_checkpoint descriptor) s = (s', Inr d))"
proof -
  obtain descriptor action_id payload where allowed: "pr_allowed (can_resume_run (ae_require_login env) (ae_actor env) r)"
    and sel: "selected_action now records r action_name = Inr (descriptor, action_id)"
    and pay: "posted_payload float_of post (descriptor_payload descriptor)
        (schema_fields (item_get descriptor ''input_schema'' PNone)) = Inr payload"
    and go: "dispatch_resume mode env (run_pk r) payload (descriptor_checkpoint descriptor) s = (s', Inr d)"
    using assms by (auto simp: dispatch_integration_action_def policy_or_raise_def r_bind_eq_Inr r_guard_eq_Inr split: sum.splits)
  obtain entry where entry: "entry \<in> set records" "ax_run entry = run_pk r" "now < ax_expires_at entry"
    "descriptor \<in> set (record_actions entry)" "ax_schema_id entry = ACTION_SCHEMA_ID"
    "parse_action_name action_name = Inr (ax_pk entry, ''resume'')"
    using selected_action_Inr(1,2) [OF sel] by blast
  let ?fields = "schema_fields (item_get descriptor ''input_schema'' PNone)"
  have required: "\<forall>f \<in> set ?fields. fs_required f \<longrightarrow> strip (post (fs_name f)) \<noteq> []"
    using posted_payload_Inr(3) [OF pay] by blast
  have types: "\<forall>f \<in> set ?fields. \<forall>v. coerce_field float_of f (post (fs_name f)) = Inr v \<longrightarrow> field_conforms f v"
    using coerce_field_conforms schema_fields_supported by blast
  have "run_state r = WAITING" using allowed policies_allow(2) by blast
  then show ?thesis
    using allowed entry selected_action_Inr(3,4) [OF sel] posted_payload_form [OF pay] required types go by blast
qed

definition waiting_run :: run where
  "waiting_run = \<lparr>run_pk = 1, run_workflow_id = 1,
     run_definition = PDict [(AStr ''workflow'', PDict [(AStr ''kind'', PStr ''demo'')])], run_state = WAITING,
     run_thread_id = [], run_input = [], run_output = [], run_error = [], run_started = Some 0, run_finished = None,
     run_updated = 0\<rparr>"

definition approval :: action_record where
  "approval = \<lparr>ax_pk = 5, ax_run = 1, ax_schema_id = ACTION_SCHEMA_ID, ax_expires_at = 9, ax_created_at = 1,
     ax_payload = PDict [(AStr ''actions'', PList [PDict [(AStr ''action_id'', PStr ''resume''),
       (AStr ''input_schema'', PDict [(AStr ''type'', PStr ''object''), (AStr ''required'', PList [PStr ''answer'']),
         (AStr ''properties'', PDict [(AStr ''answer'', PDict [(AStr ''enum'', PList [PStr ''yes'', PStr ''no''])])])])]])]\<rparr>"

definition approval_env :: action_env where
  "approval_env = \<lparr>ae_require_login = False, ae_actor = None,
     ae_prepare = (\<lambda>ref. Inr \<lparr>pw_kind = ref_kind ref, pw_object = \<lparr>wo_execute = None, wo_invoke = None, wo_call = None,
         wo_resume = Some (\<lambda>request ctx s. (s, Inr (Raw_Value (PDict (rq_value request)))))\<rparr>,
       pw_lifecycle_owner = ''control_plane'', pw_timeout = None, pw_generation = 1, pw_signature = []\<rparr>),
     ae_sink = (\<lambda>_. None)\<rparr>"

definition no_jobs :: job_state where
  "no_jobs = \<lparr>js_jobs = [], js_next_pk = 1, js_cp = \<lparr>cp_runs = [(1, waiting_run)], cp_active = [], cp_flags = {},
     cp_next_event = 0, cp_now = 5, cp_monotonic = 0, cp_events = []\<rparr>\<rparr>"

lemma approval_is_accepted:
  obtains s' d where "dispatch_integration_action ''worker'' approval_env (\<lambda>_. None) 3 [approval] waiting_run ''integration-5-resume''
      (\<lambda>_. ''yes'') no_jobs = (s', Inr d)"
proof -
  have "isl (snd (dispatch_integration_action ''worker'' approval_env (\<lambda>_. None) 3 [approval] waiting_run ''integration-5-resume''
      (\<lambda>_. ''yes'') no_jobs)) = False"
    by code_simp
  then show ?thesis
    using that by (cases "snd (dispatch_integration_action ''worker'' approval_env (\<lambda>_. None) 3 [approval] waiting_run
      ''integration-5-resume'' (\<lambda>_. ''yes'') no_jobs)") (auto simp: prod_eq_iff)
qed

theorem integration_action_is_checked_witness:
  "\<exists>payload checkpoint_id s' d. dispatch_resume ''worker'' approval_env 1 payload checkpoint_id no_jobs = (s', Inr d)"
proof -
  obtain s' d where "dispatch_integration_action ''worker'' approval_env (\<lambda>_. None) 3 [approval] waiting_run ''integration-5-resume''
      (\<lambda>_. ''yes'') no_jobs = (s', Inr d)"
    by (rule approval_is_accepted)
  from integration_action_is_checked [OF this] show ?thesis by (auto simp: waiting_run_def)
qed

text \<open>
  The choices of a field of another type than text are shown but not enforced: any number is accepted.
\<close>

theorem number_choices_are_not_enforced:
  assumes "fs_field_type f = ''integer''" and "int_of_text v = Inr i"
  shows "coerce_field float_of f v = Inr (PInt i)"
  using assms by (simp add: coerce_field_def)

end
