(* ===== verification/Provider_Streams.thy ===== *)
theory Provider_Streams
  imports Span_Frames Integrations Llm Run_Lifecycle
begin

text \<open>
  What the providers of workflow engines in integrations/workflows share. The workflow engine is not part of
  the repository: the values it hands over are Python values whose other objects are \<open>AObj\<close>, and what a
  provider asks of such an object, of the clock and of the cancellation flags is the record \<open>host\<close>. An
  execution iterates over what the engine streams (\<open>drain\<close>): each item may change the world, may
  never come, or be an exception, and the state of the stream is part of the world.
\<close>

section \<open>The host\<close>

record 't host =
  ho_flags :: "'t \<Rightarrow> nat set"
  ho_monotonic :: "'t \<Rightarrow> 't \<times> rat"
  ho_attribute :: "string \<Rightarrow> string \<Rightarrow> string \<Rightarrow> pyval option"
  ho_exception :: "string \<Rightarrow> string \<Rightarrow> bool"

definition check_control :: "'t host \<Rightarrow> execution_control option \<Rightarrow> 't \<Rightarrow> 't \<times> unit res" where
  "check_control h control t =
     (case control of
        None \<Rightarrow> (t, Inr ())
      | Some k \<Rightarrow> (case ho_monotonic h t of (t', now) \<Rightarrow> (t', control_check (ho_flags h t) now k)))"

text \<open>\<open>getattr(v, name, fallback)\<close>, for names that no built-in type has.\<close>

definition getattr_or :: "'t host \<Rightarrow> pyval \<Rightarrow> string \<Rightarrow> pyval \<Rightarrow> pyval" where
  "getattr_or h v name fallback =
     (case v of
        Atom (AObj t s) \<Rightarrow> (case ho_attribute h t s name of None \<Rightarrow> fallback | Some x \<Rightarrow> x)
      | _ \<Rightarrow> fallback)"

text \<open>\<open>list(v)\<close> and \<open>len(v)\<close>; other objects have neither.\<close>

fun iterate :: "pyval \<Rightarrow> pyval list res" where
  "iterate (PList xs) = Inr xs"
| "iterate (PTuple xs) = Inr xs"
| "iterate (PDict d) = Inr (map (Atom \<circ> fst) d)"
| "iterate (Atom (AStr s)) = Inr (map (\<lambda>c. PStr [c]) s)"
| "iterate (Atom (ABytes b)) = Inr (map (\<lambda>c. PInt (of_char c)) b)"
| "iterate v = Inl (PlainExn TypeError_cls (quoted (py_type_name v) @ '' object is not iterable''))"

fun len_of :: "pyval \<Rightarrow> int res" where
  "len_of (PList xs) = Inr (int (length xs))"
| "len_of (PTuple xs) = Inr (int (length xs))"
| "len_of (PDict d) = Inr (int (length d))"
| "len_of (Atom (AStr s)) = Inr (int (length s))"
| "len_of (Atom (ABytes b)) = Inr (int (length b))"
| "len_of v = Inl (PlainExn TypeError_cls (''object of type '' @ quoted (py_type_name v) @ '' has no len()''))"

text \<open>\<open>v or ()\<close>, and \<open>int(v or 0)\<close>.\<close>

definition or_no_items :: "pyval \<Rightarrow> pyval" where
  "or_no_items v = (if truthy v then v else PTuple [])"

definition int_or_zero :: "pyval \<Rightarrow> int res" where
  "int_or_zero v = (if truthy v then int_of_value v else Inr 0)"

text \<open>\<open>safe_run_error_message\<close> of any value.\<close>

definition error_value_message :: "'t host \<Rightarrow> pyval \<Rightarrow> string res" where
  "error_value_message h v =
     (if \<not> truthy v then Inr (safe_run_error_message ''Error'' [])
      else (case v of
          Atom (AStr s) \<Rightarrow> Inr (safe_run_error_message ''Error'' s)
        | Atom (AObj t s) \<Rightarrow>
            if ho_exception h t s then Inr (safe_run_error_message t s)
            else Inl (PlainExn AttributeError_cls (quoted t @ '' object has no attribute '' @ quoted ''splitlines''))
        | Atom (ABytes _) \<Rightarrow> Inl (PlainExn TypeError_cls ''cannot use a string pattern on a bytes-like object'')
        | _ \<Rightarrow> Inl (PlainExn AttributeError_cls
            (quoted (py_type_name v) @ '' object has no attribute '' @ quoted ''splitlines''))))"

section \<open>What an engine does to the tables\<close>

text \<open>It keeps them in order, and what stays pending because of it is its \<open>own\<close>.\<close>

definition tables_kept :: "('t \<Rightarrow> int set) \<Rightarrow> obs_state \<times> 't \<Rightarrow> obs_state \<times> 't \<Rightarrow> bool" where
  "tables_kept own w w' \<longleftrightarrow> (obs_ok (fst w) \<longrightarrow> kept (fst w) (fst w')
     \<and> pending (fst w') - own (snd w') \<subseteq> pending (fst w) - own (snd w))"

section \<open>Iterating over a stream\<close>

type_synonym ('w, 'i) stream = "'w \<Rightarrow> ('w \<times> 'i option res) option"

type_synonym ('a, 'w, 'i) item_handler = "'i \<Rightarrow> 'a \<times> 'w \<Rightarrow> ('a \<times> 'w) \<times> unit res"

partial_function (option) drain ::
  "('w, 'i) stream \<Rightarrow> ('a, 'w, 'i) item_handler \<Rightarrow> 'a \<Rightarrow> 'w \<Rightarrow> (('a \<times> 'w) \<times> unit res) option"
where
  "drain next handle a w =
     (case next w of
        None \<Rightarrow> None
      | Some (w, Inl e) \<Rightarrow> Some ((a, w), Inl e)
      | Some (w, Inr None) \<Rightarrow> Some ((a, w), Inr ())
      | Some (w, Inr (Some i)) \<Rightarrow>
          (case handle i (a, w) of
             (x, Inl e) \<Rightarrow> Some (x, Inl e)
           | (x, Inr _) \<Rightarrow> drain next handle (fst x) (snd x)))"

text \<open>The loop of at most so many turns, to run it with.\<close>

fun drain_within ::
  "nat \<Rightarrow> ('w, 'i) stream \<Rightarrow> ('a, 'w, 'i) item_handler \<Rightarrow> 'a \<Rightarrow> 'w \<Rightarrow> (('a \<times> 'w) \<times> unit res) option"
where
  "drain_within 0 next handle a w = None"
| "drain_within (Suc n) next handle a w =
     (case next w of
        None \<Rightarrow> None
      | Some (w, Inl e) \<Rightarrow> Some ((a, w), Inl e)
      | Some (w, Inr None) \<Rightarrow> Some ((a, w), Inr ())
      | Some (w, Inr (Some i)) \<Rightarrow>
          (case handle i (a, w) of
             (x, Inl e) \<Rightarrow> Some (x, Inl e)
           | (x, Inr _) \<Rightarrow> drain_within n next handle (fst x) (snd x)))"

lemma drain_within: "drain_within n nxt handle a w = Some y \<Longrightarrow> drain nxt handle a w = Some y"
proof (induction n arbitrary: a w)
  case (Suc n)
  then show ?case
    by (subst drain.simps) (auto split: option.splits sum.splits prod.splits)
qed simp

text \<open>
  The rule for loops: \<open>P\<close> holds at the head of the loop, \<open>Q\<close> of the state and the result when it is left.
\<close>

lemma drain_rule:
  assumes run: "drain nxt handle a w = Some (x, r)" and start: "P a w"
    and step: "\<And>a w w' y. P a w \<Longrightarrow> nxt w = Some (w', y) \<Longrightarrow> (case y of
        Inl e \<Rightarrow> Q (a, w') (Inl e)
      | Inr None \<Rightarrow> Q (a, w') (Inr ())
      | Inr (Some i) \<Rightarrow> (case handle i (a, w') of (z, Inl e) \<Rightarrow> Q z (Inl e) | (z, Inr _) \<Rightarrow> P (fst z) (snd z)))"
  shows "Q x r"
proof -
  have "nxt = nxt \<longrightarrow> handle = handle \<longrightarrow> P a w \<longrightarrow> Q (fst (x, r)) (snd (x, r))"
  proof (rule drain.raw_induct [where P = "\<lambda>n h a w y. n = nxt \<longrightarrow> h = handle \<longrightarrow> P a w \<longrightarrow> Q (fst y) (snd y)", OF _ run])
    fix dr n h a w y
    assume IH: "\<And>n h a w y. dr n h a w = Some y \<Longrightarrow> n = nxt \<longrightarrow> h = handle \<longrightarrow> P a w \<longrightarrow> Q (fst y) (snd y)"
      and body: "(case n w of None \<Rightarrow> None | Some (w, Inl e) \<Rightarrow> Some ((a, w), Inl e)
        | Some (w, Inr None) \<Rightarrow> Some ((a, w), Inr ())
        | Some (w, Inr (Some i)) \<Rightarrow> (case h i (a, w) of (x, Inl e) \<Rightarrow> Some (x, Inl e)
            | (x, Inr _) \<Rightarrow> dr n h (fst x) (snd x))) = Some y"
    show "n = nxt \<longrightarrow> h = handle \<longrightarrow> P a w \<longrightarrow> Q (fst y) (snd y)"
    proof (intro impI)
      assume n: "n = nxt" and h: "h = handle" and p: "P a w"
      obtain w' z where z: "nxt w = Some (w', z)" using body n by (auto split: option.splits)
      note s = step [OF p z]
      show "Q (fst y) (snd y)"
      proof (cases "\<exists>i. z = Inr (Some i)")
        case True
        then obtain i where i: "z = Inr (Some i)" by blast
        obtain b v r where hi: "handle i (a, w') = ((b, v), r)" by (metis surj_pair)
        show ?thesis
          using body s IH [of n h b v y] n h unfolding z i hi
          by (cases r) (auto simp: z i hi)
      next
        case False
        then show ?thesis using body s n z by (auto split: sum.splits option.splits)
      qed
    qed
  qed
  then show ?thesis using start by simp
qed

text \<open>Two loops whose turns keep a relation end alike.\<close>

lemma drain_sim:
  assumes run: "drain n1 h1 a w = Some (x, r)" and start: "R a w b v"
    and step: "\<And>a w b v w' y. R a w b v \<Longrightarrow> n1 w = Some (w', y) \<Longrightarrow> \<exists>v'. n2 v = Some (v', y) \<and> (case y of
        Inr (Some i) \<Rightarrow> (case (h1 i (a, w'), h2 i (b, v')) of (((a, w), r1), ((b, v), r2)) \<Rightarrow> r1 = r2 \<and> R a w b v)
      | _ \<Rightarrow> R a w' b v')"
  shows "\<exists>x'. drain n2 h2 b v = Some (x', r) \<and> R (fst x) (snd x) (fst x') (snd x')"
proof -
  define P where "P = (\<lambda>n h a w (y :: ('a \<times> 'b) \<times> unit res). n = n1 \<longrightarrow> h = h1 \<longrightarrow> (\<forall>b v. R a w b v \<longrightarrow>
    (\<exists>x'. drain n2 h2 b v = Some (x', snd y) \<and> R (fst (fst y)) (snd (fst y)) (fst x') (snd x'))))"
  have "P n1 h1 a w (x, r)"
  proof (rule drain.raw_induct [where P = P, OF _ run])
    fix dr n h a w y
    assume IH: "\<And>n h a w y. dr n h a w = Some y \<Longrightarrow> P n h a w y"
      and body: "(case n w of None \<Rightarrow> None | Some (w, Inl e) \<Rightarrow> Some ((a, w), Inl e)
        | Some (w, Inr None) \<Rightarrow> Some ((a, w), Inr ())
        | Some (w, Inr (Some i)) \<Rightarrow> (case h i (a, w) of (x, Inl e) \<Rightarrow> Some (x, Inl e)
            | (x, Inr _) \<Rightarrow> dr n h (fst x) (snd x))) = Some y"
    show "P n h a w y"
      unfolding P_def
    proof (intro impI allI)
      fix b v
      assume n: "n = n1" and h: "h = h1" and rel: "R a w b v"
      obtain w' z where z: "n1 w = Some (w', z)" using body n by (auto split: option.splits)
      obtain v' where v': "n2 v = Some (v', z)" and s: "case z of
          Inr (Some i) \<Rightarrow> (case (h1 i (a, w'), h2 i (b, v')) of (((a, w), r1), ((b, v), r2)) \<Rightarrow> r1 = r2 \<and> R a w b v)
        | _ \<Rightarrow> R a w' b v'"
        using step [OF rel z] by blast
      show "\<exists>x'. drain n2 h2 b v = Some (x', snd y) \<and> R (fst (fst y)) (snd (fst y)) (fst x') (snd x')"
      proof (cases "\<exists>i. z = Inr (Some i)")
        case True
        then obtain i where i: "z = Inr (Some i)" by blast
        obtain a1 w1 r1 where x1: "h1 i (a, w') = ((a1, w1), r1)" by (metis surj_pair)
        obtain b1 v1 r2 where x2: "h2 i (b, v') = ((b1, v1), r2)" by (metis surj_pair)
        have "r1 = r2" "R a1 w1 b1 v1" using s by (simp_all add: i x1 x2)
        then show ?thesis
          using body IH [of n h a1 w1 y, unfolded P_def] n h z v' by (subst drain.simps) (cases r2; auto simp: i x1 x2)
      next
        case False
        then show ?thesis
          using body s n z v' by (subst drain.simps) (auto split: sum.splits option.splits)
      qed
    qed
  qed
  then show ?thesis using start by (simp add: P_def)
qed

text \<open>A loop returns when its stream does and comes closer to its end with every turn.\<close>

lemma drain_returns:
  fixes m :: "'w \<Rightarrow> nat" and handle :: "('a, 'w, 'i) item_handler"
  assumes answers: "\<And>w. nxt w \<noteq> None"
    and closer: "\<And>a w w' i x r. nxt w = Some (w', Inr (Some i)) \<Longrightarrow> handle i (a, w') = (x, Inr r) \<Longrightarrow> m (snd x) < m w"
  shows "\<exists>x r. drain nxt handle a w = Some (x, r)"
proof (induction "m w" arbitrary: a w rule: less_induct)
  case less
  obtain w' y where y: "nxt w = Some (w', y)" using answers by fastforce
  show ?case
  proof (cases "\<exists>i. y = Inr (Some i)")
    case False
    then show ?thesis using y by (subst drain.simps) (auto split: sum.split option.split)
  next
    case True
    then obtain i where i: "y = Inr (Some i)" by blast
    obtain x r where h: "handle i (a, w') = (x, r)" by fastforce
    show ?thesis
    proof (cases r)
      case (Inl e)
      then show ?thesis using y i h by (subst drain.simps) simp
    next
      case (Inr u)
      then have "\<exists>z r. drain nxt handle (fst x) (snd x) = Some (z, r)"
        using less.hyps closer y i h by blast
      then show ?thesis using y i h Inr by (subst drain.simps) simp
    qed
  qed
qed

end
