(* ===== verification/LangGraph_Provider.thy ===== *)
theory LangGraph_Provider
  imports Provider_Streams
begin

text \<open>
  integrations/workflows/langgraph_provider.py: a compiled LangGraph graph behind the capabilities of a
  workflow. The graph is a parameter, what its \<open>stream()\<close> does when it is called and what each item of
  the stream does to the world. The world is the tables of the event sink beside the rest \<open>'t\<close>.
  Exceptions that are not \<open>Exception\<close>s are left out, and so is what a generator does when it is
  closed early.
\<close>

datatype graph_input = Graph_Input pyitems | Command_Resume pyitems

record 't graph =
  gr_stream :: "graph_input \<Rightarrow> pyitems \<Rightarrow> (obs_state \<times> 't) \<Rightarrow> (obs_state \<times> 't) \<times> unit res"
  gr_next :: "(obs_state \<times> 't, pyval) stream"

record 't langgraph_executable =
  le_graph :: "'t graph"
  le_workflow_kind :: string
  le_output_key :: "string option"
  le_invoke_config :: pyitems

section \<open>Helpers\<close>

definition INTERRUPT_KEY :: atom where "INTERRUPT_KEY = AStr ''__interrupt__''"

definition execution_config :: "pyitems \<Rightarrow> execution_context \<Rightarrow> pyitems" where
  "execution_config base context =
     (let configurable = (case item_get base ''configurable'' (PDict []) of PDict d \<Rightarrow> d | _ \<Rightarrow> []);
          run_text = (case cx_run_id context of None \<Rightarrow> ''langgraph''
            | Some r \<Rightarrow> if r = 0 then ''langgraph'' else int_text r);
          thread_id = (if cx_thread_id context = [] then run_text else cx_thread_id context)
      in dict_set (AStr ''configurable'') (PDict (dict_set (AStr ''thread_id'') (PStr thread_id) configurable)) base)"

definition stream_part :: "pyval \<Rightarrow> string \<times> pyval" where
  "stream_part item =
     (case item of
        PTuple [Atom (AStr mode), v] \<Rightarrow> (mode, v)
      | _ \<Rightarrow> (''debug'', item))"

definition configurable_value :: "pyval \<Rightarrow> string \<Rightarrow> pyval" where
  "configurable_value config key =
     (case config of
        PDict d \<Rightarrow> (case item_get d ''configurable'' PNone of PDict c \<Rightarrow> item_get c key (PStr []) | _ \<Rightarrow> PStr [])
      | _ \<Rightarrow> PStr [])"

definition checkpoint_reference :: "pyitems \<Rightarrow> pyitems" where
  "checkpoint_reference payload =
     (let config = item_get payload ''config'' PNone; parent = item_get payload ''parent_config'' PNone
      in [(AStr ''thread_id'', configurable_value config ''thread_id''),
          (AStr ''checkpoint_id'', configurable_value config ''checkpoint_id''),
          (AStr ''checkpoint_namespace'', configurable_value config ''checkpoint_ns''),
          (AStr ''parent_checkpoint_id'', configurable_value parent ''checkpoint_id'')])"

definition payload_checkpoint_id :: "pyitems \<Rightarrow> string" where
  "payload_checkpoint_id payload = val_text (item_get (checkpoint_reference payload) ''checkpoint_id'' (PStr []))"

definition metadata_value :: "pyitems \<Rightarrow> string \<Rightarrow> pyval" where
  "metadata_value payload key =
     (case item_get payload ''metadata'' PNone of PDict d \<Rightarrow> item_get d key (PStr []) | _ \<Rightarrow> PStr [])"

definition interrupt_id :: "'t host \<Rightarrow> pyval \<Rightarrow> string" where
  "interrupt_id h v =
     (case v of
        PDict d \<Rightarrow> val_text (item_get d ''id'' (PStr []))
      | _ \<Rightarrow> val_text (getattr_or h v ''id'' (PStr [])))"

definition type_mapping :: "pyval \<Rightarrow> pyval" where
  "type_mapping v = PDict [(AStr ''type'', PStr (py_type_name v))]"

definition mapping_summary :: "pyval \<Rightarrow> pyval" where
  "mapping_summary v =
     (case v of PDict d \<Rightarrow> pdict (summarize_mapping DEFAULT_MAX_DEPTH DEFAULT_MAX_ITEMS d) | _ \<Rightarrow> type_mapping v)"

definition summary_text :: "pyval \<Rightarrow> string" where
  "summary_text v = json_default (mapping_summary v)"

definition safe_interrupt :: "'t host \<Rightarrow> pyval \<Rightarrow> pyval" where
  "safe_interrupt h v =
     (let raw = getattr_or h v ''value'' v
      in case raw of
           PDict d \<Rightarrow> pdict (summarize_mapping DEFAULT_MAX_DEPTH DEFAULT_MAX_ITEMS d)
         | Atom (AStr _) \<Rightarrow> raw | Atom (AInt _) \<Rightarrow> raw | Atom (AFloat _) \<Rightarrow> raw | Atom (ABool _) \<Rightarrow> raw
         | Atom ANone \<Rightarrow> raw
         | _ \<Rightarrow> type_mapping raw)"

definition select_output :: "pyitems \<Rightarrow> string option \<Rightarrow> pyitems" where
  "select_output final_state output_key =
     (let state = filter (\<lambda>(k, _). k \<noteq> INTERRUPT_KEY) final_state
      in case output_key of
           None \<Rightarrow> state
         | Some k \<Rightarrow> (case item_get state k PNone of PDict d \<Rightarrow> d | selected \<Rightarrow> [(AStr k, selected)]))"

section \<open>What is observed\<close>

text \<open>The sink, the run and the parent span that an execution observes with.\<close>

record observer =
  ov_sink :: "obs_env option"
  ov_run_id :: "int option"
  ov_parent :: "span_ref option"

definition graph_node_started :: "observer \<Rightarrow> string \<Rightarrow> pyitems \<Rightarrow> obs_state \<Rightarrow> obs_state \<times> span_ref option" where
  "graph_node_started ob node_name metadata s =
     (case (ov_sink ob, ov_run_id ob) of
        (Some env, Some run_id) \<Rightarrow>
          (case span_started env run_id ''node'' node_name (Some node_name) (ov_parent ob) (Some metadata) s of
             (s, Inl _) \<Rightarrow> (s, None)
           | (s, Inr spn) \<Rightarrow> (s, Some spn))
      | _ \<Rightarrow> (s, None))"

definition graph_node_completed :: "observer \<Rightarrow> span_ref option \<Rightarrow> pyval \<Rightarrow> pyitems \<Rightarrow> obs_state \<Rightarrow> obs_state" where
  "graph_node_completed ob spn result metadata s =
     (case (ov_sink ob, spn) of
        (Some env, Some sp) \<Rightarrow> suppress_observability_failure (discard (span_completed env sp (Some (summary_text result))
          (Some [(AStr ''ok'', PBool True)]) (Some metadata))) s
      | _ \<Rightarrow> s)"

definition graph_node_failed :: "observer \<Rightarrow> span_ref option \<Rightarrow> string \<Rightarrow> pyitems \<Rightarrow> obs_state \<Rightarrow> obs_state" where
  "graph_node_failed ob spn error_message metadata s =
     (case (ov_sink ob, spn) of
        (Some env, Some sp) \<Rightarrow> suppress_observability_failure (discard (span_failed env sp error_message
          (Some [(AStr ''ok'', PBool False)]) (Some metadata))) s
      | _ \<Rightarrow> s)"

definition emit_graph_projection :: "observer \<Rightarrow> span_ref option \<Rightarrow> projection_args \<Rightarrow> obs_state \<Rightarrow> obs_state" where
  "emit_graph_projection ob spn a s =
     (case (ov_sink ob, ov_run_id ob) of
        (Some env, Some run_id) \<Rightarrow>
          suppress_observability_failure (discard (integration_projection env run_id spn a)) s
      | _ \<Rightarrow> s)"

definition graph_projection ::
  "string \<Rightarrow> string \<Rightarrow> string \<Rightarrow> string \<Rightarrow> pyitems \<Rightarrow> string \<Rightarrow> string \<Rightarrow> string \<Rightarrow> int \<Rightarrow> projection_args" where
  "graph_projection schema_id owner_kind owner_external_id title payload projection_kind subject_kind
     subject_external_id sequence =
     \<lparr>pa_integration_id = ''langgraph'', pa_schema_id = schema_id, pa_owner_kind = owner_kind,
      pa_owner_external_id = owner_external_id, pa_title = title, pa_payload = PDict payload,
      pa_retention_class = ''execution_detail'', pa_classification = ''internal'',
      pa_projection_kind = projection_kind, pa_subject_kind = subject_kind,
      pa_subject_external_id = subject_external_id, pa_sequence = sequence, pa_occurred_at = None\<rparr>"

section \<open>The items of the stream\<close>

text \<open>The local variables of the loop.\<close>

record graph_run =
  gv_spans :: "(string \<times> span_ref) list"
  gv_final_state :: pyitems
  gv_interrupts :: "pyval list"
  gv_completed_nodes :: "string list"
  gv_failed_nodes :: "string list"
  gv_latest_checkpoint_id :: string

definition new_graph_run :: graph_run where
  "new_graph_run = \<lparr>gv_spans = [], gv_final_state = [], gv_interrupts = [], gv_completed_nodes = [],
     gv_failed_nodes = [], gv_latest_checkpoint_id = []\<rparr>"

definition task_metadata :: "string \<Rightarrow> pyitems" where
  "task_metadata task_id = [(AStr ''integration_id'', PStr ''langgraph''), (AStr ''task_id'', PStr task_id)]"

definition checkpoint_projection :: "pyitems \<Rightarrow> pyitems \<Rightarrow> projection_args res" where
  "checkpoint_projection v payload =
     r_bind (iterate (item_get payload ''next'' (PTuple []))) (\<lambda>next_nodes.
     r_bind (len_of (item_get payload ''tasks'' (PTuple []))) (\<lambda>task_count.
     r_bind (int_or_zero (item_get v ''step'' PNone)) (\<lambda>step.
     Inr (graph_projection ''langgraph.checkpoint_ref.v1'' ''run'' (payload_checkpoint_id payload)
       ''LangGraph checkpoint''
       [(AStr ''step'', item_get v ''step'' PNone), (AStr ''checkpoint'', PDict (checkpoint_reference payload)),
        (AStr ''next_nodes'', PList next_nodes), (AStr ''task_count'', PInt task_count),
        (AStr ''source'', metadata_value payload ''source'')]
       ''reference'' ''checkpoint'' (payload_checkpoint_id payload) step))))"

definition handle_checkpoint ::
  "observer \<Rightarrow> pyitems \<Rightarrow> pyitems \<Rightarrow> graph_run \<times> obs_state \<Rightarrow> (graph_run \<times> obs_state) \<times> unit res" where
  "handle_checkpoint ob v payload x =
     (case x of (g, s) \<Rightarrow>
        (let i = payload_checkpoint_id payload;
             g = (if i = [] then g else g\<lparr>gv_latest_checkpoint_id := i\<rparr>)
         in case checkpoint_projection v payload of
              Inl e \<Rightarrow> ((g, s), Inl e)
            | Inr a \<Rightarrow> ((g, emit_graph_projection ob None a s), Inr ())))"

definition handle_task ::
  "observer \<Rightarrow> pyitems \<Rightarrow> pyitems \<Rightarrow> graph_run \<times> obs_state \<Rightarrow> (graph_run \<times> obs_state) \<times> unit res" where
  "handle_task ob v payload x =
     (let task_id = val_text (item_get payload ''id'' (PStr []));
          node_name = val_text (item_get payload ''name'' (PStr []))
      in if task_id = [] \<or> node_name = [] then (x, Inr ())
         else (case iterate (item_get payload ''triggers'' (PTuple [])) of
             Inl e \<Rightarrow> (x, Inl e)
           | Inr triggers \<Rightarrow>
               (case graph_node_started ob node_name
                   (task_metadata task_id @ [(AStr ''step'', item_get v ''step'' PNone), (AStr ''triggers'', PTuple triggers),
                      (AStr ''input_summary'', mapping_summary (item_get payload ''input'' PNone))]) (snd x) of
                  (s, spn) \<Rightarrow>
                    (let g = (case spn of None \<Rightarrow> fst x
                         | Some sp \<Rightarrow> (fst x)\<lparr>gv_spans := dict_set task_id sp (gv_spans (fst x))\<rparr>)
                     in case int_or_zero (item_get v ''step'' PNone) of
                          Inl e \<Rightarrow> ((g, s), Inl e)
                        | Inr step \<Rightarrow>
                            ((g, emit_graph_projection ob spn
                               (graph_projection ''langgraph.task.v1'' ''execution_unit'' task_id (''LangGraph node: '' @ node_name)
                                 [(AStr ''task_id'', PStr task_id), (AStr ''node_name'', PStr node_name),
                                  (AStr ''status'', PStr ''running''), (AStr ''step'', item_get v ''step'' PNone),
                                  (AStr ''triggers'', PList triggers)]
                                 ''snapshot'' ''execution_unit'' node_name (step * 10)) s), Inr ())))))"

text \<open>The end of the node's span, with the error message where the task failed.\<close>

definition end_task_span ::
  "'t host \<Rightarrow> observer \<Rightarrow> string \<Rightarrow> string \<Rightarrow> pyitems \<Rightarrow> span_ref option \<Rightarrow> graph_run \<times> obs_state
     \<Rightarrow> (graph_run \<times> obs_state) \<times> unit res" where
  "end_task_span h ob task_id node_name payload spn x =
     (let error = item_get payload ''error'' PNone; task_interrupts = item_get payload ''interrupts'' PNone
      in if truthy error
         then (let g = (fst x)\<lparr>gv_failed_nodes := gv_failed_nodes (fst x) @ [node_name]\<rparr>
           in case error_value_message h error of
                Inl e \<Rightarrow> ((g, snd x), Inl e)
              | Inr m \<Rightarrow> ((g, graph_node_failed ob spn m (task_metadata task_id) (snd x)), Inr ()))
         else (let g = (fst x)\<lparr>gv_completed_nodes := gv_completed_nodes (fst x) @ [node_name]\<rparr>
           in case len_of (or_no_items task_interrupts) of
                Inl e \<Rightarrow> ((g, snd x), Inl e)
              | Inr n \<Rightarrow> ((g, graph_node_completed ob spn (item_get payload ''result'' PNone)
                  (task_metadata task_id @ [(AStr ''interrupt_count'', PInt n)]) (snd x)), Inr ())))"

definition task_result_projection ::
  "'t host \<Rightarrow> string \<Rightarrow> string \<Rightarrow> pyitems \<Rightarrow> pyitems \<Rightarrow> projection_args res" where
  "task_result_projection h task_id node_name v payload =
     (let error = item_get payload ''error'' PNone; task_interrupts = item_get payload ''interrupts'' PNone
      in r_bind (if truthy error then error_value_message h error else Inr []) (\<lambda>message.
         r_bind (len_of (or_no_items task_interrupts)) (\<lambda>interrupt_count.
         r_bind (int_or_zero (item_get v ''step'' PNone)) (\<lambda>step.
         Inr (graph_projection ''langgraph.task.v1'' ''execution_unit'' task_id (''LangGraph node: '' @ node_name)
           [(AStr ''task_id'', PStr task_id), (AStr ''node_name'', PStr node_name),
            (AStr ''status'', PStr (if truthy error then ''failed''
               else if truthy task_interrupts then ''waiting'' else ''succeeded'')),
            (AStr ''error'', PStr message), (AStr ''interrupt_count'', PInt interrupt_count),
            (AStr ''result_summary'', mapping_summary (item_get payload ''result'' PNone))]
           ''snapshot'' ''execution_unit'' node_name (step * 10 + 1))))))"

definition interrupt_projection :: "'t host \<Rightarrow> string \<Rightarrow> string \<Rightarrow> int \<Rightarrow> pyval \<Rightarrow> projection_args" where
  "interrupt_projection h task_id node_name step v =
     (let i = interrupt_id h v; owner = (if i = [] then task_id else i)
      in graph_projection ''langgraph.interrupt.v1'' ''interaction'' owner ''LangGraph interrupt''
           [(AStr ''task_id'', PStr task_id), (AStr ''node_name'', PStr node_name), (AStr ''interrupt_id'', PStr i),
            (AStr ''value'', safe_interrupt h v)]
           ''snapshot'' ''interaction'' owner (step * 10 + 2))"

definition handle_task_result ::
  "'t host \<Rightarrow> observer \<Rightarrow> pyitems \<Rightarrow> pyitems \<Rightarrow> graph_run \<times> obs_state \<Rightarrow> (graph_run \<times> obs_state) \<times> unit res" where
  "handle_task_result h ob v payload x =
     (let task_id = val_text (item_get payload ''id'' (PStr []));
          node_name = val_text (item_get payload ''name'' (PStr []));
          task_interrupts = item_get payload ''interrupts'' PNone;
          new = (case task_interrupts of PList xs \<Rightarrow> xs | PTuple xs \<Rightarrow> xs | _ \<Rightarrow> []);
          spn = map_of (gv_spans (fst x)) task_id;
          g = (fst x)\<lparr>gv_interrupts := gv_interrupts (fst x) @ new, gv_spans := dict_pop task_id (gv_spans (fst x))\<rparr>
      in case end_task_span h ob task_id node_name payload spn (g, snd x) of
           (y, Inl e) \<Rightarrow> (y, Inl e)
         | ((g, s), Inr _) \<Rightarrow>
             (case task_result_projection h task_id node_name v payload of
                Inl e \<Rightarrow> ((g, s), Inl e)
              | Inr a \<Rightarrow>
                  (let s = emit_graph_projection ob spn a s
                   in case r_bind (iterate (or_no_items task_interrupts)) (\<lambda>xs.
                        r_bind (if xs = [] then Inr 0 else int_or_zero (item_get v ''step'' PNone)) (\<lambda>step.
                        Inr (map (interrupt_projection h task_id node_name step) xs))) of
                        Inl e \<Rightarrow> ((g, s), Inl e)
                      | Inr projections \<Rightarrow> ((g, fold (emit_graph_projection ob spn) projections s), Inr ()))))"

definition handle_stream_item ::
  "'t host \<Rightarrow> observer \<Rightarrow> pyval \<Rightarrow> graph_run \<times> obs_state \<Rightarrow> (graph_run \<times> obs_state) \<times> unit res" where
  "handle_stream_item h ob item x =
     (case stream_part item of
        (mode, PDict v) \<Rightarrow>
          if mode = ''values'' then (((fst x)\<lparr>gv_final_state := v\<rparr>, snd x), Inr ())
          else if mode \<noteq> ''debug'' then (x, Inr ())
          else (case item_get v ''payload'' PNone of
              PDict payload \<Rightarrow>
                (let event_type = val_text (item_get v ''type'' (PStr []))
                 in if event_type = ''checkpoint'' then handle_checkpoint ob v payload x
                    else if event_type = ''task'' then handle_task ob v payload x
                    else if event_type = ''task_result'' then handle_task_result h ob v payload x
                    else (x, Inr ()))
            | _ \<Rightarrow> (x, Inr ()))
      | _ \<Rightarrow> (x, Inr ()))"

text \<open>One turn of the loop: the check of the control, then the item.\<close>

definition graph_turn ::
  "'t host \<Rightarrow> observer \<Rightarrow> execution_control option \<Rightarrow> (graph_run, obs_state \<times> 't, pyval) item_handler" where
  "graph_turn h ob control item x =
     (case x of (g, (s, t)) \<Rightarrow>
        (case check_control h control t of
           (t, Inl e) \<Rightarrow> ((g, (s, t)), Inl e)
         | (t, Inr _) \<Rightarrow> (case handle_stream_item h ob item (g, s) of ((g, s), r) \<Rightarrow> ((g, (s, t)), r))))"

section \<open>Execution\<close>

text \<open>The handler of the \<open>try\<close>: every span that is open is failed.\<close>

definition fail_open_spans :: "observer \<Rightarrow> string \<Rightarrow> (string \<times> span_ref) list \<Rightarrow> obs_state \<Rightarrow> obs_state" where
  "fail_open_spans ob safe_message spans =
     fold (\<lambda>(task_id, sp). graph_node_failed ob (Some sp) safe_message (task_metadata task_id)) spans"

definition all_interrupts :: "graph_run \<Rightarrow> pyval list" where
  "all_interrupts g =
     (let raw = item_get (gv_final_state g) ''__interrupt__'' PNone
      in if gv_interrupts g \<noteq> [] \<or> \<not> truthy raw then gv_interrupts g
         else (case raw of PList xs \<Rightarrow> xs | PTuple xs \<Rightarrow> xs | _ \<Rightarrow> [raw]))"

definition resume_descriptor :: "string \<Rightarrow> pyitems" where
  "resume_descriptor latest_checkpoint_id =
     [(AStr ''action_id'', PStr ''resume''), (AStr ''target_kind'', PStr ''run''), (AStr ''label'', PStr ''Resume''),
      (AStr ''safety'', PStr ''mutating''), (AStr ''available'', PBool True),
      (AStr ''input_schema'', PDict [(AStr ''type'', PStr ''object''), (AStr ''properties'', PDict
         [(AStr ''value'', PDict [(AStr ''type'', PStr ''string''), (AStr ''title'', PStr ''Resume value''),
            (AStr ''format'', PStr ''textarea''),
            (AStr ''description'', PStr ''Value supplied to the waiting workflow.'')])])]),
      (AStr ''metadata'', PDict [(AStr ''checkpoint_id'', PStr latest_checkpoint_id),
         (AStr ''integration_id'', PStr ''langgraph'')])]"

definition actions_projection :: "'t host \<Rightarrow> graph_run \<Rightarrow> projection_args" where
  "actions_projection h g =
     (graph_projection ''integration.actions.v1'' ''interaction''
        (case all_interrupts g of [] \<Rightarrow> gv_latest_checkpoint_id g | i # _ \<Rightarrow> interrupt_id h i)
        ''Available workflow actions''
        [(AStr ''actions'', PList [PDict (resume_descriptor (gv_latest_checkpoint_id g))])]
        ''action'' ''action'' ''resume'' 0)\<lparr>pa_retention_class := ''transient''\<rparr>"

definition is_paused :: "graph_run \<Rightarrow> bool" where
  "is_paused g = (gv_interrupts g \<noteq> [] \<or> truthy (item_get (gv_final_state g) ''__interrupt__'' PNone))"

definition graph_result :: "'t host \<Rightarrow> 't langgraph_executable \<Rightarrow> bool \<Rightarrow> graph_run \<Rightarrow> workflow_result res" where
  "graph_result h x resumed g =
     (let selected = select_output (gv_final_state g) (le_output_key x);
          out = (if is_paused g
            then dict_set (AStr ''allowed_actions'') (PList [PStr ''resume''])
              (dict_set (AStr ''interrupts'') (PList (map (safe_interrupt h) (all_interrupts g))) selected)
            else selected)
      in WorkflowExecutionResult out
           [(AStr ''integration_id'', PStr ''langgraph''), (AStr ''workflow_kind'', PStr (le_workflow_kind x)),
            (AStr ''resumed'', PBool resumed), (AStr ''completed_nodes'', PList (map PStr (gv_completed_nodes g))),
            (AStr ''failed_nodes'', PList (map PStr (gv_failed_nodes g))),
            (AStr ''interrupt_count'', PInt (int (length (all_interrupts g)))),
            (AStr ''last_step_name'', PStr (if gv_completed_nodes g = [] then [] else last (gv_completed_nodes g)))]
           (if is_paused g then ''paused'' else ''completed''))"

definition finish_graph ::
  "'t host \<Rightarrow> observer \<Rightarrow> 't langgraph_executable \<Rightarrow> bool \<Rightarrow> (graph_run \<times> (obs_state \<times> 't)) \<times> unit res
     \<Rightarrow> (obs_state \<times> 't) \<times> workflow_result res" where
  "finish_graph h ob x resumed y =
     (case y of
        ((g, (s, t)), Inl e) \<Rightarrow> ((fail_open_spans ob (safe_error e) (gv_spans g) s, t), Inl e)
      | ((g, (s, t)), Inr _) \<Rightarrow>
          ((if is_paused g then emit_graph_projection ob None (actions_projection h g) s else s, t),
           graph_result h x resumed g))"

definition run_graph ::
  "'t host \<Rightarrow> obs_env option \<Rightarrow> span_ref option \<Rightarrow> 't langgraph_executable \<Rightarrow> graph_input \<Rightarrow> execution_context \<Rightarrow> bool
     \<Rightarrow> obs_state \<times> 't \<Rightarrow> ((obs_state \<times> 't) \<times> workflow_result res) option" where
  "run_graph h sink parent x graph_input context resumed w =
     (let ob = \<lparr>ov_sink = sink, ov_run_id = cx_run_id context, ov_parent = parent\<rparr>
      in case gr_stream (le_graph x) graph_input (execution_config (le_invoke_config x) context) w of
           (w, Inl e) \<Rightarrow> Some (w, Inl e)
         | (w, Inr _) \<Rightarrow> map_option (finish_graph h ob x resumed)
             (drain (gr_next (le_graph x)) (graph_turn h ob (cx_control context)) new_graph_run w))"

definition langgraph_execute ::
  "'t host \<Rightarrow> obs_env option \<Rightarrow> span_ref option \<Rightarrow> 't langgraph_executable \<Rightarrow> pyitems \<Rightarrow> execution_context
     \<Rightarrow> obs_state \<times> 't \<Rightarrow> ((obs_state \<times> 't) \<times> workflow_result res) option" where
  "langgraph_execute h sink parent x input_payload context =
     run_graph h sink parent x (Graph_Input input_payload) context False"

definition langgraph_resume ::
  "'t host \<Rightarrow> obs_env option \<Rightarrow> span_ref option \<Rightarrow> 't langgraph_executable \<Rightarrow> resume_request \<Rightarrow> execution_context
     \<Rightarrow> obs_state \<times> 't \<Rightarrow> ((obs_state \<times> 't) \<times> workflow_result res) option" where
  "langgraph_resume h sink parent x request context =
     run_graph h sink parent x (Command_Resume (rq_value request)) context True"

text \<open>\<open>wrap\<close>: a target without a callable \<open>stream\<close> is none.\<close>

definition langgraph_wrap :: "'t graph option \<Rightarrow> integration_context \<Rightarrow> 't langgraph_executable res" where
  "langgraph_wrap target context =
     (let fail = (\<lambda>m. Inl (PlainExn TypeError_cls m))
      in case target of
           None \<Rightarrow> fail ''LangGraph integration target must expose stream()''
         | Some graph \<Rightarrow>
             (case (item_get (ig_config context) ''output_key'' PNone, item_get (ig_config context) ''invoke_config'' (PDict [])) of
                (Atom ANone, PDict d) \<Rightarrow>
                  Inr \<lparr>le_graph = graph, le_workflow_kind = ig_workflow_kind context, le_output_key = None, le_invoke_config = d\<rparr>
              | (Atom (AStr k), PDict d) \<Rightarrow>
                  Inr \<lparr>le_graph = graph, le_workflow_kind = ig_workflow_kind context, le_output_key = Some k, le_invoke_config = d\<rparr>
              | (Atom ANone, _) \<Rightarrow> fail ''LangGraph integration invoke_config must be a mapping''
              | (Atom (AStr _), _) \<Rightarrow> fail ''LangGraph integration invoke_config must be a mapping''
              | _ \<Rightarrow> fail ''LangGraph integration output_key must be a string''))"

end
