(* ===== verification/LangGraph_Spans.thy ===== *)
theory LangGraph_Spans
  imports LangGraph_Provider
begin

text \<open>
  What an execution of a LangGraph graph does to the spans of the tables: the spans it holds are those of
  the tasks that are open, and no other span stays pending because of it. The graph reports each task
  once before its result (\<open>reports_tasks\<close>); it may start and end spans of its own.
\<close>

section \<open>The calls on the sink\<close>

lemma observer_kept:
  assumes "obs_ok s"
  shows "kept s (fst (graph_node_started ob name md s))" and "kept s (graph_node_completed ob spn v md s)"
    and "kept s (graph_node_failed ob spn m md s)" and "kept s (emit_graph_projection ob spn a s)"
proof -
  note calls = sink_call_kept [OF assms] kept_refl [OF assms]
  show "kept s (fst (graph_node_started ob name md s))"
  proof (cases "ov_sink ob")
    case (Some env)
    show ?thesis
    proof (cases "ov_run_id ob")
      case (Some r)
      obtain t y where y: "span_started env r ''node'' name (Some name) (ov_parent ob) (Some md) s = (t, y)" by fastforce
      then have "kept s t" using calls(4) by (metis fst_conv)
      then show ?thesis using \<open>ov_sink ob = Some env\<close> Some y by (cases y) (simp_all add: graph_node_started_def)
    qed (use calls(5) in \<open>simp add: graph_node_started_def split: option.split\<close>)
  qed (use calls(5) in \<open>simp add: graph_node_started_def\<close>)
  show "kept s (graph_node_completed ob spn v md s)" "kept s (graph_node_failed ob spn m md s)"
    "kept s (emit_graph_projection ob spn a s)"
    using calls by (simp_all add: graph_node_completed_def graph_node_failed_def emit_graph_projection_def
        suppress_observability_failure_def discard_fst split: option.split)
qed

lemma emit_graph_pending: "pending (emit_graph_projection ob spn a s) = pending s"
  by (simp add: emit_graph_projection_def suppress_observability_failure_def discard_fst projection_pending split: option.split)

lemma emit_each:
  "obs_ok s \<Longrightarrow> kept s (fold (emit_graph_projection ob spn) as s) \<and> pending (fold (emit_graph_projection ob spn) as s) = pending s"
proof (induction as arbitrary: s)
  case (Cons a as)
  note k = observer_kept(4) [OF Cons.prems, of ob spn a]
  then have "obs_ok (emit_graph_projection ob spn a s)" by (simp add: kept_def)
  from Cons.IH [OF this] show ?case using kept_trans [OF k] by (simp add: emit_graph_pending)
qed (simp add: kept_refl)

section \<open>Spans of open tasks\<close>

lemma watched_emit: "watched s0 Y spans s \<Longrightarrow> watched s0 Y spans (emit_graph_projection ob spn a s)"
  by (rule watched_step, assumption) (use watched_ok(1) observer_kept(4) emit_graph_pending in blast)+

lemma watched_emits: "watched s0 Y spans s \<Longrightarrow> watched s0 Y spans (fold (emit_graph_projection ob spn) as s)"
  using emit_each [OF watched_ok(1), of s0 Y spans s ob spn as] watched_step [of s0 Y spans s] by fastforce

lemma watched_start:
  assumes w: "watched s0 Y spans s" and fresh: "i \<notin> fst ` set spans"
    and ob: "ov_sink ob = Some env" "ov_run_id ob = Some run" "accepts env"
    and run: "run \<in> known (os_runs s0)" and parent: "parent_ok (ov_parent ob) s0"
  obtains sp t where "graph_node_started ob name md s = (t, Some sp)" "watched s0 Y (dict_set i sp spans) t"
proof -
  obtain sp t where "span_started env run ''node'' name (Some name) (ov_parent ob) (Some md) s = (t, Inr sp)"
    "watched s0 Y (dict_set i sp spans) t"
    by (rule watched_started [OF w fresh ob(3) run parent])
  then show ?thesis using that ob by (simp add: graph_node_started_def)
qed

lemma end_node_pending:
  assumes "ov_sink ob = Some env" and "accepts env" and "obs_ok s" and "pk \<in> known (os_spans s)"
  shows "pending (graph_node_completed ob (Some (int_text pk)) v md s) = pending s - {pk}"
    and "pending (graph_node_failed ob (Some (int_text pk)) m md s) = pending s - {pk}"
  using ended_pending [OF assms(2-4)] assms(1)
  by (simp_all add: graph_node_completed_def graph_node_failed_def suppress_observability_failure_def discard_fst)

lemma no_node_pending:
  "graph_node_completed ob None v md s = s" "graph_node_failed ob None m md s = s"
  by (simp_all add: graph_node_completed_def graph_node_failed_def split: option.split)

text \<open>The handler of the \<open>try\<close>.\<close>

lemma fail_open_spans_pending:
  assumes "ov_sink ob = Some env" and "accepts env"
  shows "obs_ok s \<Longrightarrow> spans_live spans s \<Longrightarrow> kept s (fail_open_spans ob m spans s)
    \<and> pending (fail_open_spans ob m spans s) = pending s - span_rows spans"
proof (induction spans arbitrary: s)
  case Nil
  then show ?case by (simp add: fail_open_spans_def kept_refl span_rows_def)
next
  case (Cons e spans)
  obtain i pk where e: "e = (i, int_text pk)" "pk \<in> known (os_spans s)"
    using Cons.prems(2) by (cases e) (auto simp: spans_live_def)
  let ?t = "graph_node_failed ob (Some (int_text pk)) m (task_metadata i) s"
  have k: "kept s ?t" by (rule observer_kept(3) [OF Cons.prems(1)])
  have "spans_live spans s" using Cons.prems(2) by (simp add: spans_live_def)
  then have "spans_live spans ?t" using spans_live_grows k by (auto simp: kept_def)
  moreover have "obs_ok ?t" using k by (simp add: kept_def)
  ultimately have "kept ?t (fail_open_spans ob m spans ?t) \<and> pending (fail_open_spans ob m spans ?t) = pending ?t - span_rows spans"
    by (rule Cons.IH [rotated])
  moreover have "pending ?t = pending s - {pk}" by (rule end_node_pending(2) [OF assms Cons.prems(1) e(2)])
  moreover have "span_rows (e # spans) = insert pk (span_rows spans)"
    using e(1) by (auto simp: span_rows_def int_text_eq)
  ultimately show ?case using kept_trans [OF k] e(1) by (auto simp: fail_open_spans_def)
qed

section \<open>Items\<close>

datatype task_event = No_Task | Task_Reported string | Task_Finished string pyitems

text \<open>What an item says of a task.\<close>

definition task_event :: "pyval \<Rightarrow> task_event" where
  "task_event item =
     (case stream_part item of
        (mode, PDict v) \<Rightarrow>
          (case item_get v ''payload'' PNone of
             PDict payload \<Rightarrow>
               (let event_type = val_text (item_get v ''type'' (PStr []));
                    task_id = val_text (item_get payload ''id'' (PStr []));
                    node_name = val_text (item_get payload ''name'' (PStr []))
                in if mode \<noteq> ''debug'' then No_Task
                   else if event_type = ''task'' \<and> task_id \<noteq> [] \<and> node_name \<noteq> [] then Task_Reported task_id
                   else if event_type = ''task_result'' then Task_Finished task_id payload
                   else No_Task)
           | _ \<Rightarrow> No_Task)
      | _ \<Rightarrow> No_Task)"

text \<open>
  \<open>O\<close> are the tasks reported and not finished. The error of a result is a text, an exception or nothing,
  and its interrupts have a length.
\<close>

definition reports_item :: "'t host \<Rightarrow> pyval \<Rightarrow> string set \<Rightarrow> string set \<Rightarrow> bool" where
  "reports_item h item opened opened' =
     (case task_event item of
        No_Task \<Rightarrow> opened' = opened
      | Task_Reported i \<Rightarrow> i \<notin> opened \<and> opened' = insert i opened
      | Task_Finished i payload \<Rightarrow> opened' = opened - {i}
          \<and> (\<exists>m. error_value_message h (item_get payload ''error'' PNone) = Inr m)
          \<and> (\<exists>n. len_of (or_no_items (item_get payload ''interrupts'' PNone)) = Inr n))"

definition reports_tasks :: "'t host \<Rightarrow> 't graph \<Rightarrow> ('t \<Rightarrow> string set) \<Rightarrow> ('t \<Rightarrow> int set) \<Rightarrow> bool" where
  "reports_tasks h graph opened own \<longleftrightarrow>
     (\<forall>i c w w' r. gr_stream graph i c w = (w', r) \<longrightarrow> tables_kept own w w' \<and> opened (snd w') = {})
     \<and> (\<forall>w w' y. gr_next graph w = Some (w', y) \<longrightarrow> tables_kept own w w'
          \<and> (case y of Inr (Some item) \<Rightarrow> reports_item h item (opened (snd w)) (opened (snd w'))
             | _ \<Rightarrow> opened (snd w') = opened (snd w)))
     \<and> (\<forall>t. opened (fst (ho_monotonic h t)) = opened t \<and> own (fst (ho_monotonic h t)) = own t)"

lemma handle_item_watched:
  assumes w: "watched s0 Y (gv_spans g) s" and sub: "fst ` set (gv_spans g) \<subseteq> opened"
    and rep: "reports_item h item opened opened'"
    and ob: "ov_sink ob = Some env" "ov_run_id ob = Some run" "accepts env"
    and run: "run \<in> known (os_runs s0)" and parent: "parent_ok (ov_parent ob) s0"
    and go: "handle_stream_item h ob item (g, s) = ((g', s'), r)"
  shows "watched s0 Y (gv_spans g') s' \<and> fst ` set (gv_spans g') \<subseteq> opened'"
proof -
  have quiet: ?thesis if "gv_spans g' = gv_spans g" "watched s0 Y (gv_spans g) s'" "opened' = opened"
    using that sub by simp
  obtain mode v where part: "stream_part item = (mode, v)" by fastforce
  show ?thesis
  proof (cases "\<exists>d payload. mode = ''debug'' \<and> v = PDict d \<and> item_get d ''payload'' PNone = PDict payload")
    case False
    then have "opened' = opened" "gv_spans g' = gv_spans g" "s' = s"
      using rep go part by (auto simp: reports_item_def task_event_def handle_stream_item_def Let_def
          split: pyval.splits if_splits)
    then show ?thesis using quiet w by simp
  next
    case True
    then obtain d payload where d: "mode = ''debug''" "v = PDict d" "item_get d ''payload'' PNone = PDict payload" by blast
    let ?type = "val_text (item_get d ''type'' (PStr []))"
    consider "?type = ''checkpoint''" | "?type = ''task''" | "?type = ''task_result''"
      | "?type \<notin> {''checkpoint'', ''task'', ''task_result''}" by blast
    then show ?thesis
    proof cases
      case 1
      have "gv_spans g' = gv_spans g" "s' = s \<or> (\<exists>a. s' = emit_graph_projection ob None a s)" "opened' = opened"
        using go rep d part 1 by (auto simp: handle_stream_item_def handle_checkpoint_def reports_item_def task_event_def
            Let_def split: sum.splits if_splits)
      then show ?thesis using quiet w watched_emit [OF w] by metis
    next
      case 2
      let ?i = "val_text (item_get payload ''id'' (PStr []))" and ?n = "val_text (item_get payload ''name'' (PStr []))"
      have go: "handle_task ob d payload (g, s) = ((g', s'), r)" using go d part 2 by (simp add: handle_stream_item_def)
      show ?thesis
      proof (cases "?i = [] \<or> ?n = []")
        case True
        then have "opened' = opened" "gv_spans g' = gv_spans g" "s' = s"
          using go rep d part 2 by (auto simp: handle_task_def reports_item_def task_event_def)
        then show ?thesis using quiet w by simp
      next
        case False
        then have i: "?i \<notin> opened" "opened' = insert ?i opened"
          using rep d part 2 by (auto simp: reports_item_def task_event_def Let_def)
        show ?thesis
        proof (cases "iterate (item_get payload ''triggers'' (PTuple []))")
          case (Inl e)
          then show ?thesis using go False w sub i by (auto simp: handle_task_def)
        next
          case (Inr triggers)
          obtain sp t where t: "graph_node_started ob ?n (task_metadata ?i @ [(AStr ''step'', item_get d ''step'' PNone),
              (AStr ''triggers'', PTuple triggers), (AStr ''input_summary'', mapping_summary (item_get payload ''input'' PNone))]) s
              = (t, Some sp)" "watched s0 Y (dict_set ?i sp (gv_spans g)) t"
            by (rule watched_start [OF w _ ob run parent, of ?i]) (use i sub in auto)
          have "gv_spans g' = dict_set ?i sp (gv_spans g) \<and> (s' = t \<or> (\<exists>a. s' = emit_graph_projection ob (Some sp) a t))"
            using go False Inr t(1) by (auto simp: handle_task_def Let_def split: sum.splits)
          moreover have "fst ` set (dict_set ?i sp (gv_spans g)) \<subseteq> opened'"
            using sub i by (auto simp: dom_update)
          ultimately show ?thesis using t(2) watched_emit [OF t(2)] by metis
        qed
      qed
    next
      case 3
      let ?i = "val_text (item_get payload ''id'' (PStr []))" and ?n = "val_text (item_get payload ''name'' (PStr []))"
      let ?err = "item_get payload ''error'' PNone" and ?int = "item_get payload ''interrupts'' PNone"
      have go: "handle_task_result h ob d payload (g, s) = ((g', s'), r)" using go d part 3 by (simp add: handle_stream_item_def)
      obtain m n where o': "opened' = opened - {?i}" and m: "error_value_message h ?err = Inr m"
        and n: "len_of (or_no_items ?int) = Inr n"
        using rep d part 3 by (auto simp: reports_item_def task_event_def Let_def)
      let ?sp = "map_of (gv_spans g) ?i"
      define t where "t = (if truthy ?err then graph_node_failed ob ?sp m (task_metadata ?i) s
        else graph_node_completed ob ?sp (item_get payload ''result'' PNone) (task_metadata ?i @ [(AStr ''interrupt_count'', PInt n)]) s)"
      have ok: "obs_ok s" by (rule watched_ok(1) [OF w])
      have "kept s t" using observer_kept(2,3) [OF ok] by (simp add: t_def)
      then have t: "watched s0 Y (dict_pop ?i (gv_spans g)) t"
        by (rule watched_end [OF w]) (simp_all add: t_def end_node_pending [OF ob(1,3) ok] no_node_pending)
      have "gv_spans g' = dict_pop ?i (gv_spans g)
          \<and> (s' = t \<or> (\<exists>a. s' = emit_graph_projection ob ?sp a t) \<or> (\<exists>a as. s' = fold (emit_graph_projection ob ?sp) as (emit_graph_projection ob ?sp a t)))"
        using go m n by (auto simp: handle_task_result_def end_task_span_def t_def Let_def split: sum.splits if_splits)
      moreover have "fst ` set (dict_pop ?i (gv_spans g)) \<subseteq> opened'"
        using sub o' by (auto simp: dict_pop_def)
      ultimately show ?thesis using t watched_emit [OF t] watched_emits [OF watched_emit [OF t]] by metis
    next
      case 4
      then have "opened' = opened" "gv_spans g' = gv_spans g" "s' = s"
        using rep go part d by (auto simp: reports_item_def task_event_def handle_stream_item_def Let_def)
      then show ?thesis using quiet w by simp
    qed
  qed
qed

section \<open>Executions\<close>

text \<open>What holds at the head of the loop.\<close>

definition graph_loop_ok ::
  "obs_state \<Rightarrow> ('t \<Rightarrow> string set) \<Rightarrow> ('t \<Rightarrow> int set) \<Rightarrow> graph_run \<Rightarrow> obs_state \<times> 't \<Rightarrow> bool" where
  "graph_loop_ok s0 opened own g w \<longleftrightarrow> watched s0 (own (snd w)) (gv_spans g) (fst w)
     \<and> fst ` set (gv_spans g) \<subseteq> opened (snd w)"

lemma graph_loop_next:
  assumes ok: "graph_loop_ok s0 opened own g w" and rep: "reports_tasks h graph opened own"
    and n: "gr_next graph w = Some (w', y)"
  shows "watched s0 (own (snd w')) (gv_spans g) (fst w')"
    and "case y of Inr (Some item) \<Rightarrow> reports_item h item (opened (snd w)) (opened (snd w'))
      | _ \<Rightarrow> opened (snd w') = opened (snd w)"
proof -
  have "tables_kept own w w'" using rep n unfolding reports_tasks_def by blast
  then show "watched s0 (own (snd w')) (gv_spans g) (fst w')"
    using ok watched_ok(1) watched_step by (auto simp: graph_loop_ok_def tables_kept_def)
  show "case y of Inr (Some item) \<Rightarrow> reports_item h item (opened (snd w)) (opened (snd w'))
      | _ \<Rightarrow> opened (snd w') = opened (snd w)"
    using rep n unfolding reports_tasks_def by blast
qed

text \<open>What holds when it is left: by an exception, some tasks are open; else those not finished.\<close>

definition graph_loop_left ::
  "obs_state \<Rightarrow> ('t \<Rightarrow> string set) \<Rightarrow> ('t \<Rightarrow> int set) \<Rightarrow> graph_run \<times> (obs_state \<times> 't) \<Rightarrow> unit res \<Rightarrow> bool" where
  "graph_loop_left s0 opened own x r \<longleftrightarrow> watched s0 (own (snd (snd x))) (gv_spans (fst x)) (fst (snd x))
     \<and> (\<not> isl r \<longrightarrow> fst ` set (gv_spans (fst x)) \<subseteq> opened (snd (snd x)))"

lemma graph_turn_ok:
  assumes ok: "graph_loop_ok s0 opened own g w" and rep: "reports_tasks h graph opened own"
    and n: "gr_next graph w = Some (w', Inr (Some item))"
    and ob: "ov_sink ob = Some env" "ov_run_id ob = Some run" "accepts env"
    and run: "run \<in> known (os_runs s0)" and parent: "parent_ok (ov_parent ob) s0"
  shows "case graph_turn h ob control item (g, w') of
      (z, Inl e) \<Rightarrow> graph_loop_left s0 opened own z (Inl e)
    | (z, Inr _) \<Rightarrow> graph_loop_ok s0 opened own (fst z) (snd z)"
proof -
  obtain s t where w': "w' = (s, t)" by fastforce
  note wt = graph_loop_next(1) [OF ok rep n, unfolded w']
  have ri: "reports_item h item (opened (snd w)) (opened t)"
    using graph_loop_next(2) [OF ok rep n] by (simp add: w')
  have sub: "fst ` set (gv_spans g) \<subseteq> opened (snd w)" using ok by (simp add: graph_loop_ok_def)
  have clock: "opened (fst (ho_monotonic h t)) = opened t" "own (fst (ho_monotonic h t)) = own t"
    using rep unfolding reports_tasks_def by blast+
  obtain t' c where c: "check_control h control t = (t', c)" by fastforce
  then have "t' = t \<or> t' = fst (ho_monotonic h t)"
    by (auto simp: check_control_def split: option.splits prod.splits)
  then have t': "opened t' = opened t" "own t' = own t" using clock by auto
  show ?thesis
  proof (cases c)
    case (Inl e)
    then show ?thesis using c wt t' by (simp add: w' graph_turn_def graph_loop_left_def)
  next
    case (Inr u)
    obtain g' s' r where i: "handle_stream_item h ob item (g, s) = ((g', s'), r)" by (metis surj_pair)
    have "watched s0 (own t) (gv_spans g') s' \<and> fst ` set (gv_spans g') \<subseteq> opened t"
      using handle_item_watched [OF wt [simplified] sub ri ob run parent i] .
    then show ?thesis
      using c Inr i t' by (cases r) (simp_all add: w' graph_turn_def graph_loop_left_def graph_loop_ok_def)
  qed
qed

lemma graph_loop:
  assumes ok: "graph_loop_ok s0 opened own g w" and rep: "reports_tasks h graph opened own"
    and ob: "ov_sink ob = Some env" "ov_run_id ob = Some run" "accepts env"
    and run: "run \<in> known (os_runs s0)" and parent: "parent_ok (ov_parent ob) s0"
    and go: "drain (gr_next graph) (graph_turn h ob control) g w = Some (x, r)"
  shows "graph_loop_left s0 opened own x r"
proof (rule drain_rule [where P = "graph_loop_ok s0 opened own", OF go ok])
  fix g w w' y
  assume p: "graph_loop_ok s0 opened own g w" and n: "gr_next graph w = Some (w', y)"
  note nx = graph_loop_next [OF p rep n]
  consider e where "y = Inl e" | "y = Inr None" | i where "y = Inr (Some i)" by (metis option.exhaust sum.exhaust)
  then show "case y of Inl e \<Rightarrow> graph_loop_left s0 opened own (g, w') (Inl e)
    | Inr None \<Rightarrow> graph_loop_left s0 opened own (g, w') (Inr ())
    | Inr (Some i) \<Rightarrow> (case graph_turn h ob control i (g, w') of (z, Inl e) \<Rightarrow> graph_loop_left s0 opened own z (Inl e)
        | (z, Inr _) \<Rightarrow> graph_loop_ok s0 opened own (fst z) (snd z))"
  proof cases
    case 3
    then show ?thesis using graph_turn_ok [OF p rep n [unfolded 3] ob run parent] by simp
  qed (use nx p in \<open>simp_all add: graph_loop_left_def graph_loop_ok_def\<close>)
qed

lemma finish_graph_pending:
  assumes left: "graph_loop_left s0 opened own x r" and ob: "ov_sink ob = Some env" "accepts env"
    and f: "finish_graph h ob le resumed (x, r) = (w', res)"
  shows "kept s0 (fst w') \<and> (isl r \<or> opened (snd w') = {} \<longrightarrow> pending (fst w') - own (snd w') \<subseteq> pending s0)"
proof -
  obtain g s t where x: "x = (g, (s, t))" by (metis surj_pair)
  have w: "watched s0 (own t) (gv_spans g) s" using left by (simp add: x graph_loop_left_def)
  note ok = watched_ok(1) [OF w]
  show ?thesis
  proof (cases r)
    case (Inl e)
    have "kept s (fail_open_spans ob (safe_error e) (gv_spans g) s)
        \<and> pending (fail_open_spans ob (safe_error e) (gv_spans g) s) = pending s - span_rows (gv_spans g)"
      by (rule fail_open_spans_pending [OF ob ok]) (use w in \<open>simp add: watched_def\<close>)
    moreover have "w' = (fail_open_spans ob (safe_error e) (gv_spans g) s, t)"
      using f by (simp add: x Inl finish_graph_def)
    ultimately show ?thesis using w kept_trans by (auto simp: watched_def)
  next
    case (Inr u)
    have "w' = (if is_paused g then emit_graph_projection ob None (actions_projection h g) s else s, t)"
      using f by (simp add: x Inr finish_graph_def)
    then have "watched s0 (own t) (gv_spans g) (fst w')" "snd w' = t" using w watched_emit [OF w] by auto
    moreover have "gv_spans g = []" if "opened t = {}" using left that by (simp add: x Inr graph_loop_left_def)
    moreover have "span_rows [] = {}" by (simp add: span_rows_def)
    ultimately show ?thesis using Inr by (auto simp: watched_def)
  qed
qed

lemma finished_graph: "finish_graph h ob le resumed (x, r) = (w', res) \<Longrightarrow> isl res = isl r"
  by (cases x; cases "snd x"; cases r)
    (auto simp: finish_graph_def graph_result_def WorkflowExecutionResult_def Let_def split: if_splits)

section \<open>Observation does not change the result\<close>

text \<open>Two states of the loop that differ in the spans and the tables only.\<close>

definition same_graph_run :: "graph_run \<Rightarrow> graph_run \<Rightarrow> bool" where
  "same_graph_run g g' \<longleftrightarrow> g\<lparr>gv_spans := []\<rparr> = g'\<lparr>gv_spans := []\<rparr>"

lemma same_graph_run_fields:
  assumes "same_graph_run g g'"
  shows "gv_final_state g' = gv_final_state g" "gv_interrupts g' = gv_interrupts g"
    "gv_completed_nodes g' = gv_completed_nodes g" "gv_failed_nodes g' = gv_failed_nodes g"
    "gv_latest_checkpoint_id g' = gv_latest_checkpoint_id g"
  using assms by (cases g; cases g'; simp add: same_graph_run_def)+

text \<open>The graph does not read the tables.\<close>

definition graph_blind :: "'t graph \<Rightarrow> bool" where
  "graph_blind graph \<longleftrightarrow>
     (\<forall>i c s s' t. map_prod snd id (gr_stream graph i c (s, t)) = map_prod snd id (gr_stream graph i c (s', t)))
     \<and> (\<forall>s s' t. map_option (map_prod snd id) (gr_next graph (s, t)) = map_option (map_prod snd id) (gr_next graph (s', t)))"

lemma handle_item_blind:
  assumes "same_graph_run g g'"
  shows "case (handle_stream_item h ob item (g, s), handle_stream_item h ob' item (g', s')) of
    (((g, s), r), ((g', s'), r')) \<Rightarrow> r = r' \<and> same_graph_run g g'"
proof -
  have checkpoint: "case (handle_checkpoint ob v p (g, s), handle_checkpoint ob' v p (g', s')) of
      (((g, s), r), ((g', s'), r')) \<Rightarrow> r = r' \<and> same_graph_run g g'" for v p
    using assms by (cases g; cases g') (auto simp: handle_checkpoint_def same_graph_run_def Let_def split: sum.split)
  have task: "case (handle_task ob v p (g, s), handle_task ob' v p (g', s')) of
      (((g, s), r), ((g', s'), r')) \<Rightarrow> r = r' \<and> same_graph_run g g'" for v p
    using assms by (cases g; cases g') (auto simp: handle_task_def same_graph_run_def Let_def split: sum.split prod.split option.split)
  have ends: "case (end_task_span h ob i n p sp (g, s), end_task_span h ob' i n p sp' (g', s')) of
      (((g, s), r), ((g', s'), r')) \<Rightarrow> r = r' \<and> same_graph_run g g'"
    if "same_graph_run g g'" for i n p sp sp' g g' s s'
    using that by (cases g; cases g') (auto simp: end_task_span_def same_graph_run_def Let_def split: sum.split)
  have result: "case (handle_task_result h ob v p (g, s), handle_task_result h ob' v p (g', s')) of
      (((g, s), r), ((g', s'), r')) \<Rightarrow> r = r' \<and> same_graph_run g g'" for v p
  proof -
    let ?i = "val_text (item_get p ''id'' (PStr []))" and ?n = "val_text (item_get p ''name'' (PStr []))"
    let ?new = "case item_get p ''interrupts'' PNone of PList xs \<Rightarrow> xs | PTuple xs \<Rightarrow> xs | _ \<Rightarrow> []"
    let ?g = "\<lambda>g. g\<lparr>gv_interrupts := gv_interrupts g @ ?new, gv_spans := dict_pop ?i (gv_spans g)\<rparr>"
    have "same_graph_run (?g g) (?g g')" using assms by (cases g; cases g') (simp add: same_graph_run_def)
    from ends [OF this, of ?i ?n p "map_of (gv_spans g) ?i" s "map_of (gv_spans g') ?i" s']
    show ?thesis
      by (auto simp: handle_task_result_def Let_def split: prod.splits sum.splits)
  qed
  obtain mode v where part: "stream_part item = (mode, v)" by fastforce
  show ?thesis
  proof (cases "\<exists>d payload. mode = ''debug'' \<and> v = PDict d \<and> item_get d ''payload'' PNone = PDict payload")
    case True
    then obtain d payload where d: "mode = ''debug''" "v = PDict d" "item_get d ''payload'' PNone = PDict payload" by blast
    let ?type = "val_text (item_get d ''type'' (PStr []))"
    have go: "handle_stream_item h o1 item x = (if ?type = ''checkpoint'' then handle_checkpoint o1 d payload x
        else if ?type = ''task'' then handle_task o1 d payload x
        else if ?type = ''task_result'' then handle_task_result h o1 d payload x else (x, Inr ()))" for o1 x
      using d part by (simp add: handle_stream_item_def Let_def)
    show ?thesis unfolding go using checkpoint [of d payload] task [of d payload] result [of d payload] assms by simp
  next
    case False
    have go: "handle_stream_item h o1 item x = ((case v of
        PDict d \<Rightarrow> if mode = ''values'' then (fst x)\<lparr>gv_final_state := d\<rparr> else fst x | _ \<Rightarrow> fst x, snd x), Inr ())" for o1 x
      using False part by (auto simp: handle_stream_item_def split: pyval.split)
    show ?thesis
      unfolding go using assms by (cases g; cases g') (auto simp: same_graph_run_def split: pyval.split)
  qed
qed

lemma graph_turn_blind:
  assumes "same_graph_run g g'"
  shows "case (graph_turn h ob control item (g, (s, t)), graph_turn h ob' control item (g', (s', t))) of
    (((g, w), r), ((g', w'), r')) \<Rightarrow> r = r' \<and> same_graph_run g g' \<and> snd w = snd w'"
proof -
  obtain t' c where c: "check_control h control t = (t', c)" by fastforce
  show ?thesis
    using handle_item_blind [OF assms, of h ob item s ob' s'] assms c
    by (auto simp: graph_turn_def split: prod.splits sum.split)
qed

lemma graph_loop_blind:
  fixes graph :: "'a graph"
  assumes blind: "graph_blind graph" and go: "drain (gr_next graph) (graph_turn h ob control) g (s, t) = Some (x, r)"
    and same: "same_graph_run g g'"
  shows "\<exists>x'. drain (gr_next graph) (graph_turn h ob' control) g' (s', t) = Some (x', r)
    \<and> same_graph_run (fst x) (fst x') \<and> snd (snd x) = snd (snd x')"
proof (rule drain_sim [where R = "\<lambda>g w g' w'. same_graph_run g g' \<and> snd w = snd w'", OF go])
  show "same_graph_run g g' \<and> snd (s, t) = snd (s', t)" using same by simp
next
  fix g g' y and w v w' :: "obs_state \<times> 'a"
  assume rel: "same_graph_run g g' \<and> snd w = snd v" and n: "gr_next graph w = Some (w', y)"
  have "map_option (map_prod snd id) (gr_next graph v) = map_option (map_prod snd id) (gr_next graph w)"
    using blind rel unfolding graph_blind_def by (metis prod.collapse)
  then obtain v' where v': "gr_next graph v = Some (v', y)" "snd v' = snd w'" using n by auto
  have "case y of Inr (Some i) \<Rightarrow> (case (graph_turn h ob control i (g, w'), graph_turn h ob' control i (g', v')) of
      (((a, w), r1), ((b, v), r2)) \<Rightarrow> r1 = r2 \<and> same_graph_run a b \<and> snd w = snd v)
    | _ \<Rightarrow> same_graph_run g g' \<and> snd w' = snd v'"
    using graph_turn_blind [of g g' h ob control _ "fst w'" "snd w'" ob' "fst v'"] rel v'(2)
    by (cases w'; cases v') (auto split: sum.split option.split prod.splits)
  then show "\<exists>v'. gr_next graph v = Some (v', y) \<and> (case y of
      Inr (Some i) \<Rightarrow> (case (graph_turn h ob control i (g, w'), graph_turn h ob' control i (g', v')) of
        (((a, w), r1), ((b, v), r2)) \<Rightarrow> r1 = r2 \<and> same_graph_run a b \<and> snd w = snd v)
      | _ \<Rightarrow> same_graph_run g g' \<and> snd w' = snd v')"
    using v'(1) by blast
qed

lemma finish_graph_blind:
  assumes "same_graph_run (fst x) (fst x')" and "snd (snd x) = snd (snd x')"
  shows "map_prod snd id (finish_graph h ob le resumed (x, r)) = map_prod snd id (finish_graph h ob' le resumed (x', r))"
proof -
  obtain g s t g' s' where "x = (g, (s, t))" "x' = (g', (s', t))" "same_graph_run g g'"
    using assms by (cases x; cases x') auto
  then show ?thesis
    using same_graph_run_fields [of g g']
    by (auto simp: finish_graph_def graph_result_def is_paused_def all_interrupts_def Let_def split: sum.split)
qed

lemma run_graph_blind:
  assumes blind: "graph_blind (le_graph x)"
    and go: "run_graph h sink parent x i context resumed (s, t) = Some (w, r)"
  shows "\<exists>w'. run_graph h sink' parent' x i context resumed (s', t) = Some (w', r) \<and> snd w' = snd w"
proof -
  let ?ob = "\<lparr>ov_sink = sink, ov_run_id = cx_run_id context, ov_parent = parent\<rparr>"
  let ?ob' = "\<lparr>ov_sink = sink', ov_run_id = cx_run_id context, ov_parent = parent'\<rparr>"
  let ?c = "execution_config (le_invoke_config x) context"
  obtain s1 t1 r1 where m: "gr_stream (le_graph x) i ?c (s, t) = ((s1, t1), r1)" by (metis surj_pair)
  have "map_prod snd id (gr_stream (le_graph x) i ?c (s', t)) = map_prod snd id (gr_stream (le_graph x) i ?c (s, t))"
    using blind unfolding graph_blind_def by blast
  then obtain s2 where m': "gr_stream (le_graph x) i ?c (s', t) = ((s2, t1), r1)"
    using m by (cases "gr_stream (le_graph x) i ?c (s', t)") auto
  show ?thesis
  proof (cases r1)
    case (Inl e)
    then show ?thesis using go m m' by (auto simp: run_graph_def Let_def)
  next
    case (Inr u)
    obtain y r2 where d: "drain (gr_next (le_graph x)) (graph_turn h ?ob (cx_control context)) new_graph_run (s1, t1) = Some (y, r2)"
      and f: "finish_graph h ?ob x resumed (y, r2) = (w, r)"
      using go m Inr by (auto simp: run_graph_def Let_def)
    obtain y' where d': "drain (gr_next (le_graph x)) (graph_turn h ?ob' (cx_control context)) new_graph_run (s2, t1) = Some (y', r2)"
      "same_graph_run (fst y) (fst y')" "snd (snd y) = snd (snd y')"
      using graph_loop_blind [OF blind d, of new_graph_run ?ob' s2] by (auto simp: same_graph_run_def)
    have "map_prod snd id (finish_graph h ?ob' x resumed (y', r2)) = (snd w, r)"
      using finish_graph_blind [OF d'(2,3), of h ?ob x resumed r2 ?ob'] f by simp
    then show ?thesis
      using m' Inr d'(1) by (cases "finish_graph h ?ob' x resumed (y', r2)") (auto simp: run_graph_def Let_def)
  qed
qed

end
