(* ===== verification/LlamaIndex_Provider.thy ===== *)
theory LlamaIndex_Provider
  imports LangGraph_Provider
begin

text \<open>
  integrations/workflows/llamaindex_provider.py: a LlamaIndex workflow behind the execute capability. While its
  event loop runs, observations are kept in a buffer, which is replayed into the event sink when the
  execution is over, however it ends. The workflow is a parameter: what \<open>run()\<close> does, what each event of
  its stream does to the world, and what awaiting the handler gives. The world is the tables beside
  the rest. A thread of its own, used when a loop runs already, changes nothing here.
\<close>

section \<open>Events\<close>

datatype step_state = Running | Not_Running | Other_State

record step_change =
  sc_name :: string
  sc_worker_id :: pyval
  sc_state :: step_state
  sc_state_value :: pyval
  sc_input_event_name :: pyval
  sc_output_event_name :: pyval

text \<open>What the code reads of any other event: its class, whether it is internal, what \<open>model_dump\<close> gives.\<close>

record event_info =
  ei_type :: string
  ei_internal :: bool
  ei_dump :: "pyval res"

record step_failure =
  sf_step_name :: string
  sf_attempts :: pyval
  sf_exception_type :: string
  sf_exception_text :: string

datatype llama_event = Step_State_Changed step_change | Other_Event event_info | Workflow_Failed event_info step_failure

record run_handler =
  rh_awaitable_stream :: bool
  rh_run_id :: "pyval option"

record 'w llama_workflow =
  lw_name :: string
  lw_run :: "pyitems \<Rightarrow> 'w \<Rightarrow> 'w \<times> run_handler res"
  lw_next :: "('w, llama_event) stream"
  lw_await :: "'w \<Rightarrow> ('w \<times> pyval res) option"

record 'w llamaindex_executable =
  lx_workflow :: "'w llama_workflow"
  lx_workflow_kind :: string
  lx_run_kwargs :: pyitems

section \<open>The buffer\<close>

datatype observation =
    Span_Start span_ref int string string "string option" "span_ref option" pyitems
  | Span_Complete span_ref "string option" pyitems pyitems
  | Span_Fail span_ref string pyitems pyitems
  | Projected int "span_ref option" projection_args

record observations =
  bo_counter :: int
  bo_operations :: "observation list"

definition empty_observations :: observations where
  "empty_observations = \<lparr>bo_counter = 0, bo_operations = []\<rparr>"

definition buffered_name :: "int \<Rightarrow> span_ref" where
  "buffered_name n = ''buffered-'' @ int_text n"

definition buffer_operation :: "observation \<Rightarrow> observations \<Rightarrow> observations" where
  "buffer_operation a b = b\<lparr>bo_operations := bo_operations b @ [a]\<rparr>"

definition buffer_span_started ::
  "int \<Rightarrow> string \<Rightarrow> string \<Rightarrow> string option \<Rightarrow> span_ref option \<Rightarrow> pyitems \<Rightarrow> observations \<Rightarrow> observations \<times> span_ref" where
  "buffer_span_started run_id span_type name node_name parent metadata b =
     (let n = bo_counter b + 1; ref = buffered_name n
      in (buffer_operation (Span_Start ref run_id span_type name node_name parent metadata) (b\<lparr>bo_counter := n\<rparr>), ref))"

fun replay_observations ::
  "obs_env \<Rightarrow> (span_ref \<times> span_ref) list \<Rightarrow> observation list \<Rightarrow> obs_state \<Rightarrow> obs_state"
where
  "replay_observations env refs [] s = s"
| "replay_observations env refs (Span_Start ref run_id span_type name node_name parent metadata # ops) s =
     (let resolved_parent = (case parent of None \<Rightarrow> None
        | Some p \<Rightarrow> Some (case map_of refs p of None \<Rightarrow> p | Some r \<Rightarrow> r))
      in case span_started env run_id span_type name node_name resolved_parent (Some metadata) s of
           (s, Inl _) \<Rightarrow> replay_observations env refs ops s
         | (s, Inr real_ref) \<Rightarrow> replay_observations env (dict_set ref real_ref refs) ops s)"
| "replay_observations env refs (Span_Complete ref output_summary metrics metadata # ops) s =
     (case map_of refs ref of
        None \<Rightarrow> replay_observations env refs ops s
      | Some r \<Rightarrow> replay_observations env refs ops
          (fst (span_completed env r output_summary (Some metrics) (Some metadata) s)))"
| "replay_observations env refs (Span_Fail ref error_message metrics metadata # ops) s =
     (case map_of refs ref of
        None \<Rightarrow> replay_observations env refs ops s
      | Some r \<Rightarrow> replay_observations env refs ops
          (fst (span_failed env r error_message (Some metrics) (Some metadata) s)))"
| "replay_observations env refs (Projected run_id spn a # ops) s =
     replay_observations env refs ops
       (fst (integration_projection env run_id (case spn of None \<Rightarrow> None | Some p \<Rightarrow> map_of refs p) a s))"

definition replay_into :: "obs_env option \<Rightarrow> observations \<Rightarrow> obs_state \<Rightarrow> obs_state" where
  "replay_into sink b s = (case sink of None \<Rightarrow> s | Some env \<Rightarrow> replay_observations env [] (bo_operations b) s)"

section \<open>Observing the steps\<close>

text \<open>The local variables of an execution, with the buffer.\<close>

record llama_run =
  lv_buffer :: observations
  lv_spans :: "(string \<times> span_ref list) list"
  lv_completed_steps :: "string list"
  lv_failed_steps :: "string list"
  lv_event_types :: "string list"
  lv_pending :: "(string \<times> span_ref option \<times> pyitems) list"

definition new_llama_run :: llama_run where
  "new_llama_run = \<lparr>lv_buffer = empty_observations, lv_spans = [], lv_completed_steps = [], lv_failed_steps = [],
     lv_event_types = [], lv_pending = []\<rparr>"

definition on_observations :: "(observations \<Rightarrow> observations) \<Rightarrow> llama_run \<Rightarrow> llama_run" where
  "on_observations f g = g\<lparr>lv_buffer := f (lv_buffer g)\<rparr>"

definition spans_of_step :: "string \<Rightarrow> llama_run \<Rightarrow> span_ref list" where
  "spans_of_step step_name g = (case map_of (lv_spans g) step_name of None \<Rightarrow> [] | Some xs \<Rightarrow> xs)"

definition llama_span_started ::
  "int option \<Rightarrow> span_ref option \<Rightarrow> string \<Rightarrow> pyitems \<Rightarrow> llama_run \<Rightarrow> llama_run \<times> span_ref option" where
  "llama_span_started run_id parent step_name metadata g =
     (case run_id of
        None \<Rightarrow> (g, None)
      | Some r \<Rightarrow> (case buffer_span_started r ''step'' step_name (Some step_name) parent metadata (lv_buffer g) of
          (b, ref) \<Rightarrow> (g\<lparr>lv_buffer := b\<rparr>, Some ref)))"

definition llama_span_completed :: "span_ref option \<Rightarrow> pyitems \<Rightarrow> llama_run \<Rightarrow> llama_run" where
  "llama_span_completed spn metadata g =
     (case spn of
        None \<Rightarrow> g
      | Some sp \<Rightarrow> on_observations (buffer_operation (Span_Complete sp
          (Some (json_default (PDict [(AStr ''output_event'', item_get metadata ''output_event'' (PStr []))])))
          [(AStr ''ok'', PBool True)] metadata)) g)"

definition llama_span_failed :: "span_ref option \<Rightarrow> string \<Rightarrow> pyitems \<Rightarrow> llama_run \<Rightarrow> llama_run" where
  "llama_span_failed spn error_message metadata g =
     (case spn of
        None \<Rightarrow> g
      | Some sp \<Rightarrow> on_observations (buffer_operation (Span_Fail sp error_message [(AStr ''ok'', PBool False)] metadata)) g)"

definition emit_llama_projection :: "int option \<Rightarrow> span_ref option \<Rightarrow> projection_args \<Rightarrow> llama_run \<Rightarrow> llama_run" where
  "emit_llama_projection run_id spn a g =
     (case run_id of None \<Rightarrow> g | Some r \<Rightarrow> on_observations (buffer_operation (Projected r spn a)) g)"

definition llama_projection ::
  "string \<Rightarrow> string \<Rightarrow> string \<Rightarrow> string \<Rightarrow> pyitems \<Rightarrow> string \<Rightarrow> string \<Rightarrow> string \<Rightarrow> int \<Rightarrow> projection_args" where
  "llama_projection schema_id owner_kind owner_external_id title payload projection_kind subject_kind
     subject_external_id sequence =
     (graph_projection schema_id owner_kind owner_external_id title payload projection_kind subject_kind
        subject_external_id sequence)\<lparr>pa_integration_id := ''llamaindex-workflows''\<rparr>"

definition worker_sequence :: "pyval \<Rightarrow> int" where
  "worker_sequence worker_id = (case int_of_text (val_text worker_id) of Inl _ \<Rightarrow> 0 | Inr n \<Rightarrow> max 0 n)"

definition event_summary :: "event_info \<Rightarrow> pyval" where
  "event_summary e =
     (case (case ei_dump e of Inl _ \<Rightarrow> PDict [(AStr ''type'', PStr (ei_type e))] | Inr v \<Rightarrow> v) of
        PDict d \<Rightarrow> pdict (summarize_mapping DEFAULT_MAX_DEPTH DEFAULT_MAX_ITEMS d)
      | v \<Rightarrow> v)"

definition text_or_empty :: "pyval \<Rightarrow> pyval" where
  "text_or_empty v = (if truthy v then v else PStr [])"

definition step_identity :: "string \<Rightarrow> step_change \<Rightarrow> pyitems" where
  "step_identity workflow_run_id c =
     [(AStr ''integration_id'', PStr ''llamaindex-workflows''), (AStr ''run_id'', PStr workflow_run_id),
      (AStr ''worker_id'', sc_worker_id c), (AStr ''input_event'', sc_input_event_name c)]"

definition handle_step_state ::
  "int option \<Rightarrow> span_ref option \<Rightarrow> string \<Rightarrow> step_change \<Rightarrow> llama_run \<Rightarrow> llama_run" where
  "handle_step_state run_id parent workflow_run_id c g =
     (let step_name = sc_name c;
          (g, projection_span) = (case sc_state c of
              Running \<Rightarrow>
                (case llama_span_started run_id parent step_name (step_identity workflow_run_id c) g of
                   (g, spn) \<Rightarrow>
                     (let g = (case spn of None \<Rightarrow> g
                        | Some sp \<Rightarrow> g\<lparr>lv_spans := dict_set step_name (spans_of_step step_name g @ [sp]) (lv_spans g)\<rparr>);
                          xs = spans_of_step step_name g
                      in (g, if xs = [] then None else Some (last xs))))
            | Not_Running \<Rightarrow>
                (let xs = spans_of_step step_name g;
                     spn = (if xs = [] then None else Some (last xs));
                     g = (if xs = [] then g else g\<lparr>lv_spans := dict_set step_name (butlast xs) (lv_spans g)\<rparr>)
                 in (g\<lparr>lv_pending := lv_pending g @ [(step_name, spn, step_identity workflow_run_id c
                      @ [(AStr ''output_event'', text_or_empty (sc_output_event_name c)), (AStr ''step_name'', PStr step_name)])]\<rparr>, spn))
            | Other_State \<Rightarrow> (g, None))
      in emit_llama_projection run_id projection_span
           (llama_projection ''llamaindex.step.v1'' ''execution_unit''
              (workflow_run_id @ '':'' @ step_name @ '':'' @ val_text (sc_worker_id c)) (''LlamaIndex step: '' @ step_name)
              [(AStr ''run_id'', PStr workflow_run_id), (AStr ''step_name'', PStr step_name), (AStr ''worker_id'', sc_worker_id c),
               (AStr ''status'', PStr (if sc_state c = Running then ''running'' else ''succeeded'')),
               (AStr ''runtime_state'', sc_state_value c), (AStr ''input_event'', sc_input_event_name c),
               (AStr ''output_event'', text_or_empty (sc_output_event_name c))]
              ''snapshot'' ''execution_unit'' step_name
              (worker_sequence (sc_worker_id c) * 10 + (if sc_state c = Running then 0 else 1))) g)"

text \<open>The last pending end of a step, and those without it.\<close>

fun pop_first_of_step ::
  "string \<Rightarrow> (string \<times> 'a) list \<Rightarrow> ((string \<times> 'a) \<times> (string \<times> 'a) list) option"
where
  "pop_first_of_step step_name [] = None"
| "pop_first_of_step step_name (p # ps) =
     (if fst p = step_name then Some (p, ps)
      else map_option (map_prod id (\<lambda>qs. p # qs)) (pop_first_of_step step_name ps))"

definition pop_pending_terminal ::
  "string \<Rightarrow> (string \<times> 'a) list \<Rightarrow> ((string \<times> 'a) \<times> (string \<times> 'a) list) option" where
  "pop_pending_terminal step_name ps = map_option (map_prod id rev) (pop_first_of_step step_name (rev ps))"

definition fail_latest_step :: "string \<Rightarrow> string \<Rightarrow> pyitems \<Rightarrow> llama_run \<Rightarrow> llama_run" where
  "fail_latest_step step_name error_message metadata g =
     (let xs = spans_of_step step_name g
      in if xs = [] then g
         else llama_span_failed (Some (last xs)) error_message metadata
           (g\<lparr>lv_spans := dict_set step_name (butlast xs) (lv_spans g)\<rparr>))"

definition observe_event :: "int option \<Rightarrow> string \<Rightarrow> event_info \<Rightarrow> llama_run \<Rightarrow> llama_run" where
  "observe_event run_id workflow_run_id e g =
     (let g = g\<lparr>lv_event_types := lv_event_types g @ [ei_type e]\<rparr>;
          n = int (length (lv_event_types g))
      in emit_llama_projection run_id None
           (llama_projection ''llamaindex.event.v1'' ''run'' (workflow_run_id @ '':'' @ int_text n) (''LlamaIndex event: '' @ ei_type e)
              [(AStr ''run_id'', PStr workflow_run_id), (AStr ''event_type'', PStr (ei_type e)),
               (AStr ''internal'', PBool (ei_internal e)), (AStr ''summary'', event_summary e)]
              ''event'' ''run'' workflow_run_id n) g)"

definition observe_failure :: "int option \<Rightarrow> string \<Rightarrow> step_failure \<Rightarrow> llama_run \<Rightarrow> llama_run" where
  "observe_failure run_id workflow_run_id f g =
     (let step_name = sf_step_name f;
          message = safe_run_error_message (sf_exception_type f) (sf_exception_text f);
          g = g\<lparr>lv_failed_steps := lv_failed_steps g @ [step_name]\<rparr>;
          g = (case pop_pending_terminal step_name (lv_pending g) of
              Some ((_, spn, metadata), rest) \<Rightarrow>
                llama_span_failed spn message (dict_set (AStr ''attempts'') (sf_attempts f) metadata) (g\<lparr>lv_pending := rest\<rparr>)
            | None \<Rightarrow>
                fail_latest_step step_name message
                  [(AStr ''integration_id'', PStr ''llamaindex-workflows''), (AStr ''run_id'', PStr workflow_run_id),
                   (AStr ''attempts'', sf_attempts f)] g)
      in emit_llama_projection run_id None
           (llama_projection ''llamaindex.step.v1'' ''execution_unit'' (workflow_run_id @ '':'' @ step_name)
              (''LlamaIndex step: '' @ step_name)
              [(AStr ''run_id'', PStr workflow_run_id), (AStr ''step_name'', PStr step_name), (AStr ''status'', PStr ''failed''),
               (AStr ''attempts'', sf_attempts f), (AStr ''error'', PStr message)]
              ''snapshot'' ''execution_unit'' step_name (10000 + int (length (lv_event_types g)))) g)"

fun handle_llama_event :: "int option \<Rightarrow> span_ref option \<Rightarrow> string \<Rightarrow> llama_event \<Rightarrow> llama_run \<Rightarrow> llama_run" where
  "handle_llama_event run_id parent wid (Step_State_Changed c) g = handle_step_state run_id parent wid c g"
| "handle_llama_event run_id parent wid (Other_Event e) g = observe_event run_id wid e g"
| "handle_llama_event run_id parent wid (Workflow_Failed e f) g = observe_failure run_id wid f (observe_event run_id wid e g)"

definition llama_turn ::
  "'t host \<Rightarrow> int option \<Rightarrow> span_ref option \<Rightarrow> execution_control option \<Rightarrow> string
     \<Rightarrow> (llama_run, obs_state \<times> 't, llama_event) item_handler" where
  "llama_turn h run_id parent control wid event x =
     (case x of (g, (s, t)) \<Rightarrow>
        (case check_control h control t of
           (t, Inl e) \<Rightarrow> ((g, (s, t)), Inl e)
         | (t, Inr _) \<Rightarrow> ((handle_llama_event run_id parent wid event g, (s, t)), Inr ())))"

section \<open>Execution\<close>

definition complete_stopped_steps :: "llama_run \<Rightarrow> llama_run" where
  "complete_stopped_steps g =
     fold (\<lambda>(step_name, spn, metadata) g.
         llama_span_completed spn metadata (g\<lparr>lv_completed_steps := lv_completed_steps g @ [step_name]\<rparr>)) (lv_pending g) g"

definition fail_step_spans :: "string \<Rightarrow> string \<Rightarrow> llama_run \<Rightarrow> llama_run" where
  "fail_step_spans safe_message workflow_run_id g =
     fold (\<lambda>(step_name, step_spans) g.
         fold (\<lambda>sp. llama_span_failed (Some sp) safe_message
             [(AStr ''integration_id'', PStr ''llamaindex-workflows''), (AStr ''run_id'', PStr workflow_run_id),
              (AStr ''step_name'', PStr step_name)]) (rev step_spans)
           (g\<lparr>lv_spans := dict_set step_name [] (lv_spans g)\<rparr>)) (lv_spans g) g"

text \<open>The body of the \<open>try\<close>: the stream, then the handler.\<close>

definition run_steps ::
  "'t host \<Rightarrow> int option \<Rightarrow> span_ref option \<Rightarrow> execution_control option \<Rightarrow> string \<Rightarrow> (obs_state \<times> 't) llama_workflow
     \<Rightarrow> obs_state \<times> 't \<Rightarrow> ((llama_run \<times> (obs_state \<times> 't)) \<times> pyval res) option" where
  "run_steps h run_id parent control wid workflow w =
     (case drain (lw_next workflow) (llama_turn h run_id parent control wid) new_llama_run w of
        None \<Rightarrow> None
      | Some ((g, w), Inl e) \<Rightarrow> Some ((fail_step_spans (safe_error e) wid g, w), Inl e)
      | Some ((g, w), Inr _) \<Rightarrow>
          (case lw_await workflow w of
             None \<Rightarrow> None
           | Some (w, Inl e) \<Rightarrow> Some ((fail_step_spans (safe_error e) wid g, w), Inl e)
           | Some (w, Inr result) \<Rightarrow> Some ((complete_stopped_steps g, w), Inr result)))"

definition llama_result :: "'w llamaindex_executable \<Rightarrow> string \<Rightarrow> llama_run \<Rightarrow> pyval \<Rightarrow> workflow_result res" where
  "llama_result x workflow_run_id g result =
     WorkflowExecutionResult (case result of PDict d \<Rightarrow> d | _ \<Rightarrow> [(AStr ''result'', result)])
       [(AStr ''integration_id'', PStr ''llamaindex-workflows''), (AStr ''workflow_kind'', PStr (lx_workflow_kind x)),
        (AStr ''workflow_name'', PStr (lw_name (lx_workflow x))), (AStr ''workflow_run_id'', PStr workflow_run_id),
        (AStr ''completed_steps'', PList (map PStr (lv_completed_steps g))),
        (AStr ''failed_steps'', PList (map PStr (lv_failed_steps g))),
        (AStr ''event_types'', PList (map PStr (lv_event_types g))),
        (AStr ''last_step_name'', PStr (if lv_completed_steps g = [] then [] else last (lv_completed_steps g)))]
       ''completed''"

definition llama_run_id :: "'w llamaindex_executable \<Rightarrow> execution_context \<Rightarrow> string" where
  "llama_run_id x context =
     (if cx_thread_id context \<noteq> [] then cx_thread_id context
      else (case cx_run_id context of None \<Rightarrow> lx_workflow_kind x
        | Some r \<Rightarrow> if r = 0 then lx_workflow_kind x else int_text r))"

definition run_arguments :: "'w llamaindex_executable \<Rightarrow> execution_context \<Rightarrow> pyitems \<Rightarrow> pyitems" where
  "run_arguments x context input_payload =
     dict_set (AStr ''run_id'') (PStr (llama_run_id x context))
       (fold (\<lambda>(k, v). dict_set k v) input_payload (lx_run_kwargs x))"

definition llamaindex_execute ::
  "'t host \<Rightarrow> obs_env option \<Rightarrow> span_ref option \<Rightarrow> (obs_state \<times> 't) llamaindex_executable \<Rightarrow> pyitems \<Rightarrow> execution_context
     \<Rightarrow> obs_state \<times> 't \<Rightarrow> ((obs_state \<times> 't) \<times> workflow_result res) option" where
  "llamaindex_execute h sink parent x input_payload context w =
     (case lw_run (lx_workflow x) (run_arguments x context input_payload) w of
        (w, Inl e) \<Rightarrow> Some (w, Inl e)
      | (w, Inr handler) \<Rightarrow>
          if \<not> rh_awaitable_stream handler
          then Some (w, Inl (PlainExn TypeError_cls
            ''LlamaIndex Workflows target must return an awaitable handler with stream_events()''))
          else (let wid = (case rh_run_id handler of None \<Rightarrow> llama_run_id x context | Some v \<Rightarrow> val_text v)
            in case run_steps h (cx_run_id context) parent (cx_control context) wid (lx_workflow x) w of
                 None \<Rightarrow> None
               | Some ((g, (s, t)), r) \<Rightarrow>
                   Some ((replay_into sink (lv_buffer g) s, t), r_bind r (llama_result x wid g))))"

text \<open>\<open>wrap\<close>: a target without a callable \<open>run\<close> is none, and one whose name is no text has none.\<close>

definition llamaindex_wrap ::
  "(string option \<times> 'w llama_workflow) option \<Rightarrow> integration_context \<Rightarrow> 'w llamaindex_executable res" where
  "llamaindex_wrap target context =
     (case target of
        None \<Rightarrow> Inl (PlainExn TypeError_cls ''LlamaIndex Workflows target must expose run()'')
      | Some (None, _) \<Rightarrow> Inl (PlainExn TypeError_cls ''LlamaIndex Workflows target must expose a string workflow_name'')
      | Some (Some name, workflow) \<Rightarrow>
          (case item_get (ig_config context) ''run_kwargs'' (PDict []) of
             PDict d \<Rightarrow> Inr \<lparr>lx_workflow = workflow\<lparr>lw_name := name\<rparr>, lx_workflow_kind = ig_workflow_kind context, lx_run_kwargs = d\<rparr>
           | _ \<Rightarrow> Inl (PlainExn TypeError_cls ''LlamaIndex Workflows run_kwargs must be a mapping'')))"

end
