(* ===== verification/LlamaIndex_Spans.thy ===== *)
theory LlamaIndex_Spans
  imports LlamaIndex_Provider "HOL-Library.Multiset"
begin

text \<open>
  The spans of a LlamaIndex execution: which observations of the buffer are open, that the execution holds exactly
  those, and what a replay does with them. A workflow reports the steps it runs (\<open>reports_steps\<close>).
\<close>

section \<open>Open observations\<close>

text \<open>The references seen and those that are open, none when one is started twice or ended when not open.\<close>

fun balance :: "span_ref set \<times> span_ref set \<Rightarrow> observation list \<Rightarrow> (span_ref set \<times> span_ref set) option" where
  "balance (D, S) [] = Some (D, S)"
| "balance (D, S) (Span_Start r _ _ _ _ _ _ # ops) = (if r \<in> D then None else balance (insert r D, insert r S) ops)"
| "balance (D, S) (Span_Complete r _ _ _ # ops) = (if r \<in> S then balance (D, S - {r}) ops else None)"
| "balance (D, S) (Span_Fail r _ _ _ # ops) = (if r \<in> S then balance (D, S - {r}) ops else None)"
| "balance (D, S) (Projected _ _ _ # ops) = balance (D, S) ops"

lemma balance_append: "balance x (ops @ ops') = Option.bind (balance x ops) (\<lambda>y. balance y ops')"
  by (induction x ops rule: balance.induct) auto

lemma balance_snoc:
  assumes "balance x ops = Some (D, S)"
  shows "r \<notin> D \<Longrightarrow> balance x (ops @ [Span_Start r run ty n nn p md]) = Some (insert r D, insert r S)"
    and "r \<in> S \<Longrightarrow> balance x (ops @ [Span_Complete r v m md]) = Some (D, S - {r})"
    and "r \<in> S \<Longrightarrow> balance x (ops @ [Span_Fail r e m md]) = Some (D, S - {r})"
    and "balance x (ops @ [Projected run p a]) = Some (D, S)"
  using assms by (simp_all add: balance_append)

definition starts_as :: "int \<Rightarrow> span_ref option \<Rightarrow> observation \<Rightarrow> bool" where
  "starts_as run parent a = (case a of
     Span_Start _ r _ _ _ p _ \<Rightarrow> r = run \<and> p = parent | Projected r _ _ \<Rightarrow> r = run | _ \<Rightarrow> True)"

section \<open>Replay\<close>

lemma buffered_name_is_no_number: "isl (int_of_text (buffered_name n))"
proof (rule ccontr)
  let ?t = "buffered_name n"
  assume "\<not> isl (int_of_text ?t)"
  obtain x where t: "?t = CHR ''b'' # x" by (simp add: buffered_name_def)
  have b: "\<not> is_space (CHR ''b'')" "\<not> is_digit (CHR ''b'')" by code_simp+
  have "dropWhile is_space (rev x @ [CHR ''b'']) = dropWhile is_space (rev x) @ [CHR ''b'']"
    using b(1) by (induction "rev x" arbitrary: x) (metis append_Cons append_Nil dropWhile.simps(2) dropWhile_append3)+
  then obtain y where s: "strip ?t = CHR ''b'' # y"
    using b(1) by (auto simp: strip_def t)
  then have "list_all (\<lambda>g. g \<noteq> [] \<and> list_all is_digit g) (split_on (CHR ''_'') (CHR ''b'' # y))"
    using \<open>\<not> isl (int_of_text ?t)\<close> by (simp add: int_of_text_def Let_def startswith_def split: if_splits)
  moreover obtain g gs where "split_on (CHR ''_'') (CHR ''b'' # y) = (CHR ''b'' # g) # gs"
    by (cases "split_on (CHR ''_'') y") auto
  ultimately show False using b(2) by simp
qed

definition open_refs :: "span_ref set \<Rightarrow> (span_ref \<times> span_ref) list \<Rightarrow> (span_ref \<times> span_ref) list" where
  "open_refs S refs = filter (\<lambda>(p, _). p \<in> S) refs"

lemma open_refs_start:
  assumes "r \<notin> fst ` set refs"
  shows "open_refs (insert r S) (dict_set r x refs) = dict_set r x (open_refs S refs)"
proof -
  have "map_of refs r = None" "map_of (open_refs S refs) r = None"
    using assms by (auto simp: open_refs_def map_of_eq_None_iff)
  moreover have "open_refs (insert r S) refs = open_refs S refs"
    using assms unfolding open_refs_def by (intro filter_cong) force+
  ultimately show ?thesis by (simp add: dict_set_fresh) (simp add: open_refs_def)
qed

lemma open_refs_end: "dict_pop r (open_refs S refs) = open_refs (S - {r}) refs"
  unfolding open_refs_def dict_pop_def filter_filter by (intro filter_cong) auto

lemma map_of_open_refs: "r \<in> S \<Longrightarrow> map_of (open_refs S refs) r = map_of refs r"
  by (induction refs) (auto simp: open_refs_def)

lemma watched_ended:
  assumes w: "watched s0 Y spans s" and env: "accepts env" and r: "map_of spans i = Some x"
  shows "watched s0 Y (dict_pop i spans) (fst (span_completed env x out m md s))"
    and "watched s0 Y (dict_pop i spans) (fst (span_failed env x e m md s))"
proof -
  note ok = watched_ok(1) [OF w]
  show "watched s0 Y (dict_pop i spans) (fst (span_completed env x out m md s))"
    "watched s0 Y (dict_pop i spans) (fst (span_failed env x e m md s))"
    by (rule watched_end [OF w]; use sink_call_kept [OF ok] ended_pending [OF env ok] r in simp)+
qed

lemma replay_watched:
  assumes env: "accepts env" and run: "run \<in> known (os_runs s0)" and parent: "parent_ok parent s0"
    and names: "D' \<subseteq> range buffered_name"
  shows "balance (D, S) ops = Some (D', S') \<Longrightarrow> list_all (starts_as run parent) ops
    \<Longrightarrow> watched s0 Y (open_refs S refs) s \<Longrightarrow> fst ` set refs \<subseteq> D \<Longrightarrow> S \<subseteq> fst ` set refs
    \<Longrightarrow> \<exists>refs'. watched s0 Y (open_refs S' refs') (replay_observations env refs ops s)"
proof (induction ops arbitrary: D S refs s)
  case Nil
  then show ?case by auto
next
  case (Cons a ops)
  have seen: "D \<subseteq> D'" if "balance (D, S) ops = Some (D', S')" for D S ops
    using that by (induction "(D, S)" ops arbitrary: D S rule: balance.induct) (auto split: if_splits)
  note w = Cons.prems(3)
  show ?case
  proof (cases a)
    case (Span_Start r i ty n nn p md)
    have r: "r \<notin> D" "balance (insert r D, insert r S) ops = Some (D', S')" and i: "i = run" "p = parent"
      using Cons.prems(1,2) Span_Start by (auto simp: starts_as_def split: if_splits)
    have "map_of refs q = None" if "parent = Some q" for q
    proof -
      have "\<not> isl (int_of_text q)" using parent that by (cases "int_of_text q") (simp_all add: parent_ok_def)
      then have "q \<notin> range buffered_name" using buffered_name_is_no_number by blast
      moreover have "fst ` set refs \<subseteq> range buffered_name" using names seen [OF r(2)] Cons.prems(4) by blast
      ultimately show ?thesis by (auto simp: map_of_eq_None_iff)
    qed
    then have p': "(case p of None \<Rightarrow> None | Some q \<Rightarrow> Some (case map_of refs q of None \<Rightarrow> q | Some x \<Rightarrow> x)) = parent"
      using i by (cases parent) simp_all
    have fresh: "r \<notin> fst ` set refs" using r(1) Cons.prems(4) by blast
    then have "r \<notin> fst ` set (open_refs S refs)" by (auto simp: open_refs_def)
    then obtain sp t where t: "span_started env run ty n nn parent (Some md) s = (t, Inr sp)"
      "watched s0 Y (dict_set r sp (open_refs S refs)) t"
      by (rule watched_started [OF w _ env run parent])
    have u: "watched s0 Y (open_refs (insert r S) (dict_set r sp refs)) t" using t(2) open_refs_start [OF fresh] by simp
    have "\<exists>refs'. watched s0 Y (open_refs S' refs') (replay_observations env (dict_set r sp refs) ops t)"
      by (rule Cons.IH [OF r(2) _ u]) (use Cons.prems(2,4,5) in \<open>auto simp: dom_update\<close>)
    then show ?thesis using t(1) i p' by (simp add: Span_Start)
  next
    case (Span_Complete r v m md)
    then have r: "r \<in> S" "balance (D, S - {r}) ops = Some (D', S')" using Cons.prems(1) by (auto split: if_splits)
    then obtain x where x: "map_of refs r = Some x" using Cons.prems(5) by (metis map_of_eq_None_iff not_None_eq subsetD)
    then have u: "watched s0 Y (dict_pop r (open_refs S refs)) (fst (span_completed env x v (Some m) (Some md) s))"
      using watched_ended(1) [OF w env] r(1) by (simp add: map_of_open_refs)
    have "\<exists>refs'. watched s0 Y (open_refs S' refs')
        (replay_observations env refs ops (fst (span_completed env x v (Some m) (Some md) s)))"
      by (rule Cons.IH [OF r(2) _ u [unfolded open_refs_end]]) (use Cons.prems(2,4,5) in auto)
    then show ?thesis by (simp add: Span_Complete x)
  next
    case (Span_Fail r e m md)
    then have r: "r \<in> S" "balance (D, S - {r}) ops = Some (D', S')" using Cons.prems(1) by (auto split: if_splits)
    then obtain x where x: "map_of refs r = Some x" using Cons.prems(5) by (metis map_of_eq_None_iff not_None_eq subsetD)
    then have u: "watched s0 Y (dict_pop r (open_refs S refs)) (fst (span_failed env x e (Some m) (Some md) s))"
      using watched_ended(2) [OF w env] r(1) by (simp add: map_of_open_refs)
    have "\<exists>refs'. watched s0 Y (open_refs S' refs')
        (replay_observations env refs ops (fst (span_failed env x e (Some m) (Some md) s)))"
      by (rule Cons.IH [OF r(2) _ u [unfolded open_refs_end]]) (use Cons.prems(2,4,5) in auto)
    then show ?thesis by (simp add: Span_Fail x)
  next
    case (Projected i p x)
    let ?t = "fst (integration_projection env i (case p of None \<Rightarrow> None | Some q \<Rightarrow> map_of refs q) x s)"
    have u: "watched s0 Y (open_refs S refs) ?t"
      by (rule watched_step [OF w sink_call_kept(1) [OF watched_ok(1) [OF w]]]) (simp add: projection_pending)
    have "\<exists>refs'. watched s0 Y (open_refs S' refs') (replay_observations env refs ops ?t)"
      by (rule Cons.IH [OF _ _ u]) (use Cons.prems Projected in auto)
    then show ?thesis by (simp add: Projected)
  qed
qed

section \<open>What an execution holds\<close>

text \<open>The references of the steps that run, and of those that stopped and wait to be ended.\<close>

definition running_refs :: "llama_run \<Rightarrow> span_ref list" where
  "running_refs g = concat (map snd (lv_spans g))"

fun refs_of :: "(string \<times> span_ref option \<times> pyitems) list \<Rightarrow> span_ref list" where
  "refs_of [] = []"
| "refs_of ((_, None, _) # ps) = refs_of ps"
| "refs_of ((_, Some r, _) # ps) = r # refs_of ps"

definition held :: "llama_run \<Rightarrow> span_ref multiset" where
  "held g = mset (running_refs g) + mset (refs_of (lv_pending g))"

text \<open>The buffer is in balance, each open observation is held once, and each name is one of the counter's.\<close>

definition llama_ok :: "int \<Rightarrow> span_ref option \<Rightarrow> span_ref multiset \<Rightarrow> llama_run \<Rightarrow> bool" where
  "llama_ok run parent H g \<longleftrightarrow> wf_dict (lv_spans g) \<and> 0 \<le> bo_counter (lv_buffer g)
     \<and> (\<exists>S. balance ({}, {}) (bo_operations (lv_buffer g)) = Some (buffered_name ` {1..bo_counter (lv_buffer g)}, S)
          \<and> H = mset_set S \<and> finite S)
     \<and> list_all (starts_as run parent) (bo_operations (lv_buffer g))"

lemma buffered_name_eq: "buffered_name m = buffered_name n \<longleftrightarrow> m = n"
  by (simp add: buffered_name_def int_text_eq)

lemma llama_ok_frame:
  "llama_ok run parent H g \<Longrightarrow> lv_buffer g' = lv_buffer g \<Longrightarrow> wf_dict (lv_spans g') \<Longrightarrow> llama_ok run parent H g'"
  by (simp add: llama_ok_def)

lemma llama_ok_start:
  assumes "llama_ok run parent H g" and "llama_span_started (Some run) parent n md g = (g', r)"
  obtains sp where "r = Some sp" "llama_ok run parent (add_mset sp H) g'" "lv_spans g' = lv_spans g" "lv_pending g' = lv_pending g"
proof -
  let ?b = "lv_buffer g"
  let ?n = "bo_counter ?b + 1"
  obtain S where S: "balance ({}, {}) (bo_operations ?b) = Some (buffered_name ` {1..bo_counter ?b}, S)" "H = mset_set S" "finite S"
    and rest: "wf_dict (lv_spans g)" "0 \<le> bo_counter ?b" "list_all (starts_as run parent) (bo_operations ?b)"
    using assms(1) by (auto simp: llama_ok_def)
  have g': "g' = g\<lparr>lv_buffer := ?b\<lparr>bo_counter := ?n, bo_operations := bo_operations ?b
      @ [Span_Start (buffered_name ?n) run ''step'' n (Some n) parent md]\<rparr>\<rparr>" "r = Some (buffered_name ?n)"
    using assms(2) by (auto simp: llama_span_started_def buffer_span_started_def buffer_operation_def Let_def)
  have new: "buffered_name ?n \<notin> buffered_name ` {1..bo_counter ?b}" by (auto simp: buffered_name_eq)
  have sub: "S \<subseteq> buffered_name ` {1..bo_counter ?b}"
  proof -
    have "S' \<subseteq> D'" if "balance (D, T) ops = Some (D', S')" "T \<subseteq> D" for D T ops D' S'
      using that by (induction "(D, T)" ops arbitrary: D T rule: balance.induct) (auto split: if_splits)
    then show ?thesis using S(1) by blast
  qed
  have "{1..?n} = insert ?n {1..bo_counter ?b}" using rest(2) by auto
  then have "balance ({}, {}) (bo_operations (lv_buffer g')) = Some (buffered_name ` {1..?n}, insert (buffered_name ?n) S)"
    using balance_snoc(1) [OF S(1) new] by (simp add: g')
  moreover have "add_mset (buffered_name ?n) H = mset_set (insert (buffered_name ?n) S)"
    using S(2,3) new sub by (subst mset_set.insert) auto
  ultimately have "llama_ok run parent (add_mset (buffered_name ?n) H) g'"
    using S(3) rest by (auto simp: llama_ok_def g' starts_as_def)
  then show ?thesis using that g' by simp
qed

lemma llama_ok_end:
  assumes "llama_ok run parent H g" and "sp \<in># H"
  shows "llama_ok run parent (H - {#sp#}) (llama_span_completed (Some sp) md g)"
    and "llama_ok run parent (H - {#sp#}) (llama_span_failed (Some sp) m md g)"
proof -
  let ?b = "lv_buffer g"
  obtain S where S: "balance ({}, {}) (bo_operations ?b) = Some (buffered_name ` {1..bo_counter ?b}, S)" "H = mset_set S" "finite S"
    and rest: "wf_dict (lv_spans g)" "0 \<le> bo_counter ?b" "list_all (starts_as run parent) (bo_operations ?b)"
    using assms(1) by (auto simp: llama_ok_def)
  have sp: "sp \<in> S" using assms(2) S(2,3) by simp
  have "H - {#sp#} = mset_set (S - {sp})" using sp S(2,3) by (simp add: mset_set_Diff)
  then show "llama_ok run parent (H - {#sp#}) (llama_span_completed (Some sp) md g)"
    "llama_ok run parent (H - {#sp#}) (llama_span_failed (Some sp) m md g)"
    using balance_snoc(2,3) [OF S(1) sp] S(3) rest
    by (auto simp: llama_ok_def llama_span_completed_def llama_span_failed_def on_observations_def buffer_operation_def starts_as_def)
qed

lemma llama_ok_projection:
  assumes "llama_ok run parent H g"
  shows "llama_ok run parent H (emit_llama_projection (Some run) sp a g)"
proof -
  obtain S where S: "balance ({}, {}) (bo_operations (lv_buffer g)) = Some (buffered_name ` {1..bo_counter (lv_buffer g)}, S)"
    "H = mset_set S" "finite S"
    using assms by (auto simp: llama_ok_def)
  then show ?thesis
    using balance_snoc(4) [OF S(1)] assms
    by (auto simp: llama_ok_def emit_llama_projection_def on_observations_def buffer_operation_def starts_as_def)
qed

lemma held_projection [simp]:
  "lv_spans (emit_llama_projection r sp a g) = lv_spans g" "lv_pending (emit_llama_projection r sp a g) = lv_pending g"
  "lv_spans (llama_span_failed x m md g) = lv_spans g" "lv_pending (llama_span_failed x m md g) = lv_pending g"
  "lv_spans (llama_span_completed x md g) = lv_spans g" "lv_pending (llama_span_completed x md g) = lv_pending g"
  by (simp_all add: emit_llama_projection_def llama_span_failed_def llama_span_completed_def on_observations_def split: option.split)

text \<open>An event keeps the balance, and the steps that run are no more than the workflow says.\<close>

lemma mset_refs_dict_set:
  "wf_dict d \<Longrightarrow> mset (concat (map snd (dict_set k ys d))) + mset (case map_of d k of None \<Rightarrow> [] | Some xs \<Rightarrow> xs)
     = mset (concat (map snd d)) + mset ys"
proof (induction d)
  case (Cons p d)
  then show ?case
    by (cases "fst p = k") (auto simp: wf_dict_def map_of_eq_None_iff split: option.splits)
qed simp

lemma running_refs_set:
  assumes "wf_dict (lv_spans g)"
  shows "mset (running_refs (g\<lparr>lv_spans := dict_set n ys (lv_spans g)\<rparr>)) + mset (spans_of_step n g) = mset (running_refs g) + mset ys"
  using mset_refs_dict_set [OF assms] by (simp add: running_refs_def spans_of_step_def)

lemma refs_of_append [simp]: "refs_of (ps @ qs) = refs_of ps @ refs_of qs"
  by (induction ps rule: refs_of.induct) auto

lemma pop_first_of_step_Some:
  "pop_first_of_step n ps = Some (p, qs) \<Longrightarrow> \<exists>a b. ps = a @ p # b \<and> qs = a @ b \<and> fst p = n"
proof (induction ps arbitrary: qs)
  case (Cons x ps)
  show ?case
  proof (cases "fst x = n")
    case True
    then show ?thesis using Cons.prems by fastforce
  next
    case False
    then obtain qs' where "pop_first_of_step n ps = Some (p, qs')" "qs = x # qs'" using Cons.prems by auto
    then show ?thesis using Cons.IH [of qs'] by (metis append_Cons)
  qed
qed simp

lemma pop_pending_terminal_Some:
  assumes "pop_pending_terminal n ps = Some ((k, sp, md), rest)"
  shows "mset (refs_of ps) = mset (refs_of rest) + (case sp of None \<Rightarrow> {#} | Some r \<Rightarrow> {#r#})"
proof -
  obtain qs where q: "pop_first_of_step n (rev ps) = Some ((k, sp, md), qs)" "rest = rev qs"
    using assms by (auto simp: pop_pending_terminal_def)
  obtain a b where "rev ps = a @ (k, sp, md) # b" "qs = a @ b" using pop_first_of_step_Some [OF q(1)] by blast
  then have "ps = rev b @ (k, sp, md) # rev a" "rest = rev b @ rev a" using q(2) by (simp_all add: rev_swap)
  then show ?thesis by (cases sp) simp_all
qed

definition steps_within :: "(string \<Rightarrow> nat) \<Rightarrow> llama_run \<Rightarrow> bool" where
  "steps_within f g \<longleftrightarrow> (\<forall>n. length (spans_of_step n g) \<le> f n)"

fun step_count :: "llama_event \<Rightarrow> (string \<Rightarrow> nat) \<Rightarrow> string \<Rightarrow> nat" where
  "step_count (Step_State_Changed c) f =
     (case sc_state c of Running \<Rightarrow> f(sc_name c := Suc (f (sc_name c)))
      | Not_Running \<Rightarrow> f(sc_name c := f (sc_name c) - 1) | Other_State \<Rightarrow> f)"
| "step_count _ f = f"

definition balanced :: "int \<Rightarrow> span_ref option \<Rightarrow> (string \<Rightarrow> nat) \<Rightarrow> llama_run \<Rightarrow> bool" where
  "balanced run parent f g \<longleftrightarrow> llama_ok run parent (held g) g \<and> steps_within f g"

lemma spans_of_step_set: "spans_of_step k (g\<lparr>lv_spans := dict_set n ys (lv_spans g)\<rparr>) = (if k = n then ys else spans_of_step k g)"
  by (simp add: spans_of_step_def map_of_dict_set)

lemma balanced_projection: "balanced run parent f g \<Longrightarrow> balanced run parent f (emit_llama_projection (Some run) sp a g)"
  using llama_ok_projection by (simp add: balanced_def held_def running_refs_def steps_within_def spans_of_step_def)

lemma last_of_step: "xs \<noteq> [] \<Longrightarrow> mset xs = add_mset (last xs) (mset (butlast xs))"
  by (metis append_butlast_last_id mset.simps(2) mset_append union_mset_add_mset_right add.right_neutral mset.simps(1))

lemma running_refs_pop:
  assumes wf: "wf_dict (lv_spans g)" and ne: "spans_of_step n g \<noteq> []"
  shows "mset (running_refs g) = add_mset (last (spans_of_step n g))
    (mset (running_refs (g\<lparr>lv_spans := dict_set n (butlast (spans_of_step n g)) (lv_spans g)\<rparr>)))" (is "_ = add_mset ?l ?r")
proof -
  let ?b = "mset (butlast (spans_of_step n g))"
  have "?r + mset (spans_of_step n g) = mset (running_refs g) + ?b" by (rule running_refs_set [OF wf])
  then have "mset (running_refs g) + ?b = add_mset ?l ?r + ?b" by (simp add: last_of_step [OF ne])
  then show ?thesis by (simp only: add_right_cancel)
qed

lemma balanced_step_state:
  assumes b: "balanced run parent f g"
  shows "balanced run parent (step_count (Step_State_Changed c) f) (handle_step_state (Some run) parent wid c g)"
proof (cases "sc_state c")
  case Running
  let ?n = "sc_name c"
  have ok: "llama_ok run parent (held g) g" and wf: "wf_dict (lv_spans g)" using b by (auto simp: balanced_def llama_ok_def)
  obtain g1 r where st: "llama_span_started (Some run) parent ?n (step_identity wid c) g = (g1, r)" by fastforce
  obtain sp where sp: "r = Some sp" "llama_ok run parent (add_mset sp (held g)) g1" "lv_spans g1 = lv_spans g" "lv_pending g1 = lv_pending g"
    by (rule llama_ok_start [OF ok st])
  let ?g2 = "g1\<lparr>lv_spans := dict_set ?n (spans_of_step ?n g1 @ [sp]) (lv_spans g1)\<rparr>"
  have "held ?g2 = add_mset sp (held g)"
    using running_refs_set [of g1 ?n "spans_of_step ?n g1 @ [sp]"] wf sp(3,4) by (simp add: held_def running_refs_def)
  moreover have "steps_within (step_count (Step_State_Changed c) f) ?g2"
    using b Running sp(3) by (auto simp: balanced_def steps_within_def spans_of_step_def map_of_dict_set split: option.splits)
  ultimately have "balanced run parent (step_count (Step_State_Changed c) f) ?g2"
    using llama_ok_frame [OF sp(2), of ?g2] wf sp(3) by (simp add: balanced_def)
  then show ?thesis
    using balanced_projection Running st sp(1) by (simp add: handle_step_state_def Let_def del: step_count.simps)
next
  case Not_Running
  let ?n = "sc_name c"
  let ?xs = "spans_of_step ?n g"
  have ok: "llama_ok run parent (held g) g" and wf: "wf_dict (lv_spans g)" using b by (auto simp: balanced_def llama_ok_def)
  let ?sp = "if ?xs = [] then None else Some (last ?xs)"
  let ?g1 = "if ?xs = [] then g else g\<lparr>lv_spans := dict_set ?n (butlast ?xs) (lv_spans g)\<rparr>"
  have "mset (running_refs ?g1) + (case ?sp of None \<Rightarrow> {#} | Some r \<Rightarrow> {#r#}) = mset (running_refs g)"
    using running_refs_pop [OF wf, of ?n] by simp
  then have h: "held (?g1\<lparr>lv_pending := lv_pending g @ [(?n, ?sp, md)]\<rparr>) = held g" for md
    by (auto simp: held_def running_refs_def split: if_splits)
  have "steps_within (step_count (Step_State_Changed c) f) (?g1\<lparr>lv_pending := lv_pending g @ [(?n, ?sp, md)]\<rparr>)" for md
    using b Not_Running by (auto simp: balanced_def steps_within_def spans_of_step_def map_of_dict_set diff_le_mono split: option.splits)
  then have "balanced run parent (step_count (Step_State_Changed c) f) (?g1\<lparr>lv_pending := lv_pending g @ [(?n, ?sp, md)]\<rparr>)" for md
    using h llama_ok_frame [OF ok] wf by (simp add: balanced_def)
  then show ?thesis
    using balanced_projection Not_Running by (cases "?xs = []") (simp_all add: handle_step_state_def Let_def del: step_count.simps)
next
  case Other_State
  then show ?thesis using b balanced_projection by (simp add: handle_step_state_def Let_def)
qed

lemma balanced_observe: "balanced run parent f g \<Longrightarrow> balanced run parent f (observe_event (Some run) wid e g)"
  unfolding observe_event_def Let_def
  by (rule balanced_projection) (simp add: balanced_def llama_ok_def held_def running_refs_def steps_within_def spans_of_step_def)

lemma balanced_failure:
  assumes b: "balanced run parent f g"
  shows "balanced run parent f (observe_failure (Some run) wid x g)"
proof -
  let ?n = "sf_step_name x"
  let ?g = "g\<lparr>lv_failed_steps := lv_failed_steps g @ [?n]\<rparr>"
  have b': "balanced run parent f ?g" using b by (simp add: balanced_def llama_ok_def held_def running_refs_def steps_within_def spans_of_step_def)
  have ok: "llama_ok run parent (held ?g) ?g" and wf: "wf_dict (lv_spans g)" using b' by (auto simp: balanced_def llama_ok_def)
  have same: "steps_within f (llama_span_failed sp m md h)" if "lv_spans h = lv_spans g" for sp m md h
    using b that by (simp add: balanced_def steps_within_def spans_of_step_def)
  have popped: "balanced run parent f (llama_span_failed sp m md (?g\<lparr>lv_pending := rest\<rparr>))"
    if p: "pop_pending_terminal ?n (lv_pending g) = Some ((k, sp, md'), rest)" for k sp md' rest m md
  proof -
    have h: "held ?g = held (?g\<lparr>lv_pending := rest\<rparr>) + (case sp of None \<Rightarrow> {#} | Some r \<Rightarrow> {#r#})"
      using pop_pending_terminal_Some [OF p] by (simp add: held_def running_refs_def)
    have ok': "llama_ok run parent (held ?g) (?g\<lparr>lv_pending := rest\<rparr>)" by (rule llama_ok_frame [OF ok]) (use wf in simp_all)
    have "held (llama_span_failed sp m md (?g\<lparr>lv_pending := rest\<rparr>)) = held (?g\<lparr>lv_pending := rest\<rparr>)"
      by (simp add: held_def running_refs_def)
    moreover have "llama_ok run parent (held (?g\<lparr>lv_pending := rest\<rparr>)) (llama_span_failed sp m md (?g\<lparr>lv_pending := rest\<rparr>))"
    proof (cases sp)
      case None
      then show ?thesis using ok' h by (simp add: llama_span_failed_def)
    next
      case (Some r)
      then have "llama_ok run parent (held ?g - {#r#}) (llama_span_failed (Some r) m md (?g\<lparr>lv_pending := rest\<rparr>))"
        by (intro llama_ok_end(2) [OF ok']) (simp only: h, simp)
      then show ?thesis using h Some by simp
    qed
    moreover have "steps_within f (llama_span_failed sp m md (?g\<lparr>lv_pending := rest\<rparr>))" by (rule same) simp
    ultimately show ?thesis by (simp add: balanced_def)
  qed
  have latest: "balanced run parent f (fail_latest_step ?n m md ?g)" for m md
  proof (cases "spans_of_step ?n ?g = []")
    case True
    then show ?thesis using b' by (simp add: fail_latest_step_def Let_def)
  next
    case False
    let ?xs = "spans_of_step ?n ?g"
    let ?g1 = "?g\<lparr>lv_spans := dict_set ?n (butlast ?xs) (lv_spans ?g)\<rparr>"
    have h: "held ?g = add_mset (last ?xs) (held ?g1)"
      using running_refs_pop [of ?g, OF _ False] wf by (simp add: held_def)
    have ok': "llama_ok run parent (held ?g) ?g1" by (rule llama_ok_frame [OF ok]) (use wf in simp_all)
    have "held (llama_span_failed (Some (last ?xs)) m md ?g1) = held ?g1" by (simp add: held_def running_refs_def)
    moreover have "steps_within f (llama_span_failed (Some (last ?xs)) m md ?g1)"
      using b' by (auto simp: balanced_def steps_within_def spans_of_step_def map_of_dict_set split: option.splits
          intro: le_trans [OF diff_le_self])
    ultimately show ?thesis
      using llama_ok_end(2) [OF ok', of "last ?xs" m md] h False by (simp add: balanced_def fail_latest_step_def Let_def)
  qed
  show ?thesis
    unfolding observe_failure_def Let_def
    by (rule balanced_projection) (use popped latest in \<open>simp split: option.split\<close>)
qed

lemma balanced_event:
  "balanced run parent f g \<Longrightarrow> balanced run parent (step_count e f) (handle_llama_event (Some run) parent wid e g)"
  using balanced_step_state balanced_observe balanced_failure
  by (cases e) (simp_all del: step_count.simps(1))

section \<open>Executions\<close>

lemma complete_stopped_balance:
  "llama_ok run parent H g \<Longrightarrow> mset (refs_of ps) \<subseteq># H \<Longrightarrow>
   llama_ok run parent (H - mset (refs_of ps)) (fold (\<lambda>(step_name, spn, metadata) g.
     llama_span_completed spn metadata (g\<lparr>lv_completed_steps := lv_completed_steps g @ [step_name]\<rparr>)) ps g)"
proof (induction ps arbitrary: g H)
  case (Cons p ps)
  obtain n sp md where p: "p = (n, sp, md)" by (cases p)
  let ?g = "g\<lparr>lv_completed_steps := lv_completed_steps g @ [n]\<rparr>"
  have ok: "llama_ok run parent H ?g" by (rule llama_ok_frame [OF Cons.prems(1)]) (use Cons.prems(1) in \<open>simp_all add: llama_ok_def\<close>)
  show ?case
  proof (cases sp)
    case None
    then show ?thesis using Cons.IH [OF ok] Cons.prems(2) p by (simp add: llama_span_completed_def)
  next
    case (Some r)
    have r: "r \<in># H" "mset (refs_of ps) \<subseteq># H - {#r#}"
      using Cons.prems(2) p Some by (auto simp: insert_subset_eq_iff dest: mset_subset_eq_insertD)
    show ?thesis using Cons.IH [OF llama_ok_end(1) [OF ok r(1)] r(2)] p Some by simp
  qed
qed simp

lemma fail_refs_balance:
  "llama_ok run parent H g \<Longrightarrow> mset xs \<subseteq># H \<Longrightarrow>
   llama_ok run parent (H - mset xs) (fold (\<lambda>sp. llama_span_failed (Some sp) m md) xs g)"
proof (induction xs arbitrary: g H)
  case (Cons r xs)
  have r: "r \<in># H" "mset xs \<subseteq># H - {#r#}" using Cons.prems(2) by (auto simp: insert_subset_eq_iff dest: mset_subset_eq_insertD)
  show ?case using Cons.IH [OF llama_ok_end(2) [OF Cons.prems(1) r(1)] r(2)] by simp
qed simp

lemma fail_steps_balance:
  "llama_ok run parent H g \<Longrightarrow> mset (concat (map snd ds)) \<subseteq># H \<Longrightarrow>
   llama_ok run parent (H - mset (concat (map snd ds))) (fold (\<lambda>(step_name, step_spans) g.
     fold (\<lambda>sp. llama_span_failed (Some sp) m (md step_name)) (rev step_spans)
       (g\<lparr>lv_spans := dict_set step_name [] (lv_spans g)\<rparr>)) ds g)"
proof (induction ds arbitrary: g H)
  case (Cons d ds)
  obtain n xs where d: "d = (n, xs)" by (cases d)
  let ?g = "g\<lparr>lv_spans := dict_set n [] (lv_spans g)\<rparr>"
  have ok: "llama_ok run parent H ?g" by (rule llama_ok_frame [OF Cons.prems(1)]) (use Cons.prems(1) in \<open>simp_all add: llama_ok_def\<close>)
  have all: "mset (rev xs) + mset (concat (map snd ds)) \<subseteq># H" using Cons.prems(2) d by simp
  then have xs: "mset (rev xs) \<subseteq># H" by (rule subset_mset.order_trans [OF mset_subset_eq_add_left])
  then have ds: "mset (concat (map snd ds)) \<subseteq># H - mset (rev xs)" using all by (simp add: subset_mset.le_diff_conv2 add.commute)
  show ?case using Cons.IH [OF fail_refs_balance [OF ok xs, of m "md n"] ds] d by simp
qed simp

definition reports_steps ::
  "'t host \<Rightarrow> (obs_state \<times> 't) llama_workflow \<Rightarrow> ('t \<Rightarrow> string \<Rightarrow> nat) \<Rightarrow> ('t \<Rightarrow> int set) \<Rightarrow> bool" where
  "reports_steps h workflow running own \<longleftrightarrow>
     (\<forall>kwargs w w' r. lw_run workflow kwargs w = (w', r) \<longrightarrow> tables_kept own w w' \<and> running (snd w') = (\<lambda>_. 0))
     \<and> (\<forall>w w' y. lw_next workflow w = Some (w', y) \<longrightarrow> tables_kept own w w'
          \<and> running (snd w') = (case y of Inr (Some e) \<Rightarrow> step_count e (running (snd w)) | _ \<Rightarrow> running (snd w)))
     \<and> (\<forall>w w' r. lw_await workflow w = Some (w', r) \<longrightarrow> tables_kept own w w' \<and> running (snd w') = running (snd w))
     \<and> (\<forall>t. running (fst (ho_monotonic h t)) = running t \<and> own (fst (ho_monotonic h t)) = own t)"

text \<open>At the head of the loop, and when it is left.\<close>

definition llama_loop_ok ::
  "int \<Rightarrow> span_ref option \<Rightarrow> ('t \<Rightarrow> string \<Rightarrow> nat) \<Rightarrow> ('t \<Rightarrow> int set) \<Rightarrow> obs_state \<times> 't \<Rightarrow> llama_run \<Rightarrow> obs_state \<times> 't \<Rightarrow> bool"
where
  "llama_loop_ok run parent running own w0 g w \<longleftrightarrow> balanced run parent (running (snd w)) g \<and> kept (fst w0) (fst w)
     \<and> pending (fst w) - own (snd w) \<subseteq> pending (fst w0)"

lemma kept_by_engine:
  assumes "tables_kept own w w'" and "kept s0 (fst w)" and "pending (fst w) - own (snd w) \<subseteq> P"
  shows "kept s0 (fst w')" and "pending (fst w') - own (snd w') \<subseteq> P"
  using assms kept_trans [of s0 "fst w" "fst w'"] by (auto simp: tables_kept_def kept_def)

definition llama_loop_left ::
  "int \<Rightarrow> span_ref option \<Rightarrow> ('t \<Rightarrow> string \<Rightarrow> nat) \<Rightarrow> ('t \<Rightarrow> int set) \<Rightarrow> obs_state \<times> 't
     \<Rightarrow> llama_run \<times> (obs_state \<times> 't) \<Rightarrow> unit res \<Rightarrow> bool"
where
  "llama_loop_left run parent running own w0 x r \<longleftrightarrow> llama_ok run parent (held (fst x)) (fst x)
     \<and> kept (fst w0) (fst (snd x)) \<and> pending (fst (snd x)) - own (snd (snd x)) \<subseteq> pending (fst w0)
     \<and> (\<not> isl r \<longrightarrow> steps_within (running (snd (snd x))) (fst x))"

lemma llama_loop:
  assumes ok: "llama_loop_ok run parent running own w0 g w" and rep: "reports_steps h workflow running own"
    and go: "drain (lw_next workflow) (llama_turn h (Some run) parent control wid) g w = Some (x, r)"
  shows "llama_loop_left run parent running own w0 x r"
proof (rule drain_rule [where P = "llama_loop_ok run parent running own w0", OF go ok])
  fix g w w' y
  assume p: "llama_loop_ok run parent running own w0 g w" and n: "lw_next workflow w = Some (w', y)"
  have eng: "tables_kept own w w'" "running (snd w') = (case y of Inr (Some e) \<Rightarrow> step_count e (running (snd w)) | _ \<Rightarrow> running (snd w))"
    using rep n unfolding reports_steps_def by blast+
  have kp: "kept (fst w0) (fst w')" "pending (fst w') - own (snd w') \<subseteq> pending (fst w0)"
    using kept_by_engine [OF eng(1), of "fst w0" "pending (fst w0)"] p by (auto simp: llama_loop_ok_def)
  have b: "balanced run parent (running (snd w)) g" using p by (simp add: llama_loop_ok_def)
  show "case y of Inl e \<Rightarrow> llama_loop_left run parent running own w0 (g, w') (Inl e)
    | Inr None \<Rightarrow> llama_loop_left run parent running own w0 (g, w') (Inr ())
    | Inr (Some e) \<Rightarrow> (case llama_turn h (Some run) parent control wid e (g, w') of
          (z, Inl x) \<Rightarrow> llama_loop_left run parent running own w0 z (Inl x)
        | (z, Inr _) \<Rightarrow> llama_loop_ok run parent running own w0 (fst z) (snd z))"
  proof (cases "\<exists>e. y = Inr (Some e)")
    case True
    then obtain e where e: "y = Inr (Some e)" by blast
    obtain s t where w': "w' = (s, t)" by fastforce
    obtain t' c where c: "check_control h control t = (t', c)" by fastforce
    have "running (fst (ho_monotonic h t)) = running t" "own (fst (ho_monotonic h t)) = own t"
      using rep unfolding reports_steps_def by blast+
    moreover have "t' = t \<or> t' = fst (ho_monotonic h t)"
      using c by (auto simp: check_control_def split: option.splits prod.splits)
    ultimately have t': "running t' = running t" "own t' = own t" by auto
    have "balanced run parent (running t') (handle_llama_event (Some run) parent wid e g)"
      using balanced_event [OF b] eng(2) t'(1) by (simp add: e w')
    then show ?thesis
      using c t' kp b by (cases c) (simp_all add: e w' llama_turn_def llama_loop_left_def llama_loop_ok_def balanced_def)
  next
    case False
    then show ?thesis
      using kp b eng(2) by (auto simp: llama_loop_left_def balanced_def split: sum.split option.split)
  qed
qed

lemma no_steps_running:
  assumes "steps_within (\<lambda>_. 0) g" and "wf_dict (lv_spans g)"
  shows "running_refs g = []"
proof -
  have "xs = []" if "(n, xs) \<in> set (lv_spans g)" for n xs
  proof -
    have "spans_of_step n g = xs" using that assms(2) by (simp add: spans_of_step_def map_of_eq_Some_iff_wf [symmetric])
    then show ?thesis using assms(1) by (auto simp: steps_within_def)
  qed
  then show ?thesis by (auto simp: running_refs_def)
qed

text \<open>
  What the execution leaves open in the buffer: nothing, when it returned and no step runs; the steps
  that stopped, when it raised.
\<close>

lemma run_steps_open:
  fixes w0 w :: "obs_state \<times> 't"
  assumes w0: "obs_ok (fst w0)" and w: "kept (fst w0) (fst w)" "pending (fst w) - own (snd w) \<subseteq> pending (fst w0)"
      "running (snd w) = (\<lambda>_. 0)"
    and rep: "reports_steps h workflow running own"
    and go: "run_steps h (Some run) parent control wid workflow w = Some ((g, w'), r)"
  shows "kept (fst w0) (fst w') \<and> pending (fst w') - own (snd w') \<subseteq> pending (fst w0)
    \<and> (\<exists>H. llama_ok run parent H g \<and> (\<not> isl r \<longrightarrow> running (snd w') = (\<lambda>_. 0) \<longrightarrow> H = {#}))"
proof -
  have "llama_loop_ok run parent running own w0 new_llama_run w"
    using w by (simp add: llama_loop_ok_def balanced_def llama_ok_def held_def new_llama_run_def running_refs_def
        empty_observations_def steps_within_def spans_of_step_def)
  note loop = llama_loop [OF this rep]
  obtain x r1 where d: "drain (lw_next workflow) (llama_turn h (Some run) parent control wid) new_llama_run w = Some (x, r1)"
    using go by (auto simp: run_steps_def split: option.splits)
  obtain g1 w1 where x: "x = (g1, w1)" by (cases x)
  have left: "llama_ok run parent (held g1) g1" "kept (fst w0) (fst w1)" "pending (fst w1) - own (snd w1) \<subseteq> pending (fst w0)"
    "\<not> isl r1 \<Longrightarrow> steps_within (running (snd w1)) g1"
    using loop [OF d] by (simp_all add: llama_loop_left_def x)
  have wf: "wf_dict (lv_spans g1)" using left(1) by (simp add: llama_ok_def)
  have failed: "\<exists>H. llama_ok run parent H (fail_step_spans m wid g1)" for m
    unfolding fail_step_spans_def
    by (intro exI, rule fail_steps_balance [OF left(1)]) (simp add: held_def running_refs_def)
  show ?thesis
  proof (cases r1)
    case (Inl e)
    then show ?thesis using go d x left failed by (auto simp: run_steps_def)
  next
    case (Inr u)
    obtain w2 r2 where a: "lw_await workflow w1 = Some (w2, r2)"
      using go d x Inr by (auto simp: run_steps_def split: option.splits)
    have eng: "tables_kept own w1 w2" "running (snd w2) = running (snd w1)" using rep a unfolding reports_steps_def by blast+
    note kp = kept_by_engine [OF eng(1) left(2,3)]
    show ?thesis
    proof (cases r2)
      case (Inl e)
      then show ?thesis using go d x \<open>r1 = Inr u\<close> a kp failed by (auto simp: run_steps_def)
    next
      case (Inr v)
      then have g: "g = complete_stopped_steps g1" "w' = w2" "r = Inr v" using go d x \<open>r1 = Inr u\<close> a by (auto simp: run_steps_def)
      have "llama_ok run parent (held g1 - mset (refs_of (lv_pending g1))) g"
        unfolding g complete_stopped_steps_def by (rule complete_stopped_balance [OF left(1)]) (simp add: held_def)
      moreover have "held g1 - mset (refs_of (lv_pending g1)) = {#}" if "running (snd w') = (\<lambda>_. 0)"
        using no_steps_running [OF _ wf] left(4) \<open>r1 = Inr u\<close> that eng(2) g(2) by (simp add: held_def)
      ultimately show ?thesis using kp g by blast
    qed
  qed
qed

text \<open>The replay of such a buffer.\<close>

lemma replay_llama:
  assumes env: "accepts env" and run: "run \<in> known (os_runs s0)" and parent: "parent_ok parent s0"
    and ok: "llama_ok run parent H g" and s: "kept s0 s" "pending s - Y \<subseteq> pending s0"
  shows "kept s0 (replay_into (Some env) (lv_buffer g) s)
    \<and> (H = {#} \<longrightarrow> pending (replay_into (Some env) (lv_buffer g) s) - Y \<subseteq> pending s0)"
proof -
  let ?ops = "bo_operations (lv_buffer g)"
  obtain S where S: "balance ({}, {}) ?ops = Some (buffered_name ` {1..bo_counter (lv_buffer g)}, S)" "H = mset_set S" "finite S"
    and starts: "list_all (starts_as run parent) ?ops"
    using ok by (auto simp: llama_ok_def)
  have "watched s0 Y (open_refs {} []) s" using s by (auto simp: watched_def open_refs_def spans_live_def)
  from replay_watched [OF env run parent _ S(1) starts this]
  obtain refs where w: "watched s0 Y (open_refs S refs) (replay_observations env [] ?ops s)" by auto
  have "open_refs S refs = []" if "H = {#}" using that S(2,3) by (simp add: open_refs_def mset_set_empty_iff)
  then show ?thesis using w by (auto simp: watched_def replay_into_def span_rows_def)
qed

text \<open>The sink only changes the tables.\<close>

lemma llamaindex_sink:
  "llamaindex_execute h sink parent x payload cx w = Some (w', r) \<Longrightarrow>
   \<exists>u. llamaindex_execute h sink' parent x payload cx w = Some (u, r) \<and> snd u = snd w'"
  by (auto simp: llamaindex_execute_def Let_def split: prod.splits sum.splits option.splits if_splits)

end
