(* ===== verification/Provider_Properties.thy ===== *)
theory Provider_Properties
  imports LangGraph_Spans LlamaIndex_Spans Native_Properties
begin

text \<open>
  The properties of the providers of workflow engines: which spans an execution leaves open, and that
  observing an execution does not change its result.
\<close>

definition plain_host :: "'t host" where
  "plain_host = \<lparr>ho_flags = (\<lambda>_. {}), ho_monotonic = (\<lambda>t. (t, 0)), ho_attribute = (\<lambda>_ _ _. None),
     ho_exception = (\<lambda>_ _. True)\<rparr>"

text \<open>
  C14. On a database that accepts every row, a LangGraph execution that raises, in the graph or in the
  provider, ends every span it started, and so does one that returns when the graph has given the result
  of every task it reported. Only spans the graph holds itself are left to it. The hypothesis on the graph
  is that it keeps the tables in order, reports no task again before its result, and gives results whose
  error is a text, an exception or nothing and whose interrupts have a length: at another result the
  provider raises after it has forgotten the span (\<open>odd_error_strands_its_span\<close>).
\<close>

theorem langgraph_ends_its_spans:
  assumes "accepts env" and "obs_ok (fst w)" and "run \<in> known (os_runs (fst w))" and "parent_ok parent (fst w)"
    and "reports_tasks h (le_graph x) opened own" and "cx_run_id context = Some run"
    and "run_graph h (Some env) parent x graph_input context resumed w = Some (w', r)"
  shows "kept (fst w) (fst w')
    \<and> (isl r \<or> opened (snd w') = {} \<longrightarrow> pending (fst w') - own (snd w') \<subseteq> pending (fst w))"
proof -
  let ?ob = "\<lparr>ov_sink = Some env, ov_run_id = Some run, ov_parent = parent\<rparr>"
  obtain w1 r1 where m: "gr_stream (le_graph x) graph_input (execution_config (le_invoke_config x) context) w = (w1, r1)" by fastforce
  have k: "tables_kept own w w1" "opened (snd w1) = {}" using assms(5) m unfolding reports_tasks_def by blast+
  then have w1: "kept (fst w) (fst w1)" "pending (fst w1) - own (snd w1) \<subseteq> pending (fst w)"
    using assms(2) by (auto simp: tables_kept_def)
  show ?thesis
  proof (cases r1)
    case (Inl e)
    then show ?thesis using assms(7) m w1 by (simp add: run_graph_def)
  next
    case (Inr u)
    then obtain y r2 where d: "drain (gr_next (le_graph x)) (graph_turn h ?ob (cx_control context)) new_graph_run w1 = Some (y, r2)"
      and f: "finish_graph h ?ob x resumed (y, r2) = (w', r)"
      using assms(6,7) m by (auto simp: run_graph_def Let_def)
    have "graph_loop_ok (fst w) opened own new_graph_run w1"
      using w1 by (auto simp: graph_loop_ok_def watched_def new_graph_run_def spans_live_def)
    from graph_loop [OF this assms(5) _ _ assms(1,3) _ d]
    have "graph_loop_left (fst w) opened own y r2" using assms(4) by simp
    from finish_graph_pending [OF this _ assms(1) f]
    have "kept (fst w) (fst w') \<and> (isl r2 \<or> opened (snd w') = {} \<longrightarrow> pending (fst w') - own (snd w') \<subseteq> pending (fst w))" by simp
    moreover have "isl r \<longrightarrow> isl r2" using finished_graph [OF f] by blast
    ultimately show ?thesis by blast
  qed
qed

definition raising_graph :: "nat graph" where
  "raising_graph = \<lparr>gr_stream = (\<lambda>i c (s, t). ((s, 0), Inr ())),
     gr_next = (\<lambda>(s, t). Some (if t = 0
       then ((s, 1), Inr (Some (PDict [(AStr ''type'', PStr ''task''), (AStr ''step'', PInt 1),
         (AStr ''payload'', PDict [(AStr ''id'', PStr ''t1''), (AStr ''name'', PStr ''draft'')])])))
       else ((s, t), Inl (PlainExn ValueError_cls ''no model''))))\<rparr>"

definition raising_executable :: "nat langgraph_executable" where
  "raising_executable = \<lparr>le_graph = raising_graph, le_workflow_kind = ''demo'', le_output_key = None, le_invoke_config = []\<rparr>"

lemma raising_graph_reports:
  "reports_tasks plain_host raising_graph (\<lambda>t. if t = 0 then {} else {''t1''}) (\<lambda>_. {})"
  by (auto simp: reports_tasks_def raising_graph_def plain_host_def tables_kept_def kept_refl reports_item_def task_event_def
      stream_part_def item_get_def Let_def split: if_splits)

lemma raising_graph_blind: "graph_blind (le_graph raising_executable)"
  by (simp add: graph_blind_def raising_executable_def raising_graph_def)

lemma raising_graph_alone:
  assumes "cx_control cx = None"
  shows "map_option snd (run_graph plain_host None None raising_executable (Graph_Input []) cx False (tables_with_run, 5))
    = Some (Inl (PlainExn ValueError_cls ''no model''))"
proof -
  let ?loop = "drain_within 3 (gr_next raising_graph)
    (graph_turn plain_host \<lparr>ov_sink = None, ov_run_id = cx_run_id cx, ov_parent = None\<rparr> None) new_graph_run (tables_with_run, 0)"
  have "map_option snd ?loop = Some (Inl (PlainExn ValueError_cls ''no model''))" by code_simp
  then obtain x where "drain (gr_next raising_graph)
      (graph_turn plain_host \<lparr>ov_sink = None, ov_run_id = cx_run_id cx, ov_parent = None\<rparr> None) new_graph_run (tables_with_run, 0)
      = Some (x, Inl (PlainExn ValueError_cls ''no model''))"
    using drain_within by fastforce
  then show ?thesis
    using assms by (cases x) (auto simp: run_graph_def raising_executable_def raising_graph_def finish_graph_def Let_def)
qed

lemma raising_graph_raises:
  obtains w' where "run_graph plain_host sink None raising_executable (Graph_Input []) (default_context\<lparr>cx_run_id := Some 1\<rparr>)
    False (s, 5) = Some (w', Inl (PlainExn ValueError_cls ''no model''))"
proof -
  have "map_option snd (run_graph plain_host None None raising_executable (Graph_Input []) (default_context\<lparr>cx_run_id := Some 1\<rparr>)
      False (tables_with_run, 5)) = Some (Inl (PlainExn ValueError_cls ''no model''))"
    by (rule raising_graph_alone) (simp add: default_context_def)
  then show ?thesis using run_graph_blind [OF raising_graph_blind] that by fastforce
qed

theorem langgraph_ends_its_spans_witness:
  "\<exists>w' e. run_graph plain_host (Some accepting_env) None raising_executable (Graph_Input []) (default_context\<lparr>cx_run_id := Some 1\<rparr>)
       False (tables_with_run, 5) = Some (w', Inl e) \<and> obs_ok (fst w') \<and> pending (fst w') = {}"
proof -
  obtain w' where go: "run_graph plain_host (Some accepting_env) None raising_executable (Graph_Input [])
      (default_context\<lparr>cx_run_id := Some 1\<rparr>) False (tables_with_run, 5) = Some (w', Inl (PlainExn ValueError_cls ''no model''))"
    by (rule raising_graph_raises)
  have "kept tables_with_run (fst w') \<and> pending (fst w') - {} \<subseteq> pending tables_with_run"
    using langgraph_ends_its_spans [OF _ _ _ _ _ _ go, of 1 "\<lambda>t. if t = 0 then {} else {''t1''}" "\<lambda>_. {}"]
      tables_with_run_ok raising_graph_reports
    by (simp add: accepts_def accepting_env_def parent_ok_def raising_executable_def)
  then show ?thesis using go tables_with_run_ok(3) by (auto simp: kept_def)
qed

text \<open>
  The result of a task whose error is neither a text nor an exception: the provider takes the span out of
  its table, and then \<open>safe_run_error_message\<close> raises. Nothing is written, and the handler of the
  exception, which fails the spans of the table, no longer finds this one: it stays open for ever.
\<close>

definition odd_result :: "string \<Rightarrow> pyval" where
  "odd_result task_id = PDict [(AStr ''type'', PStr ''task_result''), (AStr ''payload'', PDict [(AStr ''id'', PStr task_id),
     (AStr ''name'', PStr ''draft''), (AStr ''error'', PDict [(AStr ''code'', PInt 1)])])]"

theorem odd_error_strands_its_span:
  "\<exists>g' e. handle_stream_item h ob (odd_result task_id) (g, s) = ((g', s), Inl e)
    \<and> gv_spans g' = dict_pop task_id (gv_spans g) \<and> map_of (gv_spans g') task_id = None
    \<and> fail_open_spans ob m (gv_spans g')
      = fold (\<lambda>(i, sp). graph_node_failed ob (Some sp) m (task_metadata i)) (dict_pop task_id (gv_spans g))"
  by (simp add: handle_stream_item_def stream_part_def odd_result_def item_get_def handle_task_result_def end_task_span_def
      error_value_message_def map_of_dict_pop fail_open_spans_def Let_def)

text \<open>
  C15. Observing a LangGraph execution does not change it: with any sink or none, any parent span and any
  tables, the same result or exception comes out, and the graph goes through the same states, if it
  does not itself read the tables.
\<close>

theorem langgraph_is_observed_only:
  assumes "graph_blind (le_graph x)"
  shows "map_option (map_prod snd id) (run_graph h sink parent x graph_input context resumed (s, t))
    = map_option (map_prod snd id) (run_graph h sink' parent' x graph_input context resumed (s', t))"
  (is "?a sink parent s = ?a sink' parent' s'")
proof -
  have one: "?a sink' parent' s' = Some y" if "?a sink parent s = Some y" for sink parent s sink' parent' s' y
    using run_graph_blind [OF assms, of h sink parent graph_input "context" resumed s t _ _ sink' parent' s'] that
    by (cases y) force
  show ?thesis
  proof (cases "?a sink parent s")
    case None
    then show ?thesis using one [of sink' parent' s' _ sink parent s] by (metis not_None_eq)
  next
    case (Some y)
    show ?thesis by (rule trans [OF Some sym [OF one [OF Some]]])
  qed
qed

theorem langgraph_is_observed_only_witness:
  "map_option snd (run_graph plain_host (Some accepting_env) (Some ''3'') raising_executable (Graph_Input []) default_context
     False (tables_with_run, 5)) = Some (Inl (PlainExn ValueError_cls ''no model''))"
proof -
  have "map_option snd (run_graph plain_host None None raising_executable (Graph_Input []) default_context False (tables_with_run, 5))
      = Some (Inl (PlainExn ValueError_cls ''no model''))"
    by (rule raising_graph_alone) (simp add: default_context_def)
  moreover note langgraph_is_observed_only [OF raising_graph_blind, of plain_host "Some accepting_env" "Some ''3''" "Graph_Input []"
      default_context False tables_with_run 5 None None tables_with_run]
  ultimately show ?thesis by (auto simp: map_prod_def split: prod.splits)
qed

text \<open>
  An execution returns when the graph answers each time and comes closer to its end with every item.
\<close>

theorem langgraph_returns:
  fixes left :: "'t \<Rightarrow> nat"
  assumes "\<And>w. gr_next (le_graph x) w \<noteq> None"
    and "\<And>w w' i. gr_next (le_graph x) w = Some (w', Inr (Some i)) \<Longrightarrow> left (snd w') < left (snd w)"
    and "\<And>t. left (fst (ho_monotonic h t)) \<le> left t"
  shows "\<exists>w' r. run_graph h sink parent x graph_input context resumed w = Some (w', r)"
proof -
  have turn: "left (snd (snd z)) \<le> left (snd w)" if "graph_turn h ob control i (g, w) = (z, r)" for ob control i g w z r
    using that assms(3) [of "snd w"]
    by (auto simp: graph_turn_def check_control_def split: prod.splits sum.splits option.splits)
  have loop: "\<exists>y r. drain (gr_next (le_graph x)) (graph_turn h ob control) g w = Some (y, r)" for ob control g w
    by (rule drain_returns [where m = "\<lambda>w. left (snd w)", OF assms(1)])
      (use assms(2) turn in \<open>meson le_less_trans\<close>)
  obtain w1 r1 where "gr_stream (le_graph x) graph_input (execution_config (le_invoke_config x) context) w = (w1, r1)" by fastforce
  moreover obtain y r2 where "drain (gr_next (le_graph x)) (graph_turn h \<lparr>ov_sink = sink, ov_run_id = cx_run_id context, ov_parent = parent\<rparr>
      (cx_control context)) new_graph_run w1 = Some (y, r2)"
    using loop by blast
  moreover obtain w' r where "finish_graph h \<lparr>ov_sink = sink, ov_run_id = cx_run_id context, ov_parent = parent\<rparr> x resumed (y, r2) = (w', r)"
    by fastforce
  ultimately show ?thesis by (cases r1) (simp_all add: run_graph_def Let_def)
qed

text \<open>
  C16. On a database that accepts every row, a LlamaIndex execution that returns ends every span it started,
  when each step that began to run has also stopped. Only spans the workflow holds itself are left to it.
  The hypothesis on the workflow is that it keeps the tables in order; \<open>running\<close> counts the steps it
  has reported as running and not as stopped.
\<close>

theorem llamaindex_ends_its_spans:
  assumes "accepts env" and "obs_ok (fst w)" and "run \<in> known (os_runs (fst w))" and "parent_ok parent (fst w)"
    and "reports_steps h (lx_workflow x) running own" and "cx_run_id context = Some run"
    and "llamaindex_execute h (Some env) parent x input_payload context w = Some (w', r)"
  shows "kept (fst w) (fst w')
    \<and> (\<not> isl r \<and> running (snd w') = (\<lambda>_. 0) \<longrightarrow> pending (fst w') - own (snd w') \<subseteq> pending (fst w))"
proof -
  obtain w1 r1 where m: "lw_run (lx_workflow x) (run_arguments x context input_payload) w = (w1, r1)" by fastforce
  have "tables_kept own w w1" and idle: "running (snd w1) = (\<lambda>_. 0)" using assms(5) m unfolding reports_steps_def by blast+
  then have w1: "kept (fst w) (fst w1)" "pending (fst w1) - own (snd w1) \<subseteq> pending (fst w)"
    using assms(2) by (auto simp: tables_kept_def)
  show ?thesis
  proof (cases "\<exists>handler. r1 = Inr handler \<and> rh_awaitable_stream handler")
    case False
    then show ?thesis using assms(7) m w1 by (cases r1) (auto simp: llamaindex_execute_def)
  next
    case True
    then obtain wid g s t r2 where d: "run_steps h (Some run) parent (cx_control context) wid (lx_workflow x) w1 = Some ((g, (s, t)), r2)"
      and w': "w' = (replay_into (Some env) (lv_buffer g) s, t)" and r: "r = r_bind r2 (llama_result x wid g)"
      using assms(6,7) m by (auto simp: llamaindex_execute_def Let_def split: option.splits)
    obtain H where H: "llama_ok run parent H g" "\<not> isl r2 \<longrightarrow> running t = (\<lambda>_. 0) \<longrightarrow> H = {#}"
      and k: "kept (fst w) s" "pending s - own t \<subseteq> pending (fst w)"
      using run_steps_open [OF assms(2) w1 idle assms(5) d] by auto
    have "isl r2 \<Longrightarrow> isl r" using r by (cases r2) simp_all
    then show ?thesis using replay_llama [OF assms(1,3,4) H(1) k] H(2) w' by auto
  qed
qed

text \<open>A workflow whose events are given, and that then answers or fails.\<close>

definition listed_workflow :: "llama_event list \<Rightarrow> pyval res \<Rightarrow> (obs_state \<times> nat) llama_workflow" where
  "listed_workflow events answer = \<lparr>lw_name = ''listed'',
     lw_run = (\<lambda>kwargs (s, t). ((s, 0), Inr \<lparr>rh_awaitable_stream = True, rh_run_id = None\<rparr>)),
     lw_next = (\<lambda>(s, t). Some (if t < length events then ((s, Suc t), Inr (Some (events ! t))) else ((s, t), Inr None))),
     lw_await = (\<lambda>w. Some (w, answer))\<rparr>"

definition listed_executable :: "llama_event list \<Rightarrow> pyval res \<Rightarrow> (obs_state \<times> nat) llamaindex_executable" where
  "listed_executable events answer = \<lparr>lx_workflow = listed_workflow events answer, lx_workflow_kind = ''demo'', lx_run_kwargs = []\<rparr>"

definition step_event :: "string \<Rightarrow> step_state \<Rightarrow> llama_event" where
  "step_event name st = Step_State_Changed \<lparr>sc_name = name, sc_worker_id = PStr ''0'', sc_state = st,
     sc_state_value = PStr ''state'', sc_input_event_name = PStr ''Start'', sc_output_event_name = PNone\<rparr>"

definition listed_running :: "llama_event list \<Rightarrow> nat \<Rightarrow> string \<Rightarrow> nat" where
  "listed_running events t = fold step_count (take t events) (\<lambda>_. 0)"

lemma listed_loop:
  assumes "case drain_within n (lw_next (listed_workflow events answer)) (llama_turn plain_host run_id parent None wid) new_llama_run (s, 0) of
      Some ((g, w), r) \<Rightarrow> w = (s, length events) \<and> r = Inr () \<and> P g | None \<Rightarrow> False"
  obtains g where "drain (lw_next (listed_workflow events answer)) (llama_turn plain_host run_id parent None wid) new_llama_run (s, 0)
      = Some ((g, (s, length events)), Inr ())" "P g"
proof -
  obtain x r where "drain_within n (lw_next (listed_workflow events answer)) (llama_turn plain_host run_id parent None wid) new_llama_run (s, 0)
      = Some (x, r)"
    using assms by (auto split: option.splits)
  note run = this
  show ?thesis using assms run that drain_within [OF run] by (cases x) auto
qed

lemma listed_workflow_reports:
  "reports_steps plain_host (listed_workflow events answer) (listed_running events) (\<lambda>_. {})"
  by (auto simp: reports_steps_def listed_workflow_def plain_host_def tables_kept_def kept_refl listed_running_def
      take_Suc_conv_app_nth split: if_splits)

theorem llamaindex_ends_its_spans_witness:
  "\<exists>w' r. llamaindex_execute plain_host (Some accepting_env) None
       (listed_executable [step_event ''draft'' Running, step_event ''draft'' Not_Running] (Inr PNone)) []
       (default_context\<lparr>cx_run_id := Some 1\<rparr>) (tables_with_run, 0) = Some (w', Inr r)
     \<and> obs_ok (fst w') \<and> pending (fst w') = {}"
proof -
  let ?es = "[step_event ''draft'' Running, step_event ''draft'' Not_Running]"
  let ?run = "\<lambda>sink. llamaindex_execute plain_host sink None (listed_executable ?es (Inr PNone)) []
      (default_context\<lparr>cx_run_id := Some 1\<rparr>) (tables_with_run, 0)"
  have "case drain_within 3 (lw_next (listed_workflow ?es (Inr PNone))) (llama_turn plain_host (Some 1) None None ''1'') new_llama_run
      (tables_with_run, 0) of Some ((g, w), r) \<Rightarrow> w = (tables_with_run, length ?es) \<and> r = Inr () \<and> True | None \<Rightarrow> False"
    by code_simp
  then obtain g where "drain (lw_next (listed_workflow ?es (Inr PNone))) (llama_turn plain_host (Some 1) None None ''1'') new_llama_run
      (tables_with_run, 0) = Some ((g, (tables_with_run, length ?es)), Inr ())"
    by (rule listed_loop)
  moreover have "int_text 1 = ''1''" by code_simp
  ultimately obtain w' r where "?run None = Some (w', r)" "\<not> isl r" "snd w' = 2"
    by (simp add: llamaindex_execute_def run_steps_def listed_executable_def listed_workflow_def llama_run_id_def default_context_def
        llama_result_def WorkflowExecutionResult_def replay_into_def Let_def)
  then obtain r' where "?run None = Some (w', Inr r')" by (cases r) simp_all
  from llamaindex_sink [OF this, of "Some accepting_env"] \<open>snd w' = 2\<close>
  obtain u where go: "?run (Some accepting_env) = Some (u, Inr r')" "snd u = 2" by auto
  have "listed_running ?es 2 = (\<lambda>_. 0)" by (simp add: listed_running_def step_event_def numeral_2_eq_2 fun_eq_iff)
  then have "kept tables_with_run (fst u) \<and> pending (fst u) - {} \<subseteq> pending tables_with_run"
    using llamaindex_ends_its_spans [OF _ _ _ _ _ _ go(1), of 1 "listed_running ?es" "\<lambda>_. {}"]
      tables_with_run_ok listed_workflow_reports go(2)
    by (simp add: accepts_def accepting_env_def parent_ok_def listed_executable_def)
  then show ?thesis using go tables_with_run_ok(3) by (auto simp: kept_def)
qed

text \<open>
  An execution that fails does not end the spans of the steps that had succeeded before: they wait for a
  completion that is only recorded when the whole workflow returns. Here \<open>draft\<close> succeeds and the workflow
  then fails, and the buffer that is replayed starts a span for \<open>draft\<close> and never ends it.
\<close>

theorem failure_strands_finished_steps:
  fixes e
  defines "workflow \<equiv> listed_workflow [step_event ''draft'' Running, step_event ''draft'' Not_Running] (Inl e)"
  shows "\<exists>g w ref run ty nn parent md ops.
     run_steps plain_host (Some 1) None None ''r1'' workflow (tables_with_run, 0) = Some ((g, w), Inl e)
     \<and> bo_operations (lv_buffer g) = Span_Start ref run ty ''draft'' nn parent md # ops
     \<and> balance ({}, {}) (bo_operations (lv_buffer g)) = Some ({ref}, {ref})"
proof -
  let ?es = "[step_event ''draft'' Running, step_event ''draft'' Not_Running]"
  let ?P = "\<lambda>g. lv_spans g = [(''draft'', [])]
     \<and> (case bo_operations (lv_buffer g) of Span_Start ref _ _ name _ _ _ # _ \<Rightarrow> name = ''draft''
            \<and> balance ({}, {}) (bo_operations (lv_buffer g)) = Some ({ref}, {ref}) | _ \<Rightarrow> False)"
  have "case drain_within 3 (lw_next (listed_workflow ?es (Inl e))) (llama_turn plain_host (Some 1) None None ''r1'') new_llama_run
      (tables_with_run, 0) of Some ((g, w), r) \<Rightarrow> w = (tables_with_run, length ?es) \<and> r = Inr () \<and> ?P g | None \<Rightarrow> False"
    by code_simp
  then obtain g where g: "drain (lw_next workflow) (llama_turn plain_host (Some 1) None None ''r1'') new_llama_run (tables_with_run, 0)
      = Some ((g, (tables_with_run, length ?es)), Inr ())" "?P g"
    unfolding workflow_def by (rule listed_loop)
  have "lv_buffer (fail_step_spans m wid g) = lv_buffer g" for m wid using g(2) by (simp add: fail_step_spans_def)
  moreover have "lw_await workflow u = Some (u, Inl e)" for u by (simp add: workflow_def listed_workflow_def)
  ultimately have "run_steps plain_host (Some 1) None None ''r1'' workflow (tables_with_run, 0)
      = Some ((fail_step_spans (safe_error e) ''r1'' g, (tables_with_run, length ?es)), Inl e)"
    "lv_buffer (fail_step_spans (safe_error e) ''r1'' g) = lv_buffer g"
    using g(1) by (simp_all add: run_steps_def)
  then show ?thesis using g(2) by (auto split: list.splits observation.splits)
qed

end
