(* ===== verification/Spec2Isabelle.thy ===== *)
theory Spec2Isabelle
  imports Safety_Properties Config_Properties Storage_Properties Durability_Properties Control_Properties
    Observability_Properties Native_Properties Engine_Properties Integration_Properties
    Provider_Properties
begin

text \<open>
  A verification library for the Cobalt Wren workflow framework, the Python package
  \<open>src/src/cobalt_wren\<close>.

  The program. A control plane (\<open>apps/automation\<close>) keeps runs and execution jobs in a database and
  drives them through their lifecycle. To execute a run it asks a runtime for a prepared workflow:
  a configuration mapping is prechecked, normalized, validated against the registry of plugins and
  assembled into providers, tools, stores and event sinks (\<open>config\<close>, \<open>plugins\<close>, \<open>runtime\<close>,
  \<open>workflows\<close>). A workflow runs behind an adapter that turns every failure into an error of the
  framework, calls tools behind a policy (\<open>integrations/tools\<close>), emits artifacts and saves
  checkpoints in stores (\<open>integrations/artifact\<close>, \<open>integrations/checkpoint\<close>). Whatever is persisted
  or shown passes through redaction and summaries (\<open>core\<close>). Applications use all this through an engine
  (\<open>api/engine.py\<close>), of which a deployment has one, owned by \<open>services/runtime.py\<close> and shared by threads.
  A workflow is a plugin's own object, a Native workflow of awaitable steps (\<open>native\<close>), or one of another
  workflow engine that an integration provider wraps (\<open>integrations/workflows\<close>).

  Theories and the code they model, in the order of the imports:

  \<^item> \<open>Py_Values\<close>: the prelude. Python's values as the datatype \<open>pyval\<close> (a dict is an association
    list in insertion order), the text of values (\<open>str\<close>, \<open>repr\<close>), string methods, equality and
    truth, the sequencing of fallible code (\<open>r_bind\<close>) and the generic lemmas on lists and maps.
  \<^item> \<open>Errors\<close>: \<open>api/errors.py\<close>, \<open>core/errors.py\<close>. The exception classes with their hierarchy;
    \<open>exn + 'a\<close> (\<open>'a res\<close>) is the result of code that may raise.
  \<^item> \<open>Regex\<close>: the regular expressions the code uses, as a datatype with a backtracking matcher that
    takes alternatives in Python's order; it is total, by recursion on the expression and the text.
  \<^item> \<open>Redaction\<close>: \<open>core/redaction.py\<close>. \<open>Json\<close> and \<open>Sha256\<close>: \<open>json.dumps\<close> and \<open>hashlib.sha256\<close>
    as the code calls them. \<open>Summary\<close>: \<open>core/summary.py\<close>, \<open>core/result_safety.py\<close>.
  \<^item> \<open>Config_Security\<close>, \<open>Config_Normalize\<close>: \<open>config/security.py\<close>, \<open>loader.py\<close>, \<open>models.py\<close>,
    \<open>normalizer.py\<close>, \<open>artifact_store.py\<close>, \<open>checkpoint_store.py\<close>.
  \<^item> \<open>Plugin_Registry\<close>: \<open>api/plugins.py\<close>, \<open>plugins/registry.py\<close>; its locale \<open>plugin_catalog\<close> says
    what a client may rely on after registrations, and is interpreted on the registry.
  \<^item> \<open>Runtime_Assembly\<close>: \<open>config/validator.py\<close>, \<open>runtime\<close>, \<open>workflows/prepare.py\<close> and
    \<open>requirements.py\<close>. The hooks of a plugin are functions inside its contributions.
  \<^item> \<open>Native_Schema\<close>: \<open>native/schema.py\<close>, over a datatype of type annotations.
  \<^item> \<open>Tools\<close>: \<open>integrations/tools\<close> and the failure policy of \<open>integrations/observability\<close>; a tool
    is a function on an arbitrary state, and the locale \<open>tool_guard\<close> is the contract of a policy.
  \<^item> \<open>Artifact_Base\<close>, \<open>Artifact_Store\<close>, \<open>Artifact_Emission\<close>: \<open>integrations/artifact\<close>.
  \<^item> \<open>Checkpoint_Base\<close>, \<open>Checkpoint_Store\<close>, \<open>Checkpoint_Memory\<close>: \<open>integrations/checkpoint\<close>; the
    abstract store is an append-only log per stream, which the memory store refines.
  \<^item> \<open>Disk\<close>: a file tree (directories, symbolic links, and files with their inode) and computations
    on it, \<open>io\<close>: each call that changes the tree takes the next fate, by which it is carried out,
    fails, or is the last before the process dies. \<open>wp\<close> is the weakest precondition over all fates,
    or over none (\<open>faulty = False\<close>); \<open>settle\<close> runs a computation without failures.
    \<open>Json_Decode\<close> and \<open>Json_Sorted\<close>: \<open>json.loads\<close>, and what a value written with sorted keys reads
    back as; how a decimal numeral reads as a float is the parameter \<open>float_of\<close>.
  \<^item> \<open>Artifact_Filesystem\<close>, \<open>Artifact_Durability\<close>: \<open>integrations/artifact/filesystem_store.py\<close>,
    the invariant of its files under failures, and the artifact protocol interpreted on it.
  \<^item> \<open>Checkpoint_Files\<close>, \<open>Checkpoint_Filesystem\<close>: \<open>integrations/checkpoint/filesystem_store.py\<close>.
    \<open>Checkpoint_Reading\<close>: what each kind of file reads back as. \<open>Checkpoint_Layout\<close>: the files of a
    stream at each stage of a write (announced, identified, recorded, committed) and which step leads
    from one to the next. \<open>Checkpoint_Recovery\<close>: recovery settles a stream from every stage.
    \<open>Checkpoint_Writing\<close>, \<open>Checkpoint_Queries\<close>: the operations refine the log of \<open>Checkpoint_Store\<close>
    under any failures, and the checkpoint protocol is interpreted on them.
  \<^item> \<open>Workflow_Api\<close>: \<open>api/workflow.py\<close>, \<open>workflows/adapter.py\<close>. \<open>Run_Lifecycle\<close>, \<open>Jobs\<close>: models,
    policies and services of \<open>apps/automation\<close>; a transaction that locks a row is one step on the
    state, and the lifecycle of a run is a step relation the actions are shown to follow.
  \<^item> \<open>Diagnostics\<close>: \<open>services/diagnostics.py\<close>, the bounded snapshot of a value. \<open>Event_Store\<close>: the
    tables observability writes, their transactions, and the retention of snapshots and projections.
    \<open>Event_Sink\<close>: \<open>integrations/observability/django_event_sink.py\<close> and \<open>events.py\<close>, with \<open>Durations\<close>
    for the rounding of floats in a span's duration. \<open>Event_Invariants\<close>: what is persisted of a value.
    \<open>Event_Timeline\<close>: the invariant of the tables and that every call keeps it. \<open>Llm\<close>:
    \<open>integrations/llm\<close>, and the locale \<open>observed_call\<close>, the contract of an observer over the sink,
    interpreted on the observed tool registry and on the observed client.

  \<^item> \<open>Native_Steps\<close>: \<open>native/policies.py\<close> and the steps of \<open>native/__init__.py\<close>: the context of an
    execution, its buffer of observations, and a step with its retries, timeouts and delays. A task is a
    function on the state of type \<open>'w native_state\<close> that may not return. \<open>Native_Invariants\<close>: what a step
    leaves in the context whatever runs while it awaits (a preorder on contexts that the other tasks keep
    to), and which steps return. \<open>Native_Execution\<close>: the execution of a workflow and the replay of the
    buffer into the event sink, with the proof that it ends the spans it starts. \<open>Native_Helpers\<close>:
    \<open>native/helpers.py\<close>, \<open>definitions.py\<close> and \<open>recipes.py\<close>.
  \<^item> \<open>Engine\<close>: \<open>api/engine.py\<close>, \<open>workflows/catalog.py\<close>. \<open>Engine_Owner\<close>: \<open>services/runtime.py\<close>,
    the settings of a deployment and the owner of its engine. \<open>Engine_Threads\<close>: the calls on the owner
    cut at the points where its lock is taken or released, a step relation of threads, and its invariant.
  \<^item> \<open>Integrations\<close>: \<open>api/integrations.py\<close>, \<open>integrations/workflows/definitions.py\<close> and \<open>registry.py\<close>,
    \<open>ui/integration_health.py\<close>; the registry is another provider of the contract \<open>plugin_catalog\<close>.
    \<open>Integration_Actions\<close>: \<open>ui/integration_actions.py\<close>, over the dispatch of \<open>Jobs\<close>.

  \<^item> \<open>Span_Frames\<close>: what the calls that start and end spans do to the tables, and the spans under watch that
    whoever runs a workflow has to end; shared by Native workflows and the providers.
  \<^item> \<open>Provider_Streams\<close>: the values, the clock and the streams of a workflow engine, which is a parameter, and
    the loop over a stream with its rules (an invariant, a simulation, that it returns).
    \<open>LangGraph_Provider\<close>, \<open>LlamaIndex_Provider\<close>: \<open>integrations/workflows/langgraph_provider.py\<close> and
    \<open>llamaindex_provider.py\<close>. \<open>LangGraph_Spans\<close>, \<open>LlamaIndex_Spans\<close>: which spans an execution holds and
    ends, and that observing a graph does not change its result.

  The properties stand in \<open>Safety_Properties\<close>, \<open>Config_Properties\<close>, \<open>Storage_Properties\<close>,
  \<open>Durability_Properties\<close>, \<open>Control_Properties\<close>, \<open>Observability_Properties\<close>, \<open>Native_Properties\<close>,
  \<open>Engine_Properties\<close>, \<open>Integration_Properties\<close> and \<open>Provider_Properties\<close>; those with a claim number and hypotheses have a
  witness at a concrete input.

  Assumptions and bounds. Digests: within a set of names (bodies, keys, identifiers of checkpoints, of
  streams) no two have the same SHA-256 digest (\<open>collision_free\<close>, \<open>apart\<close>); nothing else is assumed
  of it. Where a claim says that spans are ended, of an observed tool call, of a Native execution and of
  the executions of the providers, the database accepts every row (\<open>accepts\<close>): a refused end of a span is
  suppressed by the code and leaves the span open. A workflow engine reports a task or a step once before
  its end, keeps the tables in order, and gives results of tasks whose error is a text, an exception or
  nothing and whose interrupts have a length (\<open>reports_tasks\<close>, \<open>reports_steps\<close>). Records and manifests stay within the limit that reading enforces (\<open>storable\<close>,
  \<open>fa_storable\<close>), since the code writes larger ones and can never read them. A context has at most 1000
  occurrences of steps and 100 metrics, the limits of the code. Recursion is structural or has its
  measure; there is no fuel. Loops that the code does not bound are partial functions: the delay of a
  retry counts down in floats and is shown to return for delays of at most \<open>2 ^ 48\<close> seconds, and the
  loop over a stream returns when the stream comes closer to its end with every item.

  Not modelled: failures of reads, the order in which a power failure loses writes that were not
  synced (a dead process loses none), processes that ignore the store's lock, integers of more than
  4300 digits; coroutines that swallow their cancellation, notes added to exceptions, and delays
  that are not finite; plugin code that calls back into the owner of the engine that runs it; what a generator
  does when it is closed early, and exceptions that are not \<open>Exception\<close>s; the
  overflow of \<open>float\<close> on a huge integer timeout and symbolic links at the paths that the stores clean up; the
  inspection of Python source (\<open>native/local.py\<close>) and the loading of modules; and the code around
  services that are not part of the repository (object storage, Postgres, language models, the web
  framework with its pages and templates, the command line).
\<close>

end
